(* ===== verification/Serialize.thy ===== *)
theory Serialize
  imports Prelude
begin

unbundle bit_operations_syntax

section \<open>Wire primitives (serialize.cpp) and the codec interface\<close>

text \<open>
  \<open>append_*\<close> and \<open>read_*\<close> translate \<^verbatim>\<open>serialize.cpp\<close>. An appender takes the output vector
  and returns it extended; a reader takes the input and the offset and returns the item and the
  offset behind it, or the exception. \<open>bindR\<close> sequences readers the way the code calls them with
  the same offset variable, and \<open>read_many\<close> is the counted loop every decoder of the program has.

  The locale \<open>wire_codec\<close> is the contract between an encoder and its reader: the reader inverts
  the encoder wherever the bytes stand (\<open>reads\<close>), and whatever the reader accepts is the encoding
  of its result (\<open>consumes\<close>), so no two byte strings decode to the same item.
\<close>

type_synonym 'a reader = "bytes \<Rightarrow> nat \<Rightarrow> ('a \<times> nat) res"

definition returnR :: "'a \<Rightarrow> 'a reader" where
  "returnR x input offset = Inr (x, offset)"

definition bindR :: "'a reader \<Rightarrow> ('a \<Rightarrow> 'b reader) \<Rightarrow> 'b reader" where
  "bindR m f input offset = bindE (m input offset) (\<lambda>(x, offset'). f x input offset')"

definition failR :: "exn \<Rightarrow> 'a reader" where
  "failR e input offset = Inl e"

definition guardR :: "bool \<Rightarrow> exn \<Rightarrow> 'a reader \<Rightarrow> 'a reader" where
  "guardR bad e m = (if bad then failR e else m)"

definition liftR :: "'a res \<Rightarrow> 'a reader" where
  "liftR r input offset = bindE r (\<lambda>x. Inr (x, offset))"

fun read_many :: "'a reader \<Rightarrow> nat \<Rightarrow> 'a list reader" where
  "read_many m 0 = returnR []"
| "read_many m (Suc n) = bindR m (\<lambda>x. bindR (read_many m n) (\<lambda>xs. returnR (x # xs)))"

subsection \<open>The two laws of a reader\<close>

definition reads :: "'a reader \<Rightarrow> bytes \<Rightarrow> 'a \<Rightarrow> bool" where
  "reads m bs x \<longleftrightarrow>
     (\<forall>pre suf. m (pre @ bs @ suf) (length pre) = Inr (x, length pre + length bs))"

definition consumes :: "'a reader \<Rightarrow> ('a \<Rightarrow> bytes \<Rightarrow> bool) \<Rightarrow> bool" where
  "consumes m Q \<longleftrightarrow>
     (\<forall>input off x off'. m input off = Inr (x, off') \<longrightarrow> off \<le> length input \<longrightarrow>
        off \<le> off' \<and> off' \<le> length input \<and> Q x (take (off' - off) (drop off input)))"

named_theorems reads_intros "composition rules for reads"

lemma readsD: "reads m bs x \<Longrightarrow> m (pre @ bs @ suf) (length pre) = Inr (x, length pre + length bs)"
  by (simp add: reads_def)

lemma reads_whole: "reads m bs x \<Longrightarrow> m bs 0 = Inr (x, length bs)"
  using readsD [of m bs x "[]" "[]"] by simp

lemma reads_return [reads_intros]: "reads (returnR x) [] x"
  by (simp add: reads_def returnR_def)

lemma reads_bind [reads_intros]:
  assumes "reads m bs x" and "reads (f x) cs y"
  shows "reads (bindR m f) (bs @ cs) y"
  unfolding reads_def
proof (intro allI)
  fix pre suf
  have "f x ((pre @ bs) @ cs @ suf) (length (pre @ bs)) = Inr (y, length (pre @ bs) + length cs)"
    using assms(2) by (rule readsD)
  then show "bindR m f (pre @ (bs @ cs) @ suf) (length pre) = Inr (y, length pre + length (bs @ cs))"
    using readsD [OF assms(1), of pre "cs @ suf"] by (simp add: bindR_def add.assoc)
qed

lemma reads_bind_last:
  "reads m bs x \<Longrightarrow> reads (f x) [] y \<Longrightarrow> reads (bindR m f) bs y"
  using reads_bind [of m bs x f "[]" y] by simp

lemma reads_bind_pure: "reads m [] x \<Longrightarrow> reads (f x) cs y \<Longrightarrow> reads (bindR m f) cs y"
  using reads_bind [of m "[]" x f cs y] by simp

lemma reads_guard [reads_intros]: "\<not> bad \<Longrightarrow> reads m bs x \<Longrightarrow> reads (guardR bad e m) bs x"
  by (simp add: guardR_def)

lemma reads_lift [reads_intros]: "r = Inr x \<Longrightarrow> reads (liftR r) [] x"
  by (simp add: reads_def liftR_def)

lemma consumesD:
  "consumes m Q \<Longrightarrow> m input off = Inr (x, off') \<Longrightarrow> off \<le> length input \<Longrightarrow>
     off \<le> off' \<and> off' \<le> length input \<and> Q x (take (off' - off) (drop off input))"
  by (simp add: consumes_def)

lemma consumes_whole:
  "consumes m Q \<Longrightarrow> m input 0 = Inr (x, length input) \<Longrightarrow> Q x input"
  using consumesD [of m Q input 0 x "length input"] by simp

lemma consumes_mono: "consumes m Q \<Longrightarrow> (\<And>x bs. Q x bs \<Longrightarrow> R x bs) \<Longrightarrow> consumes m R"
  unfolding consumes_def by blast

lemma consumes_return: "consumes (returnR x) (\<lambda>y bs. y = x \<and> bs = [])"
  by (simp add: consumes_def returnR_def)

lemma consumes_fail: "consumes (failR e) (\<lambda>y bs. False)"
  by (simp add: consumes_def failR_def)

lemma consumes_lift: "consumes (liftR r) (\<lambda>y bs. r = Inr y \<and> bs = [])"
  by (auto simp: consumes_def liftR_def)

lemma consumes_guard: "consumes m Q \<Longrightarrow> consumes (guardR bad e m) (\<lambda>y bs. \<not> bad \<and> Q y bs)"
  by (simp add: guardR_def consumes_def failR_def)

lemma take_drop_split:
  assumes "i \<le> j" "j \<le> k"
  shows "take (k - i) (drop i xs) = take (j - i) (drop i xs) @ take (k - j) (drop j xs)"
proof -
  have "k - i = (j - i) + (k - j)" and "drop (j - i) (drop i xs) = drop j xs"
    using assms by simp_all
  then show ?thesis by (simp add: take_add)
qed

lemma consumes_bind:
  assumes "consumes m Q" and "\<And>x. consumes (f x) (R x)"
  shows "consumes (bindR m f) (\<lambda>y bs. \<exists>x b1 b2. bs = b1 @ b2 \<and> Q x b1 \<and> R x y b2)"
  unfolding consumes_def
proof (intro allI impI)
  fix input off y off'
  assume "bindR m f input off = Inr (y, off')" and off: "off \<le> length input"
  then obtain x k where m: "m input off = Inr (x, k)" and f: "f x input k = Inr (y, off')"
    by (auto simp: bindR_def)
  from consumesD [OF assms(1) m off]
  have k: "off \<le> k" "k \<le> length input" and Q: "Q x (take (k - off) (drop off input))" by auto
  from consumesD [OF assms(2) f k(2)]
  have j: "k \<le> off'" "off' \<le> length input" and R: "R x y (take (off' - k) (drop k input))" by auto
  have "take (off' - off) (drop off input) =
      take (k - off) (drop off input) @ take (off' - k) (drop k input)"
    by (rule take_drop_split [OF k(1) j(1)])
  with Q R have split: "\<exists>x b1 b2. take (off' - off) (drop off input) = b1 @ b2 \<and> Q x b1 \<and> R x y b2"
    by blast
  have "off \<le> off'"
    using k(1) j(1) by (rule order.trans)
  then show "off \<le> off' \<and> off' \<le> length input \<and>
      (\<exists>x b1 b2. take (off' - off) (drop off input) = b1 @ b2 \<and> Q x b1 \<and> R x y b2)"
    using j(2) split by (intro conjI)
qed

lemmas consumes_rules = consumes_return consumes_fail consumes_lift consumes_guard consumes_bind

subsection \<open>The codec interface\<close>

locale wire_codec =
  fixes enc :: "'a \<Rightarrow> bytes" and dec :: "'a reader" and good :: "'a \<Rightarrow> bool"
  assumes dec_enc: "good x \<Longrightarrow> reads dec (enc x) x"
    and dec_sound: "consumes dec (\<lambda>x bs. good x \<and> bs = enc x)"
begin

lemma dec_enc_whole: "good x \<Longrightarrow> dec (enc x) 0 = Inr (x, length (enc x))"
  using dec_enc by (rule reads_whole)

lemma dec_canonical: "dec input 0 = Inr (x, length input) \<Longrightarrow> good x \<and> input = enc x"
  using consumes_whole [OF dec_sound] by simp

lemma enc_inj: "good x \<Longrightarrow> good y \<Longrightarrow> enc x = enc y \<Longrightarrow> x = y"
  by (metis dec_enc_whole sum.inject(2) prod.inject)

text \<open>No encoding is a proper prefix of another, so concatenated items separate uniquely.\<close>

lemma enc_prefix_free:
  assumes "good x" "good y" "enc x @ s = enc y @ t"
  shows "x = y \<and> s = t"
proof -
  have "dec (enc x @ s) 0 = Inr (x, length (enc x))"
    using readsD [OF dec_enc [OF assms(1)], of "[]" s] by simp
  moreover have "dec (enc y @ t) 0 = Inr (y, length (enc y))"
    using readsD [OF dec_enc [OF assms(2)], of "[]" t] by simp
  ultimately have "x = y"
    using assms(3) by simp
  with assms(3) show ?thesis by simp
qed

lemma read_many_enc:
  "(\<And>x. x \<in> set xs \<Longrightarrow> good x) \<Longrightarrow> n = length xs \<Longrightarrow> reads (read_many dec n) (concat (map enc xs)) xs"
proof (induction xs arbitrary: n)
  case Nil
  then show ?case by (simp add: reads_return)
next
  case (Cons x xs)
  have "reads (bindR (read_many dec (length xs)) (\<lambda>xs. returnR (x # xs))) (concat (map enc xs)) (x # xs)"
    using Cons by (intro reads_bind_last [of _ _ xs]) (auto intro: reads_return)
  then show ?case
    using Cons by (auto intro!: reads_bind dec_enc)
qed

lemma read_many_sound:
  "consumes (read_many dec n)
     (\<lambda>xs bs. length xs = n \<and> (\<forall>x \<in> set xs. good x) \<and> bs = concat (map enc xs))"
proof (induction n)
  case 0
  show ?case by (simp add: consumes_def returnR_def)
next
  case (Suc n)
  show ?case
    unfolding read_many.simps
    by (rule consumes_mono, rule consumes_bind [OF dec_sound], rule consumes_bind [OF Suc],
        rule consumes_return) auto
qed

end

subsection \<open>Bounds checks and little-endian integers\<close>

definition require_available :: "bytes \<Rightarrow> nat \<Rightarrow> nat \<Rightarrow> unit res" where
  "require_available input offset count =
     (if offset > length input \<or> count > length input - offset
      then Inl (RuntimeError ''Unexpected end of serialized data'') else Inr ())"

definition append_u32_le :: "bytes \<Rightarrow> u32 \<Rightarrow> bytes" where
  "append_u32_le output v =
     foldl (\<lambda>out shift. out @ [ucast (drop_bit shift v)]) output [0, 8, 16, 24]"

definition append_i32_le :: "bytes \<Rightarrow> u32 \<Rightarrow> bytes" where
  "append_i32_le output v = append_u32_le output v"

definition append_u64_le :: "bytes \<Rightarrow> u64 \<Rightarrow> bytes" where
  "append_u64_le output v =
     foldl (\<lambda>out shift. out @ [ucast (drop_bit shift v)]) output [0, 8, 16, 24, 32, 40, 48, 56]"

text \<open>\<open>Amount\<close> is \<^verbatim>\<open>std::int64_t\<close>, modelled by the integer it denotes: the cast to unsigned is
  reduction modulo \<open>2 ^ 64\<close>, the cast back reads two's complement.\<close>

definition append_i64_le :: "bytes \<Rightarrow> int \<Rightarrow> bytes" where
  "append_i64_le output v = append_u64_le output (word_of_int v)"

definition append_compact_size :: "bytes \<Rightarrow> u64 \<Rightarrow> bytes" where
  "append_compact_size output v =
     (if v < 253 then output @ [ucast v]
      else if v \<le> 0xffff then output @ [253, ucast v, ucast (drop_bit 8 v)]
      else if v \<le> 0xffffffff then append_u32_le (output @ [254]) (ucast v)
      else append_u64_le (output @ [255]) v)"

definition read_u32_le :: "u32 reader" where
  "read_u32_le input offset =
     bindE (require_available input offset 4) (\<lambda>_.
       Inr (foldl (\<lambda>v i. v OR push_bit (8 * i) (ucast (input ! (offset + i)))) 0 [0, 1, 2, 3],
            offset + 4))"

definition read_i32_le :: "u32 reader" where
  "read_i32_le = read_u32_le"

definition read_u64_le :: "u64 reader" where
  "read_u64_le input offset =
     bindE (require_available input offset 8) (\<lambda>_.
       Inr (foldl (\<lambda>v i. v OR push_bit (8 * i) (ucast (input ! (offset + i)))) 0
              [0, 1, 2, 3, 4, 5, 6, 7],
            offset + 8))"

definition read_i64_le :: "int reader" where
  "read_i64_le input offset = bindE (read_u64_le input offset) (\<lambda>(v, off). Inr (sint v, off))"

definition read_compact_size :: "u64 reader" where
  "read_compact_size input offset =
     bindE (require_available input offset 1) (\<lambda>_.
       let marker = input ! offset; offset = offset + 1 in
       if marker < 253 then Inr (ucast marker, offset)
       else if marker = 253 then
         bindE (require_available input offset 2) (\<lambda>_.
           let v = ucast (input ! offset) OR push_bit 8 (ucast (input ! (offset + 1))) in
           if v < 253 then Inl (RuntimeError ''Non-canonical CompactSize value'')
           else Inr (v, offset + 2))
       else if marker = 254 then
         bindE (read_u32_le input offset) (\<lambda>(v, offset).
           if v \<le> 0xffff then Inl (RuntimeError ''Non-canonical CompactSize value'')
           else Inr (ucast v, offset))
       else
         bindE (read_u64_le input offset) (\<lambda>(v, offset).
           if v \<le> 0xffffffff then Inl (RuntimeError ''Non-canonical CompactSize value'')
           else Inr (v, offset)))"

definition read_bytes :: "nat \<Rightarrow> bytes reader" where
  "read_bytes count input offset =
     bindE (require_available input offset count) (\<lambda>_.
       Inr (take count (drop offset input), offset + count))"

subsection \<open>Little-endian words\<close>

text \<open>The reference view of the shift loops: the bytes of a word, and the word of its bytes.\<close>

definition le_bytes :: "nat \<Rightarrow> 'a::len word \<Rightarrow> bytes" where
  "le_bytes n v = map (\<lambda>i. ucast (drop_bit (8 * i) v)) [0..<n]"

definition le_word :: "bytes \<Rightarrow> 'a::len word" where
  "le_word bs = foldl (\<lambda>v i. v OR push_bit (8 * i) (ucast (bs ! i))) 0 [0..<length bs]"

lemma length_le_bytes [simp]: "length (le_bytes n v) = n"
  by (simp add: le_bytes_def)

lemma bit_foldl_or:
  "bit (foldl (\<lambda>v i. v OR g i) 0 [0..<n]) k \<longleftrightarrow> (\<exists>i<n. bit (g i :: 'a::len word) k)"
  by (induction n) (auto simp: bit_or_iff less_Suc_eq)

lemma bit_byte_less: "bit (b :: u8) k \<Longrightarrow> k < 8"
  by (drule bit_imp_le_length) simp

lemma bit_le_word:
  "bit (le_word bs :: 'a::len word) k \<longleftrightarrow>
     k < LENGTH('a) \<and> k div 8 < length bs \<and> bit (bs ! (k div 8)) (k mod 8)"
proof -
  have "(\<exists>i<length bs. bit (push_bit (8 * i) (ucast (bs ! i)) :: 'a word) k) \<longleftrightarrow>
      (\<exists>i<length bs. k < LENGTH('a) \<and> 8 * i \<le> k \<and> bit (bs ! i) (k - 8 * i))"
    by (auto simp: bit_push_bit_iff bit_ucast_iff)
  also have "\<dots> \<longleftrightarrow> k < LENGTH('a) \<and> k div 8 < length bs \<and> bit (bs ! (k div 8)) (k mod 8)"
    (is "?l \<longleftrightarrow> ?r")
  proof
    assume ?l
    then obtain i where i: "i < length bs" "k < LENGTH('a)" "8 * i \<le> k" "bit (bs ! i) (k - 8 * i)"
      by blast
    then have "i = k div 8"
      using bit_byte_less [OF i(4)] by linarith
    moreover from this have "k - 8 * i = k mod 8"
      by (simp add: minus_mult_div_eq_mod)
    ultimately show ?r using i by auto
  next
    assume ?r
    moreover have "8 * (k div 8) \<le> k" "k - 8 * (k div 8) = k mod 8"
      by (simp_all add: minus_mult_div_eq_mod)
    ultimately show ?l by auto
  qed
  finally show ?thesis
    by (simp add: le_word_def bit_foldl_or)
qed

lemma bit_le_bytes:
  "i < n \<Longrightarrow> bit (le_bytes n (v :: 'a::len word) ! i) j \<longleftrightarrow> j < 8 \<and> bit v (8 * i + j)"
  by (auto simp: le_bytes_def bit_ucast_iff bit_drop_bit_eq)

lemma le_word_bytes:
  assumes "\<And>k. bit (v :: 'a::len word) k \<Longrightarrow> k < 8 * n" and "LENGTH('a) \<le> LENGTH('b::len)"
  shows "le_word (le_bytes n v) = (ucast v :: 'b word)"
proof (rule bit_word_eqI)
  fix k assume k: "k < LENGTH('b)"
  show "bit (le_word (le_bytes n v) :: 'b word) k = bit (ucast v :: 'b word) k"
  proof (cases "k div 8 < n")
    case True
    then show ?thesis using k by (simp add: bit_le_word bit_le_bytes bit_ucast_iff)
  next
    case False
    then have "\<not> bit v k" using assms(1) [of k] by auto
    with False show ?thesis by (simp add: bit_le_word bit_ucast_iff)
  qed
qed

lemma le_bytes_word:
  assumes "8 * length bs \<le> LENGTH('a::len)"
  shows "le_bytes (length bs) (le_word bs :: 'a word) = bs"
proof (rule nth_equalityI)
  fix i assume "i < length (le_bytes (length bs) (le_word bs :: 'a word))"
  then have i: "i < length bs" by simp
  show "le_bytes (length bs) (le_word bs :: 'a word) ! i = bs ! i"
  proof (rule bit_word_eqI)
    fix j assume "j < LENGTH(8)"
    then have "(8 * i + j) div 8 = i" "(8 * i + j) mod 8 = j" "8 * i + j < LENGTH('a)" "j < 8"
      using i assms by auto
    with i show "bit (le_bytes (length bs) (le_word bs :: 'a word) ! i) j = bit (bs ! i) j"
      by (simp add: bit_le_bytes bit_le_word)
  qed
qed simp

lemma le_bytes_word_n:
  "length bs = n \<Longrightarrow> 8 * n \<le> LENGTH('a::len) \<Longrightarrow> le_bytes n (le_word bs :: 'a word) = bs"
  using le_bytes_word by blast

lemma le_word_bytes_full:
  "8 * n = LENGTH('a::len) \<Longrightarrow> le_word (le_bytes n v) = (v :: 'a word)"
  using le_word_bytes [of v n, where 'b = 'a] bit_imp_le_length [of v] by auto

lemma append_u32_le_eq: "append_u32_le out v = out @ le_bytes 4 v"
  by (simp add: append_u32_le_def le_bytes_def upt_rec numeral_eq_Suc)

lemma append_u64_le_eq: "append_u64_le out v = out @ le_bytes 8 v"
  by (simp add: append_u64_le_def le_bytes_def upt_rec numeral_eq_Suc)

lemma take_drop_nth:
  "off + n \<le> length xs \<Longrightarrow> take n (drop off xs) = map (\<lambda>i. xs ! (off + i)) [0..<n]"
  by (rule nth_equalityI) auto

lemma le_word_at:
  assumes "off + n \<le> length xs"
  shows "le_word (take n (drop off xs)) =
     foldl (\<lambda>v i. v OR push_bit (8 * i) (ucast (xs ! (off + i)))) 0 [0..<n]"
proof -
  have "foldl (\<lambda>v i. v OR push_bit (8 * i) (ucast (take n (drop off xs) ! i))) 0 [0..<n] =
     foldl (\<lambda>v i. v OR push_bit (8 * i) (ucast (xs ! (off + i)))) 0 [0..<n]"
    using assms by (intro foldl_cong) auto
  then show ?thesis
    using assms by (simp add: le_word_def)
qed

lemma upt_4: "[0..<4] = [0, 1, 2, 3::nat]" and upt_8: "[0..<8] = [0, 1, 2, 3, 4, 5, 6, 7::nat]"
  by (simp_all add: upt_rec numeral_eq_Suc)

lemma require_available_Inr [simp]:
  "require_available input offset count = Inr u \<longleftrightarrow> offset + count \<le> length input"
  by (auto simp: require_available_def)

lemma require_available_ok: "offset + count \<le> length input \<Longrightarrow> require_available input offset count = Inr ()"
  by simp

lemma read_u32_le_Inr:
  "read_u32_le input off = Inr (v, off') \<longleftrightarrow>
     off + 4 \<le> length input \<and> off' = off + 4 \<and> v = le_word (take 4 (drop off input))"
  by (auto simp: read_u32_le_def le_word_at upt_4)

lemma read_u64_le_Inr:
  "read_u64_le input off = Inr (v, off') \<longleftrightarrow>
     off + 8 \<le> length input \<and> off' = off + 8 \<and> v = le_word (take 8 (drop off input))"
  by (auto simp: read_u64_le_def le_word_at upt_8)

text \<open>The two codec laws for any reader that takes \<open>n\<close> bytes and applies \<open>f\<close> to them.\<close>

lemma fixed_codec:
  assumes "\<And>input off x off'. dec input off = Inr (x, off') \<longleftrightarrow>
      off + n \<le> length input \<and> off' = off + n \<and> x = f (take n (drop off input))"
    and "\<And>x. good x \<Longrightarrow> length (enc x) = n \<and> f (enc x) = x"
    and "\<And>bs. length bs = n \<Longrightarrow> good (f bs) \<and> enc (f bs) = bs"
  shows "wire_codec enc dec good"
proof
  fix x assume "good x"
  then show "reads dec (enc x) x"
    using assms(2) [of x] by (simp add: reads_def assms(1))
next
  show "consumes dec (\<lambda>x bs. good x \<and> bs = enc x)"
    unfolding consumes_def assms(1) using assms(3) by auto
qed


subsection \<open>The integer readers and CompactSize are codecs\<close>

interpretation u32c: wire_codec "append_u32_le []" read_u32_le "\<lambda>_. True"
  by (rule fixed_codec [of _ 4 le_word])
     (simp_all add: read_u32_le_Inr append_u32_le_eq le_word_bytes_full le_bytes_word_n)

interpretation u64c: wire_codec "append_u64_le []" read_u64_le "\<lambda>_. True"
  by (rule fixed_codec [of _ 8 le_word])
     (simp_all add: read_u64_le_Inr append_u64_le_eq le_word_bytes_full le_bytes_word_n)

interpretation i32c: wire_codec "append_i32_le []" read_i32_le "\<lambda>_. True"
  by (rule fixed_codec [of _ 4 le_word])
     (simp_all add: read_i32_le_def append_i32_le_def read_u32_le_Inr append_u32_le_eq
       le_word_bytes_full le_bytes_word_n)

text \<open>The values of \<^verbatim>\<open>std::int64_t\<close>.\<close>

definition int64_range :: "int \<Rightarrow> bool" where
  "int64_range x \<longleftrightarrow> - (2 ^ 63) \<le> x \<and> x < 2 ^ 63"

lemma sint_int64_range: "int64_range (sint (w :: u64))"
  using sint_ge [of w] sint_lt [of w] by (simp add: int64_range_def)

lemma sint_of_int64: "int64_range x \<Longrightarrow> sint (word_of_int x :: u64) = x"
  by (simp add: int64_range_def int_word_sint)

interpretation i64c: wire_codec "append_i64_le []" read_i64_le int64_range
proof (rule fixed_codec [of _ 8 "\<lambda>bs. sint (le_word bs :: u64)"])
  show "read_i64_le input off = Inr (x, off') \<longleftrightarrow>
      off + 8 \<le> length input \<and> off' = off + 8 \<and> x = sint (le_word (take 8 (drop off input)) :: u64)"
    for input off x off'
    by (auto simp: read_i64_le_def read_u64_le_Inr)
qed (simp_all add: append_i64_le_def append_u64_le_eq le_word_bytes_full le_bytes_word_n
      sint_int64_range sint_of_int64)

interpretation raw: wire_codec "\<lambda>b. b" "read_bytes n" "\<lambda>b. length b = n" for n
  by (rule fixed_codec [of _ n "\<lambda>b. b"]) (auto simp: read_bytes_def)

text \<open>The three readers CompactSize branches to, as one family.\<close>

definition read_le :: "nat \<Rightarrow> 'a::len word reader" where
  "read_le n input off =
     bindE (require_available input off n) (\<lambda>_. Inr (le_word (take n (drop off input)), off + n))"

lemma le_word_take_bit:
  assumes "8 * n \<le> LENGTH('a::len)" and "take_bit (8 * n) v = (v :: 'a word)"
  shows "le_word (le_bytes n v) = v"
proof -
  have "bit v k \<Longrightarrow> k < 8 * n" for k
    using arg_cong [OF assms(2), of "\<lambda>w. bit w k"] by (auto simp: bit_take_bit_iff)
  then have "le_word (le_bytes n v) = (ucast v :: 'a word)"
    by (rule le_word_bytes) simp_all
  then show ?thesis by simp
qed

lemma take_bit_le_word:
  "length bs = n \<Longrightarrow> take_bit (8 * n) (le_word bs) = (le_word bs :: 'a::len word)"
  by (rule bit_word_eqI) (auto simp: bit_take_bit_iff bit_le_word)

lemma read_le_codec:
  "8 * n \<le> LENGTH('a::len) \<Longrightarrow>
     wire_codec (le_bytes n) (read_le n) (\<lambda>v :: 'a word. take_bit (8 * n) v = v)"
  by (rule fixed_codec [of _ n le_word])
     (auto simp: read_le_def le_word_take_bit take_bit_le_word le_bytes_word_n)

lemma take_bit_16_iff: "take_bit 16 (v :: u64) = v \<longleftrightarrow> v \<le> 0xffff"
proof -
  have "take_bit 16 v = v \<longleftrightarrow> unat (take_bit 16 v) = unat v"
    by (simp add: word_unat_eq_iff)
  also have "\<dots> \<longleftrightarrow> v \<le> 0xffff"
    by (auto simp: unsigned_take_bit_eq take_bit_nat_eq_self_iff word_le_nat_alt)
  finally show ?thesis .
qed

lemma read_compact_size_eq:
  "read_compact_size =
     bindR (read_le 1 :: u8 reader) (\<lambda>marker.
       if marker < 253 then returnR (ucast marker)
       else if marker = 253 then
         bindR (read_le 2) (\<lambda>v. guardR (v < 253) (RuntimeError ''Non-canonical CompactSize value'') (returnR v))
       else if marker = 254 then
         bindR read_u32_le (\<lambda>v. guardR (v \<le> 0xffff) (RuntimeError ''Non-canonical CompactSize value'') (returnR (ucast v)))
       else
         bindR read_u64_le (\<lambda>v. guardR (v \<le> 0xffffffff) (RuntimeError ''Non-canonical CompactSize value'') (returnR v)))"
  (is "_ = ?r")
proof (intro ext)
  fix input off
  show "read_compact_size input off = ?r input off"
  proof (cases "require_available input off 1")
    case (Inr u)
    then have off: "off < length input"
      by simp
    then have one: "take 1 (drop off input) = [input ! off]"
      by (simp add: take_drop_nth)
    then have b: "le_word (take 1 (drop off input)) = input ! off"
      using le_bytes_word_n [of "[input ! off]" 1, where 'a = 8]
      by (simp add: le_word_def)
    have two: "le_word (take 2 (drop (off + 1) input)) =
        (ucast (input ! (off + 1)) OR push_bit 8 (ucast (input ! (off + 2))) :: u64)"
      if "off + 3 \<le> length input"
      using that by (simp add: le_word_at upt_rec numeral_eq_Suc)
    show ?thesis
      using off b two
      by (auto simp: read_compact_size_def bindR_def guardR_def failR_def returnR_def Let_def
        read_le_def bindE_def require_available_def split: sum.splits)
  qed (simp add: read_compact_size_def bindR_def read_le_def)
qed


interpretation u8c: wire_codec "\<lambda>b. [b]" "read_le 1" "\<lambda>_ :: u8. True"
  by (rule fixed_codec [of _ 1 le_word])
     (auto simp: read_le_def le_bytes_def length_Suc_conv le_word_def numeral_eq_Suc)

interpretation u16c: wire_codec "le_bytes 2" "read_le 2" "\<lambda>v :: u64. v \<le> 0xffff"
  using read_le_codec [of 2, where 'a = 64] by (simp add: take_bit_16_iff)

lemma append_compact_size_eq:
  "append_compact_size out v = out @
     (if v < 253 then [ucast v]
      else if v \<le> 0xffff then [253] @ le_bytes 2 v
      else if v \<le> 0xffffffff then [254] @ append_u32_le [] (ucast v)
      else [255] @ append_u64_le [] v)"
  by (simp add: append_compact_size_def append_u32_le_eq append_u64_le_eq le_bytes_def
      upt_rec numeral_eq_Suc)

lemma ucast_u8_less_253: "v < 253 \<Longrightarrow> (ucast (v :: u64) :: u8) < 253 \<and> ucast (ucast v :: u8) = v"
  by (simp add: word_less_nat_alt word_unat_eq_iff unsigned_ucast_eq take_bit_eq_mod unat_mod)

lemma ucast_u64_less_253: "(b :: u8) < 253 \<Longrightarrow> (ucast b :: u64) < 253 \<and> ucast (ucast b :: u64) = b"
  using unsigned_less [of b, where 'a = nat]
  by (simp add: word_less_nat_alt word_unat_eq_iff unsigned_ucast_eq take_bit_eq_mod unat_mod)

lemma ucast_u32_le: "v \<le> 0xffffffff \<Longrightarrow> ucast (ucast (v :: u64) :: u32) = v"
  by (simp add: word_le_nat_alt word_unat_eq_iff unsigned_ucast_eq take_bit_eq_mod unat_mod)

lemma ucast_u32_bounds:
  "(ucast (v :: u32) :: u64) \<le> 0xffffffff" "(ucast v :: u64) \<le> 0xffff \<longleftrightarrow> v \<le> 0xffff"
  "ucast (ucast v :: u64) = v"
  using unsigned_less [of v, where 'a = nat]
  by (simp_all add: word_le_nat_alt word_unat_eq_iff unsigned_ucast_eq take_bit_eq_mod unat_mod)

lemma less_253_le: "(w :: u64) < 253 \<Longrightarrow> w \<le> 0xffff"
  by (simp add: word_less_nat_alt word_le_nat_alt)

lemma ffff_le: "(w :: u64) \<le> 0xffff \<Longrightarrow> w \<le> 0xffffffff"
  by (simp add: word_le_nat_alt)

lemma read_compact_size_enc: "reads read_compact_size (append_compact_size [] v) v"
proof -
  note marker = reads_bind [OF u8c.dec_enc]
  consider "v < 253" | "\<not> v < 253" "v \<le> 0xffff" | "\<not> v < 253" "\<not> v \<le> 0xffff" "v \<le> 0xffffffff"
    | "\<not> v < 253" "\<not> v \<le> 0xffff" "\<not> v \<le> 0xffffffff" by blast
  then show ?thesis
  proof cases
    case 1
    then have "reads read_compact_size ([ucast v] @ []) v"
      unfolding read_compact_size_eq by (intro marker) (auto simp: ucast_u8_less_253 intro: reads_return)
    with 1 show ?thesis by (simp add: append_compact_size_def)
  next
    case 2
    then have "reads read_compact_size ([253] @ le_bytes 2 v) v"
      unfolding read_compact_size_eq
      by (intro marker) (auto intro!: reads_bind_last [OF u16c.dec_enc] reads_guard reads_return)
    with 2 show ?thesis by (simp add: append_compact_size_eq)
  next
    case 3
    then have "reads read_compact_size ([254] @ append_u32_le [] (ucast v)) v"
      unfolding read_compact_size_eq
      using ucast_u32_bounds(2) [of "ucast v"]
      by (intro marker) (auto intro!: reads_bind_last [OF u32c.dec_enc] reads_guard reads_return
          simp: ucast_u32_le intro: subst [OF ucast_u32_le, of v "\<lambda>x. reads _ _ x"])
    with 3 show ?thesis by (simp add: append_compact_size_eq)
  next
    case 4
    then have "reads read_compact_size ([255] @ append_u64_le [] v) v"
      unfolding read_compact_size_eq
      by (intro marker) (auto intro!: reads_bind_last [OF u64c.dec_enc] reads_guard reads_return)
    with 4 show ?thesis by (simp add: append_compact_size_eq)
  qed
qed

lemma read_compact_size_sound:
  "consumes read_compact_size (\<lambda>v bs. bs = append_compact_size [] v)"
proof -
  have "consumes
      (if marker < 253 then returnR (ucast marker)
       else if marker = 253 then
         bindR (read_le 2) (\<lambda>v. guardR (v < 253) (RuntimeError ''Non-canonical CompactSize value'') (returnR v))
       else if marker = 254 then
         bindR read_u32_le (\<lambda>v. guardR (v \<le> 0xffff) (RuntimeError ''Non-canonical CompactSize value'') (returnR (ucast v)))
       else
         bindR read_u64_le (\<lambda>v. guardR (v \<le> 0xffffffff) (RuntimeError ''Non-canonical CompactSize value'') (returnR v)))
      (\<lambda>v bs. [marker] @ bs = append_compact_size [] v)" (is "consumes ?rest _") for marker :: u8
  proof -
    consider "marker < 253" | "marker = 253" | "marker = 254" | "marker = 255"
    proof -
      have "unat marker < 256" using unsigned_less [of marker] by simp
      then have "unat marker < 253 \<or> unat marker = 253 \<or> unat marker = 254 \<or> unat marker = 255"
        by linarith
      then show thesis using that by (auto simp: word_less_nat_alt word_unat_eq_iff)
    qed
    then show ?thesis
    proof cases
      case 1
      then have "consumes (returnR (ucast marker)) (\<lambda>v bs. [marker] @ bs = append_compact_size [] v)"
        using ucast_u64_less_253 [of marker]
        by (intro consumes_mono [OF consumes_return]) (auto simp: append_compact_size_def)
      with 1 show ?thesis by simp
    next
      case 2
      have "v \<le> 0xffff \<Longrightarrow> \<not> v < 253 \<Longrightarrow> [253] @ le_bytes 2 v = append_compact_size [] v" for v
        by (simp add: append_compact_size_eq)
      then show ?thesis using 2
        by simp (rule consumes_mono, rule consumes_bind [OF u16c.dec_sound consumes_guard [OF consumes_return]], auto)
    next
      case 3
      have "\<not> v \<le> 0xffff \<Longrightarrow> [254] @ append_u32_le [] v = append_compact_size [] (ucast v)" for v
        using ucast_u32_bounds [of v] less_253_le [of "ucast v"] by (auto simp: append_compact_size_eq)
      then show ?thesis using 3
        by simp (rule consumes_mono, rule consumes_bind [OF u32c.dec_sound consumes_guard [OF consumes_return]], auto)
    next
      case 4
      have "\<not> v \<le> 0xffffffff \<Longrightarrow> [255] @ append_u64_le [] v = append_compact_size [] v" for v
        using less_253_le [of v] ffff_le [of v] by (auto simp: append_compact_size_eq)
      then show ?thesis using 4
        by simp (rule consumes_mono, rule consumes_bind [OF u64c.dec_sound consumes_guard [OF consumes_return]], auto)
    qed
  qed
  then show ?thesis
    unfolding read_compact_size_eq
    by (rule consumes_mono [OF consumes_bind [OF u8c.dec_sound]]) auto
qed

interpretation csc: wire_codec "append_compact_size []" read_compact_size "\<lambda>_. True"
  using read_compact_size_enc read_compact_size_sound by unfold_locales simp_all

lemma append_prefix:
  "append_u32_le out v = out @ append_u32_le [] v"
  "append_i32_le out v = out @ append_i32_le [] v"
  "append_u64_le out w = out @ append_u64_le [] w"
  "append_i64_le out i = out @ append_i64_le [] i"
  "append_compact_size out w = out @ append_compact_size [] w"
  by (simp_all add: append_i32_le_def append_i64_le_def append_u32_le_eq append_u64_le_eq
      append_compact_size_eq)

lemma length_append_le [simp]:
  "length (append_u32_le out v) = length out + 4"
  "length (append_i32_le out v) = length out + 4"
  "length (append_u64_le out w) = length out + 8"
  "length (append_i64_le out i) = length out + 8"
  by (simp_all add: append_i32_le_def append_i64_le_def append_u32_le_eq append_u64_le_eq)

lemma length_compact_size:
  "length (append_compact_size [] v) =
     (if v < 253 then 1 else if v \<le> 0xffff then 3 else if v \<le> 0xffffffff then 5 else 9)"
  by (simp add: append_compact_size_eq)

text \<open>A size appended as a CompactSize comes back, while it fits 64 bits.\<close>

lemma unat_of_size: "n < 2 ^ 64 \<Longrightarrow> unat (word_of_nat n :: u64) = n"
  by (simp add: unat_of_nat)

subsection \<open>Codecs from codecs\<close>

lemma bindR_return [simp]: "bindR (returnR x) f = f x"
  by (simp add: bindR_def returnR_def fun_eq_iff)

lemma bindR_return_right [simp]: "bindR m returnR = m"
proof (intro ext)
  show "bindR m returnR input off = m input off" for input off
    by (cases "m input off") (auto simp: bindR_def returnR_def)
qed

lemma bindR_assoc [simp]: "bindR (bindR m f) g = bindR m (\<lambda>x. bindR (f x) g)"
proof (intro ext)
  show "bindR (bindR m f) g input off = bindR m (\<lambda>x. bindR (f x) g) input off" for input off
    by (cases "m input off") (auto simp: bindR_def)
qed

lemma bindR_guard [simp]: "bindR (guardR bad e m) f = guardR bad e (bindR m f)"
  by (simp add: guardR_def bindR_def failR_def fun_eq_iff)

text \<open>Two items in sequence, and an item seen through a bijection.\<close>

lemma pair_codec:
  assumes "wire_codec ea da ga" "wire_codec eb db gb"
  shows "wire_codec (\<lambda>(a, b). ea a @ eb b)
     (bindR da (\<lambda>a. bindR db (\<lambda>b. returnR (a, b)))) (\<lambda>(a, b). ga a \<and> gb b)"
proof
  note A = wire_codec.dec_enc [OF assms(1)] wire_codec.dec_sound [OF assms(1)]
  note B = wire_codec.dec_enc [OF assms(2)] wire_codec.dec_sound [OF assms(2)]
  fix x :: "'a \<times> 'b" assume "case x of (a, b) \<Rightarrow> ga a \<and> gb b"
  then show "reads (bindR da (\<lambda>a. bindR db (\<lambda>b. returnR (a, b)))) (case x of (a, b) \<Rightarrow> ea a @ eb b) x"
    by (cases x) (auto intro!: reads_bind [OF A(1)] reads_bind_last [OF B(1)] reads_return)
next
  note A = wire_codec.dec_sound [OF assms(1)] and B = wire_codec.dec_sound [OF assms(2)]
  show "consumes (bindR da (\<lambda>a. bindR db (\<lambda>b. returnR (a, b))))
     (\<lambda>x bs. (case x of (a, b) \<Rightarrow> ga a \<and> gb b) \<and> bs = (case x of (a, b) \<Rightarrow> ea a @ eb b))"
    by (rule consumes_mono, rule consumes_bind [OF A consumes_bind [OF B consumes_return]]) auto
qed

lemma iso_codec:
  assumes "wire_codec enc dec good"
    and "\<And>y. good' y \<Longrightarrow> good (g y) \<and> f (g y) = y"
    and "\<And>x. good x \<Longrightarrow> good' (f x) \<and> g (f x) = x"
  shows "wire_codec (\<lambda>y. enc (g y)) (bindR dec (\<lambda>x. returnR (f x))) good'"
proof
  fix y assume "good' y"
  with assms(2) [of y] show "reads (bindR dec (\<lambda>x. returnR (f x))) (enc (g y)) y"
    by (intro reads_bind_last [OF wire_codec.dec_enc [OF assms(1)]]) (auto intro: reads_return)
next
  show "consumes (bindR dec (\<lambda>x. returnR (f x))) (\<lambda>y bs. good' y \<and> bs = enc (g y))"
    by (rule consumes_mono, rule consumes_bind [OF wire_codec.dec_sound [OF assms(1)] consumes_return])
       (use assms(3) in auto)
qed

text \<open>A record read field by field, from the product of the fields' codecs.\<close>

lemma record_codec:
  assumes "wire_codec enc dec good"
    and "\<And>y. enc' y = enc (g y)" and "dec' = bindR dec (\<lambda>x. returnR (f x))"
    and "\<And>y. good' y \<longleftrightarrow> good (g y) \<and> f (g y) = y" and "\<And>x. good x \<Longrightarrow> g (f x) = x"
  shows "wire_codec enc' dec' good'"
proof -
  have "wire_codec (\<lambda>y. enc (g y)) (bindR dec (\<lambda>x. returnR (f x))) good'"
    by (rule iso_codec [OF assms(1)]) (simp_all add: assms(4,5))
  then show ?thesis
    by (simp add: assms(3) assms(2) [symmetric])
qed

text \<open>A check the reader makes on the item.\<close>

lemma guard_codec:
  assumes "wire_codec enc dec good"
  shows "wire_codec enc (bindR dec (\<lambda>x. guardR (bad x) e (returnR x))) (\<lambda>x. good x \<and> \<not> bad x)"
proof
  show "good x \<and> \<not> bad x \<Longrightarrow> reads (bindR dec (\<lambda>x. guardR (bad x) e (returnR x))) (enc x) x" for x
    by (intro reads_bind_last [OF wire_codec.dec_enc [OF assms]]) (auto intro: reads_return reads_guard)
  show "consumes (bindR dec (\<lambda>x. guardR (bad x) e (returnR x))) (\<lambda>x bs. (good x \<and> \<not> bad x) \<and> bs = enc x)"
    by (rule consumes_mono, rule consumes_bind [OF wire_codec.dec_sound [OF assms] consumes_guard [OF consumes_return]])
       auto
qed

text \<open>A byte string and a list of items behind their CompactSize count, with a limit.\<close>

definition enc_sized :: "bytes \<Rightarrow> bytes" where
  "enc_sized b = append_compact_size [] (word_of_nat (length b)) @ b"

definition read_sized :: "nat \<Rightarrow> exn \<Rightarrow> bytes reader" where
  "read_sized limit e = bindR read_compact_size (\<lambda>n. guardR (unat n > limit) e (read_bytes (unat n)))"

lemma sized_codec:
  assumes "limit < 2 ^ 64"
  shows "wire_codec enc_sized (read_sized limit e) (\<lambda>b. length b \<le> limit)"
proof
  fix b :: bytes assume b: "length b \<le> limit"
  with assms have "unat (word_of_nat (length b) :: u64) = length b"
    by (intro unat_of_size) simp
  with b show "reads (read_sized limit e) (enc_sized b) b"
    unfolding read_sized_def enc_sized_def
    by (intro reads_bind [OF csc.dec_enc] reads_guard) (auto intro: raw.dec_enc)
next
  show "consumes (read_sized limit e) (\<lambda>b bs. length b \<le> limit \<and> bs = enc_sized b)"
    unfolding read_sized_def enc_sized_def
    by (rule consumes_mono, rule consumes_bind [OF csc.dec_sound consumes_guard [OF raw.dec_sound]])
       auto
qed

definition enc_list :: "('a \<Rightarrow> bytes) \<Rightarrow> 'a list \<Rightarrow> bytes" where
  "enc_list enc xs = append_compact_size [] (word_of_nat (length xs)) @ concat (map enc xs)"

definition read_list :: "'a reader \<Rightarrow> nat \<Rightarrow> exn \<Rightarrow> 'a list reader" where
  "read_list dec limit e = bindR read_compact_size (\<lambda>n. guardR (unat n > limit) e (read_many dec (unat n)))"

lemma list_codec:
  assumes "wire_codec enc dec good" and "limit < 2 ^ 64"
  shows "wire_codec (enc_list enc) (read_list dec limit e)
     (\<lambda>xs. length xs \<le> limit \<and> (\<forall>x \<in> set xs. good x))"
proof
  fix xs assume xs: "length xs \<le> limit \<and> (\<forall>x \<in> set xs. good x)"
  with assms have "unat (word_of_nat (length xs) :: u64) = length xs"
    by (intro unat_of_size) simp
  with xs show "reads (read_list dec limit e) (enc_list enc xs) xs"
    unfolding read_list_def enc_list_def
    by (intro reads_bind [OF csc.dec_enc] reads_guard)
       (auto intro: wire_codec.read_many_enc [OF assms(1)])
next
  show "consumes (read_list dec limit e)
     (\<lambda>xs bs. (length xs \<le> limit \<and> (\<forall>x \<in> set xs. good x)) \<and> bs = enc_list enc xs)"
    unfolding read_list_def enc_list_def
    by (rule consumes_mono, rule consumes_bind [OF csc.dec_sound
          consumes_guard [OF wire_codec.read_many_sound [OF assms(1)]]]) auto
qed


end
