(* ===== verification/HashHex.thy ===== *)
theory HashHex
  imports Serialize
begin

section \<open>Hashes and hexadecimal text (hash.cpp)\<close>

text \<open>
  \<open>sha256_once\<close>, \<open>sha256\<close>, \<open>sha256d\<close>, the hexadecimal conversions and the display order of a
  hash. \<^verbatim>\<open>Hash256\<close> is a 32-byte array, here a byte list; the digest itself is the operation
  \<open>c_sha256\<close> of the crypto record. The lemmas show that hexadecimal printing and parsing are
  inverse up to letter case, and that the printed form is the canonical one.
\<close>

unbundle bit_operations_syntax

definition sha256_once :: "crypto \<Rightarrow> bytes \<Rightarrow> bytes res" where
  "sha256_once C data =
     (let digest = c_sha256 C data in
      if length digest \<noteq> 32 then Inl (RuntimeError ''SHA-256 operation failed'') else Inr digest)"

definition hex_value :: "char \<Rightarrow> nat res" where
  "hex_value c =
     (if CHR ''0'' \<le> c \<and> c \<le> CHR ''9'' then Inr (of_char c - of_char (CHR ''0''))
      else if CHR ''a'' \<le> c \<and> c \<le> CHR ''f'' then Inr (of_char c - of_char (CHR ''a'') + 10)
      else if CHR ''A'' \<le> c \<and> c \<le> CHR ''F'' then Inr (of_char c - of_char (CHR ''A'') + 10)
      else Inl (InvalidArgument ''Invalid hexadecimal character''))"

definition sha256 :: "crypto \<Rightarrow> bytes \<Rightarrow> bytes res" where
  "sha256 C data = sha256_once C data"

definition sha256d :: "crypto \<Rightarrow> bytes \<Rightarrow> bytes res" where
  "sha256d C data = bindE (sha256_once C data) (\<lambda>first. sha256_once C first)"

definition hex_to_bytes :: "string \<Rightarrow> bytes res" where
  "hex_to_bytes hex =
     (if length hex mod 2 \<noteq> 0
      then Inl (InvalidArgument ''Hexadecimal input must contain an even number of characters'')
      else mapE (\<lambda>index.
             bindE (hex_value (hex ! (index * 2))) (\<lambda>hi.
             bindE (hex_value (hex ! (index * 2 + 1))) (\<lambda>lo.
               Inr (word_of_nat (push_bit 4 hi OR lo)))))
           [0..<length hex div 2])"

text \<open>One character of \<^verbatim>\<open>std::hex\<close>; two of them with fill \<^verbatim>\<open>'0'\<close> per byte.\<close>

definition hex_digit :: "nat \<Rightarrow> char" where
  "hex_digit n = (if n < 10 then char_of (48 + n) else char_of (87 + n))"

definition bytes_to_hex :: "bytes \<Rightarrow> string" where
  "bytes_to_hex bs = concat (map (\<lambda>b. [hex_digit (unat b div 16), hex_digit (unat b mod 16)]) bs)"

definition hash_to_display_hex :: "bytes \<Rightarrow> string" where
  "hash_to_display_hex raw_digest = bytes_to_hex (rev raw_digest)"

definition display_hex_to_raw_digest :: "string \<Rightarrow> bytes res" where
  "display_hex_to_raw_digest display_hex =
     bindE (hex_to_bytes display_hex) (\<lambda>bs.
       if length bs \<noteq> 32
       then Inl (InvalidArgument ''A 256-bit hash must contain exactly 64 hexadecimal characters'')
       else Inr (rev bs))"

definition display_hex_to_wire_bytes :: "string \<Rightarrow> bytes res" where
  "display_hex_to_wire_bytes display_hex = display_hex_to_raw_digest display_hex"

definition wire_bytes_to_display_hex :: "bytes \<Rightarrow> string" where
  "wire_bytes_to_display_hex wire_bytes = hash_to_display_hex wire_bytes"

subsection \<open>Digests\<close>

lemma sha256_once_ok: "crypto_ok C \<Longrightarrow> sha256_once C d = Inr (c_sha256 C d)"
  by (simp add: sha256_once_def crypto_ok_def)

lemma sha256_once_length: "sha256_once C d = Inr h \<Longrightarrow> length h = 32"
  by (auto simp: sha256_once_def Let_def split: if_splits)

lemma sha256d_ok: "crypto_ok C \<Longrightarrow> sha256d C d = Inr (c_sha256 C (c_sha256 C d))"
  by (simp add: sha256d_def sha256_once_ok)

lemma sha256d_length: "sha256d C d = Inr h \<Longrightarrow> length h = 32"
  by (auto simp: sha256d_def dest: sha256_once_length)

subsection \<open>Hexadecimal digits\<close>

text \<open>The lower-case form of a hexadecimal text, the one the program prints.\<close>

definition lower_hex :: "char \<Rightarrow> bool" where
  "lower_hex c \<longleftrightarrow> (CHR ''0'' \<le> c \<and> c \<le> CHR ''9'') \<or> (CHR ''a'' \<le> c \<and> c \<le> CHR ''f'')"

definition to_lower_hex :: "char \<Rightarrow> char" where
  "to_lower_hex c =
     (if CHR ''A'' \<le> c \<and> c \<le> CHR ''F'' then char_of ((of_char c :: nat) + 32) else c)"

lemma char_le_iff: "c \<le> d \<longleftrightarrow> (of_char c :: nat) \<le> of_char d"
  by (simp add: less_eq_char_def)

lemma hex_value_digit [simp]: "n < 16 \<Longrightarrow> hex_value (hex_digit n) = Inr n"
  by (auto simp: hex_value_def hex_digit_def char_le_iff)

text \<open>The sixteen characters, for evaluating concrete texts.\<close>

lemma hex_digit_table:
    "hex_digit 0 = CHR ''0''"
    "hex_digit 1 = CHR ''1''"
    "hex_digit (Suc 0) = CHR ''1''"
    "hex_digit 2 = CHR ''2''"
    "hex_digit 3 = CHR ''3''"
    "hex_digit 4 = CHR ''4''"
    "hex_digit 5 = CHR ''5''"
    "hex_digit 6 = CHR ''6''"
    "hex_digit 7 = CHR ''7''"
    "hex_digit 8 = CHR ''8''"
    "hex_digit 9 = CHR ''9''"
    "hex_digit 10 = CHR ''a''"
    "hex_digit 11 = CHR ''b''"
    "hex_digit 12 = CHR ''c''"
    "hex_digit 13 = CHR ''d''"
    "hex_digit 14 = CHR ''e''"
    "hex_digit 15 = CHR ''f''"
  by (code_simp)+

lemma hex_value_less: "hex_value c = Inr n \<Longrightarrow> n < 16"
  by (auto simp: hex_value_def char_le_iff split: if_splits)

lemma hex_digit_value: "hex_value c = Inr n \<Longrightarrow> hex_digit n = to_lower_hex c"
  by (auto simp: hex_value_def hex_digit_def to_lower_hex_def char_le_iff split: if_splits)

lemma hex_value_lower: "lower_hex c \<Longrightarrow> \<exists>n. hex_value c = Inr n"
  by (auto simp: hex_value_def lower_hex_def)

lemma lower_hex_digit [simp]: "n < 16 \<Longrightarrow> lower_hex (hex_digit n)"
  by (auto simp: lower_hex_def hex_digit_def char_le_iff)

lemma to_lower_hex_id: "lower_hex c \<Longrightarrow> to_lower_hex c = c"
  by (auto simp: lower_hex_def to_lower_hex_def char_le_iff)

lemma nibbles:
  assumes "h < 16" "l < 16"
  shows "unat (word_of_nat (push_bit 4 h OR l) :: u8) = 16 * h + l"
proof -
  have "push_bit 4 h OR l = push_bit 4 h + l"
  proof (rule disjunctive_add [symmetric])
    fix n
    have "take_bit 4 l = l"
      using assms(2) by (simp add: take_bit_nat_eq_self_iff)
    then have "bit l n \<Longrightarrow> n < 4"
      by (metis bit_take_bit_iff)
    then show "\<not> bit (push_bit 4 h) n \<or> \<not> bit l n"
      by (auto simp: bit_push_bit_iff)
  qed
  with assms show ?thesis
    by (simp add: push_bit_eq_mult unat_of_nat del: of_nat_add of_nat_mult)
qed

lemma length_bytes_to_hex [simp]: "length (bytes_to_hex bs) = 2 * length bs"
  by (induction bs) (auto simp: bytes_to_hex_def)

lemma bytes_to_hex_Nil [simp]: "bytes_to_hex [] = []"
  and bytes_to_hex_Cons:
    "bytes_to_hex (b # bs) = hex_digit (unat b div 16) # hex_digit (unat b mod 16) # bytes_to_hex bs"
  by (simp_all add: bytes_to_hex_def)

lemma bytes_to_hex_append: "bytes_to_hex (as @ bs) = bytes_to_hex as @ bytes_to_hex bs"
  by (simp add: bytes_to_hex_def)

lemma bytes_to_hex_nth:
  "i < length bs \<Longrightarrow> bytes_to_hex bs ! (i * 2) = hex_digit (unat (bs ! i) div 16)"
  "i < length bs \<Longrightarrow> bytes_to_hex bs ! (i * 2 + 1) = hex_digit (unat (bs ! i) mod 16)"
  by (induction bs arbitrary: i) (auto simp: bytes_to_hex_Cons nth_Cons' less_Suc_eq_0_disj)

lemma unat_u8_less: "unat (b :: u8) < 256"
  using unsigned_less [of b] by simp

lemma unat_u8_nibbles [simp]: "unat (b :: u8) div 16 < 16" "unat (b :: u8) mod 16 < 16"
  using unat_u8_less [of b] by simp_all

lemma bytes_to_hex_lower: "list_all lower_hex (bytes_to_hex bs)"
  by (induction bs) (auto simp: bytes_to_hex_Cons)

definition hex_byte :: "char \<Rightarrow> char \<Rightarrow> u8 res" where
  "hex_byte c d = bindE (hex_value c) (\<lambda>hi. bindE (hex_value d) (\<lambda>lo.
     Inr (word_of_nat (push_bit 4 hi OR lo))))"

lemma hex_byte_Inr:
  "hex_byte c d = Inr b \<longleftrightarrow>
     hex_value c = Inr (unat b div 16) \<and> hex_value d = Inr (unat b mod 16)"
proof
  assume "hex_byte c d = Inr b"
  then obtain h l where hl: "hex_value c = Inr h" "hex_value d = Inr l"
      "b = word_of_nat (push_bit 4 h OR l)"
    by (auto simp: hex_byte_def)
  then have "h < 16" "l < 16" by (auto dest: hex_value_less)
  then show "hex_value c = Inr (unat b div 16) \<and> hex_value d = Inr (unat b mod 16)"
    using hl nibbles [of h l] by simp
next
  assume "hex_value c = Inr (unat b div 16) \<and> hex_value d = Inr (unat b mod 16)"
  moreover have "(word_of_nat (push_bit 4 (unat b div 16) OR (unat b mod 16)) :: u8) = b"
    using nibbles [of "unat b div 16" "unat b mod 16"] unat_u8_less [of b]
    by (simp add: word_unat_eq_iff)
  ultimately show "hex_byte c d = Inr b"
    by (simp add: hex_byte_def)
qed

lemma hex_to_bytes_Inr:
  "hex_to_bytes s = Inr bs \<longleftrightarrow> length s = 2 * length bs \<and>
     (\<forall>i < length bs. hex_byte (s ! (i * 2)) (s ! (i * 2 + 1)) = Inr (bs ! i))"
  by (auto simp: hex_to_bytes_def mapE_Inr_iff list_all2_conv_all_nth hex_byte_def [symmetric])

lemma hex_to_bytes_to_hex [simp]: "hex_to_bytes (bytes_to_hex bs) = Inr bs"
  by (auto simp: hex_to_bytes_Inr hex_byte_Inr bytes_to_hex_nth bytes_to_hex_nth(2) [simplified])

lemma bytes_to_hex_of_hex:
  assumes "hex_to_bytes s = Inr bs"
  shows "bytes_to_hex bs = map to_lower_hex s"
proof (rule nth_equalityI)
  show "length (bytes_to_hex bs) = length (map to_lower_hex s)"
    using assms by (simp add: hex_to_bytes_Inr)
next
  fix k assume "k < length (bytes_to_hex bs)"
  then have i: "k div 2 < length bs" "k < length s"
    using assms by (auto simp: hex_to_bytes_Inr)
  then have b: "hex_byte (s ! (k div 2 * 2)) (s ! (k div 2 * 2 + 1)) = Inr (bs ! (k div 2))"
    using assms by (simp add: hex_to_bytes_Inr)
  consider "k = k div 2 * 2" | "k = k div 2 * 2 + 1" by linarith
  then show "bytes_to_hex bs ! k = map to_lower_hex s ! k"
  proof cases
    case 1
    with b i show ?thesis
      using bytes_to_hex_nth(1) [OF i(1)] by (simp add: hex_byte_Inr hex_digit_value)
  next
    case 2
    with b i show ?thesis
      using bytes_to_hex_nth(2) [OF i(1)] by (simp add: hex_byte_Inr hex_digit_value)
  qed
qed

lemma to_lower_hex_ids: "list_all lower_hex s \<Longrightarrow> map to_lower_hex s = s"
  by (induction s) (auto simp: to_lower_hex_id)

lemma lower_hex_to_lower: "hex_value c = Inr n \<Longrightarrow> lower_hex (to_lower_hex c)"
  using hex_digit_value [of c n] hex_value_less [of c n] lower_hex_digit [of n] by simp

lemma hex_to_bytes_total:
  assumes "list_all lower_hex s" and "even (length s)"
  shows "\<exists>bs. hex_to_bytes s = Inr bs"
proof -
  have "\<exists>b. hex_byte (s ! (i * 2)) (s ! (i * 2 + 1)) = Inr b" if "i < length s div 2" for i
  proof -
    have "lower_hex (s ! (i * 2))" "lower_hex (s ! (i * 2 + 1))"
      using assms that by (auto simp: list_all_length)
    then show ?thesis
      using hex_value_lower [of "s ! (i * 2)"] hex_value_lower [of "s ! (i * 2 + 1)"]
      by (auto simp: hex_byte_def)
  qed
  then obtain f where f: "\<And>i. i < length s div 2 \<Longrightarrow> hex_byte (s ! (i * 2)) (s ! (i * 2 + 1)) = Inr (f i)"
    by metis
  then have "hex_to_bytes s = Inr (map f [0..<length s div 2])"
    using assms(2) by (auto simp: hex_to_bytes_Inr)
  then show ?thesis by blast
qed

subsection \<open>Display form of a hash\<close>

lemma display_raw_Inr:
  "display_hex_to_raw_digest s = Inr d \<longleftrightarrow> length d = 32 \<and> hex_to_bytes s = Inr (rev d)"
  by (auto simp: display_hex_to_raw_digest_def)

lemma display_hex_round [simp]:
  "length d = 32 \<Longrightarrow> display_hex_to_raw_digest (hash_to_display_hex d) = Inr d"
  by (simp add: display_raw_Inr hash_to_display_hex_def)

lemma hash_to_display_hex_length [simp]: "length (hash_to_display_hex d) = 2 * length d"
  by (simp add: hash_to_display_hex_def)

lemma hash_to_display_hex_lower: "list_all lower_hex (hash_to_display_hex d)"
  by (simp add: hash_to_display_hex_def bytes_to_hex_lower)

lemma display_raw_of_display:
  "display_hex_to_raw_digest s = Inr d \<Longrightarrow> hash_to_display_hex d = map to_lower_hex s"
  by (simp add: display_raw_Inr hash_to_display_hex_def bytes_to_hex_of_hex)

text \<open>The identifiers the program itself prints: 64 lower-case hexadecimal digits.\<close>

definition display_id :: "string \<Rightarrow> bool" where
  "display_id s \<longleftrightarrow> length s = 64 \<and> list_all lower_hex s"

definition wire_of_display :: "string \<Rightarrow> bytes" where
  "wire_of_display s = (case display_hex_to_wire_bytes s of Inl _ \<Rightarrow> [] | Inr b \<Rightarrow> b)"

lemma display_id_hash: "length d = 32 \<Longrightarrow> display_id (hash_to_display_hex d)"
  by (simp add: display_id_def hash_to_display_hex_lower)

lemma display_id_wire:
  assumes "display_id s"
  shows "display_hex_to_wire_bytes s = Inr (wire_of_display s)"
    and "length (wire_of_display s) = 32"
    and "wire_bytes_to_display_hex (wire_of_display s) = s"
proof -
  obtain bs where bs: "hex_to_bytes s = Inr bs"
    using assms hex_to_bytes_total [of s] by (auto simp: display_id_def)
  then have len: "length bs = 32"
    using assms by (simp add: hex_to_bytes_Inr display_id_def)
  with bs have r: "display_hex_to_wire_bytes s = Inr (rev bs)"
    by (simp add: display_hex_to_wire_bytes_def display_hex_to_raw_digest_def)
  then show 1: "display_hex_to_wire_bytes s = Inr (wire_of_display s)"
    and "length (wire_of_display s) = 32"
    using len by (simp_all add: wire_of_display_def)
  show "wire_bytes_to_display_hex (wire_of_display s) = s"
    using display_raw_of_display [OF 1 [unfolded display_hex_to_wire_bytes_def]] assms
    by (simp add: wire_bytes_to_display_hex_def display_id_def to_lower_hex_ids)
qed

lemma wire_of_display_hash [simp]:
  "length d = 32 \<Longrightarrow> wire_of_display (wire_bytes_to_display_hex d) = d"
  by (simp add: wire_of_display_def display_hex_to_wire_bytes_def wire_bytes_to_display_hex_def)

definition read_display_id :: "string reader" where
  "read_display_id = bindR (read_bytes 32) (\<lambda>w. returnR (wire_bytes_to_display_hex w))"

lemma read_display_id_Inr:
  "read_display_id input off = Inr (s, off') \<longleftrightarrow> off + 32 \<le> length input \<and> off' = off + 32 \<and>
     s = wire_bytes_to_display_hex (take 32 (drop off input))"
  by (auto simp: read_display_id_def bindR_def returnR_def read_bytes_def)

interpretation idc: wire_codec wire_of_display read_display_id display_id
proof (rule fixed_codec [of _ 32 wire_bytes_to_display_hex])
  show "display_id (wire_bytes_to_display_hex bs) \<and> wire_of_display (wire_bytes_to_display_hex bs) = bs"
    if "length bs = 32" for bs
    using that display_id_hash [OF that] by (simp add: wire_bytes_to_display_hex_def [symmetric])
qed (simp_all add: read_display_id_Inr display_id_wire)

end
