(* ===== verification/Text.thy ===== *)
theory Text
  imports Prelude
begin

section \<open>Decimal text: std::to_string, operator<< and std::from_chars\<close>

text \<open>
  The standard library's conversions between unsigned integers and decimal text, as the
  parsers and writers of the program use them. \<open>show_nat\<close> is \<^verbatim>\<open>std::to_string\<close> and
  \<^verbatim>\<open>operator<<\<close> on an unsigned integer; \<open>from_chars_dec\<close> is \<^verbatim>\<open>std::from_chars\<close> into a type
  of the given maximum: the longest digit prefix is read, an empty prefix or a value out of
  range is an error, and the rest of the text is returned (the \<^verbatim>\<open>ptr\<close> the callers compare
  with the end).
\<close>

definition is_digit :: "char \<Rightarrow> bool" where
  "is_digit c \<longleftrightarrow> CHR ''0'' \<le> c \<and> c \<le> CHR ''9''"

definition digit_value :: "char \<Rightarrow> nat" where
  "digit_value c = of_char c - 48"

definition digit_char :: "nat \<Rightarrow> char" where
  "digit_char n = char_of (48 + n)"

definition dec_value :: "string \<Rightarrow> nat" where
  "dec_value s = foldl (\<lambda>v c. 10 * v + digit_value c) 0 s"

fun show_nat :: "nat \<Rightarrow> string" where
  "show_nat n = (if n < 10 then [digit_char n] else show_nat (n div 10) @ [digit_char (n mod 10)])"

declare show_nat.simps [simp del]

definition from_chars_dec :: "nat \<Rightarrow> string \<Rightarrow> (nat \<times> string) option" where
  "from_chars_dec maximum s =
     (let ds = takeWhile is_digit s in
      if ds = [] \<or> dec_value ds > maximum then None else Some (dec_value ds, dropWhile is_digit s))"

text \<open>The callers accept a text only when the whole of it is read.\<close>

definition parse_dec :: "nat \<Rightarrow> string \<Rightarrow> nat option" where
  "parse_dec maximum s =
     (case from_chars_dec maximum s of
        None \<Rightarrow> None
      | Some (v, rest) \<Rightarrow> if rest = [] then Some v else None)"

lemma of_digit_char [simp]: "n < 10 \<Longrightarrow> (of_char (digit_char n) :: nat) = 48 + n"
  by (simp add: digit_char_def)

lemma digit_char_digit [simp]: "n < 10 \<Longrightarrow> is_digit (digit_char n)"
  by (simp add: is_digit_def less_eq_char_def)

lemma digit_value_char [simp]: "n < 10 \<Longrightarrow> digit_value (digit_char n) = n"
  by (simp add: digit_value_def)

lemma digit_value_less: "is_digit c \<Longrightarrow> digit_value c < 10"
  by (auto simp: is_digit_def digit_value_def less_eq_char_def)

lemma digit_char_value [simp]: "is_digit c \<Longrightarrow> digit_char (digit_value c) = c"
  by (auto simp: is_digit_def digit_value_def digit_char_def less_eq_char_def)

lemma dec_value_Nil [simp]: "dec_value [] = 0"
  and dec_value_snoc [simp]: "dec_value (s @ [c]) = 10 * dec_value s + digit_value c"
  by (simp_all add: dec_value_def)

lemma dec_value_append: "dec_value (s @ t) = dec_value s * 10 ^ length t + dec_value t"
  by (induction t rule: rev_induct) (simp_all flip: append_assoc add: algebra_simps)

lemma dec_value_less: "list_all is_digit s \<Longrightarrow> dec_value s < 10 ^ length s"
proof (induction s rule: rev_induct)
  case (snoc c s)
  then show ?case using digit_value_less [of c] by simp
qed simp

lemma show_nat_nonempty [simp]: "show_nat n \<noteq> []"
  by (subst show_nat.simps) simp

lemma show_nat_digits [simp]: "list_all is_digit (show_nat n)"
  by (induction n rule: show_nat.induct) (subst show_nat.simps, simp)

lemma dec_value_show [simp]: "dec_value (show_nat n) = n"
proof (induction n rule: show_nat.induct)
  case (1 n)
  have one: "dec_value [c] = digit_value c" for c
    using dec_value_snoc [of "[]" c] by simp
  show ?case
    using 1 one by (subst show_nat.simps) simp
qed

lemma takeWhile_digits: "list_all is_digit s \<Longrightarrow> takeWhile is_digit s = s \<and> dropWhile is_digit s = []"
  by (induction s) auto

lemma parse_dec_Some:
  "parse_dec m s = Some v \<longleftrightarrow> s \<noteq> [] \<and> list_all is_digit s \<and> v = dec_value s \<and> v \<le> m"
proof -
  have "dropWhile is_digit s = [] \<longleftrightarrow> list_all is_digit s"
    by (simp add: list_all_iff)
  then show ?thesis
    by (auto simp: parse_dec_def from_chars_dec_def Let_def takeWhile_digits split: if_splits)
qed

lemma parse_show_nat [simp]: "parse_dec m (show_nat n) = (if n \<le> m then Some n else None)"
  using parse_dec_Some [of m "show_nat n"] by (cases "parse_dec m (show_nat n)") auto

text \<open>Fixed-width decimal fields: \<^verbatim>\<open>setw(w)\<close> with fill \<^verbatim>\<open>'0'\<close>.\<close>

definition pad_left :: "nat \<Rightarrow> char \<Rightarrow> string \<Rightarrow> string" where
  "pad_left w c s = replicate (w - length s) c @ s"

lemma dec_value_zeros [simp]: "dec_value (replicate k (CHR ''0'') @ s) = dec_value s"
proof -
  have "dec_value (replicate k (CHR ''0'')) = 0"
    by (induction k) (simp_all add: digit_value_def replicate_append_same [symmetric])
  then show ?thesis by (simp add: dec_value_append)
qed

lemma show_nat_length_le: "n < 10 ^ k \<Longrightarrow> 0 < k \<Longrightarrow> length (show_nat n) \<le> k"
proof (induction n arbitrary: k rule: show_nat.induct)
  case (1 n)
  show ?case
  proof (cases "n < 10")
    case True
    then show ?thesis using 1 by (subst show_nat.simps) simp
  next
    case False
    then obtain j where k: "k = Suc j" and j: "0 < j"
      using 1 by (cases k; cases "k = 1") auto
    then have "length (show_nat (n div 10)) \<le> j"
      using 1 False by (intro 1(1)) auto
    then show ?thesis using False k by (subst show_nat.simps) simp
  qed
qed

lemma length_pad_show: "n < 10 ^ k \<Longrightarrow> 0 < k \<Longrightarrow> length (pad_left k c (show_nat n)) = k"
  using show_nat_length_le [of n k] by (simp add: pad_left_def)

lemma pad_show_digits [simp]: "list_all is_digit (pad_left k (CHR ''0'') (show_nat n))"
  by (simp add: pad_left_def list_all_iff is_digit_def)
     (use show_nat_digits [of n] in \<open>auto simp: list_all_iff is_digit_def\<close>)

lemma dec_value_pad [simp]: "dec_value (pad_left k (CHR ''0'') (show_nat n)) = n"
  by (simp add: pad_left_def)

subsection \<open>Fields and lines\<close>

text \<open>\<open>split\<close> is the loop over \<^verbatim>\<open>find(separator)\<close> of \<^verbatim>\<open>chain.cpp\<close> and \<^verbatim>\<open>storage.cpp\<close>: a text with
  \<open>n\<close> separators has \<open>n + 1\<close> fields. \<open>getlines\<close> is \<^verbatim>\<open>while (std::getline(input, line))\<close>: a final
  line without its newline still counts, an empty rest does not.\<close>

function split :: "string \<Rightarrow> char \<Rightarrow> string list" where
  "split s sep =
     (case dropWhile (\<lambda>c. c \<noteq> sep) s of
        [] \<Rightarrow> [s]
      | _ # rest \<Rightarrow> takeWhile (\<lambda>c. c \<noteq> sep) s # split rest sep)"
  by pat_completeness auto

termination
proof (relation "measure (\<lambda>(s, sep). length s)", goal_cases)
  case (2 s sep c rest)
  then show ?case
    using length_dropWhile_le [of "\<lambda>c. c \<noteq> sep" s] by simp
qed simp

declare split.simps [simp del]

abbreviation newline :: char where "newline \<equiv> CHR 0x0A"
abbreviation tab :: char where "tab \<equiv> CHR 0x09"

function getlines :: "string \<Rightarrow> string list" where
  "getlines s =
     (if s = [] then []
      else takeWhile (\<lambda>c. c \<noteq> newline) s #
           getlines (drop 1 (dropWhile (\<lambda>c. c \<noteq> newline) s)))"
  by pat_completeness auto

termination
proof (relation "measure length", goal_cases)
  case (2 s)
  have "length (dropWhile (\<lambda>c. c \<noteq> newline) s) \<le> length s" by (rule length_dropWhile_le)
  with 2 show ?case by (cases s) (auto simp: less_Suc_eq_le intro: diff_le_self order.trans)
qed simp

declare getlines.simps [simp del]

definition starts_with :: "string \<Rightarrow> string \<Rightarrow> bool" where
  "starts_with s p \<longleftrightarrow> take (length p) s = p"

definition ends_with :: "string \<Rightarrow> string \<Rightarrow> bool" where
  "ends_with s p \<longleftrightarrow> length p \<le> length s \<and> drop (length s - length p) s = p"

fun join :: "char \<Rightarrow> string list \<Rightarrow> string" where
  "join sep [] = []"
| "join sep [x] = x"
| "join sep (x # xs) = x @ sep # join sep xs"

definition unlines :: "string list \<Rightarrow> string" where
  "unlines ls = concat (map (\<lambda>l. l @ [newline]) ls)"

lemma dropWhile_no: "sep \<notin> set s \<Longrightarrow> dropWhile (\<lambda>c. c \<noteq> sep) s = []"
  by (induction s) auto

lemma takeWhile_no: "sep \<notin> set s \<Longrightarrow> takeWhile (\<lambda>c. c \<noteq> sep) (s @ sep # t) = s"
  by (induction s) auto

lemma dropWhile_sep: "sep \<notin> set s \<Longrightarrow> dropWhile (\<lambda>c. c \<noteq> sep) (s @ sep # t) = sep # t"
  by (induction s) auto

lemma split_single: "sep \<notin> set s \<Longrightarrow> split s sep = [s]"
  by (subst split.simps) (simp add: dropWhile_no)

lemma split_cons: "sep \<notin> set s \<Longrightarrow> split (s @ sep # t) sep = s # split t sep"
  by (subst split.simps) (simp add: dropWhile_sep takeWhile_no)

lemma split_join: "xs \<noteq> [] \<Longrightarrow> (\<And>x. x \<in> set xs \<Longrightarrow> sep \<notin> set x) \<Longrightarrow> split (join sep xs) sep = xs"
  by (induction sep xs rule: join.induct) (auto simp: split_single split_cons)

lemma join_split: "join sep (split s sep) = s"
proof (induction s sep rule: split.induct)
  case (1 s sep)
  show ?case
  proof (cases "dropWhile (\<lambda>c. c \<noteq> sep) s")
    case Nil
    have "split s sep = [s]" unfolding split.simps [of s sep] Nil by simp
    then show ?thesis by simp
  next
    case (Cons c rest)
    then have c: "c = sep" using hd_dropWhile [of "\<lambda>c. c \<noteq> sep" s] by simp
    have "split rest sep \<noteq> []" by (subst split.simps) (simp split: list.splits)
    then have "join sep (takeWhile (\<lambda>c. c \<noteq> sep) s # split rest sep) =
        takeWhile (\<lambda>c. c \<noteq> sep) s @ sep # join sep (split rest sep)"
      by (cases "split rest sep") auto
    also have "\<dots> = takeWhile (\<lambda>c. c \<noteq> sep) s @ dropWhile (\<lambda>c. c \<noteq> sep) s"
      using 1 Cons c by simp
    finally show ?thesis
      using Cons takeWhile_dropWhile_id [of "\<lambda>c. c \<noteq> sep" s] by (subst split.simps) simp
  qed
qed

lemma getlines_Nil [simp]: "getlines [] = []"
  by (simp add: getlines.simps)

lemma getlines_cons: "newline \<notin> set l \<Longrightarrow> getlines (l @ newline # t) = l # getlines t"
  by (subst getlines.simps) (simp add: takeWhile_no dropWhile_sep)

lemma getlines_unlines: "(\<And>l. l \<in> set ls \<Longrightarrow> newline \<notin> set l) \<Longrightarrow> getlines (unlines ls) = ls"
  by (induction ls) (auto simp: unlines_def getlines_cons)

lemma unlines_append: "unlines (xs @ ys) = unlines xs @ unlines ys"
  by (simp add: unlines_def)

subsection \<open>Integer fields\<close>

definition parse_unsigned :: "nat \<Rightarrow> string \<Rightarrow> exn \<Rightarrow> nat res" where
  "parse_unsigned maximum s e = (case parse_dec maximum s of None \<Rightarrow> Inl e | Some v \<Rightarrow> Inr v)"

text \<open>\<^verbatim>\<open>std::from_chars\<close> into a signed type: a minus sign is part of the number, a plus sign is not.\<close>

definition parse_signed :: "nat \<Rightarrow> string \<Rightarrow> exn \<Rightarrow> int res" where
  "parse_signed maximum s e =
     (case s of
        c # rest \<Rightarrow>
          if c = CHR ''-''
          then (case parse_dec (maximum + 1) rest of None \<Rightarrow> Inl e | Some v \<Rightarrow> Inr (- int v))
          else (case parse_dec maximum s of None \<Rightarrow> Inl e | Some v \<Rightarrow> Inr (int v))
      | [] \<Rightarrow> Inl e)"

definition show_int :: "int \<Rightarrow> string" where
  "show_int i = (if i < 0 then CHR ''-'' # show_nat (nat (- i)) else show_nat (nat i))"

lemma parse_unsigned_show [simp]: "n \<le> m \<Longrightarrow> parse_unsigned m (show_nat n) e = Inr n"
  by (simp add: parse_unsigned_def)

lemma digit_not: "list_all is_digit s \<Longrightarrow> c \<in> set s \<Longrightarrow> is_digit c"
  by (simp add: list_all_iff)

lemma show_nat_not: "\<not> is_digit c \<Longrightarrow> c \<notin> set (show_nat n)"
  using digit_not [OF show_nat_digits] by blast

lemma not_digits [simp]: "\<not> is_digit newline" "\<not> is_digit tab" "\<not> is_digit (CHR ''-'')" "\<not> is_digit (CHR ''='')"
  by (simp_all add: is_digit_def less_eq_char_def)

lemma parse_signed_show:
  "- int m - 1 \<le> i \<Longrightarrow> i \<le> int m \<Longrightarrow> parse_signed m (show_int i) e = Inr i"
proof (cases "i < 0")
  case False
  assume i: "i \<le> int m"
  obtain c t where s: "show_nat (nat i) = c # t"
    by (cases "show_nat (nat i)") auto
  then have "c \<noteq> CHR ''-''"
    using show_nat_not [of "CHR ''-''" "nat i"] by auto
  with s i False show ?thesis
    using parse_show_nat [of m "nat i"] by (simp add: parse_signed_def show_int_def nat_le_iff)
qed (simp add: parse_signed_def show_int_def nat_le_iff)

lemma show_int_not: "\<not> is_digit c \<Longrightarrow> c \<noteq> CHR ''-'' \<Longrightarrow> c \<notin> set (show_int i)"
  by (auto simp: show_int_def show_nat_not)

subsection \<open>std::stoul\<close>

text \<open>White space in the C locale, and \<^verbatim>\<open>std::stoul(text, &used, 10)\<close> on a 64-bit \<^verbatim>\<open>unsigned long\<close> with the position it
  stores: leading space and a sign are read, a negative number wraps, no digits and a number out of range throw.\<close>

definition is_cspace :: "char \<Rightarrow> bool" where
  "is_cspace c \<longleftrightarrow> c = CHR '' '' \<or> 9 \<le> (of_char c :: nat) \<and> of_char c \<le> (13 :: nat)"

abbreviation ULONG_MAX :: nat where "ULONG_MAX \<equiv> 18446744073709551615"

definition stoul :: "string \<Rightarrow> string \<Rightarrow> (nat \<times> nat) res" where
  "stoul name s =
     (let r = dropWhile is_cspace s;
          negative = (r \<noteq> [] \<and> hd r = CHR ''-'');
          r = (if r \<noteq> [] \<and> (hd r = CHR ''-'' \<or> hd r = CHR ''+'') then tl r else r);
          ds = takeWhile is_digit r;
          v = dec_value ds
      in if ds = [] then Inl (InvalidArgument name)
         else if v > ULONG_MAX then Inl (OutOfRange name)
         else Inr (if negative then (ULONG_MAX + 1 - v) mod (ULONG_MAX + 1) else v, length s - length (dropWhile is_digit r)))"

lemma stoul_show: "n \<le> ULONG_MAX \<Longrightarrow> stoul name (show_nat n) = Inr (n, length (show_nat n))"
proof -
  assume n: "n \<le> ULONG_MAX"
  obtain c cs where c: "show_nat n = c # cs" by (cases "show_nat n") auto
  have d: "list_all is_digit (show_nat n)" by simp
  then have "is_digit c" by (simp add: c)
  then have "\<not> is_cspace c" "c \<noteq> CHR ''-''" "c \<noteq> CHR ''+''"
    by (auto simp: is_cspace_def is_digit_def less_eq_char_def)
  moreover have "takeWhile is_digit (show_nat n) = show_nat n" "dropWhile is_digit (show_nat n) = []"
    using d by (simp_all add: list_all_iff)
  ultimately show ?thesis using n unfolding stoul_def Let_def by (simp add: c) (simp flip: c)
qed

subsection \<open>Searching a text\<close>

text \<open>\<^verbatim>\<open>rfind\<close> and \<^verbatim>\<open>find\<close>: the position of the last or first occurrence, \<open>None\<close> for \<^verbatim>\<open>npos\<close>.\<close>

fun find_char :: "char \<Rightarrow> string \<Rightarrow> nat option" where
  "find_char c [] = None"
| "find_char c (d # ds) = (if d = c then Some 0 else map_option Suc (find_char c ds))"

definition rfind_char :: "char \<Rightarrow> string \<Rightarrow> nat option" where
  "rfind_char c s = map_option (\<lambda>i. length s - Suc i) (find_char c (rev s))"

end
