(* ===== verification/Amount.thy ===== *)
theory Amount
  imports Text
begin

section \<open>Amounts, subsidy and fee rates (amount.hpp, fees.cpp, wallet_amount.cpp)\<close>

text \<open>
  \<open>Amount\<close> is \<^verbatim>\<open>std::int64_t\<close>; the model uses the integer it denotes, and the lemmas show that
  the checked operations stay in range, so the arithmetic of the code does not overflow.
  Sizes, heights and the intermediate product of \<^verbatim>\<open>FeeRate::fee\<close> are 64-bit words.
\<close>

unbundle bit_operations_syntax

definition BITS_PER_BIN :: int where "BITS_PER_BIN = 100000000"

definition INITIAL_SUBSIDY :: int where "INITIAL_SUBSIDY = 50 * BITS_PER_BIN"

definition MAX_MONEY :: int where "MAX_MONEY = 21000000 * BITS_PER_BIN"

definition TESTNET_HALVING_INTERVAL :: u32 where "TESTNET_HALVING_INTERVAL = 210000"

definition COINBASE_MATURITY :: u32 where "COINBASE_MATURITY = 100"

lemmas amount_consts = BITS_PER_BIN_def INITIAL_SUBSIDY_def MAX_MONEY_def
  TESTNET_HALVING_INTERVAL_def COINBASE_MATURITY_def

definition money_range :: "int \<Rightarrow> bool" where
  "money_range v \<longleftrightarrow> v \<ge> 0 \<and> v \<le> MAX_MONEY"

definition block_subsidy :: "u64 \<Rightarrow> u32 \<Rightarrow> int res" where
  "block_subsidy height halving_interval =
     (if halving_interval = 0 then Inl (InvalidArgument ''Halving interval cannot be zero'')
      else let halvings = height div ucast halving_interval in
        if halvings \<ge> 63 then Inr 0
        else Inr (drop_bit (unat halvings) INITIAL_SUBSIDY))"

subsection \<open>Fee rates\<close>

datatype fee_estimate_mode = Economical | Conservative

datatype fee_estimate_source = Historical | Fallback | MempoolMinimum | RequiredMinimum

definition fee :: "int \<Rightarrow> u64 \<Rightarrow> int res" where
  "fee bits_per_kvb virtual_bytes =
     (if bits_per_kvb < 0 then Inl (RuntimeError ''Negative fee rates are invalid'')
      else if virtual_bytes = 0 \<or> bits_per_kvb = 0 then Inr 0
      else let size = virtual_bytes; rate = word_of_int bits_per_kvb :: u64 in
        if size > (- 1 - 999) div rate then Inl (OverflowError ''Fee calculation overflow'')
        else let rounded = (rate * size + 999) div 1000 in
          if rounded > word_of_int MAX_MONEY
          then Inl (OverflowError ''Calculated fee exceeds money range'')
          else Inr (sint rounded))"

record fee_quote =
  fq_rate :: int
  fq_fee :: int
  fq_confirmation_target :: u32
  fq_mode :: fee_estimate_mode
  fq_source :: fee_estimate_source

definition relay_minimum :: int where "relay_minimum = 1000"

definition fallback_economical :: int where "fallback_economical = 1000"

definition fallback_conservative :: int where "fallback_conservative = 2000"

definition estimate :: "u64 \<Rightarrow> u32 \<Rightarrow> fee_estimate_mode \<Rightarrow> fee_quote res" where
  "estimate virtual_bytes confirmation_target mode =
     (if confirmation_target = 0 \<or> confirmation_target > 1008
      then Inl (InvalidArgument ''Confirmation target must be between 1 and 1008 blocks'')
      else
        let selected = (if mode = Conservative then fallback_conservative else fallback_economical);
            (selected, source) =
              (if selected < relay_minimum then (relay_minimum, RequiredMinimum)
               else (selected, Fallback))
        in bindE (fee selected virtual_bytes) (\<lambda>f.
             Inr \<lparr> fq_rate = selected, fq_fee = f, fq_confirmation_target = confirmation_target,
                   fq_mode = mode, fq_source = source \<rparr>))"

definition parse_fee_mode :: "string \<Rightarrow> fee_estimate_mode res" where
  "parse_fee_mode s =
     (if s = ''economical'' then Inr Economical
      else if s = ''conservative'' then Inr Conservative
      else Inl (InvalidArgument ''Fee mode must be economical or conservative''))"

definition fee_mode_name :: "fee_estimate_mode \<Rightarrow> string" where
  "fee_mode_name mode = (if mode = Conservative then ''conservative'' else ''economical'')"

fun fee_source_name :: "fee_estimate_source \<Rightarrow> string" where
  "fee_source_name Historical = ''historical''"
| "fee_source_name Fallback = ''fallback''"
| "fee_source_name MempoolMinimum = ''mempool-minimum''"
| "fee_source_name RequiredMinimum = ''required-minimum''"

subsection \<open>Decimal BIN amounts\<close>

definition parse_bin_amount :: "string \<Rightarrow> int res" where
  "parse_bin_amount s =
     (if s = [] \<or> hd s = CHR ''-'' then Inl (InvalidArgument ''BIN amount must be positive'')
      else let
        whole_text = takeWhile (\<lambda>c. c \<noteq> CHR ''.'') s;
        from_dot = dropWhile (\<lambda>c. c \<noteq> CHR ''.'') s;
        fraction_text = (if from_dot = [] then [] else tl from_dot) in
      if from_dot \<noteq> [] \<and> CHR ''.'' \<in> set (tl from_dot)
      then Inl (InvalidArgument ''BIN amount has multiple decimal points'')
      else if whole_text = [] \<or> length fraction_text > 8
      then Inl (InvalidArgument ''BIN amount supports at most 8 decimals'')
      else let padded = fraction_text @ replicate (8 - length fraction_text) (CHR ''0'') in
      case parse_dec (2 ^ 64 - 1) whole_text of
        None \<Rightarrow> Inl (InvalidArgument ''Invalid BIN amount'')
      | Some whole \<Rightarrow>
        (case parse_dec (2 ^ 64 - 1) padded of
           None \<Rightarrow> Inl (InvalidArgument ''Invalid BIN fractional amount'')
         | Some fraction \<Rightarrow>
             if int whole > MAX_MONEY div BITS_PER_BIN
             then Inl (InvalidArgument ''BIN amount too large'')
             else let bits = int whole * BITS_PER_BIN + int fraction in
               if bits > MAX_MONEY then Inl (InvalidArgument ''BIN amount outside money range'')
               else Inr bits))"

definition format_bin_amount :: "int \<Rightarrow> string res" where
  "format_bin_amount amount =
     (if \<not> money_range amount then Inl (InvalidArgument ''Amount outside money range'')
      else Inr (show_nat (nat (amount div BITS_PER_BIN)) @ ''.'' @
                pad_left 8 (CHR ''0'') (show_nat (nat (amount mod BITS_PER_BIN)))))"

subsection \<open>The subsidy schedule\<close>

definition era_subsidy :: "nat \<Rightarrow> int" where
  "era_subsidy k = (if k \<ge> 63 then 0 else INITIAL_SUBSIDY div 2 ^ k)"

lemma era_subsidy_nonneg [simp]: "0 \<le> era_subsidy k"
  by (simp add: era_subsidy_def amount_consts pos_imp_zdiv_nonneg_iff)

lemma era_subsidy_halves: "2 * era_subsidy (Suc k) \<le> era_subsidy k"
proof (cases "Suc k \<ge> 63")
  case False
  have "INITIAL_SUBSIDY div 2 ^ Suc k = INITIAL_SUBSIDY div 2 ^ k div 2"
    by (simp add: zdiv_zmult2_eq power_Suc2 del: power_Suc)
  with False show ?thesis by (simp add: era_subsidy_def)
qed (use era_subsidy_nonneg [of k] in \<open>simp add: era_subsidy_def\<close>)

lemma block_subsidy_era:
  assumes "interval \<noteq> 0"
  shows "block_subsidy height interval = Inr (era_subsidy (unat height div unat interval))"
proof -
  have "unat (ucast interval :: u64) = unat interval"
    using unsigned_less [of interval, where 'a = nat]
    by (simp add: unsigned_ucast_eq take_bit_nat_eq_self_iff)
  then have "unat (height div ucast interval) = unat height div unat interval"
    by (simp add: unat_div)
  with assms show ?thesis
    by (simp add: block_subsidy_def era_subsidy_def Let_def word_le_nat_alt drop_bit_eq_div)
qed

lemma block_subsidy_range:
  "block_subsidy height interval = Inr v \<Longrightarrow> 0 \<le> v \<and> v \<le> INITIAL_SUBSIDY"
proof -
  have "era_subsidy k \<le> INITIAL_SUBSIDY" for k
    using zdiv_mono2 [of INITIAL_SUBSIDY 1 "2 ^ k"] by (simp add: era_subsidy_def amount_consts)
  then show "block_subsidy height interval = Inr v \<Longrightarrow> ?thesis"
    by (cases "interval = 0") (auto simp: block_subsidy_def [of _ 0] block_subsidy_era)
qed

lemma block_subsidy_zero [simp]: "0 < i \<Longrightarrow> \<exists>v. block_subsidy h i = Inr v"
  by (auto simp: block_subsidy_era word_gt_0)

text \<open>The money ever issued after \<open>n\<close> blocks, bounded by a potential that each block keeps.\<close>

definition issued :: "nat \<Rightarrow> nat \<Rightarrow> int" where
  "issued interval n = (\<Sum>h<n. era_subsidy (h div interval))"

lemma issued_potential:
  assumes "0 < i"
  shows "issued i n + int (i - n mod i) * era_subsidy (n div i) + int i * era_subsidy (n div i)
           \<le> 2 * int i * INITIAL_SUBSIDY"
proof (induction n)
  case 0
  show ?case by (simp add: issued_def era_subsidy_def)
next
  case (Suc n)
  show ?case
  proof (cases "Suc (n mod i) = i")
    case True
    then have n: "Suc n mod i = 0" "Suc n div i = Suc (n div i)" "i - n mod i = 1"
      by (simp_all add: mod_Suc div_Suc)
    have "int i * (2 * era_subsidy (Suc (n div i))) \<le> int i * era_subsidy (n div i)"
      using era_subsidy_halves by (intro mult_left_mono) auto
    then show ?thesis using Suc n by (simp add: issued_def algebra_simps)
  next
    case False
    then have n: "Suc n mod i = Suc (n mod i)" "Suc n div i = n div i"
      by (simp_all add: mod_Suc div_Suc)
    have "n mod i < i" using assms by simp
    then have "i - n mod i = Suc (i - Suc (n mod i))" by simp
    then have "int (i - n mod i) = int (i - Suc (n mod i)) + 1" by simp
    then show ?thesis using Suc n by (simp add: issued_def algebra_simps)
  qed
qed

lemma issued_bound: "0 < i \<Longrightarrow> issued i n \<le> 2 * int i * INITIAL_SUBSIDY"
  using issued_potential [of i n]
    mult_nonneg_nonneg [OF of_nat_0_le_iff [of "i - n mod i"] era_subsidy_nonneg [of "n div i"]]
    mult_nonneg_nonneg [OF of_nat_0_le_iff [of i] era_subsidy_nonneg [of "n div i"]]
  by linarith

lemma issued_le_max_money: "issued (unat TESTNET_HALVING_INTERVAL) n \<le> MAX_MONEY"
  using issued_bound [of "unat TESTNET_HALVING_INTERVAL" n] by (simp add: amount_consts)

lemma issued_mono: "m \<le> n \<Longrightarrow> issued i m \<le> issued i n"
  unfolding issued_def by (intro sum_mono2) auto

subsection \<open>Fees\<close>

lemma fee_exact:
  assumes "0 \<le> rate" "rate < 2 ^ 63"
  shows "fee rate sz =
    (let exact = (rate * int (unat sz) + 999) div 1000 in
     if exact \<le> MAX_MONEY then Inr exact
     else if unat sz > (2 ^ 64 - 1000) div nat rate
     then Inl (OverflowError ''Fee calculation overflow'')
     else Inl (OverflowError ''Calculated fee exceeds money range''))"
proof (cases "sz = 0 \<or> rate = 0")
  case True
  with assms show ?thesis by (auto simp: fee_def amount_consts)
next
  case False
  define r where "r = nat rate"
  define s where "s = unat sz"
  have r: "rate = int r" "0 < r" "r < 2 ^ 63" and s: "0 < s" "s < 2 ^ 64"
    using assms False unsigned_less [of sz, where 'a = nat]
    by (auto simp: r_def s_def unat_gt_0)
  have ur: "unat (word_of_int rate :: u64) = r"
    using r by (simp add: unat_of_nat)
  have max: "unat (- 1 - 999 :: u64) = 2 ^ 64 - 1000"
    by simp
  have guard: "sz > (- 1 - 999) div word_of_int rate \<longleftrightarrow> s > (2 ^ 64 - 1000) div r"
    by (simp only: word_less_nat_alt unat_div ur max s_def)
  show ?thesis
  proof (cases "s > (2 ^ 64 - 1000) div r")
    case True
    then have "2 ^ 64 - 1000 < s * r"
      using r(2) by (simp only: div_less_iff_less_mult)
    then have "MAX_MONEY < (int r * int s + 999) div 1000"
      unfolding amount_consts by (simp add: mult.commute flip: of_nat_mult)
    with True False assms guard show ?thesis
      by (simp add: fee_def r(1) s_def [symmetric] Let_def)
  next
    case small: False
    then have "s * r \<le> 2 ^ 64 - 1000"
      using r(2) by (metis div_less_iff_less_mult not_less)
    define x where "x = (r * s + 999) div 1000"
    define w where "w = (word_of_int rate * sz + 999 :: u64) div 1000"
    have "unat (word_of_int rate * sz + 999 :: u64) = r * s + 999"
      using \<open>s * r \<le> _\<close> by (simp add: unat_word_ariths ur s_def [symmetric] mult.commute)
    then have w: "unat w = x"
      by (simp add: w_def x_def unat_div)
    have x: "x < 2 ^ 63"
      using \<open>s * r \<le> _\<close> by (simp add: x_def mult.commute)
    have "w = word_of_int (int x)"
      by (simp flip: w)
    with x have sw: "sint w = int x"
      by (simp add: int_word_sint del: of_int_of_nat_eq)
    have cmp: "w > word_of_int MAX_MONEY \<longleftrightarrow> int x > MAX_MONEY"
      by (simp add: word_less_nat_alt w amount_consts)
    have ex: "(rate * int s + 999) div 1000 = int x"
      by (simp add: x_def r(1) zdiv_int)
    show ?thesis
      using False small assms guard sw cmp
      by (simp add: fee_def Let_def w_def [symmetric] ex r_def [symmetric] flip: s_def)
  qed
qed

lemma fee_range: "fee rate sz = Inr f \<Longrightarrow> rate < 2 ^ 63 \<Longrightarrow> money_range f"
  using fee_exact [of rate sz]
  by (cases "rate < 0")
     (auto simp: fee_def [of rate] money_range_def Let_def amount_consts pos_imp_zdiv_nonneg_iff
       split: if_splits)

subsection \<open>BIN amounts as text\<close>

lemma digit_not_dot: "list_all is_digit s \<Longrightarrow> CHR ''.'' \<notin> set s"
  by (auto simp: list_all_iff is_digit_def less_eq_char_def)

lemma split_at_dot:
  assumes "list_all is_digit s"
  shows "takeWhile (\<lambda>c. c \<noteq> CHR ''.'') (s @ CHR ''.'' # t) = s"
    and "dropWhile (\<lambda>c. c \<noteq> CHR ''.'') (s @ CHR ''.'' # t) = CHR ''.'' # t"
  using digit_not_dot [OF assms] by (induction s) auto

lemma hd_digits: "s \<noteq> [] \<Longrightarrow> list_all is_digit s \<Longrightarrow> hd (s @ t) \<noteq> CHR ''-''"
  by (cases s) (auto simp: is_digit_def less_eq_char_def)

lemma parse_format_bin:
  assumes "money_range a"
  shows "bindE (format_bin_amount a) parse_bin_amount = Inr a"
proof -
  define w where "w = nat (a div BITS_PER_BIN)"
  define f where "f = nat (a mod BITS_PER_BIN)"
  have a: "a = int w * BITS_PER_BIN + int f" and f: "f < 10 ^ 8" and w: "w \<le> 21000000"
    using assms by (auto simp: w_def f_def money_range_def amount_consts)
  let ?s = "show_nat w" and ?f = "pad_left 8 (CHR ''0'') (show_nat f)"
  have len: "length ?f = 8"
    using f by (intro length_pad_show) auto
  then have ne: "?f \<noteq> []" by auto
  have whole: "parse_dec (2 ^ 64 - 1) ?s = Some w"
    using w by simp
  have frac: "parse_dec (2 ^ 64 - 1) ?f = Some f"
    using f ne by (subst parse_dec_Some) auto
  have nb: "(MAX_MONEY < int w * BITS_PER_BIN + int f) = False"
    using a assms by (simp add: money_range_def)
  have nw: "(MAX_MONEY div BITS_PER_BIN < int w) = False"
    using w by (simp add: amount_consts)
  have "parse_bin_amount (?s @ CHR ''.'' # ?f) = Inr (int w * BITS_PER_BIN + int f)"
    using hd_digits [of ?s "CHR ''.'' # ?f"] digit_not_dot [of ?f] len
    unfolding parse_bin_amount_def
    by (simp add: split_at_dot whole [simplified] frac [simplified] Let_def nb nw)
  moreover have "format_bin_amount a = Inr (?s @ ''.'' @ ?f)"
    using assms by (simp add: format_bin_amount_def w_def f_def)
  ultimately show ?thesis
    by (simp flip: a)
qed

lemma parse_bin_range: "parse_bin_amount s = Inr a \<Longrightarrow> money_range a"
  by (auto simp: parse_bin_amount_def Let_def money_range_def amount_consts
      split: if_splits option.splits)


end
