(* ===== verification/Transaction.thy ===== *)
theory Transaction
  imports HashHex Amount
begin

section \<open>Transactions (transaction.hpp, transaction.cpp)\<close>

text \<open>
  The transaction data, the structural validation, the wire format in both directions, the
  transaction identifier and the coinbase constructor. \<open>serialize_transaction\<close> and
  \<open>deserialize_transaction\<close> are the member functions \<^verbatim>\<open>serialize\<close> and \<^verbatim>\<open>deserialize\<close>. The
  lemmas show that the wire format is a codec: deserialisation inverts serialisation on every
  structurally valid transaction with printed (lower-case) identifiers, and an accepted byte
  string is the serialisation of its result, so a transaction has one encoding.
\<close>

unbundle bit_operations_syntax

datatype outpoint = OutPoint (op_txid: string) (op_index: u32)

record tx_input =
  ti_previous_output :: outpoint
  ti_script_sig :: bytes
  ti_sequence :: u32

record tx_output =
  to_value :: int
  to_script_pubkey :: bytes

record transaction =
  tx_version :: u32
  tx_inputs :: "tx_input list"
  tx_outputs :: "tx_output list"
  tx_lock_time :: u32

definition MAX_TRANSACTION_ITEMS :: nat where "MAX_TRANSACTION_ITEMS = 100000"

definition MAX_SCRIPT_SIZE :: nat where "MAX_SCRIPT_SIZE = 10000"

text \<open>\<^verbatim>\<open>std::size_t\<close> has 64 bits on the supported platforms, so the check never fails there.\<close>

definition checked_size :: "u64 \<Rightarrow> string \<Rightarrow> nat res" where
  "checked_size v field =
     (if v > - 1 then Inl (RuntimeError (field @ '' exceeds platform size'')) else Inr (unat v))"

subsection \<open>Structural validation\<close>

definition validate_input :: "tx_input \<Rightarrow> unit \<Rightarrow> unit res" where
  "validate_input input _ =
     (if length (ti_script_sig input) > MAX_SCRIPT_SIZE
      then Inl (RuntimeError ''Input script exceeds size limit'')
      else bindE (display_hex_to_wire_bytes (op_txid (ti_previous_output input))) (\<lambda>_. Inr ()))"

definition validate_output :: "tx_output \<Rightarrow> int \<Rightarrow> int res" where
  "validate_output out total_output =
     (if \<not> money_range (to_value out)
      then Inl (RuntimeError ''Transaction output outside money range'')
      else if length (to_script_pubkey out) > MAX_SCRIPT_SIZE
      then Inl (RuntimeError ''Output script exceeds size limit'')
      else if total_output > MAX_MONEY - to_value out
      then Inl (RuntimeError ''Transaction output total overflow'')
      else Inr (total_output + to_value out))"

definition validate_transaction_structure :: "transaction \<Rightarrow> unit res" where
  "validate_transaction_structure t =
     (if tx_inputs t = [] then Inl (RuntimeError ''Transaction has no inputs'')
      else if tx_outputs t = [] then Inl (RuntimeError ''Transaction has no outputs'')
      else if length (tx_inputs t) > MAX_TRANSACTION_ITEMS \<or>
              length (tx_outputs t) > MAX_TRANSACTION_ITEMS
      then Inl (RuntimeError ''Transaction item count exceeds limit'')
      else bindE (foldE validate_input (tx_inputs t) ()) (\<lambda>_.
           bindE (foldE validate_output (tx_outputs t) 0) (\<lambda>_. Inr ())))"

subsection \<open>Serialisation\<close>

definition serialize_input :: "tx_input \<Rightarrow> bytes \<Rightarrow> bytes res" where
  "serialize_input input output =
     bindE (display_hex_to_wire_bytes (op_txid (ti_previous_output input))) (\<lambda>previous_wire.
       let output = output @ previous_wire;
           output = append_u32_le output (op_index (ti_previous_output input));
           output = append_compact_size output (word_of_nat (length (ti_script_sig input)));
           output = output @ ti_script_sig input
       in Inr (append_u32_le output (ti_sequence input)))"

definition serialize_output :: "bytes \<Rightarrow> tx_output \<Rightarrow> bytes" where
  "serialize_output output tx_output =
     (let output = append_i64_le output (to_value tx_output);
          output = append_compact_size output (word_of_nat (length (to_script_pubkey tx_output)))
      in output @ to_script_pubkey tx_output)"

definition serialize_transaction :: "transaction \<Rightarrow> bytes res" where
  "serialize_transaction t =
     bindE (validate_transaction_structure t) (\<lambda>_.
       let output = append_i32_le [] (tx_version t);
           output = append_compact_size output (word_of_nat (length (tx_inputs t)))
       in bindE (foldE serialize_input (tx_inputs t) output) (\<lambda>output.
       let output = append_compact_size output (word_of_nat (length (tx_outputs t)));
           output = foldl serialize_output output (tx_outputs t)
       in Inr (append_u32_le output (tx_lock_time t))))"

definition raw_hash :: "crypto \<Rightarrow> transaction \<Rightarrow> bytes res" where
  "raw_hash C t = bindE (serialize_transaction t) (sha256d C)"

definition txid :: "crypto \<Rightarrow> transaction \<Rightarrow> string res" where
  "txid C t = bindE (raw_hash C t) (\<lambda>h. Inr (hash_to_display_hex h))"

definition virtual_size :: "transaction \<Rightarrow> nat res" where
  "virtual_size t = bindE (serialize_transaction t) (\<lambda>b. Inr (length b))"

definition is_coinbase :: "transaction \<Rightarrow> bool" where
  "is_coinbase t \<longleftrightarrow> length (tx_inputs t) = 1 \<and>
     op_txid (ti_previous_output (hd (tx_inputs t))) = replicate 64 (CHR ''0'') \<and>
     op_index (ti_previous_output (hd (tx_inputs t))) = 0xffffffff"

subsection \<open>Deserialisation\<close>

definition read_size :: "string \<Rightarrow> nat reader" where
  "read_size field = bindR read_compact_size (\<lambda>v. liftR (checked_size v field))"

definition read_tx_input :: "tx_input reader" where
  "read_tx_input =
     bindR (read_bytes 32) (\<lambda>previous_wire.
     bindR read_u32_le (\<lambda>index.
     bindR (read_size ''Input script size'') (\<lambda>script_size.
     guardR (script_size > MAX_SCRIPT_SIZE) (RuntimeError ''Input script exceeds size limit'')
    (bindR (read_bytes script_size) (\<lambda>script_sig.
     bindR read_u32_le (\<lambda>sequence.
       returnR \<lparr> ti_previous_output = OutPoint (wire_bytes_to_display_hex previous_wire) index,
                 ti_script_sig = script_sig, ti_sequence = sequence \<rparr>))))))"

definition read_tx_output :: "tx_output reader" where
  "read_tx_output =
     bindR read_i64_le (\<lambda>v.
     bindR (read_size ''Output script size'') (\<lambda>script_size.
     guardR (script_size > MAX_SCRIPT_SIZE) (RuntimeError ''Output script exceeds size limit'')
    (bindR (read_bytes script_size) (\<lambda>script_pubkey.
       returnR \<lparr> to_value = v, to_script_pubkey = script_pubkey \<rparr>))))"

definition read_transaction :: "transaction reader" where
  "read_transaction =
     bindR read_i32_le (\<lambda>version.
     bindR (read_size ''Input count'') (\<lambda>input_count.
     guardR (input_count > MAX_TRANSACTION_ITEMS) (RuntimeError ''Too many transaction inputs'')
    (bindR (read_many read_tx_input input_count) (\<lambda>inputs.
     bindR (read_size ''Output count'') (\<lambda>output_count.
     guardR (output_count > MAX_TRANSACTION_ITEMS) (RuntimeError ''Too many transaction outputs'')
    (bindR (read_many read_tx_output output_count) (\<lambda>outputs.
     bindR read_u32_le (\<lambda>lock_time.
       returnR \<lparr> tx_version = version, tx_inputs = inputs, tx_outputs = outputs,
                 tx_lock_time = lock_time \<rparr>))))))))"

definition deserialize_transaction :: "bytes \<Rightarrow> transaction res" where
  "deserialize_transaction bs =
     bindE (read_transaction bs 0) (\<lambda>(t, offset).
       if offset \<noteq> length bs then Inl (RuntimeError ''Trailing data after transaction'')
       else bindE (validate_transaction_structure t) (\<lambda>_. Inr t))"

subsection \<open>Coinbase construction\<close>

text \<open>\<^verbatim>\<open>std::int64_t\<close> argument as an integer; the loop runs on the unsigned magnitude.\<close>

fun magnitude_bytes :: "nat \<Rightarrow> bytes" where
  "magnitude_bytes absolute =
     (if absolute = 0 then [] else word_of_nat absolute # magnitude_bytes (absolute div 256))"

declare magnitude_bytes.simps [simp del]

definition encode_script_number :: "int \<Rightarrow> bytes" where
  "encode_script_number v =
     (if v = 0 then []
      else let negative = v < 0; result = magnitude_bytes (nat \<bar>v\<bar>) in
        if last result AND 0x80 \<noteq> 0 then result @ [if negative then 0x80 else 0]
        else if negative then butlast result @ [last result OR 0x80]
        else result)"

definition push_script_data :: "bytes \<Rightarrow> bytes res" where
  "push_script_data data =
     (if length data > 75
      then Inl (InvalidArgument ''This milestone supports direct script pushes of at most 75 bytes'')
      else Inr (word_of_nat (length data) # data))"

definition make_testnet_coinbase :: "u64 \<Rightarrow> int \<Rightarrow> bytes \<Rightarrow> transaction res" where
  "make_testnet_coinbase height reward script_pubkey =
     (if \<not> money_range reward then Inl (InvalidArgument ''Coinbase reward outside money range'')
      else if script_pubkey = [] \<or> length script_pubkey > MAX_SCRIPT_SIZE
      then Inl (InvalidArgument ''Coinbase locking script has invalid size'')
      else bindE (push_script_data (encode_script_number (sint height))) (\<lambda>pushed_height.
           bindE (push_script_data
                   (string_bytes ''July 22 2026, BinaryCoin testnet alpha begins.'')) (\<lambda>pushed_marker.
           Inr \<lparr> tx_version = 1,
                 tx_inputs = [\<lparr> ti_previous_output = OutPoint (replicate 64 (CHR ''0'')) 0xffffffff,
                                ti_script_sig = pushed_height @ pushed_marker,
                                ti_sequence = 0xffffffff \<rparr>],
                 tx_outputs = [\<lparr> to_value = reward, to_script_pubkey = script_pubkey \<rparr>],
                 tx_lock_time = 0 \<rparr>)))"

subsection \<open>The wire format is a codec\<close>

lemma checked_size_ok [simp]: "checked_size v field = Inr (unat v)"
  by (simp add: checked_size_def)

lemma read_size_bind [simp]:
  "bindR (read_size field) k = bindR read_compact_size (\<lambda>v. k (unat v))"
  by (simp add: read_size_def) (simp add: bindR_def liftR_def fun_eq_iff)

definition enc_input :: "tx_input \<Rightarrow> bytes" where
  "enc_input i = wire_of_display (op_txid (ti_previous_output i)) @
     append_u32_le [] (op_index (ti_previous_output i)) @
     enc_sized (ti_script_sig i) @ append_u32_le [] (ti_sequence i)"

definition good_input :: "tx_input \<Rightarrow> bool" where
  "good_input i \<longleftrightarrow> display_id (op_txid (ti_previous_output i)) \<and>
     length (ti_script_sig i) \<le> MAX_SCRIPT_SIZE"

definition enc_output :: "tx_output \<Rightarrow> bytes" where
  "enc_output out = append_i64_le [] (to_value out) @ enc_sized (to_script_pubkey out)"

definition good_output :: "tx_output \<Rightarrow> bool" where
  "good_output out \<longleftrightarrow> int64_range (to_value out) \<and> length (to_script_pubkey out) \<le> MAX_SCRIPT_SIZE"

definition enc_transaction :: "transaction \<Rightarrow> bytes" where
  "enc_transaction t = append_i32_le [] (tx_version t) @ enc_list enc_input (tx_inputs t) @
     enc_list enc_output (tx_outputs t) @ append_u32_le [] (tx_lock_time t)"

definition good_transaction :: "transaction \<Rightarrow> bool" where
  "good_transaction t \<longleftrightarrow>
     length (tx_inputs t) \<le> MAX_TRANSACTION_ITEMS \<and> (\<forall>i \<in> set (tx_inputs t). good_input i) \<and>
     length (tx_outputs t) \<le> MAX_TRANSACTION_ITEMS \<and> (\<forall>out \<in> set (tx_outputs t). good_output out)"

interpretation inc: wire_codec enc_input read_tx_input good_input
  by (rule record_codec [where g = "\<lambda>i. (op_txid (ti_previous_output i),
            op_index (ti_previous_output i), ti_script_sig i, ti_sequence i)"
        and f = "\<lambda>(a, b, c, d). \<lparr> ti_previous_output = OutPoint a b, ti_script_sig = c, ti_sequence = d \<rparr>",
        OF pair_codec [OF idc.wire_codec_axioms pair_codec [OF u32c.wire_codec_axioms
          pair_codec [OF sized_codec [of MAX_SCRIPT_SIZE "RuntimeError ''Input script exceeds size limit''"]
            u32c.wire_codec_axioms]]]])
     (auto simp: enc_input_def good_input_def read_tx_input_def read_display_id_def read_sized_def
       MAX_SCRIPT_SIZE_def)

interpretation outc: wire_codec enc_output read_tx_output good_output
  by (rule record_codec [where g = "\<lambda>out. (to_value out, to_script_pubkey out)"
        and f = "\<lambda>(a, b). \<lparr> to_value = a, to_script_pubkey = b \<rparr>",
        OF pair_codec [OF i64c.wire_codec_axioms
          sized_codec [of MAX_SCRIPT_SIZE "RuntimeError ''Output script exceeds size limit''"]]])
     (auto simp: enc_output_def good_output_def read_tx_output_def read_sized_def MAX_SCRIPT_SIZE_def)

interpretation txc: wire_codec enc_transaction read_transaction good_transaction
  by (rule record_codec [where g = "\<lambda>t. (tx_version t, tx_inputs t, tx_outputs t, tx_lock_time t)"
        and f = "\<lambda>(a, b, c, d). \<lparr> tx_version = a, tx_inputs = b, tx_outputs = c, tx_lock_time = d \<rparr>",
        OF pair_codec [OF i32c.wire_codec_axioms
          pair_codec [OF list_codec [OF inc.wire_codec_axioms,
              of MAX_TRANSACTION_ITEMS "RuntimeError ''Too many transaction inputs''"]
          pair_codec [OF list_codec [OF outc.wire_codec_axioms,
              of MAX_TRANSACTION_ITEMS "RuntimeError ''Too many transaction outputs''"]
            u32c.wire_codec_axioms]]]])
     (auto simp: enc_transaction_def good_transaction_def read_transaction_def read_list_def
       MAX_TRANSACTION_ITEMS_def)


subsection \<open>What validation accepts\<close>

definition valid_input :: "tx_input \<Rightarrow> bool" where
  "valid_input i \<longleftrightarrow> length (ti_script_sig i) \<le> MAX_SCRIPT_SIZE \<and>
     (\<exists>w. display_hex_to_wire_bytes (op_txid (ti_previous_output i)) = Inr w)"

definition valid_output :: "tx_output \<Rightarrow> bool" where
  "valid_output out \<longleftrightarrow> money_range (to_value out) \<and> length (to_script_pubkey out) \<le> MAX_SCRIPT_SIZE"

definition total_value :: "tx_output list \<Rightarrow> int" where
  "total_value outs = sum_list (map to_value outs)"

lemma total_value_simps [simp]:
  "total_value [] = 0" "total_value (out # outs) = to_value out + total_value outs"
  "total_value (outs @ outs') = total_value outs + total_value outs'"
  by (simp_all add: total_value_def)

definition valid_transaction :: "transaction \<Rightarrow> bool" where
  "valid_transaction t \<longleftrightarrow> tx_inputs t \<noteq> [] \<and> tx_outputs t \<noteq> [] \<and>
     length (tx_inputs t) \<le> MAX_TRANSACTION_ITEMS \<and> length (tx_outputs t) \<le> MAX_TRANSACTION_ITEMS \<and>
     list_all valid_input (tx_inputs t) \<and> list_all valid_output (tx_outputs t) \<and>
     total_value (tx_outputs t) \<le> MAX_MONEY"

lemma validate_inputs_Inr: "foldE validate_input ins u = Inr v \<longleftrightarrow> list_all valid_input ins"
proof (induction ins arbitrary: u)
  case (Cons i ins)
  then show ?case
    by (cases "display_hex_to_wire_bytes (op_txid (ti_previous_output i))")
       (auto simp: validate_input_def valid_input_def)
qed simp

lemma total_value_nonneg: "list_all valid_output outs \<Longrightarrow> 0 \<le> total_value outs"
  by (induction outs) (auto simp: valid_output_def money_range_def)

lemma validate_outputs_Inr:
  "acc \<le> MAX_MONEY \<Longrightarrow>
   foldE validate_output outs acc = Inr v \<longleftrightarrow>
     list_all valid_output outs \<and> v = acc + total_value outs \<and> v \<le> MAX_MONEY"
proof (induction outs arbitrary: acc)
  case (Cons out outs)
  show ?case
  proof (cases "valid_output out \<and> acc + to_value out \<le> MAX_MONEY")
    case True
    then have "validate_output out acc = Inr (acc + to_value out)"
      by (auto simp: validate_output_def valid_output_def)
    with True show ?thesis
      by (simp add: Cons.IH add.assoc)
  next
    case False
    then have "\<nexists>w. validate_output out acc = Inr w"
      by (auto simp: validate_output_def valid_output_def)
    moreover have "list_all valid_output outs \<Longrightarrow> 0 \<le> total_value outs"
      by (rule total_value_nonneg)
    ultimately show ?thesis
      using False by (cases "validate_output out acc") auto
  qed
qed auto

lemma validate_Inr: "validate_transaction_structure t = Inr () \<longleftrightarrow> valid_transaction t"
proof -
  have "0 \<le> MAX_MONEY" by (simp add: amount_consts)
  then show ?thesis
    using validate_outputs_Inr [of 0 "tx_outputs t"]
    by (auto simp: validate_transaction_structure_def valid_transaction_def validate_inputs_Inr)
qed

subsection \<open>Serialisation produces the wire format\<close>

lemma serialize_input_eq:
  "valid_input i \<Longrightarrow> serialize_input i out = Inr (out @ enc_input i)"
  by (auto simp: serialize_input_def valid_input_def enc_input_def enc_sized_def wire_of_display_def
      append_prefix [of "_ @ _"] append_prefix(5) [of "append_u32_le _ _"] Let_def
      append_u32_le_eq append_compact_size_eq)

lemma serialize_inputs_eq:
  "list_all valid_input ins \<Longrightarrow> foldE serialize_input ins out = Inr (out @ concat (map enc_input ins))"
  by (induction ins arbitrary: out) (auto simp: serialize_input_eq)

lemma serialize_output_eq: "serialize_output out x = out @ enc_output x"
  by (simp add: serialize_output_def enc_output_def enc_sized_def append_i64_le_def Let_def
      append_u64_le_eq append_compact_size_eq)

lemma serialize_outputs_eq: "foldl serialize_output out xs = out @ concat (map enc_output xs)"
  by (induction xs arbitrary: out) (auto simp: serialize_output_eq)

lemma serialize_transaction_eq:
  "serialize_transaction t = Inr bs \<longleftrightarrow> valid_transaction t \<and> bs = enc_transaction t"
proof (cases "valid_transaction t")
  case True
  then have "validate_transaction_structure t = Inr ()" "list_all valid_input (tx_inputs t)"
    by (simp_all add: validate_Inr, simp add: valid_transaction_def)
  then show ?thesis
    using True
    by (auto simp: serialize_transaction_def serialize_inputs_eq serialize_outputs_eq Let_def
      enc_transaction_def enc_list_def append_i32_le_def append_u32_le_eq append_compact_size_eq)
next
  case False
  then show ?thesis
    using validate_Inr [of t] by (cases "validate_transaction_structure t") (auto simp: serialize_transaction_def)
qed

definition canonical_txids :: "transaction \<Rightarrow> bool" where
  "canonical_txids t \<longleftrightarrow> list_all (\<lambda>i. display_id (op_txid (ti_previous_output i))) (tx_inputs t)"

lemma money_int64: "money_range v \<Longrightarrow> int64_range v"
  by (simp add: money_range_def int64_range_def amount_consts)

lemma valid_good: "valid_transaction t \<Longrightarrow> canonical_txids t \<Longrightarrow> good_transaction t"
  by (auto simp: valid_transaction_def canonical_txids_def good_transaction_def good_input_def
      good_output_def valid_input_def valid_output_def list_all_iff money_int64)

lemma good_canonical: "good_transaction t \<Longrightarrow> canonical_txids t"
  by (auto simp: canonical_txids_def good_transaction_def good_input_def list_all_iff)

lemma deserialize_transaction_eq:
  "deserialize_transaction bs = Inr t \<longleftrightarrow> canonical_txids t \<and> serialize_transaction t = Inr bs"
proof
  assume "deserialize_transaction bs = Inr t"
  then have "read_transaction bs 0 = Inr (t, length bs)" and v: "validate_transaction_structure t = Inr ()"
    by (auto simp: deserialize_transaction_def split: if_splits)
  then have "good_transaction t \<and> bs = enc_transaction t"
    by (intro txc.dec_canonical)
  with v show "canonical_txids t \<and> serialize_transaction t = Inr bs"
    by (simp add: good_canonical serialize_transaction_eq validate_Inr)
next
  assume "canonical_txids t \<and> serialize_transaction t = Inr bs"
  then have v: "valid_transaction t" and b: "bs = enc_transaction t" and g: "good_transaction t"
    by (auto simp: serialize_transaction_eq valid_good)
  then show "deserialize_transaction bs = Inr t"
    using txc.dec_enc_whole [OF g] validate_Inr [of t] by (simp add: deserialize_transaction_def)
qed

subsection \<open>Letter case of identifiers\<close>

definition lower_input :: "tx_input \<Rightarrow> tx_input" where
  "lower_input i = i \<lparr> ti_previous_output :=
     OutPoint (map to_lower_hex (op_txid (ti_previous_output i))) (op_index (ti_previous_output i)) \<rparr>"

definition lower_txids :: "transaction \<Rightarrow> transaction" where
  "lower_txids t = t \<lparr> tx_inputs := map lower_input (tx_inputs t) \<rparr>"

lemma lower_wire:
  assumes "display_hex_to_wire_bytes s = Inr w"
  shows "display_hex_to_wire_bytes (map to_lower_hex s) = Inr w" "display_id (map to_lower_hex s)"
proof -
  have w: "length w = 32" "hash_to_display_hex w = map to_lower_hex s"
    using assms by (auto simp: display_hex_to_wire_bytes_def display_raw_Inr display_raw_of_display)
  from w show "display_hex_to_wire_bytes (map to_lower_hex s) = Inr w"
    by (simp add: display_hex_to_wire_bytes_def flip: w(2))
  from w(1) show "display_id (map to_lower_hex s)"
    by (simp add: display_id_hash flip: w(2))
qed

lemma lower_input_valid:
  "valid_input i \<Longrightarrow> valid_input (lower_input i) \<and> enc_input (lower_input i) = enc_input i \<and>
     display_id (op_txid (ti_previous_output (lower_input i)))"
  by (auto simp: valid_input_def lower_input_def enc_input_def wire_of_display_def lower_wire)

lemma lower_txids_valid:
  assumes "valid_transaction t"
  shows "valid_transaction (lower_txids t)" "enc_transaction (lower_txids t) = enc_transaction t"
    "canonical_txids (lower_txids t)"
  using assms lower_input_valid
  by (auto simp: valid_transaction_def lower_txids_def canonical_txids_def list_all_iff
      enc_transaction_def enc_list_def intro!: arg_cong [of _ _ concat])

lemma deserialize_serialize:
  "serialize_transaction t = Inr bs \<Longrightarrow> deserialize_transaction bs = Inr (lower_txids t)"
  by (simp add: deserialize_transaction_eq serialize_transaction_eq lower_txids_valid)


subsection \<open>Script numbers\<close>

text \<open>The reading of a script number: little-endian magnitude, sign in the top bit.\<close>

definition le_nat :: "bytes \<Rightarrow> nat" where
  "le_nat bs = foldr (\<lambda>b v. unat b + 256 * v) bs 0"

definition script_number_value :: "bytes \<Rightarrow> int" where
  "script_number_value bs =
     (if bs = [] then 0
      else if last bs AND 0x80 = 0 then int (le_nat bs)
      else - int (le_nat bs - 128 * 256 ^ (length bs - 1)))"

lemma le_nat_simps [simp]: "le_nat [] = 0" "le_nat (b # bs) = unat b + 256 * le_nat bs"
  by (simp_all add: le_nat_def)

lemma le_nat_append: "le_nat (as @ bs) = le_nat as + 256 ^ length as * le_nat bs"
  by (induction as) (simp_all add: algebra_simps)

lemma magnitude_0 [simp]: "magnitude_bytes 0 = []"
  by (simp add: magnitude_bytes.simps)

lemma magnitude_bytes_Nil [simp]: "magnitude_bytes n = [] \<longleftrightarrow> n = 0"
  by (subst magnitude_bytes.simps) simp

lemma le_nat_magnitude [simp]: "le_nat (magnitude_bytes n) = n"
proof (induction n rule: magnitude_bytes.induct)
  case (1 n)
  then show ?case by (subst magnitude_bytes.simps) (simp add: unat_of_nat)
qed

lemma magnitude_length: "n < 256 ^ k \<Longrightarrow> length (magnitude_bytes n) \<le> k"
proof (induction n arbitrary: k rule: magnitude_bytes.induct)
  case (1 n)
  show ?case
  proof (cases "n = 0")
    case False
    then obtain j where k: "k = Suc j" using 1(2) by (cases k) auto
    then have "length (magnitude_bytes (n div 256)) \<le> j"
      using 1 False by (intro 1(1)) auto
    with k show ?thesis by (subst magnitude_bytes.simps) simp
  qed simp
qed

lemma top_bit_u8: "(b :: u8) AND 0x80 = 0 \<longleftrightarrow> unat b < 128"
proof -
  have "b AND 0x80 = 0 \<longleftrightarrow> \<not> bit b 7"
  proof -
    have "b AND 2 ^ 7 = 0 \<longleftrightarrow> \<not> bit b 7"
      by (rule and_exp_eq_0_iff_not_bit)
    then show ?thesis by simp
  qed
  also have "\<not> bit b 7 \<longleftrightarrow> unat b < 128"
  proof -
    have "bit b 7 \<longleftrightarrow> bit (unat b) 7"
      by (simp add: bit_unsigned_iff)
    also have "\<dots> \<longleftrightarrow> odd (unat b div 128)"
      by (simp only: bit_iff_odd) simp
    finally have "bit b 7 \<longleftrightarrow> odd (unat b div 128)" .
    moreover have "unat b < 256" by (rule unat_u8_less)
    then have "unat b div 128 = 0 \<or> unat b div 128 = 1" by linarith
    ultimately show ?thesis by (auto simp: div_eq_0_iff)
  qed
  finally show ?thesis .
qed

lemma or_top_bit_u8: "(b :: u8) AND 0x80 = 0 \<Longrightarrow> unat (b OR 0x80) = unat b + 128"
proof -
  assume b: "b AND 0x80 = 0"
  then have "b OR 0x80 = b + 0x80"
    by (rule disjunctive_add_eq_or [symmetric])
  with b show ?thesis
    by (simp add: top_bit_u8 unat_word_ariths)
qed

lemma script_number_value_encode:
  shows "script_number_value (encode_script_number v) = v"
proof (cases "v = 0")
  case False
  define m where "m = magnitude_bytes (nat \<bar>v\<bar>)"
  have m: "m \<noteq> []" "le_nat m = nat \<bar>v\<bar>"
    using False by (simp_all add: m_def)
  then obtain as b where ab: "m = as @ [b]" by (cases m rule: rev_cases) auto
  show ?thesis
  proof (cases "b AND 0x80 = 0")
    case True
    then have "(b OR 0x80) AND 0x80 \<noteq> 0"
      using or_top_bit_u8 [OF True] unat_u8_less [of "b"] by (simp add: top_bit_u8)
    with True False m ab or_top_bit_u8 [OF True] show ?thesis
      by (auto simp: encode_script_number_def m_def [symmetric] script_number_value_def Let_def
          le_nat_append algebra_simps)
  next
    case high: False
    have e: "encode_script_number v = m @ [if v < 0 then 0x80 else 0]"
      using high False m(1) ab by (simp add: encode_script_number_def m_def [symmetric] Let_def)
    have "le_nat (m @ [0]) = nat \<bar>v\<bar>" and "le_nat (m @ [0x80]) = nat \<bar>v\<bar> + 128 * 256 ^ length m"
      using m(2) by (simp_all add: le_nat_append)
    with False show ?thesis
      unfolding e by (simp add: script_number_value_def top_bit_u8)
  qed
qed (simp add: encode_script_number_def script_number_value_def)

lemma encode_script_number_inj: "encode_script_number v = encode_script_number w \<longleftrightarrow> v = w"
  using script_number_value_encode by metis

lemma encode_script_number_length: "int64_range v \<Longrightarrow> length (encode_script_number v) \<le> 9"
proof -
  assume "int64_range v"
  then have "length (magnitude_bytes (nat \<bar>v\<bar>)) \<le> 8"
    by (intro magnitude_length) (auto simp: int64_range_def)
  then show ?thesis
    by (auto simp: encode_script_number_def Let_def)
qed

subsection \<open>Coinbase transactions\<close>

definition coinbase_script :: "u64 \<Rightarrow> bytes" where
  "coinbase_script height =
     (let n = encode_script_number (sint height);
          marker = string_bytes ''July 22 2026, BinaryCoin testnet alpha begins.''
      in (word_of_nat (length n) # n) @ (word_of_nat (length marker) # marker))"

definition coinbase_of :: "u64 \<Rightarrow> int \<Rightarrow> bytes \<Rightarrow> transaction" where
  "coinbase_of height reward script_pubkey =
     \<lparr> tx_version = 1,
       tx_inputs = [\<lparr> ti_previous_output = OutPoint (replicate 64 (CHR ''0'')) 0xffffffff,
                      ti_script_sig = coinbase_script height, ti_sequence = 0xffffffff \<rparr>],
       tx_outputs = [\<lparr> to_value = reward, to_script_pubkey = script_pubkey \<rparr>],
       tx_lock_time = 0 \<rparr>"

lemma make_testnet_coinbase_Inr:
  "make_testnet_coinbase height reward script = Inr t \<longleftrightarrow>
     money_range reward \<and> script \<noteq> [] \<and> length script \<le> MAX_SCRIPT_SIZE \<and>
     t = coinbase_of height reward script"
proof -
  have "length (encode_script_number (sint height)) \<le> 9"
    by (rule encode_script_number_length) (rule sint_int64_range)
  then show ?thesis
    by (auto simp: make_testnet_coinbase_def push_script_data_def coinbase_of_def coinbase_script_def
        Let_def)
qed

lemma display_id_zero: "display_id (replicate 64 (CHR ''0''))"
  by (simp add: display_id_def list_all_iff lower_hex_def)

lemma coinbase_script_length: "length (coinbase_script height) \<le> 57"
proof -
  have "length (encode_script_number (sint height)) \<le> 9"
    by (rule encode_script_number_length) (rule sint_int64_range)
  then show ?thesis by (simp add: coinbase_script_def Let_def)
qed

lemma coinbase_of_valid:
  assumes "money_range reward" "length script \<le> MAX_SCRIPT_SIZE"
  shows "valid_transaction (coinbase_of h reward script)" "canonical_txids (coinbase_of h reward script)"
    "is_coinbase (coinbase_of h reward script)"
  using assms coinbase_script_length [of h] display_id_zero display_id_wire(1) [OF display_id_zero]
  by (auto simp: coinbase_of_def valid_transaction_def canonical_txids_def is_coinbase_def
      valid_input_def valid_output_def money_range_def MAX_SCRIPT_SIZE_def MAX_TRANSACTION_ITEMS_def)

lemma coinbase_script_inj: "coinbase_script h = coinbase_script k \<Longrightarrow> h = k"
proof -
  assume eq: "coinbase_script h = coinbase_script k"
  have len: "length (encode_script_number (sint x)) \<le> 9" for x :: u64
    by (rule encode_script_number_length) (rule sint_int64_range)
  have "length (coinbase_script h) = length (coinbase_script k)"
    using eq by simp
  then have "length (encode_script_number (sint h)) = length (encode_script_number (sint k))"
    by (simp add: coinbase_script_def Let_def)
  with eq have "encode_script_number (sint h) = encode_script_number (sint k)"
    by (simp add: coinbase_script_def Let_def)
  then show "h = k"
    by (simp add: encode_script_number_inj signed_word_eqI)
qed


end
