(* ===== verification/Merkle.thy ===== *)
theory Merkle
  imports Transaction
begin

section \<open>Merkle roots (merkle.cpp)\<close>

text \<open>
  \<open>merkle_root_raw\<close> is the level-by-level loop of \<^verbatim>\<open>merkle.cpp\<close>; \<open>merkle_level\<close> is one pass of
  it. The loop ends because a pass halves the level. The lemmas show that the root always exists
  for a non-empty list, that it binds the transactions up to a SHA-256 collision among the
  messages actually hashed, and that appending a copy of the last transaction of an odd list
  leaves it unchanged.
\<close>

definition merkle_level :: "crypto \<Rightarrow> bytes list \<Rightarrow> bytes list res" where
  "merkle_level C level =
     (let level = (if length level mod 2 \<noteq> 0 then level @ [last level] else level) in
      mapE (\<lambda>k. sha256d C (level ! (2 * k) @ level ! (2 * k + 1))) [0..<length level div 2])"

lemma merkle_level_length:
  "merkle_level C level = Inr level' \<Longrightarrow> length level' = (length level + 1) div 2"
  by (auto simp: merkle_level_def Let_def dest!: mapE_length split: if_splits)

function merkle_loop :: "crypto \<Rightarrow> bytes list \<Rightarrow> bytes res" where
  "merkle_loop C level =
     (if length level > 1 then bindE (merkle_level C level) (\<lambda>level'. merkle_loop C level')
      else Inr (hd level))"
  by pat_completeness auto

termination
  by (relation "measure (\<lambda>(C, level). length level)") (auto dest!: merkle_level_length)

declare merkle_loop.simps [simp del]

definition merkle_root_raw :: "crypto \<Rightarrow> transaction list \<Rightarrow> bytes res" where
  "merkle_root_raw C transactions =
     (if transactions = []
      then Inl (InvalidArgument ''Cannot build a Merkle root from zero transactions'')
      else bindE (mapE (raw_hash C) transactions) (merkle_loop C))"

definition merkle_root_hex :: "crypto \<Rightarrow> transaction list \<Rightarrow> string res" where
  "merkle_root_hex C transactions =
     bindE (merkle_root_raw C transactions) (\<lambda>r. Inr (hash_to_display_hex r))"

subsection \<open>The root exists\<close>

lemma raw_hash_ok: "crypto_ok C \<Longrightarrow> valid_transaction t \<Longrightarrow>
    raw_hash C t = Inr (c_sha256 C (c_sha256 C (enc_transaction t)))"
  using serialize_transaction_eq [of t "enc_transaction t"] by (simp add: raw_hash_def sha256d_ok)

lemma raw_hash_Inr: "raw_hash C t = Inr h \<Longrightarrow> valid_transaction t \<and> length h = 32"
  by (auto simp: raw_hash_def serialize_transaction_eq dest: sha256d_length)

lemma txid_display: "txid C t = Inr s \<Longrightarrow> display_id s"
  by (auto simp: txid_def dest: raw_hash_Inr intro: display_id_hash)

lemma merkle_level_ok:
  assumes "crypto_ok C"
  shows "\<exists>level'. merkle_level C level = Inr level'"
  unfolding merkle_level_def Let_def
  by (rule exI, rule mapE_total, rule sha256d_ok [OF assms])

lemma merkle_level_digests: "merkle_level C level = Inr level' \<Longrightarrow> h \<in> set level' \<Longrightarrow> length h = 32"
  by (auto simp: merkle_level_def Let_def mapE_Inr_iff in_set_conv_nth list_all2_conv_all_nth
      dest!: sha256d_length split: if_splits)

lemma merkle_loop_ok:
  "crypto_ok C \<Longrightarrow> level \<noteq> [] \<Longrightarrow> (\<forall>h \<in> set level. length h = 32) \<Longrightarrow>
     \<exists>r. merkle_loop C level = Inr r \<and> length r = 32"
proof (induction C level rule: merkle_loop.induct)
  case (1 C level)
  show ?case
  proof (cases "length level > 1")
    case True
    obtain level' where l: "merkle_level C level = Inr level'"
      using merkle_level_ok [OF 1(2)] by blast
    with True have "level' \<noteq> []" "\<forall>h \<in> set level'. length h = 32"
      using merkle_level_length [OF l] merkle_level_digests [OF l] by auto
    with 1 l True show ?thesis by (subst merkle_loop.simps) simp
  next
    case False
    with 1 show ?thesis by (subst merkle_loop.simps) (auto simp: hd_in_set)
  qed
qed

subsection \<open>What the root commits to\<close>

text \<open>The messages one pass and the whole computation hash.\<close>

fun pairs :: "bytes list \<Rightarrow> bytes list" where
  "pairs (a # b # rest) = (a @ b) # pairs rest"
| "pairs [a] = [a @ a]"
| "pairs [] = []"

lemma pairs_length: "length (pairs xs) = (length xs + 1) div 2"
  by (induction xs rule: pairs.induct) auto

lemma mapE_upt_Suc: "mapE g [0..<Suc n] = bindE (g 0) (\<lambda>y. bindE (mapE (\<lambda>i. g (Suc i)) [0..<n]) (\<lambda>ys. Inr (y # ys)))"
proof -
  have "mapE g (map f xs) = mapE (\<lambda>i. g (f i)) xs" for f :: "nat \<Rightarrow> nat" and xs
    by (induction xs) auto
  then show ?thesis
    by (simp add: upt_rec [of 0 "Suc n"] map_Suc_upt [symmetric] del: upt_Suc)
qed

lemma merkle_level_pairs: "merkle_level C level = mapE (sha256d C) (pairs level)"
proof (induction level rule: pairs.induct)
  case (1 a b rest)
  have "merkle_level C (a # b # rest) =
      bindE (sha256d C (a @ b)) (\<lambda>y. bindE (merkle_level C rest) (\<lambda>ys. Inr (y # ys)))"
    by (simp add: merkle_level_def Let_def mapE_upt_Suc del: upt_Suc)
  with 1 show ?case by simp
qed (simp_all add: merkle_level_def)

fun merkle_messages :: "crypto \<Rightarrow> nat \<Rightarrow> bytes list \<Rightarrow> bytes set" where
  "merkle_messages C 0 level = {}"
| "merkle_messages C (Suc n) level =
     set (pairs level) \<union> c_sha256 C ` set (pairs level) \<union>
     merkle_messages C n (map (c_sha256 C \<circ> c_sha256 C) (pairs level))"

lemma sha256d_Inr: "sha256d C d = Inr h \<Longrightarrow> h = c_sha256 C (c_sha256 C d)"
  by (auto simp: sha256d_def sha256_once_def Let_def split: if_splits)

lemma merkle_level_map:
  "merkle_level C level = Inr level' \<Longrightarrow> level' = map (c_sha256 C \<circ> c_sha256 C) (pairs level)"
  by (rule nth_equalityI)
     (auto simp: merkle_level_pairs mapE_Inr_iff list_all2_conv_all_nth dest: sha256d_Inr)

lemma pairs_inj:
  "length xs = length ys \<Longrightarrow> (\<forall>x \<in> set xs. length x = 32) \<Longrightarrow> (\<forall>y \<in> set ys. length y = 32) \<Longrightarrow>
     pairs xs = pairs ys \<Longrightarrow> xs = ys"
proof (induction xs arbitrary: ys rule: pairs.induct)
  case (1 a b rest)
  then obtain c d rest' where ys: "ys = c # d # rest'"
    by (cases ys; cases "tl ys") auto
  with 1 show ?case by auto
next
  case (2 a)
  then show ?case by (cases ys) auto
qed auto

lemma merkle_loop_single [simp]: "merkle_loop C [a] = Inr a"
  by (subst merkle_loop.simps) simp

lemma merkle_loop_binds:
  "merkle_loop C xs = Inr r \<Longrightarrow> merkle_loop C ys = Inr r \<Longrightarrow> length xs = length ys \<Longrightarrow> xs \<noteq> [] \<Longrightarrow>
   (\<forall>x \<in> set xs. length x = 32) \<Longrightarrow> (\<forall>y \<in> set ys. length y = 32) \<Longrightarrow> length xs \<le> n \<Longrightarrow>
   inj_on (c_sha256 C) (merkle_messages C n xs \<union> merkle_messages C n ys) \<Longrightarrow> xs = ys"
proof (induction C xs arbitrary: ys n rule: merkle_loop.induct)
  case (1 C xs)
  show ?case
  proof (cases "length xs > 1")
    case True
    obtain m where n: "n = Suc m" using 1(8) True by (cases n) auto
    obtain xs' ys' where lx: "merkle_level C xs = Inr xs'" and rx: "merkle_loop C xs' = Inr r"
      and ly: "merkle_level C ys = Inr ys'" and ry: "merkle_loop C ys' = Inr r"
      using True 1(2,3,4)
      by (subst (asm) (1 2) merkle_loop.simps) auto
    have len: "length xs' = length ys'" "xs' \<noteq> []" "length xs' \<le> m"
      using merkle_level_length [OF lx] merkle_level_length [OF ly] True 1(4,8) n by auto
    have inj: "inj_on (c_sha256 C) (merkle_messages C m xs' \<union> merkle_messages C m ys')"
      using 1(9) unfolding n merkle_level_map [OF lx] merkle_level_map [OF ly]
      by (rule inj_on_subset) auto
    have "xs' = ys'"
      using True lx rx ry len inj merkle_level_digests [OF lx] merkle_level_digests [OF ly]
      by (intro 1(1) [of xs' ys' m]) auto
    then have maps: "map (c_sha256 C \<circ> c_sha256 C) (pairs xs) = map (c_sha256 C \<circ> c_sha256 C) (pairs ys)"
      using merkle_level_map [OF lx] merkle_level_map [OF ly] by simp
    let ?P = "set (pairs xs) \<union> set (pairs ys)"
    have i1: "inj_on (c_sha256 C) ?P" and i2: "inj_on (c_sha256 C) (c_sha256 C ` ?P)"
      using 1(9) unfolding n by (auto elim!: inj_on_subset)
    have "inj_on (c_sha256 C \<circ> c_sha256 C) ?P"
      using i1 i2 by (rule comp_inj_on)
    with maps have "pairs xs = pairs ys"
      by (rule map_inj_on)
    then show ?thesis
      by (rule pairs_inj [OF 1(4) 1(6) 1(7)])
  next
    case False
    then have "length xs = 1"
      using 1(5) by (cases xs) auto
    moreover from this have "length ys = 1"
      using 1(4) by simp
    ultimately obtain a b where "xs = [a]" "ys = [b]"
      by (auto simp: length_Suc_conv)
    with 1(2,3) show ?thesis by simp
  qed
qed

lemma merkle_root_binds:
  assumes "merkle_root_raw C txs = Inr r" "merkle_root_raw C txs' = Inr r" "length txs = length txs'"
    and "mapE (raw_hash C) txs = Inr hs" "mapE (raw_hash C) txs' = Inr hs'"
    and "inj_on (c_sha256 C) (merkle_messages C (length hs) hs \<union> merkle_messages C (length hs) hs')"
  shows "hs = hs'"
proof -
  have d: "h \<in> set hs \<Longrightarrow> length h = 32" "h \<in> set hs' \<Longrightarrow> length h = 32" for h
    using assms(4,5)
    by (auto simp: mapE_Inr_iff in_set_conv_nth list_all2_conv_all_nth dest: raw_hash_Inr)
  have "length hs = length hs'" "hs \<noteq> []"
    using assms(1-5) by (auto simp: merkle_root_raw_def dest!: mapE_length split: if_splits)
  then show ?thesis
    using assms d by (intro merkle_loop_binds [of C hs r hs' "length hs"]) (auto simp: merkle_root_raw_def split: if_splits)
qed

lemma pairs_repeat_last: "odd (length xs) \<Longrightarrow> pairs (xs @ [last xs]) = pairs xs"
  by (induction xs rule: pairs.induct) auto

lemma merkle_loop_repeat_last:
  assumes "odd (length xs)" "length xs > 1"
  shows "merkle_loop C (xs @ [last xs]) = merkle_loop C xs"
proof -
  have "xs \<noteq> []" using assms by auto
  with assms show ?thesis
    by (subst (1 2) merkle_loop.simps) (simp add: merkle_level_pairs pairs_repeat_last)
qed

lemma merkle_root_repeat_last:
  assumes "odd (length txs)" "length txs > 1"
  shows "merkle_root_raw C (txs @ [last txs]) = merkle_root_raw C txs"
proof (cases "mapE (raw_hash C) txs")
  case (Inr hs)
  then have len: "length hs = length txs" by (rule mapE_length)
  with assms have "raw_hash C (last txs) = Inr (last hs)"
    using Inr by (cases txs rule: rev_cases; cases hs rule: rev_cases)
      (auto simp: mapE_append)
  with Inr have "mapE (raw_hash C) (txs @ [last txs]) = Inr (hs @ [last hs])"
    by (simp add: mapE_append)
  with assms Inr len show ?thesis
    by (auto simp: merkle_root_raw_def merkle_loop_repeat_last)
qed (auto simp: merkle_root_raw_def mapE_append)


end
