(* ===== verification/Script.thy ===== *)
theory Script
  imports Transaction
begin

section \<open>Pay-to-public-key scripts and signatures (script.cpp, key.cpp)\<close>

text \<open>
  The one script form the node accepts, the message a signature covers, signing and
  verification. \<open>valid_compressed_public_key\<close> and \<open>verify_ecdsa_der\<close> are the two predicates of
  \<^verbatim>\<open>key.cpp\<close> the consensus code calls, in their libsecp256k1 form; curve arithmetic is in the
  crypto record. A key object is its 32-byte secret. The lemmas show that the signed message
  does not depend on any input script, that an accepted signature is over exactly that message,
  and that a signed input verifies.
\<close>

definition OP_CHECKSIG :: u8 where "OP_CHECKSIG = 0xac"

definition SIGHASH_ALL :: u32 where "SIGHASH_ALL = 1"

definition valid_compressed_public_key :: "crypto \<Rightarrow> bytes \<Rightarrow> bool" where
  "valid_compressed_public_key C public_key \<longleftrightarrow>
     length public_key = 33 \<and> (hd public_key = 0x02 \<or> hd public_key = 0x03) \<and>
     c_pubkey_parse C public_key"

definition verify_ecdsa_der :: "crypto \<Rightarrow> bytes \<Rightarrow> bytes \<Rightarrow> bytes \<Rightarrow> bool" where
  "verify_ecdsa_der C message_hash der_signature public_key =
     (if \<not> c_pubkey_parse C public_key \<or> \<not> c_der_parse C der_signature then False
      else if c_high_s C der_signature then False
      else c_ecdsa_verify C message_hash der_signature public_key)"

definition make_p2pk_script :: "crypto \<Rightarrow> bytes \<Rightarrow> bytes res" where
  "make_p2pk_script C compressed_public_key =
     (if \<not> valid_compressed_public_key C compressed_public_key
      then Inl (InvalidArgument ''P2PK requires a valid compressed secp256k1 public key'')
      else Inr ([33] @ compressed_public_key @ [OP_CHECKSIG]))"

definition is_p2pk_script :: "crypto \<Rightarrow> bytes \<Rightarrow> bool" where
  "is_p2pk_script C script_pubkey \<longleftrightarrow>
     length script_pubkey = 35 \<and> script_pubkey ! 0 = 33 \<and> script_pubkey ! 34 = OP_CHECKSIG \<and>
     valid_compressed_public_key C (take 33 (drop 1 script_pubkey))"

definition extract_p2pk_public_key :: "crypto \<Rightarrow> bytes \<Rightarrow> bytes res" where
  "extract_p2pk_public_key C script_pubkey =
     (if \<not> is_p2pk_script C script_pubkey
      then Inl (InvalidArgument ''Not a supported P2PK script'')
      else Inr (take 33 (drop 1 script_pubkey)))"

definition clear_script :: "tx_input \<Rightarrow> tx_input" where
  "clear_script i = i \<lparr> ti_script_sig := [] \<rparr>"

definition signature_hash_all :: "crypto \<Rightarrow> transaction \<Rightarrow> nat \<Rightarrow> bytes \<Rightarrow> bytes res" where
  "signature_hash_all C t input_index previous_script_pubkey =
     (if input_index \<ge> length (tx_inputs t) then Inl (OutOfRange ''Input index out of range'')
      else let ins = map clear_script (tx_inputs t);
               ins = ins[input_index := (ins ! input_index) \<lparr> ti_script_sig := previous_script_pubkey \<rparr>];
               copy = t \<lparr> tx_inputs := ins \<rparr>
        in bindE (serialize_transaction copy) (\<lambda>bs. sha256d C (append_u32_le bs SIGHASH_ALL)))"

definition sign_p2pk_input ::
  "crypto \<Rightarrow> transaction \<Rightarrow> nat \<Rightarrow> bytes \<Rightarrow> bytes \<Rightarrow> transaction res" where
  "sign_p2pk_input C t input_index previous_script_pubkey secret =
     bindE (extract_p2pk_public_key C previous_script_pubkey) (\<lambda>expected_public_key.
       if expected_public_key \<noteq> c_public_key C secret
       then Inl (InvalidArgument ''Wallet key does not match spent P2PK output'')
       else
         bindE (signature_hash_all C t input_index previous_script_pubkey) (\<lambda>h.
         bindE (c_sign_der C secret h) (\<lambda>signature.
         bindE (push_script_data (signature @ [ucast SIGHASH_ALL])) (\<lambda>script_sig.
           Inr (t \<lparr> tx_inputs := (tx_inputs t)[input_index :=
                   (tx_inputs t ! input_index) \<lparr> ti_script_sig := script_sig \<rparr>] \<rparr>)))))"

definition verify_p2pk_input :: "crypto \<Rightarrow> transaction \<Rightarrow> nat \<Rightarrow> bytes \<Rightarrow> bool res" where
  "verify_p2pk_input C t input_index previous_script_pubkey =
     (if input_index \<ge> length (tx_inputs t) \<or> \<not> is_p2pk_script C previous_script_pubkey then Inr False
      else let script_sig = ti_script_sig (tx_inputs t ! input_index) in
        if length script_sig < 2 \<or> unat (script_sig ! 0) \<noteq> length script_sig - 1 then Inr False
        else let pushed = drop 1 script_sig in
          if pushed = [] \<or> last pushed \<noteq> ucast SIGHASH_ALL then Inr False
          else
            bindE (extract_p2pk_public_key C previous_script_pubkey) (\<lambda>public_key.
            bindE (signature_hash_all C t input_index previous_script_pubkey) (\<lambda>h.
              Inr (verify_ecdsa_der C h (butlast pushed) public_key))))"

subsection \<open>Script forms\<close>

lemma extract_make_p2pk:
  "make_p2pk_script C pk = Inr s \<Longrightarrow> is_p2pk_script C s \<and> extract_p2pk_public_key C s = Inr pk"
  by (auto simp: make_p2pk_script_def is_p2pk_script_def extract_p2pk_public_key_def
      valid_compressed_public_key_def nth_append hd_append split: if_splits)

lemma make_extract_p2pk:
  assumes "extract_p2pk_public_key C s = Inr pk"
  shows "make_p2pk_script C pk = Inr s"
proof -
  have s: "is_p2pk_script C s" and pk: "pk = take 33 (drop 1 s)"
    using assms by (auto simp: extract_p2pk_public_key_def split: if_splits)
  then have len: "length s = 35" by (simp add: is_p2pk_script_def)
  then have "s = [s ! 0] @ take 33 (drop 1 s) @ [s ! 34]"
    by (intro nth_equalityI) (auto simp: nth_append nth_Cons' intro!: arg_cong [of _ _ "nth s"])
  with s pk show ?thesis
    by (auto simp: make_p2pk_script_def is_p2pk_script_def)
qed

subsection \<open>The signed message\<close>

lemma signature_hash_scripts:
  assumes "map clear_script (tx_inputs t) = map clear_script (tx_inputs u)"
    and "tx_version t = tx_version u" "tx_outputs t = tx_outputs u" "tx_lock_time t = tx_lock_time u"
  shows "signature_hash_all C t i s = signature_hash_all C u i s"
proof -
  have "length (tx_inputs t) = length (tx_inputs u)"
    using assms(1) by (rule map_eq_imp_length_eq)
  then show ?thesis
    using assms by (simp add: signature_hash_all_def Let_def) (metis (mono_tags, lifting)
        transaction.surjective transaction.update_convs(2) old.unit.exhaust)
qed

text \<open>What the key operations promise: a signature made by a key verifies under its public key.\<close>

definition signing_law :: "crypto \<Rightarrow> bool" where
  "signing_law C \<longleftrightarrow> (\<forall>k h s. c_sign_der C k h = Inr s \<longrightarrow>
     c_der_parse C s \<and> \<not> c_high_s C s \<and> c_ecdsa_verify C h s (c_public_key C k))"

lemma clear_script_update: "clear_script (i \<lparr> ti_script_sig := s \<rparr>) = clear_script i"
  by (simp add: clear_script_def)

lemma sign_verify:
  assumes "signing_law C" "sign_p2pk_input C t i s k = Inr u"
  shows "verify_p2pk_input C u i s = Inr True"
proof -
  obtain h g where p2pk: "is_p2pk_script C s" and pk: "take 33 (drop 1 s) = c_public_key C k"
    and h: "signature_hash_all C t i s = Inr h" and g: "c_sign_der C k h = Inr g"
    and len: "length g \<le> 74"
    and u: "u = t \<lparr> tx_inputs := (tx_inputs t)[i := (tx_inputs t ! i)
                \<lparr> ti_script_sig := word_of_nat (Suc (length g)) # g @ [1] \<rparr>] \<rparr>"
    using assms(2)
    by (auto simp: sign_p2pk_input_def extract_p2pk_public_key_def push_script_data_def SIGHASH_ALL_def
        split: if_splits)
  have i: "i < length (tx_inputs t)"
    using h by (auto simp: signature_hash_all_def split: if_splits)
  have "map clear_script (tx_inputs u) = map clear_script (tx_inputs t)"
    using i by (simp add: u map_update clear_script_update) (metis length_map list_update_id nth_map)
  then have h': "signature_hash_all C u i s = Inr h"
    using signature_hash_scripts [of u t C i s] h by (simp add: u)
  have "c_pubkey_parse C (take 33 (drop 1 s))"
    using p2pk by (simp add: is_p2pk_script_def valid_compressed_public_key_def)
  moreover have "unat (word_of_nat (Suc (length g)) :: u8) = Suc (length g)"
    using len by (simp add: unat_of_nat del: of_nat_Suc)
  ultimately show ?thesis
    using assms(1) i p2pk h' g pk
    by (simp add: verify_p2pk_input_def u extract_p2pk_public_key_def verify_ecdsa_der_def
        signing_law_def SIGHASH_ALL_def Let_def butlast_append del: of_nat_Suc)
qed

text \<open>Acceptance means a canonical push of a low-S signature over the message of this input.\<close>

lemma verify_p2pk_True:
  assumes "verify_p2pk_input C t i s = Inr True"
  shows "i < length (tx_inputs t) \<and> is_p2pk_script C s \<and>
     (\<exists>g h. ti_script_sig (tx_inputs t ! i) = word_of_nat (Suc (length g)) # g @ [1] \<and>
        signature_hash_all C t i s = Inr h \<and> \<not> c_high_s C g \<and>
        c_ecdsa_verify C h g (take 33 (drop 1 s)))"
proof -
  define x where "x = ti_script_sig (tx_inputs t ! i)"
  define g where "g = butlast (drop 1 x)"
  have i: "i < length (tx_inputs t)" and s: "is_p2pk_script C s"
    and x: "2 \<le> length x" "unat (x ! 0) = length x - 1" "last (drop 1 x) = 1"
    and v: "\<exists>h. signature_hash_all C t i s = Inr h \<and> verify_ecdsa_der C h g (take 33 (drop 1 s))"
    using assms
    by (auto simp: verify_p2pk_input_def extract_p2pk_public_key_def x_def [symmetric] g_def
        SIGHASH_ALL_def Let_def not_le not_less split: if_splits)
  have "drop 1 x = g @ [1]"
    using x(1) x(3) append_butlast_last_id [of "drop 1 x"] by (simp add: g_def)
  moreover have "Suc (length g) = unat (x ! 0)"
    using x(1,2) by (simp add: g_def)
  then have "x ! 0 = word_of_nat (Suc (length g))"
    by (simp del: of_nat_Suc)
  moreover have "x = x ! 0 # drop 1 x"
    using x(1) by (cases x) auto
  ultimately have "x = word_of_nat (Suc (length g)) # g @ [1]"
    by simp
  with i s v show ?thesis
    by (auto simp: x_def [symmetric] verify_ecdsa_der_def split: if_splits)
qed

end
