(* ===== verification/Pow.thy ===== *)
theory Pow
  imports HashHex Transaction
begin

section \<open>Proof of work (pow.cpp)\<close>

text \<open>
  Compact targets, the work of a block, the proof-of-work test and the 64-digit hexadecimal form
  of a 256-bit value. \<^verbatim>\<open>cpp_int\<close> is an unbounded integer. The lemmas bound targets and proofs,
  show that less target is more work, and that the fixed-width hexadecimal form orders like the
  numbers, which the text comparison of chainwork relies on.
\<close>

unbundle bit_operations_syntax

definition uint256_maximum :: int where "uint256_maximum = push_bit 256 1 - 1"

definition compact_to_target :: "u32 \<Rightarrow> int res" where
  "compact_to_target bits =
     (let exponent = unat (drop_bit 24 bits);
          coefficient = bits AND 0x007fffff in
      if bits AND 0x00800000 \<noteq> 0
      then Inl (InvalidArgument ''Negative compact targets are invalid'')
      else if coefficient = 0
      then Inl (InvalidArgument ''Compact target coefficient cannot be zero'')
      else let target = (if exponent \<le> 3 then drop_bit (8 * (3 - exponent)) (uint coefficient)
                         else push_bit (8 * (exponent - 3)) (uint coefficient)) in
        if target \<le> 0 \<or> target > uint256_maximum
        then Inl (InvalidArgument ''Compact target is outside the 256-bit range'')
        else Inr target)"

definition block_proof :: "u32 \<Rightarrow> int res" where
  "block_proof bits = bindE (compact_to_target bits) (\<lambda>target.
     Inr (uint256_maximum div (target + 1) + 1))"

definition check_proof_of_work :: "bytes \<Rightarrow> u32 \<Rightarrow> bool res" where
  "check_proof_of_work raw bits =
     (let v = foldl (\<lambda>v b. push_bit 8 v + uint b) 0 (rev raw) in
      bindE (compact_to_target bits) (\<lambda>target. Inr (v \<le> target)))"

text \<open>\<^verbatim>\<open>std::hex\<close> on an unbounded value.\<close>

fun show_hex :: "nat \<Rightarrow> string" where
  "show_hex n = (if n < 16 then [hex_digit n] else show_hex (n div 16) @ [hex_digit (n mod 16)])"

declare show_hex.simps [simp del]

definition uint256_to_hex :: "int \<Rightarrow> string res" where
  "uint256_to_hex v =
     (if v < 0 \<or> v > uint256_maximum
      then Inl (InvalidArgument ''Value is outside the unsigned 256-bit range'')
      else Inr (pad_left 64 (CHR ''0'') (show_hex (nat v))))"

definition target_to_hex :: "u32 \<Rightarrow> string res" where
  "target_to_hex bits = bindE (compact_to_target bits) uint256_to_hex"

subsection \<open>Targets and work\<close>

lemma uint256_maximum_eq: "uint256_maximum = 2 ^ 256 - 1"
  by (simp add: uint256_maximum_def push_bit_eq_mult)

lemma compact_to_target_range:
  "compact_to_target bits = Inr t \<Longrightarrow> 0 < t \<and> t \<le> 2 ^ 256 - 1"
  by (auto simp: compact_to_target_def Let_def uint256_maximum_eq split: if_splits)

lemma block_proof_range:
  assumes "block_proof bits = Inr p"
  shows "1 \<le> p \<and> p \<le> 2 ^ 255"
proof -
  obtain t where t: "compact_to_target bits = Inr t" and p: "p = uint256_maximum div (t + 1) + 1"
    using assms by (auto simp: block_proof_def)
  from compact_to_target_range [OF t] have r: "0 < t" by simp
  have "uint256_maximum div (t + 1) \<le> uint256_maximum div 2"
    using r by (intro zdiv_mono2) (auto simp: uint256_maximum_eq)
  moreover have "0 \<le> uint256_maximum div (t + 1)"
    using r by (simp add: pos_imp_zdiv_nonneg_iff uint256_maximum_eq)
  ultimately show ?thesis by (simp add: p uint256_maximum_eq)
qed

lemma block_proof_antimono:
  assumes "compact_to_target a = Inr s" "compact_to_target b = Inr t" "s \<le> t"
  shows "\<exists>p q. block_proof a = Inr p \<and> block_proof b = Inr q \<and> q \<le> p"
proof -
  have "uint256_maximum div (t + 1) \<le> uint256_maximum div (s + 1)"
    using assms compact_to_target_range [OF assms(1)]
    by (intro zdiv_mono2) (auto simp: uint256_maximum_eq)
  with assms show ?thesis by (simp add: block_proof_def)
qed

text \<open>The work estimates how many of the \<open>2 ^ 256\<close> digests one hash in \<open>p\<close> meets the target.\<close>

lemma block_proof_tight:
  assumes "compact_to_target bits = Inr t" "block_proof bits = Inr p"
  shows "(p - 1) * (t + 1) < 2 ^ 256 \<and> 2 ^ 256 \<le> p * (t + 1)"
proof -
  let ?q = "uint256_maximum div (t + 1)"
  have t: "0 < t + 1" using compact_to_target_range [OF assms(1)] by simp
  have p: "p = ?q + 1" using assms by (simp add: block_proof_def)
  have "?q * (t + 1) \<le> uint256_maximum" "uint256_maximum < (?q + 1) * (t + 1)"
    using t pos_mod_bound [OF t, of uint256_maximum] pos_mod_sign [OF t, of uint256_maximum]
      div_mult_mod_eq [of uint256_maximum "t + 1"] by (auto simp: algebra_simps)
  then show ?thesis by (auto simp: p uint256_maximum_eq)
qed

lemma le_value_fold: "foldl (\<lambda>v b. push_bit 8 v + uint b) 0 (rev bs) = int (le_nat bs)"
  by (induction bs) (simp_all add: push_bit_eq_mult)

lemma check_pow_Inr:
  "check_proof_of_work raw bits = Inr ok \<longleftrightarrow>
     (\<exists>t. compact_to_target bits = Inr t \<and> ok = (int (le_nat raw) \<le> t))"
  by (auto simp: check_proof_of_work_def le_value_fold)

subsection \<open>Fixed-width hexadecimal\<close>

definition hex_nat :: "string \<Rightarrow> nat" where
  "hex_nat s = foldl (\<lambda>v c. 16 * v + (case hex_value c of Inl _ \<Rightarrow> 0 | Inr d \<Rightarrow> d)) 0 s"

lemma hex_nat_snoc [simp]:
  "hex_nat [] = 0" "hex_nat (s @ [c]) = 16 * hex_nat s + (case hex_value c of Inl _ \<Rightarrow> 0 | Inr d \<Rightarrow> d)"
  by (simp_all add: hex_nat_def)

lemma hex_nat_append: "hex_nat (s @ t) = hex_nat s * 16 ^ length t + hex_nat t"
  by (induction t rule: rev_induct) (simp_all flip: append_assoc add: algebra_simps)

lemma show_hex_nonempty [simp]: "show_hex n \<noteq> []"
  by (subst show_hex.simps) simp

lemma show_hex_lower [simp]: "list_all lower_hex (show_hex n)"
  by (induction n rule: show_hex.induct) (subst show_hex.simps, simp)

lemma hex_nat_show [simp]: "hex_nat (show_hex n) = n"
proof (induction n rule: show_hex.induct)
  case (1 n)
  have one: "hex_nat [c] = (case hex_value c of Inl _ \<Rightarrow> 0 | Inr d \<Rightarrow> d)" for c
    using hex_nat_snoc(2) [of "[]" c] by simp
  show ?case
    using 1 one by (subst show_hex.simps) simp
qed

lemma show_hex_length_le: "n < 16 ^ k \<Longrightarrow> 0 < k \<Longrightarrow> length (show_hex n) \<le> k"
proof (induction n arbitrary: k rule: show_hex.induct)
  case (1 n)
  show ?case
  proof (cases "n < 16")
    case True
    then show ?thesis using 1 by (subst show_hex.simps) simp
  next
    case False
    then obtain j where k: "k = Suc j" and j: "0 < j"
      using 1 by (cases k; cases "k = 1") auto
    then have "length (show_hex (n div 16)) \<le> j"
      using 1 False by (intro 1(1)) auto
    then show ?thesis using False k by (subst show_hex.simps) simp
  qed
qed

lemma hex_nat_zeros [simp]: "hex_nat (replicate k (CHR ''0'') @ s) = hex_nat s"
proof -
  have "hex_nat (replicate k (CHR ''0'')) = 0"
    by (induction k) (simp_all add: hex_value_def replicate_append_same [symmetric])
  then show ?thesis by (simp add: hex_nat_append)
qed

lemma uint256_to_hex_Inr:
  assumes "uint256_to_hex v = Inr s"
  shows "length s = 64 \<and> list_all lower_hex s \<and> int (hex_nat s) = v"
proof -
  have v: "0 \<le> v" "v < 2 ^ 256" and s: "s = pad_left 64 (CHR ''0'') (show_hex (nat v))"
    using assms by (auto simp: uint256_to_hex_def uint256_maximum_eq split: if_splits)
  have "nat v < 16 ^ 64"
    using v by (simp add: nat_less_iff)
  then have "length (show_hex (nat v)) \<le> 64"
    by (rule show_hex_length_le) simp
  with v show ?thesis
    using show_hex_lower [of "nat v"]
    by (auto simp: s pad_left_def list_all_iff lower_hex_def)
qed

lemma lower_hex_value_mono:
  "lower_hex c \<Longrightarrow> lower_hex d \<Longrightarrow> hex_value c = Inr m \<Longrightarrow> hex_value d = Inr n \<Longrightarrow> m < n \<longleftrightarrow> c < d"
  by (auto simp: hex_value_def lower_hex_def char_le_iff less_char_def split: if_splits)

lemma hex_nat_Cons:
  "hex_value c = Inr d \<Longrightarrow> hex_nat (c # s) = d * 16 ^ length s + hex_nat s"
  using hex_nat_append [of "[c]" s] hex_nat_snoc(2) [of "[]" c] by simp

lemma hex_nat_less: "list_all lower_hex s \<Longrightarrow> hex_nat s < 16 ^ length s"
proof (induction s rule: rev_induct)
  case (snoc c s)
  then obtain d where "hex_value c = Inr d" "d < 16"
    using hex_value_lower [of c] hex_value_less by auto
  with snoc show ?case by simp
qed simp

lemma less_by_digits:
  fixes d e x y b :: nat
  assumes "x < b" "y < b"
  shows "d * b + x < e * b + y \<longleftrightarrow> d < e \<or> d = e \<and> x < y"
proof -
  have "d < e \<Longrightarrow> d * b + x < e * b + y"
  proof -
    assume "d < e"
    then have "Suc d * b \<le> e * b" by (intro mult_le_mono1) simp
    with assms show ?thesis by simp
  qed
  moreover have "e < d \<Longrightarrow> e * b + y < d * b + x"
  proof -
    assume "e < d"
    then have "Suc e * b \<le> d * b" by (intro mult_le_mono1) simp
    with assms show ?thesis by simp
  qed
  ultimately show ?thesis by (cases d e rule: linorder_cases) auto
qed

lemma hex_order:
  "length s = length t \<Longrightarrow> list_all lower_hex s \<Longrightarrow> list_all lower_hex t \<Longrightarrow>
     s < t \<longleftrightarrow> hex_nat s < hex_nat t"
proof (induction s t rule: list_induct2)
  case (Cons c s d t)
  then obtain m n where m: "hex_value c = Inr m" and n: "hex_value d = Inr n"
    using hex_value_lower [of c] hex_value_lower [of d] by auto
  have "hex_digit m = c" "hex_digit n = d"
    using hex_digit_value [OF m] hex_digit_value [OF n] Cons.prems by (simp_all add: to_lower_hex_id)
  then have eq: "c = d \<longleftrightarrow> m = n"
    by (metis m n sum.inject(2))
  have lt: "c < d \<longleftrightarrow> m < n"
    using lower_hex_value_mono [OF _ _ m n] Cons.prems by simp
  have "hex_nat (c # s) < hex_nat (d # t) \<longleftrightarrow> m < n \<or> m = n \<and> hex_nat s < hex_nat t"
    using hex_nat_less [of s] hex_nat_less [of t] Cons
    by (simp add: hex_nat_Cons [OF m] hex_nat_Cons [OF n] less_by_digits)
  then show ?case
    using Cons lt eq by auto
qed simp

lemma uint256_hex_order:
  "uint256_to_hex a = Inr s \<Longrightarrow> uint256_to_hex b = Inr t \<Longrightarrow> s < t \<longleftrightarrow> a < b"
  using hex_order [of s t] uint256_to_hex_Inr [of a s] uint256_to_hex_Inr [of b t] by auto


end
