(* ===== verification/Block.thy ===== *)
theory Block
  imports Merkle Script Pow
begin

section \<open>Blocks, the locked genesis block and mining (block.hpp, block.cpp)\<close>

text \<open>
  The block header and its 80-byte wire form, the genesis block with its self-check, and the
  mining loop, which walks nonce and time until the header meets its target. The clock is an
  argument. The lemmas show that the header format is a codec, that mining ends with a header
  that passes the proof-of-work test and differs from the assembled one in time and nonce only,
  and what block the miner assembles.
\<close>

record block_header =
  bh_version :: u32
  bh_previous_hash :: string
  bh_merkle_root :: string
  bh_time :: u32
  bh_bits :: u32
  bh_nonce :: u32

record block =
  b_header :: block_header
  b_transactions :: "transaction list"

record stored_block =
  sb_height :: u64
  sb_block :: block

definition TESTNET_GENESIS_BITS :: u32 where "TESTNET_GENESIS_BITS = 0x1f00ffff"

definition TESTNET_BITS :: u32 where "TESTNET_BITS = 0x1f00ffff"

definition TESTNET_GENESIS_HASH :: string where
  "TESTNET_GENESIS_HASH = ''00007e7bc2b6d593d9bacb54cd32bacaf9a99ff86adc9ac6fbe36134fff1c372''"

definition TESTNET_GENESIS_MERKLE :: string where
  "TESTNET_GENESIS_MERKLE = ''2cf10845810fce4b828950111a45d66e33d8649db1265f088cf4607789ae1442''"

definition TESTNET_GENESIS_TXID :: string where
  "TESTNET_GENESIS_TXID = ''2cf10845810fce4b828950111a45d66e33d8649db1265f088cf4607789ae1442''"

subsection \<open>Headers\<close>

definition serialize_header :: "block_header \<Rightarrow> bytes res" where
  "serialize_header h =
     (let output = append_i32_le [] (bh_version h) in
      bindE (display_hex_to_wire_bytes (bh_previous_hash h)) (\<lambda>previous_wire.
      let output = output @ previous_wire in
      bindE (display_hex_to_wire_bytes (bh_merkle_root h)) (\<lambda>merkle_wire.
      let output = output @ merkle_wire;
          output = append_u32_le output (bh_time h);
          output = append_u32_le output (bh_bits h);
          output = append_u32_le output (bh_nonce h) in
      if length output \<noteq> 80 then Inl (RuntimeError ''Serialized block header is not 80 bytes'')
      else Inr output)))"

definition header_raw_hash :: "crypto \<Rightarrow> block_header \<Rightarrow> bytes res" where
  "header_raw_hash C h = bindE (serialize_header h) (sha256d C)"

definition hash_hex :: "crypto \<Rightarrow> block_header \<Rightarrow> string res" where
  "hash_hex C h = bindE (header_raw_hash C h) (\<lambda>d. Inr (hash_to_display_hex d))"

definition read_header :: "block_header reader" where
  "read_header =
     bindR read_i32_le (\<lambda>version.
     bindR (read_bytes 32) (\<lambda>previous_wire.
     bindR (read_bytes 32) (\<lambda>merkle_wire.
     bindR read_u32_le (\<lambda>time.
     bindR read_u32_le (\<lambda>bits.
     bindR read_u32_le (\<lambda>nonce.
       returnR \<lparr> bh_version = version, bh_previous_hash = wire_bytes_to_display_hex previous_wire,
                 bh_merkle_root = wire_bytes_to_display_hex merkle_wire, bh_time = time,
                 bh_bits = bits, bh_nonce = nonce \<rparr>))))))"

definition deserialize_header :: "bytes \<Rightarrow> block_header res" where
  "deserialize_header bs =
     (if length bs \<noteq> 80
      then Inl (RuntimeError ''Serialized block header must be exactly 80 bytes'')
      else bindE (read_header bs 0) (\<lambda>(h, offset).
        if offset \<noteq> length bs then Inl (RuntimeError ''Trailing block header bytes'') else Inr h))"

subsection \<open>The genesis block\<close>

definition genesis_public_key :: bytes where
  "genesis_public_key =
     [0x02, 0x79, 0xbe, 0x66, 0x7e, 0xf9, 0xdc, 0xbb, 0xac, 0x55, 0xa0,
      0x62, 0x95, 0xce, 0x87, 0x0b, 0x07, 0x02, 0x9b, 0xfc, 0xdb, 0x2d,
      0xce, 0x28, 0xd9, 0x59, 0xf2, 0x81, 0x5b, 0x16, 0xf8, 0x17, 0x98]"

definition genesis_header :: block_header where
  "genesis_header = \<lparr> bh_version = 1, bh_previous_hash = replicate 64 (CHR ''0''),
     bh_merkle_root = TESTNET_GENESIS_MERKLE, bh_time = 1784699218,
     bh_bits = TESTNET_GENESIS_BITS, bh_nonce = 180004 \<rparr>"

definition testnet_genesis_block :: "crypto \<Rightarrow> block res" where
  "testnet_genesis_block C =
     bindE (make_p2pk_script C genesis_public_key) (\<lambda>script.
     bindE (make_testnet_coinbase 0 INITIAL_SUBSIDY script) (\<lambda>coinbase.
     bindE (txid C coinbase) (\<lambda>id.
       if id \<noteq> TESTNET_GENESIS_TXID
       then Inl (RuntimeError ''Locked BinaryCoin testnet genesis constants are inconsistent'')
       else bindE (merkle_root_hex C [coinbase]) (\<lambda>root.
         if root \<noteq> TESTNET_GENESIS_MERKLE
         then Inl (RuntimeError ''Locked BinaryCoin testnet genesis constants are inconsistent'')
         else bindE (hash_hex C genesis_header) (\<lambda>h.
           if h \<noteq> TESTNET_GENESIS_HASH
           then Inl (RuntimeError ''Locked BinaryCoin testnet genesis constants are inconsistent'')
           else Inr \<lparr> b_header = genesis_header, b_transactions = [coinbase] \<rparr>)))))"

definition testnet_genesis_header :: "crypto \<Rightarrow> block_header res" where
  "testnet_genesis_header C = bindE (testnet_genesis_block C) (\<lambda>b. Inr (b_header b))"

subsection \<open>Mining\<close>

lemma unat_Suc_u32: "(w :: u32) \<noteq> 0xffffffff \<Longrightarrow> unat (w + 1) = Suc (unat w) \<and> Suc (unat w) < 2 ^ 32"
proof -
  assume w: "w \<noteq> 0xffffffff"
  have "unat w \<noteq> unat (0xffffffff :: u32)"
    using w by (metis word_unat_eq_iff)
  then have "unat w \<noteq> 2 ^ 32 - 1" by simp
  moreover have "unat w < 2 ^ 32"
    using unsigned_less [of w, where 'a = nat] by simp
  ultimately have "Suc (unat w) < 2 ^ 32" by linarith
  then show ?thesis by (simp add: unat_word_ariths)
qed

function mine_loop :: "crypto \<Rightarrow> block_header \<Rightarrow> block_header res" where
  "mine_loop C h =
     bindE (header_raw_hash C h) (\<lambda>raw.
     bindE (check_proof_of_work raw (bh_bits h)) (\<lambda>ok.
       if ok then Inr h
       else if bh_nonce h = 0xffffffff then
         if bh_time h = 0xffffffff
         then Inl (RuntimeError ''Exhausted time and nonce space while mining'')
         else mine_loop C (h \<lparr> bh_time := bh_time h + 1, bh_nonce := 0 \<rparr>)
       else mine_loop C (h \<lparr> bh_nonce := bh_nonce h + 1 \<rparr>)))"
  by pat_completeness auto

termination
proof (relation "measure (\<lambda>(C, h). (2 ^ 32 - unat (bh_time h)) * 2 ^ 32 + (2 ^ 32 - unat (bh_nonce h)))",
    goal_cases)
  case 1
  show ?case by simp
next
  case (2 C h raw ok)
  define t where "t = unat (bh_time h)"
  from 2 have "unat (bh_time h + 1) = Suc t" "Suc t < 2 ^ 32"
    by (auto simp: t_def dest: unat_Suc_u32)
  moreover have "(2 ^ 32 - Suc t) * 2 ^ 32 + 2 ^ 32 < (2 ^ 32 - t) * 2 ^ 32 + (2 ^ 32 - unat (bh_nonce h))"
    if "Suc t < 2 ^ 32"
  proof -
    have "2 ^ 32 - t = Suc (2 ^ 32 - Suc t)" using that by simp
    moreover have "0 < (2 :: nat) ^ 32 - unat (bh_nonce h)"
      using unsigned_less [of "bh_nonce h", where 'a = nat] by simp
    ultimately show ?thesis by simp
  qed
  ultimately show ?case by (simp add: t_def)
next
  case (3 C h raw ok)
  then have "unat (bh_nonce h + 1) = Suc (unat (bh_nonce h))" "Suc (unat (bh_nonce h)) < 2 ^ 32"
    by (auto dest: unat_Suc_u32)
  then show ?case by simp
qed

declare mine_loop.simps [simp del]

definition mine_testnet_block ::
  "crypto \<Rightarrow> int \<Rightarrow> u64 \<Rightarrow> string \<Rightarrow> u32 \<Rightarrow> u32 \<Rightarrow> bytes \<Rightarrow> transaction list \<Rightarrow> int \<Rightarrow> block res" where
  "mine_testnet_block C now height previous_hash previous_time bits coinbase_script_pubkey
      transactions transaction_fees =
     (if \<not> money_range transaction_fees
      then Inl (InvalidArgument ''Transaction fees outside money range'')
      else bindE (block_subsidy height TESTNET_HALVING_INTERVAL) (\<lambda>subsidy.
        if subsidy > MAX_MONEY - transaction_fees
        then Inl (RuntimeError ''Coinbase reward overflow'')
        else
          bindE (make_testnet_coinbase height (subsidy + transaction_fees) coinbase_script_pubkey) (\<lambda>coinbase.
          let txs = coinbase # transactions;
              now_u32 = (if now < 0 then 0 else word_of_int now) in
          bindE (merkle_root_hex C txs) (\<lambda>root.
          bindE (mine_loop C \<lparr> bh_version = 1, bh_previous_hash = previous_hash,
                   bh_merkle_root = root, bh_time = max (previous_time + 1) now_u32,
                   bh_bits = bits, bh_nonce = 0 \<rparr>) (\<lambda>header.
            Inr \<lparr> b_header = header, b_transactions = txs \<rparr>)))))"

subsection \<open>The header format is a codec\<close>

definition enc_header :: "block_header \<Rightarrow> bytes" where
  "enc_header h = append_i32_le [] (bh_version h) @ wire_of_display (bh_previous_hash h) @
     wire_of_display (bh_merkle_root h) @ append_u32_le [] (bh_time h) @
     append_u32_le [] (bh_bits h) @ append_u32_le [] (bh_nonce h)"

definition canonical_header :: "block_header \<Rightarrow> bool" where
  "canonical_header h \<longleftrightarrow> display_id (bh_previous_hash h) \<and> display_id (bh_merkle_root h)"

interpretation hdc: wire_codec enc_header read_header canonical_header
  by (rule record_codec [where g = "\<lambda>h. (bh_version h, bh_previous_hash h, bh_merkle_root h,
            bh_time h, bh_bits h, bh_nonce h)"
        and f = "\<lambda>(a, b, c, d, e, n). \<lparr> bh_version = a, bh_previous_hash = b, bh_merkle_root = c,
            bh_time = d, bh_bits = e, bh_nonce = n \<rparr>",
        OF pair_codec [OF i32c.wire_codec_axioms pair_codec [OF idc.wire_codec_axioms
          pair_codec [OF idc.wire_codec_axioms pair_codec [OF u32c.wire_codec_axioms
          pair_codec [OF u32c.wire_codec_axioms u32c.wire_codec_axioms]]]]]])
     (auto simp: enc_header_def canonical_header_def read_header_def read_display_id_def)

lemma wire_length: "display_hex_to_wire_bytes s = Inr w \<Longrightarrow> length w = 32"
  by (simp add: display_hex_to_wire_bytes_def display_raw_Inr)

definition valid_header :: "block_header \<Rightarrow> bool" where
  "valid_header h \<longleftrightarrow> (\<exists>v w. display_hex_to_wire_bytes (bh_previous_hash h) = Inr v \<and>
     display_hex_to_wire_bytes (bh_merkle_root h) = Inr w)"

lemma serialize_header_eq:
  "serialize_header h = Inr bs \<longleftrightarrow> valid_header h \<and> bs = enc_header h"
  by (cases "display_hex_to_wire_bytes (bh_previous_hash h)";
      cases "display_hex_to_wire_bytes (bh_merkle_root h)")
     (auto simp: serialize_header_def valid_header_def enc_header_def append_i32_le_def
      append_u32_le_eq Let_def wire_of_display_def wire_length)

lemma canonical_valid: "canonical_header h \<Longrightarrow> valid_header h"
  by (auto simp: canonical_header_def valid_header_def dest!: display_id_wire(1))

lemma length_enc_header: "valid_header h \<Longrightarrow> length (enc_header h) = 80"
  by (auto simp: valid_header_def enc_header_def wire_of_display_def wire_length)

lemma deserialize_header_eq:
  "deserialize_header bs = Inr h \<longleftrightarrow> canonical_header h \<and> serialize_header h = Inr bs"
proof
  assume "deserialize_header bs = Inr h"
  then have "read_header bs 0 = Inr (h, length bs)"
    by (auto simp: deserialize_header_def split: if_splits)
  then have "canonical_header h \<and> bs = enc_header h"
    by (rule hdc.dec_canonical)
  then show "canonical_header h \<and> serialize_header h = Inr bs"
    by (simp add: serialize_header_eq canonical_valid)
next
  assume "canonical_header h \<and> serialize_header h = Inr bs"
  then have c: "canonical_header h" and b: "bs = enc_header h"
    by (auto simp: serialize_header_eq)
  then show "deserialize_header bs = Inr h"
    using hdc.dec_enc_whole [OF c] length_enc_header [OF canonical_valid [OF c]]
    by (simp add: deserialize_header_def)
qed

lemma hash_hex_display: "hash_hex C h = Inr s \<Longrightarrow> display_id s"
  by (auto simp: hash_hex_def header_raw_hash_def dest: sha256d_length intro: display_id_hash)

lemma hash_hex_valid: "hash_hex C h = Inr s \<Longrightarrow> valid_header h"
  by (auto simp: hash_hex_def header_raw_hash_def serialize_header_eq)

lemma header_raw_hash_ok:
  "crypto_ok C \<Longrightarrow> valid_header h \<Longrightarrow>
     header_raw_hash C h = Inr (c_sha256 C (c_sha256 C (enc_header h)))"
  using serialize_header_eq [of h "enc_header h"] by (simp add: header_raw_hash_def sha256d_ok)

lemma genesis_header_canonical: "canonical_header genesis_header"
  by (simp add: genesis_header_def canonical_header_def TESTNET_GENESIS_MERKLE_def display_id_def
      lower_hex_def list_all_iff)

subsection \<open>Mining\<close>

definition meets_target :: "crypto \<Rightarrow> block_header \<Rightarrow> bool" where
  "meets_target C h \<longleftrightarrow>
     (\<exists>raw. header_raw_hash C h = Inr raw \<and> check_proof_of_work raw (bh_bits h) = Inr True)"

lemma mine_loop_sound:
  "mine_loop C h = Inr h' \<Longrightarrow>
     meets_target C h' \<and> h' = h \<lparr> bh_time := bh_time h', bh_nonce := bh_nonce h' \<rparr>"
proof (induction C h rule: mine_loop.induct)
  case (1 C h)
  obtain raw ok where raw: "header_raw_hash C h = Inr raw"
    and ok: "check_proof_of_work raw (bh_bits h) = Inr ok"
    using 1(3) by (subst (asm) mine_loop.simps) auto
  show ?case
  proof (cases ok)
    case True
    then have "h' = h" using 1(3) raw ok by (subst (asm) mine_loop.simps) simp
    with raw ok True show ?thesis by (auto simp: meets_target_def)
  next
    case False
    show ?thesis
    proof (cases "bh_nonce h = 0xffffffff")
      case True
      then have "mine_loop C (h \<lparr> bh_time := bh_time h + 1, bh_nonce := 0 \<rparr>) = Inr h'" "bh_time h \<noteq> 0xffffffff"
        using 1(3) raw ok False by (subst (asm) mine_loop.simps, simp split: if_splits)+
      then have "meets_target C h'" "h' = (h \<lparr> bh_time := bh_time h + 1, bh_nonce := 0 \<rparr>)
          \<lparr> bh_time := bh_time h', bh_nonce := bh_nonce h' \<rparr>"
        using 1(1) [OF raw ok False True] by blast+
      then show ?thesis by simp
    next
      case ne: False
      then have "mine_loop C (h \<lparr> bh_nonce := bh_nonce h + 1 \<rparr>) = Inr h'"
        using 1(3) raw ok False by (subst (asm) mine_loop.simps) simp
      then have "meets_target C h'" "h' = (h \<lparr> bh_nonce := bh_nonce h + 1 \<rparr>)
          \<lparr> bh_time := bh_time h', bh_nonce := bh_nonce h' \<rparr>"
        using 1(2) [OF raw ok False ne] by blast+
      then show ?thesis by simp
    qed
  qed
qed


lemma valid_header_update [simp]:
  "valid_header (h \<lparr> bh_time := t \<rparr>) = valid_header h"
  "valid_header (h \<lparr> bh_nonce := n \<rparr>) = valid_header h"
  by (simp_all add: valid_header_def)

lemma mine_loop_exhausted:
  "crypto_ok C \<Longrightarrow> valid_header h \<Longrightarrow> compact_to_target (bh_bits h) = Inr target \<Longrightarrow>
   mine_loop C h = Inl e \<Longrightarrow>
     e = RuntimeError ''Exhausted time and nonce space while mining'' \<and>
     (\<forall>t n. bh_time h < t \<or> bh_time h = t \<and> bh_nonce h \<le> n \<longrightarrow>
        \<not> meets_target C (h \<lparr> bh_time := t, bh_nonce := n \<rparr>))"
proof (induction C h rule: mine_loop.induct)
  case (1 C h)
  let ?raw = "c_sha256 C (c_sha256 C (enc_header h))"
  have raw: "header_raw_hash C h = Inr ?raw"
    using 1 by (simp add: header_raw_hash_ok)
  obtain ok where ok: "check_proof_of_work ?raw (bh_bits h) = Inr ok"
    using 1(5) check_pow_Inr by blast
  have no: "\<not> ok"
    using 1(6) raw ok by (subst (asm) mine_loop.simps) auto
  then have here: "\<not> meets_target C (h \<lparr> bh_time := bh_time h, bh_nonce := bh_nonce h \<rparr>)"
    using raw ok by (simp add: meets_target_def)
  have max: "n \<le> 0xffffffff" for n :: u32
    using unsigned_less [of n, where 'a = nat] by (simp add: word_le_nat_alt)
  show ?case
  proof (cases "bh_nonce h = 0xffffffff")
    case last: True
    then have only: "bh_nonce h \<le> n \<longleftrightarrow> n = bh_nonce h" for n
      using max [of n] by auto
    show ?thesis
    proof (cases "bh_time h = 0xffffffff")
      case True
      have "e = RuntimeError ''Exhausted time and nonce space while mining''"
        using 1(6) raw ok no last True by (subst (asm) mine_loop.simps) simp
      moreover have "\<not> bh_time h < t" for t
        using max [of t] True by (simp add: not_less)
      ultimately show ?thesis
        using here only by auto
    next
      case False
      let ?h = "h \<lparr> bh_time := bh_time h + 1, bh_nonce := 0 \<rparr>"
      have "mine_loop C ?h = Inl e"
        using 1(6) raw ok no last False by (subst (asm) mine_loop.simps) simp
      then have ih: "e = RuntimeError ''Exhausted time and nonce space while mining''"
        "\<And>t n. bh_time h + 1 < t \<or> bh_time h + 1 = t \<Longrightarrow>
           \<not> meets_target C (h \<lparr> bh_time := t, bh_nonce := n \<rparr>)"
        using 1(1) [OF raw ok no last False 1(3)] 1(4,5) by auto
      moreover have "bh_time h < t \<Longrightarrow> bh_time h + 1 < t \<or> bh_time h + 1 = t" for t
        using unat_Suc_u32 [OF False] by (auto simp: word_less_nat_alt word_unat_eq_iff)
      ultimately show ?thesis
        using here only by auto
    qed
  next
    case more: False
    let ?h = "h \<lparr> bh_nonce := bh_nonce h + 1 \<rparr>"
    have "mine_loop C ?h = Inl e"
      using 1(6) raw ok no more by (subst (asm) mine_loop.simps) simp
    then have ih: "e = RuntimeError ''Exhausted time and nonce space while mining''"
      "\<And>t n. bh_time h < t \<or> bh_time h = t \<and> bh_nonce h + 1 \<le> n \<Longrightarrow>
         \<not> meets_target C (h \<lparr> bh_time := t, bh_nonce := n \<rparr>)"
      using 1(2) [OF raw ok no more 1(3)] 1(4,5) by auto
    have step: "bh_nonce h \<le> n \<Longrightarrow> bh_nonce h + 1 \<le> n \<or> n = bh_nonce h" for n
      using unat_Suc_u32 [OF more] by (auto simp: word_le_nat_alt word_unat_eq_iff)
    have "\<not> meets_target C (h \<lparr> bh_time := t, bh_nonce := n \<rparr>)"
      if A: "bh_time h < t \<or> bh_time h = t \<and> bh_nonce h \<le> n" for t n
    proof -
      from A step have "(bh_time h < t \<or> bh_time h = t \<and> bh_nonce h + 1 \<le> n) \<or>
          t = bh_time h \<and> n = bh_nonce h" by blast
      then show ?thesis
        using ih(2) [of t n] here by (elim disjE conjE) (simp_all only: simp_thms)
    qed
    with ih(1) show ?thesis by blast
  qed
qed

lemma mine_testnet_block_Inr:
  assumes "mine_testnet_block C now height prev ptime bits script txs fees = Inr b"
  shows "money_range fees \<and> script \<noteq> [] \<and> length script \<le> MAX_SCRIPT_SIZE \<and>
    (\<exists>subsidy root. block_subsidy height TESTNET_HALVING_INTERVAL = Inr subsidy \<and>
       money_range (subsidy + fees) \<and>
       b_transactions b = coinbase_of height (subsidy + fees) script # txs \<and>
       merkle_root_hex C (b_transactions b) = Inr root \<and> bh_merkle_root (b_header b) = root) \<and>
    bh_previous_hash (b_header b) = prev \<and> bh_bits (b_header b) = bits \<and>
    meets_target C (b_header b)"
proof -
  obtain subsidy root h0 h where s: "block_subsidy height TESTNET_HALVING_INTERVAL = Inr subsidy"
    and fees: "money_range fees"
    and cb: "make_testnet_coinbase height (subsidy + fees) script = Inr (coinbase_of height (subsidy + fees) script)"
    and root: "merkle_root_hex C (coinbase_of height (subsidy + fees) script # txs) = Inr root"
    and h0: "h0 = \<lparr> bh_version = 1, bh_previous_hash = prev, bh_merkle_root = root,
        bh_time = max (ptime + 1) (if now < 0 then 0 else word_of_int now), bh_bits = bits, bh_nonce = 0 \<rparr>"
    and m: "mine_loop C h0 = Inr h"
    and b: "b = \<lparr> b_header = h, b_transactions = coinbase_of height (subsidy + fees) script # txs \<rparr>"
    using assms
    by (auto simp: mine_testnet_block_def Let_def make_testnet_coinbase_Inr split: if_splits)
  have mt: "meets_target C h" "h = h0 \<lparr> bh_time := bh_time h, bh_nonce := bh_nonce h \<rparr>"
    using mine_loop_sound [OF m] by blast+
  have "bh_merkle_root h = root" "bh_previous_hash h = prev" "bh_bits h = bits"
    by (subst mt(2), simp add: h0)+
  with s fees cb root b mt(1) show ?thesis
    by (auto simp: make_testnet_coinbase_Inr)
qed

lemma genesis_block_Inr:
  assumes "testnet_genesis_block C = Inr g"
  shows "b_header g = genesis_header \<and> hash_hex C genesis_header = Inr TESTNET_GENESIS_HASH \<and>
    (\<exists>script. b_transactions g = [coinbase_of 0 INITIAL_SUBSIDY script])"
  using assms
  by (auto simp: testnet_genesis_block_def make_testnet_coinbase_Inr split: if_splits)


end
