(* ===== verification/BlockRecord.thy ===== *)
theory BlockRecord
  imports Block
begin

section \<open>Stored blocks as bytes (storage.cpp)\<close>

text \<open>
  The payload form of a stored block and the framed, checksummed record of the append-only block
  file. The lemmas show that the payload format is a codec on blocks within its limits, and
  that a record reads back wherever it stands in a file.
\<close>

definition BLOCK_RECORD_MAGIC :: bytes where "BLOCK_RECORD_MAGIC = string_bytes ''BCR9''"

definition BLOCK_RECORD_VERSION :: u32 where "BLOCK_RECORD_VERSION = 1"

definition BLOCK_RECORD_HEADER_SIZE :: nat where "BLOCK_RECORD_HEADER_SIZE = 4 + 4 + 8 + 32"

definition MAX_BLOCK_RECORD_SIZE :: nat where "MAX_BLOCK_RECORD_SIZE = 16 * 1024 * 1024"

definition serialize_block_transaction :: "transaction \<Rightarrow> bytes \<Rightarrow> bytes res" where
  "serialize_block_transaction t output =
     bindE (serialize_transaction t) (\<lambda>transaction_bytes.
       Inr (append_compact_size output (word_of_nat (length transaction_bytes)) @ transaction_bytes))"

definition serialize_stored_block :: "stored_block \<Rightarrow> bytes res" where
  "serialize_stored_block stored =
     (let output = append_u64_le [] (sb_height stored) in
      bindE (serialize_header (b_header (sb_block stored))) (\<lambda>header.
      let output = output @ header;
          txs = b_transactions (sb_block stored) in
      foldE serialize_block_transaction txs (append_compact_size output (word_of_nat (length txs)))))"

definition read_block_transaction :: "transaction reader" where
  "read_block_transaction =
     bindR read_compact_size (\<lambda>transaction_size input offset.
       if unat transaction_size > 4000000 \<or> unat transaction_size > length input - offset
       then Inl (RuntimeError ''Stored transaction payload exceeds limit'')
       else bindR (read_bytes (unat transaction_size)) (\<lambda>b. liftR (deserialize_transaction b))
              input offset)"

definition read_stored_block :: "stored_block reader" where
  "read_stored_block =
     bindR read_u64_le (\<lambda>height.
     bindR (bindR (read_bytes 80) (\<lambda>b. liftR (deserialize_header b))) (\<lambda>header.
     bindR read_compact_size (\<lambda>transaction_count.
     guardR (unat transaction_count > 100000)
       (RuntimeError ''Stored block transaction count exceeds limit'')
    (bindR (read_many read_block_transaction (unat transaction_count)) (\<lambda>txs.
       returnR \<lparr> sb_height = height, sb_block = \<lparr> b_header = header, b_transactions = txs \<rparr> \<rparr>)))))"

definition deserialize_stored_block :: "bytes \<Rightarrow> stored_block res" where
  "deserialize_stored_block bs =
     bindE (read_stored_block bs 0) (\<lambda>(stored, offset).
       if offset \<noteq> length bs then Inl (RuntimeError ''Trailing bytes in stored block record'')
       else Inr stored)"

definition make_record_bytes :: "crypto \<Rightarrow> stored_block \<Rightarrow> bytes res" where
  "make_record_bytes C block =
     bindE (serialize_stored_block block) (\<lambda>payload.
       if length payload > MAX_BLOCK_RECORD_SIZE
       then Inl (RuntimeError ''Block record exceeds durable storage limit'')
       else bindE (sha256d C payload) (\<lambda>checksum.
         let record = BLOCK_RECORD_MAGIC;
             record = append_u32_le record BLOCK_RECORD_VERSION;
             record = append_u64_le record (word_of_nat (length payload))
         in Inr (record @ checksum @ payload)))"

subsection \<open>The payload is a codec\<close>

definition block_tx_ok :: "transaction \<Rightarrow> bool" where
  "block_tx_ok t \<longleftrightarrow> valid_transaction t \<and> canonical_txids t \<and> length (enc_transaction t) \<le> 4000000"

definition enc_block_tx :: "transaction \<Rightarrow> bytes" where
  "enc_block_tx t = enc_sized (enc_transaction t)"

interpretation btc: wire_codec enc_block_tx read_block_transaction block_tx_ok
proof
  fix t assume t: "block_tx_ok t"
  let ?b = "enc_transaction t"
  have n: "unat (word_of_nat (length ?b) :: u64) = length ?b"
    using t by (intro unat_of_size) (simp add: block_tx_ok_def)
  have d: "deserialize_transaction ?b = Inr t"
    using t by (simp add: deserialize_transaction_eq serialize_transaction_eq block_tx_ok_def)
  have r: "reads (bindR (read_bytes (length ?b)) (\<lambda>b. liftR (deserialize_transaction b))) ?b t"
    by (rule reads_bind_last [where x = ?b]) (auto intro: raw.dec_enc reads_lift d)
  have "reads (\<lambda>input offset.
       if unat (word_of_nat (length ?b) :: u64) > 4000000 \<or>
          unat (word_of_nat (length ?b) :: u64) > length input - offset
       then Inl (RuntimeError ''Stored transaction payload exceeds limit'')
       else bindR (read_bytes (unat (word_of_nat (length ?b) :: u64)))
              (\<lambda>b. liftR (deserialize_transaction b)) input offset) ?b t"
    unfolding n reads_def
    using t readsD [OF r]
    by (simp add: block_tx_ok_def)
  then show "reads read_block_transaction (enc_block_tx t) t"
    unfolding read_block_transaction_def enc_block_tx_def enc_sized_def
    by (rule reads_bind [OF csc.dec_enc, OF TrueI])
next
  have "consumes (\<lambda>input offset.
       if unat n > 4000000 \<or> unat n > length input - offset
       then Inl (RuntimeError ''Stored transaction payload exceeds limit'')
       else bindR (read_bytes (unat n)) (\<lambda>b. liftR (deserialize_transaction b)) input offset)
     (\<lambda>t bs. unat n \<le> 4000000 \<and> length bs = unat n \<and> deserialize_transaction bs = Inr t)" for n :: u64
  proof -
    have "consumes (bindR (read_bytes (unat n)) (\<lambda>b. liftR (deserialize_transaction b)))
        (\<lambda>t bs. length bs = unat n \<and> deserialize_transaction bs = Inr t)"
      by (rule consumes_mono, rule consumes_bind [OF raw.dec_sound consumes_lift]) auto
    then show ?thesis
      unfolding consumes_def by (auto split: if_splits)
  qed
  then show "consumes read_block_transaction (\<lambda>t bs. block_tx_ok t \<and> bs = enc_block_tx t)"
    unfolding read_block_transaction_def
    by (rule consumes_mono [OF consumes_bind [OF csc.dec_sound]])
       (auto simp: block_tx_ok_def enc_block_tx_def enc_sized_def deserialize_transaction_eq
          serialize_transaction_eq)
qed

definition enc_stored :: "stored_block \<Rightarrow> bytes" where
  "enc_stored s = append_u64_le [] (sb_height s) @ enc_header (b_header (sb_block s)) @
     enc_list enc_block_tx (b_transactions (sb_block s))"

definition stored_ok :: "stored_block \<Rightarrow> bool" where
  "stored_ok s \<longleftrightarrow> canonical_header (b_header (sb_block s)) \<and>
     length (b_transactions (sb_block s)) \<le> 100000 \<and> (\<forall>t \<in> set (b_transactions (sb_block s)). block_tx_ok t)"

definition read_header_80 :: "block_header reader" where
  "read_header_80 = bindR (read_bytes 80) (\<lambda>b. liftR (deserialize_header b))"

lemma read_header_80_Inr:
  "read_header_80 input off = Inr (h, off') \<longleftrightarrow> off + 80 \<le> length input \<and> off' = off + 80 \<and>
     deserialize_header (take 80 (drop off input)) = Inr h"
  by (auto simp: read_header_80_def bindR_def liftR_def read_bytes_def)

interpretation h80: wire_codec enc_header read_header_80 canonical_header
proof
  fix h assume h: "canonical_header h"
  then have "deserialize_header (enc_header h) = Inr h" "length (enc_header h) = 80"
    by (simp_all add: deserialize_header_eq serialize_header_eq canonical_valid length_enc_header)
  then show "reads read_header_80 (enc_header h) h"
    by (simp add: reads_def read_header_80_Inr)
next
  show "consumes read_header_80 (\<lambda>h bs. canonical_header h \<and> bs = enc_header h)"
    by (auto simp: consumes_def read_header_80_Inr deserialize_header_eq serialize_header_eq)
qed

interpretation sbc: wire_codec enc_stored read_stored_block stored_ok
  by (rule record_codec [where g = "\<lambda>s. (sb_height s, b_header (sb_block s), b_transactions (sb_block s))"
        and f = "\<lambda>(a, b, c). \<lparr> sb_height = a, sb_block = \<lparr> b_header = b, b_transactions = c \<rparr> \<rparr>",
        OF pair_codec [OF u64c.wire_codec_axioms pair_codec [OF h80.wire_codec_axioms
          list_codec [OF btc.wire_codec_axioms,
            of 100000 "RuntimeError ''Stored block transaction count exceeds limit''"]]]])
     (auto simp: enc_stored_def stored_ok_def read_stored_block_def read_list_def read_header_80_def)

lemma serialize_block_txs:
  "list_all valid_transaction txs \<Longrightarrow>
     foldE serialize_block_transaction txs out = Inr (out @ concat (map enc_block_tx txs))"
proof (induction txs arbitrary: out)
  case (Cons t txs)
  then have "serialize_transaction t = Inr (enc_transaction t)"
    by (simp add: serialize_transaction_eq)
  then have "serialize_block_transaction t out = Inr (out @ enc_block_tx t)"
    by (simp add: serialize_block_transaction_def enc_block_tx_def enc_sized_def append_compact_size_eq)
  with Cons show ?case by simp
qed simp

lemma serialize_block_txs_valid:
  "foldE serialize_block_transaction txs out = Inr r \<Longrightarrow> list_all valid_transaction txs"
  by (induction txs arbitrary: out) (auto simp: serialize_block_transaction_def serialize_transaction_eq)

lemma serialize_stored_block_eq:
  "serialize_stored_block s = Inr bs \<longleftrightarrow> valid_header (b_header (sb_block s)) \<and>
     list_all valid_transaction (b_transactions (sb_block s)) \<and> bs = enc_stored s"
proof
  assume s: "serialize_stored_block s = Inr bs"
  then have v: "valid_header (b_header (sb_block s))" "list_all valid_transaction (b_transactions (sb_block s))"
    by (auto simp: serialize_stored_block_def serialize_header_eq Let_def dest: serialize_block_txs_valid)
  with s show "valid_header (b_header (sb_block s)) \<and>
      list_all valid_transaction (b_transactions (sb_block s)) \<and> bs = enc_stored s"
    by (auto simp: serialize_stored_block_def serialize_header_eq Let_def serialize_block_txs
        enc_stored_def enc_list_def append_u64_le_eq append_compact_size_eq)
next
  assume v: "valid_header (b_header (sb_block s)) \<and>
      list_all valid_transaction (b_transactions (sb_block s)) \<and> bs = enc_stored s"
  then have "serialize_header (b_header (sb_block s)) = Inr (enc_header (b_header (sb_block s)))"
    by (simp add: serialize_header_eq)
  with v show "serialize_stored_block s = Inr bs"
    by (auto simp: serialize_stored_block_def Let_def serialize_block_txs
        enc_stored_def enc_list_def append_u64_le_eq append_compact_size_eq)
qed

lemma deserialize_stored_block_eq:
  "deserialize_stored_block bs = Inr s \<longleftrightarrow> stored_ok s \<and> serialize_stored_block s = Inr bs"
proof
  assume "deserialize_stored_block bs = Inr s"
  then have "read_stored_block bs 0 = Inr (s, length bs)"
    by (auto simp: deserialize_stored_block_def split: if_splits)
  then have "stored_ok s \<and> bs = enc_stored s" by (rule sbc.dec_canonical)
  then show "stored_ok s \<and> serialize_stored_block s = Inr bs"
    by (auto simp: serialize_stored_block_eq stored_ok_def canonical_valid list_all_iff block_tx_ok_def)
next
  assume s: "stored_ok s \<and> serialize_stored_block s = Inr bs"
  then have "bs = enc_stored s" and ok: "stored_ok s"
    by (auto simp: serialize_stored_block_eq)
  then show "deserialize_stored_block bs = Inr s"
    using sbc.dec_enc_whole [OF ok] by (simp add: deserialize_stored_block_def)
qed

end
