(* ===== verification/StdMap.thy ===== *)
theory StdMap
  imports Prelude
begin

section \<open>std::map and std::set as key-sorted association lists\<close>

text \<open>
  An ordered container is the list of its entries in iteration order, with strictly increasing
  keys. \<open>find\<close> is \<open>map_of\<close>; \<open>map_emplace\<close> is \<^verbatim>\<open>emplace\<close> and \<^verbatim>\<open>insert\<close> (an existing key keeps its
  entry), \<open>map_put\<close> is \<^verbatim>\<open>insert_or_assign\<close> and \<^verbatim>\<open>operator[]\<close> assignment, \<open>map_erase\<close> is \<^verbatim>\<open>erase\<close>
  by key.

  The locale \<open>weighted_map\<close> is the contract clients rely on: lookups after the updates, the
  representation invariant, and the total of a weight over the entries. Its lemmas about folds
  are what the ledger theory uses; the interpretation shows that the lists satisfy it.
\<close>

definition sorted_keys :: "('k::linorder \<times> 'v) list \<Rightarrow> bool" where
  "sorted_keys m \<longleftrightarrow> sorted_wrt (<) (map fst m)"

fun map_emplace :: "'k::linorder \<Rightarrow> 'v \<Rightarrow> ('k \<times> 'v) list \<Rightarrow> ('k \<times> 'v) list" where
  "map_emplace k v [] = [(k, v)]"
| "map_emplace k v ((k', v') # m) =
     (if k < k' then (k, v) # (k', v') # m
      else if k = k' then (k', v') # m
      else (k', v') # map_emplace k v m)"

fun map_put :: "'k::linorder \<Rightarrow> 'v \<Rightarrow> ('k \<times> 'v) list \<Rightarrow> ('k \<times> 'v) list" where
  "map_put k v [] = [(k, v)]"
| "map_put k v ((k', v') # m) =
     (if k < k' then (k, v) # (k', v') # m
      else if k = k' then (k, v) # m
      else (k', v') # map_put k v m)"

definition map_erase :: "'k \<Rightarrow> ('k \<times> 'v) list \<Rightarrow> ('k \<times> 'v) list" where
  "map_erase k m = filter (\<lambda>(k', _). k' \<noteq> k) m"

definition map_contains :: "('k \<times> 'v) list \<Rightarrow> 'k \<Rightarrow> bool" where
  "map_contains m k \<longleftrightarrow> map_of m k \<noteq> None"

definition weight :: "('v \<Rightarrow> int) \<Rightarrow> ('k \<times> 'v) list \<Rightarrow> int" where
  "weight w m = sum_list (map (w \<circ> snd) m)"

subsection \<open>Lookups and the invariant\<close>

lemma sorted_keys_simps [simp]:
  "sorted_keys []"
  "sorted_keys ((k, v) # m) \<longleftrightarrow> (\<forall>k' \<in> fst ` set m. k < k') \<and> sorted_keys m"
  by (auto simp: sorted_keys_def)

lemma sorted_keys_distinct: "sorted_keys m \<Longrightarrow> distinct (map fst m)"
  by (simp add: sorted_keys_def strict_sorted_iff)

lemma map_of_less: "(\<And>k'. k' \<in> fst ` set m \<Longrightarrow> k < k') \<Longrightarrow> map_of m (k :: 'k::linorder) = None"
  by (metis less_irrefl map_of_eq_None_iff)

lemma map_of_emplace:
  "sorted_keys m \<Longrightarrow> map_of (map_emplace k v m) = (if k \<in> dom (map_of m) then map_of m else (map_of m)(k \<mapsto> v))"
proof (induction m)
  case (Cons e m)
  then have "map_of m (fst e) = None" "k < fst e \<Longrightarrow> map_of m k = None"
    by (cases e, auto intro!: map_of_less)+
  with Cons show ?case by (cases e) (auto simp: fun_eq_iff)
qed (auto simp: fun_eq_iff)

lemma map_of_put: "sorted_keys m \<Longrightarrow> map_of (map_put k v m) = (map_of m)(k \<mapsto> v)"
  by (induction m) (auto simp: fun_eq_iff)

lemma map_of_erase [simp]: "map_of (map_erase k m) = (map_of m)(k := None)"
  by (induction m) (auto simp: map_erase_def fun_eq_iff)

lemma keys_emplace: "fst ` set (map_emplace k v m) = insert k (fst ` set m)"
proof (induction m)
  case (Cons e m)
  then show ?case by (cases e) (simp add: insert_commute)
qed simp

lemma keys_put: "fst ` set (map_put k v m) = insert k (fst ` set m)"
proof (induction m)
  case (Cons e m)
  then show ?case by (cases e) (simp add: insert_commute)
qed simp

lemma sorted_emplace [simp]: "sorted_keys m \<Longrightarrow> sorted_keys (map_emplace k v m)"
proof (induction m)
  case (Cons e m)
  obtain a b where e: "e = (a, b)" by (cases e)
  consider "k < a" | "k = a" | "a < k" by (rule linorder_cases)
  then show ?case
    using Cons by cases (auto simp: e keys_emplace intro: less_trans)
qed simp

lemma sorted_put [simp]: "sorted_keys m \<Longrightarrow> sorted_keys (map_put k v m)"
proof (induction m)
  case (Cons e m)
  obtain a b where e: "e = (a, b)" by (cases e)
  consider "k < a" | "k = a" | "a < k" by (rule linorder_cases)
  then show ?case
    using Cons by cases (auto simp: e keys_put intro: less_trans)
qed simp

lemma sorted_erase [simp]: "sorted_keys m \<Longrightarrow> sorted_keys (map_erase k m)"
  by (induction m) (auto simp: map_erase_def)

text \<open>A sorted list is determined by its lookups: equal maps have equal iterations.\<close>

lemma sorted_keys_ext:
  assumes "sorted_keys m" "sorted_keys n" "map_of m = map_of n"
  shows "m = n"
proof -
  have d: "distinct (map fst m)" "distinct (map fst n)"
    using assms(1,2) by (simp_all add: sorted_keys_distinct)
  have s: "set m = set n"
    using map_of_eq_Some_iff [OF d(1)] map_of_eq_Some_iff [OF d(2)] assms(3) by auto
  have "inj_on fst (set m \<union> set n)"
    using d(1) s by (simp add: distinct_map)
  moreover have "sorted (map fst m)" "sorted (map fst n)"
    using assms(1,2) by (simp_all add: sorted_keys_def strict_sorted_iff)
  ultimately show ?thesis
    using d s by (intro map_sorted_distinct_set_unique)
qed

subsection \<open>The contract of a weighted map\<close>

lemma weight_simps [simp]: "weight w [] = 0" "weight w ((k, v) # m) = w v + weight w m"
  by (simp_all add: weight_def)

lemma weight_emplace:
  "map_of m k = None \<Longrightarrow> weight w (map_emplace k v m) = weight w m + w v"
  by (induction m) (auto split: if_splits)

lemma erase_absent: "map_of m k = None \<Longrightarrow> map_erase k m = m"
  by (induction m) (auto simp: map_erase_def split: if_splits)

lemma weight_erase:
  "sorted_keys m \<Longrightarrow> map_of m k = Some v \<Longrightarrow> weight w (map_erase k m) = weight w m - w v"
proof (induction m)
  case (Cons e m)
  obtain a b where e: "e = (a, b)" by (cases e)
  show ?case
  proof (cases "a = k")
    case True
    then have "map_of m k = None"
      using Cons.prems(1) by (auto simp: e intro: map_of_less)
    then have "map_erase k m = m" by (rule erase_absent)
    with True Cons.prems show ?thesis by (simp add: e map_erase_def)
  next
    case False
    with Cons show ?thesis by (auto simp: e map_erase_def)
  qed
qed simp

locale weighted_map =
  fixes find :: "'m \<Rightarrow> 'k \<Rightarrow> 'v option"
    and add :: "'k \<Rightarrow> 'v \<Rightarrow> 'm \<Rightarrow> 'm"
    and del :: "'k \<Rightarrow> 'm \<Rightarrow> 'm"
    and sum_of :: "('v \<Rightarrow> int) \<Rightarrow> 'm \<Rightarrow> int"
    and inv :: "'m \<Rightarrow> bool"
  assumes find_add: "inv m \<Longrightarrow> find m k = None \<Longrightarrow> find (add k v m) = (find m)(k \<mapsto> v)"
    and find_del: "inv m \<Longrightarrow> find (del k m) = (find m)(k := None)"
    and inv_add: "inv m \<Longrightarrow> inv (add k v m)"
    and inv_del: "inv m \<Longrightarrow> inv (del k m)"
    and sum_add: "inv m \<Longrightarrow> find m k = None \<Longrightarrow> sum_of w (add k v m) = sum_of w m + w v"
    and sum_del: "inv m \<Longrightarrow> find m k = Some v \<Longrightarrow> sum_of w (del k m) = sum_of w m - w v"
begin

definition del_all :: "'k list \<Rightarrow> 'm \<Rightarrow> 'm" where
  "del_all ks m = foldl (\<lambda>m k. del k m) m ks"

definition add_all :: "('k \<times> 'v) list \<Rightarrow> 'm \<Rightarrow> 'm" where
  "add_all es m = foldl (\<lambda>m e. add (fst e) (snd e) m) m es"

lemma inv_del_all: "inv m \<Longrightarrow> inv (del_all ks m)"
  by (induction ks arbitrary: m) (auto simp: del_all_def inv_del)

lemma find_del_all: "inv m \<Longrightarrow> find (del_all ks m) = (find m) |` (- set ks)"
proof (induction ks arbitrary: m)
  case (Cons k ks)
  have "find (del_all (k # ks) m) = find (del_all ks (del k m))"
    by (simp add: del_all_def)
  also have "\<dots> = find (del k m) |` (- set ks)"
    using Cons by (simp add: inv_del)
  finally show ?case
    using Cons.prems by (auto simp: find_del restrict_map_def fun_eq_iff)
qed (simp add: del_all_def restrict_map_def)

lemma sum_del_all:
  "inv m \<Longrightarrow> distinct ks \<Longrightarrow> list_all2 (\<lambda>k v. find m k = Some v) ks vs \<Longrightarrow>
     sum_of w (del_all ks m) = sum_of w m - sum_list (map w vs)"
proof (induction ks arbitrary: m vs)
  case (Cons k ks)
  then obtain v vs' where vs: "vs = v # vs'" "find m k = Some v"
    and rest: "list_all2 (\<lambda>k v. find m k = Some v) ks vs'"
    by (auto simp: list_all2_Cons1)
  have "list_all2 (\<lambda>j v. find (del k m) j = Some v) ks vs'"
  proof (rule list.rel_mono_strong [OF rest])
    fix z y assume "z \<in> set ks" "find m z = Some y"
    moreover from this have "z \<noteq> k" using Cons.prems(2) by auto
    ultimately show "find (del k m) z = Some y"
      using Cons.prems(1) by (simp add: find_del)
  qed
  then have "sum_of w (del_all ks (del k m)) = sum_of w (del k m) - sum_list (map w vs')"
    using Cons by (simp add: inv_del)
  then show ?case
    using Cons.prems vs by (simp add: del_all_def sum_del)
qed (simp add: del_all_def)

lemma add_all_props:
  "inv m \<Longrightarrow> distinct (map fst es) \<Longrightarrow> (\<And>k. k \<in> fst ` set es \<Longrightarrow> find m k = None) \<Longrightarrow>
     inv (add_all es m) \<and> find (add_all es m) = (find m) ++ map_of es \<and>
     sum_of w (add_all es m) = sum_of w m + sum_list (map (\<lambda>e. w (snd e)) es)"
proof (induction es arbitrary: m)
  case (Cons e es)
  obtain k v where e: "e = (k, v)" by (cases e)
  have none: "find m k = None"
    using Cons.prems(3) by (simp add: e)
  let ?m = "add k v m"
  have "find ?m k' = None" if "k' \<in> fst ` set es" for k'
    using that Cons.prems none by (auto simp: e find_add)
  then have ih: "inv (add_all es ?m)" "find (add_all es ?m) = find ?m ++ map_of es"
      "sum_of w (add_all es ?m) = sum_of w ?m + sum_list (map (\<lambda>e. w (snd e)) es)"
    using Cons.IH [of ?m] Cons.prems by (simp_all add: inv_add)
  have "map_of es k = None"
    using Cons.prems(2) by (simp add: e map_of_eq_None_iff)
  then have f: "find ?m ++ map_of es = find m ++ map_of (e # es)"
    using Cons.prems(1) none by (auto simp: e find_add map_add_def fun_eq_iff split: option.splits)
  have step: "add_all (e # es) m = add_all es ?m"
    by (simp add: add_all_def e)
  have "sum_of w ?m = sum_of w m + w v"
    using Cons.prems(1) none by (rule sum_add)
  with ih(3) have "sum_of w (add_all es ?m) = sum_of w m + sum_list (map (\<lambda>e. w (snd e)) (e # es))"
    by (simp add: e)
  with ih(1) show ?case
    unfolding step ih(2) f by blast
qed (simp add: add_all_def)

end

interpretation std: weighted_map map_of map_emplace map_erase weight sorted_keys
  by unfold_locales (auto simp: map_of_emplace weight_emplace weight_erase dom_def fun_eq_iff)

end
