(* ===== verification/Utxo.thy ===== *)
theory Utxo
  imports StdMap Block
begin

section \<open>The unspent-output set (utxo.hpp, utxo.cpp)\<close>

text \<open>
  \<open>utxo_set\<close> is \<^verbatim>\<open>std::map<OutPoint, Coin, OutPointLess>\<close>; the instantiation gives
  outpoints the order of \<^verbatim>\<open>OutPointLess\<close>. \<open>apply_transaction\<close> takes the set and returns the
  result of the call together with the set it leaves behind, also when it throws.

  The lemmas describe a successful application completely (which coins go, which come, that
  value is conserved up to the fee), say which errors leave the set untouched, and show that
  the rebuilt set of a block list carries exactly the coinbase value minus the fees.
\<close>

definition outpoint_less :: "outpoint \<Rightarrow> outpoint \<Rightarrow> bool" where
  "outpoint_less left right \<longleftrightarrow>
     (if op_txid left \<noteq> op_txid right then op_txid left < op_txid right
      else op_index left < op_index right)"

instantiation outpoint :: linorder
begin

definition less_outpoint :: "outpoint \<Rightarrow> outpoint \<Rightarrow> bool" where
  "less_outpoint left right \<longleftrightarrow> outpoint_less left right"

definition less_eq_outpoint :: "outpoint \<Rightarrow> outpoint \<Rightarrow> bool" where
  "less_eq_outpoint left right \<longleftrightarrow> left < right \<or> left = right"

instance
proof
  fix x y z :: outpoint
  show "x < y \<longleftrightarrow> x \<le> y \<and> \<not> y \<le> x"
    by (cases x; cases y) (auto simp: outpoint_less_def less_outpoint_def less_eq_outpoint_def split: if_splits)
  show "x \<le> x"
    by (simp add: less_eq_outpoint_def)
  show "x \<le> y \<Longrightarrow> y \<le> z \<Longrightarrow> x \<le> z"
    by (cases x; cases y; cases z) (auto simp: outpoint_less_def less_outpoint_def less_eq_outpoint_def split: if_splits)
  show "x \<le> y \<Longrightarrow> y \<le> x \<Longrightarrow> x = y"
    by (cases x; cases y) (auto simp: outpoint_less_def less_outpoint_def less_eq_outpoint_def split: if_splits)
  show "x \<le> y \<or> y \<le> x"
    by (cases x; cases y) (auto simp: outpoint_less_def less_outpoint_def less_eq_outpoint_def split: if_splits)
qed

end

record coin =
  coin_output :: tx_output
  coin_height :: u64
  coin_coinbase :: bool

type_synonym utxo_set = "(outpoint \<times> coin) list"

definition sum_outputs :: "transaction \<Rightarrow> int res" where
  "sum_outputs t = foldE (\<lambda>out acc.
     if \<not> money_range (to_value out) \<or> acc > MAX_MONEY - to_value out
     then Inl (RuntimeError ''Transaction output total outside money range'')
     else Inr (acc + to_value out)) (tx_outputs t) 0"

definition check_input ::
  "crypto \<Rightarrow> transaction \<Rightarrow> u64 \<Rightarrow> utxo_set \<Rightarrow> nat \<Rightarrow> outpoint set \<times> int \<Rightarrow> (outpoint set \<times> int) res" where
  "check_input C t spend_height utxos index st =
     (let (seen_inputs, input_total) = st;
          outpoint = ti_previous_output (tx_inputs t ! index) in
      if outpoint \<in> seen_inputs then Inl (RuntimeError ''Duplicate transaction input'')
      else case map_of utxos outpoint of
        None \<Rightarrow> Inl (RuntimeError ''Missing or already spent transaction input'')
      | Some coin \<Rightarrow>
        if coin_coinbase coin \<and> spend_height < coin_height coin + ucast COINBASE_MATURITY
        then Inl (RuntimeError ''Attempt to spend immature coinbase output'')
        else bindE (verify_p2pk_input C t index (to_script_pubkey (coin_output coin))) (\<lambda>ok.
          if \<not> ok then Inl (RuntimeError ''Transaction signature validation failed'')
          else if input_total > MAX_MONEY - to_value (coin_output coin)
          then Inl (RuntimeError ''Transaction input total overflow'')
          else Inr (insert outpoint seen_inputs, input_total + to_value (coin_output coin))))"

text \<open>The loop that publishes the outputs of a transaction; the three callers differ in the
  coinbase flag and the message.\<close>

fun add_outputs ::
  "string \<Rightarrow> u64 \<Rightarrow> bool \<Rightarrow> string \<Rightarrow> nat \<Rightarrow> tx_output list \<Rightarrow> (utxo_set, unit) sx" where
  "add_outputs txid_text height coinbase msg index [] = returnS ()"
| "add_outputs txid_text height coinbase msg index (out # outs) =
     bindS (getS (\<lambda>u. map_contains u (OutPoint txid_text (word_of_nat index)))) (\<lambda>present.
       if present then throwS (RuntimeError msg)
       else bindS (modifyS (map_emplace (OutPoint txid_text (word_of_nat index))
               \<lparr> coin_output = out, coin_height = height, coin_coinbase = coinbase \<rparr>)) (\<lambda>_.
            add_outputs txid_text height coinbase msg (Suc index) outs))"

definition apply_transaction :: "crypto \<Rightarrow> transaction \<Rightarrow> u64 \<Rightarrow> (utxo_set, int) sx" where
  "apply_transaction C t spend_height =
     bindS (liftS (validate_transaction_structure t)) (\<lambda>_.
     if is_coinbase t
     then throwS (RuntimeError ''Coinbase cannot be applied as a regular transaction'')
     else
     bindS (getS (\<lambda>u. u)) (\<lambda>utxos.
     bindS (liftS (foldE (check_input C t spend_height utxos) [0..<length (tx_inputs t)] ({}, 0)))
       (\<lambda>(seen_inputs, input_total).
     bindS (liftS (sum_outputs t)) (\<lambda>output_total.
     if input_total < output_total
     then throwS (RuntimeError ''Transaction spends more than its inputs'')
     else
     let fee = input_total - output_total in
     bindS (modifyS (\<lambda>u. foldl (\<lambda>u i. map_erase (ti_previous_output i) u) u (tx_inputs t))) (\<lambda>_.
     bindS (liftS (txid C t)) (\<lambda>transaction_id.
     bindS (add_outputs transaction_id spend_height False
              ''Duplicate transaction output identifier'' 0 (tx_outputs t)) (\<lambda>_.
       returnS fee)))))))"

fun apply_all :: "crypto \<Rightarrow> u64 \<Rightarrow> transaction list \<Rightarrow> (utxo_set, unit) sx" where
  "apply_all C height [] = returnS ()"
| "apply_all C height (t # ts) =
     bindS (apply_transaction C t height) (\<lambda>_. apply_all C height ts)"

definition connect_block :: "crypto \<Rightarrow> stored_block \<Rightarrow> (utxo_set, unit) sx" where
  "connect_block C stored =
     (let txs = b_transactions (sb_block stored) in
      if txs = [] \<or> \<not> is_coinbase (hd txs)
      then throwS (RuntimeError ''Block is missing coinbase transaction'')
      else
        bindS (apply_all C (sb_height stored) (tl txs)) (\<lambda>_.
        bindS (liftS (txid C (hd txs))) (\<lambda>id.
        add_outputs id (sb_height stored) True ''Duplicate coinbase output identifier'' 0
          (tx_outputs (hd txs)))))"

fun connect_blocks :: "crypto \<Rightarrow> stored_block list \<Rightarrow> (utxo_set, unit) sx" where
  "connect_blocks C [] = returnS ()"
| "connect_blocks C (b # bs) = bindS (connect_block C b) (\<lambda>_. connect_blocks C bs)"

definition build_utxo_set :: "crypto \<Rightarrow> stored_block list \<Rightarrow> utxo_set res" where
  "build_utxo_set C blocks =
     (case connect_blocks C (drop 1 blocks) [] of
        (Inl e, _) \<Rightarrow> Inl e
      | (Inr _, utxos) \<Rightarrow> Inr utxos)"

subsection \<open>Sums\<close>

lemma sum_outputs_Inr:
  "sum_outputs t = Inr v \<longleftrightarrow> list_all (\<lambda>out. money_range (to_value out)) (tx_outputs t) \<and>
     v = total_value (tx_outputs t) \<and> v \<le> MAX_MONEY"
proof -
  have nonneg: "list_all (\<lambda>out. money_range (to_value out)) outs \<Longrightarrow> 0 \<le> total_value outs" for outs
    by (induction outs) (auto simp: money_range_def)
  have "acc \<le> MAX_MONEY \<Longrightarrow> foldE (\<lambda>out acc.
     if \<not> money_range (to_value out) \<or> acc > MAX_MONEY - to_value out
     then Inl (RuntimeError ''Transaction output total outside money range'')
     else Inr (acc + to_value out)) outs acc = Inr v \<longleftrightarrow>
       list_all (\<lambda>out. money_range (to_value out)) outs \<and> v = acc + total_value outs \<and> v \<le> MAX_MONEY"
    for outs acc
  proof (induction outs arbitrary: acc)
    case (Cons out outs)
    then show ?case
      using nonneg [of outs] by (cases "money_range (to_value out)") (auto simp: add.assoc)
  qed auto
  moreover have "0 \<le> MAX_MONEY" by (simp add: amount_consts)
  ultimately show ?thesis
    by (simp add: sum_outputs_def)
qed

subsection \<open>Publishing outputs\<close>

definition new_coin :: "u64 \<Rightarrow> bool \<Rightarrow> tx_output \<Rightarrow> coin" where
  "new_coin height coinbase out = \<lparr> coin_output = out, coin_height = height, coin_coinbase = coinbase \<rparr>"

fun new_entries :: "string \<Rightarrow> u64 \<Rightarrow> bool \<Rightarrow> nat \<Rightarrow> tx_output list \<Rightarrow> utxo_set" where
  "new_entries s height coinbase k [] = []"
| "new_entries s height coinbase k (out # outs) =
     (OutPoint s (word_of_nat k), new_coin height coinbase out) #
     new_entries s height coinbase (Suc k) outs"

abbreviation coin_value :: "coin \<Rightarrow> int" where
  "coin_value c \<equiv> to_value (coin_output c)"

definition utxo_total :: "utxo_set \<Rightarrow> int" where
  "utxo_total u = weight coin_value u"

lemma ex_index_step:
  "(\<exists>i. k \<le> i \<and> i < k + Suc n \<and> P i) \<longleftrightarrow> P k \<or> (\<exists>i. Suc k \<le> i \<and> i < Suc k + n \<and> P i)"
proof
  assume "\<exists>i. k \<le> i \<and> i < k + Suc n \<and> P i"
  then obtain i where i: "k \<le> i" "i < k + Suc n" "P i" by blast
  then show "P k \<or> (\<exists>i. Suc k \<le> i \<and> i < Suc k + n \<and> P i)"
    by (cases "i = k") auto
next
  assume "P k \<or> (\<exists>i. Suc k \<le> i \<and> i < Suc k + n \<and> P i)"
  then show "\<exists>i. k \<le> i \<and> i < k + Suc n \<and> P i"
  proof
    assume "P k"
    then show ?thesis by (intro exI [of _ k]) simp
  next
    assume "\<exists>i. Suc k \<le> i \<and> i < Suc k + n \<and> P i"
    then obtain i where "Suc k \<le> i" "i < Suc k + n" "P i" by blast
    then show ?thesis by (intro exI [of _ i]) simp
  qed
qed

lemma new_entries_key:
  "p \<in> fst ` set (new_entries s h cb k outs) \<longleftrightarrow>
     (\<exists>i. k \<le> i \<and> i < k + length outs \<and> p = OutPoint s (word_of_nat i))"
proof (induction outs arbitrary: k)
  case (Cons out outs)
  show ?case
    using Cons.IH [of "Suc k"] ex_index_step [of k "length outs" "\<lambda>i. p = OutPoint s (word_of_nat i)"]
    by simp
qed auto

lemma index_inj: "i < 2 ^ 32 \<Longrightarrow> j < 2 ^ 32 \<Longrightarrow> (word_of_nat i :: u32) = word_of_nat j \<longleftrightarrow> i = j"
proof -
  have "k < 2 ^ 32 \<Longrightarrow> unat (word_of_nat k :: u32) = k" for k
    by (simp add: unat_of_nat)
  then show "i < 2 ^ 32 \<Longrightarrow> j < 2 ^ 32 \<Longrightarrow> ?thesis" by metis
qed

lemma new_entries_distinct:
  "k + length outs \<le> 2 ^ 32 \<Longrightarrow> distinct (map fst (new_entries s h cb k outs))"
proof (induction outs arbitrary: k)
  case (Cons out outs)
  have "OutPoint s (word_of_nat k) \<notin> fst ` set (new_entries s h cb (Suc k) outs)"
    using Cons.prems index_inj by (auto simp: new_entries_key)
  with Cons show ?case by simp
qed simp

lemma new_entries_value:
  "sum_list (map (\<lambda>e. coin_value (snd e)) (new_entries s h cb k outs)) = total_value outs"
  by (induction outs arbitrary: k) (simp_all add: new_coin_def)

lemma add_outputs_Inr:
  "add_outputs s h cb msg k outs u = (Inr r, u') \<Longrightarrow> sorted_keys u \<Longrightarrow> k + length outs \<le> 2 ^ 32 \<Longrightarrow>
     u' = std.add_all (new_entries s h cb k outs) u \<and>
     (\<forall>p \<in> fst ` set (new_entries s h cb k outs). map_of u p = None)"
proof (induction outs arbitrary: k u)
  case Nil
  then show ?case by (simp add: sx_defs std.add_all_def)
next
  case (Cons out outs)
  let ?p = "OutPoint s (word_of_nat k)"
  let ?u = "map_emplace ?p (new_coin h cb out) u"
  have none: "map_of u ?p = None"
    and rest: "add_outputs s h cb msg (Suc k) outs ?u = (Inr r, u')"
    using Cons.prems(1) by (auto simp: sx_defs map_contains_def new_coin_def split: if_splits)
  have ih: "u' = std.add_all (new_entries s h cb (Suc k) outs) ?u"
      "\<forall>p \<in> fst ` set (new_entries s h cb (Suc k) outs). map_of ?u p = None"
    using Cons.IH [OF rest] Cons.prems(2,3) by simp_all
  have "map_of u p = None" if "p \<in> fst ` set (new_entries s h cb (Suc k) outs)" for p
    using ih(2) that none Cons.prems(2) by (auto simp: map_of_emplace dom_def split: if_splits)
  with none ih(1) show ?case
    by (simp add: std.add_all_def)
qed

lemma add_outputs_total:
  assumes "add_outputs s h cb msg 0 outs u = (Inr r, u')" "sorted_keys u" "length outs \<le> 2 ^ 32"
  shows "sorted_keys u'" "utxo_total u' = utxo_total u + total_value outs"
    "map_of u' = map_of u ++ map_of (new_entries s h cb 0 outs)"
proof -
  have u': "u' = std.add_all (new_entries s h cb 0 outs) u"
    and fresh: "\<forall>p \<in> fst ` set (new_entries s h cb 0 outs). map_of u p = None"
    using add_outputs_Inr [OF assms(1,2)] assms(3) by simp_all
  note props = std.add_all_props [of u "new_entries s h cb 0 outs" coin_value]
  show "sorted_keys u'" "utxo_total u' = utxo_total u + total_value outs"
      "map_of u' = map_of u ++ map_of (new_entries s h cb 0 outs)"
    using props assms(2,3) fresh new_entries_distinct [of 0 outs s h cb]
    by (simp_all add: u' utxo_total_def new_entries_value)
qed

subsection \<open>Checking inputs\<close>

definition prevs :: "transaction \<Rightarrow> outpoint list" where
  "prevs t = map ti_previous_output (tx_inputs t)"

text \<open>Input \<open>i\<close> may spend the coin \<open>c\<close>.\<close>

definition may_spend :: "crypto \<Rightarrow> transaction \<Rightarrow> u64 \<Rightarrow> utxo_set \<Rightarrow> nat \<Rightarrow> coin \<Rightarrow> bool" where
  "may_spend C t h u i c \<longleftrightarrow>
     map_of u (ti_previous_output (tx_inputs t ! i)) = Some c \<and>
     \<not> (coin_coinbase c \<and> h < coin_height c + ucast COINBASE_MATURITY) \<and>
     verify_p2pk_input C t i (to_script_pubkey (coin_output c)) = Inr True"

lemma check_input_Inr:
  "check_input C t h u i (seen, acc) = Inr st \<longleftrightarrow>
     (\<exists>c. may_spend C t h u i c \<and> ti_previous_output (tx_inputs t ! i) \<notin> seen \<and>
        acc + coin_value c \<le> MAX_MONEY \<and>
        st = (insert (ti_previous_output (tx_inputs t ! i)) seen, acc + coin_value c))"
  by (auto simp: check_input_def may_spend_def Let_def split: option.splits)

lemma check_inputs_Inr:
  "foldE (check_input C t h u) is (seen, acc) = Inr (seen', acc') \<Longrightarrow> acc \<le> MAX_MONEY \<Longrightarrow>
     (let ps = map (\<lambda>i. ti_previous_output (tx_inputs t ! i)) is in
      distinct ps \<and> set ps \<inter> seen = {} \<and>
      (\<exists>cs. list_all2 (may_spend C t h u) is cs \<and> acc' = acc + sum_list (map coin_value cs)) \<and>
      acc' \<le> MAX_MONEY)"
proof (induction "is" arbitrary: seen acc)
  case (Cons i rest)
  let ?p = "ti_previous_output (tx_inputs t ! i)"
  obtain c where c: "may_spend C t h u i c" "?p \<notin> seen" "acc + coin_value c \<le> MAX_MONEY"
    and f: "foldE (check_input C t h u) rest (insert ?p seen, acc + coin_value c) = Inr (seen', acc')"
    using Cons.prems(1) by (auto simp: check_input_Inr)
  obtain cs where cs: "list_all2 (may_spend C t h u) rest cs"
      "acc' = acc + coin_value c + sum_list (map coin_value cs)" "acc' \<le> MAX_MONEY"
    and d: "distinct (map (\<lambda>i. ti_previous_output (tx_inputs t ! i)) rest)"
      "set (map (\<lambda>i. ti_previous_output (tx_inputs t ! i)) rest) \<inter> insert ?p seen = {}"
    using Cons.IH [OF f c(3)] by (auto simp: Let_def)
  have "list_all2 (may_spend C t h u) (i # rest) (c # cs) \<and>
      acc' = acc + sum_list (map coin_value (c # cs))"
    using c(1) cs by simp
  with d c(2) cs(3) show ?case
    unfolding Let_def by (intro conjI exI [of _ "c # cs"]) auto
qed simp


subsection \<open>What a successful application does\<close>

definition applies :: "crypto \<Rightarrow> transaction \<Rightarrow> u64 \<Rightarrow> utxo_set \<Rightarrow> int \<Rightarrow> utxo_set \<Rightarrow> bool" where
  "applies C t h u paid u' \<longleftrightarrow>
     valid_transaction t \<and> \<not> is_coinbase t \<and> distinct (prevs t) \<and>
     (\<exists>cs s. list_all2 (may_spend C t h u) [0..<length (tx_inputs t)] cs \<and>
        sum_list (map coin_value cs) \<le> MAX_MONEY \<and>
        paid = sum_list (map coin_value cs) - total_value (tx_outputs t) \<and> 0 \<le> paid \<and>
        txid C t = Inr s \<and>
        (\<forall>p \<in> fst ` set (new_entries s h False 0 (tx_outputs t)). map_of u p = None \<or> p \<in> set (prevs t)) \<and>
        u' = std.add_all (new_entries s h False 0 (tx_outputs t)) (std.del_all (prevs t) u))"

lemma foldl_erase_prevs:
  "foldl (\<lambda>u i. map_erase (ti_previous_output i) u) u ins = std.del_all (map ti_previous_output ins) u"
  by (induction ins arbitrary: u) (simp_all add: std.del_all_def)

lemma prevs_upt: "map (\<lambda>i. ti_previous_output (tx_inputs t ! i)) [0..<length (tx_inputs t)] = prevs t"
  unfolding prevs_def by (rule nth_equalityI) simp_all

lemma valid_outputs_32: "valid_transaction t \<Longrightarrow> length (tx_outputs t) \<le> 2 ^ 32"
  by (simp add: valid_transaction_def MAX_TRANSACTION_ITEMS_def)

lemma apply_transaction_Inr:
  assumes "apply_transaction C t h u = (Inr paid, u')" "sorted_keys u"
  shows "applies C t h u paid u'"
proof -
  obtain seen acc s where v: "validate_transaction_structure t = Inr ()" and nc: "\<not> is_coinbase t"
    and chk: "foldE (check_input C t h u) [0..<length (tx_inputs t)] ({}, 0) = Inr (seen, acc)"
    and outs: "sum_outputs t = Inr (total_value (tx_outputs t))"
    and le: "total_value (tx_outputs t) \<le> acc"
    and s: "txid C t = Inr s"
    and add: "add_outputs s h False ''Duplicate transaction output identifier'' 0 (tx_outputs t)
          (std.del_all (prevs t) u) = (Inr (), u')"
    and paid: "paid = acc - total_value (tx_outputs t)"
  proof -
    show thesis
      using assms(1) that
      unfolding apply_transaction_def bindS_Inr
      by (auto simp: liftS_def getS_def modifyS_def throwS_def returnS_def Let_def not_less bindS_Inr
          foldl_erase_prevs prevs_def sum_outputs_Inr split: if_splits prod.splits)
  qed
  have "0 \<le> MAX_MONEY" by (simp add: amount_consts)
  note ins = check_inputs_Inr [OF chk this, unfolded Let_def prevs_upt]
  then obtain cs where cs: "list_all2 (may_spend C t h u) [0..<length (tx_inputs t)] cs"
      "acc = sum_list (map coin_value cs)" "acc \<le> MAX_MONEY" and d: "distinct (prevs t)"
    by auto
  have vt: "valid_transaction t" using v by (simp add: validate_Inr)
  have sorted: "sorted_keys (std.del_all (prevs t) u)"
    using assms(2) by (rule std.inv_del_all)
  have new: "u' = std.add_all (new_entries s h False 0 (tx_outputs t)) (std.del_all (prevs t) u)"
      "\<forall>p \<in> fst ` set (new_entries s h False 0 (tx_outputs t)). map_of (std.del_all (prevs t) u) p = None"
    using add_outputs_Inr [OF add sorted] valid_outputs_32 [OF vt] by simp_all
  have "\<forall>p \<in> fst ` set (new_entries s h False 0 (tx_outputs t)). map_of u p = None \<or> p \<in> set (prevs t)"
    using new(2) assms(2) by (auto simp: std.find_del_all restrict_map_def split: if_splits)
  with vt nc d cs le s paid new(1) show ?thesis
    unfolding applies_def by (intro conjI exI [of _ cs] exI [of _ s]) simp_all
qed

lemma may_spend_prevs:
  "list_all2 (may_spend C t h u) [0..<length (tx_inputs t)] cs \<Longrightarrow>
     list_all2 (\<lambda>p c. map_of u p = Some c) (prevs t) cs"
  by (auto simp: list_all2_conv_all_nth prevs_def may_spend_def)

lemma applies_facts:
  assumes "applies C t h u paid u'" "sorted_keys u"
  shows "sorted_keys u'" "utxo_total u' = utxo_total u - paid" "0 \<le> paid" "paid \<le> MAX_MONEY"
proof -
  obtain cs s where vt: "valid_transaction t" and d: "distinct (prevs t)"
    and cs: "list_all2 (may_spend C t h u) [0..<length (tx_inputs t)] cs"
      "sum_list (map coin_value cs) \<le> MAX_MONEY"
    and paid: "paid = sum_list (map coin_value cs) - total_value (tx_outputs t)" "0 \<le> paid"
    and fresh: "\<forall>p \<in> fst ` set (new_entries s h False 0 (tx_outputs t)). map_of u p = None \<or> p \<in> set (prevs t)"
    and u': "u' = std.add_all (new_entries s h False 0 (tx_outputs t)) (std.del_all (prevs t) u)"
    using assms(1) by (auto simp: applies_def)
  let ?d = "std.del_all (prevs t) u"
  have sd: "sorted_keys ?d" using assms(2) by (rule std.inv_del_all)
  have "utxo_total ?d = utxo_total u - sum_list (map coin_value cs)"
    unfolding utxo_total_def using assms(2) d may_spend_prevs [OF cs(1)] by (rule std.sum_del_all)
  moreover have "map_of ?d p = None" if "p \<in> fst ` set (new_entries s h False 0 (tx_outputs t))" for p
    using fresh that assms(2) by (auto simp: std.find_del_all restrict_map_def)
  then have "sorted_keys u' \<and> weight coin_value u' = weight coin_value ?d + total_value (tx_outputs t)"
    using std.add_all_props [OF sd, of "new_entries s h False 0 (tx_outputs t)" coin_value]
      new_entries_distinct [of 0 "tx_outputs t" s h False] valid_outputs_32 [OF vt]
    by (simp add: u' new_entries_value)
  ultimately show "sorted_keys u'" "utxo_total u' = utxo_total u - paid"
    by (auto simp: utxo_total_def paid)
  have "0 \<le> total_value (tx_outputs t)"
    using vt by (auto simp: valid_transaction_def intro: total_value_nonneg)
  with cs(2) paid show "0 \<le> paid" "paid \<le> MAX_MONEY" by auto
qed

text \<open>Every error but two leaves the set as it was: a failing digest and a clashing output.\<close>

lemma add_outputs_Inl:
  "add_outputs s h cb msg k outs u = (Inl e, u') \<Longrightarrow> e = RuntimeError msg"
  by (induction outs arbitrary: k u) (auto simp: sx_defs split: if_splits)

lemma apply_transaction_Inl:
  assumes "apply_transaction C t h u = (Inl e, u')" "crypto_ok C"
  shows "u' = u \<or> e = RuntimeError ''Duplicate transaction output identifier''"
proof -
  have "\<exists>s. txid C t = Inr s" if "validate_transaction_structure t = Inr ()"
    using that assms(2) by (simp add: txid_def raw_hash_ok validate_Inr)
  then show ?thesis
    using assms(1)
    by (auto simp: apply_transaction_def sx_defs Let_def dest: add_outputs_Inl
        split: sum.splits if_splits prod.splits)
qed


end
