(* ===== verification/StoreText.thy ===== *)
theory StoreText
  imports BlockRecord Utxo
begin

section \<open>The text files of the chain store (storage.cpp)\<close>

text \<open>
  Block index, coin snapshot and manifest: their writers and parsers, and the names of the
  generation files. The locale \<open>line_format\<close> is the contract of a line-based file: each entry
  has a line that parses back, so the whole file does. The interpretations give the index and
  snapshot entries; the round trips of the three files follow.
\<close>

record index_entry =
  ie_height :: u64
  ie_offset :: u64
  ie_payload_size :: u64
  ie_hash :: string

record manifest =
  mf_generation :: u64
  mf_height :: u64
  mf_bestblock :: string
  mf_index_file :: string
  mf_index_sha256 :: string
  mf_utxo_file :: string
  mf_utxo_sha256 :: string
  mf_block_file_size :: u64

definition MANIFEST_MAGIC :: string where "MANIFEST_MAGIC = ''BINARYCOIN_CHAINSTATE_MANIFEST_V1''"

definition INDEX_MAGIC :: string where "INDEX_MAGIC = ''BINARYCOIN_BLOCK_INDEX_V1''"

definition UTXO_MAGIC :: string where "UTXO_MAGIC = ''BINARYCOIN_UTXO_SNAPSHOT_V1''"

definition u64_max :: nat where "u64_max = 2 ^ 64 - 1"

definition u32_max :: nat where "u32_max = 2 ^ 32 - 1"

definition i64_max :: nat where "i64_max = 2 ^ 63 - 1"

definition invalid_field :: "string \<Rightarrow> string \<Rightarrow> exn" where
  "invalid_field field s = RuntimeError (''Invalid '' @ field @ '': '' @ s)"

definition parse_integer_u64 :: "string \<Rightarrow> string \<Rightarrow> u64 res" where
  "parse_integer_u64 s field =
     bindE (parse_unsigned u64_max s (invalid_field field s)) (\<lambda>n. Inr (word_of_nat n))"

definition parse_integer_u32 :: "string \<Rightarrow> string \<Rightarrow> u32 res" where
  "parse_integer_u32 s field =
     bindE (parse_unsigned u32_max s (invalid_field field s)) (\<lambda>n. Inr (word_of_nat n))"

definition parse_integer_i64 :: "string \<Rightarrow> string \<Rightarrow> int res" where
  "parse_integer_i64 s field = parse_signed i64_max s (invalid_field field s)"

definition show_u64 :: "u64 \<Rightarrow> string" where "show_u64 w = show_nat (unat w)"

definition show_u32 :: "u32 \<Rightarrow> string" where "show_u32 w = show_nat (unat w)"

definition generation_name :: "string \<Rightarrow> u64 \<Rightarrow> string" where
  "generation_name prefix generation =
     prefix @ pad_left 20 (CHR ''0'') (show_u64 generation) @ ''.tsv''"

subsection \<open>Block index\<close>

definition index_line :: "index_entry \<Rightarrow> string" where
  "index_line e = join tab [show_u64 (ie_height e), show_u64 (ie_offset e),
     show_u64 (ie_payload_size e), ie_hash e]"

definition make_index_text :: "index_entry list \<Rightarrow> string" where
  "make_index_text entries = unlines (INDEX_MAGIC # map index_line entries)"

definition parse_index_line :: "string \<Rightarrow> index_entry res" where
  "parse_index_line line =
     (let fields = split line tab in
      if length fields \<noteq> 4 then Inl (RuntimeError ''Malformed block-index record'')
      else
        bindE (parse_integer_u64 (fields ! 0) ''block-index height'') (\<lambda>height.
        bindE (parse_integer_u64 (fields ! 1) ''block-index offset'') (\<lambda>offset.
        bindE (parse_integer_u64 (fields ! 2) ''block-index payload size'') (\<lambda>payload_size.
          Inr \<lparr> ie_height = height, ie_offset = offset, ie_payload_size = payload_size,
                ie_hash = fields ! 3 \<rparr>))))"

definition parse_index_step :: "string \<Rightarrow> index_entry list \<Rightarrow> index_entry list res" where
  "parse_index_step line entries =
     (if line = [] then Inr entries
      else bindE (parse_index_line line) (\<lambda>entry.
        if unat (ie_payload_size entry) > MAX_BLOCK_RECORD_SIZE
        then Inl (RuntimeError ''Indexed block payload exceeds limit'')
        else if ie_height entry \<noteq> word_of_nat (length entries)
        then Inl (RuntimeError ''Block index is not contiguous'')
        else Inr (entries @ [entry])))"

definition parse_index_text :: "string \<Rightarrow> index_entry list res" where
  "parse_index_text s =
     (case getlines s of
        [] \<Rightarrow> Inl (RuntimeError ''Invalid block-index header'')
      | header # rest \<Rightarrow>
          if header \<noteq> INDEX_MAGIC then Inl (RuntimeError ''Invalid block-index header'')
          else bindE (foldE parse_index_step rest []) (\<lambda>entries.
            if entries = [] then Inl (RuntimeError ''Block index contains no genesis record'')
            else Inr entries))"

subsection \<open>Coin snapshot\<close>

definition utxo_line :: "outpoint \<times> coin \<Rightarrow> string" where
  "utxo_line e = (case e of (p, c) \<Rightarrow>
     join tab [op_txid p, show_u32 (op_index p), show_int (coin_value c), show_u64 (coin_height c),
       if coin_coinbase c then ''1'' else ''0'', bytes_to_hex (to_script_pubkey (coin_output c))])"

definition make_utxo_text :: "utxo_set \<Rightarrow> u64 \<Rightarrow> string \<Rightarrow> string" where
  "make_utxo_text utxos height bestblock =
     unlines (UTXO_MAGIC # (''height='' @ show_u64 height) # (''bestblock='' @ bestblock) #
       map utxo_line utxos)"

definition parse_utxo_line :: "string \<Rightarrow> (outpoint \<times> coin) res" where
  "parse_utxo_line line =
     (let fields = split line tab in
      if length fields \<noteq> 6 then Inl (RuntimeError ''Malformed UTXO snapshot record'')
      else
        bindE (parse_integer_u32 (fields ! 1) ''UTXO output index'') (\<lambda>index.
        bindE (parse_integer_i64 (fields ! 2) ''UTXO value'') (\<lambda>v.
        bindE (hex_to_bytes (fields ! 5)) (\<lambda>script.
        bindE (parse_integer_u64 (fields ! 3) ''UTXO height'') (\<lambda>height.
        if \<not> money_range v then Inl (RuntimeError ''UTXO value outside money range'')
        else if fields ! 4 \<noteq> ''0'' \<and> fields ! 4 \<noteq> ''1''
        then Inl (RuntimeError ''Invalid UTXO coinbase flag'')
        else Inr (OutPoint (fields ! 0) index,
               \<lparr> coin_output = \<lparr> to_value = v, to_script_pubkey = script \<rparr>, coin_height = height,
                 coin_coinbase = (fields ! 4 = ''1'') \<rparr>))))))"

definition parse_utxo_step :: "string \<Rightarrow> utxo_set \<Rightarrow> utxo_set res" where
  "parse_utxo_step line utxos =
     (if line = [] then Inr utxos
      else bindE (parse_utxo_line line) (\<lambda>(p, c).
        if map_contains utxos p then Inl (RuntimeError ''Duplicate UTXO snapshot outpoint'')
        else Inr (map_emplace p c utxos)))"

definition parse_utxo_text :: "string \<Rightarrow> u64 \<Rightarrow> string \<Rightarrow> utxo_set res" where
  "parse_utxo_text s expected_height expected_bestblock =
     (let ls = getlines s in
      if ls = [] \<or> hd ls \<noteq> UTXO_MAGIC then Inl (RuntimeError ''Invalid UTXO snapshot header'')
      else if length ls < 2 \<or> \<not> starts_with (ls ! 1) ''height=''
      then Inl (RuntimeError ''UTXO snapshot height missing'')
      else bindE (parse_integer_u64 (drop 7 (ls ! 1)) ''UTXO snapshot height'') (\<lambda>height.
        if length ls < 3 \<or> \<not> starts_with (ls ! 2) ''bestblock=''
        then Inl (RuntimeError ''UTXO best block missing'')
        else if height \<noteq> expected_height \<or> drop 10 (ls ! 2) \<noteq> expected_bestblock
        then Inl (RuntimeError ''UTXO snapshot does not match committed active chain'')
        else foldE parse_utxo_step (drop 3 ls) []))"

subsection \<open>Manifest\<close>

definition make_manifest_text :: "manifest \<Rightarrow> string" where
  "make_manifest_text m = unlines
     [MANIFEST_MAGIC,
      ''generation='' @ show_u64 (mf_generation m),
      ''height='' @ show_u64 (mf_height m),
      ''bestblock='' @ mf_bestblock m,
      ''index_file='' @ mf_index_file m,
      ''index_sha256='' @ mf_index_sha256 m,
      ''utxo_file='' @ mf_utxo_file m,
      ''utxo_sha256='' @ mf_utxo_sha256 m,
      ''block_file_size='' @ show_u64 (mf_block_file_size m)]"

definition manifest_field :: "string \<Rightarrow> (string \<times> string) list \<Rightarrow> (string \<times> string) list res" where
  "manifest_field line fs =
     (if line = [] then Inr fs
      else case dropWhile (\<lambda>c. c \<noteq> CHR ''='') line of
        [] \<Rightarrow> Inl (RuntimeError ''Malformed chainstate manifest field'')
      | _ # v \<Rightarrow> Inr (map_emplace (takeWhile (\<lambda>c. c \<noteq> CHR ''='') line) v fs))"

definition manifest_get :: "(string \<times> string) list \<Rightarrow> string \<Rightarrow> string res" where
  "manifest_get fs name =
     (case map_of fs name of
        None \<Rightarrow> Inl (RuntimeError (''Missing chainstate manifest field: '' @ name))
      | Some v \<Rightarrow> Inr v)"

definition parse_manifest_text :: "string \<Rightarrow> manifest res" where
  "parse_manifest_text s =
     (let ls = getlines s in
      if ls = [] \<or> hd ls \<noteq> MANIFEST_MAGIC
      then Inl (RuntimeError ''Invalid chainstate manifest header'')
      else bindE (foldE manifest_field (tl ls) []) (\<lambda>fields.
        bindE (manifest_get fields ''generation'') (\<lambda>g.
        bindE (parse_integer_u64 g ''manifest generation'') (\<lambda>generation.
        bindE (manifest_get fields ''height'') (\<lambda>h.
        bindE (parse_integer_u64 h ''manifest height'') (\<lambda>height.
        bindE (manifest_get fields ''bestblock'') (\<lambda>bestblock.
        bindE (manifest_get fields ''index_file'') (\<lambda>index_file.
        bindE (manifest_get fields ''index_sha256'') (\<lambda>index_sha256.
        bindE (manifest_get fields ''utxo_file'') (\<lambda>utxo_file.
        bindE (manifest_get fields ''utxo_sha256'') (\<lambda>utxo_sha256.
        bindE (manifest_get fields ''block_file_size'') (\<lambda>b.
        bindE (parse_integer_u64 b ''manifest block file size'') (\<lambda>block_file_size.
          Inr \<lparr> mf_generation = generation, mf_height = height, mf_bestblock = bestblock,
                mf_index_file = index_file, mf_index_sha256 = index_sha256, mf_utxo_file = utxo_file,
                mf_utxo_sha256 = utxo_sha256, mf_block_file_size = block_file_size \<rparr>)))))))))))))"

subsection \<open>Generation files\<close>

definition generation_from_index_filename :: "string \<Rightarrow> u64 option" where
  "generation_from_index_filename filename =
     (let prefix = ''block-index-v1-''; suffix = ''.tsv'' in
      if \<not> starts_with filename prefix \<or> \<not> ends_with filename suffix then None
      else case parse_integer_u64 (take (length filename - length prefix - length suffix)
                  (drop (length prefix) filename)) ''index generation'' of
        Inl _ \<Rightarrow> None
      | Inr g \<Rightarrow> Some g)"

subsection \<open>Files of lines\<close>

locale line_format =
  fixes show_line :: "'a \<Rightarrow> string" and read_line :: "string \<Rightarrow> 'a res" and good :: "'a \<Rightarrow> bool"
  assumes line_safe: "good x \<Longrightarrow> newline \<notin> set (show_line x) \<and> show_line x \<noteq> []"
    and read_show: "good x \<Longrightarrow> read_line (show_line x) = Inr x"
begin

lemma file_lines:
  "(\<And>l. l \<in> set hs \<Longrightarrow> newline \<notin> set l) \<Longrightarrow> (\<And>x. x \<in> set xs \<Longrightarrow> good x) \<Longrightarrow>
     getlines (unlines (hs @ map show_line xs)) = hs @ map show_line xs"
  by (rule getlines_unlines) (auto dest: line_safe)

text \<open>A loop over the lines whose body parses the line and then updates is the loop over the
  entries with the update alone.\<close>

lemma fold_lines:
  assumes "\<And>l acc. body l acc = (if l = [] then Inr acc else bindE (read_line l) (\<lambda>x. update x acc))"
  shows "(\<And>x. x \<in> set xs \<Longrightarrow> good x) \<Longrightarrow> foldE body (map show_line xs) acc = foldE update xs acc"
proof (induction xs arbitrary: acc)
  case (Cons x xs)
  then have "body (show_line x) acc = update x acc"
    using line_safe [of x] read_show [of x] by (simp add: assms)
  with Cons show ?case by (simp cong: bindE_cong)
qed simp

lemma show_line_inj: "good x \<Longrightarrow> good y \<Longrightarrow> show_line x = show_line y \<Longrightarrow> x = y"
  using read_show by (metis sum.inject(2))

end

lemma parse_show_u64 [simp]: "parse_integer_u64 (show_u64 w) field = Inr w"
proof -
  have "unat w \<le> u64_max"
    using unsigned_less [of w, where 'a = nat] by (simp add: u64_max_def)
  then show ?thesis by (simp add: parse_integer_u64_def show_u64_def)
qed

lemma parse_show_u32 [simp]: "parse_integer_u32 (show_u32 w) field = Inr w"
proof -
  have "unat w \<le> u32_max"
    using unsigned_less [of w, where 'a = nat] by (simp add: u32_max_def)
  then show ?thesis by (simp add: parse_integer_u32_def show_u32_def)
qed

lemma parse_show_i64: "int64_range i \<Longrightarrow> parse_integer_i64 (show_int i) field = Inr i"
  by (simp add: parse_integer_i64_def int64_range_def i64_max_def parse_signed_show)

definition plain :: "string \<Rightarrow> bool" where
  "plain s \<longleftrightarrow> newline \<notin> set s \<and> tab \<notin> set s"

lemma plain_show [simp]: "plain (show_u64 w)" "plain (show_u32 v)" "plain (show_int i)" "plain ''0''" "plain ''1''"
  by (simp_all add: plain_def show_u64_def show_u32_def show_nat_not show_int_not)

lemma plain_lower_hex: "list_all lower_hex s \<Longrightarrow> plain s"
  by (auto simp: plain_def list_all_iff lower_hex_def less_eq_char_def)

lemma split_plain: "list_all plain fs \<Longrightarrow> fs \<noteq> [] \<Longrightarrow> split (join tab fs) tab = fs"
  by (rule split_join) (auto simp: plain_def list_all_iff)

lemma join_newline: "list_all plain fs \<Longrightarrow> newline \<notin> set (join tab fs)"
  by (induction "tab" fs rule: join.induct) (auto simp: plain_def)

subsection \<open>Index round trip\<close>

definition index_entry_ok :: "index_entry \<Rightarrow> bool" where
  "index_entry_ok e \<longleftrightarrow> plain (ie_hash e)"

interpretation ixl: line_format index_line parse_index_line index_entry_ok
proof
  fix e assume e: "index_entry_ok e"
  let ?fs = "[show_u64 (ie_height e), show_u64 (ie_offset e), show_u64 (ie_payload_size e), ie_hash e]"
  have p: "list_all plain ?fs" using e by (simp add: index_entry_ok_def)
  show "newline \<notin> set (index_line e) \<and> index_line e \<noteq> []"
    using join_newline [OF p] by (simp add: index_line_def)
  show "parse_index_line (index_line e) = Inr e"
    using split_plain [OF p] by (simp add: index_line_def parse_index_line_def Let_def)
qed

definition index_ok :: "index_entry list \<Rightarrow> bool" where
  "index_ok es \<longleftrightarrow> es \<noteq> [] \<and> list_all index_entry_ok es \<and>
     (\<forall>i < length es. ie_height (es ! i) = word_of_nat i \<and>
        unat (ie_payload_size (es ! i)) \<le> MAX_BLOCK_RECORD_SIZE)"

definition index_update :: "index_entry \<Rightarrow> index_entry list \<Rightarrow> index_entry list res" where
  "index_update e es =
     (if unat (ie_payload_size e) > MAX_BLOCK_RECORD_SIZE
      then Inl (RuntimeError ''Indexed block payload exceeds limit'')
      else if ie_height e \<noteq> word_of_nat (length es)
      then Inl (RuntimeError ''Block index is not contiguous'')
      else Inr (es @ [e]))"

lemma index_updates:
  "(\<And>i. i < length ys \<Longrightarrow> ie_height (ys ! i) = word_of_nat (length xs + i) \<and>
      unat (ie_payload_size (ys ! i)) \<le> MAX_BLOCK_RECORD_SIZE) \<Longrightarrow>
     foldE index_update ys xs = Inr (xs @ ys)"
proof (induction ys arbitrary: xs)
  case (Cons y ys)
  have "index_update y xs = Inr (xs @ [y])"
    using Cons.prems [of 0] by (simp add: index_update_def not_less)
  moreover have "foldE index_update ys (xs @ [y]) = Inr ((xs @ [y]) @ ys)"
    using Cons.prems [of "Suc _"] by (intro Cons.IH) simp
  ultimately show ?case by simp
qed simp

lemma index_round_trip: "index_ok es \<Longrightarrow> parse_index_text (make_index_text es) = Inr es"
proof -
  assume es: "index_ok es"
  then have g: "x \<in> set es \<Longrightarrow> index_entry_ok x" for x
    by (auto simp: index_ok_def list_all_iff)
  have "newline \<notin> set INDEX_MAGIC" by (simp add: INDEX_MAGIC_def)
  then have lines: "getlines (make_index_text es) = INDEX_MAGIC # map index_line es"
    using ixl.file_lines [of "[INDEX_MAGIC]" es] g by (simp add: make_index_text_def)
  have "foldE parse_index_step (map index_line es) [] = foldE index_update es []"
    using g by (intro ixl.fold_lines) (simp_all add: parse_index_step_def index_update_def)
  also have "\<dots> = Inr es"
    using es index_updates [of es "[]"] by (simp add: index_ok_def)
  finally show ?thesis
    using es by (simp add: parse_index_text_def lines index_ok_def)
qed

subsection \<open>Snapshot round trip\<close>

definition utxo_entry_ok :: "outpoint \<times> coin \<Rightarrow> bool" where
  "utxo_entry_ok e \<longleftrightarrow> plain (op_txid (fst e)) \<and> money_range (coin_value (snd e))"

interpretation uxl: line_format utxo_line parse_utxo_line utxo_entry_ok
proof
  fix e assume e: "utxo_entry_ok e"
  obtain p c where ec: "e = (p, c)" by (cases e)
  let ?fs = "[op_txid p, show_u32 (op_index p), show_int (coin_value c), show_u64 (coin_height c),
     if coin_coinbase c then ''1'' else ''0'', bytes_to_hex (to_script_pubkey (coin_output c))]"
  have p: "list_all plain ?fs"
    using e plain_lower_hex [OF bytes_to_hex_lower] by (simp add: utxo_entry_ok_def ec)
  show "newline \<notin> set (utxo_line e) \<and> utxo_line e \<noteq> []"
    using join_newline [OF p] by (simp add: utxo_line_def ec)
  have "parse_integer_i64 (show_int (coin_value c)) ''UTXO value'' = Inr (coin_value c)"
    using e by (intro parse_show_i64 money_int64) (simp add: utxo_entry_ok_def ec)
  then show "parse_utxo_line (utxo_line e) = Inr e"
    using split_plain [OF p] e by (simp add: utxo_line_def parse_utxo_line_def Let_def ec utxo_entry_ok_def)
qed

definition utxo_update :: "outpoint \<times> coin \<Rightarrow> utxo_set \<Rightarrow> utxo_set res" where
  "utxo_update e utxos =
     (if map_contains utxos (fst e) then Inl (RuntimeError ''Duplicate UTXO snapshot outpoint'')
      else Inr (map_emplace (fst e) (snd e) utxos))"

lemma emplace_last: "(\<And>k'. k' \<in> fst ` set m \<Longrightarrow> k' < k) \<Longrightarrow> map_emplace k v m = m @ [(k, v)]"
proof (induction m)
  case (Cons e m)
  obtain a b where e: "e = (a, b)" by (cases e)
  have "a < k" using Cons.prems [of a] by (simp add: e)
  then have "\<not> k < a" "k \<noteq> a" by auto
  with Cons show ?case by (simp add: e)
qed simp

lemma utxo_updates:
  "sorted_keys (xs @ ys) \<Longrightarrow> foldE utxo_update ys xs = Inr (xs @ ys)"
proof (induction ys arbitrary: xs)
  case (Cons y ys)
  obtain k v where y: "y = (k, v)" by (cases y)
  have less: "k' \<in> fst ` set xs \<Longrightarrow> k' < k" for k'
    using Cons.prems by (auto simp: y sorted_keys_def sorted_wrt_append)
  then have "map_of xs k = None"
    by (auto simp: map_of_eq_None_iff)
  then have "utxo_update y xs = Inr (xs @ [y])"
    using less by (simp add: utxo_update_def y map_contains_def emplace_last)
  moreover have "foldE utxo_update ys (xs @ [y]) = Inr ((xs @ [y]) @ ys)"
    using Cons.prems by (intro Cons.IH) simp
  ultimately show ?case by simp
qed simp

lemma starts_with_append [simp]: "starts_with (p @ s) p"
  by (simp add: starts_with_def)

lemma utxo_round_trip:
  assumes "sorted_keys u" "list_all utxo_entry_ok u" "plain b"
  shows "parse_utxo_text (make_utxo_text u h b) h b = Inr u"
proof -
  have g: "x \<in> set u \<Longrightarrow> utxo_entry_ok x" for x
    using assms(2) by (auto simp: list_all_iff)
  let ?hs = "[UTXO_MAGIC, ''height='' @ show_u64 h, ''bestblock='' @ b]"
  have "newline \<notin> set l" if "l \<in> set ?hs" for l
    using that assms(3) plain_show(1) [of h] by (auto simp: UTXO_MAGIC_def plain_def)
  then have lines: "getlines (make_utxo_text u h b) = ?hs @ map utxo_line u"
    using uxl.file_lines [of ?hs u] g by (simp add: make_utxo_text_def)
  have "foldE parse_utxo_step (map utxo_line u) [] = foldE utxo_update u []"
    using g by (intro uxl.fold_lines) (auto simp: parse_utxo_step_def utxo_update_def case_prod_beta')
  also have "\<dots> = Inr u"
    using utxo_updates [of "[]" u] assms(1) by simp
  finally show ?thesis
    by (simp add: parse_utxo_text_def lines Let_def starts_with_def)
qed

subsection \<open>Manifest round trip\<close>

definition manifest_ok :: "manifest \<Rightarrow> bool" where
  "manifest_ok m \<longleftrightarrow> newline \<notin> set (mf_bestblock m) \<and> newline \<notin> set (mf_index_file m) \<and>
     newline \<notin> set (mf_index_sha256 m) \<and> newline \<notin> set (mf_utxo_file m) \<and>
     newline \<notin> set (mf_utxo_sha256 m)"

lemma manifest_round_trip: "manifest_ok m \<Longrightarrow> parse_manifest_text (make_manifest_text m) = Inr m"
proof -
  assume m: "manifest_ok m"
  have u: "newline \<notin> set (show_u64 w)" for w
    using plain_show(1) [of w] by (simp add: plain_def)
  have "getlines (make_manifest_text m) =
     [MANIFEST_MAGIC,
      ''generation='' @ show_u64 (mf_generation m),
      ''height='' @ show_u64 (mf_height m),
      ''bestblock='' @ mf_bestblock m,
      ''index_file='' @ mf_index_file m,
      ''index_sha256='' @ mf_index_sha256 m,
      ''utxo_file='' @ mf_utxo_file m,
      ''utxo_sha256='' @ mf_utxo_sha256 m,
      ''block_file_size='' @ show_u64 (mf_block_file_size m)]"
    unfolding make_manifest_text_def
    by (rule getlines_unlines) (use m u in \<open>auto simp: MANIFEST_MAGIC_def manifest_ok_def\<close>)
  then show ?thesis
    by (simp add: parse_manifest_text_def Let_def manifest_field_def manifest_get_def
        less_char_def)
qed

end
