(* ===== verification/Disk.thy ===== *)
theory Disk
  imports StdMap Text
begin

section \<open>Files and failing system calls\<close>

text \<open>
  The part of the file system the stores use: files by path, and an oracle \<open>dk_io\<close> with the
  outcome of every coming write, sync, open-for-write, rename and directory call. An exhausted
  oracle means that everything else succeeds, so the program without failures is the special
  case of the empty oracle, and a failure at any point is one of its values. Reading returns what
  the file holds.

  \<open>write_all\<close> is the chunk loop of \<^verbatim>\<open>storage.cpp\<close> with partial writes and interruptions;
  \<open>atomic_write\<close> is the write-to-temporary, sync, rename sequence. The lemmas show that
  \<open>write_all\<close> appends a prefix and everything when it returns, and that \<open>atomic_write\<close> changes
  its target to the whole new content or not at all, whatever fails.
\<close>

datatype io_result = Done | Short nat | Interrupted | Failed string

record disk =
  dk_files :: "(string \<times> bytes) list"
  dk_io :: "io_result list"

definition file_exists :: "disk \<Rightarrow> string \<Rightarrow> bool" where
  "file_exists d path \<longleftrightarrow> map_of (dk_files d) path \<noteq> None"

definition file_content :: "disk \<Rightarrow> string \<Rightarrow> bytes" where
  "file_content d path = (case map_of (dk_files d) path of None \<Rightarrow> [] | Some c \<Rightarrow> c)"

definition file_size_or_zero :: "disk \<Rightarrow> string \<Rightarrow> nat" where
  "file_size_or_zero d path = length (file_content d path)"

definition read_file_bytes :: "disk \<Rightarrow> string \<Rightarrow> bytes res" where
  "read_file_bytes d path =
     (case map_of (dk_files d) path of
        None \<Rightarrow> Inl (RuntimeError (''Unable to open chainstate file: '' @ path))
      | Some c \<Rightarrow> Inr c)"

definition put_file :: "string \<Rightarrow> bytes \<Rightarrow> disk \<Rightarrow> disk" where
  "put_file path c d = d \<lparr> dk_files := map_put path c (dk_files d) \<rparr>"

definition remove_file :: "string \<Rightarrow> disk \<Rightarrow> disk" where
  "remove_file path d = d \<lparr> dk_files := map_erase path (dk_files d) \<rparr>"

text \<open>One system call that either happens or reports an error.\<close>

text \<open>\<^verbatim>\<open>operator/\<close> of a path.\<close>

definition path_join :: "string \<Rightarrow> string \<Rightarrow> string" where
  "path_join directory name =
     (if directory = [] \<or> last directory = CHR ''/'' then directory @ name else directory @ ''/'' @ name)"

definition throw_system_error :: "string \<Rightarrow> string \<Rightarrow> exn" where
  "throw_system_error action reason = RuntimeError (action @ '': '' @ reason)"

definition io_call :: "string \<Rightarrow> (disk, unit) sx" where
  "io_call action d =
     (case dk_io d of
        [] \<Rightarrow> (Inr (), d)
      | r # rest \<Rightarrow>
          ((case r of
              Done \<Rightarrow> Inr () | Short _ \<Rightarrow> Inr ()
            | Interrupted \<Rightarrow> Inl (throw_system_error action ''Interrupted system call'')
            | Failed e \<Rightarrow> Inl (throw_system_error action e)),
           d \<lparr> dk_io := rest \<rparr>))"

fun write_chunks :: "io_result list \<Rightarrow> bytes \<Rightarrow> bytes \<Rightarrow> unit res \<times> bytes \<times> io_result list" where
  "write_chunks os [] written = (Inr (), written, os)"
| "write_chunks [] (b # bs) written = (Inr (), written @ b # bs, [])"
| "write_chunks (Done # os) (b # bs) written = (Inr (), written @ b # bs, os)"
| "write_chunks (Short n # os) (b # bs) written =
     (if n = 0 then (Inl (RuntimeError ''Short write while storing chainstate''), written, os)
      else write_chunks os (drop n (b # bs)) (written @ take n (b # bs)))"
| "write_chunks (Interrupted # os) (b # bs) written = write_chunks os (b # bs) written"
| "write_chunks (Failed e # os) (b # bs) written =
     (Inl (throw_system_error ''Unable to write durable chainstate file'' e), written, os)"

definition write_all :: "string \<Rightarrow> bytes \<Rightarrow> (disk, unit) sx" where
  "write_all path bs d =
     (case write_chunks (dk_io d) bs [] of
        (r, written, os) \<Rightarrow>
          (r, put_file path (file_content d path @ written) (d \<lparr> dk_io := os \<rparr>)))"

definition fsync_directory :: "(disk, unit) sx" where
  "fsync_directory =
     bindS (io_call ''Unable to open directory for fsync'') (\<lambda>_. io_call ''Unable to fsync directory'')"

text \<open>The error code of the rename is overwritten by that of removing the temporary, which is success.\<close>

definition replace_file_atomically :: "string \<Rightarrow> string \<Rightarrow> (disk, unit) sx" where
  "replace_file_atomically source destination =
     bindS (tryS (io_call ''Unable to atomically replace file'')
              (\<lambda>_. bindS (modifyS (remove_file source)) (\<lambda>_.
                throwS (throw_system_error ''Unable to atomically replace file'' ''Success'')))) (\<lambda>_.
       modifyS (\<lambda>d. remove_file source (put_file destination (file_content d source) d)))"

definition atomic_write :: "string \<Rightarrow> bytes \<Rightarrow> (disk, unit) sx" where
  "atomic_write path bs =
     (let temporary = path @ ''.tmp'' in
      bindS (io_call ''create_directories'') (\<lambda>_.
      bindS (io_call ''Unable to create temporary chainstate file'') (\<lambda>_.
      bindS (modifyS (put_file temporary [])) (\<lambda>_.
      bindS (tryS
          (bindS (write_all temporary bs) (\<lambda>_.
           bindS (io_call ''Unable to sync temporary chainstate file'') (\<lambda>_.
           io_call ''Unable to close temporary chainstate file'')))
          (\<lambda>e. bindS (modifyS (remove_file temporary)) (\<lambda>_. throwS e))) (\<lambda>_.
      bindS (replace_file_atomically temporary path) (\<lambda>_.
      fsync_directory))))))"

subsection \<open>Whatever fails\<close>

lemma write_chunks_prefix:
  "write_chunks os bs w = (r, w', os') \<Longrightarrow>
     \<exists>n. w' = w @ take n bs \<and> (r = Inr () \<longrightarrow> w' = w @ bs)"
proof (induction os bs w rule: write_chunks.induct)
  case (4 n os b bs w)
  show ?case
  proof (cases "n = 0")
    case True
    with 4(2) show ?thesis by (intro exI [of _ 0]) auto
  next
    case False
    with 4(2) have "write_chunks os (drop n (b # bs)) (w @ take n (b # bs)) = (r, w', os')" by simp
    from 4(1) [OF False this] obtain k where
      k: "w' = (w @ take n (b # bs)) @ take k (drop n (b # bs))"
        "r = Inr () \<longrightarrow> w' = (w @ take n (b # bs)) @ drop n (b # bs)" by blast
    have "take n (b # bs) @ take k (drop n (b # bs)) = take (n + k) (b # bs)"
      by (rule take_add [symmetric])
    with k show ?thesis
      by (intro exI [of _ "n + k"]) simp
  qed
next
  case (2 b bs w)
  then show ?case by (intro exI [of _ "length (b # bs)"]) auto
next
  case (3 os b bs w)
  then show ?case by (intro exI [of _ "length (b # bs)"]) auto
next
  case (6 e os b bs w)
  then show ?case by (intro exI [of _ 0]) auto
qed auto

text \<open>\<open>has M\<close>: the disk holds the files \<open>M\<close>.\<close>

definition disk_ok :: "disk \<Rightarrow> bool" where
  "disk_ok d \<longleftrightarrow> sorted_keys (dk_files d)"

definition has :: "(string \<Rightarrow> bytes option) \<Rightarrow> disk \<Rightarrow> bool" where
  "has M d \<longleftrightarrow> disk_ok d \<and> map_of (dk_files d) = M"

lemma io_call_files: "io_call a d = (r, d') \<Longrightarrow> dk_files d' = dk_files d"
  by (auto simp: io_call_def split: list.splits)

lemma io_call_triple: "triple (has M) (io_call a) (\<lambda>_. has M) (has M)"
  by (rule tripleI) (auto simp: has_def disk_ok_def dest!: io_call_files)

lemma has_put: "has M d \<Longrightarrow> has (M(p \<mapsto> c)) (put_file p c d)"
  by (simp add: has_def disk_ok_def put_file_def map_of_put)

lemma has_remove: "has M d \<Longrightarrow> has (M(p := None)) (remove_file p d)"
  by (simp add: has_def disk_ok_def remove_file_def)

lemma put_triple: "triple (has M) (modifyS (put_file p c)) (\<lambda>_. has (M(p \<mapsto> c))) E"
  by (rule triple_modify) (rule has_put)

lemma remove_triple: "triple (has M) (modifyS (remove_file p)) (\<lambda>_. has (M(p := None))) E"
  by (rule triple_modify) (rule has_remove)

text \<open>\<open>write_all\<close> appends a prefix of the bytes, all of them when it returns.\<close>

definition content_of :: "(string \<Rightarrow> bytes option) \<Rightarrow> string \<Rightarrow> bytes" where
  "content_of M p = (case M p of None \<Rightarrow> [] | Some c \<Rightarrow> c)"

lemma has_content: "has M d \<Longrightarrow> file_content d p = content_of M p"
  by (auto simp: has_def file_content_def content_of_def)

lemma write_all_triple:
  "triple (has M) (write_all p bs) (\<lambda>_. has (M(p \<mapsto> content_of M p @ bs)))
     (\<lambda>d. \<exists>n. has (M(p \<mapsto> content_of M p @ take n bs)) d)"
proof -
  let ?c = "content_of M p"
  have "\<exists>n. has (M(p \<mapsto> ?c @ take n bs)) d' \<and> (r = Inr () \<longrightarrow> has (M(p \<mapsto> ?c @ bs)) d')"
    if d: "has M d" and w: "write_all p bs d = (r, d')" for d r d'
  proof -
    obtain w os where wc: "write_chunks (dk_io d) bs [] = (r, w, os)"
      and d': "d' = put_file p (file_content d p @ w) (d \<lparr> dk_io := os \<rparr>)"
      using w by (auto simp: write_all_def split: prod.splits)
    obtain n where n: "w = take n bs" "r = Inr () \<longrightarrow> w = bs"
      using write_chunks_prefix [OF wc] by (metis append_Nil)
    have "has M (d \<lparr> dk_io := os \<rparr>)" "file_content d p = ?c"
      using d by (simp_all add: has_content) (simp add: has_def disk_ok_def)
    then have "has (M(p \<mapsto> ?c @ w)) d'"
      by (simp add: d' has_put)
    with n show ?thesis by metis
  qed
  then show ?thesis
    by (intro tripleI) (auto simp: unit_eq dest: sym)
qed

text \<open>The target of \<open>atomic_write\<close> keeps its content or takes all of the new one, and the only
  other file touched is its temporary.\<close>

definition atomic_outcome :: "(string \<Rightarrow> bytes option) \<Rightarrow> string \<Rightarrow> bytes \<Rightarrow> disk \<Rightarrow> bool" where
  "atomic_outcome M p bs d \<longleftrightarrow>
     (\<exists>x. has (M(p @ ''.tmp'' := x)) d \<or> has (M(p \<mapsto> bs, p @ ''.tmp'' := None)) d)"

lemma tmp_neq [simp]: "p @ ''.tmp'' \<noteq> p" "p \<noteq> p @ ''.tmp''"
  by simp_all

lemma replace_triple:
  assumes "M s = Some c" "s \<noteq> t"
  shows "triple (has M) (replace_file_atomically s t)
    (\<lambda>_. has (M(t \<mapsto> c, s := None))) (has (M(s := None)))"
  unfolding replace_file_atomically_def
proof (rule triple_bind)
  show "triple (has M) (tryS (io_call ''Unable to atomically replace file'')
      (\<lambda>_. bindS (modifyS (remove_file s)) (\<lambda>_.
        throwS (throw_system_error ''Unable to atomically replace file'' ''Success''))))
      (\<lambda>_. has M) (has (M(s := None)))"
    by (intro triple_try [OF io_call_triple] triple_bind [OF remove_triple] triple_throw)
  show "triple (has M) (modifyS (\<lambda>d. remove_file s (put_file t (file_content d s) d)))
      (\<lambda>_. has (M(t \<mapsto> c, s := None))) (has (M(s := None)))"
  proof (rule triple_modify)
    fix d assume d: "has M d"
    then have "file_content d s = c"
      using assms(1) by (auto simp: has_def file_content_def)
    then show "has (M(t \<mapsto> c, s := None)) (remove_file s (put_file t (file_content d s) d))"
      using has_remove [OF has_put [OF d]] by simp
  qed
qed

lemma atomic_write_triple:
  "triple (has M) (atomic_write p bs) (\<lambda>_. has (M(p \<mapsto> bs, p @ ''.tmp'' := None))) (atomic_outcome M p bs)"
proof -
  let ?t = "p @ ''.tmp''"
  have e1: "has M d \<Longrightarrow> atomic_outcome M p bs d" for d
    unfolding atomic_outcome_def by (intro exI [of _ "M ?t"]) simp
  have io: "triple (has M) (io_call a) (\<lambda>_. has M) (atomic_outcome M p bs)" for a
    by (rule triple_conseq [OF io_call_triple]) (auto intro: e1)
  have w: "triple (has (M(?t \<mapsto> []))) (write_all ?t bs) (\<lambda>_. has (M(?t \<mapsto> bs)))
      (\<lambda>d. \<exists>x. has (M(?t := x)) d)"
    by (rule triple_conseq [OF write_all_triple]) (auto simp: content_of_def)
  have sync: "triple (has (M(?t \<mapsto> bs))) (io_call a) (\<lambda>_. has (M(?t \<mapsto> bs))) (\<lambda>d. \<exists>x. has (M(?t := x)) d)" for a
    by (rule triple_conseq [OF io_call_triple]) auto
  have handler: "triple (\<lambda>d. \<exists>x. has (M(?t := x)) d) (bindS (modifyS (remove_file ?t)) (\<lambda>_. throwS e))
      (\<lambda>_. has (M(?t \<mapsto> bs))) (atomic_outcome M p bs)" for e
    by (intro triple_ex triple_bind [OF remove_triple] triple_throw)
       (auto simp: atomic_outcome_def)
  have r: "triple (has (M(?t \<mapsto> bs))) (replace_file_atomically ?t p)
      (\<lambda>_. has (M(p \<mapsto> bs, ?t := None))) (atomic_outcome M p bs)"
    by (rule triple_conseq [OF replace_triple [where M = "M(?t \<mapsto> bs)" and s = ?t and c = bs and t = p]])
       (auto simp: atomic_outcome_def fun_upd_twist)
  have f: "triple (has (M(p \<mapsto> bs, ?t := None))) (io_call a) (\<lambda>_. has (M(p \<mapsto> bs, ?t := None)))
      (atomic_outcome M p bs)" for a
    by (rule triple_conseq [OF io_call_triple]) (auto simp: atomic_outcome_def)
  show ?thesis
    unfolding atomic_write_def Let_def fsync_directory_def
    by (intro triple_bind [OF io] triple_bind [OF put_triple]
        triple_bind [OF triple_try [OF triple_bind [OF w triple_bind [OF sync sync]] handler]]
        triple_bind [OF r] triple_bind [OF f f])
qed

end
