(* ===== verification/Storage.thy ===== *)
theory Storage
  imports StoreText Disk
begin

section \<open>The durable chain store (storage.hpp, storage.cpp)\<close>

text \<open>
  The append-only block file, the generation files and the manifest that commits them. The
  store is a disk with the statistics the object keeps; paths are the names under the data
  directory. Every write, sync, rename and directory call takes its outcome from the disk's
  oracle. The descriptor of the block file is its path, the chain-state lock is one more call.
\<close>

record chain_storage_stats =
  cs_generation :: u64
  cs_active_height :: u64
  cs_block_records :: nat
  cs_block_file_bytes :: nat
  cs_recovered :: bool
  cs_migrated_legacy :: bool

record store =
  st_disk :: disk
  st_stats :: chain_storage_stats

definition blocks_path :: string where "blocks_path = ''blocks/blk00000.dat''"

definition manifest_path :: string where "manifest_path = ''chainstate/manifest-v1''"

definition chainstate_file :: "string \<Rightarrow> string" where
  "chainstate_file name = ''chainstate/'' @ name"

definition on_disk :: "(disk, 'a) sx \<Rightarrow> (store, 'a) sx" where
  "on_disk m s = (case m (st_disk s) of (r, d) \<Rightarrow> (r, s \<lparr> st_disk := d \<rparr>))"

definition on_stats :: "(chain_storage_stats \<Rightarrow> chain_storage_stats) \<Rightarrow> (store, unit) sx" where
  "on_stats f = modifyS (\<lambda>s. s \<lparr> st_stats := f (st_stats s) \<rparr>)"

subsection \<open>Records\<close>

definition sha256_hex :: "crypto \<Rightarrow> bytes \<Rightarrow> string res" where
  "sha256_hex C bs = bindE (sha256 C bs) (\<lambda>d. Inr (bytes_to_hex d))"

text \<open>\<open>pread_all\<close>: exactly \<open>count\<close> bytes at an offset of the file, or an exception.\<close>

definition pread_all :: "bytes \<Rightarrow> nat \<Rightarrow> nat \<Rightarrow> bytes res" where
  "pread_all content offset count =
     (if count = 0 then Inr []
      else if offset + count > length content then Inl (RuntimeError ''Truncated block record'')
      else Inr (take count (drop offset content)))"

definition read_record_at :: "crypto \<Rightarrow> bytes \<Rightarrow> nat \<Rightarrow> u64 option \<Rightarrow> stored_block res" where
  "read_record_at C content offset expected_payload_size =
     bindE (pread_all content offset BLOCK_RECORD_HEADER_SIZE) (\<lambda>header.
     if take 4 header \<noteq> BLOCK_RECORD_MAGIC
     then Inl (RuntimeError ''Invalid block-record magic'')
     else bindE (read_u32_le header 4) (\<lambda>(version, header_offset).
     if version \<noteq> BLOCK_RECORD_VERSION
     then Inl (RuntimeError ''Unsupported block-record version'')
     else bindE (read_u64_le header header_offset) (\<lambda>(payload_size, header_offset).
     if unat payload_size > MAX_BLOCK_RECORD_SIZE
     then Inl (RuntimeError ''Block-record payload exceeds limit'')
     else if expected_payload_size \<noteq> None \<and> expected_payload_size \<noteq> Some payload_size
     then Inl (RuntimeError ''Block-index payload size mismatch'')
     else bindE (read_bytes 32 header header_offset) (\<lambda>(checksum, _).
     bindE (pread_all content (offset + BLOCK_RECORD_HEADER_SIZE) (unat payload_size)) (\<lambda>payload.
     bindE (sha256d C payload) (\<lambda>digest.
     if digest \<noteq> checksum then Inl (RuntimeError ''Block-record checksum mismatch'')
     else deserialize_stored_block payload))))))"

definition load_indexed_entry ::
  "crypto \<Rightarrow> bytes \<Rightarrow> index_entry \<Rightarrow> stored_block res" where
  "load_indexed_entry C content entry =
     bindE (read_record_at C content (unat (ie_offset entry)) (Some (ie_payload_size entry))) (\<lambda>block.
     if sb_height block \<noteq> ie_height entry
     then Inl (RuntimeError ''Block index points to the wrong block record'')
     else bindE (hash_hex C (b_header (sb_block block))) (\<lambda>h.
       if h \<noteq> ie_hash entry
       then Inl (RuntimeError ''Block index points to the wrong block record'')
       else Inr block))"

definition load_indexed_chain :: "crypto \<Rightarrow> disk \<Rightarrow> index_entry list \<Rightarrow> stored_block list res" where
  "load_indexed_chain C d entries =
     (if \<not> file_exists d blocks_path
      then Inl (throw_system_error ''Unable to open block data file'' ''No such file or directory'')
      else mapE (load_indexed_entry C (file_content d blocks_path)) entries)"

text \<open>One round of the catalogue scan at \<open>offset\<close>: the size of the record there, if its frame is
  complete and well formed. The scan stops at the first frame that is not.\<close>

definition record_frame :: "bytes \<Rightarrow> nat \<Rightarrow> u64 option" where
  "record_frame content offset =
     (if length content - offset < BLOCK_RECORD_HEADER_SIZE then None
      else let header = take BLOCK_RECORD_HEADER_SIZE (drop offset content) in
        if take 4 header \<noteq> BLOCK_RECORD_MAGIC then None
        else case read_u32_le header 4 of
          Inl _ \<Rightarrow> None
        | Inr (version, header_offset) \<Rightarrow>
            if version \<noteq> BLOCK_RECORD_VERSION then None
            else case read_u64_le header header_offset of
              Inl _ \<Rightarrow> None
            | Inr (payload_size, _) \<Rightarrow>
                if unat payload_size > MAX_BLOCK_RECORD_SIZE \<or>
                   BLOCK_RECORD_HEADER_SIZE + unat payload_size > length content - offset
                then None else Some payload_size)"

definition catalog_entry ::
  "crypto \<Rightarrow> bytes \<Rightarrow> nat \<Rightarrow> u64 \<Rightarrow> (string \<times> index_entry) list \<Rightarrow> (string \<times> index_entry) list" where
  "catalog_entry C content offset payload_size catalog =
     (case bindE (read_record_at C content offset (Some payload_size)) (\<lambda>block.
             bindE (hash_hex C (b_header (sb_block block))) (\<lambda>h. Inr (h, sb_height block))) of
        Inl _ \<Rightarrow> catalog
      | Inr (h, height) \<Rightarrow>
          map_emplace h \<lparr> ie_height = height, ie_offset = word_of_nat offset,
                          ie_payload_size = payload_size, ie_hash = h \<rparr> catalog)"

function scan_from ::
  "crypto \<Rightarrow> bytes \<Rightarrow> nat \<Rightarrow> (string \<times> index_entry) list \<Rightarrow> (string \<times> index_entry) list" where
  "scan_from C content offset catalog =
     (if offset \<ge> length content then catalog
      else case record_frame content offset of
        None \<Rightarrow> catalog
      | Some payload_size \<Rightarrow>
          scan_from C content (offset + BLOCK_RECORD_HEADER_SIZE + unat payload_size)
            (catalog_entry C content offset payload_size catalog))"
  by pat_completeness auto

termination
  by (relation "measure (\<lambda>(C, content, offset, catalog). length content - offset)")
     (auto simp: BLOCK_RECORD_HEADER_SIZE_def)

declare scan_from.simps [simp del]

definition scan_catalog :: "crypto \<Rightarrow> disk \<Rightarrow> (string \<times> index_entry) list" where
  "scan_catalog C d =
     (if \<not> file_exists d blocks_path then []
      else scan_from C (file_content d blocks_path) 0 [])"

subsection \<open>Generations\<close>

definition chainstate_prefix :: string where "chainstate_prefix = ''chainstate/''"

definition available_generations :: "disk \<Rightarrow> u64 list" where
  "available_generations d =
     (let names = map (drop (length chainstate_prefix))
            (filter (\<lambda>p. starts_with p chainstate_prefix) (map fst (dk_files d)));
          generations = List.map_filter generation_from_index_filename names;
          complete = filter (\<lambda>g. file_exists d (chainstate_file (generation_name ''utxo-v1-'' g))) generations
      in rev (remdups_adj (sort complete)))"

definition cleanup_old_generations :: "u64 \<Rightarrow> disk \<Rightarrow> disk" where
  "cleanup_old_generations current d =
     foldl (\<lambda>d generation.
        if generation = current \<or> (current > 0 \<and> generation + 1 = current) then d
        else remove_file (chainstate_file (generation_name ''utxo-v1-'' generation))
               (remove_file (chainstate_file (generation_name ''block-index-v1-'' generation)) d))
       d (available_generations d)"

definition catalog_index_entry ::
  "crypto \<Rightarrow> (string \<times> index_entry) list \<Rightarrow> stored_block \<Rightarrow> index_entry res" where
  "catalog_index_entry C catalog block =
     bindE (hash_hex C (b_header (sb_block block))) (\<lambda>h.
       case map_of catalog h of
         None \<Rightarrow> Inl (RuntimeError ''Committed block is missing from append-only block store'')
       | Some e \<Rightarrow> Inr (e \<lparr> ie_height := sb_height block \<rparr>))"

definition manifest_for_generation ::
  "crypto \<Rightarrow> u64 \<Rightarrow> stored_block list \<Rightarrow> utxo_set \<Rightarrow> (disk, manifest) sx" where
  "manifest_for_generation C generation blocks utxos =
     (let index_file = generation_name ''block-index-v1-'' generation;
          utxo_file = generation_name ''utxo-v1-'' generation in
      bindS (getS (scan_catalog C)) (\<lambda>catalog.
      bindS (liftS (mapE (catalog_index_entry C catalog) blocks)) (\<lambda>entries.
      bindS (liftS (hash_hex C (b_header (sb_block (last blocks))))) (\<lambda>bestblock.
      let index_bytes = string_bytes (make_index_text entries);
          utxo_bytes = string_bytes (make_utxo_text utxos (sb_height (last blocks)) bestblock) in
      bindS (atomic_write (chainstate_file index_file) index_bytes) (\<lambda>_.
      bindS (atomic_write (chainstate_file utxo_file) utxo_bytes) (\<lambda>_.
      bindS (liftS (sha256_hex C index_bytes)) (\<lambda>index_sha256.
      bindS (liftS (sha256_hex C utxo_bytes)) (\<lambda>utxo_sha256.
      bindS (getS (\<lambda>d. file_size_or_zero d blocks_path)) (\<lambda>size.
        returnS \<lparr> mf_generation = generation, mf_height = sb_height (last blocks),
                  mf_bestblock = bestblock, mf_index_file = index_file, mf_index_sha256 = index_sha256,
                  mf_utxo_file = utxo_file, mf_utxo_sha256 = utxo_sha256,
                  mf_block_file_size = word_of_nat size \<rparr>)))))))))"

definition load_manifest_generation ::
  "crypto \<Rightarrow> disk \<Rightarrow> manifest \<Rightarrow> bool \<Rightarrow> (stored_block list \<times> utxo_set) res" where
  "load_manifest_generation C d m verify_hashes =
     bindE (read_file_bytes d (chainstate_file (mf_index_file m))) (\<lambda>index_bytes.
     bindE (read_file_bytes d (chainstate_file (mf_utxo_file m))) (\<lambda>utxo_bytes.
     bindE (if \<not> verify_hashes then Inr ()
            else bindE (sha256_hex C index_bytes) (\<lambda>i.
                 if i \<noteq> mf_index_sha256 m then Inl (RuntimeError ''Block-index checksum mismatch'')
                 else bindE (sha256_hex C utxo_bytes) (\<lambda>u.
                 if u \<noteq> mf_utxo_sha256 m then Inl (RuntimeError ''UTXO snapshot checksum mismatch'')
                 else Inr ()))) (\<lambda>_.
     bindE (parse_index_text (bytes_string index_bytes)) (\<lambda>entries.
     bindE (load_indexed_chain C d entries) (\<lambda>blocks.
     bindE (hash_hex C (b_header (sb_block (last blocks)))) (\<lambda>tip.
     if sb_height (last blocks) \<noteq> mf_height m \<or> tip \<noteq> mf_bestblock m
     then Inl (RuntimeError ''Chainstate manifest tip does not match block index'')
     else bindE (parse_utxo_text (bytes_string utxo_bytes) (mf_height m) (mf_bestblock m)) (\<lambda>utxos.
       Inr (blocks, utxos))))))))"

subsection \<open>The object's operations\<close>

definition store_exists :: "disk \<Rightarrow> bool" where
  "store_exists d \<longleftrightarrow> file_exists d manifest_path \<or>
     (available_generations d \<noteq> [] \<and> file_exists d blocks_path)"

definition read_manifest :: "disk \<Rightarrow> manifest res" where
  "read_manifest d =
     bindE (read_file_bytes d manifest_path) (\<lambda>bs. parse_manifest_text (bytes_string bs))"

definition note_loaded :: "crypto \<Rightarrow> u64 \<Rightarrow> u64 \<Rightarrow> (store, unit) sx" where
  "note_loaded C generation height = modifyS (\<lambda>s. s \<lparr> st_stats := (st_stats s)
     \<lparr> cs_generation := generation, cs_active_height := height,
       cs_block_file_bytes := file_size_or_zero (st_disk s) blocks_path,
       cs_block_records := length (scan_catalog C (st_disk s)) \<rparr> \<rparr>)"

definition load_committed :: "crypto \<Rightarrow> (store, stored_block list \<times> utxo_set) sx" where
  "load_committed C =
     bindS (getS (\<lambda>s. read_manifest (st_disk s))) (\<lambda>r.
     bindS (liftS r) (\<lambda>m.
     bindS (getS (\<lambda>s. load_manifest_generation C (st_disk s) m True)) (\<lambda>loaded.
     bindS (liftS loaded) (\<lambda>(blocks, utxos).
     bindS (note_loaded C (mf_generation m) (mf_height m)) (\<lambda>_.
       returnS (blocks, utxos))))))"

definition recover_generation :: "crypto \<Rightarrow> disk \<Rightarrow> u64 \<Rightarrow> stored_block list res" where
  "recover_generation C d generation =
     bindE (read_file_bytes d (chainstate_file (generation_name ''block-index-v1-'' generation))) (\<lambda>bs.
     bindE (parse_index_text (bytes_string bs)) (\<lambda>entries.
       load_indexed_chain C d entries))"

fun recover :: "crypto \<Rightarrow> u64 list \<Rightarrow> (store, stored_block list \<times> utxo_set) sx" where
  "recover C [] = throwS (RuntimeError
     ''No valid durable chainstate generation was found; run reindex'')"
| "recover C (generation # rest) =
     bindS (getS (\<lambda>s. bindE (recover_generation C (st_disk s) generation) (\<lambda>blocks.
              if blocks = [] then Inl (RuntimeError ''empty'')
              else bindE (hash_hex C (b_header (sb_block (last blocks)))) (\<lambda>_. Inr blocks)))) (\<lambda>r.
     case r of
       Inl _ \<Rightarrow> recover C rest
     | Inr blocks \<Rightarrow>
         bindS (note_loaded C generation (sb_height (last blocks))) (\<lambda>_. returnS (blocks, [])))"

definition store_load :: "crypto \<Rightarrow> (store, stored_block list \<times> utxo_set) sx" where
  "store_load C =
     bindS (on_disk (io_call ''create_directories'')) (\<lambda>_.
     bindS (on_disk (io_call ''create_directories'')) (\<lambda>_.
     bindS (on_disk (io_call ''Unable to lock chainstate'')) (\<lambda>_.
     bindS (on_stats (cs_recovered_update (\<lambda>_. False))) (\<lambda>_.
     bindS (getS (\<lambda>s. file_exists (st_disk s) manifest_path)) (\<lambda>present.
     bindS (if present
            then tryS (bindS (load_committed C) (\<lambda>r. returnS (Some r)))
                   (\<lambda>_. bindS (on_stats (cs_recovered_update (\<lambda>_. True))) (\<lambda>_. returnS None))
            else bindS (on_stats (cs_recovered_update (\<lambda>_. True))) (\<lambda>_. returnS None)) (\<lambda>found.
     case found of
       Some r \<Rightarrow> returnS r
     | None \<Rightarrow> bindS (getS (\<lambda>s. available_generations (st_disk s))) (recover C)))))))"

fun append_records ::
  "crypto \<Rightarrow> stored_block list \<Rightarrow> nat \<Rightarrow> (string \<times> index_entry) list \<Rightarrow> bool \<Rightarrow>
     (disk, (string \<times> index_entry) list \<times> bool) sx" where
  "append_records C [] offset catalog appended = returnS (catalog, appended)"
| "append_records C (block # blocks) offset catalog appended =
     bindS (liftS (hash_hex C (b_header (sb_block block)))) (\<lambda>h.
     if map_contains catalog h then append_records C blocks offset catalog appended
     else
       bindS (liftS (make_record_bytes C block)) (\<lambda>record.
       bindS (write_all blocks_path record) (\<lambda>_.
         append_records C blocks (offset + length record)
           (map_emplace h \<lparr> ie_height = sb_height block, ie_offset = word_of_nat offset,
              ie_payload_size = word_of_nat (length record - BLOCK_RECORD_HEADER_SIZE), ie_hash = h \<rparr> catalog)
           True)))"

text \<open>Opening the block file creates it when it is missing.\<close>

definition open_append :: "(disk, unit) sx" where
  "open_append =
     bindS (io_call ''Unable to open append-only block store'') (\<lambda>_.
       modifyS (\<lambda>d. if file_exists d blocks_path then d else put_file blocks_path [] d))"

definition append_blocks_file ::
  "crypto \<Rightarrow> stored_block list \<Rightarrow> (disk, (string \<times> index_entry) list) sx" where
  "append_blocks_file C blocks =
     bindS (getS (scan_catalog C)) (\<lambda>catalog.
     bindS open_append (\<lambda>_.
     bindS (io_call ''Unable to seek append-only block store'') (\<lambda>_.
     bindS (getS (\<lambda>d. file_size_or_zero d blocks_path)) (\<lambda>offset.
     bindS (append_records C blocks offset catalog False) (\<lambda>(catalog, appended).
     bindS (if appended then io_call ''Unable to fsync append-only block store'' else returnS ()) (\<lambda>_.
     bindS (io_call ''Unable to close append-only block store'') (\<lambda>_.
     bindS fsync_directory (\<lambda>_.
       returnS catalog))))))))"

definition next_generation :: "disk \<Rightarrow> u64" where
  "next_generation d =
     (let from_files = (case available_generations d of [] \<Rightarrow> 1 | g # _ \<Rightarrow> g + 1) in
      if \<not> file_exists d manifest_path then from_files
      else case read_manifest d of
        Inl _ \<Rightarrow> from_files
      | Inr m \<Rightarrow> mf_generation m + 1)"

definition store_commit :: "crypto \<Rightarrow> stored_block list \<Rightarrow> utxo_set \<Rightarrow> (store, unit) sx" where
  "store_commit C blocks utxos =
     (if blocks = [] then throwS (RuntimeError ''Cannot commit an empty active chain'')
      else
     bindS (on_disk (io_call ''create_directories'')) (\<lambda>_.
     bindS (on_disk (io_call ''create_directories'')) (\<lambda>_.
     bindS (on_disk (io_call ''Unable to lock chainstate'')) (\<lambda>_.
     bindS (on_disk (append_blocks_file C blocks)) (\<lambda>catalog.
     bindS (getS (\<lambda>s. next_generation (st_disk s))) (\<lambda>generation.
     bindS (on_disk (manifest_for_generation C generation blocks utxos)) (\<lambda>m.
     bindS (on_disk (atomic_write manifest_path (string_bytes (make_manifest_text m)))) (\<lambda>_.
     bindS (getS (\<lambda>s. cs_migrated_legacy (st_stats s))) (\<lambda>migrated.
     bindS (if migrated
            then on_disk (atomic_write (chainstate_file ''migrated-from-chain-v3'')
                   (string_bytes (''migrated from chain-v3.tsv'' @ [newline])))
            else returnS ()) (\<lambda>_.
     bindS (on_disk (modifyS (cleanup_old_generations generation))) (\<lambda>_.
     on_stats (\<lambda>st. st \<lparr> cs_generation := generation, cs_active_height := sb_height (last blocks),
       cs_block_file_bytes := unat (mf_block_file_size m), cs_block_records := length catalog \<rparr>))))))))))))"

definition scan_all_blocks :: "crypto \<Rightarrow> disk \<Rightarrow> stored_block list res" where
  "scan_all_blocks C d =
     mapE (\<lambda>(h, e). read_record_at C (file_content d blocks_path) (unat (ie_offset e)) (Some (ie_payload_size e)))
       (scan_catalog C d)"

definition store_stats :: "crypto \<Rightarrow> store \<Rightarrow> chain_storage_stats" where
  "store_stats C s = (st_stats s)
     \<lparr> cs_migrated_legacy := cs_migrated_legacy (st_stats s) \<or>
         file_exists (st_disk s) (chainstate_file ''migrated-from-chain-v3''),
       cs_block_file_bytes := file_size_or_zero (st_disk s) blocks_path,
       cs_block_records := length (scan_catalog C (st_disk s)) \<rparr>"

definition mark_migrated_legacy :: "store \<Rightarrow> store" where
  "mark_migrated_legacy s = s \<lparr> st_stats := (st_stats s) \<lparr> cs_migrated_legacy := True \<rparr> \<rparr>"

end
