(* ===== verification/StorageScan.thy ===== *)
theory StorageScan
  imports Storage
begin

section \<open>The block file under appending (storage.cpp)\<close>

text \<open>
  What the catalogue scan finds and how it behaves when bytes are appended: everything it finds
  reads back under its hash, appending never changes what reads back, a clean file scans on into
  the appended part, and a file with a mismatch at a frame boundary is scanned no further, whatever is
  appended.
\<close>

lemma pread_all_extend: "pread_all c off n = Inr b \<Longrightarrow> pread_all (c @ x) off n = Inr b"
  by (auto simp: pread_all_def split: if_splits)

lemma bindE_mono:
  "bindE m f = Inr y \<Longrightarrow> (\<And>x. m = Inr x \<Longrightarrow> m' = Inr x) \<Longrightarrow>
   (\<And>x. m = Inr x \<Longrightarrow> f x = Inr y \<Longrightarrow> f' x = Inr y) \<Longrightarrow> bindE m' f' = Inr y"
  by (cases m) auto

lemma if_Inl_mono:
  "(if a then Inl e else m) = Inr y \<Longrightarrow> (\<not> a \<Longrightarrow> m = Inr y \<Longrightarrow> m' = Inr y) \<Longrightarrow> (if a then Inl e else m') = Inr y"
  by (auto split: if_splits)

lemma read_record_extend:
  "read_record_at C c off p = Inr b \<Longrightarrow> read_record_at C (c @ x) off p = Inr b"
  unfolding read_record_at_def case_prod_unfold
  by (erule bindE_mono if_Inl_mono pread_all_extend | assumption)+

lemma load_entry_extend:
  "load_indexed_entry C c e = Inr b \<Longrightarrow> load_indexed_entry C (c @ x) e = Inr b"
  using read_record_extend [of C c _ _ _ x] by (auto simp: load_indexed_entry_def)

lemma load_entry_Inr:
  "load_indexed_entry C c e = Inr b \<longleftrightarrow>
     read_record_at C c (unat (ie_offset e)) (Some (ie_payload_size e)) = Inr b \<and>
     sb_height b = ie_height e \<and> hash_hex C (b_header (sb_block b)) = Inr (ie_hash e)"
  by (auto simp: load_indexed_entry_def)

lemma load_entries_extend:
  "mapE (load_indexed_entry C c) es = Inr bs \<Longrightarrow> mapE (load_indexed_entry C (c @ x)) es = Inr bs"
  by (auto simp: mapE_Inr_iff intro: load_entry_extend elim: list_all2_mono)

subsection \<open>Every catalogue entry reads back\<close>

definition entry_ok :: "crypto \<Rightarrow> bytes \<Rightarrow> string \<Rightarrow> index_entry \<Rightarrow> bool" where
  "entry_ok C c h e \<longleftrightarrow> ie_hash e = h \<and> (\<exists>b. load_indexed_entry C c e = Inr b)"

definition catalog_ok :: "crypto \<Rightarrow> bytes \<Rightarrow> (string \<times> index_entry) list \<Rightarrow> bool" where
  "catalog_ok C c m \<longleftrightarrow> sorted_keys m \<and> (\<forall>h e. map_of m h = Some e \<longrightarrow> entry_ok C c h e)"

lemma catalog_ok_emplace:
  "catalog_ok C c m \<Longrightarrow> entry_ok C c h e \<Longrightarrow> catalog_ok C c (map_emplace h e m)"
  by (auto simp: catalog_ok_def map_of_emplace split: if_splits)

lemma catalog_entry_ok:
  assumes "catalog_ok C c m" "length c < 2 ^ 64" "off \<le> length c"
  shows "catalog_ok C c (catalog_entry C c off p m)"
proof -
  have u: "unat (word_of_nat off :: u64) = off"
    using assms by (intro unat_of_size) simp
  show ?thesis
    using assms(1)
    by (auto simp: catalog_entry_def entry_ok_def load_entry_Inr u bindE_eq_Inl
        split: sum.splits intro!: catalog_ok_emplace)
qed

lemma record_frame_fits:
  "record_frame c off = Some p \<Longrightarrow> off + BLOCK_RECORD_HEADER_SIZE + unat p \<le> length c"
  by (auto simp: record_frame_def Let_def BLOCK_RECORD_HEADER_SIZE_def split: if_splits sum.splits prod.splits)

lemma scan_from_ok:
  "length c < 2 ^ 64 \<Longrightarrow> catalog_ok C c m \<Longrightarrow> catalog_ok C c (scan_from C c off m)"
proof (induction C c off m rule: scan_from.induct)
  case (1 C c off m)
  show ?case
  proof (cases "off \<ge> length c \<or> record_frame c off = None")
    case True
    with 1 show ?thesis by (subst scan_from.simps) auto
  next
    case False
    then obtain p where p: "record_frame c off = Some p" by blast
    have "catalog_ok C c (catalog_entry C c off p m)"
      using 1 record_frame_fits [OF p] by (intro catalog_entry_ok) auto
    with 1 False p show ?thesis by (subst scan_from.simps) auto
  qed
qed

lemma scan_catalog_ok:
  "file_size_or_zero d blocks_path < 2 ^ 64 \<Longrightarrow> catalog_ok C (file_content d blocks_path) (scan_catalog C d)"
  by (auto simp: scan_catalog_def file_size_or_zero_def intro!: scan_from_ok)
     (auto simp: catalog_ok_def)

subsection \<open>Scanning a file that grows\<close>

function scan_end :: "bytes \<Rightarrow> nat \<Rightarrow> nat" where
  "scan_end content offset =
     (if offset \<ge> length content then offset
      else case record_frame content offset of
        None \<Rightarrow> offset
      | Some payload_size \<Rightarrow> scan_end content (offset + BLOCK_RECORD_HEADER_SIZE + unat payload_size))"
  by pat_completeness auto

termination
  by (relation "measure (\<lambda>(content, offset). length content - offset)")
     (auto simp: BLOCK_RECORD_HEADER_SIZE_def)

declare scan_end.simps [simp del]

lemma record_frame_extend: "record_frame c off = Some p \<Longrightarrow> record_frame (c @ x) off = Some p"
  by (auto simp: record_frame_def Let_def BLOCK_RECORD_HEADER_SIZE_def
      split: if_splits sum.splits prod.splits)

lemma pread_all_same: "off + n \<le> length c \<Longrightarrow> pread_all (c @ x) off n = pread_all c off n"
  by (auto simp: pread_all_def)

lemma read_record_same:
  assumes "off + BLOCK_RECORD_HEADER_SIZE + unat p \<le> length c"
  shows "read_record_at C (c @ x) off (Some p) = read_record_at C c off (Some p)"
proof -
  have "pread_all (c @ x) off BLOCK_RECORD_HEADER_SIZE = pread_all c off BLOCK_RECORD_HEADER_SIZE"
    using assms by (intro pread_all_same) simp
  moreover have "pread_all (c @ x) (off + BLOCK_RECORD_HEADER_SIZE) (unat q) =
      pread_all c (off + BLOCK_RECORD_HEADER_SIZE) (unat q)" if "q = p" for q
    using assms that by (intro pread_all_same) simp
  ultimately show ?thesis
    unfolding read_record_at_def by (auto intro!: bindE_cong)
qed

lemma catalog_entry_extend:
  "record_frame c off = Some p \<Longrightarrow> catalog_entry C (c @ x) off p m = catalog_entry C c off p m"
  by (simp add: catalog_entry_def read_record_same record_frame_fits)

lemma scan_from_append:
  "scan_from C (c @ x) off m = scan_from C (c @ x) (scan_end c off) (scan_from C c off m)"
proof (induction C c off m rule: scan_from.induct)
  case (1 C c off m)
  show ?case
  proof (cases "off \<ge> length c \<or> record_frame c off = None")
    case True
    then show ?thesis by (auto simp: scan_from.simps [of C c] scan_end.simps [of c])
  next
    case False
    then obtain p where p: "record_frame c off = Some p" by blast
    let ?off = "off + BLOCK_RECORD_HEADER_SIZE + unat p"
    have "scan_from C (c @ x) off m = scan_from C (c @ x) ?off (catalog_entry C c off p m)"
      using False record_frame_extend [OF p] catalog_entry_extend [OF p]
      by (subst scan_from.simps) simp
    also have "\<dots> = scan_from C (c @ x) (scan_end c ?off) (scan_from C c ?off (catalog_entry C c off p m))"
      using 1 False p by simp
    also have "\<dots> = scan_from C (c @ x) (scan_end c off) (scan_from C c off m)"
      using False p by (simp add: scan_from.simps [of C c off] scan_end.simps [of c off])
    finally show ?thesis .
  qed
qed

subsection \<open>Frames\<close>

text \<open>The eight bytes every record starts with.\<close>

definition frame_start :: bytes where
  "frame_start = append_u32_le BLOCK_RECORD_MAGIC BLOCK_RECORD_VERSION"

lemma frame_start_eq: "frame_start = [0x42, 0x43, 0x52, 0x39, 1, 0, 0, 0]"
  by code_simp

definition mismatch :: "bytes \<Rightarrow> bool" where
  "mismatch rest \<longleftrightarrow> (\<exists>i < length rest. i < 8 \<and> rest ! i \<noteq> frame_start ! i)"

lemma mismatch_extend: "mismatch rest \<Longrightarrow> mismatch (rest @ x)"
  by (auto simp: mismatch_def nth_append)

lemma record_frame_start:
  assumes "record_frame c off = Some p"
  shows "take 8 (drop off c) = frame_start"
proof -
  let ?h = "take BLOCK_RECORD_HEADER_SIZE (drop off c)"
  have len: "length ?h = 48"
    using record_frame_fits [OF assms] by (simp add: BLOCK_RECORD_HEADER_SIZE_def)
  obtain o' where m: "take 4 ?h = BLOCK_RECORD_MAGIC"
    and r: "read_u32_le ?h 4 = Inr (BLOCK_RECORD_VERSION, o')"
    using assms by (auto simp: record_frame_def Let_def split: if_splits sum.splits prod.splits)
  have o': "o' = 8"
    using r by (auto simp: read_u32_le_def split: if_splits)
  have "4 \<le> length ?h" using len by simp
  from consumesD [OF u32c.dec_sound r this]
  have "take 4 (drop 4 ?h) = append_u32_le [] BLOCK_RECORD_VERSION"
    unfolding o' by simp
  then have "take 4 ?h @ take 4 (drop 4 ?h) = BLOCK_RECORD_MAGIC @ append_u32_le [] BLOCK_RECORD_VERSION"
    by (simp only: m)
  moreover have "take 4 ?h @ take 4 (drop 4 ?h) = take 8 ?h"
    using take_add [of 4 4 ?h] by simp
  moreover have "BLOCK_RECORD_MAGIC @ append_u32_le [] BLOCK_RECORD_VERSION = frame_start"
    by (simp add: frame_start_def append_u32_le_eq)
  ultimately have "take 8 ?h = frame_start" by (simp only:)
  then show ?thesis
    by (simp add: BLOCK_RECORD_HEADER_SIZE_def min_def)
qed

lemma mismatch_frame:
  assumes "mismatch (drop off c)" shows "record_frame c off = None"
proof (cases "record_frame c off")
  case (Some p)
  from assms obtain i where "i < length (drop off c)" "i < 8" "drop off c ! i \<noteq> frame_start ! i"
    by (auto simp: mismatch_def)
  with record_frame_start [OF Some] show ?thesis
    by (metis nth_take)
qed


text \<open>A complete record is framed and reads back, wherever it stands.\<close>

definition record_header :: "bytes \<Rightarrow> bytes \<Rightarrow> bytes" where
  "record_header payload checksum =
     frame_start @ append_u64_le [] (word_of_nat (length payload)) @ checksum"

lemma make_record_bytes_Inr:
  "make_record_bytes C b = Inr record \<longleftrightarrow>
     (\<exists>payload checksum. serialize_stored_block b = Inr payload \<and> length payload \<le> MAX_BLOCK_RECORD_SIZE \<and>
        sha256d C payload = Inr checksum \<and> record = record_header payload checksum @ payload)"
  by (auto simp: make_record_bytes_def Let_def record_header_def frame_start_def append_u64_le_eq)

lemma append_u32_le_length [simp]: "length (append_u32_le out v) = length out + 4"
  by (simp add: append_u32_le_eq)

lemma append_u64_le_length [simp]: "length (append_u64_le out v) = length out + 8"
  by (simp add: append_u64_le_eq)

lemma record_header_length: "length checksum = 32 \<Longrightarrow> length (record_header payload checksum) = BLOCK_RECORD_HEADER_SIZE"
  by (simp add: record_header_def frame_start_eq BLOCK_RECORD_HEADER_SIZE_def)

lemma record_header_fields:
  assumes "length checksum = 32"
  shows "take 4 (record_header p checksum) = BLOCK_RECORD_MAGIC"
    "read_u32_le (record_header p checksum) 4 = Inr (BLOCK_RECORD_VERSION, 8)"
    "read_u64_le (record_header p checksum) 8 = Inr (word_of_nat (length p), 16)"
    "read_bytes 32 (record_header p checksum) 16 = Inr (checksum, 48)"
proof -
  let ?n = "word_of_nat (length p) :: u64"
  have h: "record_header p checksum = BLOCK_RECORD_MAGIC @ append_u32_le [] BLOCK_RECORD_VERSION @
      append_u64_le [] ?n @ checksum"
    by (simp add: record_header_def frame_start_def append_u32_le_eq)
  have m: "length BLOCK_RECORD_MAGIC = 4" by (simp add: BLOCK_RECORD_MAGIC_def)
  show "take 4 (record_header p checksum) = BLOCK_RECORD_MAGIC"
    by (simp add: h m)
  show "read_u32_le (record_header p checksum) 4 = Inr (BLOCK_RECORD_VERSION, 8)"
    using readsD [OF u32c.dec_enc [OF TrueI], where x = BLOCK_RECORD_VERSION and pre = BLOCK_RECORD_MAGIC]
    by (simp add: h m)
  show "read_u64_le (record_header p checksum) 8 = Inr (?n, 16)"
    using readsD [OF u64c.dec_enc [OF TrueI], where x = ?n
      and pre = "BLOCK_RECORD_MAGIC @ append_u32_le [] BLOCK_RECORD_VERSION" and suf = checksum]
    by (simp add: h m)
  show "read_bytes 32 (record_header p checksum) 16 = Inr (checksum, 48)"
    using readsD [OF raw.dec_enc [OF assms], where suf = "[]"
      and pre = "BLOCK_RECORD_MAGIC @ append_u32_le [] BLOCK_RECORD_VERSION @ append_u64_le [] ?n"]
    using assms by (simp add: h m)
qed

lemma record_frame_record:
  assumes "length checksum = 32" "length payload \<le> MAX_BLOCK_RECORD_SIZE"
  shows "record_frame (pre @ record_header payload checksum @ payload @ suf) (length pre) =
    Some (word_of_nat (length payload))"
proof -
  have "unat (word_of_nat (length payload) :: u64) = length payload"
    using assms(2) by (intro unat_of_size) (simp add: MAX_BLOCK_RECORD_SIZE_def)
  then show ?thesis
    using assms by (simp add: record_frame_def record_header_length record_header_fields)
qed

lemma read_record_record:
  assumes C: "crypto_ok C" and ok: "stored_ok b" and r: "make_record_bytes C b = Inr record"
  shows "record_frame (pre @ record @ suf) (length pre) = Some (word_of_nat (length record - BLOCK_RECORD_HEADER_SIZE))"
    "read_record_at C (pre @ record @ suf) (length pre) (Some (word_of_nat (length record - BLOCK_RECORD_HEADER_SIZE))) = Inr b"
    "BLOCK_RECORD_HEADER_SIZE \<le> length record" "length record - BLOCK_RECORD_HEADER_SIZE \<le> MAX_BLOCK_RECORD_SIZE"
proof -
  obtain payload checksum where p: "serialize_stored_block b = Inr payload" "length payload \<le> MAX_BLOCK_RECORD_SIZE"
    "sha256d C payload = Inr checksum" "record = record_header payload checksum @ payload"
    using r by (auto simp: make_record_bytes_Inr)
  have c: "length checksum = 32" using p(3) C by (auto simp: sha256d_length)
  have u: "unat (word_of_nat (length payload) :: u64) = length payload"
    using p(2) by (intro unat_of_size) (simp add: MAX_BLOCK_RECORD_SIZE_def)
  have l: "length record - BLOCK_RECORD_HEADER_SIZE = length payload" "BLOCK_RECORD_HEADER_SIZE \<le> length record"
    by (simp_all add: p(4) record_header_length [OF c])
  show "BLOCK_RECORD_HEADER_SIZE \<le> length record" "length record - BLOCK_RECORD_HEADER_SIZE \<le> MAX_BLOCK_RECORD_SIZE"
    using l p(2) by simp_all
  show "record_frame (pre @ record @ suf) (length pre) = Some (word_of_nat (length record - BLOCK_RECORD_HEADER_SIZE))"
    using record_frame_record [OF c p(2), of pre suf] unfolding l(1) by (simp add: p(4))
  have "deserialize_stored_block payload = Inr b"
    using ok p(1) by (simp add: deserialize_stored_block_eq)
  then show "read_record_at C (pre @ record @ suf) (length pre) (Some (word_of_nat (length record - BLOCK_RECORD_HEADER_SIZE))) = Inr b"
    using p c u by (simp add: l read_record_at_def pread_all_def record_header_length [OF c] record_header_fields [OF c]
      BLOCK_RECORD_HEADER_SIZE_def) auto
qed

end
