(* ===== verification/StorageSafety.thy ===== *)
theory StorageSafety
  imports StorageScan
begin

section \<open>A failed commit never loses the committed chain (storage.cpp)\<close>

text \<open>
  The operations of the store as triples over the files. \<open>kept F M\<close>: the files named in \<open>F\<close> are as
  in \<open>M\<close> and the block file only grew. Appending and the two generation files keep everything the
  current manifest refers to, whatever fails; the manifest itself changes in one step.
\<close>

subsection \<open>File names\<close>

lemma generation_name_inj: "generation_name p g = generation_name p g' \<longleftrightarrow> g = g'"
proof
  assume "generation_name p g = generation_name p g'"
  then have "dec_value (pad_left 20 (CHR ''0'') (show_nat (unat g))) =
      dec_value (pad_left 20 (CHR ''0'') (show_nat (unat g')))"
    by (simp add: generation_name_def show_u64_def)
  then have "unat g = unat g'" by simp
  then show "g = g'" by (rule unsigned_word_eqI)
qed simp

lemma generation_name_head:
  "generation_name (CHR ''b'' # p) g \<noteq> generation_name (CHR ''u'' # q) g'"
  "generation_name (CHR ''u'' # q) g' \<noteq> generation_name (CHR ''b'' # p) g"
  by (simp_all add: generation_name_def)

lemma generation_name_tmp: "generation_name p g @ ''.tmp'' \<noteq> generation_name q g'"
proof
  assume "generation_name p g @ ''.tmp'' = generation_name q g'"
  then have "last (generation_name p g @ ''.tmp'') = last (generation_name q g')" by simp
  then show False by (simp add: generation_name_def)
qed

definition index_path :: "u64 \<Rightarrow> string" where
  "index_path g = chainstate_file (generation_name ''block-index-v1-'' g)"

definition utxo_path :: "u64 \<Rightarrow> string" where
  "utxo_path g = chainstate_file (generation_name ''utxo-v1-'' g)"

lemma path_inj [simp]:
  "index_path g = index_path g' \<longleftrightarrow> g = g'" "utxo_path g = utxo_path g' \<longleftrightarrow> g = g'"
  "index_path g \<noteq> utxo_path g'" "utxo_path g' \<noteq> index_path g"
  by (auto simp: index_path_def utxo_path_def chainstate_file_def generation_name_inj generation_name_head)

lemma path_tmp [simp]:
  "index_path g @ ''.tmp'' \<noteq> index_path g'" "index_path g @ ''.tmp'' \<noteq> utxo_path g'"
  "utxo_path g @ ''.tmp'' \<noteq> index_path g'" "utxo_path g @ ''.tmp'' \<noteq> utxo_path g'"
  "index_path g' \<noteq> index_path g @ ''.tmp''" "utxo_path g' \<noteq> index_path g @ ''.tmp''"
  "index_path g' \<noteq> utxo_path g @ ''.tmp''" "utxo_path g' \<noteq> utxo_path g @ ''.tmp''"
  using generation_name_tmp
  by (auto simp: index_path_def utxo_path_def chainstate_file_def) metis+

lemma path_fixed [simp]:
  "blocks_path \<noteq> index_path g" "index_path g \<noteq> blocks_path"
  "blocks_path \<noteq> utxo_path g" "utxo_path g \<noteq> blocks_path"
  "blocks_path \<noteq> index_path g @ ''.tmp''" "blocks_path \<noteq> utxo_path g @ ''.tmp''"
  "manifest_path \<noteq> index_path g" "index_path g \<noteq> manifest_path"
  "manifest_path \<noteq> utxo_path g" "utxo_path g \<noteq> manifest_path"
  "manifest_path \<noteq> index_path g @ ''.tmp''" "manifest_path \<noteq> utxo_path g @ ''.tmp''"
  "manifest_path @ ''.tmp'' \<noteq> index_path g" "manifest_path @ ''.tmp'' \<noteq> utxo_path g"
  "index_path g \<noteq> manifest_path @ ''.tmp''" "utxo_path g \<noteq> manifest_path @ ''.tmp''"
  "blocks_path \<noteq> manifest_path" "manifest_path \<noteq> blocks_path"
  "blocks_path \<noteq> manifest_path @ ''.tmp''"
  by (simp_all add: blocks_path_def manifest_path_def index_path_def utxo_path_def
      chainstate_file_def generation_name_def)

subsection \<open>Reading depends on the files only\<close>

definition scan_files :: "crypto \<Rightarrow> (string \<Rightarrow> bytes option) \<Rightarrow> (string \<times> index_entry) list" where
  "scan_files C M = (case M blocks_path of None \<Rightarrow> [] | Some c \<Rightarrow> scan_from C c 0 [])"

lemma has_scan: "has M d \<Longrightarrow> scan_catalog C d = scan_files C M"
  by (auto simp: has_def scan_catalog_def scan_files_def file_exists_def file_content_def split: option.splits)

lemma has_read: "has M d \<Longrightarrow>
    read_file_bytes d p = (case M p of None \<Rightarrow> Inl (RuntimeError (''Unable to open chainstate file: '' @ p)) | Some c \<Rightarrow> Inr c)"
  by (auto simp: has_def read_file_bytes_def)

lemma has_exists: "has M d \<Longrightarrow> file_exists d p \<longleftrightarrow> M p \<noteq> None"
  by (auto simp: has_def file_exists_def)

lemma has_size: "has M d \<Longrightarrow> file_size_or_zero d p = length (content_of M p)"
  by (simp add: file_size_or_zero_def has_content)

text \<open>What is loaded stays loadable while its three files are kept and the block file grows.\<close>

definition kept :: "string set \<Rightarrow> (string \<Rightarrow> bytes option) \<Rightarrow> (string \<Rightarrow> bytes option) \<Rightarrow> bool" where
  "kept F M M' \<longleftrightarrow> (\<forall>p \<in> F. M' p = M p) \<and> (\<exists>x. content_of M' blocks_path = content_of M blocks_path @ x) \<and>
     (M blocks_path \<noteq> None \<longrightarrow> M' blocks_path \<noteq> None)"

lemma kept_refl [simp]: "kept F M M"
  by (simp add: kept_def)

lemma kept_trans: "kept F M M' \<Longrightarrow> kept F M' M'' \<Longrightarrow> kept F M M''"
  by (auto simp: kept_def)

lemma kept_upd: "p \<notin> F \<Longrightarrow> p \<noteq> blocks_path \<Longrightarrow> kept F M M' \<Longrightarrow> kept F M (M'(p := x))"
  by (auto simp: kept_def content_of_def)

lemma load_kept:
  assumes d: "has M d" "has M' d'" and k: "kept {chainstate_file (mf_index_file m), chainstate_file (mf_utxo_file m)} M M'"
    and l: "load_manifest_generation C d m v = Inr r"
  shows "load_manifest_generation C d' m v = Inr r"
proof -
  have f: "read_file_bytes d' p = read_file_bytes d p"
    if "p = chainstate_file (mf_index_file m) \<or> p = chainstate_file (mf_utxo_file m)" for p
    using that k by (auto simp: has_read [OF d(1)] has_read [OF d(2)] kept_def)
  obtain x where x: "content_of M' blocks_path = content_of M blocks_path @ x"
    using k by (auto simp: kept_def)
  have i: "load_indexed_chain C d es = Inr bs \<Longrightarrow> load_indexed_chain C d' es = Inr bs" for es bs
    using k load_entries_extend [of C "content_of M blocks_path" es bs x]
    by (auto simp: load_indexed_chain_def has_exists [OF d(1)] has_exists [OF d(2)]
        has_content [OF d(1)] has_content [OF d(2)] x kept_def split: if_splits)
  show ?thesis
    using l unfolding load_manifest_generation_def
    by (erule_tac bindE_mono if_Inl_mono i | assumption | simp only: f simp_thms)+
qed

subsection \<open>Appending keeps everything\<close>

definition keeps :: "string set \<Rightarrow> (string \<Rightarrow> bytes option) \<Rightarrow> disk \<Rightarrow> bool" where
  "keeps F M d \<longleftrightarrow> (\<exists>M'. has M' d \<and> kept F M M')"

lemma keeps_refl: "has M d \<Longrightarrow> keeps F M d"
  by (auto simp: keeps_def)

lemma keepsI: "has M' d \<Longrightarrow> kept F M M' \<Longrightarrow> keeps F M d"
  by (auto simp: keeps_def)

text \<open>A step that, from any files, keeps \<open>F\<close> on both exits, keeps it from there on.\<close>

lemma keeps_step:
  assumes "\<And>M. triple (has M) m (\<lambda>_. keeps F M) (keeps F M)"
  shows "triple (keeps F M) m (\<lambda>_. keeps F M) (keeps F M)"
proof (rule tripleI)
  fix s x s' assume "keeps F M s" "m s = (Inr x, s')"
  then show "keeps F M s'"
    using tripleD(1) [OF assms] by (metis keeps_def kept_trans)
next
  fix s e s' assume "keeps F M s" "m s = (Inl e, s')"
  then show "keeps F M s'"
    using tripleD(2) [OF assms] by (metis keeps_def kept_trans)
qed

lemma keeps_io: "triple (keeps F M) (io_call a) (\<lambda>_. keeps F M) (keeps F M)"
  by (rule keeps_step, rule triple_conseq [OF io_call_triple]) (auto intro: keeps_refl)

lemma keeps_get: "triple (keeps F M) (getS f) (\<lambda>_. keeps F M) E"
  by (rule triple_get)

lemma keeps_lift: "triple (keeps F M) (liftS r) (\<lambda>_. keeps F M) (keeps F M)"
  by (rule triple_lift)

lemma keeps_grow:
  assumes "blocks_path \<notin> F" "has (M(blocks_path \<mapsto> content_of M blocks_path @ x)) d"
  shows "keeps F M d"
  unfolding keeps_def
  by (rule exI [of _ "M(blocks_path \<mapsto> content_of M blocks_path @ x)"])
     (use assms in \<open>auto simp: kept_def content_of_def\<close>)

lemma keeps_write:
  "blocks_path \<notin> F \<Longrightarrow> triple (keeps F M) (write_all blocks_path bs) (\<lambda>_. keeps F M) (keeps F M)"
  by (rule keeps_step, rule triple_conseq [OF write_all_triple]) (auto intro: keeps_grow)

lemma keeps_atomic:
  assumes "p \<notin> F" "p @ ''.tmp'' \<notin> F" "p \<noteq> blocks_path" "p @ ''.tmp'' \<noteq> blocks_path"
  shows "triple (keeps F M) (atomic_write p bs) (\<lambda>_. keeps F M) (keeps F M)"
  by (rule keeps_step, rule triple_conseq [OF atomic_write_triple])
     (use assms in \<open>auto simp: atomic_outcome_def elim!: keepsI intro!: kept_upd kept_refl\<close>)

lemma keeps_open: "blocks_path \<notin> F \<Longrightarrow> triple (keeps F M) open_append (\<lambda>_. keeps F M) (keeps F M)"
  unfolding open_append_def
proof (rule triple_bind [OF keeps_io], rule keeps_step, rule triple_modify)
  fix M d assume F: "blocks_path \<notin> F" and d: "has M d"
  show "keeps F M (if file_exists d blocks_path then d else put_file blocks_path [] d)"
  proof (cases "M blocks_path")
    case None
    then have "has (M(blocks_path \<mapsto> content_of M blocks_path @ [])) (put_file blocks_path [] d)"
      using has_put [OF d] None by (simp add: content_of_def)
    then have "keeps F M (put_file blocks_path [] d)" by (rule keeps_grow [OF F])
    with None d show ?thesis by (simp add: has_exists)
  next
    case (Some c)
    with d show ?thesis by (simp add: has_exists keeps_refl)
  qed
qed

lemma keeps_append_records:
  "blocks_path \<notin> F \<Longrightarrow>
     triple (keeps F M) (append_records C bs off m a) (\<lambda>_. keeps F M) (keeps F M)"
proof (induction bs arbitrary: off m a)
  case Nil
  show ?case by (simp add: triple_return)
next
  case (Cons b bs)
  then show ?case
    by (auto intro!: triple_bind [OF keeps_lift] triple_bind [OF keeps_write] triple_if)
qed

lemma keeps_append:
  assumes "blocks_path \<notin> F"
  shows "triple (keeps F M) (append_blocks_file C bs) (\<lambda>_. keeps F M) (keeps F M)"
proof -
  have close: "triple (keeps F M) (if a then io_call s else returnS ()) (\<lambda>_. keeps F M) (keeps F M)" for a s
    by (auto intro: keeps_io triple_return)
  show ?thesis
    unfolding append_blocks_file_def fsync_directory_def
    by (intro triple_bind [OF keeps_get] triple_bind [OF keeps_open [OF assms]] triple_bind [OF keeps_io]
        triple_bind [OF keeps_append_records [OF assms]])
       (auto intro!: triple_bind [OF close] triple_bind [OF keeps_io] triple_bind [OF triple_bind [OF keeps_io keeps_io]]
         triple_return)
qed

end
