(* ===== verification/StorageCommit.thy ===== *)
theory StorageCommit
  imports StorageSafety
begin

section \<open>Committing: all of the new generation or the old one (storage.cpp)\<close>

text \<open>
  \<open>committed\<close> is what \<open>commit\<close> leaves on the disk from its commit point on. The triple of
  \<open>store_commit\<close> says that from files whose manifest parses, every exit before that point keeps all
  files of the old generation and every exit after it has the new one complete. What a committed
  generation loads to is stated over the hashes of the chain it was given.
\<close>

definition written ::
  "crypto \<Rightarrow> u64 \<Rightarrow> stored_block list \<Rightarrow> utxo_set \<Rightarrow> manifest \<Rightarrow> (string \<Rightarrow> bytes option) \<Rightarrow> bool" where
  "written C g blocks utxos m M \<longleftrightarrow>
     (\<exists>es. mapE (catalog_index_entry C (scan_files C M)) blocks = Inr es \<and>
        hash_hex C (b_header (sb_block (last blocks))) = Inr (mf_bestblock m) \<and>
        M (index_path g) = Some (string_bytes (make_index_text es)) \<and>
        M (utxo_path g) = Some (string_bytes (make_utxo_text utxos (sb_height (last blocks)) (mf_bestblock m))) \<and>
        mf_generation m = g \<and> mf_height m = sb_height (last blocks) \<and>
        chainstate_file (mf_index_file m) = index_path g \<and> chainstate_file (mf_utxo_file m) = utxo_path g \<and>
        sha256_hex C (string_bytes (make_index_text es)) = Inr (mf_index_sha256 m) \<and>
        sha256_hex C (string_bytes (make_utxo_text utxos (sb_height (last blocks)) (mf_bestblock m))) =
          Inr (mf_utxo_sha256 m))"

lemma written_cong:
  "written C g bs u m M \<Longrightarrow> M' blocks_path = M blocks_path \<Longrightarrow> M' (index_path g) = M (index_path g) \<Longrightarrow>
     M' (utxo_path g) = M (utxo_path g) \<Longrightarrow> written C g bs u m M'"
  by (simp add: written_def scan_files_def)

definition committed :: "crypto \<Rightarrow> u64 \<Rightarrow> stored_block list \<Rightarrow> utxo_set \<Rightarrow> disk \<Rightarrow> bool" where
  "committed C g blocks utxos d \<longleftrightarrow>
     (\<exists>M m. has M d \<and> written C g blocks utxos m M \<and> M manifest_path = Some (string_bytes (make_manifest_text m)))"

definition commit_exit ::
  "crypto \<Rightarrow> (string \<Rightarrow> bytes option) \<Rightarrow> string set \<Rightarrow> u64 \<Rightarrow> stored_block list \<Rightarrow> utxo_set \<Rightarrow> disk \<Rightarrow> bool" where
  "commit_exit C M F g blocks utxos d \<longleftrightarrow> keeps F M d \<or> committed C g blocks utxos d"

lemma triple_pure: "(b \<Longrightarrow> triple P m Q E) \<Longrightarrow> triple (\<lambda>s. P s \<and> b) m Q E"
  by (auto simp: triple_def)

lemma triple_pre: "triple P m Q E \<Longrightarrow> (\<And>s. P' s \<Longrightarrow> P s) \<Longrightarrow> triple P' m Q E"
  by (auto simp: triple_def)

text \<open>Calls whose effect on the files is known exactly, with the exceptional exits weakened.\<close>

lemma exact_get:
  "(\<And>d. has M d \<Longrightarrow> f d = v) \<Longrightarrow> triple (has M) (k v) Q E \<Longrightarrow> triple (has M) (bindS (getS f) k) Q E"
  unfolding triple_def bindS_def getS_def by auto

lemma exact_lift:
  "(\<And>d. has M d \<Longrightarrow> E d) \<Longrightarrow> (\<And>x. r = Inr x \<Longrightarrow> triple (has M) (k x) Q E) \<Longrightarrow>
     triple (has M) (bindS (liftS r) k) Q E"
  unfolding triple_def bindS_def liftS_def by (cases r) auto

lemma exact_atomic:
  assumes "\<And>d. atomic_outcome M p bs d \<Longrightarrow> E d"
    and "triple (has (M(p \<mapsto> bs, p @ ''.tmp'' := None))) (k ()) Q E"
  shows "triple (has M) (bindS (atomic_write p bs) k) Q E"
proof (rule triple_bind)
  show "triple (has M) (atomic_write p bs) (\<lambda>_. has (M(p \<mapsto> bs, p @ ''.tmp'' := None))) E"
    by (rule triple_conseq [OF atomic_write_triple]) (auto intro: assms(1))
  show "triple (has (M(p \<mapsto> bs, p @ ''.tmp'' := None))) (k x) Q E" for x
    using assms(2) by (simp add: unit_eq)
qed

lemma atomic_outcome_keeps:
  "atomic_outcome M p bs d \<Longrightarrow> p \<notin> F \<Longrightarrow> p @ ''.tmp'' \<notin> F \<Longrightarrow> p \<noteq> blocks_path \<Longrightarrow>
     p @ ''.tmp'' \<noteq> blocks_path \<Longrightarrow> kept F M0 M \<Longrightarrow> keeps F M0 d"
  by (auto simp: atomic_outcome_def elim!: keepsI intro!: kept_upd)

lemmas generation_paths = index_path_def [symmetric] utxo_path_def [symmetric]

definition free_generation :: "string set \<Rightarrow> u64 \<Rightarrow> bool" where
  "free_generation F g \<longleftrightarrow> index_path g \<notin> F \<and> index_path g @ ''.tmp'' \<notin> F \<and>
     utxo_path g \<notin> F \<and> utxo_path g @ ''.tmp'' \<notin> F"

lemma tmp_not_blocks [simp]: "index_path g @ ''.tmp'' \<noteq> blocks_path" "utxo_path g @ ''.tmp'' \<noteq> blocks_path"
  "manifest_path @ ''.tmp'' \<noteq> blocks_path"
  "index_path g @ ''.tmp'' \<noteq> manifest_path" "utxo_path g @ ''.tmp'' \<noteq> manifest_path"
  using path_fixed by metis+

lemma manifest_for_generation_triple:
  assumes F: "free_generation F g" and k: "kept F M0 M"
  shows "triple (has M) (manifest_for_generation C g blocks utxos)
    (\<lambda>m d. \<exists>M'. has M' d \<and> kept F M0 M' \<and> written C g blocks utxos m M') (keeps F M0)"
  unfolding manifest_for_generation_def Let_def generation_paths
proof (rule exact_get [OF has_scan], assumption, rule exact_lift)
  show E: "has M d \<Longrightarrow> keeps F M0 d" for d
    by (rule keepsI [OF _ k])
  fix es assume es: "mapE (catalog_index_entry C (scan_files C M)) blocks = Inr es"
  let ?i = "string_bytes (make_index_text es)"
  let ?M1 = "M(index_path g \<mapsto> ?i, index_path g @ ''.tmp'' := None)"
  have k1: "kept F M0 ?M1"
    using k F by (auto simp: free_generation_def intro!: kept_upd)
  show "triple (has M)
     (bindS (liftS (hash_hex C (b_header (sb_block (last blocks)))))
       (\<lambda>bestblock.
           bindS (atomic_write (index_path g) ?i)
            (\<lambda>_. bindS (atomic_write (utxo_path g)
                           (string_bytes (make_utxo_text utxos (sb_height (last blocks)) bestblock)))
             (\<lambda>_. bindS (liftS (sha256_hex C ?i))
               (\<lambda>index_sha256. bindS (liftS (sha256_hex C
                     (string_bytes (make_utxo_text utxos (sb_height (last blocks)) bestblock))))
                 (\<lambda>utxo_sha256. bindS (getS (\<lambda>d. file_size_or_zero d blocks_path))
                   (\<lambda>size. returnS \<lparr>mf_generation = g, mf_height = sb_height (last blocks),
                       mf_bestblock = bestblock, mf_index_file = generation_name ''block-index-v1-'' g,
                       mf_index_sha256 = index_sha256, mf_utxo_file = generation_name ''utxo-v1-'' g,
                       mf_utxo_sha256 = utxo_sha256, mf_block_file_size = word_of_nat size\<rparr>)))))))
     (\<lambda>m d. \<exists>M'. has M' d \<and> kept F M0 M' \<and> written C g blocks utxos m M') (keeps F M0)"
  proof (rule exact_lift [OF E], assumption, rule exact_atomic, goal_cases)
    case (1 best d)
    then show ?case using F k by (intro atomic_outcome_keeps [OF 1(2)]) (auto simp: free_generation_def)
  next
    case (2 best)
    let ?u = "string_bytes (make_utxo_text utxos (sb_height (last blocks)) best)"
    let ?M2 = "?M1(utxo_path g \<mapsto> ?u, utxo_path g @ ''.tmp'' := None)"
    have k2: "kept F M0 ?M2"
      using k1 F by (auto simp: free_generation_def intro!: kept_upd)
    have E2: "has ?M2 d \<Longrightarrow> keeps F M0 d" for d
      by (rule keepsI [OF _ k2])
    show ?case
    proof (rule exact_atomic, goal_cases)
      case (1 d)
      then show ?case using F k1 by (intro atomic_outcome_keeps [OF 1]) (auto simp: free_generation_def)
    next
      case 2
      show ?case
        by (intro exact_lift [OF E2] exact_get [OF has_size] triple_return exI [of _ ?M2] conjI k2)
           (use es \<open>hash_hex _ _ = _\<close> in \<open>auto simp: written_def scan_files_def generation_paths\<close>)
    qed
  qed
qed

subsection \<open>From the commit point on\<close>

definition generation_files :: "u64 \<Rightarrow> string set" where
  "generation_files g = {manifest_path, blocks_path, index_path g, utxo_path g}"

lemma committedI:
  "has M d \<Longrightarrow> written C g bs u m M \<Longrightarrow> M manifest_path = Some (string_bytes (make_manifest_text m)) \<Longrightarrow>
     committed C g bs u d"
  by (auto simp: committed_def)

lemma committed_step:
  assumes "committed C g bs u d"
    and "\<And>M. has M d \<Longrightarrow> \<exists>M'. has M' d' \<and> (\<forall>p \<in> generation_files g. M' p = M p)"
  shows "committed C g bs u d'"
proof -
  obtain M m where M: "has M d" "written C g bs u m M" "M manifest_path = Some (string_bytes (make_manifest_text m))"
    using assms(1) by (auto simp: committed_def)
  obtain M' where M': "has M' d'" "\<forall>p \<in> generation_files g. M' p = M p"
    using assms(2) [OF M(1)] by blast
  have "written C g bs u m M'"
    using M'(2) by (intro written_cong [OF M(2)]) (auto simp: generation_files_def)
  with M M' show ?thesis by (auto simp: generation_files_def intro: committedI)
qed

lemma atomic_outcomeI: "has (M(p \<mapsto> bs, p @ ''.tmp'' := None)) d \<Longrightarrow> atomic_outcome M p bs d"
  unfolding atomic_outcome_def by blast

lemma atomic_outcome_others:
  assumes "atomic_outcome M p x d" "p \<notin> G" "p @ ''.tmp'' \<notin> G"
  shows "\<exists>M'. has M' d \<and> (\<forall>q \<in> G. M' q = M q)"
  using assms(1) unfolding atomic_outcome_def
proof (elim exE disjE)
  fix y assume "has (M(p @ ''.tmp'' := y)) d"
  then show ?thesis using assms(3) by (intro exI [of _ "M(p @ ''.tmp'' := y)"]) auto
next
  assume "has (M(p \<mapsto> x, p @ ''.tmp'' := None)) d"
  then show ?thesis using assms(2,3) by (intro exI [of _ "M(p \<mapsto> x, p @ ''.tmp'' := None)"]) auto
qed

lemma committed_atomic:
  assumes "p \<notin> generation_files g" "p @ ''.tmp'' \<notin> generation_files g"
  shows "triple (committed C g bs u) (atomic_write p x) (\<lambda>_. committed C g bs u) (committed C g bs u)"
proof -
  have *: "committed C g bs u d'"
    if "committed C g bs u d" "\<And>M. has M d \<Longrightarrow> atomic_outcome M p x d'" for d d'
    using that(1)
  proof (rule committed_step)
    fix M assume "has M d"
    from that(2) [OF this] show "\<exists>M'. has M' d' \<and> (\<forall>p \<in> generation_files g. M' p = M p)"
      using assms by (rule atomic_outcome_others)
  qed
  show ?thesis
  proof (rule tripleI)
    fix d y d' assume c: "committed C g bs u d" and w: "atomic_write p x d = (Inr y, d')"
    from c show "committed C g bs u d'"
      by (rule *) (rule atomic_outcomeI, rule tripleD(1) [OF atomic_write_triple _ w])
  next
    fix d e d' assume c: "committed C g bs u d" and w: "atomic_write p x d = (Inl e, d')"
    from c show "committed C g bs u d'"
      by (rule *) (rule tripleD(2) [OF atomic_write_triple _ w])
  qed
qed

lemma cleanup_files:
  "has M d \<Longrightarrow> \<exists>M'. has M' (cleanup_old_generations g d) \<and> (\<forall>p \<in> generation_files g. M' p = M p)"
proof -
  let ?step = "\<lambda>d k. if k = g \<or> (g > 0 \<and> k + 1 = g) then d
      else remove_file (utxo_path k) (remove_file (index_path k) d)"
  have "has M d \<Longrightarrow> \<exists>M'. has M' (foldl ?step d gs) \<and> (\<forall>p \<in> generation_files g. M' p = M p)" for gs
  proof (induction gs arbitrary: d M)
    case (Cons k gs)
    show ?case
    proof (cases "k = g \<or> (g > 0 \<and> k + 1 = g)")
      case True
      with Cons show ?thesis by auto
    next
      case False
      have "has (M(index_path k := None, utxo_path k := None)) (remove_file (utxo_path k) (remove_file (index_path k) d))"
        by (intro has_remove Cons)
      from Cons.IH [OF this] False show ?thesis
        by (auto simp: generation_files_def)
    qed
  qed auto
  then show "has M d \<Longrightarrow> ?thesis"
    unfolding cleanup_old_generations_def generation_paths by blast
qed

lemma committed_cleanup: "committed C g bs u d \<Longrightarrow> committed C g bs u (cleanup_old_generations g d)"
  by (erule committed_step) (rule cleanup_files)

subsection \<open>The whole commit\<close>

lemma on_disk_triple:
  "triple P m Q E \<Longrightarrow> triple (\<lambda>s. P (st_disk s)) (on_disk m) (\<lambda>x s. Q x (st_disk s)) (\<lambda>s. E (st_disk s))"
  by (rule tripleI) (auto simp: on_disk_def split: prod.splits dest: tripleD)

definition manifest_of :: "(string \<Rightarrow> bytes option) \<Rightarrow> manifest \<Rightarrow> bool" where
  "manifest_of M m \<longleftrightarrow> (\<exists>c. M manifest_path = Some c \<and> parse_manifest_text (bytes_string c) = Inr m)"

lemma manifest_of_read: "has M d \<Longrightarrow> manifest_of M m \<longleftrightarrow> read_manifest d = Inr m"
  by (auto simp: manifest_of_def read_manifest_def has_read split: option.splits)

lemma next_generation_keeps:
  "manifest_of M m \<Longrightarrow> manifest_path \<in> F \<Longrightarrow> keeps F M d \<Longrightarrow> next_generation d = mf_generation m + 1"
proof -
  assume m: "manifest_of M m" and F: "manifest_path \<in> F" and k: "keeps F M d"
  obtain M' where M': "has M' d" "kept F M M'" using k by (auto simp: keeps_def)
  with m F have "manifest_of M' m" by (auto simp: manifest_of_def kept_def)
  then show ?thesis
    using M'(1) manifest_of_read [OF M'(1), of m]
    by (auto simp: next_generation_def has_exists manifest_of_def)
qed

lemma migrated_marker:
  "chainstate_file ''migrated-from-chain-v3'' \<notin> generation_files g"
  "chainstate_file ''migrated-from-chain-v3'' @ ''.tmp'' \<notin> generation_files g"
  by (simp_all add: generation_files_def manifest_path_def blocks_path_def index_path_def utxo_path_def
      chainstate_file_def generation_name_def)

lemma manifest_write_triple:
  assumes F: "manifest_path @ ''.tmp'' \<notin> F"
  shows "triple (\<lambda>d. \<exists>M'. has M' d \<and> kept F M M' \<and> written C g bs u m M')
    (atomic_write manifest_path (string_bytes (make_manifest_text m)))
    (\<lambda>_. committed C g bs u) (commit_exit C M F g bs u)"
proof (rule triple_ex)
  fix M'
  have c: "committed C g bs u d"
    if "has (M'(manifest_path \<mapsto> string_bytes (make_manifest_text m), manifest_path @ ''.tmp'' := None)) d"
      "written C g bs u m M'" for d
  proof (rule committedI [OF that(1), of C g bs u m])
    show "written C g bs u m (M'(manifest_path \<mapsto> string_bytes (make_manifest_text m), manifest_path @ ''.tmp'' := None))"
      by (rule written_cong [OF that(2)]) simp_all
  qed simp
  show "triple (\<lambda>d. has M' d \<and> kept F M M' \<and> written C g bs u m M')
    (atomic_write manifest_path (string_bytes (make_manifest_text m)))
    (\<lambda>_. committed C g bs u) (commit_exit C M F g bs u)"
  proof (intro triple_pure, rule triple_conseq [OF atomic_write_triple], assumption)
    assume k: "kept F M M' \<and> written C g bs u m M'"
    show "committed C g bs u d"
      if "has (M'(manifest_path \<mapsto> string_bytes (make_manifest_text m), manifest_path @ ''.tmp'' := None)) d" for d
      using that k by (intro c) auto
    show "commit_exit C M F g bs u d"
      if "atomic_outcome M' manifest_path (string_bytes (make_manifest_text m)) d" for d
      using that unfolding atomic_outcome_def
    proof (elim exE disjE)
      fix x assume "has (M'(manifest_path @ ''.tmp'' := x)) d"
      then have "keeps F M d"
        by (rule keepsI) (use F k in \<open>auto intro!: kept_upd\<close>)
      then show ?thesis by (simp add: commit_exit_def)
    next
      assume "has (M'(manifest_path \<mapsto> string_bytes (make_manifest_text m), manifest_path @ ''.tmp'' := None)) d"
      then show ?thesis using k c by (simp add: commit_exit_def)
    qed
  qed
qed

lemma on_stats_triple: "triple (\<lambda>s. P (st_disk s)) (on_stats f) (\<lambda>_ s. P (st_disk s)) E"
  unfolding on_stats_def by (rule triple_modify) simp

lemma commit_exit_keeps: "keeps F M d \<Longrightarrow> commit_exit C M F g bs u d"
  by (simp add: commit_exit_def)

lemma commit_exit_committed: "committed C g bs u d \<Longrightarrow> commit_exit C M F g bs u d"
  by (simp add: commit_exit_def)

text \<open>The tail of \<^verbatim>\<open>commit\<close> after its commit point, and the part before it.\<close>

lemma committed_tail:
  "triple (\<lambda>s. committed C g bs u (st_disk s))
     (bindS (getS (\<lambda>s. cs_migrated_legacy (st_stats s))) (\<lambda>migrated.
      bindS (if migrated
             then on_disk (atomic_write (chainstate_file ''migrated-from-chain-v3'') x)
             else returnS ()) (\<lambda>_.
      bindS (on_disk (modifyS (cleanup_old_generations g))) (\<lambda>_. on_stats f))))
     (\<lambda>_ s. committed C g bs u (st_disk s)) (\<lambda>s. committed C g bs u (st_disk s))"
proof (rule triple_bind [OF triple_get], assumption, rule triple_bind)
  show "triple (\<lambda>s. committed C g bs u (st_disk s))
      (if b then on_disk (atomic_write (chainstate_file ''migrated-from-chain-v3'') x) else returnS ())
      (\<lambda>_ s. committed C g bs u (st_disk s)) (\<lambda>s. committed C g bs u (st_disk s))" for b
    by (intro triple_if on_disk_triple committed_atomic migrated_marker triple_return)
  show "triple (\<lambda>s. committed C g bs u (st_disk s))
      (bindS (on_disk (modifyS (cleanup_old_generations g))) (\<lambda>_. on_stats f))
      (\<lambda>_ s. committed C g bs u (st_disk s)) (\<lambda>s. committed C g bs u (st_disk s))"
  proof (rule triple_bind [OF on_disk_triple])
    show "triple (committed C g bs u) (modifyS (cleanup_old_generations g)) (\<lambda>_. committed C g bs u) (committed C g bs u)"
      by (rule triple_modify) (rule committed_cleanup)
  qed (rule on_stats_triple)
qed

definition some_committed :: "(u64 \<Rightarrow> bool) \<Rightarrow> crypto \<Rightarrow> stored_block list \<Rightarrow> utxo_set \<Rightarrow> disk \<Rightarrow> bool" where
  "some_committed G C bs u d \<longleftrightarrow> (\<exists>g. G g \<and> committed C g bs u d)"

lemma store_commit_triple:
  assumes F: "manifest_path @ ''.tmp'' \<notin> F" "blocks_path \<notin> F"
    and g: "\<And>d. keeps F M d \<Longrightarrow> G (next_generation d)" and free: "\<And>g. G g \<Longrightarrow> free_generation F g"
  shows "triple (\<lambda>s. has M (st_disk s)) (store_commit C bs u)
    (\<lambda>_ s. some_committed G C bs u (st_disk s))
    (\<lambda>s. keeps F M (st_disk s) \<or> some_committed G C bs u (st_disk s))"
proof -
  let ?K = "\<lambda>s. keeps F M (st_disk s)"
  let ?Q = "\<lambda>s. some_committed G C bs u (st_disk s)"
  let ?E = "\<lambda>s. keeps F M (st_disk s) \<or> ?Q s"
  have io: "triple ?K (on_disk (io_call a)) (\<lambda>_. ?K) ?E" for a
    by (rule triple_conseq [OF on_disk_triple [OF keeps_io]]) auto
  have app: "triple ?K (on_disk (append_blocks_file C bs)) (\<lambda>_. ?K) ?E"
    by (rule triple_conseq [OF on_disk_triple [OF keeps_append [OF F(2)]]]) auto
  have gen: "triple ?K (getS (\<lambda>s. next_generation (st_disk s))) (\<lambda>k s. ?K s \<and> G k) ?E"
    by (rule triple_get) (simp add: g)
  have rest: "triple (\<lambda>s. ?K s \<and> G k)
     (bindS (on_disk (manifest_for_generation C k bs u)) (\<lambda>m.
      bindS (on_disk (atomic_write manifest_path (string_bytes (make_manifest_text m)))) (\<lambda>_.
      bindS (getS (\<lambda>s. cs_migrated_legacy (st_stats s))) (\<lambda>migrated.
      bindS (if migrated
             then on_disk (atomic_write (chainstate_file ''migrated-from-chain-v3'') x)
             else returnS ()) (\<lambda>_.
      bindS (on_disk (modifyS (cleanup_old_generations k))) (\<lambda>_. on_stats (f k m)))))))
     (\<lambda>_. ?Q) ?E" for k x f
  proof (rule triple_pure)
    assume k: "G k"
    have mg: "triple (keeps F M) (manifest_for_generation C k bs u)
        (\<lambda>n d. \<exists>M'. has M' d \<and> kept F M M' \<and> written C k bs u n M') (keeps F M)"
    proof (rule triple_pre)
      show "triple (\<lambda>d. \<exists>M'. has M' d \<and> kept F M M') (manifest_for_generation C k bs u)
        (\<lambda>n d. \<exists>M'. has M' d \<and> kept F M M' \<and> written C k bs u n M') (keeps F M)"
        by (intro triple_ex triple_pure manifest_for_generation_triple [OF free [OF k]])
    qed (auto simp: keeps_def)
    have man: "triple ?K (on_disk (manifest_for_generation C k bs u))
        (\<lambda>n s. \<exists>M'. has M' (st_disk s) \<and> kept F M M' \<and> written C k bs u n M') ?E"
      by (rule triple_conseq [OF on_disk_triple [OF mg]]) auto
    have wr: "triple (\<lambda>s. \<exists>M'. has M' (st_disk s) \<and> kept F M M' \<and> written C k bs u n M')
        (on_disk (atomic_write manifest_path (string_bytes (make_manifest_text n))))
        (\<lambda>_ s. committed C k bs u (st_disk s)) ?E" for n
      by (rule triple_conseq [OF on_disk_triple [OF manifest_write_triple [OF F(1)]]])
         (use k in \<open>auto simp: commit_exit_def some_committed_def\<close>)
    have tail: "triple (\<lambda>s. committed C k bs u (st_disk s))
       (bindS (getS (\<lambda>s. cs_migrated_legacy (st_stats s))) (\<lambda>migrated.
        bindS (if migrated
               then on_disk (atomic_write (chainstate_file ''migrated-from-chain-v3'') x)
               else returnS ()) (\<lambda>_.
        bindS (on_disk (modifyS (cleanup_old_generations k))) (\<lambda>_. on_stats h)))) (\<lambda>_. ?Q) ?E" for x h
      by (rule triple_conseq [OF committed_tail]) (use k in \<open>auto simp: some_committed_def\<close>)
    show "triple ?K
     (bindS (on_disk (manifest_for_generation C k bs u)) (\<lambda>m.
      bindS (on_disk (atomic_write manifest_path (string_bytes (make_manifest_text m)))) (\<lambda>_.
      bindS (getS (\<lambda>s. cs_migrated_legacy (st_stats s))) (\<lambda>migrated.
      bindS (if migrated
             then on_disk (atomic_write (chainstate_file ''migrated-from-chain-v3'') x)
             else returnS ()) (\<lambda>_.
      bindS (on_disk (modifyS (cleanup_old_generations k))) (\<lambda>_. on_stats (f k m)))))))
     (\<lambda>_. ?Q) ?E"
      by (intro triple_bind [OF man] triple_bind [OF wr] tail)
  qed
  have start: "triple ?K (store_commit C bs u) (\<lambda>_. ?Q) ?E"
    unfolding store_commit_def
    by (intro triple_if triple_throw triple_bind [OF io] triple_bind [OF app] triple_bind [OF gen] rest) auto
  then show ?thesis by (rule triple_pre) (auto intro: keeps_refl)
qed

subsection \<open>Loading what was committed\<close>

definition store_named :: "manifest \<Rightarrow> bool" where
  "store_named m \<longleftrightarrow> chainstate_file (mf_index_file m) = index_path (mf_generation m) \<and>
     chainstate_file (mf_utxo_file m) = utxo_path (mf_generation m)"

definition storable :: "stored_block list \<Rightarrow> utxo_set \<Rightarrow> bool" where
  "storable bs u \<longleftrightarrow> bs \<noteq> [] \<and> (\<forall>i < length bs. sb_height (bs ! i) = word_of_nat i) \<and>
     sorted_keys u \<and> list_all utxo_entry_ok u"

text \<open>The block file fits its 64-bit offsets, and what it holds under the hash of a block of the
  chain carries that block's height.\<close>

definition heights_agree :: "crypto \<Rightarrow> disk \<Rightarrow> stored_block list \<Rightarrow> bool" where
  "heights_agree C d bs \<longleftrightarrow> file_size_or_zero d blocks_path < 2 ^ 64 \<and>
     (\<forall>b \<in> set bs. \<forall>h e. hash_hex C (b_header (sb_block b)) = Inr h \<longrightarrow>
        map_of (scan_catalog C d) h = Some e \<longrightarrow> ie_height e = sb_height b)"

definition same_chain :: "crypto \<Rightarrow> stored_block list \<Rightarrow> stored_block list \<Rightarrow> bool" where
  "same_chain C bs bs' \<longleftrightarrow>
     list_all2 (\<lambda>b b'. sb_height b = sb_height b' \<and>
       hash_hex C (b_header (sb_block b)) = hash_hex C (b_header (sb_block b'))) bs bs'"

text \<open>What a commit of \<open>bs\<close> reads back as: the records found under the hashes of its blocks. When the file
  holds other bodies under those hashes, or other heights, the chain that loads is not the one committed.\<close>

definition reads_as :: "crypto \<Rightarrow> disk \<Rightarrow> stored_block list \<Rightarrow> stored_block list \<Rightarrow> bool" where
  "reads_as C d bs bs' \<longleftrightarrow> (\<exists>es. mapE (catalog_index_entry C (scan_catalog C d)) bs = Inr es \<and>
     mapE (load_indexed_entry C (file_content d blocks_path)) es = Inr bs')"

definition records_agree :: "crypto \<Rightarrow> disk \<Rightarrow> stored_block list \<Rightarrow> bool" where
  "records_agree C d bs \<longleftrightarrow> heights_agree C d bs \<and> reads_as C d bs bs"

lemma hash_hex_plain: "hash_hex C h = Inr s \<Longrightarrow> plain s"
  by (drule hash_hex_display) (auto simp: display_id_def intro: plain_lower_hex)

lemma read_record_size: "read_record_at C c off (Some p) = Inr b \<Longrightarrow> unat p \<le> MAX_BLOCK_RECORD_SIZE"
  by (auto simp: read_record_at_def split: prod.splits)

lemma catalog_index_entries:
  assumes h: "heights_agree C d bs"
    and es: "mapE (catalog_index_entry C (scan_catalog C d)) bs = Inr es"
  shows "\<exists>bs'. mapE (load_indexed_entry C (file_content d blocks_path)) es = Inr bs' \<and> same_chain C bs bs' \<and>
    list_all2 (\<lambda>b e. ie_height e = sb_height b \<and> plain (ie_hash e) \<and> unat (ie_payload_size e) \<le> MAX_BLOCK_RECORD_SIZE) bs es"
proof -
  have ok: "catalog_ok C (file_content d blocks_path) (scan_catalog C d)"
    using h by (intro scan_catalog_ok) (simp add: heights_agree_def)
  have one: "\<exists>b'. load_indexed_entry C (file_content d blocks_path) e = Inr b' \<and> sb_height b = sb_height b' \<and>
      hash_hex C (b_header (sb_block b)) = hash_hex C (b_header (sb_block b')) \<and> ie_height e = sb_height b \<and>
      plain (ie_hash e) \<and> unat (ie_payload_size e) \<le> MAX_BLOCK_RECORD_SIZE"
    if b: "b \<in> set bs" and e: "catalog_index_entry C (scan_catalog C d) b = Inr e" for b e
  proof -
    obtain k e0 where k: "hash_hex C (b_header (sb_block b)) = Inr k" "map_of (scan_catalog C d) k = Some e0"
      and e0: "e = e0 \<lparr> ie_height := sb_height b \<rparr>"
      using e by (auto simp: catalog_index_entry_def split: option.splits)
    have ht: "ie_height e0 = sb_height b" using h b k by (auto simp: heights_agree_def)
    then have e1: "e = e0" by (simp add: e0)
    have "entry_ok C (file_content d blocks_path) k e0"
      using ok k by (auto simp: catalog_ok_def)
    then show ?thesis
      using k(1) ht unfolding e1
      by (auto simp: entry_ok_def load_entry_Inr dest: hash_hex_plain read_record_size)
  qed
  have "\<exists>bs'. mapE (load_indexed_entry C (file_content d blocks_path)) es = Inr bs' \<and> same_chain C bs bs' \<and>
    list_all2 (\<lambda>b e. ie_height e = sb_height b \<and> plain (ie_hash e) \<and> unat (ie_payload_size e) \<le> MAX_BLOCK_RECORD_SIZE) bs es"
    if "mapE (catalog_index_entry C (scan_catalog C d)) bs = Inr es"
      "\<And>b e. b \<in> set bs \<Longrightarrow> catalog_index_entry C (scan_catalog C d) b = Inr e \<Longrightarrow>
       \<exists>b'. load_indexed_entry C (file_content d blocks_path) e = Inr b' \<and> sb_height b = sb_height b' \<and>
      hash_hex C (b_header (sb_block b)) = hash_hex C (b_header (sb_block b')) \<and> ie_height e = sb_height b \<and>
      plain (ie_hash e) \<and> unat (ie_payload_size e) \<le> MAX_BLOCK_RECORD_SIZE" for bs es
    using that
  proof (induction bs arbitrary: es)
    case (Cons b bs)
    obtain e es' where e: "es = e # es'" "catalog_index_entry C (scan_catalog C d) b = Inr e"
      "mapE (catalog_index_entry C (scan_catalog C d)) bs = Inr es'"
      using Cons.prems(1) by auto
    show ?case
      using Cons.IH [OF e(3)] Cons.prems(2) [of b e] Cons.prems(2) e
      by (fastforce simp: same_chain_def)
  qed (simp add: same_chain_def)
  with es one show ?thesis by blast
qed

lemma index_ok_entries:
  assumes "storable bs u"
    and "list_all2 (\<lambda>b e. ie_height e = sb_height b \<and> plain (ie_hash e) \<and>
      unat (ie_payload_size e) \<le> MAX_BLOCK_RECORD_SIZE) bs es"
  shows "index_ok es"
  using assms by (auto simp: index_ok_def storable_def list_all2_conv_all_nth list_all_length index_entry_ok_def)

lemma generation_name_plain: "newline \<notin> set p \<Longrightarrow> newline \<notin> set (generation_name p g)"
  using pad_show_digits [of 20 "unat g"]
  by (auto simp: generation_name_def show_u64_def list_all_iff is_digit_def)

lemma sha256_hex_plain: "sha256_hex C bs = Inr s \<Longrightarrow> newline \<notin> set s"
proof -
  assume "sha256_hex C bs = Inr s"
  then obtain b where "s = bytes_to_hex b" by (auto simp: sha256_hex_def)
  then have "plain s" using bytes_to_hex_lower plain_lower_hex by blast
  then show ?thesis by (simp add: plain_def)
qed

lemma committed_manifest_ok:
  assumes "written C g bs u m M"
  shows "manifest_ok m \<and> store_named m"
proof -
  have f: "mf_index_file m = generation_name ''block-index-v1-'' g" "mf_utxo_file m = generation_name ''utxo-v1-'' g"
    using assms by (auto simp: written_def index_path_def utxo_path_def chainstate_file_def)
  have "newline \<notin> set (mf_bestblock m)"
    using assms hash_hex_plain by (force simp: written_def plain_def)
  with f assms show ?thesis
    by (auto simp: manifest_ok_def store_named_def written_def generation_name_plain dest: sha256_hex_plain)
qed

lemma committed_load:
  assumes c: "committed C g bs u d" and st: "storable bs u" and h: "heights_agree C d bs"
  shows "\<exists>m bs'. read_manifest d = Inr m \<and> mf_generation m = g \<and> store_named m \<and>
    load_manifest_generation C d m True = Inr (bs', u) \<and> same_chain C bs bs' \<and> reads_as C d bs bs'"
proof -
  obtain M m where d: "has M d" and w: "written C g bs u m M"
    and mp: "M manifest_path = Some (string_bytes (make_manifest_text m))"
    using c by (auto simp: committed_def)
  have ok: "manifest_ok m" "store_named m" using committed_manifest_ok [OF w] by auto
  have rm: "read_manifest d = Inr m"
    using ok(1) by (simp add: read_manifest_def has_read [OF d] mp manifest_round_trip)
  let ?h = "sb_height (last bs)"
  obtain es where es: "mapE (catalog_index_entry C (scan_catalog C d)) bs = Inr es"
    and best: "hash_hex C (b_header (sb_block (last bs))) = Inr (mf_bestblock m)"
    and fi: "M (index_path g) = Some (string_bytes (make_index_text es))"
    and fu: "M (utxo_path g) = Some (string_bytes (make_utxo_text u ?h (mf_bestblock m)))"
    and m: "mf_generation m = g" "mf_height m = ?h" "chainstate_file (mf_index_file m) = index_path g"
      "chainstate_file (mf_utxo_file m) = utxo_path g"
    and sha: "sha256_hex C (string_bytes (make_index_text es)) = Inr (mf_index_sha256 m)"
      "sha256_hex C (string_bytes (make_utxo_text u ?h (mf_bestblock m))) = Inr (mf_utxo_sha256 m)"
    using w by (auto simp: written_def has_scan [OF d])
  obtain bs' where bs': "mapE (load_indexed_entry C (file_content d blocks_path)) es = Inr bs'" "same_chain C bs bs'"
    and e2: "list_all2 (\<lambda>b e. ie_height e = sb_height b \<and> plain (ie_hash e) \<and>
      unat (ie_payload_size e) \<le> MAX_BLOCK_RECORD_SIZE) bs es"
    using catalog_index_entries [OF h es] by blast
  have idx: "parse_index_text (make_index_text es) = Inr es"
    by (rule index_round_trip) (rule index_ok_entries [OF st e2])
  have ne: "bs \<noteq> []" "es \<noteq> []" "bs' \<noteq> []"
    using st e2 bs'(2) by (auto simp: storable_def same_chain_def)
  have ex: "file_exists d blocks_path"
  proof (rule ccontr)
    assume "\<not> file_exists d blocks_path"
    then have "scan_catalog C d = []" by (simp add: scan_catalog_def)
    with es ne(1) show False
      by (cases bs) (auto simp: catalog_index_entry_def)
  qed
  have ic: "load_indexed_chain C d es = Inr bs'"
    using ex bs'(1) by (simp add: load_indexed_chain_def)
  have tip: "sb_height (last bs') = ?h" "hash_hex C (b_header (sb_block (last bs'))) = Inr (mf_bestblock m)"
    using bs'(2) best ne by (auto simp: same_chain_def list_all2_conv_all_nth last_conv_nth)
  have ux: "parse_utxo_text (make_utxo_text u ?h (mf_bestblock m)) ?h (mf_bestblock m) = Inr u"
    using st hash_hex_plain [OF best] by (intro utxo_round_trip) (auto simp: storable_def)
  have "load_manifest_generation C d m True = Inr (bs', u)"
    using sha tip by (simp add: load_manifest_generation_def has_read [OF d] m fi fu idx ic ux)
  moreover have "reads_as C d bs bs'" using es bs'(1) by (auto simp: reads_as_def)
  ultimately show ?thesis using rm m(1) ok(2) bs'(2) by blast
qed

lemma committed_agrees:
  assumes "committed C g bs u d" "storable bs u" "records_agree C d bs"
  shows "\<exists>m. read_manifest d = Inr m \<and> store_named m \<and> load_manifest_generation C d m True = Inr (bs, u)"
  using committed_load [OF assms(1,2)] assms(3) by (fastforce simp: records_agree_def reads_as_def)

text \<open>The two results together: what a commit leaves, on each of its exits.\<close>

lemma store_commit_committed:
  assumes "disk_ok (st_disk s)" "store_commit C bs u s = (Inr (), s')"
  shows "\<exists>g. committed C g bs u (st_disk s')"
proof -
  have "triple (\<lambda>s. has (map_of (dk_files (st_disk s0))) (st_disk s)) (store_commit C bs u)
    (\<lambda>_ s. some_committed (\<lambda>_. True) C bs u (st_disk s))
    (\<lambda>s. keeps {} (map_of (dk_files (st_disk s0))) (st_disk s) \<or> some_committed (\<lambda>_. True) C bs u (st_disk s))" for s0
    by (rule store_commit_triple) (auto simp: free_generation_def)
  from tripleD(1) [OF this _ assms(2), of s] show ?thesis
    using assms(1) by (auto simp: has_def some_committed_def)
qed

lemma store_commit_returns:
  assumes "disk_ok (st_disk s)" "store_commit C bs u s = (Inr (), s')" "storable bs u" "heights_agree C (st_disk s') bs"
  shows "\<exists>m bs'. read_manifest (st_disk s') = Inr m \<and> store_named m \<and>
    load_manifest_generation C (st_disk s') m True = Inr (bs', u) \<and> same_chain C bs bs'"
  using store_commit_committed [OF assms(1,2)] committed_load [OF _ assms(3,4)] by blast

lemma store_commit_throws:
  assumes "disk_ok (st_disk s)" "store_commit C bs u s = (Inl e, s')"
    and m: "read_manifest (st_disk s) = Inr m" "store_named m"
  shows "keeps {manifest_path, index_path (mf_generation m), utxo_path (mf_generation m)}
      (map_of (dk_files (st_disk s))) (st_disk s') \<or> committed C (mf_generation m + 1) bs u (st_disk s')"
proof -
  let ?M = "map_of (dk_files (st_disk s))"
  let ?F = "{manifest_path, index_path (mf_generation m), utxo_path (mf_generation m)}"
  have d: "has ?M (st_disk s)" using assms(1) by (simp add: has_def)
  have mo: "manifest_of ?M m" using m(1) by (simp add: manifest_of_read [OF d])
  have "triple (\<lambda>s. has ?M (st_disk s)) (store_commit C bs u)
    (\<lambda>_ s. some_committed (\<lambda>g. g = mf_generation m + 1) C bs u (st_disk s))
    (\<lambda>s. keeps ?F ?M (st_disk s) \<or> some_committed (\<lambda>g. g = mf_generation m + 1) C bs u (st_disk s))"
    by (rule store_commit_triple)
       (use mo in \<open>auto simp: free_generation_def intro: next_generation_keeps [of ?M m ?F]\<close>)
  from tripleD(2) [OF this d assms(2)] show ?thesis
    by (simp add: some_committed_def)
qed

lemma keeps_load:
  assumes "disk_ok d" "keeps {manifest_path, index_path (mf_generation m), utxo_path (mf_generation m)} (map_of (dk_files d)) d'"
    and "read_manifest d = Inr m" "store_named m" "load_manifest_generation C d m True = Inr r"
  shows "read_manifest d' = Inr m \<and> load_manifest_generation C d' m True = Inr r"
proof -
  have d: "has (map_of (dk_files d)) d" using assms(1) by (simp add: has_def)
  obtain M' where M': "has M' d'" and k: "kept {manifest_path, index_path (mf_generation m), utxo_path (mf_generation m)}
      (map_of (dk_files d)) M'"
    using assms(2) by (auto simp: keeps_def)
  have "manifest_of M' m"
    using assms(3) k manifest_of_read [OF d] by (auto simp: manifest_of_def kept_def)
  moreover have "load_manifest_generation C d' m True = Inr r"
    by (rule load_kept [OF d M' _ assms(5)]) (use assms(4) k in \<open>auto simp: store_named_def kept_def\<close>)
  ultimately show ?thesis by (simp add: manifest_of_read [OF M'])
qed

subsection \<open>Restarting\<close>

definition restarted :: "store \<Rightarrow> store" where
  "restarted s = s \<lparr> st_disk := (st_disk s) \<lparr> dk_io := [] \<rparr> \<rparr>"

lemma restarted_files:
  "read_manifest (st_disk (restarted s)) = read_manifest (st_disk s)"
  "load_manifest_generation C (st_disk (restarted s)) m v = load_manifest_generation C (st_disk s) m v"
  by (simp_all add: restarted_def read_manifest_def load_manifest_generation_def read_file_bytes_def
      load_indexed_chain_def file_exists_def file_content_def cong: if_cong)

lemma io_call_empty: "dk_io (st_disk s) = [] \<Longrightarrow> on_disk (io_call a) s = (Inr (), s)"
  by (simp add: on_disk_def io_call_def)

lemma store_load_manifest:
  assumes io: "dk_io (st_disk s) = []" and m: "read_manifest (st_disk s) = Inr m"
    and l: "load_manifest_generation C (st_disk s) m True = Inr r"
  shows "fst (store_load C s) = Inr r"
proof -
  have "file_exists (st_disk s) manifest_path"
    using m by (auto simp: read_manifest_def read_file_bytes_def file_exists_def split: option.splits)
  then show ?thesis
    using m l
    by (simp add: store_load_def load_committed_def note_loaded_def on_stats_def sx_simps
        io_call_empty [OF io] split: prod.splits)
qed

lemma restarted_load:
  "read_manifest (st_disk s) = Inr m \<Longrightarrow> load_manifest_generation C (st_disk s) m True = Inr r \<Longrightarrow>
     fst (store_load C (restarted s)) = Inr r"
  by (rule store_load_manifest) (simp_all add: restarted_files, simp add: restarted_def)

text \<open>Whatever fails during a commit, the next start loads the old chain or the new one.\<close>

lemma commit_crash_safe:
  assumes "disk_ok (st_disk s)" "read_manifest (st_disk s) = Inr m" "store_named m"
    and "load_manifest_generation C (st_disk s) m True = Inr old"
    and "store_commit C bs u s = (Inl e, s')" "storable bs u" "heights_agree C (st_disk s') bs"
  shows "fst (store_load C (restarted s')) = Inr old \<or>
    (\<exists>bs'. fst (store_load C (restarted s')) = Inr (bs', u) \<and> same_chain C bs bs')"
  using store_commit_throws [OF assms(1,5,2,3)]
proof (elim disjE)
  assume "keeps {manifest_path, index_path (mf_generation m), utxo_path (mf_generation m)}
      (map_of (dk_files (st_disk s))) (st_disk s')"
  from keeps_load [OF assms(1) this assms(2,3,4)] show ?thesis
    using restarted_load by blast
next
  assume "committed C (mf_generation m + 1) bs u (st_disk s')"
  from committed_load [OF this assms(6,7)] show ?thesis
    using restarted_load by blast
qed

lemma commit_then_load:
  assumes "disk_ok (st_disk s)" "store_commit C bs u s = (Inr (), s')" "storable bs u" "heights_agree C (st_disk s') bs"
  shows "\<exists>bs'. fst (store_load C (restarted s')) = Inr (bs', u) \<and> same_chain C bs bs'"
  using store_commit_returns [OF assms] restarted_load by blast

end
