(* ===== verification/Calm.thy ===== *)
theory Calm
  imports Disk
begin

section \<open>Runs in which nothing fails\<close>

text \<open>
  \<open>returns\<close> is the total counterpart of \<open>triple\<close>: from a state with \<open>P\<close> the program returns, and
  leaves \<open>Q\<close>. \<open>calm\<close> disks have no scheduled failure; the file operations of \<open>Disk\<close> return on them.
\<close>

definition returns :: "('s \<Rightarrow> bool) \<Rightarrow> ('s, 'a) sx \<Rightarrow> ('a \<Rightarrow> 's \<Rightarrow> bool) \<Rightarrow> bool" where
  "returns P m Q \<longleftrightarrow> (\<forall>s. P s \<longrightarrow> (\<exists>x s'. m s = (Inr x, s') \<and> Q x s'))"

lemma returnsD: "returns P m Q \<Longrightarrow> P s \<Longrightarrow> \<exists>x s'. m s = (Inr x, s') \<and> Q x s'"
  by (simp add: returns_def)

lemma returns_bind: "returns P m Q \<Longrightarrow> (\<And>x. returns (Q x) (f x) R) \<Longrightarrow> returns P (bindS m f) R"
  unfolding returns_def bindS_def by (metis (mono_tags, lifting) old.sum.simps(6) prod.simps(2))

lemma returns_return: "(\<And>s. P s \<Longrightarrow> Q x s) \<Longrightarrow> returns P (returnS x) Q"
  by (simp add: returns_def returnS_def)

lemma returns_get: "(\<And>s. P s \<Longrightarrow> Q (f s) s) \<Longrightarrow> returns P (getS f) Q"
  by (simp add: returns_def getS_def)

lemma returns_modify: "(\<And>s. P s \<Longrightarrow> Q () (f s)) \<Longrightarrow> returns P (modifyS f) Q"
  by (simp add: returns_def modifyS_def)

lemma returns_lift: "(\<And>s. P s \<Longrightarrow> \<exists>x. r = Inr x \<and> Q x s) \<Longrightarrow> returns P (liftS r) Q"
  by (auto simp: returns_def liftS_def)

lemma returns_pre: "returns P m Q \<Longrightarrow> (\<And>s. P' s \<Longrightarrow> P s) \<Longrightarrow> returns P' m Q"
  by (simp add: returns_def)

lemma returns_triple: "returns P m Q \<Longrightarrow> triple P' m Q' E \<Longrightarrow> returns (\<lambda>s. P s \<and> P' s) m (\<lambda>x s. Q x s \<and> Q' x s)"
  unfolding returns_def by (metis tripleD(1))

lemma returns_if: "(b \<Longrightarrow> returns P m Q) \<Longrightarrow> (\<not> b \<Longrightarrow> returns P n Q) \<Longrightarrow> returns P (if b then m else n) Q"
  by simp

lemma run_get: "bindS (getS f) k s = k (f s) s"
  by (simp add: bindS_def getS_def)

lemma run_lift: "bindS (liftS (Inr x)) k s = k x s"
  by (simp add: bindS_def liftS_def)

lemma run_modify: "bindS (modifyS f) k s = k () (f s)"
  by (simp add: bindS_def modifyS_def)

lemma run_return: "bindS (returnS x) k s = k x s"
  by (simp add: bindS_def returnS_def)

lemma run_bind: "m s = (Inr x, t) \<Longrightarrow> bindS m k s = k x t"
  by (simp add: bindS_def)

subsection \<open>Files\<close>

definition calm :: "disk \<Rightarrow> bool" where
  "calm d \<longleftrightarrow> dk_io d = []"

lemma calm_io: "returns calm (io_call a) (\<lambda>_. calm)"
  by (simp add: returns_def calm_def io_call_def)

lemma calm_modify: "(\<And>d. dk_io (f d) = dk_io d) \<Longrightarrow> returns calm (modifyS f) (\<lambda>_. calm)"
  by (rule returns_modify) (simp add: calm_def)

lemma calm_get: "returns calm (getS f) (\<lambda>_. calm)"
  by (rule returns_get)

lemma write_chunks_calm: "write_chunks [] bs w = (Inr (), w @ bs, [])"
  by (cases bs) simp_all

lemma calm_write_eq: "calm d \<Longrightarrow> write_all p bs d = (Inr (), put_file p (file_content d p @ bs) d)"
  by (cases d) (simp add: calm_def write_all_def write_chunks_calm put_file_def file_content_def)

lemma calm_write: "returns calm (write_all p bs) (\<lambda>_. calm)"
  by (simp add: returns_def calm_write_eq) (simp add: calm_def put_file_def)

lemma returns_try: "returns P m Q \<Longrightarrow> returns P (tryS m h) Q"
  unfolding returns_def tryS_def by (metis (mono_tags, lifting) old.sum.simps(6) prod.simps(2))

lemma calm_replace: "returns calm (replace_file_atomically a b) (\<lambda>_. calm)"
  unfolding replace_file_atomically_def
  by (rule returns_bind, rule returns_try, rule calm_io, rule calm_modify) (simp add: put_file_def remove_file_def)

lemma calm_fsync: "returns calm fsync_directory (\<lambda>_. calm)"
  unfolding fsync_directory_def by (rule returns_bind [OF calm_io calm_io])

lemma calm_atomic: "returns calm (atomic_write p bs) (\<lambda>_. calm)"
  unfolding atomic_write_def Let_def
  by (rule returns_bind [OF calm_io] returns_try calm_modify returns_bind [OF calm_write] calm_io
        returns_bind [OF calm_replace] calm_fsync returns_bind | simp add: put_file_def)+

end
