(* ===== verification/StorageLive.thy ===== *)
theory StorageLive
  imports StorageCommit Calm
begin

section \<open>Without failing calls a commit returns (storage.cpp)\<close>

text \<open>
  The other half of the commit's correctness: from a block file without a torn tail, and when no
  system call fails, \<open>store_commit\<close> returns for every non-empty list of recordable blocks. With the triples of the commit it follows that the chain is then
  what the next start loads.
\<close>

subsection \<open>The block file\<close>

lemma scan_end_append: "scan_end (c @ x) off = scan_end (c @ x) (scan_end c off)"
proof (induction c off rule: scan_end.induct)
  case (1 c off)
  show ?case
  proof (cases "off \<ge> length c \<or> record_frame c off = None")
    case True
    then show ?thesis by (auto simp: scan_end.simps [of c])
  next
    case False
    then obtain p where p: "record_frame c off = Some p" by blast
    let ?off = "off + BLOCK_RECORD_HEADER_SIZE + unat p"
    have "scan_end (c @ x) off = scan_end (c @ x) ?off"
      using False record_frame_extend [OF p] by (subst scan_end.simps) simp
    with 1 False p show ?thesis by (simp add: scan_end.simps [of c off])
  qed
qed

definition clean_file :: "bytes \<Rightarrow> bool" where
  "clean_file c \<longleftrightarrow> scan_end c 0 = length c"

definition scan_keys :: "crypto \<Rightarrow> bytes \<Rightarrow> string set" where
  "scan_keys C c = fst ` set (scan_from C c 0 [])"

lemma clean_empty [simp]: "clean_file []"
  by (simp add: clean_file_def scan_end.simps)

lemma append_record_scans:
  assumes C: "crypto_ok C" and ok: "stored_ok b" and r: "make_record_bytes C b = Inr r" and c: "clean_file c"
    and h: "hash_hex C (b_header (sb_block b)) = Inr h"
  shows "clean_file (c @ r) \<and> scan_keys C (c @ r) = insert h (scan_keys C c) \<and>
    scan_from C (c @ r) 0 [] = map_emplace h \<lparr> ie_height = sb_height b, ie_offset = word_of_nat (length c),
       ie_payload_size = word_of_nat (length r - BLOCK_RECORD_HEADER_SIZE), ie_hash = h \<rparr> (scan_from C c 0 [])"
proof -
  define n where "n = length r - BLOCK_RECORD_HEADER_SIZE"
  let ?p = "word_of_nat n :: u64"
  note rr = read_record_record [OF C ok r]
  have f: "record_frame (c @ r) (length c) = Some ?p" and rd: "read_record_at C (c @ r) (length c) (Some ?p) = Inr b"
    using rr(1,2) [where pre = c and suf = "[]"] unfolding n_def by (simp_all only: append_Nil2)
  have sz: "length c + BLOCK_RECORD_HEADER_SIZE + unat ?p = length (c @ r)"
    using rr(3,4) unat_of_size [of n] by (simp add: MAX_BLOCK_RECORD_SIZE_def n_def)
  have ne: "length c < length (c @ r)"
    using rr(3) by (cases r) (simp_all add: BLOCK_RECORD_HEADER_SIZE_def)
  have "scan_end (c @ r) 0 = scan_end (c @ r) (length c)"
    using scan_end_append [of c r 0] c by (simp add: clean_file_def)
  also have "\<dots> = scan_end (c @ r) (length (c @ r))"
    using ne f by (subst scan_end.simps) (simp only: sz option.case if_False not_le [symmetric] if_not_P)
  also have "\<dots> = length (c @ r)" by (subst scan_end.simps) simp
  finally have clean: "clean_file (c @ r)" by (simp add: clean_file_def)
  let ?e = "\<lparr> ie_height = sb_height b, ie_offset = word_of_nat (length c), ie_payload_size = ?p, ie_hash = h \<rparr>"
  have "scan_from C (c @ r) 0 [] = scan_from C (c @ r) (length c) (scan_from C c 0 [])"
    using scan_from_append [of C c r 0 "[]"] c by (simp add: clean_file_def)
  also have "\<dots> = scan_from C (c @ r) (length (c @ r)) (catalog_entry C (c @ r) (length c) ?p (scan_from C c 0 []))"
    using ne f by (subst scan_from.simps) (simp only: sz option.case if_False not_le [symmetric] if_not_P)
  also have "\<dots> = catalog_entry C (c @ r) (length c) ?p (scan_from C c 0 [])" by (subst scan_from.simps) simp
  also have "\<dots> = map_emplace h ?e (scan_from C c 0 [])"
    using rd h by (simp add: catalog_entry_def)
  finally have sf: "scan_from C (c @ r) 0 [] = map_emplace h ?e (scan_from C c 0 [])" .
  then show ?thesis using clean unfolding n_def by (simp only: scan_keys_def keys_emplace simp_thms)
qed

definition recordable :: "crypto \<Rightarrow> stored_block \<Rightarrow> bool" where
  "recordable C b \<longleftrightarrow> stored_ok b \<and> (\<exists>r. make_record_bytes C b = Inr r)"

definition hashes_of :: "crypto \<Rightarrow> stored_block list \<Rightarrow> string set" where
  "hashes_of C bs = {h. \<exists>b \<in> set bs. hash_hex C (b_header (sb_block b)) = Inr h}"

lemma recordable_hash: "crypto_ok C \<Longrightarrow> recordable C b \<Longrightarrow> \<exists>h. hash_hex C (b_header (sb_block b)) = Inr h"
  by (auto simp: recordable_def stored_ok_def hash_hex_def header_raw_hash_ok canonical_valid)

text \<open>The block file after appending the records of the blocks it does not hold yet.\<close>

fun appended :: "crypto \<Rightarrow> bytes \<Rightarrow> stored_block list \<Rightarrow> bytes" where
  "appended C c [] = c"
| "appended C c (b # bs) =
     (case (hash_hex C (b_header (sb_block b)), make_record_bytes C b) of
        (Inr h, Inr r) \<Rightarrow> appended C (if h \<in> scan_keys C c then c else c @ r) bs
      | _ \<Rightarrow> c)"

lemma appended_facts:
  assumes C: "crypto_ok C"
  shows "(\<forall>b \<in> set bs. recordable C b) \<Longrightarrow> clean_file c \<Longrightarrow>
    clean_file (appended C c bs) \<and> scan_keys C (appended C c bs) = scan_keys C c \<union> hashes_of C bs"
proof (induction bs arbitrary: c)
  case Nil
  then show ?case by (simp add: hashes_of_def)
next
  case (Cons b bs)
  obtain h where h: "hash_hex C (b_header (sb_block b)) = Inr h"
    using recordable_hash [OF C] Cons.prems(1) by auto
  obtain r where ok: "stored_ok b" and r: "make_record_bytes C b = Inr r"
    using Cons.prems(1) by (auto simp: recordable_def)
  have K: "hashes_of C (b # bs) = insert h (hashes_of C bs)"
    using h by (auto simp: hashes_of_def)
  note scan = append_record_scans [OF C ok r Cons.prems(2) h]
  show ?case
    using Cons.IH [of c] Cons.IH [of "c @ r"] Cons.prems scan by (auto simp: h r K)
qed

definition block_file_is :: "bytes \<Rightarrow> disk \<Rightarrow> bool" where
  "block_file_is c d \<longleftrightarrow> disk_ok d \<and> map_of (dk_files d) blocks_path = Some c"

lemma block_file_write:
  "returns (\<lambda>d. calm d \<and> block_file_is c d) (write_all blocks_path r) (\<lambda>_ d. calm d \<and> block_file_is (c @ r) d)"
  unfolding returns_def
proof (intro allI impI)
  fix d assume d: "calm d \<and> block_file_is c d"
  then have w: "write_all blocks_path r d = (Inr (), put_file blocks_path (c @ r) d)"
    by (simp add: calm_write_eq block_file_is_def file_content_def)
  have "has (map_of (dk_files d)) d" using d by (simp add: block_file_is_def has_def)
  from has_put [OF this, of blocks_path "c @ r"] d
  have "calm (put_file blocks_path (c @ r) d) \<and> block_file_is (c @ r) (put_file blocks_path (c @ r) d)"
    by (simp add: has_def block_file_is_def) (simp add: calm_def put_file_def)
  with w show "\<exists>x s'. write_all blocks_path r d = (Inr x, s') \<and> calm s' \<and> block_file_is (c @ r) s'" by blast
qed

lemma append_records_returns:
  assumes C: "crypto_ok C"
  shows "(\<forall>b \<in> set bs. recordable C b) \<Longrightarrow> clean_file c \<Longrightarrow> fst ` set cat = scan_keys C c \<Longrightarrow>
    returns (\<lambda>d. calm d \<and> block_file_is c d) (append_records C bs off cat a)
      (\<lambda>_ d. calm d \<and> block_file_is (appended C c bs) d)"
proof (induction bs arbitrary: off cat a c)
  case Nil
  then show ?case by (simp add: returns_return)
next
  case (Cons b bs)
  obtain h where h: "hash_hex C (b_header (sb_block b)) = Inr h"
    using recordable_hash [OF C] Cons.prems(1) by auto
  obtain r where ok: "stored_ok b" and r: "make_record_bytes C b = Inr r"
    using Cons.prems(1) by (auto simp: recordable_def)
  have bs: "\<forall>b \<in> set bs. recordable C b" using Cons.prems(1) by simp
  note scan = append_record_scans [OF C ok r Cons.prems(2) h]
  let ?e = "\<lparr> ie_height = sb_height b, ie_offset = word_of_nat off,
              ie_payload_size = word_of_nat (length r - BLOCK_RECORD_HEADER_SIZE), ie_hash = h \<rparr>"
  have mem: "map_contains cat h \<longleftrightarrow> h \<in> scan_keys C c"
    using Cons.prems(3) by (simp add: map_contains_def map_of_eq_None_iff)
  show ?case
  proof (cases "h \<in> scan_keys C c")
    case True
    with Cons.IH [OF bs Cons.prems(2,3)] show ?thesis
      by (simp add: run_lift h r mem returns_def)
  next
    case False
    have "returns (\<lambda>d. calm d \<and> block_file_is c d)
       (bindS (write_all blocks_path r) (\<lambda>_. append_records C bs (off + length r) (map_emplace h ?e cat) True))
       (\<lambda>_ d. calm d \<and> block_file_is (appended C (c @ r) bs) d)"
      by (rule returns_bind [OF block_file_write])
         (use Cons.IH [OF bs, of "c @ r" "map_emplace h ?e cat"] Cons.prems(3) scan in \<open>simp add: keys_emplace\<close>)
    then show ?thesis
      using False by (simp add: run_lift h r mem returns_def)
  qed
qed

text \<open>Blocks the file holds already are skipped.\<close>

lemma append_known:
  "hashes_of C bs \<subseteq> fst ` set cat \<Longrightarrow> (\<forall>b \<in> set bs. \<exists>h. hash_hex C (b_header (sb_block b)) = Inr h) \<Longrightarrow>
     append_records C bs off cat a d = (Inr (cat, a), d)"
proof (induction bs)
  case (Cons b bs)
  obtain h where h: "hash_hex C (b_header (sb_block b)) = Inr h" using Cons.prems(2) by auto
  then have "map_contains cat h" using Cons.prems(1) by (auto simp: hashes_of_def map_contains_def map_of_eq_None_iff)
  moreover have "append_records C bs off cat a d = (Inr (cat, a), d)"
    using Cons by (auto simp: hashes_of_def)
  ultimately show ?case by (simp add: run_lift h)
qed (simp add: returnS_def)

definition quiet_store :: "bytes \<Rightarrow> disk \<Rightarrow> bool" where
  "quiet_store c d \<longleftrightarrow> calm d \<and> disk_ok d \<and> file_content d blocks_path = c"

definition clean_store :: "bytes \<Rightarrow> disk \<Rightarrow> bool" where
  "clean_store c d \<longleftrightarrow> calm d \<and> disk_ok d \<and> file_content d blocks_path = c \<and> clean_file c"

lemma clean_quiet: "clean_store c d \<longleftrightarrow> quiet_store c d \<and> clean_file c"
  by (auto simp: clean_store_def quiet_store_def)

lemma append_blocks_after:
  assumes records: "\<And>cat off. fst ` set cat = scan_keys C c \<Longrightarrow>
    returns (\<lambda>d. calm d \<and> block_file_is c d) (append_records C bs off cat False) (\<lambda>_ d. calm d \<and> block_file_is c' d)"
  shows "returns (quiet_store c) (append_blocks_file C bs) (\<lambda>_ d. calm d \<and> block_file_is c' d)"
  unfolding returns_def
proof (intro allI impI)
  fix d assume d: "quiet_store c d"
  define d1 where "d1 = (if file_exists d blocks_path then d else put_file blocks_path [] d)"
  have op: "open_append d = (Inr (), d1)"
    using d by (simp add: open_append_def sx_defs io_call_def calm_def quiet_store_def d1_def)
  have d1: "calm d1 \<and> block_file_is c d1"
  proof (cases "file_exists d blocks_path")
    case True
    with d show ?thesis by (auto simp: d1_def block_file_is_def quiet_store_def file_exists_def file_content_def)
  next
    case False
    have "has (map_of (dk_files d)) d" using d by (simp add: has_def quiet_store_def)
    from has_put [OF this, of blocks_path "[]"] False d show ?thesis
      by (simp add: d1_def block_file_is_def has_def file_exists_def file_content_def quiet_store_def)
         (auto simp: calm_def put_file_def)
  qed
  have k: "fst ` set (scan_catalog C d) = scan_keys C c"
    using d by (auto simp: scan_catalog_def scan_keys_def quiet_store_def file_exists_def file_content_def scan_from.simps)
  have io: "io_call a e = (Inr (), e)" if "calm e" for a e
    using that by (simp add: io_call_def calm_def)
  obtain cat ap d2 where ar: "append_records C bs (file_size_or_zero d1 blocks_path) (scan_catalog C d) False d1 = (Inr (cat, ap), d2)"
    and d2: "calm d2" "block_file_is c' d2"
    using returnsD [OF records [OF k] d1] by (metis surj_pair)
  have "append_blocks_file C bs d = (Inr cat, d2)"
    using d1 d2 by (simp add: append_blocks_file_def sx_defs op ar io fsync_directory_def)
  with d2 show "\<exists>x s'. append_blocks_file C bs d = (Inr x, s') \<and> calm s' \<and> block_file_is c' s'"
    by auto
qed

subsection \<open>The commit\<close>

lemma catalog_entries_return:
  "hashes_of C bs \<subseteq> fst ` set cat \<Longrightarrow> (\<forall>b \<in> set bs. \<exists>h. hash_hex C (b_header (sb_block b)) = Inr h) \<Longrightarrow>
     \<exists>es. mapE (catalog_index_entry C cat) bs = Inr es"
proof (induction bs)
  case (Cons b bs)
  obtain h where h: "hash_hex C (b_header (sb_block b)) = Inr h" using Cons.prems(2) by auto
  then have "h \<in> fst ` set cat" using Cons.prems(1) by (auto simp: hashes_of_def)
  then obtain e where "map_of cat h = Some e" by (metis map_of_eq_None_iff not_None_eq)
  moreover have "hashes_of C bs \<subseteq> fst ` set cat" using Cons.prems(1) by (auto simp: hashes_of_def)
  ultimately show ?case using Cons h by (auto simp: catalog_index_entry_def)
qed simp

lemma sha256_hex_total: "crypto_ok C \<Longrightarrow> \<exists>h. sha256_hex C x = Inr h"
  by (simp add: sha256_hex_def sha256_def sha256_once_ok)

text \<open>What follows the append leaves the block file alone.\<close>

lemma atomic_block_file:
  assumes "p \<noteq> blocks_path" "p @ ''.tmp'' \<noteq> blocks_path"
  shows "triple (block_file_is c) (atomic_write p x) (\<lambda>_. block_file_is c) (block_file_is c)"
proof (rule tripleI)
  have others: "atomic_outcome M p x d \<Longrightarrow> M blocks_path = Some c \<Longrightarrow> block_file_is c d" for M d
    using atomic_outcome_others [of M p x d "{blocks_path}"] assms by (auto simp: has_def block_file_is_def)
  {
    fix d assume "block_file_is c d"
    then have h: "has (map_of (dk_files d)) d" "map_of (dk_files d) blocks_path = Some c"
      by (simp_all add: has_def block_file_is_def)
    note h
  } note h = this
  show "block_file_is c d'" if "block_file_is c d" "atomic_write p x d = (Inr u, d')" for d u d'
    using tripleD(1) [OF atomic_write_triple h(1) [OF that(1)] that(2)] h(2) [OF that(1)]
    by (rule others [OF atomic_outcomeI])
  show "block_file_is c d'" if "block_file_is c d" "atomic_write p x d = (Inl e, d')" for d e d'
    using tripleD(2) [OF atomic_write_triple h(1) [OF that(1)] that(2)] h(2) [OF that(1)] by (rule others)
qed

lemma calm_block_atomic:
  assumes "p \<noteq> blocks_path" "p @ ''.tmp'' \<noteq> blocks_path"
  shows "returns (\<lambda>d. calm d \<and> block_file_is c d) (atomic_write p x) (\<lambda>_ d. calm d \<and> block_file_is c d)"
  by (rule returns_triple [OF calm_atomic atomic_block_file [OF assms]])

lemma manifest_returns:
  assumes C: "crypto_ok C" and hs: "\<forall>b \<in> set bs. \<exists>h. hash_hex C (b_header (sb_block b)) = Inr h"
    and bs: "bs \<noteq> []" and c: "hashes_of C bs \<subseteq> scan_keys C c"
  shows "returns (\<lambda>d. calm d \<and> block_file_is c d) (manifest_for_generation C g bs u) (\<lambda>_ d. calm d \<and> block_file_is c d)"
  unfolding returns_def
proof (intro allI impI)
  fix d assume d: "calm d \<and> block_file_is c d"
  have "hashes_of C bs \<subseteq> fst ` set (scan_catalog C d)"
    using d c by (simp add: block_file_is_def scan_catalog_def scan_keys_def file_exists_def file_content_def)
  from catalog_entries_return [OF this hs] obtain es where
    es: "mapE (catalog_index_entry C (scan_catalog C d)) bs = Inr es" by blast
  obtain best where best: "hash_hex C (b_header (sb_block (last bs))) = Inr best"
    using hs bs by (meson last_in_set)
  let ?P = "\<lambda>d. calm d \<and> block_file_is c d"
  have r: "returns ?P
     (bindS (atomic_write (index_path g) x) (\<lambda>_. bindS (atomic_write (utxo_path g) y) (\<lambda>_.
      bindS (liftS (sha256_hex C x)) (\<lambda>i. bindS (liftS (sha256_hex C y)) (\<lambda>j.
      bindS (getS (\<lambda>d. file_size_or_zero d blocks_path)) (\<lambda>size. returnS (k i j size))))))) (\<lambda>_. ?P)"
    for x y and k :: "string \<Rightarrow> string \<Rightarrow> nat \<Rightarrow> manifest"
    by (intro returns_bind [OF calm_block_atomic] returns_bind [where Q = "\<lambda>_. ?P"] returns_lift returns_get returns_return conjI)
       (use sha256_hex_total [OF C] in auto)
  from returnsD [OF r d] show "\<exists>x s'. manifest_for_generation C g bs u d = (Inr x, s') \<and> calm s' \<and> block_file_is c s'"
    unfolding manifest_for_generation_def Let_def generation_paths by (simp add: run_get run_lift es best)
qed

lemma on_disk_returns: "returns P m Q \<Longrightarrow> returns (\<lambda>s. P (st_disk s)) (on_disk m) (\<lambda>x s. Q x (st_disk s))"
  unfolding returns_def on_disk_def by fastforce

lemma foldl_io: "(\<And>d x. dk_io (f d x) = dk_io d) \<Longrightarrow> dk_io (foldl f d xs) = dk_io d"
  by (induction xs arbitrary: d) simp_all

lemma cleanup_block_file:
  "returns (\<lambda>d. calm d \<and> block_file_is c d) (modifyS (cleanup_old_generations g)) (\<lambda>_ d. calm d \<and> block_file_is c d)"
proof (rule returns_modify)
  fix d assume d: "calm d \<and> block_file_is c d"
  have "dk_io (cleanup_old_generations g d) = dk_io d"
    unfolding cleanup_old_generations_def by (rule foldl_io) (simp add: remove_file_def)
  moreover have "has (map_of (dk_files d)) d" using d by (simp add: has_def block_file_is_def)
  from cleanup_files [OF this, of g] have "block_file_is c (cleanup_old_generations g d)"
    using d by (auto simp: has_def block_file_is_def generation_files_def)
  ultimately show "calm (cleanup_old_generations g d) \<and> block_file_is c (cleanup_old_generations g d)"
    using d by (simp add: calm_def)
qed

lemma store_commit_after:
  assumes C: "crypto_ok C" and hs: "\<forall>b \<in> set bs. \<exists>h. hash_hex C (b_header (sb_block b)) = Inr h" and bs: "bs \<noteq> []"
    and append: "returns (quiet_store c) (append_blocks_file C bs) (\<lambda>_ d. calm d \<and> block_file_is c' d)"
    and c: "hashes_of C bs \<subseteq> scan_keys C c'"
  shows "returns (\<lambda>s. quiet_store c (st_disk s)) (store_commit C bs u)
    (\<lambda>_ s. calm (st_disk s) \<and> block_file_is c' (st_disk s))"
proof -
  let ?Q = "\<lambda>d. calm d \<and> block_file_is c' d"
  have io: "returns (\<lambda>s. quiet_store c (st_disk s)) (on_disk (io_call a)) (\<lambda>_ s. quiet_store c (st_disk s))" for a
    by (rule on_disk_returns) (simp add: returns_def io_call_def calm_def quiet_store_def)
  have marker: "chainstate_file ''migrated-from-chain-v3'' \<noteq> blocks_path"
    "chainstate_file ''migrated-from-chain-v3'' @ ''.tmp'' \<noteq> blocks_path"
    by (simp_all add: chainstate_file_def blocks_path_def)
  show ?thesis
    unfolding store_commit_def
    by (simp add: bs)
       (intro returns_bind [OF io] returns_bind [OF on_disk_returns [OF append]]
          returns_bind [OF returns_get, where Q = "\<lambda>_ s. ?Q (st_disk s)"]
          returns_bind [OF on_disk_returns [OF manifest_returns [OF C hs bs c]]]
          returns_bind [OF on_disk_returns [OF calm_block_atomic]]
          returns_bind [where Q = "\<lambda>_ s. ?Q (st_disk s)"] returns_if returns_return
          on_disk_returns [OF calm_block_atomic [OF marker]] on_disk_returns [OF cleanup_block_file];
        simp add: on_stats_def returns_modify)
qed

lemma store_commit_total:
  assumes C: "crypto_ok C" and bs: "\<forall>b \<in> set bs. recordable C b" "bs \<noteq> []" and c: "clean_file c"
  shows "returns (\<lambda>s. clean_store c (st_disk s)) (store_commit C bs u)
    (\<lambda>_ s. clean_store (appended C c bs) (st_disk s) \<and> block_file_is (appended C c bs) (st_disk s))"
proof -
  have hs: "\<forall>b \<in> set bs. \<exists>h. hash_hex C (b_header (sb_block b)) = Inr h"
    using recordable_hash [OF C] bs(1) by blast
  have af: "clean_file (appended C c bs)" "hashes_of C bs \<subseteq> scan_keys C (appended C c bs)"
    using appended_facts [OF C bs(1) c] by auto
  have "returns (quiet_store c) (append_blocks_file C bs) (\<lambda>_ d. calm d \<and> block_file_is (appended C c bs) d)"
    by (rule append_blocks_after [OF append_records_returns [OF C bs(1) c]])
  from store_commit_after [OF C hs bs(2) this af(2), of u] show ?thesis
    unfolding returns_def using af(1) c
    by (fastforce simp: clean_quiet quiet_store_def block_file_is_def file_content_def)
qed

text \<open>A commit of blocks the file holds already returns whatever stands behind them, and leaves the file as it was.\<close>

lemma store_commit_known:
  assumes C: "crypto_ok C" and hs: "\<forall>b \<in> set bs. \<exists>h. hash_hex C (b_header (sb_block b)) = Inr h" and bs: "bs \<noteq> []"
    and c: "hashes_of C bs \<subseteq> scan_keys C c"
  shows "returns (\<lambda>s. quiet_store c (st_disk s)) (store_commit C bs u)
    (\<lambda>_ s. calm (st_disk s) \<and> block_file_is c (st_disk s))"
proof (rule store_commit_after [OF C hs bs append_blocks_after c])
  fix cat :: "(string \<times> index_entry) list" and off
  assume "fst ` set cat = scan_keys C c"
  then have "append_records C bs off cat False d = (Inr (cat, False), d)" for d using append_known [OF _ hs] c by simp
  then show "returns (\<lambda>d. calm d \<and> block_file_is c d) (append_records C bs off cat False) (\<lambda>_ d. calm d \<and> block_file_is c d)"
    unfolding returns_def by blast
qed

text \<open>
  A chain committed to a store whose block file holds other blocks at their own heights: the
  catalogue's heights agree with the chain's.
\<close>

text \<open>On a fresh store the record of a block is found at its height and reads back.\<close>

lemma records_fresh:
  assumes C: "crypto_ok C" and b: "recordable C b" and d: "block_file_is (appended C [] [b]) d"
  shows "records_agree C d [b]"
proof -
  obtain h where h: "hash_hex C (b_header (sb_block b)) = Inr h"
    using recordable_hash [OF C b] by blast
  obtain r where ok: "stored_ok b" and r: "make_record_bytes C b = Inr r"
    using b by (auto simp: recordable_def)
  have k: "scan_keys C [] = {}" by (simp add: scan_keys_def scan_from.simps)
  have c: "file_content d blocks_path = r" "file_exists d blocks_path"
    using d by (simp_all add: h r k block_file_is_def file_content_def file_exists_def)
  have "scan_from C r 0 [] = [(h, \<lparr> ie_height = sb_height b, ie_offset = 0,
       ie_payload_size = word_of_nat (length r - BLOCK_RECORD_HEADER_SIZE), ie_hash = h \<rparr>)]"
    using append_record_scans [OF C ok r clean_empty h] by (simp add: scan_from.simps [of C "[]"])
  moreover have "length r < 2 ^ 64"
    using read_record_record(4) [OF C ok r] by (simp add: MAX_BLOCK_RECORD_SIZE_def BLOCK_RECORD_HEADER_SIZE_def)
  moreover have "read_record_at C r 0 (Some (word_of_nat (length r - BLOCK_RECORD_HEADER_SIZE))) = Inr b"
    using read_record_record(2) [OF C ok r, of "[]" "[]"] by simp
  ultimately show ?thesis
    using c h by (simp add: records_agree_def reads_as_def catalog_index_entry_def load_indexed_entry_def
        heights_agree_def scan_catalog_def file_size_or_zero_def)
qed

lemma heights_fresh:
  assumes "crypto_ok C" "recordable C b" "block_file_is (appended C [] [b]) d"
  shows "heights_agree C d [b]"
  using records_fresh [OF assms] by (simp add: records_agree_def)

end
