(* ===== verification/ChainRules.thy ===== *)
theory ChainRules
  imports Utxo
begin

section \<open>Consensus rules for a block list (chain.cpp: verify_blocks)\<close>

text \<open>
  \<open>verify_blocks\<close> is \<^verbatim>\<open>TestnetChain::verify_blocks\<close>: the genesis check, then per block the
  height, proof of work, difficulty, link, time, coinbase, Merkle, fee and subsidy rules over a
  running coin set. \<open>collect_fee\<close> is the loop body that sums the fees of a transaction list; the
  mempool and the miner use it with their own message.

  The locale \<open>value_ledger\<close> is the contract between a transaction step and the code that sums its
  fees: a step moves exactly its fee out of the total. It is interpreted by \<open>apply_transaction\<close>.
  The lemmas show that a verified chain issues exactly the subsidy schedule, that its blocks are
  linked with strictly increasing times, and that the independent reconstruction by
  \<open>build_utxo_set\<close> gives the set the verification computed.
\<close>

definition add_coinbase_outputs :: "crypto \<Rightarrow> transaction \<Rightarrow> u64 \<Rightarrow> (utxo_set, unit) sx" where
  "add_coinbase_outputs C coinbase height =
     bindS (liftS (txid C coinbase)) (\<lambda>transaction_id.
       add_outputs transaction_id height True ''Duplicate coinbase output identifier'' 0
         (tx_outputs coinbase))"

definition collect_fee ::
  "crypto \<Rightarrow> u64 \<Rightarrow> string \<Rightarrow> transaction \<Rightarrow> int \<times> utxo_set \<Rightarrow> (int \<times> utxo_set) res" where
  "collect_fee C height overflow_msg t st =
     (let (fees, utxos) = st in
      case apply_transaction C t height utxos of
        (Inl e, _) \<Rightarrow> Inl e
      | (Inr f, utxos') \<Rightarrow>
          if fees > MAX_MONEY - f then Inl (RuntimeError overflow_msg)
          else Inr (fees + f, utxos'))"

definition transaction_ids :: "crypto \<Rightarrow> stored_block list \<Rightarrow> string set res" where
  "transaction_ids C blocks =
     bindE (mapE (\<lambda>stored. mapE (txid C) (b_transactions (sb_block stored))) blocks) (\<lambda>ids.
       Inr (set (concat ids)))"

definition coin_equal :: "coin \<Rightarrow> coin \<Rightarrow> bool" where
  "coin_equal a b \<longleftrightarrow> to_value (coin_output a) = to_value (coin_output b) \<and>
     to_script_pubkey (coin_output a) = to_script_pubkey (coin_output b) \<and>
     coin_height a = coin_height b \<and> coin_coinbase a = coin_coinbase b"

definition utxo_sets_equal :: "utxo_set \<Rightarrow> utxo_set \<Rightarrow> bool" where
  "utxo_sets_equal left right \<longleftrightarrow> length left = length right \<and>
     list_all (\<lambda>((p, c), (q, d)). op_txid p = op_txid q \<and> op_index p = op_index q \<and> coin_equal c d)
       (zip left right)"

definition verify_genesis :: "crypto \<Rightarrow> stored_block \<Rightarrow> unit res" where
  "verify_genesis C genesis =
     (let bad = Inl (RuntimeError ''Testnet genesis constants do not match the locked genesis block'');
          h = b_header (sb_block genesis); txs = b_transactions (sb_block genesis) in
      if sb_height genesis \<noteq> 0 then bad
      else bindE (hash_hex C h) (\<lambda>hash.
        if hash \<noteq> TESTNET_GENESIS_HASH \<or> bh_merkle_root h \<noteq> TESTNET_GENESIS_MERKLE \<or>
           bh_previous_hash h \<noteq> replicate 64 (CHR ''0'') \<or> bh_bits h \<noteq> TESTNET_GENESIS_BITS \<or>
           length txs \<noteq> 1 then bad
        else bindE (txid C (hd txs)) (\<lambda>i.
          if i \<noteq> TESTNET_GENESIS_TXID \<or> \<not> is_coinbase (hd txs) then bad
          else bindE (sum_outputs (hd txs)) (\<lambda>v. if v \<noteq> INITIAL_SUBSIDY then bad else Inr ()))))"

definition at_height :: "string \<Rightarrow> u64 \<Rightarrow> 'a res" where
  "at_height msg height = Inl (RuntimeError (msg @ '' at height '' @ show_nat (unat height)))"

definition verify_connect ::
  "crypto \<Rightarrow> stored_block \<Rightarrow> stored_block \<Rightarrow> utxo_set \<Rightarrow> utxo_set res" where
  "verify_connect C previous stored utxos =
     (let h = b_header (sb_block stored); txs = b_transactions (sb_block stored);
          height = sb_height stored in
      if bh_bits h \<noteq> TESTNET_BITS then at_height ''Unexpected testnet difficulty bits'' height
      else bindE (hash_hex C (b_header (sb_block previous))) (\<lambda>previous_hash.
      if bh_previous_hash h \<noteq> previous_hash then at_height ''Broken previous-hash link'' height
      else if bh_time h \<le> bh_time (b_header (sb_block previous))
      then at_height ''Block timestamp did not increase'' height
      else if txs = [] \<or> \<not> is_coinbase (hd txs)
      then Inl (RuntimeError ''Block must begin with exactly one coinbase transaction'')
      else if list_ex is_coinbase (tl txs)
      then Inl (RuntimeError ''Block contains more than one coinbase transaction'')
      else bindE (merkle_root_hex C txs) (\<lambda>root.
      if root \<noteq> bh_merkle_root h then at_height ''Transaction Merkle root mismatch'' height
      else bindE (foldE (collect_fee C height ''Block fee overflow'') (tl txs) (0, utxos)) (\<lambda>(fees, utxos).
      bindE (sum_outputs (hd txs)) (\<lambda>coinbase_total.
      bindE (block_subsidy height TESTNET_HALVING_INTERVAL) (\<lambda>subsidy.
      if subsidy > MAX_MONEY - fees \<or> coinbase_total \<noteq> subsidy + fees
      then at_height ''Incorrect coinbase subsidy or fee claim'' height
      else case add_coinbase_outputs C (hd txs) height utxos of
             (Inl e, _) \<Rightarrow> Inl e
           | (Inr _, utxos') \<Rightarrow> Inr utxos'))))))"

definition verify_step ::
  "crypto \<Rightarrow> nat \<Rightarrow> stored_block option \<Rightarrow> stored_block \<Rightarrow> utxo_set \<Rightarrow> utxo_set res" where
  "verify_step C index previous stored utxos =
     (if sb_height stored \<noteq> word_of_nat index
      then Inl (RuntimeError ''Non-contiguous block height'')
      else bindE (header_raw_hash C (b_header (sb_block stored))) (\<lambda>raw.
        bindE (check_proof_of_work raw (bh_bits (b_header (sb_block stored)))) (\<lambda>ok.
        if \<not> ok then at_height ''Invalid proof of work'' (sb_height stored)
        else case previous of
               None \<Rightarrow> Inr utxos
             | Some p \<Rightarrow> verify_connect C p stored utxos)))"

fun verify_loop ::
  "crypto \<Rightarrow> nat \<Rightarrow> stored_block option \<Rightarrow> stored_block list \<Rightarrow> utxo_set \<Rightarrow> utxo_set res" where
  "verify_loop C index previous [] utxos = Inr utxos"
| "verify_loop C index previous (b # bs) utxos =
     bindE (verify_step C index previous b utxos) (\<lambda>utxos'. verify_loop C (Suc index) (Some b) bs utxos')"

definition verify_blocks :: "crypto \<Rightarrow> stored_block list \<Rightarrow> unit res" where
  "verify_blocks C blocks =
     (if blocks = [] then Inl (RuntimeError ''Testnet chain has no genesis block'')
      else bindE (verify_genesis C (hd blocks)) (\<lambda>_.
           bindE (verify_loop C 0 None blocks []) (\<lambda>_. Inr ())))"

definition calculate_chainwork :: "stored_block list \<Rightarrow> int res" where
  "calculate_chainwork blocks =
     foldE (\<lambda>stored acc. bindE (block_proof (bh_bits (b_header (sb_block stored)))) (\<lambda>p. Inr (acc + p)))
       blocks 0"

subsection \<open>Fees leave the total\<close>

locale value_ledger =
  fixes step :: "'t \<Rightarrow> 's \<Rightarrow> (exn + int) \<times> 's"
    and ok :: "'s \<Rightarrow> bool" and money :: "'s \<Rightarrow> int"
  assumes step_conserves: "step t s = (Inr f, s') \<Longrightarrow> ok s \<Longrightarrow>
    ok s' \<and> money s' = money s - f \<and> 0 \<le> f \<and> f \<le> MAX_MONEY"
begin

lemma fold_conserves:
  assumes "\<And>t a s a' s'. body t (a, s) = Inr (a', s') \<Longrightarrow>
      \<exists>f. step t s = (Inr f, s') \<and> a' = a + f \<and> a' \<le> MAX_MONEY"
  shows "foldE body ts (a, s) = Inr (a', s') \<Longrightarrow> ok s \<Longrightarrow> a \<le> MAX_MONEY \<Longrightarrow>
    ok s' \<and> money s' + a' = money s + a \<and> a \<le> a' \<and> a' \<le> MAX_MONEY"
proof (induction ts arbitrary: a s)
  case (Cons t ts)
  obtain b u where b: "body t (a, s) = Inr (b, u)" and r: "foldE body ts (b, u) = Inr (a', s')"
    using Cons.prems(1) by auto
  obtain f where f: "step t s = (Inr f, u)" "b = a + f" "b \<le> MAX_MONEY"
    using assms [OF b] by blast
  from step_conserves [OF f(1) Cons.prems(2)]
  have s: "ok u" "money u = money s - f" "0 \<le> f" by auto
  with Cons.IH [OF r s(1) f(3)] f(2) show ?case by auto
qed simp

end

interpretation ledger: value_ledger "\<lambda>t. apply_transaction C t h" sorted_keys utxo_total for C h
proof
  fix t s f s'
  assume a: "apply_transaction C t h s = (Inr f, s')" and s: "sorted_keys s"
  then show "sorted_keys s' \<and> utxo_total s' = utxo_total s - f \<and> 0 \<le> f \<and> f \<le> MAX_MONEY"
    using applies_facts [OF apply_transaction_Inr [OF a s] s] by simp
qed

lemma collect_fee_Inr:
  "collect_fee C h msg t (a, s) = Inr (a', s') \<longleftrightarrow>
     (\<exists>f. apply_transaction C t h s = (Inr f, s') \<and> a' = a + f \<and> a' \<le> MAX_MONEY)"
  by (auto simp: collect_fee_def split: prod.splits sum.splits)

lemma collect_fees:
  "foldE (collect_fee C h msg) ts (a, s) = Inr (a', s') \<Longrightarrow> sorted_keys s \<Longrightarrow> a \<le> MAX_MONEY \<Longrightarrow>
    sorted_keys s' \<and> utxo_total s' + a' = utxo_total s + a \<and> a \<le> a' \<and> a' \<le> MAX_MONEY"
  by (rule ledger.fold_conserves [of "collect_fee C h msg" C h]) (auto simp: collect_fee_Inr)

subsection \<open>Verified chains\<close>

lemma collect_fees_apply_all:
  "foldE (collect_fee C h msg) ts (a, s) = Inr (a', s') \<Longrightarrow> apply_all C h ts s = (Inr (), s')"
proof (induction ts arbitrary: a s)
  case Nil
  then show ?case by (simp add: sx_defs)
next
  case (Cons t ts)
  obtain b u where "collect_fee C h msg t (a, s) = Inr (b, u)"
    and "foldE (collect_fee C h msg) ts (b, u) = Inr (a', s')"
    using Cons.prems by auto
  then show ?case
    using Cons.IH [of b u] by (auto simp: collect_fee_Inr sx_defs)
qed

lemma txid_valid: "txid C t = Inr s \<Longrightarrow> valid_transaction t"
  by (auto simp: txid_def dest: raw_hash_Inr)

lemma verify_connect_Inr:
  assumes "verify_connect C p b u = Inr u'" "sorted_keys u"
  shows "connect_block C b u = (Inr (), u')"
    and "sorted_keys u'"
    and "utxo_total u' = utxo_total u + era_subsidy (unat (sb_height b) div unat TESTNET_HALVING_INTERVAL)"
    and "hash_hex C (b_header (sb_block p)) = Inr (bh_previous_hash (b_header (sb_block b)))"
    and "bh_time (b_header (sb_block p)) < bh_time (b_header (sb_block b))"
proof -
  define txs where "txs = b_transactions (sb_block b)"
  define h where "h = sb_height b"
  obtain fees v total' s where txs: "txs \<noteq> []" "is_coinbase (hd txs)"
    and f: "foldE (collect_fee C h ''Block fee overflow'') (tl txs) (0, u) = Inr (fees, v)"
    and out: "sum_outputs (hd txs) = Inr total'"
    and s: "block_subsidy h TESTNET_HALVING_INTERVAL = Inr s" "total' = s + fees"
    and add: "add_coinbase_outputs C (hd txs) h v = (Inr (), u')"
    and link: "hash_hex C (b_header (sb_block p)) = Inr (bh_previous_hash (b_header (sb_block b)))"
    and time: "bh_time (b_header (sb_block p)) < bh_time (b_header (sb_block b))"
    using assms(1)
    by (auto simp: verify_connect_def at_height_def Let_def txs_def [symmetric] h_def [symmetric] not_le
        split: if_splits prod.splits sum.splits)
  have "0 \<le> MAX_MONEY" by (simp add: amount_consts)
  from collect_fees [OF f assms(2) this]
  have v: "sorted_keys v" "utxo_total v + fees = utxo_total u" by auto
  obtain i where i: "txid C (hd txs) = Inr i"
    and ao: "add_outputs i h True ''Duplicate coinbase output identifier'' 0 (tx_outputs (hd txs)) v = (Inr (), u')"
    using add by (auto simp: add_coinbase_outputs_def bindS_Inr liftS_def)
  have len: "length (tx_outputs (hd txs)) \<le> 2 ^ 32"
    using txid_valid [OF i] by (rule valid_outputs_32)
  note t = add_outputs_total [OF ao v(1) len]
  show "sorted_keys u'" by (rule t(1))
  show "utxo_total u' = utxo_total u + era_subsidy (unat (sb_height b) div unat TESTNET_HALVING_INTERVAL)"
    using t(2) v(2) s out block_subsidy_era [of TESTNET_HALVING_INTERVAL h]
    by (simp add: sum_outputs_Inr h_def TESTNET_HALVING_INTERVAL_def)
  show "connect_block C b u = (Inr (), u')"
    using txs collect_fees_apply_all [OF f] i ao
    by (simp add: connect_block_def txs_def [symmetric] h_def [symmetric] sx_defs)
  show "hash_hex C (b_header (sb_block p)) = Inr (bh_previous_hash (b_header (sb_block b)))"
    "bh_time (b_header (sb_block p)) < bh_time (b_header (sb_block b))"
    by (rule link time)+
qed

definition height_ok :: "nat \<Rightarrow> stored_block \<Rightarrow> bool" where
  "height_ok i b \<longleftrightarrow> sb_height b = word_of_nat i"

lemma verify_step_Inr:
  "verify_step C i prev b u = Inr u' \<longleftrightarrow>
     height_ok i b \<and> meets_target C (b_header (sb_block b)) \<and>
     (case prev of None \<Rightarrow> u' = u | Some p \<Rightarrow> verify_connect C p b u = Inr u')"
  by (auto simp: verify_step_def height_ok_def meets_target_def at_height_def split: option.splits)

lemma verify_loop_connect:
  "verify_loop C i (Some p) bs u = Inr u' \<Longrightarrow> sorted_keys u \<Longrightarrow> i + length bs \<le> 2 ^ 64 \<Longrightarrow>
     connect_blocks C bs u = (Inr (), u') \<and> sorted_keys u' \<and>
     utxo_total u' = utxo_total u +
       (\<Sum>k<length bs. era_subsidy ((i + k) div unat TESTNET_HALVING_INTERVAL))"
proof (induction bs arbitrary: i p u)
  case Nil
  then show ?case by (simp add: sx_defs)
next
  case (Cons b bs)
  obtain v where st: "verify_connect C p b u = Inr v" and h: "height_ok i b"
    and r: "verify_loop C (Suc i) (Some b) bs v = Inr u'"
    using Cons.prems(1) by (auto simp: verify_step_Inr)
  note c = verify_connect_Inr [OF st Cons.prems(2)]
  have "i < 2 ^ 64" using Cons.prems(3) by simp
  then have height: "unat (sb_height b) = i"
    using h by (simp add: height_ok_def unat_of_size)
  have "connect_blocks C bs v = (Inr (), u') \<and> sorted_keys u' \<and>
      utxo_total u' = utxo_total v + (\<Sum>k<length bs. era_subsidy ((Suc i + k) div unat TESTNET_HALVING_INTERVAL))"
    using Cons.IH [OF r c(2)] Cons.prems(3) by simp
  moreover have "(\<Sum>k<length (b # bs). era_subsidy ((i + k) div unat TESTNET_HALVING_INTERVAL)) =
      era_subsidy (i div unat TESTNET_HALVING_INTERVAL) +
      (\<Sum>k<length bs. era_subsidy ((Suc i + k) div unat TESTNET_HALVING_INTERVAL))"
    by (simp only: length_Cons sum.lessThan_Suc_shift) simp
  ultimately show ?case
    using c(1,3) height by (simp add: sx_defs)
qed

lemma verify_blocks_Inr:
  "verify_blocks C blocks = Inr r \<longleftrightarrow> blocks \<noteq> [] \<and> verify_genesis C (hd blocks) = Inr () \<and>
     (\<exists>u. verify_loop C 0 None blocks [] = Inr u)"
  by (auto simp: verify_blocks_def)

lemma verify_loop_head:
  assumes "verify_loop C 0 None blocks [] = Inr u" "blocks \<noteq> []"
  shows "meets_target C (b_header (sb_block (hd blocks))) \<and> height_ok 0 (hd blocks) \<and>
    verify_loop C 1 (Some (hd blocks)) (tl blocks) [] = Inr u"
  using assms by (cases blocks) (auto simp: verify_step_Inr)

text \<open>The set a verified chain leaves, as computed independently by \<open>build_utxo_set\<close>.\<close>

lemma verified_utxo_set:
  assumes "verify_blocks C blocks = Inr ()" "length blocks \<le> 2 ^ 64"
  shows "\<exists>u. build_utxo_set C blocks = Inr u \<and> verify_loop C 0 None blocks [] = Inr u \<and> sorted_keys u \<and>
    utxo_total u + INITIAL_SUBSIDY = issued (unat TESTNET_HALVING_INTERVAL) (length blocks)"
proof -
  obtain u where ne: "blocks \<noteq> []" and loop: "verify_loop C 0 None blocks [] = Inr u"
    using assms(1) by (auto simp: verify_blocks_Inr)
  from verify_loop_head [OF loop ne]
  have r: "verify_loop C 1 (Some (hd blocks)) (tl blocks) [] = Inr u" by simp
  have len: "length blocks = Suc (length (tl blocks))" using ne by (cases blocks) auto
  have le: "1 + length (tl blocks) \<le> 2 ^ 64"
    using assms(2) len by linarith
  have "connect_blocks C (tl blocks) [] = (Inr (), u) \<and> sorted_keys u \<and>
      utxo_total u = utxo_total [] + (\<Sum>k<length (tl blocks). era_subsidy ((1 + k) div unat TESTNET_HALVING_INTERVAL))"
    by (rule verify_loop_connect [OF r sorted_keys_simps(1) le])
  moreover have "issued (unat TESTNET_HALVING_INTERVAL) (length blocks) =
      era_subsidy 0 + (\<Sum>k<length (tl blocks). era_subsidy ((1 + k) div unat TESTNET_HALVING_INTERVAL))"
    by (simp only: len issued_def sum.lessThan_Suc_shift) simp
  ultimately show ?thesis
    using loop by (simp add: build_utxo_set_def drop_Suc utxo_total_def era_subsidy_def)
qed

lemma verified_supply:
  assumes "verify_blocks C blocks = Inr ()" "length blocks \<le> 2 ^ 64" "build_utxo_set C blocks = Inr u"
  shows "utxo_total u + INITIAL_SUBSIDY = issued (unat TESTNET_HALVING_INTERVAL) (length blocks)"
    and "utxo_total u \<le> MAX_MONEY - INITIAL_SUBSIDY"
proof -
  have "Inr u = Inr v \<Longrightarrow> u = v" for v :: utxo_set by simp
  with verified_utxo_set [OF assms(1,2)] assms(3)
  show eq: "utxo_total u + INITIAL_SUBSIDY = issued (unat TESTNET_HALVING_INTERVAL) (length blocks)"
    by metis
  show "utxo_total u \<le> MAX_MONEY - INITIAL_SUBSIDY"
    using issued_le_max_money [of "length blocks"] unfolding eq [symmetric] by linarith
qed

lemma verify_loop_nth:
  "verify_loop C i prev bs u = Inr u' \<Longrightarrow> k < length bs \<Longrightarrow> sorted_keys u \<Longrightarrow>
     height_ok (i + k) (bs ! k) \<and> meets_target C (b_header (sb_block (bs ! k))) \<and>
     (0 < k \<longrightarrow>
        hash_hex C (b_header (sb_block (bs ! (k - 1)))) = Inr (bh_previous_hash (b_header (sb_block (bs ! k)))) \<and>
        bh_time (b_header (sb_block (bs ! (k - 1)))) < bh_time (b_header (sb_block (bs ! k))))"
proof (induction bs arbitrary: i prev u k)
  case (Cons b bs)
  obtain v where st: "verify_step C i prev b u = Inr v"
    and r: "verify_loop C (Suc i) (Some b) bs v = Inr u'"
    using Cons.prems(1) by auto
  have sv: "sorted_keys v"
    using st Cons.prems(3) by (auto simp: verify_step_Inr dest: verify_connect_Inr(2) split: option.splits)
  show ?case
  proof (cases k)
    case 0
    with st show ?thesis by (simp add: verify_step_Inr)
  next
    case (Suc j)
    then have j: "j < length bs" using Cons.prems(2) by simp
    note ih = Cons.IH [OF r j sv]
    show ?thesis
    proof (cases j)
      case 0
      then obtain c cs where bs: "bs = c # cs" using j by (cases bs) auto
      then have "verify_step C (Suc i) (Some b) c v \<noteq> Inl e" for e
        using r by (cases "verify_step C (Suc i) (Some b) c v") auto
      then obtain w where "verify_connect C b c v = Inr w"
        using r bs by (auto simp: verify_step_Inr)
      from verify_connect_Inr(4,5) [OF this sv] ih show ?thesis
        using Suc 0 bs by simp
    next
      case (Suc l)
      with ih \<open>k = Suc j\<close> show ?thesis by simp
    qed
  qed
qed simp


end
