(* ===== verification/StorageTorn.thy ===== *)
theory StorageTorn
  imports StorageCommit
begin

section \<open>A torn record at the end of the block file (storage.cpp)\<close>

text \<open>
  An append that stops within the first sixteen bytes of a record (magic, version and payload size)
  leaves a tail the scan stops at. The next commit appends behind the tail (nothing truncates the
  file). What it appends is read as the rest of the torn frame: before the eighth byte the magic or
  the version no longer match, after it the payload size is above every limit. So the scan never gets
  past the tail, and \<open>manifest_for_generation\<close> does not find the block it has just written. The
  lemmas show that this state is reached by one interrupted write and never left.

  A record torn behind its payload size is another case. The scan stops there too
  (\<open>long_tear_stops\<close>), but bytes appended later can complete the frame; its checksum then fails, and the scan
  goes on behind it.
\<close>

definition oversize :: "bytes \<Rightarrow> bool" where
  "oversize rest \<longleftrightarrow> (\<exists>i < length rest. 12 \<le> i \<and> i < 16 \<and> rest ! i \<noteq> 0)"

definition torn_tail :: "bytes \<Rightarrow> bool" where
  "torn_tail rest \<longleftrightarrow> (0 < length rest \<and> length rest < 16) \<or> mismatch rest \<or> oversize rest"

definition store_torn :: "bytes \<Rightarrow> disk \<Rightarrow> bool" where
  "store_torn c d \<longleftrightarrow> disk_ok d \<and> scan_end c 0 = length c \<and>
     (\<exists>rest. map_of (dk_files d) blocks_path = Some (c @ rest) \<and> torn_tail rest)"

definition starts_record :: "bytes \<Rightarrow> bool" where
  "starts_record x \<longleftrightarrow> (\<forall>i < length x. i < 5 \<longrightarrow> x ! i = frame_start ! i)"

lemma frame_start_length: "length frame_start = 8"
  by (simp add: frame_start_eq)

lemma record_starts: "make_record_bytes C b = Inr r \<Longrightarrow> starts_record (take n r)"
  by (auto simp: make_record_bytes_Inr record_header_def frame_start_length starts_record_def nth_append)

lemma frame_start_nz: "i < 5 \<Longrightarrow> frame_start ! i \<noteq> 0"
proof -
  have "\<forall>i \<in> {0..<5}. frame_start ! i \<noteq> 0" by code_simp
  then show "i < 5 \<Longrightarrow> frame_start ! i \<noteq> 0" by simp
qed

lemma frame_start_once: "0 < i \<Longrightarrow> i < 8 \<Longrightarrow> frame_start ! i \<noteq> 0x42"
proof -
  have "\<forall>i \<in> {1..<8}. frame_start ! i \<noteq> 0x42" by code_simp
  then show "0 < i \<Longrightarrow> i < 8 \<Longrightarrow> frame_start ! i \<noteq> 0x42" by simp
qed

lemma oversize_extend: "oversize rest \<Longrightarrow> oversize (rest @ x)"
  by (auto simp: oversize_def nth_append)

lemma torn_tail_grow:
  assumes "torn_tail rest" "starts_record x"
  shows "torn_tail (rest @ x)"
proof (cases "mismatch rest \<or> oversize rest")
  case True
  then show ?thesis by (auto simp: torn_tail_def mismatch_extend oversize_extend)
next
  case False
  with assms(1) have k: "0 < length rest" "length rest < 16" by (auto simp: torn_tail_def)
  show ?thesis
  proof (cases "length (rest @ x) < 16")
    case True
    with k show ?thesis by (simp add: torn_tail_def)
  next
    case long: False
    show ?thesis
    proof (cases "length rest < 8")
      case True
      have "0 < length x" using long True by (cases x) auto
      then have "x ! 0 = 0x42" using assms(2) by (auto simp: starts_record_def frame_start_eq)
      moreover have "frame_start ! length rest \<noteq> 0x42"
        using k(1) True by (intro frame_start_once) simp_all
      ultimately have "mismatch (rest @ x)"
        unfolding mismatch_def using True long by (intro exI [of _ "length rest"]) (auto simp: nth_append)
      then show ?thesis by (simp add: torn_tail_def)
    next
      case size: False
      define i where "i = max 12 (length rest)"
      have i: "12 \<le> i" "i < 16" "length rest \<le> i" "i - length rest < 5" "i < length (rest @ x)"
        using size k(2) long by (auto simp: i_def max_def)
      have "x ! (i - length rest) = frame_start ! (i - length rest)"
        using assms(2) i by (auto simp: starts_record_def)
      then have "(rest @ x) ! i \<noteq> 0"
        using frame_start_nz [OF i(4)] i(3) by (simp add: nth_append)
      then have "oversize (rest @ x)" using i by (auto simp: oversize_def)
      then show ?thesis by (simp add: torn_tail_def)
    qed
  qed
qed

lemma oversize_frame:
  assumes "oversize (drop off c)" shows "record_frame c off = None"
proof (cases "record_frame c off")
  case (Some p)
  let ?h = "take BLOCK_RECORD_HEADER_SIZE (drop off c)"
  obtain v o1 o2 where r: "read_u32_le ?h 4 = Inr (v, o1)" "read_u64_le ?h o1 = Inr (p, o2)"
    and p: "unat p \<le> MAX_BLOCK_RECORD_SIZE"
    using Some by (auto simp: record_frame_def Let_def split: if_splits sum.splits prod.splits)
  have o1: "o1 = 8" using r(1) by (auto simp: read_u32_le_def split: if_splits)
  have h: "take 8 (drop 8 ?h) = append_u64_le [] p"
  proof -
    have "8 \<le> length ?h" using r(2) by (auto simp: o1 read_u64_le_def require_available_def bindE_def split: if_splits)
    from consumesD [OF u64c.dec_sound r(2) [unfolded o1] this] show ?thesis
      using r(2) by (auto simp: o1 read_u64_le_def require_available_def bindE_def split: if_splits)
  qed
  obtain i where i: "i < length (drop off c)" "12 \<le> i" "i < 16" "drop off c ! i \<noteq> 0"
    using assms by (auto simp: oversize_def)
  have "take 8 (drop 8 ?h) ! (i - 8) = drop off c ! i"
    using i by (simp add: BLOCK_RECORD_HEADER_SIZE_def)
  then have nz: "append_u64_le [] p ! (i - 8) \<noteq> 0" using h i(4) by simp
  have "unat p < 2 ^ 32" using p by (simp add: MAX_BLOCK_RECORD_SIZE_def)
  then have "take_bit 32 p = p"
    by (auto simp: take_bit_eq_mod word_arith_nat_mod)
  then have low: "bit p n \<Longrightarrow> n < 32" for n by (metis bit_take_bit_iff)
  have "\<not> bit p (8 * (i - 8) + n)" for n
    using low [of "8 * (i - 8) + n"] i by linarith
  then have "append_u64_le [] p ! (i - 8) = 0"
    by (intro bit_word_eqI) (use i in \<open>simp add: append_u64_le_eq bit_le_bytes\<close>)
  with nz show ?thesis by simp
qed simp

lemma long_tear_stops:
  assumes "make_record_bytes C b = Inr r" "length (take k r) < length r" "crypto_ok C"
  shows "record_frame (c @ take k r) (length c) = None"
proof (cases "record_frame (c @ take k r) (length c)")
  case (Some p)
  obtain payload checksum where q: "length payload \<le> MAX_BLOCK_RECORD_SIZE" "sha256d C payload = Inr checksum"
    "r = record_header payload checksum @ payload"
    using assms(1) by (auto simp: make_record_bytes_Inr)
  have l: "length checksum = 32" using q(2) assms(3) by (auto simp: sha256d_length)
  have "record_frame ((c @ take k r) @ drop k r) (length c) = Some p"
    by (rule record_frame_extend [OF Some])
  then have "record_frame (c @ r) (length c) = Some p"
    by (simp only: append_assoc append_take_drop_id)
  then have p: "p = word_of_nat (length payload)"
    using record_frame_record [OF l q(1), of c "[]"] by (simp add: q(3))
  have "unat p = length payload"
    unfolding p using q(1) by (intro unat_of_size) (simp add: MAX_BLOCK_RECORD_SIZE_def)
  then show ?thesis
    using record_frame_fits [OF Some] assms(2) by (simp add: q(3) record_header_length [OF l])
qed simp

lemma scan_stuck:
  assumes "record_frame (c @ rest) (length c) = None" "scan_end c 0 = length c"
  shows "scan_from C (c @ rest) 0 [] = scan_from C c 0 []"
proof -
  have "scan_from C (c @ rest) (length c) m = m" for m
    using assms(1) by (subst scan_from.simps) simp
  then show ?thesis
    using scan_from_append [of C c rest 0 "[]"] assms(2) by simp
qed

lemma scan_torn:
  assumes "torn_tail rest" "scan_end c 0 = length c"
  shows "scan_from C (c @ rest) 0 [] = scan_from C c 0 []"
proof (rule scan_stuck [OF _ assms(2)])
  show "record_frame (c @ rest) (length c) = None"
    using assms(1) unfolding torn_tail_def
  proof (elim disjE exE conjE)
    assume "0 < length rest" "length rest < 16"
    then have "length (c @ rest) - length c < BLOCK_RECORD_HEADER_SIZE"
      by (simp add: BLOCK_RECORD_HEADER_SIZE_def)
    then show ?thesis by (simp add: record_frame_def)
  next
    assume "mismatch rest"
    then show ?thesis by (intro mismatch_frame) simp
  next
    assume "oversize rest"
    then show ?thesis by (intro oversize_frame) simp
  qed
qed

lemma store_torn_scan: "store_torn c d \<Longrightarrow> scan_catalog C d = scan_from C c 0 []"
  by (auto simp: store_torn_def scan_catalog_def file_exists_def file_content_def scan_torn)

lemma store_torn_has: "store_torn c d \<longleftrightarrow> scan_end c 0 = length c \<and>
    (\<exists>M rest. has M d \<and> M blocks_path = Some (c @ rest) \<and> torn_tail rest)"
  by (auto simp: store_torn_def has_def)

lemma torn_io: "triple (store_torn c) (io_call a) (\<lambda>_. store_torn c) (store_torn c)"
  by (rule tripleI) (auto simp: store_torn_def disk_ok_def dest!: io_call_files)

lemma torn_write:
  assumes "\<And>n. starts_record (take n x)"
  shows "triple (store_torn c) (write_all blocks_path x) (\<lambda>_. store_torn c) (store_torn c)"
proof -
  have st: "starts_record x" using assms [of "length x"] by simp
  have grow: "store_torn c d"
    if "has (M(blocks_path \<mapsto> content_of M blocks_path @ y)) d" "M blocks_path = Some (c @ rest)"
      "torn_tail rest" "scan_end c 0 = length c" "starts_record y" for M d rest y
    using that torn_tail_grow [OF that(3,5)] unfolding store_torn_has
    by (auto simp: content_of_def intro!: exI [of _ "M(blocks_path \<mapsto> content_of M blocks_path @ y)"]
        exI [of _ "rest @ y"])
  show ?thesis
  proof (rule tripleI)
    fix d u d' assume d: "store_torn c d" and w: "write_all blocks_path x d = (Inr u, d')"
    from d obtain M rest where M: "has M d" "M blocks_path = Some (c @ rest)" "torn_tail rest" "scan_end c 0 = length c"
      by (auto simp: store_torn_has)
    show "store_torn c d'"
      by (rule grow [OF tripleD(1) [OF write_all_triple M(1) w] M(2-4) st])
  next
    fix d e d' assume d: "store_torn c d" and w: "write_all blocks_path x d = (Inl e, d')"
    from d obtain M rest where M: "has M d" "M blocks_path = Some (c @ rest)" "torn_tail rest" "scan_end c 0 = length c"
      by (auto simp: store_torn_has)
    from tripleD(2) [OF write_all_triple M(1) w] obtain n
      where "has (M(blocks_path \<mapsto> content_of M blocks_path @ take n x)) d'" by blast
    then show "store_torn c d'"
      by (rule grow [where M = M and rest = rest and y = "take n x"]) (use M(2-4) assms in simp_all)
  qed
qed

lemma torn_open: "triple (store_torn c) open_append (\<lambda>_. store_torn c) (store_torn c)"
  unfolding open_append_def
  by (rule triple_bind [OF torn_io], rule triple_modify) (auto simp: store_torn_def file_exists_def)

lemma torn_append_records:
  "triple (store_torn c) (append_records C bs off m a) (\<lambda>_. store_torn c) (store_torn c)"
proof (induction bs arbitrary: off m a)
  case Nil
  show ?case by (simp add: triple_return)
next
  case (Cons b bs)
  have w: "triple (\<lambda>d. store_torn c d \<and> make_record_bytes C b = Inr r) (bindS (write_all blocks_path r) k)
      (\<lambda>_. store_torn c) (store_torn c)"
    if "\<And>x. triple (store_torn c) (k x) (\<lambda>_. store_torn c) (store_torn c)" for r and k :: "unit \<Rightarrow> (disk, 'a) sx"
    by (rule triple_pure, rule triple_bind [OF torn_write [OF record_starts] that])
  have l: "triple (store_torn c) (liftS (make_record_bytes C b))
      (\<lambda>r d. store_torn c d \<and> make_record_bytes C b = Inr r) (store_torn c)"
    by (rule triple_lift) auto
  have h: "triple (store_torn c) (liftS r) (\<lambda>_. store_torn c) (store_torn c)" for r :: "string res"
    by (rule triple_lift)
  show ?case
    by simp (intro triple_bind [OF h] triple_if Cons triple_bind [OF l] w)
qed

lemma torn_append:
  "triple (store_torn c) (append_blocks_file C bs) (\<lambda>_. store_torn c) (store_torn c)"
proof -
  have get: "triple (store_torn c) (getS f) (\<lambda>_. store_torn c) (store_torn c)" for f :: "disk \<Rightarrow> 'a"
    by (rule triple_get)
  have close: "triple (store_torn c) (if a then io_call s else returnS ()) (\<lambda>_. store_torn c) (store_torn c)" for a s
    by (auto intro: torn_io triple_return)
  have g1: "triple (store_torn c) (getS f) (\<lambda>_. store_torn c) (store_torn c)" for f :: "disk \<Rightarrow> nat"
    by (rule triple_get)
  have g2: "triple (store_torn c) (getS f) (\<lambda>_. store_torn c) (store_torn c)"
    for f :: "disk \<Rightarrow> (string \<times> index_entry) list"
    by (rule triple_get)
  show ?thesis
    unfolding append_blocks_file_def fsync_directory_def
    by (intro triple_bind [OF g1] triple_bind [OF g2] triple_bind [OF torn_open] triple_bind [OF torn_io]
        triple_bind [OF torn_append_records])
       (auto intro!: triple_bind [OF close] triple_bind [OF torn_io] triple_bind [OF triple_bind [OF torn_io torn_io]]
         triple_return)
qed

text \<open>A chain with a block that is not in the catalogue can never be committed again.\<close>

definition not_stored :: "crypto \<Rightarrow> bytes \<Rightarrow> stored_block \<Rightarrow> bool" where
  "not_stored C c b \<longleftrightarrow>
     (\<forall>h. hash_hex C (b_header (sb_block b)) = Inr h \<longrightarrow> map_of (scan_from C c 0 []) h = None)"

lemma not_stored_entries:
  "b \<in> set bs \<Longrightarrow> not_stored C c b \<Longrightarrow> mapE (catalog_index_entry C (scan_from C c 0 [])) bs \<noteq> Inr es"
proof (induction bs arbitrary: es)
  case (Cons a bs)
  then show ?case
    by (cases "hash_hex C (b_header (sb_block b))")
       (auto simp: catalog_index_entry_def not_stored_def split: option.splits)
qed simp

lemma torn_manifest:
  assumes "b \<in> set bs" "not_stored C c b"
  shows "triple (store_torn c) (manifest_for_generation C g bs u) Q (store_torn c)"
proof (rule tripleI)
  have r: "mapE (catalog_index_entry C (scan_from C c 0 [])) bs \<noteq> Inr es" for es
    using assms by (rule not_stored_entries)
  then obtain e0 where e0: "mapE (catalog_index_entry C (scan_from C c 0 [])) bs = Inl e0"
    by (cases "mapE (catalog_index_entry C (scan_from C c 0 [])) bs") auto
  have m: "manifest_for_generation C g bs u d = (Inl e0, d)" if "store_torn c d" for d
    by (simp add: manifest_for_generation_def Let_def sx_simps store_torn_scan [OF that] e0)
  show "Q x d'" if "store_torn c d" "manifest_for_generation C g bs u d = (Inr x, d')" for d x d'
    using m [OF that(1)] that(2) by simp
  show "store_torn c d'" if "store_torn c d" "manifest_for_generation C g bs u d = (Inl e, d')" for d e d'
    using m [OF that(1)] that by simp
qed

lemma torn_commit_triple:
  assumes "b \<in> set bs" "not_stored C c b"
  shows "triple (\<lambda>s. store_torn c (st_disk s)) (store_commit C bs u) (\<lambda>_ _. False) (\<lambda>s. store_torn c (st_disk s))"
proof -
  let ?T = "\<lambda>s. store_torn c (st_disk s)"
  have get: "triple ?T (getS f) (\<lambda>_. ?T) ?T" for f :: "store \<Rightarrow> u64"
    by (rule triple_get)
  have never: "triple (\<lambda>_. False) m Q E" for m :: "(store, 'a) sx" and Q E
    by (simp add: triple_def)
  show ?thesis
    unfolding store_commit_def
    by (intro triple_if triple_throw triple_bind [OF on_disk_triple [OF torn_io]]
        triple_bind [OF on_disk_triple [OF torn_append]] triple_bind [OF get]
        triple_bind [OF on_disk_triple [OF torn_manifest [OF assms, where Q = "\<lambda>_ _. False"]]] never)
qed

lemma torn_commit_fails:
  assumes "store_torn c (st_disk s)" "b \<in> set bs" "not_stored C c b"
  shows "\<exists>e s'. store_commit C bs u s = (Inl e, s') \<and> store_torn c (st_disk s')"
proof (cases "store_commit C bs u s")
  case (Pair r s')
  show ?thesis
  proof (cases r)
    case (Inl e)
    then show ?thesis
      using tripleD(2) [OF torn_commit_triple [OF assms(2,3)] assms(1)] Pair by blast
  next
    case (Inr x)
    then show ?thesis
      using tripleD(1) [OF torn_commit_triple [OF assms(2,3)] assms(1)] Pair by blast
  qed
qed

lemma interrupted_append_tears:
  assumes "disk_ok d" "scan_end (file_content d blocks_path) 0 = length (file_content d blocks_path)"
    and "make_record_bytes C b = Inr r" "dk_io d = Short k # Failed e # os" "0 < k" "k < 16"
  shows "\<exists>d'. write_all blocks_path r d = (Inl (throw_system_error ''Unable to write durable chainstate file'' e), d') \<and>
    store_torn (file_content d blocks_path) d'"
proof -
  let ?c = "file_content d blocks_path"
  obtain p ck where r: "r = record_header p ck @ p" using assms(3) by (auto simp: make_record_bytes_Inr)
  have lr: "k < length r"
    using assms(6) r by (simp add: record_header_def frame_start_length)
  have wc: "write_chunks (Short k # Failed e # os) r [] =
      (Inl (throw_system_error ''Unable to write durable chainstate file'' e), take k r, os)"
  proof -
    obtain a as where "r = a # as" using lr by (cases r) auto
    moreover obtain b bs where "drop k r = b # bs" using lr by (cases "drop k r") auto
    ultimately show ?thesis using assms(5) by simp
  qed
  let ?d = "put_file blocks_path (?c @ take k r) (d \<lparr> dk_io := os \<rparr>)"
  have w: "write_all blocks_path r d = (Inl (throw_system_error ''Unable to write durable chainstate file'' e), ?d)"
    by (simp add: write_all_def assms(4) wc)
  have "store_torn ?c ?d"
    unfolding store_torn_def
    using assms(1,2,5,6) lr
    by (auto simp: put_file_def disk_ok_def map_of_put torn_tail_def)
  with w show ?thesis by blast
qed

end
