(* ===== verification/Chain.thy ===== *)
theory Chain
  imports ChainRules StorageTorn
begin

section \<open>The active chain and its operations (chain.hpp, chain.cpp)\<close>

text \<open>
  \<open>chain\<close> is the object \<^verbatim>\<open>TestnetChain\<close>: its block list, its coin set and the durable store under
  its data directory. Every operation is a state-passing function whose result holds the object it
  leaves behind also when it throws, so the rollbacks of the code are part of the model. The clock is a
  function giving the reading of each mining round.
\<close>

record chain =
  cn_directory :: string
  cn_blocks :: "stored_block list"
  cn_utxos :: utxo_set
  cn_store :: store

record chain_activation =
  ca_activated :: bool
  ca_old_height :: u64
  ca_new_height :: u64
  ca_fork_height :: u64
  ca_disconnected_blocks :: nat
  ca_connected_blocks :: nat
  ca_old_chainwork :: int
  ca_candidate_chainwork :: int
  ca_disconnected_transactions :: "transaction list"

definition LEGACY_FILE_MAGIC :: string where
  "LEGACY_FILE_MAGIC = ''BINARYCOIN_TESTNET_CHAIN_V3_UTXO''"

definition legacy_v3_path :: string where "legacy_v3_path = ''chain-v3.tsv''"

definition legacy_v2_path :: string where "legacy_v2_path = ''chain-v2.tsv''"

definition legacy_v1_path :: string where "legacy_v1_path = ''chain.tsv''"

definition on_store :: "(store, 'a) sx \<Rightarrow> (chain, 'a) sx" where
  "on_store m s = (case m (cn_store s) of (r, t) \<Rightarrow> (r, s \<lparr> cn_store := t \<rparr>))"

definition chain_file_exists :: "string \<Rightarrow> (chain, bool) sx" where
  "chain_file_exists p = getS (\<lambda>s. file_exists (st_disk (cn_store s)) p)"

definition set_blocks :: "stored_block list \<Rightarrow> (chain, unit) sx" where
  "set_blocks bs = modifyS (\<lambda>s. s \<lparr> cn_blocks := bs \<rparr>)"

definition set_utxos :: "utxo_set \<Rightarrow> (chain, unit) sx" where
  "set_utxos u = modifyS (\<lambda>s. s \<lparr> cn_utxos := u \<rparr>)"

subsection \<open>The legacy text file\<close>

definition parse_decimal_u64 :: "string \<Rightarrow> string \<Rightarrow> u64 res" where
  "parse_decimal_u64 text field_name =
     bindE (parse_unsigned u64_max text (RuntimeError (''Invalid decimal '' @ field_name @ '': '' @ text)))
       (\<lambda>v. Inr (word_of_nat v))"

definition parse_decimal_u32 :: "string \<Rightarrow> string \<Rightarrow> u32 res" where
  "parse_decimal_u32 text field_name =
     bindE (parse_unsigned u32_max text (RuntimeError (''Invalid decimal '' @ field_name @ '': '' @ text)))
       (\<lambda>v. Inr (word_of_nat v))"

definition parse_decimal_i32 :: "string \<Rightarrow> string \<Rightarrow> u32 res" where
  "parse_decimal_i32 text field_name =
     bindE (parse_signed (2 ^ 31 - 1) text (RuntimeError (''Invalid decimal '' @ field_name @ '': '' @ text)))
       (\<lambda>v. Inr (word_of_int v))"

definition parse_hex_u32 :: "string \<Rightarrow> string \<Rightarrow> u32 res" where
  "parse_hex_u32 text field_name =
     (let invalid = Inl (RuntimeError (''Invalid hexadecimal '' @ field_name @ '': '' @ text)) in
      case mapE hex_value text of
        Inl _ \<Rightarrow> invalid
      | Inr ds \<Rightarrow>
          let v = foldl (\<lambda>v d. 16 * v + d) 0 ds in
          if text = [] \<or> v > u32_max then invalid else Inr (word_of_nat v))"

definition parse_legacy_transaction :: "string \<Rightarrow> transaction res" where
  "parse_legacy_transaction transaction_hex =
     (if transaction_hex = [] then Inl (RuntimeError ''Empty legacy transaction record'')
      else bindE (hex_to_bytes transaction_hex) deserialize_transaction)"

definition parse_legacy_line :: "crypto \<Rightarrow> string \<Rightarrow> stored_block res" where
  "parse_legacy_line C line =
     (let fields = split line tab in
      if length fields \<noteq> 10 then Inl (RuntimeError ''Malformed legacy chain record'')
      else bindE (parse_decimal_u64 (fields ! 0) ''height'') (\<lambda>height.
      bindE (parse_decimal_i32 (fields ! 1) ''version'') (\<lambda>version.
      bindE (parse_decimal_u32 (fields ! 2) ''time'') (\<lambda>time.
      bindE (parse_hex_u32 (fields ! 3) ''bits'') (\<lambda>bits.
      bindE (parse_decimal_u32 (fields ! 4) ''nonce'') (\<lambda>nonce.
      let header = \<lparr> bh_version = version, bh_previous_hash = fields ! 5, bh_merkle_root = fields ! 6,
                     bh_time = time, bh_bits = bits, bh_nonce = nonce \<rparr> in
      bindE (hash_hex C header) (\<lambda>h.
      if h \<noteq> fields ! 7 then at_height ''Legacy block hash mismatch'' height
      else if fields ! 8 \<noteq> ''testnet'' then Inl (RuntimeError ''Legacy record belongs to another network'')
      else bindE (if fields ! 9 \<noteq> ''-'' then mapE parse_legacy_transaction (split (fields ! 9) (CHR '';''))
                  else Inr []) (\<lambda>txs.
        Inr \<lparr> sb_height = height, sb_block = \<lparr> b_header = header, b_transactions = txs \<rparr> \<rparr>))))))))"

definition load_legacy_line :: "crypto \<Rightarrow> string \<Rightarrow> (chain, unit) sx" where
  "load_legacy_line C line =
     (if line = [] then returnS ()
      else bindS (liftS (parse_legacy_line C line)) (\<lambda>stored.
        modifyS (\<lambda>s. s \<lparr> cn_blocks := cn_blocks s @ [stored] \<rparr>)))"

definition load_legacy_v3 :: "crypto \<Rightarrow> (chain, unit) sx" where
  "load_legacy_v3 C =
     bindS (getS (\<lambda>s. map_of (dk_files (st_disk (cn_store s))) legacy_v3_path)) (\<lambda>content.
     case content of
       None \<Rightarrow> throwS (RuntimeError (''Unable to open legacy chain file: '' @ legacy_v3_path))
     | Some c \<Rightarrow>
         (case getlines (bytes_string c) of
            [] \<Rightarrow> throwS (RuntimeError ''Invalid or unsupported legacy chain file header'')
          | line # rest \<Rightarrow>
              if line \<noteq> LEGACY_FILE_MAGIC
              then throwS (RuntimeError ''Invalid or unsupported legacy chain file header'')
              else bindS (set_blocks []) (\<lambda>_. foldS (load_legacy_line C) rest)))"

subsection \<open>Starting\<close>

definition chain_verify :: "crypto \<Rightarrow> (chain, unit) sx" where
  "chain_verify C = bindS (getS cn_blocks) (\<lambda>bs. liftS (verify_blocks C bs))"

definition chain_save :: "crypto \<Rightarrow> (chain, unit) sx" where
  "chain_save C =
     bindS (getS (\<lambda>s. (cn_blocks s, cn_utxos s))) (\<lambda>(bs, u). on_store (store_commit C bs u))"

definition rebuild_utxos :: "crypto \<Rightarrow> (chain, utxo_set) sx" where
  "rebuild_utxos C = bindS (getS cn_blocks) (\<lambda>bs. liftS (build_utxo_set C bs))"

definition migrate_legacy_v3 :: "crypto \<Rightarrow> (chain, unit) sx" where
  "migrate_legacy_v3 C =
     bindS (load_legacy_v3 C) (\<lambda>_.
     bindS (chain_verify C) (\<lambda>_.
     bindS (rebuild_utxos C) (\<lambda>u.
     bindS (set_utxos u) (\<lambda>_.
     bindS (on_store (modifyS mark_migrated_legacy)) (\<lambda>_.
     chain_save C)))))"

definition chain_load :: "crypto \<Rightarrow> (chain, unit) sx" where
  "chain_load C =
     bindS (getS (\<lambda>s. store_exists (st_disk (cn_store s)))) (\<lambda>present.
     if \<not> present
     then bindS (chain_file_exists legacy_v3_path) (\<lambda>legacy.
       if legacy then migrate_legacy_v3 C
       else throwS (RuntimeError ''Durable chainstate does not exist; run init''))
     else
       bindS (on_store (store_load C)) (\<lambda>(blocks, utxos).
       bindS (set_utxos utxos) (\<lambda>_.
       bindS (set_blocks blocks) (\<lambda>_.
       bindS (chain_verify C) (\<lambda>_.
       bindS (rebuild_utxos C) (\<lambda>rebuilt.
       if utxos = [] \<and> rebuilt \<noteq> []
       then bindS (set_utxos rebuilt) (\<lambda>_. chain_save C)
       else if \<not> utxo_sets_equal utxos rebuilt
       then throwS (RuntimeError
         ''Committed UTXO snapshot does not match the active block index; run reindex'')
       else returnS ()))))))"

definition chain_initialize :: "crypto \<Rightarrow> (chain, unit) sx" where
  "chain_initialize C =
     bindS (getS cn_directory) (\<lambda>directory.
     if directory = [] then throwS (InvalidArgument ''Data directory must not be empty'')
     else
     bindS (on_store (on_disk (io_call ''create_directories''))) (\<lambda>_.
     bindS (getS (\<lambda>s. store_exists (st_disk (cn_store s)))) (\<lambda>present.
     if present then chain_load C
     else
     bindS (chain_file_exists legacy_v3_path) (\<lambda>v3.
     if v3 then migrate_legacy_v3 C
     else
     bindS (chain_file_exists legacy_v2_path) (\<lambda>v2.
     bindS (chain_file_exists legacy_v1_path) (\<lambda>v1.
     if v2 \<or> v1
     then throwS (RuntimeError (''Found an unsupported pre-v0.3 disposable chain. '' @
            ''Use a fresh --datadir or remove the old directory.''))
     else
     bindS (liftS (testnet_genesis_block C)) (\<lambda>genesis.
     bindS (set_blocks [\<lparr> sb_height = 0, sb_block = genesis \<rparr>]) (\<lambda>_.
     bindS (set_utxos []) (\<lambda>_.
     bindS (chain_verify C) (\<lambda>_.
     chain_save C))))))))))"

subsection \<open>Growing and switching\<close>

definition chain_tip :: "chain \<Rightarrow> stored_block res" where
  "chain_tip s = (if cn_blocks s = [] then Inl (RuntimeError ''Chain is not initialized'')
                  else Inr (last (cn_blocks s)))"

definition append_block :: "crypto \<Rightarrow> stored_block \<Rightarrow> (chain, unit) sx" where
  "append_block C stored =
     bindS (getS (\<lambda>s. last (cn_blocks s))) (\<lambda>back.
     if sb_height stored \<noteq> sb_height back + 1
     then throwS (RuntimeError ''Received non-contiguous block height'')
     else bindS (liftS (hash_hex C (b_header (sb_block back)))) (\<lambda>h.
     if bh_previous_hash (b_header (sb_block stored)) \<noteq> h
     then throwS (RuntimeError ''Received block does not extend local tip'')
     else modifyS (\<lambda>s. s \<lparr> cn_blocks := cn_blocks s @ [stored] \<rparr>)))"

text \<open>The \<^verbatim>\<open>try\<close>/\<^verbatim>\<open>catch (...)\<close> both growing operations share: on a throw the block list and the coin set
  are put back.\<close>

definition with_rollback :: "(chain, 'a) sx \<Rightarrow> (chain, 'a) sx" where
  "with_rollback m =
     bindS (getS (\<lambda>s. (cn_blocks s, cn_utxos s))) (\<lambda>(original_blocks, original_utxos).
     tryS m (\<lambda>e.
       bindS (set_blocks original_blocks) (\<lambda>_.
       bindS (set_utxos original_utxos) (\<lambda>_. throwS e))))"

definition verify_and_save :: "crypto \<Rightarrow> (chain, unit) sx" where
  "verify_and_save C =
     bindS (chain_verify C) (\<lambda>_.
     bindS (rebuild_utxos C) (\<lambda>u.
     bindS (set_utxos u) (\<lambda>_.
     chain_save C)))"

definition append_blocks :: "crypto \<Rightarrow> stored_block list \<Rightarrow> (chain, unit) sx" where
  "append_blocks C incoming =
     (if incoming = [] then returnS ()
      else
      bindS (getS cn_blocks) (\<lambda>blocks.
      bindS (if blocks = [] then chain_initialize C else returnS ()) (\<lambda>_.
      with_rollback (bindS (foldS (append_block C) incoming) (\<lambda>_. verify_and_save C)))))"

fun common_count :: "crypto \<Rightarrow> stored_block list \<Rightarrow> stored_block list \<Rightarrow> nat res" where
  "common_count C (a # as) (b # bs) =
     bindE (hash_hex C (b_header (sb_block a))) (\<lambda>ha.
     bindE (hash_hex C (b_header (sb_block b))) (\<lambda>hb.
     if ha = hb then bindE (common_count C as bs) (\<lambda>n. Inr (Suc n)) else Inr 0))"
| "common_count C as bs = Inr 0"

definition disconnected :: "crypto \<Rightarrow> string set \<Rightarrow> stored_block list \<Rightarrow> transaction list res" where
  "disconnected C candidate_txids blocks =
     bindE (mapE (\<lambda>t. bindE (txid C t) (\<lambda>i. Inr (t, i)))
              (concat (map (\<lambda>b. tl (b_transactions (sb_block b))) blocks))) (\<lambda>pairs.
       Inr (map fst (filter (\<lambda>(t, i). i \<notin> candidate_txids) pairs)))"

definition activate_if_more_work :: "crypto \<Rightarrow> stored_block list \<Rightarrow> (chain, chain_activation) sx" where
  "activate_if_more_work C candidate =
     bindS (liftS (verify_blocks C candidate)) (\<lambda>_.
     bindS (getS chain_tip) (\<lambda>t.
     bindS (liftS t) (\<lambda>tip.
     bindS (getS cn_blocks) (\<lambda>blocks.
     bindS (liftS (calculate_chainwork blocks)) (\<lambda>old_work.
     bindS (liftS (calculate_chainwork candidate)) (\<lambda>new_work.
     bindS (liftS (common_count C blocks candidate)) (\<lambda>common.
     if common = 0 then throwS (RuntimeError ''Candidate does not share BinaryCoin testnet genesis'')
     else
     let result = \<lparr> ca_activated = False, ca_old_height = sb_height tip,
           ca_new_height = sb_height (last candidate), ca_fork_height = word_of_nat (common - 1),
           ca_disconnected_blocks = length blocks - common,
           ca_connected_blocks = length candidate - common,
           ca_old_chainwork = old_work, ca_candidate_chainwork = new_work,
           ca_disconnected_transactions = [] \<rparr> in
     if new_work \<le> old_work then returnS result
     else
     bindS (liftS (transaction_ids C candidate)) (\<lambda>candidate_txids.
     bindS (liftS (disconnected C candidate_txids (drop common blocks))) (\<lambda>gone.
     bindS (with_rollback (bindS (set_blocks candidate) (\<lambda>_. verify_and_save C))) (\<lambda>_.
       returnS (result \<lparr> ca_activated := True, ca_disconnected_transactions := gone \<rparr>)))))))))))"

subsection \<open>Mining\<close>

definition generate_block ::
  "crypto \<Rightarrow> int \<Rightarrow> bytes \<Rightarrow> transaction list \<Rightarrow> utxo_set \<Rightarrow> (chain, utxo_set) sx" where
  "generate_block C now coinbase_script_pubkey transactions current_utxos =
     bindS (getS (\<lambda>s. last (cn_blocks s))) (\<lambda>previous.
     let height = sb_height previous + 1 in
     bindS (liftS (foldE (collect_fee C height ''Candidate block fee overflow'') transactions (0, current_utxos)))
       (\<lambda>(fees, candidate_utxos).
     bindS (liftS (hash_hex C (b_header (sb_block previous)))) (\<lambda>previous_hash.
     bindS (liftS (mine_testnet_block C now height previous_hash (bh_time (b_header (sb_block previous)))
              TESTNET_BITS coinbase_script_pubkey transactions fees)) (\<lambda>block.
     case add_coinbase_outputs C (hd (b_transactions block)) height candidate_utxos of
       (Inl e, _) \<Rightarrow> throwS e
     | (Inr _, candidate_utxos) \<Rightarrow>
         bindS (modifyS (\<lambda>s. s \<lparr> cn_blocks := cn_blocks s @ [\<lparr> sb_height = height, sb_block = block \<rparr>] \<rparr>)) (\<lambda>_.
           returnS candidate_utxos)))))"

fun generate_loop ::
  "crypto \<Rightarrow> (nat \<Rightarrow> int) \<Rightarrow> bytes \<Rightarrow> transaction list \<Rightarrow> nat \<Rightarrow> nat \<Rightarrow> utxo_set \<Rightarrow> (chain, utxo_set) sx" where
  "generate_loop C clock script pending generated 0 current_utxos = returnS current_utxos"
| "generate_loop C clock script pending generated (Suc left) current_utxos =
     bindS (generate_block C (clock generated) script (if generated = 0 then pending else []) current_utxos)
       (\<lambda>current_utxos. generate_loop C clock script pending (Suc generated) left current_utxos)"

definition chain_generate ::
  "crypto \<Rightarrow> (nat \<Rightarrow> int) \<Rightarrow> u64 \<Rightarrow> bytes \<Rightarrow> transaction list \<Rightarrow> (chain, unit) sx" where
  "chain_generate C clock count script pending_transactions =
     bindS (getS cn_blocks) (\<lambda>blocks.
     bindS (if blocks = [] then chain_initialize C else returnS ()) (\<lambda>_.
     bindS (getS cn_utxos) (\<lambda>utxos.
     bindS (generate_loop C clock script pending_transactions 0 (unat count) utxos) (\<lambda>current_utxos.
     bindS (chain_verify C) (\<lambda>_.
     bindS (set_utxos current_utxos) (\<lambda>_.
     chain_save C))))))"

subsection \<open>Rebuilding from the block file\<close>

text \<open>The walk from a tip back to genesis. A step inserts a new hash into \<open>visited\<close>, so a walk over \<open>n\<close>
  records has at most \<open>n\<close> rounds; the fuel is one more than that.\<close>

fun walk_back ::
  "crypto \<Rightarrow> (string \<times> stored_block) list \<Rightarrow> nat \<Rightarrow> string list \<Rightarrow> stored_block \<Rightarrow> stored_block list \<Rightarrow>
     (stored_block list \<times> bool) res" where
  "walk_back C by_hash 0 visited current chain = Inr (chain, False)"
| "walk_back C by_hash (Suc fuel) visited current chain =
     bindE (hash_hex C (b_header (sb_block current))) (\<lambda>h.
     if h \<in> set visited then Inr (chain, False)
     else if h = TESTNET_GENESIS_HASH then Inr (current # chain, True)
     else case map_of by_hash (bh_previous_hash (b_header (sb_block current))) of
       None \<Rightarrow> Inr (current # chain, False)
     | Some parent \<Rightarrow> walk_back C by_hash fuel (h # visited) parent (current # chain))"

definition index_by_hash :: "crypto \<Rightarrow> stored_block list \<Rightarrow> (string \<times> stored_block) list res" where
  "index_by_hash C records =
     foldE (\<lambda>b m. bindE (hash_hex C (b_header (sb_block b))) (\<lambda>h. Inr (map_emplace h b m))) records []"

definition reindex_step ::
  "crypto \<Rightarrow> (string \<times> stored_block) list \<Rightarrow> string \<times> stored_block \<Rightarrow> stored_block list \<times> int \<Rightarrow>
     (stored_block list \<times> int) res" where
  "reindex_step C by_hash tip acc =
     bindE (walk_back C by_hash (Suc (length by_hash)) [] (snd tip) []) (\<lambda>(chain, complete).
     if \<not> complete then Inr acc
     else case bindE (verify_blocks C chain) (\<lambda>_. calculate_chainwork chain) of
       Inl _ \<Rightarrow> Inr acc
     | Inr work \<Rightarrow> if work > snd acc then Inr (chain, work) else Inr acc)"

definition chain_reindex :: "crypto \<Rightarrow> (chain, unit) sx" where
  "chain_reindex C =
     bindS (getS (\<lambda>s. scan_all_blocks C (st_disk (cn_store s)))) (\<lambda>r.
     bindS (liftS r) (\<lambda>records.
     if records = [] then throwS (RuntimeError ''Append-only block store contains no valid records'')
     else
     bindS (liftS (index_by_hash C records)) (\<lambda>by_hash.
     if \<not> map_contains by_hash TESTNET_GENESIS_HASH
     then throwS (RuntimeError ''Block store does not contain testnet genesis'')
     else
     bindS (liftS (foldE (reindex_step C by_hash) by_hash ([], -1))) (\<lambda>(best, best_work).
     if best = [] then throwS (RuntimeError ''No fully valid chain could be reconstructed from block records'')
     else
     bindS (set_blocks best) (\<lambda>_.
     bindS (rebuild_utxos C) (\<lambda>u.
     bindS (set_utxos u) (\<lambda>_.
     chain_save C)))))))"

subsection \<open>Queries\<close>

definition issued_step :: "stored_block \<Rightarrow> int \<Rightarrow> int res" where
  "issued_step b issued_so_far =
     bindE (block_subsidy (sb_height b) TESTNET_HALVING_INTERVAL) (\<lambda>subsidy.
       if issued_so_far > MAX_MONEY - subsidy then Inl (RuntimeError ''Issued supply overflow'')
       else Inr (issued_so_far + subsidy))"

definition issued_supply :: "chain \<Rightarrow> int res" where
  "issued_supply s = foldE issued_step (tl (cn_blocks s)) 0"

definition chainwork_hex :: "chain \<Rightarrow> string res" where
  "chainwork_hex s = bindE (calculate_chainwork (cn_blocks s)) uint256_to_hex"

definition confirmed_txids :: "crypto \<Rightarrow> chain \<Rightarrow> string set res" where
  "confirmed_txids C s = transaction_ids C (cn_blocks s)"

end
