(* ===== verification/ChainOps.thy ===== *)
theory ChainOps
  imports Chain
begin

section \<open>What the chain operations guarantee (chain.cpp)\<close>

text \<open>
  \<open>chain_valid\<close> is the invariant of a started chain: the blocks verify and the coin set is the one
  rebuilt from them. The lemmas give, per operation, the state it leaves when it returns and when
  it throws.
\<close>

definition chain_valid :: "crypto \<Rightarrow> chain \<Rightarrow> bool" where
  "chain_valid C s \<longleftrightarrow> verify_blocks C (cn_blocks s) = Inr () \<and>
     build_utxo_set C (cn_blocks s) = Inr (cn_utxos s)"

definition same_memory :: "chain \<Rightarrow> chain \<Rightarrow> bool" where
  "same_memory s t \<longleftrightarrow> cn_blocks s = cn_blocks t \<and> cn_utxos s = cn_utxos t"

lemma chain_valid_same: "same_memory s t \<Longrightarrow> chain_valid C s \<longleftrightarrow> chain_valid C t"
  by (simp add: same_memory_def chain_valid_def)

lemma on_store_memory: "on_store m s = (r, t) \<Longrightarrow> same_memory t s"
  by (auto simp: on_store_def same_memory_def split: prod.splits)

lemma chain_save_memory: "chain_save C s = (r, t) \<Longrightarrow> same_memory t s"
  by (auto simp: chain_save_def bindS_def getS_def dest: on_store_memory)

lemma verify_and_save_Inr:
  "verify_and_save C s = (Inr r, t) \<Longrightarrow> chain_valid C t \<and> cn_blocks t = cn_blocks s"
  by (auto simp: verify_and_save_def chain_verify_def rebuild_utxos_def set_utxos_def bindS_Inr
      getS_def liftS_def modifyS_def chain_valid_def same_memory_def dest!: chain_save_memory)

lemma with_rollback_Inr: "with_rollback m s = (Inr x, t) \<longleftrightarrow> m s = (Inr x, t)"
  by (auto simp: with_rollback_def sx_defs set_blocks_def set_utxos_def split: prod.splits sum.splits)

lemma with_rollback_Inl: "with_rollback m s = (Inl e, t) \<Longrightarrow> same_memory t s"
  by (auto simp: with_rollback_def sx_defs set_blocks_def set_utxos_def same_memory_def
      split: prod.splits sum.splits)

subsection \<open>Appending\<close>

lemma append_block_Inr:
  "append_block C b s = (Inr r, t) \<Longrightarrow> t = s \<lparr> cn_blocks := cn_blocks s @ [b] \<rparr>"
  by (auto simp: append_block_def sx_defs split: if_splits sum.splits)

lemma append_loop_Inr:
  "foldS (append_block C) bs s = (Inr r, t) \<Longrightarrow> t = s \<lparr> cn_blocks := cn_blocks s @ bs \<rparr>"
proof (induction bs arbitrary: s)
  case Nil
  then show ?case by (simp add: returnS_def)
next
  case (Cons b bs)
  then obtain u where "append_block C b s = (Inr (), u)" and r: "foldS (append_block C) bs u = (Inr r, t)"
    by (auto simp: bindS_Inr)
  then have "u = s \<lparr> cn_blocks := cn_blocks s @ [b] \<rparr>" by (auto dest: append_block_Inr)
  with Cons.IH [OF r] show ?case by simp
qed

lemma append_blocks_Inr:
  assumes "append_blocks C bs s = (Inr r, t)" "bs \<noteq> []" "cn_blocks s \<noteq> []"
  shows "chain_valid C t \<and> cn_blocks t = cn_blocks s @ bs"
  using assms
  by (auto simp: append_blocks_def bindS_Inr getS_def returnS_def with_rollback_Inr
      dest!: append_loop_Inr verify_and_save_Inr)

lemma append_blocks_Inl:
  assumes "append_blocks C bs s = (Inl e, t)" "cn_blocks s \<noteq> []"
  shows "same_memory t s"
  using assms
  by (auto simp: append_blocks_def bindS_Inl getS_def returnS_def dest: with_rollback_Inl split: if_splits)

subsection \<open>Work\<close>

lemma block_proof_nonneg: "block_proof b = Inr p \<Longrightarrow> 0 < p"
  using block_proof_range [of b p] by force

lemma chainwork_acc:
  "foldE (\<lambda>stored acc. bindE (block_proof (bh_bits (b_header (sb_block stored)))) (\<lambda>p. Inr (acc + p))) bs a = Inr w \<longleftrightarrow>
     (\<exists>v. foldE (\<lambda>stored acc. bindE (block_proof (bh_bits (b_header (sb_block stored)))) (\<lambda>p. Inr (acc + p))) bs 0 = Inr v \<and>
        w = a + v)"
proof (induction bs arbitrary: a w)
  case (Cons b bs)
  show ?case
  proof (cases "block_proof (bh_bits (b_header (sb_block b)))")
    case (Inr p)
    show ?thesis
      using Cons.IH [of "a + p" w] Cons.IH [of p] by (auto simp: Inr)
  qed auto
qed auto

lemma chainwork_append:
  "calculate_chainwork (as @ bs) = Inr w \<longleftrightarrow>
     (\<exists>u v. calculate_chainwork as = Inr u \<and> calculate_chainwork bs = Inr v \<and> w = u + v)"
proof (cases "calculate_chainwork as")
  case (Inr u)
  have "calculate_chainwork (as @ bs) = Inr w \<longleftrightarrow>
      foldE (\<lambda>stored acc. bindE (block_proof (bh_bits (b_header (sb_block stored)))) (\<lambda>p. Inr (acc + p))) bs u = Inr w"
    using Inr by (simp add: calculate_chainwork_def foldE_append)
  also have "\<dots> \<longleftrightarrow> (\<exists>v. calculate_chainwork bs = Inr v \<and> w = u + v)"
    by (subst chainwork_acc) (simp add: calculate_chainwork_def)
  finally show ?thesis using Inr by simp
qed (simp add: calculate_chainwork_def foldE_append)

lemma chainwork_Cons:
  "calculate_chainwork (b # bs) = Inr w \<longleftrightarrow>
     (\<exists>p v. block_proof (bh_bits (b_header (sb_block b))) = Inr p \<and> calculate_chainwork bs = Inr v \<and> w = p + v)"
  using chainwork_append [of "[b]" bs] by (auto simp: calculate_chainwork_def)

lemma chainwork_nonneg: "calculate_chainwork bs = Inr w \<Longrightarrow> 0 \<le> w \<and> (bs \<noteq> [] \<longrightarrow> 0 < w)"
proof (induction bs arbitrary: w)
  case Nil
  then show ?case by (simp add: calculate_chainwork_def)
next
  case (Cons b bs)
  then show ?case by (auto simp: chainwork_Cons dest!: block_proof_nonneg Cons.IH)
qed

subsection \<open>The target never changes\<close>

abbreviation block_bits :: "stored_block \<Rightarrow> u32" where "block_bits b \<equiv> bh_bits (b_header (sb_block b))"

lemma connect_bits: "verify_connect C p b u = Inr v \<Longrightarrow> block_bits b = TESTNET_BITS"
  by (auto simp: verify_connect_def at_height_def Let_def split: if_splits)

lemma loop_bits: "verify_loop C i (Some p) bs u = Inr v \<Longrightarrow> \<forall>b \<in> set bs. block_bits b = TESTNET_BITS"
  by (induction bs arbitrary: i p u) (auto simp: verify_step_Inr dest: connect_bits)

lemma verified_bits:
  assumes "verify_blocks C bs = Inr ()"
  shows "\<forall>b \<in> set bs. block_bits b = TESTNET_BITS"
proof -
  obtain u where v: "bs \<noteq> []" "verify_genesis C (hd bs) = Inr ()" "verify_loop C 0 None bs [] = Inr u"
    using assms by (auto simp: verify_blocks_Inr)
  have "block_bits (hd bs) = TESTNET_BITS"
    using v(2) by (auto simp: verify_genesis_def Let_def TESTNET_GENESIS_BITS_def TESTNET_BITS_def split: if_splits)
  moreover have "\<forall>b \<in> set (tl bs). block_bits b = TESTNET_BITS"
    using verify_loop_head [OF v(3,1)] loop_bits by blast
  ultimately show ?thesis using v(1) by (cases bs) auto
qed

definition TESTNET_WORK :: int where "TESTNET_WORK = 65538"

lemma testnet_work: "block_proof TESTNET_BITS = Inr TESTNET_WORK"
  by (simp add: block_proof_def compact_to_target_def TESTNET_BITS_def TESTNET_WORK_def uint256_maximum_def Let_def
      drop_bit_eq_div push_bit_eq_mult)

lemma constant_work: "\<forall>b \<in> set bs. block_bits b = TESTNET_BITS \<Longrightarrow> calculate_chainwork bs = Inr (TESTNET_WORK * int (length bs))"
proof (induction bs)
  case Nil
  then show ?case by (simp add: calculate_chainwork_def)
next
  case (Cons b bs)
  then show ?case by (auto simp: chainwork_Cons testnet_work algebra_simps)
qed

lemma verified_work: "verify_blocks C bs = Inr () \<Longrightarrow> calculate_chainwork bs = Inr (TESTNET_WORK * int (length bs))"
  by (rule constant_work [OF verified_bits])

lemma verified_chainwork: "verify_blocks C bs = Inr () \<Longrightarrow> \<exists>w. calculate_chainwork bs = Inr w"
  using verified_work by blast

subsection \<open>Switching\<close>

definition fork_point :: "crypto \<Rightarrow> stored_block list \<Rightarrow> stored_block list \<Rightarrow> nat \<Rightarrow> bool" where
  "fork_point C as bs n \<longleftrightarrow> n \<le> length as \<and> n \<le> length bs \<and>
     (\<forall>i < n. \<exists>h. hash_hex C (b_header (sb_block (as ! i))) = Inr h \<and>
        hash_hex C (b_header (sb_block (bs ! i))) = Inr h) \<and>
     (n < length as \<and> n < length bs \<longrightarrow>
        hash_hex C (b_header (sb_block (as ! n))) \<noteq> hash_hex C (b_header (sb_block (bs ! n))))"

lemma common_count_Inr: "common_count C as bs = Inr n \<Longrightarrow> fork_point C as bs n"
proof (induction C as bs arbitrary: n rule: common_count.induct)
  case (1 C a as b bs)
  then obtain ha hb where h: "hash_hex C (b_header (sb_block a)) = Inr ha" "hash_hex C (b_header (sb_block b)) = Inr hb"
    by auto
  show ?case
  proof (cases "ha = hb")
    case True
    then obtain m where m: "common_count C as bs = Inr m" "n = Suc m"
      using 1(2) h by auto
    from 1(1) [OF h True m(1)] have "fork_point C as bs m" .
    with h True m(2) show ?thesis
      by (auto simp: fork_point_def less_Suc_eq_0_disj)
  next
    case False
    with 1(2) h show ?thesis by (auto simp: fork_point_def)
  qed
qed (auto simp: fork_point_def)

lemma disconnected_Inr:
  assumes "disconnected C ids bs = Inr gone"
  shows "set gone = {t. \<exists>b \<in> set bs. t \<in> set (tl (b_transactions (sb_block b))) \<and>
    (\<forall>i. txid C t = Inr i \<longrightarrow> i \<notin> ids)}"
proof -
  let ?ts = "concat (map (\<lambda>b. tl (b_transactions (sb_block b))) bs)"
  obtain ps where ps: "mapE (\<lambda>t. bindE (txid C t) (\<lambda>i. Inr (t, i))) ?ts = Inr ps"
    and g: "gone = map fst (filter (\<lambda>(t, i). i \<notin> ids) ps)"
    using assms by (auto simp: disconnected_def)
  have pairs: "(t, i) \<in> set ps \<longleftrightarrow> t \<in> set ts \<and> txid C t = Inr i"
    if "mapE (\<lambda>t. bindE (txid C t) (\<lambda>i. Inr (t, i))) ts = Inr ps" for ts ps t i
    using that by (induction ts arbitrary: ps) auto
  have ids: "\<exists>i. txid C t = Inr i"
    if "mapE (\<lambda>t. bindE (txid C t) (\<lambda>i. Inr (t, i))) ts = Inr ps" "t \<in> set ts" for ts ps t
    using that by (induction ts arbitrary: ps) auto
  have "set gone = {t \<in> set ?ts. \<forall>i. txid C t = Inr i \<longrightarrow> i \<notin> ids}"
  proof (rule set_eqI)
    fix t
    have "t \<in> set gone \<longleftrightarrow> (\<exists>i. (t, i) \<in> set ps \<and> i \<notin> ids)"
      by (auto simp: g image_iff)
    also have "\<dots> \<longleftrightarrow> t \<in> {t \<in> set ?ts. \<forall>i. txid C t = Inr i \<longrightarrow> i \<notin> ids}"
      using pairs [OF ps, of t] ids [OF ps, of t] by (simp only: mem_Collect_eq) (metis sum.inject(2))
    finally show "t \<in> set gone \<longleftrightarrow> t \<in> {t \<in> set ?ts. \<forall>i. txid C t = Inr i \<longrightarrow> i \<notin> ids}" .
  qed
  then show ?thesis by auto
qed

lemma activate_Inr:
  assumes "activate_if_more_work C cand s = (Inr r, t)"
  shows "verify_blocks C cand = Inr () \<and> calculate_chainwork (cn_blocks s) = Inr (ca_old_chainwork r) \<and>
    calculate_chainwork cand = Inr (ca_candidate_chainwork r) \<and>
    (ca_activated r \<longleftrightarrow> ca_old_chainwork r < ca_candidate_chainwork r) \<and>
    (if ca_activated r then cn_blocks t = cand \<and> chain_valid C t else t = s) \<and>
    (\<exists>n > 0. fork_point C (cn_blocks s) cand n \<and> ca_fork_height r = word_of_nat (n - 1) \<and>
       ca_disconnected_blocks r = length (cn_blocks s) - n \<and> ca_connected_blocks r = length cand - n \<and>
       (ca_activated r \<longrightarrow> (\<exists>ids. transaction_ids C cand = Inr ids \<and>
          set (ca_disconnected_transactions r) =
            {x. \<exists>b \<in> set (drop n (cn_blocks s)). x \<in> set (tl (b_transactions (sb_block b))) \<and>
              (\<forall>i. txid C x = Inr i \<longrightarrow> i \<notin> ids)})))"
proof -
  obtain tip ow nw n where v: "verify_blocks C cand = Inr ()" and tip: "chain_tip s = Inr tip"
    and ow: "calculate_chainwork (cn_blocks s) = Inr ow" and nw: "calculate_chainwork cand = Inr nw"
    and n: "common_count C (cn_blocks s) cand = Inr n" "n \<noteq> 0"
    using assms
    by (auto simp: activate_if_more_work_def bindS_Inr getS_def liftS_def throwS_def split: if_splits)
  have fp: "fork_point C (cn_blocks s) cand n" using n(1) by (rule common_count_Inr)
  show ?thesis
  proof (cases "nw \<le> ow")
    case True
    with assms v tip ow nw n fp show ?thesis
      by (auto simp: activate_if_more_work_def bindS_Inr getS_def liftS_def returnS_def Let_def)
  next
    case False
    obtain ids gone u where ids: "transaction_ids C cand = Inr ids"
      and gone: "disconnected C ids (drop n (cn_blocks s)) = Inr gone"
      and w: "verify_and_save C (s \<lparr> cn_blocks := cand \<rparr>) = (Inr u, t)"
      and r: "r = \<lparr> ca_activated = True, ca_old_height = sb_height tip,
           ca_new_height = sb_height (last cand), ca_fork_height = word_of_nat (n - 1),
           ca_disconnected_blocks = length (cn_blocks s) - n,
           ca_connected_blocks = length cand - n,
           ca_old_chainwork = ow, ca_candidate_chainwork = nw,
           ca_disconnected_transactions = gone \<rparr>"
      using assms v tip ow nw n False
      by (auto simp: activate_if_more_work_def bindS_Inr getS_def liftS_def returnS_def Let_def
          with_rollback_Inr set_blocks_def modifyS_def)
    from verify_and_save_Inr [OF w] have "chain_valid C t \<and> cn_blocks t = cand" by simp
    moreover have "ca_disconnected_transactions r = gone" "ca_activated r" "ca_fork_height r = word_of_nat (n - 1)"
      "ca_disconnected_blocks r = length (cn_blocks s) - n" "ca_connected_blocks r = length cand - n"
      "ca_old_chainwork r = ow" "ca_candidate_chainwork r = nw"
      by (simp_all add: r)
    ultimately show ?thesis
      using v ow nw n fp False ids disconnected_Inr [OF gone]
      by (intro conjI exI [of _ n]) auto
  qed
qed

lemma activate_Inl: "activate_if_more_work C cand s = (Inl e, t) \<Longrightarrow> same_memory t s"
  by (auto simp: activate_if_more_work_def bindS_Inl getS_def liftS_def returnS_def throwS_def Let_def
      same_memory_def split: if_splits dest!: with_rollback_Inl)

subsection \<open>Starting\<close>

lemma utxo_sets_equal_iff: "utxo_sets_equal u v \<longleftrightarrow> u = v"
proof -
  have c: "coin_equal a b \<longleftrightarrow> a = b" for a b :: coin
    by (cases a; cases b; cases "coin_output a"; cases "coin_output b") (auto simp: coin_equal_def)
  have p: "op_txid p = op_txid q \<and> op_index p = op_index q \<longleftrightarrow> p = q" for p q
    by (cases p; cases q) auto
  have "length u = length v \<Longrightarrow> list_all (\<lambda>((p, c), (q, d)). op_txid p = op_txid q \<and> op_index p = op_index q \<and>
      coin_equal c d) (zip u v) \<longleftrightarrow> u = v"
  proof (induction u v rule: list_induct2)
    case (Cons x xs y ys)
    then show ?case using p by (cases x; cases y) (auto simp: c)
  qed simp
  then show ?thesis by (auto simp: utxo_sets_equal_def)
qed

lemma chain_save_valid: "chain_save C s = (r, t) \<Longrightarrow> chain_valid C s \<Longrightarrow> chain_valid C t"
  using chain_save_memory chain_valid_same by blast

lemma migrate_Inr: "migrate_legacy_v3 C s = (Inr r, t) \<Longrightarrow> chain_valid C t"
  unfolding migrate_legacy_v3_def
  by (auto simp: bindS_Inr chain_verify_def rebuild_utxos_def set_utxos_def getS_def liftS_def modifyS_def
      same_memory_def chain_valid_def dest!: chain_save_memory on_store_memory)

lemma chain_load_Inr: "chain_load C s = (Inr r, t) \<Longrightarrow> chain_valid C t"
  unfolding chain_load_def
  by (auto simp: bindS_Inr chain_verify_def rebuild_utxos_def set_utxos_def set_blocks_def getS_def liftS_def
      modifyS_def returnS_def throwS_def same_memory_def chain_valid_def utxo_sets_equal_iff
      split: if_splits dest!: chain_save_memory on_store_memory dest: migrate_Inr [unfolded chain_valid_def])

lemma chain_initialize_Inr: "chain_initialize C s = (Inr r, t) \<Longrightarrow> chain_valid C t"
  unfolding chain_initialize_def
  by (auto simp: bindS_Inr chain_verify_def set_utxos_def set_blocks_def getS_def liftS_def modifyS_def
      returnS_def throwS_def same_memory_def chain_valid_def build_utxo_set_def
      split: if_splits dest!: chain_save_memory
      dest: migrate_Inr [unfolded chain_valid_def] chain_load_Inr [unfolded chain_valid_def])

subsection \<open>Mining\<close>

lemma connect_blocks_append:
  "connect_blocks C (as @ bs) = bindS (connect_blocks C as) (\<lambda>_. connect_blocks C bs)"
proof (induction as)
  case Nil
  then show ?case by (simp add: fun_eq_iff bindS_def returnS_def)
next
  case (Cons a as)
  then show ?case by (auto simp: fun_eq_iff bindS_def split: prod.splits sum.splits)
qed

lemma build_utxo_set_snoc:
  "bs \<noteq> [] \<Longrightarrow> build_utxo_set C bs = Inr u \<Longrightarrow> connect_block C b u = (Inr (), v) \<Longrightarrow>
     build_utxo_set C (bs @ [b]) = Inr v"
  by (cases bs) (auto simp: build_utxo_set_def connect_blocks_append bindS_def returnS_def
      split: prod.splits sum.splits)

lemma case_outcome_Inr:
  "(case p of (Inl e, x) \<Rightarrow> throwS e | (Inr y, u) \<Rightarrow> f u) s = (Inr v, t) \<longleftrightarrow>
     (\<exists>y u. p = (Inr y, u) \<and> f u s = (Inr v, t))"
  by (auto simp: throwS_def split: prod.splits sum.splits)

lemma generate_block_Inr:
  assumes g: "generate_block C now script txs u s = (Inr v, t)"
    and b: "build_utxo_set C (cn_blocks s) = Inr u" and ne: "cn_blocks s \<noteq> []"
  shows "\<exists>blk. cn_blocks t = cn_blocks s @ [blk] \<and> t = s \<lparr> cn_blocks := cn_blocks t \<rparr> \<and>
    build_utxo_set C (cn_blocks t) = Inr v \<and> tl (b_transactions (sb_block blk)) = txs \<and>
    b_transactions (sb_block blk) \<noteq> [] \<and>
    (\<exists>reward. hd (b_transactions (sb_block blk)) = coinbase_of (sb_height (last (cn_blocks s)) + 1) reward script)"
proof -
  let ?prev = "last (cn_blocks s)"
  let ?h = "sb_height ?prev + 1"
  obtain fees w ph blk where f: "foldE (collect_fee C ?h ''Candidate block fee overflow'') txs (0, u) = Inr (fees, w)"
    and m: "mine_testnet_block C now ?h ph (bh_time (b_header (sb_block ?prev))) TESTNET_BITS script txs fees = Inr blk"
    and add: "add_coinbase_outputs C (hd (b_transactions blk)) ?h w = (Inr (), v)"
    and t: "t = s \<lparr> cn_blocks := cn_blocks s @ [\<lparr> sb_height = ?h, sb_block = blk \<rparr>] \<rparr>"
    using g
    by (auto simp: generate_block_def bindS_Inr getS_def liftS_def modifyS_def returnS_def Let_def
        case_outcome_Inr)
  obtain reward where tx: "b_transactions blk = coinbase_of ?h reward script # txs"
    and r: "money_range reward" "length script \<le> MAX_SCRIPT_SIZE"
    using mine_testnet_block_Inr [OF m] by auto
  have "connect_block C \<lparr> sb_height = ?h, sb_block = blk \<rparr> u = (Inr (), v)"
    using collect_fees_apply_all [OF f] add tx coinbase_of_valid(3) [OF r]
    by (auto simp: connect_block_def bindS_Inr add_coinbase_outputs_def liftS_def)
  then have "build_utxo_set C (cn_blocks t) = Inr v"
    using build_utxo_set_snoc [OF ne b] by (simp add: t)
  with tx show ?thesis by (auto simp: t)
qed

lemma generate_loop_Inr:
  "generate_loop C clock script pending k n u s = (Inr v, t) \<Longrightarrow> build_utxo_set C (cn_blocks s) = Inr u \<Longrightarrow>
     cn_blocks s \<noteq> [] \<Longrightarrow>
     \<exists>new. cn_blocks t = cn_blocks s @ new \<and> length new = n \<and> build_utxo_set C (cn_blocks t) = Inr v \<and>
       map (\<lambda>b. tl (b_transactions (sb_block b))) new =
         map (\<lambda>i. if k + i = 0 then pending else []) [0..<n]"
proof (induction n arbitrary: k u s)
  case 0
  then show ?case by (simp add: returnS_def)
next
  case (Suc n)
  obtain w m where g: "generate_block C (clock k) script (if k = 0 then pending else []) u s = (Inr w, m)"
    and l: "generate_loop C clock script pending (Suc k) n w m = (Inr v, t)"
    using Suc.prems(1) by (auto simp: bindS_Inr)
  obtain blk where b: "cn_blocks m = cn_blocks s @ [blk]" "build_utxo_set C (cn_blocks m) = Inr w"
    "tl (b_transactions (sb_block blk)) = (if k = 0 then pending else [])"
    using generate_block_Inr [OF g Suc.prems(2,3)] by blast
  have ne: "cn_blocks m \<noteq> []" using b(1) by simp
  obtain new where n: "cn_blocks t = cn_blocks m @ new" "length new = n" "build_utxo_set C (cn_blocks t) = Inr v"
    "map (\<lambda>b. tl (b_transactions (sb_block b))) new = map (\<lambda>i. if Suc k + i = 0 then pending else []) [0..<n]"
    using Suc.IH [OF l b(2) ne] by blast
  have "map (\<lambda>i. if k + i = 0 then pending else []) [0..<Suc n] =
      (if k = 0 then pending else []) # map (\<lambda>i. if Suc k + i = 0 then pending else []) [0..<n]"
    by (simp add: map_upt_Suc del: upt_Suc)
  then show ?case
    using n b by (intro exI [of _ "blk # new"]) simp
qed

lemma chain_generate_Inr:
  assumes g: "chain_generate C clock count script pending s = (Inr r, t)" and v: "chain_valid C s"
  shows "chain_valid C t \<and> (\<exists>new. cn_blocks t = cn_blocks s @ new \<and> length new = unat count \<and>
    map (\<lambda>b. tl (b_transactions (sb_block b))) new = map (\<lambda>i. if i = 0 then pending else []) [0..<unat count])"
proof -
  have ne: "cn_blocks s \<noteq> []" using v by (auto simp: chain_valid_def verify_blocks_def)
  obtain u m where l: "generate_loop C clock script pending 0 (unat count) (cn_utxos s) s = (Inr u, m)"
    and ver: "verify_blocks C (cn_blocks m) = Inr ()"
    and sv: "chain_save C (m \<lparr> cn_utxos := u \<rparr>) = (Inr (), t)"
    using g ne
    by (auto simp: chain_generate_def bindS_Inr getS_def returnS_def chain_verify_def liftS_def set_utxos_def modifyS_def)
  have "same_memory t (m \<lparr> cn_utxos := u \<rparr>)" using sv by (rule chain_save_memory)
  moreover have "build_utxo_set C (cn_blocks s) = Inr (cn_utxos s)" using v by (simp add: chain_valid_def)
  ultimately show ?thesis
    using generate_loop_Inr [OF l _ ne] ver by (auto simp: same_memory_def chain_valid_def)
qed

subsection \<open>Issued supply\<close>

lemma issued_fold:
  "verify_loop C i (Some p) bs u = Inr u' \<Longrightarrow> i + length bs \<le> 2 ^ 64 \<Longrightarrow>
     a + (\<Sum>k<length bs. era_subsidy ((i + k) div unat TESTNET_HALVING_INTERVAL)) \<le> MAX_MONEY \<Longrightarrow>
     foldE issued_step bs a = Inr (a + (\<Sum>k<length bs. era_subsidy ((i + k) div unat TESTNET_HALVING_INTERVAL)))"
proof (induction bs arbitrary: i p u a)
  case (Cons b bs)
  let ?e = "era_subsidy (i div unat TESTNET_HALVING_INTERVAL)"
  let ?S = "\<Sum>k<length bs. era_subsidy ((Suc i + k) div unat TESTNET_HALVING_INTERVAL)"
  obtain v where h: "height_ok i b" and r: "verify_loop C (Suc i) (Some b) bs v = Inr u'"
    using Cons.prems(1) by (auto simp: verify_step_Inr)
  have "unat (sb_height b) = i"
    using h Cons.prems(2) by (simp add: height_ok_def unat_of_size)
  then have s: "block_subsidy (sb_height b) TESTNET_HALVING_INTERVAL = Inr ?e"
    by (simp add: block_subsidy_era TESTNET_HALVING_INTERVAL_def)
  have sum: "(\<Sum>k<length (b # bs). era_subsidy ((i + k) div unat TESTNET_HALVING_INTERVAL)) = ?e + ?S"
    by (simp only: length_Cons sum.lessThan_Suc_shift) simp
  have "0 \<le> ?S" by (intro sum_nonneg) (simp add: era_subsidy_def amount_consts pos_imp_zdiv_nonneg_iff)
  then have "a + ?e \<le> MAX_MONEY" "a + ?e + ?S \<le> MAX_MONEY"
    using Cons.prems(3) unfolding sum by linarith+
  with Cons.IH [OF r, of "a + ?e"] Cons.prems(2) show ?case
    unfolding sum by (simp add: issued_step_def s)
qed simp

lemma issued_supply_valid:
  assumes v: "chain_valid C s" and len: "length (cn_blocks s) \<le> 2 ^ 64"
  shows "issued_supply s = Inr (utxo_total (cn_utxos s))"
proof -
  have ver: "verify_blocks C (cn_blocks s) = Inr ()" and b: "build_utxo_set C (cn_blocks s) = Inr (cn_utxos s)"
    using v by (auto simp: chain_valid_def)
  obtain u where ne: "cn_blocks s \<noteq> []" and loop: "verify_loop C 0 None (cn_blocks s) [] = Inr u"
    using ver by (auto simp: verify_blocks_Inr)
  note r = conjunct2 [OF conjunct2 [OF verify_loop_head [OF loop ne]]]
  have l: "length (cn_blocks s) = Suc (length (tl (cn_blocks s)))" using ne by (cases "cn_blocks s") auto
  let ?S = "\<Sum>k<length (tl (cn_blocks s)). era_subsidy ((1 + k) div unat TESTNET_HALVING_INTERVAL)"
  have "issued (unat TESTNET_HALVING_INTERVAL) (length (cn_blocks s)) = INITIAL_SUBSIDY + ?S"
    by (simp only: l issued_def sum.lessThan_Suc_shift) (simp add: era_subsidy_def)
  then have S: "?S = utxo_total (cn_utxos s)" and le: "?S \<le> MAX_MONEY"
    using verified_supply [OF ver len b] by (simp_all add: amount_consts)
  have "1 + length (tl (cn_blocks s)) \<le> 2 ^ 64" using len l by linarith
  from issued_fold [OF r this, of 0] le show ?thesis
    unfolding S by (simp add: issued_supply_def)
qed

subsection \<open>The invariant as triples\<close>

lemma verified_nonempty: "chain_valid C s \<Longrightarrow> cn_blocks s \<noteq> []"
  by (auto simp: chain_valid_def verify_blocks_Inr)

lemma chain_initialize_triple: "triple (\<lambda>_. True) (chain_initialize C) (\<lambda>_. chain_valid C) (\<lambda>_. True)"
  by (rule tripleI) (auto dest: chain_initialize_Inr)

lemma chain_load_triple: "triple (\<lambda>_. True) (chain_load C) (\<lambda>_. chain_valid C) (\<lambda>_. True)"
  by (rule tripleI) (auto dest: chain_load_Inr)

lemma append_blocks_triple: "triple (chain_valid C) (append_blocks C bs) (\<lambda>_. chain_valid C) (chain_valid C)"
proof (rule tripleI)
  fix s r t assume s: "chain_valid C s" and a: "append_blocks C bs s = (Inr r, t)"
  show "chain_valid C t"
  proof (cases "bs = []")
    case True
    with s a show ?thesis by (simp add: append_blocks_def returnS_def)
  next
    case False
    with append_blocks_Inr [OF a] verified_nonempty [OF s] show ?thesis by blast
  qed
next
  fix s e t assume s: "chain_valid C s" and a: "append_blocks C bs s = (Inl e, t)"
  with append_blocks_Inl [OF a verified_nonempty [OF s]] show "chain_valid C t"
    using chain_valid_same by blast
qed

lemma activate_triple: "triple (chain_valid C) (activate_if_more_work C cand) (\<lambda>_. chain_valid C) (chain_valid C)"
proof (rule tripleI)
  fix s r t assume "chain_valid C s" "activate_if_more_work C cand s = (Inr r, t)"
  with activate_Inr [of C cand s r t] show "chain_valid C t" by (auto split: if_splits)
next
  fix s e t assume "chain_valid C s" "activate_if_more_work C cand s = (Inl e, t)"
  then show "chain_valid C t" using activate_Inl chain_valid_same by blast
qed

lemma chain_generate_triple:
  "triple (chain_valid C) (chain_generate C clock n script pending) (\<lambda>_. chain_valid C) (\<lambda>_. True)"
  by (rule tripleI) (auto dest: chain_generate_Inr)

end
