(* ===== verification/ChainStore.thy ===== *)
theory ChainStore
  imports StorageCommit ChainOps
begin

section \<open>Verified chains are storable\<close>

text \<open>
  The store's results ask that the chain be \<open>storable\<close>: heights by position, coins sorted with amounts
  in range under identifiers without separators. Every verified chain with its own coins is.
\<close>

abbreviation entries_ok :: "utxo_set \<Rightarrow> bool" where
  "entries_ok u \<equiv> list_all utxo_entry_ok u"

lemma set_emplace: "set (map_emplace k v m) \<subseteq> insert (k, v) (set m)"
  by (induction m) (auto split: if_splits)

lemma entries_emplace: "entries_ok u \<Longrightarrow> utxo_entry_ok (k, v) \<Longrightarrow> entries_ok (map_emplace k v u)"
  using set_emplace [of k v u] by (auto simp: list_all_iff)

lemma entries_erase: "entries_ok u \<Longrightarrow> entries_ok (foldl (\<lambda>u i. map_erase (f i) u) u ins)"
proof (induction ins arbitrary: u)
  case (Cons i ins)
  from Cons.prems have "entries_ok (map_erase (f i) u)"
    by (auto simp: list_all_iff map_erase_def)
  from Cons.IH [OF this] show ?case by simp
qed simp

lemma entries_add_outputs:
  "add_outputs s h cb msg k outs u = (Inr r, u') \<Longrightarrow> entries_ok u \<Longrightarrow> plain s \<Longrightarrow> list_all valid_output outs \<Longrightarrow>
     entries_ok u'"
proof (induction outs arbitrary: k u)
  case (Cons out outs)
  let ?u = "map_emplace (OutPoint s (word_of_nat k)) \<lparr> coin_output = out, coin_height = h, coin_coinbase = cb \<rparr> u"
  have "entries_ok ?u"
    by (rule entries_emplace [OF Cons.prems(2)]) (use Cons.prems(3,4) in \<open>simp add: utxo_entry_ok_def valid_output_def\<close>)
  moreover have "add_outputs s h cb msg (Suc k) outs ?u = (Inr r, u')"
    using Cons.prems(1) by (simp add: sx_defs split: if_splits)
  ultimately show ?case using Cons.IH Cons.prems(3,4) by simp
qed (simp add: returnS_def)

lemma txid_plain: "txid C t = Inr s \<Longrightarrow> plain s"
  by (drule txid_display) (auto simp: display_id_def intro: plain_lower_hex)

lemma txid_outputs: "txid C t = Inr s \<Longrightarrow> list_all valid_output (tx_outputs t)"
  by (drule txid_valid) (simp add: valid_transaction_def)

lemma entries_outputs:
  "add_outputs s h cb msg k (tx_outputs t) u = (Inr r, u') \<Longrightarrow> txid C t = Inr s \<Longrightarrow> entries_ok u \<Longrightarrow> entries_ok u'"
  by (rule entries_add_outputs [OF _ _ txid_plain txid_outputs])

lemma entries_apply: "apply_transaction C t h u = (Inr paid, u') \<Longrightarrow> entries_ok u \<Longrightarrow> entries_ok u'"
  by (auto simp: apply_transaction_def bindS_Inr liftS_def getS_def modifyS_def throwS_def returnS_def Let_def
      intro: entries_outputs [OF _ _ entries_erase] split: if_splits)

lemma entries_apply_all: "apply_all C h ts u = (Inr r, u') \<Longrightarrow> entries_ok u \<Longrightarrow> entries_ok u'"
  by (induction ts arbitrary: u) (auto simp: returnS_def bindS_Inr dest: entries_apply)

lemma entries_connect: "connect_block C b u = (Inr r, u') \<Longrightarrow> entries_ok u \<Longrightarrow> entries_ok u'"
  by (auto simp: connect_block_def Let_def bindS_Inr liftS_def throwS_def split: if_splits
      dest: entries_outputs entries_apply_all)

lemma entries_connect_blocks: "connect_blocks C bs u = (Inr r, u') \<Longrightarrow> entries_ok u \<Longrightarrow> entries_ok u'"
  by (induction bs arbitrary: u) (auto simp: returnS_def bindS_Inr dest: entries_connect)

text \<open>Block times strictly increase and are 32-bit, so no verified chain is longer than \<open>2 ^ 32\<close> blocks.\<close>

lemma verified_times:
  assumes "verify_blocks C bs = Inr ()" and "k < length bs"
  shows "k \<le> unat (bh_time (b_header (sb_block (bs ! k))))"
  using assms(2)
proof (induction k)
  case (Suc k)
  obtain w where w: "verify_loop C 0 None bs [] = Inr w" using assms(1) by (auto simp: verify_blocks_Inr)
  from verify_loop_nth [OF w Suc.prems]
  have "bh_time (b_header (sb_block (bs ! k))) < bh_time (b_header (sb_block (bs ! Suc k)))"
    by (simp add: sorted_keys_def)
  with Suc show ?case by (simp add: word_less_nat_alt)
qed simp

lemma verified_length:
  assumes "verify_blocks C bs = Inr ()"
  shows "length bs \<le> 2 ^ 32"
proof (cases bs)
  case (Cons b bs')
  with verified_times [OF assms, of "length bs - 1"]
  have "length bs - 1 \<le> unat (bh_time (b_header (sb_block (bs ! (length bs - 1)))))" by simp
  moreover have "unat (bh_time (b_header (sb_block (bs ! (length bs - 1))))) < 2 ^ 32"
    by (rule order_less_le_trans [OF unsigned_less]) simp
  ultimately show ?thesis using Cons by simp
qed simp

lemma verified_storable:
  assumes v: "verify_blocks C bs = Inr ()" and u: "build_utxo_set C bs = Inr u"
  shows "storable bs u"
proof -
  have len: "length bs \<le> 2 ^ 64" using verified_length [OF v] by simp
  from verified_utxo_set [OF v len] u have s: "sorted_keys u" by auto
  from u have e: "entries_ok u"
    by (auto simp: build_utxo_set_def split: prod.splits sum.splits dest: entries_connect_blocks)
  obtain w where "bs \<noteq> []" "verify_loop C 0 None bs [] = Inr w" using v by (auto simp: verify_blocks_Inr)
  with verify_loop_nth [OF this(2)] s e show ?thesis
    by (simp add: storable_def height_ok_def sorted_keys_def)
qed

end
