(* ===== verification/Reindex.thy ===== *)
theory Reindex
  imports StorageLive ChainStore
begin

section \<open>What \<^verbatim>\<open>reindex\<close> finds in the block file (chain.cpp)\<close>

text \<open>
  \<open>walk_back_chain\<close>: from the tip of a verified chain whose blocks are found under their hashes the walk collects the
  whole chain, with the fuel it is given. \<open>reindex_best\<close>: the loop over the tips keeps the best of all walks.
  \<open>scanned_records\<close>: the map of the records is the catalogue, read. Together (\<open>reindex_returns\<close>): on a disk that does not
  fail \<^verbatim>\<open>reindex\<close> returns, whatever stands behind the last whole record of the block file, and the chain it commits has
  at least as many blocks as any verified chain the file agrees with.
\<close>

abbreviation own_hash :: "crypto \<Rightarrow> stored_block \<Rightarrow> string res" where
  "own_hash C b \<equiv> hash_hex C (b_header (sb_block b))"

definition indexed :: "crypto \<Rightarrow> (string \<times> stored_block) list \<Rightarrow> bool" where
  "indexed C m \<longleftrightarrow> sorted_keys m \<and> (\<forall>h b. map_of m h = Some b \<longrightarrow> own_hash C b = Inr h)"

lemma indexed_hash: "indexed C m \<Longrightarrow> map_of m h = Some b \<Longrightarrow> own_hash C b = Inr h"
  by (simp add: indexed_def)

lemma indexed_member: "indexed C m \<Longrightarrow> (h, b) \<in> set m \<Longrightarrow> map_of m h = Some b"
  by (auto simp: indexed_def dest: sorted_keys_distinct)

lemma index_fold:
  "foldE (\<lambda>b m. bindE (own_hash C b) (\<lambda>h. Inr (map_emplace h b m))) records m = Inr m' \<Longrightarrow> indexed C m \<Longrightarrow>
     indexed C m' \<and> snd ` set m' \<subseteq> snd ` set m \<union> set records"
proof (induction records arbitrary: m)
  case (Cons b records)
  obtain h where h: "own_hash C b = Inr h"
    and f: "foldE (\<lambda>b m. bindE (own_hash C b) (\<lambda>h. Inr (map_emplace h b m))) records (map_emplace h b m) = Inr m'"
    using Cons.prems(1) by auto
  have "indexed C (map_emplace h b m)"
    using Cons.prems(2) h by (auto simp: indexed_def map_of_emplace split: if_splits)
  moreover have "snd ` set (map_emplace h b m) \<subseteq> insert b (snd ` set m)"
    using image_mono [OF set_emplace [of h b m], of snd] by simp
  ultimately show ?case using Cons.IH [OF f] by simp blast
qed simp

lemma index_by_hash_Inr: "index_by_hash C records = Inr m \<Longrightarrow> indexed C m \<and> snd ` set m \<subseteq> set records"
  using index_fold [of C records "[]" m] by (simp add: index_by_hash_def indexed_def sorted_keys_def)

subsection \<open>One walk\<close>

lemma walk_back_total:
  "indexed C m \<Longrightarrow> own_hash C b = Inr h \<Longrightarrow>
     \<exists>bs ok. walk_back C m fuel visited b tail = Inr (bs, ok) \<and> set bs \<subseteq> insert b (set tail) \<union> snd ` set m"
proof (induction fuel arbitrary: visited b tail h)
  case (Suc fuel)
  note index = Suc.prems
  show ?case
  proof (cases "map_of m (bh_previous_hash (b_header (sb_block b)))")
    case (Some parent)
    have "parent \<in> snd ` set m" using map_of_SomeD [OF Some] by force
    moreover have "own_hash C parent = Inr (bh_previous_hash (b_header (sb_block b)))"
      using index(1) Some by (simp add: indexed_def)
    note Suc.IH [OF index(1) this, of "h # visited" "b # tail"]
    ultimately show ?thesis using Some index(2) by auto
  qed (use index(2) in auto)
qed auto

text \<open>The records hold a verified chain when each of its blocks is the one found under its hash.\<close>

definition found_in :: "(string \<times> stored_block) list \<Rightarrow> stored_block list \<Rightarrow> bool" where
  "found_in m bs \<longleftrightarrow> (\<forall>b \<in> set bs. \<exists>h. map_of m h = Some b)"

lemma found_hash:
  assumes "indexed C m" and "found_in m bs" and "k < length bs"
  shows "\<exists>h. map_of m h = Some (bs ! k) \<and> own_hash C (bs ! k) = Inr h"
  using assms by (auto simp: found_in_def indexed_def Ball_def in_set_conv_nth)

lemma verified_nth:
  assumes "verify_blocks C bs = Inr ()" and "k < length bs"
  shows "sb_height (bs ! k) = word_of_nat k \<and>
    (0 < k \<longrightarrow> own_hash C (bs ! (k - 1)) = Inr (bh_previous_hash (b_header (sb_block (bs ! k)))))"
proof -
  obtain u where "verify_loop C 0 None bs [] = Inr u" using assms(1) by (auto simp: verify_blocks_Inr)
  from verify_loop_nth [OF this assms(2)] show ?thesis by (simp add: height_ok_def sorted_keys_def)
qed

lemma hashes_differ:
  assumes m: "indexed C m" "found_in m bs" and v: "verify_blocks C bs = Inr ()"
    and k: "i < length bs" "j < length bs" and h: "own_hash C (bs ! i) = own_hash C (bs ! j)"
  shows "i = j"
proof -
  have "bs ! i = bs ! j" using found_hash [OF m k(1)] found_hash [OF m k(2)] h by auto
  then have "(word_of_nat i :: u64) = word_of_nat j"
    using verified_nth [OF v k(1)] verified_nth [OF v k(2)] by metis
  moreover have "i < 2 ^ 64" "j < 2 ^ 64" using verified_length [OF v] k by auto
  ultimately show ?thesis by (simp add: word_of_nat_eq_iff take_bit_nat_eq_self)
qed

lemma verified_genesis_hash: "verify_blocks C bs = Inr () \<Longrightarrow> own_hash C (bs ! 0) = Inr TESTNET_GENESIS_HASH"
  by (auto simp: verify_blocks_Inr verify_genesis_def Let_def hd_conv_nth split: if_splits)

lemma walk_back_chain:
  assumes m: "indexed C m" "found_in m bs" and v: "verify_blocks C bs = Inr ()"
  shows "k < length bs \<Longrightarrow> k < fuel \<Longrightarrow> (\<forall>j \<le> k. \<forall>h. own_hash C (bs ! j) = Inr h \<longrightarrow> h \<notin> set visited) \<Longrightarrow>
    walk_back C m fuel visited (bs ! k) (drop (Suc k) bs) = Inr (bs, True)"
proof (induction k arbitrary: fuel visited)
  case 0
  then show ?case
    using verified_genesis_hash [OF v] by (cases fuel) (auto simp: Cons_nth_drop_Suc [of 0 bs, simplified])
next
  case (Suc k)
  obtain h where h: "own_hash C (bs ! Suc k) = Inr h" using found_hash [OF m Suc.prems(1)] by auto
  have "h \<noteq> TESTNET_GENESIS_HASH"
    using hashes_differ [OF m v Suc.prems(1), of 0] h verified_genesis_hash [OF v] Suc_lessD [OF Suc.prems(1)]
    by (metis Zero_not_Suc gr_zeroI less_zeroE)
  moreover have "map_of m (bh_previous_hash (b_header (sb_block (bs ! Suc k)))) = Some (bs ! k)"
    using found_hash [OF m, of k] verified_nth [OF v Suc.prems(1)] Suc.prems(1) by auto
  moreover have avoid: "\<forall>j \<le> k. \<forall>x. own_hash C (bs ! j) = Inr x \<longrightarrow> x \<notin> set (h # visited)"
  proof (intro allI impI)
    fix j x
    assume j: "j \<le> k" "own_hash C (bs ! j) = Inr x"
    have "x \<noteq> h" using j h Suc.prems(1)
      by (metis Suc_n_not_le_n hashes_differ [OF m v] le_less_trans Suc_lessD)
    moreover have "x \<notin> set visited" using Suc.prems(3) j le_SucI by blast
    ultimately show "x \<notin> set (h # visited)" by simp
  qed
  ultimately have step: "walk_back C m fuel visited (bs ! Suc k) (drop (Suc (Suc k)) bs) =
      walk_back C m (fuel - 1) (h # visited) (bs ! k) (bs ! Suc k # drop (Suc (Suc k)) bs)"
    using Suc.prems(2,3) h by (cases fuel) auto
  have "walk_back C m (fuel - 1) (h # visited) (bs ! k) (drop (Suc k) bs) = Inr (bs, True)"
    by (rule Suc.IH) (use Suc.prems avoid in auto)
  then show ?case using step Suc.prems(1) by (simp add: Cons_nth_drop_Suc)
qed

lemma found_length:
  assumes m: "indexed C m" "found_in m bs" and v: "verify_blocks C bs = Inr ()"
  shows "length bs \<le> length m"
proof -
  have "distinct bs" using hashes_differ [OF m v] by (auto simp: distinct_conv_nth)
  then have "length bs = card (set bs)" by (simp add: distinct_card)
  also have "\<dots> \<le> card (snd ` set m)"
    using m(2) by (intro card_mono) (force simp: found_in_def dest: map_of_SomeD)+
  also have "\<dots> \<le> length m" by (metis card_image_le card_length finite_set le_trans)
  finally show ?thesis .
qed

subsection \<open>The best of all walks\<close>

definition acceptable :: "crypto \<Rightarrow> stored_block list \<Rightarrow> int \<Rightarrow> bool" where
  "acceptable C bs w \<longleftrightarrow> verify_blocks C bs = Inr () \<and> calculate_chainwork bs = Inr w"

definition best_ok :: "crypto \<Rightarrow> (string \<times> stored_block) list \<Rightarrow> stored_block list \<times> int \<Rightarrow> bool" where
  "best_ok C m acc \<longleftrightarrow> acc = ([], -1) \<or> acceptable C (fst acc) (snd acc) \<and> set (fst acc) \<subseteq> snd ` set m"

definition walks_to :: "crypto \<Rightarrow> (string \<times> stored_block) list \<Rightarrow> stored_block \<Rightarrow> stored_block list \<Rightarrow> bool" where
  "walks_to C m b bs \<longleftrightarrow> walk_back C m (Suc (length m)) [] b [] = Inr (bs, True)"

lemma reindex_step_best:
  assumes "indexed C m" and "(h, b) \<in> set m" and "best_ok C m acc"
  shows "\<exists>acc'. reindex_step C m (h, b) acc = Inr acc' \<and> best_ok C m acc' \<and> snd acc \<le> snd acc' \<and>
    (\<forall>bs w. walks_to C m b bs \<longrightarrow> acceptable C bs w \<longrightarrow> w \<le> snd acc')"
proof -
  have own: "own_hash C b = Inr h" using indexed_hash [OF assms(1) indexed_member [OF assms(1,2)]] .
  have "b \<in> snd ` set m" using assms(2) by force
  moreover obtain bs ok where bs: "walk_back C m (Suc (length m)) [] b [] = Inr (bs, ok)"
    "set bs \<subseteq> insert b (set []) \<union> snd ` set m"
    using walk_back_total [OF assms(1) own] by blast
  ultimately have w: "walk_back C m (Suc (length m)) [] b [] = Inr (bs, ok)" "set bs \<subseteq> snd ` set m" by auto
  show ?thesis
  proof (cases "bindE (verify_blocks C bs) (\<lambda>_. calculate_chainwork bs)")
    case (Inl e)
    then have "\<And>v. \<not> acceptable C bs v" by (auto simp: acceptable_def)
    moreover have "reindex_step C m (h, b) acc = Inr acc"
      using Inl by (cases ok) (simp_all add: reindex_step_def w(1) del: walk_back.simps)
    ultimately show ?thesis using assms(3) by (auto simp: walks_to_def w(1) simp del: walk_back.simps)
  next
    case (Inr v)
    then have a: "acceptable C bs v" by (cases "verify_blocks C bs") (auto simp: acceptable_def)
    then have v: "\<And>x. acceptable C bs x \<Longrightarrow> x = v" by (simp add: acceptable_def)
    define z where "z = (if ok \<and> v > snd acc then (bs, v) else acc)"
    have "reindex_step C m (h, b) acc = Inr z"
      using Inr by (cases ok) (simp_all add: reindex_step_def w(1) z_def del: walk_back.simps)
    moreover have "best_ok C m z" using assms(3) a w(2) by (simp add: z_def best_ok_def)
    moreover have "x \<le> snd z" if "walks_to C m b bs'" "acceptable C bs' x" for bs' x
    proof -
      have "ok" "bs' = bs" using that(1) unfolding walks_to_def w(1) by simp_all
      with v that(2) show ?thesis by (simp add: z_def)
    qed
    ultimately show ?thesis by (intro exI [of _ z]) (simp add: z_def)
  qed
qed

lemma reindex_best:
  assumes "indexed C m"
  shows "set tips \<subseteq> set m \<Longrightarrow> best_ok C m acc \<Longrightarrow>
    \<exists>acc'. foldE (reindex_step C m) tips acc = Inr acc' \<and> best_ok C m acc' \<and> snd acc \<le> snd acc' \<and>
      (\<forall>(h, b) \<in> set tips. \<forall>bs w. walks_to C m b bs \<longrightarrow> acceptable C bs w \<longrightarrow> w \<le> snd acc')"
proof (induction tips arbitrary: acc)
  case (Cons tip tips)
  obtain h b where tip: "tip = (h, b)" by (rule prod.exhaust)
  obtain a where a: "reindex_step C m tip acc = Inr a" "best_ok C m a" "snd acc \<le> snd a"
    "\<And>bs w. walks_to C m b bs \<Longrightarrow> acceptable C bs w \<Longrightarrow> w \<le> snd a"
    using reindex_step_best [OF assms, of h b acc] Cons.prems tip by auto
  obtain z where "foldE (reindex_step C m) tips a = Inr z" "best_ok C m z" "snd a \<le> snd z"
    "\<forall>(h, b) \<in> set tips. \<forall>bs w. walks_to C m b bs \<longrightarrow> acceptable C bs w \<longrightarrow> w \<le> snd z"
    using Cons.IH [OF _ a(2)] Cons.prems(1) by auto
  with a tip show ?case by (fastforce dest: a(4))
qed simp

lemma found_tip:
  assumes m: "indexed C m" "found_in m bs" and v: "verify_blocks C bs = Inr ()"
  shows "\<exists>h. (h, last bs) \<in> set m \<and> walks_to C m (last bs) bs"
proof -
  have ne: "bs \<noteq> []" using v by (auto simp: verify_blocks_Inr)
  then obtain h where "map_of m h = Some (last bs)" using m(2) last_in_set by (fastforce simp: found_in_def)
  moreover have "walks_to C m (last bs) bs"
    using walk_back_chain [OF m v, of "length bs - 1" "Suc (length m)" "[]"] found_length [OF m v] ne
    by (simp add: walks_to_def last_conv_nth del: walk_back.simps)
  ultimately show ?thesis by (blast dest: map_of_SomeD)
qed

subsection \<open>What the scan indexes\<close>

lemma index_total:
  "\<forall>b \<in> set records. \<exists>h. own_hash C b = Inr h \<Longrightarrow> sorted_keys m \<Longrightarrow>
     \<exists>m'. foldE (\<lambda>b m. bindE (own_hash C b) (\<lambda>h. Inr (map_emplace h b m))) records m = Inr m' \<and>
       (\<forall>h. map_of m h \<noteq> None \<or> (\<exists>b \<in> set records. own_hash C b = Inr h) \<longrightarrow> map_of m' h \<noteq> None)"
proof (induction records arbitrary: m)
  case (Cons b records)
  obtain h where h: "own_hash C b = Inr h" using Cons.prems(1) by auto
  with Cons.IH [of "map_emplace h b m"] Cons.prems show ?case by (auto simp: map_of_emplace split: if_splits)
qed simp

lemma scanned_records:
  assumes "catalog_ok C (file_content d blocks_path) (scan_catalog C d)"
  shows "\<exists>records m. scan_all_blocks C d = Inr records \<and> index_by_hash C records = Inr m \<and> indexed C m \<and>
    snd ` set m \<subseteq> set records \<and>
    (\<forall>h e b. map_of (scan_catalog C d) h = Some e \<longrightarrow>
       read_record_at C (file_content d blocks_path) (unat (ie_offset e)) (Some (ie_payload_size e)) = Inr b \<longrightarrow>
       map_of m h = Some b) \<and>
    (\<forall>h b. map_of m h = Some b \<longrightarrow> (\<exists>e. map_of (scan_catalog C d) h = Some e \<and>
       load_indexed_entry C (file_content d blocks_path) e = Inr b))"
proof -
  let ?c = "file_content d blocks_path" and ?cat = "scan_catalog C d"
  let ?read = "\<lambda>e :: index_entry. read_record_at C ?c (unat (ie_offset e)) (Some (ie_payload_size e))"
  define f where "f = (\<lambda>e :: index_entry. projr (?read e))"
  have entry: "?read e = Inr (f e) \<and> own_hash C (f e) = Inr h \<and> map_of ?cat h = Some e \<and>
      load_indexed_entry C ?c e = Inr (f e)" if "(h, e) \<in> set ?cat" for h e
  proof -
    have e: "map_of ?cat h = Some e" using that assms by (auto simp: catalog_ok_def dest: sorted_keys_distinct)
    then obtain b where "load_indexed_entry C ?c e = Inr b" "ie_hash e = h"
      using assms by (auto simp: catalog_ok_def entry_ok_def)
    then show ?thesis using e by (simp add: load_entry_Inr f_def)
  qed
  define records where "records = map (\<lambda>(h, e). f e) ?cat"
  have scan: "scan_all_blocks C d = Inr records"
    unfolding scan_all_blocks_def records_def by (rule mapE_total) (use entry in auto)
  have hashed: "\<forall>b \<in> set records. \<exists>h. own_hash C b = Inr h" using entry by (auto simp: records_def)
  obtain m where m: "index_by_hash C records = Inr m"
    "\<forall>h. (\<exists>b \<in> set records. own_hash C b = Inr h) \<longrightarrow> map_of m h \<noteq> None"
    using index_total [OF hashed, of "[]"] by (auto simp: index_by_hash_def sorted_keys_def)
  have i: "indexed C m" "snd ` set m \<subseteq> set records" using index_by_hash_Inr [OF m(1)] by auto
  have "map_of m h = Some b" if e: "map_of ?cat h = Some e" "?read e = Inr b" for h e b
  proof -
    have he: "(h, e) \<in> set ?cat" by (rule map_of_SomeD [OF e(1)])
    have b: "b = f e" "own_hash C b = Inr h" using entry [OF he] e(2) by auto
    have "b \<in> set records" using he b(1) by (force simp: records_def)
    then obtain x where x: "map_of m h = Some x" using m(2) b(2) by blast
    then have "own_hash C x = Inr h" "x \<in> set records"
      using indexed_hash [OF i(1) x] i(2) map_of_SomeD [OF x] by force+
    then obtain k e' where k: "(k, e') \<in> set ?cat" "x = f e'" by (auto simp: records_def)
    then have "k = h" using entry [OF k(1)] \<open>own_hash C x = Inr h\<close> by simp
    then have "e' = e" using k(1) he assms by (auto simp: catalog_ok_def dest: sorted_keys_distinct eq_key_imp_eq_value)
    then show ?thesis using x k(2) b(1) by simp
  qed
  moreover have "\<exists>e. map_of ?cat h = Some e \<and> load_indexed_entry C ?c e = Inr b" if x: "map_of m h = Some b" for h b
  proof -
    have "b \<in> set records" using i(2) map_of_SomeD [OF x] by force
    then obtain k e where e: "(k, e) \<in> set ?cat" "b = f e" by (auto simp: records_def)
    then have "k = h" using entry [OF e(1)] indexed_hash [OF i(1) x] by simp
    then show ?thesis using entry [OF e(1)] e(2) by blast
  qed
  ultimately show ?thesis using scan m(1) i by blast
qed

lemma agreeing_found:
  assumes "records_agree C d bs"
    and "\<forall>h e b. map_of (scan_catalog C d) h = Some e \<longrightarrow>
       read_record_at C (file_content d blocks_path) (unat (ie_offset e)) (Some (ie_payload_size e)) = Inr b \<longrightarrow>
       map_of m h = Some b"
  shows "found_in m bs"
  unfolding found_in_def
proof
  fix b assume "b \<in> set bs"
  obtain es where es: "list_all2 (\<lambda>b e. catalog_index_entry C (scan_catalog C d) b = Inr e) bs es"
    "list_all2 (\<lambda>e b. load_indexed_entry C (file_content d blocks_path) e = Inr b) es bs"
    using assms(1) by (auto simp: records_agree_def reads_as_def mapE_Inr_iff)
  obtain k where k: "k < length bs" "b = bs ! k" using \<open>b \<in> set bs\<close> by (auto simp: in_set_conv_nth)
  then have "catalog_index_entry C (scan_catalog C d) b = Inr (es ! k)"
    "load_indexed_entry C (file_content d blocks_path) (es ! k) = Inr b"
    using es by (auto simp: list_all2_conv_all_nth)
  moreover from this obtain h e where "map_of (scan_catalog C d) h = Some e" "es ! k = e \<lparr> ie_height := sb_height b \<rparr>"
    by (auto simp: catalog_index_entry_def split: option.splits)
  ultimately show "\<exists>h. map_of m h = Some b" using assms(2) by (auto simp: load_entry_Inr)
qed

lemma reindex_recovers_all:
  assumes scan: "scan_all_blocks C (st_disk (cn_store s)) = Inr records" and index: "index_by_hash C records = Inr m"
    and v: "verify_blocks C bs = Inr ()" and found: "found_in m bs"
  shows "\<exists>best u. verify_blocks C best = Inr () \<and> build_utxo_set C best = Inr u \<and> length bs \<le> length best \<and>
    found_in m best \<and> chain_reindex C s = chain_save C (s \<lparr> cn_blocks := best, cn_utxos := u \<rparr>)"
proof -
  have m: "indexed C m" "snd ` set m \<subseteq> set records" using index_by_hash_Inr [OF index] by auto
  obtain best w where best: "foldE (reindex_step C m) m ([], -1) = Inr (best, w)" "best_ok C m (best, w)"
    and most: "\<forall>(h, b) \<in> set m. \<forall>bs v. walks_to C m b bs \<longrightarrow> acceptable C bs v \<longrightarrow> v \<le> w"
    using reindex_best [OF m(1), of m "([], -1)"] by (auto simp: best_ok_def)
  have "TESTNET_WORK * int (length bs) \<le> w"
    using most found_tip [OF m(1) found v] verified_work [OF v] v by (fastforce simp: acceptable_def)
  then have b: "verify_blocks C best = Inr ()" "w = TESTNET_WORK * int (length best)" "set best \<subseteq> snd ` set m"
    using best(2) verified_work [of C best] by (auto simp: best_ok_def acceptable_def TESTNET_WORK_def)
  have "found_in m best" using b(3) indexed_member [OF m(1)] by (force simp: found_in_def)
  moreover note b(1)
  moreover have "length bs \<le> length best"
    using b(2) \<open>TESTNET_WORK * int (length bs) \<le> w\<close> by (simp add: TESTNET_WORK_def)
  moreover obtain u where "build_utxo_set C best = Inr u"
    using verified_utxo_set [OF b(1)] verified_length [OF b(1)] by auto
  moreover have "best \<noteq> []" "bs \<noteq> []" using b(1) v by (auto simp: verify_blocks_Inr)
  moreover have "map_contains m TESTNET_GENESIS_HASH"
    using found_hash [OF m(1) found, of 0] verified_genesis_hash [OF v] \<open>bs \<noteq> []\<close> by (auto simp: map_contains_def)
  moreover have "records \<noteq> []" using m(2) found_tip [OF m(1) found v] by auto
  ultimately show ?thesis
    using scan index best(1)
    by (auto simp: chain_reindex_def bindS_def getS_def liftS_def set_blocks_def set_utxos_def modifyS_def rebuild_utxos_def)
qed

text \<open>Conversely, what is found under its hash agrees with the catalogue.\<close>

lemma found_agrees:
  assumes size: "file_size_or_zero d blocks_path < 2 ^ 64"
    and entries: "\<forall>h b. map_of m h = Some b \<longrightarrow> (\<exists>e. map_of (scan_catalog C d) h = Some e \<and>
       load_indexed_entry C (file_content d blocks_path) e = Inr b)"
    and m: "indexed C m" "found_in m bs"
  shows "records_agree C d bs"
proof -
  let ?cat = "scan_catalog C d" and ?c = "file_content d blocks_path"
  have one: "\<exists>h e. own_hash C b = Inr h \<and> map_of ?cat h = Some e \<and> ie_height e = sb_height b \<and>
      load_indexed_entry C ?c e = Inr b" if b: "b \<in> set bs" for b
  proof -
    obtain h where h: "map_of m h = Some b" using m(2) b by (auto simp: found_in_def)
    with entries obtain e where "map_of ?cat h = Some e" "load_indexed_entry C ?c e = Inr b" by blast
    with indexed_hash [OF m(1) h] show ?thesis by (auto simp: load_entry_Inr)
  qed
  have "\<exists>es. mapE (catalog_index_entry C ?cat) bs = Inr es \<and> mapE (load_indexed_entry C ?c) es = Inr bs"
    if "\<And>b. b \<in> set bs \<Longrightarrow> \<exists>h e. own_hash C b = Inr h \<and> map_of ?cat h = Some e \<and> ie_height e = sb_height b \<and>
      load_indexed_entry C ?c e = Inr b" for bs
    using that
  proof (induction bs)
    case (Cons b bs)
    obtain es where es: "mapE (catalog_index_entry C ?cat) bs = Inr es" "mapE (load_indexed_entry C ?c) es = Inr bs"
      using Cons by (metis list.set_intros(2))
    obtain h e where e: "own_hash C b = Inr h" "map_of ?cat h = Some e" "ie_height e = sb_height b"
      "load_indexed_entry C ?c e = Inr b"
      using Cons.prems [of b] by auto
    have "e \<lparr> ie_height := sb_height b \<rparr> = e" using e(3) by (metis index_entry.surjective index_entry.update_convs(1))
    with e have "catalog_index_entry C ?cat b = Inr e" by (simp add: catalog_index_entry_def)
    with es e(4) show ?case by simp
  qed simp
  from this [OF one] have "reads_as C d bs bs" by (simp add: reads_as_def)
  moreover have "heights_agree C d bs" using size one by (fastforce simp: heights_agree_def)
  ultimately show ?thesis by (simp add: records_agree_def)
qed

lemma agreeing_keys: "records_agree C d bs \<Longrightarrow> hashes_of C bs \<subseteq> fst ` set (scan_catalog C d)"
proof
  fix h assume a: "records_agree C d bs" "h \<in> hashes_of C bs"
  then obtain b k where b: "own_hash C b = Inr h" "k < length bs" "b = bs ! k"
    by (auto simp: hashes_of_def in_set_conv_nth)
  obtain es where "list_all2 (\<lambda>b e. catalog_index_entry C (scan_catalog C d) b = Inr e) bs es"
    using a(1) by (auto simp: records_agree_def reads_as_def mapE_Inr_iff)
  then have "\<exists>e. catalog_index_entry C (scan_catalog C d) b = Inr e" using b by (auto simp: list_all2_conv_all_nth)
  with b(1) show "h \<in> fst ` set (scan_catalog C d)"
    by (force simp: catalog_index_entry_def split: option.splits dest: map_of_SomeD)
qed

lemma agree_same_file:
  assumes "file_content d blocks_path = file_content d' blocks_path" and "file_exists d blocks_path" "file_exists d' blocks_path"
  shows "records_agree C d bs \<longleftrightarrow> records_agree C d' bs"
  using assms by (simp add: records_agree_def heights_agree_def reads_as_def scan_catalog_def file_size_or_zero_def)

lemma reindex_returns:
  assumes C: "crypto_ok C" and v: "verify_blocks C bs = Inr ()" and agree: "records_agree C (st_disk (cn_store s)) bs"
    and d: "calm (st_disk (cn_store s))" "disk_ok (st_disk (cn_store s))"
  shows "\<exists>t. chain_reindex C s = (Inr (), t) \<and> chain_valid C t \<and> length bs \<le> length (cn_blocks t) \<and>
    fst (store_load C (restarted (cn_store t))) = Inr (cn_blocks t, cn_utxos t)"
proof -
  let ?d = "st_disk (cn_store s)" and ?c = "file_content (st_disk (cn_store s)) blocks_path"
  have size: "file_size_or_zero ?d blocks_path < 2 ^ 64" using agree by (simp add: records_agree_def heights_agree_def)
  obtain records m
    where scan: "scan_all_blocks C ?d = Inr records" "index_by_hash C records = Inr m" and m: "indexed C m"
    and found: "\<forall>h e b. map_of (scan_catalog C ?d) h = Some e \<longrightarrow>
       read_record_at C ?c (unat (ie_offset e)) (Some (ie_payload_size e)) = Inr b \<longrightarrow> map_of m h = Some b"
    and entries: "\<forall>h b. map_of m h = Some b \<longrightarrow> (\<exists>e. map_of (scan_catalog C ?d) h = Some e \<and>
       load_indexed_entry C ?c e = Inr b)"
    using scanned_records [OF scan_catalog_ok [OF size]] by blast
  obtain best u where best: "verify_blocks C best = Inr ()" "build_utxo_set C best = Inr u" "length bs \<le> length best"
    "found_in m best" "chain_reindex C s = chain_save C (s \<lparr> cn_blocks := best, cn_utxos := u \<rparr>)"
    using reindex_recovers_all [OF scan v agreeing_found [OF agree found]] by blast
  have best_agree: "records_agree C ?d best" by (rule found_agrees [OF size entries m best(4)])
  have ne: "best \<noteq> []" using best(1) by (auto simp: verify_blocks_Inr)
  have hs: "\<forall>b \<in> set best. \<exists>h. own_hash C b = Inr h"
    using best(4) m by (fastforce simp: found_in_def dest: indexed_hash)
  have nonempty: "scan_catalog C ?d \<noteq> []" using agreeing_keys [OF best_agree] hs ne by (cases best) (auto simp: hashes_of_def)
  then have ex: "file_exists ?d blocks_path" by (auto simp: scan_catalog_def split: if_splits)
  have keys: "hashes_of C best \<subseteq> scan_keys C ?c"
    using agreeing_keys [OF best_agree] ex by (simp add: scan_keys_def scan_catalog_def)
  have "quiet_store ?c ?d" using d by (simp add: quiet_store_def)
  with returnsD [OF store_commit_known [OF C hs ne keys, of u], of "cn_store s"] obtain s'
    where s': "store_commit C best u (cn_store s) = (Inr (), s')" "block_file_is ?c (st_disk s')"
    by auto
  have "records_agree C (st_disk s') best"
    using best_agree agree_same_file [of "st_disk s'" ?d C best] s'(2) ex
    by (auto simp: block_file_is_def file_content_def file_exists_def)
  moreover obtain g where "committed C g best u (st_disk s')" using store_commit_committed [OF d(2) s'(1)] by blast
  ultimately have load: "fst (store_load C (restarted s')) = Inr (best, u)"
    using committed_agrees [OF _ verified_storable [OF best(1,2)]] restarted_load by blast
  have "chain_save C (s \<lparr> cn_blocks := best, cn_utxos := u \<rparr>) =
      (Inr (), s \<lparr> cn_blocks := best, cn_utxos := u, cn_store := s' \<rparr>)"
    using s'(1) by (simp add: chain_save_def bindS_def getS_def on_store_def)
  then show ?thesis using best load by (simp add: chain_valid_def)
qed

end
