(* ===== verification/TextFile.thy ===== *)
theory TextFile
  imports Calm
begin

section \<open>Small line files written through a temporary\<close>

text \<open>
  The shape the mempool, ban list, peer list and side-branch store share: a vector in memory and a file of a
  magic line and one line per item. \<open>save_text\<close> is their common \<^verbatim>\<open>save\<close>: create the directory, open
  a temporary, write line by line, check the stream, rename. \<open>load_text\<close> is their common \<^verbatim>\<open>load\<close>.
  A line whose text cannot be made (a throwing serializer) stops the writing. Stream errors carry
  no system reason.

  The lemmas: a failing save leaves the file as it was, a returning one leaves exactly the lines, and
  loading what was saved runs the loader over the items alone.
\<close>

record 'a text_store =
  ts_items :: "'a list"
  ts_disk :: disk

definition on_file :: "(disk, 'b) sx \<Rightarrow> ('a text_store, 'b) sx" where
  "on_file m s = (case m (ts_disk s) of (r, d) \<Rightarrow> (r, s \<lparr> ts_disk := d \<rparr>))"

definition set_items :: "'a list \<Rightarrow> ('a text_store, unit) sx" where
  "set_items xs = modifyS (\<lambda>s. s \<lparr> ts_items := xs \<rparr>)"

definition push_item :: "'a \<Rightarrow> ('a text_store, unit) sx" where
  "push_item x = modifyS (\<lambda>s. s \<lparr> ts_items := ts_items s @ [x] \<rparr>)"

definition stream_call :: "string \<Rightarrow> (disk, unit) sx" where
  "stream_call message d =
     (case io_call message d of (Inl _, d') \<Rightarrow> (Inl (RuntimeError message), d') | (Inr _, d') \<Rightarrow> (Inr (), d'))"

definition write_line :: "string \<Rightarrow> string res \<Rightarrow> (disk, unit) sx" where
  "write_line path line =
     bindS (liftS line) (\<lambda>l.
       modifyS (\<lambda>d. put_file path (file_content d path @ string_bytes (l @ [newline])) d))"

definition save_text :: "string \<Rightarrow> string \<Rightarrow> string list \<Rightarrow> string res list \<Rightarrow> (disk, unit) sx" where
  "save_text path create_message check_messages lines =
     (let temporary = path @ ''.tmp'' in
      bindS (io_call ''create_directories'') (\<lambda>_.
      bindS (stream_call create_message) (\<lambda>_.
      bindS (modifyS (put_file temporary [])) (\<lambda>_.
      bindS (foldS (write_line temporary) lines) (\<lambda>_.
      bindS (foldS stream_call check_messages) (\<lambda>_.
      replace_file_atomically temporary path))))))"

definition load_text ::
  "string \<Rightarrow> string \<Rightarrow> string \<Rightarrow> string \<Rightarrow> (string \<Rightarrow> ('a text_store, unit) sx) \<Rightarrow> ('a text_store, unit) sx" where
  "load_text path magic open_message header_message body =
     bindS (set_items []) (\<lambda>_.
     bindS (getS (\<lambda>s. map_of (dk_files (ts_disk s)) path)) (\<lambda>content.
     case content of
       None \<Rightarrow> returnS ()
     | Some c \<Rightarrow>
         bindS (on_file (stream_call open_message)) (\<lambda>_.
         case getlines (bytes_string c) of
           [] \<Rightarrow> throwS (RuntimeError header_message)
         | line # rest \<Rightarrow>
             if line \<noteq> magic then throwS (RuntimeError header_message)
             else foldS (\<lambda>l. if l = [] then returnS () else body l) rest)))"

subsection \<open>Saving\<close>

lemma stream_call_triple: "triple (has M) (stream_call a) (\<lambda>_. has M) (has M)"
proof -
  have "stream_call a d = (r, d') \<Longrightarrow> dk_files d' = dk_files d" for d r d'
    by (auto simp: stream_call_def dest: io_call_files split: prod.splits sum.splits)
  then show ?thesis
    by (intro tripleI) (auto simp: has_def disk_ok_def)
qed

lemma write_line_triple:
  "triple (has (M(p \<mapsto> c))) (write_line p l)
     (\<lambda>_ d. \<exists>s. l = Inr s \<and> has (M(p \<mapsto> c @ string_bytes (s @ [newline]))) d) (has (M(p \<mapsto> c)))"
proof (rule tripleI)
  fix d x d' assume d: "has (M(p \<mapsto> c)) d" and w: "write_line p l d = (Inr x, d')"
  obtain s where s: "l = Inr s" "d' = put_file p (file_content d p @ string_bytes (s @ [newline])) d"
    using w by (auto simp: write_line_def sx_defs split: sum.splits)
  have "file_content d p = c" using d by (simp add: has_content content_of_def)
  with s has_put [OF d, of p] show "\<exists>s. l = Inr s \<and> has (M(p \<mapsto> c @ string_bytes (s @ [newline]))) d'"
    by auto
next
  fix d e d' assume "has (M(p \<mapsto> c)) d" and "write_line p l d = (Inl e, d')"
  then show "has (M(p \<mapsto> c)) d'" by (auto simp: write_line_def sx_defs split: sum.splits)
qed

lemma string_bytes_append [simp]: "string_bytes (a @ b) = string_bytes a @ string_bytes b"
  by (simp add: string_bytes_def)

lemma unlines_Cons: "unlines (s # ss) = (s @ [newline]) @ unlines ss"
  by (simp add: unlines_def)

lemma write_lines_triple:
  "triple (has (M(p \<mapsto> c))) (foldS (write_line p) ls)
     (\<lambda>_ d. \<exists>ss. ls = map Inr ss \<and> has (M(p \<mapsto> c @ string_bytes (unlines ss))) d)
     (\<lambda>d. \<exists>x. has (M(p := x)) d)"
proof (induction ls arbitrary: c)
  case Nil
  have "c @ string_bytes (unlines []) = c" by (simp add: unlines_def string_bytes_def)
  then have e: "M(p \<mapsto> c @ string_bytes (unlines [])) = M(p \<mapsto> c)" by simp
  show ?case
    unfolding foldS.simps
    by (rule triple_return, rule exI [of _ "[]"]) (simp only: list.map e simp_thms)
next
  case (Cons l ls)
  have "triple (\<lambda>d. \<exists>s. l = Inr s \<and> has (M(p \<mapsto> c @ string_bytes (s @ [newline]))) d) (foldS (write_line p) ls)
     (\<lambda>_ d. \<exists>ss. l # ls = map Inr ss \<and> has (M(p \<mapsto> c @ string_bytes (unlines ss))) d)
     (\<lambda>d. \<exists>x. has (M(p := x)) d)"
  proof (rule triple_ex)
    fix s
    show "triple (\<lambda>d. l = Inr s \<and> has (M(p \<mapsto> c @ string_bytes (s @ [newline]))) d) (foldS (write_line p) ls)
     (\<lambda>_ d. \<exists>ss. l # ls = map Inr ss \<and> has (M(p \<mapsto> c @ string_bytes (unlines ss))) d)
     (\<lambda>d. \<exists>x. has (M(p := x)) d)"
    proof (cases "l = Inr s")
      case True
      show ?thesis
      proof (rule triple_conseq [OF Cons.IH [of "c @ string_bytes (s @ [newline])"]])
        show "l = Inr s \<and> has (M(p \<mapsto> c @ string_bytes (s @ [newline]))) d \<Longrightarrow>
            has (M(p \<mapsto> c @ string_bytes (s @ [newline]))) d" for d
          by (erule conjunct2)
        show "\<exists>ss. ls = map Inr ss \<and> has (M(p \<mapsto> (c @ string_bytes (s @ [newline])) @ string_bytes (unlines ss))) d \<Longrightarrow>
            \<exists>ss. l # ls = map Inr ss \<and> has (M(p \<mapsto> c @ string_bytes (unlines ss))) d" for d
          using True by (elim exE conjE, intro exI [of _ "s # _"])
            (simp only: unlines_Cons string_bytes_append append_assoc list.map simp_thms)
      qed
    qed (simp add: triple_def)
  qed
  moreover have "triple (has (M(p \<mapsto> c))) (write_line p l)
     (\<lambda>_ d. \<exists>s. l = Inr s \<and> has (M(p \<mapsto> c @ string_bytes (s @ [newline]))) d) (\<lambda>d. \<exists>x. has (M(p := x)) d)"
    by (rule triple_conseq [OF write_line_triple], assumption, assumption, rule exI)
  ultimately show ?case
    unfolding foldS.simps by (intro triple_bind)
qed

lemma save_text_triple:
  "triple (has M) (save_text p create checks lines)
     (\<lambda>_ d. \<exists>ss. lines = map Inr ss \<and> has (M(p \<mapsto> string_bytes (unlines ss), p @ ''.tmp'' := None)) d)
     (\<lambda>d. \<exists>x. has (M(p @ ''.tmp'' := x)) d)"
proof -
  let ?t = "p @ ''.tmp''"
  let ?E = "\<lambda>d. \<exists>x. has (M(?t := x)) d"
  have e1: "has M d \<Longrightarrow> ?E d" for d by (rule exI [of _ "M ?t"]) simp
  have io: "triple (has M) (io_call a) (\<lambda>_. has M) ?E" for a
    by (rule triple_conseq [OF io_call_triple]) (auto intro: e1)
  have st: "triple (has M) (stream_call a) (\<lambda>_. has M) ?E" for a
    by (rule triple_conseq [OF stream_call_triple]) (auto intro: e1)
  have put: "triple (has M) (modifyS (put_file ?t [])) (\<lambda>_. has (M(?t \<mapsto> []))) ?E"
    by (rule put_triple)
  have w: "triple (has (M(?t \<mapsto> []))) (foldS (write_line ?t) lines)
      (\<lambda>_ d. \<exists>ss. lines = map Inr ss \<and> has (M(?t \<mapsto> string_bytes (unlines ss))) d) ?E"
    by (rule triple_conseq [OF write_lines_triple]) auto
  have checks: "triple (has (M(?t \<mapsto> c))) (foldS stream_call checks) (\<lambda>_. has (M(?t \<mapsto> c))) ?E" for c
    by (rule triple_conseq [OF triple_foldS [OF stream_call_triple]]) auto
  have r: "triple (has (M(?t \<mapsto> c))) (replace_file_atomically ?t p) (\<lambda>_. has (M(p \<mapsto> c, ?t := None))) ?E" for c
    by (rule triple_conseq [OF replace_triple [where M = "M(?t \<mapsto> c)" and s = ?t and c = c and t = p]])
       (auto simp: fun_upd_twist)
  have fin: "triple (\<lambda>d. \<exists>ss. lines = map Inr ss \<and> has (M(?t \<mapsto> string_bytes (unlines ss))) d)
      (bindS (foldS stream_call checks) (\<lambda>_. replace_file_atomically ?t p))
      (\<lambda>_ d. \<exists>ss. lines = map Inr ss \<and> has (M(p \<mapsto> string_bytes (unlines ss), ?t := None)) d) ?E"
  proof (rule triple_ex)
    fix ss
    show "triple (\<lambda>d. lines = map Inr ss \<and> has (M(?t \<mapsto> string_bytes (unlines ss))) d)
      (bindS (foldS stream_call checks) (\<lambda>_. replace_file_atomically ?t p))
      (\<lambda>_ d. \<exists>ss. lines = map Inr ss \<and> has (M(p \<mapsto> string_bytes (unlines ss), ?t := None)) d) ?E"
    proof (cases "lines = map Inr ss")
      case True
      have b: "triple (has (M(?t \<mapsto> string_bytes (unlines ss))))
          (bindS (foldS stream_call checks) (\<lambda>_. replace_file_atomically ?t p))
          (\<lambda>_. has (M(p \<mapsto> string_bytes (unlines ss), ?t := None))) ?E"
        by (rule triple_bind [OF checks r])
      show ?thesis by (rule triple_conseq [OF b]) (use True in auto)
    qed (simp add: triple_def)
  qed
  show ?thesis
    unfolding save_text_def Let_def
    by (intro triple_bind [OF io] triple_bind [OF st] triple_bind [OF put] triple_bind [OF w] fin)
qed

text \<open>On the files directly: what a save leaves on each exit.\<close>

lemma save_text_Inr:
  assumes "save_text p create checks lines d = (Inr r, d')" "disk_ok d"
  shows "\<exists>ss. lines = map Inr ss \<and> disk_ok d' \<and>
    map_of (dk_files d') = (map_of (dk_files d))(p \<mapsto> string_bytes (unlines ss), p @ ''.tmp'' := None)"
  using tripleD(1) [OF save_text_triple [of "map_of (dk_files d)"] _ assms(1)] assms(2)
  by (auto simp: has_def)

lemma save_text_Inl:
  assumes "save_text p create checks lines d = (Inl e, d')" "disk_ok d"
  shows "disk_ok d' \<and> (\<forall>q. q \<noteq> p @ ''.tmp'' \<longrightarrow> map_of (dk_files d') q = map_of (dk_files d) q)"
  using tripleD(2) [OF save_text_triple [of "map_of (dk_files d)"] _ assms(1)] assms(2)
  by (auto simp: has_def)

text \<open>When nothing fails and every line can be made, the save returns.\<close>

lemma write_lines_return: "returns calm (foldS (write_line p) (map Inr ss)) (\<lambda>_. calm)"
proof (induction ss)
  case (Cons s ss)
  have "returns calm (write_line p (Inr s)) (\<lambda>_. calm)"
    unfolding write_line_def by (rule returns_bind [OF returns_lift calm_modify]) (simp_all add: put_file_def)
  then show ?case using Cons by (auto intro: returns_bind)
qed (simp add: returns_return)

lemma stream_call_returns: "returns calm (stream_call a) (\<lambda>_. calm)"
  by (simp add: returns_def stream_call_def io_call_def calm_def)

lemma save_text_returns: "returns calm (save_text p a checks (map Inr ss)) (\<lambda>_. calm)"
proof -
  have "returns calm (foldS stream_call checks) (\<lambda>_. calm)"
    by (induction checks) (auto intro: returns_return returns_bind stream_call_returns)
  then show ?thesis
    unfolding save_text_def Let_def
    by (intro returns_bind [OF calm_io] returns_bind [OF stream_call_returns] returns_bind [OF calm_modify]
        returns_bind [OF write_lines_return] returns_bind [of calm "foldS stream_call checks" "\<lambda>_. calm"] calm_replace)
       (simp_all add: put_file_def)
qed

lemma on_file_returns:
  "returns P m Q \<Longrightarrow> returns (\<lambda>s. P (ts_disk s)) (on_file m) (\<lambda>x s. Q x (ts_disk s))"
  unfolding returns_def on_file_def by fastforce

subsection \<open>Loading\<close>

text \<open>The loader over the lines of a saved file is the loop over its items.\<close>

lemma load_text_lines:
  assumes "map_of (dk_files (ts_disk s)) p = Some (string_bytes (unlines (magic # map show_item xs)))"
    and "dk_io (ts_disk s) = []" and "newline \<notin> set magic"
    and "\<And>x. x \<in> set xs \<Longrightarrow> newline \<notin> set (show_item x) \<and> show_item x \<noteq> []"
  shows "load_text p magic om hm body s = foldS (\<lambda>x. body (show_item x)) xs (s \<lparr> ts_items := [] \<rparr>)"
proof -
  have lines: "getlines (unlines (magic # map show_item xs)) = magic # map show_item xs"
    using assms(3,4) by (intro getlines_unlines) auto
  have "foldS (\<lambda>l. if l = [] then returnS () else body l) (map show_item xs) t = foldS (\<lambda>x. body (show_item x)) xs t" for t
    using assms(4) by (induction xs arbitrary: t) (auto simp: bindS_def split: prod.splits sum.splits)
  then show ?thesis
    using assms(1,2) lines
    by (simp add: load_text_def set_items_def on_file_def stream_call_def io_call_def sx_defs)
qed

text \<open>Saving and then loading runs the loader over exactly the lines of the items.\<close>

definition reopened :: "'a text_store \<Rightarrow> 'a text_store" where
  "reopened s = s \<lparr> ts_items := [], ts_disk := (ts_disk s) \<lparr> dk_io := [] \<rparr> \<rparr>"

lemma save_then_load:
  assumes sv: "on_file (save_text p create checks (Inr magic # map line xs)) s = (Inr (), t)" and d: "disk_ok (ts_disk s)"
    and m: "newline \<notin> set magic"
    and l: "\<And>x l. x \<in> set xs \<Longrightarrow> line x = Inr l \<Longrightarrow> newline \<notin> set l \<and> l \<noteq> []"
  shows "\<exists>ls. list_all2 (\<lambda>x l. line x = Inr l) xs ls \<and> ts_items t = ts_items s \<and>
    load_text p magic om hm body (reopened t) = foldS body ls (reopened t)"
proof -
  obtain d' where w: "save_text p create checks (Inr magic # map line xs) (ts_disk s) = (Inr (), d')"
    and t: "t = s \<lparr> ts_disk := d' \<rparr>"
    using sv by (auto simp: on_file_def split: prod.splits)
  from save_text_Inr [OF w d] obtain ss where ss: "Inr magic # map line xs = map Inr ss"
    and mf: "map_of (dk_files d') = (map_of (dk_files (ts_disk s)))
      (p \<mapsto> string_bytes (unlines ss), p @ ''.tmp'' := None)" by (elim exE conjE) (rule that)
  from mf have f: "map_of (dk_files d') p = Some (string_bytes (unlines ss))" by simp
  obtain ls where ls: "ss = magic # ls" "map line xs = map Inr ls" using ss by (cases ss) auto
  have len: "length ls = length xs" using ls(2) by (metis length_map)
  have nth: "line (xs ! i) = Inr (ls ! i)" if "i < length xs" for i
    using that len ls(2) by (metis nth_map)
  then have la: "list_all2 (\<lambda>x l. line x = Inr l) xs ls"
    by (simp add: list_all2_conv_all_nth len)
  have "newline \<notin> set l \<and> l \<noteq> []" if "l \<in> set ls" for l
    using that len nth assms(4) by (metis in_set_conv_nth)
  then have "load_text p magic om hm body (reopened t) = foldS (\<lambda>x. body x) ls ((reopened t) \<lparr> ts_items := [] \<rparr>)"
    using m f ls(1)
    by (intro load_text_lines [where show_item = "\<lambda>l. l"]) (simp_all add: reopened_def t)
  moreover have "(reopened t) \<lparr> ts_items := [] \<rparr> = reopened t" by (cases t) (simp add: reopened_def)
  moreover have "ts_items t = ts_items s" by (simp add: t)
  ultimately show ?thesis using la by (intro exI [of _ ls]) simp
qed

text \<open>The loader whose body appends one item per line.\<close>

lemma push_loop:
  "list_all2 (\<lambda>x l. \<forall>s. body l s = (Inr (), s \<lparr> ts_items := ts_items s @ [g x] \<rparr>)) xs ls \<Longrightarrow>
     foldS body ls s = (Inr (), s \<lparr> ts_items := ts_items s @ map g xs \<rparr>)"
  by (induction xs ls arbitrary: s rule: list_all2_induct) (auto simp: sx_defs)

end
