(* ===== verification/PeerStore.thy ===== *)
theory PeerStore
  imports TextFile StoreText "HOL-Library.Product_Lexorder"
begin

section \<open>Known peers (peer_store.hpp, peer_store.cpp)\<close>

text \<open>
  The peer list and its file \<^verbatim>\<open>peers.dat\<close>. The invariant \<open>peers_ok\<close>: endpoints are valid and no two
  records share one. The lemmas show that merging keeps it and is monotone, that the file reloads
  to the same list, and that \<open>select_outbound\<close> returns at most the asked number of distinct usable
  endpoints in the order of preference.
\<close>

record peer_endpoint =
  pe_host :: string
  pe_port :: u16

record peer_record =
  pr_endpoint :: peer_endpoint
  pr_services :: u64
  pr_last_seen :: int
  pr_last_success :: int
  pr_failures :: u32
  pr_manual :: bool

type_synonym peer_store = "peer_record text_store"

definition PEERS_MAGIC :: string where "PEERS_MAGIC = ''BINARYCOIN_PEERS_V1''"

definition peers_path :: string where "peers_path = ''peers.dat''"

definition carriage_return :: char where "carriage_return = CHR 0x0D"

definition valid_host :: "string \<Rightarrow> bool" where
  "valid_host host \<longleftrightarrow> host \<noteq> [] \<and> length host \<le> 255 \<and> tab \<notin> set host \<and> newline \<notin> set host \<and>
     carriage_return \<notin> set host"

definition endpoint_equal :: "peer_endpoint \<Rightarrow> peer_endpoint \<Rightarrow> bool" where
  "endpoint_equal a b \<longleftrightarrow> pe_host a = pe_host b \<and> pe_port a = pe_port b"

definition peers_number :: "nat \<Rightarrow> string \<Rightarrow> string \<Rightarrow> nat res" where
  "peers_number maximum text field =
     parse_unsigned maximum text (RuntimeError (''Invalid peers.dat '' @ field))"

definition peers_signed :: "string \<Rightarrow> string \<Rightarrow> int res" where
  "peers_signed text field = parse_signed i64_max text (RuntimeError (''Invalid peers.dat '' @ field))"

text \<open>The iterator \<^verbatim>\<open>find_if\<close> returns and the update through it.\<close>

fun update_first :: "('a \<Rightarrow> bool) \<Rightarrow> ('a \<Rightarrow> 'a) \<Rightarrow> 'a list \<Rightarrow> 'a list" where
  "update_first P f [] = []"
| "update_first P f (x # xs) = (if P x then f x # xs else x # update_first P f xs)"

definition same_endpoint :: "peer_endpoint \<Rightarrow> peer_record \<Rightarrow> bool" where
  "same_endpoint e r \<longleftrightarrow> endpoint_equal (pr_endpoint r) e"

definition peer_acceptable :: "peer_record \<Rightarrow> bool" where
  "peer_acceptable r \<longleftrightarrow> valid_host (pe_host (pr_endpoint r)) \<and> pe_port (pr_endpoint r) \<noteq> 0"

definition add_if_missing :: "peer_record \<Rightarrow> peer_record list \<Rightarrow> bool \<times> peer_record list" where
  "add_if_missing incoming records =
     (if \<not> peer_acceptable incoming then (False, records)
      else if list_ex (same_endpoint (pr_endpoint incoming)) records then (False, records)
      else (True, records @ [incoming]))"

definition merge_peer :: "peer_record \<Rightarrow> peer_record \<Rightarrow> peer_record" where
  "merge_peer incoming r = r
     \<lparr> pr_services := pr_services r OR pr_services incoming,
       pr_last_seen := max (pr_last_seen r) (pr_last_seen incoming),
       pr_last_success := max (pr_last_success r) (pr_last_success incoming),
       pr_failures := min (pr_failures r) (pr_failures incoming),
       pr_manual := (pr_manual r \<or> pr_manual incoming) \<rparr>"

definition add_or_update :: "peer_record \<Rightarrow> peer_record list \<Rightarrow> peer_record list" where
  "add_or_update incoming records =
     (if \<not> peer_acceptable incoming then records
      else if \<not> list_ex (same_endpoint (pr_endpoint incoming)) records then records @ [incoming]
      else update_first (same_endpoint (pr_endpoint incoming)) (merge_peer incoming) records)"

definition parse_peer_line :: "string \<Rightarrow> peer_record res" where
  "parse_peer_line line =
     (let fields = split line tab in
      if length fields \<noteq> 7 then Inl (RuntimeError ''Malformed peers.dat record'')
      else bindE (peers_number (2 ^ 16 - 1) (fields ! 1) ''port'') (\<lambda>port.
      bindE (peers_number u64_max (fields ! 2) ''services'') (\<lambda>services.
      bindE (peers_signed (fields ! 3) ''last_seen'') (\<lambda>last_seen.
      bindE (peers_signed (fields ! 4) ''last_success'') (\<lambda>last_success.
      bindE (peers_number u32_max (fields ! 5) ''failures'') (\<lambda>failures.
      let record = \<lparr> pr_endpoint = \<lparr> pe_host = fields ! 0, pe_port = word_of_nat port \<rparr>,
            pr_services = word_of_nat services, pr_last_seen = last_seen, pr_last_success = last_success,
            pr_failures = word_of_nat failures, pr_manual = (fields ! 6 = ''1'') \<rparr> in
      if \<not> peer_acceptable record then Inl (RuntimeError ''Invalid peers.dat endpoint'')
      else Inr record))))))"

definition peers_read_line :: "string \<Rightarrow> (peer_store, unit) sx" where
  "peers_read_line line =
     bindS (liftS (parse_peer_line line)) (\<lambda>r.
       modifyS (\<lambda>s. s \<lparr> ts_items := add_or_update r (ts_items s) \<rparr>))"

definition peers_load :: "(peer_store, unit) sx" where
  "peers_load = load_text peers_path PEERS_MAGIC ''Unable to open peers.dat'' ''Invalid peers.dat header''
     peers_read_line"

definition peer_line :: "peer_record \<Rightarrow> string" where
  "peer_line r = join tab
     [pe_host (pr_endpoint r), show_nat (unat (pe_port (pr_endpoint r))), show_u64 (pr_services r),
      show_int (pr_last_seen r), show_int (pr_last_success r), show_u32 (pr_failures r),
      if pr_manual r then ''1'' else ''0'']"

definition peers_save :: "(peer_store, unit) sx" where
  "peers_save =
     bindS (getS ts_items) (\<lambda>records.
       on_file (save_text peers_path ''Unable to create temporary peers.dat''
         [''Unable to flush peers.dat'', ''Unable to close peers.dat'']
         (Inr PEERS_MAGIC # map (\<lambda>r. Inr (peer_line r)) records)))"

definition mark_success :: "int \<Rightarrow> peer_endpoint \<Rightarrow> u64 \<Rightarrow> (peer_store, unit) sx" where
  "mark_success now endpoint services =
     bindS (modifyS (\<lambda>s. s \<lparr> ts_items :=
        (if \<not> list_ex (same_endpoint endpoint) (ts_items s)
         then ts_items s @ [\<lparr> pr_endpoint = endpoint, pr_services = services, pr_last_seen = now,
                pr_last_success = now, pr_failures = 0, pr_manual = False \<rparr>]
         else update_first (same_endpoint endpoint)
                (\<lambda>r. r \<lparr> pr_services := pr_services r OR services, pr_last_seen := now,
                        pr_last_success := now, pr_failures := 0 \<rparr>) (ts_items s)) \<rparr>)) (\<lambda>_.
     peers_save)"

definition mark_failure :: "peer_endpoint \<Rightarrow> (peer_store, unit) sx" where
  "mark_failure endpoint =
     bindS (getS ts_items) (\<lambda>records.
     if \<not> list_ex (same_endpoint endpoint) records then returnS ()
     else
     bindS (set_items (update_first (same_endpoint endpoint)
        (\<lambda>r. if pr_failures r < 1000000 then r \<lparr> pr_failures := pr_failures r + 1 \<rparr> else r) records)) (\<lambda>_.
     peers_save))"

text \<open>\<^verbatim>\<open>std::stable_sort\<close> with the comparator's order is the stable sort by its key.\<close>

definition outbound_key :: "peer_record \<Rightarrow> bool \<times> int \<times> nat \<times> int" where
  "outbound_key r = (\<not> pr_manual r, - pr_last_success r, unat (pr_failures r), - pr_last_seen r)"

definition select_outbound :: "nat \<Rightarrow> peer_endpoint list \<Rightarrow> peer_record list \<Rightarrow> peer_endpoint list" where
  "select_outbound maximum excluded records =
     (let candidates = filter (\<lambda>r. \<not> (pr_failures r \<ge> 10 \<or>
            list_ex (\<lambda>e. endpoint_equal (pr_endpoint r) e) excluded)) records in
      take maximum (map pr_endpoint (sort_key outbound_key candidates)))"

subsection \<open>Endpoints are unique\<close>

definition peer_ok :: "peer_record \<Rightarrow> bool" where
  "peer_ok r \<longleftrightarrow> peer_acceptable r \<and> int64_range (pr_last_seen r) \<and> int64_range (pr_last_success r)"

definition peers_ok :: "peer_record list \<Rightarrow> bool" where
  "peers_ok rs \<longleftrightarrow> distinct (map pr_endpoint rs) \<and> list_all peer_ok rs"

lemma endpoint_equal_iff [simp]: "endpoint_equal a b \<longleftrightarrow> a = b"
  by (cases a; cases b) (simp add: endpoint_equal_def)

lemma known_iff: "list_ex (same_endpoint e) rs \<longleftrightarrow> e \<in> set (map pr_endpoint rs)"
  by (auto simp: list_ex_iff same_endpoint_def)

lemma update_first_endpoints:
  "(\<And>r. pr_endpoint (f r) = pr_endpoint r) \<Longrightarrow> map pr_endpoint (update_first P f rs) = map pr_endpoint rs"
  by (induction rs) auto

lemma update_first_all:
  "list_all Q rs \<Longrightarrow> (\<And>r. Q r \<Longrightarrow> P r \<Longrightarrow> Q (f r)) \<Longrightarrow> list_all Q (update_first P f rs)"
  by (induction rs) auto

lemma merge_endpoint [simp]: "pr_endpoint (merge_peer a r) = pr_endpoint r"
  by (simp add: merge_peer_def)

lemma merge_ok: "peer_ok r \<Longrightarrow> peer_ok a \<Longrightarrow> peer_ok (merge_peer a r)"
  by (simp add: peer_ok_def peer_acceptable_def merge_peer_def int64_range_def max_def)

lemma add_or_update_endpoints:
  "map pr_endpoint (add_or_update a rs) =
     (if peer_acceptable a \<and> pr_endpoint a \<notin> set (map pr_endpoint rs)
      then map pr_endpoint rs @ [pr_endpoint a] else map pr_endpoint rs)"
  by (simp add: add_or_update_def known_iff update_first_endpoints)

lemma add_or_update_ok: "peers_ok rs \<Longrightarrow> peer_ok a \<Longrightarrow> peers_ok (add_or_update a rs)"
proof -
  assume rs: "peers_ok rs" and a: "peer_ok a"
  have "list_all peer_ok (add_or_update a rs)"
    using rs a by (auto simp: add_or_update_def peers_ok_def intro: update_first_all merge_ok)
  moreover have "distinct (map pr_endpoint (add_or_update a rs))"
    unfolding add_or_update_endpoints using rs by (auto simp: peers_ok_def)
  ultimately show ?thesis by (simp add: peers_ok_def)
qed

lemma add_if_missing_ok:
  "add_if_missing a rs = (new, rs') \<Longrightarrow> peers_ok rs \<Longrightarrow> peer_ok a \<Longrightarrow>
     peers_ok rs' \<and> (new \<longleftrightarrow> pr_endpoint a \<notin> set (map pr_endpoint rs)) \<and> rs' = (if new then rs @ [a] else rs)"
  by (auto simp: add_if_missing_def known_iff peers_ok_def peer_ok_def split: if_splits)

subsection \<open>Merging is a join per endpoint\<close>

definition peer_at :: "peer_record list \<Rightarrow> peer_endpoint \<Rightarrow> peer_record option" where
  "peer_at rs e = map_of (map (\<lambda>r. (pr_endpoint r, r)) rs) e"

lemma peer_at_simps [simp]:
  "peer_at [] e = None"
  "peer_at (r # rs) e = (if pr_endpoint r = e then Some r else peer_at rs e)"
  by (simp_all add: peer_at_def)

lemma peer_at_None: "peer_at rs e = None \<longleftrightarrow> e \<notin> set (map pr_endpoint rs)"
  by (induction rs) auto

lemma peer_at_append: "peer_at (rs @ [a]) e = (case peer_at rs e of None \<Rightarrow> if pr_endpoint a = e then Some a else None | Some r \<Rightarrow> Some r)"
  by (induction rs) auto

lemma peer_at_update:
  assumes "\<And>r. pr_endpoint (f r) = pr_endpoint r"
  shows "peer_at (update_first (same_endpoint k) f rs) e = (if e = k then map_option f (peer_at rs e) else peer_at rs e)"
  by (induction rs) (auto simp: same_endpoint_def assms)

lemma peer_at_endpoint: "peer_at rs e = Some r \<Longrightarrow> pr_endpoint r = e \<and> r \<in> set rs"
  by (induction rs) (auto split: if_splits)

definition join_peer :: "peer_record option \<Rightarrow> peer_record \<Rightarrow> peer_record" where
  "join_peer old a = (case old of None \<Rightarrow> a | Some r \<Rightarrow> merge_peer a r)"

lemma peer_at_add_or_update:
  "peer_acceptable a \<Longrightarrow>
     peer_at (add_or_update a rs) e = (if e = pr_endpoint a then Some (join_peer (peer_at rs e) a) else peer_at rs e)"
proof (cases "pr_endpoint a \<in> set (map pr_endpoint rs)")
  case True
  moreover assume "peer_acceptable a"
  ultimately have au: "add_or_update a rs = update_first (same_endpoint (pr_endpoint a)) (merge_peer a) rs"
    by (simp add: add_or_update_def known_iff)
  from True have "peer_at rs (pr_endpoint a) \<noteq> None" by (simp add: peer_at_None)
  then show ?thesis unfolding au by (auto simp: peer_at_update join_peer_def split: option.splits)
next
  case False
  moreover assume "peer_acceptable a"
  ultimately have au: "add_or_update a rs = rs @ [a]"
    by (simp add: add_or_update_def known_iff)
  from False have "peer_at rs (pr_endpoint a) = None" by (simp add: peer_at_None)
  then show ?thesis unfolding au by (auto simp: peer_at_append join_peer_def split: option.splits)
qed

lemma merge_simps [simp]:
  "pr_services (merge_peer a r) = pr_services r OR pr_services a"
  "pr_last_seen (merge_peer a r) = max (pr_last_seen r) (pr_last_seen a)"
  "pr_last_success (merge_peer a r) = max (pr_last_success r) (pr_last_success a)"
  "pr_failures (merge_peer a r) = min (pr_failures r) (pr_failures a)"
  "pr_manual (merge_peer a r) \<longleftrightarrow> pr_manual r \<or> pr_manual a"
  by (simp_all add: merge_peer_def)

lemma join_commute:
  "pr_endpoint a = pr_endpoint b \<Longrightarrow> join_peer (Some (join_peer old a)) b = join_peer (Some (join_peer old b)) a"
  by (cases old)
     (auto simp: join_peer_def intro!: peer_record.equality simp: or.commute or.left_commute or.assoc max.commute
       max.left_commute min.commute min.left_commute ac_simps)

lemma join_idem: "join_peer (Some (join_peer old a)) a = join_peer old a"
  by (cases old)
     (auto simp: join_peer_def intro!: peer_record.equality simp: or.assoc)

text \<open>The order in which two announcements arrive does not change what is known of any endpoint.\<close>

lemma add_or_update_commute:
  "peer_acceptable a \<Longrightarrow> peer_acceptable b \<Longrightarrow>
     peer_at (add_or_update a (add_or_update b rs)) e = peer_at (add_or_update b (add_or_update a rs)) e"
  by (simp add: peer_at_add_or_update join_commute)

subsection \<open>The file\<close>

lemma port_show: "peers_number 65535 (show_nat (unat (w :: u16))) f = Inr (unat w)"
proof -
  have "unat w \<le> 65535" using unsigned_less [of w, where 'a = nat] by simp
  then show ?thesis by (simp add: peers_number_def)
qed

lemma peers_number_show:
  "peers_number u64_max (show_u64 v) f = Inr (unat v)" "peers_number u32_max (show_u32 w) f = Inr (unat w)"
proof -
  have "unat v \<le> u64_max" using unsigned_less [of v, where 'a = nat] by (simp add: u64_max_def)
  moreover have "unat w \<le> u32_max" using unsigned_less [of w, where 'a = nat] by (simp add: u32_max_def)
  ultimately show "peers_number u64_max (show_u64 v) f = Inr (unat v)" "peers_number u32_max (show_u32 w) f = Inr (unat w)"
    by (simp_all add: peers_number_def show_u64_def show_u32_def)
qed

lemma peers_signed_show: "int64_range i \<Longrightarrow> peers_signed (show_int i) f = Inr i"
  by (simp add: peers_signed_def int64_range_def i64_max_def parse_signed_show)

lemma plain_host: "valid_host h \<Longrightarrow> plain h"
  by (simp add: valid_host_def plain_def)

lemma plain_show_nat [simp]: "plain (show_nat n)"
  by (simp add: plain_def show_nat_not)

interpretation prl: line_format peer_line parse_peer_line peer_ok
proof
  fix r assume r: "peer_ok r"
  let ?fs = "[pe_host (pr_endpoint r), show_nat (unat (pe_port (pr_endpoint r))), show_u64 (pr_services r),
      show_int (pr_last_seen r), show_int (pr_last_success r), show_u32 (pr_failures r),
      if pr_manual r then ''1'' else ''0'']"
  have p: "list_all plain ?fs"
    using r by (simp add: peer_ok_def peer_acceptable_def plain_host)
  show "newline \<notin> set (peer_line r) \<and> peer_line r \<noteq> []"
    using join_newline [OF p] r by (simp add: peer_line_def peer_ok_def peer_acceptable_def valid_host_def)
  show "parse_peer_line (peer_line r) = Inr r"
    using split_plain [OF p] r
    by (cases r; cases "pr_endpoint r") (simp add: peer_line_def parse_peer_line_def Let_def peer_ok_def port_show peers_number_show
        peers_signed_show peer_acceptable_def)
qed

lemma peers_read_lines:
  "peers_ok (xs @ rs) \<Longrightarrow> ts_items s = xs \<Longrightarrow>
     foldS peers_read_line (map peer_line rs) s = (Inr (), s \<lparr> ts_items := xs @ rs \<rparr>)"
proof (induction rs arbitrary: xs s)
  case (Cons r rs)
  have r: "peer_ok r" and n: "pr_endpoint r \<notin> set (map pr_endpoint xs)"
    using Cons.prems(1) by (auto simp: peers_ok_def)
  have ad: "add_or_update r xs = xs @ [r]"
    using r n by (simp add: add_or_update_def known_iff peer_ok_def)
  have "peers_read_line (peer_line r) s = (Inr (), s \<lparr> ts_items := xs @ [r] \<rparr>)"
    using prl.read_show [OF r] Cons.prems(2) ad by (simp add: peers_read_line_def sx_defs)
  moreover have "foldS peers_read_line (map peer_line rs) (s \<lparr> ts_items := xs @ [r] \<rparr>) =
      (Inr (), s \<lparr> ts_items := xs @ r # rs \<rparr>)"
    using Cons.IH [of "xs @ [r]" "s \<lparr> ts_items := xs @ [r] \<rparr>"] Cons.prems(1) by simp
  ultimately show ?case by (simp add: bindS_def)
qed (simp add: sx_defs)

lemma peers_reload:
  assumes "peers_save s = (Inr (), t)" "disk_ok (ts_disk s)" "peers_ok (ts_items s)"
  shows "peers_load (reopened t) = (Inr (), (reopened t) \<lparr> ts_items := ts_items s \<rparr>)"
proof -
  have sv: "on_file (save_text peers_path ''Unable to create temporary peers.dat''
         [''Unable to flush peers.dat'', ''Unable to close peers.dat'']
         (Inr PEERS_MAGIC # map (\<lambda>r. Inr (peer_line r)) (ts_items s))) s = (Inr (), t)"
    using assms(1) by (simp add: peers_save_def sx_defs)
  have ok: "peer_ok x" if "x \<in> set (ts_items s)" for x
    using that assms(3) by (simp add: peers_ok_def list_all_iff)
  then have "newline \<notin> set l \<and> l \<noteq> []" if "x \<in> set (ts_items s)" "Inr (peer_line x) = (Inr l :: string res)" for x l
    using that prl.line_safe [OF ok] by auto
  then obtain ls where ls: "list_all2 (\<lambda>x l. Inr (peer_line x) = (Inr l :: string res)) (ts_items s) ls"
    and ld: "peers_load (reopened t) = foldS peers_read_line ls (reopened t)"
    using save_then_load [OF sv assms(2), of "''Unable to open peers.dat''" "''Invalid peers.dat header''" peers_read_line]
    by (auto simp: peers_load_def PEERS_MAGIC_def)
  have "ls = map peer_line (ts_items s)"
    using ls by (induction rule: list_all2_induct) auto
  with ld peers_read_lines [of "[]" "ts_items s" "reopened t"] assms(3) show ?thesis
    by (simp add: reopened_def)
qed

subsection \<open>Success and failure\<close>

lemma peers_save_items: "peers_save s = (r, t) \<Longrightarrow> ts_items t = ts_items s"
  by (auto simp: peers_save_def bindS_def getS_def on_file_def split: prod.splits)

lemma mark_success_facts:
  assumes "mark_success now e services s = (r, t)" "peers_ok (ts_items s)" "int64_range now"
    "valid_host (pe_host e)" "pe_port e \<noteq> 0"
  shows "peers_ok (ts_items t) \<and> (\<exists>p. peer_at (ts_items t) e = Some p \<and> pr_failures p = 0 \<and> pr_last_success p = now \<and>
      pr_last_seen p = now) \<and> (\<forall>e'. e' \<noteq> e \<longrightarrow> peer_at (ts_items t) e' = peer_at (ts_items s) e')"
proof -
  let ?new = "\<lparr> pr_endpoint = e, pr_services = services, pr_last_seen = now,
                pr_last_success = now, pr_failures = 0, pr_manual = False \<rparr>"
  let ?f = "\<lambda>r. r \<lparr> pr_services := pr_services r OR services, pr_last_seen := now,
                        pr_last_success := now, pr_failures := 0 \<rparr>"
  have t: "ts_items t = (if e \<notin> set (map pr_endpoint (ts_items s)) then ts_items s @ [?new]
      else update_first (same_endpoint e) ?f (ts_items s))"
    using assms(1) unfolding mark_success_def
    by (auto simp: bindS_def modifyS_def known_iff dest: peers_save_items)
  have f: "pr_endpoint (?f r) = pr_endpoint r" for r by simp
  show ?thesis
  proof (cases "e \<in> set (map pr_endpoint (ts_items s))")
    case True
    then have "peer_at (ts_items s) e \<noteq> None" by (simp add: peer_at_None)
    moreover have "list_all peer_ok (update_first (same_endpoint e) ?f (ts_items s))"
      using assms(2,3) by (intro update_first_all) (auto simp: peers_ok_def peer_ok_def peer_acceptable_def)
    ultimately show ?thesis using t True assms(2) f
      by (auto simp: peers_ok_def update_first_endpoints [of ?f] peer_at_update [of ?f])
  next
    case False
    then have "peer_at (ts_items s) e = None" by (simp add: peer_at_None)
    with t False assms show ?thesis
      by (auto simp: peers_ok_def peer_at_append peer_ok_def peer_acceptable_def split: option.splits)
  qed
qed

lemma mark_failure_facts:
  assumes "mark_failure e s = (r, t)"
  shows "(peers_ok (ts_items s) \<longrightarrow> peers_ok (ts_items t)) \<and>
    (\<forall>e'. peer_at (ts_items t) e' = (if e' = e then map_option
       (\<lambda>p. p \<lparr> pr_failures := if pr_failures p < 1000000 then pr_failures p + 1 else pr_failures p \<rparr>)
       (peer_at (ts_items s) e') else peer_at (ts_items s) e'))"
proof -
  let ?f = "\<lambda>r :: peer_record. if pr_failures r < 1000000 then r \<lparr> pr_failures := pr_failures r + 1 \<rparr> else r"
  have f: "pr_endpoint (?f r) = pr_endpoint r" for r by simp
  have g: "?f = (\<lambda>p. p \<lparr> pr_failures := if pr_failures p < 1000000 then pr_failures p + 1 else pr_failures p \<rparr>)"
    by (rule ext) simp
  show ?thesis
  proof (cases "e \<in> set (map pr_endpoint (ts_items s))")
    case True
    then have t: "ts_items t = update_first (same_endpoint e) ?f (ts_items s)"
      using assms unfolding mark_failure_def
      by (auto simp: bindS_def getS_def set_items_def modifyS_def known_iff dest: peers_save_items)
    have "list_all peer_ok (ts_items s) \<Longrightarrow> list_all peer_ok (ts_items t)"
      unfolding t by (rule update_first_all) (auto simp: peer_ok_def peer_acceptable_def)
    then show ?thesis
      using t unfolding g by (auto simp: peers_ok_def update_first_endpoints peer_at_update)
  next
    case False
    then have t: "t = s" using assms
      by (auto simp: mark_failure_def bindS_def getS_def known_iff returnS_def)
    have "peer_at (ts_items s) e = None" using False by (simp add: peer_at_None)
    with t show ?thesis by auto
  qed
qed

subsection \<open>Choosing outbound peers\<close>

definition usable_peer :: "peer_endpoint list \<Rightarrow> peer_record \<Rightarrow> bool" where
  "usable_peer excluded r \<longleftrightarrow> pr_failures r < 10 \<and> pr_endpoint r \<notin> set excluded"

lemma select_outbound_eq:
  "select_outbound n excluded rs = take n (map pr_endpoint (sort_key outbound_key (filter (usable_peer excluded) rs)))"
proof -
  have "(\<lambda>r. \<not> (pr_failures r \<ge> 10 \<or> list_ex (\<lambda>e. endpoint_equal (pr_endpoint r) e) excluded)) = usable_peer excluded"
    by (rule ext) (auto simp: usable_peer_def list_ex_iff)
  then show ?thesis by (simp add: select_outbound_def)
qed

lemma select_outbound_facts:
  assumes "distinct (map pr_endpoint rs)"
  shows "length (select_outbound n excluded rs) = min n (length (filter (usable_peer excluded) rs)) \<and>
    distinct (select_outbound n excluded rs) \<and>
    (\<exists>chosen. select_outbound n excluded rs = map pr_endpoint chosen \<and>
       set chosen \<subseteq> set (filter (usable_peer excluded) rs) \<and> sorted (map outbound_key chosen) \<and>
       (\<forall>r \<in> set rs. usable_peer excluded r \<longrightarrow> r \<in> set chosen \<or> (\<forall>c \<in> set chosen. outbound_key c \<le> outbound_key r)))"
proof -
  let ?c = "sort_key outbound_key (filter (usable_peer excluded) rs)"
  have se: "select_outbound n excluded rs = map pr_endpoint (take n ?c)"
    by (simp add: select_outbound_eq take_map)
  have "inj_on pr_endpoint (set rs)" "distinct rs"
    using assms by (auto simp: distinct_map)
  then have d: "distinct (map pr_endpoint ?c)"
    by (auto simp: distinct_map intro: inj_on_subset)
  have st: "set (take n ?c) \<subseteq> set (filter (usable_peer excluded) rs)"
    using set_take_subset [of n ?c] by simp
  have srt: "sorted (map outbound_key ?c)" by simp
  have "\<forall>c \<in> set (take n ?c). outbound_key c \<le> outbound_key r"
    if "r \<in> set rs" "usable_peer excluded r" "r \<notin> set (take n ?c)" for r
  proof -
    have "r \<in> set ?c" using that by simp
    then have "r \<in> set (drop n ?c)" using that(3) by (metis Un_iff append_take_drop_id set_append)
    moreover have "sorted (map outbound_key (take n ?c @ drop n ?c))" using srt by simp
    ultimately show ?thesis by (auto simp only: map_append sorted_append set_map)
  qed
  moreover have "sorted (map outbound_key (take n ?c))"
    using sorted_wrt_take [OF srt, of n] by (simp add: take_map)
  ultimately have "\<exists>chosen. select_outbound n excluded rs = map pr_endpoint chosen \<and>
       set chosen \<subseteq> set (filter (usable_peer excluded) rs) \<and> sorted (map outbound_key chosen) \<and>
       (\<forall>r \<in> set rs. usable_peer excluded r \<longrightarrow> r \<in> set chosen \<or> (\<forall>c \<in> set chosen. outbound_key c \<le> outbound_key r))"
    using se st by blast
  moreover have "distinct (select_outbound n excluded rs)"
    using distinct_take [OF d, of n] se by (simp add: take_map)
  ultimately show ?thesis using se by auto
qed

end
