(* ===== verification/BanStore.thy ===== *)
theory BanStore
  imports PeerStore
begin

section \<open>Banned hosts (ban_store.hpp, ban_store.cpp)\<close>

text \<open>
  The ban list and its file \<^verbatim>\<open>banlist-v1.tsv\<close>. The clock (\<^verbatim>\<open>now_seconds\<close>) is the argument \<open>clock\<close>; the
  seconds are \<^verbatim>\<open>std::int64_t\<close>, and an expiry the type cannot hold, which is undefined in the source,
  is outside the lemmas about the file. They show when a host counts as banned after a ban, that
  pruning forgets no live ban, and that the file reloads to the live bans.
\<close>

record ban_record =
  br_host :: string
  br_banned_until :: int
  br_score :: u32
  br_reason :: string

type_synonym ban_store = "ban_record text_store"

definition BANLIST_MAGIC :: string where "BANLIST_MAGIC = ''BINARYCOIN_BANLIST_V1''"

definition banlist_path :: string where "banlist_path = ''banlist-v1.tsv''"

definition blank_control :: "char \<Rightarrow> char" where
  "blank_control c = (if c = tab \<or> c = carriage_return \<or> c = newline then CHR '' '' else c)"

definition sanitize_reason :: "string \<Rightarrow> string" where
  "sanitize_reason reason =
     (let cleaned = map blank_control reason in
      if length cleaned > 160 then take 160 cleaned else cleaned)"

definition valid_ban_host :: "string \<Rightarrow> bool" where
  "valid_ban_host host \<longleftrightarrow> host \<noteq> [] \<and> length host \<le> 255 \<and>
     \<not> list_ex (\<lambda>c. c = tab \<or> c = carriage_return \<or> c = newline) host"

definition parse_ban_line :: "string \<Rightarrow> ban_record res" where
  "parse_ban_line line =
     (let fields = split line tab in
      if length fields \<noteq> 4 then Inl (RuntimeError ''Malformed banlist-v1.tsv record'')
      else
      bindE (parse_signed i64_max (fields ! 1) (RuntimeError ''Invalid banlist expiry'')) (\<lambda>expiry.
      bindE (parse_unsigned u32_max (fields ! 2) (RuntimeError ''Invalid banlist score'')) (\<lambda>score.
      if \<not> valid_ban_host (fields ! 0) then Inl (RuntimeError ''Invalid banlist host'')
      else Inr \<lparr> br_host = fields ! 0, br_banned_until = expiry, br_score = word_of_nat score,
             br_reason = fields ! 3 \<rparr>)))"

definition ban_read_line :: "string \<Rightarrow> (ban_store, unit) sx" where
  "ban_read_line line = bindS (liftS (parse_ban_line line)) push_item"

definition prune_expired :: "int \<Rightarrow> int \<Rightarrow> ban_record list \<Rightarrow> ban_record list" where
  "prune_expired clock now records =
     (let at = (if now = 0 then clock else now) in
      filter (\<lambda>r. \<not> br_banned_until r \<le> at) records)"

definition bans_load :: "int \<Rightarrow> (ban_store, unit) sx" where
  "bans_load clock =
     bindS (load_text banlist_path BANLIST_MAGIC ''Unable to open banlist-v1.tsv''
        ''Invalid banlist-v1.tsv header'' ban_read_line) (\<lambda>_.
     modifyS (\<lambda>s. s \<lparr> ts_items := prune_expired clock 0 (ts_items s) \<rparr>))"

definition ban_line :: "ban_record \<Rightarrow> string" where
  "ban_line r = join tab
     [br_host r, show_int (br_banned_until r), show_u32 (br_score r), sanitize_reason (br_reason r)]"

definition bans_save :: "(ban_store, unit) sx" where
  "bans_save =
     bindS (getS ts_items) (\<lambda>records.
       on_file (save_text banlist_path ''Unable to create temporary banlist''
         [''Unable to flush banlist'', ''Unable to close banlist'']
         (Inr BANLIST_MAGIC # map (\<lambda>r. Inr (ban_line r)) records)))"

definition ban_record_host :: "int \<Rightarrow> string \<Rightarrow> u32 \<Rightarrow> string \<Rightarrow> ban_record list \<Rightarrow> ban_record list" where
  "ban_record_host expiry host score reason records =
     (if \<not> list_ex (\<lambda>r. br_host r = host) records
      then records @ [\<lparr> br_host = host, br_banned_until = expiry, br_score = score,
             br_reason = sanitize_reason reason \<rparr>]
      else update_first (\<lambda>r. br_host r = host)
             (\<lambda>r. r \<lparr> br_banned_until := max (br_banned_until r) expiry,
                      br_score := max (br_score r) score,
                      br_reason := sanitize_reason reason \<rparr>) records)"

definition ban :: "int \<Rightarrow> string \<Rightarrow> int \<Rightarrow> u32 \<Rightarrow> string \<Rightarrow> (ban_store, unit) sx" where
  "ban clock host duration_seconds score reason =
     (if \<not> valid_ban_host host \<or> duration_seconds \<le> 0 then returnS ()
      else
      bindS (modifyS (\<lambda>s. s \<lparr> ts_items :=
         ban_record_host (clock + duration_seconds) host score reason (ts_items s) \<rparr>)) (\<lambda>_.
      bans_save))"

definition bans_clear :: "(ban_store, unit) sx" where
  "bans_clear = bindS (set_items []) (\<lambda>_. bans_save)"

definition is_banned :: "int \<Rightarrow> string \<Rightarrow> int \<Rightarrow> ban_record list \<Rightarrow> bool" where
  "is_banned clock host now records =
     (let at = (if now = 0 then clock else now) in
      list_ex (\<lambda>r. br_host r = host \<and> br_banned_until r > at) records)"

subsection \<open>Who is banned\<close>

lemma bans_save_items: "bans_save s = (r, t) \<Longrightarrow> ts_items t = ts_items s"
  by (auto simp: bans_save_def bindS_def getS_def on_file_def split: prod.splits)

lemma list_ex_update_first:
  "(\<And>r. Q (f r) \<longleftrightarrow> (Q r \<or> b \<and> P r)) \<Longrightarrow>
     list_ex Q (update_first P f rs) \<longleftrightarrow> list_ex Q rs \<or> b \<and> list_ex P rs"
  by (induction rs) auto

lemma ban_record_banned:
  "is_banned c h t (ban_record_host e host score reason rs) \<longleftrightarrow>
     is_banned c h t rs \<or> h = host \<and> e > (if t = 0 then c else t)"
proof (cases "list_ex (\<lambda>r. br_host r = host) rs")
  case True
  let ?P = "\<lambda>r. br_host r = host"
  let ?f = "\<lambda>r. r \<lparr> br_banned_until := max (br_banned_until r) e, br_score := max (br_score r) score,
                      br_reason := sanitize_reason reason \<rparr>"
  let ?Q = "\<lambda>r. br_host r = h \<and> br_banned_until r > (if t = 0 then c else t)"
  have up: "list_ex ?Q (update_first ?P ?f rs) \<longleftrightarrow> list_ex ?Q rs \<or> (h = host \<and> e > (if t = 0 then c else t))"
  proof (cases "h = host")
    case True
    have "list_ex ?Q (update_first ?P ?f rs) \<longleftrightarrow> list_ex ?Q rs \<or> (e > (if t = 0 then c else t)) \<and> list_ex ?P rs"
      by (rule list_ex_update_first) (auto simp: True less_max_iff_disj)
    with True \<open>list_ex ?P rs\<close> show ?thesis by simp
  next
    case False
    have "list_ex ?Q (update_first ?P ?f rs) \<longleftrightarrow> list_ex ?Q rs"
      by (induction rs) (use False in auto)
    with False show ?thesis by simp
  qed
  then show ?thesis using True by (simp add: is_banned_def ban_record_host_def Let_def)
next
  case False
  then show ?thesis by (auto simp: is_banned_def ban_record_host_def Let_def)
qed

lemma ban_banned:
  assumes "ban clock host duration score reason s = (r, s')"
  shows "is_banned c h t (ts_items s') \<longleftrightarrow> is_banned c h t (ts_items s) \<or>
    (h = host \<and> valid_ban_host host \<and> 0 < duration \<and> clock + duration > (if t = 0 then c else t))"
proof (cases "valid_ban_host host \<and> 0 < duration")
  case True
  then have "ts_items s' = ban_record_host (clock + duration) host score reason (ts_items s)"
    using assms by (auto simp: ban_def bindS_def modifyS_def dest: bans_save_items)
  with True show ?thesis by (simp add: ban_record_banned)
next
  case False
  with assms show ?thesis by (auto simp: ban_def returnS_def)
qed

lemma prune_banned:
  "(if t = 0 then c else t) \<ge> (if now = 0 then clock else now) \<Longrightarrow>
     is_banned c h t (prune_expired clock now rs) \<longleftrightarrow> is_banned c h t rs"
  by (auto simp: is_banned_def prune_expired_def list_ex_iff Let_def split: if_splits)

subsection \<open>The file\<close>

definition ban_ok :: "ban_record \<Rightarrow> bool" where
  "ban_ok r \<longleftrightarrow> valid_ban_host (br_host r) \<and> int64_range (br_banned_until r) \<and>
     sanitize_reason (br_reason r) = br_reason r"

lemma blank_control_idem: "blank_control (blank_control c) = blank_control c"
  by (simp add: blank_control_def carriage_return_def)

lemma sanitize_idem: "sanitize_reason (sanitize_reason s) = sanitize_reason s"
  by (simp add: sanitize_reason_def Let_def take_map comp_def blank_control_idem)

lemma sanitize_plain: "plain (sanitize_reason s)"
proof -
  have "c \<in> set (sanitize_reason s) \<Longrightarrow> c \<in> blank_control ` set s" for c
    by (auto simp: sanitize_reason_def Let_def take_map split: if_splits dest: in_set_takeD)
  then show ?thesis
    by (auto simp: plain_def blank_control_def carriage_return_def split: if_splits)
qed

lemma ban_record_ok:
  "list_all ban_ok rs \<Longrightarrow> valid_ban_host host \<Longrightarrow> int64_range e \<Longrightarrow> list_all ban_ok (ban_record_host e host score reason rs)"
  unfolding ban_record_host_def
  by (cases "list_ex (\<lambda>r. br_host r = host) rs")
     (simp_all, auto simp: ban_ok_def sanitize_idem int64_range_def max_def intro: update_first_all)

lemma plain_ban_host: "valid_ban_host h \<Longrightarrow> plain h"
  by (auto simp: valid_ban_host_def plain_def list_ex_iff)

interpretation brl: line_format ban_line parse_ban_line ban_ok
proof
  fix r assume r: "ban_ok r"
  let ?fs = "[br_host r, show_int (br_banned_until r), show_u32 (br_score r), sanitize_reason (br_reason r)]"
  have p: "list_all plain ?fs"
    using r sanitize_plain [of "br_reason r"] by (simp add: ban_ok_def plain_ban_host)
  show "newline \<notin> set (ban_line r) \<and> ban_line r \<noteq> []"
    using join_newline [OF p] r by (simp add: ban_line_def ban_ok_def valid_ban_host_def)
  have u: "unat (br_score r) \<le> u32_max"
    using unsigned_less [of "br_score r", where 'a = nat] by (simp add: u32_max_def)
  show "parse_ban_line (ban_line r) = Inr r"
    using split_plain [OF p] r u
    by (cases r) (simp add: ban_line_def parse_ban_line_def Let_def ban_ok_def int64_range_def i64_max_def
        parse_signed_show show_u32_def)
qed

lemma bans_reload:
  assumes "bans_save s = (Inr (), t)" "disk_ok (ts_disk s)" "list_all ban_ok (ts_items s)"
  shows "bans_load clock (reopened t) = (Inr (), (reopened t) \<lparr> ts_items := prune_expired clock 0 (ts_items s) \<rparr>)"
proof -
  have sv: "on_file (save_text banlist_path ''Unable to create temporary banlist''
         [''Unable to flush banlist'', ''Unable to close banlist'']
         (Inr BANLIST_MAGIC # map (\<lambda>r. Inr (ban_line r)) (ts_items s))) s = (Inr (), t)"
    using assms(1) by (simp add: bans_save_def sx_defs)
  have ok: "ban_ok x" if "x \<in> set (ts_items s)" for x
    using that assms(3) by (simp add: list_all_iff)
  then have "newline \<notin> set l \<and> l \<noteq> []" if "x \<in> set (ts_items s)" "Inr (ban_line x) = (Inr l :: string res)" for x l
    using that brl.line_safe [OF ok] by auto
  then obtain ls where ls: "list_all2 (\<lambda>x l. Inr (ban_line x) = (Inr l :: string res)) (ts_items s) ls"
    and ld: "load_text banlist_path BANLIST_MAGIC ''Unable to open banlist-v1.tsv''
        ''Invalid banlist-v1.tsv header'' ban_read_line (reopened t) = foldS ban_read_line ls (reopened t)"
    using save_then_load [OF sv assms(2), of "''Unable to open banlist-v1.tsv''" "''Invalid banlist-v1.tsv header''" ban_read_line]
    by (auto simp: BANLIST_MAGIC_def)
  have "ls = map ban_line (ts_items s)"
    using ls by (induction rule: list_all2_induct) auto
  then have "list_all2 (\<lambda>x l. \<forall>s. ban_read_line l s = (Inr (), s \<lparr> ts_items := ts_items s @ [x] \<rparr>)) (ts_items s) ls"
    using brl.read_show [OF ok]
    by (simp add: list_all2_map2 list_all2_same ban_read_line_def push_item_def sx_defs)
  from push_loop [where g = "\<lambda>x. x", OF this, of "reopened t"] ld
  have "load_text banlist_path BANLIST_MAGIC ''Unable to open banlist-v1.tsv''
        ''Invalid banlist-v1.tsv header'' ban_read_line (reopened t) = (Inr (), (reopened t) \<lparr> ts_items := ts_items s \<rparr>)"
    by (simp add: reopened_def)
  then show ?thesis
    by (simp add: bans_load_def bindS_def modifyS_def)
qed

end
