(* ===== verification/Bech32.thy ===== *)
theory Bech32
  imports Script Text
begin

section \<open>Addresses (bech32.cpp)\<close>

text \<open>
  The checksum, the regrouping of bits and the two public functions, in the order of the file. Bytes are
  8-bit words and the checksum and the accumulator are 32-bit words with the shifts of the source. A
  \<^verbatim>\<open>char\<close> of the prefix is below 128, so its shift is that of the byte. \<^verbatim>\<open>islower\<close>, \<^verbatim>\<open>isupper\<close> and \<^verbatim>\<open>tolower\<close>
  are those of the C locale, which the program does not change.
\<close>

unbundle bit_operations_syntax

subsection \<open>The checksum\<close>

definition CHARSET :: string where "CHARSET = ''qpzry9x8gf2tvdw0s3jn54khce6mua7l''"

definition HRP :: string where "HRP = ''tbin''"

definition GENERATOR :: "u32 list" where
  "GENERATOR = [0x3b6a57b2, 0x26508e6d, 0x1ea119fa, 0x3d4233dd, 0x2a1462b3]"

definition polymod_step :: "u32 \<Rightarrow> u8 \<Rightarrow> u32" where
  "polymod_step checksum v =
     (let top = ucast (drop_bit 25 checksum) :: u8;
          checksum = push_bit 5 (checksum AND 0x1ffffff) XOR ucast v
      in foldl (\<lambda>c (index, g). if drop_bit index top AND 1 \<noteq> 0 then c XOR g else c) checksum (enumerate 0 GENERATOR))"

definition polymod :: "bytes \<Rightarrow> u32" where
  "polymod values = foldl polymod_step 1 values"

definition hrp_expand :: "string \<Rightarrow> bytes" where
  "hrp_expand hrp = map (\<lambda>c. drop_bit 5 (byte_of_char c)) hrp @ [0] @ map (\<lambda>c. byte_of_char c AND 31) hrp"

definition bech32_checksum :: "string \<Rightarrow> bytes \<Rightarrow> bytes" where
  "bech32_checksum hrp data =
     (let v = polymod (hrp_expand hrp @ data @ replicate 6 0) XOR 1
      in map (\<lambda>index. ucast (drop_bit (5 * (5 - index)) v AND 31)) [0..<6])"

subsection \<open>Regrouping bits\<close>

text \<open>The inner \<^verbatim>\<open>while\<close> loop takes \<open>to_bits\<close> from \<open>bits\<close> at each turn; \<open>to_bits\<close> is positive in every call.\<close>

fun emit_groups :: "u32 \<Rightarrow> nat \<Rightarrow> nat \<Rightarrow> bytes \<Rightarrow> nat \<times> bytes" where
  "emit_groups acc to_bits bits out =
     (if to_bits = 0 then (bits, out)
      else if to_bits \<le> bits then
        emit_groups acc to_bits (bits - to_bits)
          (out @ [ucast (drop_bit (bits - to_bits) acc AND (push_bit to_bits 1 - 1))])
      else (bits, out))"

declare emit_groups.simps [simp del]

definition convert_step :: "nat \<Rightarrow> nat \<Rightarrow> u8 \<Rightarrow> u32 \<times> nat \<times> bytes \<Rightarrow> (u32 \<times> nat \<times> bytes) res" where
  "convert_step from_bits to_bits v s =
     (case s of (acc, bits, out) \<Rightarrow>
        if drop_bit from_bits v \<noteq> 0 then Inl (InvalidArgument ''Bech32 data value exceeds source width'')
        else
          let acc = (push_bit from_bits acc OR ucast v) AND (push_bit (from_bits + to_bits - 1) 1 - 1);
              (bits, out) = emit_groups acc to_bits (bits + from_bits) out
          in Inr (acc, bits, out))"

definition convert_bits :: "bytes \<Rightarrow> nat \<Rightarrow> nat \<Rightarrow> bool \<Rightarrow> bytes res" where
  "convert_bits input from_bits to_bits pad =
     bindE (foldE (convert_step from_bits to_bits) input (0, 0, [])) (\<lambda>(acc, bits, out).
       let rest = push_bit (to_bits - bits) acc AND (push_bit to_bits 1 - 1) in
       if pad then Inr (if bits \<noteq> 0 then out @ [ucast rest] else out)
       else if from_bits \<le> bits \<or> rest \<noteq> 0 then Inl (InvalidArgument ''Invalid Bech32 padding'')
       else Inr out)"

subsection \<open>Addresses\<close>

definition encode_testnet_address :: "crypto \<Rightarrow> bytes \<Rightarrow> string res" where
  "encode_testnet_address C key =
     (if \<not> valid_compressed_public_key C key then Inl (InvalidArgument ''Invalid address public key'')
      else bindE (convert_bits key 8 5 True) (\<lambda>converted.
        let data = 0 # converted; check = bech32_checksum HRP data
        in Inr (HRP @ CHR ''1'' # map (\<lambda>v. CHARSET ! unat v) data @ map (\<lambda>v. CHARSET ! unat v) check)))"

definition is_lower :: "char \<Rightarrow> bool" where
  "is_lower c \<longleftrightarrow> CHR ''a'' \<le> c \<and> c \<le> CHR ''z''"

definition is_upper :: "char \<Rightarrow> bool" where
  "is_upper c \<longleftrightarrow> CHR ''A'' \<le> c \<and> c \<le> CHR ''Z''"

definition to_lower :: "char \<Rightarrow> char" where
  "to_lower c = (if is_upper c then char_of (of_char c + 32 :: nat) else c)"

definition charset_value :: "char \<Rightarrow> u8 res" where
  "charset_value c =
     (case find_char c CHARSET of
        None \<Rightarrow> Inl (InvalidArgument ''Invalid Bech32 character'')
      | Some i \<Rightarrow> Inr (of_nat i))"

definition decode_testnet_address :: "crypto \<Rightarrow> string \<Rightarrow> bytes res" where
  "decode_testnet_address C address =
     (if length address < 8 \<or> 90 < length address then Inl (InvalidArgument ''Invalid BinaryCoin address length'')
      else if list_ex is_lower address \<and> list_ex is_upper address then
        Inl (InvalidArgument ''Mixed-case Bech32 address'')
      else
        let normalized = map to_lower address;
            wrong_prefix = Inl (InvalidArgument ''Wrong or missing BinaryCoin testnet address prefix'')
        in case rfind_char (CHR ''1'') normalized of
             None \<Rightarrow> wrong_prefix
           | Some separator \<Rightarrow>
               if take separator normalized \<noteq> HRP \<or> length normalized < separator + 7 then wrong_prefix
               else bindE (mapE charset_value (drop (separator + 1) normalized)) (\<lambda>values.
                 if polymod (hrp_expand HRP @ values) \<noteq> 1 then
                   Inl (InvalidArgument ''BinaryCoin address checksum mismatch'')
                 else
                   let values = take (length values - 6) values in
                   if values = [] \<or> hd values \<noteq> 0 then
                     Inl (InvalidArgument ''Unsupported BinaryCoin address version'')
                   else bindE (convert_bits (tl values) 5 8 False) (\<lambda>public_key.
                     if \<not> valid_compressed_public_key C public_key then
                       Inl (InvalidArgument ''Address contains an invalid public key'')
                     else Inr public_key)))"

definition valid_testnet_address :: "crypto \<Rightarrow> string \<Rightarrow> bool" where
  "valid_testnet_address C address = (case decode_testnet_address C address of Inl _ \<Rightarrow> False | Inr _ \<Rightarrow> True)"

end
