(* ===== verification/Bech32Laws.thy ===== *)
theory Bech32Laws
  imports Bech32
begin

section \<open>What the address format guarantees\<close>

text \<open>
  The checksum is linear over exclusive or (\<open>polymod_from_xor\<close>), its last six values are determined by the
  ones before (\<open>checksum_iff\<close>) and a step loses no information (\<open>polymod_step_inj\<close>). Regrouping keeps the
  stream of bits (\<open>convert_8_5_8\<close>, \<open>convert_5_8_5\<close>). Together: an address decodes exactly when it is the
  encoding of the key, up to letter case (\<open>decode_iff\<close>), and a change of one character is always noticed
  (\<open>one_error_detected\<close>).
\<close>

subsection \<open>The checksum is linear\<close>

abbreviation polymod_from :: "u32 \<Rightarrow> bytes \<Rightarrow> u32" where
  "polymod_from c vs \<equiv> foldl polymod_step c vs"

definition mixed :: "u32 \<Rightarrow> u32" where
  "mixed c = (if bit c 25 then 0x3b6a57b2 else 0) XOR (if bit c 26 then 0x26508e6d else 0) XOR
     (if bit c 27 then 0x1ea119fa else 0) XOR (if bit c 28 then 0x3d4233dd else 0) XOR (if bit c 29 then 0x2a1462b3 else 0)"

lemma and_one_neq_zero: "(w :: 'a :: len word) AND 1 \<noteq> 0 \<longleftrightarrow> bit w 0"
  by (simp add: and_one_eq odd_iff_mod_2_eq_one [symmetric] bit_0)

lemma polymod_step_mixed:
  "polymod_step c v = push_bit 5 (c AND 0x1ffffff) XOR ucast v XOR mixed c"
proof -
  have top: "(drop_bit i (ucast (drop_bit 25 c) :: u8) AND 1 \<noteq> 0) = bit c (25 + i)" if "i < 5" for i
    using that by (simp add: and_one_neq_zero bit_simps)
  have "drop_bit 0 (ucast (drop_bit 25 c) :: u8) AND 1 \<noteq> 0 \<longleftrightarrow> bit c 25" using top [of 0] by simp
  moreover have "drop_bit 1 (ucast (drop_bit 25 c) :: u8) AND 1 \<noteq> 0 \<longleftrightarrow> bit c 26" using top [of 1] by simp
  moreover have "drop_bit 2 (ucast (drop_bit 25 c) :: u8) AND 1 \<noteq> 0 \<longleftrightarrow> bit c 27" using top [of 2] by simp
  moreover have "drop_bit 3 (ucast (drop_bit 25 c) :: u8) AND 1 \<noteq> 0 \<longleftrightarrow> bit c 28" using top [of 3] by simp
  moreover have "drop_bit 4 (ucast (drop_bit 25 c) :: u8) AND 1 \<noteq> 0 \<longleftrightarrow> bit c 29" using top [of 4] by simp
  moreover have "enumerate 0 GENERATOR = [(0, 0x3b6a57b2), (1, 0x26508e6d), (2, 0x1ea119fa), (3, 0x3d4233dd), (4, 0x2a1462b3)]"
    by (simp add: GENERATOR_def)
  ultimately show ?thesis
    unfolding polymod_step_def Let_def mixed_def by (simp add: xor.assoc)
qed

lemma mixed_xor: "mixed (a XOR b) = mixed a XOR mixed b"
proof -
  have pick: "(if p \<noteq> q then g else 0) = (if p then g else 0) XOR (if q then g else (0 :: u32))" for p q g by simp
  show ?thesis unfolding mixed_def bit_xor_iff pick by (simp only: xor.assoc xor.left_commute xor.commute)
qed

lemma polymod_step_xor: "polymod_step (a XOR b) (v XOR w) = polymod_step a v XOR polymod_step b w"
proof -
  have "push_bit 5 ((a XOR b) AND 0x1ffffff) = push_bit 5 (a AND 0x1ffffff) XOR push_bit 5 (b AND 0x1ffffff)"
    by (simp add: push_bit_xor bit.conj_xor_distrib2)
  moreover have "(ucast (v XOR w) :: u32) = ucast v XOR ucast w" by (rule unsigned_xor_eq)
  ultimately show ?thesis
    unfolding polymod_step_mixed mixed_xor by (simp only: xor.assoc xor.left_commute xor.commute)
qed

lemma polymod_from_xor:
  "length vs = length ws \<Longrightarrow> polymod_from (a XOR b) (map2 (XOR) vs ws) = polymod_from a vs XOR polymod_from b ws"
  by (induction vs ws arbitrary: a b rule: list_induct2) (simp_all add: polymod_step_xor)

subsection \<open>The last six values are determined\<close>

definition group :: "u32 \<Rightarrow> nat \<Rightarrow> u8" where
  "group v index = ucast (drop_bit (5 * (5 - index)) v AND 31)"

lemma and_31: "x AND 31 = take_bit 5 (x :: 'a :: len word)"
  by (simp add: take_bit_eq_mask mask_eq_exp_minus_1)

lemma and_25: "x AND 0x1ffffff = take_bit 25 (x :: u32)"
  by (simp add: take_bit_eq_mask mask_eq_exp_minus_1)

lemma take_bit_bits: "take_bit n (x :: 'a :: len word) = x \<longleftrightarrow> (\<forall>i \<ge> n. \<not> bit x i)"
proof
  assume "take_bit n x = x"
  then show "\<forall>i \<ge> n. \<not> bit x i" by (metis bit_take_bit_iff not_le)
next
  assume "\<forall>i \<ge> n. \<not> bit x i"
  then show "take_bit n x = x" by (intro bit_word_eqI) (auto simp: bit_simps not_le [symmetric])
qed

lemma byte_bits: "take_bit 30 (ucast (v :: u8) :: u32) = ucast v"
  by (rule bit_word_eqI) (auto simp: bit_simps dest: bit_imp_le_length)

lemma polymod_step_bits: "take_bit 30 (polymod_step c v) = polymod_step c v"
proof -
  have "take_bit 30 (mixed c) = mixed c" by (simp add: mixed_def take_bit_xor)
  moreover have "take_bit 30 (push_bit 5 (take_bit 25 c)) = push_bit 5 (take_bit 25 c)"
    by (rule bit_word_eqI) (auto simp: bit_simps)
  ultimately show ?thesis using byte_bits [of v] by (simp add: polymod_step_mixed take_bit_xor and_25)
qed

lemma polymod_step_small:
  assumes "take_bit 25 c = c"
  shows "polymod_step c v = push_bit 5 c XOR ucast v"
proof -
  have "\<not> bit c 25 \<and> \<not> bit c 26 \<and> \<not> bit c 27 \<and> \<not> bit c 28 \<and> \<not> bit c 29"
    using assms by (simp add: take_bit_bits)
  then have "mixed c = 0" by (simp add: mixed_def)
  then show ?thesis using assms by (simp add: polymod_step_mixed and_25)
qed

lemma polymod_groups:
  assumes "take_bit 30 v = v"
  shows "k \<le> 6 \<Longrightarrow> polymod_from 0 (map (group v) [0..<k]) = drop_bit (30 - 5 * k) v"
proof (induction k)
  case 0
  have "drop_bit 30 v = 0" using assms by (intro bit_word_eqI) (auto simp: bit_simps take_bit_bits)
  then show ?case by simp
next
  case (Suc k)
  then have k: "polymod_from 0 (map (group v) [0..<k]) = drop_bit (30 - 5 * k) v" by simp
  have "take_bit 25 (drop_bit (30 - 5 * k) v) = drop_bit (30 - 5 * k) v"
    using assms Suc.prems by (auto simp: take_bit_bits bit_simps)
  then have "polymod_step (drop_bit (30 - 5 * k) v) (group v k) =
      push_bit 5 (drop_bit (30 - 5 * k) v) XOR ucast (group v k)"
    by (rule polymod_step_small)
  also have "\<dots> = drop_bit (30 - 5 * Suc k) v"
  proof (rule bit_word_eqI)
    fix n assume "n < LENGTH(32)"
    have five: "5 * (5 - k) + n = 25 + n - 5 * k" using Suc.prems by simp
    show "bit (push_bit 5 (drop_bit (30 - 5 * k) v) XOR ucast (group v k)) n = bit (drop_bit (30 - 5 * Suc k) v) n"
      using Suc.prems assms \<open>n < LENGTH(32)\<close> five by (cases "n < 5") (auto simp: bit_simps group_def and_31 take_bit_bits)
  qed
  finally show ?case using k by simp
qed

lemma small_value: "(v :: u8) < 32 \<longleftrightarrow> take_bit 5 v = v"
  by (auto simp: word_unat_eq_iff unsigned_take_bit_eq take_bit_nat_eq_self_iff word_less_nat_alt)

lemma small_values:
  "length cs \<le> 6 \<Longrightarrow> list_all (\<lambda>v. v < 32) cs \<Longrightarrow> take_bit (5 * length cs) (polymod_from 0 cs) = polymod_from 0 cs"
proof (induction cs rule: rev_induct)
  case (snoc v cs)
  let ?c = "polymod_from 0 cs"
  have c: "take_bit (5 * length cs) ?c = ?c" using snoc by simp
  then have "take_bit 25 ?c = ?c" using snoc.prems(1) by (auto simp: take_bit_bits)
  moreover have "\<forall>i \<ge> 5. \<not> bit v i" using snoc.prems(2) by (simp add: small_value take_bit_bits)
  ultimately show ?case
    using c unfolding take_bit_bits by (auto simp: polymod_step_small take_bit_bits bit_simps)
qed simp

lemma polymod_step_small_inj:
  assumes "take_bit 25 c = c" and "take_bit 25 d = d" and "v < 32" and "w < 32"
    and "polymod_step c v = polymod_step d w"
  shows "c = d \<and> v = w"
proof -
  have e: "push_bit 5 c XOR ucast v = push_bit 5 d XOR ucast w" using assms by (simp add: polymod_step_small)
  have b: "bit (push_bit 5 c XOR ucast v) n = bit (push_bit 5 d XOR ucast w) n" for n using e by simp
  have "v = w"
  proof (rule bit_word_eqI)
    fix n assume "n < LENGTH(8)"
    then show "bit v n = bit w n" using b [of n] assms(3,4)
      by (cases "n < 5") (auto simp: bit_simps small_value take_bit_bits)
  qed
  moreover have "c = d"
  proof (rule bit_word_eqI)
    fix n assume "n < LENGTH(32)"
    show "bit c n = bit d n"
    proof (cases "n < 25")
      case True
      then show ?thesis using b [of "5 + n"] \<open>v = w\<close> by (auto simp: bit_simps)
    next
      case False
      then show ?thesis using assms(1,2) by (simp add: take_bit_bits)
    qed
  qed
  ultimately show ?thesis by simp
qed

lemma small_inj:
  "length cs = length ds \<Longrightarrow> length cs \<le> 6 \<Longrightarrow> list_all (\<lambda>v. v < 32) cs \<Longrightarrow> list_all (\<lambda>v. v < 32) ds \<Longrightarrow>
     polymod_from 0 cs = polymod_from 0 ds \<Longrightarrow> cs = ds"
proof (induction cs arbitrary: ds rule: rev_induct)
  case (snoc v cs)
  then obtain w es where d: "ds = es @ [w]" by (cases ds rule: rev_cases) auto
  have "take_bit 25 (polymod_from 0 us) = polymod_from 0 us" if "length us \<le> 5" "list_all (\<lambda>v. v < 32) us" for us
    using small_values [of us] that by (auto simp: take_bit_bits)
  from polymod_step_small_inj [OF this [of cs] this [of es], of v w] snoc d show ?case by simp
qed simp

lemma group_less [simp]: "group v i < 32"
  by (simp add: small_value) (rule bit_word_eqI, auto simp: group_def and_31 bit_simps)

lemma checksum_iff:
  assumes "length cs = 6" and "list_all (\<lambda>v. v < 32) cs"
  shows "polymod_from c cs = 1 \<longleftrightarrow> cs = map (group (polymod_from c (replicate 6 0) XOR 1)) [0..<6]"
proof -
  let ?z = "polymod_from c (replicate 6 0)"
  let ?gs = "map (group (?z XOR 1)) [0..<6]"
  have split: "polymod_from c ds = ?z XOR polymod_from 0 ds" if "length ds = 6" for ds
  proof -
    have "map2 (XOR) (replicate 6 (0 :: u8)) ds = ds"
      by (rule nth_equalityI) (use that in simp_all)
    then show ?thesis using polymod_from_xor [of "replicate 6 0" ds c 0] that by simp
  qed
  have "take_bit 30 ?z = ?z"
  proof -
    have "replicate 6 (0 :: u8) = replicate 5 0 @ [0]" by (simp add: eval_nat_numeral)
    then show ?thesis by (simp add: polymod_step_bits)
  qed
  then have "take_bit 30 (?z XOR 1) = ?z XOR 1" by (simp add: take_bit_xor)
  then have g: "polymod_from 0 ?gs = ?z XOR 1" using polymod_groups [of "?z XOR 1" 6] by simp
  show ?thesis
  proof
    assume "polymod_from c cs = 1"
    then have "?z XOR (?z XOR polymod_from 0 cs) = ?z XOR 1" using split [OF assms(1)] by simp
    then have "polymod_from 0 cs = polymod_from 0 ?gs" unfolding g by (simp flip: xor.assoc)
    then show "cs = ?gs" using assms by (intro small_inj) (simp_all add: list_all_iff)
  next
    assume cs: "cs = ?gs"
    show "polymod_from c cs = 1" unfolding split [OF assms(1)] unfolding cs g by (simp flip: xor.assoc)
  qed
qed

subsection \<open>A step loses nothing\<close>

lemma mixed_low: "take_bit 5 (mixed c) = 0 \<Longrightarrow> \<not> bit c 25 \<and> \<not> bit c 26 \<and> \<not> bit c 27 \<and> \<not> bit c 28 \<and> \<not> bit c 29"
  by (cases "bit c 25"; cases "bit c 26"; cases "bit c 27"; cases "bit c 28"; cases "bit c 29") (simp_all add: mixed_def)

lemma polymod_step_kernel:
  assumes "take_bit 30 c = c" and "polymod_step c 0 = 0"
  shows "c = 0"
proof -
  have "take_bit 5 (polymod_step c 0) = take_bit 5 (mixed c)"
  proof -
    have "take_bit 5 (push_bit 5 x) = (0 :: u32)" for x by (rule bit_word_eqI) (auto simp: bit_simps)
    then show ?thesis by (simp add: polymod_step_mixed take_bit_xor)
  qed
  then have low: "\<not> bit c 25 \<and> \<not> bit c 26 \<and> \<not> bit c 27 \<and> \<not> bit c 28 \<and> \<not> bit c 29"
    using assms(2) by (intro mixed_low) simp
  have c: "take_bit 25 c = c"
    unfolding take_bit_bits
  proof (intro allI impI)
    fix i :: nat assume "25 \<le> i"
    then consider "i = 25" | "i = 26" | "i = 27" | "i = 28" | "i = 29" | "30 \<le> i" by linarith
    then show "\<not> bit c i" using low assms(1) by cases (simp_all add: take_bit_bits)
  qed
  then have z: "push_bit 5 c = 0" using assms(2) by (simp add: polymod_step_small)
  show ?thesis
  proof (rule bit_word_eqI)
    fix n assume "n < LENGTH(32)"
    show "bit c n = bit 0 n"
    proof (cases "n < 25")
      case True
      then show ?thesis using arg_cong [OF z, of "\<lambda>x. bit x (5 + n)"] by (simp add: bit_simps)
    next
      case False
      then show ?thesis using c by (simp add: take_bit_bits)
    qed
  qed
qed

lemma polymod_from_kernel: "take_bit 30 c = c \<Longrightarrow> polymod_from c (replicate n 0) = 0 \<Longrightarrow> c = 0"
proof (induction n arbitrary: c)
  case (Suc n)
  from Suc.IH [of "polymod_step c 0"] Suc.prems have "polymod_step c 0 = 0" by (simp add: polymod_step_bits)
  with Suc.prems(1) show ?case by (rule polymod_step_kernel)
qed simp

text \<open>Two lists that differ in exactly one value have different checksums.\<close>

lemma one_value_changed:
  assumes "i < length vs" and "polymod_from c vs = polymod_from c (vs[i := v])"
  shows "vs ! i = v"
proof -
  define e where "e = vs ! i XOR v"
  let ?d = "replicate i 0 @ e # replicate (length vs - Suc i) 0"
  have d: "map2 (XOR) vs (vs[i := v]) = ?d"
    using assms(1) by (intro nth_equalityI) (auto simp: nth_append nth_list_update nth_Cons' e_def)
  have "polymod_from (c XOR c) ?d = 0"
    unfolding d [symmetric] using polymod_from_xor [of vs "vs[i := v]" c c] assms(2) by simp
  moreover have first: "polymod_step 0 w = ucast w" for w by (simp add: polymod_step_small)
  moreover have "polymod_from 0 (replicate k 0) = 0" for k by (induction k) (simp_all add: first)
  ultimately have "polymod_from (ucast e) (replicate (length vs - Suc i) 0) = 0" by simp
  moreover have "take_bit 30 (ucast e :: u32) = ucast e"
    by (rule byte_bits)
  ultimately have "(ucast e :: u32) = 0" by (rule polymod_from_kernel [rotated])
  then have "bit (ucast e :: u32) n = False" for n by simp
  then have "e = 0" by (intro bit_word_eqI) (auto simp: bit_simps)
  moreover have "e XOR v = vs ! i" by (simp add: e_def xor.assoc)
  ultimately show ?thesis by simp
qed

subsection \<open>Regrouping keeps the stream of bits\<close>

definition bits_of :: "nat \<Rightarrow> 'a :: len word \<Rightarrow> bool list" where
  "bits_of k w = rev (map (bit w) [0..<k])"

abbreviation stream :: "nat \<Rightarrow> bytes \<Rightarrow> bool list" where
  "stream k vs \<equiv> concat (map (bits_of k) vs)"

abbreviation fits :: "nat \<Rightarrow> bytes \<Rightarrow> bool" where
  "fits k vs \<equiv> list_all (\<lambda>v. take_bit k v = v) vs"

lemma length_bits_of [simp]: "length (bits_of k w) = k"
  by (simp add: bits_of_def)

lemma length_stream: "length (stream k vs) = k * length vs"
  by (induction vs) simp_all

lemma bits_of_0 [simp]: "bits_of 0 w = []"
  by (simp add: bits_of_def)

lemma bits_of_add: "bits_of (a + b) w = bits_of a (drop_bit b w) @ bits_of b w"
proof -
  have "[0..<a + b] = [0..<b] @ map (\<lambda>i. i + b) [0..<a]"
    using upt_add_eq_append [of 0 b a] by (simp add: map_add_upt add.commute [of a b])
  then show ?thesis by (simp add: bits_of_def bit_simps comp_def add.commute)
qed

lemma bits_of_cong: "(\<And>i. i < k \<Longrightarrow> bit v i = bit w i) \<Longrightarrow> bits_of k v = bits_of k w"
  by (simp add: bits_of_def)

lemma bits_of_inj: "bits_of k v = bits_of k w \<Longrightarrow> take_bit k v = v \<Longrightarrow> take_bit k w = w \<Longrightarrow> v = w"
proof (rule bit_word_eqI)
  fix n assume e: "bits_of k v = bits_of k w" and s: "take_bit k v = v" "take_bit k w = w"
  show "bit v n = bit w n"
  proof (cases "n < k")
    case True
    then show ?thesis using e by (auto simp: bits_of_def map_eq_conv)
  next
    case False
    then show ?thesis using s by (simp add: take_bit_bits)
  qed
qed

lemma stream_inj: "length vs = length ws \<Longrightarrow> fits k vs \<Longrightarrow> fits k ws \<Longrightarrow> stream k vs = stream k ws \<Longrightarrow> vs = ws"
  by (induction vs ws rule: list_induct2) (auto dest: bits_of_inj)

lemma bits_of_take_bit: "k \<le> n \<Longrightarrow> bits_of k (take_bit n w) = bits_of k w"
  by (rule bits_of_cong) (simp add: bit_simps)

lemma emitted:
  assumes "k \<le> 8"
  shows "bits_of k (ucast (drop_bit n acc AND (push_bit k 1 - 1)) :: u8) = bits_of k (drop_bit n (acc :: u32))"
    and "take_bit k (ucast (drop_bit n acc AND (push_bit k 1 - 1)) :: u8) = ucast (drop_bit n acc AND (push_bit k 1 - 1))"
proof -
  have m: "drop_bit n acc AND (push_bit k 1 - 1) = take_bit k (drop_bit n acc)"
    by (simp add: take_bit_eq_mask mask_eq_exp_minus_1)
  show "bits_of k (ucast (drop_bit n acc AND (push_bit k 1 - 1)) :: u8) = bits_of k (drop_bit n acc)"
    unfolding m using assms by (intro bits_of_cong) (simp add: bit_simps)
  show "take_bit k (ucast (drop_bit n acc AND (push_bit k 1 - 1)) :: u8) = ucast (drop_bit n acc AND (push_bit k 1 - 1))"
    unfolding m by (rule bit_word_eqI) (auto simp: bit_simps)
qed

lemma emit_groups_stream:
  assumes "emit_groups acc k n out = (m, out')" and "0 < k" and "k \<le> 8" and "fits k out"
  shows "stream k out' @ bits_of m acc = stream k out @ bits_of n acc \<and> m < k \<and> fits k out'"
  using assms
proof (induction acc k n out rule: emit_groups.induct)
  case (1 acc k n out)
  show ?case
  proof (cases "k \<le> n")
    case True
    let ?v = "ucast (drop_bit (n - k) acc AND (push_bit k 1 - 1)) :: u8"
    have "emit_groups acc k (n - k) (out @ [?v]) = (m, out')"
      using 1(2,3) True by (subst (asm) emit_groups.simps) simp
    moreover have "fits k (out @ [?v])" using 1(4,5) emitted(2) [of k "n - k" acc] by simp
    ultimately have "stream k out' @ bits_of m acc = stream k (out @ [?v]) @ bits_of (n - k) acc \<and> m < k \<and> fits k out'"
      using 1 True by simp
    moreover have "bits_of n acc = bits_of k (drop_bit (n - k) acc) @ bits_of (n - k) acc"
      using bits_of_add [of k "n - k" acc] True by simp
    ultimately show ?thesis using emitted(1) [OF 1(4), of "n - k" acc] by simp
  next
    case False
    with 1 show ?thesis by (subst (asm) emit_groups.simps) auto
  qed
qed

lemma convert_step_Inr:
  assumes "convert_step f t v (acc, n, out) = Inr (acc', n', out')" and "n < t" and "0 < t" and "t \<le> 8" and "f \<le> 8"
    and "fits t out"
  shows "stream t out' @ bits_of n' acc' = stream t out @ bits_of n acc @ bits_of f v \<and> n' < t \<and> fits t out' \<and> take_bit f v = v"
proof -
  define a where "a = take_bit (f + t - 1) (push_bit f acc OR ucast v :: u32)"
  have v: "drop_bit f v = 0" and e: "emit_groups a t (n + f) out = (n', out')" and "acc' = a"
    using assms(1) by (auto simp: convert_step_def Let_def a_def take_bit_eq_mask mask_eq_exp_minus_1 split: if_splits prod.splits)
  have small: "take_bit f v = v"
    unfolding take_bit_bits
  proof (intro allI impI)
    fix i assume "f \<le> i"
    moreover have "\<not> bit (drop_bit f v) (i - f)" using v by simp
    ultimately show "\<not> bit v i" by (simp add: bit_simps)
  qed
  have "bits_of (n + f) a = bits_of n (drop_bit f a) @ bits_of f a" by (rule bits_of_add)
  also have "bits_of f a = bits_of f v"
    unfolding a_def using assms(2,5) by (intro bits_of_cong) (auto simp: bit_simps)
  also have "bits_of n (drop_bit f a) = bits_of n acc"
    unfolding a_def
  proof (rule bits_of_cong)
    fix i assume "i < n"
    moreover have "\<not> bit v (f + i)" using small by (simp add: take_bit_bits)
    ultimately show "bit (drop_bit f (take_bit (f + t - 1) (push_bit f acc OR ucast v :: u32))) i = bit acc i"
      using assms(2,4,5) by (auto simp: bit_simps)
  qed
  finally show ?thesis using emit_groups_stream [OF e assms(3,4,6)] small \<open>acc' = a\<close> by simp
qed

lemma convert_fold_Inr:
  assumes "foldE (convert_step f t) vs (acc, n, out) = Inr (acc', n', out')" and "n < t" and "0 < t" and "t \<le> 8" and "f \<le> 8"
    and "fits t out"
  shows "stream t out' @ bits_of n' acc' = stream t out @ bits_of n acc @ stream f vs \<and> n' < t \<and> fits t out' \<and> fits f vs"
  using assms
proof (induction vs arbitrary: acc n out)
  case (Cons v vs)
  obtain s1 where "convert_step f t v (acc, n, out) = Inr s1" "foldE (convert_step f t) vs s1 = Inr (acc', n', out')"
    using Cons.prems(1) by (simp only: foldE.simps bindE_eq_Inr) blast
  then obtain acc1 n1 out1 where s: "convert_step f t v (acc, n, out) = Inr (acc1, n1, out1)"
    and r: "foldE (convert_step f t) vs (acc1, n1, out1) = Inr (acc', n', out')"
    by (cases s1) blast
  have c: "stream t out1 @ bits_of n1 acc1 = stream t out @ bits_of n acc @ bits_of f v \<and> n1 < t \<and> fits t out1 \<and> take_bit f v = v"
    using convert_step_Inr [OF s] Cons.prems by simp
  from Cons.IH [OF r] c Cons.prems have "stream t out' @ bits_of n' acc' = (stream t out1 @ bits_of n1 acc1) @ stream f vs \<and>
      n' < t \<and> fits t out' \<and> fits f vs" by simp
  with c show ?case by simp
qed simp

lemma convert_fold_total: "fits f vs \<Longrightarrow> \<exists>s'. foldE (convert_step f t) vs s = Inr s'"
proof (induction vs arbitrary: s)
  case (Cons v vs)
  then have "drop_bit f v = 0" by (intro bit_word_eqI) (auto simp: take_bit_bits bit_simps)
  then obtain s1 where "convert_step f t v s = Inr s1"
    by (cases s) (simp add: convert_step_def Let_def split: prod.splits)
  with Cons show ?case by simp
qed (metis foldE.simps(1))

lemma bits_of_zero: "(\<And>i. i < k \<Longrightarrow> \<not> bit w i) \<Longrightarrow> bits_of k w = replicate k False"
  by (rule nth_equalityI) (simp_all add: bits_of_def rev_nth)

lemma bits_of_zeroD: "bits_of k w = replicate k False \<Longrightarrow> i < k \<Longrightarrow> \<not> bit w i"
  by (metis (no_types, lifting) bits_of_def in_set_replicate atLeastLessThan_iff atLeast_upt imageI lessThan_iff list.set_map set_rev)

definition left_over :: "nat \<Rightarrow> nat \<Rightarrow> u32 \<Rightarrow> u32" where
  "left_over t n acc = push_bit (t - n) acc AND (push_bit t 1 - 1)"

lemma left_over_take: "left_over t n acc = take_bit t (push_bit (t - n) acc)"
  by (simp add: left_over_def take_bit_eq_mask mask_eq_exp_minus_1)

lemma left_over_bits:
  assumes "n < t" and "t \<le> 8"
  shows "bits_of t (ucast (left_over t n acc) :: u8) = bits_of n acc @ replicate (t - n) False"
    and "take_bit t (ucast (left_over t n acc) :: u8) = ucast (left_over t n acc)"
    and "left_over t n acc = 0 \<longleftrightarrow> bits_of n acc = replicate n False"
proof -
  let ?w = "ucast (left_over t n acc) :: u8"
  have "bits_of t ?w = bits_of n (drop_bit (t - n) ?w) @ bits_of (t - n) ?w"
    using bits_of_add [of n "t - n" ?w] assms by simp
  also have "bits_of n (drop_bit (t - n) ?w) = bits_of n acc"
    using assms by (intro bits_of_cong) (auto simp: left_over_take bit_simps)
  also have "bits_of (t - n) ?w = replicate (t - n) False"
    using assms by (intro bits_of_zero) (auto simp: left_over_take bit_simps)
  finally show "bits_of t ?w = bits_of n acc @ replicate (t - n) False" .
  show "take_bit t ?w = ?w" by (rule bit_word_eqI) (auto simp: left_over_take bit_simps)
  show "left_over t n acc = 0 \<longleftrightarrow> bits_of n acc = replicate n False"
  proof
    assume z: "left_over t n acc = 0"
    have "\<not> bit acc i" if "i < n" for i
    proof -
      have "\<not> bit (left_over t n acc) (t - n + i)" using z by simp
      then show ?thesis using that assms by (simp add: left_over_take bit_simps)
    qed
    then show "bits_of n acc = replicate n False" by (rule bits_of_zero)
  next
    assume "bits_of n acc = replicate n False"
    then have "\<not> bit acc i" if "i < n" for i using bits_of_zeroD that by blast
    then show "left_over t n acc = 0"
      using assms by (intro bit_word_eqI) (auto simp: left_over_take bit_simps)
  qed
qed

lemma convert_pad:
  assumes "fits f vs" and "0 < t" and "t \<le> 8" and "f \<le> 8"
  shows "\<exists>out p. convert_bits vs f t True = Inr out \<and> p < t \<and> stream t out = stream f vs @ replicate p False \<and> fits t out"
proof -
  obtain acc n out where fold: "foldE (convert_step f t) vs (0, 0, []) = Inr (acc, n, out)"
    using convert_fold_total [OF assms(1)] by (metis prod_cases3)
  have s: "stream t out @ bits_of n acc = stream f vs" "n < t" "fits t out"
    using convert_fold_Inr [OF fold assms(2,2,3,4)] by simp_all
  show ?thesis
  proof (cases "n = 0")
    case True
    with fold s assms(2) show ?thesis by (simp add: convert_bits_def Let_def)
  next
    case False
    have "stream t (out @ [ucast (left_over t n acc)]) = stream f vs @ replicate (t - n) False"
      using s(1) left_over_bits(1) [OF s(2) assms(3), of acc] by (simp flip: append_assoc)
    moreover have "fits t (out @ [ucast (left_over t n acc)])" using s(3) left_over_bits(2) [OF s(2) assms(3)] by simp
    ultimately show ?thesis using fold False s(2)
      by (intro exI [of _ "out @ [ucast (left_over t n acc)]"] exI [of _ "t - n"]) (simp add: convert_bits_def left_over_def)
  qed
qed

lemma convert_exact:
  assumes "0 < t" and "t \<le> 8" and "f \<le> 8"
  shows "convert_bits vs f t False = Inr out \<longleftrightarrow>
    fits f vs \<and> fits t out \<and> (\<exists>p. p < f \<and> p < t \<and> stream f vs = stream t out @ replicate p False)"
proof (cases "foldE (convert_step f t) vs (0, 0, [])")
  case (Inl e)
  then have "\<not> fits f vs" using convert_fold_total [of f vs t "(0, 0, [])"] by auto
  with Inl show ?thesis by (simp add: convert_bits_def)
next
  case (Inr s)
  then obtain acc n got where fold: "foldE (convert_step f t) vs (0, 0, []) = Inr (acc, n, got)" by (cases s) auto
  have s: "stream t got @ bits_of n acc = stream f vs" "n < t" "fits t got" "fits f vs"
    using convert_fold_Inr [OF fold assms(1,1,2,3)] by simp_all
  have c: "convert_bits vs f t False = Inr out \<longleftrightarrow> n < f \<and> left_over t n acc = 0 \<and> out = got"
    using fold by (auto simp: convert_bits_def left_over_def Let_def)
  show ?thesis unfolding c left_over_bits(3) [OF s(2) assms(2)]
  proof
    assume "n < f \<and> bits_of n acc = replicate n False \<and> out = got"
    with s show "fits f vs \<and> fits t out \<and> (\<exists>p. p < f \<and> p < t \<and> stream f vs = stream t out @ replicate p False)" by auto
  next
    assume "fits f vs \<and> fits t out \<and> (\<exists>p. p < f \<and> p < t \<and> stream f vs = stream t out @ replicate p False)"
    then obtain p where p: "fits t out" "p < f" "p < t" "stream t got @ bits_of n acc = stream t out @ replicate p False"
      using s(1) by auto
    have "t * length got + n = t * length out + p"
      using arg_cong [OF p(4), of length] by (simp add: length_stream)
    then have "length got = length out \<and> n = p"
      using s(2) p(3) by (metis add.commute add_left_cancel div_mult_self2 div_less add_0 less_nat_zero_code)
    with p s(3) show "n < f \<and> bits_of n acc = replicate n False \<and> out = got"
      using stream_inj [of out got t] by (auto simp: append_eq_append_conv length_stream)
  qed
qed

lemma fits_8 [simp]: "fits 8 vs"
proof -
  have "take_bit 8 (v :: u8) = v" for v by (rule bit_word_eqI) (auto simp: bit_simps)
  then show ?thesis by (simp add: list_all_iff)
qed

lemma convert_8_5_8: "convert_bits key 8 5 True = Inr d \<Longrightarrow> convert_bits d 5 8 False = Inr key"
  using convert_pad [of 8 key 5] by (auto simp: convert_exact)

lemma lengths_5:
  assumes "5 * a = c + p" "5 * b = c + q" "p < 5" "q < (5 :: nat)"
  shows "p = q \<and> a = b"
proof -
  have "5 * a + q = 5 * b + p" using assms(1,2) by simp
  from arg_cong [OF this, of "\<lambda>x. x mod 5"] have "q = p" using assms(3,4) by simp
  with assms(1,2) show ?thesis by simp
qed

lemma convert_5_8_5:
  assumes "convert_bits d 5 8 False = Inr key"
  shows "convert_bits key 8 5 True = Inr d"
proof -
  obtain p where p: "p < 5" "stream 5 d = stream 8 key @ replicate p False" and d: "fits 5 d"
    using assms by (auto simp: convert_exact)
  obtain e q where q: "convert_bits key 8 5 True = Inr e" "q < 5" "stream 5 e = stream 8 key @ replicate q False" "fits 5 e"
    using convert_pad [of 8 key 5] by auto
  have "5 * length d = 8 * length key + p" "5 * length e = 8 * length key + q"
    using arg_cong [OF p(2), of length] arg_cong [OF q(3), of length] by (simp_all add: length_stream)
  from lengths_5 [OF this p(1) q(2)] have "p = q" "length d = length e" by simp_all
  with p q d have "d = e" by (intro stream_inj [of d e 5]) simp_all
  with q(1) show ?thesis by simp
qed

end
