(* ===== verification/AddressLaws.thy ===== *)
theory AddressLaws
  imports Bech32Laws
begin

section \<open>One text per address\<close>

text \<open>
  \<open>decode_iff\<close>: a text decodes to a key exactly when the key is valid and the text is its encoding up to letter
  case, not mixed. \<open>one_error_detected\<close>: of two texts that differ in one position at most one is an address,
  unless the position differs in letter case only.
\<close>

subsection \<open>Searching\<close>

lemma find_char_Some: "find_char c s = Some i \<Longrightarrow> i < length s \<and> s ! i = c \<and> c \<notin> set (take i s)"
  by (induction s arbitrary: i) (auto split: if_splits)

lemma find_char_None: "find_char c s = None \<longleftrightarrow> c \<notin> set s"
  by (induction s) auto

lemma find_char_distinct: "distinct s \<Longrightarrow> i < length s \<Longrightarrow> find_char (s ! i) s = Some i"
  by (induction s arbitrary: i) (auto simp: nth_Cons split: nat.splits)

lemma find_char_append: "c \<notin> set xs \<Longrightarrow> find_char c (xs @ c # ys) = Some (length xs)"
  by (induction xs) auto

lemma rfind_char_iff: "rfind_char c s = Some i \<longleftrightarrow> (\<exists>xs ys. s = xs @ c # ys \<and> c \<notin> set ys \<and> i = length xs)"
proof
  assume "rfind_char c s = Some i"
  then obtain j where j: "find_char c (rev s) = Some j" and i: "i = length s - Suc j"
    by (auto simp: rfind_char_def)
  have "rev s = take j (rev s) @ c # drop (Suc j) (rev s)" "c \<notin> set (take j (rev s))"
    using find_char_Some [OF j] id_take_nth_drop [of j "rev s"] by auto
  then have "s = rev (drop (Suc j) (rev s)) @ c # rev (take j (rev s))"
    by (metis append.assoc append_Cons append_Nil rev.simps(2) rev_append rev_rev_ident)
  then show "\<exists>xs ys. s = xs @ c # ys \<and> c \<notin> set ys \<and> i = length xs"
    using \<open>c \<notin> set (take j (rev s))\<close> i by (intro exI [of _ "rev (drop (Suc j) (rev s))"] exI [of _ "rev (take j (rev s))"]) simp
next
  assume "\<exists>xs ys. s = xs @ c # ys \<and> c \<notin> set ys \<and> i = length xs"
  then show "rfind_char c s = Some i" using find_char_append by (auto simp: rfind_char_def)
qed

subsection \<open>The character set\<close>

abbreviation letter :: "u8 \<Rightarrow> char" where
  "letter v \<equiv> CHARSET ! unat v"

lemma charset_facts: "distinct CHARSET" "length CHARSET = 32" "CHR ''1'' \<notin> set CHARSET" "CHR ''1'' \<notin> set HRP" "length HRP = 4"
  by (simp_all add: CHARSET_def HRP_def)

lemma charset_value_iff: "charset_value c = Inr v \<longleftrightarrow> v < 32 \<and> c = letter v"
proof
  assume "charset_value c = Inr v"
  then obtain i where i: "find_char c CHARSET = Some i" "v = of_nat i"
    by (auto simp: charset_value_def split: option.splits)
  with find_char_Some [OF i(1)] show "v < 32 \<and> c = letter v"
    by (auto simp: charset_facts word_less_nat_alt unat_of_nat)
next
  assume "v < 32 \<and> c = letter v"
  then show "charset_value c = Inr v"
    by (simp add: charset_value_def find_char_distinct charset_facts word_less_nat_alt)
qed

lemma charset_values: "mapE charset_value body = Inr vs \<longleftrightarrow> list_all (\<lambda>v. v < 32) vs \<and> body = map letter vs"
  by (simp add: mapE_Inr_iff charset_value_iff list_all2_conv_all_nth list_all_length)
     (auto intro: nth_equalityI)

lemma no_separator: "list_all (\<lambda>v. v < 32) vs \<Longrightarrow> CHR ''1'' \<notin> set (map letter vs)"
  using charset_facts(3) nth_mem [of _ CHARSET] by (auto simp: list_all_iff word_less_nat_alt charset_facts(2))

lemma letter_inj: "v < 32 \<Longrightarrow> w < 32 \<Longrightarrow> letter v = letter w \<Longrightarrow> v = w"
  using charset_facts(1) by (auto simp: nth_eq_iff_index_eq word_less_nat_alt charset_facts(2) word_unat_eq_iff)

subsection \<open>Decoding\<close>

definition mixed_case :: "string \<Rightarrow> bool" where
  "mixed_case a \<longleftrightarrow> list_ex is_lower a \<and> list_ex is_upper a"

definition address_shape :: "crypto \<Rightarrow> string \<Rightarrow> bytes \<Rightarrow> bool" where
  "address_shape C a k \<longleftrightarrow> 8 \<le> length a \<and> length a \<le> 90 \<and> \<not> mixed_case a \<and> valid_compressed_public_key C k"

lemma decode_Inr:
  "decode_testnet_address C a = Inr k \<longleftrightarrow>
     address_shape C a k \<and> (\<exists>d cs. map to_lower a = HRP @ CHR ''1'' # map letter (0 # d @ cs) \<and> length cs = 6 \<and>
        list_all (\<lambda>v. v < 32) (0 # d @ cs) \<and> polymod (hrp_expand HRP @ 0 # d @ cs) = 1 \<and> convert_bits d 5 8 False = Inr k)"
    (is "_ \<longleftrightarrow> ?rhs")
proof
  assume dec: "decode_testnet_address C a = Inr k"
  then obtain i where i: "rfind_char (CHR ''1'') (map to_lower a) = Some i"
    by (auto simp: decode_testnet_address_def Let_def split: if_splits option.splits)
  then obtain xs ys where n: "map to_lower a = xs @ CHR ''1'' # ys" and ii: "i = length xs" by (auto simp: rfind_char_iff)
  have xs: "take i (map to_lower a) = xs" "drop (i + 1) (map to_lower a) = ys" unfolding n ii by simp_all
  have "length a = length xs + length ys + 1" using arg_cong [OF n, of length] by simp
  then obtain vs where shape: "address_shape C a k" and hrp: "xs = HRP" and ys: "6 \<le> length ys" and vs: "mapE charset_value ys = Inr vs"
    and p: "polymod (hrp_expand HRP @ vs) = 1" and d0: "take (length vs - 6) vs \<noteq> []" "hd (take (length vs - 6) vs) = 0"
    and k: "convert_bits (tl (take (length vs - 6) vs)) 5 8 False = Inr k"
    using dec unfolding decode_testnet_address_def Let_def mixed_case_def address_shape_def i option.case xs
    by (auto simp: ii split: if_splits)
  define d where "d = tl (take (length vs - 6) vs)"
  define cs where "cs = drop (length vs - 6) vs"
  have split: "vs = 0 # d @ cs"
    using d0 append_take_drop_id [of "length vs - 6" vs] unfolding d_def cs_def
    by (metis append_Cons list.collapse)
  have "length vs = length ys" using vs by (rule mapE_length)
  then have "length cs = 6" using ys by (simp add: cs_def)
  moreover have "list_all (\<lambda>v. v < 32) vs" "ys = map letter vs" using vs by (simp_all add: charset_values)
  ultimately show ?rhs
    using shape n hrp p k unfolding d_def [symmetric] split by (intro conjI exI [of _ d] exI [of _ cs]) simp_all
next
  assume ?rhs
  then obtain d cs where shape: "address_shape C a k" and n: "map to_lower a = HRP @ CHR ''1'' # map letter (0 # d @ cs)"
    and cs: "length cs = 6" and small: "list_all (\<lambda>v. v < 32) (0 # d @ cs)" and p: "polymod (hrp_expand HRP @ 0 # d @ cs) = 1"
    and k: "convert_bits d 5 8 False = Inr k" by blast
  have "rfind_char (CHR ''1'') (map to_lower a) = Some 4"
    unfolding rfind_char_iff n
    by (rule exI [of _ HRP], rule exI [of _ "map letter (0 # d @ cs)"]) (use no_separator [OF small] charset_facts(5) in simp)
  moreover have "take 4 (map to_lower a) = HRP" "drop (4 + 1) (map to_lower a) = map letter (0 # d @ cs)"
    unfolding n using charset_facts(5) by simp_all
  moreover have "mapE charset_value (map letter (0 # d @ cs)) = Inr (0 # d @ cs)" using small by (simp add: charset_values del: list.map)
  moreover have "\<not> length (map to_lower a) < 4 + 7" unfolding n using cs charset_facts(5) by simp
  ultimately show "decode_testnet_address C a = Inr k"
    using shape p k cs unfolding decode_testnet_address_def Let_def mixed_case_def address_shape_def
    by (simp del: list.map length_map map_append)
qed

lemma encode_Inr:
  "encode_testnet_address C k = Inr a \<longleftrightarrow>
     valid_compressed_public_key C k \<and>
     (\<exists>d. convert_bits k 8 5 True = Inr d \<and> a = HRP @ CHR ''1'' # map letter (0 # d @ bech32_checksum HRP (0 # d)))"
  by (auto simp: encode_testnet_address_def Let_def)

lemma checksum_groups:
  "bech32_checksum hrp data = map (group (polymod (hrp_expand hrp @ data @ replicate 6 0) XOR 1)) [0..<6]"
  unfolding bech32_checksum_def Let_def by (rule map_cong [OF refl]) (simp only: group_def)

lemma checksum_valid:
  assumes "length cs = 6" and "list_all (\<lambda>v. v < 32) cs"
  shows "polymod (hrp_expand HRP @ data @ cs) = 1 \<longleftrightarrow> cs = bech32_checksum HRP data"
  using checksum_iff [OF assms, of "polymod (hrp_expand HRP @ data)"]
  unfolding checksum_groups polymod_def by simp

lemma checksum_small: "list_all (\<lambda>v. v < 32) (bech32_checksum hrp data)" "length (bech32_checksum hrp data) = 6"
  unfolding checksum_groups by (simp_all add: list_all_iff)

lemma fits_5: "fits 5 vs \<longleftrightarrow> list_all (\<lambda>v. v < 32) vs"
  by (simp add: small_value)

lemma decode_iff:
  "decode_testnet_address C a = Inr k \<longleftrightarrow> encode_testnet_address C k = Inr (map to_lower a) \<and> \<not> mixed_case a"
proof
  assume "decode_testnet_address C a = Inr k"
  then obtain d cs where shape: "address_shape C a k" and n: "map to_lower a = HRP @ CHR ''1'' # map letter (0 # d @ cs)"
    and cs: "length cs = 6" "list_all (\<lambda>v. v < 32) cs" and p: "polymod (hrp_expand HRP @ (0 # d) @ cs) = 1"
    and k: "convert_bits d 5 8 False = Inr k"
    unfolding decode_Inr by auto
  have "cs = bech32_checksum HRP (0 # d)" using p by (simp only: checksum_valid [OF cs])
  with shape n convert_5_8_5 [OF k] show "encode_testnet_address C k = Inr (map to_lower a) \<and> \<not> mixed_case a"
    unfolding encode_Inr address_shape_def by blast
next
  assume e: "encode_testnet_address C k = Inr (map to_lower a) \<and> \<not> mixed_case a"
  then obtain d where k: "valid_compressed_public_key C k" and d: "convert_bits k 8 5 True = Inr d"
    and a: "map to_lower a = HRP @ CHR ''1'' # map letter (0 # d @ bech32_checksum HRP (0 # d))" by (auto simp: encode_Inr)
  obtain p where p: "p < 5" "stream 5 d = stream 8 k @ replicate p False" "fits 5 d"
    using convert_pad [of 8 k 5] d by auto
  have "5 * length d = 8 * 33 + p" using arg_cong [OF p(2), of length] k by (simp add: length_stream valid_compressed_public_key_def)
  then have "length d = 53" using p(1) by presburger
  then have "length a = 65" using arg_cong [OF a, of length] by (simp add: charset_facts(5) checksum_small(2))
  moreover have "list_all (\<lambda>v. v < 32) (0 # d @ bech32_checksum HRP (0 # d))" using p(3) checksum_small(1) by (simp add: fits_5)
  moreover have "polymod (hrp_expand HRP @ (0 # d) @ bech32_checksum HRP (0 # d)) = 1"
    using checksum_valid [OF checksum_small(2,1)] by blast
  ultimately show "decode_testnet_address C a = Inr k"
    unfolding decode_Inr address_shape_def using e k a convert_8_5_8 [OF d] checksum_small(2)
    by (intro conjI exI [of _ d] exI [of _ "bech32_checksum HRP (0 # d)"]) simp_all
qed

lemma not_upper: "list_all (\<lambda>c. \<not> is_upper c) CHARSET" "list_all (\<lambda>c. \<not> is_upper c) HRP" "\<not> is_upper (CHR ''1'')"
  by (simp_all add: CHARSET_def HRP_def is_upper_def less_eq_char_def)

lemma encode_lower:
  assumes "encode_testnet_address C k = Inr a"
  shows "map to_lower a = a" and "\<not> mixed_case a"
proof -
  obtain d where d: "convert_bits k 8 5 True = Inr d" and a: "a = HRP @ CHR ''1'' # map letter (0 # d @ bech32_checksum HRP (0 # d))"
    using assms by (auto simp: encode_Inr)
  have "fits 5 d" using convert_pad [of 8 k 5] d by auto
  then have "list_all (\<lambda>v. v < 32) (0 # d @ bech32_checksum HRP (0 # d))" using checksum_small(1) by (simp add: fits_5)
  then have "list_all (\<lambda>c. \<not> is_upper c) (map letter (0 # d @ bech32_checksum HRP (0 # d)))"
    using not_upper(1) charset_facts(2) by (auto simp: list_all_iff word_less_nat_alt)
  then have "list_all (\<lambda>c. \<not> is_upper c) a" unfolding a using not_upper(2,3) by (simp del: list.map)
  then show "map to_lower a = a" "\<not> mixed_case a"
    by (auto simp: list_all_iff to_lower_def mixed_case_def list_ex_iff intro: map_idI)
qed

lemma decode_encode: "encode_testnet_address C k = Inr a \<Longrightarrow> decode_testnet_address C a = Inr k"
  using encode_lower [of C k a] by (simp add: decode_iff)

subsection \<open>A wrong character is noticed\<close>

lemma decode_values:
  assumes "decode_testnet_address C a = Inr k"
  obtains vs where "map to_lower a = HRP @ CHR ''1'' # map letter vs" "list_all (\<lambda>v. v < 32) vs"
    "polymod_from (polymod (hrp_expand HRP)) vs = 1"
proof -
  obtain d cs where n: "map to_lower a = HRP @ CHR ''1'' # map letter (0 # d @ cs)"
    and small: "list_all (\<lambda>v. v < 32) (0 # d @ cs)" and p: "polymod (hrp_expand HRP @ 0 # d @ cs) = 1"
    using assms unfolding decode_Inr by (elim conjE exE)
  have "polymod_from (polymod (hrp_expand HRP)) (0 # d @ cs) = 1" using p by (simp add: polymod_def)
  with n small that show thesis by blast
qed

lemma one_error_detected:
  assumes "decode_testnet_address C a = Inr k" and "decode_testnet_address C (a[i := c]) = Inr k'" and "i < length a"
  shows "to_lower c = to_lower (a ! i)"
proof -
  obtain vs where n: "map to_lower a = HRP @ CHR ''1'' # map letter vs" and vs: "list_all (\<lambda>v. v < 32) vs"
    and p: "polymod_from (polymod (hrp_expand HRP)) vs = 1" by (rule decode_values [OF assms(1)])
  obtain ws where m: "map to_lower (a[i := c]) = HRP @ CHR ''1'' # map letter ws" and ws: "list_all (\<lambda>v. v < 32) ws"
    and q: "polymod_from (polymod (hrp_expand HRP)) ws = 1" by (rule decode_values [OF assms(2)])
  have len: "length a = length vs + 5" "length ws = length vs"
    using arg_cong [OF n, of length] arg_cong [OF m, of length] by (simp_all add: charset_facts(5))
  have at: "map to_lower a ! j = (if j < 4 then HRP ! j else if j = 4 then CHR ''1'' else letter (vs ! (j - 5)))"
    "map to_lower (a[i := c]) ! j = (if j < 4 then HRP ! j else if j = 4 then CHR ''1'' else letter (ws ! (j - 5)))"
    if "j < length a" for j
    using that len unfolding n m by (auto simp: nth_append charset_facts(5) nth_Cons')
  show ?thesis
  proof (cases "i < 5")
    case True
    then show ?thesis using at [of i] assms(3) by (auto split: if_splits)
  next
    case False
    define j where "j = i - 5"
    have j: "j < length vs" "i = j + 5" using False assms(3) len by (simp_all add: j_def)
    have other: "ws ! l = vs ! l" if "l < length vs" "l \<noteq> j" for l
    proof -
      have "letter (ws ! l) = letter (vs ! l)" using at [of "l + 5"] that len j(2) by simp
      then show ?thesis using vs ws that(1) len(2) by (intro letter_inj) (simp_all add: list_all_length)
    qed
    have "ws = vs[j := ws ! j]"
    proof (rule nth_equalityI)
      show "ws ! l = vs[j := ws ! j] ! l" if "l < length ws" for l
        using that other [of l] len(2) by (cases "l = j") simp_all
    qed (use len in simp)
    then have "polymod_from (polymod (hrp_expand HRP)) vs = polymod_from (polymod (hrp_expand HRP)) (vs[j := ws ! j])"
      using p q by simp
    then have "vs ! j = ws ! j" by (rule one_value_changed [OF j(1)])
    then show ?thesis using at [of i] assms(3) j(2) by simp
  qed
qed

end
