(* ===== verification/NetFrame.thy ===== *)
theory NetFrame
  imports HashHex
begin

section \<open>Message frames and the socket loops (net.cpp)\<close>

text \<open>
  The frame of a P2P message, and the loops that push a frame through a socket and collect one
  from it. A socket is what the system calls answer: the list of results \<^verbatim>\<open>recv\<close> and \<^verbatim>\<open>send\<close> will
  give, in order (a part of the bytes, an interrupted call, a failure; the end of the list of
  \<^verbatim>\<open>recv\<close> is the peer closing), and the bytes the system has taken for sending.

  The lemmas show that the frame format is canonical, and that a frame arrives whole however the
  two systems cut it.
\<close>

record p2p_message =
  pm_command :: string
  pm_payload :: bytes

definition MESSAGE_HEADER_SIZE :: nat where "MESSAGE_HEADER_SIZE = 24"

definition COMMAND_SIZE :: nat where "COMMAND_SIZE = 12"

definition MAX_P2P_PAYLOAD :: nat where "MAX_P2P_PAYLOAD = 16 * 1024 * 1024"

definition TESTNET_MESSAGE_START :: bytes where "TESTNET_MESSAGE_START = string_bytes ''TBIT''"

subsection \<open>Frames\<close>

definition payload_checksum :: "crypto \<Rightarrow> bytes \<Rightarrow> bytes res" where
  "payload_checksum C payload = bindE (sha256d C payload) (\<lambda>digest. Inr (take 4 digest))"

definition command_byte :: "u8 \<Rightarrow> bool" where
  "command_byte b \<longleftrightarrow> 0x20 \<le> b \<and> b \<le> 0x7e"

definition validate_command :: "string \<Rightarrow> unit res" where
  "validate_command command =
     (if command = [] \<or> length command > COMMAND_SIZE
      then Inl (InvalidArgument ''P2P command length is invalid'')
      else if \<not> list_all (\<lambda>c. command_byte (byte_of_char c)) command
      then Inl (InvalidArgument ''P2P command contains invalid character'')
      else Inr ())"

definition encode_p2p_frame :: "crypto \<Rightarrow> string \<Rightarrow> bytes \<Rightarrow> bytes res" where
  "encode_p2p_frame C command payload =
     bindE (validate_command command) (\<lambda>_.
     if length payload > MAX_P2P_PAYLOAD then Inl (RuntimeError ''P2P payload exceeds limit'')
     else let frame = TESTNET_MESSAGE_START;
              frame = frame @ map (\<lambda>index. if index < length command then byte_of_char (command ! index) else 0)
                [0..<COMMAND_SIZE];
              frame = append_u32_le frame (word_of_nat (length payload)) in
       bindE (payload_checksum C payload) (\<lambda>checksum. Inr (frame @ checksum @ payload)))"

text \<open>The loop over the command field, also in \<^verbatim>\<open>receive_message\<close>.\<close>

fun parse_command :: "bytes \<Rightarrow> bool \<Rightarrow> string \<Rightarrow> string res" where
  "parse_command [] padding_started command = Inr command"
| "parse_command (byte # field) padding_started command =
     (if byte = 0 then parse_command field True command
      else if padding_started \<or> \<not> command_byte byte
      then Inl (RuntimeError ''Peer sent malformed command field'')
      else parse_command field False (command @ [char_of_byte byte]))"

text \<open>The checks on the 24 header bytes, the same in both places: the payload length and the
  offset behind it.\<close>

definition parse_frame_header :: "bytes \<Rightarrow> (string \<times> nat \<times> nat) res" where
  "parse_frame_header header =
     (if take 4 header \<noteq> TESTNET_MESSAGE_START
      then Inl (RuntimeError ''Peer sent incorrect network message start; expected TBIT'')
      else bindE (parse_command (take COMMAND_SIZE (drop 4 header)) False []) (\<lambda>command.
        bindE (validate_command command) (\<lambda>_.
        bindE (read_u32_le header 16) (\<lambda>(payload_length, offset).
          if unat payload_length > MAX_P2P_PAYLOAD
          then Inl (RuntimeError ''Peer payload exceeds limit'')
          else Inr (command, unat payload_length, offset)))))"

definition decode_p2p_frame :: "crypto \<Rightarrow> bytes \<Rightarrow> p2p_message res" where
  "decode_p2p_frame C frame =
     (if length frame < MESSAGE_HEADER_SIZE then Inl (RuntimeError ''Truncated P2P message header'')
      else let header = take MESSAGE_HEADER_SIZE frame in
        bindE (parse_frame_header header) (\<lambda>(command, payload_length, offset).
          if length frame \<noteq> MESSAGE_HEADER_SIZE + payload_length
          then Inl (RuntimeError ''P2P frame length does not match header'')
          else bindE (read_bytes 4 header offset) (\<lambda>(expected_checksum, _).
            let payload = drop MESSAGE_HEADER_SIZE frame in
            bindE (payload_checksum C payload) (\<lambda>actual_checksum.
              if actual_checksum \<noteq> expected_checksum
              then Inl (RuntimeError ''P2P payload checksum mismatch'')
              else Inr \<lparr> pm_command = command, pm_payload = payload \<rparr>))))"

definition expect_command :: "p2p_message \<Rightarrow> string \<Rightarrow> unit res" where
  "expect_command message expected =
     (if pm_command message \<noteq> expected
      then Inl (RuntimeError (''Expected P2P command '' @ expected @ '', received '' @ pm_command message))
      else Inr ())"

subsection \<open>Sockets\<close>

datatype 'a call_result = Moved 'a | CallInterrupted | CallFailed string

record socket =
  so_recv :: "bytes call_result list"
  so_send :: "nat call_result list"
  so_sent :: bytes

text \<open>\<open>recv_loop\<close> is \<^verbatim>\<open>receive_exact\<close> with \<open>count\<close> bytes missing; a call that moved no byte is the
  peer's close. A part longer than asked for stays in the socket.\<close>

fun recv_loop :: "nat \<Rightarrow> bytes call_result list \<Rightarrow> bytes \<Rightarrow> bytes res \<times> bytes call_result list" where
  "recv_loop count results received =
     (if count = 0 then (Inr received, results)
      else case results of
        [] \<Rightarrow> (Inl (RuntimeError ''Peer closed connection unexpectedly''), [])
      | CallInterrupted # results \<Rightarrow> recv_loop count results received
      | CallFailed text # results \<Rightarrow> (Inl (RuntimeError (''recv failed: '' @ text)), results)
      | Moved part # results \<Rightarrow>
          if part = [] then (Inl (RuntimeError ''Peer closed connection unexpectedly''), results)
          else if length part \<le> count
          then recv_loop (count - length part) results (received @ part)
          else (Inr (received @ take count part), Moved (drop count part) # results))"

declare recv_loop.simps [simp del]

definition receive_exact :: "nat \<Rightarrow> (socket, bytes) sx" where
  "receive_exact count s =
     (let (r, results) = recv_loop count (so_recv s) [] in (r, s \<lparr> so_recv := results \<rparr>))"

text \<open>\<open>send_loop\<close> is \<^verbatim>\<open>send_all\<close>; once the list of results is used up, the system takes the rest.\<close>

fun send_loop :: "bytes \<Rightarrow> nat call_result list \<Rightarrow> bytes \<Rightarrow> unit res \<times> nat call_result list \<times> bytes" where
  "send_loop bs results sent =
     (if bs = [] then (Inr (), results, sent)
      else case results of
        [] \<Rightarrow> (Inr (), [], sent @ bs)
      | CallInterrupted # results \<Rightarrow> send_loop bs results sent
      | CallFailed text # results \<Rightarrow> (Inl (RuntimeError (''send failed: '' @ text)), results, sent)
      | Moved n # results \<Rightarrow>
          if n = 0 then (Inl (RuntimeError ''Peer closed connection during send''), results, sent)
          else send_loop (drop n bs) results (sent @ take n bs))"

declare send_loop.simps [simp del]

definition send_all :: "bytes \<Rightarrow> (socket, unit) sx" where
  "send_all bs s =
     (let (r, results, sent) = send_loop bs (so_send s) (so_sent s) in
      (r, s \<lparr> so_send := results, so_sent := sent \<rparr>))"

definition send_message :: "crypto \<Rightarrow> string \<Rightarrow> bytes \<Rightarrow> (socket, unit) sx" where
  "send_message C command payload =
     bindS (liftS (encode_p2p_frame C command payload)) send_all"

definition receive_message :: "crypto \<Rightarrow> (socket, p2p_message) sx" where
  "receive_message C =
     bindS (receive_exact MESSAGE_HEADER_SIZE) (\<lambda>header.
     bindS (liftS (parse_frame_header header)) (\<lambda>(command, payload_length, offset).
     bindS (receive_exact payload_length) (\<lambda>payload.
     liftS (decode_p2p_frame C (header @ payload)))))"

subsection \<open>The frame format is canonical\<close>

lemma char_of_byte_inverse: "byte_of_char ` {c. P (byte_of_char c)} = {b. P b}"
  by (auto simp: image_iff) (metis byte_of_char_of_byte)

lemma parse_command_padding: "parse_command (replicate k 0) p c = Inr c"
  by (induction k arbitrary: p) auto

lemma byte_of_char_0: "command_byte (byte_of_char c) \<Longrightarrow> byte_of_char c \<noteq> 0"
  by (auto simp: command_byte_def word_le_nat_alt)

lemma parse_command_field:
  "list_all (\<lambda>c. command_byte (byte_of_char c)) s \<Longrightarrow>
     parse_command (string_bytes s @ replicate k 0) False c = Inr (c @ s)"
  by (induction s arbitrary: c) (auto simp: string_bytes_def parse_command_padding dest: byte_of_char_0)

lemma parse_command_padded: "parse_command field True c = Inr d \<Longrightarrow> d = c \<and> field = replicate (length field) 0"
  by (induction field arbitrary: c) (auto split: if_splits)

lemma parse_command_sound:
  "parse_command field False c = Inr d \<Longrightarrow>
     \<exists>s k. d = c @ s \<and> field = string_bytes s @ replicate k 0 \<and> list_all (\<lambda>c. command_byte (byte_of_char c)) s"
proof (induction field arbitrary: c)
  case Nil
  then show ?case by (intro exI [of _ "[]"] exI [of _ 0]) (simp add: string_bytes_def)
next
  case (Cons b field)
  show ?case
  proof (cases "b = 0")
    case True
    with Cons.prems parse_command_padded [of field c d] have "d = c" "field = replicate (length field) 0" by auto
    then show ?thesis
      using True by (intro exI [of _ "[]"] exI [of _ "Suc (length field)"]) (simp add: string_bytes_def)
  next
    case False
    with Cons.prems have b: "command_byte b" "parse_command field False (c @ [char_of_byte b]) = Inr d"
      by (auto split: if_splits)
    from Cons.IH [OF b(2)] obtain s k where "d = (c @ [char_of_byte b]) @ s"
      "field = string_bytes s @ replicate k 0" "list_all (\<lambda>c. command_byte (byte_of_char c)) s" by blast
    with b(1) show ?thesis
      by (intro exI [of _ "char_of_byte b # s"] exI [of _ k]) (simp add: string_bytes_def)
  qed
qed

definition command_ok :: "string \<Rightarrow> bool" where
  "command_ok c \<longleftrightarrow> validate_command c = Inr ()"

lemma command_ok_iff:
  "command_ok c \<longleftrightarrow> c \<noteq> [] \<and> length c \<le> 12 \<and> list_all (\<lambda>c. command_byte (byte_of_char c)) c"
  by (auto simp: command_ok_def validate_command_def COMMAND_SIZE_def)

lemma validate_unit: "validate_command c = Inr u \<longleftrightarrow> command_ok c"
  by (simp add: command_ok_def)

definition command_field :: "string \<Rightarrow> bytes" where
  "command_field c = string_bytes c @ replicate (12 - length c) 0"

lemma command_field_map:
  "length c \<le> 12 \<Longrightarrow> map (\<lambda>i. if i < length c then byte_of_char (c ! i) else 0) [0..<COMMAND_SIZE] = command_field c"
  by (rule nth_equalityI) (auto simp: COMMAND_SIZE_def command_field_def string_bytes_def nth_append)

lemma length_command_field: "length c \<le> 12 \<Longrightarrow> length (command_field c) = 12"
  by (simp add: command_field_def)

lemma parse_command_iff:
  assumes "length field = 12"
  shows "parse_command field False [] = Inr c \<and> command_ok c \<longleftrightarrow> command_ok c \<and> field = command_field c"
proof
  assume c: "parse_command field False [] = Inr c \<and> command_ok c"
  then obtain k where f: "field = string_bytes c @ replicate k 0"
    using parse_command_sound [of field "[]" c] by auto
  with assms have "k = 12 - length c" by auto
  with f c show "command_ok c \<and> field = command_field c" by (simp add: command_field_def)
qed (auto simp: command_field_def command_ok_iff parse_command_field)

definition frame_head :: "string \<Rightarrow> nat \<Rightarrow> bytes \<Rightarrow> bytes" where
  "frame_head c n checksum = TESTNET_MESSAGE_START @ command_field c @ append_u32_le [] (word_of_nat n) @ checksum"

lemma length_frame_head:
  "command_ok c \<Longrightarrow> length checksum = 4 \<Longrightarrow> length (frame_head c n checksum) = 24"
  by (simp add: frame_head_def command_ok_iff length_command_field TESTNET_MESSAGE_START_def)

lemma payload_checksum_length: "payload_checksum C p = Inr k \<Longrightarrow> length k = 4"
  by (auto simp: payload_checksum_def dest: sha256d_length)

lemma encode_frame_Inr:
  "encode_p2p_frame C c p = Inr frame \<longleftrightarrow> command_ok c \<and> length p \<le> MAX_P2P_PAYLOAD \<and>
     (\<exists>k. payload_checksum C p = Inr k \<and> frame = frame_head c (length p) k @ p)"
proof (cases "command_ok c")
  case True
  then have v: "validate_command c = Inr ()" by (simp only: command_ok_def)
  from True have m: "length c \<le> 12" by (simp add: command_ok_iff)
  show ?thesis
    unfolding encode_p2p_frame_def v command_field_map [OF m] Let_def frame_head_def
    using True by (auto simp: append_u32_le_eq)
qed (auto simp: encode_p2p_frame_def validate_unit)

lemma drop_append_exact: "length xs = n \<Longrightarrow> drop n (xs @ ys) = ys"
  by simp

lemma parse_frame_header_head:
  assumes "command_ok c" "n \<le> MAX_P2P_PAYLOAD" "length k = 4"
  shows "parse_frame_header (frame_head c n k) = Inr (c, n, 20)"
    and "read_bytes 4 (frame_head c n k) 20 = Inr (k, 24)"
proof -
  have l: "length (command_field c) = 12" and p: "parse_command (command_field c) False [] = Inr c"
    using assms(1) parse_command_iff [of "command_field c" c]
    by (auto simp: length_command_field command_ok_iff)
  have t: "take 4 (frame_head c n k) = TESTNET_MESSAGE_START"
    and d: "take COMMAND_SIZE (drop 4 (frame_head c n k)) = command_field c"
    using l by (simp_all add: frame_head_def TESTNET_MESSAGE_START_def COMMAND_SIZE_def)
  have "read_u32_le ((TESTNET_MESSAGE_START @ command_field c) @ append_u32_le [] (word_of_nat n) @ k)
      (length (TESTNET_MESSAGE_START @ command_field c)) =
      Inr (word_of_nat n, length (TESTNET_MESSAGE_START @ command_field c) + length (append_u32_le [] (word_of_nat n)))"
    by (rule readsD [OF u32c.dec_enc [OF TrueI]])
  then have r: "read_u32_le (frame_head c n k) 16 = Inr (word_of_nat n, 20)"
    using l by (simp add: frame_head_def TESTNET_MESSAGE_START_def)
  have u: "unat (word_of_nat n :: u32) = n"
    using assms(2) by (simp add: unat_of_nat MAX_P2P_PAYLOAD_def)
  show "parse_frame_header (frame_head c n k) = Inr (c, n, 20)"
    using assms(1,2) by (simp add: parse_frame_header_def t d p r u command_ok_def)
  show "read_bytes 4 (frame_head c n k) 20 = Inr (k, 24)"
    using assms(3) l by (simp add: read_bytes_def require_available_def frame_head_def TESTNET_MESSAGE_START_def)
qed

lemma parse_frame_header_sound:
  assumes "length header = 24" "parse_frame_header header = Inr (c, n, offset)"
  shows "command_ok c \<and> n \<le> MAX_P2P_PAYLOAD \<and> offset = 20 \<and> header = frame_head c n (drop 20 header)"
proof -
  let ?f = "take 12 (drop 4 header)"
  from assms obtain w where t: "take 4 header = TESTNET_MESSAGE_START"
    and c: "parse_command ?f False [] = Inr c" "command_ok c"
    and r: "read_u32_le header 16 = Inr (w, offset)" and n: "unat w \<le> MAX_P2P_PAYLOAD" "n = unat w"
    by (auto simp: parse_frame_header_def COMMAND_SIZE_def validate_unit split: if_splits)
  have f: "?f = command_field c"
    using c parse_command_iff [of ?f c] assms(1) by simp
  from r have o: "offset = 20" and w: "w = le_word (take 4 (drop 16 header))"
    by (auto simp: read_u32_le_Inr)
  have "append_u32_le [] w = take 4 (drop 16 header)"
    using assms(1) unfolding w append_u32_le_eq by (simp add: le_bytes_word_n)
  moreover have "header = take 4 header @ ?f @ take 4 (drop 16 header) @ drop 20 header"
  proof -
    have "drop 4 header = ?f @ drop 16 header"
      using append_take_drop_id [of 12 "drop 4 header"] by simp
    moreover have "drop 16 header = take 4 (drop 16 header) @ drop 20 header"
      using append_take_drop_id [of 4 "drop 16 header"] by simp
    ultimately show ?thesis
      using append_take_drop_id [of 4 header] by metis
  qed
  ultimately show ?thesis
    using t f c(2) n o by (simp add: frame_head_def)
qed

lemma decode_frame_Inr:
  "decode_p2p_frame C frame = Inr m \<longleftrightarrow> encode_p2p_frame C (pm_command m) (pm_payload m) = Inr frame"
proof
  assume d: "decode_p2p_frame C frame = Inr m"
  let ?h = "take 24 frame"
  from d obtain c n off k where len: "24 \<le> length frame" and p: "parse_frame_header ?h = Inr (c, n, off)"
    and n: "length frame = 24 + n" and k: "read_bytes 4 ?h off = Inr k"
    and s: "payload_checksum C (drop 24 frame) = Inr (fst k)"
    and m: "m = \<lparr> pm_command = c, pm_payload = drop 24 frame \<rparr>"
    by (auto simp: decode_p2p_frame_def MESSAGE_HEADER_SIZE_def Let_def not_less split: if_splits)
  from len p have h: "command_ok c" "n \<le> MAX_P2P_PAYLOAD" "off = 20" "?h = frame_head c n (drop 20 ?h)"
    using parse_frame_header_sound [of ?h c n off] by auto
  have "fst k = drop 20 ?h"
    using k h(3) len by (auto simp: read_bytes_def)
  with s h(4) have "frame = frame_head c n (fst k) @ drop 24 frame" by (metis append_take_drop_id)
  then show "encode_p2p_frame C (pm_command m) (pm_payload m) = Inr frame"
    unfolding encode_frame_Inr m using h(1,2) n s by auto
next
  assume "encode_p2p_frame C (pm_command m) (pm_payload m) = Inr frame"
  then obtain k where c: "command_ok (pm_command m)" and n: "length (pm_payload m) \<le> MAX_P2P_PAYLOAD"
    and k: "payload_checksum C (pm_payload m) = Inr k" and f: "frame = frame_head (pm_command m) (length (pm_payload m)) k @ pm_payload m"
    by (auto simp: encode_frame_Inr)
  have l: "length k = 4" using k by (rule payload_checksum_length)
  have h: "length (frame_head (pm_command m) (length (pm_payload m)) k) = 24"
    by (rule length_frame_head [OF c l])
  then have t: "take 24 frame = frame_head (pm_command m) (length (pm_payload m)) k" "drop 24 frame = pm_payload m"
    by (simp_all add: f)
  show "decode_p2p_frame C frame = Inr m"
    using h unfolding decode_p2p_frame_def MESSAGE_HEADER_SIZE_def Let_def t
    by (simp add: parse_frame_header_head [OF c n l] k f)
qed

subsection \<open>Fragments\<close>

text \<open>The bytes a socket still holds; an unfailing peer's answers are parts and interruptions.\<close>

fun arriving :: "bytes call_result list \<Rightarrow> bytes" where
  "arriving [] = []"
| "arriving (Moved part # results) = part @ arriving results"
| "arriving (_ # results) = arriving results"

fun flowing :: "'a call_result list \<Rightarrow> bool" where
  "flowing [] = True"
| "flowing (CallFailed _ # results) = False"
| "flowing (_ # results) = flowing results"

definition nonempty_parts :: "bytes call_result list \<Rightarrow> bool" where
  "nonempty_parts results \<longleftrightarrow> Moved [] \<notin> set results"

lemma recv_loop_flows:
  "flowing results \<Longrightarrow> nonempty_parts results \<Longrightarrow> count \<le> length (arriving results) \<Longrightarrow>
     \<exists>rest. recv_loop count results received = (Inr (received @ take count (arriving results)), rest) \<and>
       flowing rest \<and> nonempty_parts rest \<and> arriving rest = drop count (arriving results)"
proof (induction results arbitrary: count received)
  case Nil
  then show ?case by (subst recv_loop.simps) simp
next
  case (Cons r results)
  show ?case
  proof (cases "count = 0")
    case True
    then show ?thesis using Cons.prems by (subst recv_loop.simps) simp
  next
    case False
    show ?thesis
    proof (cases r)
      case (Moved part)
      with Cons.prems have part: "part \<noteq> []" "flowing results" "nonempty_parts results"
        by (auto simp: nonempty_parts_def)
      show ?thesis
      proof (cases "length part \<le> count")
        case True
        then have "count - length part \<le> length (arriving results)"
          using Cons.prems(3) by (simp add: Moved)
        from Cons.IH [OF part(2,3) this, of "received @ part"] show ?thesis
          using False True part(1) by (subst recv_loop.simps) (simp add: Moved)
      next
        case less: False
        then have "drop count part \<noteq> []" by simp
        then show ?thesis
          using False less part by (subst recv_loop.simps) (simp add: Moved nonempty_parts_def)
      qed
    next
      case CallInterrupted
      with Cons False show ?thesis
        by (subst recv_loop.simps) (simp add: nonempty_parts_def)
    next
      case (CallFailed why)
      with Cons.prems show ?thesis by simp
    qed
  qed
qed

lemma receive_exact_flows:
  assumes "flowing (so_recv s)" "nonempty_parts (so_recv s)" "arriving (so_recv s) = bs @ rest"
  obtains t where "receive_exact (length bs) s = (Inr bs, t)" "flowing (so_recv t)" "nonempty_parts (so_recv t)"
    "arriving (so_recv t) = rest" "so_send t = so_send s" "so_sent t = so_sent s"
proof -
  from recv_loop_flows [OF assms(1,2), of "length bs" "[]"] assms(3)
  obtain r where r: "recv_loop (length bs) (so_recv s) [] = (Inr bs, r)" "flowing r" "nonempty_parts r" "arriving r = rest"
    by auto
  show thesis
    by (rule that [of "s \<lparr> so_recv := r \<rparr>"]) (simp_all add: receive_exact_def r)
qed

lemma receive_message_flows:
  assumes "flowing (so_recv s)" "nonempty_parts (so_recv s)"
    and "encode_p2p_frame C (pm_command m) (pm_payload m) = Inr frame"
    and "arriving (so_recv s) = frame @ rest"
  shows "\<exists>t. receive_message C s = (Inr m, t) \<and> arriving (so_recv t) = rest \<and> flowing (so_recv t) \<and>
    nonempty_parts (so_recv t) \<and> so_sent t = so_sent s"
proof -
  let ?c = "pm_command m" and ?p = "pm_payload m"
  from assms(3) obtain k where c: "command_ok ?c" and n: "length ?p \<le> MAX_P2P_PAYLOAD"
    and k: "payload_checksum C ?p = Inr k" and f: "frame = frame_head ?c (length ?p) k @ ?p"
    by (auto simp: encode_frame_Inr)
  let ?h = "frame_head ?c (length ?p) k"
  have l: "length ?h = MESSAGE_HEADER_SIZE"
    using length_frame_head [OF c payload_checksum_length [OF k]] by (simp add: MESSAGE_HEADER_SIZE_def)
  have ph: "parse_frame_header ?h = Inr (?c, length ?p, 20)"
    by (rule parse_frame_header_head [OF c n payload_checksum_length [OF k]])
  have a: "arriving (so_recv s) = ?h @ ?p @ rest" using assms(4) f by simp
  obtain u where u: "receive_exact (length ?h) s = (Inr ?h, u)" "flowing (so_recv u)" "nonempty_parts (so_recv u)"
    "arriving (so_recv u) = ?p @ rest" "so_sent u = so_sent s"
    by (rule receive_exact_flows [OF assms(1,2) a])
  obtain t where t: "receive_exact (length ?p) u = (Inr ?p, t)" "flowing (so_recv t)" "nonempty_parts (so_recv t)"
    "arriving (so_recv t) = rest" "so_sent t = so_sent u"
    by (rule receive_exact_flows [OF u(2,3,4)])
  have "decode_p2p_frame C (?h @ ?p) = Inr m"
    unfolding decode_frame_Inr using assms(3) f by simp
  then have "receive_message C s = (Inr m, t)"
    using u(1) t(1) by (simp add: receive_message_def l bindS_def liftS_def ph)
  with t u(5) show ?thesis by auto
qed

lemma send_loop_flows:
  "flowing results \<Longrightarrow> Moved 0 \<notin> set results \<Longrightarrow>
     \<exists>rest. send_loop bs results sent = (Inr (), rest, sent @ bs)"
proof (induction results arbitrary: bs sent)
  case Nil
  then show ?case by (subst send_loop.simps) simp
next
  case (Cons r results)
  show ?case
  proof (cases r)
    case (Moved n)
    with Cons.prems have "flowing results" "Moved 0 \<notin> set results" "n \<noteq> 0" by auto
    with Cons.IH [of "drop n bs" "sent @ take n bs"] show ?thesis
      by (subst send_loop.simps) (simp add: Moved)
  next
    case CallInterrupted
    with Cons show ?thesis by (subst send_loop.simps) simp
  next
    case (CallFailed why)
    with Cons.prems show ?thesis by simp
  qed
qed

text \<open>What was sent before an exception is a prefix of the frame: the stream is never reordered.\<close>

lemma send_loop_prefix:
  "send_loop bs results sent = (r, rest, sent') \<Longrightarrow> \<exists>p q. sent' = sent @ p \<and> bs = p @ q \<and> (r = Inr () \<longrightarrow> q = [])"
proof (induction results arbitrary: bs sent)
  case Nil
  then show ?case by (subst (asm) send_loop.simps) (auto split: if_splits)
next
  case (Cons x results)
  show ?case
  proof (cases "bs = []")
    case True
    with Cons.prems show ?thesis by (subst (asm) send_loop.simps) auto
  next
    case False
    show ?thesis
    proof (cases x)
      case (Moved n)
      show ?thesis
      proof (cases "n = 0")
        case True
        with Cons.prems False Moved show ?thesis by (subst (asm) send_loop.simps) auto
      next
        case n: False
        with Cons.prems False Moved have "send_loop (drop n bs) results (sent @ take n bs) = (r, rest, sent')"
          by (subst (asm) send_loop.simps) auto
        from Cons.IH [OF this] obtain p q where "sent' = (sent @ take n bs) @ p" "drop n bs = p @ q" "r = Inr () \<longrightarrow> q = []"
          by blast
        then show ?thesis
          using append_take_drop_id [of n bs] by (intro exI [of _ "take n bs @ p"] exI [of _ q]) simp
      qed
    next
      case CallInterrupted
      with Cons.prems False have "send_loop bs results sent = (r, rest, sent')"
        by (subst (asm) send_loop.simps) auto
      then show ?thesis by (rule Cons.IH)
    next
      case (CallFailed why)
      with Cons.prems False show ?thesis by (subst (asm) send_loop.simps) auto
    qed
  qed
qed

end
