(* ===== verification/Json.thy ===== *)
theory Json
  imports Text StdMap
begin

unbundle bit_operations_syntax

section \<open>JSON values, the parser and the printer (json.hpp, json.cpp)\<close>

text \<open>
  \<open>json\<close> is the variant of \<^verbatim>\<open>class Json\<close>. An \<open>int64_t\<close> is an integer, kept in range by the invariant
  \<open>json_wf\<close>; a \<open>double\<close> is an element of a parameter type, since the floating point type and the library
  functions on it (\<^verbatim>\<open>std::stod\<close>, \<^verbatim>\<open>operator<<\<close>, the casts) are not in the repository: \<open>doubles\<close> holds
  them. An object is a \<^verbatim>\<open>std::map\<close>, so its entries are sorted by key.

  The parser state is the rest of the input behind \<^verbatim>\<open>position_\<close>; \<open>n\<close> is the size of the whole input, and
  an error names the position as \<open>n - length rest\<close>. \<^verbatim>\<open>parse_value\<close>, \<^verbatim>\<open>parse_array\<close> and \<^verbatim>\<open>parse_object\<close>
  call each other; their recursion runs on fuel, and \<open>enough_fuel\<close> shows that the fuel \<open>parse_json\<close> starts
  with, twice the input and one, is never exhausted. The C++ call stack is not modelled.
\<close>

datatype 'd json =
    JNull
  | JBool bool
  | JInt int
  | JDouble 'd
  | JString string
  | JArray "'d json list"
  | JObject "(string \<times> 'd json) list"

record 'd doubles =
  d_stod :: "string \<Rightarrow> ('d \<times> nat) res"
  d_finite :: "'d \<Rightarrow> bool"
  d_show :: "'d \<Rightarrow> string"
  d_of_int :: "int \<Rightarrow> 'd"
  d_to_int :: "'d \<Rightarrow> int"

subsection \<open>Parser: characters\<close>

definition json_error :: "nat \<Rightarrow> string \<Rightarrow> string \<Rightarrow> exn" where
  "json_error n rest message = RuntimeError (message @ '' at JSON byte '' @ show_nat (n - length rest))"

definition is_space :: "char \<Rightarrow> bool" where
  "is_space c \<longleftrightarrow> c = CHR '' '' \<or> c = CHR 0x0A \<or> c = CHR 0x0D \<or> c = CHR 0x09"

definition skip_space :: "string \<Rightarrow> string" where
  "skip_space s = dropWhile is_space s"

definition consume :: "char \<Rightarrow> string \<Rightarrow> string option" where
  "consume expected s =
     (case s of [] \<Rightarrow> None | c # cs \<Rightarrow> if c = expected then Some cs else None)"

definition expect :: "nat \<Rightarrow> char \<Rightarrow> string \<Rightarrow> string res" where
  "expect n expected s =
     (case consume expected s of
        None \<Rightarrow> Inl (json_error n s ''Unexpected JSON character'')
      | Some cs \<Rightarrow> Inr cs)"

definition parse_literal :: "nat \<Rightarrow> string \<Rightarrow> 'd json \<Rightarrow> string \<Rightarrow> ('d json \<times> string) res" where
  "parse_literal n lit v s =
     (if take (length lit) s \<noteq> lit then Inl (json_error n s ''Invalid JSON literal'')
      else Inr (v, drop (length lit) s))"

subsection \<open>Parser: strings\<close>

definition utf8_byte :: "u32 \<Rightarrow> char" where
  "utf8_byte w = char_of_byte (ucast w)"

definition append_utf8 :: "string \<Rightarrow> u32 \<Rightarrow> string res" where
  "append_utf8 out cp =
     (if cp \<le> 0x7f then Inr (out @ [utf8_byte cp])
      else if cp \<le> 0x7ff then
        Inr (out @ [utf8_byte (0xc0 OR drop_bit 6 cp), utf8_byte (0x80 OR (cp AND 0x3f))])
      else if cp \<le> 0xffff then
        Inr (out @ [utf8_byte (0xe0 OR drop_bit 12 cp), utf8_byte (0x80 OR (drop_bit 6 cp AND 0x3f)),
          utf8_byte (0x80 OR (cp AND 0x3f))])
      else if cp \<le> 0x10ffff then
        Inr (out @ [utf8_byte (0xf0 OR drop_bit 18 cp), utf8_byte (0x80 OR (drop_bit 12 cp AND 0x3f)),
          utf8_byte (0x80 OR (drop_bit 6 cp AND 0x3f)), utf8_byte (0x80 OR (cp AND 0x3f))])
      else Inl (RuntimeError ''Invalid Unicode code point in JSON string''))"

fun hex4_loop :: "nat \<Rightarrow> nat \<Rightarrow> string \<Rightarrow> u32 \<Rightarrow> (u32 \<times> string) res" where
  "hex4_loop n 0 s v = Inr (v, s)"
| "hex4_loop n (Suc k) [] v = Inl (json_error n [] ''Invalid JSON Unicode escape'')"
| "hex4_loop n (Suc k) (c # cs) v =
     (let v = push_bit 4 v in
      if CHR ''0'' \<le> c \<and> c \<le> CHR ''9'' then hex4_loop n k cs (v OR of_nat (of_char c - 48))
      else if CHR ''a'' \<le> c \<and> c \<le> CHR ''f'' then hex4_loop n k cs (v OR of_nat (10 + of_char c - 97))
      else if CHR ''A'' \<le> c \<and> c \<le> CHR ''F'' then hex4_loop n k cs (v OR of_nat (10 + of_char c - 65))
      else Inl (json_error n cs ''Invalid JSON Unicode escape''))"

definition parse_hex4 :: "nat \<Rightarrow> string \<Rightarrow> (u32 \<times> string) res" where
  "parse_hex4 n s =
     (if length s < 4 then Inl (json_error n s ''Incomplete JSON Unicode escape'') else hex4_loop n 4 s 0)"

definition simple_escape :: "char \<Rightarrow> char option" where
  "simple_escape e =
     (if e = CHR 0x22 then Some (CHR 0x22)
      else if e = CHR 0x5C then Some (CHR 0x5C)
      else if e = CHR ''/'' then Some (CHR ''/'')
      else if e = CHR ''b'' then Some (CHR 0x08)
      else if e = CHR ''f'' then Some (CHR 0x0C)
      else if e = CHR ''n'' then Some (CHR 0x0A)
      else if e = CHR ''r'' then Some (CHR 0x0D)
      else if e = CHR ''t'' then Some (CHR 0x09)
      else None)"

definition unicode_escape :: "nat \<Rightarrow> string \<Rightarrow> (u32 \<times> string) res" where
  "unicode_escape n s =
     bindE (parse_hex4 n s) (\<lambda>(cp, r).
       if 0xd800 \<le> cp \<and> cp \<le> 0xdbff then
         (if take 2 r \<noteq> [CHR 0x5C, CHR ''u''] then Inl (json_error n r ''Missing low surrogate in JSON string'')
          else bindE (parse_hex4 n (drop 2 r)) (\<lambda>(low, r').
            if low < 0xdc00 \<or> 0xdfff < low then Inl (json_error n r' ''Invalid low surrogate in JSON string'')
            else Inr (0x10000 + push_bit 10 (cp - 0xd800) + (low - 0xdc00), r')))
       else if 0xdc00 \<le> cp \<and> cp \<le> 0xdfff then
         Inl (json_error n r ''Unexpected low surrogate in JSON string'')
       else Inr (cp, r))"

lemma hex4_loop_length: "hex4_loop n k s v = Inr (w, r) \<Longrightarrow> length r \<le> length s"
  by (induction n k s v rule: hex4_loop.induct) (auto simp: Let_def split: if_splits)

lemma unicode_escape_length: "unicode_escape n s = Inr (w, r) \<Longrightarrow> length r \<le> length s"
  by (auto simp: unicode_escape_def parse_hex4_def split: if_splits dest!: hex4_loop_length)

function string_loop :: "nat \<Rightarrow> string \<Rightarrow> string \<Rightarrow> (string \<times> string) res" where
  "string_loop n [] out = Inl (json_error n [] ''Unterminated JSON string'')"
| "string_loop n (c # cs) out =
     (if c = CHR 0x22 then Inr (out, cs)
      else if of_char c < (0x20 :: nat) then Inl (json_error n cs ''Control character in JSON string'')
      else if c \<noteq> CHR 0x5C then string_loop n cs (out @ [c])
      else (case cs of
          [] \<Rightarrow> Inl (json_error n [] ''Incomplete JSON escape'')
        | e # es \<Rightarrow>
            (case simple_escape e of
               Some d \<Rightarrow> string_loop n es (out @ [d])
             | None \<Rightarrow>
                 if e = CHR ''u'' then
                   bindE (unicode_escape n es) (\<lambda>(cp, r). bindE (append_utf8 out cp) (string_loop n r))
                 else Inl (json_error n es ''Invalid JSON escape''))))"
  by pat_completeness auto
termination
  by (relation "measure (\<lambda>(n, s, out). length s)")
     (auto dest!: unicode_escape_length)

definition parse_string :: "nat \<Rightarrow> string \<Rightarrow> (string \<times> string) res" where
  "parse_string n s = bindE (expect n (CHR 0x22) s) (\<lambda>r. string_loop n r [])"

subsection \<open>Parser: numbers\<close>

definition starts_digit :: "string \<Rightarrow> bool" where
  "starts_digit s = (case s of [] \<Rightarrow> False | c # _ \<Rightarrow> is_digit c)"

definition skip_digits :: "string \<Rightarrow> string" where
  "skip_digits s = dropWhile is_digit s"

definition int_part :: "nat \<Rightarrow> string \<Rightarrow> string res" where
  "int_part n s =
     (case consume (CHR ''0'') s of
        Some r \<Rightarrow> if starts_digit r then Inl (json_error n r ''Leading zero in JSON number'') else Inr r
      | None \<Rightarrow> if \<not> starts_digit s then Inl (json_error n s ''Invalid JSON number'') else Inr (skip_digits s))"

definition fraction_part :: "nat \<Rightarrow> string \<Rightarrow> (bool \<times> string) res" where
  "fraction_part n s =
     (case consume (CHR ''.'') s of
        Some r \<Rightarrow> if \<not> starts_digit r then Inl (json_error n r ''Invalid JSON fraction'') else Inr (True, skip_digits r)
      | None \<Rightarrow> Inr (False, s))"

definition skip_sign :: "string \<Rightarrow> string" where
  "skip_sign s = (case s of [] \<Rightarrow> [] | c # cs \<Rightarrow> if c = CHR ''+'' \<or> c = CHR ''-'' then cs else s)"

definition exponent_part :: "nat \<Rightarrow> bool \<Rightarrow> string \<Rightarrow> (bool \<times> string) res" where
  "exponent_part n floating s =
     (case s of
        [] \<Rightarrow> Inr (floating, s)
      | c # cs \<Rightarrow>
          if c = CHR ''e'' \<or> c = CHR ''E'' then
            (let r = skip_sign cs in
             if \<not> starts_digit r then Inl (json_error n r ''Invalid JSON exponent'') else Inr (True, skip_digits r))
          else Inr (floating, s))"

definition scan_number :: "nat \<Rightarrow> string \<Rightarrow> (bool \<times> string) res" where
  "scan_number n s =
     bindE (int_part n (case consume (CHR ''-'') s of Some r \<Rightarrow> r | None \<Rightarrow> s)) (\<lambda>r.
     bindE (fraction_part n r) (\<lambda>(floating, r). exponent_part n floating r))"

abbreviation INT64_MAX :: nat where "INT64_MAX \<equiv> 9223372036854775807"

definition parse_number :: "'d doubles \<Rightarrow> nat \<Rightarrow> string \<Rightarrow> ('d json \<times> string) res" where
  "parse_number D n s =
     bindE (scan_number n s) (\<lambda>(floating, r).
       let token = take (length s - length r) s;
           float = bindE (d_stod D token) (\<lambda>(value, used).
             if used \<noteq> length token \<or> \<not> d_finite D value then Inl (json_error n r ''Invalid JSON number'')
             else Inr (JDouble value, r))
       in if floating then float
          else (case parse_signed INT64_MAX token (RuntimeError []) of
              Inr value \<Rightarrow> Inr (JInt value, r)
            | Inl _ \<Rightarrow> float))"

subsection \<open>Parser: arrays, objects and values\<close>

definition parse_array :: "(string \<Rightarrow> 'd json list \<Rightarrow> ('d json \<times> string) res) \<Rightarrow> nat \<Rightarrow> string \<Rightarrow> ('d json \<times> string) res" where
  "parse_array elements n s =
     bindE (expect n (CHR ''['') s) (\<lambda>r.
       let r = skip_space r in
       case consume (CHR '']'') r of Some r' \<Rightarrow> Inr (JArray [], r') | None \<Rightarrow> elements r [])"

definition parse_object ::
  "(string \<Rightarrow> (string \<times> 'd json) list \<Rightarrow> ('d json \<times> string) res) \<Rightarrow> nat \<Rightarrow> string \<Rightarrow> ('d json \<times> string) res" where
  "parse_object members n s =
     bindE (expect n (CHR ''{'') s) (\<lambda>r.
       let r = skip_space r in
       case consume (CHR ''}'') r of Some r' \<Rightarrow> Inr (JObject [], r') | None \<Rightarrow> members r [])"

definition value_of ::
  "'d doubles \<Rightarrow> (string \<Rightarrow> 'd json list \<Rightarrow> ('d json \<times> string) res) \<Rightarrow>
    (string \<Rightarrow> (string \<times> 'd json) list \<Rightarrow> ('d json \<times> string) res) \<Rightarrow> nat \<Rightarrow> string \<Rightarrow> ('d json \<times> string) res" where
  "value_of D elements members n s =
     (let s = skip_space s in
      case s of
        [] \<Rightarrow> Inl (json_error n [] ''Unexpected end of JSON input'')
      | c # _ \<Rightarrow>
          if c = CHR ''n'' then parse_literal n ''null'' JNull s
          else if c = CHR ''t'' then parse_literal n ''true'' (JBool True) s
          else if c = CHR ''f'' then parse_literal n ''false'' (JBool False) s
          else if c = CHR 0x22 then bindE (parse_string n s) (\<lambda>(t, r). Inr (JString t, r))
          else if c = CHR ''['' then parse_array elements n s
          else if c = CHR ''{'' then parse_object members n s
          else if c = CHR ''-'' \<or> is_digit c then parse_number D n s
          else Inl (json_error n s ''Invalid JSON value''))"

abbreviation out_of_fuel :: exn where "out_of_fuel \<equiv> LogicError ''JSON recursion''"

fun parse_value :: "'d doubles \<Rightarrow> nat \<Rightarrow> nat \<Rightarrow> string \<Rightarrow> ('d json \<times> string) res"
  and array_loop :: "'d doubles \<Rightarrow> nat \<Rightarrow> nat \<Rightarrow> string \<Rightarrow> 'd json list \<Rightarrow> ('d json \<times> string) res"
  and object_loop :: "'d doubles \<Rightarrow> nat \<Rightarrow> nat \<Rightarrow> string \<Rightarrow> (string \<times> 'd json) list \<Rightarrow> ('d json \<times> string) res" where
  "parse_value D n 0 s = Inl out_of_fuel"
| "parse_value D n (Suc k) s = value_of D (array_loop D n k) (object_loop D n k) n s"
| "array_loop D n 0 s values = Inl out_of_fuel"
| "array_loop D n (Suc k) s values =
     bindE (parse_value D n k s) (\<lambda>(value, r).
       let values = values @ [value]; r = skip_space r in
       case consume (CHR '']'') r of
         Some r' \<Rightarrow> Inr (JArray values, r')
       | None \<Rightarrow> bindE (expect n (CHR '','') r) (\<lambda>r. array_loop D n k (skip_space r) values))"
| "object_loop D n 0 s values = Inl out_of_fuel"
| "object_loop D n (Suc k) s values =
     (let s = skip_space s in
      if s = [] \<or> hd s \<noteq> CHR 0x22 then Inl (json_error n s ''JSON object key must be a string'')
      else bindE (parse_string n s) (\<lambda>(key, r).
        bindE (expect n (CHR '':'') (skip_space r)) (\<lambda>r.
        bindE (parse_value D n k r) (\<lambda>(value, r).
          let values = map_put key value values; r = skip_space r in
          case consume (CHR ''}'') r of
            Some r' \<Rightarrow> Inr (JObject values, r')
          | None \<Rightarrow> bindE (expect n (CHR '','') r) (\<lambda>r. object_loop D n k r values)))))"

definition parse_json :: "'d doubles \<Rightarrow> string \<Rightarrow> 'd json res" where
  "parse_json D s =
     bindE (parse_value D (length s) (2 * length s + 1) (skip_space s)) (\<lambda>(value, r).
       let r = skip_space r in
       if r \<noteq> [] then Inl (json_error (length s) r ''Trailing data after JSON value'') else Inr value)"

subsection \<open>Printer\<close>

definition hex_digit_char :: "nat \<Rightarrow> char" where
  "hex_digit_char d = (if d < 10 then char_of (48 + d) else char_of (87 + d))"

definition escape_char :: "char \<Rightarrow> string" where
  "escape_char c =
     (if c = CHR 0x22 then [CHR 0x5C, CHR 0x22]
      else if c = CHR 0x5C then [CHR 0x5C, CHR 0x5C]
      else if c = CHR 0x08 then [CHR 0x5C, CHR ''b'']
      else if c = CHR 0x0C then [CHR 0x5C, CHR ''f'']
      else if c = CHR 0x0A then [CHR 0x5C, CHR ''n'']
      else if c = CHR 0x0D then [CHR 0x5C, CHR ''r'']
      else if c = CHR 0x09 then [CHR 0x5C, CHR ''t'']
      else if of_char c < (0x20 :: nat) then
        [CHR 0x5C, CHR ''u'', CHR ''0'', CHR ''0'', hex_digit_char (of_char c div 16), hex_digit_char (of_char c mod 16)]
      else [c])"

definition json_escape :: "string \<Rightarrow> string" where
  "json_escape s = concat (map escape_char s)"

definition quoted :: "string \<Rightarrow> string" where
  "quoted s = CHR 0x22 # json_escape s @ [CHR 0x22]"

definition line_break :: "bool \<Rightarrow> nat \<Rightarrow> string" where
  "line_break pretty indent = (if pretty then CHR 0x0A # replicate indent (CHR '' '') else [])"

function dump :: "'d doubles \<Rightarrow> bool \<Rightarrow> nat \<Rightarrow> 'd json \<Rightarrow> string" where
  "dump D p i JNull = ''null''"
| "dump D p i (JBool b) = (if b then ''true'' else ''false'')"
| "dump D p i (JInt v) = show_int v"
| "dump D p i (JDouble v) = d_show D v"
| "dump D p i (JString s) = quoted s"
| "dump D p i (JArray vs) =
     (if vs = [] then ''[]''
      else CHR ''['' # join (CHR '','') (map (\<lambda>v. line_break p (i + 2) @ dump D p (i + 2) v) vs) @
        line_break p i @ '']'')"
| "dump D p i (JObject kvs) =
     (if kvs = [] then ''{}''
      else CHR ''{'' # join (CHR '','') (map (\<lambda>(k, v). line_break p (i + 2) @ quoted k @
          (if p then '': '' else '':'') @ dump D p (i + 2) v) kvs) @
        line_break p i @ ''}'')"
  by pat_completeness auto
termination
proof (relation "measure (\<lambda>(D, p, i, v). size v)", goal_cases)
  case (2 D p i vs v)
  then show ?case by (simp add: less_Suc_eq_le size_list_estimation')
next
  case (3 D p i kvs e k v)
  then have "size_prod (\<lambda>x. 0) size (k, v) \<le> size_list (size_prod (\<lambda>x. 0) size) kvs"
    by (intro size_list_estimation' [of "(k, v)"]) simp_all
  then show ?case by simp
qed simp

subsection \<open>Accessors\<close>

definition json_of_u64 :: "'d doubles \<Rightarrow> u64 \<Rightarrow> 'd json" where
  "json_of_u64 D v = (if unat v > INT64_MAX then JDouble (d_of_int D (uint v)) else JInt (uint v))"

definition as_bool :: "'d json \<Rightarrow> bool res" where
  "as_bool v = (case v of JBool b \<Rightarrow> Inr b | _ \<Rightarrow> Inl (RuntimeError ''JSON value is not a boolean''))"

definition as_integer :: "'d doubles \<Rightarrow> 'd json \<Rightarrow> int res" where
  "as_integer D v =
     (case v of JInt i \<Rightarrow> Inr i | JDouble d \<Rightarrow> Inr (d_to_int D d)
      | _ \<Rightarrow> Inl (RuntimeError ''JSON value is not an integer''))"

definition as_number :: "'d doubles \<Rightarrow> 'd json \<Rightarrow> 'd res" where
  "as_number D v =
     (case v of JInt i \<Rightarrow> Inr (d_of_int D i) | JDouble d \<Rightarrow> Inr d
      | _ \<Rightarrow> Inl (RuntimeError ''JSON value is not a number''))"

definition as_string :: "'d json \<Rightarrow> string res" where
  "as_string v = (case v of JString s \<Rightarrow> Inr s | _ \<Rightarrow> Inl (RuntimeError ''JSON value is not a string''))"

definition as_array :: "'d json \<Rightarrow> 'd json list res" where
  "as_array v = (case v of JArray a \<Rightarrow> Inr a | _ \<Rightarrow> Inl (RuntimeError ''JSON value is not an array''))"

definition as_object :: "'d json \<Rightarrow> (string \<times> 'd json) list res" where
  "as_object v = (case v of JObject m \<Rightarrow> Inr m | _ \<Rightarrow> Inl (RuntimeError ''JSON value is not an object''))"

definition json_at :: "'d json \<Rightarrow> string \<Rightarrow> 'd json res" where
  "json_at v key =
     bindE (as_object v) (\<lambda>m.
       case map_of m key of
         None \<Rightarrow> Inl (RuntimeError (''JSON object does not contain key: '' @ key))
       | Some x \<Rightarrow> Inr x)"

definition is_object :: "'d json \<Rightarrow> bool" where
  "is_object v = (case v of JObject _ \<Rightarrow> True | _ \<Rightarrow> False)"

definition json_contains :: "'d json \<Rightarrow> string \<Rightarrow> bool" where
  "json_contains v key = (case v of JObject m \<Rightarrow> map_contains m key | _ \<Rightarrow> False)"

end
