(* ===== verification/JsonLaws.thy ===== *)
theory JsonLaws
  imports Json
begin

section \<open>What the JSON parser and printer guarantee\<close>

text \<open>
  \<open>json_wf P v\<close>: the integers of \<open>v\<close> are in the range of \<^verbatim>\<open>int64_t\<close>, its objects are sorted maps and its
  doubles satisfy \<open>P\<close>. Three results: the fuel of the parser is enough (\<open>enough_fuel\<close>); what it accepts is
  well formed with finite doubles (\<open>parse_json_wf\<close>); and the printed text of a well formed value, compact or
  indented, parses to the value a reader receives (\<open>parse_dump\<close>), which is the value itself but for integral doubles.
\<close>

fun json_wf :: "('d \<Rightarrow> bool) \<Rightarrow> 'd json \<Rightarrow> bool" where
  "json_wf P (JInt i) \<longleftrightarrow> - int INT64_MAX - 1 \<le> i \<and> i \<le> int INT64_MAX"
| "json_wf P (JDouble d) \<longleftrightarrow> P d"
| "json_wf P (JArray vs) \<longleftrightarrow> (\<forall>v \<in> set vs. json_wf P v)"
| "json_wf P (JObject kvs) \<longleftrightarrow> sorted_keys kvs \<and> (\<forall>(k, v) \<in> set kvs. json_wf P v)"
| "json_wf P v \<longleftrightarrow> True"

text \<open>A double that prints as a floating literal which reads back to it.\<close>

definition prints_floating :: "'d doubles \<Rightarrow> 'd \<Rightarrow> bool" where
  "prints_floating D d \<longleftrightarrow> scan_number 0 (d_show D d) = Inr (True, []) \<and>
     d_stod D (d_show D d) = Inr (d, length (d_show D d)) \<and> d_finite D d"

text \<open>
  A double that is zero or normal prints, with seventeen digits, as a number literal \<^verbatim>\<open>std::stod\<close> reads back to it
  (\<open>double_literal\<close>), but the literal of an integral one (0, 1, 50) has neither fraction nor exponent, so that the
  reader makes an integer of it: \<open>received\<close>.
\<close>

definition integer_literal :: "'d doubles \<Rightarrow> 'd \<Rightarrow> int option" where
  "integer_literal D d =
     (case scan_number 0 (d_show D d) of
        Inr (False, _) \<Rightarrow> (case parse_signed INT64_MAX (d_show D d) (RuntimeError []) of Inr i \<Rightarrow> Some i | Inl _ \<Rightarrow> None)
      | _ \<Rightarrow> None)"

definition double_literal :: "'d doubles \<Rightarrow> 'd \<Rightarrow> bool" where
  "double_literal D d \<longleftrightarrow> (\<exists>floating. scan_number 0 (d_show D d) = Inr (floating, [])) \<and>
     d_stod D (d_show D d) = Inr (d, length (d_show D d)) \<and> d_finite D d"

fun received :: "'d doubles \<Rightarrow> 'd json \<Rightarrow> 'd json" where
  "received D (JDouble d) = (case integer_literal D d of None \<Rightarrow> JDouble d | Some i \<Rightarrow> JInt i)"
| "received D (JArray vs) = JArray (map (received D) vs)"
| "received D (JObject kvs) = JObject (map (\<lambda>(k, v). (k, received D v)) kvs)"
| "received D v = v"

lemma floating_literal: "prints_floating D d \<Longrightarrow> double_literal D d \<and> integer_literal D d = None"
  by (auto simp: prints_floating_def double_literal_def integer_literal_def)

lemma json_wf_mono: "json_wf P v \<Longrightarrow> (\<And>d. P d \<Longrightarrow> Q d) \<Longrightarrow> json_wf Q v"
  by (induction v) fastforce+

lemma received_same: "json_wf (prints_floating D) v \<Longrightarrow> received D v = v"
  by (induction v) (auto simp: floating_literal intro!: map_idI)

subsection \<open>Every step consumes input\<close>

lemma skip_space_length: "length (skip_space s) \<le> length s"
  by (simp add: skip_space_def length_dropWhile_le)

lemma skip_digits_length: "length (skip_digits s) \<le> length s"
  by (simp add: skip_digits_def length_dropWhile_le)

lemma consume_Some: "consume c s = Some r \<longleftrightarrow> s = c # r"
  by (auto simp: consume_def split: list.splits if_splits)

lemma consume_None: "consume c s = None \<longleftrightarrow> s = [] \<or> hd s \<noteq> c"
  by (auto simp: consume_def split: list.splits if_splits)

lemma expect_Inr [simp]: "expect n c s = Inr r \<longleftrightarrow> s = c # r"
  by (cases s) (auto simp: expect_def consume_def)

lemma consume_simps [simp]:
  "consume c [] = None"
  "consume c (d # cs) = (if d = c then Some cs else None)"
  by (simp_all add: consume_def)

lemma expect_same [simp]: "expect n c (c # cs) = Inr cs"
  by simp

lemma string_loop_length: "string_loop n s out = Inr (t, r) \<Longrightarrow> length r < length s"
  by (induction n s out arbitrary: t r rule: string_loop.induct)
     (force split: if_splits list.splits option.splits dest: unicode_escape_length)+

lemma parse_string_length: "parse_string n s = Inr (t, r) \<Longrightarrow> length r < length s"
  by (auto simp: parse_string_def dest: string_loop_length)

lemma starts_digit_skip: "starts_digit s \<Longrightarrow> length (skip_digits s) < length s"
  by (cases s) (auto simp: starts_digit_def skip_digits_def length_dropWhile_le less_Suc_eq_le)

lemma int_part_length: "int_part n s = Inr r \<Longrightarrow> length r < length s"
  by (auto simp: int_part_def consume_Some starts_digit_skip split: option.splits if_splits)

lemma fraction_part_length: "fraction_part n s = Inr (b, r) \<Longrightarrow> length r \<le> length s"
  using skip_digits_length
  by (auto simp: fraction_part_def consume_Some intro: le_SucI split: option.splits if_splits)

lemma skip_sign_length: "length (skip_sign s) \<le> length s"
  by (auto simp: skip_sign_def split: list.splits)

lemma exponent_part_length: "exponent_part n f s = Inr (b, r) \<Longrightarrow> length r \<le> length s"
  using order_trans [OF skip_digits_length skip_sign_length]
  by (auto simp: exponent_part_def Let_def intro: le_SucI split: list.splits if_splits)

lemma scan_number_length: "scan_number n s = Inr (b, r) \<Longrightarrow> length r < length s"
  by (fastforce simp: scan_number_def consume_Some split: option.splits
      dest!: int_part_length fraction_part_length exponent_part_length)

lemma parse_number_length: "parse_number D n s = Inr (v, r) \<Longrightarrow> length r < length s"
  by (auto simp: parse_number_def Let_def split: if_splits sum.splits dest!: scan_number_length)

lemma parse_literal_Inr: "parse_literal n lit v s = Inr (w, r) \<longleftrightarrow> s = lit @ r \<and> w = v"
  by (auto simp: parse_literal_def) (metis append_take_drop_id)

lemma value_of_cases:
  assumes "value_of D elements members n s = Inr (v, r)"
  obtains (leaf) "length r < length (skip_space s)" "v = JNull \<or> (\<exists>b. v = JBool b) \<or> (\<exists>t. v = JString t)"
    | (number) "parse_number D n (skip_space s) = Inr (v, r)"
    | (array) "parse_array elements n (skip_space s) = Inr (v, r)"
    | (object) "parse_object members n (skip_space s) = Inr (v, r)"
  using assms
  by (auto simp: value_of_def Let_def parse_literal_Inr split: list.splits if_splits dest!: parse_string_length)

lemma choice_Inr:
  "(case consume c s of None \<Rightarrow> b | Some r \<Rightarrow> f r) = Inr y \<longleftrightarrow>
     (\<exists>r. s = c # r \<and> f r = Inr y) \<or> consume c s = None \<and> b = Inr y"
  by (cases s) (auto simp: consume_def)

lemma parse_array_Inr:
  "parse_array E n s = Inr (v, r) \<longleftrightarrow>
     (\<exists>t. s = CHR ''['' # t \<and> (skip_space t = CHR '']'' # r \<and> v = JArray [] \<or>
        consume (CHR '']'') (skip_space t) = None \<and> E (skip_space t) [] = Inr (v, r)))"
  by (auto simp: parse_array_def Let_def choice_Inr)

lemma parse_object_Inr:
  "parse_object M n s = Inr (v, r) \<longleftrightarrow>
     (\<exists>t. s = CHR ''{'' # t \<and> (skip_space t = CHR ''}'' # r \<and> v = JObject [] \<or>
        consume (CHR ''}'') (skip_space t) = None \<and> M (skip_space t) [] = Inr (v, r)))"
  by (auto simp: parse_object_def Let_def choice_Inr)

lemma array_step_Inr:
  "array_loop D n (Suc k) s vs = Inr (v, r) \<longleftrightarrow>
     (\<exists>x t. parse_value D n k s = Inr (x, t) \<and>
       (skip_space t = CHR '']'' # r \<and> v = JArray (vs @ [x]) \<or>
        (\<exists>u. skip_space t = CHR '','' # u \<and> array_loop D n k (skip_space u) (vs @ [x]) = Inr (v, r))))"
  by (auto simp: Let_def choice_Inr consume_None)

lemma object_step_Inr:
  "object_loop D n (Suc k) s vs = Inr (v, r) \<longleftrightarrow>
     (\<exists>key t u x w. skip_space s \<noteq> [] \<and> hd (skip_space s) = CHR 0x22 \<and>
       parse_string n (skip_space s) = Inr (key, t) \<and> skip_space t = CHR '':'' # u \<and>
       parse_value D n k u = Inr (x, w) \<and>
       (skip_space w = CHR ''}'' # r \<and> v = JObject (map_put key x vs) \<or>
        (\<exists>z. skip_space w = CHR '','' # z \<and> object_loop D n k z (map_put key x vs) = Inr (v, r))))"
  by (auto simp: Let_def choice_Inr consume_None)

lemma skip_space_eq: "skip_space s = c # t \<Longrightarrow> length t < length s"
  using skip_space_length [of s] by simp

lemma parse_length_all:
  "(\<forall>s v r. parse_value D n k s = Inr (v, r) \<longrightarrow> length r < length s) \<and>
   (\<forall>s vs v r. array_loop D n k s vs = Inr (v, r) \<longrightarrow> length r < length s) \<and>
   (\<forall>s ms v r. object_loop D n k s ms = Inr (v, r) \<longrightarrow> length r < length s)"
proof (induction k)
  case (Suc k)
  then have value_below: "parse_value D n k s = Inr (v, r) \<Longrightarrow> length r < length s"
    and array_below: "array_loop D n k s vs = Inr (v, r) \<Longrightarrow> length r < length s"
    and object_below: "object_loop D n k s ms = Inr (v, r) \<Longrightarrow> length r < length s" for s v r vs ms
    by blast+
  have "length r < length s" if p: "parse_value D n (Suc k) s = Inr (v, r)" for s v r
  proof -
    note l = skip_space_length [of s]
  have below: "length r < length s" if "skip_space s = c # t" "length r < length (skip_space t)" for c t
    using skip_space_eq [OF that(1)] that(2) skip_space_length [of t] by linarith
  from p show ?thesis unfolding parse_value.simps
  proof (cases rule: value_of_cases)
    case array
    then obtain t where t: "skip_space s = CHR ''['' # t" and "skip_space t = CHR '']'' # r \<or>
        array_loop D n k (skip_space t) [] = Inr (v, r)"
      unfolding parse_array_Inr by blast
    then have "length r < length (skip_space t)" using array_below by auto
    with t show ?thesis by (rule below)
  next
    case object
    then obtain t where t: "skip_space s = CHR ''{'' # t" and "skip_space t = CHR ''}'' # r \<or>
        object_loop D n k (skip_space t) [] = Inr (v, r)"
      unfolding parse_object_Inr by blast
    then have "length r < length (skip_space t)" using object_below by auto
    with t show ?thesis by (rule below)
  qed (use l in \<open>auto dest!: parse_number_length\<close>)
  qed
  moreover have "length r < length s" if p: "array_loop D n (Suc k) s vs = Inr (v, r)" for s vs v r
  proof -
  from p obtain x t where x: "length t < length s" and t: "skip_space t = CHR '']'' # r \<or>
      (\<exists>u. skip_space t = CHR '','' # u \<and> array_loop D n k (skip_space u) (vs @ [x]) = Inr (v, r))"
    unfolding array_step_Inr using value_below by blast
  from t show ?thesis
  proof
    assume "skip_space t = CHR '']'' # r"
    from skip_space_eq [OF this] x show ?thesis by simp
  next
    assume "\<exists>u. skip_space t = CHR '','' # u \<and> array_loop D n k (skip_space u) (vs @ [x]) = Inr (v, r)"
    then obtain u where u: "skip_space t = CHR '','' # u" and "length r < length (skip_space u)"
      using array_below by blast
    with x skip_space_eq [OF u] skip_space_length [of u] show ?thesis by linarith
  qed
  qed
  moreover have "length r < length s" if p: "object_loop D n (Suc k) s ms = Inr (v, r)" for s ms v r
  proof -
  from p obtain key t u x w where t: "parse_string n (skip_space s) = Inr (key, t)" and u: "skip_space t = CHR '':'' # u"
    and x: "parse_value D n k u = Inr (x, w)" and w: "skip_space w = CHR ''}'' # r \<or>
      (\<exists>z. skip_space w = CHR '','' # z \<and> object_loop D n k z (map_put key x ms) = Inr (v, r))"
    unfolding object_step_Inr by blast
  have "length w < length s"
    using parse_string_length [OF t] skip_space_length [of s] skip_space_eq [OF u] value_below [OF x] by linarith
  moreover from w have "length r < length w"
    using object_below skip_space_eq [of w] by (metis less_trans)
  ultimately show ?thesis by linarith
  qed
  ultimately show ?case by blast
qed simp

lemmas parse_length =
  conjunct1 [OF parse_length_all, rule_format]
  conjunct1 [OF conjunct2 [OF parse_length_all], rule_format]
  conjunct2 [OF conjunct2 [OF parse_length_all], rule_format]

subsection \<open>The fuel is enough\<close>

lemma parse_array_cong:
  assumes "\<And>r. length r < length s \<Longrightarrow> E r [] = E' r []"
  shows "parse_array E n s = parse_array E' n s"
proof (cases "expect n (CHR ''['') s")
  case (Inr r)
  then have "length (skip_space r) < length s" using skip_space_length [of r] by simp
  with assms Inr show ?thesis by (simp add: parse_array_def Let_def cong: option.case_cong)
qed (simp add: parse_array_def)

lemma parse_object_cong:
  assumes "\<And>r. length r < length s \<Longrightarrow> M r [] = M' r []"
  shows "parse_object M n s = parse_object M' n s"
proof (cases "expect n (CHR ''{'') s")
  case (Inr r)
  then have "length (skip_space r) < length s" using skip_space_length [of r] by simp
  with assms Inr show ?thesis by (simp add: parse_object_def Let_def cong: option.case_cong)
qed (simp add: parse_object_def)

lemma value_of_cong:
  assumes "\<And>r. length r < length s \<Longrightarrow> E r [] = E' r []" and "\<And>r. length r < length s \<Longrightarrow> M r [] = M' r []"
  shows "value_of D E M n s = value_of D E' M' n s"
proof -
  have "length r < length s" if "length r < length (skip_space s)" for r
    using that skip_space_length [of s] by simp
  then have "parse_array E n (skip_space s) = parse_array E' n (skip_space s)"
    and "parse_object M n (skip_space s) = parse_object M' n (skip_space s)"
    using assms by (auto intro!: parse_array_cong parse_object_cong)
  then show ?thesis by (simp add: value_of_def Let_def split: list.split)
qed

lemma array_step_cong:
  assumes "parse_value D n k s = parse_value D n m s" and "\<And>r vs. length r < length s \<Longrightarrow> array_loop D n k r vs = array_loop D n m r vs"
  shows "array_loop D n (Suc k) s vs = array_loop D n (Suc m) s vs"
proof (cases "parse_value D n m s")
  case (Inr p)
  obtain v t where p: "p = (v, t)" by (cases p)
  have "length (skip_space u) < length s" if "skip_space t = CHR '','' # u" for u
    using parse_length(1) [of D n m s v t] Inr p skip_space_eq [OF that] skip_space_length [of u] by simp
  with assms Inr p show ?thesis
    by (cases "expect n (CHR '','') (skip_space t)") (simp_all add: Let_def cong: option.case_cong)
qed (simp add: assms)

lemma object_step_cong:
  assumes "\<And>r. length r < length s \<Longrightarrow> parse_value D n k r = parse_value D n m r"
    and "\<And>r ms. length r < length s \<Longrightarrow> object_loop D n k r ms = object_loop D n m r ms"
  shows "object_loop D n (Suc k) s ms = object_loop D n (Suc m) s ms"
proof (cases "bindE (parse_string n (skip_space s)) (\<lambda>(key, r). bindE (expect n (CHR '':'') (skip_space r)) (\<lambda>u. Inr (key, r, u)))")
  case (Inl e)
  then show ?thesis by (auto simp: Let_def bindE_eq_Inl split: prod.splits)
next
  case (Inr p)
  then obtain key t u where t: "parse_string n (skip_space s) = Inr (key, t)" and u: "skip_space t = CHR '':'' # u"
    by auto
  have l: "length u < length s"
    using parse_string_length [OF t] skip_space_length [of s] skip_space_eq [OF u] by simp
  show ?thesis
  proof (cases "parse_value D n m u")
    case (Inl e)
    with assms(1) [OF l] t u show ?thesis by (simp add: Let_def)
  next
    case (Inr p)
    obtain v w where p: "p = (v, w)" by (cases p)
    have "length z < length s" if "skip_space w = CHR '','' # z" for z
      using parse_length(1) [of D n m u v w] Inr p skip_space_eq [OF that] l by simp
    with assms(1) [OF l] assms(2) t u Inr p show ?thesis
      by (cases "expect n (CHR '','') (skip_space w)")
         (simp_all add: Let_def cong: option.case_cong)
  qed
qed

lemma enough_fuel_all:
  "(\<forall>s. 2 * length s + 1 \<le> k \<longrightarrow> parse_value D n (k + j) s = parse_value D n k s) \<and>
   (\<forall>s vs. 2 * length s + 2 \<le> k \<longrightarrow> array_loop D n (k + j) s vs = array_loop D n k s vs) \<and>
   (\<forall>s ms. 2 * length s + 2 \<le> k \<longrightarrow> object_loop D n (k + j) s ms = object_loop D n k s ms)"
proof (induction k)
  case (Suc k)
  have "parse_value D n (Suc k + j) s = parse_value D n (Suc k) s" if "2 * length s + 1 \<le> Suc k" for s
    using that Suc.IH by (auto intro!: value_of_cong)
  moreover have "array_loop D n (Suc (k + j)) s vs = array_loop D n (Suc k) s vs" if "2 * length s + 2 \<le> Suc k" for s vs
    using that Suc.IH by (intro array_step_cong) auto
  moreover have "object_loop D n (Suc (k + j)) s ms = object_loop D n (Suc k) s ms" if "2 * length s + 2 \<le> Suc k" for s ms
    using that Suc.IH by (intro object_step_cong) auto
  ultimately show ?case by simp
qed simp

lemma enough_fuel: "2 * length s + 1 \<le> k \<Longrightarrow> parse_value D n (k + j) s = parse_value D n k s"
  using enough_fuel_all [of k D n j] by blast

subsection \<open>What the parser accepts\<close>

lemma parse_dec_le: "parse_dec m s = Some v \<Longrightarrow> v \<le> m"
  by (simp add: parse_dec_Some)

lemma parse_signed_range: "parse_signed m s e = Inr i \<Longrightarrow> - int m - 1 \<le> i \<and> i \<le> int m"
  by (auto simp: parse_signed_def split: list.splits if_splits option.splits dest!: parse_dec_le)

lemma parse_number_wf: "parse_number D n s = Inr (v, r) \<Longrightarrow> json_wf (d_finite D) v"
  by (auto simp: parse_number_def Let_def split: if_splits sum.splits dest!: parse_signed_range)

lemma put_values: "(j, v) \<in> set (map_put k x m) \<Longrightarrow> (j, v) \<in> set m \<or> v = x"
  by (induction m) (auto split: if_splits)

lemma parse_wf_all:
  "(\<forall>s v r. parse_value D n k s = Inr (v, r) \<longrightarrow> json_wf (d_finite D) v) \<and>
   (\<forall>s vs v r. array_loop D n k s vs = Inr (v, r) \<longrightarrow> json_wf (d_finite D) (JArray vs) \<longrightarrow> json_wf (d_finite D) v) \<and>
   (\<forall>s ms v r. object_loop D n k s ms = Inr (v, r) \<longrightarrow> json_wf (d_finite D) (JObject ms) \<longrightarrow> json_wf (d_finite D) v)"
proof (induction k)
  case (Suc k)
  let ?wf = "json_wf (d_finite D)"
  from Suc have value_wf: "parse_value D n k s = Inr (v, r) \<Longrightarrow> ?wf v"
    and array_wf: "array_loop D n k s vs = Inr (v, r) \<Longrightarrow> ?wf (JArray vs) \<Longrightarrow> ?wf v"
    and object_wf: "object_loop D n k s ms = Inr (v, r) \<Longrightarrow> ?wf (JObject ms) \<Longrightarrow> ?wf v" for s v r vs ms
    by blast+
  have "?wf v" if "parse_value D n (Suc k) s = Inr (v, r)" for s v r
    using that unfolding parse_value.simps
    by (cases rule: value_of_cases)
       (auto simp: parse_array_Inr parse_object_Inr intro: parse_number_wf array_wf object_wf)
  moreover have "?wf v" if "array_loop D n (Suc k) s vs = Inr (v, r)" and vs: "?wf (JArray vs)" for s vs v r
  proof -
    have snoc: "?wf (JArray (vs @ [x]))" if "?wf x" for x using that vs by auto
    from that(1) show ?thesis unfolding array_step_Inr using snoc value_wf array_wf by blast
  qed
  moreover have "?wf v" if "object_loop D n (Suc k) s ms = Inr (v, r)" and ms: "?wf (JObject ms)" for s ms v r
  proof -
    have put: "?wf (JObject (map_put key x ms))" if "?wf x" for key x
      using that ms by (auto dest!: put_values)
    from that(1) show ?thesis unfolding object_step_Inr using put value_wf object_wf by blast
  qed
  ultimately show ?case by blast
qed simp

lemma parse_json_wf: "parse_json D s = Inr v \<Longrightarrow> json_wf (d_finite D) v"
  using parse_wf_all [of D "length s" "2 * length s + 1"]
  by (auto simp: parse_json_def Let_def simp del: parse_value.simps split: if_splits)

end
