(* ===== verification/JsonRound.thy ===== *)
theory JsonRound
  imports JsonLaws
begin

section \<open>Printed JSON reads back\<close>

text \<open>
  \<open>parse_dump\<close>: the text of a value, compact or indented at any depth, is read as the value that \<open>received\<close> says, and
  the parser is left with exactly what followed it. \<open>delimited\<close> says that what follows does not continue a number, which holds for the
  separators the printer writes.
\<close>

subsection \<open>Strings\<close>

lemma digit_zero [simp]: "char_of (48 :: nat) = CHR ''0''"
  by (simp add: char_of_eq_iff)

lemma hex4_digit:
  "d < 16 \<Longrightarrow> hex4_loop n (Suc k) (hex_digit_char d # cs) v = hex4_loop n k cs (push_bit 4 v OR of_nat d)"
  by (cases "d < 10") (auto simp: hex_digit_char_def less_eq_char_def)

lemma nibble_or: "push_bit 4 (of_nat (k div 16)) OR of_nat (k mod 16) = (of_nat k :: u32)"
proof -
  have "push_bit 4 (drop_bit 4 k) OR take_bit 4 k = k"
    by (rule bit_eqI) (auto simp: bit_simps)
  then have "push_bit 4 (k div 16) OR k mod 16 = k" by (simp add: drop_bit_eq_div take_bit_eq_mod)
  then have "(of_nat (push_bit 4 (k div 16) OR k mod 16) :: u32) = of_nat k" by simp
  then show ?thesis by (simp only: of_nat_or_eq of_nat_push_bit)
qed

lemma control_escape:
  assumes "k < 32"
  shows "unicode_escape n (CHR ''0'' # CHR ''0'' # hex_digit_char (k div 16) # hex_digit_char (k mod 16) # r) =
    Inr (of_nat k, r)"
proof -
  have four: "(4 :: nat) = Suc (Suc (Suc (Suc 0)))" by simp
  have z: "CHR ''0'' = hex_digit_char 0" by (simp add: hex_digit_char_def)
  have "hex4_loop n 4 (CHR ''0'' # CHR ''0'' # hex_digit_char (k div 16) # hex_digit_char (k mod 16) # r) 0 =
      Inr (of_nat k, r)"
    using assms unfolding z four by (simp add: hex4_digit nibble_or del: hex4_loop.simps(3))
  moreover have "\<not> 0xd800 \<le> (of_nat k :: u32)" "\<not> 0xdc00 \<le> (of_nat k :: u32)"
    using assms by (simp_all add: word_le_nat_alt unat_of_nat)
  ultimately show ?thesis by (simp add: unicode_escape_def parse_hex4_def del: bindE_eq_Inr)
qed

lemma append_ascii:
  assumes "of_char c < (32 :: nat)"
  shows "append_utf8 out (of_nat (of_char c)) = Inr (out @ [c])"
proof -
  have "(of_nat (of_char c) :: u32) \<le> 0x7f" using assms by (simp add: word_le_nat_alt unat_of_nat)
  moreover have "utf8_byte (of_nat (of_char c)) = c"
    using assms by (simp add: utf8_byte_def char_of_byte_def unat_of_nat unsigned_ucast_eq take_bit_eq_mod)
  ultimately show ?thesis by (simp add: append_utf8_def)
qed

lemma escape_char_form:
  "(\<exists>e. escape_char c = [CHR 0x5C, e] \<and> simple_escape e = Some c) \<or>
   of_char c < (32 :: nat) \<and> escape_char c = [CHR 0x5C, CHR ''u'', CHR ''0'', CHR ''0'',
     hex_digit_char (of_char c div 16), hex_digit_char (of_char c mod 16)] \<or>
   escape_char c = [c] \<and> c \<noteq> CHR 0x22 \<and> c \<noteq> CHR 0x5C \<and> \<not> of_char c < (32 :: nat)"
  unfolding escape_char_def simple_escape_def by auto

lemma escape_char_cases:
  obtains (short) e where "escape_char c = [CHR 0x5C, e]" "simple_escape e = Some c"
  | (control) "of_char c < (32 :: nat)" "escape_char c = [CHR 0x5C, CHR ''u'', CHR ''0'', CHR ''0'',
        hex_digit_char (of_char c div 16), hex_digit_char (of_char c mod 16)]"
  | (plain) "escape_char c = [c]" "c \<noteq> CHR 0x22" "c \<noteq> CHR 0x5C" "\<not> of_char c < (32 :: nat)"
  using escape_char_form by blast

lemma string_loop_escape: "string_loop n (escape_char c @ r) out = string_loop n r (out @ [c])"
proof (cases c rule: escape_char_cases)
  case control
  then show ?thesis
    using control_escape [OF control(1), of n r] append_ascii [OF control(1), of out] by (simp add: simple_escape_def)
qed simp_all

lemma string_loop_quoted: "string_loop n (json_escape s @ CHR 0x22 # r) out = Inr (out @ s, r)"
  by (induction s arbitrary: out) (simp_all add: json_escape_def string_loop_escape)

lemma parse_quoted [simp]: "parse_string n (quoted s @ r) = Inr (s, r)"
  by (simp add: parse_string_def quoted_def string_loop_quoted)

lemma quoted_head [simp]: "quoted s \<noteq> []" "hd (quoted s) = CHR 0x22" "quoted s @ r = CHR 0x22 # json_escape s @ CHR 0x22 # r"
  by (simp_all add: quoted_def)

subsection \<open>Numbers\<close>

definition delimited :: "string \<Rightarrow> bool" where
  "delimited r \<longleftrightarrow> (case r of [] \<Rightarrow> True | c # _ \<Rightarrow> \<not> is_digit c \<and> c \<noteq> CHR ''.'' \<and> c \<noteq> CHR ''e'' \<and> c \<noteq> CHR ''E'')"

lemma delimited_simps [simp]:
  "delimited []"
  "delimited (c # r) \<longleftrightarrow> \<not> is_digit c \<and> c \<noteq> CHR ''.'' \<and> c \<noteq> CHR ''e'' \<and> c \<noteq> CHR ''E''"
  by (simp_all add: delimited_def)

lemma skip_digits_append: "delimited r \<Longrightarrow> skip_digits (t @ r) = skip_digits t @ r"
  by (induction t) (auto simp: skip_digits_def delimited_def dropWhile_eq_self_iff split: list.splits)

lemma starts_digit_append: "delimited r \<Longrightarrow> starts_digit (t @ r) = starts_digit t"
  by (cases t) (auto simp: starts_digit_def delimited_def split: list.splits)

lemma consume_append: "delimited r \<Longrightarrow> c = CHR ''.'' \<or> is_digit c \<Longrightarrow> consume c (t @ r) = map_option (\<lambda>u. u @ r) (consume c t)"
  by (cases t) (auto simp: delimited_def consume_def split: list.splits)

lemma int_part_append: "delimited r \<Longrightarrow> int_part m t = Inr u \<Longrightarrow> int_part n (t @ r) = Inr (u @ r)"
  by (auto simp: int_part_def consume_append starts_digit_append skip_digits_append is_digit_def
      split: option.splits if_splits)

lemma fraction_part_append: "delimited r \<Longrightarrow> fraction_part m t = Inr (b, u) \<Longrightarrow> fraction_part n (t @ r) = Inr (b, u @ r)"
  by (auto simp: fraction_part_def consume_append starts_digit_append skip_digits_append
      split: option.splits if_splits)

lemma skip_sign_append: "starts_digit (skip_sign t) \<Longrightarrow> skip_sign (t @ r) = skip_sign t @ r"
  by (cases t) (auto simp: skip_sign_def starts_digit_def)

lemma exponent_part_append:
  "delimited r \<Longrightarrow> exponent_part m f t = Inr (b, u) \<Longrightarrow> exponent_part n f (t @ r) = Inr (b, u @ r)"
  by (cases t) (auto simp: exponent_part_def skip_sign_append starts_digit_append skip_digits_append Let_def delimited_def
      split: if_splits list.splits)

lemma scan_number_append:
  assumes "delimited r" and "scan_number m t = Inr (b, u)"
  shows "scan_number n (t @ r) = Inr (b, u @ r)"
proof -
  obtain v f w where v: "int_part m (case consume (CHR ''-'') t of Some r \<Rightarrow> r | None \<Rightarrow> t) = Inr v"
    and w: "fraction_part m v = Inr (f, w)" and u: "exponent_part m f w = Inr (b, u)"
    using assms(2) by (auto simp: scan_number_def)
  have "t \<noteq> []" using v by (auto simp: int_part_def starts_digit_def)
  then have "(case consume (CHR ''-'') (t @ r) of Some r \<Rightarrow> r | None \<Rightarrow> t @ r) =
      (case consume (CHR ''-'') t of Some r \<Rightarrow> r | None \<Rightarrow> t) @ r"
    by (cases t) auto
  with int_part_append [OF assms(1) v] fraction_part_append [OF assms(1) w] exponent_part_append [OF assms(1) u]
  show ?thesis by (simp add: scan_number_def)
qed

lemma show_nat_nonzero_head: "0 < k \<Longrightarrow> hd (show_nat k) \<noteq> CHR ''0''"
proof (induction k rule: show_nat.induct)
  case (1 k)
  show ?case
  proof (cases "k < 10")
    case True
    with 1(2) have "digit_char k \<noteq> CHR ''0''" using digit_value_char [of k] by (metis digit_value_char digit_zero digit_char_def
      add.right_neutral less_numeral_extra(3) zero_less_numeral)
    with True show ?thesis by (simp add: show_nat.simps [of k])
  next
    case False
    with 1 have "hd (show_nat (k div 10)) \<noteq> CHR ''0''" by simp
    with False show ?thesis by (simp add: show_nat.simps [of k])
  qed
qed

lemma int_part_show: "int_part n (show_nat k) = Inr []"
proof (cases "k = 0")
  case True
  then show ?thesis by (simp add: int_part_def show_nat.simps digit_char_def starts_digit_def)
next
  case False
  then obtain c cs where c: "show_nat k = c # cs" "c \<noteq> CHR ''0''"
    using show_nat_nonzero_head [of k] by (cases "show_nat k") auto
  then show ?thesis using show_nat_digits [of k]
    by (simp add: int_part_def starts_digit_def skip_digits_def list_all_iff)
qed

lemma scan_show_int: "scan_number n (show_int i) = Inr (False, [])"
proof -
  have "hd (show_nat k) \<noteq> CHR ''-''" for k
    using show_nat_not [of "CHR ''-''" k] by (cases "show_nat k") auto
  then have "consume (CHR ''-'') (show_nat k) = None" for k by (simp add: consume_None)
  then show ?thesis
    by (simp add: scan_number_def show_int_def int_part_show fraction_part_def exponent_part_def del: bindE_eq_Inr)
qed

lemma parse_show_int:
  assumes "delimited r" and "- int INT64_MAX - 1 \<le> i" and "i \<le> int INT64_MAX"
  shows "parse_number D n (show_int i @ r) = Inr (JInt i, r)"
  using scan_number_append [OF assms(1) scan_show_int] parse_signed_show [OF assms(2,3)]
  by (simp add: parse_number_def)

lemma parse_show_double:
  assumes "delimited r" and "double_literal D d"
  shows "parse_number D n (d_show D d @ r) = Inr (received D (JDouble d), r)"
proof -
  obtain f where f: "scan_number 0 (d_show D d) = Inr (f, [])" using assms(2) by (auto simp: double_literal_def)
  show ?thesis
    using scan_number_append [OF assms(1) f, of n] f assms(2)
    by (cases f) (auto simp: parse_number_def double_literal_def integer_literal_def split: sum.splits)
qed

subsection \<open>Values\<close>

lemma separators [simp]: "\<not> is_digit (CHR '','')" "\<not> is_digit (CHR '']'')" "\<not> is_digit (CHR ''}'')"
  by (simp_all add: is_digit_def less_eq_char_def)

lemma number_head: "scan_number m t = Inr (b, u) \<Longrightarrow> \<exists>c cs. t = c # cs \<and> (c = CHR ''-'' \<or> is_digit c)"
  by (cases t) (auto simp: scan_number_def int_part_def starts_digit_def is_digit_def split: if_splits option.splits)

lemma is_space_not [simp]: "is_digit c \<Longrightarrow> \<not> is_space c" "\<not> is_space (CHR ''-'')" "\<not> is_space (CHR 0x22)"
  "\<not> is_space (CHR '','')" "\<not> is_space (CHR '']'')" "\<not> is_space (CHR ''}'')" "\<not> is_space (CHR '':'')" "\<not> is_space (CHR ''['')"
  "\<not> is_space (CHR ''{'')" "\<not> is_space (CHR ''n'')" "\<not> is_space (CHR ''t'')" "\<not> is_space (CHR ''f'')"
  by (auto simp: is_space_def is_digit_def less_eq_char_def)

lemma skip_space_Nil [simp]: "skip_space [] = []"
  by (simp add: skip_space_def)

lemma skip_space_Cons [simp]: "skip_space (c # cs) = (if is_space c then skip_space cs else c # cs)"
  by (simp add: skip_space_def)

lemma skip_line_break [simp]: "skip_space (line_break p i @ s) = skip_space s"
  by (induction i) (auto simp: line_break_def is_space_def skip_space_def)

lemma value_number:
  assumes "skip_space s = t @ r" and "parse_number D n (t @ r) = Inr (v, r)" and "scan_number 0 t = Inr (b, [])"
  shows "value_of D E M n s = Inr (v, r)"
proof -
  obtain c cs where c: "t = c # cs" and "c = CHR ''-'' \<or> is_digit c" using number_head [OF assms(3)] by blast
  then have "c \<notin> {CHR ''n'', CHR ''t'', CHR ''f'', CHR 0x22, CHR ''['', CHR ''{''}"
    by (auto simp: is_digit_def less_eq_char_def)
  with assms c \<open>c = CHR ''-'' \<or> is_digit c\<close> show ?thesis by (simp add: value_of_def)
qed

lemma dump_first:
  assumes "json_wf (double_literal D) v"
  shows "\<exists>c cs. dump D p i v = c # cs \<and> \<not> is_space c \<and> c \<noteq> CHR '']''"
proof -
  have number: "\<exists>c cs. t = c # cs \<and> \<not> is_space c \<and> c \<noteq> CHR '']''" if n: "scan_number 0 t = Inr (b, [])" for t b
  proof -
    obtain c cs where c: "t = c # cs" "c = CHR ''-'' \<or> is_digit c" using number_head [OF n] by blast
    then have "\<not> is_space c" "c \<noteq> CHR '']''" by auto
    with c show ?thesis by blast
  qed
  show ?thesis
  proof (cases v)
    case (JInt i)
    then show ?thesis using number [OF scan_show_int [of 0 i]] by simp
  next
    case (JDouble d)
    then show ?thesis using number assms by (auto simp: double_literal_def)
  qed (auto simp: quoted_def)
qed

lemma dump_head:
  assumes "json_wf (double_literal D) v"
  shows "skip_space (dump D p i v @ r) = dump D p i v @ r" and "consume (CHR '']'') (dump D p i v @ r) = None"
  using dump_first [OF assms, of p i] by auto

lemma delimited_after [simp]: "delimited (line_break p i @ CHR '']'' # r)" "delimited (line_break p i @ CHR ''}'' # r)"
    "delimited (CHR '','' # r)"
  by (simp_all add: line_break_def is_digit_def less_eq_char_def)

lemma join_Cons: "join sep (x # xs) = x @ (if xs = [] then [] else sep # join sep xs)"
  by (cases xs) simp_all

lemma array_dump:
  assumes "\<And>v r s k. v \<in> set vs \<Longrightarrow> delimited r \<Longrightarrow> skip_space s = dump D p j v @ r \<Longrightarrow> 2 * length s + 1 \<le> k \<Longrightarrow>
      parse_value D n k s = Inr (received D v, r)"
    and "\<forall>v \<in> set vs. json_wf (double_literal D) v" and "vs \<noteq> []"
    and "skip_space s = skip_space (join (CHR '','') (map (\<lambda>v. line_break p j @ dump D p j v) vs) @ line_break p i @ CHR '']'' # r)"
    and "2 * length s + 2 \<le> k"
  shows "array_loop D n k s acc = Inr (JArray (acc @ map (received D) vs), r)"
  using assms
proof (induction vs arbitrary: s k acc)
  case (Cons v vs)
  obtain m where k: "k = Suc m" using Cons.prems(5) by (cases k) auto
  define more where "more = (if vs = [] then line_break p i @ CHR '']'' # r
      else CHR '','' # join (CHR '','') (map (\<lambda>v. line_break p j @ dump D p j v) vs) @ line_break p i @ CHR '']'' # r)"
  have s: "skip_space s = dump D p j v @ more"
    using Cons.prems(2,4) dump_head(1) [of D v p j more] by (cases "vs = []") (simp_all add: join_Cons more_def)
  have v: "parse_value D n m s = Inr (received D v, more)"
    using Cons.prems(5) k by (intro Cons.prems(1) s) (auto simp: more_def)
  have "length more \<le> length s" using arg_cong [OF s, of length] skip_space_length [of s] by simp
  show ?case
  proof (cases "vs = []")
    case True
    with v k show ?thesis by (simp add: more_def)
  next
    case False
    let ?u = "join (CHR '','') (map (\<lambda>v. line_break p j @ dump D p j v) vs) @ line_break p i @ CHR '']'' # r"
    have "array_loop D n m (skip_space ?u) (acc @ [received D v]) = Inr (JArray ((acc @ [received D v]) @ map (received D) vs), r)"
      using Cons.prems False k \<open>length more \<le> length s\<close> skip_space_length [of ?u]
      by (intro Cons.IH) (auto simp: more_def skip_space_def dropWhile_idem)
    with False v k show ?thesis by (simp add: more_def)
  qed
qed simp

lemma put_last: "(\<And>k'. k' \<in> fst ` set m \<Longrightarrow> k' < k) \<Longrightarrow> map_put k x m = m @ [(k, x)]"
proof (induction m)
  case (Cons e m)
  then have "\<not> k < fst e" "k \<noteq> fst e" "map_put k x m = m @ [(k, x)]" by fastforce+
  then show ?case by (cases e) simp
qed simp

definition member :: "'d doubles \<Rightarrow> bool \<Rightarrow> nat \<Rightarrow> string \<times> 'd json \<Rightarrow> string" where
  "member D p j e = line_break p j @ quoted (fst e) @ (if p then '': '' else '':'') @ dump D p j (snd e)"

lemma skip_member:
  "skip_space (member D p j (key, v) @ r) = quoted key @ CHR '':'' # (if p then '' '' else []) @ dump D p j v @ r"
  by (simp add: member_def)

lemma dump_object:
  "kvs \<noteq> [] \<Longrightarrow> dump D p i (JObject kvs) =
     CHR ''{'' # join (CHR '','') (map (member D p (i + 2)) kvs) @ line_break p i @ ''}''"
proof -
  have "member D p (i + 2) = (\<lambda>(k, v). line_break p (i + 2) @ quoted k @ (if p then '': '' else '':'') @ dump D p (i + 2) v)"
    by (auto simp: member_def fun_eq_iff)
  then show "kvs \<noteq> [] \<Longrightarrow> ?thesis" by simp
qed

lemma sorted_received [simp]:
  "sorted_keys (acc @ map (\<lambda>(k, v). (k, received D v)) kvs) = sorted_keys (acc @ kvs)"
  "sorted_keys (map (\<lambda>(k, v). (k, received D v)) kvs) = sorted_keys kvs"
proof -
  have "map fst (map (\<lambda>(k, v). (k, received D v)) kvs) = map fst kvs" by (induction kvs) auto
  then show "sorted_keys (acc @ map (\<lambda>(k, v). (k, received D v)) kvs) = sorted_keys (acc @ kvs)"
    "sorted_keys (map (\<lambda>(k, v). (k, received D v)) kvs) = sorted_keys kvs"
    by (simp_all only: sorted_keys_def map_append)
qed

lemma object_dump:
  assumes "\<And>k v r s n'. (k, v) \<in> set kvs \<Longrightarrow> delimited r \<Longrightarrow> skip_space s = dump D p j v @ r \<Longrightarrow> 2 * length s + 1 \<le> n' \<Longrightarrow>
      parse_value D n n' s = Inr (received D v, r)"
    and "\<forall>(k, v) \<in> set kvs. json_wf (double_literal D) v" and "kvs \<noteq> []" and "sorted_keys (acc @ kvs)"
    and "skip_space s = skip_space (join (CHR '','') (map (member D p j) kvs) @ line_break p i @ CHR ''}'' # r)"
    and "2 * length s + 2 \<le> k"
  shows "object_loop D n k s acc = Inr (JObject (acc @ map (\<lambda>(k, v). (k, received D v)) kvs), r)"
  using assms
proof (induction kvs arbitrary: s k acc)
  case (Cons e kvs)
  obtain key v where e: "e = (key, v)" by (cases e)
  obtain m where k: "k = Suc m" using Cons.prems(6) by (cases k) auto
  define more where "more = (if kvs = [] then line_break p i @ CHR ''}'' # r
      else CHR '','' # join (CHR '','') (map (member D p j) kvs) @ line_break p i @ CHR ''}'' # r)"
  define u where "u = (if p then '' '' else []) @ dump D p j v @ more"
  have s: "skip_space s = quoted key @ CHR '':'' # u"
    using Cons.prems(5) by (cases "kvs = []") (simp_all add: join_Cons more_def u_def skip_member e del: quoted_head)
  have u: "skip_space u = dump D p j v @ more"
    using Cons.prems(2) dump_head(1) [of D v p j more] by (cases p) (simp_all add: u_def e is_space_def)
  have l: "length u + 2 \<le> length s" "length more \<le> length u"
    using arg_cong [OF s, of length] skip_space_length [of s] by (simp_all add: u_def)
  have v: "parse_value D n m u = Inr (received D v, more)"
    using Cons.prems(6) k l by (intro Cons.prems(1) [of key] u) (auto simp: more_def e)
  have put: "map_put key (received D v) acc = acc @ [(key, received D v)]"
    using Cons.prems(4) by (intro put_last) (auto simp: sorted_keys_def sorted_wrt_append e)
  have str: "parse_string n (skip_space s) = Inr (key, CHR '':'' # u)" "skip_space s \<noteq> []" "hd (skip_space s) = CHR 0x22"
    unfolding s by (simp_all del: quoted_head(3))
  show ?case
  proof (cases "kvs = []")
    case True
    with v k put str show ?thesis by (simp add: more_def e Let_def)
  next
    case False
    let ?u = "join (CHR '','') (map (member D p j) kvs) @ line_break p i @ CHR ''}'' # r"
    have "object_loop D n m ?u (acc @ [(key, received D v)]) =
        Inr (JObject ((acc @ [(key, received D v)]) @ map (\<lambda>(k, v). (k, received D v)) kvs), r)"
    proof (rule Cons.IH)
      show "parse_value D n n' s = Inr (received D v, r)"
        if "(k, v) \<in> set kvs" "delimited r" "skip_space s = dump D p j v @ r" "2 * length s + 1 \<le> n'" for k v r s n'
        using Cons.prems(1) [of k v r s n'] that by simp
      show "sorted_keys ((acc @ [(key, received D v)]) @ kvs)" using Cons.prems(4) by (simp add: e sorted_keys_def)
    qed (use Cons.prems False k l in \<open>auto simp: more_def\<close>)
    with False v k put str show ?thesis by (simp add: more_def e Let_def)
  qed
qed simp

lemma parse_dump:
  assumes "json_wf (double_literal D) v" and "delimited r" and "skip_space s = dump D p i v @ r" and "2 * length s + 1 \<le> k"
  shows "parse_value D n k s = Inr (received D v, r)"
  using assms
proof (induction D p i v arbitrary: r s k rule: dump.induct)
  case (1 D p i)
  then show ?case by (cases k) (simp_all add: value_of_def parse_literal_Inr)
next
  case (2 D p i b)
  then show ?case by (cases k; cases b) (simp_all add: value_of_def parse_literal_Inr)
next
  case (3 D p i v)
  then show ?case by (cases k) (auto intro!: value_number scan_show_int parse_show_int)
next
  case (4 D p i d)
  then show ?case by (cases k) (auto intro!: value_number parse_show_double simp: double_literal_def simp del: received.simps)
next
  case (5 D p i t)
  then have "parse_string n (skip_space s) = Inr (t, r)" by (simp del: quoted_head)
  with 5 show ?case by (cases k) (auto simp: value_of_def)
next
  case (6 D p i vs)
  obtain m where k: "k = Suc m" using 6 by (cases k) auto
  show ?case
  proof (cases "vs = []")
    case True
    with 6 k show ?thesis by (simp add: value_of_def parse_array_Inr)
  next
    case False
    define t where "t = join (CHR '','') (map (\<lambda>v. line_break p (i + 2) @ dump D p (i + 2) v) vs) @ line_break p i @ CHR '']'' # r"
    have s: "skip_space s = CHR ''['' # t" using 6 False by (simp add: t_def)
    have l: "length (skip_space t) < length s"
      using skip_space_eq [OF s] skip_space_length [of t] by simp
    obtain v vs' where vs: "vs = v # vs'" using False by (cases vs) auto
    then have "consume (CHR '']'') (skip_space t) = None"
      using dump_head [of D v p "i + 2"] 6(2) by (simp add: t_def join_Cons)
    moreover have "array_loop D n m (skip_space t) [] = Inr (JArray ([] @ map (received D) vs), r)"
      using 6 False k l by (intro array_dump) (auto simp: t_def skip_space_def dropWhile_idem)
    ultimately show ?thesis using s k by (simp add: value_of_def parse_array_Inr)
  qed
next
  case (7 D p i kvs)
  obtain m where k: "k = Suc m" using 7 by (cases k) auto
  show ?case
  proof (cases "kvs = []")
    case True
    with 7 k show ?thesis by (simp add: value_of_def parse_object_Inr)
  next
    case False
    define t where "t = join (CHR '','') (map (member D p (i + 2)) kvs) @ line_break p i @ CHR ''}'' # r"
    have s: "skip_space s = CHR ''{'' # t" using 7(4) dump_object [OF False, of D p i] by (simp add: t_def del: dump.simps)
    have l: "length (skip_space t) < length s"
      using skip_space_eq [OF s] skip_space_length [of t] by simp
    have "consume (CHR ''}'') (skip_space t) = None"
      using False by (cases kvs) (auto simp: t_def join_Cons skip_member)
    moreover have "object_loop D n m (skip_space t) [] = Inr (JObject ([] @ map (\<lambda>(k, v). (k, received D v)) kvs), r)"
      using 7 False k l by (intro object_dump) (auto simp: t_def skip_space_def dropWhile_idem)
    ultimately show ?thesis using s k by (simp add: value_of_def parse_object_Inr)
  qed
qed

lemma parse_json_received:
  assumes "json_wf (double_literal D) v"
  shows "parse_json D (dump D p i v) = Inr (received D v)"
proof -
  have h: "skip_space (dump D p i v) = dump D p i v" using dump_head(1) [OF assms, of p i "[]"] by simp
  then have "parse_value D (length (dump D p i v)) (2 * length (dump D p i v) + 1) (dump D p i v) = Inr (received D v, [])"
    by (intro parse_dump [OF assms]) simp_all
  then show ?thesis by (simp add: parse_json_def h del: parse_value.simps)
qed

lemma parse_json_dump: "json_wf (prints_floating D) v \<Longrightarrow> parse_json D (dump D p i v) = Inr v"
  using parse_json_received [of D v p i] json_wf_mono [of "prints_floating D" v "double_literal D"] received_same [of D v]
  by (simp add: floating_literal)

end
