(* ===== verification/Http.thy ===== *)
theory Http
  imports NetFrame JsonRound Bech32 Disk
begin

section \<open>HTTP messages and the RPC cookie (rpc.cpp)\<close>

text \<open>
  The text functions of the RPC transport, reading a message from a socket and writing one, and the cookie file.
  A socket is that of \<open>NetFrame\<close>: the results of the coming \<^verbatim>\<open>recv\<close> and \<^verbatim>\<open>send\<close> calls. A result of \<^verbatim>\<open>recv\<close> here
  holds what the call returned, at most the 4096 bytes it asked for.
\<close>

unbundle bit_operations_syntax

definition MAX_RPC_REQUEST :: nat where "MAX_RPC_REQUEST = 1024 * 1024"

subsection \<open>Texts\<close>

definition BASE64 :: string where
  "BASE64 = ''ABCDEFGHIJKLMNOPQRSTUVWXYZabcdefghijklmnopqrstuvwxyz0123456789+/''"

definition base64_char :: "u8 \<Rightarrow> char" where
  "base64_char v = BASE64 ! unat v"

fun base64_bytes :: "bytes \<Rightarrow> string" where
  "base64_bytes (a # b # c # input) =
     base64_char (drop_bit 2 a) # base64_char (push_bit 4 (a AND 0x03) OR drop_bit 4 b) #
     base64_char (push_bit 2 (b AND 0x0f) OR drop_bit 6 c) # base64_char (c AND 0x3f) # base64_bytes input"
| "base64_bytes [a] = [base64_char (drop_bit 2 a), base64_char (push_bit 4 (a AND 0x03)), CHR ''='', CHR ''='']"
| "base64_bytes [a, b] =
     [base64_char (drop_bit 2 a), base64_char (push_bit 4 (a AND 0x03) OR drop_bit 4 b),
      base64_char (push_bit 2 (b AND 0x0f)), CHR ''='']"
| "base64_bytes [] = []"

definition base64_encode :: "string \<Rightarrow> string" where
  "base64_encode input = base64_bytes (string_bytes input)"

definition lower_ascii :: "string \<Rightarrow> string" where
  "lower_ascii value = map to_lower value"

definition is_blank :: "char \<Rightarrow> bool" where
  "is_blank c \<longleftrightarrow> c = CHR '' '' \<or> c = tab"

definition is_trailing :: "char \<Rightarrow> bool" where
  "is_trailing c \<longleftrightarrow> c = CHR 0x0D \<or> c = newline \<or> is_blank c"

definition trim :: "string \<Rightarrow> string" where
  "trim value = dropWhile is_blank (rev (dropWhile is_trailing (rev value)))"

text \<open>\<^verbatim>\<open>find\<close> of a text: the first position where it stands.\<close>

fun find_text :: "string \<Rightarrow> string \<Rightarrow> nat option" where
  "find_text p [] = (if p = [] then Some 0 else None)"
| "find_text p (c # cs) = (if starts_with (c # cs) p then Some 0 else map_option Suc (find_text p cs))"

definition CRLF :: string where "CRLF = [CHR 0x0D, newline]"

subsection \<open>Reading a message\<close>

record http_message =
  hm_start_line :: string
  hm_headers :: "(string \<times> string) list"
  hm_body :: string

text \<open>The first loop: the data read and the position of the empty line in it.\<close>

fun receive_head :: "bytes call_result list \<Rightarrow> string \<Rightarrow> (string \<times> nat) res \<times> bytes call_result list" where
  "receive_head [] data = (Inl (RuntimeError ''RPC connection closed before HTTP headers''), [])"
| "receive_head (CallInterrupted # results) data = receive_head results data"
| "receive_head (CallFailed reason # results) data = (Inl (RuntimeError (''RPC receive failed: '' @ reason)), results)"
| "receive_head (Moved part # results) data =
     (if part = [] then (Inl (RuntimeError ''RPC connection closed before HTTP headers''), results)
      else let data = data @ bytes_string part in
        if length data > MAX_RPC_REQUEST then (Inl (RuntimeError ''RPC request exceeds size limit''), results)
        else case find_text (CRLF @ CRLF) data of
          None \<Rightarrow> receive_head results data
        | Some header_end \<Rightarrow> (Inr (data, header_end), results))"

definition header_line :: "string \<Rightarrow> (string \<times> string) list \<Rightarrow> (string \<times> string) list res" where
  "header_line line headers =
     (let line = trim line in
      if line = [] then Inr headers
      else case find_char (CHR '':'') line of
        None \<Rightarrow> Inl (RuntimeError ''Malformed RPC HTTP header'')
      | Some colon \<Rightarrow>
          Inr (map_put (lower_ascii (trim (take colon line))) (trim (drop (colon + 1) line)) headers))"

definition content_length :: "(string \<times> string) list \<Rightarrow> nat res" where
  "content_length headers =
     (case map_of headers ''content-length'' of
        None \<Rightarrow> Inr 0
      | Some value \<Rightarrow>
          bindE (stoul ''stoull'' value) (\<lambda>(parsed, used).
            if used \<noteq> length value \<or> parsed > MAX_RPC_REQUEST then Inl (RuntimeError ''Invalid RPC Content-Length'')
            else Inr parsed))"

definition parse_head :: "string \<Rightarrow> (http_message \<times> nat) res" where
  "parse_head head =
     (let lines = getlines head;
          start_line = trim (if lines = [] then [] else hd lines) in
      bindE (foldE header_line (tl lines) []) (\<lambda>headers.
      bindE (content_length headers) (\<lambda>n.
        Inr (\<lparr> hm_start_line = start_line, hm_headers = headers, hm_body = [] \<rparr>, n))))"

text \<open>The second loop: until \<open>wanted\<close> bytes are there.\<close>

fun receive_rest :: "nat \<Rightarrow> nat \<Rightarrow> bytes call_result list \<Rightarrow> string \<Rightarrow> string res \<times> bytes call_result list" where
  "receive_rest wanted limit results data =
     (if wanted \<le> length data then (Inr data, results)
      else case results of
        [] \<Rightarrow> (Inl (RuntimeError ''RPC connection closed before HTTP body''), [])
      | CallInterrupted # results \<Rightarrow> receive_rest wanted limit results data
      | CallFailed reason # results \<Rightarrow> (Inl (RuntimeError (''RPC receive failed: '' @ reason)), results)
      | Moved part # results \<Rightarrow>
          if part = [] then (Inl (RuntimeError ''RPC connection closed before HTTP body''), results)
          else let data = data @ bytes_string part in
            if length data > limit then (Inl (RuntimeError ''RPC request exceeds size limit''), results)
            else receive_rest wanted limit results data)"

declare receive_rest.simps [simp del]

definition on_results ::
  "(bytes call_result list \<Rightarrow> 'a res \<times> bytes call_result list) \<Rightarrow> (socket, 'a) sx" where
  "on_results f s = (case f (so_recv s) of (r, results) \<Rightarrow> (r, s \<lparr> so_recv := results \<rparr>))"

definition receive_http :: "(socket, http_message) sx" where
  "receive_http =
     bindS (on_results (\<lambda>results. receive_head results [])) (\<lambda>(data, header_end).
     bindS (liftS (parse_head (take header_end data))) (\<lambda>(message, n).
     let body_begin = header_end + 4 in
     bindS (on_results (\<lambda>results. receive_rest (body_begin + n) (MAX_RPC_REQUEST + header_end + 4) results data)) (\<lambda>data.
       returnS (message \<lparr> hm_body := take n (drop body_begin data) \<rparr>))))"

subsection \<open>Writing a message\<close>

text \<open>The loop of \<^verbatim>\<open>send_all\<close> is that of the peer protocol, with its own two messages.\<close>

definition rpc_send_error :: "exn \<Rightarrow> exn" where
  "rpc_send_error e =
     (if starts_with (exn_what e) ''send failed: '' then RuntimeError (''RPC '' @ exn_what e)
      else RuntimeError ''RPC socket closed while sending'')"

definition rpc_send :: "string \<Rightarrow> (socket, unit) sx" where
  "rpc_send message s =
     (case send_all (string_bytes message) s of (Inl e, s') \<Rightarrow> (Inl (rpc_send_error e), s') | (Inr x, s') \<Rightarrow> (Inr x, s'))"

definition http_response :: "nat \<Rightarrow> string \<Rightarrow> string \<Rightarrow> string" where
  "http_response status reason body =
     ''HTTP/1.1 '' @ show_nat status @ '' '' @ reason @ CRLF @
     ''Content-Type: application/json'' @ CRLF @
     ''Content-Length: '' @ show_nat (length body) @ CRLF @
     ''Connection: close'' @ CRLF @ CRLF @ body"

definition http_request :: "string \<Rightarrow> string \<Rightarrow> string \<Rightarrow> string" where
  "http_request host cookie body =
     ''POST / HTTP/1.1'' @ CRLF @
     ''Host: '' @ host @ CRLF @
     ''Authorization: Basic '' @ base64_encode cookie @ CRLF @
     ''Content-Type: application/json'' @ CRLF @
     ''Content-Length: '' @ show_nat (length body) @ CRLF @
     ''Connection: close'' @ CRLF @ CRLF @ body"

subsection \<open>The cookie file\<close>

text \<open>\<open>draws\<close> are the values of \<^verbatim>\<open>std::random_device\<close>. Writing the cookie is not checked: a failing stream loses it silently.\<close>

definition random_hex :: "u32 list \<Rightarrow> string" where
  "random_hex draws =
     concat (map (\<lambda>value. [hex_digit_char (unat (drop_bit 4 (value AND 0xff) AND 0x0f)),
       hex_digit_char (unat (value AND 0xff AND 0x0f))]) draws)"

definition cookie_path :: string where "cookie_path = ''.cookie''"

definition create_rpc_cookie :: "string \<Rightarrow> u32 list \<Rightarrow> (disk, string) sx" where
  "create_rpc_cookie directory draws =
     (let cookie = ''__cookie__:'' @ random_hex draws in
      bindS (io_call ''create_directories'') (\<lambda>_.
      bindS (tryS (io_call ''open'') (\<lambda>_. throwS (RuntimeError (''Unable to create RPC cookie file: ''
        @ path_join directory cookie_path)))) (\<lambda>_.
      bindS (modifyS (put_file cookie_path [])) (\<lambda>_.
      bindS (tryS (bindS (io_call ''write'') (\<lambda>_. modifyS (put_file cookie_path (string_bytes (cookie @ [newline])))))
        (\<lambda>_. returnS ())) (\<lambda>_.
      bindS (tryS (io_call ''Unable to protect file'') (\<lambda>e. bindS (modifyS (remove_file cookie_path)) (\<lambda>_. throwS e))) (\<lambda>_.
        returnS cookie))))))"

definition cookie_missing :: "string \<Rightarrow> exn" where
  "cookie_missing directory =
     RuntimeError (''Could not read RPC cookie file '' @ path_join directory cookie_path @ ''. Is binarycoind running?'')"

definition read_rpc_cookie :: "string \<Rightarrow> (disk, string) sx" where
  "read_rpc_cookie directory =
     bindS (getS (\<lambda>d. map_of (dk_files d) cookie_path)) (\<lambda>content.
     case content of
       None \<Rightarrow> throwS (cookie_missing directory)
     | Some bs \<Rightarrow>
         bindS (tryS (io_call ''open'') (\<lambda>_. throwS (cookie_missing directory))) (\<lambda>_.
         let lines = getlines (bytes_string bs); cookie = (if lines = [] then [] else hd lines) in
         if cookie = [] then throwS (RuntimeError ''RPC cookie file is empty'') else returnS cookie))"

definition remove_rpc_cookie :: "(disk, unit) sx" where
  "remove_rpc_cookie = modifyS (remove_file cookie_path)"

end
