(* ===== verification/Rpc.thy ===== *)
theory Rpc
  imports Http
begin

section \<open>The RPC server and client (rpc.hpp, rpc.cpp)\<close>

text \<open>
  One client connection of the server, and one call of the client, over a connected socket. The handler is a
  state transformer over the node \<open>'n\<close>. The local variable \<open>id\<close> of \<^verbatim>\<open>handle_client\<close>, which its catch blocks read,
  is a field of the state. A throw out of \<^verbatim>\<open>handle_client\<close> leaves its thread: the program terminates.
\<close>

record 'd rpc_request =
  rq_method :: string
  rq_params :: "'d json list"
  rq_id :: "'d json"

record ('d, 'n) client =
  cl_socket :: socket
  cl_node :: 'n
  cl_id :: "'d json"

type_synonym ('d, 'n) rpc_handler = "'d rpc_request \<Rightarrow> ('n, 'd json) sx"

definition on_socket :: "(socket, 'a) sx \<Rightarrow> (('d, 'n) client, 'a) sx" where
  "on_socket m s = (case m (cl_socket s) of (r, x) \<Rightarrow> (r, s \<lparr> cl_socket := x \<rparr>))"

definition on_node :: "('n, 'a) sx \<Rightarrow> (('d, 'n) client, 'a) sx" where
  "on_node m s = (case m (cl_node s) of (r, n) \<Rightarrow> (r, s \<lparr> cl_node := n \<rparr>))"

text \<open>An initializer list for the map of an object: the first of equal keys stays.\<close>

definition json_object :: "(string \<times> 'd json) list \<Rightarrow> 'd json" where
  "json_object entries = JObject (foldl (\<lambda>m e. map_emplace (fst e) (snd e) m) [] entries)"

definition rpc_error_object :: "u32 \<Rightarrow> string \<Rightarrow> 'd json" where
  "rpc_error_object code message = json_object [(''code'', JInt (sint code)), (''message'', JString message)]"

subsection \<open>The server\<close>

definition basic_auth :: "string \<Rightarrow> string" where
  "basic_auth cookie = ''Basic '' @ base64_encode cookie"

definition result_reply :: "'d doubles \<Rightarrow> 'd json \<Rightarrow> 'd json \<Rightarrow> string" where
  "result_reply D result request_id =
     http_response 200 ''OK'' (dump D False 0 (json_object [(''result'', result), (''error'', JNull), (''id'', request_id)]))"

definition error_reply :: "'d doubles \<Rightarrow> u32 \<Rightarrow> string \<Rightarrow> 'd json \<Rightarrow> string" where
  "error_reply D code message request_id =
     http_response 500 ''Internal Server Error''
       (dump D False 0 (json_object [(''result'', JNull), (''error'', rpc_error_object code message), (''id'', request_id)]))"

text \<open>The checks on a request in their order; \<open>request_id\<close> is what \<open>id\<close> is set to on the way.\<close>

definition request_id :: "'d json \<Rightarrow> 'd json" where
  "request_id v = (if json_contains v ''id'' then (case json_at v ''id'' of Inr v' \<Rightarrow> v' | Inl _ \<Rightarrow> JNull) else JNull)"

definition request_of :: "'d json \<Rightarrow> 'd rpc_request res" where
  "request_of v =
     (case (if json_contains v ''method'' then json_at v ''method'' else Inr JNull) of
        Inr (JString name) \<Rightarrow>
          if json_contains v ''params'' then
            (case json_at v ''params'' of
               Inr (JArray params) \<Rightarrow> Inr \<lparr> rq_method = name, rq_params = params, rq_id = request_id v \<rparr>
             | _ \<Rightarrow> Inl (RpcError (- 32602) ''RPC params must be an array''))
          else Inr \<lparr> rq_method = name, rq_params = [], rq_id = request_id v \<rparr>
      | _ \<Rightarrow> Inl (RpcError (- 32600) ''RPC method must be a string''))"

definition rpc_serve_request :: "'d doubles \<Rightarrow> ('d, 'n) rpc_handler \<Rightarrow> string \<Rightarrow> (('d, 'n) client, unit) sx" where
  "rpc_serve_request D handler body =
     bindS (liftS (parse_json D body)) (\<lambda>v.
     if \<not> is_object v then throwS (RpcError (- 32600) ''Invalid Request'')
     else
       bindS (modifyS (\<lambda>s. s \<lparr> cl_id := request_id v \<rparr>)) (\<lambda>_.
       bindS (liftS (request_of v)) (\<lambda>request.
       bindS (on_node (handler request)) (\<lambda>result.
         on_socket (rpc_send (result_reply D result (request_id v)))))))"

definition serve_client :: "'d doubles \<Rightarrow> string \<Rightarrow> ('d, 'n) rpc_handler \<Rightarrow> (('d, 'n) client, unit) sx" where
  "serve_client D cookie handler =
     bindS (on_socket receive_http) (\<lambda>http.
     if \<not> starts_with (hm_start_line http) ''POST '' then on_socket (rpc_send (http_response 405 ''Method Not Allowed'' ''{}''))
     else if map_of (hm_headers http) ''authorization'' \<noteq> Some (basic_auth cookie)
     then on_socket (rpc_send (http_response 401 ''Unauthorized'' ''{}''))
     else rpc_serve_request D handler (hm_body http))"

definition reply_error :: "'d doubles \<Rightarrow> exn \<Rightarrow> (('d, 'n) client, unit) sx" where
  "reply_error D e =
     bindS (getS cl_id) (\<lambda>request_id.
     case e of
       RpcError code message \<Rightarrow> on_socket (rpc_send (error_reply D code message request_id))
     | _ \<Rightarrow> tryS (on_socket (rpc_send (error_reply D (- 32603) (exn_what e) request_id))) (\<lambda>_. returnS ()))"

definition rpc_handle_client :: "'d doubles \<Rightarrow> string \<Rightarrow> ('d, 'n) rpc_handler \<Rightarrow> (('d, 'n) client, unit) sx" where
  "rpc_handle_client D cookie handler =
     bindS (modifyS (\<lambda>s. s \<lparr> cl_id := JNull \<rparr>)) (\<lambda>_. tryS (serve_client D cookie handler) (reply_error D))"

subsection \<open>The client\<close>

definition call_body :: "'d doubles \<Rightarrow> string \<Rightarrow> 'd json list \<Rightarrow> string" where
  "call_body D name params =
     dump D False 0 (json_object
       [(''jsonrpc'', JString ''1.0''), (''id'', JString ''binarycoin-cli''), (''method'', JString name), (''params'', JArray params)])"

definition error_code :: "'d doubles \<Rightarrow> 'd json \<Rightarrow> u32 res" where
  "error_code D v =
     (if json_contains v ''code''
      then bindE (json_at v ''code'') (\<lambda>c. bindE (as_integer D c) (\<lambda>i. Inr (word_of_int i)))
      else Inr (- 32603))"

definition error_message :: "'d json \<Rightarrow> string res" where
  "error_message v =
     (if json_contains v ''message'' then bindE (json_at v ''message'') as_string else Inr ''Unknown RPC error'')"

definition call_result :: "'d doubles \<Rightarrow> string \<Rightarrow> 'd json res" where
  "call_result D body =
     bindE (parse_json D body) (\<lambda>parsed.
     if \<not> is_object parsed \<or> \<not> json_contains parsed ''result'' \<or> \<not> json_contains parsed ''error''
     then Inl (RuntimeError ''Malformed response from BinaryCoin RPC server'')
     else
       bindE (json_at parsed ''error'') (\<lambda>error.
       if error \<noteq> JNull then
         bindE (error_code D error) (\<lambda>code. bindE (error_message error) (\<lambda>message. Inl (RpcError code message)))
       else json_at parsed ''result''))"

definition rpc_call :: "'d doubles \<Rightarrow> string \<Rightarrow> string \<Rightarrow> string \<Rightarrow> 'd json list \<Rightarrow> (socket, 'd json) sx" where
  "rpc_call D host cookie name params =
     bindS (rpc_send (http_request host cookie (call_body D name params))) (\<lambda>_.
     bindS receive_http (\<lambda>response. liftS (call_result D (hm_body response))))"

subsection \<open>Who reaches the handler\<close>

lemma on_socket_node: "on_socket m s = (r, s') \<Longrightarrow> cl_node s' = cl_node s"
  by (auto simp: on_socket_def split: prod.splits)

lemma serve_client_node:
  assumes "serve_client D cookie handler s = (r, s')" and "cl_node s' \<noteq> cl_node s"
  shows "\<exists>http x. receive_http (cl_socket s) = (Inr http, x) \<and> starts_with (hm_start_line http) ''POST '' \<and>
    map_of (hm_headers http) ''authorization'' = Some (basic_auth cookie)"
proof -
  obtain q t where q: "on_socket receive_http s = (q, t)" by fastforce
  then have n: "cl_node t = cl_node s" by (rule on_socket_node)
  show ?thesis
  proof (cases q)
    case (Inl e)
    then show ?thesis using assms q n by (auto simp: serve_client_def bindS_def)
  next
    case (Inr http)
    then obtain x where "receive_http (cl_socket s) = (Inr http, x)"
      using q by (auto simp: on_socket_def split: prod.splits)
    then show ?thesis using assms q n Inr
      by (auto simp: serve_client_def bindS_def split: if_splits dest: on_socket_node)
  qed
qed

lemma reply_error_node: "reply_error D e s = (r, s') \<Longrightarrow> cl_node s' = cl_node s"
  by (cases e) (auto simp: reply_error_def sx_defs split: prod.splits sum.splits dest!: on_socket_node)

lemma client_node:
  assumes "rpc_handle_client D cookie handler s = (r, s')" and "cl_node s' \<noteq> cl_node s"
  shows "\<exists>http x. receive_http (cl_socket s) = (Inr http, x) \<and> starts_with (hm_start_line http) ''POST '' \<and>
    map_of (hm_headers http) ''authorization'' = Some (basic_auth cookie)"
proof -
  let ?s = "s \<lparr> cl_id := JNull \<rparr>"
  obtain q t where q: "serve_client D cookie handler ?s = (q, t)" by fastforce
  then have "cl_node s' = cl_node t"
    using assms(1) by (auto simp: rpc_handle_client_def sx_defs split: sum.splits dest: reply_error_node)
  then show ?thesis using serve_client_node [OF q] assms(2) by simp
qed

text \<open>An escape from the thread is a failed reply to an RPC error.\<close>

lemma client_escape:
  assumes "rpc_handle_client D cookie handler s = (Inl e, s')"
  shows "\<exists>code message t. serve_client D cookie handler (s \<lparr> cl_id := JNull \<rparr>) = (Inl (RpcError code message), t) \<and>
    fst (rpc_send (error_reply D code message (cl_id t)) (cl_socket t)) = Inl e"
proof -
  obtain x t where x: "serve_client D cookie handler (s \<lparr> cl_id := JNull \<rparr>) = (Inl x, t)" "reply_error D x t = (Inl e, s')"
    using assms by (auto simp: rpc_handle_client_def sx_defs split: sum.splits prod.splits)
  then show ?thesis
    by (cases x) (auto simp: reply_error_def sx_defs on_socket_def split: prod.splits sum.splits)
qed

end
