(* ===== verification/NetCodec.thy ===== *)
theory NetCodec
  imports NetFrame BlockRecord PeerStore
begin

section \<open>The payloads of the messages (net.cpp)\<close>

text \<open>
  Encoders and decoders of every payload: version, inventory, getheaders, headers, addrv2,
  mempool transactions and block responses, and \<open>parse_peer_endpoint\<close>. An encoder may throw, since
  identifiers are texts; a decoder reads the whole payload and throws on trailing bytes. Each pair
  is an instance of \<open>wire_codec\<close>: the decoder inverts the encoder on messages within the limits,
  and accepts nothing but the encoding of such a message.

  \<open>inet_pton\<close> and \<open>inet_ntop\<close> are operations of the system, a record of functions here; \<open>inet_ok\<close>
  states the documented facts: the address lengths, and that printing and parsing are inverse.
\<close>

definition P2P_PROTOCOL_VERSION :: u32 where "P2P_PROTOCOL_VERSION = 5"

definition NODE_NETWORK_SERVICE :: u64 where "NODE_NETWORK_SERVICE = 1"

definition MAX_BLOCKS_PER_RESPONSE :: nat where "MAX_BLOCKS_PER_RESPONSE = 128"

definition MAX_HEADERS_PER_RESPONSE :: nat where "MAX_HEADERS_PER_RESPONSE = 2000"

definition MAX_INVENTORY_ITEMS :: nat where "MAX_INVENTORY_ITEMS = 500"

definition MAX_ADDRV2_ITEMS :: nat where "MAX_ADDRV2_ITEMS = 1000"

text \<open>The check on the offset at the end of a decoder.\<close>

definition whole :: "'a reader \<Rightarrow> string \<Rightarrow> bytes \<Rightarrow> 'a res" where
  "whole m trailing payload =
     bindE (m payload 0) (\<lambda>(x, offset).
       if offset \<noteq> length payload then Inl (RuntimeError trailing) else Inr x)"

text \<open>A size, a check of it against a limit and against the bytes left, and that many bytes.\<close>

definition read_sized_within :: "nat \<Rightarrow> string \<Rightarrow> bytes reader" where
  "read_sized_within limit msg =
     bindR read_compact_size (\<lambda>size input offset.
       if unat size > limit \<or> unat size > length input - offset then Inl (RuntimeError msg)
       else read_bytes (unat size) input offset)"

subsection \<open>version\<close>

record peer_version =
  pv_protocol_version :: u32
  pv_services :: u64
  pv_timestamp :: int
  pv_best_height :: u64
  pv_genesis_hash :: string
  pv_tip_hash :: string
  pv_chainwork :: string
  pv_nonce :: u64
  pv_user_agent :: string

definition serialize_version :: "peer_version \<Rightarrow> bytes res" where
  "serialize_version v =
     (let payload = append_u32_le [] (pv_protocol_version v);
          payload = append_u64_le payload (pv_services v);
          payload = append_i64_le payload (pv_timestamp v);
          payload = append_u64_le payload (pv_best_height v) in
      bindE (display_hex_to_wire_bytes (pv_genesis_hash v)) (\<lambda>genesis.
      bindE (display_hex_to_wire_bytes (pv_tip_hash v)) (\<lambda>tip.
      bindE (display_hex_to_wire_bytes (pv_chainwork v)) (\<lambda>chainwork.
      let payload = append_u64_le (payload @ genesis @ tip @ chainwork) (pv_nonce v);
          payload = append_compact_size payload (word_of_nat (length (pv_user_agent v))) in
      Inr (payload @ string_bytes (pv_user_agent v))))))"

definition read_version :: "peer_version reader" where
  "read_version =
     bindR read_u32_le (\<lambda>protocol_version.
     bindR read_u64_le (\<lambda>services.
     bindR read_i64_le (\<lambda>timestamp.
     bindR read_u64_le (\<lambda>best_height.
     bindR read_display_id (\<lambda>genesis_hash.
     bindR read_display_id (\<lambda>tip_hash.
     bindR read_display_id (\<lambda>chainwork.
     bindR read_u64_le (\<lambda>nonce.
     bindR (read_sized_within 256 ''Peer user agent is too large'') (\<lambda>user_agent.
       returnR \<lparr> pv_protocol_version = protocol_version, pv_services = services,
         pv_timestamp = timestamp, pv_best_height = best_height, pv_genesis_hash = genesis_hash,
         pv_tip_hash = tip_hash, pv_chainwork = chainwork, pv_nonce = nonce,
         pv_user_agent = bytes_string user_agent \<rparr>)))))))))"

definition deserialize_version :: "bytes \<Rightarrow> peer_version res" where
  "deserialize_version payload =
     bindE (whole read_version ''Trailing bytes in version message'' payload) (\<lambda>version.
       if pv_protocol_version version \<noteq> P2P_PROTOCOL_VERSION
       then Inl (RuntimeError ''Unsupported BinaryCoin P2P protocol version'')
       else if pv_genesis_hash version \<noteq> TESTNET_GENESIS_HASH
       then Inl (RuntimeError ''Peer belongs to a different genesis/network'')
       else Inr version)"

subsection \<open>Blocks and transactions\<close>

text \<open>The record of a block inside a response has the fields of a stored block record.\<close>

definition serialize_block_record :: "stored_block \<Rightarrow> bytes res" where
  "serialize_block_record stored =
     (let output = append_u64_le [] (sb_height stored) in
      bindE (serialize_header (b_header (sb_block stored))) (\<lambda>header.
      let output = output @ header;
          txs = b_transactions (sb_block stored) in
      foldE serialize_block_transaction txs (append_compact_size output (word_of_nat (length txs)))))"

definition read_sized_transaction :: "string \<Rightarrow> transaction reader" where
  "read_sized_transaction msg =
     bindR (read_sized_within 4000000 msg) (\<lambda>b. liftR (deserialize_transaction b))"

definition read_block_record :: "stored_block reader" where
  "read_block_record =
     bindR read_u64_le (\<lambda>height.
     bindR read_header_80 (\<lambda>header.
     bindR read_compact_size (\<lambda>transaction_count.
     guardR (unat transaction_count > 100000) (RuntimeError ''Block transaction count exceeds limit'')
    (bindR (read_many (read_sized_transaction ''Transaction payload exceeds limit'') (unat transaction_count)) (\<lambda>txs.
       returnR \<lparr> sb_height = height, sb_block = \<lparr> b_header = header, b_transactions = txs \<rparr> \<rparr>)))))"

definition serialize_transactions :: "transaction list \<Rightarrow> bytes res" where
  "serialize_transactions txs =
     foldE serialize_block_transaction txs (append_compact_size [] (word_of_nat (length txs)))"

definition deserialize_transactions :: "bytes \<Rightarrow> transaction list res" where
  "deserialize_transactions =
     whole (read_list (read_sized_transaction ''Mempool transaction payload exceeds limit'') 100000
         (RuntimeError ''Mempool transaction count exceeds limit''))
       ''Trailing bytes in mempool response''"

definition serialize_block_item :: "stored_block \<Rightarrow> bytes \<Rightarrow> bytes res" where
  "serialize_block_item stored output =
     bindE (serialize_block_record stored) (\<lambda>record.
       Inr (append_compact_size output (word_of_nat (length record)) @ record))"

definition serialize_stored_blocks :: "stored_block list \<Rightarrow> nat \<Rightarrow> nat \<Rightarrow> bytes res" where
  "serialize_stored_blocks blocks begin_index maximum_count =
     (if begin_index > length blocks then Inl (OutOfRange ''Block begin index outside chain'')
      else let count = min maximum_count (length blocks - begin_index);
               output = append_compact_size [] (word_of_nat count) in
        bindE (foldE serialize_block_item (take count (drop begin_index blocks)) output) (\<lambda>output.
          if length output > MAX_P2P_PAYLOAD
          then Inl (RuntimeError ''Block response exceeds P2P payload limit'')
          else Inr output))"

definition read_block_item :: "stored_block reader" where
  "read_block_item =
     bindR (read_sized_within MAX_P2P_PAYLOAD ''Block record exceeds payload limit'')
       (\<lambda>record. liftR (whole read_block_record ''Trailing bytes in block record'' record))"

definition deserialize_stored_blocks :: "bytes \<Rightarrow> stored_block list res" where
  "deserialize_stored_blocks =
     whole (read_list read_block_item MAX_BLOCKS_PER_RESPONSE (RuntimeError ''Peer sent too many blocks''))
       ''Trailing bytes in block response''"

subsection \<open>inv and getdata\<close>

datatype inventory_type = InvTransaction | InvBlock

record inventory_item =
  ii_type :: inventory_type
  ii_hash :: string

fun inventory_code :: "inventory_type \<Rightarrow> u32" where
  "inventory_code InvTransaction = 1"
| "inventory_code InvBlock = 2"

definition serialize_inventory_item :: "inventory_item \<Rightarrow> bytes \<Rightarrow> bytes res" where
  "serialize_inventory_item item payload =
     (let payload = append_u32_le payload (inventory_code (ii_type item)) in
      bindE (display_hex_to_wire_bytes (ii_hash item)) (\<lambda>hash. Inr (payload @ hash)))"

definition serialize_inventory :: "inventory_item list \<Rightarrow> bytes res" where
  "serialize_inventory items =
     (if length items > MAX_INVENTORY_ITEMS then Inl (RuntimeError ''Inventory exceeds item limit'')
      else foldE serialize_inventory_item items (append_compact_size [] (word_of_nat (length items))))"

definition read_inventory_item :: "inventory_item reader" where
  "read_inventory_item =
     bindR read_u32_le (\<lambda>raw_type.
     guardR (raw_type \<noteq> 1 \<and> raw_type \<noteq> 2) (RuntimeError ''Peer inventory contains unknown type'')
    (bindR read_display_id (\<lambda>hash.
       returnR \<lparr> ii_type = (if raw_type = 1 then InvTransaction else InvBlock), ii_hash = hash \<rparr>)))"

definition deserialize_inventory :: "bytes \<Rightarrow> inventory_item list res" where
  "deserialize_inventory =
     whole (read_list read_inventory_item MAX_INVENTORY_ITEMS
         (RuntimeError ''Peer inventory exceeds item limit''))
       ''Trailing bytes in inventory payload''"


subsection \<open>getheaders and headers\<close>

record get_headers_request =
  gh_locator :: "string list"
  gh_stop_hash :: string

record header_record =
  hr_height :: u64
  hr_header :: block_header

definition zero_hash :: string where "zero_hash = replicate 64 (CHR ''0'')"

definition serialize_hash :: "string \<Rightarrow> bytes \<Rightarrow> bytes res" where
  "serialize_hash hash_text payload =
     bindE (display_hex_to_wire_bytes hash_text) (\<lambda>hash. Inr (payload @ hash))"

definition serialize_getheaders :: "string list \<Rightarrow> string \<Rightarrow> bytes res" where
  "serialize_getheaders locator stop_hash =
     (if locator = [] \<or> length locator > 101 then Inl (RuntimeError ''Invalid block locator size'')
      else bindE (foldE serialize_hash locator (append_compact_size [] (word_of_nat (length locator))))
        (serialize_hash stop_hash))"

definition read_getheaders :: "get_headers_request reader" where
  "read_getheaders =
     bindR read_compact_size (\<lambda>count.
     guardR (unat count = 0 \<or> unat count > 101) (RuntimeError ''Peer block locator exceeds limit'')
    (bindR (read_many read_display_id (unat count)) (\<lambda>locator.
     bindR read_display_id (\<lambda>stop_hash.
       returnR \<lparr> gh_locator = locator, gh_stop_hash = stop_hash \<rparr>))))"

definition deserialize_getheaders :: "bytes \<Rightarrow> get_headers_request res" where
  "deserialize_getheaders = whole read_getheaders ''Trailing bytes in getheaders payload''"

definition serialize_header_record :: "header_record \<Rightarrow> bytes \<Rightarrow> bytes res" where
  "serialize_header_record record payload =
     (let payload = append_u64_le payload (hr_height record) in
      bindE (serialize_header (hr_header record)) (\<lambda>header.
        Inr (append_compact_size (payload @ header) 0)))"

definition serialize_headers :: "header_record list \<Rightarrow> bytes res" where
  "serialize_headers headers =
     (if length headers > MAX_HEADERS_PER_RESPONSE then Inl (RuntimeError ''Too many headers'')
      else foldE serialize_header_record headers (append_compact_size [] (word_of_nat (length headers))))"

definition header_has_work :: "crypto \<Rightarrow> block_header \<Rightarrow> bool res" where
  "header_has_work C h =
     (if bh_bits h \<noteq> TESTNET_BITS then Inr False
      else bindE (header_raw_hash C h) (\<lambda>raw. check_proof_of_work raw (bh_bits h)))"

definition read_header_record :: "crypto \<Rightarrow> header_record reader" where
  "read_header_record C =
     bindR read_u64_le (\<lambda>height.
     bindR read_header_80 (\<lambda>header.
     bindR read_compact_size (\<lambda>count.
     guardR (count \<noteq> 0) (RuntimeError ''Header record transaction count must be zero'')
    (bindR (liftR (header_has_work C header)) (\<lambda>ok.
     guardR (\<not> ok) (RuntimeError ''Invalid proof of work in header chain'')
       (returnR \<lparr> hr_height = height, hr_header = header \<rparr>))))))"

definition deserialize_headers :: "crypto \<Rightarrow> bytes \<Rightarrow> header_record list res" where
  "deserialize_headers C =
     whole (read_list (read_header_record C) MAX_HEADERS_PER_RESPONSE
         (RuntimeError ''Peer sent too many headers''))
       ''Trailing bytes in headers payload''"

subsection \<open>addrv2\<close>

record inet =
  in_pton4 :: "string \<Rightarrow> bytes option"
  in_pton6 :: "string \<Rightarrow> bytes option"
  in_ntop4 :: "bytes \<Rightarrow> string option"
  in_ntop6 :: "bytes \<Rightarrow> string option"

text \<open>\<open>encode_address\<close> gives the network id, the size and the bytes of \<^verbatim>\<open>EncodedAddress\<close>.\<close>

definition encode_address :: "inet \<Rightarrow> peer_record \<Rightarrow> (peer_record \<times> u8 \<times> nat \<times> bytes) option" where
  "encode_address N r =
     (case in_pton4 N (pe_host (pr_endpoint r)) of
        Some address \<Rightarrow> Some (r, 1, 4, address)
      | None \<Rightarrow> (case in_pton6 N (pe_host (pr_endpoint r)) of
          Some address \<Rightarrow> Some (r, 2, 16, address)
        | None \<Rightarrow> None))"

definition serialize_address :: "bytes \<Rightarrow> peer_record \<times> u8 \<times> nat \<times> bytes \<Rightarrow> bytes" where
  "serialize_address payload = (\<lambda>(r, network_id, size, address).
     let clamped_time = max 0 (min (pr_last_seen r) (2 ^ 32 - 1));
         payload = append_u32_le payload (word_of_int clamped_time);
         payload = append_compact_size payload (pr_services r);
         payload = payload @ [network_id];
         payload = append_compact_size payload (word_of_nat size);
         payload = payload @ take size address;
         port = pe_port (pr_endpoint r) in
     payload @ [ucast (drop_bit 8 port AND 0xff), ucast (port AND 0xff)])"

definition serialize_addrv2 :: "inet \<Rightarrow> peer_record list \<Rightarrow> bytes" where
  "serialize_addrv2 N records =
     (let encodable = take MAX_ADDRV2_ITEMS (List.map_filter (encode_address N) records) in
      foldl serialize_address (append_compact_size [] (word_of_nat (length encodable))) encodable)"

definition read_network_id :: "u8 reader" where
  "read_network_id input offset =
     (if offset \<ge> length input then Inl (RuntimeError ''Truncated addrv2 network id'')
      else Inr (input ! offset, offset + 1))"

definition read_port :: "u16 reader" where
  "read_port input offset =
     (if length input - offset < 2 then Inl (RuntimeError ''Truncated addrv2 port'')
      else Inr (push_bit 8 (ucast (input ! offset)) OR ucast (input ! (offset + 1)), offset + 2))"

definition skip_address :: "u64 \<Rightarrow> unit reader" where
  "skip_address address_size input offset =
     (if unat address_size > length input - offset then Inl (RuntimeError ''Truncated addrv2 address'')
      else let offset = offset + unat address_size in
        if length input - offset < 2 then Inl (RuntimeError ''Truncated addrv2 port'')
        else Inr ((), offset + 2))"

text \<open>One turn of the loop of \<open>deserialize_addrv2\<close>: \<open>None\<close> is a \<^verbatim>\<open>continue\<close>.\<close>

definition read_address :: "inet \<Rightarrow> peer_record option reader" where
  "read_address N =
     bindR read_u32_le (\<lambda>timestamp.
     bindR read_compact_size (\<lambda>services.
     bindR read_network_id (\<lambda>network_id.
     bindR read_compact_size (\<lambda>address_size.
     let expected_size = if network_id = 1 then 4 else if network_id = 2 then 16 else 0 in
     if expected_size = 0 \<or> unat address_size \<noteq> expected_size
     then bindR (skip_address address_size) (\<lambda>_. returnR None)
     else
       bindR (read_bytes expected_size) (\<lambda>address.
       bindR read_port (\<lambda>port.
       returnR (case (if network_id = 1 then in_ntop4 N address else in_ntop6 N address) of
           None \<Rightarrow> None
         | Some host \<Rightarrow> if port = 0 then None
             else Some \<lparr> pr_endpoint = \<lparr> pe_host = host, pe_port = port \<rparr>, pr_services = services,
               pr_last_seen = uint timestamp, pr_last_success = 0, pr_failures = 0, pr_manual = False \<rparr>)))))))"

definition deserialize_addrv2 :: "inet \<Rightarrow> bytes \<Rightarrow> peer_record list res" where
  "deserialize_addrv2 N payload =
     bindE (whole (read_list (read_address N) MAX_ADDRV2_ITEMS
         (RuntimeError ''Peer addrv2 count exceeds limit''))
       ''Trailing bytes in addrv2 payload'' payload) (\<lambda>records. Inr (List.map_filter id records))"

subsection \<open>Endpoints as text\<close>

text \<open>\<^verbatim>\<open>std::stoul\<close> without a position: what follows the digits is ignored.\<close>

definition parse_peer_endpoint :: "string \<Rightarrow> peer_endpoint res" where
  "parse_peer_endpoint s =
     (if s = [] then Inl (InvalidArgument ''Peer endpoint cannot be empty'')
      else if hd s = CHR ''['' then
        (case find_char (CHR '']'') s of
           None \<Rightarrow> Inl (InvalidArgument ''Malformed bracketed IPv6 endpoint'')
         | Some close \<Rightarrow>
             let host = take (close - 1) (drop 1 s) in
             if close + 1 < length s then
               if s ! (close + 1) \<noteq> CHR '':'' then Inl (InvalidArgument ''Malformed bracketed IPv6 endpoint'')
               else bindE (stoul ''stoul'' (drop (close + 2) s)) (\<lambda>(v, _).
                 if v = 0 \<or> v > 65535 then Inl (InvalidArgument ''Peer port outside valid range'')
                 else Inr \<lparr> pe_host = host, pe_port = word_of_nat v \<rparr>)
             else Inr \<lparr> pe_host = host, pe_port = 26001 \<rparr>)
      else
        (case rfind_char (CHR '':'') s of
           None \<Rightarrow> Inr \<lparr> pe_host = s, pe_port = 26001 \<rparr>
         | Some colon \<Rightarrow>
             if find_char (CHR '':'') s \<noteq> Some colon
             then Inl (InvalidArgument ''IPv6 endpoints must use [address]:port syntax'')
             else let host = take colon s in
               bindE (stoul ''stoul'' (drop (colon + 1) s)) (\<lambda>(v, _).
                 if host = [] \<or> v = 0 \<or> v > 65535 then Inl (InvalidArgument ''Peer endpoint is invalid'')
                 else Inr \<lparr> pe_host = host, pe_port = word_of_nat v \<rparr>)))"

end
