(* ===== verification/NetLaws.thy ===== *)
theory NetLaws
  imports NetCodec
begin

section \<open>The payload decoders invert the encoders\<close>

text \<open>
  Each message format of \<open>NetCodec\<close> as a codec: the shape of the encoded bytes, the messages within
  the limits, and for every encoder and decoder the equivalence of "decodes to" and "is the
  encoding of".
\<close>

subsection \<open>Sized items and whole payloads\<close>

lemma sized_within_codec:
  assumes "limit < 2 ^ 64"
  shows "wire_codec enc_sized (read_sized_within limit msg) (\<lambda>b. length b \<le> limit)"
proof
  fix b :: bytes assume b: "length b \<le> limit"
  with assms have n: "unat (word_of_nat (length b) :: u64) = length b"
    by (intro unat_of_size) simp
  have "reads (\<lambda>input offset. if unat (word_of_nat (length b) :: u64) > limit \<or>
         unat (word_of_nat (length b) :: u64) > length input - offset then Inl (RuntimeError msg)
       else read_bytes (unat (word_of_nat (length b) :: u64)) input offset) b b"
    unfolding n reads_def using b readsD [OF raw.dec_enc [of b "length b"]] by simp
  then show "reads (read_sized_within limit msg) (enc_sized b) b"
    unfolding read_sized_within_def enc_sized_def by (rule reads_bind [OF csc.dec_enc, OF TrueI])
next
  have "consumes (\<lambda>input offset. if unat n > limit \<or> unat n > length input - offset
       then Inl (RuntimeError msg) else read_bytes (unat n) input offset)
     (\<lambda>b bs. length b \<le> limit \<and> length b = unat n \<and> bs = b)" for n :: u64
    using raw.dec_sound [of "unat n"] unfolding consumes_def by auto
  then show "consumes (read_sized_within limit msg) (\<lambda>b bs. length b \<le> limit \<and> bs = enc_sized b)"
    unfolding read_sized_within_def enc_sized_def
    by (rule consumes_mono [OF consumes_bind [OF csc.dec_sound]]) auto
qed

lemma sized_item_codec:
  assumes dec: "\<And>b x. dec b = Inr x \<longleftrightarrow> good x \<and> b = enc x" and "limit < 2 ^ 64"
  shows "wire_codec (\<lambda>x. enc_sized (enc x)) (bindR (read_sized_within limit msg) (\<lambda>b. liftR (dec b)))
    (\<lambda>x. good x \<and> length (enc x) \<le> limit)"
proof
  fix x assume x: "good x \<and> length (enc x) \<le> limit"
  then have "dec (enc x) = Inr x" using dec by blast
  with x show "reads (bindR (read_sized_within limit msg) (\<lambda>b. liftR (dec b))) (enc_sized (enc x)) x"
    by (intro reads_bind_last [OF wire_codec.dec_enc [OF sized_within_codec [OF assms(2)]]]) (auto intro: reads_lift)
next
  show "consumes (bindR (read_sized_within limit msg) (\<lambda>b. liftR (dec b)))
     (\<lambda>x bs. (good x \<and> length (enc x) \<le> limit) \<and> bs = enc_sized (enc x))"
    by (rule consumes_mono, rule consumes_bind [OF wire_codec.dec_sound [OF sized_within_codec [OF assms(2)]] consumes_lift])
       (auto simp: dec)
qed

lemma whole_iff:
  assumes "wire_codec enc dec good"
  shows "whole dec msg payload = Inr x \<longleftrightarrow> good x \<and> payload = enc x"
proof
  assume "whole dec msg payload = Inr x"
  then have "dec payload 0 = Inr (x, length payload)" by (auto simp: whole_def split: if_splits)
  then show "good x \<and> payload = enc x" by (rule wire_codec.dec_canonical [OF assms])
next
  assume "good x \<and> payload = enc x"
  then show "whole dec msg payload = Inr x"
    using wire_codec.dec_enc_whole [OF assms, of x] by (simp add: whole_def)
qed

text \<open>A list encoder that appends item by item.\<close>

lemma foldE_items:
  assumes "\<And>x out bs. f x out = Inr bs \<longleftrightarrow> ok x \<and> bs = out @ enc x"
  shows "foldE f xs out = Inr bs \<longleftrightarrow> (\<forall>x \<in> set xs. ok x) \<and> bs = out @ concat (map enc xs)"
  by (induction xs arbitrary: out) (auto simp: assms)

subsection \<open>version\<close>

definition version_ok :: "peer_version \<Rightarrow> bool" where
  "version_ok v \<longleftrightarrow> int64_range (pv_timestamp v) \<and> display_id (pv_genesis_hash v) \<and>
     display_id (pv_tip_hash v) \<and> display_id (pv_chainwork v) \<and> length (pv_user_agent v) \<le> 256"

definition enc_version :: "peer_version \<Rightarrow> bytes" where
  "enc_version v = append_u32_le [] (pv_protocol_version v) @ append_u64_le [] (pv_services v) @
     append_i64_le [] (pv_timestamp v) @ append_u64_le [] (pv_best_height v) @
     wire_of_display (pv_genesis_hash v) @ wire_of_display (pv_tip_hash v) @
     wire_of_display (pv_chainwork v) @ append_u64_le [] (pv_nonce v) @
     enc_sized (string_bytes (pv_user_agent v))"

interpretation verc: wire_codec enc_version read_version version_ok
  by (rule record_codec [where g = "\<lambda>v. (pv_protocol_version v, pv_services v, pv_timestamp v,
            pv_best_height v, pv_genesis_hash v, pv_tip_hash v, pv_chainwork v, pv_nonce v,
            string_bytes (pv_user_agent v))"
        and f = "\<lambda>(a, b, c, d, e, g, h, i, j). \<lparr> pv_protocol_version = a, pv_services = b,
         pv_timestamp = c, pv_best_height = d, pv_genesis_hash = e,
         pv_tip_hash = g, pv_chainwork = h, pv_nonce = i, pv_user_agent = bytes_string j \<rparr>",
        OF pair_codec [OF u32c.wire_codec_axioms pair_codec [OF u64c.wire_codec_axioms
          pair_codec [OF i64c.wire_codec_axioms pair_codec [OF u64c.wire_codec_axioms
          pair_codec [OF idc.wire_codec_axioms pair_codec [OF idc.wire_codec_axioms
          pair_codec [OF idc.wire_codec_axioms pair_codec [OF u64c.wire_codec_axioms
          sized_within_codec [of 256 "''Peer user agent is too large''"]]]]]]]]]])
     (auto simp: enc_version_def version_ok_def read_version_def)

lemma serialize_version_eq: "version_ok v \<Longrightarrow> serialize_version v = Inr (enc_version v)"
  by (simp add: version_ok_def serialize_version_def enc_version_def display_id_wire append_u32_le_eq
      append_u64_le_eq append_i64_le_def append_compact_size_eq enc_sized_def)

definition version_accepted :: "peer_version \<Rightarrow> bool" where
  "version_accepted v \<longleftrightarrow> version_ok v \<and> pv_protocol_version v = P2P_PROTOCOL_VERSION \<and>
     pv_genesis_hash v = TESTNET_GENESIS_HASH"

lemma deserialize_version_iff:
  "deserialize_version payload = Inr v \<longleftrightarrow> version_accepted v \<and> serialize_version v = Inr payload"
  using serialize_version_eq [of v]
  by (auto simp: deserialize_version_def whole_iff [OF verc.wire_codec_axioms] version_accepted_def split: if_splits)

subsection \<open>Blocks and transactions\<close>

lemma deserialize_tx_iff:
  "deserialize_transaction b = Inr t \<longleftrightarrow> (valid_transaction t \<and> canonical_txids t) \<and> b = enc_transaction t"
  by (auto simp: deserialize_transaction_eq serialize_transaction_eq)

lemma sized_tx_codec: "wire_codec enc_block_tx (read_sized_transaction msg) block_tx_ok"
  using sized_item_codec [of deserialize_transaction, OF deserialize_tx_iff, of 4000000 msg]
  by (simp add: read_sized_transaction_def enc_block_tx_def [abs_def] block_tx_ok_def [abs_def] conj_assoc)

interpretation brc: wire_codec enc_stored read_block_record stored_ok
  by (rule record_codec [where g = "\<lambda>s. (sb_height s, b_header (sb_block s), b_transactions (sb_block s))"
        and f = "\<lambda>(a, b, c). \<lparr> sb_height = a, sb_block = \<lparr> b_header = b, b_transactions = c \<rparr> \<rparr>",
        OF pair_codec [OF u64c.wire_codec_axioms pair_codec [OF h80.wire_codec_axioms
          list_codec [OF sized_tx_codec [of "''Transaction payload exceeds limit''"],
            of 100000 "RuntimeError ''Block transaction count exceeds limit''"]]]])
     (auto simp: enc_stored_def stored_ok_def read_block_record_def read_list_def)

lemma serialize_block_record_eq: "serialize_block_record s = serialize_stored_block s"
  by (simp add: serialize_block_record_def serialize_stored_block_def)

lemma serialize_tx_item:
  "serialize_block_transaction t out = Inr bs \<longleftrightarrow> valid_transaction t \<and> bs = out @ enc_block_tx t"
  by (auto simp: serialize_block_transaction_def serialize_transaction_eq enc_block_tx_def enc_sized_def
      append_compact_size_eq)

lemma serialize_transactions_iff:
  "serialize_transactions txs = Inr bs \<longleftrightarrow> (\<forall>t \<in> set txs. valid_transaction t) \<and> bs = enc_list enc_block_tx txs"
  by (auto simp: serialize_transactions_def foldE_items [OF serialize_tx_item] enc_list_def append_compact_size_eq)

lemma deserialize_transactions_iff:
  "deserialize_transactions bs = Inr txs \<longleftrightarrow>
     (length txs \<le> 100000 \<and> (\<forall>t \<in> set txs. block_tx_ok t)) \<and> serialize_transactions txs = Inr bs"
  unfolding deserialize_transactions_def serialize_transactions_iff
  by (subst whole_iff [OF list_codec [OF sized_tx_codec]]) (auto simp: block_tx_ok_def)

lemma read_block_item_codec:
  "wire_codec (\<lambda>s. enc_sized (enc_stored s)) read_block_item (\<lambda>s. stored_ok s \<and> length (enc_stored s) \<le> MAX_P2P_PAYLOAD)"
  unfolding read_block_item_def
  by (rule sized_item_codec [OF whole_iff [OF brc.wire_codec_axioms]]) (simp add: MAX_P2P_PAYLOAD_def)

lemma stored_ok_valid: "stored_ok s \<Longrightarrow> serialize_stored_block s = Inr (enc_stored s)"
  by (auto simp: serialize_stored_block_eq stored_ok_def canonical_valid list_all_iff block_tx_ok_def)

lemma serialize_item_iff:
  "serialize_block_item s out = Inr bs \<longleftrightarrow> serialize_stored_block s = Inr (enc_stored s) \<and> bs = out @ enc_sized (enc_stored s)"
  by (auto simp: serialize_block_item_def serialize_block_record_eq serialize_stored_block_eq enc_sized_def append_compact_size_eq)

lemma serialize_stored_blocks_iff:
  assumes "begin_index \<le> length blocks"
  shows "serialize_stored_blocks blocks begin_index maximum_count = Inr bs \<longleftrightarrow>
     (let xs = take maximum_count (drop begin_index blocks) in
      (\<forall>s \<in> set xs. serialize_stored_block s = Inr (enc_stored s)) \<and>
      bs = enc_list (\<lambda>s. enc_sized (enc_stored s)) xs \<and> length bs \<le> MAX_P2P_PAYLOAD)"
proof -
  let ?n = "min maximum_count (length blocks - begin_index)"
  let ?xs = "take ?n (drop begin_index blocks)"
  have t: "?xs = take maximum_count (drop begin_index blocks)" by (simp add: min_def)
  have n: "length ?xs = ?n" by simp
  have f: "foldE serialize_block_item ?xs (append_compact_size [] (word_of_nat ?n)) = Inr out \<longleftrightarrow>
      (\<forall>s \<in> set ?xs. serialize_stored_block s = Inr (enc_stored s)) \<and> out = enc_list (\<lambda>s. enc_sized (enc_stored s)) ?xs" for out
    unfolding foldE_items [OF serialize_item_iff] enc_list_def n ..
  have "serialize_stored_blocks blocks begin_index maximum_count = Inr bs \<longleftrightarrow>
      (\<exists>out. foldE serialize_block_item ?xs (append_compact_size [] (word_of_nat ?n)) = Inr out \<and>
        length out \<le> MAX_P2P_PAYLOAD \<and> bs = out)"
  proof -
    have "\<not> length blocks < begin_index" using assms by simp
    then show ?thesis
      by (simp only: serialize_stored_blocks_def Let_def if_False bindE_eq_Inr if_Inl_eq_Inr not_less sum.inject) blast
  qed
  then show ?thesis unfolding f t [symmetric] Let_def by blast
qed

lemma length_item_le: "x \<in> set xs \<Longrightarrow> length (enc x) \<le> length (concat (map (\<lambda>x. enc_sized (enc x)) xs))"
  by (induction xs) (auto simp: enc_sized_def)

text \<open>A response that fits is read back, and only the encodings of blocks within the limits are read.\<close>

lemma deserialize_stored_blocks_iff:
  "deserialize_stored_blocks bs = Inr xs \<longleftrightarrow>
     length xs \<le> MAX_BLOCKS_PER_RESPONSE \<and> (\<forall>s \<in> set xs. stored_ok s \<and> length (enc_stored s) \<le> MAX_P2P_PAYLOAD) \<and>
     bs = enc_list (\<lambda>s. enc_sized (enc_stored s)) xs"
  unfolding deserialize_stored_blocks_def
  by (subst whole_iff [OF list_codec [OF read_block_item_codec]]) (auto simp: MAX_BLOCKS_PER_RESPONSE_def)

lemma block_response:
  assumes "begin_index \<le> length blocks" "\<forall>s \<in> set blocks. stored_ok s" "count \<le> MAX_BLOCKS_PER_RESPONSE"
    and "serialize_stored_blocks blocks begin_index count = Inr bs"
  shows "deserialize_stored_blocks bs = Inr (take count (drop begin_index blocks))"
proof -
  let ?xs = "take count (drop begin_index blocks)"
  have bs: "bs = enc_list (\<lambda>s. enc_sized (enc_stored s)) ?xs" "length bs \<le> MAX_P2P_PAYLOAD"
    using assms(4) serialize_stored_blocks_iff [OF assms(1), of count bs] by (auto simp: Let_def)
  have "length (enc_stored s) \<le> MAX_P2P_PAYLOAD" if "s \<in> set ?xs" for s
    using length_item_le [OF that, of enc_stored] bs by (simp add: enc_list_def)
  moreover have "\<forall>s \<in> set ?xs. stored_ok s"
    using assms(2) by (meson in_set_dropD in_set_takeD)
  ultimately show ?thesis
    using assms(3) bs(1) by (simp add: deserialize_stored_blocks_iff)
qed


subsection \<open>inv, getheaders and headers\<close>

definition enc_inventory :: "inventory_item \<Rightarrow> bytes" where
  "enc_inventory i = append_u32_le [] (inventory_code (ii_type i)) @ wire_of_display (ii_hash i)"

interpretation invc: wire_codec enc_inventory read_inventory_item "\<lambda>i. display_id (ii_hash i)"
proof (rule record_codec [where g = "\<lambda>i. (inventory_code (ii_type i), ii_hash i)"
      and f = "\<lambda>(a, b). \<lparr> ii_type = (if a = 1 then InvTransaction else InvBlock), ii_hash = b \<rparr>",
      OF pair_codec [OF guard_codec [OF u32c.wire_codec_axioms, of "\<lambda>a. a \<noteq> 1 \<and> a \<noteq> 2"
          "RuntimeError ''Peer inventory contains unknown type''"] idc.wire_codec_axioms]])
  show "display_id (ii_hash i) \<longleftrightarrow> (case (inventory_code (ii_type i), ii_hash i) of (a, b) \<Rightarrow>
      (True \<and> \<not> (a \<noteq> 1 \<and> a \<noteq> 2)) \<and> display_id b) \<and>
      (case (inventory_code (ii_type i), ii_hash i) of (a, b) \<Rightarrow>
        \<lparr> ii_type = (if a = 1 then InvTransaction else InvBlock), ii_hash = b \<rparr>) = i" for i :: inventory_item
    by (cases "ii_type i") simp_all
qed (auto simp: enc_inventory_def read_inventory_item_def)

lemma display_wire_iff: "display_hex_to_wire_bytes h = Inr b \<longleftrightarrow> (\<exists>w. display_hex_to_wire_bytes h = Inr w) \<and> b = wire_of_display h"
  by (auto simp: wire_of_display_def)

definition readable_hash :: "string \<Rightarrow> bool" where
  "readable_hash h \<longleftrightarrow> (\<exists>w. display_hex_to_wire_bytes h = Inr w)"

lemma display_readable: "display_id h \<Longrightarrow> readable_hash h"
  by (auto simp: readable_hash_def dest: display_id_wire(1))

lemma serialize_hash_iff:
  "serialize_hash h out = Inr bs \<longleftrightarrow> readable_hash h \<and> bs = out @ wire_of_display h"
  by (auto simp: serialize_hash_def readable_hash_def wire_of_display_def)

lemma serialize_inventory_item_iff:
  "serialize_inventory_item i out = Inr bs \<longleftrightarrow> readable_hash (ii_hash i) \<and> bs = out @ enc_inventory i"
  by (auto simp: serialize_inventory_item_def readable_hash_def wire_of_display_def enc_inventory_def append_u32_le_eq)

lemma serialize_inventory_iff:
  "serialize_inventory items = Inr bs \<longleftrightarrow> length items \<le> MAX_INVENTORY_ITEMS \<and>
     (\<forall>i \<in> set items. readable_hash (ii_hash i)) \<and> bs = enc_list enc_inventory items"
  by (auto simp: serialize_inventory_def foldE_items [OF serialize_inventory_item_iff] enc_list_def)

lemma deserialize_inventory_iff:
  "deserialize_inventory bs = Inr items \<longleftrightarrow>
     (\<forall>i \<in> set items. display_id (ii_hash i)) \<and> serialize_inventory items = Inr bs"
  unfolding deserialize_inventory_def serialize_inventory_iff
  by (subst whole_iff [OF list_codec [OF invc.wire_codec_axioms]])
     (auto simp: MAX_INVENTORY_ITEMS_def display_readable)

definition enc_getheaders :: "get_headers_request \<Rightarrow> bytes" where
  "enc_getheaders g = enc_list wire_of_display (gh_locator g) @ wire_of_display (gh_stop_hash g)"

definition getheaders_ok :: "get_headers_request \<Rightarrow> bool" where
  "getheaders_ok g \<longleftrightarrow> gh_locator g \<noteq> [] \<and> length (gh_locator g) \<le> 101 \<and>
     (\<forall>h \<in> set (gh_locator g). display_id h) \<and> display_id (gh_stop_hash g)"

lemma getheaders_eta [simp]: "\<lparr> gh_locator = gh_locator g, gh_stop_hash = gh_stop_hash g \<rparr> = g"
  by (cases g) simp

interpretation ghc: wire_codec enc_getheaders read_getheaders getheaders_ok
proof
  fix g assume g: "getheaders_ok g"
  then have n: "unat (word_of_nat (length (gh_locator g)) :: u64) = length (gh_locator g)"
    by (intro unat_of_size) (simp add: getheaders_ok_def)
  from g show "reads read_getheaders (enc_getheaders g) g"
    unfolding read_getheaders_def enc_getheaders_def enc_list_def append_assoc
    by (intro reads_bind [OF csc.dec_enc] reads_guard reads_bind [OF idc.read_many_enc]
        reads_bind_last [OF idc.dec_enc]) (auto simp: n getheaders_ok_def intro: reads_return)
next
  show "consumes read_getheaders (\<lambda>g bs. getheaders_ok g \<and> bs = enc_getheaders g)"
    unfolding read_getheaders_def
    by (rule consumes_mono, rule consumes_bind [OF csc.dec_sound consumes_guard [OF
          consumes_bind [OF idc.read_many_sound consumes_bind [OF idc.dec_sound consumes_return]]]])
       (auto simp: getheaders_ok_def enc_getheaders_def enc_list_def)
qed

lemma serialize_getheaders_iff:
  "serialize_getheaders locator stop = Inr bs \<longleftrightarrow> locator \<noteq> [] \<and> length locator \<le> 101 \<and>
     (\<forall>h \<in> set locator. readable_hash h) \<and> readable_hash stop \<and>
     bs = enc_getheaders \<lparr> gh_locator = locator, gh_stop_hash = stop \<rparr>"
  by (auto simp: serialize_getheaders_def foldE_items [OF serialize_hash_iff] serialize_hash_iff
      enc_getheaders_def enc_list_def)

lemma deserialize_getheaders_iff:
  "deserialize_getheaders bs = Inr g \<longleftrightarrow> getheaders_ok g \<and> serialize_getheaders (gh_locator g) (gh_stop_hash g) = Inr bs"
  unfolding deserialize_getheaders_def serialize_getheaders_iff
  by (subst whole_iff [OF ghc.wire_codec_axioms]) (auto simp: getheaders_ok_def display_readable)

definition enc_header_record :: "header_record \<Rightarrow> bytes" where
  "enc_header_record r = append_u64_le [] (hr_height r) @ enc_header (hr_header r) @ append_compact_size [] 0"

definition header_record_ok :: "crypto \<Rightarrow> header_record \<Rightarrow> bool" where
  "header_record_ok C r \<longleftrightarrow> canonical_header (hr_header r) \<and> bh_bits (hr_header r) = TESTNET_BITS \<and>
     meets_target C (hr_header r)"

lemma header_has_work_iff:
  "header_has_work C h = Inr True \<longleftrightarrow> bh_bits h = TESTNET_BITS \<and> meets_target C h"
  by (auto simp: header_has_work_def meets_target_def)

lemma header_record_eta [simp]: "\<lparr> hr_height = hr_height r, hr_header = hr_header r \<rparr> = r"
  by (cases r) simp

interpretation hrc: wire_codec enc_header_record "read_header_record C" "header_record_ok C" for C
proof
  fix r assume r: "header_record_ok C r"
  then have "header_has_work C (hr_header r) = Inr True"
    by (simp add: header_has_work_iff header_record_ok_def)
  with r show "reads (read_header_record C) (enc_header_record r) r"
    unfolding read_header_record_def enc_header_record_def
    by (intro reads_bind [OF u64c.dec_enc] reads_bind [OF h80.dec_enc] reads_bind_last [OF csc.dec_enc]
        reads_guard reads_bind_pure [OF reads_lift]) (auto simp: header_record_ok_def intro: reads_return)
next
  show "consumes (read_header_record C) (\<lambda>r bs. header_record_ok C r \<and> bs = enc_header_record r)"
    unfolding read_header_record_def
    by (rule consumes_mono, rule consumes_bind [OF u64c.dec_sound consumes_bind [OF h80.dec_sound
          consumes_bind [OF csc.dec_sound consumes_guard [OF consumes_bind [OF consumes_lift
            consumes_guard [OF consumes_return]]]]]])
       (auto simp: header_record_ok_def enc_header_record_def header_has_work_iff)
qed

lemma serialize_header_record_iff:
  "serialize_header_record r out = Inr bs \<longleftrightarrow> valid_header (hr_header r) \<and> bs = out @ enc_header_record r"
  by (auto simp: serialize_header_record_def serialize_header_eq enc_header_record_def append_u64_le_eq
      append_compact_size_eq)

lemma serialize_headers_iff:
  "serialize_headers rs = Inr bs \<longleftrightarrow> length rs \<le> MAX_HEADERS_PER_RESPONSE \<and>
     (\<forall>r \<in> set rs. valid_header (hr_header r)) \<and> bs = enc_list enc_header_record rs"
  by (auto simp: serialize_headers_def foldE_items [OF serialize_header_record_iff] enc_list_def)

lemma deserialize_headers_iff:
  "deserialize_headers C bs = Inr rs \<longleftrightarrow> (\<forall>r \<in> set rs. header_record_ok C r) \<and> serialize_headers rs = Inr bs"
  unfolding deserialize_headers_def serialize_headers_iff
  by (subst whole_iff [OF list_codec [OF hrc.wire_codec_axioms]])
     (auto simp: MAX_HEADERS_PER_RESPONSE_def header_record_ok_def canonical_valid)

subsection \<open>addrv2\<close>

definition inet_ok :: "inet \<Rightarrow> bool" where
  "inet_ok N \<longleftrightarrow>
     (\<forall>h a. in_pton4 N h = Some a \<longrightarrow> length a = 4) \<and> (\<forall>h a. in_pton6 N h = Some a \<longrightarrow> length a = 16) \<and>
     (\<forall>a. length a = 4 \<longrightarrow> (\<exists>h. in_ntop4 N a = Some h \<and> in_pton4 N h = Some a \<and> valid_host h)) \<and>
     (\<forall>a. length a = 16 \<longrightarrow> (\<exists>h. in_ntop6 N a = Some h \<and> in_pton6 N h = Some a \<and> valid_host h))"

lemma inet_okD:
  assumes "inet_ok N"
  shows "in_pton4 N h = Some a \<Longrightarrow> length a = 4" "in_pton6 N h = Some a \<Longrightarrow> length a = 16"
    and "length a = 4 \<Longrightarrow> \<exists>h. in_ntop4 N a = Some h \<and> in_pton4 N h = Some a \<and> valid_host h"
    and "length a = 16 \<Longrightarrow> \<exists>h. in_ntop6 N a = Some h \<and> in_pton6 N h = Some a \<and> valid_host h"
  using assms by (simp_all add: inet_ok_def)

text \<open>What a record becomes on the other side: the host in the system's spelling, the time clamped
  to 32 bits, nothing of the local bookkeeping; a record without a port is dropped.\<close>

definition canonical_host :: "inet \<Rightarrow> string \<Rightarrow> string" where
  "canonical_host N h = (case in_pton4 N h of Some a \<Rightarrow> the (in_ntop4 N a) | None \<Rightarrow> the (in_ntop6 N (the (in_pton6 N h))))"

definition numeric_host :: "inet \<Rightarrow> string \<Rightarrow> bool" where
  "numeric_host N h \<longleftrightarrow> in_pton4 N h \<noteq> None \<or> in_pton6 N h \<noteq> None"

definition announced :: "inet \<Rightarrow> peer_record \<Rightarrow> peer_record option" where
  "announced N r = (if pe_port (pr_endpoint r) = 0 then None
     else Some \<lparr> pr_endpoint = \<lparr> pe_host = canonical_host N (pe_host (pr_endpoint r)), pe_port = pe_port (pr_endpoint r) \<rparr>,
       pr_services = pr_services r, pr_last_seen = max 0 (min (pr_last_seen r) (2 ^ 32 - 1)),
       pr_last_success = 0, pr_failures = 0, pr_manual = False \<rparr>)"

lemma port_bytes:
  "push_bit 8 (ucast (ucast (drop_bit 8 p AND 0xff) :: u8)) OR ucast (ucast (p AND 0xff) :: u8) = (p :: u16)"
proof -
  have m: "(0xff :: u16) = mask 8" by (simp add: mask_eq_exp_minus_1)
  show ?thesis unfolding m by (rule bit_word_eqI) (auto simp: bit_simps)
qed

lemma reads_network_id: "reads read_network_id [b] b"
  by (simp add: reads_def read_network_id_def)

lemma reads_port: "reads read_port [b, c] (push_bit 8 (ucast b) OR ucast c)"
  by (auto simp: reads_def read_port_def nth_append)

lemma encode_address_some: "encode_address N r \<noteq> None \<longleftrightarrow> numeric_host N (pe_host (pr_endpoint r))"
  by (auto simp: encode_address_def numeric_host_def split: option.splits)

lemma serialize_address_append: "serialize_address out e = out @ serialize_address [] e"
  by (cases e) (simp add: serialize_address_def Let_def append_u32_le_eq append_compact_size_eq)

lemma serialize_addresses: "foldl serialize_address out es = out @ concat (map (serialize_address []) es)"
proof (induction es arbitrary: out)
  case (Cons e es)
  have "foldl serialize_address out (e # es) = foldl serialize_address (out @ serialize_address [] e) es"
    using serialize_address_append [of out e] by simp
  then show ?case unfolding Cons by simp
qed simp

text \<open>One encoded address reads back as the announced record.\<close>

definition enc_address :: "inet \<Rightarrow> peer_record \<Rightarrow> bytes" where
  "enc_address N r = serialize_address [] (the (encode_address N r))"

lemma reads_address_with:
  assumes "length a = k" "k = (if net = 1 then 4 else 16)" "net = 1 \<or> net = 2"
    and "(if net = 1 then in_ntop4 N a else in_ntop6 N a) = Some (canonical_host N (pe_host (pr_endpoint r)))"
  shows "reads (read_address N) (serialize_address [] (r, net, k, a)) (announced N r)"
proof -
  let ?t = "max 0 (min (pr_last_seen r) (2 ^ 32 - 1))"
  have t: "uint (word_of_int ?t :: u32) = ?t"
    by (simp add: uint_word_of_int)
  have "k < 2 ^ 64" using assms(2) by simp
  then have s: "unat (word_of_nat k :: u64) = k" by (rule unat_of_size)
  let ?p = "pe_port (pr_endpoint r)"
  have e: "serialize_address [] (r, net, k, a) = append_u32_le [] (word_of_int ?t) @
      append_compact_size [] (pr_services r) @ [net] @ append_compact_size [] (word_of_nat k) @ a @
      [ucast (drop_bit 8 ?p AND 0xff), ucast (?p AND 0xff)]"
    using assms(1) by (simp add: serialize_address_def Let_def append_u32_le_eq append_compact_size_eq)
  have sz: "(if net = 1 then 4 else if net = 2 then 16 else 0) = k" "k \<noteq> 0"
    using assms(2,3) by auto
  have port: "reads (bindR read_port (\<lambda>port. returnR (case (if net = 1 then in_ntop4 N a else in_ntop6 N a) of
           None \<Rightarrow> None
         | Some host \<Rightarrow> if port = 0 then None
             else Some \<lparr> pr_endpoint = \<lparr> pe_host = host, pe_port = port \<rparr>, pr_services = pr_services r,
               pr_last_seen = uint (word_of_int ?t :: u32), pr_last_success = 0, pr_failures = 0, pr_manual = False \<rparr>)))
      [ucast (drop_bit 8 ?p AND 0xff), ucast (?p AND 0xff)] (announced N r)"
    by (rule reads_bind_last [OF reads_port], unfold port_bytes t assms(4))
       (auto simp: announced_def intro: reads_return)
  show ?thesis
    unfolding e read_address_def Let_def
    by (rule reads_bind [OF u32c.dec_enc], simp, rule reads_bind [OF csc.dec_enc], simp,
        rule reads_bind [OF reads_network_id], rule reads_bind [OF csc.dec_enc], simp)
       (simp only: sz s simp_thms if_False, rule reads_bind [OF raw.dec_enc], rule assms(1), rule port)
qed

lemma reads_address:
  assumes "inet_ok N" "numeric_host N (pe_host (pr_endpoint r))"
  shows "reads (read_address N) (enc_address N r) (announced N r)"
proof (cases "in_pton4 N (pe_host (pr_endpoint r))")
  case (Some a)
  then obtain h where "length a = 4" "in_ntop4 N a = Some h"
    using inet_okD(1) [OF assms(1)] inet_okD(3) [OF assms(1)] by blast
  then show ?thesis
    using Some reads_address_with [of a 4 1 N r] by (simp add: enc_address_def encode_address_def canonical_host_def)
next
  case None
  with assms(2) obtain a where a: "in_pton6 N (pe_host (pr_endpoint r)) = Some a" by (auto simp: numeric_host_def)
  then obtain h where "length a = 16" "in_ntop6 N a = Some h"
    using inet_okD(2) [OF assms(1)] inet_okD(4) [OF assms(1)] by blast
  then show ?thesis
    using a None reads_address_with [of a 16 2 N r] by (simp add: enc_address_def encode_address_def canonical_host_def)
qed

lemma read_many_reads:
  "(\<And>x. x \<in> set xs \<Longrightarrow> reads m (enc x) (g x)) \<Longrightarrow>
     reads (read_many m (length xs)) (concat (map enc xs)) (map g xs)"
proof (induction xs)
  case (Cons x xs)
  have "reads (bindR (read_many m (length xs)) (\<lambda>ys. returnR (g x # ys))) (concat (map enc xs)) (g x # map g xs)"
    using Cons by (intro reads_bind_last [of _ _ "map g xs"]) (auto intro: reads_return)
  then show ?case
    using Cons by (auto intro!: reads_bind)
qed (simp add: reads_return)

lemma map_filter_encodable:
  "List.map_filter (encode_address N) rs =
     map (\<lambda>r. the (encode_address N r)) (filter (\<lambda>r. numeric_host N (pe_host (pr_endpoint r))) rs)"
  unfolding List.map_filter_def encode_address_some comp_def ..

lemma addrv2_roundtrip:
  assumes "inet_ok N"
  shows "deserialize_addrv2 N (serialize_addrv2 N rs) =
    Inr (List.map_filter (announced N)
      (take MAX_ADDRV2_ITEMS (filter (\<lambda>r. numeric_host N (pe_host (pr_endpoint r))) rs)))"
proof -
  let ?xs = "take MAX_ADDRV2_ITEMS (filter (\<lambda>r. numeric_host N (pe_host (pr_endpoint r))) rs)"
  have l: "length ?xs \<le> MAX_ADDRV2_ITEMS" by simp
  then have n: "unat (word_of_nat (length ?xs) :: u64) = length ?xs"
    by (intro unat_of_size) (simp add: MAX_ADDRV2_ITEMS_def)
  have enc: "serialize_addrv2 N rs = append_compact_size [] (word_of_nat (length ?xs)) @ concat (map (enc_address N) ?xs)"
    unfolding serialize_addrv2_def map_filter_encodable take_map Let_def serialize_addresses
    by (simp add: enc_address_def [abs_def] comp_def)
  have "numeric_host N (pe_host (pr_endpoint x))" if "x \<in> set ?xs" for x
    using that by (auto dest: in_set_takeD)
  then have "reads (read_many (read_address N) (length ?xs)) (concat (map (enc_address N) ?xs)) (map (announced N) ?xs)"
    by (intro read_many_reads reads_address [OF assms])
  then have "reads (guardR (length ?xs > MAX_ADDRV2_ITEMS) (RuntimeError ''Peer addrv2 count exceeds limit'')
      (read_many (read_address N) (length ?xs))) (concat (map (enc_address N) ?xs)) (map (announced N) ?xs)"
    by (rule reads_guard [rotated]) (simp only: not_less l)
  then have "reads (read_list (read_address N) MAX_ADDRV2_ITEMS (RuntimeError ''Peer addrv2 count exceeds limit''))
      (serialize_addrv2 N rs) (map (announced N) ?xs)"
    unfolding enc read_list_def
    by (intro reads_bind [OF csc.dec_enc [OF TrueI]]) (simp only: n)
  from reads_whole [OF this] show ?thesis
    by (simp add: deserialize_addrv2_def whole_def List.map_filter_def comp_def filter_map)
qed

text \<open>Whatever bytes a peer sends, the records that come out of them can be kept.\<close>

definition gossip_ok :: "peer_record \<Rightarrow> bool" where
  "gossip_ok r \<longleftrightarrow> peer_ok r \<and> 0 \<le> pr_last_seen r \<and> pr_last_seen r < 2 ^ 32 \<and>
     pr_last_success r = 0 \<and> pr_failures r = 0 \<and> \<not> pr_manual r"

lemma read_many_all:
  "(\<And>i j x k. m i j = Inr (x, k) \<Longrightarrow> P x) \<Longrightarrow> read_many m n input off = Inr (xs, off') \<Longrightarrow>
     length xs = n \<and> list_all P xs"
proof (induction n arbitrary: off xs off')
  case 0
  then show ?case by (simp add: returnR_def)
next
  case (Suc n)
  then obtain x o1 ys where "m input off = Inr (x, o1)" "read_many m n input o1 = Inr (ys, off')" "xs = x # ys"
    by (auto simp: bindR_def returnR_def)
  with Suc.IH [OF Suc.prems(1)] Suc.prems(1) show ?case by auto
qed

lemma read_address_ok:
  assumes N: "inet_ok N" and r: "read_address N input off = Inr (Some r, off')"
  shows "gossip_ok r"
proof -
  obtain ts o1 sv o2 net o3 k o4 where steps: "read_u32_le input off = Inr (ts, o1)" "read_compact_size input o1 = Inr (sv, o2)"
    "read_network_id input o2 = Inr (net, o3)" "read_compact_size input o3 = Inr (k, o4)"
    using r by (auto simp: read_address_def bindR_def)
  let ?n = "if net = 1 then 4 else if net = 2 then 16 else 0 :: nat"
  have n: "?n \<noteq> 0 \<and> unat k = ?n"
    using r steps by (auto simp: read_address_def bindR_def Let_def returnR_def split: if_splits)
  then obtain a o5 p o6 where a: "read_bytes ?n input o4 = Inr (a, o5)" "read_port input o5 = Inr (p, o6)"
    and res: "(case (if net = 1 then in_ntop4 N a else in_ntop6 N a) of None \<Rightarrow> None
         | Some host \<Rightarrow> if p = 0 then None
             else Some \<lparr> pr_endpoint = \<lparr> pe_host = host, pe_port = p \<rparr>, pr_services = sv,
               pr_last_seen = uint ts, pr_last_success = 0, pr_failures = 0, pr_manual = False \<rparr>) = Some r"
    using r steps by (auto simp: read_address_def bindR_def Let_def returnR_def)
  have "length a = ?n" using a(1) by (auto simp: read_bytes_def)
  with n inet_okD(3) [OF N, of a] inet_okD(4) [OF N, of a]
  obtain h where "(if net = 1 then in_ntop4 N a else in_ntop6 N a) = Some h" "valid_host h"
    by (auto split: if_splits)
  with res have "p \<noteq> 0" "valid_host h" "r = \<lparr> pr_endpoint = \<lparr> pe_host = h, pe_port = p \<rparr>, pr_services = sv,
      pr_last_seen = uint ts, pr_last_success = 0, pr_failures = 0, pr_manual = False \<rparr>"
    by (auto split: if_splits)
  moreover have "0 \<le> uint ts" "- 9223372036854775808 \<le> uint ts" "uint ts < 2 ^ 32"
    using uint_lt2p [of ts] uint_ge_0 [of ts] by (simp, linarith, simp)
  ultimately show ?thesis
    by (simp add: gossip_ok_def peer_ok_def peer_acceptable_def int64_range_def)
qed

lemma deserialize_addrv2_ok:
  assumes "inet_ok N" "deserialize_addrv2 N payload = Inr rs"
  shows "length rs \<le> MAX_ADDRV2_ITEMS \<and> list_all gossip_ok rs"
proof -
  obtain n o1 os o2 where n: "read_compact_size payload 0 = Inr (n, o1)" "unat n \<le> MAX_ADDRV2_ITEMS"
    and m: "read_many (read_address N) (unat n) payload o1 = Inr (os, o2)" and rs: "rs = List.map_filter id os"
    using assms(2) by (auto simp: deserialize_addrv2_def whole_def read_list_def bindR_def guardR_def failR_def split: if_splits)
  have "length os = unat n \<and> list_all (\<lambda>x. \<forall>r. x = Some r \<longrightarrow> gossip_ok r) os"
    by (rule read_many_all [OF _ m]) (auto intro: read_address_ok [OF assms(1)])
  moreover have "length (List.map_filter id os) \<le> length os"
    by (simp add: List.map_filter_def)
  ultimately show ?thesis
    using n(2) by (auto simp: rs list_all_iff List.map_filter_def)
qed

end
