(* ===== verification/NetSync.thy ===== *)
theory NetSync
  imports NetLaws Chain
begin

section \<open>Locators and header answers (net.cpp)\<close>

text \<open>
  How two nodes find their last common block: \<open>make_block_locator\<close> samples the own chain from the
  tip back with growing steps, \<open>locate_fork_index\<close> finds the first entry the other chain has, and
  \<open>headers_after_locator\<close> answers with the headers behind it. \<open>find_block\<close> and \<open>find_transaction\<close>
  are the lookups the handlers share.

  The lemmas bound the locator, show that it runs from the tip to the first block with the last
  eleven blocks complete, and that an answer connects to a block the asking node has.
\<close>

definition block_hash :: "crypto \<Rightarrow> stored_block \<Rightarrow> string res" where
  "block_hash C b = hash_hex C (b_header (sb_block b))"

fun find_block :: "crypto \<Rightarrow> stored_block list \<Rightarrow> string \<Rightarrow> stored_block option res" where
  "find_block C [] h = Inr None"
| "find_block C (b # bs) h = bindE (block_hash C b) (\<lambda>x. if x = h then Inr (Some b) else find_block C bs h)"

fun find_by_txid :: "crypto \<Rightarrow> transaction list \<Rightarrow> string \<Rightarrow> transaction option res" where
  "find_by_txid C [] i = Inr None"
| "find_by_txid C (t # ts) i = bindE (txid C t) (\<lambda>j. if j = i then Inr (Some t) else find_by_txid C ts i)"

definition find_transaction ::
  "crypto \<Rightarrow> stored_block list \<Rightarrow> transaction list \<Rightarrow> string \<Rightarrow> transaction option res" where
  "find_transaction C blocks pool i =
     bindE (find_by_txid C pool i) (\<lambda>found.
     case found of
       Some t \<Rightarrow> Inr (Some t)
     | None \<Rightarrow> find_by_txid C (concat (map (\<lambda>b. b_transactions (sb_block b)) blocks)) i)"

definition chain_has_block :: "crypto \<Rightarrow> stored_block list \<Rightarrow> string \<Rightarrow> bool res" where
  "chain_has_block C blocks h = bindE (find_block C blocks h) (\<lambda>found. Inr (found \<noteq> None))"

definition node_has_transaction :: "crypto \<Rightarrow> stored_block list \<Rightarrow> transaction list \<Rightarrow> string \<Rightarrow> bool res" where
  "node_has_transaction C blocks pool i =
     bindE (find_transaction C blocks pool i) (\<lambda>found. Inr (found \<noteq> None))"

text \<open>\<open>scan_back C blocks h n\<close>: the largest index below \<open>n\<close> whose block has the hash.\<close>

fun scan_back :: "crypto \<Rightarrow> stored_block list \<Rightarrow> string \<Rightarrow> nat \<Rightarrow> nat option res" where
  "scan_back C blocks h 0 = Inr None"
| "scan_back C blocks h (Suc index) =
     bindE (block_hash C (blocks ! index)) (\<lambda>x.
       if x = h then Inr (Some index) else scan_back C blocks h index)"

fun locate_fork_index :: "crypto \<Rightarrow> stored_block list \<Rightarrow> string list \<Rightarrow> nat res" where
  "locate_fork_index C blocks [] = Inr 0"
| "locate_fork_index C blocks (locator_hash # locator) =
     bindE (scan_back C blocks locator_hash (length blocks)) (\<lambda>found.
     case found of Some index \<Rightarrow> Inr index | None \<Rightarrow> locate_fork_index C blocks locator)"

definition header_of :: "stored_block \<Rightarrow> header_record" where
  "header_of b = \<lparr> hr_height = sb_height b, hr_header = b_header (sb_block b) \<rparr>"

fun collect_headers :: "crypto \<Rightarrow> string \<Rightarrow> stored_block list \<Rightarrow> header_record list res" where
  "collect_headers C stop_hash [] = Inr []"
| "collect_headers C stop_hash (b # bs) =
     bindE (if stop_hash = zero_hash then Inr False else bindE (block_hash C b) (\<lambda>h. Inr (h = stop_hash))) (\<lambda>stop.
     if stop then Inr [header_of b]
     else bindE (collect_headers C stop_hash bs) (\<lambda>rest. Inr (header_of b # rest)))"

definition headers_after_locator :: "crypto \<Rightarrow> stored_block list \<Rightarrow> get_headers_request \<Rightarrow> header_record list res" where
  "headers_after_locator C blocks request =
     bindE (locate_fork_index C blocks (gh_locator request)) (\<lambda>fork_index.
       collect_headers C (gh_stop_hash request) (take MAX_HEADERS_PER_RESPONSE (drop (fork_index + 1) blocks)))"

function locator_loop :: "crypto \<Rightarrow> stored_block list \<Rightarrow> nat \<Rightarrow> nat \<Rightarrow> string list \<Rightarrow> string list res" where
  "locator_loop C blocks index step locator =
     bindE (block_hash C (blocks ! index)) (\<lambda>h.
       let locator = locator @ [h] in
       if index = 0 \<or> length locator \<ge> 101 then Inr locator
       else let step = (if length locator > 10 then step * 2 else step);
                index = (if index > step then index - step else 0) in
         locator_loop C blocks index step locator)"
  by pat_completeness auto

termination
  by (relation "measure (\<lambda>(C, blocks, index, step, locator). 101 - length locator)") auto

declare locator_loop.simps [simp del]

definition make_block_locator :: "crypto \<Rightarrow> stored_block list \<Rightarrow> string list res" where
  "make_block_locator C blocks =
     (if blocks = [] then Inr []
      else bindE (locator_loop C blocks (length blocks - 1) 1 []) (\<lambda>locator.
        bindE (block_hash C (hd blocks)) (\<lambda>first.
          if last locator \<noteq> first then Inr (locator @ [first]) else Inr locator)))"

subsection \<open>Lookups\<close>

definition hashed :: "crypto \<Rightarrow> stored_block list \<Rightarrow> bool" where
  "hashed C bs \<longleftrightarrow> (\<forall>b \<in> set bs. \<exists>h. block_hash C b = Inr h)"

definition hash_of :: "crypto \<Rightarrow> stored_block \<Rightarrow> string" where
  "hash_of C b = (case block_hash C b of Inl _ \<Rightarrow> [] | Inr h \<Rightarrow> h)"

lemma hashedD: "hashed C bs \<Longrightarrow> b \<in> set bs \<Longrightarrow> block_hash C b = Inr (hash_of C b)"
  by (fastforce simp: hashed_def hash_of_def)

lemma find_block_hashed:
  "hashed C bs \<Longrightarrow> find_block C bs h = Inr (List.find (\<lambda>b. hash_of C b = h) bs)"
proof (induction bs)
  case (Cons b bs)
  have "block_hash C b = Inr (hash_of C b)" using hashedD [OF Cons.prems, of b] by simp
  moreover have "hashed C bs" using Cons.prems by (simp add: hashed_def)
  ultimately show ?case using Cons.IH by simp
qed simp

lemma find_block_Inr: "find_block C bs h = Inr (Some b) \<Longrightarrow> b \<in> set bs \<and> block_hash C b = Inr h"
  by (induction bs) (auto split: if_splits)

lemma find_by_txid_Inr: "find_by_txid C ts i = Inr (Some t) \<Longrightarrow> t \<in> set ts \<and> txid C t = Inr i"
  by (induction ts) (auto split: if_splits)

lemma find_by_txid_None: "find_by_txid C ts i = Inr None \<Longrightarrow> t \<in> set ts \<Longrightarrow> txid C t \<noteq> Inr i"
  by (induction ts) (auto split: if_splits)

subsection \<open>The fork search\<close>

lemma scan_back_hashed:
  assumes "hashed C bs" "n \<le> length bs"
  shows "\<exists>r. scan_back C bs h n = Inr r \<and> (case r of
      None \<Rightarrow> \<forall>i<n. hash_of C (bs ! i) \<noteq> h
    | Some i \<Rightarrow> i < n \<and> hash_of C (bs ! i) = h \<and> (\<forall>j. i < j \<longrightarrow> j < n \<longrightarrow> hash_of C (bs ! j) \<noteq> h))"
  using assms(2)
proof (induction n)
  case (Suc n)
  then have b: "block_hash C (bs ! n) = Inr (hash_of C (bs ! n))"
    by (intro hashedD [OF assms(1)]) simp
  show ?case
  proof (cases "hash_of C (bs ! n) = h")
    case True
    with b show ?thesis by simp
  next
    case False
    from Suc obtain r where "scan_back C bs h n = Inr r" and r: "case r of
      None \<Rightarrow> \<forall>i<n. hash_of C (bs ! i) \<noteq> h
    | Some i \<Rightarrow> i < n \<and> hash_of C (bs ! i) = h \<and> (\<forall>j. i < j \<longrightarrow> j < n \<longrightarrow> hash_of C (bs ! j) \<noteq> h)" by auto
    with b False have "scan_back C bs h (Suc n) = Inr r" by simp
    moreover have "case r of None \<Rightarrow> \<forall>i<Suc n. hash_of C (bs ! i) \<noteq> h
      | Some i \<Rightarrow> i < Suc n \<and> hash_of C (bs ! i) = h \<and> (\<forall>j. i < j \<longrightarrow> j < Suc n \<longrightarrow> hash_of C (bs ! j) \<noteq> h)"
      using r False by (auto simp: less_Suc_eq split: option.splits)
    ultimately show ?thesis by (intro exI [of _ r] conjI)
  qed
qed simp

text \<open>The located index: the newest block of the first locator entry the chain has.\<close>

lemma locate_hashed:
  assumes "hashed C bs"
  shows "\<exists>f. locate_fork_index C bs locator = Inr f \<and>
     ((f = 0 \<and> (\<forall>b \<in> set bs. hash_of C b \<notin> set locator)) \<or>
      (f < length bs \<and> hash_of C (bs ! f) \<in> set locator))"
proof (induction locator)
  case (Cons h locator)
  obtain r where r: "scan_back C bs h (length bs) = Inr r" and c: "case r of
      None \<Rightarrow> \<forall>i<length bs. hash_of C (bs ! i) \<noteq> h
    | Some i \<Rightarrow> i < length bs \<and> hash_of C (bs ! i) = h \<and> (\<forall>j. i < j \<longrightarrow> j < length bs \<longrightarrow> hash_of C (bs ! j) \<noteq> h)"
    using scan_back_hashed [OF assms, of "length bs" h] by auto
  show ?case
  proof (cases r)
    case None
    with c have "\<forall>b \<in> set bs. hash_of C b \<noteq> h" by (auto simp: in_set_conv_nth)
    with Cons r None show ?thesis by auto
  next
    case (Some i)
    with c r show ?thesis by auto
  qed
qed simp

lemma collect_all: "collect_headers C zero_hash bs = Inr (map header_of bs)"
  by (induction bs) auto

lemma collect_prefix:
  "hashed C bs \<Longrightarrow> \<exists>n. collect_headers C stop bs = Inr (map header_of (take n bs)) \<and> (bs \<noteq> [] \<longrightarrow> n \<noteq> 0)"
proof (induction bs)
  case (Cons b bs)
  have b: "block_hash C b = Inr (hash_of C b)" using hashedD [OF Cons.prems, of b] by simp
  have "hashed C bs" using Cons.prems by (simp add: hashed_def)
  from Cons.IH [OF this] obtain n where n: "collect_headers C stop bs = Inr (map header_of (take n bs))" by blast
  show ?case
  proof (cases "stop \<noteq> zero_hash \<and> hash_of C b = stop")
    case True
    with b show ?thesis by (intro exI [of _ "Suc 0"]) simp
  next
    case False
    with b n show ?thesis by (intro exI [of _ "Suc n"]) auto
  qed
qed simp

lemma hashed_take_drop: "hashed C bs \<Longrightarrow> hashed C (take n (drop k bs))"
  unfolding hashed_def by (meson in_set_dropD in_set_takeD)

lemma headers_after_hashed:
  assumes "hashed C bs"
  shows "\<exists>f n. headers_after_locator C bs g = Inr (map header_of (take n (drop (f + 1) bs))) \<and>
     n \<le> MAX_HEADERS_PER_RESPONSE \<and> locate_fork_index C bs (gh_locator g) = Inr f \<and>
     (f + 1 < length bs \<longrightarrow> n \<noteq> 0)"
proof -
  obtain f where f: "locate_fork_index C bs (gh_locator g) = Inr f"
    using locate_hashed [OF assms] by blast
  let ?bs = "take MAX_HEADERS_PER_RESPONSE (drop (f + 1) bs)"
  obtain n where n: "collect_headers C (gh_stop_hash g) ?bs = Inr (map header_of (take n ?bs))" "?bs \<noteq> [] \<longrightarrow> n \<noteq> 0"
    using collect_prefix [OF hashed_take_drop [OF assms]] by blast
  show ?thesis
    using f n by (intro exI [of _ f] exI [of _ "min n MAX_HEADERS_PER_RESPONSE"])
      (auto simp: headers_after_locator_def MAX_HEADERS_PER_RESPONSE_def)
qed

subsection \<open>The locator\<close>

text \<open>The indices the loop visits, without the hashes.\<close>

function locator_indices :: "nat \<Rightarrow> nat \<Rightarrow> nat \<Rightarrow> nat list" where
  "locator_indices index step k =
     (if index = 0 \<or> k \<ge> 100 then [index]
      else let step = (if k \<ge> 10 then step * 2 else step) in
        index # locator_indices (if index > step then index - step else 0) step (Suc k))"
  by pat_completeness auto

termination
  by (relation "measure (\<lambda>(index, step, k). 100 - k)") auto

declare locator_indices.simps [simp del]

lemma locator_loop_indices:
  assumes "hashed C bs"
  shows "index < length bs \<Longrightarrow> length acc \<le> 100 \<Longrightarrow>
     locator_loop C bs index step acc =
       Inr (acc @ map (\<lambda>i. hash_of C (bs ! i)) (locator_indices index step (length acc)))"
proof (induction index step "length acc" arbitrary: acc rule: locator_indices.induct)
  case (1 index step)
  have b: "block_hash C (bs ! index) = Inr (hash_of C (bs ! index))"
    using 1(2) by (intro hashedD [OF assms]) simp
  let ?s = "if length acc \<ge> 10 then step * 2 else step"
  let ?i = "if index > ?s then index - ?s else 0"
  let ?acc = "acc @ [hash_of C (bs ! index)]"
  show ?case
  proof (cases "index = 0 \<or> length acc \<ge> 100")
    case True
    then show ?thesis
      using b 1(3) by (subst locator_loop.simps, subst locator_indices.simps) (auto simp: Let_def)
  next
    case False
    have s: "(if length ?acc > 10 then step * 2 else step) = ?s" by auto
    have "locator_loop C bs ?i ?s ?acc = Inr (?acc @ map (\<lambda>i. hash_of C (bs ! i)) (locator_indices ?i ?s (length ?acc)))"
      using 1(2,3) False by (intro 1(1)) auto
    moreover have "locator_loop C bs index step acc = locator_loop C bs ?i ?s ?acc"
      using False b by (subst locator_loop.simps) (simp add: Let_def)
    moreover have "locator_indices index step (length acc) = index # locator_indices ?i ?s (length ?acc)"
      using False by (subst locator_indices.simps) (simp add: Let_def)
    ultimately show ?thesis by simp
  qed
qed

lemma locator_indices_hd: "locator_indices index step k \<noteq> [] \<and> hd (locator_indices index step k) = index"
  by (subst locator_indices.simps, subst locator_indices.simps) (simp add: Let_def)

lemma next_index:
  "(if index > s then index - s else 0) \<le> index"
  "index \<noteq> 0 \<Longrightarrow> s \<noteq> 0 \<Longrightarrow> (if index > s then index - s else 0) < (index :: nat)"
  "index \<le> s \<Longrightarrow> (if index > s then index - s else 0) = 0"
  by auto

lemma locator_indices_le: "i \<in> set (locator_indices index step k) \<Longrightarrow> i \<le> index"
proof (induction index step k rule: locator_indices.induct)
  case (1 index step k)
  show ?case
  proof (cases "index = 0 \<or> k \<ge> 100")
    case True
    with 1(2) show ?thesis by (subst (asm) locator_indices.simps) simp
  next
    case False
    let ?s = "if k \<ge> 10 then step * 2 else step"
    let ?i = "if index > ?s then index - ?s else 0"
    have "i = index \<or> i \<in> set (locator_indices ?i ?s (Suc k))"
      using 1(2) False by (subst (asm) locator_indices.simps) (simp add: Let_def)
    then show ?thesis
      using 1(1) [OF False refl] next_index(1) [of ?s index] order.trans by blast
  qed
qed

lemma locator_indices_decreasing: "step \<noteq> 0 \<Longrightarrow> sorted_wrt (>) (locator_indices index step k)"
proof (induction index step k rule: locator_indices.induct)
  case (1 index step k)
  show ?case
  proof (cases "index = 0 \<or> k \<ge> 100")
    case True
    then show ?thesis by (subst locator_indices.simps) simp
  next
    case False
    let ?s = "if k \<ge> 10 then step * 2 else step"
    let ?i = "if index > ?s then index - ?s else 0"
    have step: "?s \<noteq> 0" using 1(2) by simp
    then have "sorted_wrt (>) (locator_indices ?i ?s (Suc k))"
      by (rule 1(1) [OF False refl])
    moreover have less: "i < index" if "i \<in> set (locator_indices ?i ?s (Suc k))" for i
      using order.strict_trans1 [OF locator_indices_le [OF that] next_index(2) [OF _ step]] False by simp
    moreover have eq: "locator_indices index step k = index # locator_indices ?i ?s (Suc k)"
      using False by (subst locator_indices.simps) (simp add: Let_def)
    ultimately show ?thesis unfolding eq sorted_wrt.simps by blast
  qed
qed

text \<open>The step doubles from the eleventh entry on, so after 64 doublings it passes any 64-bit index:
  the limit of 101 entries is never reached.\<close>

lemma locator_indices_bound:
  "index < 2 ^ 64 \<Longrightarrow> k \<le> 74 \<Longrightarrow> (k = 74 \<longrightarrow> index = 0) \<Longrightarrow> step = 2 ^ (k - 10) \<Longrightarrow>
     length (locator_indices index step k) + k \<le> 75 \<and> last (locator_indices index step k) = 0"
proof (induction index step k rule: locator_indices.induct)
  case (1 index step k)
  show ?case
  proof (cases "index = 0")
    case True
    then show ?thesis using 1(3) by (subst locator_indices.simps, subst locator_indices.simps) simp
  next
    case False
    then have k: "k < 74" "\<not> (index = 0 \<or> k \<ge> 100)" using 1(3,4) by auto
    let ?s = "if k \<ge> 10 then step * 2 else step"
    let ?i = "if index > ?s then index - ?s else 0"
    have s: "?s = 2 ^ (Suc k - 10)"
    proof (cases "k \<ge> 10")
      case True
      then have "Suc k - 10 = Suc (k - 10)" by simp
      with True 1(5) show ?thesis by simp
    qed (use 1(5) in simp)
    have "Suc k = 74 \<longrightarrow> ?i = 0"
    proof
      assume "Suc k = 74"
      then have "?s = 2 ^ 64" unfolding s by simp
      with 1(2) show "?i = 0" by (intro next_index(3)) simp
    qed
    then have "length (locator_indices ?i ?s (Suc k)) + Suc k \<le> 75 \<and> last (locator_indices ?i ?s (Suc k)) = 0"
      using k(1) by (intro 1(1) [OF k(2) refl] s order.strict_trans1 [OF next_index(1) 1(2)]) simp_all
    moreover have "locator_indices index step k = index # locator_indices ?i ?s (Suc k)"
      using k(2) by (subst locator_indices.simps) (simp add: Let_def)
    ultimately show ?thesis using locator_indices_hd [of ?i ?s "Suc k"] by simp
  qed
qed

lemma locator_indices_recent:
  "n + k \<le> 10 \<Longrightarrow> n \<le> index \<Longrightarrow> n < length (locator_indices index 1 k) \<and> locator_indices index 1 k ! n = index - n"
proof (induction n arbitrary: index k)
  case 0
  then show ?case using locator_indices_hd [of index 1 k] by (auto simp: hd_conv_nth)
next
  case (Suc n)
  then have "locator_indices index 1 k = index # locator_indices (if index > 1 then index - 1 else 0) 1 (Suc k)"
    by (subst locator_indices.simps) (simp add: Let_def)
  moreover have "(if index > 1 then index - 1 else 0) = index - 1" by simp
  ultimately show ?case using Suc.IH [of "Suc k" "index - 1"] Suc.prems by simp
qed

lemma make_block_locator_hashed:
  assumes h: "hashed C bs" and ne: "bs \<noteq> []" and len: "length bs \<le> 2 ^ 64"
  defines "idx \<equiv> locator_indices (length bs - 1) 1 0"
  shows "make_block_locator C bs = Inr (map (\<lambda>i. hash_of C (bs ! i)) idx)"
    and "hd idx = length bs - 1" "last idx = 0" "sorted_wrt (>) idx" "length idx \<le> 75"
    and "n \<le> 10 \<Longrightarrow> n < length bs \<Longrightarrow> n < length idx \<and> idx ! n = length bs - 1 - n"
proof -
  have "length bs - 1 < 2 ^ 64" using len ne by (cases bs) auto
  from locator_indices_bound [OF this, of 0 1]
  have b: "length idx \<le> 75" "last idx = 0" by (simp_all add: idx_def)
  have hd: "idx \<noteq> []" "hd idx = length bs - 1" using locator_indices_hd by (simp_all add: idx_def)
  then show "hd idx = length bs - 1" "last idx = 0" "length idx \<le> 75" using b by simp_all
  show "sorted_wrt (>) idx" unfolding idx_def by (rule locator_indices_decreasing) simp
  show "n \<le> 10 \<Longrightarrow> n < length bs \<Longrightarrow> n < length idx \<and> idx ! n = length bs - 1 - n"
    using locator_indices_recent [of n 0 "length bs - 1"] unfolding idx_def by simp
  have loop: "locator_loop C bs (length bs - 1) 1 [] = Inr (map (\<lambda>i. hash_of C (bs ! i)) idx)"
    using locator_loop_indices [OF h, of "length bs - 1" "[]" 1] ne by (simp add: idx_def)
  have "block_hash C (hd bs) = Inr (hash_of C (bs ! 0))"
    using hashedD [OF h, of "hd bs"] ne by (simp add: hd_conv_nth)
  moreover have "last (map (\<lambda>i. hash_of C (bs ! i)) idx) = hash_of C (bs ! 0)"
    using b(2) hd(1) by (simp add: last_map)
  ultimately show "make_block_locator C bs = Inr (map (\<lambda>i. hash_of C (bs ! i)) idx)"
    using ne loop by (simp add: make_block_locator_def)
qed

end
