(* ===== verification/BranchStore.thy ===== *)
theory BranchStore
  imports NetSync TextFile
begin

section \<open>Side branches (branch_store.hpp, branch_store.cpp)\<close>

text \<open>
  The blocks kept outside the active chain and their file \<^verbatim>\<open>sidebranches-v1.dat\<close>, one block response
  in hexadecimal per line. A block is identified by the hash of its header: \<open>put\<close> keeps the block that
  came first. The lemmas show that the hashes stay distinct, what \<open>put\<close> and \<open>remove_active\<close> leave, and that
  the file reloads to the same blocks.
\<close>

type_synonym branch_store = "stored_block text_store"

definition BRANCH_MAGIC :: string where "BRANCH_MAGIC = ''BINARYCOIN_SIDE_BRANCH_V1''"

definition branch_path :: string where "branch_path = ''sidebranches-v1.dat''"

definition branch_put :: "crypto \<Rightarrow> stored_block \<Rightarrow> (branch_store, unit) sx" where
  "branch_put C block =
     bindS (liftS (block_hash C block)) (\<lambda>hash.
     bindS (getS ts_items) (\<lambda>blocks.
     bindS (liftS (find_block C blocks hash)) (\<lambda>found.
     case found of None \<Rightarrow> push_item block | Some _ \<Rightarrow> returnS ())))"

definition parse_branch_line :: "string \<Rightarrow> stored_block res" where
  "parse_branch_line hex =
     bindE (hex_to_bytes hex) (\<lambda>bs.
     bindE (deserialize_stored_blocks bs) (\<lambda>decoded.
       if length decoded \<noteq> 1 then Inl (RuntimeError ''Invalid side-branch record'') else Inr (hd decoded)))"

definition branch_read_line :: "crypto \<Rightarrow> string \<Rightarrow> (branch_store, unit) sx" where
  "branch_read_line C hex = bindS (liftS (parse_branch_line hex)) (branch_put C)"

definition branch_load :: "crypto \<Rightarrow> (branch_store, unit) sx" where
  "branch_load C = load_text branch_path BRANCH_MAGIC ''Unable to open side-branch store''
     ''Invalid side-branch store header'' (branch_read_line C)"

definition branch_line :: "stored_block \<Rightarrow> string res" where
  "branch_line block = bindE (serialize_stored_blocks [block] 0 1) (\<lambda>bs. Inr (bytes_to_hex bs))"

definition branch_save :: "(branch_store, unit) sx" where
  "branch_save =
     bindS (getS ts_items) (\<lambda>blocks.
       on_file (save_text branch_path ''Unable to create side-branch store''
         [''Unable to flush side-branch store'', ''Unable to close side-branch store'']
         (Inr BRANCH_MAGIC # map branch_line blocks)))"

definition branch_put_many :: "crypto \<Rightarrow> stored_block list \<Rightarrow> (branch_store, unit) sx" where
  "branch_put_many C blocks = bindS (foldS (branch_put C) blocks) (\<lambda>_. branch_save)"

definition without_hashes :: "crypto \<Rightarrow> string list \<Rightarrow> stored_block list \<Rightarrow> stored_block list res" where
  "without_hashes C active_hashes blocks =
     bindE (mapE (\<lambda>b. bindE (block_hash C b) (\<lambda>h. Inr (b, h))) blocks) (\<lambda>pairs.
       Inr (map fst (filter (\<lambda>(b, h). h \<notin> set active_hashes) pairs)))"

definition branch_remove_active :: "crypto \<Rightarrow> stored_block list \<Rightarrow> (branch_store, unit) sx" where
  "branch_remove_active C active_blocks =
     bindS (liftS (mapE (block_hash C) active_blocks)) (\<lambda>active_hashes.
     bindS (getS ts_items) (\<lambda>blocks.
     bindS (liftS (without_hashes C active_hashes blocks)) (\<lambda>kept.
     bindS (set_items kept) (\<lambda>_.
     branch_save))))"

definition branch_find :: "crypto \<Rightarrow> stored_block list \<Rightarrow> string \<Rightarrow> stored_block option res" where
  "branch_find C blocks hash = find_block C blocks hash"

subsection \<open>Hashes stay distinct\<close>

definition branches_ok :: "crypto \<Rightarrow> stored_block list \<Rightarrow> bool" where
  "branches_ok C bs \<longleftrightarrow> hashed C bs \<and> distinct (map (hash_of C) bs)"

lemma hashed_simps [simp]:
  "hashed C []" "hashed C (b # bs) \<longleftrightarrow> (\<exists>h. block_hash C b = Inr h) \<and> hashed C bs"
  "hashed C (as @ bs) \<longleftrightarrow> hashed C as \<and> hashed C bs"
  by (auto simp: hashed_def)

lemma find_none_iff: "hashed C bs \<Longrightarrow> find_block C bs h = Inr None \<longleftrightarrow> h \<notin> set (map (hash_of C) bs)"
  by (auto simp: find_block_hashed find_None_iff)

lemma branch_put_eq:
  assumes "hashed C (ts_items s)" "block_hash C b = Inr h"
  shows "branch_put C b s = (Inr (), s \<lparr> ts_items :=
    (if h \<in> set (map (hash_of C) (ts_items s)) then ts_items s else ts_items s @ [b]) \<rparr>)"
proof (cases "h \<in> set (map (hash_of C) (ts_items s))")
  case True
  obtain r where r: "find_block C (ts_items s) h = Inr r" using find_block_hashed [OF assms(1)] by blast
  then have "r \<noteq> None" using find_none_iff [OF assms(1), of h] True by auto
  with r True assms(2) show ?thesis by (auto simp: branch_put_def sx_defs)
next
  case False
  then have "find_block C (ts_items s) h = Inr None" using find_none_iff [OF assms(1)] by blast
  with False assms(2) show ?thesis by (simp add: branch_put_def sx_defs push_item_def)
qed

lemma hash_of_eq: "block_hash C b = Inr h \<Longrightarrow> hash_of C b = h"
  by (simp add: hash_of_def)

lemma branch_put_Inr:
  assumes "branch_put C b s = (Inr r, t)" "branches_ok C (ts_items s)"
  shows "branches_ok C (ts_items t) \<and> ts_disk t = ts_disk s \<and> hash_of C b \<in> set (map (hash_of C) (ts_items t)) \<and>
    set (ts_items t) \<subseteq> insert b (set (ts_items s)) \<and>
    (\<forall>h x. find_block C (ts_items s) h = Inr (Some x) \<longrightarrow> find_block C (ts_items t) h = Inr (Some x))"
proof -
  obtain h where h: "block_hash C b = Inr h"
    using assms(1) by (auto simp: branch_put_def sx_defs split: sum.splits)
  have hs: "hashed C (ts_items s)" using assms(2) by (simp add: branches_ok_def)
  have t: "t = s \<lparr> ts_items := (if h \<in> set (map (hash_of C) (ts_items s)) then ts_items s else ts_items s @ [b]) \<rparr>"
    using branch_put_eq [OF hs h] assms(1) by simp
  have "find_block C (bs @ [b]) k = Inr (Some x)" if "find_block C bs k = Inr (Some x)" for bs k x
    using that by (induction bs) (auto split: if_splits)
  then show ?thesis
    using assms(2) h unfolding t by (auto simp: branches_ok_def hash_of_eq [OF h])
qed

lemma without_hashes_Inr:
  assumes "hashed C bs"
  shows "without_hashes C hs bs = Inr (filter (\<lambda>b. hash_of C b \<notin> set hs) bs)"
proof -
  have "mapE (\<lambda>b. bindE (block_hash C b) (\<lambda>h. Inr (b, h))) bs = Inr (map (\<lambda>b. (b, hash_of C b)) bs)"
    by (rule mapE_total) (simp add: hashedD [OF assms])
  then show ?thesis by (simp add: without_hashes_def filter_map comp_def)
qed

lemma branch_save_items: "branch_save s = (r, t) \<Longrightarrow> ts_items t = ts_items s"
  by (auto simp: branch_save_def bindS_def getS_def on_file_def split: prod.splits)

lemma branch_remove_Inr:
  assumes "branch_remove_active C active s = (Inr r, t)" "branches_ok C (ts_items s)" "hashed C active"
  shows "ts_items t = filter (\<lambda>b. hash_of C b \<notin> hash_of C ` set active) (ts_items s) \<and> branches_ok C (ts_items t)"
proof -
  have hs: "hashed C (ts_items s)" using assms(2) by (simp add: branches_ok_def)
  have "mapE (block_hash C) active = Inr (map (hash_of C) active)"
    by (rule mapE_total) (simp add: hashedD [OF assms(3)])
  then have "ts_items t = filter (\<lambda>b. hash_of C b \<notin> hash_of C ` set active) (ts_items s)"
    using assms(1) by (auto simp: branch_remove_active_def sx_defs set_items_def without_hashes_Inr [OF hs]
        split: prod.splits sum.splits dest!: branch_save_items)
  moreover have "branches_ok C (filter P (ts_items s))" for P
    using assms(2) by (auto simp: branches_ok_def hashed_def distinct_map intro: inj_on_subset)
  ultimately show ?thesis by simp
qed

subsection \<open>The file\<close>

lemma parse_branch_line_show:
  assumes "stored_ok b" "branch_line b = Inr l"
  shows "parse_branch_line l = Inr b \<and> newline \<notin> set l \<and> l \<noteq> []"
proof -
  obtain bs where bs: "serialize_stored_blocks [b] 0 1 = Inr bs" and l: "l = bytes_to_hex bs"
    using assms(2) by (auto simp: branch_line_def)
  have d: "deserialize_stored_blocks bs = Inr [b]"
    using block_response [OF _ _ _ bs] assms(1) by (simp add: MAX_BLOCKS_PER_RESPONSE_def)
  have "bs \<noteq> []"
    using bs serialize_stored_blocks_iff [of 0 "[b]" 1 bs]
    by (auto simp: Let_def enc_list_def append_compact_size_def)
  moreover have "newline \<notin> set l"
    using bytes_to_hex_lower [of bs] unfolding l by (auto simp: list_all_iff lower_hex_def)
  moreover have "l \<noteq> []"
    using \<open>bs \<noteq> []\<close> unfolding l by (metis length_0_conv length_bytes_to_hex mult_eq_0_iff zero_neq_numeral)
  ultimately show ?thesis
    using d by (simp add: parse_branch_line_def l)
qed

lemma branch_read_lines:
  "list_all2 (\<lambda>b l. parse_branch_line l = Inr b) bs ls \<Longrightarrow> branches_ok C (ts_items s @ bs) \<Longrightarrow>
     foldS (branch_read_line C) ls s = (Inr (), s \<lparr> ts_items := ts_items s @ bs \<rparr>)"
proof (induction bs ls arbitrary: s rule: list_all2_induct)
  case (Cons b bs l ls)
  from Cons(4) have hs: "hashed C (ts_items s)" and d: "hash_of C b \<notin> set (map (hash_of C) (ts_items s))"
    by (auto simp: branches_ok_def)
  from Cons(4) obtain h where h: "block_hash C b = Inr h" by (auto simp: branches_ok_def)
  have "branch_read_line C l s = (Inr (), s \<lparr> ts_items := ts_items s @ [b] \<rparr>)"
    using Cons(1) branch_put_eq [OF hs h] d hash_of_eq [OF h] by (simp add: branch_read_line_def sx_defs)
  with Cons(3) [of "s \<lparr> ts_items := ts_items s @ [b] \<rparr>"] Cons(4) show ?case by (simp add: sx_defs)
qed (simp add: sx_defs)

lemma branches_reload:
  assumes "branch_save s = (Inr (), t)" "disk_ok (ts_disk s)" "branches_ok C (ts_items s)"
    and "\<forall>b \<in> set (ts_items s). stored_ok b"
  shows "branch_load C (reopened t) = (Inr (), (reopened t) \<lparr> ts_items := ts_items s \<rparr>)"
proof -
  have sv: "on_file (save_text branch_path ''Unable to create side-branch store''
         [''Unable to flush side-branch store'', ''Unable to close side-branch store'']
         (Inr BRANCH_MAGIC # map branch_line (ts_items s))) s = (Inr (), t)"
    using assms(1) by (simp add: branch_save_def sx_defs)
  have show_ok: "parse_branch_line l = Inr b \<and> newline \<notin> set l \<and> l \<noteq> []"
    if "b \<in> set (ts_items s)" "branch_line b = Inr l" for b l
    using that assms(4) parse_branch_line_show by blast
  obtain ls where ls: "list_all2 (\<lambda>b l. branch_line b = Inr l) (ts_items s) ls"
    and ld: "load_text branch_path BRANCH_MAGIC ''Unable to open side-branch store''
     ''Invalid side-branch store header'' (branch_read_line C) (reopened t) = foldS (branch_read_line C) ls (reopened t)"
    using save_then_load [OF sv assms(2), of "''Unable to open side-branch store''" "''Invalid side-branch store header''" "branch_read_line C"]
      show_ok by (auto simp: BRANCH_MAGIC_def)
  have "list_all2 (\<lambda>b l. parse_branch_line l = Inr b) (ts_items s) ls"
    by (rule list.rel_mono_strong [OF ls]) (use show_ok in blast)
  from branch_read_lines [OF this, of C "reopened t"] assms(3) ld show ?thesis
    by (simp add: branch_load_def reopened_def)
qed

end
