(* ===== verification/Mempool.thy ===== *)
theory Mempool
  imports ChainRules TextFile "HOL-Library.Sublist"
begin

section \<open>The mempool (mempool.hpp, mempool.cpp)\<close>

text \<open>
  \<open>mempool\<close> is the object \<^verbatim>\<open>TestnetMempool\<close>: the pending transactions in order and the file
  \<^verbatim>\<open>mempool-v1.tsv\<close>. The invariant \<open>mempool_ok\<close> says that the transactions apply one after the other to
  the coins of the chain at the next height; the lemmas show that \<open>add\<close> and \<open>revalidate\<close> establish it,
  what they leave when they throw, that such a pool is exactly what a miner can collect the
  fees of, and that the file reloads to the same pool.
\<close>

type_synonym mempool = "transaction text_store"

definition MEMPOOL_MAGIC :: string where "MEMPOOL_MAGIC = ''BINARYCOIN_TESTNET_MEMPOOL_V1''"

definition mempool_path :: string where "mempool_path = ''mempool-v1.tsv''"

definition mempool_read_line :: "string \<Rightarrow> (mempool, unit) sx" where
  "mempool_read_line line =
     bindS (liftS (bindE (hex_to_bytes line) deserialize_transaction)) push_item"

definition mempool_load :: "(mempool, unit) sx" where
  "mempool_load = load_text mempool_path MEMPOOL_MAGIC ''Unable to open mempool file'' ''Invalid mempool file''
     mempool_read_line"

definition mempool_line :: "transaction \<Rightarrow> string res" where
  "mempool_line t = bindE (serialize_transaction t) (\<lambda>b. Inr (bytes_to_hex b))"

definition mempool_save :: "(mempool, unit) sx" where
  "mempool_save =
     bindS (getS ts_items) (\<lambda>ts.
       on_file (save_text mempool_path ''Unable to create mempool file'' [''Unable to write mempool file'']
         (Inr MEMPOOL_MAGIC # map mempool_line ts)))"

definition mempool_clear :: "(mempool, unit) sx" where
  "mempool_clear = bindS (set_items []) (\<lambda>_. mempool_save)"

definition effective_utxos :: "crypto \<Rightarrow> transaction list \<Rightarrow> utxo_set \<Rightarrow> u64 \<Rightarrow> utxo_set res" where
  "effective_utxos C transactions chain_utxos spend_height =
     (case apply_all C spend_height transactions chain_utxos of
        (Inl e, _) \<Rightarrow> Inl e
      | (Inr _, utxos) \<Rightarrow> Inr utxos)"

definition total_fees :: "crypto \<Rightarrow> transaction list \<Rightarrow> utxo_set \<Rightarrow> u64 \<Rightarrow> int res" where
  "total_fees C transactions chain_utxos spend_height =
     bindE (foldE (collect_fee C spend_height ''Mempool fee overflow'') transactions (0, chain_utxos))
       (\<lambda>(total, _). Inr total)"

definition check_new_txid :: "crypto \<Rightarrow> transaction \<Rightarrow> transaction \<Rightarrow> unit \<Rightarrow> unit res" where
  "check_new_txid C t existing _ =
     bindE (txid C existing) (\<lambda>i. bindE (txid C t) (\<lambda>j.
       if i = j then Inl (RuntimeError ''Transaction already in mempool'') else Inr ()))"

definition mempool_add :: "crypto \<Rightarrow> transaction \<Rightarrow> utxo_set \<Rightarrow> u64 \<Rightarrow> (mempool, unit) sx" where
  "mempool_add C t chain_utxos spend_height =
     (if is_coinbase t then throwS (RuntimeError ''Coinbase transactions cannot enter mempool'')
      else
      bindS (getS ts_items) (\<lambda>transactions.
      bindS (liftS (foldE (check_new_txid C t) transactions ())) (\<lambda>_.
      bindS (liftS (effective_utxos C transactions chain_utxos spend_height)) (\<lambda>result.
      bindS (liftS (fst (apply_transaction C t spend_height result))) (\<lambda>_.
      bindS (push_item t) (\<lambda>_.
      mempool_save))))))"

fun revalidate_loop ::
  "crypto \<Rightarrow> u64 \<Rightarrow> string set \<Rightarrow> transaction list \<Rightarrow> utxo_set \<Rightarrow> transaction list res" where
  "revalidate_loop C h confirmed_txids [] effective = Inr []"
| "revalidate_loop C h confirmed_txids (t # ts) effective =
     bindE (txid C t) (\<lambda>i.
     if i \<in> confirmed_txids then revalidate_loop C h confirmed_txids ts effective
     else case apply_transaction C t h effective of
       (Inl _, effective') \<Rightarrow> revalidate_loop C h confirmed_txids ts effective'
     | (Inr _, effective') \<Rightarrow>
         bindE (revalidate_loop C h confirmed_txids ts effective') (\<lambda>retained. Inr (t # retained)))"

definition mempool_revalidate ::
  "crypto \<Rightarrow> utxo_set \<Rightarrow> u64 \<Rightarrow> string set \<Rightarrow> (mempool, unit) sx" where
  "mempool_revalidate C chain_utxos spend_height confirmed_txids =
     bindS (getS ts_items) (\<lambda>ts.
     bindS (liftS (revalidate_loop C spend_height confirmed_txids ts chain_utxos)) (\<lambda>retained.
     bindS (set_items retained) (\<lambda>_.
     mempool_save)))"

subsection \<open>The invariant\<close>

definition mempool_ok :: "crypto \<Rightarrow> utxo_set \<Rightarrow> u64 \<Rightarrow> transaction list \<Rightarrow> bool" where
  "mempool_ok C u h ts \<longleftrightarrow> (\<exists>u'. effective_utxos C ts u h = Inr u')"

lemma effective_Inr: "effective_utxos C ts u h = Inr u' \<longleftrightarrow> apply_all C h ts u = (Inr (), u')"
  by (auto simp: effective_utxos_def split: prod.splits sum.splits)

lemma apply_all_append:
  "apply_all C h (as @ bs) u = bindS (apply_all C h as) (\<lambda>_. apply_all C h bs) u"
proof (induction as arbitrary: u)
  case (Cons a as)
  then show ?case by (auto simp: bindS_def split: prod.splits sum.splits)
qed (simp add: sx_defs)

lemma effective_snoc:
  "effective_utxos C ts u h = Inr v \<Longrightarrow> apply_transaction C t h v = (Inr f, w) \<Longrightarrow>
     effective_utxos C (ts @ [t]) u h = Inr w"
  by (simp add: effective_Inr apply_all_append sx_defs)

lemma on_file_items: "on_file m s = (r, t) \<Longrightarrow> ts_items t = ts_items s"
  by (auto simp: on_file_def split: prod.splits)

lemma mempool_save_items: "mempool_save s = (r, t) \<Longrightarrow> ts_items t = ts_items s"
  by (auto simp: mempool_save_def bindS_def getS_def dest: on_file_items)

lemma check_new_txids:
  "foldE (check_new_txid C t) ts () = Inr r \<longleftrightarrow> r = () \<and>
     (\<forall>x \<in> set ts. \<exists>i j. txid C x = Inr i \<and> txid C t = Inr j \<and> i \<noteq> j)"
  by (induction ts) (auto simp: check_new_txid_def)

text \<open>A returning \<open>add\<close> appends the transaction to a pool that applies, and the longer pool applies.\<close>

lemma mempool_add_Inr:
  assumes "mempool_add C t u h s = (Inr r, s')"
  shows "ts_items s' = ts_items s @ [t] \<and> mempool_ok C u h (ts_items s) \<and> mempool_ok C u h (ts_items s') \<and>
    \<not> is_coinbase t \<and> (\<forall>x \<in> set (ts_items s). txid C x \<noteq> txid C t)"
proof -
  obtain v f w where nc: "\<not> is_coinbase t" and ids: "foldE (check_new_txid C t) (ts_items s) () = Inr ()"
    and v: "effective_utxos C (ts_items s) u h = Inr v"
    and a: "apply_transaction C t h v = (Inr f, w)"
    and sv: "mempool_save (s \<lparr> ts_items := ts_items s @ [t] \<rparr>) = (Inr (), s')"
  proof -
    show thesis
      using assms that
      by (auto simp: mempool_add_def bindS_Inr getS_def liftS_def push_item_def modifyS_def throwS_def
          split: if_splits) (metis prod.collapse)
  qed
  have "ts_items s' = ts_items s @ [t]"
    using mempool_save_items [OF sv] by simp
  with nc v effective_snoc [OF v a] ids show ?thesis
    by (auto simp: mempool_ok_def check_new_txids)
qed

text \<open>A throwing \<open>add\<close> leaves the pool as it was, or has appended and failed to write the file.\<close>

lemma mempool_add_Inl:
  assumes "mempool_add C t u h s = (Inl e, s')"
  shows "s' = s \<or> (ts_items s' = ts_items s @ [t] \<and> mempool_ok C u h (ts_items s') \<and>
    fst (mempool_save (s \<lparr> ts_items := ts_items s @ [t] \<rparr>)) = Inl e)"
proof (cases "s' = s")
  case False
  obtain v f w where v: "effective_utxos C (ts_items s) u h = Inr v"
    and a: "apply_transaction C t h v = (Inr f, w)"
    and sv: "mempool_save (s \<lparr> ts_items := ts_items s @ [t] \<rparr>) = (Inl e, s')"
  proof -
    show thesis
      using assms that False
      by (auto simp: mempool_add_def bindS_Inl bindS_Inr getS_def liftS_def push_item_def modifyS_def throwS_def
          split: if_splits) (metis prod.collapse)
  qed
  with effective_snoc [OF v a] mempool_save_items [OF sv] show ?thesis
    by (auto simp: mempool_ok_def)
qed simp

subsection \<open>Revalidation\<close>

lemma revalidate_subseq: "revalidate_loop C h ids ts u = Inr kept \<Longrightarrow> subseq kept ts"
proof (induction ts arbitrary: u kept)
  case (Cons t ts)
  then obtain i where i: "txid C t = Inr i" by auto
  show ?case
  proof (cases "i \<in> ids")
    case True
    with Cons i show ?thesis by (auto intro: list_emb_Cons)
  next
    case False
    with Cons i show ?thesis by (auto intro: list_emb_Cons split: prod.splits sum.splits)
  qed
qed auto

lemma revalidate_unconfirmed:
  "revalidate_loop C h ids ts u = Inr kept \<Longrightarrow> t \<in> set kept \<Longrightarrow> \<exists>i. txid C t = Inr i \<and> i \<notin> ids"
proof (induction ts arbitrary: u kept)
  case (Cons a ts)
  then show ?case by (fastforce split: if_splits prod.splits sum.splits)
qed auto

text \<open>
  When no pending transaction's identifier is among the coins, \<open>apply_transaction\<close> never reports a
  clashing output, so a dropped transaction leaves the running set alone and what is kept applies
  from the chain's coins.
\<close>

definition fresh_ids :: "crypto \<Rightarrow> utxo_set \<Rightarrow> transaction list \<Rightarrow> bool" where
  "fresh_ids C u ts \<longleftrightarrow> distinct (map (txid C) ts) \<and>
     (\<forall>t \<in> set ts. \<forall>p \<in> fst ` set u. txid C t \<noteq> Inr (op_txid p))"

lemma add_outputs_fresh:
  "(\<forall>p \<in> fst ` set u. op_txid p \<noteq> s) \<Longrightarrow> k + length outs \<le> 2 ^ 32 \<Longrightarrow>
     \<exists>u'. add_outputs s h cb msg k outs u = (Inr (), u')"
proof -
  have "(\<forall>p \<in> fst ` set u. op_txid p = s \<longrightarrow> (\<exists>j < k. op_index p = word_of_nat j)) \<Longrightarrow>
     k + length outs \<le> 2 ^ 32 \<Longrightarrow> \<exists>u'. add_outputs s h cb msg k outs u = (Inr (), u')" for k
  proof (induction outs arbitrary: k u)
    case Nil
    then show ?case by (simp add: sx_defs)
  next
    case (Cons out outs)
    have new: "\<not> map_contains u (OutPoint s (word_of_nat k))"
    proof
      assume "map_contains u (OutPoint s (word_of_nat k))"
      then have "OutPoint s (word_of_nat k) \<in> fst ` set u"
        by (auto simp: map_contains_def map_of_eq_None_iff)
      with Cons.prems(1) have "\<exists>j < k. op_index (OutPoint s (word_of_nat k)) = word_of_nat j"
        by (metis outpoint.sel(1))
      then obtain j where j: "j < k" "(word_of_nat k :: u32) = word_of_nat j" by auto
      have "unat (word_of_nat k :: u32) = k" "unat (word_of_nat j :: u32) = j"
        using j(1) Cons.prems(2) by (simp_all add: unat_of_nat)
      with j show False by simp
    qed
    let ?v = "map_emplace (OutPoint s (word_of_nat k)) \<lparr> coin_output = out, coin_height = h, coin_coinbase = cb \<rparr> u"
    have "\<forall>p \<in> fst ` set ?v. op_txid p = s \<longrightarrow> (\<exists>j < Suc k. op_index p = word_of_nat j)"
    proof (intro ballI impI)
      fix p assume p: "p \<in> fst ` set ?v" "op_txid p = s"
      show "\<exists>j < Suc k. op_index p = word_of_nat j"
      proof (cases "p = OutPoint s (word_of_nat k)")
        case False
        with p have "p \<in> fst ` set u" by (simp add: keys_emplace)
        with Cons.prems(1) p(2) show ?thesis using less_SucI by metis
      qed auto
    qed
    from Cons.IH [OF this] Cons.prems(2) new show ?case
      by (simp add: sx_defs)
  qed
  then show "(\<forall>p \<in> fst ` set u. op_txid p \<noteq> s) \<Longrightarrow> k + length outs \<le> 2 ^ 32 \<Longrightarrow> ?thesis" by blast
qed

lemma del_all_keys: "fst ` set (std.del_all ps u) \<subseteq> fst ` set u"
proof -
  have "set (std.del_all ps u) \<subseteq> set u"
  proof (induction ps arbitrary: u)
    case (Cons p ps)
    have "set (map_erase p u) \<subseteq> set u" by (auto simp: map_erase_def)
    with Cons [of "map_erase p u"] show ?case by (simp add: std.del_all_def)
  qed (simp add: std.del_all_def)
  then show ?thesis by blast
qed

lemma apply_fresh_Inl:
  assumes a: "apply_transaction C t h u = (Inl e, u')" and C: "crypto_ok C"
    and f: "\<forall>p \<in> fst ` set u. txid C t \<noteq> Inr (op_txid p)"
  shows "u' = u"
proof (rule ccontr)
  assume ne: "u' \<noteq> u"
  let ?d = "std.del_all (prevs t) u"
  have v: "validate_transaction_structure t = Inr ()"
    using a ne by (cases "validate_transaction_structure t") (auto simp: apply_transaction_def sx_defs)
  have nc: "\<not> is_coinbase t"
    using a ne v by (cases "is_coinbase t") (auto simp: apply_transaction_def sx_defs)
  obtain seen total' where chk: "foldE (check_input C t h u) [0..<length (tx_inputs t)] ({}, 0) = Inr (seen, total')"
    using a ne v nc
    by (cases "foldE (check_input C t h u) [0..<length (tx_inputs t)] ({}, 0)") (auto simp: apply_transaction_def sx_defs)
  obtain out where out: "sum_outputs t = Inr out"
    using a ne v nc chk by (cases "sum_outputs t") (auto simp: apply_transaction_def sx_defs)
  have le: "\<not> total' < out"
    using a ne v nc chk out by (cases "total' < out") (auto simp: apply_transaction_def sx_defs)
  obtain s where s: "txid C t = Inr s"
    using C v by (auto simp: txid_def raw_hash_ok validate_Inr)
  have erase: "foldl (\<lambda>u i. map_erase (ti_previous_output i) u) u (tx_inputs t) = ?d"
    by (simp add: foldl_erase_prevs prevs_def)
  have "apply_transaction C t h u =
     (case add_outputs s h False ''Duplicate transaction output identifier'' 0 (tx_outputs t) ?d of
        (Inl e, w) \<Rightarrow> (Inl e, w) | (Inr _, w) \<Rightarrow> (Inr (total' - out), w))"
    unfolding apply_transaction_def Let_def
    by (simp add: sx_defs v nc chk out le s erase split: prod.splits sum.splits)
  then have add: "add_outputs s h False ''Duplicate transaction output identifier'' 0 (tx_outputs t) ?d = (Inl e, u')"
    using a
    by (cases "add_outputs s h False ''Duplicate transaction output identifier'' 0 (tx_outputs t) ?d")
       (simp split: sum.splits)
  have fresh: "\<forall>p \<in> fst ` set ?d. op_txid p \<noteq> s"
  proof
    fix p assume "p \<in> fst ` set ?d"
    then have "p \<in> fst ` set u" using del_all_keys by (rule rev_subsetD)
    with f s show "op_txid p \<noteq> s" by auto
  qed
  have "0 + length (tx_outputs t) \<le> 2 ^ 32"
    using v valid_outputs_32 by (simp add: validate_Inr)
  from add_outputs_fresh [OF fresh this] obtain w where
    "add_outputs s h False ''Duplicate transaction output identifier'' 0 (tx_outputs t) ?d = (Inr (), w)"
    by metis
  with add show False by simp
qed

lemma apply_keys:
  assumes a: "apply_transaction C t h u = (Inr paid, u')" and srt: "sorted_keys u"
  shows "sorted_keys u' \<and> (\<forall>p \<in> fst ` set u'. p \<in> fst ` set u \<or> txid C t = Inr (op_txid p))"
proof -
  note ap = apply_transaction_Inr [OF a srt]
  obtain s where vt: "valid_transaction t" and s: "txid C t = Inr s"
    and u': "u' = std.add_all (new_entries s h False 0 (tx_outputs t)) (std.del_all (prevs t) u)"
    using ap by (auto simp: applies_def)
  have "fst ` set (std.add_all es m) \<subseteq> fst ` set m \<union> fst ` set es" for es and m :: utxo_set
  proof (induction es arbitrary: m)
    case (Cons e es)
    from Cons [of "map_emplace (fst e) (snd e) m"] show ?case
      by (simp add: std.add_all_def keys_emplace)
  qed (simp add: std.add_all_def)
  then have "p \<in> fst ` set u' \<Longrightarrow> p \<in> fst ` set u \<or> p \<in> fst ` set (new_entries s h False 0 (tx_outputs t))" for p
    unfolding u' using del_all_keys [of "prevs t" u] by blast
  moreover have "p \<in> fst ` set (new_entries s h False 0 (tx_outputs t)) \<Longrightarrow> op_txid p = s" for p
    by (auto simp: new_entries_key)
  ultimately show ?thesis
    using s applies_facts(1) [OF ap srt] by blast
qed

lemma revalidate_applies:
  assumes "crypto_ok C"
  shows "revalidate_loop C h ids ts u = Inr kept \<Longrightarrow> sorted_keys u \<Longrightarrow> fresh_ids C u ts \<Longrightarrow>
     \<exists>u'. apply_all C h kept u = (Inr (), u')"
proof (induction ts arbitrary: u kept)
  case Nil
  then show ?case by (simp add: sx_defs)
next
  case (Cons t ts)
  have fr: "fresh_ids C u ts" using Cons.prems(3) by (auto simp: fresh_ids_def)
  obtain i where i: "txid C t = Inr i" using Cons.prems(1) by auto
  show ?case
  proof (cases "i \<in> ids")
    case True
    with Cons.IH [OF _ Cons.prems(2) fr] Cons.prems(1) i show ?thesis by simp
  next
    case False
    obtain r v where a: "apply_transaction C t h u = (r, v)" by (cases "apply_transaction C t h u")
    show ?thesis
    proof (cases r)
      case (Inl e)
      then have "apply_transaction C t h u = (Inl e, v)" using a by simp
      then have "v = u"
        by (rule apply_fresh_Inl [OF _ assms]) (use Cons.prems(3) in \<open>auto simp: fresh_ids_def\<close>)
      with Cons.IH [OF _ Cons.prems(2) fr] Cons.prems(1) i False a Inl show ?thesis by simp
    next
      case (Inr paid)
      obtain kept' where k: "kept = t # kept'" "revalidate_loop C h ids ts v = Inr kept'"
        using Cons.prems(1) i False a Inr by auto
      have ak: "sorted_keys v" "\<forall>p \<in> fst ` set v. p \<in> fst ` set u \<or> txid C t = Inr (op_txid p)"
        using apply_keys [of C t h u paid v] a Inr Cons.prems(2) by auto
      have "fresh_ids C v ts"
        unfolding fresh_ids_def
      proof (intro conjI ballI)
        show "distinct (map (txid C) ts)" using fr by (simp add: fresh_ids_def)
        fix x p assume x: "x \<in> set ts" and p: "p \<in> fst ` set v"
        show "txid C x \<noteq> Inr (op_txid p)"
        proof (cases "p \<in> fst ` set u")
          case True
          with x fr show ?thesis by (auto simp: fresh_ids_def)
        next
          case False
          with ak(2) p have "txid C t = Inr (op_txid p)" by blast
          moreover have "txid C t \<notin> set (map (txid C) ts)"
            using Cons.prems(3) by (simp add: fresh_ids_def)
          ultimately show ?thesis using x by (metis image_eqI set_map)
        qed
      qed
      from Cons.IH [OF k(2) ak(1) this] a Inr k(1) show ?thesis
        by (simp add: sx_defs)
    qed
  qed
qed

lemma mempool_revalidate_Inr:
  assumes "mempool_revalidate C u h ids s = (Inr r, s')"
  shows "subseq (ts_items s') (ts_items s) \<and>
    (\<forall>t \<in> set (ts_items s'). \<exists>i. txid C t = Inr i \<and> i \<notin> ids) \<and>
    (crypto_ok C \<longrightarrow> sorted_keys u \<longrightarrow> fresh_ids C u (ts_items s) \<longrightarrow> mempool_ok C u h (ts_items s'))"
proof -
  obtain kept where k: "revalidate_loop C h ids (ts_items s) u = Inr kept" "ts_items s' = kept"
    using assms by (auto simp: mempool_revalidate_def bindS_Inr getS_def liftS_def set_items_def modifyS_def
        dest!: mempool_save_items)
  with revalidate_subseq [OF k(1)] revalidate_unconfirmed [OF k(1)] revalidate_applies [OF _ k(1)]
  show ?thesis by (auto simp: mempool_ok_def effective_Inr)
qed

subsection \<open>Mining the pool\<close>

lemma collect_fees_message:
  "foldE (collect_fee C h m) ts st = Inr r \<longleftrightarrow> foldE (collect_fee C h m') ts st = Inr r"
proof (induction ts arbitrary: st)
  case (Cons t ts)
  have "collect_fee C h m t st = Inr x \<longleftrightarrow> collect_fee C h m' t st = Inr x" for x
    by (cases st; cases x) (auto simp: collect_fee_Inr)
  with Cons show ?case by simp
qed simp

lemma total_fees_Inr:
  assumes "total_fees C ts u h = Inr f" "sorted_keys u"
  shows "\<exists>u'. effective_utxos C ts u h = Inr u' \<and> utxo_total u' + f = utxo_total u \<and> 0 \<le> f \<and> f \<le> MAX_MONEY \<and>
    foldE (collect_fee C h ''Candidate block fee overflow'') ts (0, u) = Inr (f, u')"
proof -
  obtain u' where fd: "foldE (collect_fee C h ''Mempool fee overflow'') ts (0, u) = Inr (f, u')"
    using assms(1) by (auto simp: total_fees_def)
  have "0 \<le> MAX_MONEY" by (simp add: amount_consts)
  with collect_fees [OF fd assms(2)] collect_fees_apply_all [OF fd] fd
    collect_fees_message [of C h "''Mempool fee overflow''" ts "(0, u)" _ "''Candidate block fee overflow''"]
  show ?thesis by (auto simp: effective_Inr)
qed

subsection \<open>The file reloads to the pool\<close>

lemma plain_hex: "newline \<notin> set (bytes_to_hex b)"
  using bytes_to_hex_lower [of b] by (auto simp: list_all_iff lower_hex_def char_le_iff)

lemma bytes_to_hex_nonempty: "b \<noteq> [] \<Longrightarrow> bytes_to_hex b \<noteq> []"
  using length_bytes_to_hex [of b] by (cases b) (auto simp del: length_bytes_to_hex)

lemma enc_transaction_nonempty: "enc_transaction t \<noteq> []"
  by (simp add: enc_transaction_def append_i32_le_def append_u32_le_def)

lemma mempool_reload:
  assumes "mempool_save s = (Inr (), t)" "disk_ok (ts_disk s)"
  shows "mempool_load (reopened t) = (Inr (), (reopened t) \<lparr> ts_items := map lower_txids (ts_items s) \<rparr>)"
proof -
  have sv: "on_file (save_text mempool_path ''Unable to create mempool file'' [''Unable to write mempool file'']
      (Inr MEMPOOL_MAGIC # map mempool_line (ts_items s))) s = (Inr (), t)"
    using assms(1) by (simp add: mempool_save_def sx_defs)
  have "newline \<notin> set l \<and> l \<noteq> []" if "mempool_line x = Inr l" for x l
    using that by (auto simp: mempool_line_def serialize_transaction_eq plain_hex
        dest: bytes_to_hex_nonempty [OF enc_transaction_nonempty, THEN notE])
  then obtain ls where ls: "list_all2 (\<lambda>x l. mempool_line x = Inr l) (ts_items s) ls"
    and ld: "mempool_load (reopened t) = foldS mempool_read_line ls (reopened t)"
    using save_then_load [OF sv assms(2), of "''Unable to open mempool file''" "''Invalid mempool file''" mempool_read_line]
    by (auto simp: mempool_load_def MEMPOOL_MAGIC_def)
  have read: "mempool_line x = Inr l \<Longrightarrow>
      mempool_read_line l u = (Inr (), u \<lparr> ts_items := ts_items u @ [lower_txids x] \<rparr>)" for x l u
    by (auto simp: mempool_line_def mempool_read_line_def push_item_def sx_defs deserialize_serialize)
  have "foldS mempool_read_line ls (reopened t) =
      (Inr (), (reopened t) \<lparr> ts_items := ts_items (reopened t) @ map lower_txids (ts_items s) \<rparr>)"
    by (rule push_loop) (use ls read in \<open>auto elim: list_all2_mono\<close>)
  then show ?thesis unfolding ld by (simp add: reopened_def)
qed

text \<open>When nothing fails, a pool of well-formed transactions is saved.\<close>

lemma mempool_save_returns:
  assumes "list_all valid_transaction (ts_items s)" "calm (ts_disk s)"
  shows "\<exists>t. mempool_save s = (Inr (), t) \<and> calm (ts_disk t)"
proof -
  have "Inr MEMPOOL_MAGIC # map mempool_line (ts_items s) =
      map Inr (MEMPOOL_MAGIC # map (\<lambda>t. bytes_to_hex (enc_transaction t)) (ts_items s))"
    using assms(1) by (simp add: mempool_line_def list_all_iff serialize_transaction_eq [THEN iffD2])
  then obtain ss where ss: "Inr MEMPOOL_MAGIC # map mempool_line (ts_items s) = map Inr ss" by (rule that)
  have "\<exists>x t. on_file (save_text mempool_path ''Unable to create mempool file'' [''Unable to write mempool file''] (map Inr ss)) s =
      (Inr x, t) \<and> calm (ts_disk t)"
    using assms(2) by (rule returnsD [OF on_file_returns [OF save_text_returns]])
  then show ?thesis by (simp only: mempool_save_def run_get ss unit_eq) auto
qed

end
