(* ===== verification/NetNode.thy ===== *)
theory NetNode
  imports BranchStore BanStore Mempool ChainOps
begin

section \<open>Connections and the simple server (net.cpp)\<close>

text \<open>
  A connection works on the files of one data directory and on one socket: \<open>link\<close>. The objects a
  handler opens over the directory (\<^verbatim>\<open>TestnetChain\<close>, \<^verbatim>\<open>TestnetMempool\<close>, \<^verbatim>\<open>SideBranchStore\<close>, \<^verbatim>\<open>PeerStore\<close>,
  \<^verbatim>\<open>BanStore\<close>) are values here; \<open>on_chain\<close> and \<open>on_text\<close> run an operation of such an object on the
  files as they are now and give the object back. A handler that throws drops its objects and
  leaves the files as the operation left them.

  \<open>serve_request\<close> is one request of \<^verbatim>\<open>TestnetP2pServer::handle_client\<close>, \<open>handle_client\<close> the
  handshake and the loop; its number of rounds is when \<^verbatim>\<open>stop_requested_\<close> is set. The clock and the random nonce are arguments.
  Writing log lines is left out.
\<close>

subsection \<open>Objects over a directory\<close>

definition new_chain :: "string \<Rightarrow> disk \<Rightarrow> chain" where
  "new_chain directory d = \<lparr> cn_directory = directory, cn_blocks = [], cn_utxos = [],
     cn_store = \<lparr> st_disk = d, st_stats = \<lparr> cs_generation = 0, cs_active_height = 0, cs_block_records = 0,
       cs_block_file_bytes = 0, cs_recovered = False, cs_migrated_legacy = False \<rparr> \<rparr> \<rparr>"

definition chain_disk :: "chain \<Rightarrow> disk" where "chain_disk c = st_disk (cn_store c)"

definition chain_over :: "disk \<Rightarrow> chain \<Rightarrow> chain" where
  "chain_over d c = c \<lparr> cn_store := (cn_store c) \<lparr> st_disk := d \<rparr> \<rparr>"

definition on_chain :: "(chain, 'a) sx \<Rightarrow> chain \<Rightarrow> (disk, 'a \<times> chain) sx" where
  "on_chain m c d =
     (case m (chain_over d c) of
        (Inl e, c') \<Rightarrow> (Inl e, chain_disk c')
      | (Inr x, c') \<Rightarrow> (Inr (x, c'), chain_disk c'))"

definition on_text :: "('b text_store, 'a) sx \<Rightarrow> 'b list \<Rightarrow> (disk, 'a \<times> 'b list) sx" where
  "on_text m items d =
     (case m \<lparr> ts_items = items, ts_disk = d \<rparr> of
        (Inl e, s) \<Rightarrow> (Inl e, ts_disk s)
      | (Inr x, s) \<Rightarrow> (Inr (x, ts_items s), ts_disk s))"

definition open_chain :: "crypto \<Rightarrow> string \<Rightarrow> (disk, chain) sx" where
  "open_chain C directory d =
     bindS (on_chain (chain_load C) (new_chain directory d)) (\<lambda>(_, c). returnS c) d"

definition start_chain :: "crypto \<Rightarrow> string \<Rightarrow> (disk, chain) sx" where
  "start_chain C directory d =
     bindS (on_chain (chain_initialize C) (new_chain directory d)) (\<lambda>(_, c). returnS c) d"

definition open_text :: "('b text_store, unit) sx \<Rightarrow> (disk, 'b list) sx" where
  "open_text load = bindS (on_text load []) (\<lambda>(_, items). returnS items)"

definition edit_text :: "('b text_store, unit) sx \<Rightarrow> 'b list \<Rightarrow> (disk, 'b list) sx" where
  "edit_text m items = bindS (on_text m items) (\<lambda>(_, items). returnS items)"

subsection \<open>Connections\<close>

record link =
  lk_directory :: string
  lk_disk :: disk
  lk_socket :: socket

definition disk_do :: "(disk, 'a) sx \<Rightarrow> ('z link_scheme, 'a) sx" where
  "disk_do m s = (case m (lk_disk s) of (r, d) \<Rightarrow> (r, s \<lparr> lk_disk := d \<rparr>))"

definition socket_do :: "(socket, 'a) sx \<Rightarrow> ('z link_scheme, 'a) sx" where
  "socket_do m s = (case m (lk_socket s) of (r, k) \<Rightarrow> (r, s \<lparr> lk_socket := k \<rparr>))"

definition send :: "crypto \<Rightarrow> string \<Rightarrow> bytes \<Rightarrow> ('z link_scheme, unit) sx" where
  "send C command payload = socket_do (send_message C command payload)"

definition send_made :: "crypto \<Rightarrow> string \<Rightarrow> bytes res \<Rightarrow> ('z link_scheme, unit) sx" where
  "send_made C command payload = bindS (liftS payload) (send C command)"

definition receive :: "crypto \<Rightarrow> ('z link_scheme, p2p_message) sx" where
  "receive C = socket_do (receive_message C)"

definition require :: "bool \<Rightarrow> string \<Rightarrow> ('s, unit) sx" where
  "require ok message = (if ok then returnS () else throwS (RuntimeError message))"

definition load_chain :: "crypto \<Rightarrow> ('z link_scheme, chain) sx" where
  "load_chain C = bindS (getS lk_directory) (\<lambda>directory. disk_do (open_chain C directory))"

definition tip_height :: "chain \<Rightarrow> u64 res" where
  "tip_height c = bindE (chain_tip c) (\<lambda>t. Inr (sb_height t))"

definition tip_hash :: "crypto \<Rightarrow> chain \<Rightarrow> string res" where
  "tip_hash C c = bindE (chain_tip c) (block_hash C)"

subsection \<open>Handshakes\<close>

definition local_version :: "crypto \<Rightarrow> int \<Rightarrow> u64 \<Rightarrow> chain \<Rightarrow> u64 \<Rightarrow> peer_version res" where
  "local_version C now random_nonce c fixed_nonce =
     bindE (tip_height c) (\<lambda>best_height.
     bindE (tip_hash C c) (\<lambda>tip.
     bindE (chainwork_hex c) (\<lambda>work.
       Inr \<lparr> pv_protocol_version = P2P_PROTOCOL_VERSION, pv_services = NODE_NETWORK_SERVICE,
         pv_timestamp = now, pv_best_height = best_height, pv_genesis_hash = TESTNET_GENESIS_HASH,
         pv_tip_hash = tip, pv_chainwork = work,
         pv_nonce = (if fixed_nonce = 0 then random_nonce else fixed_nonce),
         pv_user_agent = ''/BinaryCoinTestnetAlpha:0.1.3/'' \<rparr>)))"

definition send_version :: "crypto \<Rightarrow> int \<Rightarrow> u64 \<Rightarrow> chain \<Rightarrow> u64 \<Rightarrow> ('z link_scheme, unit) sx" where
  "send_version C now random_nonce c local_nonce =
     send_made C ''version'' (bindE (local_version C now random_nonce c local_nonce) serialize_version)"

definition receive_version :: "crypto \<Rightarrow> ('z link_scheme, peer_version) sx" where
  "receive_version C =
     bindS (receive C) (\<lambda>message.
     bindS (liftS (expect_command message ''version'')) (\<lambda>_.
     liftS (deserialize_version (pm_payload message))))"

definition receive_verack :: "crypto \<Rightarrow> ('z link_scheme, unit) sx" where
  "receive_verack C =
     bindS (receive C) (\<lambda>verack.
     bindS (liftS (expect_command verack ''verack'')) (\<lambda>_.
     require (pm_payload verack = []) ''verack payload must be empty''))"

definition client_handshake :: "crypto \<Rightarrow> int \<Rightarrow> u64 \<Rightarrow> chain \<Rightarrow> u64 \<Rightarrow> ('z link_scheme, peer_version) sx" where
  "client_handshake C now random_nonce c local_nonce =
     bindS (send_version C now random_nonce c local_nonce) (\<lambda>_.
     bindS (receive_version C) (\<lambda>remote.
     bindS (send C ''verack'' []) (\<lambda>_.
     bindS (receive_verack C) (\<lambda>_.
     returnS remote))))"

definition server_handshake :: "crypto \<Rightarrow> int \<Rightarrow> u64 \<Rightarrow> chain \<Rightarrow> u64 \<Rightarrow> ('z link_scheme, peer_version) sx" where
  "server_handshake C now random_nonce c local_nonce =
     bindS (receive_version C) (\<lambda>remote.
     bindS (send_version C now random_nonce c local_nonce) (\<lambda>_.
     bindS (receive_verack C) (\<lambda>_.
     bindS (send C ''verack'' []) (\<lambda>_.
     returnS remote))))"

subsection \<open>Answers both servers give\<close>

definition answer_getaddr :: "crypto \<Rightarrow> inet \<Rightarrow> bytes \<Rightarrow> ('z link_scheme, unit) sx" where
  "answer_getaddr C N payload =
     bindS (require (payload = []) ''getaddr payload must be empty'') (\<lambda>_.
     bindS (disk_do (open_text peers_load)) (\<lambda>records.
     send C ''addrv2'' (serialize_addrv2 N records)))"

definition answer_getmempool :: "crypto \<Rightarrow> bytes \<Rightarrow> ('z link_scheme, unit) sx" where
  "answer_getmempool C payload =
     bindS (require (payload = []) ''getmempool payload must be empty'') (\<lambda>_.
     bindS (disk_do (open_text mempool_load)) (\<lambda>transactions.
     send_made C ''txs'' (serialize_transactions transactions)))"

text \<open>The loop over the items of a \<^verbatim>\<open>getdata\<close>: what is not found is collected.\<close>

fun send_items ::
  "crypto \<Rightarrow> stored_block list \<Rightarrow> stored_block list \<Rightarrow> transaction list \<Rightarrow>
     inventory_item list \<Rightarrow> inventory_item list \<Rightarrow> ('z link_scheme, inventory_item list) sx" where
  "send_items C blocks branches pool [] not_found = returnS not_found"
| "send_items C blocks branches pool (item # items) not_found =
     (case ii_type item of
        InvBlock \<Rightarrow>
          bindS (liftS (find_block C blocks (ii_hash item))) (\<lambda>active.
          bindS (case active of None \<Rightarrow> liftS (branch_find C branches (ii_hash item)) | Some b \<Rightarrow> returnS (Some b)) (\<lambda>block.
          case block of
            Some b \<Rightarrow>
              bindS (send_made C ''block'' (serialize_stored_blocks [b] 0 1)) (\<lambda>_.
              send_items C blocks branches pool items not_found)
          | None \<Rightarrow> send_items C blocks branches pool items (not_found @ [item])))
      | InvTransaction \<Rightarrow>
          bindS (liftS (find_transaction C blocks pool (ii_hash item))) (\<lambda>found.
          case found of
            Some t \<Rightarrow>
              bindS (send_made C ''tx'' (serialize_transaction t)) (\<lambda>_.
              send_items C blocks branches pool items not_found)
          | None \<Rightarrow> send_items C blocks branches pool items (not_found @ [item])))"

definition send_not_found :: "crypto \<Rightarrow> inventory_item list \<Rightarrow> ('z link_scheme, unit) sx" where
  "send_not_found C not_found =
     (if not_found \<noteq> [] then send_made C ''notfound'' (serialize_inventory not_found) else returnS ())"

definition read_getblocks :: "bytes \<Rightarrow> (u64 \<times> u32 \<times> nat) res" where
  "read_getblocks payload =
     bindE (read_u64_le payload 0) (\<lambda>(start_height, offset).
     bindE (read_u32_le payload offset) (\<lambda>(requested, offset).
       Inr (start_height, requested, offset)))"

definition send_blocks_from :: "crypto \<Rightarrow> chain \<Rightarrow> u64 \<Rightarrow> u32 \<Rightarrow> ('z link_scheme, unit) sx" where
  "send_blocks_from C c start_height requested =
     bindS (liftS (tip_height c)) (\<lambda>height.
     let first = (if start_height > height then length (cn_blocks c) else unat start_height) in
     send_made C ''blocks'' (serialize_stored_blocks (cn_blocks c) first (unat requested)))"

subsection \<open>The simple server\<close>

record server = link +
  sv_chain :: chain

definition server_load :: "crypto \<Rightarrow> (server, chain) sx" where
  "server_load C =
     bindS (getS sv_chain) (\<lambda>c.
     bindS (disk_do (on_chain (chain_load C) c)) (\<lambda>(_, c).
     bindS (modifyS (\<lambda>s. s \<lparr> sv_chain := c \<rparr>)) (\<lambda>_.
     returnS c)))"

text \<open>One request; the result says whether the loop goes on.\<close>

definition serve_request :: "crypto \<Rightarrow> inet \<Rightarrow> p2p_message \<Rightarrow> (server, bool) sx" where
  "serve_request C N request =
     (let command = pm_command request; payload = pm_payload request; goes_on = (\<lambda>_. returnS True) in
      if command = ''getheaders'' then
        bindS (server_load C) (\<lambda>c.
        bindS (liftS (deserialize_getheaders payload)) (\<lambda>g.
        bindS (liftS (headers_after_locator C (cn_blocks c) g)) (\<lambda>headers.
        bindS (send_made C ''headers'' (serialize_headers headers)) goes_on)))
      else if command = ''getaddr'' then bindS (answer_getaddr C N payload) goes_on
      else if command = ''getdata'' then
        bindS (liftS (deserialize_inventory payload)) (\<lambda>inventory.
        bindS (server_load C) (\<lambda>c.
        bindS (disk_do (open_text (branch_load C))) (\<lambda>branches.
        bindS (disk_do (open_text mempool_load)) (\<lambda>pool.
        bindS (send_items C (cn_blocks c) branches pool inventory []) (\<lambda>not_found.
        bindS (send_not_found C not_found) goes_on)))))
      else if command = ''getblocks'' then
        bindS (liftS (read_getblocks payload)) (\<lambda>(start_height, requested, offset).
        bindS (require (offset = length payload) ''Malformed getblocks payload'') (\<lambda>_.
        bindS (require (requested \<noteq> 0 \<and> unat requested \<le> MAX_BLOCKS_PER_RESPONSE) ''Invalid getblocks count'') (\<lambda>_.
        bindS (server_load C) (\<lambda>c.
        bindS (send_blocks_from C c start_height requested) goes_on))))
      else if command = ''getmempool'' then bindS (answer_getmempool C payload) goes_on
      else if command = ''tx'' then
        bindS (liftS (deserialize_transaction payload)) (\<lambda>t.
        bindS (disk_do (open_text mempool_load)) (\<lambda>pool.
        bindS (server_load C) (\<lambda>c.
        bindS (liftS (tip_height c)) (\<lambda>height.
        bindS (disk_do (edit_text (mempool_add C t (cn_utxos c) (height + 1)) pool)) (\<lambda>_.
        bindS (send_made C ''txack'' (raw_hash C t)) goes_on)))))
      else if command = ''ping'' then bindS (send C ''pong'' payload) goes_on
      else if command = ''bye'' then returnS False
      else throwS (RuntimeError (''Unsupported P2P command: '' @ command)))"

definition mentions :: "string \<Rightarrow> string \<Rightarrow> bool" where
  "mentions what message \<longleftrightarrow> sublist what message"

fun server_rounds :: "crypto \<Rightarrow> inet \<Rightarrow> nat \<Rightarrow> (server, unit) sx" where
  "server_rounds C N 0 = returnS ()"
| "server_rounds C N (Suc rounds) =
     bindS (tryS (bindS (receive C) (\<lambda>m. returnS (Some m)))
       (\<lambda>e. case e of
          RuntimeError message \<Rightarrow>
            if mentions ''closed connection'' message \<or> mentions ''Resource temporarily unavailable'' message
            then returnS None else throwS e
        | _ \<Rightarrow> throwS e)) (\<lambda>request.
     case request of
       None \<Rightarrow> returnS ()
     | Some request \<Rightarrow>
         bindS (serve_request C N request) (\<lambda>more. if more then server_rounds C N rounds else returnS ()))"

definition handle_client :: "crypto \<Rightarrow> inet \<Rightarrow> int \<Rightarrow> u64 \<Rightarrow> nat \<Rightarrow> (server, unit) sx" where
  "handle_client C N now random_nonce rounds =
     bindS (getS lk_directory) (\<lambda>directory.
     bindS (disk_do (start_chain C directory)) (\<lambda>c.
     bindS (modifyS (\<lambda>s. s \<lparr> sv_chain := c \<rparr>)) (\<lambda>_.
     bindS (server_handshake C now random_nonce c 0) (\<lambda>_.
     server_rounds C N rounds))))"

end
