(* ===== verification/Bootstrap.thy ===== *)
theory Bootstrap
  imports PeerStore
begin

section \<open>Seed bootstrap (bootstrap.hpp, bootstrap.cpp, params.hpp)\<close>

text \<open>
  The address filters and the merge of the compiled and resolved seeds into the peer list. What
  \<^verbatim>\<open>getaddrinfo\<close> answers is an argument: for a name, the socket addresses in order, each with the
  text \<^verbatim>\<open>getnameinfo\<close> prints for it, or nothing where that fails. The lemmas show that no private address
  gets in through DNS and that known peers keep their records.
\<close>

unbundle bit_operations_syntax

datatype sock_address = Inet4 u32 | Inet6 bytes | OtherFamily

definition public_ipv4 :: "u32 \<Rightarrow> bool" where
  "public_ipv4 host =
     (let a = drop_bit 24 host AND 0xff;
          b = drop_bit 16 host AND 0xff;
          c = drop_bit 8 host AND 0xff in
      if a = 0 \<or> a = 10 \<or> a = 127 \<or> a \<ge> 224 then False
      else if a = 100 \<and> b \<ge> 64 \<and> b \<le> 127 then False
      else if a = 169 \<and> b = 254 then False
      else if a = 172 \<and> b \<ge> 16 \<and> b \<le> 31 then False
      else if a = 192 \<and> b = 168 then False
      else if a = 198 \<and> (b = 18 \<or> b = 19) then False
      else if a = 192 \<and> b = 0 \<and> c = 2 then False
      else if a = 198 \<and> b = 51 \<and> c = 100 then False
      else if a = 203 \<and> b = 0 \<and> c = 113 then False
      else True)"

text \<open>The address macros of POSIX on the sixteen bytes.\<close>

definition ipv6_unspecified :: "bytes \<Rightarrow> bool" where "ipv6_unspecified a \<longleftrightarrow> a = replicate 16 0"

definition ipv6_loopback :: "bytes \<Rightarrow> bool" where "ipv6_loopback a \<longleftrightarrow> a = replicate 15 0 @ [1]"

definition ipv6_multicast :: "bytes \<Rightarrow> bool" where "ipv6_multicast a \<longleftrightarrow> a ! 0 = 0xff"

definition ipv6_linklocal :: "bytes \<Rightarrow> bool" where
  "ipv6_linklocal a \<longleftrightarrow> a ! 0 = 0xfe \<and> a ! 1 AND 0xc0 = 0x80"

definition public_ipv6 :: "bytes \<Rightarrow> bool" where
  "public_ipv6 a =
     (if ipv6_unspecified a \<or> ipv6_loopback a \<or> ipv6_multicast a \<or> ipv6_linklocal a then False
      else if a ! 0 AND 0xfe = 0xfc then False
      else if a ! 0 = 0x20 \<and> a ! 1 = 0x01 \<and> a ! 2 = 0x0d \<and> a ! 3 = 0xb8 then False
      else True)"

fun public_sockaddr :: "sock_address \<Rightarrow> bool" where
  "public_sockaddr (Inet4 host) = public_ipv4 host"
| "public_sockaddr (Inet6 a) = public_ipv6 a"
| "public_sockaddr OtherFamily = False"

type_synonym resolver_answer = "(sock_address \<times> string option) list"

definition resolve_step :: "u16 \<Rightarrow> sock_address \<times> string option \<Rightarrow> peer_endpoint list \<Rightarrow> peer_endpoint list" where
  "resolve_step port current endpoints =
     (if \<not> public_sockaddr (fst current) then endpoints
      else case snd current of
        None \<Rightarrow> endpoints
      | Some numeric \<Rightarrow>
          let endpoint = \<lparr> pe_host = numeric, pe_port = port \<rparr> in
          if list_ex (\<lambda>e. endpoint_equal e endpoint) endpoints then endpoints else endpoints @ [endpoint])"

definition resolve_dns_seed :: "(string \<Rightarrow> resolver_answer option) \<Rightarrow> string \<Rightarrow> u16 \<Rightarrow> peer_endpoint list" where
  "resolve_dns_seed dns hostname port =
     (if hostname = [] \<or> port = 0 then []
      else case dns hostname of
        None \<Rightarrow> []
      | Some addresses \<Rightarrow> fold (resolve_step port) addresses [])"

record bootstrap_result =
  bo_fixed_entries_added :: nat
  bo_dns_entries_added :: nat
  bo_dns_names_resolved :: nat

definition TESTNET_DNS_SEEDS :: "string list" where
  "TESTNET_DNS_SEEDS = [''binarycoin-testnet.ezgateway.net'']"

definition TESTNET_FIXED_SEEDS :: "peer_endpoint list" where
  "TESTNET_FIXED_SEEDS = [\<lparr> pe_host = ''binarycoin-testnet.ezgateway.net'', pe_port = 26001 \<rparr>]"

definition seed_record :: "int \<Rightarrow> peer_endpoint \<Rightarrow> peer_record" where
  "seed_record now e = \<lparr> pr_endpoint = e, pr_services = 1, pr_last_seen = now, pr_last_success = 0,
     pr_failures = 0, pr_manual = False \<rparr>"

definition add_seed :: "int \<Rightarrow> peer_endpoint \<Rightarrow> nat \<times> peer_record list \<Rightarrow> nat \<times> peer_record list" where
  "add_seed now e = (\<lambda>(added, records).
     case add_if_missing (seed_record now e) records of
       (True, records) \<Rightarrow> (added + 1, records) | (False, records) \<Rightarrow> (added, records))"

definition merge_name :: "(string \<Rightarrow> u16 \<Rightarrow> peer_endpoint list) \<Rightarrow> int \<Rightarrow> string \<Rightarrow>
    (nat \<times> nat) \<times> peer_record list \<Rightarrow> (nat \<times> nat) \<times> peer_record list" where
  "merge_name resolver now hostname = (\<lambda>((resolved, added), records).
     let endpoints = resolver hostname 26001;
         resolved = (if endpoints \<noteq> [] then resolved + 1 else resolved);
         (added, records) = fold (add_seed now) endpoints (added, records) in
     ((resolved, added), records))"

definition bootstrap_testnet_seeds ::
  "(string \<Rightarrow> u16 \<Rightarrow> peer_endpoint list) \<Rightarrow> int \<Rightarrow> (peer_store, bootstrap_result) sx" where
  "bootstrap_testnet_seeds resolver now =
     bindS (getS ts_items) (\<lambda>records.
     let (fixed, records) = fold (add_seed now) TESTNET_FIXED_SEEDS (0, records);
         ((resolved, added), records) = fold (merge_name resolver now) TESTNET_DNS_SEEDS ((0, 0), records) in
     bindS (set_items records) (\<lambda>_.
     bindS peers_save (\<lambda>_.
       returnS \<lparr> bo_fixed_entries_added = fixed, bo_dns_entries_added = added,
         bo_dns_names_resolved = resolved \<rparr>)))"

subsection \<open>What DNS lets in\<close>

lemma resolve_steps:
  "distinct es \<Longrightarrow> distinct (fold (resolve_step port) as es) \<and>
     set (fold (resolve_step port) as es) =
       set es \<union> {\<lparr> pe_host = h, pe_port = port \<rparr> | a h. (a, Some h) \<in> set as \<and> public_sockaddr a}"
proof (induction as arbitrary: es)
  case (Cons x as)
  obtain a t where x: "x = (a, t)" by (cases x)
  let ?es = "resolve_step port x es"
  have d: "distinct ?es" using Cons.prems by (auto simp: resolve_step_def x list_ex_iff Let_def split: option.splits)
  have s: "set ?es = set es \<union> {\<lparr> pe_host = h, pe_port = port \<rparr> | a' h. (a', Some h) = x \<and> public_sockaddr a'}"
    by (auto simp: resolve_step_def x list_ex_iff Let_def split: option.splits)
  show ?case using Cons.IH [OF d] unfolding s by auto
qed simp

lemma resolve_dns_seed_set:
  "dns host = Some as \<Longrightarrow> host \<noteq> [] \<Longrightarrow> port \<noteq> 0 \<Longrightarrow>
     distinct (resolve_dns_seed dns host port) \<and>
     set (resolve_dns_seed dns host port) = {\<lparr> pe_host = h, pe_port = port \<rparr> | a h. (a, Some h) \<in> set as \<and> public_sockaddr a}"
  using resolve_steps [of "[]" port as] by (simp add: resolve_dns_seed_def)

text \<open>The private and reserved ranges of RFC 1918, 5737, 6598 and the rest, as intervals of the address.\<close>

lemma octet_eq:
  "unat (drop_bit 24 (h :: u32) AND 0xff) = unat h div 2 ^ 24"
  "unat (drop_bit 16 (h :: u32) AND 0xff) = unat h div 2 ^ 16 mod 2 ^ 8"
  "unat (drop_bit 8 (h :: u32) AND 0xff) = unat h div 2 ^ 8 mod 2 ^ 8"
proof -
  have m: "(0xff :: u32) = mask 8" by (simp add: mask_eq_exp_minus_1)
  have b: "unat h < 2 ^ 32" using unsigned_less [of h, where 'a = nat] by simp
  show "unat (drop_bit 24 h AND 0xff) = unat h div 2 ^ 24"
    using b by (simp add: m flip: take_bit_eq_mask)
      (simp add: unsigned_take_bit_eq unsigned_drop_bit_eq take_bit_eq_mod drop_bit_eq_div unat_div unat_mod)
  show "unat (drop_bit 16 h AND 0xff) = unat h div 2 ^ 16 mod 2 ^ 8"
    by (simp add: m flip: take_bit_eq_mask) (simp add: unsigned_take_bit_eq unsigned_drop_bit_eq take_bit_eq_mod drop_bit_eq_div unat_div unat_mod)
  show "unat (drop_bit 8 h AND 0xff) = unat h div 2 ^ 8 mod 2 ^ 8"
    by (simp add: m flip: take_bit_eq_mask) (simp add: unsigned_take_bit_eq unsigned_drop_bit_eq take_bit_eq_mod drop_bit_eq_div unat_div unat_mod)
qed

definition ipv4 :: "nat \<Rightarrow> nat \<Rightarrow> nat \<Rightarrow> nat \<Rightarrow> nat" where
  "ipv4 a b c d = ((a * 256 + b) * 256 + c) * 256 + d"

lemma octet_lex:
  assumes "y < 256" "y' < 256"
  shows "x * 256 + y \<le> x' * 256 + y' \<longleftrightarrow> x < x' \<or> x = x' \<and> y \<le> (y' :: nat)"
    and "x * 256 + y < x' * 256 + y' \<longleftrightarrow> x < x' \<or> x = x' \<and> y < y'"
    and "x * 256 + y = x' * 256 + y' \<longleftrightarrow> x = x' \<and> y = y'"
proof -
  show "x * 256 + y \<le> x' * 256 + y' \<longleftrightarrow> x < x' \<or> x = x' \<and> y \<le> y'"
    and "x * 256 + y < x' * 256 + y' \<longleftrightarrow> x < x' \<or> x = x' \<and> y < y'"
    using assms by auto
  have "(x * 256 + y) mod 256 = y" "(x' * 256 + y') mod 256 = y'" using assms by simp_all
  then show "x * 256 + y = x' * 256 + y' \<longleftrightarrow> x = x' \<and> y = y'"
    by (metis add_right_cancel mult_right_cancel zero_neq_numeral)
qed

lemma ipv4_le:
  "b < 256 \<Longrightarrow> b' < 256 \<Longrightarrow> c < 256 \<Longrightarrow> c' < 256 \<Longrightarrow> d < 256 \<Longrightarrow> d' < 256 \<Longrightarrow>
     ipv4 a b c d \<le> ipv4 a' b' c' d' \<longleftrightarrow>
       a < a' \<or> a = a' \<and> (b < b' \<or> b = b' \<and> (c < c' \<or> c = c' \<and> d \<le> d'))"
  unfolding ipv4_def by (auto simp: octet_lex)

definition reserved_ranges :: "(nat \<times> nat) list" where
  "reserved_ranges =
     [(ipv4 0 0 0 0, ipv4 0 255 255 255), (ipv4 10 0 0 0, ipv4 10 255 255 255),
      (ipv4 100 64 0 0, ipv4 100 127 255 255), (ipv4 127 0 0 0, ipv4 127 255 255 255),
      (ipv4 169 254 0 0, ipv4 169 254 255 255), (ipv4 172 16 0 0, ipv4 172 31 255 255),
      (ipv4 192 0 2 0, ipv4 192 0 2 255), (ipv4 192 168 0 0, ipv4 192 168 255 255),
      (ipv4 198 18 0 0, ipv4 198 19 255 255), (ipv4 198 51 100 0, ipv4 198 51 100 255),
      (ipv4 203 0 113 0, ipv4 203 0 113 255), (ipv4 224 0 0 0, ipv4 255 255 255 255)]"

lemma public_ipv4_ranges:
  "public_ipv4 h \<longleftrightarrow> (\<forall>(lo, hi) \<in> set reserved_ranges. \<not> (lo \<le> unat h \<and> unat h \<le> hi))"
proof -
  define n where "n = unat h"
  define a b c d where abcd: "a = n div 2 ^ 24" "b = n div 2 ^ 16 mod 2 ^ 8" "c = n div 2 ^ 8 mod 2 ^ 8" "d = n mod 2 ^ 8"
  have n: "n < 2 ^ 32" using unsigned_less [of h, where 'a = nat] by (simp add: n_def)
  have eq: "n = ipv4 a b c d"
  proof -
    have "n div 256 div 256 = n div 65536" "n div 65536 div 256 = n div 16777216"
      by (simp_all flip: div_mult2_eq)
    then show ?thesis
      using div_mult_mod_eq [of n 256] div_mult_mod_eq [of "n div 256" 256] div_mult_mod_eq [of "n div 65536" 256]
      by (simp add: abcd ipv4_def)
  qed
  have less: "a < 256" "b < 256" "c < 256" "d < 256" using n by (simp_all add: abcd)
  have w: "(drop_bit 24 h AND 0xff :: u32) = word_of_nat a" "(drop_bit 16 h AND 0xff :: u32) = word_of_nat b"
    "(drop_bit 8 h AND 0xff :: u32) = word_of_nat c"
    unfolding abcd n_def octet_eq [symmetric] by simp_all
  have u: "unat (word_of_nat a :: u32) = a" "unat (word_of_nat b :: u32) = b" "unat (word_of_nat c :: u32) = c"
    using less by (simp_all add: unat_of_nat)
  have l: "public_ipv4 h \<longleftrightarrow> \<not> (a = 0 \<or> a = 10 \<or> a = 127 \<or> a \<ge> 224 \<or> (a = 100 \<and> b \<ge> 64 \<and> b \<le> 127) \<or>
      (a = 169 \<and> b = 254) \<or> (a = 172 \<and> b \<ge> 16 \<and> b \<le> 31) \<or> (a = 192 \<and> b = 168) \<or>
      (a = 198 \<and> (b = 18 \<or> b = 19)) \<or> (a = 192 \<and> b = 0 \<and> c = 2) \<or> (a = 198 \<and> b = 51 \<and> c = 100) \<or>
      (a = 203 \<and> b = 0 \<and> c = 113))"
    unfolding public_ipv4_def w Let_def by (auto simp: word_unat_eq_iff word_le_nat_alt u)
  have r: "ipv4 0 0 0 0 \<le> n \<and> n \<le> ipv4 0 255 255 255 \<longleftrightarrow> a = 0" "ipv4 10 0 0 0 \<le> n \<and> n \<le> ipv4 10 255 255 255 \<longleftrightarrow> a = 10"
    "ipv4 100 64 0 0 \<le> n \<and> n \<le> ipv4 100 127 255 255 \<longleftrightarrow> a = 100 \<and> b \<ge> 64 \<and> b \<le> 127"
    "ipv4 127 0 0 0 \<le> n \<and> n \<le> ipv4 127 255 255 255 \<longleftrightarrow> a = 127"
    "ipv4 169 254 0 0 \<le> n \<and> n \<le> ipv4 169 254 255 255 \<longleftrightarrow> a = 169 \<and> b = 254"
    "ipv4 172 16 0 0 \<le> n \<and> n \<le> ipv4 172 31 255 255 \<longleftrightarrow> a = 172 \<and> b \<ge> 16 \<and> b \<le> 31"
    "ipv4 192 0 2 0 \<le> n \<and> n \<le> ipv4 192 0 2 255 \<longleftrightarrow> a = 192 \<and> b = 0 \<and> c = 2"
    "ipv4 192 168 0 0 \<le> n \<and> n \<le> ipv4 192 168 255 255 \<longleftrightarrow> a = 192 \<and> b = 168"
    "ipv4 198 18 0 0 \<le> n \<and> n \<le> ipv4 198 19 255 255 \<longleftrightarrow> a = 198 \<and> (b = 18 \<or> b = 19)"
    "ipv4 198 51 100 0 \<le> n \<and> n \<le> ipv4 198 51 100 255 \<longleftrightarrow> a = 198 \<and> b = 51 \<and> c = 100"
    "ipv4 203 0 113 0 \<le> n \<and> n \<le> ipv4 203 0 113 255 \<longleftrightarrow> a = 203 \<and> b = 0 \<and> c = 113"
    "ipv4 224 0 0 0 \<le> n \<and> n \<le> ipv4 255 255 255 255 \<longleftrightarrow> a \<ge> 224"
    using less unfolding eq by (auto simp: ipv4_le)
  show ?thesis
    unfolding l reserved_ranges_def n_def [symmetric]
    by (simp only: list.set ball_simps prod.case r de_Morgan_disj simp_thms conj_ac)
qed

subsection \<open>The merge\<close>

text \<open>A merge only appends: what was known of a peer stays, and the counters count the new records.\<close>

definition grown :: "peer_endpoint set \<Rightarrow> nat \<Rightarrow> peer_record list \<Rightarrow> nat \<Rightarrow> peer_record list \<Rightarrow> bool" where
  "grown E k rs k' rs' \<longleftrightarrow> peers_ok rs' \<and>
     (\<exists>new. rs' = rs @ new \<and> k' = k + length new \<and> pr_endpoint ` set new \<subseteq> E)"

lemma grown_refl: "peers_ok rs \<Longrightarrow> grown E k rs k rs"
  by (auto simp: grown_def)

lemma grown_trans: "grown E k rs j ss \<Longrightarrow> grown E j ss i ts \<Longrightarrow> grown E k rs i ts"
  unfolding grown_def by fastforce

lemma grown_mono: "grown E k rs j ss \<Longrightarrow> E \<subseteq> F \<Longrightarrow> grown F k rs j ss"
  unfolding grown_def by blast

lemma add_seed_grown:
  assumes "peers_ok rs" "int64_range now"
  shows "case add_seed now e (k, rs) of (j, ss) \<Rightarrow> grown {e} k rs j ss"
proof (cases "peer_acceptable (seed_record now e)")
  case True
  then have ok: "peer_ok (seed_record now e)"
    using assms(2) by (simp add: peer_ok_def seed_record_def int64_range_def)
  obtain new ss where a: "add_if_missing (seed_record now e) rs = (new, ss)" by fastforce
  have e: "pr_endpoint (seed_record now e) = e" by (simp add: seed_record_def)
  from a have s: "add_seed now e (k, rs) = (if new then (k + 1, ss) else (k, ss))"
    by (cases new) (simp_all add: add_seed_def)
  from add_if_missing_ok [OF a assms(1) ok] show ?thesis
    unfolding s by (cases new) (auto simp: grown_def e)
next
  case False
  then show ?thesis using assms(1) by (simp add: add_seed_def add_if_missing_def grown_refl)
qed

lemma add_seeds_grown:
  "peers_ok rs \<Longrightarrow> int64_range now \<Longrightarrow> case fold (add_seed now) es (k, rs) of (j, ss) \<Rightarrow> grown (set es) k rs j ss"
proof (induction es arbitrary: k rs)
  case (Cons e es)
  obtain j ss where a: "add_seed now e (k, rs) = (j, ss)" by fastforce
  then have g: "grown {e} k rs j ss" using add_seed_grown [OF Cons.prems, of e k] by simp
  then have ss: "peers_ok ss" by (simp add: grown_def)
  from Cons.IH [OF ss Cons.prems(2), of j] show ?case
    using g by (auto simp: a split: prod.splits elim!: grown_trans [OF grown_mono] grown_mono)
qed (simp add: grown_refl)

lemma bootstrap_facts:
  assumes "bootstrap_testnet_seeds resolver now s = (Inr r, t)" "peers_ok (ts_items s)" "int64_range now"
  shows "peers_ok (ts_items t) \<and> (\<exists>new. ts_items t = ts_items s @ new \<and>
    length new = bo_fixed_entries_added r + bo_dns_entries_added r \<and>
    pr_endpoint ` set new \<subseteq> set TESTNET_FIXED_SEEDS \<union> set (resolver ''binarycoin-testnet.ezgateway.net'' 26001))"
proof -
  let ?es = "resolver ''binarycoin-testnet.ezgateway.net'' 26001"
  obtain k rs where f: "fold (add_seed now) TESTNET_FIXED_SEEDS (0, ts_items s) = (k, rs)" by fastforce
  obtain j ss where d: "fold (add_seed now) ?es (0, rs) = (j, ss)" by fastforce
  have g1: "grown (set TESTNET_FIXED_SEEDS) 0 (ts_items s) k rs"
    using add_seeds_grown [OF assms(2,3), of TESTNET_FIXED_SEEDS 0] by (simp add: f)
  then have "peers_ok rs" by (simp add: grown_def)
  from add_seeds_grown [OF this assms(3), of ?es 0] have g2: "grown (set ?es) 0 rs j ss" by (simp add: d)
  have "ts_items t = ss" "bo_fixed_entries_added r = k" "bo_dns_entries_added r = j"
    using assms(1) by (auto simp: bootstrap_testnet_seeds_def sx_defs f TESTNET_DNS_SEEDS_def merge_name_def d Let_def
        set_items_def split: prod.splits sum.splits dest!: peers_save_items)
  with g1 g2 show ?thesis by (fastforce simp: grown_def)
qed

end
