(* ===== verification/NetSession.thy ===== *)
theory NetSession
  imports NetNode Bootstrap
begin

section \<open>The sessions of the persistent node (net.cpp)\<close>

text \<open>
  \<open>session\<close> is what one \<^verbatim>\<open>session_loop\<close> keeps: the connection, the candidate branch being downloaded, what the
  other side is known to have, the misbehavior score and the timers, and the counters and tables of the node
  it updates. \<open>handle_message\<close> is one message, \<open>session_round\<close> one turn of the loop with its
  catch, \<open>session_loop\<close> the whole session. A turn runs from the files to the files: the locks of the source order the turns
  of different sessions. The clocks, the readiness of the socket and the random nonce of a turn are
  its \<open>round_env\<close>.
\<close>

subsection \<open>State\<close>

record network_policy =
  np_max_outbound :: nat
  np_max_inbound :: nat
  np_ban_threshold :: u32
  np_ban_seconds :: int
  np_ping_interval :: int
  np_ping_timeout :: int
  np_message_window :: int
  np_max_messages_per_window :: nat
  np_socket_timeout_seconds :: int
  np_use_compiled_seeds :: bool

record node_config =
  nc_bind_address :: string
  nc_port :: u16
  nc_nonce :: u64
  nc_policy :: network_policy

record live_node_stats =
  ls_relayed_blocks :: u64
  ls_relayed_transactions :: u64
  ls_headers_received :: u64
  ls_addresses_received :: u64
  ls_rejected_messages :: u64
  ls_rejected_connections :: u64
  ls_duplicate_connections :: u64
  ls_self_connections :: u64
  ls_banned_connections :: u64
  ls_timeout_disconnects :: u64
  ls_rate_limited_connections :: u64

record live_peer_info =
  lp_endpoint :: peer_endpoint
  lp_inbound :: bool
  lp_connected_since :: int
  lp_version :: peer_version

record candidate_sync =
  cd_active :: bool
  cd_expected_height :: u64
  cd_expected_tip :: string
  cd_expected_chainwork :: string
  cd_fork_height :: u64
  cd_prefix :: "stored_block list"
  cd_headers :: "header_record list"
  cd_blocks :: "(string \<times> stored_block) list"
  cd_pending :: "string list"

definition no_candidate :: candidate_sync where
  "no_candidate = \<lparr> cd_active = False, cd_expected_height = 0, cd_expected_tip = [], cd_expected_chainwork = [],
     cd_fork_height = 0, cd_prefix = [], cd_headers = [], cd_blocks = [], cd_pending = [] \<rparr>"

record session = link +
  ss_candidate :: candidate_sync
  ss_knows_blocks :: "string set"
  ss_knows_transactions :: "string set"
  ss_score :: int
  ss_stats :: live_node_stats
  ss_last_inventory_scan :: int
  ss_last_ping :: int
  ss_ping_sent :: int
  ss_outstanding_ping :: "u64 option"
  ss_window_started :: int
  ss_messages_in_window :: nat
  ss_active_nonces :: "u64 set"
  ss_live_peers :: "(u64 \<times> live_peer_info) list"

record round_env =
  re_readable :: "bool res"
  re_received_at :: int
  re_now :: int
  re_clock :: int
  re_random :: u64

datatype next_step = Continue | FallThrough | Return

definition set_candidate :: "candidate_sync \<Rightarrow> (session, unit) sx" where
  "set_candidate cd = modifyS (\<lambda>s. s \<lparr> ss_candidate := cd \<rparr>)"

definition count_stat :: "(live_node_stats \<Rightarrow> live_node_stats) \<Rightarrow> (session, unit) sx" where
  "count_stat f = modifyS (\<lambda>s. s \<lparr> ss_stats := f (ss_stats s) \<rparr>)"

definition count_rejected :: "(session, unit) sx" where
  "count_rejected = count_stat (\<lambda>t. t \<lparr> ls_rejected_messages := ls_rejected_messages t + 1 \<rparr>)"

definition misbehaves :: "int \<Rightarrow> (session, unit) sx" where
  "misbehaves points =
     bindS (modifyS (\<lambda>s. s \<lparr> ss_score := ss_score s + points \<rparr>)) (\<lambda>_. count_rejected)"

definition knows_block :: "string \<Rightarrow> (session, unit) sx" where
  "knows_block h = modifyS (\<lambda>s. s \<lparr> ss_knows_blocks := insert h (ss_knows_blocks s) \<rparr>)"

definition knows_transaction :: "string \<Rightarrow> (session, unit) sx" where
  "knows_transaction i = modifyS (\<lambda>s. s \<lparr> ss_knows_transactions := insert i (ss_knows_transactions s) \<rparr>)"

subsection \<open>Bans\<close>

definition peer_is_banned :: "int \<Rightarrow> peer_endpoint \<Rightarrow> (disk, bool) sx" where
  "peer_is_banned clock endpoint =
     (if pe_host endpoint = [] then returnS False
      else bindS (open_text (bans_load clock)) (\<lambda>records.
        returnS (is_banned clock (pe_host endpoint) 0 records)))"

definition ban_peer :: "network_policy \<Rightarrow> int \<Rightarrow> peer_endpoint \<Rightarrow> u32 \<Rightarrow> string \<Rightarrow> (disk, unit) sx" where
  "ban_peer policy clock endpoint score reason =
     (if pe_host endpoint = [] \<or> np_ban_seconds policy \<le> 0 then returnS ()
      else if pe_host endpoint = ''127.0.0.1'' \<or> pe_host endpoint = ''::1'' then returnS ()
      else bindS (open_text (bans_load clock)) (\<lambda>records.
        bindS (edit_text (ban clock (pe_host endpoint) (np_ban_seconds policy) score reason) records) (\<lambda>_.
        returnS ())))"

definition ban_session :: "node_config \<Rightarrow> int \<Rightarrow> peer_endpoint \<Rightarrow> string \<Rightarrow> (session, unit) sx" where
  "ban_session cfg clock endpoint reason =
     bindS (getS ss_score) (\<lambda>score.
     disk_do (ban_peer (nc_policy cfg) clock endpoint (word_of_int score) reason))"

definition over_threshold :: "node_config \<Rightarrow> session \<Rightarrow> bool" where
  "over_threshold cfg s \<longleftrightarrow> ss_score s \<ge> sint (np_ban_threshold (nc_policy cfg))"

subsection \<open>Headers first\<close>

definition request_headers :: "crypto \<Rightarrow> string list \<Rightarrow> (session, unit) sx" where
  "request_headers C locator = send_made C ''getheaders'' (serialize_getheaders locator zero_hash)"

definition start_candidate_sync :: "crypto \<Rightarrow> u64 \<Rightarrow> string \<Rightarrow> string \<Rightarrow> (session, unit) sx" where
  "start_candidate_sync C height tip work =
     bindS (require (height \<le> 1000000) ''Peer chain height exceeds safety limit'') (\<lambda>_.
     bindS (load_chain C) (\<lambda>c.
     bindS (liftS (tip_height c)) (\<lambda>own_height.
     bindS (set_candidate \<lparr> cd_active = True, cd_expected_height = height, cd_expected_tip = tip,
        cd_expected_chainwork = work, cd_fork_height = own_height, cd_prefix = cn_blocks c,
        cd_headers = [], cd_blocks = [], cd_pending = [] \<rparr>) (\<lambda>_.
     bindS (liftS (make_block_locator C (cn_blocks c))) (request_headers C)))))"

text \<open>The first batch must hang on a block of the own chain; the prefix is cut there.\<close>

definition connect_first_batch :: "crypto \<Rightarrow> header_record \<Rightarrow> candidate_sync \<Rightarrow> candidate_sync res" where
  "connect_first_batch C front cd =
     bindE (scan_back C (cd_prefix cd) (bh_previous_hash (hr_header front)) (length (cd_prefix cd))) (\<lambda>found.
     case found of
       None \<Rightarrow> Inl (RuntimeError ''Headers do not connect to a locator block'')
     | Some fork_index \<Rightarrow>
         if hr_height front \<noteq> sb_height (cd_prefix cd ! fork_index) + 1
         then Inl (RuntimeError ''Headers do not connect to a locator block'')
         else Inr (cd \<lparr> cd_fork_height := sb_height (cd_prefix cd ! fork_index),
                cd_prefix := take (fork_index + 1) (cd_prefix cd) \<rparr>))"

definition follows :: "crypto \<Rightarrow> header_record \<Rightarrow> header_record \<Rightarrow> bool res" where
  "follows C previous header =
     (if hr_height header \<noteq> hr_height previous + 1 then Inr False
      else bindE (hash_hex C (hr_header previous)) (\<lambda>h. Inr (bh_previous_hash (hr_header header) = h)))"

definition push_header :: "crypto \<Rightarrow> header_record \<Rightarrow> (session, unit) sx" where
  "push_header C header =
     bindS (getS ss_candidate) (\<lambda>cd.
     bindS (if cd_headers cd \<noteq> [] then
         bindS (liftS (follows C (last (cd_headers cd)) header)) (\<lambda>ok.
         require (ok \<and> bh_time (hr_header header) > bh_time (hr_header (last (cd_headers cd))))
           ''Invalid headers-first chain linkage'')
       else require (bh_time (hr_header header) > bh_time (b_header (sb_block (last (cd_prefix cd)))))
           ''First candidate header timestamp is not increasing'') (\<lambda>_.
     set_candidate (cd \<lparr> cd_headers := cd_headers cd @ [header] \<rparr>)))"

definition candidate_body :: "crypto \<Rightarrow> (string \<times> stored_block) list \<Rightarrow> header_record \<Rightarrow> stored_block res" where
  "candidate_body C blocks header =
     bindE (hash_hex C (hr_header header)) (\<lambda>hash.
     case map_of blocks hash of
       None \<Rightarrow> Inl (RuntimeError ''Candidate block body is missing after headers-first download'')
     | Some stored \<Rightarrow>
         bindE (if sb_height stored \<noteq> hr_height header then Inr False
                else bindE (serialize_header (b_header (sb_block stored))) (\<lambda>b.
                     bindE (serialize_header (hr_header header)) (\<lambda>h. Inr (b = h)))) (\<lambda>same.
         if \<not> same then Inl (RuntimeError ''Candidate block body does not match announced header'')
         else Inr stored))"

definition assemble_candidate :: "crypto \<Rightarrow> candidate_sync \<Rightarrow> stored_block list res" where
  "assemble_candidate C cd =
     bindE (mapE (candidate_body C (cd_blocks cd)) (cd_headers cd)) (\<lambda>bodies.
     let full = cd_prefix cd @ bodies in
     bindE (if full = [] \<or> sb_height (last full) \<noteq> cd_expected_height cd then Inr False
            else bindE (block_hash C (last full)) (\<lambda>h. Inr (h = cd_expected_tip cd))) (\<lambda>tip_ok.
     if \<not> tip_ok then Inl (RuntimeError ''Headers-first candidate tip does not match announcement'')
     else bindE (bindE (calculate_chainwork full) uint256_to_hex) (\<lambda>calculated_work.
       if cd_expected_chainwork cd \<noteq> [] \<and> calculated_work \<noteq> cd_expected_chainwork cd
       then Inl (RuntimeError ''Headers-first candidate chainwork does not match announcement'')
       else Inr full)))"

text \<open>Every mempool update of the node: revalidate against the chain, then put back what can be.\<close>

definition readmit :: "crypto \<Rightarrow> utxo_set \<Rightarrow> u64 \<Rightarrow> transaction list \<Rightarrow> (mempool, unit) sx" where
  "readmit C utxos height =
     foldS (\<lambda>t. tryS (mempool_add C t utxos height) (\<lambda>_. returnS ()))"

definition refresh_mempool :: "crypto \<Rightarrow> chain \<Rightarrow> transaction list \<Rightarrow> (disk, unit) sx" where
  "refresh_mempool C c gone =
     bindS (open_text mempool_load) (\<lambda>pool.
     bindS (liftS (tip_height c)) (\<lambda>height.
     bindS (liftS (confirmed_txids C c)) (\<lambda>confirmed.
     bindS (edit_text (mempool_revalidate C (cn_utxos c) (height + 1) confirmed) pool) (\<lambda>pool.
     bindS (edit_text (readmit C (cn_utxos c) (height + 1) gone) pool) (\<lambda>_.
     returnS ())))))"

text \<open>The part of \<^verbatim>\<open>activate_candidate\<close> that works on the files, under the data lock.\<close>

definition activate_branch :: "crypto \<Rightarrow> string \<Rightarrow> u64 \<Rightarrow> stored_block list \<Rightarrow> (disk, chain_activation) sx" where
  "activate_branch C directory fork_height full =
     bindS (open_chain C directory) (\<lambda>c.
     bindS (open_text (branch_load C)) (\<lambda>branches.
     bindS (if unat (fork_height + 1) < length (cn_blocks c)
            then edit_text (branch_put_many C (drop (unat (fork_height + 1)) (cn_blocks c))) branches
            else returnS branches) (\<lambda>branches.
     bindS (on_chain (activate_if_more_work C full) c) (\<lambda>(activation, c).
     bindS (if ca_activated activation then edit_text (branch_remove_active C (cn_blocks c)) branches
            else returnS branches) (\<lambda>_.
     bindS (refresh_mempool C c (ca_disconnected_transactions activation)) (\<lambda>_.
     returnS activation))))))"

definition activate_candidate :: "crypto \<Rightarrow> (session, unit) sx" where
  "activate_candidate C =
     bindS (getS ss_candidate) (\<lambda>cd.
     if \<not> cd_active cd then returnS ()
     else
     bindS (liftS (assemble_candidate C cd)) (\<lambda>full.
     bindS (getS lk_directory) (\<lambda>directory.
     bindS (disk_do (activate_branch C directory (cd_fork_height cd) full)) (\<lambda>activation.
     bindS (if ca_activated activation
            then count_stat (\<lambda>t. t \<lparr> ls_relayed_blocks := ls_relayed_blocks t + word_of_nat (ca_connected_blocks activation) \<rparr>)
            else returnS ()) (\<lambda>_.
     set_candidate no_candidate)))))"

definition sort_header :: "crypto \<Rightarrow> stored_block list \<Rightarrow> stored_block list \<Rightarrow> header_record \<Rightarrow> (session, unit) sx" where
  "sort_header C blocks branches header =
     bindS (liftS (hash_hex C (hr_header header))) (\<lambda>hash.
     bindS (liftS (find_block C blocks hash)) (\<lambda>active.
     bindS (case active of None \<Rightarrow> liftS (branch_find C branches hash) | Some b \<Rightarrow> returnS (Some b)) (\<lambda>found.
     modifyS (\<lambda>s. s \<lparr> ss_candidate :=
       (case found of
          Some b \<Rightarrow> (ss_candidate s) \<lparr> cd_blocks := map_emplace hash b (cd_blocks (ss_candidate s)) \<rparr>
        | None \<Rightarrow> (ss_candidate s) \<lparr> cd_pending := List.insort_insert hash (cd_pending (ss_candidate s)) \<rparr>) \<rparr>))))"

function batches :: "nat \<Rightarrow> 'a list \<Rightarrow> 'a list list" where
  "batches n xs = (if xs = [] \<or> n = 0 then [] else take n xs # batches n (drop n xs))"
  by pat_completeness auto

termination
  by (relation "measure (\<lambda>(n, xs). length xs)") auto

declare batches.simps [simp del]

definition block_item :: "string \<Rightarrow> inventory_item" where
  "block_item h = \<lparr> ii_type = InvBlock, ii_hash = h \<rparr>"

definition request_candidate_blocks :: "crypto \<Rightarrow> (session, unit) sx" where
  "request_candidate_blocks C =
     bindS (disk_do (open_text (branch_load C))) (\<lambda>branches.
     bindS (load_chain C) (\<lambda>c.
     bindS (getS ss_candidate) (\<lambda>cd.
     bindS (foldS (sort_header C (cn_blocks c) branches) (cd_headers cd)) (\<lambda>_.
     bindS (getS (\<lambda>s. cd_pending (ss_candidate s))) (\<lambda>pending.
     if pending = [] then activate_candidate C
     else foldS (\<lambda>batch. send_made C ''getdata'' (serialize_inventory batch))
            (batches MAX_INVENTORY_ITEMS (map block_item pending)))))))"

definition handle_headers :: "crypto \<Rightarrow> bytes \<Rightarrow> (session, unit) sx" where
  "handle_headers C payload =
     bindS (getS ss_candidate) (\<lambda>cd.
     if \<not> cd_active cd then misbehaves 10
     else
     bindS (liftS (deserialize_headers C payload)) (\<lambda>headers.
     bindS (require (headers \<noteq> []) ''Peer ended headers before advertised tip'') (\<lambda>_.
     bindS (if cd_headers cd = []
            then bindS (liftS (connect_first_batch C (hd headers) cd)) set_candidate
            else bindS (liftS (follows C (last (cd_headers cd)) (hd headers)))
                   (\<lambda>ok. require ok ''Headers response is not contiguous'')) (\<lambda>_.
     bindS (foldS (push_header C) headers) (\<lambda>_.
     bindS (count_stat (\<lambda>t. t \<lparr> ls_headers_received := ls_headers_received t + word_of_nat (length headers) \<rparr>)) (\<lambda>_.
     let final = last headers in
     bindS (require (\<not> hr_height final > cd_expected_height cd) ''Peer sent headers beyond advertised height'') (\<lambda>_.
     bindS (liftS (hash_hex C (hr_header final))) (\<lambda>hash.
     if hash = cd_expected_tip cd
     then bindS (require (hr_height final = cd_expected_height cd) ''Advertised tip height does not match headers'')
            (\<lambda>_. request_candidate_blocks C)
     else request_headers C [hash, TESTNET_GENESIS_HASH]))))))))"

end
