(* ===== verification/Words.thy ===== *)
theory Words
  imports Prelude
begin

section \<open>The word list of recovery phrases (bip39_words.inc)\<close>

text \<open>
  \<open>WORDS\<close> is the array the include file fills, in 64 rows of 32. What the phrases rely on is proved of it:
  it has 2048 words, they are strictly sorted, hence distinct, and each is a non-empty word of lower case letters.
\<close>

definition words_0 :: "string list" where
  "words_0 = [
    ''abandon'', ''ability'', ''able'', ''about'', ''above'', ''absent'', ''absorb'', ''abstract'',
    ''absurd'', ''abuse'', ''access'', ''accident'', ''account'', ''accuse'', ''achieve'', ''acid'',
    ''acoustic'', ''acquire'', ''across'', ''act'', ''action'', ''actor'', ''actress'', ''actual'',
    ''adapt'', ''add'', ''addict'', ''address'', ''adjust'', ''admit'', ''adult'', ''advance'']"

definition words_1 :: "string list" where
  "words_1 = [
    ''advice'', ''aerobic'', ''affair'', ''afford'', ''afraid'', ''again'', ''age'', ''agent'', ''agree'',
    ''ahead'', ''aim'', ''air'', ''airport'', ''aisle'', ''alarm'', ''album'', ''alcohol'', ''alert'',
    ''alien'', ''all'', ''alley'', ''allow'', ''almost'', ''alone'', ''alpha'', ''already'', ''also'',
    ''alter'', ''always'', ''amateur'', ''amazing'', ''among'']"

definition words_2 :: "string list" where
  "words_2 = [
    ''amount'', ''amused'', ''analyst'', ''anchor'', ''ancient'', ''anger'', ''angle'', ''angry'',
    ''animal'', ''ankle'', ''announce'', ''annual'', ''another'', ''answer'', ''antenna'', ''antique'',
    ''anxiety'', ''any'', ''apart'', ''apology'', ''appear'', ''apple'', ''approve'', ''april'', ''arch'',
    ''arctic'', ''area'', ''arena'', ''argue'', ''arm'', ''armed'', ''armor'']"

definition words_3 :: "string list" where
  "words_3 = [
    ''army'', ''around'', ''arrange'', ''arrest'', ''arrive'', ''arrow'', ''art'', ''artefact'', ''artist'',
    ''artwork'', ''ask'', ''aspect'', ''assault'', ''asset'', ''assist'', ''assume'', ''asthma'',
    ''athlete'', ''atom'', ''attack'', ''attend'', ''attitude'', ''attract'', ''auction'', ''audit'',
    ''august'', ''aunt'', ''author'', ''auto'', ''autumn'', ''average'', ''avocado'']"

definition words_4 :: "string list" where
  "words_4 = [
    ''avoid'', ''awake'', ''aware'', ''away'', ''awesome'', ''awful'', ''awkward'', ''axis'', ''baby'',
    ''bachelor'', ''bacon'', ''badge'', ''bag'', ''balance'', ''balcony'', ''ball'', ''bamboo'', ''banana'',
    ''banner'', ''bar'', ''barely'', ''bargain'', ''barrel'', ''base'', ''basic'', ''basket'', ''battle'',
    ''beach'', ''bean'', ''beauty'', ''because'', ''become'']"

definition words_5 :: "string list" where
  "words_5 = [
    ''beef'', ''before'', ''begin'', ''behave'', ''behind'', ''believe'', ''below'', ''belt'', ''bench'',
    ''benefit'', ''best'', ''betray'', ''better'', ''between'', ''beyond'', ''bicycle'', ''bid'', ''bike'',
    ''bind'', ''biology'', ''bird'', ''birth'', ''bitter'', ''black'', ''blade'', ''blame'', ''blanket'',
    ''blast'', ''bleak'', ''bless'', ''blind'', ''blood'']"

definition words_6 :: "string list" where
  "words_6 = [
    ''blossom'', ''blouse'', ''blue'', ''blur'', ''blush'', ''board'', ''boat'', ''body'', ''boil'',
    ''bomb'', ''bone'', ''bonus'', ''book'', ''boost'', ''border'', ''boring'', ''borrow'', ''boss'',
    ''bottom'', ''bounce'', ''box'', ''boy'', ''bracket'', ''brain'', ''brand'', ''brass'', ''brave'',
    ''bread'', ''breeze'', ''brick'', ''bridge'', ''brief'']"

definition words_7 :: "string list" where
  "words_7 = [
    ''bright'', ''bring'', ''brisk'', ''broccoli'', ''broken'', ''bronze'', ''broom'', ''brother'',
    ''brown'', ''brush'', ''bubble'', ''buddy'', ''budget'', ''buffalo'', ''build'', ''bulb'', ''bulk'',
    ''bullet'', ''bundle'', ''bunker'', ''burden'', ''burger'', ''burst'', ''bus'', ''business'', ''busy'',
    ''butter'', ''buyer'', ''buzz'', ''cabbage'', ''cabin'', ''cable'']"

definition words_8 :: "string list" where
  "words_8 = [
    ''cactus'', ''cage'', ''cake'', ''call'', ''calm'', ''camera'', ''camp'', ''can'', ''canal'', ''cancel'',
    ''candy'', ''cannon'', ''canoe'', ''canvas'', ''canyon'', ''capable'', ''capital'', ''captain'', ''car'',
    ''carbon'', ''card'', ''cargo'', ''carpet'', ''carry'', ''cart'', ''case'', ''cash'', ''casino'',
    ''castle'', ''casual'', ''cat'', ''catalog'']"

definition words_9 :: "string list" where
  "words_9 = [
    ''catch'', ''category'', ''cattle'', ''caught'', ''cause'', ''caution'', ''cave'', ''ceiling'',
    ''celery'', ''cement'', ''census'', ''century'', ''cereal'', ''certain'', ''chair'', ''chalk'',
    ''champion'', ''change'', ''chaos'', ''chapter'', ''charge'', ''chase'', ''chat'', ''cheap'', ''check'',
    ''cheese'', ''chef'', ''cherry'', ''chest'', ''chicken'', ''chief'', ''child'']"

definition words_10 :: "string list" where
  "words_10 = [
    ''chimney'', ''choice'', ''choose'', ''chronic'', ''chuckle'', ''chunk'', ''churn'', ''cigar'',
    ''cinnamon'', ''circle'', ''citizen'', ''city'', ''civil'', ''claim'', ''clap'', ''clarify'', ''claw'',
    ''clay'', ''clean'', ''clerk'', ''clever'', ''click'', ''client'', ''cliff'', ''climb'', ''clinic'',
    ''clip'', ''clock'', ''clog'', ''close'', ''cloth'', ''cloud'']"

definition words_11 :: "string list" where
  "words_11 = [
    ''clown'', ''club'', ''clump'', ''cluster'', ''clutch'', ''coach'', ''coast'', ''coconut'', ''code'',
    ''coffee'', ''coil'', ''coin'', ''collect'', ''color'', ''column'', ''combine'', ''come'', ''comfort'',
    ''comic'', ''common'', ''company'', ''concert'', ''conduct'', ''confirm'', ''congress'', ''connect'',
    ''consider'', ''control'', ''convince'', ''cook'', ''cool'', ''copper'']"

definition words_12 :: "string list" where
  "words_12 = [
    ''copy'', ''coral'', ''core'', ''corn'', ''correct'', ''cost'', ''cotton'', ''couch'', ''country'',
    ''couple'', ''course'', ''cousin'', ''cover'', ''coyote'', ''crack'', ''cradle'', ''craft'', ''cram'',
    ''crane'', ''crash'', ''crater'', ''crawl'', ''crazy'', ''cream'', ''credit'', ''creek'', ''crew'',
    ''cricket'', ''crime'', ''crisp'', ''critic'', ''crop'']"

definition words_13 :: "string list" where
  "words_13 = [
    ''cross'', ''crouch'', ''crowd'', ''crucial'', ''cruel'', ''cruise'', ''crumble'', ''crunch'', ''crush'',
    ''cry'', ''crystal'', ''cube'', ''culture'', ''cup'', ''cupboard'', ''curious'', ''current'',
    ''curtain'', ''curve'', ''cushion'', ''custom'', ''cute'', ''cycle'', ''dad'', ''damage'', ''damp'',
    ''dance'', ''danger'', ''daring'', ''dash'', ''daughter'', ''dawn'']"

definition words_14 :: "string list" where
  "words_14 = [
    ''day'', ''deal'', ''debate'', ''debris'', ''decade'', ''december'', ''decide'', ''decline'',
    ''decorate'', ''decrease'', ''deer'', ''defense'', ''define'', ''defy'', ''degree'', ''delay'',
    ''deliver'', ''demand'', ''demise'', ''denial'', ''dentist'', ''deny'', ''depart'', ''depend'',
    ''deposit'', ''depth'', ''deputy'', ''derive'', ''describe'', ''desert'', ''design'', ''desk'']"

definition words_15 :: "string list" where
  "words_15 = [
    ''despair'', ''destroy'', ''detail'', ''detect'', ''develop'', ''device'', ''devote'', ''diagram'',
    ''dial'', ''diamond'', ''diary'', ''dice'', ''diesel'', ''diet'', ''differ'', ''digital'', ''dignity'',
    ''dilemma'', ''dinner'', ''dinosaur'', ''direct'', ''dirt'', ''disagree'', ''discover'', ''disease'',
    ''dish'', ''dismiss'', ''disorder'', ''display'', ''distance'', ''divert'', ''divide'']"

definition words_16 :: "string list" where
  "words_16 = [
    ''divorce'', ''dizzy'', ''doctor'', ''document'', ''dog'', ''doll'', ''dolphin'', ''domain'', ''donate'',
    ''donkey'', ''donor'', ''door'', ''dose'', ''double'', ''dove'', ''draft'', ''dragon'', ''drama'',
    ''drastic'', ''draw'', ''dream'', ''dress'', ''drift'', ''drill'', ''drink'', ''drip'', ''drive'',
    ''drop'', ''drum'', ''dry'', ''duck'', ''dumb'']"

definition words_17 :: "string list" where
  "words_17 = [
    ''dune'', ''during'', ''dust'', ''dutch'', ''duty'', ''dwarf'', ''dynamic'', ''eager'', ''eagle'',
    ''early'', ''earn'', ''earth'', ''easily'', ''east'', ''easy'', ''echo'', ''ecology'', ''economy'',
    ''edge'', ''edit'', ''educate'', ''effort'', ''egg'', ''eight'', ''either'', ''elbow'', ''elder'',
    ''electric'', ''elegant'', ''element'', ''elephant'', ''elevator'']"

definition words_18 :: "string list" where
  "words_18 = [
    ''elite'', ''else'', ''embark'', ''embody'', ''embrace'', ''emerge'', ''emotion'', ''employ'',
    ''empower'', ''empty'', ''enable'', ''enact'', ''end'', ''endless'', ''endorse'', ''enemy'', ''energy'',
    ''enforce'', ''engage'', ''engine'', ''enhance'', ''enjoy'', ''enlist'', ''enough'', ''enrich'',
    ''enroll'', ''ensure'', ''enter'', ''entire'', ''entry'', ''envelope'', ''episode'']"

definition words_19 :: "string list" where
  "words_19 = [
    ''equal'', ''equip'', ''era'', ''erase'', ''erode'', ''erosion'', ''error'', ''erupt'', ''escape'',
    ''essay'', ''essence'', ''estate'', ''eternal'', ''ethics'', ''evidence'', ''evil'', ''evoke'',
    ''evolve'', ''exact'', ''example'', ''excess'', ''exchange'', ''excite'', ''exclude'', ''excuse'',
    ''execute'', ''exercise'', ''exhaust'', ''exhibit'', ''exile'', ''exist'', ''exit'']"

definition words_20 :: "string list" where
  "words_20 = [
    ''exotic'', ''expand'', ''expect'', ''expire'', ''explain'', ''expose'', ''express'', ''extend'',
    ''extra'', ''eye'', ''eyebrow'', ''fabric'', ''face'', ''faculty'', ''fade'', ''faint'', ''faith'',
    ''fall'', ''false'', ''fame'', ''family'', ''famous'', ''fan'', ''fancy'', ''fantasy'', ''farm'',
    ''fashion'', ''fat'', ''fatal'', ''father'', ''fatigue'', ''fault'']"

definition words_21 :: "string list" where
  "words_21 = [
    ''favorite'', ''feature'', ''february'', ''federal'', ''fee'', ''feed'', ''feel'', ''female'', ''fence'',
    ''festival'', ''fetch'', ''fever'', ''few'', ''fiber'', ''fiction'', ''field'', ''figure'', ''file'',
    ''film'', ''filter'', ''final'', ''find'', ''fine'', ''finger'', ''finish'', ''fire'', ''firm'',
    ''first'', ''fiscal'', ''fish'', ''fit'', ''fitness'']"

definition words_22 :: "string list" where
  "words_22 = [
    ''fix'', ''flag'', ''flame'', ''flash'', ''flat'', ''flavor'', ''flee'', ''flight'', ''flip'', ''float'',
    ''flock'', ''floor'', ''flower'', ''fluid'', ''flush'', ''fly'', ''foam'', ''focus'', ''fog'', ''foil'',
    ''fold'', ''follow'', ''food'', ''foot'', ''force'', ''forest'', ''forget'', ''fork'', ''fortune'',
    ''forum'', ''forward'', ''fossil'']"

definition words_23 :: "string list" where
  "words_23 = [
    ''foster'', ''found'', ''fox'', ''fragile'', ''frame'', ''frequent'', ''fresh'', ''friend'', ''fringe'',
    ''frog'', ''front'', ''frost'', ''frown'', ''frozen'', ''fruit'', ''fuel'', ''fun'', ''funny'',
    ''furnace'', ''fury'', ''future'', ''gadget'', ''gain'', ''galaxy'', ''gallery'', ''game'', ''gap'',
    ''garage'', ''garbage'', ''garden'', ''garlic'', ''garment'']"

definition words_24 :: "string list" where
  "words_24 = [
    ''gas'', ''gasp'', ''gate'', ''gather'', ''gauge'', ''gaze'', ''general'', ''genius'', ''genre'',
    ''gentle'', ''genuine'', ''gesture'', ''ghost'', ''giant'', ''gift'', ''giggle'', ''ginger'',
    ''giraffe'', ''girl'', ''give'', ''glad'', ''glance'', ''glare'', ''glass'', ''glide'', ''glimpse'',
    ''globe'', ''gloom'', ''glory'', ''glove'', ''glow'', ''glue'']"

definition words_25 :: "string list" where
  "words_25 = [
    ''goat'', ''goddess'', ''gold'', ''good'', ''goose'', ''gorilla'', ''gospel'', ''gossip'', ''govern'',
    ''gown'', ''grab'', ''grace'', ''grain'', ''grant'', ''grape'', ''grass'', ''gravity'', ''great'',
    ''green'', ''grid'', ''grief'', ''grit'', ''grocery'', ''group'', ''grow'', ''grunt'', ''guard'',
    ''guess'', ''guide'', ''guilt'', ''guitar'', ''gun'']"

definition words_26 :: "string list" where
  "words_26 = [
    ''gym'', ''habit'', ''hair'', ''half'', ''hammer'', ''hamster'', ''hand'', ''happy'', ''harbor'',
    ''hard'', ''harsh'', ''harvest'', ''hat'', ''have'', ''hawk'', ''hazard'', ''head'', ''health'',
    ''heart'', ''heavy'', ''hedgehog'', ''height'', ''hello'', ''helmet'', ''help'', ''hen'', ''hero'',
    ''hidden'', ''high'', ''hill'', ''hint'', ''hip'']"

definition words_27 :: "string list" where
  "words_27 = [
    ''hire'', ''history'', ''hobby'', ''hockey'', ''hold'', ''hole'', ''holiday'', ''hollow'', ''home'',
    ''honey'', ''hood'', ''hope'', ''horn'', ''horror'', ''horse'', ''hospital'', ''host'', ''hotel'',
    ''hour'', ''hover'', ''hub'', ''huge'', ''human'', ''humble'', ''humor'', ''hundred'', ''hungry'',
    ''hunt'', ''hurdle'', ''hurry'', ''hurt'', ''husband'']"

definition words_28 :: "string list" where
  "words_28 = [
    ''hybrid'', ''ice'', ''icon'', ''idea'', ''identify'', ''idle'', ''ignore'', ''ill'', ''illegal'',
    ''illness'', ''image'', ''imitate'', ''immense'', ''immune'', ''impact'', ''impose'', ''improve'',
    ''impulse'', ''inch'', ''include'', ''income'', ''increase'', ''index'', ''indicate'', ''indoor'',
    ''industry'', ''infant'', ''inflict'', ''inform'', ''inhale'', ''inherit'', ''initial'']"

definition words_29 :: "string list" where
  "words_29 = [
    ''inject'', ''injury'', ''inmate'', ''inner'', ''innocent'', ''input'', ''inquiry'', ''insane'',
    ''insect'', ''inside'', ''inspire'', ''install'', ''intact'', ''interest'', ''into'', ''invest'',
    ''invite'', ''involve'', ''iron'', ''island'', ''isolate'', ''issue'', ''item'', ''ivory'', ''jacket'',
    ''jaguar'', ''jar'', ''jazz'', ''jealous'', ''jeans'', ''jelly'', ''jewel'']"

definition words_30 :: "string list" where
  "words_30 = [
    ''job'', ''join'', ''joke'', ''journey'', ''joy'', ''judge'', ''juice'', ''jump'', ''jungle'',
    ''junior'', ''junk'', ''just'', ''kangaroo'', ''keen'', ''keep'', ''ketchup'', ''key'', ''kick'',
    ''kid'', ''kidney'', ''kind'', ''kingdom'', ''kiss'', ''kit'', ''kitchen'', ''kite'', ''kitten'',
    ''kiwi'', ''knee'', ''knife'', ''knock'', ''know'']"

definition words_31 :: "string list" where
  "words_31 = [
    ''lab'', ''label'', ''labor'', ''ladder'', ''lady'', ''lake'', ''lamp'', ''language'', ''laptop'',
    ''large'', ''later'', ''latin'', ''laugh'', ''laundry'', ''lava'', ''law'', ''lawn'', ''lawsuit'',
    ''layer'', ''lazy'', ''leader'', ''leaf'', ''learn'', ''leave'', ''lecture'', ''left'', ''leg'',
    ''legal'', ''legend'', ''leisure'', ''lemon'', ''lend'']"

definition words_32 :: "string list" where
  "words_32 = [
    ''length'', ''lens'', ''leopard'', ''lesson'', ''letter'', ''level'', ''liar'', ''liberty'', ''library'',
    ''license'', ''life'', ''lift'', ''light'', ''like'', ''limb'', ''limit'', ''link'', ''lion'',
    ''liquid'', ''list'', ''little'', ''live'', ''lizard'', ''load'', ''loan'', ''lobster'', ''local'',
    ''lock'', ''logic'', ''lonely'', ''long'', ''loop'']"

definition words_33 :: "string list" where
  "words_33 = [
    ''lottery'', ''loud'', ''lounge'', ''love'', ''loyal'', ''lucky'', ''luggage'', ''lumber'', ''lunar'',
    ''lunch'', ''luxury'', ''lyrics'', ''machine'', ''mad'', ''magic'', ''magnet'', ''maid'', ''mail'',
    ''main'', ''major'', ''make'', ''mammal'', ''man'', ''manage'', ''mandate'', ''mango'', ''mansion'',
    ''manual'', ''maple'', ''marble'', ''march'', ''margin'']"

definition words_34 :: "string list" where
  "words_34 = [
    ''marine'', ''market'', ''marriage'', ''mask'', ''mass'', ''master'', ''match'', ''material'', ''math'',
    ''matrix'', ''matter'', ''maximum'', ''maze'', ''meadow'', ''mean'', ''measure'', ''meat'', ''mechanic'',
    ''medal'', ''media'', ''melody'', ''melt'', ''member'', ''memory'', ''mention'', ''menu'', ''mercy'',
    ''merge'', ''merit'', ''merry'', ''mesh'', ''message'']"

definition words_35 :: "string list" where
  "words_35 = [
    ''metal'', ''method'', ''middle'', ''midnight'', ''milk'', ''million'', ''mimic'', ''mind'', ''minimum'',
    ''minor'', ''minute'', ''miracle'', ''mirror'', ''misery'', ''miss'', ''mistake'', ''mix'', ''mixed'',
    ''mixture'', ''mobile'', ''model'', ''modify'', ''mom'', ''moment'', ''monitor'', ''monkey'',
    ''monster'', ''month'', ''moon'', ''moral'', ''more'', ''morning'']"

definition words_36 :: "string list" where
  "words_36 = [
    ''mosquito'', ''mother'', ''motion'', ''motor'', ''mountain'', ''mouse'', ''move'', ''movie'', ''much'',
    ''muffin'', ''mule'', ''multiply'', ''muscle'', ''museum'', ''mushroom'', ''music'', ''must'',
    ''mutual'', ''myself'', ''mystery'', ''myth'', ''naive'', ''name'', ''napkin'', ''narrow'', ''nasty'',
    ''nation'', ''nature'', ''near'', ''neck'', ''need'', ''negative'']"

definition words_37 :: "string list" where
  "words_37 = [
    ''neglect'', ''neither'', ''nephew'', ''nerve'', ''nest'', ''net'', ''network'', ''neutral'', ''never'',
    ''news'', ''next'', ''nice'', ''night'', ''noble'', ''noise'', ''nominee'', ''noodle'', ''normal'',
    ''north'', ''nose'', ''notable'', ''note'', ''nothing'', ''notice'', ''novel'', ''now'', ''nuclear'',
    ''number'', ''nurse'', ''nut'', ''oak'', ''obey'']"

definition words_38 :: "string list" where
  "words_38 = [
    ''object'', ''oblige'', ''obscure'', ''observe'', ''obtain'', ''obvious'', ''occur'', ''ocean'',
    ''october'', ''odor'', ''off'', ''offer'', ''office'', ''often'', ''oil'', ''okay'', ''old'', ''olive'',
    ''olympic'', ''omit'', ''once'', ''one'', ''onion'', ''online'', ''only'', ''open'', ''opera'',
    ''opinion'', ''oppose'', ''option'', ''orange'', ''orbit'']"

definition words_39 :: "string list" where
  "words_39 = [
    ''orchard'', ''order'', ''ordinary'', ''organ'', ''orient'', ''original'', ''orphan'', ''ostrich'',
    ''other'', ''outdoor'', ''outer'', ''output'', ''outside'', ''oval'', ''oven'', ''over'', ''own'',
    ''owner'', ''oxygen'', ''oyster'', ''ozone'', ''pact'', ''paddle'', ''page'', ''pair'', ''palace'',
    ''palm'', ''panda'', ''panel'', ''panic'', ''panther'', ''paper'']"

definition words_40 :: "string list" where
  "words_40 = [
    ''parade'', ''parent'', ''park'', ''parrot'', ''party'', ''pass'', ''patch'', ''path'', ''patient'',
    ''patrol'', ''pattern'', ''pause'', ''pave'', ''payment'', ''peace'', ''peanut'', ''pear'', ''peasant'',
    ''pelican'', ''pen'', ''penalty'', ''pencil'', ''people'', ''pepper'', ''perfect'', ''permit'',
    ''person'', ''pet'', ''phone'', ''photo'', ''phrase'', ''physical'']"

definition words_41 :: "string list" where
  "words_41 = [
    ''piano'', ''picnic'', ''picture'', ''piece'', ''pig'', ''pigeon'', ''pill'', ''pilot'', ''pink'',
    ''pioneer'', ''pipe'', ''pistol'', ''pitch'', ''pizza'', ''place'', ''planet'', ''plastic'', ''plate'',
    ''play'', ''please'', ''pledge'', ''pluck'', ''plug'', ''plunge'', ''poem'', ''poet'', ''point'',
    ''polar'', ''pole'', ''police'', ''pond'', ''pony'']"

definition words_42 :: "string list" where
  "words_42 = [
    ''pool'', ''popular'', ''portion'', ''position'', ''possible'', ''post'', ''potato'', ''pottery'',
    ''poverty'', ''powder'', ''power'', ''practice'', ''praise'', ''predict'', ''prefer'', ''prepare'',
    ''present'', ''pretty'', ''prevent'', ''price'', ''pride'', ''primary'', ''print'', ''priority'',
    ''prison'', ''private'', ''prize'', ''problem'', ''process'', ''produce'', ''profit'', ''program'']"

definition words_43 :: "string list" where
  "words_43 = [
    ''project'', ''promote'', ''proof'', ''property'', ''prosper'', ''protect'', ''proud'', ''provide'',
    ''public'', ''pudding'', ''pull'', ''pulp'', ''pulse'', ''pumpkin'', ''punch'', ''pupil'', ''puppy'',
    ''purchase'', ''purity'', ''purpose'', ''purse'', ''push'', ''put'', ''puzzle'', ''pyramid'',
    ''quality'', ''quantum'', ''quarter'', ''question'', ''quick'', ''quit'', ''quiz'']"

definition words_44 :: "string list" where
  "words_44 = [
    ''quote'', ''rabbit'', ''raccoon'', ''race'', ''rack'', ''radar'', ''radio'', ''rail'', ''rain'',
    ''raise'', ''rally'', ''ramp'', ''ranch'', ''random'', ''range'', ''rapid'', ''rare'', ''rate'',
    ''rather'', ''raven'', ''raw'', ''razor'', ''ready'', ''real'', ''reason'', ''rebel'', ''rebuild'',
    ''recall'', ''receive'', ''recipe'', ''record'', ''recycle'']"

definition words_45 :: "string list" where
  "words_45 = [
    ''reduce'', ''reflect'', ''reform'', ''refuse'', ''region'', ''regret'', ''regular'', ''reject'',
    ''relax'', ''release'', ''relief'', ''rely'', ''remain'', ''remember'', ''remind'', ''remove'',
    ''render'', ''renew'', ''rent'', ''reopen'', ''repair'', ''repeat'', ''replace'', ''report'',
    ''require'', ''rescue'', ''resemble'', ''resist'', ''resource'', ''response'', ''result'', ''retire'']"

definition words_46 :: "string list" where
  "words_46 = [
    ''retreat'', ''return'', ''reunion'', ''reveal'', ''review'', ''reward'', ''rhythm'', ''rib'',
    ''ribbon'', ''rice'', ''rich'', ''ride'', ''ridge'', ''rifle'', ''right'', ''rigid'', ''ring'', ''riot'',
    ''ripple'', ''risk'', ''ritual'', ''rival'', ''river'', ''road'', ''roast'', ''robot'', ''robust'',
    ''rocket'', ''romance'', ''roof'', ''rookie'', ''room'']"

definition words_47 :: "string list" where
  "words_47 = [
    ''rose'', ''rotate'', ''rough'', ''round'', ''route'', ''royal'', ''rubber'', ''rude'', ''rug'',
    ''rule'', ''run'', ''runway'', ''rural'', ''sad'', ''saddle'', ''sadness'', ''safe'', ''sail'',
    ''salad'', ''salmon'', ''salon'', ''salt'', ''salute'', ''same'', ''sample'', ''sand'', ''satisfy'',
    ''satoshi'', ''sauce'', ''sausage'', ''save'', ''say'']"

definition words_48 :: "string list" where
  "words_48 = [
    ''scale'', ''scan'', ''scare'', ''scatter'', ''scene'', ''scheme'', ''school'', ''science'',
    ''scissors'', ''scorpion'', ''scout'', ''scrap'', ''screen'', ''script'', ''scrub'', ''sea'', ''search'',
    ''season'', ''seat'', ''second'', ''secret'', ''section'', ''security'', ''seed'', ''seek'', ''segment'',
    ''select'', ''sell'', ''seminar'', ''senior'', ''sense'', ''sentence'']"

definition words_49 :: "string list" where
  "words_49 = [
    ''series'', ''service'', ''session'', ''settle'', ''setup'', ''seven'', ''shadow'', ''shaft'',
    ''shallow'', ''share'', ''shed'', ''shell'', ''sheriff'', ''shield'', ''shift'', ''shine'', ''ship'',
    ''shiver'', ''shock'', ''shoe'', ''shoot'', ''shop'', ''short'', ''shoulder'', ''shove'', ''shrimp'',
    ''shrug'', ''shuffle'', ''shy'', ''sibling'', ''sick'', ''side'']"

definition words_50 :: "string list" where
  "words_50 = [
    ''siege'', ''sight'', ''sign'', ''silent'', ''silk'', ''silly'', ''silver'', ''similar'', ''simple'',
    ''since'', ''sing'', ''siren'', ''sister'', ''situate'', ''six'', ''size'', ''skate'', ''sketch'',
    ''ski'', ''skill'', ''skin'', ''skirt'', ''skull'', ''slab'', ''slam'', ''sleep'', ''slender'',
    ''slice'', ''slide'', ''slight'', ''slim'', ''slogan'']"

definition words_51 :: "string list" where
  "words_51 = [
    ''slot'', ''slow'', ''slush'', ''small'', ''smart'', ''smile'', ''smoke'', ''smooth'', ''snack'',
    ''snake'', ''snap'', ''sniff'', ''snow'', ''soap'', ''soccer'', ''social'', ''sock'', ''soda'', ''soft'',
    ''solar'', ''soldier'', ''solid'', ''solution'', ''solve'', ''someone'', ''song'', ''soon'', ''sorry'',
    ''sort'', ''soul'', ''sound'', ''soup'']"

definition words_52 :: "string list" where
  "words_52 = [
    ''source'', ''south'', ''space'', ''spare'', ''spatial'', ''spawn'', ''speak'', ''special'', ''speed'',
    ''spell'', ''spend'', ''sphere'', ''spice'', ''spider'', ''spike'', ''spin'', ''spirit'', ''split'',
    ''spoil'', ''sponsor'', ''spoon'', ''sport'', ''spot'', ''spray'', ''spread'', ''spring'', ''spy'',
    ''square'', ''squeeze'', ''squirrel'', ''stable'', ''stadium'']"

definition words_53 :: "string list" where
  "words_53 = [
    ''staff'', ''stage'', ''stairs'', ''stamp'', ''stand'', ''start'', ''state'', ''stay'', ''steak'',
    ''steel'', ''stem'', ''step'', ''stereo'', ''stick'', ''still'', ''sting'', ''stock'', ''stomach'',
    ''stone'', ''stool'', ''story'', ''stove'', ''strategy'', ''street'', ''strike'', ''strong'',
    ''struggle'', ''student'', ''stuff'', ''stumble'', ''style'', ''subject'']"

definition words_54 :: "string list" where
  "words_54 = [
    ''submit'', ''subway'', ''success'', ''such'', ''sudden'', ''suffer'', ''sugar'', ''suggest'', ''suit'',
    ''summer'', ''sun'', ''sunny'', ''sunset'', ''super'', ''supply'', ''supreme'', ''sure'', ''surface'',
    ''surge'', ''surprise'', ''surround'', ''survey'', ''suspect'', ''sustain'', ''swallow'', ''swamp'',
    ''swap'', ''swarm'', ''swear'', ''sweet'', ''swift'', ''swim'']"

definition words_55 :: "string list" where
  "words_55 = [
    ''swing'', ''switch'', ''sword'', ''symbol'', ''symptom'', ''syrup'', ''system'', ''table'', ''tackle'',
    ''tag'', ''tail'', ''talent'', ''talk'', ''tank'', ''tape'', ''target'', ''task'', ''taste'', ''tattoo'',
    ''taxi'', ''teach'', ''team'', ''tell'', ''ten'', ''tenant'', ''tennis'', ''tent'', ''term'', ''test'',
    ''text'', ''thank'', ''that'']"

definition words_56 :: "string list" where
  "words_56 = [
    ''theme'', ''then'', ''theory'', ''there'', ''they'', ''thing'', ''this'', ''thought'', ''three'',
    ''thrive'', ''throw'', ''thumb'', ''thunder'', ''ticket'', ''tide'', ''tiger'', ''tilt'', ''timber'',
    ''time'', ''tiny'', ''tip'', ''tired'', ''tissue'', ''title'', ''toast'', ''tobacco'', ''today'',
    ''toddler'', ''toe'', ''together'', ''toilet'', ''token'']"

definition words_57 :: "string list" where
  "words_57 = [
    ''tomato'', ''tomorrow'', ''tone'', ''tongue'', ''tonight'', ''tool'', ''tooth'', ''top'', ''topic'',
    ''topple'', ''torch'', ''tornado'', ''tortoise'', ''toss'', ''total'', ''tourist'', ''toward'',
    ''tower'', ''town'', ''toy'', ''track'', ''trade'', ''traffic'', ''tragic'', ''train'', ''transfer'',
    ''trap'', ''trash'', ''travel'', ''tray'', ''treat'', ''tree'']"

definition words_58 :: "string list" where
  "words_58 = [
    ''trend'', ''trial'', ''tribe'', ''trick'', ''trigger'', ''trim'', ''trip'', ''trophy'', ''trouble'',
    ''truck'', ''true'', ''truly'', ''trumpet'', ''trust'', ''truth'', ''try'', ''tube'', ''tuition'',
    ''tumble'', ''tuna'', ''tunnel'', ''turkey'', ''turn'', ''turtle'', ''twelve'', ''twenty'', ''twice'',
    ''twin'', ''twist'', ''two'', ''type'', ''typical'']"

definition words_59 :: "string list" where
  "words_59 = [
    ''ugly'', ''umbrella'', ''unable'', ''unaware'', ''uncle'', ''uncover'', ''under'', ''undo'', ''unfair'',
    ''unfold'', ''unhappy'', ''uniform'', ''unique'', ''unit'', ''universe'', ''unknown'', ''unlock'',
    ''until'', ''unusual'', ''unveil'', ''update'', ''upgrade'', ''uphold'', ''upon'', ''upper'', ''upset'',
    ''urban'', ''urge'', ''usage'', ''use'', ''used'', ''useful'']"

definition words_60 :: "string list" where
  "words_60 = [
    ''useless'', ''usual'', ''utility'', ''vacant'', ''vacuum'', ''vague'', ''valid'', ''valley'', ''valve'',
    ''van'', ''vanish'', ''vapor'', ''various'', ''vast'', ''vault'', ''vehicle'', ''velvet'', ''vendor'',
    ''venture'', ''venue'', ''verb'', ''verify'', ''version'', ''very'', ''vessel'', ''veteran'', ''viable'',
    ''vibrant'', ''vicious'', ''victory'', ''video'', ''view'']"

definition words_61 :: "string list" where
  "words_61 = [
    ''village'', ''vintage'', ''violin'', ''virtual'', ''virus'', ''visa'', ''visit'', ''visual'', ''vital'',
    ''vivid'', ''vocal'', ''voice'', ''void'', ''volcano'', ''volume'', ''vote'', ''voyage'', ''wage'',
    ''wagon'', ''wait'', ''walk'', ''wall'', ''walnut'', ''want'', ''warfare'', ''warm'', ''warrior'',
    ''wash'', ''wasp'', ''waste'', ''water'', ''wave'']"

definition words_62 :: "string list" where
  "words_62 = [
    ''way'', ''wealth'', ''weapon'', ''wear'', ''weasel'', ''weather'', ''web'', ''wedding'', ''weekend'',
    ''weird'', ''welcome'', ''west'', ''wet'', ''whale'', ''what'', ''wheat'', ''wheel'', ''when'',
    ''where'', ''whip'', ''whisper'', ''wide'', ''width'', ''wife'', ''wild'', ''will'', ''win'', ''window'',
    ''wine'', ''wing'', ''wink'', ''winner'']"

definition words_63 :: "string list" where
  "words_63 = [
    ''winter'', ''wire'', ''wisdom'', ''wise'', ''wish'', ''witness'', ''wolf'', ''woman'', ''wonder'',
    ''wood'', ''wool'', ''word'', ''work'', ''world'', ''worry'', ''worth'', ''wrap'', ''wreck'',
    ''wrestle'', ''wrist'', ''write'', ''wrong'', ''yard'', ''year'', ''yellow'', ''you'', ''young'',
    ''youth'', ''zebra'', ''zero'', ''zone'', ''zoo'']"

definition WORDS :: "string list" where
  "WORDS = concat [
    words_0, words_1, words_2, words_3, words_4, words_5, words_6, words_7, words_8, words_9, words_10,
    words_11, words_12, words_13, words_14, words_15, words_16, words_17, words_18, words_19, words_20,
    words_21, words_22, words_23, words_24, words_25, words_26, words_27, words_28, words_29, words_30,
    words_31, words_32, words_33, words_34, words_35, words_36, words_37, words_38, words_39, words_40,
    words_41, words_42, words_43, words_44, words_45, words_46, words_47, words_48, words_49, words_50,
    words_51, words_52, words_53, words_54, words_55, words_56, words_57, words_58, words_59, words_60,
    words_61, words_62, words_63]"

definition letter_code :: "char \<Rightarrow> bool" where
  "letter_code c \<longleftrightarrow> CHR ''a'' \<le> c \<and> c \<le> CHR ''z''"

lemma letter_codes [simp]:
  "letter_code (CHR ''a'')"
  "letter_code (CHR ''b'')"
  "letter_code (CHR ''c'')"
  "letter_code (CHR ''d'')"
  "letter_code (CHR ''e'')"
  "letter_code (CHR ''f'')"
  "letter_code (CHR ''g'')"
  "letter_code (CHR ''h'')"
  "letter_code (CHR ''i'')"
  "letter_code (CHR ''j'')"
  "letter_code (CHR ''k'')"
  "letter_code (CHR ''l'')"
  "letter_code (CHR ''m'')"
  "letter_code (CHR ''n'')"
  "letter_code (CHR ''o'')"
  "letter_code (CHR ''p'')"
  "letter_code (CHR ''q'')"
  "letter_code (CHR ''r'')"
  "letter_code (CHR ''s'')"
  "letter_code (CHR ''t'')"
  "letter_code (CHR ''u'')"
  "letter_code (CHR ''v'')"
  "letter_code (CHR ''w'')"
  "letter_code (CHR ''x'')"
  "letter_code (CHR ''y'')"
  "letter_code (CHR ''z'')"
  by (simp_all add: letter_code_def less_eq_char_def)

text \<open>\<open>row_ok a b ws\<close>: the words of the row are words, strictly sorted, the first behind \<open>a\<close> and the last is \<open>b\<close>.\<close>

fun row_ok :: "string \<Rightarrow> string \<Rightarrow> string list \<Rightarrow> bool" where
  "row_ok a b [] \<longleftrightarrow> a = b"
| "row_ok a b (w # ws) \<longleftrightarrow> a < w \<and> list_all letter_code w \<and> row_ok w b ws"

lemma row_0: "row_ok '''' ''advance'' words_0 \<and> length words_0 = 32"
  by (simp add: words_0_def less_char_def)

lemma row_1: "row_ok ''advance'' ''among'' words_1 \<and> length words_1 = 32"
  by (simp add: words_1_def less_char_def)

lemma row_2: "row_ok ''among'' ''armor'' words_2 \<and> length words_2 = 32"
  by (simp add: words_2_def less_char_def)

lemma row_3: "row_ok ''armor'' ''avocado'' words_3 \<and> length words_3 = 32"
  by (simp add: words_3_def less_char_def)

lemma row_4: "row_ok ''avocado'' ''become'' words_4 \<and> length words_4 = 32"
  by (simp add: words_4_def less_char_def)

lemma row_5: "row_ok ''become'' ''blood'' words_5 \<and> length words_5 = 32"
  by (simp add: words_5_def less_char_def)

lemma row_6: "row_ok ''blood'' ''brief'' words_6 \<and> length words_6 = 32"
  by (simp add: words_6_def less_char_def)

lemma row_7: "row_ok ''brief'' ''cable'' words_7 \<and> length words_7 = 32"
  by (simp add: words_7_def less_char_def)

lemma row_8: "row_ok ''cable'' ''catalog'' words_8 \<and> length words_8 = 32"
  by (simp add: words_8_def less_char_def)

lemma row_9: "row_ok ''catalog'' ''child'' words_9 \<and> length words_9 = 32"
  by (simp add: words_9_def less_char_def)

lemma row_10: "row_ok ''child'' ''cloud'' words_10 \<and> length words_10 = 32"
  by (simp add: words_10_def less_char_def)

lemma row_11: "row_ok ''cloud'' ''copper'' words_11 \<and> length words_11 = 32"
  by (simp add: words_11_def less_char_def)

lemma row_12: "row_ok ''copper'' ''crop'' words_12 \<and> length words_12 = 32"
  by (simp add: words_12_def less_char_def)

lemma row_13: "row_ok ''crop'' ''dawn'' words_13 \<and> length words_13 = 32"
  by (simp add: words_13_def less_char_def)

lemma row_14: "row_ok ''dawn'' ''desk'' words_14 \<and> length words_14 = 32"
  by (simp add: words_14_def less_char_def)

lemma row_15: "row_ok ''desk'' ''divide'' words_15 \<and> length words_15 = 32"
  by (simp add: words_15_def less_char_def)

lemma row_16: "row_ok ''divide'' ''dumb'' words_16 \<and> length words_16 = 32"
  by (simp add: words_16_def less_char_def)

lemma row_17: "row_ok ''dumb'' ''elevator'' words_17 \<and> length words_17 = 32"
  by (simp add: words_17_def less_char_def)

lemma row_18: "row_ok ''elevator'' ''episode'' words_18 \<and> length words_18 = 32"
  by (simp add: words_18_def less_char_def)

lemma row_19: "row_ok ''episode'' ''exit'' words_19 \<and> length words_19 = 32"
  by (simp add: words_19_def less_char_def)

lemma row_20: "row_ok ''exit'' ''fault'' words_20 \<and> length words_20 = 32"
  by (simp add: words_20_def less_char_def)

lemma row_21: "row_ok ''fault'' ''fitness'' words_21 \<and> length words_21 = 32"
  by (simp add: words_21_def less_char_def)

lemma row_22: "row_ok ''fitness'' ''fossil'' words_22 \<and> length words_22 = 32"
  by (simp add: words_22_def less_char_def)

lemma row_23: "row_ok ''fossil'' ''garment'' words_23 \<and> length words_23 = 32"
  by (simp add: words_23_def less_char_def)

lemma row_24: "row_ok ''garment'' ''glue'' words_24 \<and> length words_24 = 32"
  by (simp add: words_24_def less_char_def)

lemma row_25: "row_ok ''glue'' ''gun'' words_25 \<and> length words_25 = 32"
  by (simp add: words_25_def less_char_def)

lemma row_26: "row_ok ''gun'' ''hip'' words_26 \<and> length words_26 = 32"
  by (simp add: words_26_def less_char_def)

lemma row_27: "row_ok ''hip'' ''husband'' words_27 \<and> length words_27 = 32"
  by (simp add: words_27_def less_char_def)

lemma row_28: "row_ok ''husband'' ''initial'' words_28 \<and> length words_28 = 32"
  by (simp add: words_28_def less_char_def)

lemma row_29: "row_ok ''initial'' ''jewel'' words_29 \<and> length words_29 = 32"
  by (simp add: words_29_def less_char_def)

lemma row_30: "row_ok ''jewel'' ''know'' words_30 \<and> length words_30 = 32"
  by (simp add: words_30_def less_char_def)

lemma row_31: "row_ok ''know'' ''lend'' words_31 \<and> length words_31 = 32"
  by (simp add: words_31_def less_char_def)

lemma row_32: "row_ok ''lend'' ''loop'' words_32 \<and> length words_32 = 32"
  by (simp add: words_32_def less_char_def)

lemma row_33: "row_ok ''loop'' ''margin'' words_33 \<and> length words_33 = 32"
  by (simp add: words_33_def less_char_def)

lemma row_34: "row_ok ''margin'' ''message'' words_34 \<and> length words_34 = 32"
  by (simp add: words_34_def less_char_def)

lemma row_35: "row_ok ''message'' ''morning'' words_35 \<and> length words_35 = 32"
  by (simp add: words_35_def less_char_def)

lemma row_36: "row_ok ''morning'' ''negative'' words_36 \<and> length words_36 = 32"
  by (simp add: words_36_def less_char_def)

lemma row_37: "row_ok ''negative'' ''obey'' words_37 \<and> length words_37 = 32"
  by (simp add: words_37_def less_char_def)

lemma row_38: "row_ok ''obey'' ''orbit'' words_38 \<and> length words_38 = 32"
  by (simp add: words_38_def less_char_def)

lemma row_39: "row_ok ''orbit'' ''paper'' words_39 \<and> length words_39 = 32"
  by (simp add: words_39_def less_char_def)

lemma row_40: "row_ok ''paper'' ''physical'' words_40 \<and> length words_40 = 32"
  by (simp add: words_40_def less_char_def)

lemma row_41: "row_ok ''physical'' ''pony'' words_41 \<and> length words_41 = 32"
  by (simp add: words_41_def less_char_def)

lemma row_42: "row_ok ''pony'' ''program'' words_42 \<and> length words_42 = 32"
  by (simp add: words_42_def less_char_def)

lemma row_43: "row_ok ''program'' ''quiz'' words_43 \<and> length words_43 = 32"
  by (simp add: words_43_def less_char_def)

lemma row_44: "row_ok ''quiz'' ''recycle'' words_44 \<and> length words_44 = 32"
  by (simp add: words_44_def less_char_def)

lemma row_45: "row_ok ''recycle'' ''retire'' words_45 \<and> length words_45 = 32"
  by (simp add: words_45_def less_char_def)

lemma row_46: "row_ok ''retire'' ''room'' words_46 \<and> length words_46 = 32"
  by (simp add: words_46_def less_char_def)

lemma row_47: "row_ok ''room'' ''say'' words_47 \<and> length words_47 = 32"
  by (simp add: words_47_def less_char_def)

lemma row_48: "row_ok ''say'' ''sentence'' words_48 \<and> length words_48 = 32"
  by (simp add: words_48_def less_char_def)

lemma row_49: "row_ok ''sentence'' ''side'' words_49 \<and> length words_49 = 32"
  by (simp add: words_49_def less_char_def)

lemma row_50: "row_ok ''side'' ''slogan'' words_50 \<and> length words_50 = 32"
  by (simp add: words_50_def less_char_def)

lemma row_51: "row_ok ''slogan'' ''soup'' words_51 \<and> length words_51 = 32"
  by (simp add: words_51_def less_char_def)

lemma row_52: "row_ok ''soup'' ''stadium'' words_52 \<and> length words_52 = 32"
  by (simp add: words_52_def less_char_def)

lemma row_53: "row_ok ''stadium'' ''subject'' words_53 \<and> length words_53 = 32"
  by (simp add: words_53_def less_char_def)

lemma row_54: "row_ok ''subject'' ''swim'' words_54 \<and> length words_54 = 32"
  by (simp add: words_54_def less_char_def)

lemma row_55: "row_ok ''swim'' ''that'' words_55 \<and> length words_55 = 32"
  by (simp add: words_55_def less_char_def)

lemma row_56: "row_ok ''that'' ''token'' words_56 \<and> length words_56 = 32"
  by (simp add: words_56_def less_char_def)

lemma row_57: "row_ok ''token'' ''tree'' words_57 \<and> length words_57 = 32"
  by (simp add: words_57_def less_char_def)

lemma row_58: "row_ok ''tree'' ''typical'' words_58 \<and> length words_58 = 32"
  by (simp add: words_58_def less_char_def)

lemma row_59: "row_ok ''typical'' ''useful'' words_59 \<and> length words_59 = 32"
  by (simp add: words_59_def less_char_def)

lemma row_60: "row_ok ''useful'' ''view'' words_60 \<and> length words_60 = 32"
  by (simp add: words_60_def less_char_def)

lemma row_61: "row_ok ''view'' ''wave'' words_61 \<and> length words_61 = 32"
  by (simp add: words_61_def less_char_def)

lemma row_62: "row_ok ''wave'' ''winner'' words_62 \<and> length words_62 = 32"
  by (simp add: words_62_def less_char_def)

lemma row_63: "row_ok ''winner'' ''zoo'' words_63 \<and> length words_63 = 32"
  by (simp add: words_63_def less_char_def)

subsection \<open>The whole list\<close>

lemmas row_facts =
  row_0 row_1 row_2 row_3 row_4 row_5 row_6 row_7 row_8 row_9 row_10 row_11 row_12 row_13 row_14
  row_15 row_16 row_17 row_18 row_19 row_20 row_21 row_22 row_23 row_24 row_25 row_26 row_27 row_28
  row_29 row_30 row_31 row_32 row_33 row_34 row_35 row_36 row_37 row_38 row_39 row_40 row_41 row_42
  row_43 row_44 row_45 row_46 row_47 row_48 row_49 row_50 row_51 row_52 row_53 row_54 row_55 row_56
  row_57 row_58 row_59 row_60 row_61 row_62 row_63

lemma row_ok_concat: "row_ok a b ws \<Longrightarrow> row_ok b c (concat wss) \<Longrightarrow> row_ok a c (concat (ws # wss))"
proof (induction ws arbitrary: a)
  case (Cons w ws)
  then show ?case by simp
qed simp

lemma words_row: "row_ok [] ''zoo'' WORDS"
  unfolding WORDS_def
  by (rule row_ok_concat, rule row_facts [THEN conjunct1])+ simp

lemma length_WORDS: "length WORDS = 2048"
  by (simp add: WORDS_def row_facts [THEN conjunct2])

lemma row_ok_sorted: "row_ok a b ws \<Longrightarrow> sorted_wrt (<) ws \<and> (\<forall>w \<in> set ws. a < w \<and> list_all letter_code w)"
  by (induction ws arbitrary: a) (auto intro: less_trans)

lemma distinct_WORDS: "distinct WORDS"
  using row_ok_sorted [OF words_row] by (simp add: strict_sorted_iff)

lemma word_letters: "w \<in> set WORDS \<Longrightarrow> w \<noteq> [] \<and> list_all letter_code w"
  using row_ok_sorted [OF words_row] by auto

end
