(* ===== verification/HdKey.thy ===== *)
theory HdKey
  imports Mnemonic
begin

section \<open>Keys and their derivation (key.cpp, hdkey.hpp, hdkey.cpp)\<close>

text \<open>
  A \<^verbatim>\<open>Secp256k1Key\<close> is its 32 secret bytes; the constructors refuse an invalid secret. The curve operations are
  \<open>k_secret_ok\<close> and \<open>k_tweak_add\<close> of \<open>kdf\<close> and \<open>c_public_key\<close> of \<open>crypto\<close>, in the libsecp256k1 form of the file,
  HMAC is \<open>k_hmac_sha512\<close>. Each of them may fail, as in libsecp256k1 and OpenSSL: a tweak above the order of the
  curve, a sum that is zero. No lemma assumes that a derivation succeeds.
\<close>

unbundle bit_operations_syntax

subsection \<open>Keys\<close>

definition valid_secret_key :: "kdf \<Rightarrow> bytes \<Rightarrow> bool" where
  "valid_secret_key K secret \<longleftrightarrow> length secret = 32 \<and> k_secret_ok K secret"

definition from_secret_bytes :: "kdf \<Rightarrow> bytes \<Rightarrow> bytes res" where
  "from_secret_bytes K secret =
     (if \<not> valid_secret_key K secret then Inl (InvalidArgument ''Invalid secp256k1 secret key'') else Inr secret)"

text \<open>\<open>draws\<close> are the results of the coming \<^verbatim>\<open>RAND_bytes\<close> calls; \<open>None\<close>: the loop has used them all and goes on.\<close>

fun generate_key :: "kdf \<Rightarrow> bytes option list \<Rightarrow> bytes res option" where
  "generate_key K [] = None"
| "generate_key K (None # draws) = Some (Inl (RuntimeError ''Secure random generation failed''))"
| "generate_key K (Some secret # draws) =
     (if valid_secret_key K secret then Some (from_secret_bytes K secret) else generate_key K draws)"

definition from_secret_hex :: "kdf \<Rightarrow> string \<Rightarrow> bytes res" where
  "from_secret_hex K text =
     bindE (hex_to_bytes text) (\<lambda>bytes.
       if length bytes \<noteq> 32 then Inl (InvalidArgument ''Secret key must be 32 bytes'') else from_secret_bytes K bytes)"

definition secret_hex :: "bytes \<Rightarrow> string" where
  "secret_hex secret = bytes_to_hex secret"

definition compressed_public_key_hex :: "crypto \<Rightarrow> bytes \<Rightarrow> string" where
  "compressed_public_key_hex C secret = bytes_to_hex (c_public_key C secret)"

definition add_secret_tweak :: "kdf \<Rightarrow> bytes \<Rightarrow> bytes \<Rightarrow> bytes res" where
  "add_secret_tweak K secret tweak =
     (if length secret \<noteq> 32 \<or> length tweak \<noteq> 32 \<or> \<not> valid_secret_key K secret
      then Inl (InvalidArgument ''Invalid secret or tweak length'')
      else case k_tweak_add K secret tweak of
        None \<Rightarrow> Inl (RuntimeError ''BIP32 child tweak produced an invalid key'')
      | Some result \<Rightarrow> Inr result)"

subsection \<open>Derivation\<close>

record hd_private_key =
  hk_secret :: bytes
  hk_chain_code :: bytes
  hk_depth :: u8
  hk_child_number :: u32

definition HARDENED :: u32 where "HARDENED = 0x80000000"

definition hmac_sha512 :: "kdf \<Rightarrow> bytes \<Rightarrow> bytes \<Rightarrow> bytes res" where
  "hmac_sha512 K key data =
     (case k_hmac_sha512 K key data of
        None \<Rightarrow> Inl (RuntimeError ''HMAC-SHA512 failed'')
      | Some digest \<Rightarrow> if length digest \<noteq> 64 then Inl (RuntimeError ''HMAC-SHA512 failed'') else Inr digest)"

definition append_u32_be :: "bytes \<Rightarrow> u32 \<Rightarrow> bytes" where
  "append_u32_be out v =
     out @ [ucast (drop_bit 24 v AND 0xff), ucast (drop_bit 16 v AND 0xff), ucast (drop_bit 8 v AND 0xff), ucast (v AND 0xff)]"

definition derive :: "crypto \<Rightarrow> kdf \<Rightarrow> u32 \<Rightarrow> hd_private_key \<Rightarrow> hd_private_key res" where
  "derive C K child k =
     bindE (if child AND HARDENED \<noteq> 0 then Inr (0 # hk_secret k)
            else bindE (from_secret_bytes K (hk_secret k)) (\<lambda>secret. Inr (c_public_key C secret))) (\<lambda>data.
     bindE (hmac_sha512 K (hk_chain_code k) (append_u32_be data child)) (\<lambda>digest.
     bindE (add_secret_tweak K (hk_secret k) (take 32 digest)) (\<lambda>child_secret.
       Inr \<lparr> hk_secret = child_secret, hk_chain_code = take 32 (drop 32 digest), hk_depth = hk_depth k + 1,
         hk_child_number = child \<rparr>)))"

definition bip32_master :: "kdf \<Rightarrow> bytes \<Rightarrow> hd_private_key res" where
  "bip32_master K seed =
     bindE (hmac_sha512 K (string_bytes ''Bitcoin seed'') seed) (\<lambda>digest.
       if \<not> valid_secret_key K (take 32 digest) then Inl (RuntimeError ''BIP32 master key is invalid'')
       else Inr \<lparr> hk_secret = take 32 digest, hk_chain_code = take 32 (drop 32 digest), hk_depth = 0, hk_child_number = 0 \<rparr>)"

definition derive_testnet_wallet_key :: "crypto \<Rightarrow> kdf \<Rightarrow> hd_private_key \<Rightarrow> u32 \<Rightarrow> u32 \<Rightarrow> hd_private_key res" where
  "derive_testnet_wallet_key C K master branch index =
     bindE (derive C K (44 OR HARDENED) master) (\<lambda>k.
     bindE (derive C K (1 OR HARDENED) k) (\<lambda>k.
     bindE (derive C K (0 OR HARDENED) k) (\<lambda>k.
     bindE (derive C K branch k) (\<lambda>k.
       derive C K index k))))"

definition master_fingerprint :: "crypto \<Rightarrow> kdf \<Rightarrow> hd_private_key \<Rightarrow> string res" where
  "master_fingerprint C K master =
     bindE (from_secret_bytes K (hk_secret master)) (\<lambda>secret.
     bindE (sha256 C (c_public_key C secret)) (\<lambda>digest. Inr (bytes_to_hex (take 4 digest))))"

lemma secret_hex_roundtrip: "valid_secret_key K s \<Longrightarrow> from_secret_hex K (secret_hex s) = Inr s"
  by (auto simp: from_secret_hex_def secret_hex_def from_secret_bytes_def valid_secret_key_def)

end
