(* ===== verification/Wallet.thy ===== *)
theory Wallet
  imports HdKey TextFile Utxo AddressLaws "HOL-Library.Product_Lexorder"
begin

section \<open>The wallet (wallet_backend.hpp, wallet.hpp, hd_wallet_backend.cpp, wallet_manager.cpp)\<close>

text \<open>
  \<open>wallet\<close> is the state of \<^verbatim>\<open>HdWalletBackend\<close> with its two files on the disk of \<open>Disk\<close>. Its member functions are
  state transformers that may throw halfway; the cache of owned scripts is mutable state also of the constant
  ones. Following an empty \<^verbatim>\<open>std::optional\<close> is undefined behaviour in C++: \<open>missing_key\<close> stands for it.
  Setting the permissions of the file is one more system call that may fail. A path is the name within the data
  directory.
\<close>

subsection \<open>State\<close>

datatype wallet_kind = LegacySingleKey | HdBip32

record wallet_balance =
  wb_spendable :: int
  wb_immature :: int
  wb_total :: int

record wallet =
  wl_kind :: wallet_kind
  wl_entropy :: "bytes option"
  wl_master :: "hd_private_key option"
  wl_legacy_key :: "bytes option"
  wl_next_receive :: u32
  wl_next_change :: u32
  wl_cache_valid :: bool
  wl_cache :: "(bytes \<times> bytes) list"
  wl_disk :: disk

definition LEGACY_MAGIC :: string where "LEGACY_MAGIC = ''BINARYCOIN_TESTNET_WALLET_V1''"

definition HD_MAGIC :: string where "HD_MAGIC = ''BINARYCOIN_TESTNET_HD_WALLET_V2''"

definition LOOKAHEAD :: u32 where "LOOKAHEAD = 20"

definition wallet_path :: string where "wallet_path = ''wallet-v2.dat''"

definition legacy_path :: string where "legacy_path = ''wallet-v1.dat''"

definition new_wallet :: "disk \<Rightarrow> wallet" where
  "new_wallet d =
     \<lparr> wl_kind = HdBip32, wl_entropy = None, wl_master = None, wl_legacy_key = None, wl_next_receive = 1,
       wl_next_change = 1, wl_cache_valid = False, wl_cache = [], wl_disk = d \<rparr>"

definition wallet_exists :: "wallet \<Rightarrow> bool" where
  "wallet_exists w \<longleftrightarrow> file_exists (wl_disk w) wallet_path \<or> file_exists (wl_disk w) legacy_path"

definition kind_name :: "wallet \<Rightarrow> string" where
  "kind_name w = (if wl_kind w = HdBip32 then ''hd-bip32'' else ''legacy-single-key'')"

definition wallet_file :: "wallet \<Rightarrow> string" where
  "wallet_file w = (if wl_kind w = HdBip32 then wallet_path else legacy_path)"

definition on_wallet_disk :: "(disk, 'a) sx \<Rightarrow> (wallet, 'a) sx" where
  "on_wallet_disk m w = (case m (wl_disk w) of (r, d) \<Rightarrow> (r, w \<lparr> wl_disk := d \<rparr>))"

subsection \<open>Creating and saving\<close>

definition clear_cache :: "(wallet, unit) sx" where
  "clear_cache = modifyS (\<lambda>w. w \<lparr> wl_cache_valid := False, wl_cache := [] \<rparr>)"

definition set_hd_entropy :: "crypto \<Rightarrow> kdf \<Rightarrow> bytes \<Rightarrow> (wallet, unit) sx" where
  "set_hd_entropy C K entropy =
     bindS (modifyS (\<lambda>w. w \<lparr> wl_entropy := Some entropy \<rparr>)) (\<lambda>_.
     bindS (liftS (entropy_to_mnemonic C entropy)) (\<lambda>phrase.
     bindS (liftS (mnemonic_to_seed K phrase [])) (\<lambda>seed.
     bindS (liftS (bip32_master K seed)) (\<lambda>master.
     bindS (modifyS (\<lambda>w. w \<lparr> wl_master := Some master, wl_kind := HdBip32, wl_next_receive := 1, wl_next_change := 1 \<rparr>)) (\<lambda>_.
       clear_cache)))))"

definition wallet_lines :: "bytes \<Rightarrow> wallet \<Rightarrow> string list" where
  "wallet_lines entropy w =
     [HD_MAGIC, ''entropy='' @ bytes_to_hex entropy, ''next_receive='' @ show_nat (unat (wl_next_receive w)),
      ''next_change='' @ show_nat (unat (wl_next_change w))] @
     (case wl_legacy_key w of None \<Rightarrow> [] | Some secret \<Rightarrow> [''legacy_secret='' @ secret_hex secret])"

definition save_hd :: "(wallet, unit) sx" where
  "save_hd =
     bindS (getS (\<lambda>w. w)) (\<lambda>w.
     case wl_entropy w of
       None \<Rightarrow> throwS (RuntimeError ''HD wallet is not initialized'')
     | Some entropy \<Rightarrow>
         if wl_master w = None then throwS (RuntimeError ''HD wallet is not initialized'')
         else bindS (on_wallet_disk (save_text wallet_path ''Unable to create HD wallet file''
                [''Unable to write HD wallet file''] (map Inr (wallet_lines entropy w)))) (\<lambda>_.
              on_wallet_disk (io_call ''Unable to restrict wallet permissions'')))"

definition create_wallet :: "crypto \<Rightarrow> kdf \<Rightarrow> string \<Rightarrow> bytes option \<Rightarrow> (wallet, string) sx" where
  "create_wallet C K directory random =
     bindS (getS wallet_exists) (\<lambda>exists.
     if exists then throwS (RuntimeError (''Wallet already exists in: '' @ directory))
     else bindS (liftS (generate_entropy256 random)) (\<lambda>entropy.
       bindS (set_hd_entropy C K entropy) (\<lambda>_.
       bindS save_hd (\<lambda>_.
       liftS (entropy_to_mnemonic C entropy)))))"

definition import_mnemonic :: "crypto \<Rightarrow> kdf \<Rightarrow> string \<Rightarrow> string \<Rightarrow> (wallet, unit) sx" where
  "import_mnemonic C K directory phrase =
     bindS (getS wallet_exists) (\<lambda>exists.
     if exists then throwS (RuntimeError (''Wallet already exists in: '' @ directory))
     else bindS (liftS (mnemonic_to_entropy C phrase)) (\<lambda>entropy.
       bindS (set_hd_entropy C K entropy) (\<lambda>_. save_hd)))"

subsection \<open>Loading\<close>

definition read_field :: "string \<Rightarrow> (string \<times> string) list \<Rightarrow> (string \<times> string) list" where
  "read_field line entries =
     (if CHR ''='' \<in> set line
      then map_put (takeWhile (\<lambda>c. c \<noteq> CHR ''='') line) (drop 1 (dropWhile (\<lambda>c. c \<noteq> CHR ''='') line)) entries
      else entries)"

definition read_fields :: "string list \<Rightarrow> (string \<times> string) list" where
  "read_fields lines = foldl (\<lambda>entries line. read_field line entries) [] lines"

definition parse_u32_field :: "(string \<times> string) list \<Rightarrow> string \<Rightarrow> u32 res" where
  "parse_u32_field entries name =
     (case map_of entries name of
        None \<Rightarrow> Inl (RuntimeError (''Wallet is missing field: '' @ name))
      | Some text \<Rightarrow>
          bindE (stoul ''stoul'' text) (\<lambda>(v, used).
            if used \<noteq> length text \<or> v > 1000000 then Inl (RuntimeError ''Invalid wallet index'')
            else Inr (of_nat v)))"

definition wallet_input :: "string \<Rightarrow> string \<Rightarrow> (wallet, string list) sx" where
  "wallet_input path message =
     bindS (on_wallet_disk (stream_call message)) (\<lambda>_.
       getS (\<lambda>w. getlines (bytes_string (file_content (wl_disk w) path))))"

definition load_hd_file :: "crypto \<Rightarrow> kdf \<Rightarrow> (wallet, unit) sx" where
  "load_hd_file C K =
     bindS (wallet_input wallet_path ''Invalid or unsupported HD wallet file'') (\<lambda>lines.
     if lines = [] \<or> hd lines \<noteq> HD_MAGIC then throwS (RuntimeError ''Invalid or unsupported HD wallet file'')
     else
       let entries = read_fields (tl lines) in
       case map_of entries ''entropy'' of
         None \<Rightarrow> throwS (RuntimeError ''HD wallet is missing entropy'')
       | Some text \<Rightarrow>
           bindS (liftS (hex_to_bytes text)) (\<lambda>entropy.
           if length entropy \<noteq> 32 then throwS (RuntimeError ''HD wallet entropy has invalid length'')
           else
             bindS (set_hd_entropy C K entropy) (\<lambda>_.
             bindS (liftS (parse_u32_field entries ''next_receive'')) (\<lambda>receive.
             bindS (modifyS (\<lambda>w. w \<lparr> wl_next_receive := receive \<rparr>)) (\<lambda>_.
             bindS (liftS (parse_u32_field entries ''next_change'')) (\<lambda>change.
             bindS (modifyS (\<lambda>w. w \<lparr> wl_next_change := change \<rparr>)) (\<lambda>_.
             bindS clear_cache (\<lambda>_.
             case map_of entries ''legacy_secret'' of
               None \<Rightarrow> returnS ()
             | Some secret_text \<Rightarrow>
                 bindS (liftS (from_secret_hex K secret_text)) (\<lambda>secret.
                   modifyS (\<lambda>w. w \<lparr> wl_legacy_key := Some secret \<rparr>))))))))))"

definition load_legacy_file :: "kdf \<Rightarrow> (wallet, unit) sx" where
  "load_legacy_file K =
     bindS (getS (\<lambda>w. file_exists (wl_disk w) legacy_path)) (\<lambda>present.
     if \<not> present then throwS (RuntimeError ''Wallet does not exist; run wallet-create first'')
     else
       bindS (wallet_input legacy_path ''Wallet does not exist; run wallet-create first'') (\<lambda>lines.
       if length lines < 2 \<or> lines ! 0 \<noteq> LEGACY_MAGIC \<or> \<not> starts_with (lines ! 1) ''secret=''
       then throwS (RuntimeError ''Invalid or unsupported legacy wallet file'')
       else
         bindS (liftS (from_secret_hex K (drop 7 (lines ! 1)))) (\<lambda>secret.
         bindS (modifyS (\<lambda>w. w \<lparr> wl_legacy_key := Some secret, wl_kind := LegacySingleKey \<rparr>)) (\<lambda>_. clear_cache))))"

definition load_wallet :: "crypto \<Rightarrow> kdf \<Rightarrow> (wallet, unit) sx" where
  "load_wallet C K =
     bindS (modifyS (\<lambda>w. w \<lparr> wl_entropy := None, wl_master := None, wl_legacy_key := None \<rparr>)) (\<lambda>_.
     bindS (getS (\<lambda>w. file_exists (wl_disk w) wallet_path)) (\<lambda>present.
       if present then load_hd_file C K else load_legacy_file K))"

definition upgrade_legacy :: "crypto \<Rightarrow> kdf \<Rightarrow> bytes option \<Rightarrow> (wallet, string) sx" where
  "upgrade_legacy C K random =
     bindS (getS (\<lambda>w. wl_disk w)) (\<lambda>d.
     if file_exists d wallet_path then throwS (RuntimeError ''HD wallet already exists'')
     else if \<not> file_exists d legacy_path then throwS (RuntimeError ''No legacy wallet exists to upgrade'')
     else
       bindS (load_wallet C K) (\<lambda>_.
       bindS (getS (\<lambda>w. (wl_kind w, wl_legacy_key w))) (\<lambda>(kind, preserved).
       if kind \<noteq> LegacySingleKey \<or> preserved = None then throwS (RuntimeError ''Legacy wallet could not be loaded'')
       else
         bindS (liftS (generate_entropy256 random)) (\<lambda>entropy.
         bindS (set_hd_entropy C K entropy) (\<lambda>_.
         bindS (modifyS (\<lambda>w. w \<lparr> wl_legacy_key := preserved \<rparr>)) (\<lambda>_.
         bindS save_hd (\<lambda>_.
         liftS (entropy_to_mnemonic C entropy))))))))"

subsection \<open>Keys and addresses\<close>

definition missing_key :: exn where "missing_key = LogicError ''no legacy key''"

definition hd_key :: "crypto \<Rightarrow> kdf \<Rightarrow> wallet \<Rightarrow> u32 \<Rightarrow> u32 \<Rightarrow> bytes res" where
  "hd_key C K w branch index =
     (case wl_master w of
        None \<Rightarrow> Inl (RuntimeError ''HD wallet is not loaded'')
      | Some master \<Rightarrow>
          bindE (derive_testnet_wallet_key C K master branch index) (\<lambda>k. from_secret_bytes K (hk_secret k)))"

definition first_key :: "crypto \<Rightarrow> kdf \<Rightarrow> u32 \<Rightarrow> wallet \<Rightarrow> bytes res" where
  "first_key C K branch w =
     (if wl_kind w = HdBip32 then hd_key C K w branch 0
      else case wl_legacy_key w of None \<Rightarrow> Inl missing_key | Some secret \<Rightarrow> Inr secret)"

definition wallet_public_key_hex :: "crypto \<Rightarrow> kdf \<Rightarrow> wallet \<Rightarrow> string res" where
  "wallet_public_key_hex C K w = bindE (first_key C K 0 w) (\<lambda>secret. Inr (compressed_public_key_hex C secret))"

definition wallet_address :: "crypto \<Rightarrow> kdf \<Rightarrow> wallet \<Rightarrow> string res" where
  "wallet_address C K w = bindE (first_key C K 0 w) (\<lambda>secret. encode_testnet_address C (c_public_key C secret))"

definition locking_script :: "crypto \<Rightarrow> kdf \<Rightarrow> wallet \<Rightarrow> bytes res" where
  "locking_script C K w = bindE (first_key C K 0 w) (\<lambda>secret. make_p2pk_script C (c_public_key C secret))"

definition master_fingerprint_hex :: "crypto \<Rightarrow> kdf \<Rightarrow> wallet \<Rightarrow> string res" where
  "master_fingerprint_hex C K w =
     (case wl_master w of Some master \<Rightarrow> master_fingerprint C K master | None \<Rightarrow> Inr ''none'')"

definition get_new_address :: "crypto \<Rightarrow> kdf \<Rightarrow> (wallet, string) sx" where
  "get_new_address C K =
     bindS (getS (\<lambda>w. w)) (\<lambda>w.
     if wl_kind w \<noteq> HdBip32 then throwS (RuntimeError ''Legacy wallet has one key; run wallet-upgrade first'')
     else
       bindS (liftS (hd_key C K w 0 (wl_next_receive w))) (\<lambda>secret.
       bindS (liftS (encode_testnet_address C (c_public_key C secret))) (\<lambda>result.
       bindS (modifyS (\<lambda>w. w \<lparr> wl_next_receive := wl_next_receive w + 1 \<rparr>)) (\<lambda>_.
       bindS clear_cache (\<lambda>_.
       bindS save_hd (\<lambda>_. returnS result))))))"

subsection \<open>Owned scripts\<close>

definition cache_key :: "crypto \<Rightarrow> bytes \<Rightarrow> (wallet, unit) sx" where
  "cache_key C secret =
     bindS (liftS (make_p2pk_script C (c_public_key C secret))) (\<lambda>script.
       modifyS (\<lambda>w. w \<lparr> wl_cache := wl_cache w @ [(script, secret)] \<rparr>))"

definition cache_index :: "crypto \<Rightarrow> kdf \<Rightarrow> u32 \<Rightarrow> nat \<Rightarrow> (wallet, unit) sx" where
  "cache_index C K branch index =
     bindS (getS (\<lambda>w. w)) (\<lambda>w. bindS (liftS (hd_key C K w branch (of_nat index))) (cache_key C))"

definition rebuild_owned_cache :: "crypto \<Rightarrow> kdf \<Rightarrow> (wallet, unit) sx" where
  "rebuild_owned_cache C K =
     bindS (getS (\<lambda>w. w)) (\<lambda>w.
     if wl_cache_valid w then returnS ()
     else
       bindS (modifyS (\<lambda>w. w \<lparr> wl_cache := [] \<rparr>)) (\<lambda>_.
       bindS (if wl_kind w = HdBip32 then
           bindS (foldS (cache_index C K 0) [0..<unat (wl_next_receive w + LOOKAHEAD)]) (\<lambda>_.
             foldS (cache_index C K 1) [0..<unat (wl_next_change w + LOOKAHEAD)])
         else returnS ()) (\<lambda>_.
       bindS (case wl_legacy_key w of None \<Rightarrow> returnS () | Some secret \<Rightarrow> cache_key C secret) (\<lambda>_.
         modifyS (\<lambda>w. w \<lparr> wl_cache_valid := True \<rparr>)))))"

definition key_for_script :: "crypto \<Rightarrow> kdf \<Rightarrow> bytes \<Rightarrow> (wallet, bytes option) sx" where
  "key_for_script C K script =
     bindS (rebuild_owned_cache C K) (\<lambda>_. getS (\<lambda>w. map_of (wl_cache w) script))"

definition owns_script :: "crypto \<Rightarrow> kdf \<Rightarrow> bytes \<Rightarrow> (wallet, bool) sx" where
  "owns_script C K script = bindS (key_for_script C K script) (\<lambda>key. returnS (key \<noteq> None))"

definition add_to_balance :: "u64 \<Rightarrow> coin \<Rightarrow> wallet_balance \<Rightarrow> wallet_balance res" where
  "add_to_balance spend_height coin b =
     (let v = to_value (coin_output coin) in
      if wb_total b > MAX_MONEY - v then Inl (RuntimeError ''Wallet balance overflow'')
      else
        let b = b \<lparr> wb_total := wb_total b + v \<rparr> in
        Inr (if coin_coinbase coin \<and> spend_height < coin_height coin + ucast COINBASE_MATURITY
             then b \<lparr> wb_immature := wb_immature b + v \<rparr> else b \<lparr> wb_spendable := wb_spendable b + v \<rparr>))"

fun balance_loop :: "crypto \<Rightarrow> kdf \<Rightarrow> u64 \<Rightarrow> utxo_set \<Rightarrow> wallet_balance \<Rightarrow> (wallet, wallet_balance) sx" where
  "balance_loop C K spend_height [] b = returnS b"
| "balance_loop C K spend_height ((_, coin) # utxos) b =
     bindS (owns_script C K (to_script_pubkey (coin_output coin))) (\<lambda>owned.
     if \<not> owned then balance_loop C K spend_height utxos b
     else bindS (liftS (add_to_balance spend_height coin b)) (balance_loop C K spend_height utxos))"

definition wallet_balance_of :: "crypto \<Rightarrow> kdf \<Rightarrow> utxo_set \<Rightarrow> u64 \<Rightarrow> (wallet, wallet_balance) sx" where
  "wallet_balance_of C K utxos spend_height =
     balance_loop C K spend_height utxos \<lparr> wb_spendable = 0, wb_immature = 0, wb_total = 0 \<rparr>"

subsection \<open>Payments\<close>

record available =
  av_outpoint :: outpoint
  av_coin :: coin
  av_key :: bytes

abbreviation av_value :: "available \<Rightarrow> int" where
  "av_value a \<equiv> to_value (coin_output (av_coin a))"

fun available_coins :: "crypto \<Rightarrow> kdf \<Rightarrow> u64 \<Rightarrow> utxo_set \<Rightarrow> (wallet, available list) sx" where
  "available_coins C K spend_height [] = returnS []"
| "available_coins C K spend_height ((outpoint, coin) # utxos) =
     bindS (key_for_script C K (to_script_pubkey (coin_output coin))) (\<lambda>key.
     bindS (available_coins C K spend_height utxos) (\<lambda>rest.
     case key of
       None \<Rightarrow> returnS rest
     | Some k \<Rightarrow>
         if coin_coinbase coin \<and> spend_height < coin_height coin + ucast COINBASE_MATURITY then returnS rest
         else returnS (\<lparr> av_outpoint = outpoint, av_coin = coin, av_key = k \<rparr> # rest)))"

text \<open>\<^verbatim>\<open>std::sort\<close> by value and outpoint; distinct outpoints make the order total, so its stability does not matter.\<close>

definition by_value :: "available list \<Rightarrow> available list" where
  "by_value as = sort_key (\<lambda>a. (av_value a, av_outpoint a)) as"

definition estimated_signed_size :: "transaction \<Rightarrow> nat res" where
  "estimated_signed_size t =
     bindE (serialize_transaction
         (t \<lparr> tx_inputs := map (\<lambda>i. i \<lparr> ti_script_sig := 74 # replicate 74 0 \<rparr>) (tx_inputs t) \<rparr>)) (\<lambda>b. Inr (length b))"

text \<open>The transaction under construction: unsigned inputs spending \<open>items\<close>, the payment and the change output.\<close>

definition payment_inputs :: "available list \<Rightarrow> tx_input list" where
  "payment_inputs items =
     map (\<lambda>a. \<lparr> ti_previous_output = av_outpoint a, ti_script_sig = [], ti_sequence = 0xffffffff \<rparr>) items"

definition payment :: "available list \<Rightarrow> bytes \<Rightarrow> int \<Rightarrow> bytes \<Rightarrow> int \<Rightarrow> transaction" where
  "payment items destination_script amount change_script change =
     \<lparr> tx_version = 1, tx_inputs = payment_inputs items,
       tx_outputs = [\<lparr> to_value = amount, to_script_pubkey = destination_script \<rparr>,
         \<lparr> to_value = change, to_script_pubkey = change_script \<rparr>],
       tx_lock_time = 0 \<rparr>"

fun select_coins :: "bytes \<Rightarrow> int \<Rightarrow> bytes \<Rightarrow> int \<Rightarrow> available list \<Rightarrow> available list \<Rightarrow> int \<Rightarrow> (available list \<times> int) res" where
  "select_coins destination_script amount change_script fee_rate [] selected input_total = Inr (selected, input_total)"
| "select_coins destination_script amount change_script fee_rate (item # items) selected input_total =
     (let selected = selected @ [item] in
      if input_total > MAX_MONEY - av_value item then Inl (RuntimeError ''Selected input overflow'')
      else
        let input_total = input_total + av_value item in
        bindE (estimated_signed_size (payment selected destination_script amount change_script 0)) (\<lambda>size.
        bindE (fee fee_rate (of_nat size)) (\<lambda>estimated_fee.
        if input_total \<ge> amount \<and> input_total - amount \<ge> estimated_fee then Inr (selected, input_total)
        else select_coins destination_script amount change_script fee_rate items selected input_total)))"

definition sign_inputs :: "crypto \<Rightarrow> available list \<Rightarrow> transaction \<Rightarrow> transaction res" where
  "sign_inputs C items t =
     foldE (\<lambda>index t. sign_p2pk_input C t index (to_script_pubkey (coin_output (av_coin (items ! index)))) (av_key (items ! index)))
       [0..<length (tx_inputs t)] t"

definition finish_payment ::
  "crypto \<Rightarrow> bytes \<Rightarrow> int \<Rightarrow> bytes \<Rightarrow> int \<Rightarrow> available list \<Rightarrow> int \<Rightarrow> transaction res" where
  "finish_payment C destination_script amount change_script fee_rate selected input_total =
     (if input_total < amount then Inl (RuntimeError ''Insufficient mature balance'')
      else
        bindE (estimated_signed_size (payment selected destination_script amount change_script 0)) (\<lambda>size.
        bindE (fee fee_rate (of_nat size)) (\<lambda>reserved_fee.
        if input_total < amount + reserved_fee then Inl (RuntimeError ''Insufficient balance after fee'')
        else
          let change = input_total - amount - reserved_fee;
              t = payment selected destination_script amount change_script change;
              t = (if change = 0 then t \<lparr> tx_outputs := butlast (tx_outputs t) \<rparr> else t) in
          bindE (sign_inputs C selected t) (\<lambda>t.
          bindE (virtual_size t) (\<lambda>size.
          bindE (fee fee_rate (of_nat size)) (\<lambda>required_fee.
          if reserved_fee < required_fee
          then Inl (RuntimeError ''Reserved transaction fee was unexpectedly too small'')
          else Inr t))))))"

definition create_payment ::
  "crypto \<Rightarrow> kdf \<Rightarrow> utxo_set \<Rightarrow> u64 \<Rightarrow> bytes \<Rightarrow> int \<Rightarrow> int \<Rightarrow> (wallet, transaction) sx" where
  "create_payment C K utxos spend_height destination_public_key amount fee_rate =
     (if amount \<le> 0 \<or> \<not> money_range amount
      then throwS (InvalidArgument ''Payment amount is outside money range'')
      else
        bindS (liftS (make_p2pk_script C destination_public_key)) (\<lambda>destination_script.
        bindS (getS (first_key C K 1)) (\<lambda>change_key.
        bindS (liftS (bindE change_key (\<lambda>secret. make_p2pk_script C (c_public_key C secret)))) (\<lambda>change_script.
        bindS (available_coins C K spend_height utxos) (\<lambda>available.
        liftS (bindE (select_coins destination_script amount change_script fee_rate (by_value available) [] 0)
          (\<lambda>(selected, input_total).
            finish_payment C destination_script amount change_script fee_rate selected input_total)))))))"

subsection \<open>The manager\<close>

definition is_hd_name :: "string \<Rightarrow> bool" where
  "is_hd_name name \<longleftrightarrow> name = ''hd'' \<or> name = ''hd-bip32''"

text \<open>The manager owns the disk through its back end; without one it is the disk alone.\<close>

type_synonym manager = "disk \<times> wallet option"

definition select_backend :: "string \<Rightarrow> (manager, unit) sx" where
  "select_backend name =
     (if \<not> is_hd_name name then throwS (InvalidArgument (''Unknown wallet backend: '' @ name))
      else modifyS (\<lambda>(d, _). (d, Some (new_wallet d))))"

definition on_backend :: "(wallet, 'a) sx \<Rightarrow> (manager, 'a) sx" where
  "on_backend m s =
     (case s of
        (d, None) \<Rightarrow> (Inl (RuntimeError ''Wallet backend is not loaded''), s)
      | (d, Some w) \<Rightarrow> (case m w of (r, w') \<Rightarrow> (r, wl_disk w', Some w')))"

definition manager_create :: "crypto \<Rightarrow> kdf \<Rightarrow> string \<Rightarrow> bytes option \<Rightarrow> string \<Rightarrow> (manager, string) sx" where
  "manager_create C K directory random name =
     bindS (select_backend name) (\<lambda>_. on_backend (create_wallet C K directory random))"

definition manager_import :: "crypto \<Rightarrow> kdf \<Rightarrow> string \<Rightarrow> string \<Rightarrow> string \<Rightarrow> (manager, unit) sx" where
  "manager_import C K directory phrase name =
     bindS (select_backend name) (\<lambda>_. on_backend (import_mnemonic C K directory phrase))"

definition manager_upgrade :: "crypto \<Rightarrow> kdf \<Rightarrow> bytes option \<Rightarrow> (manager, string) sx" where
  "manager_upgrade C K random = bindS (select_backend ''hd'') (\<lambda>_. on_backend (upgrade_legacy C K random))"

definition manager_load :: "crypto \<Rightarrow> kdf \<Rightarrow> (manager, unit) sx" where
  "manager_load C K = bindS (select_backend ''hd'') (\<lambda>_. on_backend (load_wallet C K))"

definition manager_exists :: "manager \<Rightarrow> bool" where
  "manager_exists s = wallet_exists (new_wallet (fst s))"

end
