(* ===== verification/Commands.thy ===== *)
theory Commands
  imports Rpc NetSession Wallet
begin

section \<open>The RPC commands (rpc_commands.hpp, rpc_commands.cpp)\<close>

text \<open>
  \<open>rpc_node\<close> is what the handler reads and changes: the files of the data directory, the stop flag, the logger's
  categories, and what the running node reports of its peers. A command opens its objects over the directory as
  it is, so they are values here as in \<open>NetNode\<close>; a wallet object is that of \<^verbatim>\<open>WalletManager\<close>. \<open>dispatch\<close> is the
  chain of comparisons, one definition per command or group of commands sharing its objects, and the checks on
  the parameters stand where the code has them, for some commands behind the loading. Text of floating point
  values and their division are the parameter \<open>arith\<close>; the clock is \<open>command_env\<close>. The data mutex is not modelled.
\<close>

subsection \<open>State and parameters\<close>

record 'd arith =
  ar_divide :: "'d \<Rightarrow> 'd \<Rightarrow> 'd"
  ar_fixed :: "nat \<Rightarrow> 'd \<Rightarrow> string"
  ar_literal :: "string \<Rightarrow> 'd"

record command_env =
  ce_uptime :: int
  ce_clock :: "nat \<Rightarrow> int"

record rpc_node =
  rn_directory :: string
  rn_disk :: disk
  rn_stop :: bool
  rn_categories :: "string set"
  rn_p2p_bind :: string
  rn_p2p_port :: u16
  rn_active_peers :: u64
  rn_active_inbound :: u64
  rn_peers :: "(u64 \<times> live_peer_info) list"

definition node_disk :: "(disk, 'a) sx \<Rightarrow> (rpc_node, 'a) sx" where
  "node_disk m s = (case m (rn_disk s) of (r, d) \<Rightarrow> (r, s \<lparr> rn_disk := d \<rparr>))"

text \<open>A call on a wallet manager, whose back end works on the files as they are.\<close>

definition on_manager :: "(manager, 'a) sx \<Rightarrow> wallet option \<Rightarrow> (disk, 'a \<times> wallet option) sx" where
  "on_manager m backend d =
     (case m (d, map_option (\<lambda>w. w \<lparr> wl_disk := d \<rparr>) backend) of
        (Inl e, (d', _)) \<Rightarrow> (Inl e, d')
      | (Inr x, (d', backend')) \<Rightarrow> (Inr (x, backend'), d'))"

subsection \<open>Parameters\<close>

definition require_params :: "'d json list \<Rightarrow> nat \<Rightarrow> nat \<Rightarrow> unit res" where
  "require_params params minimum maximum =
     (if length params < minimum \<or> length params > maximum then Inl (RpcError (- 1) ''Incorrect number of parameters'')
      else Inr ())"

definition string_param :: "'d json \<Rightarrow> string \<Rightarrow> string res" where
  "string_param v name =
     (case v of JString s \<Rightarrow> Inr s | _ \<Rightarrow> Inl (RpcError (- 3) (name @ '' must be a string'')))"

definition is_number :: "'d json \<Rightarrow> bool" where
  "is_number v \<longleftrightarrow> (case v of JInt _ \<Rightarrow> True | JDouble _ \<Rightarrow> True | _ \<Rightarrow> False)"

definition integer_param :: "'d doubles \<Rightarrow> 'd json \<Rightarrow> string \<Rightarrow> int res" where
  "integer_param D v name =
     (if \<not> is_number v then Inl (RpcError (- 3) (name @ '' must be a number'')) else as_integer D v)"

definition amount_param :: "'d doubles \<Rightarrow> 'd arith \<Rightarrow> 'd json \<Rightarrow> string res" where
  "amount_param D A v =
     (case v of
        JString s \<Rightarrow> Inr s
      | _ \<Rightarrow> if \<not> is_number v then Inl (RpcError (- 3) ''Amount must be a number or decimal string'')
             else bindE (as_number D v) (\<lambda>x. Inr (ar_fixed A 8 x)))"

definition amount_json :: "'d doubles \<Rightarrow> 'd arith \<Rightarrow> int \<Rightarrow> 'd json" where
  "amount_json D A amount = JDouble (ar_divide A (d_of_int D amount) (d_of_int D BITS_PER_BIN))"

definition real_json :: "'d arith \<Rightarrow> string \<Rightarrow> 'd json" where
  "real_json A literal = JDouble (ar_literal A literal)"

definition category_array :: "'d json \<Rightarrow> 'd json list res" where
  "category_array v =
     (case v of
        JNull \<Rightarrow> Inr []
      | JString _ \<Rightarrow> Inr [v]
      | JArray vs \<Rightarrow> Inr vs
      | _ \<Rightarrow> Inl (RpcError (- 3) ''Logging categories must be an array of strings''))"

definition help_text :: string where
  "help_text =
     ''== Blockchain ==
getbestblockhash
getblock '' @ [CHR 0x22] @ ''blockhash'' @ [CHR 0x22] @ '' ( verbosity )
getblockchaininfo
getblockcount
getblockhash height

== Control ==
help ( '' @ [CHR 0x22] @ ''command'' @ [CHR 0x22] @ '' )
logging ( [include,...] [exclude,...] )
stop
uptime

== Generating ==
generate nblocks
generatetoaddress nblocks '' @ [CHR 0x22] @ ''address'' @ [CHR 0x22] @ ''
getmininginfo

== Mempool ==
getmempoolinfo
getrawmempool
estimatesmartfee conf_target ( '' @ [CHR 0x22] @ ''economical'' @ [CHR 0x22] @ ''|'' @ [CHR 0x22] @ ''conservative'' @ [CHR 0x22] @ '' )

== Network ==
getconnectioncount
getnetworkinfo
getpeerinfo

== Wallet ==
getbalance
getnewaddress
getwalletinfo
listunspent
sendtoaddress '' @ [CHR 0x22] @ ''address'' @ [CHR 0x22] @ '' amount
validateaddress '' @ [CHR 0x22] @ ''address'' @ [CHR 0x22]"

subsection \<open>Control\<close>

definition LOG_CATEGORIES :: "string list" where
  "LOG_CATEGORIES = [''net'', ''rpc'', ''http'', ''addrman'', ''validation'', ''wallet'', ''mempool'']"

definition edit_categories ::
  "(string \<Rightarrow> string set \<Rightarrow> string set) \<Rightarrow> 'd json \<Rightarrow> string set \<Rightarrow> string set res" where
  "edit_categories f v categories =
     bindE (category_array v) (\<lambda>items.
       foldE (\<lambda>item categories. bindE (string_param item ''Logging category'') (\<lambda>c. Inr (f c categories))) items categories)"

definition logging_result :: "string set \<Rightarrow> 'd json" where
  "logging_result categories =
     JObject (foldl (\<lambda>m c. map_emplace c (JBool (''all'' \<in> categories \<or> ''1'' \<in> categories \<or> c \<in> categories)) m) [] LOG_CATEGORIES)"

definition logging_command :: "'d json list \<Rightarrow> (rpc_node, 'd json) sx" where
  "logging_command params =
     bindS (liftS (require_params params 0 2)) (\<lambda>_.
     bindS (getS rn_categories) (\<lambda>categories.
     bindS (liftS (if params \<noteq> [] then edit_categories insert (params ! 0) categories else Inr categories)) (\<lambda>categories.
     bindS (liftS (if 2 \<le> length params then edit_categories (\<lambda>c cs. cs - {c}) (params ! 1) categories else Inr categories)) (\<lambda>categories.
     bindS (modifyS (\<lambda>s. s \<lparr> rn_categories := categories \<rparr>)) (\<lambda>_.
       returnS (logging_result categories))))))"

definition stop_command :: "'d json list \<Rightarrow> (rpc_node, 'd json) sx" where
  "stop_command params =
     bindS (liftS (require_params params 0 0)) (\<lambda>_.
     bindS (modifyS (\<lambda>s. s \<lparr> rn_stop := True \<rparr>)) (\<lambda>_.
       returnS (JString ''BinaryCoin Core stopping'')))"

subsection \<open>Network\<close>

definition network_info :: "'d doubles \<Rightarrow> 'd arith \<Rightarrow> rpc_node \<Rightarrow> 'd json" where
  "network_info D A s =
     json_object [
       (''version'', JInt 10300),
       (''subversion'', JString ''/BinaryCoinTestnetAlpha:0.1.3/''),
       (''protocolversion'', json_of_u64 D (ucast P2P_PROTOCOL_VERSION)),
       (''localservices'', JString ''0000000000000001''),
       (''localrelay'', JBool True),
       (''timeoffset'', JInt 0),
       (''networkactive'', JBool True),
       (''connections'', json_of_u64 D (rn_active_peers s)),
       (''connections_in'', json_of_u64 D (rn_active_inbound s)),
       (''connections_out'', json_of_u64 D (rn_active_peers s - rn_active_inbound s)),
       (''relayfee'', real_json A ''0.00001000''),
       (''incrementalfee'', real_json A ''0.00001000''),
       (''localaddresses'', JArray [json_object [(''address'', JString (rn_p2p_bind s)),
          (''port'', json_of_u64 D (ucast (rn_p2p_port s))), (''score'', JInt 1)]]),
       (''warnings'', JString ''BinaryCoin Testnet Alpha software'')]"

definition peer_json :: "'d doubles \<Rightarrow> u64 \<times> live_peer_info \<Rightarrow> 'd json" where
  "peer_json D entry =
     (let peer = snd entry; host = pe_host (lp_endpoint peer); version = lp_version peer;
          height = json_of_u64 D (pv_best_height version) in
      json_object [
        (''id'', json_of_u64 D (fst entry)),
        (''addr'', JString (host @ '':'' @ show_nat (unat (pe_port (lp_endpoint peer))))),
        (''network'', JString (if CHR '':'' \<notin> set host then ''ipv4'' else ''ipv6'')),
        (''services'', JString (show_hex (unat (pv_services version)))),
        (''relaytxes'', JBool True),
        (''lastsend'', JInt 0),
        (''lastrecv'', JInt 0),
        (''bytessent'', JInt 0),
        (''bytesrecv'', JInt 0),
        (''conntime'', JInt (lp_connected_since peer)),
        (''version'', json_of_u64 D (ucast (pv_protocol_version version))),
        (''subver'', JString (pv_user_agent version)),
        (''inbound'', JBool (lp_inbound peer)),
        (''startingheight'', height),
        (''synced_headers'', height),
        (''synced_blocks'', height)])"

subsection \<open>Chain\<close>

fun block_by_hash :: "crypto \<Rightarrow> stored_block list \<Rightarrow> string \<Rightarrow> stored_block res" where
  "block_by_hash C [] hash = Inl (RpcError (- 5) ''Block not found'')"
| "block_by_hash C (b # blocks) hash =
     bindE (block_hash C b) (\<lambda>h. if h = hash then Inr b else block_by_hash C blocks hash)"

definition block_json :: "crypto \<Rightarrow> 'd doubles \<Rightarrow> stored_block \<Rightarrow> u64 \<Rightarrow> string \<Rightarrow> 'd json res" where
  "block_json C D stored confirmations chainwork =
     (let header = b_header (sb_block stored); transactions = b_transactions (sb_block stored) in
      bindE (mapE (txid C) transactions) (\<lambda>txids.
      bindE (hash_hex C header) (\<lambda>hash.
        let entries = foldl (\<lambda>m e. map_emplace (fst e) (snd e) m) [] [
          (''hash'', JString hash),
          (''confirmations'', json_of_u64 D confirmations),
          (''height'', json_of_u64 D (sb_height stored)),
          (''version'', JInt (sint (bh_version header))),
          (''merkleroot'', JString (bh_merkle_root header)),
          (''time'', json_of_u64 D (ucast (bh_time header))),
          (''nonce'', json_of_u64 D (ucast (bh_nonce header))),
          (''bits'', JString (show_hex (unat (bh_bits header)))),
          (''chainwork'', JString chainwork),
          (''nTx'', json_of_u64 D (of_nat (length transactions))),
          (''tx'', JArray (map JString txids))] in
        Inr (JObject (if 0 < sb_height stored
          then map_put ''previousblockhash'' (JString (bh_previous_hash header)) entries else entries)))))"

definition block_hash_command :: "crypto \<Rightarrow> 'd doubles \<Rightarrow> 'd json list \<Rightarrow> chain \<Rightarrow> 'd json res" where
  "block_hash_command C D params c =
     bindE (require_params params 1 1) (\<lambda>_.
     bindE (integer_param D (params ! 0) ''Height'') (\<lambda>height.
     if height < 0 then Inl (RpcError (- 8) ''Block height out of range'')
     else
       bindE (tip_height c) (\<lambda>tip.
       if word_of_int height > tip then Inl (RpcError (- 8) ''Block height out of range'')
       else bindE (block_hash C (cn_blocks c ! nat height)) (\<lambda>h. Inr (JString h)))))"

definition block_command :: "crypto \<Rightarrow> 'd doubles \<Rightarrow> 'd json list \<Rightarrow> chain \<Rightarrow> 'd json res" where
  "block_command C D params c =
     bindE (require_params params 1 2) (\<lambda>_.
     bindE (string_param (params ! 0) ''Block hash'') (\<lambda>hash.
     bindE (block_by_hash C (cn_blocks c) hash) (\<lambda>stored.
     bindE (tip_height c) (\<lambda>tip.
     bindE (chainwork_hex c) (\<lambda>chainwork.
       block_json C D stored (tip - sb_height stored + 1) chainwork)))))"

definition mining_info :: "'d doubles \<Rightarrow> 'd arith \<Rightarrow> 'd json list \<Rightarrow> chain \<Rightarrow> 'd json res" where
  "mining_info D A params c =
     bindE (require_params params 0 0) (\<lambda>_.
     bindE (tip_height c) (\<lambda>tip.
       Inr (json_object [
         (''blocks'', json_of_u64 D tip),
         (''currentblockweight'', JInt 0),
         (''currentblocktx'', JInt 0),
         (''difficulty'', real_json A ''1.0''),
         (''networkhashps'', real_json A ''0.0''),
         (''pooledtx'', JInt 0),
         (''chain'', JString ''test''),
         (''warnings'', JString ''BinaryCoin Testnet Alpha software'')])))"

definition blockchain_info :: "crypto \<Rightarrow> 'd doubles \<Rightarrow> 'd arith \<Rightarrow> 'd json list \<Rightarrow> chain \<Rightarrow> 'd json res" where
  "blockchain_info C D A params c =
     bindE (require_params params 0 0) (\<lambda>_.
     bindE (chain_tip c) (\<lambda>tip.
     bindE (block_hash C tip) (\<lambda>hash.
     bindE (chainwork_hex c) (\<lambda>chainwork.
       Inr (json_object [
         (''chain'', JString ''test''),
         (''blocks'', json_of_u64 D (sb_height tip)),
         (''headers'', json_of_u64 D (sb_height tip)),
         (''bestblockhash'', JString hash),
         (''difficulty'', real_json A ''1.0''),
         (''mediantime'', json_of_u64 D (ucast (bh_time (b_header (sb_block tip))))),
         (''verificationprogress'', real_json A ''1.0''),
         (''initialblockdownload'', JBool False),
         (''chainwork'', JString chainwork),
         (''size_on_disk'', json_of_u64 D (of_nat (cs_block_file_bytes (st_stats (cn_store c))))),
         (''pruned'', JBool False),
         (''warnings'', JString ''BinaryCoin Testnet Alpha software'')])))))"

definition CHAIN_COMMANDS :: "string list" where
  "CHAIN_COMMANDS = [''getblockchaininfo'', ''getblockcount'', ''getbestblockhash'', ''getblockhash'', ''getblock'', ''getmininginfo'']"

definition chain_query :: "crypto \<Rightarrow> 'd doubles \<Rightarrow> 'd arith \<Rightarrow> string \<Rightarrow> 'd json list \<Rightarrow> chain \<Rightarrow> 'd json res" where
  "chain_query C D A name params c =
     (if name = ''getblockcount'' then
        bindE (require_params params 0 0) (\<lambda>_. bindE (tip_height c) (\<lambda>h. Inr (json_of_u64 D h)))
      else if name = ''getbestblockhash'' then
        bindE (require_params params 0 0) (\<lambda>_. bindE (tip_hash C c) (\<lambda>h. Inr (JString h)))
      else if name = ''getblockhash'' then block_hash_command C D params c
      else if name = ''getblock'' then block_command C D params c
      else if name = ''getmininginfo'' then mining_info D A params c
      else blockchain_info C D A params c)"

definition chain_command ::
  "crypto \<Rightarrow> 'd doubles \<Rightarrow> 'd arith \<Rightarrow> string \<Rightarrow> 'd json list \<Rightarrow> string \<Rightarrow> (disk, 'd json) sx" where
  "chain_command C D A name params directory =
     bindS (open_chain C directory) (\<lambda>c. liftS (chain_query C D A name params c))"

subsection \<open>Mempool and fees\<close>

definition mempool_query :: "crypto \<Rightarrow> 'd doubles \<Rightarrow> 'd arith \<Rightarrow> string \<Rightarrow> 'd json list \<Rightarrow> transaction list \<Rightarrow> 'd json res" where
  "mempool_query C D A name params pool =
     (if name = ''getrawmempool'' then
        bindE (require_params params 0 1) (\<lambda>_.
        bindE (mapE (txid C) pool) (\<lambda>txids. Inr (JArray (map JString txids))))
      else
        bindE (require_params params 0 0) (\<lambda>_.
        bindE (foldE (\<lambda>t total. bindE (virtual_size t) (\<lambda>n. Inr (total + of_nat n :: u64))) pool 0) (\<lambda>total.
          Inr (json_object [
            (''loaded'', JBool True),
            (''size'', json_of_u64 D (of_nat (length pool))),
            (''bytes'', json_of_u64 D total),
            (''usage'', json_of_u64 D total),
            (''maxmempool'', json_of_u64 D (300 * 1024 * 1024)),
            (''mempoolminfee'', real_json A ''0.00001000''),
            (''minrelaytxfee'', real_json A ''0.00001000'')]))))"

definition mempool_command ::
  "crypto \<Rightarrow> 'd doubles \<Rightarrow> 'd arith \<Rightarrow> string \<Rightarrow> 'd json list \<Rightarrow> (disk, 'd json) sx" where
  "mempool_command C D A name params =
     bindS (open_text mempool_load) (\<lambda>pool. liftS (mempool_query C D A name params pool))"

definition estimate_command :: "'d doubles \<Rightarrow> 'd arith \<Rightarrow> 'd json list \<Rightarrow> 'd json res" where
  "estimate_command D A params =
     bindE (require_params params 1 2) (\<lambda>_.
     bindE (integer_param D (params ! 0) ''Confirmation target'') (\<lambda>target.
     if target < 1 \<or> target > 1008 then Inl (RpcError (- 8) ''Confirmation target out of range'')
     else
       bindE (if length params = 2 then bindE (string_param (params ! 1) ''Estimate mode'') parse_fee_mode else Inr Economical) (\<lambda>mode.
       bindE (estimate 1000 (word_of_int target) mode) (\<lambda>quote.
         Inr (json_object [(''feerate'', amount_json D A (fq_rate quote)), (''blocks'', JInt target)])))))"

definition validate_address_command :: "crypto \<Rightarrow> 'd json list \<Rightarrow> 'd json res" where
  "validate_address_command C params =
     bindE (require_params params 1 1) (\<lambda>_.
     bindE (string_param (params ! 0) ''Address'') (\<lambda>address.
     if \<not> valid_testnet_address C address then Inr (json_object [(''isvalid'', JBool False)])
     else
       bindE (bindE (decode_testnet_address C address) (make_p2pk_script C)) (\<lambda>script.
         Inr (json_object [
           (''isvalid'', JBool True),
           (''address'', JString address),
           (''scriptPubKey'', JString (bytes_to_hex script)),
           (''isscript'', JBool False),
           (''iswitness'', JBool True),
           (''witness_version'', JInt 0)]))))"

subsection \<open>Wallet\<close>

text \<open>The objects every wallet command opens, in their order.\<close>

record spending =
  sp_chain :: chain
  sp_wallet :: "wallet option"
  sp_pool :: "transaction list"
  sp_height :: u64
  sp_utxos :: utxo_set

definition open_manager :: "crypto \<Rightarrow> kdf \<Rightarrow> (disk, wallet option) sx" where
  "open_manager C K =
     bindS (getS (\<lambda>d. manager_exists (d, None))) (\<lambda>exists.
     if \<not> exists then throwS (RpcError (- 18) ''No wallet is loaded. Create one with binarycoind --testnet wallet-create.'')
     else bindS (on_manager (manager_load C K) None) (\<lambda>(_, backend). returnS backend))"

definition open_spending :: "crypto \<Rightarrow> kdf \<Rightarrow> string \<Rightarrow> (disk, spending) sx" where
  "open_spending C K directory =
     bindS (open_chain C directory) (\<lambda>c.
     bindS (open_manager C K) (\<lambda>backend.
     bindS (open_text mempool_load) (\<lambda>pool.
     bindS (liftS (tip_height c)) (\<lambda>tip.
     bindS (liftS (effective_utxos C pool (cn_utxos c) (tip + 1))) (\<lambda>utxos.
       returnS \<lparr> sp_chain = c, sp_wallet = backend, sp_pool = pool, sp_height = tip + 1, sp_utxos = utxos \<rparr>)))))"

text \<open>A call on the wallet of a command that makes no further one.\<close>

definition wallet_do :: "(wallet, 'a) sx \<Rightarrow> spending \<Rightarrow> (disk, 'a) sx" where
  "wallet_do m sp = bindS (on_manager (on_backend m) (sp_wallet sp)) (\<lambda>(x, _). returnS x)"

definition wallet_info :: "crypto \<Rightarrow> kdf \<Rightarrow> 'd doubles \<Rightarrow> 'd arith \<Rightarrow> 'd json list \<Rightarrow> spending \<Rightarrow> (disk, 'd json) sx" where
  "wallet_info C K D A params sp =
     bindS (liftS (require_params params 0 0)) (\<lambda>_.
     bindS (wallet_do (bindS (wallet_balance_of C K (sp_utxos sp) (sp_height sp)) (\<lambda>balance.
         bindS (getS kind_name) (\<lambda>kind. returnS (balance, kind)))) sp) (\<lambda>(balance, kind).
       returnS (json_object [
         (''walletname'', JString ''default''),
         (''walletversion'', JInt 1),
         (''format'', JString kind),
         (''balance'', amount_json D A (wb_spendable balance)),
         (''unconfirmed_balance'', real_json A ''0.0''),
         (''immature_balance'', amount_json D A (wb_immature balance)),
         (''txcount'', json_of_u64 D (of_nat (length (sp_pool sp)))),
         (''keypoololdest'', JInt 0),
         (''keypoolsize'', JInt 1000),
         (''paytxfee'', real_json A ''0.0''),
         (''private_keys_enabled'', JBool True),
         (''descriptors'', JBool False),
         (''avoid_reuse'', JBool False),
         (''scanning'', JBool False)])))"

definition balance_command :: "crypto \<Rightarrow> kdf \<Rightarrow> 'd doubles \<Rightarrow> 'd arith \<Rightarrow> 'd json list \<Rightarrow> spending \<Rightarrow> (disk, 'd json) sx" where
  "balance_command C K D A params sp =
     bindS (liftS (require_params params 0 3)) (\<lambda>_.
     bindS (wallet_do (wallet_balance_of C K (sp_utxos sp) (sp_height sp)) sp) (\<lambda>balance.
       returnS (amount_json D A (wb_spendable balance))))"

definition new_address_command :: "crypto \<Rightarrow> kdf \<Rightarrow> 'd json list \<Rightarrow> spending \<Rightarrow> (disk, 'd json) sx" where
  "new_address_command C K params sp =
     bindS (liftS (require_params params 0 2)) (\<lambda>_.
     bindS (wallet_do (get_new_address C K) sp) (\<lambda>address. returnS (JString address)))"

definition unspent_json :: "'d doubles \<Rightarrow> 'd arith \<Rightarrow> u64 \<Rightarrow> u64 \<Rightarrow> outpoint \<Rightarrow> coin \<Rightarrow> 'd json" where
  "unspent_json D A spend_height tip outpoint coin =
     json_object [
       (''txid'', JString (op_txid outpoint)),
       (''vout'', json_of_u64 D (ucast (op_index outpoint))),
       (''amount'', amount_json D A (to_value (coin_output coin))),
       (''confirmations'', json_of_u64 D (if tip \<ge> coin_height coin then tip - coin_height coin + 1 else 0)),
       (''spendable'', JBool (\<not> coin_coinbase coin \<or> spend_height \<ge> coin_height coin + ucast COINBASE_MATURITY)),
       (''solvable'', JBool True),
       (''safe'', JBool True)]"

fun unspent_loop ::
  "crypto \<Rightarrow> kdf \<Rightarrow> 'd doubles \<Rightarrow> 'd arith \<Rightarrow> u64 \<Rightarrow> u64 \<Rightarrow> utxo_set \<Rightarrow> 'd json list \<Rightarrow> (wallet, 'd json list) sx" where
  "unspent_loop C K D A spend_height tip [] result = returnS result"
| "unspent_loop C K D A spend_height tip ((outpoint, coin) # utxos) result =
     bindS (owns_script C K (to_script_pubkey (coin_output coin))) (\<lambda>owned.
     if \<not> owned then unspent_loop C K D A spend_height tip utxos result
     else unspent_loop C K D A spend_height tip utxos (result @ [unspent_json D A spend_height tip outpoint coin]))"

definition unspent_command :: "crypto \<Rightarrow> kdf \<Rightarrow> 'd doubles \<Rightarrow> 'd arith \<Rightarrow> 'd json list \<Rightarrow> spending \<Rightarrow> (disk, 'd json) sx" where
  "unspent_command C K D A params sp =
     bindS (liftS (require_params params 0 5)) (\<lambda>_.
     bindS (liftS (tip_height (sp_chain sp))) (\<lambda>tip.
     bindS (wallet_do (unspent_loop C K D A (sp_height sp) tip (sp_utxos sp) []) sp) (\<lambda>result.
       returnS (JArray result))))"

definition send_command :: "crypto \<Rightarrow> kdf \<Rightarrow> 'd doubles \<Rightarrow> 'd arith \<Rightarrow> 'd json list \<Rightarrow> spending \<Rightarrow> (disk, 'd json) sx" where
  "send_command C K D A params sp =
     bindS (liftS (require_params params 2 10)) (\<lambda>_.
     bindS (liftS (string_param (params ! 0) ''Address'')) (\<lambda>address.
     bindS (liftS (decode_testnet_address C address)) (\<lambda>destination.
     bindS (liftS (bindE (amount_param D A (params ! 1)) parse_bin_amount)) (\<lambda>amount.
     bindS (liftS (estimate 1 6 Economical)) (\<lambda>quote.
     bindS (wallet_do (create_payment C K (sp_utxos sp) (sp_height sp) destination amount (fq_rate quote)) sp) (\<lambda>t.
     bindS (edit_text (mempool_add C t (cn_utxos (sp_chain sp)) (sp_height sp)) (sp_pool sp)) (\<lambda>_.
     bindS (liftS (txid C t)) (\<lambda>i. returnS (JString i)))))))))"

definition generate_command ::
  "crypto \<Rightarrow> kdf \<Rightarrow> 'd doubles \<Rightarrow> (nat \<Rightarrow> int) \<Rightarrow> string \<Rightarrow> 'd json list \<Rightarrow> spending \<Rightarrow> (disk, 'd json) sx" where
  "generate_command C K D clock name params sp =
     bindS (liftS (require_params params (if name = ''generate'' then 1 else 2) (if name = ''generate'' then 1 else 3))) (\<lambda>_.
     bindS (liftS (integer_param D (params ! 0) ''Block count'')) (\<lambda>count.
     if count \<le> 0 \<or> count > 100000 then throwS (RpcError (- 8) ''Block count out of range'')
     else
       bindS (wallet_do (bindS (getS (locking_script C K)) liftS) sp) (\<lambda>own_script.
       bindS (liftS (if name = ''generatetoaddress''
           then bindE (string_param (params ! 1) ''Address'') (\<lambda>a. bindE (decode_testnet_address C a) (make_p2pk_script C))
           else Inr own_script)) (\<lambda>script.
       bindS (on_chain (chain_generate C clock (word_of_int count) script (sp_pool sp)) (sp_chain sp)) (\<lambda>(_, c).
       bindS (edit_text mempool_clear (sp_pool sp)) (\<lambda>_.
       bindS (liftS (mapE (block_hash C) (drop (length (cn_blocks c) - nat count) (cn_blocks c)))) (\<lambda>hashes.
         returnS (JArray (map JString hashes)))))))))"

definition WALLET_COMMANDS :: "string list" where
  "WALLET_COMMANDS =
     [''getwalletinfo'', ''getbalance'', ''getnewaddress'', ''listunspent'', ''sendtoaddress'', ''generate'', ''generatetoaddress'']"

definition wallet_command ::
  "crypto \<Rightarrow> kdf \<Rightarrow> 'd doubles \<Rightarrow> 'd arith \<Rightarrow> command_env \<Rightarrow> string \<Rightarrow> 'd json list \<Rightarrow> string \<Rightarrow> (disk, 'd json) sx" where
  "wallet_command C K D A env name params directory =
     bindS (open_spending C K directory) (\<lambda>sp.
     if name = ''getwalletinfo'' then wallet_info C K D A params sp
     else if name = ''getbalance'' then balance_command C K D A params sp
     else if name = ''getnewaddress'' then new_address_command C K params sp
     else if name = ''listunspent'' then unspent_command C K D A params sp
     else if name = ''sendtoaddress'' then send_command C K D A params sp
     else generate_command C K D (ce_clock env) name params sp)"

subsection \<open>The dispatcher\<close>

definition dispatch ::
  "crypto \<Rightarrow> kdf \<Rightarrow> 'd doubles \<Rightarrow> 'd arith \<Rightarrow> command_env \<Rightarrow> string \<Rightarrow> 'd json list \<Rightarrow> (rpc_node, 'd json) sx" where
  "dispatch C K D A env name params =
     bindS (getS rn_directory) (\<lambda>directory.
     if name = ''help'' then bindS (liftS (require_params params 0 1)) (\<lambda>_. returnS (JString help_text))
     else if name = ''stop'' then stop_command params
     else if name = ''uptime'' then bindS (liftS (require_params params 0 0)) (\<lambda>_. returnS (JInt (ce_uptime env)))
     else if name = ''logging'' then logging_command params
     else if name = ''getconnectioncount'' then
       bindS (liftS (require_params params 0 0)) (\<lambda>_. getS (\<lambda>s. json_of_u64 D (rn_active_peers s)))
     else if name = ''getnetworkinfo'' then bindS (liftS (require_params params 0 0)) (\<lambda>_. getS (network_info D A))
     else if name = ''getpeerinfo'' then
       bindS (liftS (require_params params 0 0)) (\<lambda>_. getS (\<lambda>s. JArray (map (peer_json D) (rn_peers s))))
     else if name \<in> set CHAIN_COMMANDS then node_disk (chain_command C D A name params directory)
     else if name \<in> set [''getmempoolinfo'', ''getrawmempool''] then node_disk (mempool_command C D A name params)
     else if name = ''estimatesmartfee'' then liftS (estimate_command D A params)
     else if name = ''validateaddress'' then liftS (validate_address_command C params)
     else if name \<in> set WALLET_COMMANDS then node_disk (wallet_command C K D A env name params directory)
     else throwS (RpcError (- 32601) (''Method not found: '' @ name)))"

definition handler_error :: "exn \<Rightarrow> exn" where
  "handler_error e =
     (case e of
        RpcError code message \<Rightarrow> RpcError code message
      | InvalidArgument message \<Rightarrow> RpcError (- 8) message
      | _ \<Rightarrow> RpcError (- 32603) (exn_what e))"

definition command_handler ::
  "crypto \<Rightarrow> kdf \<Rightarrow> 'd doubles \<Rightarrow> 'd arith \<Rightarrow> command_env \<Rightarrow> ('d, rpc_node) rpc_handler" where
  "command_handler C K D A env request =
     tryS (dispatch C K D A env (rq_method request) (rq_params request)) (\<lambda>e. throwS (handler_error e))"

end
