(* ===== verification/NetMessages.thy ===== *)
theory NetMessages
  imports NetSession
begin

section \<open>Messages, turns and the life of a session (net.cpp)\<close>

text \<open>
  The handlers of \<^verbatim>\<open>session_loop\<close> not about headers, the turn with its inventory scan, ping and catch, the whole
  session, the construction of the node and the admission of connections.
\<close>

subsection \<open>Addresses, status and inventory\<close>

definition is_self :: "node_config \<Rightarrow> peer_record \<Rightarrow> bool" where
  "is_self cfg r \<longleftrightarrow>
     (pe_host (pr_endpoint r) = nc_bind_address cfg \<or>
      (pe_host (pr_endpoint r) = ''127.0.0.1'' \<and> nc_bind_address cfg = ''0.0.0.0'')) \<and>
     pe_port (pr_endpoint r) = nc_port cfg"

definition take_addresses :: "node_config \<Rightarrow> int \<Rightarrow> peer_record list \<Rightarrow> peer_record list \<Rightarrow> peer_record list" where
  "take_addresses cfg now records known =
     fold (\<lambda>r. add_or_update (r \<lparr> pr_last_seen := min (pr_last_seen r) (now + 600) \<rparr>))
       (filter (\<lambda>r. \<not> is_self cfg r) records) known"

definition save_peers :: "peer_record list \<Rightarrow> (disk, unit) sx" where
  "save_peers records = bindS (on_text peers_save records) (\<lambda>_. returnS ())"

definition handle_addrv2 :: "inet \<Rightarrow> node_config \<Rightarrow> int \<Rightarrow> bytes \<Rightarrow> (session, unit) sx" where
  "handle_addrv2 N cfg now payload =
     bindS (liftS (deserialize_addrv2 N payload)) (\<lambda>records.
     bindS (disk_do (open_text peers_load)) (\<lambda>known.
     bindS (disk_do (save_peers (take_addresses cfg now records known))) (\<lambda>_.
     count_stat (\<lambda>t. t \<lparr> ls_addresses_received := ls_addresses_received t +
        word_of_nat (length (filter (\<lambda>r. \<not> is_self cfg r) records)) \<rparr>))))"

text \<open>Whether an announcement is worth a sync: another tip and more work, compared as texts.\<close>

definition better_chain :: "crypto \<Rightarrow> peer_version \<Rightarrow> chain \<Rightarrow> bool res" where
  "better_chain C v c =
     bindE (tip_hash C c) (\<lambda>tip.
     if pv_tip_hash v = tip then Inr False
     else bindE (chainwork_hex c) (\<lambda>work. Inr (pv_chainwork v > work)))"

definition handle_status :: "crypto \<Rightarrow> bytes \<Rightarrow> (session, unit) sx" where
  "handle_status C payload =
     bindS (liftS (deserialize_version payload)) (\<lambda>status.
     bindS (load_chain C) (\<lambda>c.
     bindS (getS (\<lambda>s. cd_active (ss_candidate s))) (\<lambda>active.
     bindS (if active then returnS False else liftS (better_chain C status c)) (\<lambda>should_sync.
     if should_sync
     then start_candidate_sync C (pv_best_height status) (pv_tip_hash status) (pv_chainwork status)
     else returnS ()))))"

definition answer_getstatus :: "crypto \<Rightarrow> round_env \<Rightarrow> bytes \<Rightarrow> (session, unit) sx" where
  "answer_getstatus C env payload =
     bindS (require (payload = []) ''getstatus payload must be empty'') (\<lambda>_.
     bindS (load_chain C) (\<lambda>c.
     send_made C ''status'' (bindE (local_version C (re_clock env) (re_random env) c 0) serialize_version)))"

definition sort_item ::
  "crypto \<Rightarrow> stored_block list \<Rightarrow> transaction list \<Rightarrow> stored_block list \<Rightarrow> inventory_item \<Rightarrow> (session, inventory_item list) sx" where
  "sort_item C blocks pool branches item =
     (case ii_type item of
        InvBlock \<Rightarrow>
          bindS (knows_block (ii_hash item)) (\<lambda>_.
          liftS (bindE (chain_has_block C blocks (ii_hash item)) (\<lambda>active.
            if active then Inr []
            else bindE (branch_find C branches (ii_hash item)) (\<lambda>side. Inr (if side = None then [item] else [])))))
      | InvTransaction \<Rightarrow>
          bindS (knows_transaction (ii_hash item)) (\<lambda>_.
          liftS (bindE (node_has_transaction C blocks pool (ii_hash item)) (\<lambda>known. Inr (if known then [] else [item])))))"

fun missing_items ::
  "crypto \<Rightarrow> stored_block list \<Rightarrow> transaction list \<Rightarrow> stored_block list \<Rightarrow> inventory_item list \<Rightarrow> (session, inventory_item list) sx" where
  "missing_items C blocks pool branches [] = returnS []"
| "missing_items C blocks pool branches (item # items) =
     bindS (sort_item C blocks pool branches item) (\<lambda>m.
     bindS (missing_items C blocks pool branches items) (\<lambda>rest. returnS (m @ rest)))"

definition handle_inv :: "crypto \<Rightarrow> bytes \<Rightarrow> (session, unit) sx" where
  "handle_inv C payload =
     bindS (liftS (deserialize_inventory payload)) (\<lambda>inventory.
     bindS (load_chain C) (\<lambda>c.
     bindS (disk_do (open_text mempool_load)) (\<lambda>pool.
     bindS (disk_do (open_text (branch_load C))) (\<lambda>branches.
     bindS (missing_items C (cn_blocks c) pool branches inventory) (\<lambda>missing.
     if missing \<noteq> [] then send_made C ''getdata'' (serialize_inventory missing) else returnS ())))))"

definition answer_getdata :: "crypto \<Rightarrow> bytes \<Rightarrow> (session, unit) sx" where
  "answer_getdata C payload =
     bindS (liftS (deserialize_inventory payload)) (\<lambda>inventory.
     bindS (load_chain C) (\<lambda>c.
     bindS (disk_do (open_text mempool_load)) (\<lambda>pool.
     bindS (disk_do (open_text (branch_load C))) (\<lambda>branches.
     bindS (send_items C (cn_blocks c) branches pool inventory []) (send_not_found C)))))"

subsection \<open>Transactions and blocks\<close>

definition handle_tx :: "crypto \<Rightarrow> bytes \<Rightarrow> (session, unit) sx" where
  "handle_tx C payload =
     bindS (liftS (deserialize_transaction payload)) (\<lambda>t.
     bindS (liftS (txid C t)) (\<lambda>i.
     bindS (knows_transaction i) (\<lambda>_.
     tryS
       (bindS (load_chain C) (\<lambda>c.
        bindS (disk_do (open_text mempool_load)) (\<lambda>pool.
        bindS (liftS (node_has_transaction C (cn_blocks c) pool i)) (\<lambda>known.
        if known then returnS ()
        else
        bindS (liftS (tip_height c)) (\<lambda>height.
        bindS (disk_do (edit_text (mempool_add C t (cn_utxos c) (height + 1)) pool)) (\<lambda>_.
        count_stat (\<lambda>x. x \<lparr> ls_relayed_transactions := ls_relayed_transactions x + 1 \<rparr>)))))))
       (\<lambda>_. misbehaves 25))))"

text \<open>A requested body of the candidate: it must be the announced header at the announced height.\<close>

fun find_header :: "crypto \<Rightarrow> header_record list \<Rightarrow> string \<Rightarrow> header_record option res" where
  "find_header C [] hash = Inr None"
| "find_header C (r # rs) hash =
     bindE (hash_hex C (hr_header r)) (\<lambda>h. if h = hash then Inr (Some r) else find_header C rs hash)"

definition matches_announced :: "crypto \<Rightarrow> header_record list \<Rightarrow> string \<Rightarrow> stored_block \<Rightarrow> bool res" where
  "matches_announced C headers hash stored =
     bindE (find_header C headers hash) (\<lambda>found.
     case found of
       None \<Rightarrow> Inr False
     | Some r \<Rightarrow>
         if hr_height r \<noteq> sb_height stored then Inr False
         else bindE (serialize_header (hr_header r)) (\<lambda>a.
              bindE (serialize_header (b_header (sb_block stored))) (\<lambda>b. Inr (a = b))))"

definition keep_branch :: "crypto \<Rightarrow> stored_block \<Rightarrow> (disk, unit) sx" where
  "keep_branch C stored =
     bindS (open_text (branch_load C)) (\<lambda>branches.
     bindS (edit_text (bindS (branch_put C stored) (\<lambda>_. branch_save)) branches) (\<lambda>_.
     returnS ()))"

definition handle_candidate_block :: "crypto \<Rightarrow> string \<Rightarrow> stored_block \<Rightarrow> (session, unit) sx" where
  "handle_candidate_block C hash stored =
     bindS (getS ss_candidate) (\<lambda>cd.
     bindS (liftS (matches_announced C (cd_headers cd) hash stored)) (\<lambda>ok.
     bindS (require ok ''Received candidate block does not match requested header'') (\<lambda>_.
     bindS (disk_do (keep_branch C stored)) (\<lambda>_.
     bindS (set_candidate (cd \<lparr> cd_blocks := map_emplace hash stored (cd_blocks cd),
        cd_pending := removeAll hash (cd_pending cd) \<rparr>)) (\<lambda>_.
     if removeAll hash (cd_pending cd) = [] then activate_candidate C else returnS ())))))"

text \<open>The three fates of an unrequested block: known, next on the active chain, or kept aside.\<close>

datatype block_fate = AlreadyActive | Extended | SideBranch

definition extends_tip :: "crypto \<Rightarrow> stored_block \<Rightarrow> chain \<Rightarrow> bool res" where
  "extends_tip C stored c =
     bindE (tip_height c) (\<lambda>height.
     if sb_height stored \<noteq> height + 1 then Inr False
     else bindE (tip_hash C c) (\<lambda>tip. Inr (bh_previous_hash (b_header (sb_block stored)) = tip)))"

definition place_block :: "crypto \<Rightarrow> string \<Rightarrow> string \<Rightarrow> stored_block \<Rightarrow> (disk, block_fate) sx" where
  "place_block C directory hash stored =
     bindS (open_chain C directory) (\<lambda>c.
     bindS (liftS (chain_has_block C (cn_blocks c) hash)) (\<lambda>known.
     if known then returnS AlreadyActive
     else
     bindS (liftS (extends_tip C stored c)) (\<lambda>next.
     if next
     then
       bindS (on_chain (append_blocks C [stored]) c) (\<lambda>(_, c).
       bindS (open_text (branch_load C)) (\<lambda>branches.
       bindS (edit_text (branch_remove_active C (cn_blocks c)) branches) (\<lambda>_.
       bindS (refresh_mempool C c []) (\<lambda>_.
       returnS Extended))))
     else bindS (keep_branch C stored) (\<lambda>_. returnS SideBranch))))"

definition handle_block :: "crypto \<Rightarrow> bytes \<Rightarrow> (session, unit) sx" where
  "handle_block C payload =
     bindS (liftS (deserialize_stored_blocks payload)) (\<lambda>blocks.
     bindS (require (length blocks = 1) ''block message must contain one block'') (\<lambda>_.
     let stored = hd blocks in
     bindS (liftS (block_hash C stored)) (\<lambda>hash.
     bindS (knows_block hash) (\<lambda>_.
     bindS (getS ss_candidate) (\<lambda>cd.
     if cd_active cd \<and> hash \<in> set (cd_pending cd) then handle_candidate_block C hash stored
     else
     bindS (getS lk_directory) (\<lambda>directory.
     bindS (tryS (bindS (disk_do (place_block C directory hash stored)) (\<lambda>fate.
            bindS (if fate = Extended
                   then count_stat (\<lambda>t. t \<lparr> ls_relayed_blocks := ls_relayed_blocks t + 1 \<rparr>) else returnS ())
              (\<lambda>_. returnS (fate = SideBranch))))
          (\<lambda>_. bindS (misbehaves 50) (\<lambda>_. returnS False))) (\<lambda>side_branch.
     if side_branch \<and> \<not> cd_active cd then send C ''getstatus'' [] else returnS ())))))))"

subsection \<open>One message\<close>

definition handle_pong :: "bytes \<Rightarrow> (session, unit) sx" where
  "handle_pong payload =
     (if length payload \<noteq> 8 then misbehaves 10
      else bindS (liftS (read_u64_le payload 0)) (\<lambda>(nonce, _).
        bindS (getS ss_outstanding_ping) (\<lambda>outstanding.
        if outstanding \<noteq> Some nonce then misbehaves 5
        else modifyS (\<lambda>s. s \<lparr> ss_outstanding_ping := None \<rparr>))))"

definition handle_message ::
  "crypto \<Rightarrow> inet \<Rightarrow> node_config \<Rightarrow> round_env \<Rightarrow> p2p_message \<Rightarrow> (session, next_step) sx" where
  "handle_message C N cfg env message =
     (let command = pm_command message; payload = pm_payload message; goes_on = (\<lambda>_. returnS Continue) in
      if command = ''getheaders'' then
        bindS (liftS (deserialize_getheaders payload)) (\<lambda>g.
        bindS (load_chain C) (\<lambda>c.
        bindS (liftS (headers_after_locator C (cn_blocks c) g)) (\<lambda>headers.
        bindS (send_made C ''headers'' (serialize_headers headers)) goes_on)))
      else if command = ''headers'' then bindS (handle_headers C payload) goes_on
      else if command = ''getaddr'' then bindS (answer_getaddr C N payload) goes_on
      else if command = ''addrv2'' then bindS (handle_addrv2 N cfg (re_clock env) payload) goes_on
      else if command = ''getblocks'' then
        bindS (liftS (read_getblocks payload)) (\<lambda>(start_height, requested, offset).
        bindS (require (offset = length payload \<and> requested \<noteq> 0 \<and> unat requested \<le> MAX_BLOCKS_PER_RESPONSE)
          ''Malformed legacy getblocks request'') (\<lambda>_.
        bindS (load_chain C) (\<lambda>c.
        bindS (send_blocks_from C c start_height requested) goes_on)))
      else if command = ''blocks'' then bindS (misbehaves 10) goes_on
      else if command = ''getmempool'' then bindS (answer_getmempool C payload) goes_on
      else if command = ''getstatus'' then bindS (answer_getstatus C env payload) goes_on
      else if command = ''status'' then bindS (handle_status C payload) goes_on
      else if command = ''inv'' then bindS (handle_inv C payload) goes_on
      else if command = ''getdata'' then bindS (answer_getdata C payload) goes_on
      else if command = ''tx'' then bindS (handle_tx C payload) goes_on
      else if command = ''block'' then bindS (handle_block C payload) goes_on
      else if command = ''ping'' then
        bindS (require (length payload = 8) ''ping nonce must be 8 bytes'') (\<lambda>_.
        bindS (send C ''pong'' payload) goes_on)
      else if command = ''pong'' then bindS (handle_pong payload) goes_on
      else if command = ''txack'' \<or> command = ''notfound'' then returnS Continue
      else if command = ''bye'' then returnS Return
      else bindS (misbehaves 10) (\<lambda>_. returnS FallThrough))"

subsection \<open>One turn\<close>

text \<open>The scan keeps the items collected before an exception, since \<^verbatim>\<open>inventory\<close> is declared outside the
  \<^verbatim>\<open>try\<close>: a hash that throws ends the loop.\<close>

fun announce_transactions :: "crypto \<Rightarrow> transaction list \<Rightarrow> inventory_item list \<Rightarrow> (session, inventory_item list) sx" where
  "announce_transactions C [] inventory = returnS inventory"
| "announce_transactions C (t # ts) inventory =
     (if length inventory \<ge> MAX_INVENTORY_ITEMS then returnS inventory
      else
      case txid C t of
        Inl e \<Rightarrow> returnS inventory
      | Inr i \<Rightarrow>
          bindS (getS ss_knows_transactions) (\<lambda>known.
          if i \<in> known then announce_transactions C ts inventory
          else bindS (knows_transaction i) (\<lambda>_.
            announce_transactions C ts (inventory @ [\<lparr> ii_type = InvTransaction, ii_hash = i \<rparr>]))))"

definition collect_inventory :: "crypto \<Rightarrow> (session, inventory_item list) sx" where
  "collect_inventory C =
     tryS
       (bindS (load_chain C) (\<lambda>c.
        bindS (disk_do (open_text mempool_load)) (\<lambda>pool.
        bindS (liftS (tip_hash C c)) (\<lambda>tip.
        bindS (getS ss_knows_blocks) (\<lambda>known.
        bindS (if tip \<in> known then returnS [] else bindS (knows_block tip) (\<lambda>_. returnS [block_item tip])) (\<lambda>inventory.
        announce_transactions C pool inventory))))))
       (\<lambda>_. returnS [])"

definition inventory_scan :: "crypto \<Rightarrow> round_env \<Rightarrow> (session, unit) sx" where
  "inventory_scan C env =
     bindS (getS ss_last_inventory_scan) (\<lambda>last_scan.
     if re_now env - last_scan \<ge> 200
     then
       bindS (collect_inventory C) (\<lambda>inventory.
       bindS (if inventory \<noteq> [] then send_made C ''inv'' (serialize_inventory inventory) else returnS ()) (\<lambda>_.
       modifyS (\<lambda>s. s \<lparr> ss_last_inventory_scan := re_now env \<rparr>)))
     else returnS ())"

definition ping_timed_out :: "node_config \<Rightarrow> round_env \<Rightarrow> session \<Rightarrow> bool" where
  "ping_timed_out cfg env s \<longleftrightarrow>
     ss_outstanding_ping s \<noteq> None \<and> re_now env - ss_ping_sent s \<ge> np_ping_timeout (nc_policy cfg)"

definition send_ping :: "crypto \<Rightarrow> node_config \<Rightarrow> round_env \<Rightarrow> (session, unit) sx" where
  "send_ping C cfg env =
     bindS (getS (\<lambda>s. ss_outstanding_ping s = None \<and> re_now env - ss_last_ping s \<ge> np_ping_interval (nc_policy cfg))) (\<lambda>due.
     if \<not> due then returnS ()
     else
     bindS (send C ''ping'' (append_u64_le [] (re_random env))) (\<lambda>_.
     modifyS (\<lambda>s. s \<lparr> ss_outstanding_ping := Some (re_random env), ss_ping_sent := re_now env,
        ss_last_ping := re_now env \<rparr>)))"

definition count_timeout :: "(session, unit) sx" where
  "count_timeout = count_stat (\<lambda>t. t \<lparr> ls_timeout_disconnects := ls_timeout_disconnects t + 1 \<rparr>)"

text \<open>The part of a turn behind the message; \<open>False\<close> is a return from the session.\<close>

definition periodic :: "crypto \<Rightarrow> node_config \<Rightarrow> round_env \<Rightarrow> peer_endpoint \<Rightarrow> (session, bool) sx" where
  "periodic C cfg env endpoint =
     bindS (inventory_scan C env) (\<lambda>_.
     bindS (getS (ping_timed_out cfg env)) (\<lambda>timed_out.
     if timed_out then bindS count_timeout (\<lambda>_. returnS False)
     else
     bindS (send_ping C cfg env) (\<lambda>_.
     bindS (getS (over_threshold cfg)) (\<lambda>over.
     if over then bindS (ban_session cfg (re_clock env) endpoint ''misbehavior-threshold'') (\<lambda>_. returnS False)
     else returnS True))))"

definition note_message :: "node_config \<Rightarrow> round_env \<Rightarrow> (session, bool) sx" where
  "note_message cfg env =
     bindS (modifyS (\<lambda>s.
       if re_received_at env - ss_window_started s \<ge> np_message_window (nc_policy cfg)
       then s \<lparr> ss_window_started := re_received_at env, ss_messages_in_window := 1 \<rparr>
       else s \<lparr> ss_messages_in_window := ss_messages_in_window s + 1 \<rparr>)) (\<lambda>_.
     getS (\<lambda>s. ss_messages_in_window s > np_max_messages_per_window (nc_policy cfg)))"

definition read_message ::
  "crypto \<Rightarrow> inet \<Rightarrow> node_config \<Rightarrow> round_env \<Rightarrow> peer_endpoint \<Rightarrow> (session, next_step) sx" where
  "read_message C N cfg env endpoint =
     bindS (receive C) (\<lambda>message.
     bindS (note_message cfg env) (\<lambda>too_many.
     if too_many
     then
       bindS (count_stat (\<lambda>t. t \<lparr> ls_rate_limited_connections := ls_rate_limited_connections t + 1 \<rparr>)) (\<lambda>_.
       bindS count_rejected (\<lambda>_.
       bindS (disk_do (ban_peer (nc_policy cfg) (re_clock env) endpoint
          (np_ban_threshold (nc_policy cfg)) ''message-rate-limit'')) (\<lambda>_.
       returnS Return)))
     else handle_message C N cfg env message))"

definition turn :: "crypto \<Rightarrow> inet \<Rightarrow> node_config \<Rightarrow> round_env \<Rightarrow> peer_endpoint \<Rightarrow> (session, bool) sx" where
  "turn C N cfg env endpoint =
     bindS (liftS (re_readable env)) (\<lambda>readable.
     bindS (if readable then read_message C N cfg env endpoint else returnS FallThrough) (\<lambda>step.
     case step of
       Continue \<Rightarrow> returnS True
     | Return \<Rightarrow> returnS False
     | FallThrough \<Rightarrow> periodic C cfg env endpoint))"

text \<open>The catch of the loop takes runtime errors only.\<close>

definition turn_failed :: "node_config \<Rightarrow> round_env \<Rightarrow> peer_endpoint \<Rightarrow> exn \<Rightarrow> (session, bool) sx" where
  "turn_failed cfg env endpoint e =
     (case e of
        RuntimeError message \<Rightarrow>
          if starts_with message ''recv failed:'' \<or> starts_with message ''send failed:'' \<or>
             starts_with message ''select failed:''
          then bindS count_timeout (\<lambda>_. returnS False)
          else if mentions ''closed'' message \<or> mentions ''Connection reset'' message \<or> mentions ''Broken pipe'' message
          then returnS False
          else if mentions ''Resource temporarily unavailable'' message \<or> mentions ''Operation timed out'' message
          then bindS count_timeout (\<lambda>_. returnS False)
          else
            bindS count_rejected (\<lambda>_.
            bindS (modifyS (\<lambda>s. s \<lparr> ss_score := ss_score s + 25 \<rparr>)) (\<lambda>_.
            bindS (getS (over_threshold cfg)) (\<lambda>over.
            if over then bindS (ban_session cfg (re_clock env) endpoint message) (\<lambda>_. returnS False)
            else returnS True)))
      | _ \<Rightarrow> throwS e)"

definition session_round :: "crypto \<Rightarrow> inet \<Rightarrow> node_config \<Rightarrow> peer_endpoint \<Rightarrow> round_env \<Rightarrow> (session, bool) sx" where
  "session_round C N cfg endpoint env =
     bindS (getS (over_threshold cfg)) (\<lambda>over.
     if over then bindS (ban_session cfg (re_clock env) endpoint ''misbehavior-threshold'') (\<lambda>_. returnS False)
     else tryS (turn C N cfg env endpoint) (turn_failed cfg env endpoint))"

text \<open>The loop runs one turn per environment; when they are used up, \<^verbatim>\<open>stop_requested_\<close> is set. The
  result says whether the loop ended that way.\<close>

fun session_rounds :: "crypto \<Rightarrow> inet \<Rightarrow> node_config \<Rightarrow> peer_endpoint \<Rightarrow> round_env list \<Rightarrow> (session, bool) sx" where
  "session_rounds C N cfg endpoint [] = returnS True"
| "session_rounds C N cfg endpoint (env # envs) =
     bindS (session_round C N cfg endpoint env) (\<lambda>more.
     if more then session_rounds C N cfg endpoint envs else returnS False)"

subsection \<open>A session\<close>

definition open_session :: "crypto \<Rightarrow> node_config \<Rightarrow> round_env \<Rightarrow> bool \<Rightarrow> peer_endpoint \<Rightarrow> (session, peer_version) sx" where
  "open_session C cfg env outbound endpoint =
     bindS (getS lk_directory) (\<lambda>directory.
     bindS (disk_do (start_chain C directory)) (\<lambda>c.
     tryS
       (if outbound then client_handshake C (re_clock env) (re_random env) c (nc_nonce cfg)
        else server_handshake C (re_clock env) (re_random env) c (nc_nonce cfg))
       (\<lambda>e.
        bindS count_rejected (\<lambda>_.
        bindS (disk_do (ban_peer (nc_policy cfg) (re_clock env) endpoint
          (np_ban_threshold (nc_policy cfg)) ''invalid-handshake'')) (\<lambda>_.
        throwS e)))))"

definition sync_after_handshake :: "crypto \<Rightarrow> peer_version \<Rightarrow> (session, unit) sx" where
  "sync_after_handshake C peer =
     bindS (load_chain C) (\<lambda>c.
     bindS (liftS (better_chain C peer c)) (\<lambda>should_sync.
     if should_sync then start_candidate_sync C (pv_best_height peer) (pv_tip_hash peer) (pv_chainwork peer)
     else returnS ()))"

definition after_stop :: "crypto \<Rightarrow> bool \<Rightarrow> (session, unit) sx" where
  "after_stop C stopped = (if stopped then tryS (send C ''bye'' []) (\<lambda>_. returnS ()) else returnS ())"

definition session_body ::
  "crypto \<Rightarrow> inet \<Rightarrow> node_config \<Rightarrow> round_env \<Rightarrow> bool \<Rightarrow> peer_endpoint \<Rightarrow> round_env list \<Rightarrow> peer_version \<Rightarrow> (session, unit) sx" where
  "session_body C N cfg env outbound endpoint envs peer =
     bindS (if outbound
            then disk_do (bindS (open_text peers_load) (\<lambda>records.
                   bindS (edit_text (mark_success (re_clock env) endpoint (pv_services peer)) records) (\<lambda>_. returnS ())))
            else returnS ()) (\<lambda>_.
     bindS (send C ''getaddr'' []) (\<lambda>_.
     bindS (modifyS (\<lambda>s. s \<lparr> ss_candidate := no_candidate, ss_knows_blocks := {pv_tip_hash peer},
        ss_knows_transactions := {}, ss_score := 0, ss_last_inventory_scan := re_now env - 1000,
        ss_last_ping := re_now env, ss_ping_sent := re_now env, ss_outstanding_ping := None,
        ss_window_started := re_now env, ss_messages_in_window := 0 \<rparr>)) (\<lambda>_.
     bindS (if outbound then sync_after_handshake C peer else returnS ()) (\<lambda>_.
     bindS (session_rounds C N cfg endpoint envs) (after_stop C)))))"

text \<open>The registration of the nonce and of the live peer, and the clean-up that runs on every exit.\<close>

definition live_peer :: "int \<Rightarrow> bool \<Rightarrow> peer_endpoint \<Rightarrow> peer_version \<Rightarrow> live_peer_info" where
  "live_peer now outbound endpoint peer = \<lparr> lp_endpoint = endpoint, lp_inbound = (\<not> outbound),
     lp_connected_since = now, lp_version = peer \<rparr>"

definition finally_do :: "('s, 'a) sx \<Rightarrow> ('s \<Rightarrow> 's) \<Rightarrow> ('s, 'a) sx" where
  "finally_do m f s = (case m s of (r, t) \<Rightarrow> (r, f t))"

definition session_loop ::
  "crypto \<Rightarrow> inet \<Rightarrow> node_config \<Rightarrow> round_env \<Rightarrow> bool \<Rightarrow> peer_endpoint \<Rightarrow> u64 \<Rightarrow> round_env list \<Rightarrow> (session, unit) sx" where
  "session_loop C N cfg env outbound endpoint peer_id envs =
     bindS (open_session C cfg env outbound endpoint) (\<lambda>peer.
     if pv_nonce peer = nc_nonce cfg
     then count_stat (\<lambda>t. t \<lparr> ls_self_connections := ls_self_connections t + 1 \<rparr>)
     else
     bindS (getS ss_active_nonces) (\<lambda>active.
     if pv_nonce peer \<in> active
     then count_stat (\<lambda>t. t \<lparr> ls_duplicate_connections := ls_duplicate_connections t + 1 \<rparr>)
     else
     finally_do
       (bindS (modifyS (\<lambda>s. s \<lparr> ss_active_nonces := insert (pv_nonce peer) (ss_active_nonces s),
          ss_live_peers := map_put peer_id (live_peer (re_clock env) outbound endpoint peer) (ss_live_peers s) \<rparr>)) (\<lambda>_.
        session_body C N cfg env outbound endpoint envs peer))
       (\<lambda>s. s \<lparr> ss_active_nonces := (if pv_nonce peer \<noteq> 0 then ss_active_nonces s - {pv_nonce peer} else ss_active_nonces s),
          ss_live_peers := map_erase peer_id (ss_live_peers s) \<rparr>)))"

subsection \<open>The node\<close>

definition policy_ok :: "network_policy \<Rightarrow> unit res" where
  "policy_ok p =
     (if np_max_outbound p > 64 \<or> np_max_inbound p > 1024
      then Inl (InvalidArgument ''Peer connection limit is outside the allowed range'')
      else if np_ban_threshold p = 0 \<or> np_max_messages_per_window p = 0 \<or>
              np_socket_timeout_seconds p \<le> 0 \<or> np_ping_timeout p \<le> np_ping_interval p
      then Inl (InvalidArgument ''Network hardening policy is invalid'')
      else Inr ())"

definition own_record :: "peer_endpoint \<Rightarrow> int \<Rightarrow> int \<Rightarrow> bool \<Rightarrow> peer_record" where
  "own_record e now success manual = \<lparr> pr_endpoint = e, pr_services = NODE_NETWORK_SERVICE, pr_last_seen = now,
     pr_last_success = success, pr_failures = 0, pr_manual = manual \<rparr>"

definition configured_peers :: "node_config \<Rightarrow> peer_endpoint list \<Rightarrow> int \<Rightarrow> peer_record list \<Rightarrow> peer_record list" where
  "configured_peers cfg outbound now records =
     (let records = fold (\<lambda>e. add_or_update (own_record e now 0 True)) outbound records in
      if nc_bind_address cfg \<noteq> [] \<and> nc_bind_address cfg \<noteq> ''0.0.0.0'' \<and> nc_bind_address cfg \<noteq> ''::''
      then add_or_update (own_record \<lparr> pe_host = nc_bind_address cfg, pe_port = nc_port cfg \<rparr> now now False) records
      else records)"

text \<open>The constructor; the listening socket is made between the two updates of the peer list.\<close>

definition construct_node ::
  "crypto \<Rightarrow> (string \<Rightarrow> u16 \<Rightarrow> peer_endpoint list) \<Rightarrow> string \<Rightarrow> node_config \<Rightarrow> peer_endpoint list \<Rightarrow> int \<Rightarrow> unit res \<Rightarrow> (disk, unit) sx" where
  "construct_node C resolver directory cfg outbound now listening =
     bindS (liftS (policy_ok (nc_policy cfg))) (\<lambda>_.
     bindS (start_chain C directory) (\<lambda>_.
     bindS (open_text peers_load) (\<lambda>records.
     bindS (if np_use_compiled_seeds (nc_policy cfg)
            then bindS (on_text (bootstrap_testnet_seeds resolver now) records) (\<lambda>(_, records). returnS records)
            else returnS records) (\<lambda>records.
     bindS (liftS listening) (\<lambda>_.
     save_peers (configured_peers cfg outbound now records))))))"

definition initial_outbound_peers :: "node_config \<Rightarrow> (disk, peer_endpoint list) sx" where
  "initial_outbound_peers cfg =
     bindS (open_text peers_load) (\<lambda>records.
     returnS (select_outbound (np_max_outbound (nc_policy cfg))
       [\<lparr> pe_host = nc_bind_address cfg, pe_port = nc_port cfg \<rparr>, \<lparr> pe_host = ''127.0.0.1'', pe_port = nc_port cfg \<rparr>,
        \<lparr> pe_host = ''::1'', pe_port = nc_port cfg \<rparr>] records))"

definition remember_peer :: "peer_record \<Rightarrow> (disk, unit) sx" where
  "remember_peer peer = bindS (open_text peers_load) (\<lambda>records. save_peers (add_or_update peer records))"

text \<open>What \<^verbatim>\<open>accept_loop\<close> decides for a connection, given the sessions already open, and what \<^verbatim>\<open>outbound_loop\<close>
  does when an attempt ends in an exception.\<close>

datatype admission = Banned | Full | Admitted

definition admit :: "node_config \<Rightarrow> int \<Rightarrow> peer_endpoint \<Rightarrow> nat \<Rightarrow> (disk, admission) sx" where
  "admit cfg clock endpoint active_inbound =
     bindS (peer_is_banned clock endpoint) (\<lambda>banned.
     returnS (if banned then Banned
       else if active_inbound \<ge> np_max_inbound (nc_policy cfg) then Full else Admitted))"

definition outbound_failed :: "peer_endpoint \<Rightarrow> (disk, unit) sx" where
  "outbound_failed endpoint =
     bindS (open_text peers_load) (\<lambda>records.
     bindS (edit_text (mark_failure endpoint) records) (\<lambda>_. returnS ()))"

end
