(* ===== verification/NetKeep.thy ===== *)
theory NetKeep
  imports NetMessages StorageCommit
begin

section \<open>What the handlers do to the chain's files\<close>

text \<open>
  \<open>preserves P m\<close> says that \<open>m\<close> keeps \<open>P\<close> on every exit; the rules in \<open>keep\<close> take a program
  apart. \<open>chain_paths\<close> are the files of the durable chain. The locale \<open>chain_files\<close> is what a property
  of the disk needs so that the other stores of the node cannot break it: it depends on those files
  only. Inside it every operation of the peer, ban, mempool and side-branch files is shown to keep the
  property, and with them every handler that opens no chain. The locale \<open>loadable\<close> adds that loading
  the chain keeps it, and covers all handlers that do not commit.
\<close>

named_theorems keep \<open>operations that keep a property of the state on every exit\<close>

definition preserves :: "('s \<Rightarrow> bool) \<Rightarrow> ('s, 'a) sx \<Rightarrow> bool" where
  "preserves P m \<longleftrightarrow> triple P m (\<lambda>_. P) P"

lemma preservesI: "(\<And>s r t. P s \<Longrightarrow> m s = (r, t) \<Longrightarrow> P t) \<Longrightarrow> preserves P m"
  unfolding preserves_def by (rule tripleI) blast+

lemma preservesD: "preserves P m \<Longrightarrow> P s \<Longrightarrow> m s = (r, t) \<Longrightarrow> P t"
  by (cases r) (auto simp: preserves_def dest: tripleD)

lemma keep_bind [keep]: "preserves P m \<Longrightarrow> (\<And>x. preserves P (f x)) \<Longrightarrow> preserves P (bindS m f)"
  unfolding preserves_def by (rule triple_bind)

lemma keep_try [keep]: "preserves P m \<Longrightarrow> (\<And>e. preserves P (h e)) \<Longrightarrow> preserves P (tryS m h)"
  unfolding preserves_def by (rule triple_try)

lemma keep_basic [keep]:
  "preserves P (returnS x)" "preserves P (throwS e)" "preserves P (liftS r)" "preserves P (getS f)"
  by (auto simp: preserves_def triple_def sx_defs split: sum.splits)

lemma keep_require [keep]: "preserves P (require b m)"
  by (simp add: require_def keep_basic)

lemma keep_modify: "(\<And>s. P s \<Longrightarrow> P (f s)) \<Longrightarrow> preserves P (modifyS f)"
  by (auto simp: preserves_def intro: triple_modify)

lemma keep_if [keep]: "preserves P m \<Longrightarrow> preserves P n \<Longrightarrow> preserves P (if b then m else n)"
  by simp

lemma keep_option [keep]:
  "preserves P n \<Longrightarrow> (\<And>x. preserves P (m x)) \<Longrightarrow> preserves P (case v of None \<Rightarrow> n | Some x \<Rightarrow> m x)"
  by (cases v) auto

lemma keep_sum [keep]:
  "(\<And>e. preserves P (n e)) \<Longrightarrow> (\<And>x. preserves P (m x)) \<Longrightarrow> preserves P (case v of Inl e \<Rightarrow> n e | Inr x \<Rightarrow> m x)"
  by (cases v) auto

lemma keep_prod [keep]: "(\<And>x y. preserves P (m x y)) \<Longrightarrow> preserves P (case v of (x, y) \<Rightarrow> m x y)"
  by (cases v) auto

lemma keep_list [keep]:
  "preserves P n \<Longrightarrow> (\<And>x xs. preserves P (m x xs)) \<Longrightarrow> preserves P (case v of [] \<Rightarrow> n | x # xs \<Rightarrow> m x xs)"
  by (cases v) auto

lemma keep_inventory [keep]:
  "preserves P m \<Longrightarrow> preserves P n \<Longrightarrow> preserves P (case v of InvTransaction \<Rightarrow> m | InvBlock \<Rightarrow> n)"
  by (cases v) auto

lemma keep_let [keep]: "(\<And>x. preserves P (f x)) \<Longrightarrow> preserves P (let x = v in f x)"
  by (simp add: Let_def)

lemma keep_fold [keep]: "(\<And>x. preserves P (f x)) \<Longrightarrow> preserves P (foldS f xs)"
  unfolding preserves_def by (rule triple_foldS)

subsection \<open>The files of the chain\<close>

definition chain_paths :: "string set" where
  "chain_paths = {manifest_path, blocks_path} \<union> range index_path \<union> range utxo_path"

lemma chainstate_head: "\<exists>p. manifest_path = CHR ''c'' # p" "\<exists>p. index_path g = CHR ''c'' # p"
  "\<exists>p. utxo_path g = CHR ''c'' # p"
  by (simp_all add: manifest_path_def index_path_def utxo_path_def chainstate_file_def)

definition beside :: "string \<Rightarrow> bool" where
  "beside p \<longleftrightarrow> p \<notin> chain_paths \<and> p @ ''.tmp'' \<notin> chain_paths"

lemma beside_chain: "hd p \<noteq> CHR ''c'' \<Longrightarrow> p \<noteq> [] \<Longrightarrow> take 6 p \<noteq> ''blocks'' \<Longrightarrow> 6 \<le> length p \<Longrightarrow> beside p"
proof -
  assume p: "hd p \<noteq> CHR ''c''" "p \<noteq> []" "take 6 p \<noteq> ''blocks''" "6 \<le> length p"
  have "q \<notin> chain_paths" if "hd q \<noteq> CHR ''c''" "take 6 q \<noteq> ''blocks''" for q
  proof -
    have "take 6 blocks_path = ''blocks''" by (simp add: blocks_path_def)
    moreover have "hd manifest_path = CHR ''c''" "hd (index_path g) = CHR ''c''" "hd (utxo_path g) = CHR ''c''" for g
      by (simp_all add: manifest_path_def index_path_def utxo_path_def chainstate_file_def)
    ultimately show ?thesis using that by (auto simp: chain_paths_def)
  qed
  from this [of p] this [of "p @ ''.tmp''"] p show ?thesis by (simp add: beside_def hd_append)
qed

lemma beside_paths [simp]: "beside peers_path" "beside banlist_path" "beside mempool_path" "beside branch_path"
  by (rule beside_chain; simp add: peers_path_def banlist_path_def mempool_path_def branch_path_def)+

definition same_files :: "disk \<Rightarrow> disk \<Rightarrow> bool" where
  "same_files d d' \<longleftrightarrow> (\<forall>p \<in> chain_paths. map_of (dk_files d') p = map_of (dk_files d) p)"

locale chain_files =
  fixes K :: "disk \<Rightarrow> bool"
  assumes K_ok: "K d \<Longrightarrow> disk_ok d"
    and K_same: "K d \<Longrightarrow> disk_ok d' \<Longrightarrow> same_files d d' \<Longrightarrow> K d'"
begin

lemma K_untouched: "K d \<Longrightarrow> dk_files d' = dk_files d \<Longrightarrow> K d'"
  by (rule K_same) (auto simp: same_files_def disk_ok_def dest: K_ok)

lemma keep_io [keep]: "preserves K (io_call a)" "preserves K (stream_call a)"
proof -
  have "stream_call a d = (r, d') \<Longrightarrow> dk_files d' = dk_files d" for d r d'
    by (auto simp: stream_call_def dest: io_call_files split: prod.splits sum.splits)
  then show "preserves K (stream_call a)" by (intro preservesI) (metis K_untouched)
  show "preserves K (io_call a)" by (intro preservesI) (metis K_untouched io_call_files)
qed

lemma keep_save [keep]:
  assumes "beside p"
  shows "preserves K (save_text p create checks lines)"
proof (rule preservesI)
  fix d r d' assume K: "K d" and run: "save_text p create checks lines d = (r, d')"
  have ne: "q \<in> chain_paths \<Longrightarrow> q \<noteq> p \<and> q \<noteq> p @ ''.tmp''" for q using assms by (auto simp: beside_def)
  have "disk_ok d' \<and> same_files d d'"
  proof (cases r)
    case (Inl e)
    with save_text_Inl [of p create checks lines d e d'] run K_ok [OF K] ne show ?thesis
      by (auto simp: same_files_def)
  next
    case (Inr u)
    with save_text_Inr [of p create checks lines d u d'] run K_ok [OF K] ne show ?thesis
      by (auto simp: same_files_def)
  qed
  then show "K d'" using K_same [OF K] by blast
qed

abbreviation KT :: "'b text_store \<Rightarrow> bool" where "KT s \<equiv> K (ts_disk s)"

lemma keep_on_file [keep]: "preserves K m \<Longrightarrow> preserves KT (on_file m)"
  by (rule preservesI) (auto simp: on_file_def dest: preservesD split: prod.splits)

lemma keep_items [keep]: "preserves KT (set_items xs)" "preserves KT (push_item x)"
  "preserves KT (modifyS (\<lambda>s. ts_items_update (f s) s))"
  by (auto simp: set_items_def push_item_def intro!: keep_modify)

lemma keep_load [keep]: "(\<And>l. preserves KT (body l)) \<Longrightarrow> preserves KT (load_text p g om hm body)"
  unfolding load_text_def by (intro keep)

lemma keep_text_ops [keep]:
  "preserves KT mempool_load" "preserves KT (mempool_add C t u h)" "preserves KT (mempool_revalidate C u h ids)"
  "preserves KT peers_load" "preserves KT peers_save" "preserves KT (mark_success now e sv)" "preserves KT (mark_failure e)"
  "preserves KT (bans_load clock)" "preserves KT (ban clock host n score why)"
  "preserves KT (branch_load C)" "preserves KT branch_save" "preserves KT (branch_put C b)"
  "preserves KT (branch_put_many C bs)" "preserves KT (branch_remove_active C bs)"
  "preserves KT (readmit C u h ts)"
  unfolding mempool_load_def mempool_read_line_def mempool_add_def mempool_save_def mempool_revalidate_def
    peers_load_def peers_read_line_def peers_save_def mark_success_def mark_failure_def
    bans_load_def ban_read_line_def ban_def bans_save_def
    branch_load_def branch_read_line_def branch_save_def branch_put_def branch_put_many_def branch_remove_active_def
    readmit_def
  by (intro keep beside_paths)+

subsection \<open>Connections\<close>

abbreviation KL :: "'z link_scheme \<Rightarrow> bool" where "KL s \<equiv> K (lk_disk s)"

lemma keep_on_text [keep]: "preserves KT m \<Longrightarrow> preserves K (on_text m items)"
  by (rule preservesI) (auto simp: on_text_def dest: preservesD [where s = "\<lparr> ts_items = _, ts_disk = _ \<rparr>"]
      split: prod.splits sum.splits)

lemma keep_open_text [keep]: "preserves KT m \<Longrightarrow> preserves K (open_text m)"
  "preserves KT n \<Longrightarrow> preserves K (edit_text n items)"
  unfolding open_text_def edit_text_def by (intro keep; assumption)+

lemma keep_link [keep]: "preserves K m \<Longrightarrow> preserves KL (disk_do m)" "preserves KL (socket_do k)"
  by (rule preservesI, auto simp: disk_do_def socket_do_def dest: preservesD split: prod.splits)+

lemma keep_fields [keep]: "(\<And>s. lk_disk (f s) = lk_disk s) \<Longrightarrow> preserves KL (modifyS f)"
  by (rule keep_modify) simp

lemma keep_messages [keep]:
  "preserves KL (send C c p)" "preserves KL (send_made C c r)" "preserves KL (receive C)"
  unfolding send_def send_made_def receive_def by (intro keep)+

lemma keep_handshakes [keep]:
  "preserves KL (client_handshake C now k c n)" "preserves KL (server_handshake C now k c n)"
  unfolding client_handshake_def server_handshake_def send_version_def receive_version_def receive_verack_def
  by (intro keep)+

lemma keep_answers [keep]:
  "preserves KL (answer_getaddr C N p)" "preserves KL (answer_getmempool C p)" "preserves KL (send_not_found C items)"
  "preserves KL (send_blocks_from C c h k)"
  unfolding answer_getaddr_def answer_getmempool_def send_not_found_def send_blocks_from_def
  by (intro keep)+

lemma keep_send_items [keep]: "preserves KL (send_items C blocks branches pool items missing)"
  by (induction items arbitrary: missing) (auto intro!: keep)

subsection \<open>Session steps that open no chain\<close>

lemma keep_bans [keep]: "preserves K (ban_peer policy clock e score why)" "preserves KL (ban_session cfg clock e why)"
  unfolding ban_peer_def ban_session_def by (intro keep)+

lemma keep_marks [keep]:
  "preserves KL (set_candidate cd)" "preserves KL (count_stat f)" "preserves KL count_rejected" "preserves KL count_timeout"
  "preserves KL (misbehaves n)" "preserves KL (knows_block h)" "preserves KL (knows_transaction i)"
  unfolding misbehaves_def set_candidate_def count_timeout_def count_rejected_def count_stat_def knows_block_def
    knows_transaction_def
  by (intro keep; simp)+

lemma keep_branch_step [keep]: "preserves K (keep_branch C b)" "preserves K (refresh_mempool C c gone)"
  unfolding keep_branch_def refresh_mempool_def by (intro keep)+

lemma keep_peers_step [keep]: "preserves K (save_peers records)" "preserves KL (handle_addrv2 N cfg now p)"
  unfolding save_peers_def handle_addrv2_def by (intro keep)+

lemma keep_pong [keep]: "preserves KL (handle_pong p)"
  unfolding handle_pong_def by (intro keep; simp)

lemma keep_push [keep]: "preserves KL (push_header C header)" "preserves KL (request_headers C locator)"
  unfolding push_header_def request_headers_def by (intro keep)+

lemma keep_sort [keep]: "preserves KL (sort_header C blocks branches header)"
  "preserves KL (sort_item C blocks pool branches item)"
  unfolding sort_header_def sort_item_def by (intro keep; simp)+

lemma keep_missing [keep]: "preserves KL (missing_items C blocks pool branches items)"
  by (induction items) (auto intro!: keep)

lemma keep_announce [keep]: "preserves KL (announce_transactions C ts inventory)"
  by (induction ts arbitrary: inventory) (auto intro!: keep)

lemma keep_ping [keep]: "preserves KL (send_ping C cfg env)" "preserves KL (note_message cfg env)"
  unfolding send_ping_def note_message_def by (intro keep; simp)+

lemma keep_failed [keep]: "preserves KL (turn_failed cfg env e x)"
  unfolding turn_failed_def by (cases x) (auto intro!: keep)

lemma keep_after_stop [keep]: "preserves KL (after_stop C b)"
  unfolding after_stop_def by (intro keep)

end

subsection \<open>Handlers that read the chain\<close>

locale loadable = chain_files +
  fixes C :: crypto
  assumes K_open: "preserves K (open_chain C directory)"
begin

lemma keep_load_chain [keep]: "preserves KL (load_chain C)"
  unfolding load_chain_def by (intro keep K_open)

lemma keep_candidate_sync [keep]: "preserves KL (start_candidate_sync C h tip work)"
  unfolding start_candidate_sync_def by (intro keep)

lemma keep_readers [keep]:
  "preserves KL (handle_status C p)" "preserves KL (answer_getstatus C env p)" "preserves KL (handle_inv C p)"
  "preserves KL (answer_getdata C p)" "preserves KL (handle_tx C p)" "preserves KL (collect_inventory C)"
  "preserves KL (inventory_scan C env)"
  unfolding handle_status_def answer_getstatus_def handle_inv_def answer_getdata_def handle_tx_def
    inventory_scan_def collect_inventory_def
  by (intro keep; simp)+

lemma keep_periodic [keep]: "preserves KL (periodic C cfg env e)"
  unfolding periodic_def by (intro keep)

lemma keep_first_sync [keep]: "preserves KL (sync_after_handshake C peer)"
  unfolding sync_after_handshake_def by (intro keep)

end

end
