(* ===== verification/NetSafety.thy ===== *)
theory NetSafety
  imports NetKeep ChainStore
begin

section \<open>No peer can make the node lose its chain\<close>

text \<open>
  \<open>holds C bs u d\<close>: the files load to the verified chain \<open>bs\<close> with coins \<open>u\<close>. \<open>switched C bs d\<close>: the files
  are a complete commit of another verified chain with more work. The two are \<open>chain_files\<close> properties
  and the first is \<open>loadable\<close>, so a handler that does not commit keeps it. The two places where a
  session commits, appending a block and activating a candidate, lead from \<open>holds\<close> to one of them
  whatever the peer sends and whichever disk calls fail, and nothing after them in the same turn can
  spoil it.
\<close>

definition holds :: "crypto \<Rightarrow> stored_block list \<Rightarrow> utxo_set \<Rightarrow> disk \<Rightarrow> bool" where
  "holds C bs u d \<longleftrightarrow> disk_ok d \<and> verify_blocks C bs = Inr () \<and> build_utxo_set C bs = Inr u \<and>
     (\<exists>m. read_manifest d = Inr m \<and> store_named m \<and> load_manifest_generation C d m True = Inr (bs, u))"

definition more_work :: "stored_block list \<Rightarrow> stored_block list \<Rightarrow> bool" where
  "more_work bs bs' \<longleftrightarrow> (\<exists>w w'. calculate_chainwork bs = Inr w \<and> calculate_chainwork bs' = Inr w' \<and> w < w')"

definition switched :: "crypto \<Rightarrow> stored_block list \<Rightarrow> disk \<Rightarrow> bool" where
  "switched C bs d \<longleftrightarrow> (\<exists>bs' u' g. verify_blocks C bs' = Inr () \<and> build_utxo_set C bs' = Inr u' \<and>
     more_work bs bs' \<and> committed C g bs' u' d)"

definition chain_outcome :: "crypto \<Rightarrow> stored_block list \<Rightarrow> utxo_set \<Rightarrow> disk \<Rightarrow> bool" where
  "chain_outcome C bs u d \<longleftrightarrow> holds C bs u d \<or> switched C bs d"

subsection \<open>The properties depend on the chain's files\<close>

lemma same_files_keeps:
  assumes "disk_ok d" "disk_ok d'" "same_files d d'" "F \<subseteq> chain_paths"
  shows "keeps F (map_of (dk_files d)) d'"
proof -
  have eq: "map_of (dk_files d') p = map_of (dk_files d) p" if "p \<in> chain_paths" for p
    using assms(3) that by (simp add: same_files_def)
  have b: "blocks_path \<in> chain_paths" by (simp add: chain_paths_def)
  have "kept F (map_of (dk_files d)) (map_of (dk_files d'))"
    using assms(4) eq eq [OF b] by (auto simp: kept_def content_of_def)
  moreover have "has (map_of (dk_files d')) d'" using assms(2) by (simp add: has_def)
  ultimately show ?thesis by (rule keepsI [rotated])
qed

lemma holds_keeps:
  assumes "holds C bs u d" and "read_manifest d = Inr m"
    and "keeps {manifest_path, index_path (mf_generation m), utxo_path (mf_generation m)} (map_of (dk_files d)) d'"
  shows "holds C bs u d'"
proof -
  have l: "store_named m" "load_manifest_generation C d m True = Inr (bs, u)" "disk_ok d"
    using assms(1,2) by (auto simp: holds_def)
  have "disk_ok d'" using assms(3) by (auto simp: keeps_def has_def)
  with keeps_load [OF l(3) assms(3,2) l(1,2)] assms(1) l(1) show ?thesis
    by (auto simp: holds_def)
qed

interpretation held: chain_files "holds C bs u" for C bs u
proof
  show "holds C bs u d \<Longrightarrow> disk_ok d" for d by (simp add: holds_def)
  fix d d' assume h: "holds C bs u d" and d': "disk_ok d'" "same_files d d'"
  obtain m where m: "read_manifest d = Inr m" using h by (auto simp: holds_def)
  have "disk_ok d" using h by (simp add: holds_def)
  from same_files_keeps [OF this d'] show "holds C bs u d'"
    by (intro holds_keeps [OF h m]) (auto simp: chain_paths_def)
qed

lemma committed_same_files:
  "committed C g bs u d \<Longrightarrow> disk_ok d' \<Longrightarrow> same_files d d' \<Longrightarrow> committed C g bs u d'"
  by (erule committed_step) (auto simp: has_def same_files_def generation_files_def chain_paths_def)

lemma committed_ok: "committed C g bs u d \<Longrightarrow> disk_ok d"
  by (auto simp: committed_def has_def)

interpretation outcome: chain_files "chain_outcome C bs u" for C bs u
proof
  show "chain_outcome C bs u d \<Longrightarrow> disk_ok d" for d
    by (auto simp: chain_outcome_def switched_def holds_def dest: committed_ok)
  fix d d' assume "chain_outcome C bs u d" "disk_ok d'" "same_files d d'"
  then show "chain_outcome C bs u d'"
    unfolding chain_outcome_def switched_def
    using held.K_same [of C bs u d d'] committed_same_files [of C _ _ _ d d'] by blast
qed

subsection \<open>Loading\<close>

lemma on_store_triple:
  "triple (\<lambda>s. P (st_disk s)) m (\<lambda>x s. Q x (st_disk s)) (\<lambda>s. E (st_disk s)) \<Longrightarrow>
     triple (\<lambda>c. P (chain_disk c)) (on_store m) (\<lambda>x c. Q x (chain_disk c)) (\<lambda>c. E (chain_disk c))"
  by (rule tripleI) (auto simp: on_store_def chain_disk_def split: prod.splits dest: tripleD)

lemma store_io_holds:
  "triple (\<lambda>s. holds C bs u (st_disk s)) (on_disk (io_call a)) (\<lambda>_ s. holds C bs u (st_disk s)) (\<lambda>s. holds C bs u (st_disk s))"
  using held.keep_io(1) [of C bs u a] unfolding preserves_def by (rule on_disk_triple)

lemma load_committed_holds:
  "triple (\<lambda>s. holds C bs u (st_disk s)) (load_committed C) (\<lambda>r s. holds C bs u (st_disk s) \<and> r = (bs, u)) (\<lambda>_. False)"
  by (rule tripleI)
     (auto simp: load_committed_def note_loaded_def holds_def sx_defs split: sum.splits prod.splits)

lemma store_load_holds:
  "triple (\<lambda>s. holds C bs u (st_disk s)) (store_load C) (\<lambda>r s. holds C bs u (st_disk s) \<and> r = (bs, u))
     (\<lambda>s. holds C bs u (st_disk s))"
  (is "triple ?H _ ?R _")
proof -
  have stats: "triple ?H (on_stats f) (\<lambda>_. ?H) E" for f E by (rule on_stats_triple)
  have present: "triple ?H (getS (\<lambda>s. file_exists (st_disk s) manifest_path)) (\<lambda>p s. ?H s \<and> p) ?H"
    by (rule triple_get) (auto simp: holds_def read_manifest_def read_file_bytes_def file_exists_def split: option.splits if_splits)
  have found: "triple (\<lambda>s. ?H s \<and> p)
      (if p then tryS (bindS (load_committed C) (\<lambda>r. returnS (Some r)))
          (\<lambda>_. bindS (on_stats (cs_recovered_update (\<lambda>_. True))) (\<lambda>_. returnS None))
       else bindS (on_stats (cs_recovered_update (\<lambda>_. True))) (\<lambda>_. returnS None))
      (\<lambda>f s. ?H s \<and> f = Some (bs, u)) ?H" for p
  proof (cases p)
    case True
    have "triple ?H (bindS (load_committed C) (\<lambda>r. returnS (Some r))) (\<lambda>f s. ?H s \<and> f = Some (bs, u)) (\<lambda>_. False)"
      by (rule triple_bind [OF load_committed_holds]) (rule triple_return, simp)
    from triple_try [OF this] True show ?thesis by (simp add: triple_def)
  qed (simp add: triple_def)
  show ?thesis
    unfolding store_load_def
    by (intro triple_bind [OF store_io_holds] triple_bind [OF stats] triple_bind [OF present] triple_bind [OF found])
       (auto simp: triple_def returnS_def split: option.splits)
qed

lemma holds_exists: "holds C bs u d \<Longrightarrow> store_exists d"
  by (auto simp: holds_def store_exists_def read_manifest_def read_file_bytes_def file_exists_def split: option.splits if_splits)

text \<open>The chain object after a load is the one the files hold.\<close>

abbreviation same_as :: "stored_block list \<Rightarrow> utxo_set \<Rightarrow> chain \<Rightarrow> bool" where
  "same_as bs u c \<equiv> cn_blocks c = bs \<and> cn_utxos c = u"

lemma chain_load_holds:
  "triple (\<lambda>c. holds C bs u (chain_disk c)) (chain_load C) (\<lambda>_ c. holds C bs u (chain_disk c) \<and> same_as bs u c)
     (\<lambda>c. holds C bs u (chain_disk c))"
  (is "triple ?H _ ?R _")
proof -
  have present: "triple ?H (getS (\<lambda>s. store_exists (st_disk (cn_store s)))) (\<lambda>p s. ?H s \<and> p) ?H"
    by (rule triple_get) (simp add: chain_disk_def [symmetric] holds_exists)
  have load: "triple ?H (on_store (store_load C)) (\<lambda>r c. ?H c \<and> r = (bs, u)) ?H"
    by (rule on_store_triple) (rule store_load_holds)
  have tail: "triple (\<lambda>c. ?H c \<and> r = (bs, u)) (case r of (blocks, utxos) \<Rightarrow>
       bindS (set_utxos utxos) (\<lambda>_.
       bindS (set_blocks blocks) (\<lambda>_.
       bindS (chain_verify C) (\<lambda>_.
       bindS (rebuild_utxos C) (\<lambda>rebuilt.
       if utxos = [] \<and> rebuilt \<noteq> []
       then bindS (set_utxos rebuilt) (\<lambda>_. chain_save C)
       else if \<not> utxo_sets_equal utxos rebuilt
       then throwS (RuntimeError
         ''Committed UTXO snapshot does not match the active block index; run reindex'')
       else returnS ()))))) ?R ?H" for r
    by (rule tripleI)
       (auto simp: set_utxos_def set_blocks_def chain_verify_def rebuild_utxos_def sx_defs chain_disk_def holds_def
          utxo_sets_equal_iff)
  show ?thesis
    unfolding chain_load_def
  proof (rule triple_bind [OF present])
    fix p
    from triple_bind [OF load tail]
    show "triple (\<lambda>s. ?H s \<and> p) (if \<not> p then bindS (chain_file_exists legacy_v3_path) (\<lambda>legacy.
          if legacy then migrate_legacy_v3 C
          else throwS (RuntimeError ''Durable chainstate does not exist; run init''))
        else bindS (on_store (store_load C)) (\<lambda>r. case r of (blocks, utxos) \<Rightarrow>
         bindS (set_utxos utxos) (\<lambda>_.
         bindS (set_blocks blocks) (\<lambda>_.
         bindS (chain_verify C) (\<lambda>_.
         bindS (rebuild_utxos C) (\<lambda>rebuilt.
         if utxos = [] \<and> rebuilt \<noteq> []
         then bindS (set_utxos rebuilt) (\<lambda>_. chain_save C)
         else if \<not> utxo_sets_equal utxos rebuilt
         then throwS (RuntimeError
           ''Committed UTXO snapshot does not match the active block index; run reindex'')
         else returnS ())))))) ?R ?H"
      by (cases p) (simp_all add: triple_pre triple_def [of "\<lambda>_. False"])
  qed
qed

lemma chain_initialize_holds:
  "triple (\<lambda>c. holds C bs u (chain_disk c)) (chain_initialize C) (\<lambda>_ c. holds C bs u (chain_disk c) \<and> same_as bs u c)
     (\<lambda>c. holds C bs u (chain_disk c))"
  (is "triple ?H _ ?R _")
proof -
  have present: "triple ?H (getS (\<lambda>s. store_exists (st_disk (cn_store s)))) (\<lambda>p s. ?H s \<and> p) ?H"
    by (rule triple_get) (simp add: chain_disk_def [symmetric] holds_exists)
  have io: "triple ?H (on_store (on_disk (io_call a))) (\<lambda>_. ?H) ?H" for a
    by (rule on_store_triple) (rule store_io_holds)
  have get: "triple ?H (getS cn_directory) (\<lambda>_. ?H) ?H" by (rule triple_get)
  show ?thesis
    unfolding chain_initialize_def
    apply (rule triple_bind [OF get], rule triple_if)
     apply (rule triple_throw, assumption)
    apply (rule triple_bind [OF io], rule triple_bind [OF present])
    subgoal for a p
      using chain_load_holds [of C bs u] by (cases p) (simp_all add: triple_def [of "\<lambda>_. False"])
    done
qed

lemma on_chain_triple:
  assumes "triple (\<lambda>x. P (chain_disk x) \<and> cn_blocks x = cn_blocks c \<and> cn_utxos x = cn_utxos c) m
     (\<lambda>r x. Q (r, x) (chain_disk x)) (\<lambda>x. E (chain_disk x))"
  shows "triple P (on_chain m c) Q E"
proof (rule tripleI)
  have pre: "P d \<Longrightarrow> P (chain_disk (chain_over d c)) \<and> cn_blocks (chain_over d c) = cn_blocks c \<and>
      cn_utxos (chain_over d c) = cn_utxos c" for d
    by (simp add: chain_over_def chain_disk_def)
  show "P d \<Longrightarrow> on_chain m c d = (Inr p, d') \<Longrightarrow> Q p d'" for d p d'
    using tripleD(1) [OF assms pre] by (auto simp: on_chain_def split: prod.splits sum.splits)
  show "P d \<Longrightarrow> on_chain m c d = (Inl e, d') \<Longrightarrow> E d'" for d e d'
    using tripleD(2) [OF assms pre] by (auto simp: on_chain_def split: prod.splits sum.splits)
qed

lemma on_chain_holds:
  assumes "triple (\<lambda>c. holds C bs u (chain_disk c)) m (\<lambda>_ c. holds C bs u (chain_disk c) \<and> same_as bs u c)
     (\<lambda>c. holds C bs u (chain_disk c))"
  shows "triple (holds C bs u) (bindS (on_chain m c0) (\<lambda>(_, c). returnS c)) (\<lambda>c d. holds C bs u d \<and> same_as bs u c) (holds C bs u)"
proof (rule triple_bind)
  show "triple (holds C bs u) (on_chain m c0) (\<lambda>p d. holds C bs u d \<and> same_as bs u (snd p)) (holds C bs u)"
    by (rule on_chain_triple, rule triple_conseq [OF assms]) auto
  show "triple (\<lambda>d. holds C bs u d \<and> same_as bs u (snd p)) (case p of (_, c) \<Rightarrow> returnS c)
      (\<lambda>c d. holds C bs u d \<and> same_as bs u c) (holds C bs u)" for p
    by (cases p) (auto intro: triple_return)
qed

lemma open_chain_holds:
  "triple (holds C bs u) (open_chain C directory) (\<lambda>c d. holds C bs u d \<and> same_as bs u c) (holds C bs u)"
  "triple (holds C bs u) (start_chain C directory) (\<lambda>c d. holds C bs u d \<and> same_as bs u c) (holds C bs u)"
  using on_chain_holds [OF chain_load_holds, of C bs u] on_chain_holds [OF chain_initialize_holds, of C bs u]
  by (fastforce simp: triple_def open_chain_def start_chain_def)+

interpretation held: loadable "holds C bs u" C for C bs u
  by unfold_locales (auto simp: preserves_def intro: triple_conseq [OF open_chain_holds(1)])

subsection \<open>Committing\<close>

lemma outcomeI: "holds C bs u d \<Longrightarrow> chain_outcome C bs u d" "switched C bs d \<Longrightarrow> chain_outcome C bs u d"
  by (simp_all add: chain_outcome_def)

lemma store_commit_holds:
  "triple (\<lambda>s. holds C bs u (st_disk s)) (store_commit C bs' u') (\<lambda>_ s. \<exists>g. committed C g bs' u' (st_disk s))
     (\<lambda>s. holds C bs u (st_disk s) \<or> (\<exists>g. committed C g bs' u' (st_disk s)))"
proof (rule tripleI)
  fix s r t assume h: "holds C bs u (st_disk s)" and run: "store_commit C bs' u' s = (Inr r, t)"
  have "triple (\<lambda>x. has (map_of (dk_files (st_disk s))) (st_disk x)) (store_commit C bs' u')
    (\<lambda>_ x. some_committed (\<lambda>_. True) C bs' u' (st_disk x))
    (\<lambda>x. keeps {} (map_of (dk_files (st_disk s))) (st_disk x) \<or> some_committed (\<lambda>_. True) C bs' u' (st_disk x))"
    by (rule store_commit_triple) (auto simp: free_generation_def)
  from tripleD(1) [OF this _ run] h show "\<exists>g. committed C g bs' u' (st_disk t)"
    by (auto simp: has_def some_committed_def holds_def)
next
  fix s e t assume h: "holds C bs u (st_disk s)" and run: "store_commit C bs' u' s = (Inl e, t)"
  obtain m where m: "read_manifest (st_disk s) = Inr m" "store_named m" "disk_ok (st_disk s)"
    using h by (auto simp: holds_def)
  from store_commit_throws [OF m(3) run m(1,2)] holds_keeps [OF h m(1)]
  show "holds C bs u (st_disk t) \<or> (\<exists>g. committed C g bs' u' (st_disk t))" by blast
qed

text \<open>Saving a verified chain with more work, and the two operations that do.\<close>

abbreviation over :: "crypto \<Rightarrow> stored_block list \<Rightarrow> utxo_set \<Rightarrow> chain \<Rightarrow> bool" where
  "over C bs u c \<equiv> holds C bs u (chain_disk c)"

abbreviation after :: "crypto \<Rightarrow> stored_block list \<Rightarrow> utxo_set \<Rightarrow> chain \<Rightarrow> bool" where
  "after C bs u c \<equiv> chain_outcome C bs u (chain_disk c)"

lemma verify_and_save_holds:
  assumes better: "verify_blocks C bs' = Inr () \<Longrightarrow> more_work bs bs'"
  shows "triple (\<lambda>c. over C bs u c \<and> cn_blocks c = bs') (verify_and_save C) (\<lambda>_. after C bs u) (after C bs u)"
    (is "triple ?H _ ?Q ?E")
proof -
  let ?H1 = "\<lambda>c. over C bs u c \<and> cn_blocks c = bs' \<and> verify_blocks C bs' = Inr ()"
  have v: "triple ?H (chain_verify C) (\<lambda>_. ?H1) ?E"
    by (rule tripleI) (auto simp: chain_verify_def sx_defs intro: outcomeI)
  have r: "triple ?H1 (rebuild_utxos C) (\<lambda>v c. ?H1 c \<and> build_utxo_set C bs' = Inr v) ?E"
    by (rule tripleI) (auto simp: rebuild_utxos_def sx_defs intro: outcomeI)
  have su: "triple (\<lambda>c. ?H1 c \<and> build_utxo_set C bs' = Inr v) (set_utxos v)
      (\<lambda>_ c. ?H1 c \<and> build_utxo_set C bs' = Inr v \<and> cn_utxos c = v) ?E" for v
    by (rule tripleI) (auto simp: set_utxos_def sx_defs chain_disk_def)
  have sv: "triple (\<lambda>c. ?H1 c \<and> build_utxo_set C bs' = Inr v \<and> cn_utxos c = v) (chain_save C) ?Q ?E" for v
  proof (cases "verify_blocks C bs' = Inr () \<and> build_utxo_set C bs' = Inr v")
    case True
    have out: "committed C g bs' v d \<Longrightarrow> chain_outcome C bs u d" for g d
      using True better by (intro outcomeI(2)) (auto simp: switched_def)
    have "triple (over C bs u) (on_store (store_commit C bs' v)) ?Q ?E"
      by (rule on_store_triple, rule triple_conseq [OF store_commit_holds]) (auto intro: out outcomeI)
    then show ?thesis
      by (auto simp: chain_save_def triple_def sx_defs)
  qed (auto simp: triple_def)
  show ?thesis
    unfolding verify_and_save_def by (rule triple_bind [OF v], rule triple_bind [OF r], rule triple_bind [OF su], rule sv)
qed

lemma with_rollback_triple:
  assumes "triple P m (\<lambda>_ c. Q (chain_disk c)) (\<lambda>c. E (chain_disk c))"
  shows "triple P (with_rollback m) (\<lambda>_ c. Q (chain_disk c)) (\<lambda>c. E (chain_disk c))"
  using assms
  by (fastforce simp: triple_def with_rollback_def sx_defs set_blocks_def set_utxos_def chain_disk_def
      split: prod.splits sum.splits)

lemma more_work_append:
  assumes "verify_blocks C bs = Inr ()" "verify_blocks C (bs @ new) = Inr ()" "new \<noteq> []"
  shows "more_work bs (bs @ new)"
proof -
  obtain w where w: "calculate_chainwork (bs @ new) = Inr w" using verified_chainwork [OF assms(2)] by blast
  then obtain a b where "calculate_chainwork bs = Inr a" "calculate_chainwork new = Inr b" "w = a + b"
    by (auto simp: chainwork_append)
  with w chainwork_nonneg [of new b] assms(3) show ?thesis by (auto simp: more_work_def)
qed

lemma append_blocks_holds:
  assumes "new \<noteq> []"
  shows "triple (\<lambda>c. over C bs u c \<and> same_as bs u c) (append_blocks C new) (\<lambda>_. after C bs u) (after C bs u)"
    (is "triple ?H _ ?Q ?E")
proof (rule tripleI)
  have body: "triple ?H (bindS (foldS (append_block C) new) (\<lambda>_. verify_and_save C)) ?Q ?E"
  proof (rule triple_bind)
    have step: "preserves (\<lambda>c. chain_disk c = d) (append_block C b)" for d b
      by (rule preservesI) (auto simp: append_block_def sx_defs chain_disk_def split: if_splits sum.splits)
    have memory: "foldS (append_block C) new c = (r, t) \<Longrightarrow> chain_disk t = chain_disk c" for c r t
      by (rule preservesD [where P = "\<lambda>x. chain_disk x = chain_disk c", OF keep_fold]) (rule step, simp_all)
    show "triple ?H (foldS (append_block C) new) (\<lambda>_ c. over C bs u c \<and> cn_blocks c = bs @ new) ?E"
      by (rule tripleI; frule memory) (auto dest: append_loop_Inr intro: outcomeI)
    show "triple (\<lambda>c. over C bs u c \<and> cn_blocks c = bs @ new) (verify_and_save C) ?Q ?E" for x :: unit
    proof (cases "verify_blocks C bs = Inr ()")
      case True
      show ?thesis by (rule verify_and_save_holds) (rule more_work_append [OF True _ assms])
    qed (auto simp: triple_def holds_def)
  qed
  fix c r t assume h: "?H c"
  then have ne: "cn_blocks c \<noteq> []" by (auto simp: holds_def verify_blocks_def)
  then have run: "append_blocks C new c =
      with_rollback (bindS (foldS (append_block C) new) (\<lambda>_. verify_and_save C)) c"
    using assms by (simp add: append_blocks_def run_get run_return)
  show "append_blocks C new c = (Inr r, t) \<Longrightarrow> ?Q r t"
    unfolding run by (rule tripleD(1) [OF with_rollback_triple [OF body] h])
  show "append_blocks C new c = (Inl e, t) \<Longrightarrow> ?E t" for e
    unfolding run by (rule tripleD(2) [OF with_rollback_triple [OF body] h])
qed

lemma activate_holds:
  "triple (\<lambda>c. over C bs u c \<and> same_as bs u c) (activate_if_more_work C cand) (\<lambda>_. after C bs u) (after C bs u)"
    (is "triple ?H _ ?Q ?E")
proof -
  have commit: "triple ?H (with_rollback (bindS (set_blocks cand) (\<lambda>_. verify_and_save C))) (\<lambda>_. after C bs u) ?E"
    if "calculate_chainwork bs = Inr w" "calculate_chainwork cand = Inr w'" "w < w'" for w w'
  proof (rule with_rollback_triple, rule triple_bind)
    show "triple ?H (set_blocks cand) (\<lambda>_ c. over C bs u c \<and> cn_blocks c = cand) ?E"
      by (rule tripleI) (auto simp: set_blocks_def sx_defs chain_disk_def)
    show "triple (\<lambda>c. over C bs u c \<and> cn_blocks c = cand) (verify_and_save C) (\<lambda>_. after C bs u) ?E" for x :: unit
      by (rule verify_and_save_holds) (use that in \<open>auto simp: more_work_def\<close>)
  qed
  have pure: "triple ?H (bindS (liftS r) k) ?Q ?E" if "\<And>x. r = Inr x \<Longrightarrow> triple ?H (k x) ?Q ?E" for r and k :: "'b \<Rightarrow> _"
    using that by (cases r) (auto simp: triple_def sx_defs intro: outcomeI)
  have get: "triple ?H (bindS (getS chain_tip) k) ?Q ?E" if "\<And>x. triple ?H (k x) ?Q ?E" for k
    using that by (auto simp: triple_def sx_defs)
  have blocks: "triple ?H (bindS (getS cn_blocks) k) ?Q ?E" if "triple ?H (k bs) ?Q ?E" for k
    using that by (auto simp: triple_def sx_defs)
  have exits: "triple ?H (returnS x) ?Q ?E" "triple ?H (throwS e) ?Q ?E" for x e
    by (auto intro: triple_return triple_throw outcomeI)
  have return: "triple (after C bs u) (returnS x) ?Q ?E" for x by (rule triple_return)
  show ?thesis
    unfolding activate_if_more_work_def Let_def
    apply (rule pure, rule get, rule pure, rule blocks, rule pure, rule pure, rule pure)
    apply (rule triple_if, rule exits)
    subgoal for a t b old_work new_work common
      by (cases "new_work \<le> old_work")
         (auto intro!: exits pure triple_bind [OF commit [of old_work new_work]] return)
    done
qed

subsection \<open>The two commits of a session\<close>

text \<open>\<open>leads\<close> composes: steps that keep the chain, one commit, steps that keep its outcome.\<close>

definition leads :: "('s \<Rightarrow> disk) \<Rightarrow> crypto \<Rightarrow> stored_block list \<Rightarrow> utxo_set \<Rightarrow> ('s, 'a) sx \<Rightarrow> bool" where
  "leads dk C bs u m \<longleftrightarrow>
     triple (\<lambda>s. holds C bs u (dk s)) m (\<lambda>_ s. chain_outcome C bs u (dk s)) (\<lambda>s. chain_outcome C bs u (dk s))"

lemma leads_keep: "preserves (\<lambda>s. holds C bs u (dk s)) m \<Longrightarrow> leads dk C bs u m"
  unfolding leads_def preserves_def by (erule triple_conseq) (auto intro: outcomeI)

lemma leads_bind:
  "preserves (\<lambda>s. holds C bs u (dk s)) m \<Longrightarrow> (\<And>x. leads dk C bs u (f x)) \<Longrightarrow> leads dk C bs u (bindS m f)"
  unfolding leads_def preserves_def
  by (rule triple_bind) (auto elim: triple_conseq intro: outcomeI)

lemma leads_then:
  "leads dk C bs u m \<Longrightarrow> (\<And>x. preserves (\<lambda>s. chain_outcome C bs u (dk s)) (f x)) \<Longrightarrow> leads dk C bs u (bindS m f)"
  unfolding leads_def preserves_def by (rule triple_bind)

lemma leads_try:
  "leads dk C bs u m \<Longrightarrow> (\<And>e. preserves (\<lambda>s. chain_outcome C bs u (dk s)) (h e)) \<Longrightarrow> leads dk C bs u (tryS m h)"
  unfolding leads_def preserves_def by (rule triple_try)

lemma leads_if: "leads dk C bs u m \<Longrightarrow> leads dk C bs u n \<Longrightarrow> leads dk C bs u (if b then m else n)"
  by simp

lemma leads_disk: "leads (\<lambda>d. d) C bs u m \<Longrightarrow> leads lk_disk C bs u (disk_do m)"
  by (rule leads_def [THEN iffD2], rule tripleI)
     (auto simp: leads_def disk_do_def split: prod.splits dest: tripleD)

text \<open>Opening the chain hands the held blocks to what follows.\<close>

lemma leads_open:
  assumes "\<And>c. same_as bs u c \<Longrightarrow> leads (\<lambda>d. d) C bs u (f c)"
  shows "leads (\<lambda>d. d) C bs u (bindS (open_chain C directory) f)"
  unfolding leads_def
proof (rule triple_bind)
  show "triple (holds C bs u) (open_chain C directory) (\<lambda>c d. holds C bs u d \<and> same_as bs u c) (chain_outcome C bs u)"
    by (rule triple_conseq [OF open_chain_holds(1)]) (auto intro: outcomeI)
  show "triple (\<lambda>d. holds C bs u d \<and> same_as bs u c) (f c) (\<lambda>_. chain_outcome C bs u) (chain_outcome C bs u)" for c
    by (rule triple_pure) (use assms in \<open>simp add: leads_def\<close>)
qed

lemma leads_on_chain:
  assumes "same_as bs u c" and "triple (\<lambda>x. over C bs u x \<and> same_as bs u x) m (\<lambda>_. after C bs u) (after C bs u)"
  shows "leads (\<lambda>d. d) C bs u (on_chain m c)"
  unfolding leads_def by (rule on_chain_triple) (use assms in simp)

lemma leads_place_block: "leads (\<lambda>d. d) C bs u (place_block C directory hash stored)"
  unfolding place_block_def
  apply (rule leads_open)
  apply (rule leads_bind, intro keep, rule leads_if, rule leads_keep, intro keep)
  apply (rule leads_bind, intro keep, rule leads_if)
  subgoal by (rule leads_then, rule leads_on_chain, assumption, rule append_blocks_holds)
    (simp, intro keep)
  subgoal by (rule leads_keep) (intro keep)
  done

lemma leads_activate_branch: "leads (\<lambda>d. d) C bs u (activate_branch C directory fork_height full)"
  unfolding activate_branch_def
  apply (rule leads_open)
  apply (rule leads_bind, intro keep)
  apply (rule leads_bind, intro keep)
  apply (rule leads_then, rule leads_on_chain, assumption, rule activate_holds)
  apply (intro keep)
  done

subsection \<open>Handlers, turns and sessions\<close>

lemma leads_let: "(\<And>x. leads dk C bs u (f x)) \<Longrightarrow> leads dk C bs u (let x = v in f x)"
  by (simp add: Let_def)

lemma leads_activate: "leads lk_disk C bs u (activate_candidate C)"
  unfolding activate_candidate_def
  apply (rule leads_bind, intro keep, rule leads_if, rule leads_keep, intro keep)
  apply (rule leads_bind, intro keep, rule leads_bind, intro keep)
  apply (rule leads_then, rule leads_disk, rule leads_activate_branch, intro keep)
  done

lemma leads_request_blocks: "leads lk_disk C bs u (request_candidate_blocks C)"
  unfolding request_candidate_blocks_def
  by (rule leads_bind, intro keep)+ (rule leads_if, rule leads_activate, rule leads_keep, intro keep)

lemma leads_headers: "leads lk_disk C bs u (handle_headers C payload)"
  unfolding handle_headers_def
  apply (rule leads_bind, intro keep, rule leads_if, rule leads_keep, intro keep)
  apply ((rule leads_bind, intro keep)+, rule leads_let)
  apply ((rule leads_bind, intro keep)+, rule leads_if)
  subgoal by (rule leads_bind, intro keep) (rule leads_request_blocks)
  subgoal by (rule leads_keep, intro keep)
  done

lemma leads_candidate_block: "leads lk_disk C bs u (handle_candidate_block C hash stored)"
  unfolding handle_candidate_block_def
  by (rule leads_bind, intro keep)+ (rule leads_if, rule leads_activate, rule leads_keep, intro keep)

lemma leads_block: "leads lk_disk C bs u (handle_block C payload)"
  unfolding handle_block_def
  apply ((rule leads_bind, intro keep)+, rule leads_let)
  apply ((rule leads_bind, intro keep)+, rule leads_if, rule leads_candidate_block)
  apply (rule leads_bind, intro keep)
  apply (rule leads_then, rule leads_try, rule leads_then, rule leads_disk, rule leads_place_block)
  by (intro keep)+

text \<open>Only a message without a handler lets the turn go on to its periodic work, which opens the chain.\<close>

definition never :: "'a \<Rightarrow> ('s, 'a) sx \<Rightarrow> bool" where
  "never x m \<longleftrightarrow> (\<forall>s t. m s \<noteq> (Inr x, t))"

lemma never_intros:
  "(\<And>y. never x (f y)) \<Longrightarrow> never x (bindS m f)" "y \<noteq> x \<Longrightarrow> never x (returnS y)"
  "never x k \<Longrightarrow> never x l \<Longrightarrow> never x (if b then k else l)"
  "(\<And>a b. never x (g a b)) \<Longrightarrow> never x (case p of (a, b) \<Rightarrow> g a b)"
  by (auto simp: never_def bindS_Inr returnS_def split: prod.splits)

lemma falls_through:
  "triple (\<lambda>s. holds C bs u (lk_disk s)) (handle_message C N cfg env message)
     (\<lambda>r s. if r = FallThrough then holds C bs u (lk_disk s) else chain_outcome C bs u (lk_disk s))
     (\<lambda>s. chain_outcome C bs u (lk_disk s))"
proof -
  let ?P = "\<lambda>s. holds C bs u (lk_disk s)" and ?O = "\<lambda>s. chain_outcome C bs u (lk_disk s)"
  have continues: "triple ?P m (\<lambda>r s. if r = FallThrough then ?P s else ?O s) ?O"
    if "leads lk_disk C bs u m" "never FallThrough m" for m :: "(session, next_step) sx"
    using that by (auto simp: leads_def never_def triple_def split: sum.splits)
  have falls: "triple ?P m (\<lambda>r s. if r = FallThrough then ?P s else ?O s) ?O"
    if "preserves ?P m" for m :: "(session, next_step) sx"
    using that unfolding preserves_def by (rule triple_conseq) (auto intro: outcomeI)
  have step: "leads lk_disk C bs u (bindS m (\<lambda>_. returnS x))" if "leads lk_disk C bs u m" for m :: "(session, unit) sx" and x :: next_step
    by (rule leads_then [OF that]) (intro keep)
  show ?thesis
    unfolding handle_message_def Let_def
    apply (intro triple_if)
    apply ((rule continues, rule step, rule leads_headers leads_block, (intro never_intros; rule next_step.distinct))
      | (rule continues, rule leads_keep, intro keep, (intro never_intros; rule next_step.distinct))
      | (rule falls, intro keep))+
    done
qed

lemma leads_turn: "leads lk_disk C bs u (turn C N cfg env endpoint)"
proof -
  let ?P = "\<lambda>s. holds C bs u (lk_disk s)" and ?O = "\<lambda>s. chain_outcome C bs u (lk_disk s)"
  let ?S = "\<lambda>r s. if r = FallThrough then ?P s else ?O s"
  have keeps: "triple ?P m (\<lambda>_. ?P) ?O" if "preserves ?P m" for m :: "(session, 'b) sx"
    using that unfolding preserves_def by (rule triple_conseq) (auto intro: outcomeI)
  have read: "triple ?P (read_message C N cfg env endpoint) ?S ?O"
    unfolding read_message_def
  proof (rule triple_bind [OF keeps], intro keep, rule triple_bind [OF keeps], intro keep)
    fix message too_many
    show "triple ?P (if too_many
        then bindS (count_stat (\<lambda>t. t \<lparr> ls_rate_limited_connections := ls_rate_limited_connections t + 1 \<rparr>)) (\<lambda>_.
          bindS count_rejected (\<lambda>_.
          bindS (disk_do (ban_peer (nc_policy cfg) (re_clock env) endpoint
            (np_ban_threshold (nc_policy cfg)) ''message-rate-limit'')) (\<lambda>_.
          returnS Return)))
        else handle_message C N cfg env message) ?S ?O"
      by (rule triple_if [OF triple_conseq [OF keeps] falls_through]) (intro keep, auto intro: outcomeI)
  qed
  have "triple (?S r) (case r of Continue \<Rightarrow> returnS True | Return \<Rightarrow> returnS False
      | FallThrough \<Rightarrow> periodic C cfg env endpoint) (\<lambda>_. ?O) ?O" for r
    using leads_keep [OF held.keep_periodic, of C bs u cfg env endpoint]
    by (cases r) (auto simp: leads_def intro: triple_return)
  moreover have "triple ?P (if readable then read_message C N cfg env endpoint else returnS FallThrough) ?S ?O" for readable
    by (rule triple_if [OF read triple_return]) simp
  ultimately show ?thesis
    unfolding leads_def turn_def by (intro triple_bind [OF keeps] triple_bind keep)
qed

lemma leads_round: "leads lk_disk C bs u (session_round C N cfg endpoint env)"
  unfolding session_round_def
  apply (rule leads_bind, intro keep, rule leads_if, rule leads_keep, intro keep)
  apply (rule leads_try [OF leads_turn], intro keep)
  done

lemma round_outcome:
  "session_round C N cfg endpoint env s = (r, t) \<Longrightarrow> holds C bs u (lk_disk s) \<Longrightarrow> chain_outcome C bs u (lk_disk t)"
  using leads_round [of C bs u N cfg endpoint env] by (cases r) (auto simp: leads_def dest: tripleD)

lemma rounds_outcome:
  "session_rounds C N cfg endpoint envs s = (r, t) \<Longrightarrow> holds C bs u (lk_disk s) \<Longrightarrow>
     holds C bs u (lk_disk t) \<or>
     (\<exists>k. switched C bs (lk_disk (snd (session_rounds C N cfg endpoint (take k envs) s))))"
proof (induction envs arbitrary: s)
  case (Cons env envs)
  obtain x s1 where one: "session_round C N cfg endpoint env s = (x, s1)" by (rule prod.exhaust)
  have head: "lk_disk (snd (session_rounds C N cfg endpoint (take 1 (env # envs)) s)) = lk_disk s1"
    using one by (cases x) (simp_all add: bindS_def returnS_def)
  show ?case
  proof (cases "holds C bs u (lk_disk s1)")
    case False
    with round_outcome [OF one Cons.prems(2)] head show ?thesis
      by (metis chain_outcome_def)
  next
    case True
    show ?thesis
    proof (cases "x = Inr True")
      case more: True
      have tail: "session_rounds C N cfg endpoint (env # es) s = session_rounds C N cfg endpoint es s1" for es
        using one more by (simp add: bindS_def)
      have "session_rounds C N cfg endpoint envs s1 = (r, t)" using Cons.prems(1) by (simp add: tail del: session_rounds.simps)
      from Cons.IH [OF this True] show ?thesis
        by (metis tail take_Suc_Cons)
    next
      case False
      with one Cons.prems(1) True show ?thesis
        by (cases x) (auto simp: bindS_def returnS_def)
    qed
  qed
qed (simp add: returnS_def)

text \<open>A committed better chain is held, when its records read back as they are.\<close>

lemma committed_holds:
  assumes "committed C g bs u d" "verify_blocks C bs = Inr ()" "build_utxo_set C bs = Inr u" "records_agree C d bs"
  shows "holds C bs u d"
  using committed_agrees [OF assms(1) verified_storable [OF assms(2,3)] assms(4)] assms committed_ok [OF assms(1)]
  by (auto simp: holds_def)

subsection \<open>The simple server never changes the chain\<close>

lemma server_load_holds: "preserves (\<lambda>s. holds C bs u (lk_disk s)) (server_load C)"
proof -
  have "preserves (holds C bs u) (on_chain (chain_load C) c)" for c
    unfolding preserves_def by (rule on_chain_triple, rule triple_conseq [OF chain_load_holds]) auto
  then show ?thesis unfolding server_load_def by (intro keep; simp)
qed

lemma serve_request_holds: "preserves (\<lambda>s. holds C bs u (lk_disk s)) (serve_request C N request)"
  unfolding serve_request_def Let_def by (intro keep server_load_holds)

lemma server_rounds_holds: "preserves (\<lambda>s. holds C bs u (lk_disk s)) (server_rounds C N rounds)"
proof (induction rounds)
  case (Suc rounds)
  have "preserves (\<lambda>s. holds C bs u (lk_disk s)) (case e of RuntimeError message \<Rightarrow>
      if mentions ''closed connection'' message \<or> mentions ''Resource temporarily unavailable'' message
      then returnS None else throwS e | _ \<Rightarrow> throwS e)" for e :: exn
    by (cases e) (auto intro!: keep)
  with Suc show ?case by (auto intro!: keep serve_request_holds)
qed (auto intro: keep)

lemma handle_client_holds: "preserves (\<lambda>s. holds C bs u (lk_disk s)) (handle_client C N now nonce rounds)"
proof -
  have "preserves (holds C bs u) (start_chain C directory)" for directory
    unfolding preserves_def by (rule triple_conseq [OF open_chain_holds(2)]) auto
  then show ?thesis unfolding handle_client_def by (intro keep server_rounds_holds; simp)
qed

lemma verified_hashed:
  assumes "verify_blocks C bs = Inr ()"
  shows "hashed C bs"
proof -
  obtain w where w: "verify_loop C 0 None bs [] = Inr w" using assms by (auto simp: verify_blocks_Inr)
  have "\<exists>h. block_hash C (bs ! k) = Inr h" if "k < length bs" for k
    using verify_loop_nth [OF w that] by (auto simp: sorted_keys_def meets_target_def block_hash_def hash_hex_def)
  then show ?thesis by (auto simp: hashed_def in_set_conv_nth)
qed

subsection \<open>A command field of zeros\<close>

text \<open>\<^verbatim>\<open>validate_command\<close> throws an invalid argument, which the catch of the turn does not take: such a message
  ends the session, and the peer gets no score and no ban.\<close>

lemma parse_zero_command:
  assumes "length header = 24" "take 4 header = TESTNET_MESSAGE_START" "take 12 (drop 4 header) = replicate 12 0"
  shows "parse_frame_header header = Inl (InvalidArgument ''P2P command length is invalid'')"
  using assms parse_command_padding [of 12 False "[]"]
  by (simp add: parse_frame_header_def COMMAND_SIZE_def validate_command_def)

lemma malformed_command:
  assumes f: "flowing (so_recv (lk_socket s))" "nonempty_parts (so_recv (lk_socket s))"
    and a: "arriving (so_recv (lk_socket s)) = header @ rest"
    and h: "length header = 24" "take 4 header = TESTNET_MESSAGE_START" "take 12 (drop 4 header) = replicate 12 0"
    and r: "re_readable env = Inr True" and o: "\<not> over_threshold cfg s"
  shows "\<exists>k. session_round C N cfg endpoint env s =
    (Inl (InvalidArgument ''P2P command length is invalid''), s \<lparr> lk_socket := k \<rparr>)"
proof -
  obtain k where k: "receive_exact (length header) (lk_socket s) = (Inr header, k)"
    using receive_exact_flows [OF f a] by blast
  have "receive C s = (Inl (InvalidArgument ''P2P command length is invalid''), s \<lparr> lk_socket := k \<rparr>)"
    using k h(1) by (simp add: receive_def socket_do_def receive_message_def MESSAGE_HEADER_SIZE_def
        run_bind [where m = "receive_exact 24"] parse_zero_command [OF h]) (simp add: bindS_def liftS_def)
  then have "turn C N cfg env endpoint s = (Inl (InvalidArgument ''P2P command length is invalid''), s \<lparr> lk_socket := k \<rparr>)"
    by (simp add: turn_def r read_message_def bindS_def liftS_def)
  then show ?thesis
    using o by (intro exI [of _ k]) (simp add: session_round_def run_get tryS_def turn_failed_def throwS_def)
qed

end
