(* ===== verification/CommandSafety.thy ===== *)
theory CommandSafety
  imports Commands NetSafety
begin

section \<open>What the RPC commands can do to the node\<close>

text \<open>
  The wallet's files are beside those of the chain, so inside \<open>chain_files\<close> every wallet operation keeps the
  property, and every command but the two that mine keeps the loadable chain. Mining replaces it by a complete commit of
  a verified chain with more work.
\<close>

subsection \<open>The wallet keeps the chain's files\<close>

lemma beside_wallet [simp]: "beside wallet_path"
  by (rule beside_chain) (simp_all add: wallet_path_def)

context chain_files
begin

abbreviation KW :: "wallet \<Rightarrow> bool" where "KW w \<equiv> K (wl_disk w)"

lemma keep_wallet_disk [keep]: "preserves K m \<Longrightarrow> preserves KW (on_wallet_disk m)"
  by (rule preservesI) (auto simp: on_wallet_disk_def dest: preservesD split: prod.splits)

lemma keep_wallet_fields [keep]: "(\<And>w. wl_disk (f w) = wl_disk w) \<Longrightarrow> preserves KW (modifyS f)"
  by (rule keep_modify) simp

lemma keep_wallet_save [keep]: "preserves KW save_hd" "preserves KW clear_cache" "preserves KW (set_hd_entropy C Kf e)"
  unfolding save_hd_def clear_cache_def set_hd_entropy_def by (intro keep beside_wallet; simp)+

lemma keep_wallet_load [keep]: "preserves KW (load_wallet C Kf)"
  unfolding load_wallet_def load_hd_file_def load_legacy_file_def wallet_input_def by (intro keep; simp)

lemma keep_wallet_address [keep]: "preserves KW (get_new_address C Kf)"
  unfolding get_new_address_def by (intro keep; simp)

lemma keep_wallet_keys [keep]: "preserves KW (key_for_script C Kf script)" "preserves KW (owns_script C Kf script)"
  unfolding owns_script_def key_for_script_def rebuild_owned_cache_def cache_index_def cache_key_def by (intro keep; simp)+

lemma keep_wallet_loops [keep]:
  "preserves KW (balance_loop C Kf h utxos b)" "preserves KW (available_coins C Kf h utxos)"
  "preserves KW (unspent_loop C Kf D A h tip utxos result)"
proof -
  show "preserves KW (balance_loop C Kf h utxos b)" by (induction utxos arbitrary: b) (auto intro!: keep)
  show "preserves KW (available_coins C Kf h utxos)" by (induction utxos) (auto intro!: keep)
  show "preserves KW (unspent_loop C Kf D A h tip utxos result)" by (induction utxos arbitrary: result) (auto intro!: keep)
qed

lemma keep_wallet_payment [keep]: "preserves KW (create_payment C Kf utxos h dest amount rate)"
  "preserves KW (wallet_balance_of C Kf utxos h)"
  unfolding create_payment_def wallet_balance_of_def by (intro keep)+

subsection \<open>Through the manager\<close>

abbreviation KM :: "manager \<Rightarrow> bool" where "KM s \<equiv> K (fst s)"

lemma keep_backend [keep]:
  assumes "preserves KW m"
  shows "preserves K (on_manager (on_backend m) backend)"
proof (rule preservesI)
  fix d r t assume d: "K d" and run: "on_manager (on_backend m) backend d = (r, t)"
  show "K t"
  proof (cases backend)
    case None
    then show ?thesis using d run by (auto simp: on_manager_def on_backend_def)
  next
    case (Some w)
    obtain x w' where x: "m (w \<lparr> wl_disk := d \<rparr>) = (x, w')" by fastforce
    have "K (wl_disk w')" using preservesD [OF assms _ x] d by simp
    then show ?thesis using run x Some by (auto simp: on_manager_def on_backend_def split: sum.splits)
  qed
qed

lemma keep_manager_load [keep]: "preserves K (on_manager (manager_load C Kf) None)"
proof (rule preservesI)
  fix d r t assume d: "K d" and run: "on_manager (manager_load C Kf) None d = (r, t)"
  obtain x w where x: "load_wallet C Kf (new_wallet d) = (x, w)" by fastforce
  have "K (wl_disk w)" using preservesD [OF keep_wallet_load _ x] d by (simp add: new_wallet_def)
  then show "K t"
    using run x by (auto simp: on_manager_def manager_load_def select_backend_def is_hd_name_def on_backend_def bindS_def modifyS_def
        split: sum.splits)
qed

lemma keep_open_manager [keep]: "preserves K (open_manager C Kf)"
  unfolding open_manager_def by (intro keep)

lemma keep_wallet_do [keep]: "preserves KW m \<Longrightarrow> preserves K (wallet_do m sp)"
  unfolding wallet_do_def by (intro keep; assumption)

lemma keep_mempool_clear [keep]: "preserves KT mempool_clear"
  unfolding mempool_clear_def mempool_save_def by (intro keep beside_paths)

lemma keep_wallet_commands [keep]:
  "preserves K (wallet_info C Kf D A params sp)" "preserves K (balance_command C Kf D A params sp)"
  "preserves K (new_address_command C Kf params sp)" "preserves K (unspent_command C Kf D A params sp)"
  "preserves K (send_command C Kf D A params sp)" "preserves K (mempool_command C D A name params)"
  unfolding wallet_info_def balance_command_def new_address_command_def unspent_command_def send_command_def mempool_command_def
  by (intro keep)+

end

subsection \<open>Commands that read the chain\<close>

context loadable
begin

lemma keep_spending [keep]: "preserves K (open_spending C Kf directory)"
  unfolding open_spending_def by (intro keep K_open)

lemma keep_chain_command [keep]: "preserves K (chain_command C D A name params directory)"
  unfolding chain_command_def by (intro keep K_open)

end

subsection \<open>Mining\<close>

definition mined :: "crypto \<Rightarrow> stored_block list \<Rightarrow> nat \<Rightarrow> transaction list \<Rightarrow> stored_block list \<Rightarrow> utxo_set \<Rightarrow> disk \<Rightarrow> bool" where
  "mined C bs n pending bs' u' d \<longleftrightarrow> (\<exists>new g. bs' = bs @ new \<and> length new = n \<and>
     map (\<lambda>b. tl (b_transactions (sb_block b))) new = map (\<lambda>i. if i = 0 then pending else []) [0..<n] \<and>
     verify_blocks C bs' = Inr () \<and> build_utxo_set C bs' = Inr u' \<and> committed C g bs' u' d)"

lemma mined_switched:
  assumes "mined C bs n pending bs' u' d" and "verify_blocks C bs = Inr ()" and "n \<noteq> 0"
  shows "switched C bs d"
proof -
  obtain new g where new: "bs' = bs @ new" "new \<noteq> []" "verify_blocks C bs' = Inr ()" "build_utxo_set C bs' = Inr u'"
    "committed C g bs' u' d" using assms(1,3) by (auto simp: mined_def)
  then show ?thesis using more_work_append [OF assms(2), of new] by (auto simp: switched_def)
qed

lemma generate_block_disk: "preserves (\<lambda>c. chain_disk c = d) (generate_block C now script ts u)"
  by (rule preservesI)
     (auto simp: generate_block_def sx_defs chain_disk_def Let_def split: sum.splits prod.splits)

lemma generate_loop_disk: "preserves (\<lambda>c. chain_disk c = d) (generate_loop C clock script pending k n u)"
  by (induction n arbitrary: k u) (auto intro!: keep_bind keep_basic generate_block_disk)

lemma chain_save_commits:
  assumes "verify_blocks C bs = Inr ()"
    and m: "\<And>g d. committed C g bs' u' d \<Longrightarrow> mined C bs n pending bs' u' d" and "n \<noteq> 0"
  shows "triple (\<lambda>c. over C bs u c \<and> cn_blocks c = bs' \<and> cn_utxos c = u') (chain_save C)
    (\<lambda>_ c. mined C bs n pending bs' u' (chain_disk c)) (after C bs u)"
proof -
  have "triple (over C bs u) (on_store (store_commit C bs' u')) (\<lambda>_ c. mined C bs n pending bs' u' (chain_disk c)) (after C bs u)"
    by (rule on_store_triple, rule triple_conseq [OF store_commit_holds])
       (auto intro: outcomeI(1) outcomeI(2) [OF mined_switched [OF m assms(1,3)]] m)
  then show ?thesis by (auto simp: chain_save_def triple_def sx_defs)
qed

lemma chain_generate_holds:
  assumes n: "unat count \<noteq> 0"
  shows "triple (\<lambda>c. over C bs u c \<and> same_as bs u c) (chain_generate C clock count script pending)
    (\<lambda>_ c. mined C bs (unat count) pending (cn_blocks c) (cn_utxos c) (chain_disk c)) (after C bs u)"
proof (rule tripleI)
  fix c r t assume h: "over C bs u c \<and> same_as bs u c" and run: "chain_generate C clock count script pending c = (Inr r, t)"
  have v: "verify_blocks C bs = Inr ()" "build_utxo_set C bs = Inr u" "bs \<noteq> []" using h by (auto simp: holds_def verify_blocks_def)
  obtain w m where l: "generate_loop C clock script pending 0 (unat count) u c = (Inr w, m)"
    and ver: "verify_blocks C (cn_blocks m) = Inr ()" and sv: "chain_save C (m \<lparr> cn_utxos := w \<rparr>) = (Inr (), t)"
    using run h v(3)
    by (auto simp: chain_generate_def bindS_Inr getS_def returnS_def chain_verify_def liftS_def set_utxos_def modifyS_def)
  obtain new where new: "cn_blocks m = bs @ new" "length new = unat count" "build_utxo_set C (cn_blocks m) = Inr w"
    "map (\<lambda>b. tl (b_transactions (sb_block b))) new = map (\<lambda>i. if i = 0 then pending else []) [0..<unat count]"
    using generate_loop_Inr [OF l] h v(2,3) by auto
  have d: "chain_disk m = chain_disk c" by (rule preservesD [OF generate_loop_disk _ l]) simp
  have mi: "committed C g (cn_blocks m) w d \<Longrightarrow> mined C bs (unat count) pending (cn_blocks m) w d" for g d
    using new ver unfolding mined_def by blast
  have "mined C bs (unat count) pending (cn_blocks m) w (chain_disk t)"
    by (rule tripleD(1) [OF chain_save_commits [where u = u, OF v(1) mi n] _ sv])
       (use h d in \<open>simp_all add: chain_disk_def\<close>)
  moreover have "same_memory t (m \<lparr> cn_utxos := w \<rparr>)" using sv by (rule chain_save_memory)
  ultimately show "mined C bs (unat count) pending (cn_blocks t) (cn_utxos t) (chain_disk t)" by (simp add: same_memory_def)
next
  fix c e t assume h: "over C bs u c \<and> same_as bs u c" and run: "chain_generate C clock count script pending c = (Inl e, t)"
  have v: "verify_blocks C bs = Inr ()" "build_utxo_set C bs = Inr u" "bs \<noteq> []" using h by (auto simp: holds_def verify_blocks_def)
  obtain x m where l: "generate_loop C clock script pending 0 (unat count) u c = (x, m)" by fastforce
  have d: "chain_disk m = chain_disk c" by (rule preservesD [OF generate_loop_disk _ l]) simp
  show "after C bs u t"
  proof (cases "\<exists>w. x = Inr w \<and> verify_blocks C (cn_blocks m) = Inr ()")
    case False
    then have "chain_disk t = chain_disk m"
      using run h v(3) l
      by (cases x; cases "verify_blocks C (cn_blocks m)")
         (auto simp: chain_generate_def bindS_def getS_def returnS_def chain_verify_def liftS_def)
    then show ?thesis using h d by (auto intro: outcomeI)
  next
    case True
    then obtain w where w: "x = Inr w" "verify_blocks C (cn_blocks m) = Inr ()" by blast
    then have sv: "chain_save C (m \<lparr> cn_utxos := w \<rparr>) = (Inl e, t)"
      using run h v(3) l
      by (auto simp: chain_generate_def bindS_def getS_def returnS_def chain_verify_def liftS_def set_utxos_def modifyS_def)
    obtain new where new: "cn_blocks m = bs @ new" "length new = unat count" "build_utxo_set C (cn_blocks m) = Inr w"
      "map (\<lambda>b. tl (b_transactions (sb_block b))) new = map (\<lambda>i. if i = 0 then pending else []) [0..<unat count]"
      using generate_loop_Inr [OF l [unfolded w(1)]] h v(2,3) by auto
    have mi: "committed C g (cn_blocks m) w d \<Longrightarrow> mined C bs (unat count) pending (cn_blocks m) w d" for g d
      using new w(2) unfolding mined_def by blast
    show ?thesis
      by (rule tripleD(2) [OF chain_save_commits [where u = u, OF v(1) mi n] _ sv])
         (use h d in \<open>simp_all add: chain_disk_def\<close>)
  qed
qed

subsection \<open>The commands on the node's chain\<close>

lemma leads_if_cond:
  "(b \<Longrightarrow> leads dk C bs u m) \<Longrightarrow> (\<not> b \<Longrightarrow> leads dk C bs u n) \<Longrightarrow> leads dk C bs u (if b then m else n)"
  by simp

text \<open>What opening the objects of a wallet command establishes.\<close>

definition spending_ok :: "crypto \<Rightarrow> stored_block list \<Rightarrow> utxo_set \<Rightarrow> spending \<Rightarrow> bool" where
  "spending_ok C bs u sp \<longleftrightarrow> same_as bs u (sp_chain sp) \<and> tip_height (sp_chain sp) = Inr (sp_height sp - 1) \<and>
     effective_utxos C (sp_pool sp) u (sp_height sp) = Inr (sp_utxos sp)"

lemma open_spending_holds:
  "triple (holds C bs u) (open_spending C Kf directory) (\<lambda>sp d. holds C bs u d \<and> spending_ok C bs u sp) (holds C bs u)"
proof (rule tripleI)
  fix d sp d' assume h: "holds C bs u d" and run: "open_spending C Kf directory d = (Inr sp, d')"
  obtain c d1 where c: "open_chain C directory d = (Inr c, d1)" using run by (auto simp: open_spending_def bindS_Inr)
  have "same_as bs u c" using tripleD(1) [OF open_chain_holds(1) h c] by blast
  then have "spending_ok C bs u sp" using run c by (auto simp: open_spending_def spending_ok_def bindS_Inr liftS_def returnS_def)
  then show "holds C bs u d' \<and> spending_ok C bs u sp" using preservesD [OF held.keep_spending h run] by blast
qed (rule preservesD [OF held.keep_spending])

lemma leads_spending:
  assumes "\<And>sp. spending_ok C bs u sp \<Longrightarrow> leads (\<lambda>d. d) C bs u (f sp)"
  shows "leads (\<lambda>d. d) C bs u (bindS (open_spending C Kf directory) f)"
  unfolding leads_def
proof (rule triple_bind)
  show "triple (holds C bs u) (open_spending C Kf directory) (\<lambda>sp d. holds C bs u d \<and> spending_ok C bs u sp) (chain_outcome C bs u)"
    by (rule triple_conseq [OF open_spending_holds]) (auto intro: outcomeI)
  show "triple (\<lambda>d. holds C bs u d \<and> spending_ok C bs u sp) (f sp) (\<lambda>_. chain_outcome C bs u) (chain_outcome C bs u)" for sp
    by (rule triple_pure) (use assms in \<open>simp add: leads_def\<close>)
qed

lemma outcome_of_mined: "holds C bs u d0 \<Longrightarrow> mined C bs n pending bs' u' d \<Longrightarrow> n \<noteq> 0 \<Longrightarrow> chain_outcome C bs u d"
  by (rule outcomeI(2), erule mined_switched) (auto simp: holds_def)

lemma leads_generate:
  assumes "spending_ok C bs u sp"
  shows "leads (\<lambda>d. d) C bs u (generate_command C Kf D clock name params sp)"
proof -
  have same: "same_as bs u (sp_chain sp)" using assms by (simp add: spending_ok_def)
  have g: "leads (\<lambda>d. d) C bs u (on_chain (chain_generate C clock (word_of_int k) script (sp_pool sp)) (sp_chain sp))"
    if "0 < k" "k \<le> 100000" for k script
  proof (cases "verify_blocks C bs = Inr ()")
    case True
    have "unat (word_of_int k :: u64) = nat k" using that by (simp add: unat_eq_nat_uint uint_word_of_int)
    then have n: "unat (word_of_int k :: u64) \<noteq> 0" using that by simp
    show ?thesis
      by (rule leads_on_chain [OF same], rule triple_conseq [OF chain_generate_holds [OF n]])
         (auto intro: outcomeI(2) mined_switched [OF _ True n])
  qed (auto simp: leads_def triple_def holds_def)
  show ?thesis
    unfolding generate_command_def
    apply (rule leads_bind, intro keep)
    apply (rule leads_bind, intro keep)
    apply (rule leads_if_cond)
    subgoal by (rule leads_keep, intro keep)
    apply (rule leads_bind, intro held.keep_wallet_do keep)
    apply (rule leads_bind, intro keep)
    apply (rule leads_then, rule g; simp)
    apply (intro keep outcome.keep_open_text outcome.keep_mempool_clear)
    done
qed

lemma leads_wallet_command: "leads (\<lambda>d. d) C bs u (wallet_command C Kf D A env name params directory)"
  unfolding wallet_command_def
  by (rule leads_spending, intro leads_if leads_generate; (assumption | rule leads_keep, rule held.keep_wallet_commands))

lemma wallet_command_keeps:
  assumes "name \<notin> {''generate'', ''generatetoaddress''}" and "name \<in> set WALLET_COMMANDS"
  shows "preserves (holds C bs u) (wallet_command C Kf D A env name params directory)"
proof -
  have "name = ''getwalletinfo'' \<or> name = ''getbalance'' \<or> name = ''getnewaddress'' \<or> name = ''listunspent'' \<or> name = ''sendtoaddress''"
    using assms by (simp add: WALLET_COMMANDS_def)
  then show ?thesis
    by (elim disjE; simp add: wallet_command_def keep_bind held.keep_spending held.keep_wallet_commands)
qed

lemma node_disk_keeps: "preserves P m \<Longrightarrow> preserves (\<lambda>s. P (rn_disk s)) (node_disk m)"
  by (rule preservesI) (auto simp: node_disk_def dest: preservesD split: prod.splits)

lemma node_disk_leads: "leads (\<lambda>d. d) C bs u m \<Longrightarrow> leads rn_disk C bs u (node_disk m)"
  unfolding leads_def node_disk_def by (rule tripleI) (auto split: prod.splits dest: tripleD)

lemma disk_fields: "(\<And>s. rn_disk (f s) = rn_disk s) \<Longrightarrow> preserves (\<lambda>s. P (rn_disk s)) (modifyS f)"
  by (rule keep_modify) simp

lemma control_keeps:
  "preserves (\<lambda>s. P (rn_disk s)) (stop_command params)" "preserves (\<lambda>s. P (rn_disk s)) (logging_command params)"
  unfolding stop_command_def logging_command_def by (intro keep disk_fields; simp)+

lemma reading_keeps:
  "preserves (\<lambda>s. holds C bs u (rn_disk s)) (node_disk (chain_command C D A name params directory))"
  "preserves (\<lambda>s. holds C bs u (rn_disk s)) (node_disk (mempool_command C D A name params))"
  by (rule node_disk_keeps, rule held.keep_chain_command held.keep_wallet_commands)+

lemmas command_keeps = keep control_keeps [where P = "holds C bs u" for C bs u] reading_keeps

lemma dispatch_leads: "leads rn_disk C bs u (dispatch C Kf D A env name params)"
  unfolding dispatch_def
  apply (rule leads_bind, intro keep)
  apply (rule leads_if, rule leads_keep, intro command_keeps)+
  apply (rule leads_if, rule node_disk_leads, rule leads_wallet_command)
  by (rule leads_keep, intro keep)

lemma dispatch_keeps:
  assumes "name \<notin> {''generate'', ''generatetoaddress''}"
  shows "preserves (\<lambda>s. holds C bs u (rn_disk s)) (dispatch C Kf D A env name params)"
proof (cases "name \<in> set WALLET_COMMANDS")
  case True
  have "dispatch C Kf D A env name params s = bindS (getS rn_directory) (\<lambda>directory.
      node_disk (wallet_command C Kf D A env name params directory)) s" for s
    using True by (auto simp: dispatch_def WALLET_COMMANDS_def CHAIN_COMMANDS_def)
  then show ?thesis
    using keep_bind [OF keep_basic(4) node_disk_keeps [OF wallet_command_keeps [OF assms True]]]
    unfolding preserves_def triple_def by simp
next
  case False
  then show ?thesis
    unfolding dispatch_def if_not_P [OF False] by (intro command_keeps)
qed

lemma command_handler_result:
  "command_handler C Kf D A env q s = (r, t) \<longleftrightarrow>
     (\<exists>x. dispatch C Kf D A env (rq_method q) (rq_params q) s = (x, t) \<and> r = map_sum handler_error id x)"
  by (auto simp: command_handler_def tryS_def throwS_def split: prod.splits sum.splits)

lemma command_handler_Inr:
  "command_handler C Kf D A env q s = (Inr v, t) \<longleftrightarrow> dispatch C Kf D A env (rq_method q) (rq_params q) s = (Inr v, t)"
  by (auto simp: command_handler_def tryS_def throwS_def split: prod.splits sum.splits)

text \<open>No command takes the chain away, and only mining replaces it.\<close>

lemma command_outcome:
  assumes "holds C bs u (rn_disk s)" and "command_handler C Kf D A env q s = (r, t)"
  shows "chain_outcome C bs u (rn_disk t)"
    and "rq_method q \<notin> {''generate'', ''generatetoaddress''} \<Longrightarrow> holds C bs u (rn_disk t)"
proof -
  obtain x where x: "dispatch C Kf D A env (rq_method q) (rq_params q) s = (x, t)" using assms(2) by (auto simp: command_handler_result)
  show "chain_outcome C bs u (rn_disk t)"
    using dispatch_leads [of C bs u Kf D A env "rq_method q" "rq_params q"] assms(1) x unfolding leads_def
    by (cases x) (auto dest: tripleD)
  show "rq_method q \<notin> {''generate'', ''generatetoaddress''} \<Longrightarrow> holds C bs u (rn_disk t)"
    using preservesD [OF dispatch_keeps assms(1) x] by blast
qed

subsection \<open>Errors and the other fields\<close>

lemma command_error: "command_handler C Kf D A env q s = (Inl e, t) \<Longrightarrow> \<exists>code message. e = RpcError code message"
proof -
  have "\<exists>code message. handler_error x = RpcError code message" for x by (cases x) (simp_all add: handler_error_def)
  then show "command_handler C Kf D A env q s = (Inl e, t) \<Longrightarrow> ?thesis"
    by (auto simp: command_handler_def tryS_def throwS_def split: prod.splits sum.splits)
qed

lemma node_disk_eq: "node_disk m s = (r, t) \<longleftrightarrow> (\<exists>d. m (rn_disk s) = (r, d) \<and> t = s \<lparr> rn_disk := d \<rparr>)"
  by (auto simp: node_disk_def split: prod.splits)

lemma command_fields:
  assumes "command_handler C Kf D A env q s = (r, t)"
  shows "t = s \<lparr> rn_disk := rn_disk t, rn_stop := rn_stop s \<or> (rq_method q = ''stop'' \<and> rq_params q = []),
      rn_categories := rn_categories t \<rparr> \<and>
    (rq_method q \<noteq> ''logging'' \<longrightarrow> rn_categories t = rn_categories s)"
proof -
  obtain x where x: "dispatch C Kf D A env (rq_method q) (rq_params q) s = (x, t)" using assms by (auto simp: command_handler_result)
  then show ?thesis
    by (auto simp: dispatch_def bindS_def getS_def liftS_def returnS_def throwS_def modifyS_def stop_command_def logging_command_def
        require_params_def node_disk_eq split: if_splits sum.splits)
qed

end
