(* ===== verification/PaymentLaws.thy ===== *)
theory PaymentLaws
  imports Wallet
begin

section \<open>A payment the wallet makes is accepted by the ledger\<close>

text \<open>
  \<open>apply_ok\<close> is the converse of \<open>apply_transaction_Inr\<close>: a transaction that satisfies the rules applies.
  \<open>payment_applies\<close>: what \<open>create_payment\<close> returns satisfies them over the coins it was given, pays exactly
  the amount, and leaves the reserved fee, which covers its size.
\<close>

subsection \<open>Applying succeeds\<close>

lemma check_inputs_ok:
  assumes "list_all2 (may_spend C t h u) is cs" and "distinct (map (\<lambda>i. ti_previous_output (tx_inputs t ! i)) is)"
    and "set (map (\<lambda>i. ti_previous_output (tx_inputs t ! i)) is) \<inter> seen = {}"
    and "\<forall>k \<le> length cs. acc + sum_list (map coin_value (take k cs)) \<le> MAX_MONEY"
  shows "\<exists>seen'. foldE (check_input C t h u) is (seen, acc) = Inr (seen', acc + sum_list (map coin_value cs))"
  using assms
proof (induction "is" cs arbitrary: seen acc rule: list_all2_induct)
  case (Cons i "is" c cs)
  let ?p = "ti_previous_output (tx_inputs t ! i)"
  have "acc + coin_value c \<le> MAX_MONEY" using Cons.prems(3) [rule_format, of 1] by simp
  then have "check_input C t h u i (seen, acc) = Inr (insert ?p seen, acc + coin_value c)"
    using Cons.hyps(1) Cons.prems(2) by (auto simp: check_input_Inr intro!: exI [of _ c])
  moreover have "\<forall>k \<le> length cs. acc + coin_value c + sum_list (map coin_value (take k cs)) \<le> MAX_MONEY"
    using Cons.prems(3) by (auto simp: add.assoc dest: spec [of _ "Suc _"])
  then have "\<exists>seen'. foldE (check_input C t h u) is (insert ?p seen, acc + coin_value c) =
      Inr (seen', acc + coin_value c + sum_list (map coin_value cs))"
    using Cons.prems(1,2) by (intro Cons.IH) auto
  ultimately show ?case by (simp add: add.assoc)
qed simp

lemma add_outputs_ok:
  assumes "sorted_keys u" and "k + length outs \<le> 2 ^ 32" and "\<forall>p \<in> fst ` set (new_entries s h cb k outs). map_of u p = None"
  shows "\<exists>u'. add_outputs s h cb msg k outs u = (Inr (), u')"
  using assms
proof (induction outs arbitrary: k u)
  case (Cons out outs)
  let ?p = "OutPoint s (word_of_nat k)"
  let ?u = "map_emplace ?p (new_coin h cb out) u"
  have none: "map_of u ?p = None" using Cons.prems(3) by simp
  have d: "distinct (map fst (new_entries s h cb k (out # outs)))" by (rule new_entries_distinct [OF Cons.prems(2)])
  have "map_of ?u p = None" if "p \<in> fst ` set (new_entries s h cb (Suc k) outs)" for p
  proof -
    have "p \<in> fst ` set (new_entries s h cb k (out # outs))" using that by simp
    moreover have "p \<noteq> ?p" using that d by (auto simp del: set_map simp: set_map [symmetric])
    ultimately show ?thesis using bspec [OF Cons.prems(3)] Cons.prems(1) by (simp add: map_of_emplace)
  qed
  then obtain u' where "add_outputs s h cb msg (Suc k) outs ?u = (Inr (), u')"
    using Cons.IH [of ?u "Suc k"] Cons.prems(1,2) by auto
  with none show ?case by (simp add: sx_defs map_contains_def new_coin_def)
qed (simp add: returnS_def)

lemma apply_ok:
  assumes "valid_transaction t" and "\<not> is_coinbase t" and "distinct (prevs t)" and "sorted_keys u"
    and cs: "list_all2 (may_spend C t h u) [0..<length (tx_inputs t)] cs"
    and sums: "\<forall>k \<le> length cs. sum_list (map coin_value (take k cs)) \<le> MAX_MONEY"
    and le: "total_value (tx_outputs t) \<le> sum_list (map coin_value cs)"
    and s: "txid C t = Inr s" and fresh: "\<And>i. map_of u (OutPoint s i) = None"
  shows "\<exists>u'. apply_transaction C t h u = (Inr (sum_list (map coin_value cs) - total_value (tx_outputs t)), u')"
proof -
  obtain seen where chk: "foldE (check_input C t h u) [0..<length (tx_inputs t)] ({}, 0) = Inr (seen, sum_list (map coin_value cs))"
    using check_inputs_ok [OF cs, of "{}" 0] assms(3) sums unfolding prevs_upt by auto
  have v: "validate_transaction_structure t = Inr ()" using assms(1) by (simp add: validate_Inr)
  have outs: "sum_outputs t = Inr (total_value (tx_outputs t))"
    using assms(1) by (auto simp: sum_outputs_Inr valid_transaction_def valid_output_def list_all_iff)
  have sorted: "sorted_keys (std.del_all (prevs t) u)" using assms(4) by (rule std.inv_del_all)
  have "map_of (std.del_all (prevs t) u) (OutPoint s i) = None" for i
    using fresh assms(4) by (simp add: std.find_del_all restrict_map_def)
  then have "\<forall>p \<in> fst ` set (new_entries s h False 0 (tx_outputs t)). map_of (std.del_all (prevs t) u) p = None"
  proof -
    assume none: "\<And>i. map_of (std.del_all (prevs t) u) (OutPoint s i) = None"
    have "\<exists>i. p = OutPoint s i" if "p \<in> fst ` set (new_entries s h False 0 (tx_outputs t))" for p
      using that unfolding new_entries_key by blast
    with none show ?thesis by metis
  qed
  from add_outputs_ok [OF sorted _ this, of "''Duplicate transaction output identifier''"] valid_outputs_32 [OF assms(1)]
  obtain u' where add: "add_outputs s h False ''Duplicate transaction output identifier'' 0 (tx_outputs t)
      (std.del_all (prevs t) u) = (Inr (), u')" by auto
  show ?thesis
    using assms(2) le v chk outs s add
    by (simp add: apply_transaction_def sx_defs Let_def foldl_erase_prevs prevs_def)
qed

subsection \<open>Collecting and selecting coins\<close>

lemma available_spec:
  assumes "available_coins C K h utxos w = (Inr as, w')"
  shows "set (map (\<lambda>a. (av_outpoint a, av_coin a)) as) \<subseteq> set utxos \<and>
    (distinct (map fst utxos) \<longrightarrow> distinct (map av_outpoint as)) \<and>
    (\<forall>a \<in> set as. \<not> (coin_coinbase (av_coin a) \<and> h < coin_height (av_coin a) + ucast COINBASE_MATURITY))"
  using assms
proof (induction utxos arbitrary: w w' as)
  case Nil
  then show ?case by (simp add: returnS_def)
next
  case (Cons e utxos)
  obtain p c where e: "e = (p, c)" by (cases e)
  from Cons.prems obtain key w1 where "key_for_script C K (to_script_pubkey (coin_output c)) w = (Inr key, w1)"
    and "bindS (available_coins C K h utxos) (\<lambda>rest. case key of None \<Rightarrow> returnS rest
      | Some k \<Rightarrow> if coin_coinbase c \<and> h < coin_height c + ucast COINBASE_MATURITY then returnS rest
        else returnS (\<lparr> av_outpoint = p, av_coin = c, av_key = k \<rparr> # rest)) w1 = (Inr as, w')"
    unfolding e available_coins.simps bindS_Inr by blast
  then obtain rest w2 where r: "available_coins C K h utxos w1 = (Inr rest, w2)"
    and as: "as = (case key of None \<Rightarrow> rest | Some k \<Rightarrow>
      if coin_coinbase c \<and> h < coin_height c + ucast COINBASE_MATURITY then rest
      else \<lparr> av_outpoint = p, av_coin = c, av_key = k \<rparr> # rest)"
    unfolding bindS_Inr by (auto simp: returnS_def split: option.splits if_splits)
  have sub: "set (map av_outpoint rest) \<subseteq> fst ` set utxos"
    using Cons.IH [OF r] by force
  show ?case using Cons.IH [OF r] sub unfolding as e by (auto split: option.splits)
qed

lemma by_value_set [simp]: "set (by_value as) = set as"
  by (simp add: by_value_def)

lemma by_value_distinct: "distinct (map av_outpoint (by_value as)) = distinct (map av_outpoint as)"
  by (simp add: by_value_def distinct_map)

text \<open>The selection is the shortest prefix that covers amount and fee, or everything.\<close>

lemma select_coins_spec:
  assumes "select_coins ds amount cs rate items selected acc = Inr (got, paid)"
  shows "\<exists>n \<le> length items. got = selected @ take n items \<and> paid = acc + sum_list (map av_value (take n items)) \<and>
    (\<forall>k \<le> n. 0 < k \<longrightarrow> acc + sum_list (map av_value (take k items)) \<le> MAX_MONEY)"
  using assms
proof (induction items arbitrary: selected acc)
  case Nil
  then show ?case by simp
next
  case (Cons a items)
  have le: "acc + av_value a \<le> MAX_MONEY"
    using Cons.prems by (auto simp: Let_def split: if_splits)
  have "(got = selected @ [a] \<and> paid = acc + av_value a) \<or>
      select_coins ds amount cs rate items (selected @ [a]) (acc + av_value a) = Inr (got, paid)"
    using Cons.prems by (auto simp: Let_def split: if_splits)
  then show ?case
  proof
    assume "got = selected @ [a] \<and> paid = acc + av_value a"
    with le show ?thesis by (intro exI [of _ 1]) (auto simp: take_Cons' not_le)
  next
    assume "select_coins ds amount cs rate items (selected @ [a]) (acc + av_value a) = Inr (got, paid)"
    from Cons.IH [OF this] obtain n where n: "n \<le> length items" "got = (selected @ [a]) @ take n items"
      "paid = acc + av_value a + sum_list (map av_value (take n items))"
      "\<forall>k \<le> n. 0 < k \<longrightarrow> acc + av_value a + sum_list (map av_value (take k items)) \<le> MAX_MONEY" by blast
    have "acc + sum_list (map av_value (take k (a # items))) \<le> MAX_MONEY" if k: "k \<le> Suc n" "0 < k" for k
    proof (cases "k = 1")
      case False
      obtain j where "k = Suc j" "0 < j" using k False by (cases k) auto
      then show ?thesis using n(4) k(1) by (simp add: add.assoc)
    qed (use le in simp)
    with n show ?thesis by (intro exI [of _ "Suc n"]) (auto simp: add.assoc)
  qed
qed

subsection \<open>Signing\<close>

lemma verify_cong:
  assumes "map clear_script (tx_inputs t) = map clear_script (tx_inputs u)"
    and "tx_version t = tx_version u" "tx_outputs t = tx_outputs u" "tx_lock_time t = tx_lock_time u"
    and "tx_inputs t ! i = tx_inputs u ! i"
  shows "verify_p2pk_input C t i s = verify_p2pk_input C u i s"
proof -
  have "length (tx_inputs t) = length (tx_inputs u)" using assms(1) by (rule map_eq_imp_length_eq)
  then show ?thesis using signature_hash_scripts [OF assms(1-4), of C i s] assms(5) by (simp add: verify_p2pk_input_def Let_def)
qed

text \<open>\<open>resigned t u\<close>: the transactions differ in input scripts only.\<close>

definition resigned :: "transaction \<Rightarrow> transaction \<Rightarrow> bool" where
  "resigned t u \<longleftrightarrow> map clear_script (tx_inputs t) = map clear_script (tx_inputs u) \<and> tx_version t = tx_version u \<and>
     tx_outputs t = tx_outputs u \<and> tx_lock_time t = tx_lock_time u"

lemma resigned_prevs: "resigned t u \<Longrightarrow> prevs t = prevs u"
proof -
  have "prevs v = map ti_previous_output (map clear_script (tx_inputs v))" for v
    by (simp add: prevs_def clear_script_def)
  then show "resigned t u \<Longrightarrow> ?thesis" unfolding resigned_def by presburger
qed

lemma sign_input_resigned:
  assumes "sign_p2pk_input C t i s k = Inr u"
  shows "resigned t u \<and> i < length (tx_inputs t) \<and> (\<forall>j. j \<noteq> i \<longrightarrow> tx_inputs u ! j = tx_inputs t ! j)"
proof -
  obtain h script where h: "signature_hash_all C t i s = Inr h"
    and u: "u = t \<lparr> tx_inputs := (tx_inputs t)[i := (tx_inputs t ! i) \<lparr> ti_script_sig := script \<rparr>] \<rparr>"
    using assms by (auto simp: sign_p2pk_input_def split: if_splits)
  have i: "i < length (tx_inputs t)" using h by (auto simp: signature_hash_all_def split: if_splits)
  have "map clear_script (tx_inputs u) = map clear_script (tx_inputs t)"
    using i by (simp add: u map_update clear_script_update) (metis length_map list_update_id nth_map)
  then show ?thesis using i by (simp add: resigned_def u)
qed

lemma sign_inputs_prefix:
  assumes "signing_law C"
    and "foldE (\<lambda>index t. sign_p2pk_input C t index (scripts index) (keys index)) [0..<n] t = Inr u"
  shows "resigned t u \<and> (\<forall>i < n. verify_p2pk_input C u i (scripts i) = Inr True)"
  using assms(2)
proof (induction n arbitrary: u)
  case 0
  then show ?case by (simp add: resigned_def)
next
  case (Suc n)
  obtain v where v: "foldE (\<lambda>index t. sign_p2pk_input C t index (scripts index) (keys index)) [0..<n] t = Inr v"
    and u: "sign_p2pk_input C v n (scripts n) (keys n) = Inr u"
    using Suc.prems by (auto simp: foldE_append)
  have IH: "resigned t v" "\<forall>i < n. verify_p2pk_input C v i (scripts i) = Inr True" using Suc.IH [OF v] by simp_all
  have step: "resigned v u" "\<And>j. j \<noteq> n \<Longrightarrow> tx_inputs u ! j = tx_inputs v ! j" using sign_input_resigned [OF u] by simp_all
  have "verify_p2pk_input C u i (scripts i) = Inr True" if "i < Suc n" for i
  proof (cases "i = n")
    case True
    then show ?thesis using sign_verify [OF assms(1) u] by simp
  next
    case False
    then have "verify_p2pk_input C v i (scripts i) = verify_p2pk_input C u i (scripts i)"
      using step by (intro verify_cong) (simp_all add: resigned_def)
    then show ?thesis using IH(2) that False by simp
  qed
  with IH(1) step(1) show ?case by (simp add: resigned_def)
qed

subsection \<open>The payment\<close>

lemma virtual_size_valid: "virtual_size t = Inr n \<Longrightarrow> valid_transaction t"
  by (auto simp: virtual_size_def serialize_transaction_def validate_Inr)

lemma finish_payment_spec:
  assumes "finish_payment C ds amount cs rate items acc = Inr t" and "signing_law C" and "rate < 2 ^ 63"
  shows "\<exists>reserved required size. valid_transaction t \<and> prevs t = map av_outpoint items \<and>
    (\<forall>i < length items. verify_p2pk_input C t i (to_script_pubkey (coin_output (av_coin (items ! i)))) = Inr True) \<and>
    virtual_size t = Inr size \<and> fee rate (of_nat size) = Inr required \<and> required \<le> reserved \<and> 0 \<le> reserved \<and>
    total_value (tx_outputs t) + reserved = acc \<and>
    tx_outputs t = \<lparr> to_value = amount, to_script_pubkey = ds \<rparr> #
      (if acc - amount - reserved = 0 then [] else [\<lparr> to_value = acc - amount - reserved, to_script_pubkey = cs \<rparr>])"
proof -
  obtain est reserved size required where res: "fee rate (of_nat est) = Inr reserved" and cov: "amount + reserved \<le> acc"
    and sg: "sign_inputs C items (let t = payment items ds amount cs (acc - amount - reserved) in
        if acc - amount - reserved = 0 then t \<lparr> tx_outputs := butlast (tx_outputs t) \<rparr> else t) = Inr t"
    and size: "virtual_size t = Inr size" "fee rate (of_nat size) = Inr required" "required \<le> reserved"
    using assms(1) by (auto simp: finish_payment_def Let_def split: if_splits)
  define u where "u = (let t = payment items ds amount cs (acc - amount - reserved) in
        if acc - amount - reserved = 0 then t \<lparr> tx_outputs := butlast (tx_outputs t) \<rparr> else t)"
  have len: "length (tx_inputs u) = length items" and pu: "prevs u = map av_outpoint items"
    and ou: "tx_outputs u = \<lparr> to_value = amount, to_script_pubkey = ds \<rparr> #
      (if acc - amount - reserved = 0 then [] else [\<lparr> to_value = acc - amount - reserved, to_script_pubkey = cs \<rparr>])"
    by (simp_all add: u_def payment_def payment_inputs_def prevs_def Let_def comp_def)
  have "foldE (\<lambda>index t. sign_p2pk_input C t index (to_script_pubkey (coin_output (av_coin (items ! index)))) (av_key (items ! index)))
      [0..<length items] u = Inr t"
    using sg unfolding u_def [symmetric] sign_inputs_def len .
  from sign_inputs_prefix [OF assms(2) this] have r: "resigned u t"
    and ver: "\<forall>i < length items. verify_p2pk_input C t i (to_script_pubkey (coin_output (av_coin (items ! i)))) = Inr True"
    by simp_all
  have out: "tx_outputs t = tx_outputs u" using r by (simp add: resigned_def)
  have "0 \<le> reserved" using fee_range [OF res assms(3)] by (simp add: money_range_def)
  moreover have "total_value (tx_outputs t) + reserved = acc" unfolding out ou by simp
  ultimately show ?thesis
    using virtual_size_valid [OF size(1)] resigned_prevs [OF r] pu ver size out ou
    by (intro exI [of _ reserved] exI [of _ required] exI [of _ size]) simp
qed

lemma payment_applies:
  assumes pay: "create_payment C K u h dest amount rate w = (Inr t, w')"
    and laws: "signing_law C" and rate: "rate < 2 ^ 63"
    and u: "sorted_keys u" "map_of u (OutPoint (replicate 64 (CHR ''0'')) 0xffffffff) = None"
    and s: "txid C t = Inr s" and fresh: "\<And>i. map_of u (OutPoint s i) = None"
  shows "\<exists>paid size required u' ds change_script. apply_transaction C t h u = (Inr paid, u') \<and>
    virtual_size t = Inr size \<and> fee rate (of_nat size) = Inr required \<and> required \<le> paid \<and>
    make_p2pk_script C dest = Inr ds \<and> hd (tx_outputs t) = \<lparr> to_value = amount, to_script_pubkey = ds \<rparr> \<and>
    (\<exists>key. first_key C K 1 w = Inr key \<and> make_p2pk_script C (c_public_key C key) = Inr change_script) \<and>
    list_all (\<lambda>out. to_script_pubkey out = change_script \<and> 0 < to_value out) (tl (tx_outputs t)) \<and> length (tx_outputs t) \<le> 2"
proof -
  obtain ds key cs as items acc where amount: "0 < amount" and ds: "make_p2pk_script C dest = Inr ds"
    and key: "first_key C K 1 w = Inr key" and cs: "make_p2pk_script C (c_public_key C key) = Inr cs"
    and as: "available_coins C K h u w = (Inr as, w')"
    and sel: "select_coins ds amount cs rate (by_value as) [] 0 = Inr (items, acc)"
    and fin: "finish_payment C ds amount cs rate items acc = Inr t"
    using pay unfolding create_payment_def
    by (auto simp: bindS_Inr liftS_def getS_def throwS_def not_le split: if_splits)
  obtain n where n: "items = take n (by_value as)" "acc = sum_list (map av_value items)"
    and sums: "\<forall>k \<le> n. 0 < k \<longrightarrow> sum_list (map av_value (take k (by_value as))) \<le> MAX_MONEY" "n \<le> length (by_value as)"
    using select_coins_spec [OF sel] by auto
  obtain reserved required size where fp: "valid_transaction t" "prevs t = map av_outpoint items"
    "\<forall>i < length items. verify_p2pk_input C t i (to_script_pubkey (coin_output (av_coin (items ! i)))) = Inr True"
    "virtual_size t = Inr size" "fee rate (of_nat size) = Inr required" "required \<le> reserved" "0 \<le> reserved"
    "total_value (tx_outputs t) + reserved = acc"
    "tx_outputs t = \<lparr> to_value = amount, to_script_pubkey = ds \<rparr> #
      (if acc - amount - reserved = 0 then [] else [\<lparr> to_value = acc - amount - reserved, to_script_pubkey = cs \<rparr>])"
    using finish_payment_spec [OF fin laws(1) rate] by blast
  have len: "length (tx_inputs t) = length items" using arg_cong [OF fp(2), of length] by (simp add: prevs_def)
  have in_u: "map_of u (av_outpoint a) = Some (av_coin a)" and mature: "\<not> (coin_coinbase (av_coin a) \<and> h < coin_height (av_coin a) + ucast COINBASE_MATURITY)"
    if "a \<in> set items" for a
  proof -
    have a: "a \<in> set as" using that set_take_subset [of n "by_value as"] by (auto simp: n(1))
    then have "(av_outpoint a, av_coin a) \<in> set u" using available_spec [OF as] by auto
    then show "map_of u (av_outpoint a) = Some (av_coin a)" using sorted_keys_distinct [OF u(1)] by simp
    show "\<not> (coin_coinbase (av_coin a) \<and> h < coin_height (av_coin a) + ucast COINBASE_MATURITY)"
      using available_spec [OF as] a by blast
  qed
  have "distinct (map av_outpoint (by_value as))"
    using available_spec [OF as] sorted_keys_distinct [OF u(1)] by (simp add: by_value_distinct)
  then have d: "distinct (prevs t)" unfolding fp(2) n(1) by (simp add: take_map [symmetric])
  have spend: "list_all2 (may_spend C t h u) [0..<length (tx_inputs t)] (map av_coin items)"
    unfolding list_all2_conv_all_nth
  proof (intro conjI allI impI)
    fix i assume "i < length [0..<length (tx_inputs t)]"
    then have i: "i < length items" by (simp add: len)
    have "ti_previous_output (tx_inputs t ! i) = prevs t ! i" using i by (simp add: prevs_def len)
    also have "\<dots> = av_outpoint (items ! i)" using i by (simp add: fp(2))
    finally show "may_spend C t h u ([0..<length (tx_inputs t)] ! i) (map av_coin items ! i)"
      using i in_u [of "items ! i"] mature [of "items ! i"] fp(3) by (simp add: may_spend_def len)
  qed (simp add: len)
  have "\<not> is_coinbase t"
  proof
    assume c: "is_coinbase t"
    then have "hd (prevs t) = OutPoint (replicate 64 (CHR ''0'')) 0xffffffff" "prevs t \<noteq> []"
      by (cases "ti_previous_output (hd (tx_inputs t))"; cases "tx_inputs t"; simp add: is_coinbase_def prevs_def)+
    then obtain a where "a \<in> set items" "av_outpoint a = OutPoint (replicate 64 (CHR ''0'')) 0xffffffff"
      unfolding fp(2) by (cases items) auto
    with in_u u(2) show False by fastforce
  qed
  moreover have "sum_list (map coin_value (take k (map av_coin items))) \<le> MAX_MONEY" if "k \<le> length (map av_coin items)" for k
  proof (cases "k = 0")
    case False
    have "take k (map av_coin items) = map av_coin (take k (by_value as))" using that by (simp add: n(1) take_map min_absorb1)
    then show ?thesis using sums(1) that False n(1) sums(2) by (auto simp: comp_def)
  qed (simp add: amount_consts)
  moreover have "sum_list (map coin_value (map av_coin items)) = acc" by (simp add: n(2) comp_def)
  ultimately obtain u' where "apply_transaction C t h u = (Inr (acc - total_value (tx_outputs t)), u')"
    using apply_ok [OF fp(1) _ d u(1) spend _ _ s fresh] fp(7,8) by auto
  moreover have "acc - total_value (tx_outputs t) = reserved" using fp(8) by simp
  moreover have "list_all (\<lambda>out. to_script_pubkey out = cs \<and> 0 < to_value out) (tl (tx_outputs t)) \<and> length (tx_outputs t) \<le> 2"
    using fp(1) unfolding valid_transaction_def fp(9) by (auto simp: valid_output_def money_range_def)
  moreover have "hd (tx_outputs t) = \<lparr> to_value = amount, to_script_pubkey = ds \<rparr>" by (simp add: fp(9))
  ultimately show ?thesis using fp(4,5,6) ds key cs
    by (intro exI [of _ reserved] exI [of _ size] exI [of _ required] exI [of _ u'] exI [of _ ds] exI [of _ cs]) simp
qed

end
