(* ===== verification/CommandResults.thy ===== *)
theory CommandResults
  imports CommandSafety PaymentLaws
begin

section \<open>What a returned payment or a returned mining command has done\<close>

text \<open>
  \<open>pool_on d pool\<close>: opening the mempool file of \<open>d\<close> gives \<open>pool\<close>. A returned \<^verbatim>\<open>sendtoaddress\<close> names a transaction that
  pays the address and stands last in that file; a returned \<^verbatim>\<open>generate\<close> lists the hashes of the blocks it has committed.
\<close>

definition pool_on :: "disk \<Rightarrow> transaction list \<Rightarrow> bool" where
  "pool_on d pool \<longleftrightarrow> (\<exists>d'. open_text mempool_load (d \<lparr> dk_io := [] \<rparr>) = (Inr pool, d'))"

subsection \<open>Opening the objects of a command only reads\<close>

lemma read_lines_alike:
  "foldS (\<lambda>l. if l = [] then returnS () else mempool_read_line l) ls m = (r, t) \<Longrightarrow>
   foldS (\<lambda>l. if l = [] then returnS () else mempool_read_line l) ls (m \<lparr> ts_disk := d \<rparr>) = (r, t \<lparr> ts_disk := d \<rparr>)"
proof (induction ls arbitrary: m)
  case Nil
  then show ?case by (simp add: returnS_def)
next
  case (Cons l ls)
  have "mempool_read_line l (m \<lparr> ts_disk := d \<rparr>) = (fst (mempool_read_line l m), (snd (mempool_read_line l m)) \<lparr> ts_disk := d \<rparr>)"
    by (cases m) (simp add: mempool_read_line_def push_item_def sx_defs split: sum.splits; auto)
  with Cons show ?case
    by (auto simp: bindS_def returnS_def split: prod.splits sum.splits if_splits)
qed

lemma stream_call_files: "stream_call a d = (r, d') \<Longrightarrow> dk_files d' = dk_files d"
  by (auto simp: stream_call_def dest: io_call_files split: prod.splits sum.splits)

lemma opened_pool:
  assumes "open_text mempool_load d = (Inr pool, d')"
  shows "pool_on d pool"
proof -
  have calm: "stream_call a (d \<lparr> dk_io := [] \<rparr>) = (Inr (), d \<lparr> dk_io := [] \<rparr>)" for a
    by (simp add: stream_call_def io_call_def)
  obtain x t where "mempool_load \<lparr> ts_items = [], ts_disk = d \<rparr> = (Inr x, t)" "pool = ts_items t"
    using assms by (auto simp: open_text_def on_text_def bindS_def returnS_def split: prod.splits sum.splits)
  then have "mempool_load \<lparr> ts_items = [], ts_disk = d \<lparr> dk_io := [] \<rparr> \<rparr> = (Inr x, t \<lparr> ts_disk := d \<lparr> dk_io := [] \<rparr> \<rparr>)"
    using read_lines_alike [of _ "\<lparr> ts_items = [], ts_disk = _ \<rparr>" "Inr x" t "d \<lparr> dk_io := [] \<rparr>"]
    by (auto simp: mempool_load_def load_text_def on_file_def set_items_def sx_defs calm
        split: option.splits list.splits if_splits prod.splits sum.splits)
  then show ?thesis using \<open>pool = ts_items t\<close> by (simp add: pool_on_def open_text_def on_text_def bindS_def returnS_def)
qed

lemma pool_on_files: "dk_files d = dk_files d' \<Longrightarrow> pool_on d pool = pool_on d' pool"
proof -
  assume "dk_files d = dk_files d'"
  then have "d \<lparr> dk_io := [] \<rparr> = d' \<lparr> dk_io := [] \<rparr>" by (cases d, cases d') simp
  then show ?thesis by (simp add: pool_on_def)
qed


lemma store_load_files:
  assumes "store_load C s = (Inr r, t)" and "holds C bs u (st_disk s)"
  shows "dk_files (st_disk t) = dk_files (st_disk s)"
proof -
  have call: "on_disk (io_call a) s = (Inr x, t) \<Longrightarrow> dk_files (st_disk t) = dk_files (st_disk s)" for a x s t
    by (auto simp: on_disk_def dest: io_call_files split: prod.splits)
  have keep: "preserves (\<lambda>s. holds C bs u (st_disk s)) (on_disk (io_call a))" for a
    using store_io_holds [of C bs u a] by (simp add: preserves_def)
  have stats: "on_stats f s = (Inr x, t) \<Longrightarrow> st_disk t = st_disk s" for f x s t
    by (auto simp: on_stats_def modifyS_def)
  obtain s1 s2 s3 s4 found where s: "on_disk (io_call ''create_directories'') s = (Inr (), s1)"
    "on_disk (io_call ''create_directories'') s1 = (Inr (), s2)" "on_disk (io_call ''Unable to lock chainstate'') s2 = (Inr (), s3)"
    "on_stats (cs_recovered_update (\<lambda>_. False)) s3 = (Inr (), s4)"
    and rest: "bindS (if file_exists (st_disk s4) manifest_path
            then tryS (bindS (load_committed C) (\<lambda>r. returnS (Some r)))
                   (\<lambda>_. bindS (on_stats (cs_recovered_update (\<lambda>_. True))) (\<lambda>_. returnS None))
            else bindS (on_stats (cs_recovered_update (\<lambda>_. True))) (\<lambda>_. returnS None)) (\<lambda>found. 
       case found of
       Some r \<Rightarrow> returnS r
     | None \<Rightarrow> bindS (getS (\<lambda>s. available_generations (st_disk s))) (recover C)) s4 = (Inr r, t)"
    using assms(1) by (auto simp: store_load_def bindS_Inr getS_def)
  have h: "holds C bs u (st_disk s4)"
    using preservesD [OF keep _ s(3)] preservesD [OF keep _ s(2)] preservesD [OF keep _ s(1)] assms(2) stats [OF s(4)] by simp
  obtain m where m: "read_manifest (st_disk s4) = Inr m" "load_manifest_generation C (st_disk s4) m True = Inr (bs, u)"
    using h by (auto simp: holds_def)
  then have "file_exists (st_disk s4) manifest_path"
    by (auto simp: read_manifest_def read_file_bytes_def file_exists_def split: option.splits if_splits)
  with rest m have "st_disk t = st_disk s4"
    by (auto simp: load_committed_def note_loaded_def sx_defs tryS_def)
  with call [OF s(1)] call [OF s(2)] call [OF s(3)] stats [OF s(4)] show ?thesis by simp
qed

lemma open_chain_files:
  assumes "open_chain C directory d = (Inr c, d')" and "holds C bs u d"
  shows "dk_files d' = dk_files d"
proof -
  define c0 where "c0 = chain_over d (new_chain directory d)"
  have c0: "st_disk (cn_store c0) = d" by (simp add: c0_def chain_over_def)
  have load: "chain_load C c0 = (Inr (), c)" and d': "d' = chain_disk c"
    using assms(1) by (auto simp: open_chain_def on_chain_def c0_def bindS_def returnS_def split: prod.splits sum.splits)
  obtain r t where r: "store_load C (cn_store c0) = (Inr r, t)"
    using load holds_exists [OF assms(2)] by (auto simp: chain_load_def bindS_Inr getS_def c0 on_store_def split: prod.splits)
  have "r = (bs, u)" using tripleD(1) [OF store_load_holds _ r] assms(2) c0 by simp
  then have "cn_store c = t"
    using load r holds_exists [OF assms(2)] assms(2)
    by (auto simp: chain_load_def sx_defs c0 on_store_def set_utxos_def set_blocks_def chain_verify_def rebuild_utxos_def
        holds_def utxo_sets_equal_iff split: sum.splits if_splits)
  then show ?thesis using store_load_files [OF r] c0 assms(2) d' by (simp add: chain_disk_def)
qed


lemma open_manager_files:
  assumes "open_manager C K d = (Inr w, d')"
  shows "dk_files d' = dk_files d"
proof -
  have call: "preserves (\<lambda>w. dk_files (wl_disk w) = fs) (on_wallet_disk (stream_call a))" for fs a
    by (rule preservesI) (auto simp: on_wallet_disk_def dest: stream_call_files split: prod.splits)
  have fields: "preserves (\<lambda>w. dk_files (wl_disk w) = fs) (modifyS f)" if "\<And>w. wl_disk (f w) = wl_disk w" for fs f
    by (rule keep_modify) (simp add: that)
  have load: "preserves (\<lambda>w. dk_files (wl_disk w) = fs) (load_wallet C K)" for fs
    unfolding load_wallet_def load_hd_file_def load_legacy_file_def wallet_input_def set_hd_entropy_def clear_cache_def
    by (intro keep call fields; simp)
  obtain x t where t: "load_wallet C K (new_wallet d) = (Inr x, t)" "d' = wl_disk t"
    using assms
    by (auto simp: open_manager_def on_manager_def manager_load_def select_backend_def is_hd_name_def on_backend_def
        sx_defs split: sum.splits prod.splits if_splits)
  show ?thesis using preservesD [OF load _ t(1)] t(2) by (simp add: new_wallet_def)
qed

lemma spending_pool:
  assumes "open_spending C K directory d = (Inr sp, d')" and "holds C bs u d"
  shows "pool_on d (sp_pool sp)"
proof -
  obtain c d1 w d2 d3 where "open_chain C directory d = (Inr c, d1)" "open_manager C K d1 = (Inr w, d2)"
    "open_text mempool_load d2 = (Inr (sp_pool sp), d3)"
    using assms(1) by (auto simp: open_spending_def bindS_Inr liftS_def returnS_def)
  then show ?thesis
    using open_chain_files [OF _ assms(2)] open_manager_files pool_on_files [of d2 d] opened_pool by (metis (no_types))
qed

subsection \<open>What is saved\<close>

lemma saved_pool:
  assumes "mempool_save m = (Inr (), t)" and "disk_ok (ts_disk m)"
  shows "pool_on (ts_disk t) (map lower_txids (ts_items m))"
proof -
  have "\<lparr> ts_items = [], ts_disk = (ts_disk t) \<lparr> dk_io := [] \<rparr> \<rparr> = reopened t" by (cases t) (simp add: reopened_def)
  then show ?thesis using mempool_reload [OF assms] by (simp add: pool_on_def open_text_def on_text_def bindS_def returnS_def)
qed

lemma edit_text_Inr:
  assumes "edit_text m items d = (Inr items', d')"
  shows "\<exists>x s. m \<lparr> ts_items = items, ts_disk = d \<rparr> = (Inr x, s) \<and> items' = ts_items s \<and> d' = ts_disk s"
  using assms by (auto simp: edit_text_def on_text_def bindS_def returnS_def split: prod.splits sum.splits)

lemma added_pool:
  assumes "edit_text (mempool_add C t u h) pool d = (Inr pool', d')" and "disk_ok d"
  shows "pool' = pool @ [t] \<and> mempool_ok C u h (pool @ [t]) \<and> pool_on d' (map lower_txids (pool @ [t]))"
proof -
  obtain s where s: "mempool_add C t u h \<lparr> ts_items = pool, ts_disk = d \<rparr> = (Inr (), s)" "pool' = ts_items s" "d' = ts_disk s"
    using edit_text_Inr [OF assms(1)] by auto
  obtain m where m: "mempool_save m = (Inr (), s)" "ts_items m = pool @ [t]" "ts_disk m = d"
    using s(1) by (auto simp: mempool_add_def bindS_Inr getS_def liftS_def push_item_def modifyS_def throwS_def split: if_splits)
  have e: "ts_items s = pool @ [t]" and k: "mempool_ok C u h (ts_items s)" using mempool_add_Inr [OF s(1)] by auto
  from k have "mempool_ok C u h (pool @ [t])" unfolding e .
  then show ?thesis using saved_pool [OF m(1)] assms(2) m(2,3) s(2,3) e by (intro conjI) simp_all
qed

lemma cleared_pool:
  assumes "edit_text mempool_clear pool d = (Inr pool', d')" and "disk_ok d"
  shows "pool_on d' []"
proof -
  obtain s where s: "mempool_clear \<lparr> ts_items = pool, ts_disk = d \<rparr> = (Inr (), s)" "d' = ts_disk s"
    using edit_text_Inr [OF assms(1)] by auto
  then have "mempool_save \<lparr> ts_items = [], ts_disk = d \<rparr> = (Inr (), s)"
    by (simp add: mempool_clear_def set_items_def bindS_def modifyS_def)
  from saved_pool [OF this] assms(2) s(2) show ?thesis by simp
qed

subsection \<open>Payments\<close>

lemma signed_outputs: "foldE (\<lambda>index t. sign_p2pk_input C t index (f index) (g index)) is t = Inr v \<Longrightarrow> tx_outputs v = tx_outputs t"
  by (induction "is" arbitrary: t) (auto dest!: sign_input_resigned simp: resigned_def)

lemma payment_output:
  assumes "create_payment C K u h dest amount rate w = (Inr t, w')"
  shows "\<exists>script. make_p2pk_script C dest = Inr script \<and> 0 < amount \<and>
    (\<exists>rest. tx_outputs t = \<lparr> to_value = amount, to_script_pubkey = script \<rparr> # rest)"
proof -
  obtain script cs items acc where script: "make_p2pk_script C dest = Inr script" "0 < amount"
    and fin: "finish_payment C script amount cs rate items acc = Inr t"
    using assms unfolding create_payment_def
    by (auto simp: bindS_Inr liftS_def getS_def throwS_def not_le split: if_splits)
  obtain est reserved size required where "fee rate (of_nat est) = Inr reserved" "amount + reserved \<le> acc"
    and sg: "sign_inputs C items (let t = payment items script amount cs (acc - amount - reserved) in
        if acc - amount - reserved = 0 then t \<lparr> tx_outputs := butlast (tx_outputs t) \<rparr> else t) = Inr t"
    and "virtual_size t = Inr size" "fee rate (of_nat size) = Inr required" "required \<le> reserved"
    using fin by (auto simp: finish_payment_def Let_def split: if_splits)
  from signed_outputs [OF sg [unfolded sign_inputs_def]] script show ?thesis
    by (auto simp: payment_def Let_def split: if_splits)
qed

lemma wallet_do_Inr:
  "wallet_do m sp d = (Inr x, d') \<Longrightarrow> \<exists>w w'. sp_wallet sp = Some w \<and> m (w \<lparr> wl_disk := d \<rparr>) = (Inr x, w') \<and> d' = wl_disk w'"
  by (cases "sp_wallet sp")
     (auto simp: wallet_do_def on_manager_def on_backend_def bindS_def returnS_def split: prod.splits sum.splits)

lemma bindS_E:
  "bindS m f s = (Inr y, t) \<Longrightarrow> (\<And>x s'. m s = (Inr x, s') \<Longrightarrow> f x s' = (Inr y, t) \<Longrightarrow> thesis) \<Longrightarrow> thesis"
  by (auto simp: bindS_Inr)

lemma bind_liftE:
  "bindS (liftS r) f s = (Inr y, t) \<Longrightarrow> (\<And>x. r = Inr x \<Longrightarrow> f x s = (Inr y, t) \<Longrightarrow> thesis) \<Longrightarrow> thesis"
  by (auto simp: bindS_Inr liftS_def)

lemma return_E: "returnS y s = (Inr x, t) \<Longrightarrow> (x = y \<Longrightarrow> t = s \<Longrightarrow> thesis) \<Longrightarrow> thesis"
  by (auto simp: returnS_def)

lemma send_command_Inr:
  assumes "send_command C Kf D A params sp d = (Inr v, d')" and "holds C bs u d" and "same_as bs u (sp_chain sp)"
  shows "\<exists>address destination amount script t i rest. hd params = JString address \<and> decode_testnet_address C address = Inr destination \<and>
    make_p2pk_script C destination = Inr script \<and> bindE (amount_param D A (params ! 1)) parse_bin_amount = Inr amount \<and> 0 < amount \<and>
    tx_outputs t = \<lparr> to_value = amount, to_script_pubkey = script \<rparr> # rest \<and> txid C t = Inr i \<and> v = JString i \<and>
    mempool_ok C u (sp_height sp) (sp_pool sp @ [t]) \<and> pool_on d' (map lower_txids (sp_pool sp @ [t]))"
proof -
  obtain address destination amount rate t d1 d2 pool' i where
    p: "require_params params 2 10 = Inr ()" "string_param (params ! 0) ''Address'' = Inr address"
    "decode_testnet_address C address = Inr destination" "bindE (amount_param D A (params ! 1)) parse_bin_amount = Inr amount"
    and c: "wallet_do (create_payment C Kf (sp_utxos sp) (sp_height sp) destination amount rate) sp d = (Inr t, d1)"
    and a: "edit_text (mempool_add C t (cn_utxos (sp_chain sp)) (sp_height sp)) (sp_pool sp) d1 = (Inr pool', d2)"
    and i: "txid C t = Inr i" "v = JString i" "d' = d2"
  proof -
    show thesis
      using assms(1) unfolding send_command_def
      by (elim bind_liftE bindS_E, elim return_E) (rule that, simp, assumption+)
  qed
  have "holds C bs u d1" by (rule preservesD [OF held.keep_wallet_do [OF held.keep_wallet_payment(1)] assms(2) c])
  then have d1: "disk_ok d1" by (simp add: holds_def)
  obtain w w' where "create_payment C Kf (sp_utxos sp) (sp_height sp) destination amount rate w = (Inr t, w')"
    using wallet_do_Inr [OF c] by blast
  from payment_output [OF this] added_pool [OF a d1] p i assms(3) show ?thesis
    by (cases params) (auto simp: require_params_def string_param_def split: if_splits json.splits)
qed

theorem send_result:
  assumes "holds C bs u (rn_disk s)" and "command_handler C Kf D A env q s = (Inr v, s')" and "rq_method q = ''sendtoaddress''"
  shows "\<exists>address destination amount script t i rest pool h. hd (rq_params q) = JString address \<and>
    decode_testnet_address C address = Inr destination \<and> make_p2pk_script C destination = Inr script \<and>
    bindE (amount_param D A (rq_params q ! 1)) parse_bin_amount = Inr amount \<and> 0 < amount \<and>
    tx_outputs t = \<lparr> to_value = amount, to_script_pubkey = script \<rparr> # rest \<and> txid C t = Inr i \<and> v = JString i \<and>
    pool_on (rn_disk s) pool \<and> mempool_ok C u h (pool @ [t]) \<and>
    pool_on (rn_disk s') (map lower_txids (pool @ [t])) \<and> holds C bs u (rn_disk s')"
proof -
  have "dispatch C Kf D A env (rq_method q) (rq_params q) s = (Inr v, s')"
    using assms(2) by (simp add: command_handler_Inr)
  then have run: "wallet_command C Kf D A env ''sendtoaddress'' (rq_params q) (rn_directory s) (rn_disk s) = (Inr v, rn_disk s')"
    using assms(3) by (auto simp: dispatch_def bindS_def getS_def node_disk_eq CHAIN_COMMANDS_def WALLET_COMMANDS_def)
  then obtain sp d1 where sp: "open_spending C Kf (rn_directory s) (rn_disk s) = (Inr sp, d1)"
    "send_command C Kf D A (rq_params q) sp d1 = (Inr v, rn_disk s')"
    by (auto simp: wallet_command_def bindS_Inr)
  have "holds C bs u d1" "same_as bs u (sp_chain sp)"
    using tripleD(1) [OF open_spending_holds assms(1) sp(1)] by (simp_all add: spending_ok_def)
  moreover have "holds C bs u (rn_disk s')" by (rule command_outcome(2) [OF assms(1,2)]) (simp add: assms(3))
  ultimately show ?thesis using send_command_Inr [OF sp(2)] spending_pool [OF sp(1) assms(1)] by blast
qed

subsection \<open>Mining\<close>

interpretation mined_files: chain_files "mined C bs n pending bs' u'" for C bs n pending bs' u'
proof
  show "mined C bs n pending bs' u' d \<Longrightarrow> disk_ok d" for d by (auto simp: mined_def dest: committed_ok)
  show "mined C bs n pending bs' u' d \<Longrightarrow> disk_ok d' \<Longrightarrow> same_files d d' \<Longrightarrow> mined C bs n pending bs' u' d'" for d d'
    unfolding mined_def using committed_same_files by blast
qed

lemma generate_command_Inr:
  assumes "generate_command C Kf D clock name params sp d = (Inr v, d')" and "holds C bs u d" and "same_as bs u (sp_chain sp)"
  shows "\<exists>count new u' hashes. integer_param D (params ! 0) ''Block count'' = Inr count \<and> 0 < count \<and> count \<le> 100000 \<and>
    mined C bs (nat count) (sp_pool sp) (bs @ new) u' d' \<and> mapE (block_hash C) new = Inr hashes \<and>
    v = JArray (map JString hashes) \<and> pool_on d' []"
proof -
  obtain count own script r d1 c d2 pool' d3 hashes where
    count: "integer_param D (params ! 0) ''Block count'' = Inr count" "0 < count" "count \<le> 100000"
    and w: "wallet_do (bindS (getS (locking_script C Kf)) liftS) sp d = (Inr own, d1)"
    and g: "on_chain (chain_generate C clock (word_of_int count) script (sp_pool sp)) (sp_chain sp) d1 = (Inr (r, c), d2)"
    and cl: "edit_text mempool_clear (sp_pool sp) d2 = (Inr pool', d3)"
    and h: "mapE (block_hash C) (drop (length (cn_blocks c) - nat count) (cn_blocks c)) = Inr hashes"
    and v: "v = JArray (map JString hashes)" "d' = d3"
  proof -
    obtain count where count: "integer_param D (params ! 0) ''Block count'' = Inr count"
      using assms(1) unfolding generate_command_def by (elim bind_liftE)
    then have "0 < count \<and> count \<le> 100000"
      using assms(1) by (auto simp: generate_command_def bindS_def liftS_def throwS_def split: sum.splits if_splits)
    then have range: "0 < count" "count \<le> 100000" "(count \<le> 0 \<or> 100000 < count) = False" by simp_all
    from assms(1) show thesis
      unfolding generate_command_def count
      apply (elim bind_liftE)
      apply (simp only: sum.inject, hypsubst, simp only: range(3) if_False)
      apply (elim bind_liftE bindS_E)
      apply (rename_tac x y own d1 script rc d2)
      apply (case_tac rc)
      apply (simp only: prod.case)
      apply (elim bind_liftE bindS_E, elim return_E)
      apply (rule that [OF count range(1,2)], assumption+)
      done
  qed
  have h1: "holds C bs u d1" by (rule preservesD [OF held.keep_wallet_do assms(2) w]) (intro keep)
  have n: "unat (word_of_int count :: u64) = nat count" using count(2,3) by (simp add: unat_eq_nat_uint uint_word_of_int)
  have "triple (holds C bs u) (on_chain (chain_generate C clock (word_of_int count) script (sp_pool sp)) (sp_chain sp))
     (\<lambda>p d. mined C bs (unat (word_of_int count :: u64)) (sp_pool sp) (cn_blocks (snd p)) (cn_utxos (snd p)) d) (chain_outcome C bs u)"
    by (rule on_chain_triple, rule triple_conseq [OF chain_generate_holds [of "word_of_int count" C bs u]])
       (use n count(2) assms(3) in auto)
  from tripleD(1) [OF this h1 g] have m: "mined C bs (nat count) (sp_pool sp) (cn_blocks c) (cn_utxos c) d2" by (simp add: n)
  then obtain new where new: "cn_blocks c = bs @ new" "length new = nat count" by (auto simp: mined_def)
  have "mined C bs (nat count) (sp_pool sp) (cn_blocks c) (cn_utxos c) d3"
    by (rule preservesD [OF mined_files.keep_open_text(2) [OF mined_files.keep_mempool_clear] m cl])
  moreover have "pool_on d3 []" by (rule cleared_pool [OF cl mined_files.K_ok [OF m]])
  ultimately show ?thesis using count h v new by auto
qed

theorem generate_result:
  assumes "holds C bs u (rn_disk s)" and "command_handler C Kf D A env q s = (Inr v, s')"
    and "rq_method q \<in> {''generate'', ''generatetoaddress''}"
  shows "\<exists>count pool new u' hashes. pool_on (rn_disk s) pool \<and>
    integer_param D (rq_params q ! 0) ''Block count'' = Inr count \<and> 0 < count \<and> count \<le> 100000 \<and>
    mined C bs (nat count) pool (bs @ new) u' (rn_disk s') \<and> mapE (block_hash C) new = Inr hashes \<and>
    v = JArray (map JString hashes) \<and> pool_on (rn_disk s') []"
proof -
  have "dispatch C Kf D A env (rq_method q) (rq_params q) s = (Inr v, s')" using assms(2) by (simp add: command_handler_Inr)
  then have "wallet_command C Kf D A env (rq_method q) (rq_params q) (rn_directory s) (rn_disk s) = (Inr v, rn_disk s')"
    using assms(3) by (auto simp: dispatch_def bindS_def getS_def node_disk_eq CHAIN_COMMANDS_def WALLET_COMMANDS_def)
  then obtain sp d1 where sp: "open_spending C Kf (rn_directory s) (rn_disk s) = (Inr sp, d1)"
    "generate_command C Kf D (ce_clock env) (rq_method q) (rq_params q) sp d1 = (Inr v, rn_disk s')"
    using assms(3) by (auto simp: wallet_command_def bindS_Inr)
  have "holds C bs u d1" "same_as bs u (sp_chain sp)"
    using tripleD(1) [OF open_spending_holds assms(1) sp(1)] by (simp_all add: spending_ok_def)
  from generate_command_Inr [OF sp(2) this] spending_pool [OF sp(1) assms(1)] show ?thesis by blast
qed

section \<open>What the chain queries answer\<close>

text \<open>
  On a disk that holds a verified chain and does not fail, the queries succeed and answer from that chain.
\<close>

lemma load_steady:
  assumes h: "holds C bs u d" and io: "dk_io d = []" and d: "st_disk s = d"
  shows "\<exists>s'. store_load C s = (Inr (bs, u), s') \<and> st_disk s' = d"
proof -
  obtain m where m: "read_manifest d = Inr m" "load_manifest_generation C d m True = Inr (bs, u)"
    using h by (auto simp: holds_def)
  have ex: "file_exists d manifest_path"
    using m(1) by (auto simp: read_manifest_def read_file_bytes_def file_exists_def split: option.splits if_splits)
  have call: "on_disk (io_call a) t = (Inr (), t)" if "st_disk t = d" for a t
    using that io by (cases t) (simp add: on_disk_def io_call_def)
  show ?thesis
    using m ex d
    by (auto simp: store_load_def bindS_def call on_stats_def getS_def tryS_def load_committed_def liftS_def returnS_def
        note_loaded_def modifyS_def)
qed

lemma open_steady:
  assumes h: "holds C bs u d" and io: "dk_io d = []"
  shows "\<exists>c. open_chain C directory d = (Inr c, d) \<and> same_as bs u c"
proof -
  define c0 where "c0 = chain_over d (new_chain directory d)"
  have d0: "st_disk (cn_store c0) = d" by (simp add: c0_def chain_over_def)
  obtain s' where s': "store_load C (cn_store c0) = (Inr (bs, u), s')" "st_disk s' = d" using load_steady [OF h io d0] by blast
  have v: "verify_blocks C bs = Inr ()" "build_utxo_set C bs = Inr u" "store_exists d" using h holds_exists [OF h] by (simp_all add: holds_def)
  have "chain_load C c0 = (Inr (), c0 \<lparr> cn_store := s', cn_utxos := u, cn_blocks := bs \<rparr>)"
    using v s'
    by (auto simp: chain_load_def bindS_def getS_def d0 on_store_def set_utxos_def set_blocks_def modifyS_def chain_verify_def liftS_def
        rebuild_utxos_def returnS_def utxo_sets_equal_iff)
  then show ?thesis
    using s'(2) by (simp add: open_chain_def on_chain_def c0_def [symmetric] bindS_def returnS_def chain_disk_def)
qed

lemma verified_tip:
  assumes "verify_blocks C bs = Inr ()" and "cn_blocks c = bs"
  shows "chain_tip c = Inr (last bs)" "tip_height c = Inr (of_nat (length bs - 1))" "tip_hash C c = Inr (hash_of C (last bs))"
    and "k < length bs \<Longrightarrow> sb_height (bs ! k) = of_nat k" and "k < length bs \<Longrightarrow> block_hash C (bs ! k) = Inr (hash_of C (bs ! k))"
proof -
  have ne: "bs \<noteq> []" using assms(1) by (auto simp: verify_blocks_def)
  obtain w where w: "verify_loop C 0 None bs [] = Inr w" using assms(1) by (auto simp: verify_blocks_Inr)
  have height: "sb_height (bs ! k) = of_nat k" if "k < length bs" for k
    using verify_loop_nth [OF w that] by (simp add: height_ok_def sorted_keys_def)
  have hash: "block_hash C (bs ! k) = Inr (hash_of C (bs ! k))" if "k < length bs" for k
    using hashedD [OF verified_hashed [OF assms(1)] nth_mem [OF that]] .
  show "chain_tip c = Inr (last bs)" using assms(2) ne by (simp add: chain_tip_def)
  then show "tip_height c = Inr (of_nat (length bs - 1))" "tip_hash C c = Inr (hash_of C (last bs))"
    using height [of "length bs - 1"] hash [of "length bs - 1"] ne by (simp_all add: tip_height_def tip_hash_def last_conv_nth)
  show "k < length bs \<Longrightarrow> sb_height (bs ! k) = of_nat k" "k < length bs \<Longrightarrow> block_hash C (bs ! k) = Inr (hash_of C (bs ! k))"
    by (fact height hash)+
qed

subsection \<open>The queries\<close>

abbreviation asks :: "string \<Rightarrow> 'd json list \<Rightarrow> 'd rpc_request" where
  "asks name params \<equiv> \<lparr> rq_method = name, rq_params = params, rq_id = JNull \<rparr>"

lemma chain_command_steady:
  assumes "holds C bs u (rn_disk s)" and "dk_io (rn_disk s) = []" and "name \<in> set CHAIN_COMMANDS"
  shows "\<exists>c. same_as bs u c \<and>
    command_handler C Kf D A env (asks name params) s = (map_sum handler_error id (chain_query C D A name params c), s)"
proof -
  obtain c where c: "open_chain C (rn_directory s) (rn_disk s) = (Inr c, rn_disk s)" "same_as bs u c"
    using open_steady [OF assms(1,2)] by blast
  then have "dispatch C Kf D A env name params s = (chain_query C D A name params c, s)"
    using assms(3) by (auto simp: dispatch_def bindS_def getS_def node_disk_def chain_command_def liftS_def CHAIN_COMMANDS_def)
  then show ?thesis using c(2) by (intro exI [of _ c]) (auto simp: command_handler_def tryS_def throwS_def split: sum.splits)
qed

lemma block_by_hash_first:
  assumes "hashed C bs" and "i < length bs" and "\<forall>j < i. hash_of C (bs ! j) \<noteq> hash_of C (bs ! i)"
  shows "block_by_hash C bs (hash_of C (bs ! i)) = Inr (bs ! i)"
  using assms
proof (induction bs arbitrary: i)
  case (Cons b bs)
  have b: "block_hash C b = Inr (hash_of C b)" using hashedD [OF Cons.prems(1)] by simp
  have h: "hashed C bs" using Cons.prems(1) by (simp add: hashed_def)
  show ?case
  proof (cases i)
    case (Suc k)
    have "hash_of C b \<noteq> hash_of C (bs ! k)" using Cons.prems(3) Suc by force
    moreover have "block_by_hash C bs (hash_of C (bs ! k)) = Inr (bs ! k)"
      using Cons.prems(2,3) Suc by (intro Cons.IH [OF h]) force+
    ultimately show ?thesis using b Suc by simp
  qed (simp add: b)
qed simp

theorem query_results:
  assumes h: "holds C bs u (rn_disk s)" and io: "dk_io (rn_disk s) = []"
  shows "command_handler C Kf D A env (asks ''getblockcount'' []) s = (Inr (JInt (int (length bs) - 1)), s)"
    and "command_handler C Kf D A env (asks ''getbestblockhash'' []) s = (Inr (JString (hash_of C (last bs))), s)"
    and "- (2 ^ 63) \<le> k \<Longrightarrow> k < 2 ^ 63 \<Longrightarrow>
      command_handler C Kf D A env (asks ''getblockhash'' [JInt k]) s =
        (if 0 \<le> k \<and> k < int (length bs) then Inr (JString (hash_of C (bs ! nat k)))
         else Inl (RpcError (- 8) ''Block height out of range''), s)"
    and "i < length bs \<Longrightarrow> \<forall>j < i. hash_of C (bs ! j) \<noteq> hash_of C (bs ! i) \<Longrightarrow>
      command_handler C Kf D A env (asks ''getblock'' [JString (hash_of C (bs ! i))]) s =
        (map_sum handler_error id (bindE (bindE (calculate_chainwork bs) uint256_to_hex)
           (block_json C D (bs ! i) (of_nat (length bs - i)))), s)"
proof -
  have v: "verify_blocks C bs = Inr ()" using h by (simp add: holds_def)
  have len: "length bs \<le> 2 ^ 32" by (rule verified_length [OF v])
  have ne: "bs \<noteq> []" using v by (auto simp: verify_blocks_def)
  note run = chain_command_steady [OF h io, of _ Kf D A env]
  note tip = verified_tip [OF v]
  have cc: "name \<in> set CHAIN_COMMANDS" if "name \<in> {''getblockcount'', ''getbestblockhash'', ''getblockhash'', ''getblock''}" for name
    using that by (auto simp: CHAIN_COMMANDS_def)
  have small: "unat (of_nat (length bs - 1) :: u64) = length bs - 1" using len by (simp add: unat_of_nat)
  obtain c where "same_as bs u c" "command_handler C Kf D A env (asks ''getblockcount'' []) s =
      (map_sum handler_error id (chain_query C D A ''getblockcount'' [] c), s)" using run [OF cc, of "''getblockcount''" "[]"] by auto
  then show "command_handler C Kf D A env (asks ''getblockcount'' []) s = (Inr (JInt (int (length bs) - 1)), s)"
    using tip(2) [of c] small len ne
    by (simp add: chain_query_def require_params_def json_of_u64_def uint_nat of_nat_diff Suc_leI)
  obtain c where "same_as bs u c" "command_handler C Kf D A env (asks ''getbestblockhash'' []) s =
      (map_sum handler_error id (chain_query C D A ''getbestblockhash'' [] c), s)" using run [OF cc, of "''getbestblockhash''" "[]"] by auto
  then show "command_handler C Kf D A env (asks ''getbestblockhash'' []) s = (Inr (JString (hash_of C (last bs))), s)"
    using tip(3) [of c] by (simp add: chain_query_def require_params_def)
  show "command_handler C Kf D A env (asks ''getblockhash'' [JInt k]) s =
        (if 0 \<le> k \<and> k < int (length bs) then Inr (JString (hash_of C (bs ! nat k)))
         else Inl (RpcError (- 8) ''Block height out of range''), s)" if k: "- (2 ^ 63) \<le> k" "k < 2 ^ 63"
  proof -
    obtain c where c: "same_as bs u c" "command_handler C Kf D A env (asks ''getblockhash'' [JInt k]) s =
      (map_sum handler_error id (chain_query C D A ''getblockhash'' [JInt k] c), s)"
      using run [OF cc, of "''getblockhash''" "[JInt k]"] by auto
    have i: "integer_param D (JInt k) ''Height'' = Inr k" by (simp add: integer_param_def is_number_def as_integer_def)
    have gt: "(word_of_int k > (of_nat (length bs - 1) :: u64)) = (k \<ge> int (length bs))" if "0 \<le> k"
    proof -
      have "unat (word_of_int k :: u64) = nat k" using that k by (simp add: unat_eq_nat_uint uint_word_of_int)
      moreover have "0 < length bs" using ne by simp
      ultimately show ?thesis using small that by (cases bs) (auto simp: word_less_nat_alt zless_nat_eq_int_zless)
    qed
    show ?thesis
      using c tip(2) [of c] tip(5) [of c "nat k"] gt
      by (auto simp: chain_query_def block_hash_command_def require_params_def i handler_error_def)
  qed
  show "command_handler C Kf D A env (asks ''getblock'' [JString (hash_of C (bs ! i))]) s =
        (map_sum handler_error id (bindE (bindE (calculate_chainwork bs) uint256_to_hex)
           (block_json C D (bs ! i) (of_nat (length bs - i)))), s)"
    if i: "i < length bs" "\<forall>j < i. hash_of C (bs ! j) \<noteq> hash_of C (bs ! i)"
  proof -
    obtain c where c: "same_as bs u c" "command_handler C Kf D A env (asks ''getblock'' [JString (hash_of C (bs ! i))]) s =
      (map_sum handler_error id (chain_query C D A ''getblock'' [JString (hash_of C (bs ! i))] c), s)"
      using run [OF cc, of "''getblock''" "[JString (hash_of C (bs ! i))]"] by auto
    have conf: "(of_nat (length bs - 1) :: u64) - of_nat i + 1 = of_nat (length bs - i)"
      using i(1) by (simp add: of_nat_diff)
    show ?thesis
      using c tip(2) [of c] tip(4) [of c i] i(1) conf block_by_hash_first [OF verified_hashed [OF v] i]
      by (simp add: chain_query_def block_command_def require_params_def string_param_def chainwork_hex_def)
  qed
qed

end
