(* ===== verification/HttpFlow.thy ===== *)
theory HttpFlow
  imports HttpLaws AddressLaws
begin

section \<open>An HTTP message is read as it was written\<close>

text \<open>
  \<open>http_text ls body\<close> is a message of the lines \<open>ls\<close>, an empty line and a body. \<open>receive_http_flows\<close>: however the
  two systems cut it, the reader finds the same head and body. The request and the response of the program are
  such texts, and their heads parse to the headers the program looks at.
\<close>

definition clean :: "string \<Rightarrow> bool" where
  "clean l \<longleftrightarrow> l \<noteq> [] \<and> CHR 0x0D \<notin> set l \<and> newline \<notin> set l"

fun crlf_join :: "string list \<Rightarrow> string" where
  "crlf_join [] = []"
| "crlf_join [l] = l"
| "crlf_join (l # ls) = l @ CRLF @ crlf_join ls"

definition http_text :: "string list \<Rightarrow> string \<Rightarrow> string" where
  "http_text ls body = crlf_join ls @ CRLF @ CRLF @ body"

subsection \<open>Searching\<close>

lemma starts_with_extended: "starts_with x p \<Longrightarrow> starts_with (x @ y) p"
proof -
  assume a: "starts_with x p"
  then have "length p \<le> length x" unfolding starts_with_def by (metis length_take min.absorb_iff2 min.commute min.cobounded2 order.trans)
  with a show ?thesis by (simp add: starts_with_def)
qed

lemma starts_with_length: "starts_with x p \<Longrightarrow> length p \<le> length x"
  unfolding starts_with_def by (metis length_take min.cobounded1)

lemma starts_with_restrict: "starts_with (x @ y) p \<Longrightarrow> length p \<le> length x \<Longrightarrow> starts_with x p"
  by (simp add: starts_with_def)

lemma find_text_length: "p \<noteq> [] \<Longrightarrow> find_text p x = Some e \<Longrightarrow> e + length p \<le> length x"
proof (induction x arbitrary: e)
  case (Cons c x)
  then show ?case using starts_with_length [of "c # x" p] by (cases "starts_with (c # x) p") fastforce+
qed (simp split: if_splits)

lemma find_text_prefix: "p \<noteq> [] \<Longrightarrow> find_text p x = Some e \<Longrightarrow> find_text p (x @ y) = Some e"
proof (induction x arbitrary: e)
  case (Cons c x)
  show ?case
  proof (cases "starts_with (c # x) p")
    case True
    then show ?thesis using Cons.prems starts_with_extended [of "c # x" p y] by simp
  next
    case no: False
    then obtain d where d: "find_text p x = Some d" "e = Suc d" using Cons.prems by auto
    have "length p \<le> length (c # x)" using find_text_length [OF Cons.prems(1) d(1)] by simp
    then have "\<not> starts_with (c # x @ y) p" using no starts_with_restrict [of "c # x" y p] by auto
    then show ?thesis using Cons.IH [OF Cons.prems(1) d(1)] d by simp
  qed
qed (simp split: if_splits)

lemma find_line:
  "CHR 0x0D \<notin> set l \<Longrightarrow> \<not> starts_with r CRLF \<Longrightarrow>
     find_text (CRLF @ CRLF) (l @ CRLF @ r) = map_option (\<lambda>e. length l + 2 + e) (find_text (CRLF @ CRLF) r)"
proof (induction l)
  case Nil
  then show ?case by (auto simp: CRLF_def starts_with_def option.map_comp comp_def)
next
  case (Cons c l)
  then show ?case by (auto simp: CRLF_def starts_with_def option.map_comp comp_def)
qed

lemma find_end: "CHR 0x0D \<notin> set l \<Longrightarrow> find_text (CRLF @ CRLF) (l @ CRLF @ CRLF @ r) = Some (length l)"
  by (induction l) (auto simp: CRLF_def starts_with_def)

lemma clean_start: "clean l \<Longrightarrow> \<not> starts_with (l @ r) CRLF"
  by (cases l) (auto simp: clean_def CRLF_def starts_with_def)

lemma crlf_join_start: "ls \<noteq> [] \<Longrightarrow> list_all clean ls \<Longrightarrow> \<not> starts_with (crlf_join ls @ r) CRLF"
  using clean_start by (cases ls rule: crlf_join.cases) auto

lemma find_blank_line:
  "ls \<noteq> [] \<Longrightarrow> list_all clean ls \<Longrightarrow> find_text (CRLF @ CRLF) (http_text ls body) = Some (length (crlf_join ls))"
proof (induction ls rule: crlf_join.induct)
  case (2 l)
  then show ?case using find_end [of l body] by (simp add: http_text_def clean_def)
next
  case (3 l l' ls)
  have "\<not> starts_with (http_text (l' # ls) body) CRLF"
    using 3(3) crlf_join_start [of "l' # ls" "CRLF @ CRLF @ body"] by (simp add: http_text_def)
  then have "find_text (CRLF @ CRLF) (l @ CRLF @ http_text (l' # ls) body) =
      map_option (\<lambda>e. length l + 2 + e) (find_text (CRLF @ CRLF) (http_text (l' # ls) body))"
    using 3(3) by (intro find_line) (simp_all add: clean_def)
  also have "\<dots> = Some (length l + 2 + length (crlf_join (l' # ls)))" using 3 by simp
  finally show ?case by (simp add: http_text_def CRLF_def)
qed simp

subsection \<open>The two loops\<close>

lemma bytes_string_append [simp]: "bytes_string (a @ b) = bytes_string a @ bytes_string b"
  by (simp add: bytes_string_def)

lemma receive_head_flows:
  assumes "flowing results" "nonempty_parts results" "data @ bytes_string (arriving results) = whole"
    and "length whole \<le> MAX_RPC_REQUEST" "find_text (CRLF @ CRLF) whole = Some e" "find_text (CRLF @ CRLF) data = None"
  shows "\<exists>got rest. receive_head results data = (Inr (got, e), rest) \<and> flowing rest \<and> nonempty_parts rest \<and>
    got @ bytes_string (arriving rest) = whole \<and> find_text (CRLF @ CRLF) got = Some e"
  using assms
proof (induction results data rule: receive_head.induct)
  case (1 data)
  then show ?case by (simp add: bytes_string_def)
next
  case (2 results data)
  then show ?case by (simp add: nonempty_parts_def)
next
  case (3 reason results data)
  then show ?case by simp
next
  case (4 part results data)
  have part: "part \<noteq> []" "flowing results" "nonempty_parts results" using 4(2,3) by (auto simp: nonempty_parts_def)
  define got where "got = data @ bytes_string part"
  have w: "got @ bytes_string (arriving results) = whole" using 4(4) by (simp add: got_def)
  then have len: "length got \<le> MAX_RPC_REQUEST" using 4(5) by auto
  show ?case
  proof (cases "find_text (CRLF @ CRLF) got")
    case None
    then show ?thesis using 4(1) [OF part(1) got_def _ None part(2,3) w 4(5,6)] part(1) len
      by (simp add: Let_def got_def [symmetric])
  next
    case (Some d)
    then have "d = e" using find_text_prefix [of "CRLF @ CRLF" got d "bytes_string (arriving results)"] w 4(6) by (simp add: CRLF_def)
    then show ?thesis using part len Some w by (simp add: Let_def got_def [symmetric])
  qed
qed

lemma receive_rest_flows:
  "flowing results \<Longrightarrow> nonempty_parts results \<Longrightarrow> data @ bytes_string (arriving results) = whole \<Longrightarrow>
     wanted \<le> length whole \<Longrightarrow> length whole \<le> limit \<Longrightarrow>
     \<exists>got rest. receive_rest wanted limit results data = (Inr got, rest) \<and> wanted \<le> length got \<and>
       (\<exists>more. got @ more = whole)"
proof (induction results arbitrary: data)
  case Nil
  then show ?case by (subst receive_rest.simps) (auto simp: bytes_string_def)
next
  case (Cons r results)
  show ?case
  proof (cases "wanted \<le> length data")
    case True
    then show ?thesis using Cons.prems(3) by (subst receive_rest.simps) auto
  next
    case False
    show ?thesis
    proof (cases r)
      case (Moved part)
      have "part \<noteq> []" "flowing results" "nonempty_parts results" "(data @ bytes_string part) @ bytes_string (arriving results) = whole"
        using Cons.prems(1-3) Moved by (auto simp: nonempty_parts_def)
      moreover from this(4) have "length (data @ bytes_string part) \<le> limit" using Cons.prems(5) by auto
      ultimately show ?thesis using False Cons.IH [of "data @ bytes_string part"] Cons.prems(4,5)
        by (subst receive_rest.simps) (simp add: Moved Let_def)
    next
      case CallInterrupted
      then show ?thesis using False Cons.IH [of data] Cons.prems
        by (subst receive_rest.simps) (simp add: nonempty_parts_def)
    next
      case (CallFailed reason)
      then show ?thesis using Cons.prems(1) by simp
    qed
  qed
qed

theorem receive_http_flows:
  assumes "flowing (so_recv s)" "nonempty_parts (so_recv s)" "arriving (so_recv s) = string_bytes (http_text ls body)"
    and "ls \<noteq> []" "list_all clean ls" "length (http_text ls body) \<le> MAX_RPC_REQUEST"
    and "parse_head (crlf_join ls) = Inr (m, length body)"
  shows "\<exists>t. receive_http s = (Inr (m \<lparr> hm_body := body \<rparr>), t) \<and> so_send t = so_send s \<and> so_sent t = so_sent s"
proof -
  let ?w = "http_text ls body" and ?e = "length (crlf_join ls)"
  obtain got rest where h: "receive_head (so_recv s) [] = (Inr (got, ?e), rest)" "flowing rest" "nonempty_parts rest"
    "got @ bytes_string (arriving rest) = ?w" "find_text (CRLF @ CRLF) got = Some ?e"
    using receive_head_flows [OF assms(1,2) _ assms(6) find_blank_line [OF assms(4,5)], of "[]"] assms(3)
    by (auto simp: CRLF_def)
  have wl: "length ?w = ?e + 4 + length body" by (simp add: http_text_def CRLF_def)
  have "?e + 4 \<le> length got" using find_text_length [OF _ h(5)] by (simp add: CRLF_def)
  then have head: "take ?e got = crlf_join ls"
    using arg_cong [OF h(4), of "take ?e"] by (simp add: http_text_def)
  obtain whole r where r: "receive_rest (?e + 4 + length body) (MAX_RPC_REQUEST + ?e + 4) rest got = (Inr whole, r)"
    "length ?w \<le> length whole" "\<exists>more. whole @ more = ?w"
    using receive_rest_flows [OF h(2-4), of "?e + 4 + length body" "MAX_RPC_REQUEST + ?e + 4"] assms(6) wl by auto
  then obtain rest' where w: "whole @ rest' = ?w" by blast
  have "length whole + length rest' = length ?w" using arg_cong [OF w, of length] by simp
  then have "length rest' = 0" using r(2) by linarith
  with w have "whole = ?w" by simp
  moreover have "take (length body) (drop (?e + 4) ?w) = body" by (simp add: http_text_def CRLF_def)
  ultimately show ?thesis using h(1) r(1) head assms(7)
    by (simp add: receive_http_def on_results_def bindS_def liftS_def returnS_def Let_def)
qed

subsection \<open>The head\<close>

lemma trim_same:
  assumes "l \<noteq> []" "\<not> is_blank (hd l)" "\<not> is_trailing (last l)"
  shows "trim l = l"
proof -
  have "dropWhile is_trailing (rev l) = rev l" using assms(1,3) by (cases "rev l") (auto simp: last_rev hd_rev [symmetric])
  then have "trim l = dropWhile is_blank l" by (simp add: trim_def)
  also have "\<dots> = l" using assms(1,2) by (cases l) auto
  finally show ?thesis .
qed

lemma trim_return: "trim (l @ [CHR 0x0D]) = trim l"
  by (simp add: trim_def is_trailing_def)

lemma trimmed_lines:
  "ls \<noteq> [] \<Longrightarrow> list_all clean ls \<Longrightarrow> map trim (getlines (crlf_join ls)) = map trim ls"
proof (induction ls rule: crlf_join.induct)
  case (2 l)
  then have "newline \<notin> set l" "l \<noteq> []" by (simp_all add: clean_def)
  then have "getlines l = [l]" by (subst getlines.simps) (auto simp: dropWhile_no takeWhile_eq_all_conv)
  then show ?case by simp
next
  case (3 l l' ls)
  have "getlines (crlf_join (l # l' # ls)) = (l @ [CHR 0x0D]) # getlines (crlf_join (l' # ls))"
    using 3(3) getlines_cons [of "l @ [CHR 0x0D]" "crlf_join (l' # ls)"] by (simp add: CRLF_def clean_def)
  then show ?case using 3 by (simp add: trim_return)
qed simp

lemma header_fold: "map trim xs = map trim ys \<Longrightarrow> foldE header_line xs h = foldE header_line ys h"
proof (induction xs arbitrary: ys h)
  case (Cons x xs)
  then obtain y zs where ys: "ys = y # zs" "trim x = trim y" "map trim xs = map trim zs" by auto
  have "header_line x h = header_line y h" by (simp add: header_line_def ys(2))
  then show ?case using Cons.IH [OF ys(3)] by (cases "header_line y h") (simp_all add: ys(1))
qed simp

lemma parse_head_lines:
  assumes "list_all clean (start # ls)" and "foldE header_line ls [] = Inr headers" and "content_length headers = Inr n"
  shows "parse_head (crlf_join (start # ls)) = Inr (\<lparr> hm_start_line = trim start, hm_headers = headers, hm_body = [] \<rparr>, n)"
proof -
  have t: "map trim (getlines (crlf_join (start # ls))) = map trim (start # ls)" by (rule trimmed_lines) (use assms(1) in simp_all)
  then obtain x xs where x: "getlines (crlf_join (start # ls)) = x # xs" "trim x = trim start" "map trim xs = map trim ls"
    by (cases "getlines (crlf_join (start # ls))") auto
  show ?thesis using assms(2,3) header_fold [OF x(3), of "[]"] x(2) by (simp add: parse_head_def x(1) Let_def)
qed

text \<open>A header line of a name and a value without surrounding white space.\<close>

definition tight :: "string \<Rightarrow> bool" where
  "tight v \<longleftrightarrow> v \<noteq> [] \<and> list_all (\<lambda>c. \<not> is_trailing c) v"

lemma tight_facts: "tight v \<Longrightarrow> v \<noteq> [] \<and> \<not> is_blank (hd v) \<and> \<not> is_trailing (last v)"
  by (auto simp: tight_def list_all_iff is_trailing_def)

definition framed :: "string \<Rightarrow> bool" where
  "framed v \<longleftrightarrow> v \<noteq> [] \<and> \<not> is_blank (hd v) \<and> \<not> is_trailing (last v)"

lemma tight_framed: "tight v \<Longrightarrow> framed v"
  using tight_facts [of v] by (simp add: framed_def)

lemma header_line_named:
  assumes "tight name" "CHR '':'' \<notin> set name" "framed v"
  shows "header_line (name @ '': '' @ v) h = Inr (map_put (lower_ascii name) v h)"
proof -
  have v: "v \<noteq> []" "\<not> is_blank (hd v)" "\<not> is_trailing (last v)" using assms(3) by (simp_all add: framed_def)
  have "trim (name @ '': '' @ v) = name @ '': '' @ v"
    using tight_facts [OF assms(1)] v by (intro trim_same) auto
  moreover have "trim name = name" using tight_facts [OF assms(1)] by (intro trim_same) auto
  moreover have "trim ('' '' @ v) = v"
  proof -
    have "dropWhile is_trailing (rev ('' '' @ v)) = rev ('' '' @ v)"
      using v by (cases "rev v") (auto simp: hd_rev [symmetric] last_rev)
    then have "trim ('' '' @ v) = dropWhile is_blank v" by (simp add: trim_def is_blank_def)
    then show ?thesis using v by (cases v) auto
  qed
  moreover have "find_char (CHR '':'') (name @ '': '' @ v) = Some (length name)"
    using find_char_append [OF assms(2)] by simp
  ultimately show ?thesis using assms(1) by (simp add: header_line_def Let_def tight_def)
qed

lemma tight_digits: "tight (show_nat n)"
proof -
  have "list_all (\<lambda>c. \<not> is_trailing c) (show_nat n)"
    using show_nat_digits [of n] by (auto simp: list_all_iff is_trailing_def is_blank_def is_digit_def less_eq_char_def)
  then show ?thesis by (simp add: tight_def)
qed

lemma tight_clean: "tight v \<Longrightarrow> clean v"
  by (auto simp: tight_def clean_def is_trailing_def list_all_iff)

end
