(* ===== verification/RpcLaws.thy ===== *)
theory RpcLaws
  imports HttpFlow
begin

section \<open>A call reaches the handler and its answer comes back\<close>

text \<open>
  \<open>call_roundtrip\<close> composes the client, the server and the two directions of the connection: the handler runs once,
  on the method and parameters of the call, and the client returns its result or throws its error, as \<open>answer\<close>
  says; values arrive as \<open>received\<close> says. The messages must fit the limit of the reader, the host be a plain name and
  the values well formed.
\<close>

subsection \<open>The two heads\<close>

lemma base64_tight: "tight (base64_encode cookie)" if "cookie \<noteq> []"
proof -
  have "list_all (\<lambda>c. c \<in> set BASE64 \<or> c = CHR ''='') (base64_bytes bs)" for bs
  proof (induction bs rule: base64_bytes.induct)
    case (1 a b c bs)
    have "base64_char v \<in> set BASE64" if "unat v < 64" for v
      using that base64_table by (auto simp: base64_char_def intro!: nth_mem)
    then show ?case using 1 sextets by simp
  next
    case (2 a)
    have "base64_char v \<in> set BASE64" if "unat v < 64" for v
      using that base64_table by (auto simp: base64_char_def intro!: nth_mem)
    then show ?case using sextets by simp
  next
    case (3 a b)
    have "base64_char v \<in> set BASE64" if "unat v < 64" for v
      using that base64_table by (auto simp: base64_char_def intro!: nth_mem)
    then show ?case using sextets by simp
  qed simp
  moreover have "\<forall>c \<in> set BASE64. \<not> is_trailing c" by (simp add: BASE64_def is_trailing_def is_blank_def)
  moreover have "base64_bytes (string_bytes cookie) \<noteq> []"
    using that by (cases "string_bytes cookie" rule: base64_bytes.cases) (auto simp: string_bytes_def)
  ultimately show ?thesis
    by (fastforce simp: tight_def base64_encode_def list_all_iff is_trailing_def is_blank_def)
qed

definition request_lines :: "string \<Rightarrow> string \<Rightarrow> nat \<Rightarrow> string list" where
  "request_lines host cookie n =
     [''Host: '' @ host, ''Authorization: '' @ basic_auth cookie, ''Content-Type: application/json'',
      ''Content-Length: '' @ show_nat n, ''Connection: close'']"

definition response_lines :: "nat \<Rightarrow> string list" where
  "response_lines n = [''Content-Type: application/json'', ''Content-Length: '' @ show_nat n, ''Connection: close'']"

lemma request_text: "http_request host cookie body = http_text (''POST / HTTP/1.1'' # request_lines host cookie (length body)) body"
  by (simp add: http_request_def http_text_def request_lines_def basic_auth_def CRLF_def)

lemma response_text:
  "http_response status reason body =
     http_text ((''HTTP/1.1 '' @ show_nat status @ '' '' @ reason) # response_lines (length body)) body"
  by (simp add: http_response_def http_text_def response_lines_def CRLF_def)

lemma tight_append: "tight a \<Longrightarrow> tight b \<Longrightarrow> tight (a @ b)"
  by (simp add: tight_def)

lemma clean_append: "clean a \<Longrightarrow> CHR 0x0D \<notin> set b \<Longrightarrow> newline \<notin> set b \<Longrightarrow> clean (a @ b)"
  by (simp add: clean_def)

lemma lower_names:
  "lower_ascii ''Host'' = ''host''" "lower_ascii ''Authorization'' = ''authorization''"
  "lower_ascii ''Content-Type'' = ''content-type''" "lower_ascii ''Content-Length'' = ''content-length''"
  "lower_ascii ''Connection'' = ''connection''"
  by (simp_all add: lower_ascii_def to_lower_def is_upper_def less_eq_char_def char_of_eq_iff)

lemma tight_names: "tight ''Host''" "tight ''Authorization''" "tight ''Content-Type''" "tight ''Content-Length''" "tight ''Connection''"
  by (simp_all add: tight_def is_trailing_def is_blank_def)

lemma framed_values: "framed ''application/json''" "framed ''close''"
  by (simp_all add: framed_def is_trailing_def is_blank_def)

lemma framed_auth: "cookie \<noteq> [] \<Longrightarrow> framed (basic_auth cookie)"
  using tight_facts [OF base64_tight [of cookie]] by (simp add: framed_def basic_auth_def is_blank_def)

lemma header_ascii:
  "tight v \<Longrightarrow> header_line (''Host: '' @ v) h = Inr (map_put ''host'' v h)"
  "framed v \<Longrightarrow> header_line (''Authorization: '' @ v) h = Inr (map_put ''authorization'' v h)"
  "header_line ''Content-Type: application/json'' h = Inr (map_put ''content-type'' ''application/json'' h)"
  "tight v \<Longrightarrow> header_line (''Content-Length: '' @ v) h = Inr (map_put ''content-length'' v h)"
  "header_line ''Connection: close'' h = Inr (map_put ''connection'' ''close'' h)"
  using header_line_named [OF tight_names(1) _ tight_framed, of v h] header_line_named [OF tight_names(2), of v h]
    header_line_named [OF tight_names(3) _ framed_values(1), of h] header_line_named [OF tight_names(4) _ tight_framed, of v h]
    header_line_named [OF tight_names(5) _ framed_values(2), of h]
  by (simp_all add: lower_names)

lemma length_header:
  assumes "n \<le> MAX_RPC_REQUEST" and "map_of headers ''content-length'' = Some (show_nat n)"
  shows "content_length headers = Inr n"
proof -
  have "n \<le> ULONG_MAX" using assms(1) by (simp add: MAX_RPC_REQUEST_def)
  then show ?thesis using assms by (simp add: content_length_def stoul_show)
qed

lemma request_head:
  assumes "tight host" "cookie \<noteq> []" "n \<le> MAX_RPC_REQUEST"
  shows "\<exists>headers. parse_head (crlf_join (''POST / HTTP/1.1'' # request_lines host cookie n)) =
    Inr (\<lparr> hm_start_line = ''POST / HTTP/1.1'', hm_headers = headers, hm_body = [] \<rparr>, n) \<and>
    map_of headers ''authorization'' = Some (basic_auth cookie)"
proof -
  define headers where "headers = map_put ''connection'' ''close'' (map_put ''content-length'' (show_nat n)
    (map_put ''content-type'' ''application/json'' (map_put ''authorization'' (basic_auth cookie) (map_put ''host'' host []))))"
  have fold: "foldE header_line (request_lines host cookie n) [] = Inr headers"
    using header_ascii(1) [OF assms(1)] header_ascii(2) [OF framed_auth [OF assms(2)]] header_ascii(4) [OF tight_digits [of n]]
    by (simp add: request_lines_def header_ascii(3,5) headers_def)
  have m: "map_of headers ''content-length'' = Some (show_nat n)" "map_of headers ''authorization'' = Some (basic_auth cookie)"
    by (simp_all add: headers_def map_of_put)
  have c: "list_all clean (''POST / HTTP/1.1'' # request_lines host cookie n)"
    using tight_clean [OF assms(1)] tight_clean [OF base64_tight [OF assms(2)]] tight_clean [OF tight_digits [of n]]
    by (simp add: request_lines_def clean_def basic_auth_def)
  have t: "trim ''POST / HTTP/1.1'' = ''POST / HTTP/1.1''"
    by (rule trim_same) (simp_all add: is_blank_def is_trailing_def)
  show ?thesis using parse_head_lines [OF c fold length_header [OF assms(3) m(1)]] m(2) unfolding t by blast
qed

lemma response_head:
  assumes "list_all (\<lambda>c. c \<noteq> CHR 0x0D \<and> c \<noteq> newline) reason" "n \<le> MAX_RPC_REQUEST"
  shows "\<exists>m. parse_head (crlf_join ((''HTTP/1.1 '' @ show_nat status @ '' '' @ reason) # response_lines n)) = Inr (m, n)"
proof -
  define headers where "headers = map_put ''connection'' ''close'' (map_put ''content-length'' (show_nat n)
    (map_put ''content-type'' ''application/json'' []))"
  have fold: "foldE header_line (response_lines n) [] = Inr headers"
    using header_ascii(4) [OF tight_digits [of n]] by (simp add: response_lines_def header_ascii(3,5) headers_def)
  have m: "map_of headers ''content-length'' = Some (show_nat n)" by (simp add: headers_def map_of_put)
  have c: "list_all clean ((''HTTP/1.1 '' @ show_nat status @ '' '' @ reason) # response_lines n)"
    using tight_clean [OF tight_digits [of n]] tight_clean [OF tight_digits [of status]] assms(1)
    by (auto simp: response_lines_def clean_def list_all_iff)
  show ?thesis using parse_head_lines [OF c fold length_header [OF assms(2) m]] by blast
qed

subsection \<open>The two directions\<close>

text \<open>A connection that does not fail delivers what was sent, in parts of any size.\<close>

definition delivers :: "socket \<Rightarrow> string \<Rightarrow> bool" where
  "delivers s message \<longleftrightarrow> flowing (so_recv s) \<and> nonempty_parts (so_recv s) \<and> arriving (so_recv s) = string_bytes message"

definition sends :: "socket \<Rightarrow> bool" where
  "sends s \<longleftrightarrow> flowing (so_send s) \<and> Moved 0 \<notin> set (so_send s)"

lemma rpc_send_flows:
  assumes "sends s"
  shows "\<exists>t. rpc_send message s = (Inr (), t) \<and> so_sent t = so_sent s @ string_bytes message \<and> so_recv t = so_recv s"
proof -
  obtain rest where "send_loop (string_bytes message) (so_send s) (so_sent s) = (Inr (), rest, so_sent s @ string_bytes message)"
    using send_loop_flows assms unfolding sends_def by blast
  then show ?thesis by (simp add: rpc_send_def send_all_def)
qed

lemma receive_request:
  assumes "delivers s (http_request host cookie body)" and "tight host" "cookie \<noteq> []"
    and "length (http_request host cookie body) \<le> MAX_RPC_REQUEST"
  shows "\<exists>m t. receive_http s = (Inr m, t) \<and> so_send t = so_send s \<and> so_sent t = so_sent s \<and>
    hm_start_line m = ''POST / HTTP/1.1'' \<and> hm_body m = body \<and>
    map_of (hm_headers m) ''authorization'' = Some (basic_auth cookie)"
proof -
  have n: "length body \<le> MAX_RPC_REQUEST" using assms(4) by (simp add: http_request_def)
  obtain headers where h: "parse_head (crlf_join (''POST / HTTP/1.1'' # request_lines host cookie (length body))) =
      Inr (\<lparr> hm_start_line = ''POST / HTTP/1.1'', hm_headers = headers, hm_body = [] \<rparr>, length body)"
    "map_of headers ''authorization'' = Some (basic_auth cookie)" using request_head [OF assms(2,3) n] by blast
  have c: "list_all clean (''POST / HTTP/1.1'' # request_lines host cookie (length body))"
    using tight_clean [OF assms(2)] tight_clean [OF base64_tight [OF assms(3)]] tight_clean [OF tight_digits [of "length body"]]
    by (simp add: request_lines_def clean_def basic_auth_def)
  show ?thesis
    using receive_http_flows [OF _ _ _ _ c _ h(1), of s] assms(1,4) h(2) unfolding request_text delivers_def by fastforce
qed

lemma receive_response:
  assumes "delivers s (http_response status reason body)" and "list_all (\<lambda>c. c \<noteq> CHR 0x0D \<and> c \<noteq> newline) reason"
    and "length (http_response status reason body) \<le> MAX_RPC_REQUEST"
  shows "\<exists>m t. receive_http s = (Inr m, t) \<and> hm_body m = body \<and> so_sent t = so_sent s"
proof -
  have n: "length body \<le> MAX_RPC_REQUEST" using assms(3) by (simp add: http_response_def)
  obtain m where h: "parse_head (crlf_join ((''HTTP/1.1 '' @ show_nat status @ '' '' @ reason) # response_lines (length body))) =
      Inr (m, length body)" using response_head [OF assms(2) n] by blast
  have c: "list_all clean ((''HTTP/1.1 '' @ show_nat status @ '' '' @ reason) # response_lines (length body))"
    using tight_clean [OF tight_digits [of "length body"]] tight_clean [OF tight_digits [of status]] assms(2)
    by (auto simp: response_lines_def clean_def list_all_iff)
  show ?thesis
    using receive_http_flows [OF _ _ _ _ c _ h, of s] assms(1,3) unfolding response_text delivers_def by fastforce
qed

subsection \<open>The composition\<close>

lemma call_object:
  "json_object [(''jsonrpc'', a), (''id'', b), (''method'', c), (''params'', d)] =
     JObject [(''id'', b), (''jsonrpc'', a), (''method'', c), (''params'', d)]"
  by (simp add: json_object_def less_char_def)

lemma reply_object: "json_object [(''result'', a), (''error'', b), (''id'', c)] = JObject [(''error'', b), (''id'', c), (''result'', a)]"
  by (simp add: json_object_def less_char_def)

lemma error_object: "rpc_error_object code message = JObject [(''code'', JInt (sint code)), (''message'', JString message)]"
  by (simp add: rpc_error_object_def json_object_def less_char_def)

definition call_id :: "'d json" where "call_id = JString ''binarycoin-cli''"

lemma call_request:
  assumes "list_all (json_wf (double_literal D)) params"
  shows "\<exists>v. parse_json D (call_body D name params) = Inr v \<and> is_object v \<and> request_id v = call_id \<and>
    request_of v = Inr \<lparr> rq_method = name, rq_params = map (received D) params, rq_id = call_id \<rparr>"
proof -
  let ?w = "JObject [(''id'', call_id), (''jsonrpc'', JString ''1.0''), (''method'', JString name), (''params'', JArray params)]"
  let ?v = "received D ?w"
  have "json_wf (double_literal D) ?w"
    using assms by (simp add: call_id_def sorted_keys_def less_char_def list_all_iff)
  then have "parse_json D (call_body D name params) = Inr ?v"
    unfolding call_body_def call_object call_id_def by (rule parse_json_received)
  moreover have "request_id ?v = call_id" by (simp add: call_id_def request_id_def json_contains_def map_contains_def json_at_def as_object_def)
  ultimately show ?thesis
    by (simp add: call_id_def is_object_def request_of_def json_contains_def map_contains_def json_at_def as_object_def)
qed

text \<open>What the server reports of the outcome of the handler.\<close>

definition answer :: "'d json res \<Rightarrow> 'd json res" where
  "answer r = (case r of Inr v \<Rightarrow> Inr v | Inl (RpcError code message) \<Rightarrow> Inl (RpcError code message)
     | Inl e \<Rightarrow> Inl (RpcError (- 32603) (exn_what e)))"

definition reply :: "'d doubles \<Rightarrow> 'd json res \<Rightarrow> string" where
  "reply D r = (case answer r of Inr v \<Rightarrow> result_reply D v call_id
     | Inl e \<Rightarrow> error_reply D (case e of RpcError code _ \<Rightarrow> code | _ \<Rightarrow> - 32603) (exn_what e) call_id)"

definition sendable :: "'d doubles \<Rightarrow> 'd json res \<Rightarrow> bool" where
  "sendable D r \<longleftrightarrow> (case r of Inr v \<Rightarrow> json_wf (double_literal D) v | Inl _ \<Rightarrow> True)"

lemma handle_call:
  assumes "delivers (cl_socket s) (http_request host cookie (call_body D name params))" and "sends (cl_socket s)"
    and "tight host" "cookie \<noteq> []" "list_all (json_wf (double_literal D)) params"
    and "length (http_request host cookie (call_body D name params)) \<le> MAX_RPC_REQUEST"
    and "handler \<lparr> rq_method = name, rq_params = map (received D) params, rq_id = call_id \<rparr> (cl_node s) = (r, n)"
  shows "\<exists>s'. rpc_handle_client D cookie handler s = (Inr (), s') \<and> cl_node s' = n \<and>
    so_sent (cl_socket s') = so_sent (cl_socket s) @ string_bytes (reply D r)"
proof -
  obtain m t where m: "receive_http (cl_socket s) = (Inr m, t)" "so_send t = so_send (cl_socket s)" "so_sent t = so_sent (cl_socket s)"
    "hm_start_line m = ''POST / HTTP/1.1''" "hm_body m = call_body D name params"
    "map_of (hm_headers m) ''authorization'' = Some (basic_auth cookie)"
    using receive_request [OF assms(1,3,4,6)] by blast
  obtain v where v: "parse_json D (call_body D name params) = Inr v" "is_object v" "request_id v = call_id"
    "request_of v = Inr \<lparr> rq_method = name, rq_params = map (received D) params, rq_id = call_id \<rparr>"
    using call_request [OF assms(5)] by blast
  have send: "\<exists>u. rpc_send msg t = (Inr (), u) \<and> so_sent u = so_sent (cl_socket s) @ string_bytes msg" for msg
    using rpc_send_flows [of t msg] assms(2) m(2,3) by (auto simp: sends_def)
  have post: "starts_with ''POST / HTTP/1.1'' ''POST ''" by (simp add: starts_with_def)
  define s1 where "s1 = s \<lparr> cl_socket := t, cl_id := call_id \<rparr>"
  have run: "serve_client D cookie handler (s \<lparr> cl_id := JNull \<rparr>) =
      bindS (on_node (handler \<lparr> rq_method = name, rq_params = map (received D) params, rq_id = call_id \<rparr>))
        (\<lambda>result. on_socket (rpc_send (result_reply D result call_id))) s1"
    using m v post by (simp add: serve_client_def rpc_serve_request_def bindS_def on_socket_def liftS_def modifyS_def s1_def)
  show ?thesis
  proof (cases r)
    case (Inr w)
    obtain u where "rpc_send (result_reply D w call_id) t = (Inr (), u)"
      "so_sent u = so_sent (cl_socket s) @ string_bytes (result_reply D w call_id)" using send by blast
    then show ?thesis using run assms(7) Inr
      by (simp add: rpc_handle_client_def bindS_def modifyS_def tryS_def on_node_def on_socket_def s1_def reply_def answer_def)
  next
    case (Inl e)
    obtain u where "rpc_send (reply D r) t = (Inr (), u)"
      "so_sent u = so_sent (cl_socket s) @ string_bytes (reply D r)" using send by blast
    then show ?thesis using run assms(7) Inl
      by (cases e) (auto simp: rpc_handle_client_def bindS_def modifyS_def tryS_def on_node_def on_socket_def s1_def reply_def answer_def
          reply_error_def getS_def)
  qed
qed

lemma call_answer:
  assumes "sendable D r"
  shows "call_result D (dump D False 0 (json_object (case answer r of
      Inr v \<Rightarrow> [(''result'', v), (''error'', JNull), (''id'', call_id)]
    | Inl e \<Rightarrow> [(''result'', JNull), (''error'', rpc_error_object (case e of RpcError code _ \<Rightarrow> code | _ \<Rightarrow> - 32603) (exn_what e)),
        (''id'', call_id)]))) = map_sum id (received D) (answer r)"
proof (cases "answer r")
  case (Inr v)
  then have "json_wf (double_literal D) v" using assms by (auto simp: answer_def sendable_def split: sum.splits exn.splits)
  then have "json_wf (double_literal D) (JObject [(''error'', JNull), (''id'', call_id), (''result'', v)])"
    by (simp add: call_id_def sorted_keys_def less_char_def)
  from parse_json_received [OF this, where p = False and i = 0] show ?thesis
    by (simp add: call_id_def Inr reply_object call_result_def is_object_def json_contains_def map_contains_def json_at_def as_object_def)
next
  case (Inl e)
  obtain code message where e: "e = RpcError code message"
    using Inl by (auto simp: answer_def split: sum.splits exn.splits)
  then have "json_wf (double_literal D) (JObject [(''error'', rpc_error_object code message), (''id'', call_id), (''result'', JNull)])"
    using sint_greater_eq [of code] sint_less [of code] by (simp add: call_id_def sorted_keys_def less_char_def error_object)
  from parse_json_received [OF this] have p: "parse_json D (dump D False 0 (JObject [(''error'', rpc_error_object code message),
      (''id'', call_id), (''result'', JNull)])) = Inr (JObject [(''error'', rpc_error_object code message), (''id'', call_id), (''result'', JNull)])"
    by (simp add: call_id_def error_object del: dump.simps)
  show ?thesis using p
    by (simp add: Inl e reply_object error_object call_result_def is_object_def json_contains_def map_contains_def json_at_def as_object_def
        error_code_def error_message_def as_integer_def as_string_def)
qed

theorem call_roundtrip:
  assumes "delivers (cl_socket s) (http_request host cookie (call_body D name params))" and "sends (cl_socket s)"
    and "tight host" "cookie \<noteq> []" "list_all (json_wf (double_literal D)) params"
    and "length (http_request host cookie (call_body D name params)) \<le> MAX_RPC_REQUEST"
    and "handler \<lparr> rq_method = name, rq_params = map (received D) params, rq_id = call_id \<rparr> (cl_node s) = (r, n)"
    and "sendable D r" and "length (reply D r) \<le> MAX_RPC_REQUEST"
    and "delivers c (reply D r)" and "sends c"
  shows "\<exists>s' t. rpc_handle_client D cookie handler s = (Inr (), s') \<and> cl_node s' = n \<and>
    so_sent (cl_socket s') = so_sent (cl_socket s) @ string_bytes (reply D r) \<and>
    rpc_call D host cookie name params c = (map_sum id (received D) (answer r), t) \<and>
    so_sent t = so_sent c @ string_bytes (http_request host cookie (call_body D name params))"
proof -
  obtain c1 where c1: "rpc_send (http_request host cookie (call_body D name params)) c = (Inr (), c1)"
    "so_sent c1 = so_sent c @ string_bytes (http_request host cookie (call_body D name params))" "so_recv c1 = so_recv c"
    using rpc_send_flows [OF assms(11)] by blast
  define body where "body = dump D False 0 (json_object (case answer r of
      Inr v \<Rightarrow> [(''result'', v), (''error'', JNull), (''id'', call_id)]
    | Inl e \<Rightarrow> [(''result'', JNull), (''error'', rpc_error_object (case e of RpcError code _ \<Rightarrow> code | _ \<Rightarrow> - 32603) (exn_what e)),
        (''id'', call_id)]))"
  obtain status reason where sr: "reply D r = http_response status reason body" "list_all (\<lambda>x. x \<noteq> CHR 0x0D \<and> x \<noteq> newline) reason"
  proof (cases "answer r")
    case (Inr v)
    then show thesis by (intro that [of 200 "''OK''"]) (simp_all add: reply_def result_reply_def body_def)
  next
    case (Inl e)
    then show thesis by (intro that [of 500 "''Internal Server Error''"]) (simp_all add: reply_def error_reply_def body_def)
  qed
  have "delivers c1 (http_response status reason body)" using assms(10) c1(3) sr(1) by (simp add: delivers_def)
  then obtain m t where "receive_http c1 = (Inr m, t)" "hm_body m = body" "so_sent t = so_sent c1"
    using receive_response [OF _ sr(2)] assms(9) sr(1) by metis
  then have "rpc_call D host cookie name params c = (map_sum id (received D) (answer r), t)" "so_sent t = so_sent c1"
    using c1(1) call_answer [OF assms(8)] by (simp_all add: rpc_call_def bindS_def liftS_def body_def)
  then show ?thesis using handle_call [where handler = handler and r = r and n = n, OF assms(1-7)] c1(2) by fastforce
qed

end
