(* ===== verification/Instance.thy ===== *)
theory Instance
  imports ChainRules
begin

section \<open>A concrete instance of the crypto parameter\<close>

text \<open>
  A total digest with the two properties the locked constants need: headers hash to the locked
  genesis hash and transactions to the locked genesis identifier. Signature checks accept. With
  it the genesis block and a two-block chain verify, which shows that the hypotheses of the
  chain theorems can hold.
\<close>

definition genesis_raw :: bytes where
  "genesis_raw =
    [0x72, 0xc3, 0xf1, 0xff, 0x34, 0x61, 0xe3, 0xfb, 0xc6, 0x9a, 0xdc, 0x6a, 0xf8, 0x9f, 0xa9, 0xf9,
     0xca, 0xba, 0x32, 0xcd, 0x54, 0xcb, 0xba, 0xd9, 0x93, 0xd5, 0xb6, 0xc2, 0x7b, 0x7e, 0x00, 0x00]"

definition genesis_tx_raw :: bytes where
  "genesis_tx_raw =
    [0x42, 0x14, 0xae, 0x89, 0x77, 0x60, 0xf4, 0x8c, 0x08, 0x5f, 0x26, 0xb1, 0x9d, 0x64, 0xd8, 0x33,
     0x6e, 0xd6, 0x45, 0x1a, 0x11, 0x50, 0x89, 0x82, 0x4b, 0xce, 0x0f, 0x81, 0x45, 0x08, 0xf1, 0x2c]"

definition toy_sha :: "bytes \<Rightarrow> bytes" where
  "toy_sha x = (if length x = 80 \<or> x = genesis_raw then genesis_raw else genesis_tx_raw)"

definition toy :: crypto where
  "toy = \<lparr> c_sha256 = toy_sha, c_pubkey_parse = (\<lambda>_. True), c_der_parse = (\<lambda>_. True),
     c_high_s = (\<lambda>_. False), c_ecdsa_verify = (\<lambda>_ _ _. True),
     c_public_key = (\<lambda>_. genesis_public_key), c_sign_der = (\<lambda>_ _. Inr [1]) \<rparr>"

lemma genesis_raw_display: "hash_to_display_hex genesis_raw = TESTNET_GENESIS_HASH"
  by (simp add: genesis_raw_def TESTNET_GENESIS_HASH_def hash_to_display_hex_def bytes_to_hex_def hex_digit_table)

lemma genesis_tx_raw_display: "hash_to_display_hex genesis_tx_raw = TESTNET_GENESIS_TXID"
  by (simp add: genesis_tx_raw_def TESTNET_GENESIS_TXID_def hash_to_display_hex_def bytes_to_hex_def hex_digit_table)

lemma toy_lengths [simp]: "length genesis_raw = 32" "length genesis_tx_raw = 32"
  by (simp_all add: genesis_raw_def genesis_tx_raw_def)

lemma raw_distinct: "genesis_tx_raw \<noteq> genesis_raw"
  by (simp add: genesis_raw_def genesis_tx_raw_def)

lemma toy_ok: "crypto_ok toy"
  by (simp add: crypto_ok_def toy_def toy_sha_def)

lemma toy_sha256: "c_sha256 toy x = (if length x = 80 \<or> x = genesis_raw then genesis_raw else genesis_tx_raw)"
  by (simp add: toy_def toy_sha_def)

lemma toy_header_raw: "valid_header h \<Longrightarrow> header_raw_hash toy h = Inr genesis_raw"
  by (simp add: header_raw_hash_ok [OF toy_ok] toy_sha256 length_enc_header)

lemma toy_hash_hex: "valid_header h \<Longrightarrow> hash_hex toy h = Inr TESTNET_GENESIS_HASH"
  by (simp add: hash_hex_def toy_header_raw genesis_raw_display)

lemma toy_target: "compact_to_target 0x1f00ffff = Inr (0xffff * 2 ^ 224)"
  by code_simp

lemma toy_pow: "check_proof_of_work genesis_raw 0x1f00ffff = Inr True"
  by (simp add: check_pow_Inr toy_target genesis_raw_def)

lemma toy_meets_target:
  "valid_header h \<Longrightarrow> bh_bits h = 0x1f00ffff \<Longrightarrow> meets_target toy h"
  by (simp add: meets_target_def toy_header_raw toy_pow)

subsection \<open>Transactions and blocks of the instance\<close>

definition toy_script :: bytes where
  "toy_script = [33] @ genesis_public_key @ [OP_CHECKSIG]"

lemma toy_script_facts [simp]:
  "length toy_script = 35" "toy_script \<noteq> []" "make_p2pk_script toy genesis_public_key = Inr toy_script"
  by (simp_all add: toy_script_def genesis_public_key_def make_p2pk_script_def
      valid_compressed_public_key_def toy_def)

lemma compact_size_positive: "0 < length (append_compact_size [] v)"
  by (simp add: length_compact_size)

lemma toy_txid:
  "valid_transaction t \<Longrightarrow> 80 < length (enc_transaction t) \<Longrightarrow>
     raw_hash toy t = Inr genesis_tx_raw \<and> txid toy t = Inr TESTNET_GENESIS_TXID"
  by (auto simp: raw_hash_ok [OF toy_ok] toy_sha256 txid_def raw_distinct genesis_tx_raw_display)

lemma toy_coinbase:
  assumes "money_range reward"
  shows "raw_hash toy (coinbase_of h reward toy_script) = Inr genesis_tx_raw"
    and "txid toy (coinbase_of h reward toy_script) = Inr TESTNET_GENESIS_TXID"
proof -
  have "valid_transaction (coinbase_of h reward toy_script)"
    using assms by (intro coinbase_of_valid) (simp_all add: MAX_SCRIPT_SIZE_def)
  moreover have "80 < length (enc_transaction (coinbase_of h reward toy_script))"
    using compact_size_positive [of 1] compact_size_positive [of 35]
      compact_size_positive [of "word_of_nat (length (coinbase_script h))"] display_id_wire(2) [OF display_id_zero]
    by (simp add: enc_transaction_def coinbase_of_def enc_list_def enc_input_def enc_output_def enc_sized_def)
  ultimately show "raw_hash toy (coinbase_of h reward toy_script) = Inr genesis_tx_raw"
    and "txid toy (coinbase_of h reward toy_script) = Inr TESTNET_GENESIS_TXID"
    using toy_txid by blast+
qed

lemma toy_merkle:
  "money_range reward \<Longrightarrow> merkle_root_hex toy [coinbase_of h reward toy_script] = Inr TESTNET_GENESIS_MERKLE"
  by (simp add: merkle_root_hex_def merkle_root_raw_def toy_coinbase genesis_tx_raw_display
      TESTNET_GENESIS_TXID_def TESTNET_GENESIS_MERKLE_def)

definition toy_genesis :: stored_block where
  "toy_genesis = \<lparr> sb_height = 0, sb_block =
     \<lparr> b_header = genesis_header, b_transactions = [coinbase_of 0 INITIAL_SUBSIDY toy_script] \<rparr> \<rparr>"

definition toy_header :: block_header where
  "toy_header = genesis_header \<lparr> bh_previous_hash := TESTNET_GENESIS_HASH, bh_time := 1784699219, bh_nonce := 0 \<rparr>"

definition toy_block :: stored_block where
  "toy_block = \<lparr> sb_height = 1, sb_block =
     \<lparr> b_header = toy_header, b_transactions = [coinbase_of 1 INITIAL_SUBSIDY toy_script] \<rparr> \<rparr>"

lemma subsidy_in_range: "money_range INITIAL_SUBSIDY"
  by (simp add: money_range_def amount_consts)

lemma genesis_hash_display: "display_id TESTNET_GENESIS_HASH"
  using display_id_hash [of genesis_raw] by (simp add: genesis_raw_display)

lemma toy_headers_valid: "valid_header genesis_header" "valid_header toy_header"
  using genesis_header_canonical genesis_hash_display
  by (auto intro!: canonical_valid simp: canonical_header_def toy_header_def)

lemma toy_bits: "bh_bits genesis_header = 0x1f00ffff" "bh_bits toy_header = 0x1f00ffff"
  by (simp_all add: genesis_header_def toy_header_def TESTNET_GENESIS_BITS_def)

lemma toy_genesis_block: "testnet_genesis_block toy = Inr (sb_block toy_genesis)"
  using subsidy_in_range
  by (simp add: testnet_genesis_block_def make_testnet_coinbase_Inr toy_coinbase toy_merkle
      toy_hash_hex toy_headers_valid toy_genesis_def MAX_SCRIPT_SIZE_def)

lemma genesis_fields:
  "bh_merkle_root genesis_header = TESTNET_GENESIS_MERKLE"
  "bh_previous_hash genesis_header = replicate 64 (CHR ''0'')"
  "bh_bits genesis_header = TESTNET_GENESIS_BITS" "bh_time genesis_header = 1784699218"
  by (simp_all add: genesis_header_def)

lemma coinbase_sum: "money_range r \<Longrightarrow> sum_outputs (coinbase_of h r s) = Inr r"
  by (simp add: sum_outputs_Inr coinbase_of_def money_range_def)

lemma toy_verify_genesis: "verify_genesis toy toy_genesis = Inr ()"
proof -
  have cb: "is_coinbase (coinbase_of 0 INITIAL_SUBSIDY toy_script)" "length (tx_inputs (coinbase_of 0 INITIAL_SUBSIDY toy_script)) = 1"
    using subsidy_in_range coinbase_of_valid(3) [of INITIAL_SUBSIDY toy_script 0]
    by (simp_all add: MAX_SCRIPT_SIZE_def coinbase_of_def)
  show ?thesis
    by (simp add: verify_genesis_def toy_genesis_def Let_def toy_hash_hex toy_headers_valid genesis_fields
        toy_coinbase subsidy_in_range coinbase_sum cb)
qed

lemma toy_verify_one: "verify_blocks toy [toy_genesis] = Inr ()"
  using toy_verify_genesis
  by (simp add: verify_blocks_Inr verify_step_Inr toy_meets_target toy_headers_valid toy_bits height_ok_def)
     (simp add: toy_genesis_def toy_meets_target toy_headers_valid toy_bits)

lemma toy_connect:
  "verify_connect toy toy_genesis toy_block [] =
     Inr [(OutPoint TESTNET_GENESIS_TXID 0, new_coin 1 True \<lparr> to_value = INITIAL_SUBSIDY, to_script_pubkey = toy_script \<rparr>)]"
proof -
  have cb: "is_coinbase (coinbase_of 1 INITIAL_SUBSIDY toy_script)"
    using subsidy_in_range coinbase_of_valid(3) [of INITIAL_SUBSIDY toy_script 1]
    by (simp add: MAX_SCRIPT_SIZE_def)
  have sub: "block_subsidy 1 TESTNET_HALVING_INTERVAL = Inr INITIAL_SUBSIDY"
    by (simp add: block_subsidy_era TESTNET_HALVING_INTERVAL_def era_subsidy_def)
  have add: "add_coinbase_outputs toy (coinbase_of 1 INITIAL_SUBSIDY toy_script) 1 [] =
     (Inr (), [(OutPoint TESTNET_GENESIS_TXID 0, new_coin 1 True \<lparr> to_value = INITIAL_SUBSIDY, to_script_pubkey = toy_script \<rparr>)])"
    using toy_coinbase(2) [OF subsidy_in_range, of 1]
    by (simp add: add_coinbase_outputs_def sx_defs map_contains_def new_coin_def)
       (simp add: coinbase_of_def sx_defs map_contains_def)
  show ?thesis
    using subsidy_in_range
    by (simp add: verify_connect_def toy_block_def toy_genesis_def Let_def toy_hash_hex toy_headers_valid
        toy_header_def genesis_fields toy_merkle cb coinbase_sum sub add TESTNET_GENESIS_BITS_def TESTNET_BITS_def
        money_range_def)
qed

lemma toy_verify_two: "verify_blocks toy [toy_genesis, toy_block] = Inr ()"
  using toy_verify_genesis toy_connect
  by (simp add: verify_blocks_Inr verify_step_Inr height_ok_def)
     (simp add: toy_genesis_def toy_block_def toy_meets_target toy_headers_valid toy_bits)

lemma toy_build_two:
  "build_utxo_set toy [toy_genesis, toy_block] = Inr [(OutPoint TESTNET_GENESIS_TXID 0,
     new_coin 1 True \<lparr> to_value = INITIAL_SUBSIDY, to_script_pubkey = toy_script \<rparr>)]"
  using verify_connect_Inr(1) [OF toy_connect]
  by (simp add: build_utxo_set_def sx_defs)

end
