(* ===== verification/InstanceRun.thy ===== *)
theory InstanceRun
  imports Instance StorageLive ChainOps Mempool BanStore
begin

section \<open>Runs of the instance\<close>

text \<open>
  Concrete states for the hypotheses of the operations: a spend that applies, a store that holds the
  committed genesis block and the chain object over it.
\<close>

subsection \<open>A spend\<close>

definition toy_coin :: coin where
  "toy_coin = new_coin 1 True \<lparr> to_value = INITIAL_SUBSIDY, to_script_pubkey = toy_script \<rparr>"

definition toy_point :: outpoint where
  "toy_point = OutPoint TESTNET_GENESIS_HASH 7"

definition toy_utxos :: utxo_set where
  "toy_utxos = [(toy_point, toy_coin)]"

definition toy_spend :: transaction where
  "toy_spend = \<lparr> tx_version = 1,
     tx_inputs = [\<lparr> ti_previous_output = toy_point, ti_script_sig = [2, 0x30, 1], ti_sequence = 0xffffffff \<rparr>],
     tx_outputs = [\<lparr> to_value = INITIAL_SUBSIDY - 1000, to_script_pubkey = toy_script \<rparr>], tx_lock_time = 0 \<rparr>"

lemma merkle_display: "display_id TESTNET_GENESIS_MERKLE"
  using display_id_hash [of genesis_tx_raw]
  by (simp add: genesis_tx_raw_display TESTNET_GENESIS_TXID_def TESTNET_GENESIS_MERKLE_def)

lemma toy_spend_valid:
  "length s \<le> MAX_SCRIPT_SIZE \<Longrightarrow>
     valid_transaction (toy_spend \<lparr> tx_inputs := [\<lparr> ti_previous_output = toy_point, ti_script_sig = s, ti_sequence = 0xffffffff \<rparr>] \<rparr>)"
  using display_id_wire(1) [OF genesis_hash_display]
  by (simp add: toy_spend_def valid_transaction_def valid_input_def valid_output_def toy_point_def
      MAX_TRANSACTION_ITEMS_def MAX_SCRIPT_SIZE_def money_range_def amount_consts)

lemma toy_spend_facts:
  "valid_transaction toy_spend" "\<not> is_coinbase toy_spend" "prevs toy_spend = [toy_point]"
  "canonical_txids toy_spend"
proof -
  show "valid_transaction toy_spend"
    using toy_spend_valid [of "[2, 0x30, 1]"] by (simp add: MAX_SCRIPT_SIZE_def) (simp add: toy_spend_def)
  show "\<not> is_coinbase toy_spend"
    by (simp add: toy_spend_def is_coinbase_def toy_point_def)
  show "prevs toy_spend = [toy_point]" by (simp add: prevs_def toy_spend_def)
  show "canonical_txids toy_spend" by (simp add: canonical_txids_def toy_spend_def toy_point_def genesis_hash_display)
qed

lemma toy_spend_verifies: "verify_p2pk_input toy toy_spend 0 toy_script = Inr True"
proof -
  have p: "is_p2pk_script toy toy_script" "extract_p2pk_public_key toy toy_script = Inr genesis_public_key"
    using extract_make_p2pk [of toy genesis_public_key toy_script] by simp_all
  have "valid_transaction (toy_spend \<lparr> tx_inputs := [\<lparr> ti_previous_output = toy_point, ti_script_sig = toy_script, ti_sequence = 0xffffffff \<rparr>] \<rparr>)"
    by (rule toy_spend_valid) (simp add: MAX_SCRIPT_SIZE_def)
  then have "\<exists>h. signature_hash_all toy toy_spend 0 toy_script = Inr h"
    by (simp add: signature_hash_all_def toy_spend_def clear_script_def serialize_transaction_eq sha256d_ok [OF toy_ok])
  then show ?thesis
    using p by (auto simp: verify_p2pk_input_def toy_spend_def SIGHASH_ALL_def verify_ecdsa_der_def)
       (simp_all add: toy_def genesis_public_key_def valid_compressed_public_key_def)
qed

definition toy_output :: tx_output where
  "toy_output = \<lparr> to_value = INITIAL_SUBSIDY - 1000, to_script_pubkey = toy_script \<rparr>"

definition toy_spent :: utxo_set where
  "toy_spent = [(OutPoint TESTNET_GENESIS_TXID 0, new_coin 101 False toy_output)]"

lemma toy_spend_txid: "txid toy toy_spend = Inr TESTNET_GENESIS_TXID"
proof -
  have "80 < length (enc_transaction toy_spend)"
    using compact_size_positive [of 1] compact_size_positive [of 35] compact_size_positive [of 3]
      display_id_wire(2) [OF genesis_hash_display]
    by (simp add: enc_transaction_def toy_spend_def enc_list_def enc_input_def enc_output_def enc_sized_def toy_point_def)
  with toy_txid toy_spend_facts(1) show ?thesis by blast
qed

lemma toy_apply: "apply_transaction toy toy_spend 101 toy_utxos = (Inr 1000, toy_spent)"
proof -
  have "may_spend toy toy_spend 101 toy_utxos 0 toy_coin"
    using toy_spend_verifies
    by (simp add: may_spend_def toy_utxos_def toy_spend_def toy_coin_def new_coin_def COINBASE_MATURITY_def)
  then have "check_input toy toy_spend 101 toy_utxos 0 ({}, 0) = Inr ({toy_point}, INITIAL_SUBSIDY)"
    by (simp add: check_input_Inr) (auto simp: toy_spend_def toy_coin_def new_coin_def amount_consts intro!: exI [of _ toy_coin])
  then have chk: "foldE (check_input toy toy_spend 101 toy_utxos) [0..<length (tx_inputs toy_spend)] ({}, 0) =
      Inr ({toy_point}, INITIAL_SUBSIDY)"
    by (simp add: toy_spend_def [THEN arg_cong [where f = tx_inputs]])
  have sum: "sum_outputs toy_spend = Inr (INITIAL_SUBSIDY - 1000)"
    by (simp add: sum_outputs_Inr) (simp add: toy_spend_def money_range_def amount_consts)
  have v: "validate_transaction_structure toy_spend = Inr ()"
    using toy_spend_facts by (simp add: validate_Inr)
  have ins: "map ti_previous_output (tx_inputs toy_spend) = [toy_point]" "tx_outputs toy_spend = [toy_output]"
    by (simp_all add: toy_spend_def toy_output_def)
  have er: "foldl (\<lambda>u i. map_erase (ti_previous_output i) u) toy_utxos (tx_inputs toy_spend) = []"
    by (simp add: toy_spend_def toy_utxos_def map_erase_def)
  show ?thesis
    unfolding apply_transaction_def Let_def
    by (simp add: sx_defs v toy_spend_facts chk sum er toy_spend_txid ins map_contains_def toy_spent_def new_coin_def)
qed

lemma toy_utxos_sorted: "sorted_keys toy_utxos"
  by (simp add: toy_utxos_def sorted_keys_def)

subsection \<open>A committed store\<close>

definition empty_store :: store where
  "empty_store = \<lparr> st_disk = \<lparr> dk_files = [], dk_io = [] \<rparr>,
     st_stats = \<lparr> cs_generation = 0, cs_active_height = 0, cs_block_records = 0, cs_block_file_bytes = 0,
                  cs_recovered = False, cs_migrated_legacy = False \<rparr> \<rparr>"

lemma toy_genesis_length: "length (enc_transaction (coinbase_of h INITIAL_SUBSIDY toy_script)) \<le> 1000"
  using coinbase_script_length [of h] display_id_wire(2) [OF display_id_zero]
  by (simp add: enc_transaction_def coinbase_of_def enc_list_def enc_input_def enc_output_def enc_sized_def
      length_compact_size)

lemma toy_recordable:
  assumes "canonical_header (b_header (sb_block b))"
    and "b_transactions (sb_block b) = [coinbase_of h INITIAL_SUBSIDY toy_script]"
  shows "recordable toy b"
proof -
  let ?t = "coinbase_of h INITIAL_SUBSIDY toy_script"
  have v: "valid_transaction ?t" "canonical_txids ?t"
    using coinbase_of_valid [OF subsidy_in_range, of toy_script h] by (simp_all add: MAX_SCRIPT_SIZE_def)
  have len: "length (enc_transaction ?t) \<le> 1000" by (rule toy_genesis_length)
  have ok: "stored_ok b"
    using assms v len by (simp add: stored_ok_def block_tx_ok_def)
  have s: "serialize_stored_block b = Inr (enc_stored b)"
    using assms v by (simp add: serialize_stored_block_eq canonical_valid)
  have "length (enc_stored b) \<le> MAX_BLOCK_RECORD_SIZE"
    using len length_enc_header [OF canonical_valid [OF assms(1)]] assms(2)
    by (simp add: enc_stored_def enc_list_def enc_block_tx_def enc_sized_def length_compact_size MAX_BLOCK_RECORD_SIZE_def)
  with ok s show ?thesis
    by (auto simp: recordable_def make_record_bytes_Inr sha256d_ok [OF toy_ok])
qed

lemma toy_genesis_recordable: "recordable toy toy_genesis"
  using genesis_header_canonical by (intro toy_recordable) (simp_all add: toy_genesis_def)

lemma empty_store_clean: "clean_store [] (st_disk empty_store)"
  by (simp add: clean_store_def calm_def empty_store_def disk_ok_def sorted_keys_def file_content_def)

definition toy_store :: store where
  "toy_store = snd (store_commit toy [toy_genesis] [] empty_store)"

lemma toy_store_commit:
  "store_commit toy [toy_genesis] [] empty_store = (Inr (), toy_store)"
  "clean_store (appended toy [] [toy_genesis]) (st_disk toy_store)"
  "block_file_is (appended toy [] [toy_genesis]) (st_disk toy_store)"
proof -
  have "\<exists>x s'. store_commit toy [toy_genesis] [] empty_store = (Inr x, s') \<and>
      clean_store (appended toy [] [toy_genesis]) (st_disk s') \<and> block_file_is (appended toy [] [toy_genesis]) (st_disk s')"
    by (rule returnsD [OF store_commit_total [OF toy_ok] empty_store_clean]) (simp_all add: toy_genesis_recordable)
  then show "store_commit toy [toy_genesis] [] empty_store = (Inr (), toy_store)"
    "clean_store (appended toy [] [toy_genesis]) (st_disk toy_store)"
    "block_file_is (appended toy [] [toy_genesis]) (st_disk toy_store)"
    by (auto simp: toy_store_def)
qed

lemma toy_heights: "heights_agree toy (st_disk toy_store) [toy_genesis]"
  using heights_fresh [OF toy_ok toy_genesis_recordable toy_store_commit(3)] .

lemma toy_storable: "storable [toy_genesis] []"
  by (simp add: storable_def toy_genesis_def sorted_keys_def)

lemma empty_store_ok: "disk_ok (st_disk empty_store)" "disk_ok (st_disk toy_store)"
  using empty_store_clean toy_store_commit(2) by (simp_all add: clean_store_def)

lemma toy_manifest:
  "\<exists>m bs'. read_manifest (st_disk toy_store) = Inr m \<and> store_named m \<and>
     load_manifest_generation toy (st_disk toy_store) m True = Inr (bs', []) \<and> same_chain toy [toy_genesis] bs'"
  by (rule store_commit_returns [OF empty_store_ok(1) toy_store_commit(1) toy_storable toy_heights])

text \<open>The same store when the first call of the next operation fails.\<close>

definition failing_store :: store where
  "failing_store = toy_store \<lparr> st_disk := (st_disk toy_store) \<lparr> dk_io := [Failed ''No space left on device''] \<rparr> \<rparr>"

lemma failing_store_commit:
  "store_commit toy [toy_genesis] [] failing_store =
     (Inl (throw_system_error ''create_directories'' ''No space left on device''), restarted toy_store)"
  by (simp add: store_commit_def sx_defs on_disk_def io_call_def failing_store_def restarted_def)

lemma files_io:
  "file_content (d \<lparr> dk_io := x \<rparr>) p = file_content d p" "file_exists (d \<lparr> dk_io := x \<rparr>) p = file_exists d p"
  "read_file_bytes (d \<lparr> dk_io := x \<rparr>) p = read_file_bytes d p"
  "load_indexed_chain C (d \<lparr> dk_io := x \<rparr>) es = load_indexed_chain C d es"
  by (simp_all add: file_content_def file_exists_def read_file_bytes_def load_indexed_chain_def)

lemma load_manifest_io:
  "load_manifest_generation C (d \<lparr> dk_io := x \<rparr>) m v = load_manifest_generation C d m v"
  unfolding load_manifest_generation_def files_io ..

lemma failing_disk: "st_disk failing_store = (st_disk toy_store) \<lparr> dk_io := [Failed ''No space left on device''] \<rparr>"
  by (simp add: failing_store_def)

lemma failing_store_files:
  "disk_ok (st_disk failing_store)" "read_manifest (st_disk failing_store) = read_manifest (st_disk toy_store)"
  "load_manifest_generation C (st_disk failing_store) m v = load_manifest_generation C (st_disk toy_store) m v"
  using empty_store_ok(2)
  unfolding failing_disk load_manifest_io read_manifest_def files_io by (simp_all add: disk_ok_def)

lemma toy_heights_restarted: "heights_agree toy (st_disk (restarted toy_store)) [toy_genesis]"
  using toy_heights
  by (simp add: heights_agree_def restarted_def scan_catalog_def file_size_or_zero_def files_io)

subsection \<open>A chain object\<close>

definition toy_chain :: chain where
  "toy_chain = \<lparr> cn_directory = ''data'', cn_blocks = [toy_genesis], cn_utxos = [], cn_store = toy_store \<rparr>"

lemma toy_chain_valid: "chain_valid toy toy_chain"
  by (simp add: chain_valid_def toy_chain_def toy_verify_one build_utxo_set_def sx_defs)

lemma toy_append_fails:
  "append_blocks toy [toy_genesis] toy_chain = (Inl (RuntimeError ''Received non-contiguous block height''), toy_chain)"
  by (simp add: append_blocks_def sx_defs toy_chain_def with_rollback_def append_block_def set_blocks_def set_utxos_def)

lemma toy_hash_genesis: "hash_hex toy (b_header (sb_block toy_genesis)) = Inr TESTNET_GENESIS_HASH"
  by (simp add: toy_genesis_def toy_hash_hex toy_headers_valid)

definition toy_proof :: int where
  "toy_proof = 2 ^ 256 div (0xffff * 2 ^ 224 + 1)"

lemma toy_block_proof: "\<exists>p. block_proof 0x1f00ffff = Inr p"
  by (simp add: block_proof_def toy_target)

lemma toy_chainwork: "\<exists>w. calculate_chainwork [toy_genesis] = Inr w"
  using toy_block_proof by (simp add: calculate_chainwork_def) (simp add: toy_genesis_def toy_bits)

text \<open>A candidate without more work is checked and left aside.\<close>

lemma toy_activate:
  "\<exists>r. activate_if_more_work toy [toy_genesis] toy_chain = (Inr r, toy_chain) \<and> \<not> ca_activated r"
proof -
  obtain w where w: "calculate_chainwork [toy_genesis] = Inr w" using toy_chainwork by blast
  show ?thesis
    unfolding activate_if_more_work_def
    by (simp add: run_get run_lift toy_verify_one w toy_hash_genesis toy_chain_def chain_tip_def returnS_def)
qed

subsection \<open>Mining a block\<close>

lemma toy_mine_loop:
  "valid_header h \<Longrightarrow> bh_bits h = 0x1f00ffff \<Longrightarrow> mine_loop toy h = Inr h"
  by (subst mine_loop.simps) (simp add: toy_header_raw toy_pow)

lemma toy_mine:
  "mine_testnet_block toy 0 1 TESTNET_GENESIS_HASH 1784699218 TESTNET_BITS toy_script [] 0 = Inr (sb_block toy_block)"
proof -
  have sub: "block_subsidy 1 TESTNET_HALVING_INTERVAL = Inr INITIAL_SUBSIDY"
    by (simp add: block_subsidy_era TESTNET_HALVING_INTERVAL_def era_subsidy_def)
  have cb: "make_testnet_coinbase 1 INITIAL_SUBSIDY toy_script = Inr (coinbase_of 1 INITIAL_SUBSIDY toy_script)"
    using subsidy_in_range by (simp add: make_testnet_coinbase_Inr MAX_SCRIPT_SIZE_def)
  have mr: "merkle_root_hex toy [coinbase_of 1 INITIAL_SUBSIDY toy_script] = Inr TESTNET_GENESIS_MERKLE"
    by (rule toy_merkle [OF subsidy_in_range])
  have h: "\<lparr> bh_version = 1, bh_previous_hash = TESTNET_GENESIS_HASH, bh_merkle_root = TESTNET_GENESIS_MERKLE,
      bh_time = 1784699219, bh_bits = TESTNET_BITS, bh_nonce = 0 \<rparr> = toy_header"
    by (simp add: toy_header_def genesis_header_def TESTNET_BITS_def TESTNET_GENESIS_BITS_def)
  have "mine_loop toy toy_header = Inr toy_header"
    by (rule toy_mine_loop) (simp_all add: toy_headers_valid toy_bits)
  moreover have "money_range 0" "\<not> INITIAL_SUBSIDY > MAX_MONEY"
    by (simp_all add: money_range_def amount_consts)
  ultimately show ?thesis
    by (simp add: mine_testnet_block_def sub cb mr h Let_def toy_block_def)
qed

text \<open>Mining one block on top of genesis gives the two-block chain, and the commit returns.\<close>

definition toy_mined_utxos :: utxo_set where
  "toy_mined_utxos = [(OutPoint TESTNET_GENESIS_TXID 0,
     new_coin 1 True \<lparr> to_value = INITIAL_SUBSIDY, to_script_pubkey = toy_script \<rparr>)]"

lemma toy_block_recordable: "recordable toy toy_block"
  using genesis_hash_display merkle_display
  by (intro toy_recordable [where h = 1]) (simp_all add: toy_block_def toy_header_def canonical_header_def genesis_header_def)

lemma toy_generate:
  "\<exists>t. chain_generate toy (\<lambda>_. 0) 1 toy_script [] toy_chain = (Inr (), t) \<and>
     cn_blocks t = [toy_genesis, toy_block] \<and> cn_utxos t = toy_mined_utxos"
proof -
  let ?s = "toy_chain \<lparr> cn_blocks := [toy_genesis, toy_block] \<rparr>"
  let ?t = "?s \<lparr> cn_utxos := toy_mined_utxos \<rparr>"
  have add: "add_coinbase_outputs toy (hd (b_transactions (sb_block toy_block))) 1 [] = (Inr (), toy_mined_utxos)"
    using toy_coinbase(2) [OF subsidy_in_range, of 1]
    by (simp add: toy_block_def add_coinbase_outputs_def sx_defs map_contains_def new_coin_def toy_mined_utxos_def)
       (simp add: coinbase_of_def sx_defs map_contains_def)
  have tip: "sb_height toy_genesis = 0" "bh_time (b_header (sb_block toy_genesis)) = 1784699218"
    by (simp_all add: toy_genesis_def genesis_fields)
  have blk: "\<lparr> sb_height = 1, sb_block = sb_block toy_block \<rparr> = toy_block"
    by (simp add: toy_block_def)
  have gen: "generate_block toy 0 toy_script [] [] toy_chain = (Inr toy_mined_utxos, ?s)"
    by (simp add: generate_block_def run_get run_lift toy_chain_def tip toy_hash_genesis toy_mine add blk
        bindS_def [of "modifyS f" for f] modifyS_def returnS_def)
  obtain x s' where c: "store_commit toy [toy_genesis, toy_block] toy_mined_utxos toy_store = (Inr x, s')"
    using returnsD [OF store_commit_total [OF toy_ok, where bs = "[toy_genesis, toy_block]"] toy_store_commit(2)]
      toy_genesis_recordable toy_block_recordable appended_facts [OF toy_ok, of "[toy_genesis]" "[]"] by auto
  have loop: "generate_loop toy (\<lambda>_. 0) toy_script [] 0 (Suc 0) [] toy_chain = (Inr toy_mined_utxos, ?s)"
    by (simp add: bindS_def gen returnS_def)
  have start: "cn_blocks toy_chain = [toy_genesis]" "cn_utxos toy_chain = []" "cn_store ?t = toy_store"
    by (simp_all add: toy_chain_def)
  have ver: "chain_verify toy ?s = (Inr (), ?s)"
    by (simp add: chain_verify_def run_get liftS_def toy_verify_two)
  have save: "chain_save toy ?t = (Inr (), ?t \<lparr> cn_store := s' \<rparr>)"
    using c start(3) by (simp add: chain_save_def run_get on_store_def)
  have "chain_generate toy (\<lambda>_. 0) 1 toy_script [] toy_chain = (Inr (), ?t \<lparr> cn_store := s' \<rparr>)"
    unfolding chain_generate_def
    by (simp add: run_get start run_bind [where m = "generate_loop toy (\<lambda>_. 0) toy_script [] 0 (Suc 0) []", OF loop]
        run_bind [where m = "chain_verify toy", OF ver] save run_modify run_return set_utxos_def
        del: generate_loop.simps)
  then show ?thesis by auto
qed

lemma toy_sign: "\<exists>u. sign_p2pk_input toy toy_spend 0 toy_script [] = Inr u"
proof -
  have p: "extract_p2pk_public_key toy toy_script = Inr genesis_public_key"
    using extract_make_p2pk [of toy genesis_public_key toy_script] by simp_all
  have "valid_transaction (toy_spend \<lparr> tx_inputs := [\<lparr> ti_previous_output = toy_point, ti_script_sig = toy_script, ti_sequence = 0xffffffff \<rparr>] \<rparr>)"
    by (rule toy_spend_valid) (simp add: MAX_SCRIPT_SIZE_def)
  then have "\<exists>h. signature_hash_all toy toy_spend 0 toy_script = Inr h"
    by (simp add: signature_hash_all_def toy_spend_def clear_script_def serialize_transaction_eq sha256d_ok [OF toy_ok])
  with p show ?thesis
    by (auto simp: sign_p2pk_input_def) (simp_all add: toy_def push_script_data_def)
qed

text \<open>A digest under which no header meets its target, and the last header of the search.\<close>

definition hard :: crypto where
  "hard = toy \<lparr> c_sha256 := (\<lambda>_. replicate 32 0xff) \<rparr>"

definition last_header :: block_header where
  "last_header = genesis_header \<lparr> bh_time := 0xffffffff, bh_nonce := 0xffffffff \<rparr>"

lemma hard_facts:
  "crypto_ok hard" "valid_header last_header" "compact_to_target (bh_bits last_header) = Inr (0xffff * 2 ^ 224)"
  "mine_loop hard last_header = Inl (RuntimeError ''Exhausted time and nonce space while mining'')"
proof -
  show ok: "crypto_ok hard" by (simp add: crypto_ok_def hard_def)
  show v: "valid_header last_header" using toy_headers_valid(1) by (simp add: last_header_def)
  show t: "compact_to_target (bh_bits last_header) = Inr (0xffff * 2 ^ 224)"
    using toy_target by (simp add: last_header_def toy_bits)
  have "header_raw_hash hard last_header = Inr (replicate 32 0xff)"
    using v by (simp add: header_raw_hash_ok [OF ok]) (simp add: hard_def)
  moreover have "int (le_nat (replicate n 0xff)) = 256 ^ n - 1" for n
  proof (induction n)
    case (Suc n)
    have "le_nat (replicate (Suc n) 0xff) = 255 + 256 * le_nat (replicate n 0xff)" by simp
    then have "int (le_nat (replicate (Suc n) 0xff)) = 255 + 256 * int (le_nat (replicate n 0xff))"
      by (simp only: of_nat_add of_nat_mult of_nat_numeral)
    with Suc show ?case by simp
  qed simp
  then have "int (le_nat (replicate 32 0xff)) = 256 ^ 32 - 1" by this
  then have "\<not> int (le_nat (replicate 32 0xff)) \<le> 0xffff * 2 ^ 224" by simp
  then have "check_proof_of_work (replicate 32 0xff) (bh_bits last_header) = Inr False"
    using t by (simp only: check_pow_Inr sum.inject simp_thms ex_simps)
  ultimately show "mine_loop hard last_header = Inl (RuntimeError ''Exhausted time and nonce space while mining'')"
    by (subst mine_loop.simps) (simp add: last_header_def)
qed

text \<open>A digest that shows the length of its message, injective on the messages of a one-leaf tree.\<close>

definition counting :: crypto where
  "counting = toy \<lparr> c_sha256 := (\<lambda>x. replicate 31 0 @ [word_of_nat (length x)]) \<rparr>"

lemma counting_root:
  "\<exists>h. mapE (raw_hash counting) [coinbase_of 0 INITIAL_SUBSIDY toy_script] = Inr [h] \<and>
     merkle_root_raw counting [coinbase_of 0 INITIAL_SUBSIDY toy_script] = Inr h \<and> length h = 32"
proof -
  have C: "crypto_ok counting" by (simp add: crypto_ok_def counting_def)
  have "valid_transaction (coinbase_of 0 INITIAL_SUBSIDY toy_script)"
    by (intro coinbase_of_valid subsidy_in_range) (simp add: MAX_SCRIPT_SIZE_def)
  from raw_hash_ok [OF C this] C show ?thesis
    by (simp add: merkle_root_raw_def crypto_ok_def)
qed

lemma counting_inj: "length h = 32 \<Longrightarrow> inj_on (c_sha256 counting) (merkle_messages counting 1 [h])"
  by (auto simp: inj_on_def counting_def)

subsection \<open>A mempool\<close>

definition empty_pool :: mempool where
  "empty_pool = \<lparr> ts_items = [], ts_disk = \<lparr> dk_files = [], dk_io = [] \<rparr> \<rparr>"

lemma toy_pool_add:
  "\<exists>t. mempool_add toy toy_spend toy_utxos 101 empty_pool = (Inr (), t) \<and> calm (ts_disk t)"
proof -
  let ?s = "empty_pool \<lparr> ts_items := [toy_spend] \<rparr>"
  obtain t where t: "mempool_save ?s = (Inr (), t)" "calm (ts_disk t)"
    using mempool_save_returns [of ?s] toy_spend_facts(1) by (auto simp: empty_pool_def calm_def)
  then show ?thesis
    by (simp add: mempool_add_def toy_spend_facts run_get run_lift effective_utxos_def toy_apply push_item_def run_modify
        returnS_def) (simp add: empty_pool_def run_get run_lift sx_defs toy_apply)
qed

lemma toy_pool_save: "\<exists>t. mempool_save (empty_pool \<lparr> ts_items := [toy_spend] \<rparr>) = (Inr (), t)"
  using mempool_save_returns [of "empty_pool \<lparr> ts_items := [toy_spend] \<rparr>"] toy_spend_facts(1)
  by (auto simp: empty_pool_def calm_def)

lemma empty_pool_ok: "disk_ok (ts_disk (empty_pool \<lparr> ts_items := xs \<rparr>))"
  by (simp add: empty_pool_def disk_ok_def sorted_keys_def)

lemma toy_revalidate:
  "\<exists>t. mempool_revalidate toy toy_utxos 101 {} (empty_pool \<lparr> ts_items := [toy_spend] \<rparr>) = (Inr (), t)"
proof -
  let ?s = "empty_pool \<lparr> ts_items := [toy_spend] \<rparr>"
  have "revalidate_loop toy 101 {} [toy_spend] toy_utxos = Inr [toy_spend]"
    by (simp add: toy_spend_txid toy_apply)
  then show ?thesis
    using toy_pool_save
    by (simp add: mempool_revalidate_def run_get run_lift set_items_def run_modify del: revalidate_loop.simps)
qed

lemma toy_total_fees: "total_fees toy [toy_spend] toy_utxos 101 = Inr 1000"
  by (simp add: total_fees_def collect_fee_def toy_apply amount_consts)

text \<open>A pool whose transaction's identifier no coin carries: the coin is under another transaction.\<close>

lemma toy_fresh: "fresh_ids toy toy_utxos (ts_items (empty_pool \<lparr> ts_items := [toy_spend] \<rparr>))"
  by (simp add: fresh_ids_def toy_spend_txid toy_utxos_def toy_point_def TESTNET_GENESIS_TXID_def TESTNET_GENESIS_HASH_def)

subsection \<open>Peers and bans\<close>

definition toy_peer :: peer_record where
  "toy_peer = \<lparr> pr_endpoint = \<lparr> pe_host = ''10.0.0.1'', pe_port = 26001 \<rparr>, pr_services = 1, pr_last_seen = 5,
     pr_last_success = 4, pr_failures = 0, pr_manual = False \<rparr>"

lemma empty_text_saves:
  "\<exists>t. on_file (save_text p a checks [Inr magic]) \<lparr> ts_items = [], ts_disk = \<lparr> dk_files = [], dk_io = [] \<rparr> \<rparr> = (Inr (), t)"
proof -
  have "calm (ts_disk \<lparr> ts_items = [], ts_disk = \<lparr> dk_files = [], dk_io = [] \<rparr> \<rparr>)" by (simp add: calm_def)
  from returnsD [OF on_file_returns [OF save_text_returns [where ss = "[magic]"]] this]
  show ?thesis by (simp add: unit_eq) blast
qed

lemma empty_files_save:
  "\<exists>p. peers_save \<lparr> ts_items = [], ts_disk = \<lparr> dk_files = [], dk_io = [] \<rparr> \<rparr> = (Inr (), p)"
  "\<exists>b. bans_save \<lparr> ts_items = [], ts_disk = \<lparr> dk_files = [], dk_io = [] \<rparr> \<rparr> = (Inr (), b)"
  by (simp_all add: peers_save_def bans_save_def run_get empty_text_saves)

end
