(* ===== verification/PeerSync.thy ===== *)
theory PeerSync
  imports NetMessages
begin

section \<open>Synchronising with one peer (net.cpp, sync_from_peer)\<close>

text \<open>
  The blocking synchronisation of the command line: handshake, address exchange, headers until the
  announced tip, bodies from the side store or the peer, activation, mempool exchange. \<open>sync\<close> is the
  connection with the objects the function keeps open. \<open>receive_until\<close> has the source's limit of
  10,000 messages. \<open>header_rounds\<close> is the \<^verbatim>\<open>while (true)\<close> over header batches; its fuel is the announced
  height plus two, and \<open>header_rounds_enough\<close> shows that more would change nothing: every batch raises
  the last height and none passes the announced one.
\<close>

record sync = link +
  sy_chain :: chain
  sy_pool :: "transaction list"
  sy_peers :: "peer_record list"
  sy_branches :: "stored_block list"

record sync_result =
  sr_peer :: peer_version
  sr_local_height_before :: u64
  sr_local_height_after :: u64
  sr_local_chainwork_before :: string
  sr_local_chainwork_after :: string
  sr_candidate_chainwork :: string
  sr_fork_height :: u64
  sr_headers_received :: nat
  sr_blocks_received :: nat
  sr_blocks_reused :: nat
  sr_disconnected_blocks :: nat
  sr_connected_blocks :: nat
  sr_resurrected_transactions :: nat
  sr_mempool_received :: nat
  sr_reorganized :: bool
  sr_activated_candidate :: bool

subsection \<open>The open objects\<close>

definition sync_chain :: "(chain, 'a) sx \<Rightarrow> (sync, 'a) sx" where
  "sync_chain m =
     bindS (getS sy_chain) (\<lambda>c.
     bindS (disk_do (on_chain m c)) (\<lambda>(x, c).
     bindS (modifyS (\<lambda>s. s \<lparr> sy_chain := c \<rparr>)) (\<lambda>_. returnS x)))"

definition sync_pool :: "(mempool, 'a) sx \<Rightarrow> (sync, 'a) sx" where
  "sync_pool m s =
     (case m \<lparr> ts_items = sy_pool s, ts_disk = lk_disk s \<rparr> of
        (r, t) \<Rightarrow> (r, s \<lparr> sy_pool := ts_items t, lk_disk := ts_disk t \<rparr>))"

definition sync_peers :: "(peer_store, 'a) sx \<Rightarrow> (sync, 'a) sx" where
  "sync_peers m s =
     (case m \<lparr> ts_items = sy_peers s, ts_disk = lk_disk s \<rparr> of
        (r, t) \<Rightarrow> (r, s \<lparr> sy_peers := ts_items t, lk_disk := ts_disk t \<rparr>))"

definition sync_branches :: "(branch_store, 'a) sx \<Rightarrow> (sync, 'a) sx" where
  "sync_branches m s =
     (case m \<lparr> ts_items = sy_branches s, ts_disk = lk_disk s \<rparr> of
        (r, t) \<Rightarrow> (r, s \<lparr> sy_branches := ts_items t, lk_disk := ts_disk t \<rparr>))"

subsection \<open>Waiting for an answer\<close>

definition learn_addresses :: "inet \<Rightarrow> bytes \<Rightarrow> (sync, unit) sx" where
  "learn_addresses N payload =
     bindS (liftS (deserialize_addrv2 N payload)) (\<lambda>records.
     bindS (modifyS (\<lambda>s. s \<lparr> sy_peers := fold add_or_update records (sy_peers s) \<rparr>)) (\<lambda>_.
     sync_peers peers_save))"

definition answer_meanwhile :: "crypto \<Rightarrow> inet \<Rightarrow> int \<Rightarrow> u64 \<Rightarrow> p2p_message \<Rightarrow> (sync, unit) sx" where
  "answer_meanwhile C N now random_nonce message =
     (let command = pm_command message; payload = pm_payload message in
      if command = ''getaddr'' then bindS (getS sy_peers) (\<lambda>records. send C ''addrv2'' (serialize_addrv2 N records))
      else if command = ''addrv2'' then learn_addresses N payload
      else if command = ''ping'' then
        bindS (require (length payload = 8) ''ping nonce must be 8 bytes'') (\<lambda>_. send C ''pong'' payload)
      else if command = ''getstatus'' then
        bindS (sync_chain (chain_load C)) (\<lambda>_.
        bindS (getS sy_chain) (\<lambda>c.
        send_made C ''status'' (bindE (local_version C now random_nonce c 0) serialize_version)))
      else if command = ''inv'' \<or> command = ''status'' \<or> command = ''pong'' \<or> command = ''txack'' then returnS ()
      else throwS (RuntimeError (''Unexpected P2P command while waiting for response: '' @ command)))"

fun receive_attempts ::
  "crypto \<Rightarrow> inet \<Rightarrow> int \<Rightarrow> u64 \<Rightarrow> string list \<Rightarrow> nat \<Rightarrow> (sync, p2p_message) sx" where
  "receive_attempts C N now random_nonce expected 0 =
     throwS (RuntimeError ''Too many unrelated P2P messages while waiting for response'')"
| "receive_attempts C N now random_nonce expected (Suc attempts) =
     bindS (receive C) (\<lambda>message.
     if pm_command message \<in> set expected then returnS message
     else bindS (answer_meanwhile C N now random_nonce message) (\<lambda>_.
       receive_attempts C N now random_nonce expected attempts))"

definition receive_until :: "crypto \<Rightarrow> inet \<Rightarrow> int \<Rightarrow> u64 \<Rightarrow> string list \<Rightarrow> (sync, p2p_message) sx" where
  "receive_until C N now random_nonce expected = receive_attempts C N now random_nonce expected 10000"

subsection \<open>Headers\<close>

definition batch_fork :: "crypto \<Rightarrow> stored_block list \<Rightarrow> header_record \<Rightarrow> nat res" where
  "batch_fork C blocks front =
     bindE (scan_back C blocks (bh_previous_hash (hr_header front)) (length blocks)) (\<lambda>found.
     case found of
       None \<Rightarrow> Inl (RuntimeError ''Peer headers do not connect to local block locator'')
     | Some fork_index \<Rightarrow>
         if hr_height front \<noteq> sb_height (blocks ! fork_index) + 1
         then Inl (RuntimeError ''Peer headers do not connect to local block locator'')
         else Inr fork_index)"

definition append_header :: "crypto \<Rightarrow> stored_block \<Rightarrow> header_record \<Rightarrow> header_record list \<Rightarrow> header_record list res" where
  "append_header C fork header headers =
     bindE (if headers \<noteq> []
       then bindE (follows C (last headers) header) (\<lambda>ok.
         if \<not> ok \<or> bh_time (hr_header header) \<le> bh_time (hr_header (last headers))
         then Inl (RuntimeError ''Invalid headers-first sequence'') else Inr ())
       else if bh_time (hr_header header) \<le> bh_time (b_header (sb_block fork))
       then Inl (RuntimeError ''Candidate header time does not increase from fork'') else Inr ()) (\<lambda>_.
     Inr (headers @ [header]))"

text \<open>One batch: the fork index and the headers so far, with this batch appended.\<close>

definition take_batch ::
  "crypto \<Rightarrow> stored_block list \<Rightarrow> u64 \<Rightarrow> header_record list \<Rightarrow> nat \<Rightarrow> header_record list \<Rightarrow> (nat \<times> header_record list) res" where
  "take_batch C blocks best_height headers fork_index batch =
     (if batch = [] then Inl (RuntimeError ''Peer stopped headers before advertised tip'')
      else
      bindE (if headers = [] then batch_fork C blocks (hd batch)
             else bindE (follows C (last headers) (hd batch)) (\<lambda>ok.
               if ok then Inr fork_index else Inl (RuntimeError ''Peer returned non-contiguous header batches''))) (\<lambda>fork_index.
      bindE (foldE (append_header C (blocks ! fork_index)) batch headers) (\<lambda>headers.
      if hr_height (last headers) > best_height
      then Inl (RuntimeError ''Peer headers exceed advertised height'')
      else Inr (fork_index, headers))))"

fun header_rounds ::
  "crypto \<Rightarrow> inet \<Rightarrow> int \<Rightarrow> u64 \<Rightarrow> peer_version \<Rightarrow> nat \<Rightarrow> string list \<Rightarrow> nat \<Rightarrow> header_record list \<Rightarrow>
     (sync, nat \<times> header_record list) sx" where
  "header_rounds C N now random_nonce peer 0 locator fork_index headers = throwS (LogicError ''fuel'')"
| "header_rounds C N now random_nonce peer (Suc fuel) locator fork_index headers =
     bindS (send_made C ''getheaders'' (serialize_getheaders locator zero_hash)) (\<lambda>_.
     bindS (receive_until C N now random_nonce [''headers'']) (\<lambda>response.
     bindS (liftS (deserialize_headers C (pm_payload response))) (\<lambda>batch.
     bindS (getS (\<lambda>s. cn_blocks (sy_chain s))) (\<lambda>blocks.
     bindS (liftS (take_batch C blocks (pv_best_height peer) headers fork_index batch)) (\<lambda>(fork_index, headers).
     bindS (liftS (hash_hex C (hr_header (last headers)))) (\<lambda>hash.
     if hash = pv_tip_hash peer
     then bindS (require (hr_height (last headers) = pv_best_height peer) ''Peer tip height does not match final header'')
            (\<lambda>_. returnS (fork_index, headers))
     else header_rounds C N now random_nonce peer fuel [hash, TESTNET_GENESIS_HASH] fork_index headers))))))"

text \<open>Enough rounds: one for the first batch and one for every height up to the announced one.\<close>

definition header_fuel :: "peer_version \<Rightarrow> nat" where
  "header_fuel peer = unat (pv_best_height peer) + 2"

subsection \<open>Bodies\<close>

text \<open>Bodies found in the side store are taken when they are the announced block; the rest is missing.\<close>

definition reuse_body ::
  "crypto \<Rightarrow> stored_block list \<Rightarrow> header_record \<Rightarrow> (string \<times> stored_block) list \<times> string list \<times> nat \<Rightarrow>
     ((string \<times> stored_block) list \<times> string list \<times> nat) res" where
  "reuse_body C branches header = (\<lambda>(bodies, missing, reused).
     bindE (hash_hex C (hr_header header)) (\<lambda>hash.
     bindE (branch_find C branches hash) (\<lambda>stored.
     bindE (case stored of
         None \<Rightarrow> Inr False
       | Some b \<Rightarrow>
           if sb_height b \<noteq> hr_height header then Inr False
           else bindE (serialize_header (b_header (sb_block b))) (\<lambda>x.
                bindE (serialize_header (hr_header header)) (\<lambda>y. Inr (x = y)))) (\<lambda>usable.
     if usable then Inr (map_emplace hash (the stored) bodies, missing, reused + 1)
     else Inr (bodies, missing @ [hash], reused)))))"

text \<open>One awaited body.\<close>

definition receive_body ::
  "crypto \<Rightarrow> inet \<Rightarrow> int \<Rightarrow> u64 \<Rightarrow> header_record list \<Rightarrow> (string \<times> stored_block) list \<Rightarrow> (sync, (string \<times> stored_block) list) sx" where
  "receive_body C N now random_nonce headers bodies =
     bindS (receive_until C N now random_nonce [''block'', ''notfound'']) (\<lambda>response.
     bindS (require (pm_command response \<noteq> ''notfound'') ''Peer did not provide a requested block body'') (\<lambda>_.
     bindS (liftS (deserialize_stored_blocks (pm_payload response))) (\<lambda>decoded.
     bindS (require (length decoded = 1) ''Peer block response count mismatch'') (\<lambda>_.
     let stored = hd decoded in
     bindS (liftS (block_hash C stored)) (\<lambda>hash.
     bindS (liftS (matches_announced C headers hash stored)) (\<lambda>ok.
     bindS (require ok ''Downloaded block does not match announced header'') (\<lambda>_.
     bindS (sync_branches (branch_put C stored)) (\<lambda>_.
     returnS (map_emplace hash stored bodies)))))))))"

fun receive_bodies ::
  "crypto \<Rightarrow> inet \<Rightarrow> int \<Rightarrow> u64 \<Rightarrow> header_record list \<Rightarrow> nat \<Rightarrow> (string \<times> stored_block) list \<Rightarrow> (sync, (string \<times> stored_block) list) sx" where
  "receive_bodies C N now random_nonce headers 0 bodies = returnS bodies"
| "receive_bodies C N now random_nonce headers (Suc n) bodies =
     bindS (receive_body C N now random_nonce headers bodies) (receive_bodies C N now random_nonce headers n)"

fun download_batches ::
  "crypto \<Rightarrow> inet \<Rightarrow> int \<Rightarrow> u64 \<Rightarrow> header_record list \<Rightarrow> inventory_item list list \<Rightarrow> (string \<times> stored_block) list \<Rightarrow>
     (sync, (string \<times> stored_block) list) sx" where
  "download_batches C N now random_nonce headers [] bodies = returnS bodies"
| "download_batches C N now random_nonce headers (batch # rest) bodies =
     bindS (send_made C ''getdata'' (serialize_inventory batch)) (\<lambda>_.
     bindS (receive_bodies C N now random_nonce headers (length batch) bodies)
       (download_batches C N now random_nonce headers rest))"

definition announced_body :: "crypto \<Rightarrow> (string \<times> stored_block) list \<Rightarrow> header_record \<Rightarrow> stored_block res" where
  "announced_body C bodies header =
     bindE (hash_hex C (hr_header header)) (\<lambda>hash.
     case map_of bodies hash of
       None \<Rightarrow> Inl (RuntimeError ''Missing candidate block body'') | Some b \<Rightarrow> Inr b)"

text \<open>Headers, bodies, the work check and the switch; the counters come with the result.\<close>

definition follow_peer ::
  "crypto \<Rightarrow> inet \<Rightarrow> int \<Rightarrow> u64 \<Rightarrow> peer_version \<Rightarrow> (sync, chain_activation \<times> string \<times> nat \<times> nat \<times> nat) sx" where
  "follow_peer C N now random_nonce peer =
     bindS (require (\<not> pv_best_height peer > 1000000)
       ''Peer testnet chain height exceeds synchronization safety limit'') (\<lambda>_.
     bindS (getS (\<lambda>s. cn_blocks (sy_chain s))) (\<lambda>blocks.
     bindS (liftS (make_block_locator C blocks)) (\<lambda>locator.
     bindS (header_rounds C N now random_nonce peer (header_fuel peer) locator (length blocks) [])
       (\<lambda>(fork_index, headers).
     bindS (getS (\<lambda>s. cn_blocks (sy_chain s))) (\<lambda>blocks.
     bindS (getS sy_branches) (\<lambda>branches.
     bindS (liftS (foldE (reuse_body C branches) headers ([], [], 0))) (\<lambda>(bodies, missing, reused).
     bindS (download_batches C N now random_nonce headers (batches MAX_INVENTORY_ITEMS (map block_item missing)) bodies) (\<lambda>bodies.
     bindS (sync_branches branch_save) (\<lambda>_.
     bindS (liftS (mapE (announced_body C bodies) headers)) (\<lambda>new.
     let candidate = take (fork_index + 1) blocks @ new in
     bindS (liftS (bindE (calculate_chainwork candidate) uint256_to_hex)) (\<lambda>candidate_work.
     bindS (require (candidate_work = pv_chainwork peer)
       ''Peer advertised chainwork does not match validated headers and blocks'') (\<lambda>_.
     bindS (getS (\<lambda>s. cn_blocks (sy_chain s))) (\<lambda>blocks.
     bindS (if fork_index + 1 < length blocks
            then sync_branches (branch_put_many C (drop (fork_index + 1) blocks)) else returnS ()) (\<lambda>_.
     bindS (sync_chain (activate_if_more_work C candidate)) (\<lambda>activation.
     bindS (getS (\<lambda>s. cn_blocks (sy_chain s))) (\<lambda>blocks.
     bindS (if ca_activated activation then sync_branches (branch_remove_active C blocks) else returnS ()) (\<lambda>_.
     returnS (activation, candidate_work, length headers, length missing, reused))))))))))))))))))"

subsection \<open>The mempool exchange\<close>

fun admit_transactions :: "crypto \<Rightarrow> utxo_set \<Rightarrow> u64 \<Rightarrow> transaction list \<Rightarrow> nat \<Rightarrow> (mempool, nat) sx" where
  "admit_transactions C utxos height [] accepted = returnS accepted"
| "admit_transactions C utxos height (t # ts) accepted =
     bindS (tryS (bindS (mempool_add C t utxos height) (\<lambda>_. returnS (accepted + 1))) (\<lambda>_. returnS accepted))
       (admit_transactions C utxos height ts)"

definition old_activation :: "u64 \<Rightarrow> int \<Rightarrow> chain_activation" where
  "old_activation height work = \<lparr> ca_activated = False, ca_old_height = height, ca_new_height = height,
     ca_fork_height = height, ca_disconnected_blocks = 0, ca_connected_blocks = 0, ca_old_chainwork = work,
     ca_candidate_chainwork = work, ca_disconnected_transactions = [] \<rparr>"

definition switch_to_peer ::
  "crypto \<Rightarrow> inet \<Rightarrow> int \<Rightarrow> u64 \<Rightarrow> peer_version \<Rightarrow> u64 \<Rightarrow> string \<Rightarrow> (sync, chain_activation \<times> string \<times> nat \<times> nat \<times> nat) sx" where
  "switch_to_peer C N now random_nonce peer height_before before_work =
     bindS (getS sy_chain) (\<lambda>c.
     bindS (liftS (calculate_chainwork (cn_blocks c))) (\<lambda>work.
     let nothing = (old_activation height_before work, before_work, 0, 0, 0) in
     bindS (liftS (tip_hash C c)) (\<lambda>tip.
     if pv_tip_hash peer = tip
     then bindS (liftS (tip_height c)) (\<lambda>height.
       bindS (require (pv_best_height peer = height \<and> pv_chainwork peer = before_work)
         ''Peer announced inconsistent height or chainwork for matching tip'') (\<lambda>_. returnS nothing))
     else if pv_chainwork peer \<ge> before_work then follow_peer C N now random_nonce peer
     else returnS nothing)))"

definition sync_mempools :: "crypto \<Rightarrow> inet \<Rightarrow> int \<Rightarrow> u64 \<Rightarrow> transaction list \<Rightarrow> (sync, nat \<times> nat) sx" where
  "sync_mempools C N now random_nonce gone =
     bindS (getS sy_chain) (\<lambda>c.
     bindS (liftS (confirmed_txids C c)) (\<lambda>confirmed.
     bindS (liftS (tip_height c)) (\<lambda>height.
     bindS (sync_pool (mempool_revalidate C (cn_utxos c) (height + 1) confirmed)) (\<lambda>_.
     bindS (sync_pool (admit_transactions C (cn_utxos c) (height + 1) gone 0)) (\<lambda>resurrected.
     bindS (send C ''getmempool'' []) (\<lambda>_.
     bindS (receive_until C N now random_nonce [''txs'']) (\<lambda>response.
     bindS (liftS (deserialize_transactions (pm_payload response))) (\<lambda>remote.
     bindS (getS sy_chain) (\<lambda>c.
     bindS (sync_pool (bindS (liftS (tip_height c)) (\<lambda>height.
       admit_transactions C (cn_utxos c) (height + 1) remote 0))) (\<lambda>received.
     bindS (send C ''bye'' []) (\<lambda>_.
     returnS (resurrected, received))))))))))))"

subsection \<open>The whole synchronisation\<close>

definition sync_from_peer ::
  "crypto \<Rightarrow> inet \<Rightarrow> int \<Rightarrow> u64 \<Rightarrow> peer_endpoint \<Rightarrow> (sync, sync_result) sx" where
  "sync_from_peer C N now random_nonce endpoint =
     bindS (getS lk_directory) (\<lambda>directory.
     bindS (disk_do (start_chain C directory)) (\<lambda>c.
     bindS (disk_do (open_text mempool_load)) (\<lambda>pool.
     bindS (disk_do (open_text peers_load)) (\<lambda>peers.
     bindS (disk_do (open_text (branch_load C))) (\<lambda>branches.
     bindS (modifyS (\<lambda>s. s \<lparr> sy_chain := c, sy_pool := pool, sy_peers := peers, sy_branches := branches \<rparr>)) (\<lambda>_.
     bindS (liftS (tip_height c)) (\<lambda>height_before.
     bindS (liftS (chainwork_hex c)) (\<lambda>before_work.
     bindS (client_handshake C now random_nonce c 0) (\<lambda>peer.
     bindS (sync_peers (mark_success now endpoint (pv_services peer))) (\<lambda>_.
     bindS (send C ''getaddr'' []) (\<lambda>_.
     bindS (receive_until C N now random_nonce [''addrv2'']) (\<lambda>response.
     bindS (learn_addresses N (pm_payload response)) (\<lambda>_.
     bindS (switch_to_peer C N now random_nonce peer height_before before_work)
       (\<lambda>(activation, candidate_work, headers, received, reused).
     bindS (sync_mempools C N now random_nonce (ca_disconnected_transactions activation)) (\<lambda>(resurrected, mempool_received).
     bindS (getS sy_chain) (\<lambda>c.
     bindS (liftS (tip_height c)) (\<lambda>height_after.
     bindS (liftS (chainwork_hex c)) (\<lambda>after_work.
     returnS \<lparr> sr_peer = peer, sr_local_height_before = height_before, sr_local_height_after = height_after,
       sr_local_chainwork_before = before_work, sr_local_chainwork_after = after_work,
       sr_candidate_chainwork = candidate_work, sr_fork_height = ca_fork_height activation,
       sr_headers_received = headers, sr_blocks_received = received, sr_blocks_reused = reused,
       sr_disconnected_blocks = ca_disconnected_blocks activation,
       sr_connected_blocks = ca_connected_blocks activation,
       sr_resurrected_transactions = resurrected, sr_mempool_received = mempool_received,
       sr_reorganized = (ca_activated activation \<and> ca_disconnected_blocks activation \<noteq> 0),
       sr_activated_candidate = ca_activated activation \<rparr>))))))))))))))))))"

subsection \<open>The header loop ends\<close>

text \<open>What a chain of announced headers is: linked, with rising heights and times.\<close>

definition follows_ok :: "crypto \<Rightarrow> header_record \<Rightarrow> header_record \<Rightarrow> bool" where
  "follows_ok C a b \<longleftrightarrow> hr_height b = hr_height a + 1 \<and> hash_hex C (hr_header a) = Inr (bh_previous_hash (hr_header b)) \<and>
     bh_time (hr_header a) < bh_time (hr_header b)"

definition linked_headers :: "crypto \<Rightarrow> header_record list \<Rightarrow> bool" where
  "linked_headers C hs \<longleftrightarrow> successively (follows_ok C) hs"

lemma follows_True: "follows C a b = Inr True \<longleftrightarrow>
    hr_height b = hr_height a + 1 \<and> hash_hex C (hr_header a) = Inr (bh_previous_hash (hr_header b))"
  by (auto simp: follows_def)

lemma linked_snoc:
  "linked_headers C (hs @ [h]) \<longleftrightarrow> linked_headers C hs \<and> (hs \<noteq> [] \<longrightarrow> follows_ok C (last hs) h)"
  by (auto simp: linked_headers_def successively_append_iff)

lemma append_header_Inr:
  "append_header C fork h hs = Inr r \<Longrightarrow> r = hs @ [h] \<and> (hs \<noteq> [] \<longrightarrow> follows_ok C (last hs) h) \<and>
     (hs = [] \<longrightarrow> bh_time (b_header (sb_block fork)) < bh_time (hr_header h))"
  by (auto simp: append_header_def follows_ok_def follows_True not_le split: if_splits)

lemma append_headers_Inr:
  "foldE (append_header C fork) batch hs = Inr r \<Longrightarrow> linked_headers C hs \<Longrightarrow>
     r = hs @ batch \<and> linked_headers C r \<and>
     (hs = [] \<longrightarrow> batch \<noteq> [] \<longrightarrow> bh_time (b_header (sb_block fork)) < bh_time (hr_header (hd batch)))"
proof (induction batch arbitrary: hs)
  case (Cons h batch)
  then obtain t where t: "append_header C fork h hs = Inr t" "foldE (append_header C fork) batch t = Inr r" by auto
  from append_header_Inr [OF t(1)] have a: "t = hs @ [h]" "hs \<noteq> [] \<longrightarrow> follows_ok C (last hs) h"
    "hs = [] \<longrightarrow> bh_time (b_header (sb_block fork)) < bh_time (hr_header h)" by blast+
  have "linked_headers C t" using Cons.prems(2) a by (simp add: linked_snoc)
  from Cons.IH [OF t(2) this] a show ?case by auto
qed simp

lemma linked_height:
  "linked_headers C (hs @ batch) \<Longrightarrow> hs \<noteq> [] \<Longrightarrow> unat (hr_height (last hs)) + length batch < 2 ^ 64 \<Longrightarrow>
     unat (hr_height (last (hs @ batch))) = unat (hr_height (last hs)) + length batch"
proof (induction batch rule: rev_induct)
  case (snoc h batch)
  then have l: "linked_headers C (hs @ batch)" "follows_ok C (last (hs @ batch)) h"
    using linked_snoc [of C "hs @ batch" h] by auto
  with snoc have u: "unat (hr_height (last (hs @ batch))) = unat (hr_height (last hs)) + length batch" by simp
  have "unat (hr_height (last (hs @ batch)) + 1) = unat (hr_height (last (hs @ batch))) + 1"
    using snoc.prems(3) u by (simp add: unat_word_ariths)
  with l(2) u show ?case by (simp add: follows_ok_def)
qed simp

lemma take_batch_Inr:
  assumes t: "take_batch C blocks best headers f batch = Inr (f', hs)" and l: "linked_headers C headers"
  shows "batch \<noteq> [] \<and> hs = headers @ batch \<and> linked_headers C hs \<and> hr_height (last hs) \<le> best \<and>
    (headers \<noteq> [] \<longrightarrow> f' = f) \<and>
    (headers = [] \<longrightarrow> scan_back C blocks (bh_previous_hash (hr_header (hd batch))) (length blocks) = Inr (Some f') \<and>
       hr_height (hd batch) = sb_height (blocks ! f') + 1 \<and>
       bh_time (b_header (sb_block (blocks ! f'))) < bh_time (hr_header (hd batch)))"
proof -
  obtain f2 where ne: "batch \<noteq> []" and f: "(if headers = [] then batch_fork C blocks (hd batch)
             else bindE (follows C (last headers) (hd batch)) (\<lambda>ok.
               if ok then Inr f else Inl (RuntimeError ''Peer returned non-contiguous header batches''))) = Inr f2"
    and a: "foldE (append_header C (blocks ! f2)) batch headers = Inr hs" and h: "hr_height (last hs) \<le> best" and e: "f' = f2"
    using t by (auto simp: take_batch_def not_less split: if_splits)
  from append_headers_Inr [OF a l] have "hs = headers @ batch" "linked_headers C hs"
    "headers = [] \<longrightarrow> batch \<noteq> [] \<longrightarrow> bh_time (b_header (sb_block (blocks ! f2))) < bh_time (hr_header (hd batch))"
    by blast+
  moreover have "headers = [] \<Longrightarrow> scan_back C blocks (bh_previous_hash (hr_header (hd batch))) (length blocks) = Inr (Some f2) \<and>
       hr_height (hd batch) = sb_height (blocks ! f2) + 1"
    using f by (auto simp: batch_fork_def split: option.splits if_splits)
  moreover have "headers \<noteq> [] \<Longrightarrow> f2 = f" using f by (auto split: if_splits)
  ultimately show ?thesis using ne h e by blast
qed

lemma bind_cong: "(\<And>x. f x = g x) \<Longrightarrow> bindS m f = bindS m g"
  by (rule arg_cong [where f = "bindS m"]) (rule ext)

lemma bind_lift_cong: "(\<And>x. r = Inr x \<Longrightarrow> f x = g x) \<Longrightarrow> bindS (liftS r) f = bindS (liftS r) g"
  by (cases r) (auto simp: bindS_def liftS_def fun_eq_iff)

definition rounds_left :: "u64 \<Rightarrow> header_record list \<Rightarrow> nat" where
  "rounds_left best headers =
     (if headers = [] then unat best + 2 else unat best - unat (hr_height (last headers)) + 1)"

lemma rounds_left_decreases:
  assumes "take_batch C blocks best headers f batch = Inr (f', hs)" "linked_headers C headers"
    and "headers \<noteq> [] \<longrightarrow> hr_height (last headers) \<le> best" "unat best \<le> 1000000" "length batch \<le> MAX_HEADERS_PER_RESPONSE"
  shows "rounds_left best hs < rounds_left best headers"
proof -
  note b = take_batch_Inr [OF assms(1,2)]
  then have hs: "hs = headers @ batch" "batch \<noteq> []" by blast+
  from b have "hr_height (last hs) \<le> best" by blast
  then have le: "unat (hr_height (last hs)) \<le> unat best" by (simp only: word_le_nat_alt)
  show ?thesis
  proof (cases "headers = []")
    case False
    then have "unat (hr_height (last headers)) \<le> 1000000" using assms(3,4) by (simp add: word_le_nat_alt)
    then have "unat (hr_height (last hs)) = unat (hr_height (last headers)) + length batch"
      using linked_height [of C headers batch] b False assms(5) by (simp add: hs(1) MAX_HEADERS_PER_RESPONSE_def)
    then show ?thesis using False hs le by (cases batch) (simp_all add: rounds_left_def)
  qed (use hs in \<open>simp add: rounds_left_def\<close>)
qed

lemma header_rounds_suc:
  "linked_headers C headers \<Longrightarrow> headers \<noteq> [] \<longrightarrow> hr_height (last headers) \<le> pv_best_height peer \<Longrightarrow>
     unat (pv_best_height peer) \<le> 1000000 \<Longrightarrow> rounds_left (pv_best_height peer) headers \<le> n \<Longrightarrow>
     header_rounds C N now rn peer (Suc n) locator f headers = header_rounds C N now rn peer n locator f headers"
proof (induction n arbitrary: locator f headers)
  case 0
  then show ?case by (simp add: rounds_left_def split: if_splits)
next
  case (Suc n)
  have step: "header_rounds C N now rn peer (Suc n) loc f' hs = header_rounds C N now rn peer n loc f' hs"
    if t: "take_batch C blocks (pv_best_height peer) headers f batch = Inr (f', hs)"
      and d: "deserialize_headers C payload = Inr batch" for blocks batch payload f' hs loc
  proof -
    note b = take_batch_Inr [OF t Suc.prems(1)]
    have "length batch \<le> MAX_HEADERS_PER_RESPONSE"
      using d by (simp add: deserialize_headers_iff serialize_headers_iff)
    from rounds_left_decreases [OF t Suc.prems(1,2,3) this] Suc.prems(4)
    have "rounds_left (pv_best_height peer) hs \<le> n" by linarith
    then show ?thesis using b by (intro Suc.IH Suc.prems(3)) auto
  qed
  show ?case
    unfolding header_rounds.simps(2) [of C N now rn peer "Suc n" locator f headers]
      header_rounds.simps(2) [of C N now rn peer n locator f headers]
  proof (rule bind_cong, rule bind_cong, rule bind_lift_cong, rule bind_cong, rule bind_lift_cong)
    fix response batch blocks x
    assume d: "deserialize_headers C (pm_payload response) = Inr batch"
      and t: "take_batch C blocks (pv_best_height peer) headers f batch = Inr x"
    obtain f' hs where x: "x = (f', hs)" by (cases x)
    show "(case x of (fork_index, headers) \<Rightarrow> bindS (liftS (hash_hex C (hr_header (last headers)))) (\<lambda>hash.
       if hash = pv_tip_hash peer
       then bindS (require (hr_height (last headers) = pv_best_height peer) ''Peer tip height does not match final header'')
              (\<lambda>_. returnS (fork_index, headers))
       else header_rounds C N now rn peer (Suc n) [hash, TESTNET_GENESIS_HASH] fork_index headers)) =
     (case x of (fork_index, headers) \<Rightarrow> bindS (liftS (hash_hex C (hr_header (last headers)))) (\<lambda>hash.
       if hash = pv_tip_hash peer
       then bindS (require (hr_height (last headers) = pv_best_height peer) ''Peer tip height does not match final header'')
              (\<lambda>_. returnS (fork_index, headers))
       else header_rounds C N now rn peer n [hash, TESTNET_GENESIS_HASH] fork_index headers))"
      using step [OF t [unfolded x] d] by (simp only: x prod.case)
  qed
qed

lemma header_rounds_enough:
  assumes "unat (pv_best_height peer) \<le> 1000000"
  shows "header_rounds C N now rn peer (header_fuel peer + k) locator f [] =
    header_rounds C N now rn peer (header_fuel peer) locator f []"
proof (induction k)
  case (Suc k)
  have "header_rounds C N now rn peer (Suc (header_fuel peer + k)) locator f [] =
      header_rounds C N now rn peer (header_fuel peer + k) locator f []"
    using assms by (intro header_rounds_suc) (simp_all add: linked_headers_def rounds_left_def header_fuel_def)
  with Suc show ?case by simp
qed simp

text \<open>What the loop returns: a chain of headers from a block of the own chain to the announced tip.\<close>

lemma header_rounds_Inr:
  "header_rounds C N now rn peer fuel locator f headers s = (Inr (f', hs), t) \<Longrightarrow> linked_headers C headers \<Longrightarrow>
     linked_headers C hs \<and> hs \<noteq> [] \<and> (\<exists>new. hs = headers @ new) \<and>
     hash_hex C (hr_header (last hs)) = Inr (pv_tip_hash peer) \<and> hr_height (last hs) = pv_best_height peer"
proof (induction fuel arbitrary: locator f headers s)
  case (Suc fuel)
  from Suc.prems(1) obtain batch blocks f1 hs1 h s1 where
      t1: "take_batch C blocks (pv_best_height peer) headers f batch = Inr (f1, hs1)"
    and h: "hash_hex C (hr_header (last hs1)) = Inr h"
    and k: "(if h = pv_tip_hash peer
       then bindS (require (hr_height (last hs1) = pv_best_height peer) ''Peer tip height does not match final header'')
              (\<lambda>_. returnS (f1, hs1))
       else header_rounds C N now rn peer fuel [h, TESTNET_GENESIS_HASH] f1 hs1) s1 = (Inr (f', hs), t)"
    by (auto simp: bindS_Inr liftS_def split: prod.splits)
  note b = take_batch_Inr [OF t1 Suc.prems(2)]
  show ?case
  proof (cases "h = pv_tip_hash peer")
    case True
    with k b h show ?thesis by (auto simp: bindS_Inr require_def returnS_def throwS_def split: if_splits)
  next
    case False
    with k have "header_rounds C N now rn peer fuel [h, TESTNET_GENESIS_HASH] f1 hs1 s1 = (Inr (f', hs), t)" by simp
    from Suc.IH [OF this] b show ?thesis by auto
  qed
qed (simp add: throwS_def)

end
