(* ===== verification/InstanceNet.thy ===== *)
theory InstanceNet
  imports InstanceRun NetSafety PeerSync
begin

section \<open>A running node for the witnesses\<close>

text \<open>
  The store of \<open>InstanceRun\<close> behind a session whose socket, clock and configuration are concrete, and the
  address functions of a system that knows two numeric addresses.
\<close>

subsection \<open>A node that holds the genesis chain\<close>

lemma toy_holds: "holds toy [toy_genesis] [] (st_disk toy_store)"
proof -
  have "triple (\<lambda>x. has (map_of (dk_files (st_disk empty_store))) (st_disk x)) (store_commit toy [toy_genesis] [])
    (\<lambda>_ x. some_committed (\<lambda>_. True) toy [toy_genesis] [] (st_disk x))
    (\<lambda>x. keeps {} (map_of (dk_files (st_disk empty_store))) (st_disk x) \<or>
      some_committed (\<lambda>_. True) toy [toy_genesis] [] (st_disk x))"
    by (rule store_commit_triple) (auto simp: free_generation_def)
  from tripleD(1) [OF this _ toy_store_commit(1)] empty_store_ok(1)
  obtain g where g: "committed toy g [toy_genesis] [] (st_disk toy_store)"
    by (auto simp: has_def some_committed_def)
  show ?thesis
    by (rule committed_holds [OF g toy_verify_one _ records_fresh [OF toy_ok toy_genesis_recordable toy_store_commit(3)]])
       (simp add: build_utxo_set_def sx_defs)
qed

definition toy_policy :: network_policy where
  "toy_policy = \<lparr> np_max_outbound = 8, np_max_inbound = 32, np_ban_threshold = 100, np_ban_seconds = 86400,
     np_ping_interval = 5000, np_ping_timeout = 15000, np_message_window = 10000, np_max_messages_per_window = 2000,
     np_socket_timeout_seconds = 10, np_use_compiled_seeds = True \<rparr>"

definition toy_config :: node_config where
  "toy_config = \<lparr> nc_bind_address = ''127.0.0.1'', nc_port = 26001, nc_nonce = 7, nc_policy = toy_policy \<rparr>"

definition toy_endpoint :: peer_endpoint where
  "toy_endpoint = \<lparr> pe_host = ''192.0.2.1'', pe_port = 26001 \<rparr>"

definition toy_env :: "bool res \<Rightarrow> round_env" where
  "toy_env readable = \<lparr> re_readable = readable, re_received_at = 0, re_now = 0, re_clock = 0, re_random = 1 \<rparr>"

definition toy_session :: "bytes call_result list \<Rightarrow> session" where
  "toy_session parts = \<lparr> lk_directory = ''data'', lk_disk = st_disk toy_store,
     lk_socket = \<lparr> so_recv = parts, so_send = [], so_sent = [] \<rparr>, ss_candidate = no_candidate,
     ss_knows_blocks = {}, ss_knows_transactions = {}, ss_score = 0,
     ss_stats = \<lparr> ls_relayed_blocks = 0, ls_relayed_transactions = 0, ls_headers_received = 0,
       ls_addresses_received = 0, ls_rejected_messages = 0, ls_rejected_connections = 0,
       ls_duplicate_connections = 0, ls_self_connections = 0, ls_banned_connections = 0,
       ls_timeout_disconnects = 0, ls_rate_limited_connections = 0 \<rparr>,
     ss_last_inventory_scan = 0, ss_last_ping = 0, ss_ping_sent = 0, ss_outstanding_ping = None,
     ss_window_started = 0, ss_messages_in_window = 0, ss_active_nonces = {}, ss_live_peers = [] \<rparr>"

lemma toy_session_disk [simp]: "lk_disk (toy_session parts) = st_disk toy_store"
  by (simp add: toy_session_def)

text \<open>A peer that closes the connection in the middle of a message ends the session without a score.\<close>

lemma toy_round_closed:
  "fst (session_round toy N toy_config toy_endpoint (toy_env (Inr True)) (toy_session [])) = Inr False"
  by (simp add: session_round_def turn_def read_message_def receive_def socket_do_def receive_message_def
      receive_exact_def recv_loop.simps MESSAGE_HEADER_SIZE_def toy_env_def toy_session_def sx_defs over_threshold_def
      toy_config_def toy_policy_def turn_failed_def starts_with_def mentions_def sublist_code)

subsection \<open>Numeric addresses\<close>

text \<open>The texts of addresses are their hexadecimal bytes; all that matters is that they read back.\<close>

definition hex_address :: "nat \<Rightarrow> string \<Rightarrow> bytes option" where
  "hex_address n h = (case hex_to_bytes h of Inr a \<Rightarrow> if length a = n then Some a else None | Inl _ \<Rightarrow> None)"

definition toy_inet :: inet where
  "toy_inet = \<lparr> in_pton4 = hex_address 4, in_pton6 = hex_address 16,
     in_ntop4 = (\<lambda>a. Some (bytes_to_hex a)), in_ntop6 = (\<lambda>a. Some (bytes_to_hex a)) \<rparr>"

lemma toy_inet_ok: "inet_ok toy_inet"
proof -
  have h: "hex_address n (bytes_to_hex a) = Some a" if "length a = n" for n a
    using that by (simp add: hex_address_def)
  have v: "valid_host (bytes_to_hex a)" if "a \<noteq> []" "length a \<le> 16" for a
  proof -
    have "c \<in> set (bytes_to_hex a) \<Longrightarrow> lower_hex c" for c
      using bytes_to_hex_lower [of a] by (simp add: list_all_iff)
    moreover have "\<not> lower_hex tab" "\<not> lower_hex newline" "\<not> lower_hex carriage_return"
      by (simp_all add: lower_hex_def less_eq_char_def carriage_return_def)
    moreover have "bytes_to_hex a \<noteq> []"
      using that(1) length_bytes_to_hex [of a] by (metis length_0_conv mult_is_0 zero_neq_numeral)
    ultimately show ?thesis using that(2) by (auto simp: valid_host_def)
  qed
  show ?thesis
    by (auto simp: inet_ok_def toy_inet_def hex_address_def split: sum.splits if_splits intro: h v)
qed

end
