(* ===== verification/WalletLaws.thy ===== *)
theory WalletLaws
  imports PaymentLaws
begin

section \<open>The wallet file and the owned scripts\<close>

text \<open>
  \<open>wallet_ok\<close>: the master key is that of the entropy, keys are valid and a valid cache holds exactly the owned
  keys. What \<open>save_hd\<close> wrote is loaded again as the same wallet, if the indices are within the limit of the
  loader, and refused otherwise. The wallet finds the key of every address it has handed out.
\<close>

subsection \<open>Well-formed wallets\<close>

definition master_of :: "crypto \<Rightarrow> kdf \<Rightarrow> bytes \<Rightarrow> hd_private_key res" where
  "master_of C K entropy =
     bindE (entropy_to_mnemonic C entropy) (\<lambda>phrase. bindE (mnemonic_to_seed K phrase []) (bip32_master K))"

definition pair_of :: "crypto \<Rightarrow> bytes \<Rightarrow> (bytes \<times> bytes) res" where
  "pair_of C secret = bindE (make_p2pk_script C (c_public_key C secret)) (\<lambda>script. Inr (script, secret))"

definition branch_pairs :: "crypto \<Rightarrow> kdf \<Rightarrow> wallet \<Rightarrow> u32 \<Rightarrow> u32 \<Rightarrow> (bytes \<times> bytes) list res" where
  "branch_pairs C K w branch limit =
     mapE (\<lambda>index. bindE (hd_key C K w branch (of_nat index)) (pair_of C)) [0..<unat limit]"

definition owned_pairs :: "crypto \<Rightarrow> kdf \<Rightarrow> wallet \<Rightarrow> (bytes \<times> bytes) list res" where
  "owned_pairs C K w =
     bindE (if wl_kind w = HdBip32 then
         bindE (branch_pairs C K w 0 (wl_next_receive w + LOOKAHEAD)) (\<lambda>receive.
         bindE (branch_pairs C K w 1 (wl_next_change w + LOOKAHEAD)) (\<lambda>change. Inr (receive @ change)))
       else Inr []) (\<lambda>hd.
     bindE (case wl_legacy_key w of None \<Rightarrow> Inr [] | Some secret \<Rightarrow> bindE (pair_of C secret) (\<lambda>p. Inr [p])) (\<lambda>legacy.
       Inr (hd @ legacy)))"

definition wallet_ok :: "crypto \<Rightarrow> kdf \<Rightarrow> wallet \<Rightarrow> bool" where
  "wallet_ok C K w \<longleftrightarrow>
     (\<forall>e m. wl_entropy w = Some e \<longrightarrow> wl_master w = Some m \<longrightarrow> length e = 32 \<and> master_of C K e = Inr m) \<and>
     pred_option (valid_secret_key K) (wl_legacy_key w) \<and>
     (wl_cache_valid w \<longrightarrow> owned_pairs C K w = Inr (wl_cache w))"

lemma set_hd_entropy_eq:
  "set_hd_entropy C K e w =
     (case master_of C K e of
        Inl x \<Rightarrow> (Inl x, w \<lparr> wl_entropy := Some e \<rparr>)
      | Inr m \<Rightarrow> (Inr (), w \<lparr> wl_entropy := Some e, wl_master := Some m, wl_kind := HdBip32, wl_next_receive := 1,
          wl_next_change := 1, wl_cache_valid := False, wl_cache := [] \<rparr>))"
  by (auto simp: set_hd_entropy_def master_of_def clear_cache_def sx_defs bindE_def split: sum.splits)

lemma hd_key_cong:
  "wl_master w = wl_master v \<Longrightarrow> hd_key C K w = hd_key C K v"
  by (auto simp: hd_key_def fun_eq_iff)

lemma owned_pairs_cong:
  "wl_master w = wl_master v \<Longrightarrow> wl_kind w = wl_kind v \<Longrightarrow> wl_legacy_key w = wl_legacy_key v \<Longrightarrow>
     wl_next_receive w = wl_next_receive v \<Longrightarrow> wl_next_change w = wl_next_change v \<Longrightarrow> owned_pairs C K w = owned_pairs C K v"
  by (simp add: owned_pairs_def branch_pairs_def hd_key_cong [of w v])

subsection \<open>The cache\<close>

lemma cache_loop:
  "mapE (\<lambda>index. bindE (hd_key C K w branch (of_nat index)) (pair_of C)) is = Inr ps \<Longrightarrow>
     foldS (cache_index C K branch) is w = (Inr (), w \<lparr> wl_cache := wl_cache w @ ps \<rparr>)"
proof (induction "is" arbitrary: w ps)
  case (Cons i "is")
  from Cons.prems obtain p qs where p: "bindE (hd_key C K w branch (of_nat i)) (pair_of C) = Inr p"
    and qs: "mapE (\<lambda>index. bindE (hd_key C K w branch (of_nat index)) (pair_of C)) is = Inr qs" and ps: "ps = p # qs" by auto
  let ?v = "w \<lparr> wl_cache := wl_cache w @ [p] \<rparr>"
  have k: "hd_key C K ?v = hd_key C K w" by (rule hd_key_cong) simp
  have "cache_index C K branch i w = (Inr (), ?v)"
    using p by (auto simp: cache_index_def cache_key_def pair_of_def sx_defs bindE_def split: sum.splits)
  then have "foldS (cache_index C K branch) (i # is) w = foldS (cache_index C K branch) is ?v" by (simp add: bindS_def)
  also have "\<dots> = (Inr (), ?v \<lparr> wl_cache := wl_cache ?v @ qs \<rparr>)" using Cons.IH [of ?v qs] qs unfolding k by blast
  finally show ?case by (simp add: ps)
qed (simp add: returnS_def)

lemma rebuild_cache:
  assumes "wallet_ok C K w" and "owned_pairs C K w = Inr ps"
  shows "rebuild_owned_cache C K w = (Inr (), w \<lparr> wl_cache := ps, wl_cache_valid := True \<rparr>)"
proof (cases "wl_cache_valid w")
  case True
  then have "wl_cache w = ps" using assms by (simp add: wallet_ok_def)
  then show ?thesis using True by (cases w) (simp add: rebuild_owned_cache_def sx_defs)
next
  case False
  have k: "hd_key C K (w \<lparr> wl_cache := x \<rparr>) = hd_key C K w" for x by (rule hd_key_cong) simp
  show ?thesis using False assms(2)
    by (auto simp: rebuild_owned_cache_def owned_pairs_def branch_pairs_def sx_defs cache_loop k cache_key_def pair_of_def
        split: if_splits option.splits sum.splits)
qed

lemma key_lookup:
  "wallet_ok C K w \<Longrightarrow> owned_pairs C K w = Inr ps \<Longrightarrow>
     key_for_script C K script w = (Inr (map_of ps script), w \<lparr> wl_cache := ps, wl_cache_valid := True \<rparr>)"
  by (simp add: key_for_script_def run_bind [OF rebuild_cache] getS_def)

subsection \<open>Derived keys exist\<close>

definition keys_ok :: "crypto \<Rightarrow> kdf \<Rightarrow> bool" where
  "keys_ok C K \<longleftrightarrow> (\<forall>s. valid_secret_key K s \<longrightarrow> valid_compressed_public_key C (c_public_key C s))"

lemma master_of_valid: "master_of C K e = Inr m \<Longrightarrow> valid_secret_key K (hk_secret m)"
  by (auto simp: master_of_def bip32_master_def split: if_splits)

lemma hd_key_valid: "hd_key C K w branch index = Inr s \<Longrightarrow> valid_secret_key K s"
  by (auto simp: hd_key_def from_secret_bytes_def split: option.splits if_splits)

text \<open>Every key up to the look-ahead of both branches can be derived. BIP 32 leaves it open: some index may have no key.\<close>

definition derivable :: "crypto \<Rightarrow> kdf \<Rightarrow> wallet \<Rightarrow> bool" where
  "derivable C K w \<longleftrightarrow>
     list_all (\<lambda>i. \<not> isl (hd_key C K w 0 (of_nat i))) [0..<unat (wl_next_receive w + LOOKAHEAD)] \<and>
     list_all (\<lambda>i. \<not> isl (hd_key C K w 1 (of_nat i))) [0..<unat (wl_next_change w + LOOKAHEAD)]"

lemma derivable_cong:
  "wl_master w = wl_master v \<Longrightarrow> wl_next_receive w = wl_next_receive v \<Longrightarrow> wl_next_change w = wl_next_change v \<Longrightarrow>
     derivable C K w = derivable C K v"
  by (simp add: derivable_def hd_key_cong [of w v])

lemma pair_of_total: "keys_ok C K \<Longrightarrow> valid_secret_key K s \<Longrightarrow> \<exists>p. pair_of C s = Inr p"
  by (simp add: pair_of_def make_p2pk_script_def keys_ok_def)

lemma mapE_isl: "isl (mapE f xs) \<longleftrightarrow> \<not> list_all (\<lambda>x. \<not> isl (f x)) xs"
proof (induction xs)
  case (Cons x xs)
  then show ?case by (cases "f x"; cases "mapE f xs") (simp_all add: bindE_def)
qed simp

lemma branch_pairs_isl:
  assumes "keys_ok C K"
  shows "\<not> isl (branch_pairs C K w b n) \<longleftrightarrow> list_all (\<lambda>i. \<not> isl (hd_key C K w b (of_nat i))) [0..<unat n]"
proof -
  have "\<not> isl (bindE (hd_key C K w b i) (pair_of C)) \<longleftrightarrow> \<not> isl (hd_key C K w b i)" for i
    using hd_key_valid [of C K w b i] pair_of_total [OF assms] by (cases "hd_key C K w b i") fastforce+
  then show ?thesis by (simp add: branch_pairs_def mapE_isl)
qed

lemma owned_pairs_isl:
  assumes "keys_ok C K" and "wl_kind w = HdBip32" and "pred_option (valid_secret_key K) (wl_legacy_key w)"
  shows "\<not> isl (owned_pairs C K w) \<longleftrightarrow> derivable C K w"
proof -
  let ?r = "branch_pairs C K w 0 (wl_next_receive w + LOOKAHEAD)" and ?c = "branch_pairs C K w 1 (wl_next_change w + LOOKAHEAD)"
  obtain l where "(case wl_legacy_key w of None \<Rightarrow> Inr [] | Some secret \<Rightarrow> bindE (pair_of C secret) (\<lambda>p. Inr [p])) = Inr l"
    using assms(3) pair_of_total [OF assms(1)] by (cases "wl_legacy_key w") fastforce+
  then have "\<not> isl (owned_pairs C K w) \<longleftrightarrow> \<not> isl ?r \<and> \<not> isl ?c"
    using assms(2) by (cases ?r; cases ?c) (simp_all add: owned_pairs_def)
  then show ?thesis unfolding derivable_def branch_pairs_isl [OF assms(1)] .
qed

lemma pair_of_Inr: "pair_of C s = Inr (script, k) \<longleftrightarrow> k = s \<and> make_p2pk_script C (c_public_key C s) = Inr script"
  by (auto simp: pair_of_def)

lemma owned_pairs_scripts:
  assumes "owned_pairs C K w = Inr ps" and "(script, k) \<in> set ps"
  shows "make_p2pk_script C (c_public_key C k) = Inr script"
proof -
  have m: "make_p2pk_script C (c_public_key C k) = Inr script"
    if "mapE (\<lambda>index. bindE (f index) (pair_of C)) is = Inr qs" "(script, k) \<in> set qs" for f :: "nat \<Rightarrow> bytes res" and "is" qs
    using that by (induction "is" arbitrary: qs) (auto simp: pair_of_Inr)
  show ?thesis using assms m unfolding owned_pairs_def branch_pairs_def
    by (auto simp: pair_of_Inr split: if_splits option.splits)
qed

text \<open>A receiving key below the look-ahead is found by its script.\<close>

lemma receive_key_owned:
  assumes "owned_pairs C K w = Inr ps" and "wl_kind w = HdBip32" and "i < unat (wl_next_receive w + LOOKAHEAD)"
    and "hd_key C K w 0 (of_nat i) = Inr s" and "make_p2pk_script C (c_public_key C s) = Inr script"
  shows "\<exists>k. map_of ps script = Some k \<and> c_public_key C k = c_public_key C s"
proof -
  have m: "(script, s) \<in> set qs"
    if "mapE (\<lambda>index. bindE (hd_key C K w 0 (of_nat index)) (pair_of C)) is = Inr qs" "i \<in> set is" for "is" qs
    using that assms(4,5) by (induction "is" arbitrary: qs) (auto simp: pair_of_def)
  obtain r where "branch_pairs C K w 0 (wl_next_receive w + LOOKAHEAD) = Inr r" "set r \<subseteq> set ps"
    using assms(1,2) by (auto simp: owned_pairs_def)
  then have "(script, s) \<in> set ps" using m [of "[0..<unat (wl_next_receive w + LOOKAHEAD)]" r] assms(3)
    by (auto simp: branch_pairs_def)
  then obtain k where k: "map_of ps script = Some k" by (metis weak_map_of_SomeI)
  then have "make_p2pk_script C (c_public_key C k) = Inr script"
    using owned_pairs_scripts [OF assms(1)] map_of_SomeD by metis
  then have "c_public_key C k = c_public_key C s" using assms(5) by (auto simp: make_p2pk_script_def split: if_splits)
  with k show ?thesis by blast
qed

subsection \<open>Saving and loading\<close>

lemma save_hd_disk:
  assumes "save_hd w = (r, v)"
  shows "v = w \<lparr> wl_disk := wl_disk v \<rparr>"
  using assms by (auto simp: save_hd_def sx_defs on_wallet_disk_def split: option.splits if_splits prod.splits sum.splits)

lemma save_hd_Inr:
  assumes "save_hd w = (Inr (), v)" and "disk_ok (wl_disk w)"
  shows "\<exists>e m. wl_entropy w = Some e \<and> wl_master w = Some m \<and> v = w \<lparr> wl_disk := wl_disk v \<rparr> \<and>
    map_of (dk_files (wl_disk v)) wallet_path = Some (string_bytes (unlines (wallet_lines e w)))"
proof -
  obtain e m where e: "wl_entropy w = Some e" "wl_master w = Some m"
    using assms(1) by (auto simp: save_hd_def sx_defs split: option.splits if_splits)
  then obtain d where d: "save_text wallet_path ''Unable to create HD wallet file'' [''Unable to write HD wallet file'']
      (map Inr (wallet_lines e w)) (wl_disk w) = (Inr (), d)"
    and io: "on_wallet_disk (io_call ''Unable to restrict wallet permissions'') (w \<lparr> wl_disk := d \<rparr>) = (Inr (), v)"
    using assms(1) by (auto simp: save_hd_def sx_defs on_wallet_disk_def split: prod.splits sum.splits)
  have "dk_files (wl_disk v) = dk_files d"
    using io by (auto simp: on_wallet_disk_def dest!: io_call_files split: prod.splits)
  moreover have "map_of (dk_files d) wallet_path = Some (string_bytes (unlines (wallet_lines e w)))"
    using save_text_Inr [OF d assms(2)] by (auto simp: map_eq_conv inj_map_eq_map [OF inj_Inr])
  ultimately show ?thesis using e save_hd_disk [OF assms(1)] by simp
qed

lemma hex_no_newline: "newline \<notin> set (bytes_to_hex e)"
  using bytes_to_hex_lower [of e] by (auto simp: list_all_iff lower_hex_def)

lemma digits_no_newline: "newline \<notin> set (show_nat n)"
  using show_nat_digits [of n] by (auto simp: list_all_iff)

lemma wallet_lines_ok: "l \<in> set (wallet_lines e w) \<Longrightarrow> newline \<notin> set l"
  using hex_no_newline digits_no_newline by (auto simp: wallet_lines_def HD_MAGIC_def secret_hex_def split: option.splits)

lemma read_field_line:
  "CHR ''='' \<notin> set name \<Longrightarrow> read_field (name @ CHR ''='' # v) entries = map_put name v entries"
proof -
  assume "CHR ''='' \<notin> set name"
  then have "list_all (\<lambda>c. c \<noteq> CHR ''='') name" by (auto simp: list_all_iff)
  from takeWhile_word [OF this, of "CHR ''='' # v"] show ?thesis by (simp add: read_field_def)
qed

lemma read_wallet_fields:
  "map_of (read_fields (tl (wallet_lines e w))) =
     (if wl_legacy_key w = None then Map.empty else [''legacy_secret'' \<mapsto> secret_hex (the (wl_legacy_key w))]) ++
     [''entropy'' \<mapsto> bytes_to_hex e, ''next_receive'' \<mapsto> show_nat (unat (wl_next_receive w)),
      ''next_change'' \<mapsto> show_nat (unat (wl_next_change w))]"
proof -
  note f = read_field_line [of "''entropy''", simplified] read_field_line [of "''next_receive''", simplified]
    read_field_line [of "''next_change''", simplified] read_field_line [of "''legacy_secret''", simplified]
  show ?thesis
    by (auto simp: wallet_lines_def read_fields_def f map_of_put fun_eq_iff map_add_def split: option.splits)
qed

lemma parse_index:
  "map_of fs name = Some (show_nat (unat (v :: u32))) \<Longrightarrow> parse_u32_field fs name =
     (if 1000000 < unat v then Inl (RuntimeError ''Invalid wallet index'') else Inr v)"
proof -
  assume "map_of fs name = Some (show_nat (unat v))"
  moreover have "unat v \<le> ULONG_MAX" using unsigned_less [of v, where 'a = nat] by simp
  ultimately show ?thesis by (simp add: parse_u32_field_def stoul_show)
qed

definition reopened_wallet :: "wallet \<Rightarrow> wallet" where
  "reopened_wallet w = w \<lparr> wl_kind := HdBip32, wl_cache_valid := False, wl_cache := [], wl_disk := (wl_disk w) \<lparr> dk_io := [] \<rparr> \<rparr>"

lemma load_saved:
  assumes ok: "wallet_ok C K w" and save: "save_hd w = (Inr (), v)" and disk: "disk_ok (wl_disk w)"
    and u: "wl_disk u = (wl_disk v) \<lparr> dk_io := [] \<rparr>"
  shows "unat (wl_next_receive w) \<le> 1000000 \<and> unat (wl_next_change w) \<le> 1000000 \<and>
      load_wallet C K u = (Inr (), reopened_wallet v) \<or>
    (1000000 < unat (wl_next_receive w) \<or> 1000000 < unat (wl_next_change w)) \<and>
      fst (load_wallet C K u) = Inl (RuntimeError ''Invalid wallet index'')"
proof -
  obtain e m where e: "wl_entropy w = Some e" "wl_master w = Some m" and v: "v = w \<lparr> wl_disk := wl_disk v \<rparr>"
    and stored: "map_of (dk_files (wl_disk v)) wallet_path = Some (string_bytes (unlines (wallet_lines e w)))"
    using save_hd_Inr [OF save disk] by blast
  have em: "length e = 32" "master_of C K e = Inr m" and leg: "pred_option (valid_secret_key K) (wl_legacy_key w)"
    using ok e by (auto simp: wallet_ok_def)
  define fs where "fs = read_fields (tl (wallet_lines e w))"
  note fields = read_wallet_fields [of e w, folded fs_def]
  have f: "map_of fs ''entropy'' = Some (bytes_to_hex e)"
    "map_of fs ''next_receive'' = Some (show_nat (unat (wl_next_receive w)))"
    "map_of fs ''next_change'' = Some (show_nat (unat (wl_next_change w)))"
    "map_of fs ''legacy_secret'' = map_option secret_hex (wl_legacy_key w)"
    unfolding fields by (auto simp: map_add_def split: option.splits)
  define u1 where "u1 = u \<lparr> wl_entropy := None, wl_master := None, wl_legacy_key := None \<rparr>"
  have io: "dk_io (wl_disk u1) = []" and files: "dk_files (wl_disk u1) = dk_files (wl_disk v)" by (simp_all add: u1_def u)
  have "getlines (unlines (wallet_lines e w)) = wallet_lines e w" by (rule getlines_unlines) (rule wallet_lines_ok)
  then have inp: "wallet_input wallet_path msg u1 = (Inr (wallet_lines e w), u1)" for msg
    using io stored files
    by (simp add: wallet_input_def on_wallet_disk_def stream_call_def io_call_def sx_defs file_content_def)
  have magic: "wallet_lines e w \<noteq> []" "hd (wallet_lines e w) = HD_MAGIC" by (simp_all add: wallet_lines_def)
  have "file_exists (wl_disk u1) wallet_path" by (simp add: file_exists_def files stored)
  then have "load_wallet C K u = load_hd_file C K u1"
    by (simp add: load_wallet_def run_modify run_get flip: u1_def)
  also have "\<dots> = (if 1000000 < unat (wl_next_receive w)
      then (Inl (RuntimeError ''Invalid wallet index''), snd (load_hd_file C K u1))
      else if 1000000 < unat (wl_next_change w)
      then (Inl (RuntimeError ''Invalid wallet index''), snd (load_hd_file C K u1)) else (Inr (), reopened_wallet v))"
  proof -
    have l: "load_hd_file C K u1 = bindS (liftS (hex_to_bytes (bytes_to_hex e))) (\<lambda>entropy.
           if length entropy \<noteq> 32 then throwS (RuntimeError ''HD wallet entropy has invalid length'')
           else
             bindS (set_hd_entropy C K entropy) (\<lambda>_.
             bindS (liftS (parse_u32_field fs ''next_receive'')) (\<lambda>receive.
             bindS (modifyS (\<lambda>w. w \<lparr> wl_next_receive := receive \<rparr>)) (\<lambda>_.
             bindS (liftS (parse_u32_field fs ''next_change'')) (\<lambda>change.
             bindS (modifyS (\<lambda>w. w \<lparr> wl_next_change := change \<rparr>)) (\<lambda>_.
             bindS clear_cache (\<lambda>_.
             case map_of fs ''legacy_secret'' of
               None \<Rightarrow> returnS ()
             | Some secret_text \<Rightarrow>
                 bindS (liftS (from_secret_hex K secret_text)) (\<lambda>secret.
                   modifyS (\<lambda>w. w \<lparr> wl_legacy_key := Some secret \<rparr>))))))))) u1"
      unfolding load_hd_file_def run_bind [where m = "wallet_input wallet_path ''Invalid or unsupported HD wallet file''", OF inp] using magic by (simp add: fs_def [symmetric] f(1) Let_def)
    show ?thesis
      using leg e u arg_cong [OF v, of wl_entropy] arg_cong [OF v, of wl_master] arg_cong [OF v, of wl_legacy_key]
        arg_cong [OF v, of wl_next_receive] arg_cong [OF v, of wl_next_change]
      unfolding l f
      by (cases "wl_legacy_key w"; cases u; cases v)
         (auto simp: em set_hd_entropy_eq parse_index [OF f(2)] parse_index [OF f(3)] sx_defs clear_cache_def
           secret_hex_roundtrip reopened_wallet_def u1_def)
  qed
  finally show ?thesis by auto
qed

subsection \<open>Addresses\<close>

lemma new_address_Inr:
  assumes "get_new_address C K w = (Inr a, v)"
  shows "wl_kind w = HdBip32 \<and> (\<exists>s. hd_key C K w 0 (wl_next_receive w) = Inr s \<and>
    encode_testnet_address C (c_public_key C s) = Inr a \<and>
    save_hd (w \<lparr> wl_next_receive := wl_next_receive w + 1, wl_cache_valid := False, wl_cache := [] \<rparr>) = (Inr (), v))"
  using assms by (auto simp: get_new_address_def bindS_Inr liftS_def getS_def throwS_def modifyS_def returnS_def clear_cache_def
      split: if_splits)

text \<open>The wallet knows the key of an address: paying it can be spent.\<close>

definition knows_address :: "crypto \<Rightarrow> kdf \<Rightarrow> string \<Rightarrow> wallet \<Rightarrow> bool" where
  "knows_address C K a w \<longleftrightarrow> (\<exists>pk script key w'. decode_testnet_address C a = Inr pk \<and> make_p2pk_script C pk = Inr script \<and>
     key_for_script C K script w = (Inr (Some key), w') \<and> c_public_key C key = pk)"

lemma knows_receive_address:
  assumes keys: "keys_ok C K" and ok: "wallet_ok C K w" "wl_kind w = HdBip32" "derivable C K w"
    and i: "i < unat (wl_next_receive w + LOOKAHEAD)" and s: "hd_key C K w 0 (of_nat i) = Inr s"
    and a: "encode_testnet_address C (c_public_key C s) = Inr a"
  shows "knows_address C K a w"
proof -
  obtain ps where ps: "owned_pairs C K w = Inr ps"
    using owned_pairs_isl [OF keys ok(2)] ok(1,3) by (cases "owned_pairs C K w") (auto simp: wallet_ok_def)
  have "valid_compressed_public_key C (c_public_key C s)" using a by (auto simp: encode_testnet_address_def split: if_splits)
  then obtain script where script: "make_p2pk_script C (c_public_key C s) = Inr script" by (simp add: make_p2pk_script_def)
  show ?thesis
    using receive_key_owned [OF ps ok(2) i s script] key_lookup [OF ok(1) ps, of script] decode_encode [OF a] script
    unfolding knows_address_def by fastforce
qed

lemma new_address_known:
  assumes keys: "keys_ok C K" and ok: "wallet_ok C K w" "disk_ok (wl_disk w)" and n: "unat (wl_next_receive w) < 2 ^ 32 - 21"
    and new: "get_new_address C K w = (Inr a, v)"
  shows "derivable C K v \<Longrightarrow> knows_address C K a v"
    and "wallet_ok C K v \<and> wl_kind v = HdBip32 \<and> \<not> wl_cache_valid v \<and> wl_next_receive v = wl_next_receive w + 1"
    and "wl_disk u = (wl_disk v) \<lparr> dk_io := [] \<rparr> \<Longrightarrow> load_wallet C K u = (Inr (), u') \<Longrightarrow>
      wallet_ok C K u' \<and> wl_kind u' = HdBip32 \<and> \<not> wl_cache_valid u' \<and> derivable C K u' = derivable C K v \<and>
      (derivable C K v \<longrightarrow> knows_address C K a u')"
proof -
  define x where "x = w \<lparr> wl_next_receive := wl_next_receive w + 1, wl_cache_valid := False, wl_cache := [] \<rparr>"
  obtain s where kind: "wl_kind w = HdBip32" and s: "hd_key C K w 0 (wl_next_receive w) = Inr s"
    and a: "encode_testnet_address C (c_public_key C s) = Inr a" and save: "save_hd x = (Inr (), v)"
    using new_address_Inr [OF new] unfolding x_def by blast
  have okx: "wallet_ok C K x" "disk_ok (wl_disk x)" using ok by (simp_all add: wallet_ok_def x_def)
  obtain e m where e: "wl_entropy x = Some e" "wl_master x = Some m" and v: "v = x \<lparr> wl_disk := wl_disk v \<rparr>"
    using save_hd_Inr [OF save okx(2)] by blast
  have fv: "wl_entropy v = Some e" "wl_master v = Some m" "wl_kind v = HdBip32" "wl_next_receive v = wl_next_receive w + 1"
    "wl_next_change v = wl_next_change w" "wl_legacy_key v = wl_legacy_key w" "\<not> wl_cache_valid v"
    using e kind by (subst v, simp add: x_def)+
  have okv: "wallet_ok C K v" using okx(1) fv e by (simp add: wallet_ok_def x_def)
  have "unat (wl_next_receive w + 1 + LOOKAHEAD) = unat (wl_next_receive w) + 21"
    using n by (simp add: LOOKAHEAD_def add.assoc unat_add_lem [THEN iffD1])
  then have i: "unat (wl_next_receive w) < unat (wl_next_receive v + LOOKAHEAD)" by (simp add: fv)
  have k: "hd_key C K y 0 (of_nat (unat (wl_next_receive w))) = Inr s" if "wl_master y = Some m" for y
    using s e hd_key_cong [of y w C K] that by (simp add: x_def)
  show "wallet_ok C K v \<and> wl_kind v = HdBip32 \<and> \<not> wl_cache_valid v \<and> wl_next_receive v = wl_next_receive w + 1"
    using okv fv by blast
  show "knows_address C K a v" if "derivable C K v"
    by (rule knows_receive_address [OF keys okv fv(3) that i k [OF fv(2)] a])
  assume u: "wl_disk u = (wl_disk v) \<lparr> dk_io := [] \<rparr>" and l: "load_wallet C K u = (Inr (), u')"
  have u': "u' = reopened_wallet v" using load_saved [OF okx(1) save okx(2) u] l by auto
  have fu: "wl_entropy u' = Some e" "wl_master u' = Some m" "wl_kind u' = HdBip32" "wl_next_receive u' = wl_next_receive v"
    using fv by (simp_all add: u' reopened_wallet_def)
  have d: "derivable C K u' = derivable C K v" by (rule derivable_cong) (simp_all add: u' reopened_wallet_def)
  have ok': "wallet_ok C K u'" using okv fv by (simp add: wallet_ok_def u' reopened_wallet_def)
  have "knows_address C K a u'" if "derivable C K u'"
    using knows_receive_address [OF keys ok' fu(3) that _ k [OF fu(2)] a] i fu(4) by simp
  then show "wallet_ok C K u' \<and> wl_kind u' = HdBip32 \<and> \<not> wl_cache_valid u' \<and> derivable C K u' = derivable C K v \<and>
      (derivable C K v \<longrightarrow> knows_address C K a u')"
    using d ok' fu(3) by (simp add: u' reopened_wallet_def)
qed

end
