(* ===== verification/MnemonicLaws.thy ===== *)
theory MnemonicLaws
  imports Mnemonic
begin

section \<open>A recovery phrase and its entropy determine each other\<close>

text \<open>
  \<open>bit_at\<close> reads a byte list as a sequence of bits, most significant first. The eleven bits of word \<open>k\<close> are
  the bits \<open>11 k\<close> to \<open>11 k + 10\<close> of the 264 bits of entropy and checksum, in both directions.
\<close>

unbundle bit_operations_syntax

definition bit_at :: "bytes \<Rightarrow> nat \<Rightarrow> bool" where
  "bit_at data a = bit (data ! (a div 8)) (7 - a mod 8)"

lemma bit_at_ext:
  assumes "length xs = length ys" and "\<And>a. a < 8 * length xs \<Longrightarrow> bit_at xs a = bit_at ys a"
  shows "xs = ys"
proof (rule nth_equalityI)
  show "xs ! i = ys ! i" if "i < length xs" for i
  proof (rule bit_word_eqI)
    fix n assume "n < LENGTH(8)"
    then have n: "n < 8" by simp
    have "8 * i + (7 - n) < 8 * length xs" using that n by linarith
    moreover have "(8 * i + k) div 8 = i" "(8 * i + k) mod 8 = k" if "k < 8" for k using that by simp_all
    then have "(8 * i + (7 - n)) div 8 = i" "7 - (8 * i + (7 - n)) mod 8 = n" using n by (auto simp del: add_diff_assoc)
    ultimately show "bit (xs ! i) n = bit (ys ! i) n"
      using assms(2) [of "8 * i + (7 - n)"] unfolding bit_at_def by metis
  qed
qed (rule assms(1))

subsection \<open>The bits of a word index\<close>

lemma shift_in:
  "bit (push_bit 1 i OR ucast (w AND (1 :: u8)) :: u16) m \<longleftrightarrow> (if m = 0 then bit w 0 else m < 16 \<and> bit i (m - 1))"
  unfolding bit_or_iff bit_push_bit_iff by (cases m) (auto simp: bit_simps)

lemma shifted_bits:
  "n \<le> 11 \<Longrightarrow> bit (foldl (\<lambda>index b. push_bit 1 index OR ucast (v b AND (1 :: u8))) (0 :: u16) [0..<n]) m \<longleftrightarrow>
     m < n \<and> bit (v (n - 1 - m)) 0"
proof (induction n arbitrary: m)
  case (Suc n)
  have "[0..<Suc n] = [0..<n] @ [n]" by simp
  then show ?case using Suc.IH [of "m - 1"] Suc.prems
    by (cases m) (simp_all only: foldl_append foldl.simps shift_in, auto)
qed simp

lemma phrase_index_bits: "bit (phrase_index data k) m \<longleftrightarrow> m < 11 \<and> bit_at data (k * 11 + (10 - m))"
  unfolding phrase_index_def bit_value_def using shifted_bits [of 11] by (simp add: bit_at_def bit_simps)

lemma small_index: "(\<And>m. bit (i :: u16) m \<Longrightarrow> m < 11) \<Longrightarrow> unat i < 2048"
proof -
  assume "\<And>m. bit i m \<Longrightarrow> m < 11"
  then have "take_bit 11 i = i" unfolding take_bit_bits by (meson not_le)
  then have "take_bit 11 (unat i) = unat i" by (metis unsigned_take_bit_eq)
  then show ?thesis by (simp add: take_bit_nat_eq_self_iff)
qed

lemma phrase_index_less: "unat (phrase_index data k) < 2048"
  by (rule small_index) (simp add: phrase_index_bits)

subsection \<open>Placing the words\<close>

lemma place_bits:
  assumes "pos + n \<le> 8 * length data" and "foldl (\<lambda>s b. place_bit index b s) (data, pos) (rev [0..<n]) = (data', pos')"
  shows "length data' = length data \<and> pos' = pos + n \<and> (\<forall>a < 8 * length data.
    bit_at data' a = (pos \<le> a \<and> a < pos + n \<and> bit index (n - 1 - (a - pos)) \<or> bit_at data a))"
  using assms
proof (induction n arbitrary: data pos)
  case (Suc n)
  define one where "one = (if drop_bit n index AND 1 \<noteq> 0
    then data[pos div 8 := data ! (pos div 8) OR push_bit (7 - pos mod 8) 1] else data)"
  have len: "length one = length data" by (simp add: one_def)
  have bits: "bit_at one a = (a = pos \<and> bit index n \<or> bit_at data a)" if "a < 8 * length data" for a
  proof -
    have "drop_bit n index AND 1 \<noteq> 0 \<longleftrightarrow> bit index n" by (simp add: and_one_neq_zero bit_simps)
    moreover have "a div 8 < length data" "pos div 8 < length data" using that Suc.prems(1) by linarith+
    moreover have "bit (push_bit (7 - pos mod 8) (1 :: u8)) (7 - a mod 8) \<longleftrightarrow> pos mod 8 = a mod 8"
      by (auto simp: bit_simps)
    moreover have "pos div 8 = a div 8 \<and> pos mod 8 = a mod 8 \<longleftrightarrow> a = pos" by (metis div_mod_decomp)
    ultimately show ?thesis by (auto simp: one_def bit_at_def nth_list_update bit_simps)
  qed
  have f: "foldl (\<lambda>s b. place_bit index b s) (one, pos + 1) (rev [0..<n]) = (data', pos')"
    using Suc.prems(2) by (simp add: place_bit_def one_def)
  have "length data' = length one \<and> pos' = pos + 1 + n \<and> (\<forall>a < 8 * length one.
      bit_at data' a = (pos + 1 \<le> a \<and> a < pos + 1 + n \<and> bit index (n - 1 - (a - (pos + 1))) \<or> bit_at one a))"
    by (rule Suc.IH [OF _ f]) (use Suc.prems(1) len in simp)
  moreover have "(pos + 1 \<le> a \<and> a < pos + 1 + n \<and> bit index (n - 1 - (a - (pos + 1))) \<or> a = pos \<and> bit index n) \<longleftrightarrow>
      pos \<le> a \<and> a < pos + Suc n \<and> bit index (Suc n - 1 - (a - pos))" for a
    by (cases "a = pos") auto
  ultimately show ?case using bits len by auto
qed auto

text \<open>After the words with indices \<open>is\<close>, bit \<open>a\<close> is bit \<open>a mod 11\<close> of word \<open>a div 11\<close>, from the top.\<close>

lemma place_words:
  assumes "list_all2 (\<lambda>w i. word_index w = Some i) ws is" and "11 * length ws + pos \<le> 8 * length data"
    and "foldE place_word ws (data, pos) = Inr (data', pos')"
  shows "length data' = length data \<and> (\<forall>a < 8 * length data. bit_at data' a =
    (pos \<le> a \<and> a < pos + 11 * length ws \<and> bit (is ! ((a - pos) div 11)) (10 - (a - pos) mod 11) \<or> bit_at data a))"
  using assms
proof (induction ws "is" arbitrary: data pos rule: list_all2_induct)
  case (Cons w ws i "is")
  obtain one p where one: "foldl (\<lambda>s b. place_bit i b s) (data, pos) (rev [0..<11]) = (one, p)" by fastforce
  have b: "length one = length data \<and> p = pos + 11 \<and> (\<forall>a < 8 * length data.
      bit_at one a = (pos \<le> a \<and> a < pos + 11 \<and> bit i (10 - (a - pos)) \<or> bit_at data a))"
    using place_bits [OF _ one] Cons.prems(1) by simp
  have "foldE place_word ws (one, p) = Inr (data', pos')"
  proof -
    have "place_word w (data, pos) = Inr (one, p)" using Cons.hyps(1) one by (simp add: place_word_def)
    then show ?thesis using Cons.prems(2) by simp
  qed
  then have IH: "length data' = length one \<and> (\<forall>a < 8 * length one. bit_at data' a =
      (p \<le> a \<and> a < p + 11 * length ws \<and> bit (is ! ((a - p) div 11)) (10 - (a - p) mod 11) \<or> bit_at one a))"
    using Cons.IH [of p one] Cons.prems(1) b by simp
  have shift: "(pos + 11 \<le> a \<and> a < pos + 11 + 11 * length ws \<and> bit (is ! ((a - (pos + 11)) div 11)) (10 - (a - (pos + 11)) mod 11) \<or>
      pos \<le> a \<and> a < pos + 11 \<and> bit i (10 - (a - pos))) \<longleftrightarrow>
      pos \<le> a \<and> a < pos + 11 * length (w # ws) \<and> bit ((i # is) ! ((a - pos) div 11)) (10 - (a - pos) mod 11)" for a
  proof (cases "a < pos + 11")
    case True
    then show ?thesis by auto
  next
    case False
    then obtain c where c: "a = pos + 11 + c" by (metis add.commute le_Suc_ex not_le)
    have "(11 + c) div 11 = Suc (c div 11)" "(11 + c) mod 11 = c mod 11" by simp_all
    then show ?thesis unfolding c by (simp add: add.assoc)
  qed
  show ?case using IH b shift by auto
qed auto

lemma place_words_total:
  "list_all2 (\<lambda>w i. word_index w = Some i) ws is \<Longrightarrow> \<exists>s'. foldE place_word ws s = Inr s'"
  by (induction ws "is" arbitrary: s rule: list_all2_induct) (auto simp: place_word_def)

lemma place_words_Inr: "foldE place_word ws s = Inr s' \<Longrightarrow> \<exists>is. list_all2 (\<lambda>w i. word_index w = Some i) ws is"
proof (induction ws arbitrary: s)
  case (Cons w ws)
  then obtain s1 where "place_word w s = Inr s1" "foldE place_word ws s1 = Inr s'" by auto
  with Cons.IH obtain i "is" where "word_index w = Some i" "list_all2 (\<lambda>w i. word_index w = Some i) ws is"
    by (fastforce simp: place_word_def split: option.splits)
  then show ?case by (intro exI [of _ "i # is"]) simp
qed (intro exI [of _ "[]"], simp)

subsection \<open>Entropy and phrase\<close>

lemma zeros: "a < 264 \<Longrightarrow> \<not> bit_at (replicate 33 0) a"
  by (simp add: bit_at_def)

lemma place_all:
  assumes "list_all2 (\<lambda>w i. word_index w = Some i) ws is" and "length ws = 24"
  obtains data pos where "foldE place_word ws (replicate 33 0, 0) = Inr (data, pos)" "length data = 33"
    "\<And>a. a < 264 \<Longrightarrow> bit_at data a = bit (is ! (a div 11)) (10 - a mod 11)"
proof -
  obtain data pos where f: "foldE place_word ws (replicate 33 0, 0) = Inr (data, pos)"
    using place_words_total [OF assms(1)] by (metis surj_pair)
  have "length data = length (replicate 33 (0 :: u8)) \<and> (\<forall>a < 8 * length (replicate 33 (0 :: u8)). bit_at data a =
      (0 \<le> a \<and> a < 0 + 11 * length ws \<and> bit (is ! ((a - 0) div 11)) (10 - (a - 0) mod 11) \<or> bit_at (replicate 33 0) a))"
    by (rule place_words [OF assms(1) _ f]) (simp add: assms(2))
  with f zeros show thesis by (intro that [of data pos]) (auto simp: assms(2))
qed

lemma phrase_words:
  "mnemonic_words (join (CHR '' '') (map (\<lambda>k. WORDS ! unat (phrase_index data k)) [0..<24])) =
     map (\<lambda>k. WORDS ! unat (phrase_index data k)) [0..<24]"
proof -
  let ?ws = "map (\<lambda>k. WORDS ! unat (phrase_index data k)) [0..<24]"
  have w: "is_word w \<and> map to_lower w = w" if "w \<in> set ?ws" for w
    using that phrase_index_less length_WORDS by (intro word_is_word) auto
  then have "list_all is_word ?ws" by (auto simp: list_all_iff)
  then have "mnemonic_words (join (CHR '' '') ?ws) = map (map to_lower) ?ws"
    by (simp add: mnemonic_words_def normalize_spaces_idem stream_words_join)
  also have "\<dots> = ?ws" by (rule map_idI) (use w in blast)
  finally show ?thesis .
qed

lemma phrase_roundtrip:
  assumes "crypto_ok C" and "length entropy = 32"
  shows "\<exists>phrase. entropy_to_mnemonic C entropy = Inr phrase \<and> mnemonic_to_entropy C phrase = Inr entropy"
proof -
  let ?h = "c_sha256 C entropy"
  define data where "data = entropy @ [hd ?h]"
  define ws where "ws = map (\<lambda>k. WORDS ! unat (phrase_index data k)) [0..<24]"
  have h: "sha256 C entropy = Inr ?h" using assms(1) by (simp add: sha256_def sha256_once_ok)
  have idx: "list_all2 (\<lambda>w i. word_index w = Some i) ws (map (phrase_index data) [0..<24])"
    and n: "length ws = 24"
    by (simp_all add: ws_def list_all2_conv_all_nth word_index_iff phrase_index_less)
  obtain got pos where f: "foldE place_word ws (replicate 33 0, 0) = Inr (got, pos)" and len: "length got = 33"
    and bits: "\<And>a. a < 264 \<Longrightarrow> bit_at got a = bit (map (phrase_index data) [0..<24] ! (a div 11)) (10 - a mod 11)"
    by (rule place_all [OF idx n]) (rule that)
  have "got = data"
  proof (rule bit_at_ext)
    show "bit_at got a = bit_at data a" if "a < 8 * length got" for a
    proof -
      have a: "a < 264" using that len by simp
      then have "a div 11 < 24" by linarith
      moreover have "a div 11 * 11 + (10 - (10 - a mod 11)) = a" by simp
      moreover have "10 - a mod 11 < 11" by linarith
      ultimately show ?thesis using bits [OF a] by (simp add: phrase_index_bits)
    qed
  qed (simp add: len data_def assms(2))
  moreover have "mnemonic_words (join (CHR '' '') ws) = ws" unfolding ws_def by (rule phrase_words)
  moreover have "take 32 data = entropy" "last data = hd ?h" using assms(2) by (simp_all add: data_def)
  ultimately have "mnemonic_to_entropy C (join (CHR '' '') ws) = Inr entropy"
    using f h n by (simp add: mnemonic_to_entropy_def)
  moreover have "entropy_to_mnemonic C entropy = Inr (join (CHR '' '') ws)"
    using h by (simp add: entropy_to_mnemonic_def ws_def data_def)
  ultimately show ?thesis by blast
qed

lemma phrase_unique:
  assumes "mnemonic_to_entropy C phrase = Inr entropy"
  shows "length entropy = 32 \<and> entropy_to_mnemonic C entropy = Inr (join (CHR '' '') (mnemonic_words phrase))"
proof -
  define ws where "ws = mnemonic_words phrase"
  obtain data pos h where n: "length ws = 24" and f: "foldE place_word ws (replicate 33 0, 0) = Inr (data, pos)"
    and h: "sha256 C (take 32 data) = Inr h" and l: "last data = hd h" and e: "entropy = take 32 data"
    using assms by (auto simp: mnemonic_to_entropy_def Let_def ws_def split: if_splits)
  obtain "is" where idx: "list_all2 (\<lambda>w i. word_index w = Some i) ws is" using place_words_Inr [OF f] by blast
  obtain got p where "foldE place_word ws (replicate 33 0, 0) = Inr (got, p)" and len: "length got = 33"
    and bits: "\<And>a. a < 264 \<Longrightarrow> bit_at got a = bit (is ! (a div 11)) (10 - a mod 11)"
    using place_all [OF idx n] by blast
  with f have got: "got = data" by simp
  have split: "data = take 32 data @ [hd h]"
  proof -
    have "data = butlast data @ [last data]" using len got by (intro append_butlast_last_id [symmetric]) auto
    moreover have "butlast data = take 32 data" using len got by (simp add: butlast_conv_take)
    ultimately show ?thesis using l by simp
  qed
  have "ws ! k = WORDS ! unat (phrase_index data k)" if "k < 24" for k
  proof -
    have w: "word_index (ws ! k) = Some (is ! k)" using idx that n by (simp add: list_all2_conv_all_nth)
    have "is ! k = phrase_index data k"
    proof (rule bit_word_eqI)
      fix m assume "m < LENGTH(16)"
      show "bit (is ! k) m = bit (phrase_index data k) m"
      proof (cases "m < 11")
        case True
        have "k * 11 + (10 - m) < 264" using that by linarith
        moreover have "(k * 11 + (10 - m)) div 11 = k" "(k * 11 + (10 - m)) mod 11 = 10 - m" by simp_all
        ultimately have "bit_at data (k * 11 + (10 - m)) = bit (is ! k) (10 - (10 - m))"
          using bits got by metis
        then show ?thesis using True by (simp add: phrase_index_bits)
      next
        case False
        have "unat (is ! k) < 2 ^ 11" using w by (simp add: word_index_iff)
        then have "take_bit 11 (unat (is ! k)) = unat (is ! k)" by (simp add: take_bit_nat_eq_self_iff)
        then have "take_bit 11 (is ! k) = is ! k" by (metis unsigned_take_bit_eq word_unat_eq_iff)
        then show ?thesis using False by (simp add: take_bit_bits phrase_index_bits)
      qed
    qed
    with w show ?thesis by (simp add: word_index_iff)
  qed
  then have "ws = map (\<lambda>k. WORDS ! unat (phrase_index data k)) [0..<24]"
    using n by (intro nth_equalityI) simp_all
  then show ?thesis
    using h split len got by (simp add: entropy_to_mnemonic_def e ws_def)
qed

end
