(* ===== verification/WalletRun.thy ===== *)
theory WalletRun
  imports WalletLaws MnemonicLaws
begin

section \<open>Every state a wallet reaches is consistent\<close>

text \<open>
  \<open>manager_step\<close>: one call of the wallet manager, or of its back end as the node makes them, that returned or
  threw. \<open>manager_reach\<close>: the states such calls lead to. The back end of every such state is \<open>wallet_ok\<close>, also where
  a key derivation failed: the back end then has an entropy and no master key. A back end is loaded at most once, by the manager, just after it was made:
  \<^verbatim>\<open>load\<close> on a back end in use would drop the keys before the cache.
\<close>

inductive manager_step :: "crypto \<Rightarrow> kdf \<Rightarrow> manager \<Rightarrow> manager \<Rightarrow> bool" for C K where
  create: "pred_option (\<lambda>e. length e = 32) random \<Longrightarrow> manager_create C K directory random name s = (r, s') \<Longrightarrow> manager_step C K s s'"
| import_phrase: "manager_import C K directory phrase name s = (u, s') \<Longrightarrow> manager_step C K s s'"
| load: "manager_load C K s = (u, s') \<Longrightarrow> manager_step C K s s'"
| upgrade: "pred_option (\<lambda>e. length e = 32) random \<Longrightarrow> manager_upgrade C K random s = (r, s') \<Longrightarrow> manager_step C K s s'"
| address: "on_backend (get_new_address C K) s = (r, s') \<Longrightarrow> manager_step C K s s'"
| balance: "on_backend (wallet_balance_of C K utxos height) s = (b, s') \<Longrightarrow> manager_step C K s s'"
| payment: "on_backend (create_payment C K utxos height dest amount rate) s = (p, s') \<Longrightarrow> manager_step C K s s'"

inductive manager_reach :: "crypto \<Rightarrow> kdf \<Rightarrow> disk \<Rightarrow> manager \<Rightarrow> bool" for C K d where
  start: "manager_reach C K d (d, None)"
| step: "manager_reach C K d s \<Longrightarrow> manager_step C K s s' \<Longrightarrow> manager_reach C K d s'"

definition wallet_inv :: "crypto \<Rightarrow> kdf \<Rightarrow> wallet \<Rightarrow> bool" where
  "wallet_inv C K w \<longleftrightarrow> wallet_ok C K w \<and> disk_ok (wl_disk w) \<and>
     (wl_master w \<noteq> None \<longrightarrow> wl_entropy w \<noteq> None)"

abbreviation maintains :: "('s \<Rightarrow> bool) \<Rightarrow> ('s, 'a) sx \<Rightarrow> bool" where
  "maintains I m \<equiv> triple I m (\<lambda>_. I) I"

lemma maintainsI: "(\<And>s r s'. I s \<Longrightarrow> m s = (r, s') \<Longrightarrow> I s') \<Longrightarrow> maintains I m"
  by (rule tripleI) blast+

lemma maintainsD: "maintains I m \<Longrightarrow> I s \<Longrightarrow> m s = (r, s') \<Longrightarrow> I s'"
  by (cases r) (auto dest: tripleD)

lemma maintains_bind: "maintains I m \<Longrightarrow> (\<And>x. maintains I (f x)) \<Longrightarrow> maintains I (bindS m f)"
  by (rule triple_bind)

lemmas maintains_intros = maintains_bind triple_return triple_throw triple_get triple_lift triple_if

lemma maintains_option:
  "(x = None \<Longrightarrow> maintains I m) \<Longrightarrow> (\<And>y. x = Some y \<Longrightarrow> maintains I (f y)) \<Longrightarrow> maintains I (case x of None \<Rightarrow> m | Some y \<Rightarrow> f y)"
  by (cases x) simp_all

lemma maintains_if: "(b \<Longrightarrow> maintains I m) \<Longrightarrow> (\<not> b \<Longrightarrow> maintains I n) \<Longrightarrow> maintains I (if b then m else n)"
  by simp

lemma bind_lift: "(\<And>x. r = Inr x \<Longrightarrow> maintains I (f x)) \<Longrightarrow> maintains I (bindS (liftS r) f)"
  by (auto simp: triple_def bindS_def liftS_def split: sum.splits)

subsection \<open>The operations\<close>

lemma maintains_clear: "maintains (wallet_inv C K) clear_cache"
  unfolding clear_cache_def by (rule triple_modify) (simp add: wallet_inv_def wallet_ok_def)

text \<open>The entropy is set where there is no master key, so that a derivation that fails leaves none: the back end is new, or
  was just loaded.\<close>

definition keyless :: "crypto \<Rightarrow> kdf \<Rightarrow> wallet \<Rightarrow> bool" where
  "keyless C K w \<longleftrightarrow> wallet_inv C K w \<and> \<not> wl_cache_valid w \<and> wl_master w = None"

lemma maintains_disk:
  assumes "maintains disk_ok m"
  shows "maintains (wallet_inv C K) (on_wallet_disk m)"
proof -
  have "wallet_ok C K (w \<lparr> wl_disk := d \<rparr>) = wallet_ok C K w" for w d
    using owned_pairs_cong [of "w \<lparr> wl_disk := d \<rparr>" w C K] by (simp add: wallet_ok_def)
  then show ?thesis
    using assms unfolding triple_def on_wallet_disk_def wallet_inv_def by (fastforce split: prod.splits sum.splits)
qed

lemma maintains_io: "maintains disk_ok (io_call a)"
  by (auto intro!: tripleI simp: disk_ok_def dest: io_call_files)

lemma maintains_stream: "maintains disk_ok (stream_call a)"
  by (auto intro!: tripleI simp: stream_call_def disk_ok_def dest!: io_call_files split: prod.splits sum.splits)

lemma maintains_save_text: "maintains disk_ok (save_text p a cs ls)"
  by (intro tripleI) (blast dest: save_text_Inr save_text_Inl)+

lemma maintains_save: "maintains (wallet_inv C K) save_hd"
  unfolding save_hd_def
  by (intro maintains_bind maintains_disk maintains_io maintains_save_text triple_get triple_throw triple_if
       | simp split: option.split | intro conjI allI impI)+

lemma maintains_input: "maintains (wallet_inv C K) (wallet_input p a)"
  unfolding wallet_input_def by (intro maintains_bind maintains_disk maintains_stream triple_get)

lemma secret_hex_valid: "from_secret_hex K t = Inr s \<Longrightarrow> valid_secret_key K s"
  by (auto simp: from_secret_hex_def from_secret_bytes_def split: if_splits)

text \<open>While loading there is no cache to keep in step with the fields, and a legacy wallet has no master key.\<close>

definition loading :: "crypto \<Rightarrow> kdf \<Rightarrow> wallet \<Rightarrow> bool" where
  "loading C K w \<longleftrightarrow> wallet_inv C K w \<and> \<not> wl_cache_valid w \<and> (wl_kind w = LegacySingleKey \<longrightarrow> wl_master w = None)"

lemma loading_inv: "loading C K w \<Longrightarrow> wallet_inv C K w"
  by (simp add: loading_def)

lemma keyless_loading: "keyless C K w \<Longrightarrow> loading C K w"
  by (simp add: loading_def keyless_def)

lemma loading_keyless: "loading C K w \<Longrightarrow> wl_kind w = LegacySingleKey \<Longrightarrow> keyless C K w"
  by (simp add: loading_def keyless_def)

lemma loading_update:
  assumes "\<And>w. wl_cache_valid (f w) = wl_cache_valid w" "\<And>w. wl_disk (f w) = wl_disk w" "\<And>w. wl_kind (f w) = wl_kind w"
    "\<And>w. wl_entropy (f w) = wl_entropy w" "\<And>w. wl_master (f w) = wl_master w"
    "\<And>w. pred_option (valid_secret_key K) (wl_legacy_key w) \<Longrightarrow> pred_option (valid_secret_key K) (wl_legacy_key (f w))"
  shows "maintains (loading C K) (modifyS f)"
  using assms by (intro triple_modify) (auto simp: loading_def wallet_inv_def wallet_ok_def)

lemma set_entropy_triple:
  "length e = 32 \<Longrightarrow> triple (keyless C K) (set_hd_entropy C K e) (\<lambda>_. loading C K) (keyless C K)"
  by (auto simp: triple_def set_hd_entropy_eq keyless_def loading_def wallet_inv_def wallet_ok_def split: sum.splits)

lemma keyless_error: "triple P m Q (keyless C K) \<Longrightarrow> triple P m Q (wallet_inv C K)"
  by (erule triple_conseq) (auto simp: keyless_def)

lemma entropy_then:
  assumes "length e = 32" and "\<And>x. triple (loading C K) (f x) Q (wallet_inv C K)"
  shows "triple (keyless C K) (bindS (set_hd_entropy C K e) f) Q (wallet_inv C K)"
  by (rule triple_bind [OF keyless_error [OF set_entropy_triple [OF assms(1)]] assms(2)])

lemma loading_clear: "maintains (loading C K) clear_cache"
  unfolding clear_cache_def by (rule triple_modify) (simp add: loading_def wallet_inv_def wallet_ok_def)

lemma keyless_input: "maintains (keyless C K) (wallet_input p a)"
proof -
  have "wl_cache_valid w' = wl_cache_valid w \<and> wl_master w' = wl_master w" if "wallet_input p a w = (r, w')" for r w w'
    using that by (auto simp: wallet_input_def on_wallet_disk_def sx_defs split: prod.splits sum.splits)
  then show ?thesis using maintains_input [of C K p a] unfolding triple_def keyless_def
    by (auto split: prod.splits sum.splits)
qed

lemma loading_error: "maintains (loading C K) m \<Longrightarrow> triple (loading C K) m (\<lambda>_. loading C K) (wallet_inv C K)"
  by (erule triple_conseq) (auto simp: loading_inv)

lemma loading_bind:
  "maintains (loading C K) m \<Longrightarrow> (\<And>x. triple (loading C K) (f x) Q (wallet_inv C K)) \<Longrightarrow>
     triple (loading C K) (bindS m f) Q (wallet_inv C K)"
  by (rule triple_bind [OF loading_error])

lemma keyless_lift:
  "(\<And>x. r = Inr x \<Longrightarrow> triple (keyless C K) (f x) Q (wallet_inv C K)) \<Longrightarrow>
     triple (keyless C K) (bindS (liftS r) f) Q (wallet_inv C K)"
  by (auto simp: triple_def bindS_def liftS_def keyless_def split: sum.splits)

lemma keyless_get:
  "(\<And>x. triple (keyless C K) (f x) Q (wallet_inv C K)) \<Longrightarrow> triple (keyless C K) (bindS (getS g) f) Q (wallet_inv C K)"
  by (rule triple_bind [OF triple_get [where Q = "\<lambda>_. keyless C K"]])

lemma keyless_throw: "triple (keyless C K) (throwS x) Q (wallet_inv C K)"
  by (rule triple_throw) (simp add: keyless_def)

lemma loading_hd_fields:
  "maintains (loading C K) (
     bindS (liftS (parse_u32_field entries ''next_receive'')) (\<lambda>receive.
     bindS (modifyS (\<lambda>w. w \<lparr> wl_next_receive := receive \<rparr>)) (\<lambda>_.
     bindS (liftS (parse_u32_field entries ''next_change'')) (\<lambda>change.
     bindS (modifyS (\<lambda>w. w \<lparr> wl_next_change := change \<rparr>)) (\<lambda>_.
     bindS clear_cache (\<lambda>_.
     case map_of entries ''legacy_secret'' of
       None \<Rightarrow> returnS ()
     | Some secret_text \<Rightarrow>
         bindS (liftS (from_secret_hex K secret_text)) (\<lambda>secret.
           modifyS (\<lambda>w. w \<lparr> wl_legacy_key := Some secret \<rparr>))))))))"
  by (rule triple_return loading_clear maintains_option bind_lift maintains_bind loading_update | (simp add: secret_hex_valid; fail))+

lemma triple_option:
  "(x = None \<Longrightarrow> triple P m Q E) \<Longrightarrow> (\<And>y. x = Some y \<Longrightarrow> triple P (f y) Q E) \<Longrightarrow>
     triple P (case x of None \<Rightarrow> m | Some y \<Rightarrow> f y) Q E"
  by (cases x) simp_all

lemma triple_cond: "(b \<Longrightarrow> triple P m Q E) \<Longrightarrow> (\<not> b \<Longrightarrow> triple P n Q E) \<Longrightarrow> triple P (if b then m else n) Q E"
  by simp

lemma loading_hd_file: "triple (keyless C K) (load_hd_file C K) (\<lambda>_. loading C K) (wallet_inv C K)"
  unfolding load_hd_file_def Let_def
  by (intro triple_bind [OF keyless_error [OF keyless_input]] triple_cond keyless_throw triple_option keyless_lift entropy_then
      loading_error [OF loading_hd_fields]) simp_all

lemma keyless_modify: "(\<And>w. keyless C K w \<Longrightarrow> loading C K (f w)) \<Longrightarrow>
    triple (keyless C K) (modifyS f) (\<lambda>_. loading C K) (wallet_inv C K)"
  by (rule triple_modify)

lemma loading_legacy_file: "triple (keyless C K) (load_legacy_file K) (\<lambda>_. loading C K) (wallet_inv C K)"
  unfolding load_legacy_file_def
  by (intro keyless_get triple_bind [OF keyless_error [OF keyless_input]] triple_cond keyless_throw keyless_lift
        triple_bind [OF keyless_modify] loading_error [OF loading_clear])
     (simp_all add: keyless_def loading_def wallet_inv_def wallet_ok_def secret_hex_valid)

lemma loading_load: "triple (loading C K) (load_wallet C K) (\<lambda>_. loading C K) (wallet_inv C K)"
proof -
  have "triple (loading C K) (modifyS (\<lambda>w. w \<lparr> wl_entropy := None, wl_master := None, wl_legacy_key := None \<rparr>))
      (\<lambda>_. keyless C K) (wallet_inv C K)"
    by (rule triple_modify) (simp add: loading_def keyless_def wallet_inv_def wallet_ok_def)
  then show ?thesis
    unfolding load_wallet_def
    by (rule triple_bind) (intro keyless_get triple_cond loading_hd_file loading_legacy_file)
qed

lemma generated_length:
  "pred_option (\<lambda>e. length e = 32) random \<Longrightarrow> generate_entropy256 random = Inr e \<Longrightarrow> length e = 32"
  by (auto simp: generate_entropy256_def split: option.splits)

lemma loading_save: "triple (loading C K) save_hd (\<lambda>_. wallet_inv C K) (wallet_inv C K)"
  by (rule triple_conseq [OF maintains_save]) (auto simp: loading_inv)

lemma maintains_create:
  assumes "pred_option (\<lambda>e. length e = 32) random"
  shows "triple (keyless C K) (create_wallet C K directory random) (\<lambda>_. wallet_inv C K) (wallet_inv C K)"
  unfolding create_wallet_def
  by (intro keyless_get triple_cond keyless_throw keyless_lift entropy_then triple_bind [OF loading_save] triple_lift)
     (simp_all add: generated_length [OF assms])

lemma maintains_import: "triple (keyless C K) (import_mnemonic C K directory phrase) (\<lambda>_. wallet_inv C K) (wallet_inv C K)"
  unfolding import_mnemonic_def
  by (intro keyless_get triple_cond keyless_throw keyless_lift entropy_then loading_save)
     (auto dest: phrase_unique)

lemma loading_upgrade:
  assumes "pred_option (\<lambda>e. length e = 32) random"
  shows "triple (loading C K) (upgrade_legacy C K random) (\<lambda>_. wallet_inv C K) (wallet_inv C K)"
proof -
  have upd: "triple (loading C K) (bindS (modifyS (\<lambda>w. w \<lparr> wl_legacy_key := preserved \<rparr>)) f) Q (wallet_inv C K)"
    if "pred_option (valid_secret_key K) preserved" "\<And>x. triple (loading C K) (f x) Q (wallet_inv C K)"
    for preserved Q and f :: "unit \<Rightarrow> (wallet, string) sx"
    by (rule loading_bind [OF loading_update that(2)]) (use that(1) in simp_all)
  have get: "triple (loading C K) (getS (\<lambda>w. (wl_kind w, wl_legacy_key w)))
      (\<lambda>x w. loading C K w \<and> wl_kind w = fst x \<and> pred_option (valid_secret_key K) (snd x)) (wallet_inv C K)"
    by (rule triple_get) (simp add: loading_def wallet_inv_def wallet_ok_def)
  have rest: "triple (\<lambda>w. loading C K w \<and> wl_kind w = fst x \<and> pred_option (valid_secret_key K) (snd x)) (case x of (kind, preserved) \<Rightarrow>
      if kind \<noteq> LegacySingleKey \<or> preserved = None then throwS (RuntimeError ''Legacy wallet could not be loaded'')
      else bindS (liftS (generate_entropy256 random)) (\<lambda>entropy. bindS (set_hd_entropy C K entropy) (\<lambda>_.
        bindS (modifyS (\<lambda>w. w \<lparr> wl_legacy_key := preserved \<rparr>)) (\<lambda>_. bindS save_hd (\<lambda>_. liftS (entropy_to_mnemonic C entropy))))))
      (\<lambda>_. wallet_inv C K) (wallet_inv C K)" for x
  proof (cases "pred_option (valid_secret_key K) (snd x) \<and> fst x = LegacySingleKey")
    case True
    have "triple (keyless C K) (bindS (liftS (generate_entropy256 random)) (\<lambda>entropy. bindS (set_hd_entropy C K entropy) (\<lambda>_.
        bindS (modifyS (\<lambda>w. w \<lparr> wl_legacy_key := snd x \<rparr>)) (\<lambda>_. bindS save_hd (\<lambda>_. liftS (entropy_to_mnemonic C entropy))))))
        (\<lambda>_. wallet_inv C K) (wallet_inv C K)"
      by (intro keyless_lift entropy_then upd triple_bind [OF loading_save] triple_lift)
         (use True in \<open>simp_all add: generated_length [OF assms]\<close>)
    then have "triple (\<lambda>w. loading C K w \<and> wl_kind w = fst x \<and> pred_option (valid_secret_key K) (snd x)) (bindS (liftS (generate_entropy256 random)) (\<lambda>entropy. bindS (set_hd_entropy C K entropy) (\<lambda>_.
        bindS (modifyS (\<lambda>w. w \<lparr> wl_legacy_key := snd x \<rparr>)) (\<lambda>_. bindS save_hd (\<lambda>_. liftS (entropy_to_mnemonic C entropy))))))
        (\<lambda>_. wallet_inv C K) (wallet_inv C K)"
      by (rule triple_conseq) (use True in \<open>auto simp: loading_keyless\<close>)
    then show ?thesis by (cases x) (auto intro!: triple_throw simp: loading_inv)
  qed (cases x, auto simp: loading_inv triple_def throwS_def)
  show ?thesis unfolding upgrade_legacy_def
    by (intro triple_bind [OF triple_get [of "loading C K" "\<lambda>_. loading C K"]] triple_if triple_throw triple_bind [OF loading_load]
        triple_bind [OF get] rest) (simp_all add: loading_inv)
qed

lemma new_wallet_keyless: "disk_ok d \<Longrightarrow> keyless C K (new_wallet d)"
  by (simp add: keyless_def wallet_inv_def wallet_ok_def new_wallet_def)

lemma maintains_new_address: "maintains (wallet_inv C K) (get_new_address C K)"
proof -
  have upd: "maintains (wallet_inv C K) (bindS (modifyS (\<lambda>w. w \<lparr> wl_next_receive := wl_next_receive w + 1 \<rparr>)) (\<lambda>_.
      bindS clear_cache k))" if "\<And>x. maintains (wallet_inv C K) (k x)" for k :: "unit \<Rightarrow> (wallet, string) sx"
  proof -
    have "maintains (wallet_inv C K) (bindS (modifyS (\<lambda>w. w \<lparr> wl_next_receive := wl_next_receive w + 1, wl_cache_valid := False,
        wl_cache := [] \<rparr>)) k)"
      by (rule maintains_bind [OF triple_modify that]) (simp add: wallet_inv_def wallet_ok_def)
    then show ?thesis by (simp add: clear_cache_def bindS_def modifyS_def triple_def)
  qed
  show ?thesis unfolding get_new_address_def
    by (intro maintains_bind [OF triple_get] maintains_if triple_throw bind_lift upd maintains_bind [OF maintains_save] triple_return)
qed

subsection \<open>Reading the balance and paying\<close>

lemma cache_loop_Inl:
  "mapE (\<lambda>index. bindE (hd_key C K w branch (of_nat index)) (pair_of C)) is = Inl x \<Longrightarrow>
     \<exists>c. foldS (cache_index C K branch) is w = (Inl x, w \<lparr> wl_cache := c \<rparr>)"
proof (induction "is" arbitrary: w)
  case (Cons i "is")
  show ?case
  proof (cases "bindE (hd_key C K w branch (of_nat i)) (pair_of C)")
    case (Inl y)
    then have "cache_index C K branch i w = (Inl y, w)"
      by (auto simp: cache_index_def cache_key_def pair_of_def sx_defs bindE_def split: sum.splits)
    then show ?thesis using Inl Cons.prems by (intro exI [of _ "wl_cache w"]) (simp add: bindS_def)
  next
    case (Inr p)
    let ?v = "w \<lparr> wl_cache := wl_cache w @ [p] \<rparr>"
    have k: "hd_key C K ?v = hd_key C K w" by (rule hd_key_cong) simp
    have "cache_index C K branch i w = (Inr (), ?v)"
      using Inr by (auto simp: cache_index_def cache_key_def pair_of_def sx_defs bindE_def split: sum.splits)
    then have f: "foldS (cache_index C K branch) (i # is) w = foldS (cache_index C K branch) is ?v" by (simp add: bindS_def)
    have "mapE (\<lambda>index. bindE (hd_key C K w branch (of_nat index)) (pair_of C)) is = Inl x"
      using Cons.prems Inr by (auto simp: bindE_def split: sum.splits)
    then obtain c where "foldS (cache_index C K branch) is ?v = (Inl x, ?v \<lparr> wl_cache := c \<rparr>)"
      using Cons.IH [of ?v] unfolding k by blast
    then show ?thesis unfolding f by auto
  qed
qed simp

lemma rebuild_cache_Inl:
  assumes "\<not> wl_cache_valid w" and "owned_pairs C K w = Inl x"
  shows "\<exists>c. rebuild_owned_cache C K w = (Inl x, w \<lparr> wl_cache := c \<rparr>)"
proof -
  have k: "hd_key C K (w \<lparr> wl_cache := c \<rparr>) = hd_key C K w" for c by (rule hd_key_cong) simp
  let ?f = "\<lambda>b index. bindE (hd_key C K w b (of_nat index)) (pair_of C)"
  let ?r = "[0..<unat (wl_next_receive w + LOOKAHEAD)]" and ?c = "[0..<unat (wl_next_change w + LOOKAHEAD)]"
  have e: "\<exists>c. foldS (cache_index C K b) is (w \<lparr> wl_cache := d \<rparr>) = (Inl y, w \<lparr> wl_cache := c \<rparr>)" if "mapE (?f b) is = Inl y" for b "is" d y
    using cache_loop_Inl [of C K "w \<lparr> wl_cache := d \<rparr>" b "is" y] that unfolding k by auto
  have i: "foldS (cache_index C K b) is (w \<lparr> wl_cache := d \<rparr>) = (Inr (), w \<lparr> wl_cache := d @ ps \<rparr>)" if "mapE (?f b) is = Inr ps" for b "is" d ps
    using cache_loop [of C K "w \<lparr> wl_cache := d \<rparr>" b "is" ps] that unfolding k by auto
  have legacy: "\<exists>c. bindS (case wl_legacy_key w of None \<Rightarrow> returnS () | Some secret \<Rightarrow> cache_key C secret) m (w \<lparr> wl_cache := d \<rparr>) =
      (Inl x, w \<lparr> wl_cache := c \<rparr>)"
    if "(case wl_legacy_key w of None \<Rightarrow> Inr [] | Some secret \<Rightarrow> bindE (pair_of C secret) (\<lambda>p. Inr [p])) = Inl x" for d and m :: "unit \<Rightarrow> (wallet, unit) sx"
    using that by (auto simp: cache_key_def pair_of_def sx_defs bindE_def split: option.splits sum.splits)
  show ?thesis
  proof (cases "wl_kind w = HdBip32")
    case False
    then show ?thesis using assms legacy [where d = "[]"]
      by (auto simp: rebuild_owned_cache_def owned_pairs_def run_get run_modify run_return bindE_def split: sum.splits)
  next
    case True
    note start = rebuild_owned_cache_def [of C K] run_get run_modify
    show ?thesis
    proof (cases "mapE (?f 0) ?r")
      case (Inl y)
      then have "y = x" using assms(2) True by (simp add: owned_pairs_def branch_pairs_def bindE_def)
      with e [OF Inl, of "[]"] show ?thesis using assms(1) True by (auto simp: start bindS_def getS_def modifyS_def)
    next
      case r: (Inr rs)
      show ?thesis
      proof (cases "mapE (?f 1) ?c")
        case (Inl y)
        then have "y = x" using assms(2) True r by (simp add: owned_pairs_def branch_pairs_def bindE_def)
        with e [OF Inl, of rs] i [OF r, of "[]"] show ?thesis using assms(1) True by (auto simp: start bindS_def getS_def modifyS_def)
      next
        case c: (Inr cs)
        then show ?thesis using assms True r legacy [where d = "rs @ cs"] i [OF r, of "[]"] i [OF c, of rs]
          by (auto simp: start owned_pairs_def branch_pairs_def bindE_def bindS_def getS_def modifyS_def split: sum.splits)
      qed
    qed
  qed
qed

text \<open>Where a key up to the look-ahead cannot be derived, no script is ever found.\<close>

lemma lookup_fails:
  assumes "keys_ok C K" "wallet_ok C K w" "wl_kind w = HdBip32" "\<not> wl_cache_valid w" "\<not> derivable C K w"
  shows "isl (fst (key_for_script C K script w))"
proof -
  obtain x where "owned_pairs C K w = Inl x"
    using owned_pairs_isl [OF assms(1,3)] assms(2,5) by (cases "owned_pairs C K w") (auto simp: wallet_ok_def)
  from rebuild_cache_Inl [OF assms(4) this] show ?thesis by (auto simp: key_for_script_def bindS_def)
qed

lemma new_address_fate:
  assumes "keys_ok C K" and "wallet_ok C K w" "disk_ok (wl_disk w)" and "unat (wl_next_receive w) < 2 ^ 32 - 21"
    and "get_new_address C K w = (Inr a, v)"
  shows "wl_next_receive v = wl_next_receive w + 1 \<and>
    (if derivable C K v then knows_address C K a v else \<forall>script. isl (fst (key_for_script C K script v))) \<and>
    (wl_disk u = (wl_disk v) \<lparr> dk_io := [] \<rparr> \<longrightarrow> load_wallet C K u = (Inr (), u') \<longrightarrow>
      (if derivable C K v then knows_address C K a u' else \<forall>script. isl (fst (key_for_script C K script u'))))"
proof -
  note known = new_address_known [OF assms]
  have v: "isl (fst (key_for_script C K script v))" if "\<not> derivable C K v" for script
    using lookup_fails [OF assms(1) _ _ _ that] known(2) by blast
  have u: "isl (fst (key_for_script C K script u'))"
    if "\<not> derivable C K v" "wl_disk u = (wl_disk v) \<lparr> dk_io := [] \<rparr>" "load_wallet C K u = (Inr (), u')" for script
  proof -
    show ?thesis using lookup_fails [OF assms(1), of u'] known(3) [OF that(2,3)] that(1) by blast
  qed
  show ?thesis using known(1) known(2) known(3) v u by auto
qed

lemma maintains_rebuild: "maintains (wallet_inv C K) (rebuild_owned_cache C K)"
proof (rule tripleI)
  have step: "wallet_inv C K w'" if inv: "wallet_inv C K w" and run: "rebuild_owned_cache C K w = (r, w')" for w r w'
  proof (cases "owned_pairs C K w")
    case (Inl x)
    then have "\<not> wl_cache_valid w" using inv by (auto simp: wallet_inv_def wallet_ok_def)
    from rebuild_cache_Inl [OF this Inl] show ?thesis using inv run \<open>\<not> wl_cache_valid w\<close>
      by (auto simp: wallet_inv_def wallet_ok_def)
  next
    case (Inr ps)
    have "owned_pairs C K (w \<lparr> wl_cache := ps, wl_cache_valid := True \<rparr>) = owned_pairs C K w" by (rule owned_pairs_cong) simp_all
    then show ?thesis using inv run rebuild_cache [OF _ Inr] Inr by (auto simp: wallet_inv_def wallet_ok_def)
  qed
  show "wallet_inv C K w \<Longrightarrow> rebuild_owned_cache C K w = (Inr x, w') \<Longrightarrow> wallet_inv C K w'" for w x w' by (rule step)
  show "wallet_inv C K w \<Longrightarrow> rebuild_owned_cache C K w = (Inl x, w') \<Longrightarrow> wallet_inv C K w'" for w x w' by (rule step)
qed

lemma maintains_lookup: "maintains (wallet_inv C K) (key_for_script C K script)"
  unfolding key_for_script_def by (intro maintains_bind maintains_rebuild triple_get)

lemma maintains_balance: "maintains (wallet_inv C K) (balance_loop C K h utxos b)"
proof (induction utxos arbitrary: b)
  case (Cons e utxos)
  then show ?case unfolding owns_script_def
    by (cases e) (auto simp: owns_script_def intro!: maintains_bind maintains_lookup triple_return bind_lift)
qed (simp add: triple_return)

lemma maintains_available: "maintains (wallet_inv C K) (available_coins C K h utxos)"
proof (induction utxos)
  case (Cons e utxos)
  then show ?case
    by (cases e) (auto intro!: maintains_bind [OF maintains_lookup] maintains_bind [OF Cons.IH] triple_return maintains_option)
qed (simp add: triple_return)

lemma maintains_payment: "maintains (wallet_inv C K) (create_payment C K utxos h dest amount rate)"
  unfolding create_payment_def
  by (intro maintains_if triple_throw bind_lift maintains_bind [OF triple_get] maintains_bind [OF maintains_available] triple_lift)

subsection \<open>The manager\<close>

definition manager_inv :: "crypto \<Rightarrow> kdf \<Rightarrow> manager \<Rightarrow> bool" where
  "manager_inv C K s \<longleftrightarrow> disk_ok (fst s) \<and> pred_option (\<lambda>w. wallet_inv C K w \<and> wl_disk w = fst s) (snd s)"

lemma maintains_backend:
  assumes "maintains (wallet_inv C K) m"
  shows "maintains (manager_inv C K) (on_backend m)"
proof (rule maintainsI)
  fix s r s' assume inv: "manager_inv C K s" and run: "on_backend m s = (r, s')"
  show "manager_inv C K s'"
  proof (cases "snd s")
    case None
    then show ?thesis using inv run by (cases s) (simp add: on_backend_def)
  next
    case (Some w)
    then obtain q w' where w': "m w = (q, w')" "s' = (wl_disk w', Some w')"
      using run by (cases s) (auto simp: on_backend_def split: prod.splits)
    have "wallet_inv C K w'" using maintainsD [OF assms _ w'(1)] inv Some by (simp add: manager_inv_def)
    then show ?thesis by (simp add: w'(2) manager_inv_def wallet_inv_def)
  qed
qed

lemma maintains_selected:
  assumes "triple (keyless C K) m (\<lambda>_. wallet_inv C K) (wallet_inv C K)"
  shows "maintains (manager_inv C K) (bindS (select_backend name) (\<lambda>_. on_backend m))"
proof -
  have "triple (manager_inv C K) (select_backend name) (\<lambda>_ s. \<exists>d. s = (d, Some (new_wallet d)) \<and> disk_ok d) (manager_inv C K)"
    unfolding select_backend_def
    by (intro triple_if triple_throw triple_modify) (auto simp: manager_inv_def)
  moreover have "triple (\<lambda>s. \<exists>d. s = (d, Some (new_wallet d)) \<and> disk_ok d) (on_backend m) (\<lambda>_. manager_inv C K) (manager_inv C K)"
  proof -
    have "manager_inv C K s'" if run: "on_backend m (d, Some (new_wallet d)) = (r, s')" "disk_ok d" for d r s'
    proof -
      obtain w' where w': "m (new_wallet d) = (r, w')" "s' = (wl_disk w', Some w')"
        using run(1) by (auto simp: on_backend_def split: prod.splits)
      have "wallet_inv C K w'"
        using tripleD [OF assms new_wallet_keyless [OF run(2)]] w'(1) by (cases r) auto
      then show ?thesis by (simp add: w'(2) manager_inv_def wallet_inv_def)
    qed
    then show ?thesis by (intro tripleI) blast+
  qed
  ultimately show ?thesis by (rule triple_bind)
qed

theorem manager_reach_inv:
  assumes "manager_reach C K d s" and "disk_ok d"
  shows "manager_inv C K s"
  using assms(1)
proof induction
  case start
  then show ?case using assms(2) by (simp add: manager_inv_def)
next
  case (step s s')
  note weak = triple_conseq [where P' = "keyless C K" and Q' = "\<lambda>_. wallet_inv C K" and E' = "wallet_inv C K"]
  from step.hyps(2) show ?case
  proof cases
    case (create random directory name r)
    have "maintains (manager_inv C K) (manager_create C K directory random name)" unfolding manager_create_def
      by (rule maintains_selected [OF maintains_create [OF create(1)]])
    then show ?thesis using step.IH create(2) by (rule maintainsD)
  next
    case (import_phrase directory phrase name u)
    have "maintains (manager_inv C K) (manager_import C K directory phrase name)" unfolding manager_import_def
      by (rule maintains_selected [OF maintains_import])
    then show ?thesis using step.IH import_phrase by (rule maintainsD)
  next
    case (load u)
    have "maintains (manager_inv C K) (manager_load C K)" unfolding manager_load_def
      by (rule maintains_selected [OF weak [OF loading_load]]) (simp_all add: loading_inv keyless_loading)
    then show ?thesis using step.IH load by (rule maintainsD)
  next
    case (upgrade random r)
    have "maintains (manager_inv C K) (manager_upgrade C K random)" unfolding manager_upgrade_def
      by (rule maintains_selected [OF weak [OF loading_upgrade [OF upgrade(1)]]]) (simp_all add: keyless_loading)
    then show ?thesis using step.IH upgrade(2) by (rule maintainsD)
  next
    case (address r)
    show ?thesis by (rule maintainsD [OF maintains_backend [OF maintains_new_address] step.IH address])
  next
    case (balance utxos height b)
    show ?thesis by (rule maintainsD [OF maintains_backend [OF maintains_balance] step.IH balance [unfolded wallet_balance_of_def]])
  next
    case (payment utxos height dest amount rate p)
    show ?thesis by (rule maintainsD [OF maintains_backend [OF maintains_payment] step.IH payment])
  qed
qed

end
