(* ===== verification/InstanceWallet.thy ===== *)
theory InstanceWallet
  imports InstanceRun WalletRun
begin

section \<open>A wallet of the instance\<close>

text \<open>
  A key derivation over the digest and the curve of \<open>Instance\<close>, a fresh wallet that hands out an address,
  and a payment from a wallet with one coin: the hypotheses of the wallet theorems can hold.
\<close>

definition toy_kdf :: kdf where
  "toy_kdf = \<lparr> k_secret_ok = (\<lambda>_. True), k_tweak_add = (\<lambda>s t. Some s), k_hmac_sha512 = (\<lambda>_ _. Some (replicate 64 1)),
     k_pbkdf2_sha512 = (\<lambda>_ _. Some []) \<rparr>"

lemma toy_keys: "keys_ok toy toy_kdf"
  by (simp add: keys_ok_def toy_def valid_compressed_public_key_def genesis_public_key_def)

lemma toy_signing: "signing_law toy"
  by (simp add: signing_law_def toy_def)

definition toy_master :: hd_private_key where
  "toy_master = \<lparr> hk_secret = replicate 32 1, hk_chain_code = replicate 32 1, hk_depth = 0, hk_child_number = 0 \<rparr>"

lemma toy_master_of: "master_of toy toy_kdf e = Inr toy_master"
proof -
  obtain phrase where "entropy_to_mnemonic toy e = Inr phrase"
    by (simp add: entropy_to_mnemonic_def sha256_def sha256_once_ok [OF toy_ok])
  then show ?thesis
    by (simp add: master_of_def mnemonic_to_seed_def toy_kdf_def bip32_master_def hmac_sha512_def valid_secret_key_def toy_master_def)
qed

lemma toy_derive: "length (hk_secret k) = 32 \<Longrightarrow> \<exists>c. derive toy toy_kdf child k = Inr c \<and> hk_secret c = hk_secret k"
  by (simp add: derive_def from_secret_bytes_def valid_secret_key_def hmac_sha512_def add_secret_tweak_def toy_kdf_def bindE_def)

lemma toy_hd_key: "wl_master w = Some toy_master \<Longrightarrow> hd_key toy toy_kdf w branch index = Inr (replicate 32 1)"
proof -
  have l: "length (hk_secret toy_master) = 32" by (simp add: toy_master_def)
  obtain k1 where k1: "derive toy toy_kdf (44 OR HARDENED) toy_master = Inr k1" "hk_secret k1 = hk_secret toy_master"
    using toy_derive [OF l] by blast
  obtain k2 where k2: "derive toy toy_kdf (1 OR HARDENED) k1 = Inr k2" "hk_secret k2 = hk_secret toy_master"
    using toy_derive [of k1] k1(2) l by metis
  obtain k3 where k3: "derive toy toy_kdf (0 OR HARDENED) k2 = Inr k3" "hk_secret k3 = hk_secret toy_master"
    using toy_derive [of k2] k2(2) l by metis
  obtain k4 where k4: "derive toy toy_kdf branch k3 = Inr k4" "hk_secret k4 = hk_secret toy_master"
    using toy_derive [of k3] k3(2) l by metis
  obtain k5 where k5: "derive toy toy_kdf index k4 = Inr k5" "hk_secret k5 = hk_secret toy_master"
    using toy_derive [of k4] k4(2) l by metis
  have "derive_testnet_wallet_key toy toy_kdf toy_master branch index = Inr k5"
    unfolding derive_testnet_wallet_key_def k1(1) bindE_simps k2(1) k3(1) k4(1) k5(1) ..
  moreover have "from_secret_bytes toy_kdf (hk_secret k5) = Inr (replicate 32 1)"
    by (simp add: k5(2)) (simp add: toy_master_def from_secret_bytes_def valid_secret_key_def toy_kdf_def)
  moreover assume "wl_master w = Some toy_master"
  ultimately show ?thesis by (simp add: hd_key_def)
qed

lemma toy_derivable: "wl_master w = Some toy_master \<Longrightarrow> derivable toy toy_kdf w"
  by (simp add: derivable_def toy_hd_key list_all_iff)

subsection \<open>A wallet with keys\<close>

definition toy_wallet :: "u32 \<Rightarrow> wallet" where
  "toy_wallet n = (new_wallet \<lparr> dk_files = [], dk_io = [] \<rparr>)
     \<lparr> wl_entropy := Some (replicate 32 0), wl_master := Some toy_master, wl_next_receive := n \<rparr>"

lemma toy_wallet_ok: "wallet_ok toy toy_kdf (toy_wallet n)" "disk_ok (wl_disk (toy_wallet n))"
  by (simp_all add: wallet_ok_def toy_wallet_def new_wallet_def toy_master_of disk_ok_def sorted_keys_def)

lemma calm_wallet_disk:
  assumes "returns calm m (\<lambda>_. calm)" and "calm (wl_disk w)"
  shows "\<exists>x d. on_wallet_disk m w = (Inr x, w \<lparr> wl_disk := d \<rparr>) \<and> calm d"
  using returnsD [OF assms] by (auto simp: on_wallet_disk_def)

lemma save_hd_calm:
  assumes "wl_entropy w = Some e" "wl_master w = Some m" "calm (wl_disk w)"
  shows "\<exists>d. save_hd w = (Inr (), w \<lparr> wl_disk := d \<rparr>)"
proof -
  obtain d where d: "on_wallet_disk (save_text wallet_path ''Unable to create HD wallet file''
      [''Unable to write HD wallet file''] (map Inr (wallet_lines e w))) w = (Inr (), w \<lparr> wl_disk := d \<rparr>)" "calm d"
    using calm_wallet_disk [OF save_text_returns [where p = wallet_path and a = "''Unable to create HD wallet file''"
      and checks = "[''Unable to write HD wallet file'']" and ss = "wallet_lines e w"] assms(3)] by auto
  obtain d' where d': "on_wallet_disk (io_call ''Unable to restrict wallet permissions'') (w \<lparr> wl_disk := d \<rparr>) = (Inr (), w \<lparr> wl_disk := d' \<rparr>)"
    using calm_wallet_disk [OF calm_io, of "w \<lparr> wl_disk := d \<rparr>" "''Unable to restrict wallet permissions''"] d(2) by auto
  show ?thesis
    unfolding save_hd_def run_get
    by (intro exI [of _ d'])
       (simp add: assms(1,2) run_bind [where m = "on_wallet_disk (save_text wallet_path ''Unable to create HD wallet file''
          [''Unable to write HD wallet file''] (map Inr (wallet_lines e w)))", OF d(1)] d')
qed

lemma toy_save: "\<exists>v. save_hd (toy_wallet n) = (Inr (), v)"
  using save_hd_calm [of "toy_wallet n"] by (auto simp: toy_wallet_def new_wallet_def calm_def)

lemma toy_new_address: "\<exists>a v. get_new_address toy toy_kdf (toy_wallet 5) = (Inr a, v)"
proof -
  have m: "wl_master (toy_wallet 5) = Some toy_master" by (simp add: toy_wallet_def)
  obtain s where s: "hd_key toy toy_kdf (toy_wallet 5) 0 5 = Inr s" "valid_secret_key toy_kdf s"
    using toy_hd_key [OF m] by (simp add: valid_secret_key_def toy_kdf_def)
  have pk: "valid_compressed_public_key toy (c_public_key toy s)" using toy_keys s(2) by (simp add: keys_ok_def)
  then have len: "length (c_public_key toy s) = 33" by (simp add: valid_compressed_public_key_def)
  obtain a where a: "encode_testnet_address toy (c_public_key toy s) = Inr a"
    using pk convert_pad [of 8 "c_public_key toy s" 5] by (auto simp: encode_Inr)
  let ?x = "toy_wallet 5 \<lparr> wl_next_receive := 5 + 1, wl_cache_valid := False, wl_cache := [] \<rparr>"
  obtain d where "save_hd ?x = (Inr (), ?x \<lparr> wl_disk := d \<rparr>)"
    using save_hd_calm [of ?x] by (auto simp: toy_wallet_def new_wallet_def calm_def)
  then show ?thesis using s a
    by (simp add: get_new_address_def run_get run_lift run_modify clear_cache_def bindS_def [of save_hd] toy_wallet_def new_wallet_def returnS_def)
qed

subsection \<open>A payment\<close>

definition toy_payer :: wallet where
  "toy_payer = (new_wallet \<lparr> dk_files = [], dk_io = [] \<rparr>)
     \<lparr> wl_kind := LegacySingleKey, wl_legacy_key := Some (replicate 32 1) \<rparr>"

definition toy_item :: available where
  "toy_item = \<lparr> av_outpoint = toy_point, av_coin = toy_coin, av_key = replicate 32 1 \<rparr>"

lemma toy_pubkey: "c_public_key toy k = genesis_public_key"
  by (simp add: toy_def)

lemma toy_available: "\<exists>w. available_coins toy toy_kdf 101 toy_utxos toy_payer = (Inr [toy_item], w)"
proof -
  have "to_script_pubkey (coin_output toy_coin) = toy_script" by (simp add: toy_coin_def new_coin_def)
  then show ?thesis
    by (simp add: toy_utxos_def key_for_script_def rebuild_owned_cache_def sx_defs cache_key_def toy_payer_def new_wallet_def
        toy_pubkey toy_item_def) (simp add: toy_coin_def new_coin_def COINBASE_MATURITY_def)
qed

definition toy_pay :: "bytes \<Rightarrow> tx_output list \<Rightarrow> transaction" where
  "toy_pay s outs = toy_spend \<lparr> tx_inputs := [\<lparr> ti_previous_output = toy_point, ti_script_sig = s, ti_sequence = 0xffffffff \<rparr>],
     tx_outputs := outs \<rparr>"

definition toy_out :: "int \<Rightarrow> tx_output" where
  "toy_out v = \<lparr> to_value = v, to_script_pubkey = toy_script \<rparr>"

lemma toy_pay_valid:
  assumes "length s \<le> 100" and "outs = [toy_out INITIAL_SUBSIDY] \<or> outs = [toy_out INITIAL_SUBSIDY, toy_out 0]"
  shows "serialize_transaction (toy_pay s outs) = Inr (enc_transaction (toy_pay s outs))"
proof -
  have "valid_transaction (toy_pay s outs)"
    using display_id_wire(1) [OF genesis_hash_display] assms
    by (auto simp: toy_pay_def toy_spend_def valid_transaction_def valid_input_def valid_output_def toy_point_def toy_out_def
        MAX_TRANSACTION_ITEMS_def MAX_SCRIPT_SIZE_def money_range_def amount_consts)
  then show ?thesis by (simp add: serialize_transaction_eq)
qed

lemma toy_payment: "payment [toy_item] toy_script INITIAL_SUBSIDY toy_script 0 = toy_pay [] [toy_out INITIAL_SUBSIDY, toy_out 0]"
  by (simp add: payment_def payment_inputs_def toy_item_def toy_pay_def toy_spend_def toy_out_def)

lemma toy_estimate: "\<exists>n. estimated_signed_size (toy_pay [] [toy_out INITIAL_SUBSIDY, toy_out 0]) = Inr n"
proof -
  have "toy_pay [] outs \<lparr> tx_inputs := map (\<lambda>i. i \<lparr> ti_script_sig := 74 # replicate 74 0 \<rparr>) (tx_inputs (toy_pay [] outs)) \<rparr> =
      toy_pay (74 # replicate 74 0) outs" for outs
    by (simp add: toy_pay_def)
  then show ?thesis using toy_pay_valid [of "74 # replicate 74 0"] by (simp add: estimated_signed_size_def)
qed

lemma toy_select: "select_coins toy_script INITIAL_SUBSIDY toy_script 0 [toy_item] [] 0 = Inr ([toy_item], INITIAL_SUBSIDY)"
proof -
  have "av_value toy_item = INITIAL_SUBSIDY" by (simp add: toy_item_def toy_coin_def new_coin_def)
  moreover have "\<not> 0 > MAX_MONEY - INITIAL_SUBSIDY" by (simp add: amount_consts)
  ultimately show ?thesis using toy_estimate by (auto simp: Let_def toy_payment fee_def)
qed

lemma toy_pay_sign: "sign_p2pk_input toy (toy_pay [] [toy_out INITIAL_SUBSIDY]) 0 toy_script k = Inr (toy_pay [2, 1, 1] [toy_out INITIAL_SUBSIDY])"
proof -
  let ?t = "toy_pay [] [toy_out INITIAL_SUBSIDY]"
  have "?t \<lparr> tx_inputs := (map clear_script (tx_inputs ?t))[0 := (map clear_script (tx_inputs ?t) ! 0) \<lparr> ti_script_sig := toy_script \<rparr>] \<rparr> =
      toy_pay toy_script [toy_out INITIAL_SUBSIDY]" and "length (tx_inputs ?t) = 1"
    by (simp_all add: toy_pay_def clear_script_def)
  then have "\<exists>h. signature_hash_all toy ?t 0 toy_script = Inr h"
    using toy_pay_valid [of toy_script "[toy_out INITIAL_SUBSIDY]"] unfolding signature_hash_all_def Let_def
    by (simp add: sha256d_ok [OF toy_ok])
  moreover have "extract_p2pk_public_key toy toy_script = Inr genesis_public_key"
    using extract_make_p2pk [of toy genesis_public_key toy_script] by simp
  moreover have "c_sign_der toy k h = Inr [1]" for h by (simp add: toy_def)
  ultimately show ?thesis
    by (auto simp: sign_p2pk_input_def toy_pubkey push_script_data_def SIGHASH_ALL_def) (simp add: toy_pay_def)
qed

lemma toy_create:
  "\<exists>w. create_payment toy toy_kdf toy_utxos 101 genesis_public_key INITIAL_SUBSIDY 0 toy_payer =
     (Inr (toy_pay [2, 1, 1] [toy_out INITIAL_SUBSIDY]), w)"
proof -
  obtain w where w: "available_coins toy toy_kdf 101 toy_utxos toy_payer = (Inr [toy_item], w)" using toy_available by blast
  have first: "first_key toy toy_kdf 1 toy_payer = Inr (replicate 32 1)" by (simp add: first_key_def toy_payer_def)
  have v: "by_value [toy_item] = [toy_item]" by (simp add: by_value_def)
  have b: "toy_pay [] [toy_out INITIAL_SUBSIDY, toy_out 0] \<lparr> tx_outputs := butlast (tx_outputs (toy_pay [] [toy_out INITIAL_SUBSIDY, toy_out 0])) \<rparr> =
      toy_pay [] [toy_out INITIAL_SUBSIDY]" by (simp add: toy_pay_def)
  have sg: "sign_inputs toy [toy_item] (toy_pay [] [toy_out INITIAL_SUBSIDY]) = Inr (toy_pay [2, 1, 1] [toy_out INITIAL_SUBSIDY])"
  proof -
    have "length (tx_inputs (toy_pay [] [toy_out INITIAL_SUBSIDY])) = Suc 0" by (simp add: toy_pay_def)
    moreover have "to_script_pubkey (coin_output (av_coin toy_item)) = toy_script" by (simp add: toy_item_def toy_coin_def new_coin_def)
    ultimately show ?thesis using toy_pay_sign by (simp add: sign_inputs_def)
  qed
  obtain n where "estimated_signed_size (toy_pay [] [toy_out INITIAL_SUBSIDY, toy_out 0]) = Inr n" using toy_estimate by blast
  moreover have "\<exists>n. virtual_size (toy_pay [2, 1, 1] [toy_out INITIAL_SUBSIDY]) = Inr n"
    using toy_pay_valid [of "[2, 1, 1]"] by (simp add: virtual_size_def)
  ultimately have "finish_payment toy toy_script INITIAL_SUBSIDY toy_script 0 [toy_item] INITIAL_SUBSIDY =
      Inr (toy_pay [2, 1, 1] [toy_out INITIAL_SUBSIDY])"
    using sg b by (auto simp: finish_payment_def toy_payment fee_def Let_def)
  then show ?thesis using subsidy_in_range toy_select
    by (simp add: create_payment_def run_lift run_get first toy_pubkey v amount_consts
        run_bind [where m = "available_coins toy toy_kdf 101 toy_utxos", OF w]) (simp add: liftS_def)
qed

lemma toy_pay_txid: "txid toy (toy_pay [2, 1, 1] [toy_out INITIAL_SUBSIDY]) = Inr TESTNET_GENESIS_TXID"
proof -
  have "80 < length (enc_transaction (toy_pay [2, 1, 1] [toy_out INITIAL_SUBSIDY]))"
    using compact_size_positive [of 1] compact_size_positive [of 35] compact_size_positive [of 3]
      display_id_wire(2) [OF genesis_hash_display]
    by (simp add: enc_transaction_def toy_pay_def toy_out_def toy_spend_def enc_list_def enc_input_def enc_output_def enc_sized_def toy_point_def)
  moreover have "valid_transaction (toy_pay [2, 1, 1] [toy_out INITIAL_SUBSIDY])"
    using toy_pay_valid [of "[2, 1, 1]" "[toy_out INITIAL_SUBSIDY]"] by (simp add: serialize_transaction_eq)
  ultimately show ?thesis using toy_txid by blast
qed

subsection \<open>An address and the wallet after a restart\<close>

definition restarted_wallet :: "wallet \<Rightarrow> wallet" where
  "restarted_wallet v = v \<lparr> wl_disk := (wl_disk v) \<lparr> dk_io := [] \<rparr> \<rparr>"

lemma toy_restart:
  "\<exists>a v u. get_new_address toy toy_kdf (toy_wallet 5) = (Inr a, v) \<and> load_wallet toy toy_kdf (restarted_wallet v) = (Inr (), u) \<and>
     derivable toy toy_kdf v"
proof -
  obtain a v where new: "get_new_address toy toy_kdf (toy_wallet 5) = (Inr a, v)" using toy_new_address by blast
  let ?x = "toy_wallet 5 \<lparr> wl_next_receive := wl_next_receive (toy_wallet 5) + 1, wl_cache_valid := False, wl_cache := [] \<rparr>"
  have save: "save_hd ?x = (Inr (), v)" using new_address_Inr [OF new] by blast
  have ok: "wallet_ok toy toy_kdf ?x" "disk_ok (wl_disk ?x)" using toy_wallet_ok [of 5] by (simp_all add: wallet_ok_def)
  have "unat (wl_next_receive ?x) \<le> 1000000 \<and> unat (wl_next_change ?x) \<le> 1000000"
    by (simp add: toy_wallet_def new_wallet_def)
  then have "load_wallet toy toy_kdf (restarted_wallet v) = (Inr (), reopened_wallet v)"
    using load_saved [OF ok(1) save ok(2), of "restarted_wallet v"] by (auto simp: restarted_wallet_def)
  moreover have "derivable toy toy_kdf v"
  proof (rule toy_derivable)
    show "wl_master v = Some toy_master" by (subst save_hd_disk [OF save]) (simp add: toy_wallet_def)
  qed
  ultimately show ?thesis using new by blast
qed

lemma toy_manager: "\<exists>s w. manager_reach toy toy_kdf \<lparr> dk_files = [], dk_io = [] \<rparr> s \<and> snd s = Some w"
proof -
  let ?d = "\<lparr> dk_files = [], dk_io = [] \<rparr> :: disk"
  obtain r w where m: "create_wallet toy toy_kdf [] (Some (replicate 32 0)) (new_wallet ?d) = (r, w)" by fastforce
  then have "manager_create toy toy_kdf [] (Some (replicate 32 0)) ''hd'' (?d, None) = (r, wl_disk w, Some w)"
    by (simp add: manager_create_def select_backend_def is_hd_name_def run_modify on_backend_def)
  then have "manager_step toy toy_kdf (?d, None) (wl_disk w, Some w)" by (intro manager_step.create) auto
  then show ?thesis by (meson manager_reach.intros snd_conv)
qed

end
