(* ===== verification/Logger.thy ===== *)
theory Logger
  imports Disk Http
begin

section \<open>The logger (logger.hpp, logger.cpp)\<close>

text \<open>
  \<open>process\<close> holds the files of the data directory, the members of \<^verbatim>\<open>Logger\<close> and the two console streams. \<open>pr_log\<close>
  is the open log file; it is \<open>None\<close> when the stream is closed or has failed, so later lines only reach the console.
  The time and the thread are arguments of a line, as are its parts for \<^verbatim>\<open>put_time\<close>. The mutex is not modelled.
\<close>

record process =
  pr_disk :: disk
  pr_log :: "string option"
  pr_print_to_console :: bool
  pr_categories :: "string set"
  pr_out :: string
  pr_err :: string

definition process_disk :: "(disk, 'a) sx \<Rightarrow> ('z process_scheme, 'a) sx" where
  "process_disk m s = (case m (pr_disk s) of (r, d) \<Rightarrow> (r, s \<lparr> pr_disk := d \<rparr>))"

record log_stamp =
  lt_seconds :: string
  lt_milliseconds :: nat
  lt_thread :: string

definition timestamp_utc :: "log_stamp \<Rightarrow> string" where
  "timestamp_utc stamp = lt_seconds stamp @ ''.'' @ pad_left 3 (CHR ''0'') (show_nat (lt_milliseconds stamp)) @ ''Z''"

definition configure_log :: "string \<Rightarrow> string \<Rightarrow> bool \<Rightarrow> string set \<Rightarrow> ('z process_scheme, unit) sx" where
  "configure_log directory log_path print_to_console debug_categories =
     bindS (process_disk (io_call ''create_directories'')) (\<lambda>_.
     bindS (modifyS (\<lambda>s. s \<lparr> pr_log := None \<rparr>)) (\<lambda>_.
     bindS (tryS (process_disk (io_call ''open'')) (\<lambda>_. throwS (RuntimeError (''Unable to open debug log: '' @ path_join directory log_path)))) (\<lambda>_.
     bindS (process_disk (modifyS (\<lambda>d. if file_exists d log_path then d else put_file log_path [] d))) (\<lambda>_.
       modifyS (\<lambda>s. s \<lparr> pr_log := Some log_path, pr_print_to_console := print_to_console,
         pr_categories := debug_categories \<rparr>)))))"

definition set_debug_categories :: "string set \<Rightarrow> ('z process_scheme, unit) sx" where
  "set_debug_categories categories = modifyS (\<lambda>s. s \<lparr> pr_categories := categories \<rparr>)"

definition debug_enabled :: "string \<Rightarrow> 'z process_scheme \<Rightarrow> bool" where
  "debug_enabled category s \<longleftrightarrow> ''1'' \<in> pr_categories s \<or> ''all'' \<in> pr_categories s \<or> category \<in> pr_categories s"

definition log_line :: "log_stamp \<Rightarrow> string \<Rightarrow> string \<Rightarrow> string \<Rightarrow> string" where
  "log_line stamp level category message =
     timestamp_utc stamp @ '' ['' @ lt_thread stamp @ ''] ['' @ category @ ''] '' @ level @ '': '' @ message @ [newline]"

text \<open>A failed write leaves the stream failed, which is not an exception.\<close>

definition write_log_file :: "string \<Rightarrow> ('z process_scheme, unit) sx" where
  "write_log_file line =
     bindS (getS pr_log) (\<lambda>log.
     case log of
       None \<Rightarrow> returnS ()
     | Some path \<Rightarrow>
         tryS (bindS (process_disk (io_call ''write'')) (\<lambda>_.
             process_disk (modifyS (\<lambda>d. put_file path (file_content d path @ string_bytes line) d))))
           (\<lambda>_. modifyS (\<lambda>s. s \<lparr> pr_log := None \<rparr>)))"

definition log_write :: "log_stamp \<Rightarrow> string \<Rightarrow> string \<Rightarrow> string \<Rightarrow> ('z process_scheme, unit) sx" where
  "log_write stamp level category message =
     (let line = log_line stamp level category message in
      bindS (write_log_file line) (\<lambda>_.
      modifyS (\<lambda>s. if \<not> pr_print_to_console s then s
        else if level = ''ERROR'' then s \<lparr> pr_err := pr_err s @ line \<rparr> else s \<lparr> pr_out := pr_out s @ line \<rparr>)))"

definition log_info :: "log_stamp \<Rightarrow> string \<Rightarrow> string \<Rightarrow> ('z process_scheme, unit) sx" where
  "log_info stamp category message = log_write stamp ''INFO'' category message"

definition log_error :: "log_stamp \<Rightarrow> string \<Rightarrow> string \<Rightarrow> ('z process_scheme, unit) sx" where
  "log_error stamp category message = log_write stamp ''ERROR'' category message"

definition log_debug :: "log_stamp \<Rightarrow> string \<Rightarrow> string \<Rightarrow> ('z process_scheme, unit) sx" where
  "log_debug stamp category message =
     bindS (getS (debug_enabled category)) (\<lambda>enabled. if enabled then log_write stamp ''DEBUG'' category message else returnS ())"

subsection \<open>Logging never throws and touches only the log file\<close>

definition quiet :: "string set \<Rightarrow> 'z process_scheme \<Rightarrow> 'z process_scheme \<Rightarrow> bool" where
  "quiet paths s t \<longleftrightarrow>
     (\<forall>p. p \<notin> paths \<longrightarrow> map_of (dk_files (pr_disk t)) p = map_of (dk_files (pr_disk s)) p)"

lemma map_of_put_other: "p \<noteq> k \<Longrightarrow> map_of (map_put k v m) p = map_of m p"
  by (induction m) auto

lemma quiet_refl: "quiet paths s s"
  by (simp add: quiet_def)

lemma quiet_trans: "quiet a s t \<Longrightarrow> quiet a t u \<Longrightarrow> quiet a s u"
  by (simp add: quiet_def)

lemma quiet_mono: "quiet a s t \<Longrightarrow> a \<subseteq> b \<Longrightarrow> quiet b s t"
  by (auto simp: quiet_def)

lemma quiet_same: "dk_files (pr_disk t) = dk_files (pr_disk s) \<Longrightarrow> quiet a s t"
  by (simp add: quiet_def)

lemma quiet_put: "dk_files (pr_disk t) = map_put path c (dk_files (pr_disk s)) \<Longrightarrow> quiet {path} s t"
  by (simp add: quiet_def map_of_put_other)

lemma process_io: "process_disk (io_call a) s = (r, t) \<Longrightarrow>
    \<exists>d. t = s \<lparr> pr_disk := d \<rparr> \<and> dk_files d = dk_files (pr_disk s)"
  by (auto simp: process_disk_def split: prod.splits dest: io_call_files)

lemma write_log_total:
  "\<exists>t. write_log_file line s = (Inr (), t) \<and> quiet (set_option (pr_log s)) s t \<and>
     (pr_log t = pr_log s \<or> pr_log t = None) \<and> process.more t = process.more s"
proof (cases "pr_log s")
  case None
  then show ?thesis by (simp add: write_log_file_def bindS_def getS_def returnS_def quiet_refl)
next
  case (Some path)
  obtain r u where u: "process_disk (io_call ''write'') s = (r, u)" by fastforce
  then obtain d where d: "u = s \<lparr> pr_disk := d \<rparr>" "dk_files d = dk_files (pr_disk s)" using process_io by blast
  show ?thesis
  proof (cases r)
    case (Inl e)
    then show ?thesis using u d Some
      by (auto simp: write_log_file_def bindS_def getS_def tryS_def modifyS_def intro!: quiet_same)
  next
    case (Inr x)
    then show ?thesis using u d Some
      by (auto simp: write_log_file_def bindS_def getS_def tryS_def modifyS_def process_disk_def put_file_def intro!: quiet_put)
  qed
qed

lemma log_write_total:
  "\<exists>t. log_write stamp level category message s = (Inr (), t) \<and> quiet (set_option (pr_log s)) s t \<and>
     set_option (pr_log t) \<subseteq> set_option (pr_log s) \<and> process.more t = process.more s"
proof -
  let ?line = "log_line stamp level category message"
  obtain t where t: "write_log_file ?line s = (Inr (), t)" "quiet (set_option (pr_log s)) s t"
    "pr_log t = pr_log s \<or> pr_log t = None" "process.more t = process.more s"
    using write_log_total by blast
  show ?thesis using t by (auto simp: log_write_def Let_def bindS_def modifyS_def quiet_def)
qed

text \<open>Before \<^verbatim>\<open>configure\<close>, the logger has no file and no console: every line is lost.\<close>

lemma unconfigured_is_silent:
  assumes "pr_log s = None" and "\<not> pr_print_to_console s"
  shows "log_write stamp level category message s = (Inr (), s)"
  using assms by (simp add: log_write_def Let_def bindS_def modifyS_def write_log_file_def getS_def returnS_def)

end
