(* ===== verification/Daemon.thy ===== *)
theory Daemon
  imports Logger NetMessages
begin

section \<open>The node process (node_app.hpp, node_app.cpp)\<close>

text \<open>
  \<open>app\<close> is what \<^verbatim>\<open>run_node_child\<close> changes: the process of \<open>Logger\<close>, the lock of the data directory as the system
  sees it, the readiness pipe (\<open>None\<close> without a descriptor) and the flag \<^verbatim>\<open>ready_sent\<close>. What the threads of the node
  and of the RPC server do to the files while the main thread starts, sleeps and stops is an arbitrary function of
  \<open>app_env\<close>, at each of the three points where the main thread next looks at the files. The process id, clock, random
  draws and the outcome of binding the two sockets are in \<open>app_env\<close> too. The constructor of the node is \<open>construct_node\<close>,
  without its line on the seeds. Objects of a scope are destroyed before its
  handler runs: \<open>with_lock\<close>, \<open>with_pid_file\<close>, \<open>with_node\<close> and \<open>with_rpc\<close> are the scopes. POSIX branch.

  The process need not end: the stop flag may never be set, and a thread that is joined may never end. A part of
  the program of type \<open>px\<close> has the result \<open>None\<close> when it waits for ever, with the state as it waits. \<open>ae_polls\<close> are the values
  the stop flag has at the coming looks at it, \<open>ae_rpc_joins\<close> and \<open>ae_node_joins\<close> say whether the threads end once asked.
\<close>

type_synonym ('s, 'a) px = "'s \<Rightarrow> 'a res option \<times> 's"

record node_app_options =
  no_data_directory :: string
  no_p2p_bind :: string
  no_p2p_port :: u16
  no_rpc_bind :: string
  no_rpc_port :: u16
  no_manual_peers :: "peer_endpoint list"
  no_network_policy :: network_policy
  no_daemon :: bool
  no_daemon_wait :: bool
  no_daemon_child :: bool
  no_print_to_console :: bool
  no_debug_categories :: "string set"

datatype lock_state = Unlocked | Held_here | Held_elsewhere

record app = process +
  ap_lock :: lock_state
  ap_pipe :: "string option"
  ap_ready_sent :: bool

record app_env =
  ae_stamp :: "nat \<Rightarrow> log_stamp"
  ae_pid :: u32
  ae_clock :: int
  ae_nonce :: u64
  ae_resolver :: "string \<Rightarrow> u16 \<Rightarrow> peer_endpoint list"
  ae_p2p_listening :: "u16 res"
  ae_rpc_listening :: "u16 res"
  ae_draws :: "u32 list"
  ae_starting :: "disk \<Rightarrow> disk"
  ae_working :: "disk \<Rightarrow> disk"
  ae_stopping :: "disk \<Rightarrow> disk"
  ae_stats :: string
  ae_config_file :: string
  ae_detached :: "unit res"
  ae_polls :: "bool list"
  ae_rpc_joins :: bool
  ae_node_joins :: bool
  ae_pipe_fails :: bool
  ae_fork_error :: "string option"

definition lock_path :: string where "lock_path = ''.lock''"

definition pid_path :: string where "pid_path = ''binarycoind.pid''"

definition files_do :: "(disk \<Rightarrow> disk) \<Rightarrow> ('z process_scheme, unit) sx" where
  "files_do f = process_disk (modifyS f)"

definition run_all :: "('s, 'a) sx \<Rightarrow> ('s, 'a) px" where
  "run_all m s = (case m s of (r, t) \<Rightarrow> (Some r, t))"

definition wait_until :: "bool \<Rightarrow> ('s, unit) px" where
  "wait_until ends s = (if ends then Some (Inr ()) else None, s)"

definition bindP :: "('s, 'a) px \<Rightarrow> ('a \<Rightarrow> ('s, 'b) px) \<Rightarrow> ('s, 'b) px" where
  "bindP m f s =
     (case m s of
        (None, t) \<Rightarrow> (None, t)
      | (Some (Inl e), t) \<Rightarrow> (Some (Inl e), t)
      | (Some (Inr x), t) \<Rightarrow> f x t)"

definition tryP :: "('s, 'a) px \<Rightarrow> (exn \<Rightarrow> ('s, 'a) px) \<Rightarrow> ('s, 'a) px" where
  "tryP m handler s =
     (case m s of
        (None, t) \<Rightarrow> (None, t)
      | (Some (Inl e), t) \<Rightarrow> handler e t
      | (Some (Inr x), t) \<Rightarrow> (Some (Inr x), t))"

text \<open>Scopes: \<open>scoped f m\<close> runs \<open>f\<close> however \<open>m\<close> ends, \<open>on_failure f m\<close> when it throws.\<close>

definition scoped :: "('s \<Rightarrow> 's) \<Rightarrow> ('s, 'a) px \<Rightarrow> ('s, 'a) px" where
  "scoped f m s = (case m s of (None, t) \<Rightarrow> (None, t) | (Some r, t) \<Rightarrow> (Some r, f t))"

definition on_failure :: "('s, unit) px \<Rightarrow> ('s, 'a) px \<Rightarrow> ('s, 'a) px" where
  "on_failure f m = tryP m (\<lambda>e. bindP f (\<lambda>_. run_all (throwS e)))"

subsection \<open>The lock and the pid file\<close>

definition acquire_lock :: "string \<Rightarrow> (app, unit) sx" where
  "acquire_lock directory =
     bindS (process_disk (io_call ''create_directories'')) (\<lambda>_.
     bindS (process_disk (io_call ''Unable to open data directory lock'')) (\<lambda>_.
     bindS (files_do (\<lambda>d. if file_exists d lock_path then d else put_file lock_path [] d)) (\<lambda>_.
     bindS (getS ap_lock) (\<lambda>lock.
     if lock = Unlocked then modifyS (\<lambda>s. s \<lparr> ap_lock := Held_here \<rparr>)
     else throwS (RuntimeError (''Cannot obtain a lock on data directory '' @ directory
       @ ''. BinaryCoin Core is probably already running.''))))))"

definition release_lock :: "app \<Rightarrow> app" where
  "release_lock s = s \<lparr> ap_lock := Unlocked \<rparr>"

definition with_lock :: "string \<Rightarrow> (app, 'a) px \<Rightarrow> (app, 'a) px" where
  "with_lock directory m = bindP (run_all (acquire_lock directory)) (\<lambda>_. scoped release_lock m)"

definition create_pid_file :: "string \<Rightarrow> u32 \<Rightarrow> (app, unit) sx" where
  "create_pid_file directory pid =
     bindS (tryS (process_disk (io_call ''open''))
       (\<lambda>_. throwS (RuntimeError (''Unable to create PID file: '' @ path_join directory pid_path)))) (\<lambda>_.
     bindS (files_do (put_file pid_path [])) (\<lambda>_.
     tryS (bindS (process_disk (io_call ''write'')) (\<lambda>_.
         files_do (put_file pid_path (string_bytes (show_u32 pid @ [newline])))))
       (\<lambda>_. returnS ())))"

definition on_files :: "(disk \<Rightarrow> disk) \<Rightarrow> app \<Rightarrow> app" where
  "on_files f s = s \<lparr> pr_disk := f (pr_disk s) \<rparr>"

definition with_pid_file :: "string \<Rightarrow> u32 \<Rightarrow> (app, 'a) px \<Rightarrow> (app, 'a) px" where
  "with_pid_file directory pid m =
     bindP (run_all (create_pid_file directory pid)) (\<lambda>_. scoped (on_files (remove_file pid_path)) m)"

definition notify_parent :: "char \<Rightarrow> app \<Rightarrow> app" where
  "notify_parent status s = s \<lparr> ap_pipe := map_option (\<lambda>sent. sent @ [status]) (ap_pipe s) \<rparr>"

subsection \<open>Running the node\<close>

definition node_config_of :: "node_app_options \<Rightarrow> u16 \<Rightarrow> u64 \<Rightarrow> node_config" where
  "node_config_of options port nonce = \<lparr> nc_bind_address = no_p2p_bind options, nc_port = port, nc_nonce = nonce,
     nc_policy = no_network_policy options \<rparr>"

definition bound_p2p_port :: "app_env \<Rightarrow> u16" where
  "bound_p2p_port env = (case ae_p2p_listening env of Inl e \<Rightarrow> 0 | Inr port \<Rightarrow> port)"

text \<open>The destructors of the node and of the RPC server stop the threads and join them.\<close>

definition destroy_node :: "app_env \<Rightarrow> (app, unit) px" where
  "destroy_node env = bindP (run_all (files_do (ae_stopping env))) (\<lambda>_. wait_until (ae_node_joins env))"

definition with_node :: "crypto \<Rightarrow> app_env \<Rightarrow> node_app_options \<Rightarrow> (app, 'a) px \<Rightarrow> (app, 'a) px" where
  "with_node C env options m =
     bindP (run_all (process_disk (construct_node C (ae_resolver env) (no_data_directory options)
       (node_config_of options (bound_p2p_port env) (ae_nonce env)) (no_manual_peers options) (ae_clock env)
       (bindE (ae_p2p_listening env) (\<lambda>_. Inr ()))))) (\<lambda>_.
     on_failure (destroy_node env) m)"

definition with_rpc :: "app_env \<Rightarrow> (app, 'a) px \<Rightarrow> (app, 'a) px" where
  "with_rpc env m = on_failure (wait_until (ae_rpc_joins env)) m"

definition start_node :: "app_env \<Rightarrow> node_app_options \<Rightarrow> (app, unit) sx" where
  "start_node env options =
     bindS (log_info (ae_stamp env 4) ''net'' (''P2P listening on '' @ no_p2p_bind options @ '':'' @
       show_nat (unat (bound_p2p_port env)))) (\<lambda>_.
     bindS (files_do (ae_starting env)) (\<lambda>_.
     bindS (process_disk (initial_outbound_peers (node_config_of options (bound_p2p_port env) (ae_nonce env)))) (\<lambda>selected.
     log_info (ae_stamp env 5) ''net'' (''Selected '' @ show_nat (length selected) @ '' outbound peer(s)''))))"

definition start_rpc :: "app_env \<Rightarrow> node_app_options \<Rightarrow> (app, u16) sx" where
  "start_rpc env options =
     bindS (process_disk (create_rpc_cookie (no_data_directory options) (ae_draws env))) (\<lambda>_.
     bindS (liftS (ae_rpc_listening env)) (\<lambda>port.
     bindS (log_info (ae_stamp env 6) ''rpc'' (''RPC server listening on '' @ no_rpc_bind options @ '':'' @
       show_nat (unat port))) (\<lambda>_.
     returnS port)))"

definition ready_line :: "app_env \<Rightarrow> node_app_options \<Rightarrow> u16 \<Rightarrow> string" where
  "ready_line env options rpc_port =
     ''BinaryCoin server ready: P2P='' @ no_p2p_bind options @ '':'' @ show_nat (unat (bound_p2p_port env)) @
     '' RPC='' @ no_rpc_bind options @ '':'' @ show_nat (unat rpc_port)"

definition announce_ready :: "app_env \<Rightarrow> node_app_options \<Rightarrow> u16 \<Rightarrow> (app, unit) sx" where
  "announce_ready env options rpc_port =
     bindS (log_info (ae_stamp env 7) ''init'' ''Done loading'') (\<lambda>_.
     bindS (log_info (ae_stamp env 8) ''init'' (ready_line env options rpc_port)) (\<lambda>_.
     bindS (modifyS (notify_parent (CHR ''1''))) (\<lambda>_.
     modifyS (\<lambda>s. s \<lparr> ap_ready_sent := True \<rparr>))))"

text \<open>The main thread sleeps until a signal or the \<^verbatim>\<open>stop\<close> command; then both servers are stopped and joined.\<close>

fun poll_stop :: "bool list \<Rightarrow> ('s, unit) px" where
  "poll_stop [] = wait_until False"
| "poll_stop (stop # polls) = (if stop then wait_until True else poll_stop polls)"

definition log_end :: "app_env \<Rightarrow> (app, unit) sx" where
  "log_end env =
     bindS (log_info (ae_stamp env 10) ''shutdown'' (''Node stopped: '' @ ae_stats env)) (\<lambda>_.
     bindS (process_disk remove_rpc_cookie) (\<lambda>_.
     log_info (ae_stamp env 11) ''shutdown'' ''Shutdown complete''))"

definition run_until_stopped :: "app_env \<Rightarrow> (app, unit) px" where
  "run_until_stopped env =
     bindP (run_all (files_do (ae_working env))) (\<lambda>_.
     bindP (poll_stop (ae_polls env)) (\<lambda>_.
     bindP (run_all (log_info (ae_stamp env 9) ''shutdown'' ''Shutdown requested'')) (\<lambda>_.
     bindP (run_all (files_do (ae_stopping env))) (\<lambda>_.
     bindP (wait_until (ae_rpc_joins env)) (\<lambda>_.
     bindP (wait_until (ae_node_joins env)) (\<lambda>_.
     run_all (log_end env)))))))"

definition log_start :: "app_env \<Rightarrow> node_app_options \<Rightarrow> (app, unit) sx" where
  "log_start env options =
     bindS (log_info (ae_stamp env 0) ''init'' ''BinaryCoin Core version v0.1.3'') (\<lambda>_.
     bindS (log_info (ae_stamp env 1) ''init'' (''Using data directory '' @ no_data_directory options)) (\<lambda>_.
     bindS (log_info (ae_stamp env 2) ''init'' (''Using config file '' @ ae_config_file env)) (\<lambda>_.
     log_info (ae_stamp env 3) ''init'' (''P2P protocol version '' @ show_u32 P2P_PROTOCOL_VERSION))))"

definition serve_node :: "crypto \<Rightarrow> app_env \<Rightarrow> node_app_options \<Rightarrow> (app, unit) px" where
  "serve_node C env options =
     with_lock (no_data_directory options)
       (bindP (run_all (configure_log (no_data_directory options) ''debug.log''
         (no_print_to_console options \<and> \<not> no_daemon options) (no_debug_categories options))) (\<lambda>_.
        with_pid_file (no_data_directory options) (ae_pid env)
          (bindP (run_all (log_start env options)) (\<lambda>_.
           with_node C env options
             (bindP (run_all (start_node env options)) (\<lambda>_.
              bindP (run_all (start_rpc env options)) (\<lambda>rpc_port.
              with_rpc env
                (bindP (run_all (announce_ready env options rpc_port)) (\<lambda>_.
                 run_until_stopped env)))))))))"

text \<open>The handler of \<^verbatim>\<open>run_node_child\<close>, which runs when every object of the try block is gone.\<close>

definition node_failed :: "app_env \<Rightarrow> exn \<Rightarrow> (app, nat) sx" where
  "node_failed env e =
     bindS (modifyS (\<lambda>s. if ap_ready_sent s then s else notify_parent (CHR ''0'') s)) (\<lambda>_.
     bindS (log_error (ae_stamp env 12) ''init'' (exn_what e)) (\<lambda>_.
     bindS (process_disk remove_rpc_cookie) (\<lambda>_.
     returnS 1)))"

definition run_node_child :: "crypto \<Rightarrow> app_env \<Rightarrow> node_app_options \<Rightarrow> (app, nat) px" where
  "run_node_child C env options =
     bindP (run_all (modifyS (\<lambda>s. s \<lparr> ap_ready_sent := False \<rparr>))) (\<lambda>_.
     tryP (bindP (serve_node C env options) (\<lambda>_. run_all (returnS 0))) (\<lambda>e. run_all (node_failed env e)))"

subsection \<open>Foreground and daemon\<close>

text \<open>The parent of a daemon reads one byte from the pipe, or its end, or waits while the child runs and has written none.
  The child starts with the memory of the parent, and \<open>ae_detached\<close> is the outcome of \<^verbatim>\<open>detach_process\<close>. The result is the
  status the shell sees; the files are those the child has left when it ends, or when it waits for ever.\<close>

definition parent_status :: "bool \<Rightarrow> string option \<Rightarrow> nat" where
  "parent_status daemon_wait sent =
     (if daemon_wait \<and> (case sent of Some (c # cs) \<Rightarrow> c \<noteq> CHR ''1'' | _ \<Rightarrow> True) then 1 else 0)"

definition parent_says :: "nat \<Rightarrow> app \<Rightarrow> app" where
  "parent_says status s =
     (if status = 0 then s \<lparr> pr_out := pr_out s @ ''BinaryCoin server starting'' @ [newline] \<rparr>
      else s \<lparr> pr_err := pr_err s @ ''Error: BinaryCoin server failed to start. Check debug.log.'' @ [newline] \<rparr>)"

definition daemon_child :: "crypto \<Rightarrow> app_env \<Rightarrow> node_app_options \<Rightarrow> app \<Rightarrow> nat option \<times> app" where
  "daemon_child C env options s =
     (let s = s \<lparr> ap_pipe := (if no_daemon_wait options then Some [] else None) \<rparr> in
      case ae_detached env of
        Inl e \<Rightarrow> (Some 1, notify_parent (CHR ''0'') s)
      | Inr _ \<Rightarrow>
          (case run_node_child C env options s of
             (None, t) \<Rightarrow> (None, t)
           | (Some (Inl e), t) \<Rightarrow> (Some 1, t)
           | (Some (Inr status), t) \<Rightarrow> (Some status, t)))"

definition launch_node :: "crypto \<Rightarrow> app_env \<Rightarrow> node_app_options \<Rightarrow> (app, nat) px" where
  "launch_node C env options s =
     (if \<not> no_daemon options then run_node_child C env options (s \<lparr> ap_pipe := None \<rparr>)
      else if no_daemon_wait options \<and> ae_pipe_fails env
      then (Some (Inl (RuntimeError ''Unable to create daemon readiness pipe'')), s)
      else case ae_fork_error env of
        Some reason \<Rightarrow> (Some (Inl (RuntimeError (''fork failed: '' @ reason))), s)
      | None \<Rightarrow>
          (case daemon_child C env options s of
             (status, child) \<Rightarrow>
               let s = s \<lparr> pr_disk := pr_disk child, ap_lock := ap_lock child \<rparr>;
                   seen = parent_status (no_daemon_wait options) (ap_pipe child) in
               if no_daemon_wait options \<and> status = None \<and> ap_pipe child = Some [] then (None, s)
               else (Some (Inr seen), parent_says seen s)))"

text \<open>The process as \<^verbatim>\<open>main\<close> enters it: nothing configured, and perhaps another node on the directory.\<close>

definition fresh_app :: "disk \<Rightarrow> bool \<Rightarrow> string option \<Rightarrow> app" where
  "fresh_app d elsewhere pipe = \<lparr> pr_disk = d, pr_log = None, pr_print_to_console = False, pr_categories = {},
     pr_out = [], pr_err = [], ap_lock = (if elsewhere then Held_elsewhere else Unlocked), ap_pipe = pipe,
     ap_ready_sent = False \<rparr>"

end
