(* ===== verification/DaemonLaws.thy ===== *)
theory DaemonLaws
  imports Daemon NetKeep
begin

section \<open>Starting, reporting and stopping the node process\<close>

text \<open>
  \<open>same k p b\<close> fixes what of the process the rest of the system sees: the lock, the pipe, and that the log, if open,
  is \<^verbatim>\<open>debug.log\<close>. Operations on the files and the logger keep it (\<open>process_keeps\<close>, \<open>keep_log\<close>); \<open>outer x k p b\<close> adds that
  the pid file is gone or still what it was. \<open>tripleP P m Q E W\<close> is a triple for a part that may wait for ever: then \<open>W\<close>
  holds. Each step of \<^verbatim>\<open>run_node_child\<close> has a triple; \<open>serve_node_triple\<close> and \<open>run_node_child_triple\<close> compose them.
\<close>

definition same :: "string set \<Rightarrow> lock_state \<Rightarrow> string option \<Rightarrow> bool \<Rightarrow> app \<Rightarrow> bool" where
  "same absent k p b s \<longleftrightarrow> ap_lock s = k \<and> ap_pipe s = p \<and> ap_ready_sent s = b \<and> set_option (pr_log s) \<subseteq> {''debug.log''} \<and>
     (\<forall>path \<in> absent. map_of (dk_files (pr_disk s)) path = None)"

lemma process_keeps [keep]: "preserves (same {} k p b) (process_disk m)"
  by (rule preservesI) (auto simp: process_disk_def same_def split: prod.splits)

lemma files_keeps [keep]: "preserves (same {} k p b) (files_do f)"
  unfolding files_do_def by (rule process_keeps)

lemma app_of_more: "process.more t = process.more s \<Longrightarrow>
    ap_lock t = ap_lock s \<and> ap_pipe t = ap_pipe s \<and> ap_ready_sent t = ap_ready_sent s"
  by (cases s, cases t) simp

lemma log_write_same:
  assumes "same absent k p b s" and "''debug.log'' \<notin> absent"
  shows "\<exists>t. log_write stamp level category message s = (Inr (), t) \<and> same absent k p b t"
proof -
  obtain u where u: "log_write stamp level category message s = (Inr (), u)" "quiet (set_option (pr_log s)) s u"
    "set_option (pr_log u) \<subseteq> set_option (pr_log s)" "process.more u = process.more s"
    using log_write_total by blast
  have "path \<in> absent \<Longrightarrow> path \<notin> set_option (pr_log s)" for path using assms unfolding same_def by blast
  then have "\<forall>path \<in> absent. map_of (dk_files (pr_disk u)) path = None"
    using u(2) assms(1) by (simp add: quiet_def same_def)
  then show ?thesis using assms(1) app_of_more [OF u(4)] u(1,3) unfolding same_def by (intro exI [of _ u]) auto
qed

lemma log_triple:
  assumes "''debug.log'' \<notin> absent"
  shows "triple (same absent k p b) (log_write stamp level category message) (\<lambda>_. same absent k p b) E"
proof (rule tripleI)
  show "same absent k p b t" if "same absent k p b s" "log_write stamp level category message s = (Inr x, t)" for s x t
    using log_write_same [OF that(1) assms] that(2) by (metis prod.inject)
  show "E t" if "same absent k p b s" "log_write stamp level category message s = (Inl e, t)" for s e t
    using log_write_same [OF that(1) assms] that(2) by (metis Inl_Inr_False prod.inject)
qed

lemma log_triples:
  assumes "''debug.log'' \<notin> absent"
  shows "triple (same absent k p b) (log_info stamp category message) (\<lambda>_. same absent k p b) E"
    and "triple (same absent k p b) (log_error stamp category message) (\<lambda>_. same absent k p b) E"
  unfolding log_info_def log_error_def by (rule log_triple [OF assms])+

lemma keep_log [keep]: "''debug.log'' \<notin> absent \<Longrightarrow> preserves (same absent k p b) (log_info stamp category message)"
  unfolding preserves_def by (rule log_triples)

subsection \<open>Parts that may wait for ever\<close>

definition tripleP ::
  "('s \<Rightarrow> bool) \<Rightarrow> ('s, 'a) px \<Rightarrow> ('a \<Rightarrow> 's \<Rightarrow> bool) \<Rightarrow> ('s \<Rightarrow> bool) \<Rightarrow> ('s \<Rightarrow> bool) \<Rightarrow> bool" where
  "tripleP P m Q E W \<longleftrightarrow> (\<forall>s. P s \<longrightarrow>
     (case m s of (None, t) \<Rightarrow> W t | (Some (Inl e), t) \<Rightarrow> E t | (Some (Inr x), t) \<Rightarrow> Q x t))"

lemma tripleP_I:
  assumes "\<And>s t. P s \<Longrightarrow> m s = (None, t) \<Longrightarrow> W t" "\<And>s e t. P s \<Longrightarrow> m s = (Some (Inl e), t) \<Longrightarrow> E t"
    "\<And>s x t. P s \<Longrightarrow> m s = (Some (Inr x), t) \<Longrightarrow> Q x t"
  shows "tripleP P m Q E W"
  unfolding tripleP_def using assms by (auto split: prod.split option.split sum.split)

lemma tripleP_cases:
  assumes "tripleP P m Q E W" "P s"
  obtains t where "m s = (None, t)" "W t" | e t where "m s = (Some (Inl e), t)" "E t"
  | x t where "m s = (Some (Inr x), t)" "Q x t"
proof (cases "m s")
  case (Pair r t)
  have p: "case m s of (None, t) \<Rightarrow> W t | (Some (Inl e), t) \<Rightarrow> E t | (Some (Inr x), t) \<Rightarrow> Q x t"
    using assms by (simp add: tripleP_def)
  show thesis
  proof (cases r)
    case None
    then show thesis using that(1) [of t] p Pair by simp
  next
    case (Some q)
    then show thesis using that(2) [of _ t] that(3) [of _ t] p Pair by (cases q) simp_all
  qed
qed

lemma tripleP_run: "triple P m Q E \<Longrightarrow> tripleP P (run_all m) Q E W"
  by (rule tripleP_I) (auto simp: run_all_def dest: tripleD split: prod.splits)

lemma tripleP_wait: "(\<And>s. P s \<Longrightarrow> if ends then Q () s else W s) \<Longrightarrow> tripleP P (wait_until ends) Q E W"
  by (auto simp: tripleP_def wait_until_def split: if_splits)

lemma tripleP_bind:
  assumes "tripleP P m R E W" "\<And>x. tripleP (R x) (f x) Q E W"
  shows "tripleP P (bindP m f) Q E W"
  unfolding tripleP_def
proof (intro allI impI)
  fix s assume "P s"
  from assms(1) this show "case bindP m f s of (None, t) \<Rightarrow> W t | (Some (Inl e), t) \<Rightarrow> E t | (Some (Inr x), t) \<Rightarrow> Q x t"
  proof (cases rule: tripleP_cases)
    case (3 x t)
    then show ?thesis using assms(2) [of x] by (simp add: bindP_def tripleP_def)
  qed (simp_all add: bindP_def)
qed

lemma tripleP_try:
  assumes "tripleP P m Q R W" "\<And>e. tripleP R (h e) Q E W"
  shows "tripleP P (tryP m h) Q E W"
  unfolding tripleP_def
proof (intro allI impI)
  fix s assume "P s"
  from assms(1) this show "case tryP m h s of (None, t) \<Rightarrow> W t | (Some (Inl e), t) \<Rightarrow> E t | (Some (Inr x), t) \<Rightarrow> Q x t"
  proof (cases rule: tripleP_cases)
    case (2 e t)
    then show ?thesis using assms(2) [of e] by (simp add: tryP_def tripleP_def)
  qed (simp_all add: tryP_def)
qed

lemma tripleP_scoped:
  assumes "tripleP P m (\<lambda>x s. Q x (f s)) (\<lambda>s. E (f s)) W"
  shows "tripleP P (scoped f m) Q E W"
  unfolding tripleP_def
proof (intro allI impI)
  fix s assume "P s"
  from assms this show "case scoped f m s of (None, t) \<Rightarrow> W t | (Some (Inl e), t) \<Rightarrow> E t | (Some (Inr x), t) \<Rightarrow> Q x t"
    by (cases rule: tripleP_cases) (simp_all add: scoped_def)
qed

lemma tripleP_conseq:
  assumes "tripleP P' m Q' E' W'" "\<And>s. P s \<Longrightarrow> P' s" "\<And>x s. Q' x s \<Longrightarrow> Q x s" "\<And>s. E' s \<Longrightarrow> E s" "\<And>s. W' s \<Longrightarrow> W s"
  shows "tripleP P m Q E W"
proof (rule tripleP_I)
  show "W t" if "P s" "m s = (None, t)" for s t
    using assms(1) assms(2) [OF that(1)] that(2) assms(5) by (auto simp: tripleP_def)
  show "E t" if "P s" "m s = (Some (Inl e), t)" for s e t
    using assms(1) assms(2) [OF that(1)] that(2) assms(4) by (auto simp: tripleP_def)
  show "Q x t" if "P s" "m s = (Some (Inr x), t)" for s x t
    using assms(1) assms(2) [OF that(1)] that(2) assms(3) by (auto simp: tripleP_def)
qed

lemma tripleP_on_failure: "tripleP P m Q E W \<Longrightarrow> tripleP E f (\<lambda>_. E) E W \<Longrightarrow> tripleP P (on_failure f m) Q E W"
  unfolding on_failure_def
  by (erule tripleP_try) (erule tripleP_bind, rule tripleP_run, rule triple_throw)

lemma tripleP_if_so: "(A \<Longrightarrow> tripleP P m Q E W) \<Longrightarrow> tripleP (\<lambda>s. A \<and> P s) m Q E W"
  by (auto simp: tripleP_def)

lemma poll_stop_eq: "poll_stop polls = wait_until (True \<in> set polls)"
  by (induction polls) auto

subsection \<open>The lock and the pid file\<close>

text \<open>\<open>waiting env p\<close>: the process waits for ever, holding the lock; its flag is never set or a thread it joins never ends.\<close>

definition ends :: "app_env \<Rightarrow> bool" where
  "ends env \<longleftrightarrow> True \<in> set (ae_polls env) \<and> ae_rpc_joins env \<and> ae_node_joins env"

definition waiting :: "app_env \<Rightarrow> string option \<Rightarrow> app \<Rightarrow> bool" where
  "waiting env p s \<longleftrightarrow> \<not> ends env \<and> ap_lock s = Held_here \<and> (ap_pipe s = p \<or> ap_pipe s = map_option (\<lambda>sent. sent @ [CHR ''1'']) p)"

definition pid_was :: "bytes option \<Rightarrow> app \<Rightarrow> bool" where
  "pid_was x s \<longleftrightarrow> map_of (dk_files (pr_disk s)) pid_path = None \<or> map_of (dk_files (pr_disk s)) pid_path = x"

definition outer :: "bytes option \<Rightarrow> lock_state \<Rightarrow> string option \<Rightarrow> bool \<Rightarrow> app \<Rightarrow> bool" where
  "outer x k p b s \<longleftrightarrow> same {} k p b s \<and> pid_was x s"

lemma outer_process:
  assumes "\<And>d r d'. m d = (r, d') \<Longrightarrow> map_of (dk_files d') pid_path = map_of (dk_files d) pid_path"
  shows "triple (outer x k p b) (process_disk m) (\<lambda>_. outer x k p b) (outer x k p b)"
  using assms by (auto simp: triple_def process_disk_def outer_def same_def pid_was_def split: sum.splits prod.splits)

lemma outer_io: "triple (outer x k p b) (process_disk (io_call a)) (\<lambda>_. outer x k p b) (outer x k p b)"
  by (rule outer_process) (auto dest: io_call_files)

lemma outer_put:
  "path \<noteq> pid_path \<Longrightarrow> triple (outer x k p b) (process_disk (modifyS (\<lambda>d. if file_exists d path then d else put_file path c d)))
     (\<lambda>_. outer x k p b) (outer x k p b)"
  by (rule outer_process) (auto simp: modifyS_def put_file_def map_of_put_other)

lemma outer_log: "triple (outer x k p b) (log_write stamp level category message) (\<lambda>_. outer x k p b) E"
proof -
  have "outer x k p b t \<and> r = Inr ()" if o: "outer x k p b s" and l: "log_write stamp level category message s = (r, t)" for s r t
  proof -
    have s: "same {} k p b s" and q: "pid_was x s" using o by (simp_all add: outer_def)
    obtain u where u: "log_write stamp level category message s = (Inr (), u)" "quiet (set_option (pr_log s)) s u"
      using log_write_total by blast
    have "pid_path \<notin> set_option (pr_log s)" using s by (auto simp: same_def pid_path_def)
    then have "pid_was x u" using q u(2) by (simp add: pid_was_def quiet_def)
    moreover have "same {} k p b u" using log_write_same [OF s, of stamp level category message] u(1) by simp
    ultimately show ?thesis using u(1) l by (simp add: outer_def)
  qed
  then show ?thesis by (intro tripleI) blast+
qed

lemma acquire_triple:
  "triple (outer x k p b) (acquire_lock directory) (\<lambda>_ s. k = Unlocked \<and> outer x Held_here p b s) (outer x k p b)"
proof -
  have 3: "triple (outer x k p b) (bindS (getS ap_lock) (\<lambda>lock.
       if lock = Unlocked then modifyS (\<lambda>s. s \<lparr> ap_lock := Held_here \<rparr>) else throwS e))
      (\<lambda>_ s. k = Unlocked \<and> outer x Held_here p b s) (outer x k p b)" for e
    by (auto simp: triple_def sx_defs outer_def same_def pid_was_def)
  show ?thesis unfolding acquire_lock_def files_do_def
    by (rule triple_bind [OF outer_io] triple_bind [OF outer_put] 3 | simp add: lock_path_def pid_path_def)+
qed

lemma configure_triple:
  "triple (outer x k p b) (configure_log directory ''debug.log'' console categories) (\<lambda>_. outer x k p b) (outer x k p b)"
proof -
  have m: "triple (outer x k p b) (modifyS f) (\<lambda>_. outer x k p b) (outer x k p b)"
    if "\<And>s. outer x k p b s \<Longrightarrow> outer x k p b (f s)" for f
    by (rule triple_modify) (rule that)
  show ?thesis unfolding configure_log_def
    by (intro triple_bind [OF outer_io] triple_bind [OF m] triple_bind [OF triple_try [OF outer_io triple_throw]]
        triple_bind [OF outer_put] m) (auto simp: outer_def same_def pid_was_def pid_path_def)
qed

lemma create_pid_triple: "triple (outer x k p b) (create_pid_file directory pid) (\<lambda>_. same {} k p b) (outer x k p b)"
proof -
  have s: "triple (same {} k p b) (process_disk m) (\<lambda>_. same {} k p b) (same {} k p b)" for m :: "(disk, 'y) sx"
    using process_keeps unfolding preserves_def .
  have w: "triple (outer x k p b) (files_do f) (\<lambda>_. same {} k p b) E" for f E
    by (auto simp: triple_def files_do_def process_disk_def modifyS_def outer_def same_def)
  have "triple (same {} k p b) (tryS (bindS (process_disk (io_call ''write'')) (\<lambda>_. files_do f)) (\<lambda>_. returnS ()))
      (\<lambda>_. same {} k p b) E" for f E
    by (rule triple_try [where E' = "same {} k p b"], unfold files_do_def, intro triple_bind [OF s] s, rule triple_return)
  then show ?thesis unfolding create_pid_file_def
    by (intro triple_bind [OF triple_try [OF outer_io triple_throw]] triple_bind [OF w])
qed

lemma same_on_files [simp]: "same {} k p b (on_files f s) = same {} k p b s"
  by (simp add: same_def on_files_def)

lemma same_remove: "same absent k p b s \<Longrightarrow> same (insert path absent) k p b (on_files (remove_file path) s)"
  by (simp add: same_def on_files_def remove_file_def)

lemma outer_remove: "same {} k p b s \<Longrightarrow> outer x k p b (on_files (remove_file pid_path) s)"
  by (simp add: outer_def pid_was_def) (simp add: on_files_def remove_file_def)

lemma same_release: "same absent k p b s \<Longrightarrow> same absent Unlocked p b (release_lock s)"
  by (simp add: same_def release_lock_def)

lemma outer_release: "outer x k p b s \<Longrightarrow> outer x Unlocked p b (release_lock s)"
  using same_release [of "{}" k p b s] by (simp add: outer_def pid_was_def) (simp add: release_lock_def)

subsection \<open>The steps of a run\<close>

abbreviation told :: "char \<Rightarrow> string option \<Rightarrow> string option" where
  "told c p \<equiv> map_option (\<lambda>sent. sent @ [c]) p"

lemma log_start_keeps: "preserves (same {} k p b) (log_start env options)"
  unfolding log_start_def by (intro keep) simp_all

lemma start_keeps: "preserves (same {} k p b) (start_node env options)" "preserves (same {} k p b) (start_rpc env options)"
  unfolding start_node_def start_rpc_def by (intro keep; simp)+

lemma announce_triple:
  "triple (same {} k p b) (announce_ready env options rpc_port) (\<lambda>_. same {} k (told (CHR ''1'') p) True) (\<lambda>_. False)"
  unfolding announce_ready_def
  by (rule triple_bind [OF log_triples(1)], simp, rule triple_bind [OF log_triples(1)], simp,
      rule triple_bind [where Q = "\<lambda>_. same {} k (told (CHR ''1'') p) b"]; rule triple_modify)
     (auto simp: same_def notify_parent_def)

lemma remove_cookie_triple:
  "triple (same absent k p b) (process_disk remove_rpc_cookie) (\<lambda>_. same (insert cookie_path absent) k p b) E"
  by (auto simp: triple_def process_disk_def remove_rpc_cookie_def modifyS_def same_def remove_file_def)

lemma files_total: "triple (same {} k p b) (files_do f) (\<lambda>_. same {} k p b) E"
  by (auto simp: triple_def files_do_def process_disk_def modifyS_def same_def)

lemma log_end_triple: "triple (same {} k p b) (log_end env) (\<lambda>_. same {cookie_path} k p b) E"
  unfolding log_end_def
  by (rule triple_bind [OF log_triples(1)] triple_bind [OF remove_cookie_triple] log_triples(1) | simp add: cookie_path_def)+

lemma wait_triple: "(\<not> b \<Longrightarrow> \<not> ends env) \<Longrightarrow> (\<And>s. P s \<Longrightarrow> ap_lock s = Held_here \<and>
     (ap_pipe s = p \<or> ap_pipe s = map_option (\<lambda>sent. sent @ [CHR ''1'']) p)) \<Longrightarrow>
   tripleP P (wait_until b) (\<lambda>_. P) E (waiting env p)"
  by (rule tripleP_wait) (auto simp: waiting_def)

lemma run_triple:
  assumes "q = p \<or> q = told (CHR ''1'') p"
  shows "tripleP (same {} Held_here q b) (run_until_stopped env) (\<lambda>_. same {cookie_path} Held_here q b) E (waiting env p)"
  unfolding run_until_stopped_def poll_stop_eq
  by (intro tripleP_bind [OF tripleP_run [OF files_total]] tripleP_bind [OF wait_triple] tripleP_bind [OF tripleP_run [OF log_triples(1)]]
       tripleP_run [OF log_end_triple]) (use assms in \<open>auto simp: ends_def same_def\<close>)

lemma node_triple:
  assumes "tripleP (same {} Held_here p b) m Q (same {} Held_here p b) (waiting env p)"
  shows "tripleP (same {} Held_here p b) (with_node C env options m) Q (same {} Held_here p b) (waiting env p)"
proof -
  have "tripleP (same {} Held_here p b) (destroy_node env) (\<lambda>_. same {} Held_here p b) (same {} Held_here p b) (waiting env p)"
    unfolding destroy_node_def
    by (intro tripleP_bind [OF tripleP_run [OF files_total]] wait_triple) (auto simp: ends_def same_def)
  then show ?thesis unfolding with_node_def
    by (intro tripleP_bind [OF tripleP_run [OF process_keeps [unfolded preserves_def]]] tripleP_on_failure assms)
qed

lemma rpc_triple:
  assumes "tripleP (same {} Held_here p b) m Q (same {} Held_here p b) (waiting env p)"
  shows "tripleP (same {} Held_here p b) (with_rpc env m) Q (same {} Held_here p b) (waiting env p)"
  unfolding with_rpc_def
  by (intro tripleP_on_failure assms wait_triple) (auto simp: ends_def same_def)

lemma pid_triple:
  assumes "tripleP (same {} k p b) m (\<lambda>_. same {cookie_path} k q c) (same {} k p b) W"
  shows "tripleP (outer x k p b) (with_pid_file directory pid m) (\<lambda>_. same {pid_path, cookie_path} k q c) (outer x k p b) W"
  unfolding with_pid_file_def
  by (rule tripleP_bind [OF tripleP_run [OF create_pid_triple]], rule tripleP_scoped, rule tripleP_conseq [OF assms])
    (simp_all add: same_remove outer_remove)

lemma lock_triple:
  assumes "k \<noteq> Held_here"
    and "tripleP (outer x Held_here p b) m (\<lambda>_. same absent Held_here q c) (outer x Held_here p b) W"
  shows "tripleP (outer x k p b) (with_lock directory m)
    (\<lambda>_ s. k = Unlocked \<and> same absent Unlocked q c s) (outer x k p b) (\<lambda>s. k = Unlocked \<and> W s)"
  unfolding with_lock_def
  by (rule tripleP_bind [OF tripleP_run [OF acquire_triple]], rule tripleP_if_so, rule tripleP_scoped, rule tripleP_conseq [OF assms(2)])
    (simp_all add: same_release outer_release)

lemma serve_node_triple:
  assumes "k \<noteq> Held_here"
  shows "tripleP (outer x k p False) (serve_node C env options)
    (\<lambda>_ s. k = Unlocked \<and> same {pid_path, cookie_path} Unlocked (told (CHR ''1'') p) True s) (outer x k p False)
    (\<lambda>s. k = Unlocked \<and> waiting env p s)"
proof -
  have "tripleP (same {} Held_here p False) (bindP (run_all (announce_ready env options port)) (\<lambda>_. run_until_stopped env))
      (\<lambda>_. same {cookie_path} Held_here (told (CHR ''1'') p) True) (same {} Held_here p False) (waiting env p)" for port
    by (rule tripleP_bind [OF tripleP_run [OF triple_conseq [OF announce_triple]] run_triple]) auto
  then show ?thesis unfolding serve_node_def
    by (intro lock_triple [OF assms] pid_triple node_triple rpc_triple tripleP_bind [OF tripleP_run [OF configure_triple]]
        tripleP_bind [OF tripleP_run [OF log_start_keeps [unfolded preserves_def]]]
        tripleP_bind [OF tripleP_run [OF start_keeps(1) [unfolded preserves_def]]]
        tripleP_bind [OF tripleP_run [OF start_keeps(2) [unfolded preserves_def]]])
qed

lemma failed_triple:
  "triple (outer x k p False) (node_failed env e)
     (\<lambda>status s. status = 1 \<and> same {cookie_path} k (told (CHR ''0'') p) False s \<and> pid_was x s) (\<lambda>_. False)"
proof -
  have 1: "triple (outer x k p False) (modifyS (\<lambda>s. if ap_ready_sent s then s else notify_parent (CHR ''0'') s))
      (\<lambda>_. outer x k (told (CHR ''0'') p) False) (\<lambda>_. False)"
    by (rule triple_modify) (auto simp: outer_def pid_was_def same_def notify_parent_def)
  have 2: "triple (outer x k q False) (process_disk remove_rpc_cookie) (\<lambda>_ s. same {cookie_path} k q False s \<and> pid_was x s) E" for q E
    by (auto simp: triple_def process_disk_def remove_rpc_cookie_def modifyS_def outer_def same_def pid_was_def remove_file_def)
  show ?thesis unfolding node_failed_def log_error_def
    by (intro triple_bind [OF 1] triple_bind [OF outer_log] triple_bind [OF 2] triple_return) simp
qed

lemma run_node_child_triple:
  assumes "k \<noteq> Held_here"
  shows "tripleP (\<lambda>s. outer x k p (ap_ready_sent s) s) (run_node_child C env options)
    (\<lambda>status s. if status = 0 then k = Unlocked \<and> same {pid_path, cookie_path} Unlocked (told (CHR ''1'') p) True s
       else status = 1 \<and> same {cookie_path} k (told (CHR ''0'') p) False s \<and> pid_was x s)
    (\<lambda>_. False) (\<lambda>s. k = Unlocked \<and> waiting env p s)"
proof -
  have start: "triple (\<lambda>s. outer x k p (ap_ready_sent s) s) (modifyS (\<lambda>s. s \<lparr> ap_ready_sent := False \<rparr>))
      (\<lambda>_. outer x k p False) (\<lambda>_. False)"
    by (rule triple_modify) (simp add: outer_def same_def pid_was_def)
  show ?thesis unfolding run_node_child_def
    by (rule tripleP_bind [OF tripleP_run [OF start]], rule tripleP_try, rule tripleP_bind [OF serve_node_triple [OF assms]],
        rule tripleP_run, rule triple_return, simp, rule tripleP_run, rule triple_conseq [OF failed_triple]) auto
qed

lemma fresh_outer:
  "outer (map_of (dk_files d) pid_path) (if elsewhere then Held_elsewhere else Unlocked) pipe (ap_ready_sent (fresh_app d elsewhere pipe))
     (fresh_app d elsewhere pipe)"
  by (simp add: outer_def same_def pid_was_def fresh_app_def)

text \<open>What a run of the process from its start can be.\<close>

lemma fresh_run:
  "case run_node_child C env options (fresh_app d elsewhere pipe) of
     (None, t) \<Rightarrow> \<not> elsewhere \<and> waiting env pipe t
   | (Some r, t) \<Rightarrow> \<exists>status. r = Inr status \<and> status \<le> 1 \<and>
       ap_pipe t = map_option (\<lambda>sent. sent @ [if status = 0 then CHR ''1'' else CHR ''0'']) pipe \<and>
       ap_lock t = (if elsewhere then Held_elsewhere else Unlocked) \<and> map_of (dk_files (pr_disk t)) cookie_path = None \<and>
       (if status = 0 then \<not> elsewhere \<and> map_of (dk_files (pr_disk t)) pid_path = None
        else pid_was (map_of (dk_files d) pid_path) t)"
proof -
  let ?k = "if elsewhere then Held_elsewhere else Unlocked"
  have k: "?k \<noteq> Held_here" by simp
  from run_node_child_triple [OF k] fresh_outer [of d elsewhere pipe]
  show ?thesis
    by (cases rule: tripleP_cases [where m = "run_node_child C env options"])
      (auto simp: same_def split: if_splits)
qed

subsection \<open>A second start on a held directory\<close>

lemma acquire_refused:
  assumes "ap_lock s = Held_elsewhere"
  shows "\<exists>e d. acquire_lock directory s = (Inl e, s \<lparr> pr_disk := d \<rparr>) \<and>
    (\<forall>p. p \<noteq> lock_path \<longrightarrow> map_of (dk_files d) p = map_of (dk_files (pr_disk s)) p)"
proof -
  obtain r1 d1 where io1: "io_call ''create_directories'' (pr_disk s) = (r1, d1)" by fastforce
  obtain r2 d2 where io2: "io_call ''Unable to open data directory lock'' d1 = (r2, d2)" by fastforce
  have "dk_files d2 = dk_files (pr_disk s)" "dk_files d1 = dk_files (pr_disk s)"
    using io_call_files [OF io1] io_call_files [OF io2] by simp_all
  then show ?thesis using assms io1 io2
    by (cases r1; cases r2)
       (auto simp: acquire_lock_def files_do_def process_disk_def sx_defs put_file_def map_of_put_other)
qed

lemma start_refused:
  "\<exists>t. run_node_child C env options (fresh_app d True pipe) = (Some (Inr 1), t) \<and> pr_out t = [] \<and> pr_err t = [] \<and>
    map_of (dk_files (pr_disk t)) cookie_path = None \<and>
    (\<forall>p. p \<noteq> lock_path \<longrightarrow> p \<noteq> cookie_path \<longrightarrow> map_of (dk_files (pr_disk t)) p = map_of (dk_files d) p)"
proof -
  let ?s = "fresh_app d True pipe"
  have l: "ap_lock ?s = Held_elsewhere" and s: "?s \<lparr> ap_ready_sent := False \<rparr> = ?s" "pr_disk ?s = d"
    by (simp_all add: fresh_app_def)
  obtain e d' where a: "acquire_lock (no_data_directory options) ?s = (Inl e, ?s \<lparr> pr_disk := d' \<rparr>)"
    and d': "\<And>p. p \<noteq> lock_path \<Longrightarrow> map_of (dk_files d') p = map_of (dk_files d) p"
    using acquire_refused [OF l, of "no_data_directory options"] s(2) by metis
  have serve: "serve_node C env options ?s = (Some (Inl e), ?s \<lparr> pr_disk := d' \<rparr>)"
    by (simp add: serve_node_def with_lock_def bindP_def run_all_def a)
  let ?u = "(notify_parent (CHR ''0'') ?s) \<lparr> pr_disk := d' \<rparr>"
  have log: "log_write stamp level category message ?u = (Inr (), ?u)" for stamp level category message
    by (rule unconfigured_is_silent) (simp_all add: fresh_app_def notify_parent_def)
  have "notify_parent (CHR ''0'') (?s \<lparr> pr_disk := d' \<rparr>) = ?u" "\<not> ap_ready_sent (?s \<lparr> pr_disk := d' \<rparr>)"
    by (simp_all add: fresh_app_def notify_parent_def)
  then have "node_failed env e (?s \<lparr> pr_disk := d' \<rparr>) = (Inr 1, ?u \<lparr> pr_disk := remove_file cookie_path d' \<rparr>)"
    by (simp add: node_failed_def bindS_def modifyS_def returnS_def log_error_def log process_disk_def remove_rpc_cookie_def)
  then have "run_node_child C env options ?s = (Some (Inr 1), ?u \<lparr> pr_disk := remove_file cookie_path d' \<rparr>)"
    by (simp add: run_node_child_def bindP_def run_all_def modifyS_def tryP_def s serve)
  then show ?thesis using d' by (auto simp: fresh_app_def notify_parent_def remove_file_def)
qed

lemma cookie_unreadable:
  "map_of (dk_files d) cookie_path = None \<Longrightarrow> fst (read_rpc_cookie directory d) = Inl (cookie_missing directory)"
  by (simp add: read_rpc_cookie_def sx_defs)

subsection \<open>The daemon's parent\<close>

lemma daemon_status:
  assumes "no_daemon options" "no_daemon_wait options" "\<not> ae_pipe_fails env" "ae_fork_error env = None"
  shows "case daemon_child C env options (fresh_app d elsewhere pipe) of
      (Some status, t) \<Rightarrow> status \<le> 1 \<and> fst (launch_node C env options (fresh_app d elsewhere pipe)) = Some (Inr status)
    | (None, t) \<Rightarrow> \<not> ends env \<and> fst (launch_node C env options (fresh_app d elsewhere pipe)) =
        (if ap_pipe t = Some [] then None else Some (Inr 0))"
proof (cases "ae_detached env")
  case (Inl e)
  then show ?thesis using assms
    by (simp add: launch_node_def daemon_child_def Let_def notify_parent_def parent_status_def)
next
  case (Inr u)
  have f: "fresh_app d elsewhere pipe \<lparr> ap_pipe := Some [] \<rparr> = fresh_app d elsewhere (Some [])" by (simp add: fresh_app_def)
  obtain r t where run: "run_node_child C env options (fresh_app d elsewhere (Some [])) = (r, t)" by fastforce
  note facts = fresh_run [where C = C and env = env and options = options and d = d and elsewhere = elsewhere and pipe = "Some []", unfolded run]
  show ?thesis
  proof (cases r)
    case None
    then have "daemon_child C env options (fresh_app d elsewhere pipe) = (None, t)"
      using assms Inr by (simp add: daemon_child_def Let_def f run)
    moreover have "\<not> ends env" "ap_pipe t = Some [] \<or> ap_pipe t = Some ''1''" using facts None by (auto simp: waiting_def)
    ultimately show ?thesis using assms
      by (auto simp: launch_node_def Let_def parent_status_def)
  next
    case (Some q)
    then obtain status where q: "q = Inr status" "status \<le> 1" "ap_pipe t = Some [if status = 0 then CHR ''1'' else CHR ''0'']"
      using facts by auto
    then have "daemon_child C env options (fresh_app d elsewhere pipe) = (Some status, t)"
      using assms Inr Some by (simp add: daemon_child_def Let_def f run)
    then show ?thesis using assms q(2,3)
      by (cases status) (auto simp: launch_node_def Let_def parent_status_def)
  qed
qed

end
