(* ===== verification/Slots.thy ===== *)
theory Slots
  imports NetMessages
begin

section \<open>Connections and their threads (net.cpp)\<close>

text \<open>
  The members that the accept thread, the outbound threads and the session threads share, and every interleaving of
  those threads. One step is what a thread does between two looks at a shared member: an atomic counter, or a block
  under \<^verbatim>\<open>session_state_mutex_\<close> or \<^verbatim>\<open>live_peers_mutex_\<close>. A session is a \<open>slot\<close> with the stage its thread has reached
  in \<^verbatim>\<open>session_loop\<close>: \<open>Started\<close> before the first counter, \<open>Opened\<close> up to the handshake, \<open>Registered\<close> with its nonce,
  \<open>Published\<close> with its peer number while the messages are served, then the three parts of the clean-up. What the
  handshake received, whether a host is banned and whether a socket call fails is left open, so these are free in the
  rules; a thread may have read \<^verbatim>\<open>stop_requested_\<close> before it was set, so only the end of the accept thread depends on
  it. \<open>sl_crashed\<close> is the end of the process by an exception that leaves a thread. \<open>NetMessages.session_loop\<close> is what one session does alone, on its socket and files.
\<close>

datatype owner = Inbound | Outbound nat

datatype stage = Started | Opened | Registered u64 | Published u64 u64 | Unregistered u64 | Unpublished

datatype slot = Slot (slot_owner: owner) (slot_endpoint: peer_endpoint) (slot_stage: stage)

datatype accepting = Waiting | Counted peer_endpoint u64 | Accept_stopped

record slots =
  sl_stop :: bool
  sl_crashed :: bool
  sl_accepting :: accepting
  sl_sessions :: "slot list"
  sl_active_peers :: u64
  sl_active_inbound :: u64
  sl_nonces :: "u64 set"
  sl_next_peer :: u64
  sl_live_peers :: "(u64 \<times> live_peer_info) list"
  sl_accepted :: u64
  sl_outbound :: u64
  sl_stats :: live_node_stats

definition no_sessions :: slots where
  "no_sessions = \<lparr> sl_stop = False, sl_crashed = False, sl_accepting = Waiting, sl_sessions = [], sl_active_peers = 0,
     sl_active_inbound = 0, sl_nonces = {}, sl_next_peer = 0, sl_live_peers = [], sl_accepted = 0, sl_outbound = 0,
     sl_stats = \<lparr> ls_relayed_blocks = 0, ls_relayed_transactions = 0, ls_headers_received = 0, ls_addresses_received = 0,
       ls_rejected_messages = 0, ls_rejected_connections = 0, ls_duplicate_connections = 0, ls_self_connections = 0,
       ls_banned_connections = 0, ls_timeout_disconnects = 0, ls_rate_limited_connections = 0 \<rparr> \<rparr>"

subsection \<open>The accept thread\<close>

definition refuse_banned :: "slots \<Rightarrow> slots" where
  "refuse_banned s =
     s \<lparr> sl_stats := (sl_stats s) \<lparr> ls_banned_connections := ls_banned_connections (sl_stats s) + 1 \<rparr> \<rparr>"

definition count_inbound :: "peer_endpoint \<Rightarrow> slots \<Rightarrow> slots" where
  "count_inbound endpoint s = s \<lparr> sl_accepting := Counted endpoint (sl_active_inbound s),
     sl_active_inbound := sl_active_inbound s + 1 \<rparr>"

definition refuse_full :: "slots \<Rightarrow> slots" where
  "refuse_full s = s \<lparr> sl_accepting := Waiting, sl_active_inbound := sl_active_inbound s - 1,
     sl_stats := (sl_stats s) \<lparr> ls_rejected_connections := ls_rejected_connections (sl_stats s) + 1 \<rparr> \<rparr>"

text \<open>The handler of \<^verbatim>\<open>accept_loop\<close>: the socket could not be configured, or the thread not be made.\<close>

definition give_up_accept :: "bool \<Rightarrow> slots \<Rightarrow> slots" where
  "give_up_accept configured s = s \<lparr> sl_accepting := Waiting, sl_active_inbound := sl_active_inbound s - 1,
     sl_accepted := (if configured then sl_accepted s + 1 else sl_accepted s) \<rparr>"

definition start_inbound :: "peer_endpoint \<Rightarrow> slots \<Rightarrow> slots" where
  "start_inbound endpoint s = s \<lparr> sl_accepting := Waiting, sl_accepted := sl_accepted s + 1,
     sl_sessions := sl_sessions s @ [Slot Inbound endpoint Started] \<rparr>"

subsection \<open>The outbound threads\<close>

definition start_outbound :: "nat \<Rightarrow> peer_endpoint \<Rightarrow> slots \<Rightarrow> slots" where
  "start_outbound k endpoint s = s \<lparr> sl_outbound := sl_outbound s + 1,
     sl_sessions := sl_sessions s @ [Slot (Outbound k) endpoint Started] \<rparr>"

subsection \<open>The session threads\<close>

text \<open>The nonce check after the handshake gives the stage that follows; an exception and a \<^verbatim>\<open>return\<close> lead to the
  first part of the clean-up, which has no nonce to give back then.\<close>

definition register_nonce :: "node_config \<Rightarrow> u64 \<Rightarrow> slots \<Rightarrow> stage \<times> slots" where
  "register_nonce cfg nonce s =
     (let stats = sl_stats s in
      if nonce = nc_nonce cfg
      then (Unregistered 0, s \<lparr> sl_stats := stats \<lparr> ls_self_connections := ls_self_connections stats + 1 \<rparr> \<rparr>)
      else if nonce \<in> sl_nonces s
      then (Unregistered 0, s \<lparr> sl_stats := stats \<lparr> ls_duplicate_connections := ls_duplicate_connections stats + 1 \<rparr> \<rparr>)
      else (Registered nonce, s \<lparr> sl_nonces := insert nonce (sl_nonces s) \<rparr>))"

definition publish_peer :: "int \<Rightarrow> slot \<Rightarrow> peer_version \<Rightarrow> slots \<Rightarrow> u64 \<times> slots" where
  "publish_peer now slot peer s =
     (let peer_id = sl_next_peer s + 1 in
      (peer_id, s \<lparr> sl_next_peer := peer_id,
         sl_live_peers := map_put peer_id (live_peer now (slot_owner slot \<noteq> Inbound) (slot_endpoint slot) peer)
           (sl_live_peers s) \<rparr>))"

definition drop_nonce :: "u64 \<Rightarrow> slots \<Rightarrow> slots" where
  "drop_nonce nonce s = (if nonce \<noteq> 0 then s \<lparr> sl_nonces := sl_nonces s - {nonce} \<rparr> else s)"

definition drop_peer :: "u64 \<Rightarrow> slots \<Rightarrow> slots" where
  "drop_peer peer_id s = (if peer_id \<noteq> 0 then s \<lparr> sl_live_peers := map_erase peer_id (sl_live_peers s) \<rparr> else s)"

definition uncount :: "owner \<Rightarrow> slots \<Rightarrow> slots" where
  "uncount owner s = s \<lparr> sl_active_peers := sl_active_peers s - 1,
     sl_active_inbound := (if owner = Inbound then sl_active_inbound s - 1 else sl_active_inbound s) \<rparr>"

text \<open>The session ends, in any stage: what it holds is given back.\<close>

fun held_nonce :: "stage \<Rightarrow> u64" where
  "held_nonce (Registered nonce) = nonce"
| "held_nonce (Published nonce peer_id) = nonce"
| "held_nonce _ = 0"

fun held_peer :: "stage \<Rightarrow> u64" where
  "held_peer (Published nonce peer_id) = peer_id"
| "held_peer (Unregistered peer_id) = peer_id"
| "held_peer _ = 0"

fun serving :: "stage \<Rightarrow> bool" where
  "serving Opened = True"
| "serving (Registered nonce) = True"
| "serving (Published nonce peer_id) = True"
| "serving _ = False"

definition session_begin :: "slots \<Rightarrow> slots" where
  "session_begin s = s \<lparr> sl_active_peers := sl_active_peers s + 1 \<rparr>"

definition handshake_failed :: "slots \<Rightarrow> slots" where
  "handshake_failed s =
     s \<lparr> sl_stats := (sl_stats s) \<lparr> ls_rejected_messages := ls_rejected_messages (sl_stats s) + 1 \<rparr> \<rparr>"

subsection \<open>Every interleaving\<close>

text \<open>\<open>session_at xs slot ys\<close>: the session stands between the others, \<open>xs\<close> and \<open>ys\<close>.\<close>

abbreviation session_at :: "slot list \<Rightarrow> slot \<Rightarrow> slot list \<Rightarrow> slots \<Rightarrow> bool" where
  "session_at xs slot ys s \<equiv> sl_sessions s = xs @ slot # ys"

inductive slots_step :: "node_config \<Rightarrow> peer_endpoint list \<Rightarrow> slots \<Rightarrow> slots \<Rightarrow> bool" for cfg selected where
  stop: "slots_step cfg selected s (s \<lparr> sl_stop := True \<rparr>)"
| accept_stop: "sl_accepting s = Waiting \<Longrightarrow> sl_stop s \<Longrightarrow> slots_step cfg selected s (s \<lparr> sl_accepting := Accept_stopped \<rparr>)"
| accept_banned: "sl_accepting s = Waiting \<Longrightarrow> slots_step cfg selected s (refuse_banned s)"
| accept_count: "sl_accepting s = Waiting \<Longrightarrow> slots_step cfg selected s (count_inbound endpoint s)"
| accept_full: "sl_accepting s = Counted endpoint previous \<Longrightarrow> unat previous \<ge> np_max_inbound (nc_policy cfg) \<Longrightarrow>
    slots_step cfg selected s (refuse_full s)"
| accept_failed: "sl_accepting s = Counted endpoint previous \<Longrightarrow> unat previous < np_max_inbound (nc_policy cfg) \<Longrightarrow>
    slots_step cfg selected s (give_up_accept configured s)"
| accept_start: "sl_accepting s = Counted endpoint previous \<Longrightarrow> unat previous < np_max_inbound (nc_policy cfg) \<Longrightarrow>
    slots_step cfg selected s (start_inbound endpoint s)"
| ban_check_throws: "slots_step cfg selected s (s \<lparr> sl_crashed := True \<rparr>)"
| outbound_banned: "slots_step cfg selected s (refuse_banned s)"
| outbound_start: "k < length selected \<Longrightarrow> Outbound k \<notin> set (map slot_owner (sl_sessions s)) \<Longrightarrow>
    slots_step cfg selected s (start_outbound k (selected ! k) s)"
| begin_session: "session_at xs (Slot owner endpoint Started) ys s \<Longrightarrow>
    slots_step cfg selected s ((session_begin s) \<lparr> sl_sessions := xs @ Slot owner endpoint Opened # ys \<rparr>)"
| handshake_fails: "session_at xs (Slot owner endpoint Opened) ys s \<Longrightarrow>
    slots_step cfg selected s ((handshake_failed s) \<lparr> sl_sessions := xs @ Slot owner endpoint (Unregistered 0) # ys \<rparr>)"
| handshake_done: "session_at xs (Slot owner endpoint Opened) ys s \<Longrightarrow> register_nonce cfg nonce s = (stage, t) \<Longrightarrow>
    slots_step cfg selected s (t \<lparr> sl_sessions := xs @ Slot owner endpoint stage # ys \<rparr>)"
| publish: "session_at xs (Slot owner endpoint (Registered nonce)) ys s \<Longrightarrow>
    publish_peer now (Slot owner endpoint (Registered nonce)) peer s = (peer_id, t) \<Longrightarrow>
    slots_step cfg selected s (t \<lparr> sl_sessions := xs @ Slot owner endpoint (Published nonce peer_id) # ys \<rparr>)"
| session_ends: "session_at xs (Slot owner endpoint stage) ys s \<Longrightarrow> serving stage \<Longrightarrow>
    slots_step cfg selected s ((drop_nonce (held_nonce stage) s)
      \<lparr> sl_sessions := xs @ Slot owner endpoint (Unregistered (held_peer stage)) # ys \<rparr>)"
| unpublish: "session_at xs (Slot owner endpoint (Unregistered peer_id)) ys s \<Longrightarrow>
    slots_step cfg selected s ((drop_peer peer_id s) \<lparr> sl_sessions := xs @ Slot owner endpoint Unpublished # ys \<rparr>)"
| session_gone: "session_at xs (Slot owner endpoint Unpublished) ys s \<Longrightarrow>
    slots_step cfg selected s ((uncount owner s) \<lparr> sl_sessions := xs @ ys \<rparr>)"

inductive slots_reach :: "node_config \<Rightarrow> peer_endpoint list \<Rightarrow> slots \<Rightarrow> bool" for cfg selected where
  start: "slots_reach cfg selected no_sessions"
| step: "slots_reach cfg selected s \<Longrightarrow> \<not> sl_crashed s \<Longrightarrow> slots_step cfg selected s t \<Longrightarrow> slots_reach cfg selected t"

inductive_cases slots_stepE: "slots_step cfg selected s t"

subsection \<open>What every interleaving keeps\<close>

definition inbound_sessions :: "slots \<Rightarrow> nat" where
  "inbound_sessions s = length (filter (\<lambda>p. slot_owner p = Inbound) (sl_sessions s))"

definition awaiting :: "slots \<Rightarrow> nat" where
  "awaiting s = (case sl_accepting s of Counted endpoint previous \<Rightarrow> 1 | _ \<Rightarrow> 0)"

definition begun_sessions :: "slots \<Rightarrow> nat" where
  "begun_sessions s = length (filter (\<lambda>p. slot_stage p \<noteq> Started) (sl_sessions s))"

definition counters_exact :: "slots \<Rightarrow> bool" where
  "counters_exact s \<longleftrightarrow> sl_active_inbound s = word_of_nat (inbound_sessions s + awaiting s) \<and> sl_active_peers s = word_of_nat (begun_sessions s)"

lemmas slot_ops = refuse_banned_def count_inbound_def refuse_full_def give_up_accept_def start_inbound_def
  start_outbound_def session_begin_def handshake_failed_def register_nonce_def publish_peer_def drop_nonce_def
  drop_peer_def uncount_def Let_def

lemma reach_keeps:
  assumes "slots_reach cfg selected s" and "I no_sessions"
    and "\<And>s t. slots_reach cfg selected s \<Longrightarrow> slots_step cfg selected s t \<Longrightarrow> I s \<Longrightarrow> I t"
  shows "I s"
  using assms(1) by induction (use assms(2,3) in auto)

lemma counters_step: "slots_step cfg selected s t \<Longrightarrow> counters_exact s \<Longrightarrow> counters_exact t"
  by (induction rule: slots_step.induct)
    (auto simp: counters_exact_def inbound_sessions_def awaiting_def begun_sessions_def slot_ops algebra_simps split: if_splits accepting.splits)

lemma counters_reach: "slots_reach cfg selected s \<Longrightarrow> counters_exact s"
  by (erule reach_keeps, simp add: counters_exact_def no_sessions_def inbound_sessions_def awaiting_def begun_sessions_def) (rule counters_step)

text \<open>The value the accept thread has read bounds the inbound_sessions sessions: they can only have become fewer since.\<close>

definition room_left :: "node_config \<Rightarrow> slots \<Rightarrow> bool" where
  "room_left cfg s \<longleftrightarrow> inbound_sessions s \<le> np_max_inbound (nc_policy cfg) \<and>
     (case sl_accepting s of Counted endpoint previous \<Rightarrow> inbound_sessions s \<le> unat previous | _ \<Rightarrow> True)"

lemma room_step:
  assumes "np_max_inbound (nc_policy cfg) < 2 ^ 64" and "slots_step cfg selected s t" and "counters_exact s"
    and "room_left cfg s"
  shows "room_left cfg t"
proof -
  have count: "unat (sl_active_inbound s) = inbound_sessions s" if "awaiting s = 0"
    using assms(1,3,4) that by (simp add: counters_exact_def room_left_def unsigned_of_nat take_bit_nat_eq_self)
  show ?thesis using assms(2) assms(1,4) count
    by cases (auto simp: room_left_def inbound_sessions_def awaiting_def slot_ops split: if_splits accepting.splits)
qed

lemma room_reach: "np_max_inbound (nc_policy cfg) < 2 ^ 64 \<Longrightarrow> slots_reach cfg selected s \<Longrightarrow> room_left cfg s"
  by (erule reach_keeps, simp add: room_left_def no_sessions_def inbound_sessions_def) (blast intro: room_step counters_reach)

text \<open>Nonces: the sessions past the handshake have different ones, all in the set, and the set holds no other but 0.\<close>

fun stage_nonces :: "stage \<Rightarrow> u64 list" where
  "stage_nonces (Registered nonce) = [nonce]"
| "stage_nonces (Published nonce peer_id) = [nonce]"
| "stage_nonces _ = []"

definition session_nonces :: "slots \<Rightarrow> u64 list" where
  "session_nonces s = concat (map (\<lambda>p. stage_nonces (slot_stage p)) (sl_sessions s))"

definition nonces_exact :: "node_config \<Rightarrow> slots \<Rightarrow> bool" where
  "nonces_exact cfg s \<longleftrightarrow> distinct (session_nonces s) \<and> nc_nonce cfg \<notin> set (session_nonces s) \<and>
     set (session_nonces s) \<subseteq> sl_nonces s \<and> sl_nonces s \<subseteq> insert 0 (set (session_nonces s))"

lemma nonces_step: "slots_step cfg selected s t \<Longrightarrow> nonces_exact cfg s \<Longrightarrow> nonces_exact cfg t"
proof (induction rule: slots_step.induct)
  case (session_ends xs owner endpoint stage ys s)
  then show ?case by (cases stage) (auto simp: nonces_exact_def session_nonces_def slot_ops)
qed (auto simp: nonces_exact_def session_nonces_def slot_ops split: if_splits)

lemma nonces_reach: "slots_reach cfg selected s \<Longrightarrow> nonces_exact cfg s"
  by (erule reach_keeps, simp add: nonces_exact_def no_sessions_def session_nonces_def) (rule nonces_step)

text \<open>The list of live peers names sessions that are open, and 0 only after the numbers have wrapped.\<close>

definition peers_held :: "slots \<Rightarrow> bool" where
  "peers_held s \<longleftrightarrow> fst ` set (sl_live_peers s) \<subseteq> insert 0 (held_peer ` slot_stage ` set (sl_sessions s))"

lemma peers_step: "slots_step cfg selected s t \<Longrightarrow> peers_held s \<Longrightarrow> peers_held t"
proof (induction rule: slots_step.induct)
  case (session_ends xs owner endpoint stage ys s)
  then show ?case by (cases stage) (auto simp: peers_held_def slot_ops)
qed (auto simp: peers_held_def slot_ops keys_put map_erase_def split: if_splits)

lemma peers_reach: "slots_reach cfg selected s \<Longrightarrow> peers_held s"
  by (erule reach_keeps, simp add: peers_held_def no_sessions_def) (rule peers_step)

text \<open>An outbound thread runs one session at a time.\<close>

definition outbound_owners :: "slots \<Rightarrow> owner list" where
  "outbound_owners s = filter (\<lambda>owner. owner \<noteq> Inbound) (map slot_owner (sl_sessions s))"

definition outbound_single :: "peer_endpoint list \<Rightarrow> slots \<Rightarrow> bool" where
  "outbound_single selected s \<longleftrightarrow> distinct (outbound_owners s) \<and> set (outbound_owners s) \<subseteq> Outbound ` {..< length selected}"

lemma outbound_step: "slots_step cfg selected s t \<Longrightarrow> outbound_single selected s \<Longrightarrow> outbound_single selected t"
  by (induction rule: slots_step.induct)
    (auto simp: outbound_single_def outbound_owners_def slot_ops split: if_splits)

lemma outbound_reach: "slots_reach cfg selected s \<Longrightarrow> outbound_single selected s"
  by (erule reach_keeps, simp add: outbound_single_def no_sessions_def outbound_owners_def) (rule outbound_step)

lemma outbound_bound: "outbound_single selected s \<Longrightarrow> length (outbound_owners s) \<le> length selected"
proof -
  assume a: "outbound_single selected s"
  then have "length (outbound_owners s) = card (set (outbound_owners s))"
    by (simp add: outbound_single_def distinct_card)
  also have "\<dots> \<le> card (Outbound ` {..< length selected})"
    using a by (intro card_mono) (simp_all add: outbound_single_def)
  also have "\<dots> \<le> length selected" using card_image_le [of "{..< length selected}" Outbound] by simp
  finally show ?thesis .
qed

text \<open>A nonce of 0 is registered like any other and never given back: it stays in the set for good.\<close>

lemma zero_nonce_stays: "slots_step cfg selected s t \<Longrightarrow> 0 \<in> sl_nonces s \<Longrightarrow> 0 \<in> sl_nonces t"
  by (induction rule: slots_step.induct) (auto simp: slot_ops split: if_splits)

subsection \<open>The limits\<close>

lemma policy_limits: "policy_ok p = Inr () \<Longrightarrow> np_max_outbound p \<le> 64 \<and> np_max_inbound p \<le> 1024"
  by (auto simp: policy_ok_def split: if_splits)

lemma selected_length: "initial_outbound_peers cfg d = (Inr selected, d') \<Longrightarrow>
    length selected \<le> np_max_outbound (nc_policy cfg)"
  by (auto simp: initial_outbound_peers_def bindS_def returnS_def select_outbound_def split: prod.splits sum.splits)

lemma sessions_split: "length (sl_sessions s) = inbound_sessions s + length (outbound_owners s)"
proof -
  have "length (filter (\<lambda>owner. owner \<noteq> Inbound) (map slot_owner xs)) + length (filter (\<lambda>p. slot_owner p = Inbound) xs) = length xs" for xs
    by (induction xs) auto
  then show ?thesis by (simp add: inbound_sessions_def outbound_owners_def) (metis add.commute)
qed

lemma limits_reached:
  assumes "policy_ok (nc_policy cfg) = Inr ()" and "initial_outbound_peers cfg d = (Inr selected, d')"
    and "slots_reach cfg selected s"
  shows "inbound_sessions s \<le> np_max_inbound (nc_policy cfg) \<and> length (outbound_owners s) \<le> np_max_outbound (nc_policy cfg) \<and>
    length (sl_sessions s) \<le> 1088"
proof -
  note p = policy_limits [OF assms(1)]
  have "inbound_sessions s \<le> np_max_inbound (nc_policy cfg)"
    using room_reach [OF _ assms(3)] p by (simp add: room_left_def)
  moreover have "length (outbound_owners s) \<le> np_max_outbound (nc_policy cfg)"
    using outbound_bound [OF outbound_reach [OF assms(3)]] selected_length [OF assms(2)] by linarith
  ultimately show ?thesis using p by (simp add: sessions_split)
qed

end
