(* ===== verification/Options.thy ===== *)
theory Options
  imports Daemon
begin

section \<open>The command line of the daemon (main.cpp)\<close>

text \<open>
  \<open>plan_arguments\<close> is \<^verbatim>\<open>main\<close> up to the first command: the loop over the arguments, the checks after it and the
  \<^verbatim>\<open>run-node\<close> form. It yields what \<^verbatim>\<open>main\<close> goes on to do: print the help, call \<^verbatim>\<open>launch_node\<close>, or run a one-shot
  command. The default data directory of the platform is an argument.
\<close>

definition daemon_help :: string where
  "daemon_help = concat (map (\<lambda>line. line @ [newline]) [
    ''BinaryCoin Testnet Alpha v0.1.3'',
    '''',
    ''Usage:'',
    ''  binarycoind -testnet [options]                 Start node in foreground'',
    ''  binarycoind -testnet -daemon                  Start node in background'',
    ''  binarycoind -testnet [options] <command>       Run legacy one-shot command'',
    '''',
    ''Server options:'',
    ''  -daemon                 Run in the background'',
    ''  -daemonwait             Run in background and wait until initialization completes'',
    ''  -datadir=<dir>          Specify data directory'',
    ''  -bind=<addr>            P2P bind address (default 0.0.0.0)'',
    ''  -port=<port>            P2P port (default 26001)'',
    ''  -rpcbind=<addr>         RPC bind address (default 127.0.0.1)'',
    ''  -rpcport=<port>         RPC port (default 25001)'',
    ''  -debug=<category>       Enable debug category (net, rpc, addrman, validation, wallet)'',
    ''  -printtoconsole         Print logs to the console'',
    ''  -addnode=<host:port>    Add a manual outbound peer'',
    '''',
    ''Chain commands:'',
    ''  verify-genesis'',
    ''  init'',
    ''  status'',
    ''  storage-info'',
    ''  reindex'',
    ''  generate <count>'',
    ''  print-chain'',
    '''',
    ''HD wallet commands:'',
    ''  wallet-create [--type hd]'',
    ''  wallet-import [--type hd]'',
    ''  wallet-upgrade'',
    ''  wallet-info'',
    ''  getnewaddress'',
    ''  validateaddress <tbin1...>'',
    ''  getbalance'',
    ''  listunspent'',
    ''  sendtoaddress <tbin1...> <amount-BIN> [target=6] [economical|conservative]'',
    ''  sendtopubkey <compressed-pubkey-hex> <amount-BIN> [target=6] [economical|conservative]'',
    '''',
    ''Local P2P commands:'',
    ''  serve [port=26001] [bind=127.0.0.1]'',
    ''  syncfrom <host:port>'',
    ''  run-node [port=26001] [bind=0.0.0.0] [manual-peer ...] (deprecated)'',
    ''  peer-info'',
    ''  ban-info'',
    ''  clear-bans'',
    ''  branch-info'',
    '''',
    ''Network options for run-node:'',
    ''  --max-inbound N     Maximum inbound sessions (default 32)'',
    ''  --max-outbound N    Maximum saved/manual outbound peers (default 8)'',
    ''  --ban-seconds N     Persistent non-loopback ban duration (default 86400)'',
    '''',
    ''Mempool and transaction commands:'',
    ''  getrawmempool'',
    ''  estimatefee <vbytes> [target=6] [economical|conservative]'',
    ''  decode-tx <hex>'',
    '''',
    ''Notes:'',
    ''  - Blocks use an append-only checksummed store with generation-based indexes and UTXO snapshots.'',
    ''  - tbin1 addresses are BinaryCoin Bech32-PK wrappers around compressed public keys.'',
    ''  - Coinbase outputs mature after 100 blocks.'',
    ''  - generate includes all valid local mempool transactions in the first mined block.'',
    ''  - Crash recovery ignores incomplete generations; reindex reconstructs from block records.'',
    ''  - Synchronization uses block locators, headers-first validation, and missing blocks only.'',
    ''  - Strictly greater accumulated work is still required for live reorganization.'',
    ''  - Protocol v5 enforces connection limits, duplicate/self rejection, rate limits and ping deadlines.'',
    ''  - Compiled DNS and fixed bootstrap seeds are always loaded; there are no bootstrap-disable flags.''])"

definition parse_u64 :: "string \<Rightarrow> string \<Rightarrow> nat \<Rightarrow> u64 res" where
  "parse_u64 value field maximum =
     bindE (stoul ''stoull'' value) (\<lambda>(parsed, used).
     if used \<noteq> length value then Inl (InvalidArgument (field @ '' is not a valid integer''))
     else if parsed > maximum then Inl (InvalidArgument (field @ '' exceeds allowed maximum''))
     else Inr (word_of_nat parsed))"

definition DEFAULT_TESTNET_P2P_PORT :: u16 where "DEFAULT_TESTNET_P2P_PORT = 26001"

definition RESERVED_TESTNET_RPC_PORT :: u16 where "RESERVED_TESTNET_RPC_PORT = 25001"

definition default_policy :: network_policy where
  "default_policy = \<lparr> np_max_outbound = 8, np_max_inbound = 32, np_ban_threshold = 100, np_ban_seconds = 24 * 60 * 60,
     np_ping_interval = 5000, np_ping_timeout = 15000, np_message_window = 10000, np_max_messages_per_window = 2000,
     np_socket_timeout_seconds = 10, np_use_compiled_seeds = True \<rparr>"

definition default_node_options :: "string \<Rightarrow> node_app_options" where
  "default_node_options directory = \<lparr> no_data_directory = directory, no_p2p_bind = ''0.0.0.0'',
     no_p2p_port = DEFAULT_TESTNET_P2P_PORT, no_rpc_bind = ''127.0.0.1'', no_rpc_port = RESERVED_TESTNET_RPC_PORT,
     no_manual_peers = [], no_network_policy = default_policy, no_daemon = False, no_daemon_wait = False,
     no_daemon_child = False, no_print_to_console = True, no_debug_categories = {} \<rparr>"

record main_options =
  mo_testnet :: bool
  mo_datadir :: string
  mo_positional :: "string list"
  mo_policy :: network_policy
  mo_node :: node_app_options

definition initial_options :: "string \<Rightarrow> main_options" where
  "initial_options directory = \<lparr> mo_testnet = False, mo_datadir = directory, mo_positional = [],
     mo_policy = default_policy, mo_node = default_node_options directory \<rparr>"

subsection \<open>One argument\<close>

definition port_argument :: "string \<Rightarrow> string \<Rightarrow> u16 res" where
  "port_argument value field =
     bindE (parse_u64 value field 65535) (\<lambda>port.
     if (ucast port :: u16) = 0 then Inl (InvalidArgument (field @ '' must be non-zero'')) else Inr (ucast port))"

definition set_node :: "(node_app_options \<Rightarrow> node_app_options) \<Rightarrow> main_options \<Rightarrow> main_options" where
  "set_node f options = options \<lparr> mo_node := f (mo_node options) \<rparr>"

definition set_policy :: "(network_policy \<Rightarrow> network_policy) \<Rightarrow> main_options \<Rightarrow> main_options" where
  "set_policy f options = options \<lparr> mo_policy := f (mo_policy options) \<rparr>"

text \<open>An argument that is an option by itself; anything else is positional.\<close>

definition one_option :: "string \<Rightarrow> main_options \<Rightarrow> main_options res" where
  "one_option argument options =
     (if argument = ''--testnet'' \<or> argument = ''-testnet'' then Inr (options \<lparr> mo_testnet := True \<rparr>)
      else if starts_with argument ''-datadir='' then Inr (options \<lparr> mo_datadir := drop 9 argument \<rparr>)
      else if argument = ''-daemonchild'' then
        Inr (set_node (\<lambda>n. n \<lparr> no_daemon := True, no_daemon_child := True, no_print_to_console := False \<rparr>) options)
      else if argument = ''-daemon'' then
        Inr (set_node (\<lambda>n. n \<lparr> no_daemon := True, no_print_to_console := False \<rparr>) options)
      else if argument = ''-daemonwait'' then
        Inr (set_node (\<lambda>n. n \<lparr> no_daemon := True, no_daemon_wait := True, no_print_to_console := False \<rparr>) options)
      else if argument = ''-printtoconsole'' then
        Inr (set_node (\<lambda>n. n \<lparr> no_print_to_console := True \<rparr>) options)
      else if starts_with argument ''-printtoconsole='' then
        Inr (set_node (\<lambda>n. n \<lparr> no_print_to_console := drop 16 argument \<noteq> ''0'' \<rparr>) options)
      else if starts_with argument ''-bind='' then
        Inr (set_node (\<lambda>n. n \<lparr> no_p2p_bind := drop 6 argument \<rparr>) options)
      else if starts_with argument ''-port='' then
        bindE (port_argument (drop 6 argument) ''P2P port'') (\<lambda>port.
          Inr (set_node (\<lambda>n. n \<lparr> no_p2p_port := port \<rparr>) options))
      else if starts_with argument ''-rpcbind='' then
        Inr (set_node (\<lambda>n. n \<lparr> no_rpc_bind := drop 9 argument \<rparr>) options)
      else if starts_with argument ''-rpcport='' then
        bindE (port_argument (drop 9 argument) ''RPC port'') (\<lambda>port.
          Inr (set_node (\<lambda>n. n \<lparr> no_rpc_port := port \<rparr>) options))
      else if starts_with argument ''-debug='' then
        Inr (set_node (\<lambda>n. n \<lparr> no_debug_categories := insert (drop 7 argument) (no_debug_categories n) \<rparr>) options)
      else if argument = ''-debug'' then
        Inr (set_node (\<lambda>n. n \<lparr> no_debug_categories := insert ''1'' (no_debug_categories n) \<rparr>) options)
      else if starts_with argument ''-addnode='' then
        bindE (parse_peer_endpoint (drop 9 argument)) (\<lambda>endpoint.
          Inr (set_node (\<lambda>n. n \<lparr> no_manual_peers := no_manual_peers n @ [endpoint] \<rparr>) options))
      else if starts_with argument ''-maxconnections='' then
        bindE (parse_u64 (drop 16 argument) ''Maximum connections'' 1088) (\<lambda>maximum.
          Inr (set_policy (\<lambda>p. p \<lparr> np_max_inbound :=
            if unat maximum > np_max_outbound p then unat maximum - np_max_outbound p else 0 \<rparr>) options))
      else Inr (options \<lparr> mo_positional := mo_positional options @ [argument] \<rparr>))"

text \<open>An option whose value is the next argument: what it sets, and what it says without one.\<close>

definition value_option :: "string \<Rightarrow> (string \<times> (string \<Rightarrow> main_options \<Rightarrow> main_options res)) option" where
  "value_option argument =
     (if argument = ''--datadir''
      then Some (''--datadir requires a path'', \<lambda>value options. Inr (options \<lparr> mo_datadir := value \<rparr>))
      else if argument = ''--max-inbound'' then
        Some (''--max-inbound requires a value'', \<lambda>value options.
          bindE (parse_u64 value ''Maximum inbound peers'' 1024) (\<lambda>n.
            Inr (set_policy (\<lambda>p. p \<lparr> np_max_inbound := unat n \<rparr>) options)))
      else if argument = ''--max-outbound'' then
        Some (''--max-outbound requires a value'', \<lambda>value options.
          bindE (parse_u64 value ''Maximum outbound peers'' 64) (\<lambda>n.
            Inr (set_policy (\<lambda>p. p \<lparr> np_max_outbound := unat n \<rparr>) options)))
      else if argument = ''--ban-seconds'' then
        Some (''--ban-seconds requires a value'', \<lambda>value options.
          bindE (parse_u64 value ''Ban duration'' 31536000) (\<lambda>n.
            Inr (set_policy (\<lambda>p. p \<lparr> np_ban_seconds := uint n \<rparr>) options)))
      else None)"

subsection \<open>All arguments\<close>

text \<open>The result is \<open>None\<close> when an argument asks for the help, which ends the loop.\<close>

fun parse_arguments :: "string list \<Rightarrow> main_options \<Rightarrow> main_options option res" where
  "parse_arguments [] options = Inr (Some options)"
| "parse_arguments (argument # rest) options =
     (if argument = ''--help'' \<or> argument = ''-help'' \<or> argument = ''-h'' then Inr None
      else
        case value_option argument of
          None \<Rightarrow> bindE (one_option argument options) (parse_arguments rest)
        | Some (complaint, set_value) \<Rightarrow>
            (case rest of
               [] \<Rightarrow> Inl (InvalidArgument complaint)
             | value # rest \<Rightarrow> bindE (set_value value options) (parse_arguments rest)))"

datatype plan = Print_help | Launch bool node_app_options | One_shot string "string list"

definition run_node_options :: "string list \<Rightarrow> node_app_options \<Rightarrow> node_app_options res" where
  "run_node_options positional options =
     (if length positional > 3 + MAX_INVENTORY_ITEMS then Inl (InvalidArgument ''run-node received too many manual peers'')
      else
        bindE (if length positional \<ge> 2
               then bindE (parse_u64 (positional ! 1) ''P2P port'' 65535) (\<lambda>port. Inr (options \<lparr> no_p2p_port := ucast port \<rparr>))
               else Inr options) (\<lambda>options.
        let options = (if length positional \<ge> 3 then options \<lparr> no_p2p_bind := positional ! 2 \<rparr> else options) in
        bindE (mapE parse_peer_endpoint (drop 3 positional)) (\<lambda>peers.
          Inr (options \<lparr> no_manual_peers := no_manual_peers options @ peers \<rparr>))))"

definition plan_arguments :: "string \<Rightarrow> string list \<Rightarrow> plan res" where
  "plan_arguments default_directory arguments =
     bindE (parse_arguments arguments (initial_options default_directory)) (\<lambda>parsed.
     case parsed of
       None \<Rightarrow> Inr Print_help
     | Some options \<Rightarrow>
         if \<not> mo_testnet options
         then Inl (InvalidArgument ''This build is BinaryCoin Testnet Alpha. Pass -testnet.'')
         else if mo_datadir options = [] then Inl (InvalidArgument ''Data directory cannot be empty'')
         else
           let node = (mo_node options) \<lparr> no_data_directory := mo_datadir options, no_network_policy := mo_policy options \<rparr> in
           case mo_positional options of
             [] \<Rightarrow> Inr (Launch False node)
           | command # _ \<Rightarrow>
               if command = ''run-node''
               then bindE (run_node_options (mo_positional options) node) (\<lambda>node. Inr (Launch True node))
               else Inr (One_shot (mo_datadir options) (mo_positional options)))"

subsection \<open>What a command line can ask for\<close>

lemma parse_u64_bound: "parse_u64 value field maximum = Inr n \<Longrightarrow> maximum < 2 ^ 64 \<Longrightarrow> unat n \<le> maximum"
  by (auto simp: parse_u64_def unsigned_of_nat take_bit_nat_eq_self split: if_splits)

definition policy_range :: "network_policy \<Rightarrow> bool" where
  "policy_range p \<longleftrightarrow> (\<exists>a b c. p = default_policy \<lparr> np_max_outbound := a, np_max_inbound := b, np_ban_seconds := c \<rparr> \<and>
     a \<le> 64 \<and> b \<le> 1088 \<and> 0 \<le> c \<and> c \<le> 31536000)"

definition options_ok :: "main_options \<Rightarrow> bool" where
  "options_ok options \<longleftrightarrow> no_p2p_port (mo_node options) \<noteq> 0 \<and> no_rpc_port (mo_node options) \<noteq> 0 \<and>
     policy_range (mo_policy options)"

lemma range_outbound: "policy_range p \<Longrightarrow> n \<le> 64 \<Longrightarrow> policy_range (p \<lparr> np_max_outbound := n \<rparr>)"
  unfolding policy_range_def default_policy_def by auto

lemma range_inbound: "policy_range p \<Longrightarrow> n \<le> 1088 \<Longrightarrow> policy_range (p \<lparr> np_max_inbound := n \<rparr>)"
  unfolding policy_range_def default_policy_def by auto

lemma range_ban: "policy_range p \<Longrightarrow> 0 \<le> c \<Longrightarrow> c \<le> 31536000 \<Longrightarrow> policy_range (p \<lparr> np_ban_seconds := c \<rparr>)"
  unfolding policy_range_def default_policy_def by auto

lemma range_policy_ok: "policy_range p \<Longrightarrow> policy_ok p = Inr () \<longleftrightarrow> np_max_inbound p \<le> 1024"
  unfolding policy_range_def policy_ok_def default_policy_def by auto

lemma initial_ok: "options_ok (initial_options directory)"
  unfolding options_ok_def policy_range_def
  by (simp add: initial_options_def default_node_options_def DEFAULT_TESTNET_P2P_PORT_def RESERVED_TESTNET_RPC_PORT_def)
    (simp add: default_policy_def)

lemma port_argument_nonzero: "port_argument value field = Inr port \<Longrightarrow> port \<noteq> 0"
  by (auto simp: port_argument_def split: if_splits)

lemma if_InrE: "(if b then m else n) = Inr r \<Longrightarrow> (m = Inr r \<Longrightarrow> P) \<Longrightarrow> (n = Inr r \<Longrightarrow> P) \<Longrightarrow> P"
  by (simp split: if_splits)

lemma if_SomeE: "(if b then m else n) = Some r \<Longrightarrow> (m = Some r \<Longrightarrow> P) \<Longrightarrow> (n = Some r \<Longrightarrow> P) \<Longrightarrow> P"
  by (simp split: if_splits)

lemma one_option_ok: "one_option argument options = Inr r \<Longrightarrow> options_ok options \<Longrightarrow> options_ok r"
  unfolding one_option_def
  by (elim if_InrE) (auto simp: options_ok_def set_node_def set_policy_def dest!: parse_u64_bound port_argument_nonzero
    intro!: range_inbound)

lemma bounded_setting:
  assumes "bindE (parse_u64 text field maximum) (\<lambda>n. Inr (set_policy (f n) options)) = Inr r" and "options_ok options"
    and "maximum < 2 ^ 64" and "\<And>n p. policy_range p \<Longrightarrow> unat n \<le> maximum \<Longrightarrow> policy_range (f n p)"
  shows "options_ok r"
proof -
  obtain n where "parse_u64 text field maximum = Inr n" and r: "r = set_policy (f n) options" using assms(1) by auto
  then have "unat n \<le> maximum" using parse_u64_bound assms(3) by blast
  then show ?thesis using assms(2,4) r by (simp add: options_ok_def set_policy_def)
qed

lemma value_option_ok:
  assumes "value_option argument = Some (complaint, set_value)" and "set_value word options = Inr r" and "options_ok options"
  shows "options_ok r"
proof -
  have ban: "uint n \<le> 31536000" if "unat n \<le> 31536000" for n :: u64
    using of_nat_mono [OF that, where 'a = int] by (simp only: uint_nat of_nat_numeral)
  have "set_value = (\<lambda>word options. Inr (options \<lparr> mo_datadir := word \<rparr>)) \<or>
      (\<exists>field. set_value = (\<lambda>word options. bindE (parse_u64 word field 1024) (\<lambda>n.
          Inr (set_policy (\<lambda>p. p \<lparr> np_max_inbound := unat n \<rparr>) options)))) \<or>
      (\<exists>field. set_value = (\<lambda>word options. bindE (parse_u64 word field 64) (\<lambda>n.
          Inr (set_policy (\<lambda>p. p \<lparr> np_max_outbound := unat n \<rparr>) options)))) \<or>
      (\<exists>field. set_value = (\<lambda>word options. bindE (parse_u64 word field 31536000) (\<lambda>n.
          Inr (set_policy (\<lambda>p. p \<lparr> np_ban_seconds := uint n \<rparr>) options))))"
    using assms(1) unfolding value_option_def by (elim if_SomeE) auto
  then show ?thesis using assms(2,3)
  proof (elim disjE exE)
    assume "set_value = (\<lambda>word options. Inr (options \<lparr> mo_datadir := word \<rparr>))"
    then show ?thesis using assms(2,3) by (auto simp: options_ok_def)
  qed (simp_all only:, (erule bounded_setting, assumption, simp, simp add: range_inbound range_outbound range_ban ban)+)
qed

lemma parse_arguments_ok: "parse_arguments arguments options = Inr (Some r) \<Longrightarrow> options_ok options \<Longrightarrow> options_ok r"
proof (induction arguments options rule: parse_arguments.induct)
  case (2 argument rest options)
  show ?case
  proof (cases "value_option argument")
    case None
    then show ?thesis using 2 by (auto split: if_splits intro: one_option_ok)
  next
    case (Some v)
    then obtain complaint set_value word more x where v: "v = (complaint, set_value)" "rest = word # more"
      "set_value word options = Inr x" "parse_arguments more x = Inr (Some r)"
      using 2(3) by (cases v; cases rest) (auto split: if_splits)
    have "options_ok x" by (rule value_option_ok [OF Some [unfolded v(1)] v(3) 2(4)])
    then show ?thesis using 2(2) [OF _ Some v(1) [symmetric] v(2) v(3) v(4)] 2(3) by (auto split: if_splits)
  qed
qed simp

lemma planned_launch:
  assumes "plan_arguments directory arguments = Inr (Launch warned node)"
  shows "no_rpc_port node \<noteq> 0 \<and> (warned \<or> no_p2p_port node \<noteq> 0) \<and> no_data_directory node \<noteq> [] \<and>
    policy_range (no_network_policy node)"
proof -
  obtain options where o: "parse_arguments arguments (initial_options directory) = Inr (Some options)"
    using assms by (auto simp: plan_arguments_def split: option.splits)
  have "options_ok options" by (rule parse_arguments_ok [OF o initial_ok])
  then show ?thesis using assms o
    by (auto simp: plan_arguments_def options_ok_def run_node_options_def Let_def split: if_splits list.splits)
qed

end
