(* ===== verification/OneShot.thy ===== *)
theory OneShot
  imports Options Commands PeerSync
begin

section \<open>The one-shot commands (main.cpp)\<close>

text \<open>
  A one-shot command works on the files of the data directory, reads lines from \<^verbatim>\<open>std::cin\<close> and writes to
  \<^verbatim>\<open>std::cout\<close>: \<open>shell\<close>. Output is produced piece by piece, so a command that throws has printed what came before.
  \<open>say_value\<close> prints a label, then evaluates the value and prints it with the rest of the line, in the order of the
  stream operators. The result is the exit status. \<open>shell_env\<close> holds the clock, the random draws of the wallet and
  the nonce, the network, the listening port, the connected socket and the clients a server will see. As elsewhere
  files are named relative to the data directory; printed paths are joined to it. A one-shot command takes no lock.
\<close>

record shell =
  sh_disk :: disk
  sh_input :: "string list"
  sh_out :: string

record shell_client =
  sc_clock :: int
  sc_nonce :: u64
  sc_rounds :: nat
  sc_socket :: socket

record shell_env =
  se_clock :: int
  se_mining_clock :: "nat \<Rightarrow> int"
  se_entropy :: "bytes option"
  se_nonce :: u64
  se_net :: inet
  se_listening :: "u16 res"
  se_socket :: socket
  se_clients :: "shell_client list"

definition shell_disk :: "(disk, 'a) sx \<Rightarrow> (shell, 'a) sx" where
  "shell_disk m s = (case m (sh_disk s) of (r, d) \<Rightarrow> (r, s \<lparr> sh_disk := d \<rparr>))"

definition say :: "string \<Rightarrow> (shell, unit) sx" where
  "say message = modifyS (\<lambda>s. s \<lparr> sh_out := sh_out s @ message \<rparr>)"

definition say_line :: "string \<Rightarrow> (shell, unit) sx" where
  "say_line message = say (message @ [newline])"

definition say_value :: "string \<Rightarrow> string res \<Rightarrow> string \<Rightarrow> (shell, unit) sx" where
  "say_value label v rest = bindS (say label) (\<lambda>_. bindS (liftS v) (\<lambda>shown. say (shown @ rest)))"

definition say_fields :: "(string \<times> string res) list \<Rightarrow> (shell, unit) sx" where
  "say_fields entries = foldS (\<lambda>(label, v). say_value (label @ ''='') v [newline]) entries"

definition yes_no :: "bool \<Rightarrow> string" where
  "yes_no b = (if b then ''yes'' else ''no'')"

definition show_size :: "nat res \<Rightarrow> string res" where
  "show_size r = bindE r (\<lambda>n. Inr (show_nat n))"

text \<open>The quoted form of a path in a stream.\<close>

definition quoted_path :: "string \<Rightarrow> string" where
  "quoted_path s = [CHR 0x22] @ concat (map (\<lambda>c. if c = CHR 0x22 \<or> c = CHR 0x5C then [CHR 0x5C, c] else [c]) s) @ [CHR 0x22]"

subsection \<open>Commands without a chain\<close>

definition mode_from_positional :: "string list \<Rightarrow> nat \<Rightarrow> fee_estimate_mode res" where
  "mode_from_positional positional index =
     (if index < length positional then parse_fee_mode (positional ! index) else Inr Economical)"

definition target_from_positional :: "string list \<Rightarrow> nat \<Rightarrow> u32 res" where
  "target_from_positional positional index =
     (if index < length positional
      then bindE (parse_u64 (positional ! index) ''Confirmation target'' 1008) (\<lambda>target. Inr (ucast target))
      else Inr 6)"

fun print_outputs :: "nat \<Rightarrow> tx_output list \<Rightarrow> (shell, unit) sx" where
  "print_outputs index [] = returnS ()"
| "print_outputs index (output # outputs) =
     (let label = ''output['' @ show_nat index @ '']'' in
      bindS (say_fields [
        (label @ ''.bits'', Inr (show_int (to_value output))),
        (label @ ''.bin'', format_bin_amount (to_value output)),
        (label @ ''.script'', Inr (bytes_to_hex (to_script_pubkey output)))]) (\<lambda>_.
      print_outputs (Suc index) outputs))"

definition print_transaction :: "crypto \<Rightarrow> transaction \<Rightarrow> (shell, unit) sx" where
  "print_transaction C t =
     bindS (say_fields [
       (''txid'', txid C t),
       (''version'', Inr (show_int (sint (tx_version t)))),
       (''vsize'', show_size (virtual_size t)),
       (''inputs'', Inr (show_nat (length (tx_inputs t)))),
       (''outputs'', Inr (show_nat (length (tx_outputs t)))),
       (''coinbase'', Inr (yes_no (is_coinbase t))),
       (''locktime'', Inr (show_u32 (tx_lock_time t)))]) (\<lambda>_.
     print_outputs 0 (tx_outputs t))"

definition verify_genesis_command :: "crypto \<Rightarrow> (shell, nat) sx" where
  "verify_genesis_command C =
     bindS (liftS (testnet_genesis_header C)) (\<lambda>genesis.
     bindS (liftS (hash_hex C genesis)) (\<lambda>hash.
     bindS (liftS (bindE (header_raw_hash C genesis) (\<lambda>raw. check_proof_of_work raw (bh_bits genesis)))) (\<lambda>pow_valid.
     bindS (foldS say_line [
       ''Network:      testnet'',
       ''MessageStart: TBIT'',
       ''Version:      '' @ show_int (sint (bh_version genesis)),
       ''Time:         '' @ show_u32 (bh_time genesis),
       ''Bits:         0x'' @ show_hex (unat (bh_bits genesis)),
       ''Nonce:        '' @ show_u32 (bh_nonce genesis),
       ''Merkle root:  '' @ bh_merkle_root genesis,
       ''Genesis hash: '' @ hash,
       ''PoW valid:    '' @ yes_no pow_valid,
       ''Genesis txid: '' @ TESTNET_GENESIS_TXID,
       ''Genesis BIN:  50.00000000 (excluded from the UTXO set)'']) (\<lambda>_.
     if hash \<noteq> TESTNET_GENESIS_HASH \<or> \<not> pow_valid then throwS (RuntimeError ''Testnet genesis verification failed'')
     else returnS 0))))"

definition estimate_fee_command :: "string list \<Rightarrow> (shell, nat) sx" where
  "estimate_fee_command positional =
     (if length positional < 2 \<or> length positional > 4
      then throwS (InvalidArgument ''estimatefee requires vbytes and optional target/mode'')
      else
        bindS (liftS (parse_u64 (positional ! 1) ''Virtual size'' 4000000)) (\<lambda>vbytes.
        bindS (liftS (target_from_positional positional 2)) (\<lambda>target.
        bindS (liftS (mode_from_positional positional 3)) (\<lambda>mode.
        bindS (liftS (estimate vbytes target mode)) (\<lambda>quote.
        bindS (say_fields [
          (''vbytes'', Inr (show_u64 vbytes)),
          (''target'', Inr (show_u32 (fq_confirmation_target quote))),
          (''mode'', Inr (fee_mode_name (fq_mode quote))),
          (''source'', Inr (fee_source_name (fq_source quote))),
          (''feerate_bits_per_kvb'', Inr (show_int (fq_rate quote))),
          (''fee_bits'', Inr (show_int (fq_fee quote)))]) (\<lambda>_.
        returnS 0))))))"

definition decode_tx_command :: "crypto \<Rightarrow> string list \<Rightarrow> (shell, nat) sx" where
  "decode_tx_command C positional =
     (if length positional \<noteq> 2 then throwS (InvalidArgument ''decode-tx requires one transaction hex string'')
      else
        bindS (liftS (bindE (hex_to_bytes (positional ! 1)) deserialize_transaction)) (\<lambda>t.
        bindS (print_transaction C t) (\<lambda>_.
        bindS (say_fields [(''canonical_hex'', bindE (serialize_transaction t) (\<lambda>bytes. Inr (bytes_to_hex bytes)))]) (\<lambda>_.
        returnS 0))))"

definition validate_address_line :: "crypto \<Rightarrow> string list \<Rightarrow> (shell, nat) sx" where
  "validate_address_line C positional =
     (if length positional \<noteq> 2 then throwS (InvalidArgument ''validateaddress requires one address'')
      else
        let valid = valid_testnet_address C (positional ! 1) in
        bindS (say_fields [(''isvalid'', Inr (yes_no valid))]) (\<lambda>_.
        if valid then
          bindS (say_fields [
            (''network'', Inr ''testnet''),
            (''address_type'', Inr ''bech32-pk-v0''),
            (''public_key'', bindE (decode_testnet_address C (positional ! 1)) (\<lambda>key. Inr (bytes_to_hex key)))]) (\<lambda>_.
          returnS 0)
        else returnS 1))"

subsection \<open>The chain\<close>

text \<open>\<open>chain_stats\<close> is \<^verbatim>\<open>storage_stats\<close>, on the files as they are.\<close>

definition chain_stats :: "crypto \<Rightarrow> chain \<Rightarrow> disk \<Rightarrow> chain_storage_stats" where
  "chain_stats C c d = store_stats C ((cn_store c) \<lparr> st_disk := d \<rparr>)"

definition tip_field :: "(stored_block \<Rightarrow> 'a res) \<Rightarrow> chain \<Rightarrow> 'a res" where
  "tip_field f c = bindE (chain_tip c) f"

definition shown_height :: "chain \<Rightarrow> string res" where
  "shown_height c = tip_field (\<lambda>b. Inr (show_u64 (sb_height b))) c"

definition init_command :: "crypto \<Rightarrow> string \<Rightarrow> (shell, nat) sx" where
  "init_command C directory =
     bindS (shell_disk (start_chain C directory)) (\<lambda>c.
     bindS (say_line (''Initialized BinaryCoin Testnet Alpha chain at '' @ quoted_path directory)) (\<lambda>_.
     bindS (say_value ''Genesis: '' (tip_field (block_hash C) c) [newline]) (\<lambda>_.
     returnS 0)))"

definition reindex_command :: "crypto \<Rightarrow> string \<Rightarrow> string list \<Rightarrow> (shell, nat) sx" where
  "reindex_command C directory positional =
     (if length positional \<noteq> 1 then throwS (InvalidArgument ''reindex accepts no arguments'')
      else
        bindS (shell_disk (\<lambda>d. bindS (on_chain (chain_reindex C) (new_chain directory d)) (\<lambda>(_, c). returnS c) d)) (\<lambda>c.
        bindS (getS (\<lambda>s. chain_stats C c (sh_disk s))) (\<lambda>stats.
        bindS (say_fields [
          (''reindexed'', Inr ''yes''),
          (''blocks'', shown_height c),
          (''bestblockhash'', tip_field (block_hash C) c),
          (''utxos'', Inr (show_nat (length (cn_utxos c)))),
          (''storage_generation'', Inr (show_u64 (cs_generation stats)))]) (\<lambda>_.
        returnS 0))))"

definition storage_info_command :: "crypto \<Rightarrow> string \<Rightarrow> chain \<Rightarrow> (shell, nat) sx" where
  "storage_info_command C directory c =
     bindS (getS (\<lambda>s. chain_stats C c (sh_disk s))) (\<lambda>stats.
     bindS (say_fields [
       (''backend'', Inr ''append-only-v1''),
       (''generation'', Inr (show_u64 (cs_generation stats))),
       (''active_height'', Inr (show_u64 (cs_active_height stats))),
       (''block_records'', Inr (show_nat (cs_block_records stats))),
       (''block_file_bytes'', Inr (show_nat (cs_block_file_bytes stats))),
       (''recovered'', Inr (yes_no (cs_recovered stats))),
       (''migrated_legacy'', Inr (yes_no (cs_migrated_legacy stats))),
       (''blocks_path'', Inr (path_join directory ''blocks/blk00000.dat'')),
       (''manifest_path'', Inr (path_join directory ''chainstate/manifest-v1''))]) (\<lambda>_.
     returnS 0))"

definition status_command :: "crypto \<Rightarrow> string \<Rightarrow> chain \<Rightarrow> (shell, nat) sx" where
  "status_command C directory c =
     bindS (shell_disk (on_chain (chain_verify C) c)) (\<lambda>(_, c).
     bindS (shell_disk (open_text mempool_load)) (\<lambda>pool.
     bindS (shell_disk (open_text peers_load)) (\<lambda>peers.
     bindS (shell_disk (open_text (branch_load C))) (\<lambda>branches.
     bindS (liftS (chain_tip c)) (\<lambda>tip.
     bindS (getS (\<lambda>s. chain_stats C c (sh_disk s))) (\<lambda>stats.
     bindS (say_fields [
       (''network'', Inr ''testnet''),
       (''message_start'', Inr ''TBIT''),
       (''datadir'', Inr directory),
       (''blocks'', Inr (show_u64 (sb_height tip))),
       (''bestblockhash'', block_hash C tip),
       (''chainwork'', chainwork_hex c),
       (''utxos'', Inr (show_nat (length (cn_utxos c)))),
       (''storage_backend'', Inr ''append-only-v1''),
       (''storage_generation'', Inr (show_u64 (cs_generation stats))),
       (''block_records'', Inr (show_nat (cs_block_records stats))),
       (''block_file_bytes'', Inr (show_nat (cs_block_file_bytes stats))),
       (''storage_recovered'', Inr (yes_no (cs_recovered stats))),
       (''mempool_transactions'', Inr (show_nat (length pool))),
       (''known_peers'', Inr (show_nat (length peers))),
       (''side_branch_blocks'', Inr (show_nat (length branches))),
       (''issued_bits'', bindE (issued_supply c) (\<lambda>supply. Inr (show_int supply))),
       (''issued_bin'', bindE (issued_supply c) format_bin_amount),
       (''halving_interval'', Inr (show_u32 TESTNET_HALVING_INTERVAL)),
       (''coinbase_maturity'', Inr (show_u32 COINBASE_MATURITY))]) (\<lambda>_.
     returnS 0)))))))"

fun print_chain_transactions :: "crypto \<Rightarrow> transaction list \<Rightarrow> (shell, unit) sx" where
  "print_chain_transactions C [] = returnS ()"
| "print_chain_transactions C (t # ts) =
     bindS (say_value ''  txid='' (txid C t) []) (\<lambda>_.
     bindS (say ('' coinbase='' @ yes_no (is_coinbase t))) (\<lambda>_.
     bindS (say_value '' vsize='' (show_size (virtual_size t)) [newline]) (\<lambda>_.
     print_chain_transactions C ts)))"

fun print_blocks :: "crypto \<Rightarrow> int \<Rightarrow> stored_block list \<Rightarrow> (shell, unit) sx" where
  "print_blocks C work [] = returnS ()"
| "print_blocks C work (b # bs) =
     (let header = b_header (sb_block b) in
      bindS (liftS (block_proof (bh_bits header))) (\<lambda>proof.
      bindS (say_value (''height='' @ show_u64 (sb_height b) @ '' hash='') (block_hash C b) []) (\<lambda>_.
      bindS (say ('' previous='' @ bh_previous_hash header @ '' merkle='' @ bh_merkle_root header @
        '' txs='' @ show_nat (length (b_transactions (sb_block b))) @ '' time='' @ show_u32 (bh_time header) @
        '' nonce='' @ show_u32 (bh_nonce header))) (\<lambda>_.
      bindS (say_value '' chainwork='' (uint256_to_hex (work + proof)) [newline]) (\<lambda>_.
      bindS (print_chain_transactions C (b_transactions (sb_block b))) (\<lambda>_.
      print_blocks C (work + proof) bs))))))"

definition print_chain_command :: "crypto \<Rightarrow> chain \<Rightarrow> (shell, nat) sx" where
  "print_chain_command C c = bindS (print_blocks C 0 (cn_blocks c)) (\<lambda>_. returnS 0)"

subsection \<open>The other files\<close>

fun print_numbered :: "string \<Rightarrow> ('a \<Rightarrow> string) \<Rightarrow> nat \<Rightarrow> 'a list \<Rightarrow> (shell, unit) sx" where
  "print_numbered label show_record index [] = returnS ()"
| "print_numbered label show_record index (r # rs) =
     bindS (say_line (label @ ''['' @ show_nat index @ '']='' @ show_record r)) (\<lambda>_.
     print_numbered label show_record (Suc index) rs)"

definition peer_line_text :: "peer_record \<Rightarrow> string" where
  "peer_line_text r = pe_host (pr_endpoint r) @ '':'' @ show_nat (unat (pe_port (pr_endpoint r))) @
     '' services='' @ show_u64 (pr_services r) @ '' last_seen='' @ show_int (pr_last_seen r) @
     '' last_success='' @ show_int (pr_last_success r) @ '' failures='' @ show_u32 (pr_failures r) @
     '' manual='' @ yes_no (pr_manual r)"

definition peer_info_command :: "string \<Rightarrow> (shell, nat) sx" where
  "peer_info_command directory =
     bindS (shell_disk (open_text peers_load)) (\<lambda>peers.
     bindS (print_numbered ''peer'' peer_line_text 0 peers) (\<lambda>_.
     bindS (say_fields [(''count'', Inr (show_nat (length peers))), (''path'', Inr (path_join directory peers_path))]) (\<lambda>_.
     returnS 0)))"

definition ban_line_text :: "ban_record \<Rightarrow> string" where
  "ban_line_text b = br_host b @ '' until='' @ show_int (br_banned_until b) @ '' score='' @ show_u32 (br_score b) @
     '' reason='' @ br_reason b"

definition ban_info_command :: "int \<Rightarrow> string \<Rightarrow> (shell, nat) sx" where
  "ban_info_command clock directory =
     bindS (shell_disk (open_text (bans_load clock))) (\<lambda>bans.
     bindS (print_numbered ''ban'' ban_line_text 0 bans) (\<lambda>_.
     bindS (say_fields [(''count'', Inr (show_nat (length bans))), (''path'', Inr (path_join directory banlist_path))]) (\<lambda>_.
     returnS 0)))"

definition clear_bans_command :: "int \<Rightarrow> string \<Rightarrow> (shell, nat) sx" where
  "clear_bans_command clock directory =
     bindS (shell_disk (open_text (bans_load clock))) (\<lambda>bans.
     bindS (shell_disk (edit_text bans_clear bans)) (\<lambda>_.
     bindS (say_fields [(''cleared'', Inr ''yes''), (''path'', Inr (path_join directory banlist_path))]) (\<lambda>_.
     returnS 0)))"

fun print_branches :: "crypto \<Rightarrow> stored_block list \<Rightarrow> (shell, unit) sx" where
  "print_branches C [] = returnS ()"
| "print_branches C (b # bs) =
     bindS (say_value (''height='' @ show_u64 (sb_height b) @ '' hash='') (block_hash C b)
       ('' previous='' @ bh_previous_hash (b_header (sb_block b)) @ [newline])) (\<lambda>_.
     print_branches C bs)"

definition branch_info_command :: "crypto \<Rightarrow> string \<Rightarrow> (shell, nat) sx" where
  "branch_info_command C directory =
     bindS (shell_disk (open_text (branch_load C))) (\<lambda>branches.
     bindS (say_fields [(''side_branch_blocks'', Inr (show_nat (length branches))),
       (''path'', Inr (path_join directory branch_path))]) (\<lambda>_.
     bindS (print_branches C branches) (\<lambda>_.
     returnS 0)))"

fun print_txids :: "crypto \<Rightarrow> transaction list \<Rightarrow> (shell, unit) sx" where
  "print_txids C [] = returnS ()"
| "print_txids C (t # ts) = bindS (say_value [] (txid C t) [newline]) (\<lambda>_. print_txids C ts)"

definition raw_mempool_command :: "crypto \<Rightarrow> (shell, nat) sx" where
  "raw_mempool_command C =
     bindS (shell_disk (open_text mempool_load)) (\<lambda>pool.
     bindS (print_txids C pool) (\<lambda>_.
     bindS (say_fields [(''count'', Inr (show_nat (length pool)))]) (\<lambda>_.
     returnS 0)))"

subsection \<open>The peer commands\<close>

text \<open>\<^verbatim>\<open>serve_forever\<close> drops a client whose handling throws and goes on; the process ends with a signal.\<close>

fun serve_clients :: "crypto \<Rightarrow> inet \<Rightarrow> string \<Rightarrow> shell_client list \<Rightarrow> disk \<Rightarrow> disk" where
  "serve_clients C N directory [] d = d"
| "serve_clients C N directory (client # clients) d =
     (case handle_client C N (sc_clock client) (sc_nonce client) (sc_rounds client)
         \<lparr> lk_directory = directory, lk_disk = d, lk_socket = sc_socket client, sv_chain = new_chain directory d \<rparr> of
        (r, s) \<Rightarrow> serve_clients C N directory clients (lk_disk s))"

definition serve_command :: "crypto \<Rightarrow> shell_env \<Rightarrow> string \<Rightarrow> string list \<Rightarrow> (shell, nat) sx" where
  "serve_command C env directory positional =
     (if length positional > 3 then throwS (InvalidArgument ''serve accepts optional port and bind address'')
      else
        bindS (liftS (if length positional \<ge> 2 then bindE (parse_u64 (positional ! 1) ''P2P port'' 65535) (\<lambda>p. Inr (ucast p :: u16))
          else Inr DEFAULT_TESTNET_P2P_PORT)) (\<lambda>port.
        if port = 0 then throwS (InvalidArgument ''P2P port must be non-zero'')
        else
          let bind_address = (if length positional \<ge> 3 then positional ! 2 else ''127.0.0.1'') in
          bindS (liftS (se_listening env)) (\<lambda>bound.
          bindS (foldS say_line [
            ''BinaryCoin testnet P2P listening'',
            ''bind='' @ bind_address,
            ''port='' @ show_nat (unat bound),
            ''message_start=TBIT'',
            ''protocol='' @ show_u32 P2P_PROTOCOL_VERSION,
            ''Press Ctrl+C to stop.'']) (\<lambda>_.
          bindS (shell_disk (modifyS (serve_clients C (se_net env) directory (se_clients env)))) (\<lambda>_.
          returnS 0)))))"

definition new_sync :: "string \<Rightarrow> socket \<Rightarrow> disk \<Rightarrow> sync" where
  "new_sync directory socket d = \<lparr> lk_directory = directory, lk_disk = d, lk_socket = socket,
     sy_chain = new_chain directory d, sy_pool = [], sy_peers = [], sy_branches = [] \<rparr>"

definition shell_sync :: "socket \<Rightarrow> string \<Rightarrow> (sync, 'a) sx \<Rightarrow> (shell, 'a) sx" where
  "shell_sync socket directory m s =
     (case m (new_sync directory socket (sh_disk s)) of (r, t) \<Rightarrow> (r, s \<lparr> sh_disk := lk_disk t \<rparr>))"

definition sync_from_command :: "crypto \<Rightarrow> shell_env \<Rightarrow> string \<Rightarrow> string list \<Rightarrow> (shell, nat) sx" where
  "sync_from_command C env directory positional =
     (if length positional \<noteq> 2 then throwS (InvalidArgument ''syncfrom requires host:port'')
      else
        bindS (liftS (parse_peer_endpoint (positional ! 1))) (\<lambda>endpoint.
        bindS (shell_sync (se_socket env) directory
          (sync_from_peer C (se_net env) (se_clock env) (se_nonce env) endpoint)) (\<lambda>result.
        let peer = sr_peer result in
        bindS (say_fields [
          (''peer'', Inr (pe_host endpoint @ '':'' @ show_nat (unat (pe_port endpoint)))),
          (''peer_user_agent'', Inr (pv_user_agent peer)),
          (''peer_protocol'', Inr (show_u32 (pv_protocol_version peer))),
          (''peer_height'', Inr (show_u64 (pv_best_height peer))),
          (''peer_tip'', Inr (pv_tip_hash peer)),
          (''peer_chainwork'', Inr (pv_chainwork peer)),
          (''local_height_before'', Inr (show_u64 (sr_local_height_before result))),
          (''local_chainwork_before'', Inr (sr_local_chainwork_before result)),
          (''headers_received'', Inr (show_nat (sr_headers_received result))),
          (''blocks_received'', Inr (show_nat (sr_blocks_received result))),
          (''blocks_reused_from_side_store'', Inr (show_nat (sr_blocks_reused result))),
          (''candidate_chainwork'', Inr (sr_candidate_chainwork result)),
          (''candidate_activated'', Inr (yes_no (sr_activated_candidate result))),
          (''reorganized'', Inr (yes_no (sr_reorganized result))),
          (''fork_height'', Inr (show_u64 (sr_fork_height result))),
          (''disconnected_blocks'', Inr (show_nat (sr_disconnected_blocks result))),
          (''connected_blocks'', Inr (show_nat (sr_connected_blocks result))),
          (''resurrected_transactions'', Inr (show_nat (sr_resurrected_transactions result))),
          (''mempool_received'', Inr (show_nat (sr_mempool_received result))),
          (''local_height_after'', Inr (show_u64 (sr_local_height_after result))),
          (''local_chainwork_after'', Inr (sr_local_chainwork_after result))]) (\<lambda>_.
        returnS 0))))"

end
