(* ===== verification/DaemonMain.thy ===== *)
theory DaemonMain
  imports OneShot
begin

section \<open>The wallet commands and \<^verbatim>\<open>main\<close> (main.cpp)\<close>

text \<open>
  The one-shot commands on the wallet, the chain of comparisons that selects a command, and the program as a whole:
  arguments, then \<^verbatim>\<open>launch_node\<close> or a command, then the handler that prints the error. A wallet object is that of
  \<^verbatim>\<open>WalletManager\<close>, as in \<open>Commands\<close>.
\<close>

definition current_wallet :: "(manager, wallet) sx" where
  "current_wallet =
     bindS (getS snd) (\<lambda>backend.
     case backend of None \<Rightarrow> throwS (RuntimeError ''Wallet backend is not loaded'') | Some w \<Rightarrow> returnS w)"

definition backend_type :: "string \<Rightarrow> string list \<Rightarrow> string res" where
  "backend_type command positional =
     (if length positional = 3 \<and> positional ! 1 = ''--type'' then Inr (positional ! 2)
      else if length positional \<noteq> 1 then Inl (InvalidArgument (command @ '' accepts optional --type <backend>''))
      else Inr ''hd'')"

definition shell_manager :: "(manager, 'a) sx \<Rightarrow> wallet option \<Rightarrow> (shell, 'a \<times> wallet option) sx" where
  "shell_manager m backend = shell_disk (on_manager m backend)"

definition crypto_backend_name :: string where
  "crypto_backend_name = ''libsecp256k1''"

definition wallet_create_command :: "crypto \<Rightarrow> kdf \<Rightarrow> shell_env \<Rightarrow> string \<Rightarrow> string list \<Rightarrow> (shell, nat) sx" where
  "wallet_create_command C K env directory positional =
     bindS (liftS (backend_type ''wallet-create'' positional)) (\<lambda>kind.
     bindS (shell_disk (start_chain C directory)) (\<lambda>_.
     bindS (shell_manager (bindS (manager_create C K directory (se_entropy env) kind) (\<lambda>phrase.
       bindS current_wallet (\<lambda>w. returnS (phrase, w)))) None) (\<lambda>(made, _). case made of (phrase, w) \<Rightarrow>
     bindS (say_line ''Created BinaryCoin Testnet Alpha wallet'') (\<lambda>_.
     bindS (say_fields [
       (''wallet'', Inr (path_join directory (wallet_file w))),
       (''wallet_type'', Inr (kind_name w)),
       (''crypto_backend'', Inr crypto_backend_name),
       (''address'', wallet_address C K w),
       (''import_phrase_words'', Inr ''24'')]) (\<lambda>_.
     bindS (say_line phrase) (\<lambda>_.
     returnS 0))))))"

definition read_phrase :: "(shell, string) sx" where
  "read_phrase =
     bindS (getS sh_input) (\<lambda>input.
     case input of
       [] \<Rightarrow> throwS (InvalidArgument ''No import phrase was entered'')
     | phrase # rest \<Rightarrow>
         bindS (modifyS (\<lambda>s. s \<lparr> sh_input := rest \<rparr>)) (\<lambda>_.
         if phrase = [] then throwS (InvalidArgument ''No import phrase was entered'') else returnS phrase))"

definition wallet_import_command :: "crypto \<Rightarrow> kdf \<Rightarrow> string \<Rightarrow> string list \<Rightarrow> (shell, nat) sx" where
  "wallet_import_command C K directory positional =
     bindS (liftS (backend_type ''wallet-import'' positional)) (\<lambda>kind.
     bindS (shell_disk (start_chain C directory)) (\<lambda>_.
     bindS (say_line ''Enter the 24-word import phrase, then press Enter:'') (\<lambda>_.
     bindS read_phrase (\<lambda>phrase.
     bindS (shell_manager (bindS (manager_import C K directory phrase kind) (\<lambda>_. current_wallet)) None) (\<lambda>(w, _).
     bindS (say_line ''Imported BinaryCoin wallet'') (\<lambda>_.
     bindS (say_fields [
       (''wallet_type'', Inr (kind_name w)),
       (''wallet'', Inr (path_join directory (wallet_file w))),
       (''address'', wallet_address C K w)]) (\<lambda>_.
     returnS 0)))))))"

definition wallet_upgrade_command :: "crypto \<Rightarrow> kdf \<Rightarrow> shell_env \<Rightarrow> string \<Rightarrow> (shell, nat) sx" where
  "wallet_upgrade_command C K env directory =
     bindS (shell_disk (start_chain C directory)) (\<lambda>_.
     bindS (shell_manager (bindS (manager_upgrade C K (se_entropy env)) (\<lambda>phrase.
       bindS current_wallet (\<lambda>w. returnS (phrase, w)))) None) (\<lambda>(made, _). case made of (phrase, w) \<Rightarrow>
     bindS (say_line ''Migrated legacy wallet into an HD wallet'') (\<lambda>_.
     bindS (say_fields [
       (''legacy_key_preserved'', Inr ''yes''),
       (''address'', wallet_address C K w),
       (''import_phrase_words'', Inr ''24'')]) (\<lambda>_.
     bindS (say_line phrase) (\<lambda>_.
     returnS 0)))))"

subsection \<open>Commands on a loaded wallet\<close>

definition shell_wallet :: "(wallet, 'a) sx \<Rightarrow> wallet option \<Rightarrow> (shell, 'a \<times> wallet option) sx" where
  "shell_wallet m backend = shell_manager (on_backend m) backend"

definition wallet_info_line :: "crypto \<Rightarrow> kdf \<Rightarrow> string \<Rightarrow> wallet option \<Rightarrow> (shell, nat) sx" where
  "wallet_info_line C K directory backend =
     bindS (shell_manager current_wallet backend) (\<lambda>(w, _).
     bindS (say_fields [
       (''wallet_type'', Inr (kind_name w)),
       (''wallet_path'', Inr (path_join directory (wallet_file w))),
       (''crypto_backend'', Inr crypto_backend_name),
       (''master_fingerprint'', master_fingerprint_hex C K w),
       (''address'', wallet_address C K w),
       (''public_key'', wallet_public_key_hex C K w),
       (''locking_script'', bindE (locking_script C K w) (\<lambda>script. Inr (bytes_to_hex script)))]) (\<lambda>_.
     returnS 0))"

definition new_address_line :: "crypto \<Rightarrow> kdf \<Rightarrow> string list \<Rightarrow> wallet option \<Rightarrow> (shell, nat) sx" where
  "new_address_line C K positional backend =
     (if length positional \<noteq> 1 then throwS (InvalidArgument ''getnewaddress accepts no arguments'')
      else
        bindS (shell_wallet (get_new_address C K) backend) (\<lambda>(address, _).
        bindS (say_line address) (\<lambda>_. returnS 0)))"

definition generate_line ::
  "crypto \<Rightarrow> kdf \<Rightarrow> (nat \<Rightarrow> int) \<Rightarrow> string list \<Rightarrow> chain \<Rightarrow> wallet option \<Rightarrow> transaction list \<Rightarrow> (shell, nat) sx" where
  "generate_line C K clock positional c backend pool =
     (if length positional \<noteq> 2 then throwS (InvalidArgument ''generate requires exactly one count'')
      else
        bindS (liftS (parse_u64 (positional ! 1) ''Block count'' 100000)) (\<lambda>count.
        if count = 0 then throwS (InvalidArgument ''Block count must be positive'')
        else
          bindS (shell_wallet (bindS (getS (locking_script C K)) liftS) backend) (\<lambda>(script, _).
          bindS (shell_disk (on_chain (chain_generate C clock count script pool) c)) (\<lambda>(_, c).
          bindS (shell_disk (edit_text mempool_clear pool)) (\<lambda>_.
          bindS (say_line (''Generated '' @ show_u64 count @ '' block(s)'')) (\<lambda>_.
          bindS (say_line (''Included mempool transactions: '' @ show_nat (length pool))) (\<lambda>_.
          bindS (say_value ''Height: '' (shown_height c) [newline]) (\<lambda>_.
          bindS (say_value ''Tip: '' (tip_field (block_hash C) c) [newline]) (\<lambda>_.
          bindS (say_value ''Chainwork: '' (chainwork_hex c) [newline]) (\<lambda>_.
          returnS 0))))))))))"

definition balance_line :: "crypto \<Rightarrow> kdf \<Rightarrow> u64 \<Rightarrow> utxo_set \<Rightarrow> wallet option \<Rightarrow> (shell, nat) sx" where
  "balance_line C K spend_height utxos backend =
     bindS (shell_wallet (wallet_balance_of C K utxos spend_height) backend) (\<lambda>(balance, _).
     bindS (say_fields [
       (''spendable_bits'', Inr (show_int (wb_spendable balance))),
       (''spendable_bin'', format_bin_amount (wb_spendable balance)),
       (''immature_bits'', Inr (show_int (wb_immature balance))),
       (''immature_bin'', format_bin_amount (wb_immature balance)),
       (''total_bits'', Inr (show_int (wb_total balance))),
       (''total_bin'', format_bin_amount (wb_total balance))]) (\<lambda>_.
     returnS 0))"

definition print_coin :: "u64 \<Rightarrow> outpoint \<Rightarrow> coin \<Rightarrow> (shell, unit) sx" where
  "print_coin spend_height outpoint coin =
     (let mature = \<not> coin_coinbase coin \<or> spend_height \<ge> coin_height coin + ucast COINBASE_MATURITY in
      say_value (''txid='' @ op_txid outpoint @ '' vout='' @ show_u32 (op_index outpoint) @ '' amount='')
        (format_bin_amount (to_value (coin_output coin)))
        ('' height='' @ show_u64 (coin_height coin) @ '' coinbase='' @ yes_no (coin_coinbase coin) @
         '' mature='' @ yes_no mature @ [newline]))"

fun print_unspent :: "crypto \<Rightarrow> kdf \<Rightarrow> u64 \<Rightarrow> utxo_set \<Rightarrow> wallet option \<Rightarrow> nat \<Rightarrow> (shell, nat) sx" where
  "print_unspent C K spend_height [] backend shown = returnS shown"
| "print_unspent C K spend_height ((outpoint, coin) # utxos) backend shown =
     bindS (shell_wallet (owns_script C K (to_script_pubkey (coin_output coin))) backend) (\<lambda>(owned, backend).
     if \<not> owned then print_unspent C K spend_height utxos backend shown
     else
       bindS (print_coin spend_height outpoint coin) (\<lambda>_.
       print_unspent C K spend_height utxos backend (Suc shown)))"

definition list_unspent_line :: "crypto \<Rightarrow> kdf \<Rightarrow> u64 \<Rightarrow> utxo_set \<Rightarrow> wallet option \<Rightarrow> (shell, nat) sx" where
  "list_unspent_line C K spend_height utxos backend =
     bindS (print_unspent C K spend_height utxos backend 0) (\<lambda>shown.
     bindS (say_fields [(''count'', Inr (show_nat shown))]) (\<lambda>_. returnS 0))"

text \<open>Both payment commands, from the destination key on; \<open>to_address\<close> is the line only one of them prints.\<close>

definition pay_line ::
  "crypto \<Rightarrow> kdf \<Rightarrow> u64 \<Rightarrow> utxo_set \<Rightarrow> utxo_set \<Rightarrow> transaction list \<Rightarrow> wallet option \<Rightarrow> string list \<Rightarrow> bytes \<Rightarrow>
     (string \<times> string res) list \<Rightarrow> (shell, nat) sx" where
  "pay_line C K spend_height chain_utxos utxos pool backend positional destination to_address =
     bindS (liftS (parse_bin_amount (positional ! 2))) (\<lambda>amount.
     bindS (liftS (target_from_positional positional 3)) (\<lambda>target.
     bindS (liftS (mode_from_positional positional 4)) (\<lambda>mode.
     bindS (liftS (estimate 1 target mode)) (\<lambda>quote.
     bindS (shell_wallet (create_payment C K utxos spend_height destination amount (fq_rate quote)) backend) (\<lambda>(t, _).
     bindS (liftS (fst (apply_transaction C t spend_height utxos))) (\<lambda>paid.
     bindS (shell_disk (edit_text (mempool_add C t chain_utxos spend_height) pool)) (\<lambda>_.
     bindS (say_fields ([(''txid'', txid C t)] @ to_address @ [
       (''amount_bin'', format_bin_amount amount),
       (''fee_bits'', Inr (show_int paid)),
       (''vsize'', show_size (virtual_size t)),
       (''fee_mode'', Inr (fee_mode_name mode)),
       (''fee_source'', Inr ''fallback''),
       (''mempool'', Inr ''yes'')])) (\<lambda>_.
     returnS 0))))))))"

definition send_address_line ::
  "crypto \<Rightarrow> kdf \<Rightarrow> u64 \<Rightarrow> utxo_set \<Rightarrow> utxo_set \<Rightarrow> transaction list \<Rightarrow> wallet option \<Rightarrow> string list \<Rightarrow> (shell, nat) sx" where
  "send_address_line C K spend_height chain_utxos utxos pool backend positional =
     (if length positional < 3 \<or> length positional > 5
      then throwS (InvalidArgument ''sendtoaddress requires address, amount and optional target/mode'')
      else
        bindS (liftS (decode_testnet_address C (positional ! 1))) (\<lambda>destination.
        pay_line C K spend_height chain_utxos utxos pool backend positional destination
          [(''destination'', Inr (positional ! 1))]))"

definition send_pubkey_line ::
  "crypto \<Rightarrow> kdf \<Rightarrow> u64 \<Rightarrow> utxo_set \<Rightarrow> utxo_set \<Rightarrow> transaction list \<Rightarrow> wallet option \<Rightarrow> string list \<Rightarrow> (shell, nat) sx" where
  "send_pubkey_line C K spend_height chain_utxos utxos pool backend positional =
     (if length positional < 3 \<or> length positional > 5
      then throwS (InvalidArgument ''sendtopubkey requires pubkey, amount and optional target/mode'')
      else
        bindS (liftS (hex_to_bytes (positional ! 1))) (\<lambda>destination.
        if \<not> valid_compressed_public_key C destination
        then throwS (InvalidArgument ''Destination must be a compressed secp256k1 public key'')
        else pay_line C K spend_height chain_utxos utxos pool backend positional destination []))"

definition SHELL_WALLET_COMMANDS :: "string list" where
  "SHELL_WALLET_COMMANDS = [''wallet-info'', ''getnewaddress'', ''getbalance'', ''listunspent'', ''sendtoaddress'',
     ''sendtopubkey'', ''generate'']"

definition wallet_line ::
  "crypto \<Rightarrow> kdf \<Rightarrow> shell_env \<Rightarrow> string \<Rightarrow> string \<Rightarrow> string list \<Rightarrow> chain \<Rightarrow> (shell, nat) sx" where
  "wallet_line C K env directory command positional c =
     bindS (shell_manager (manager_load C K) None) (\<lambda>(_, backend).
     bindS (shell_disk (open_text mempool_load)) (\<lambda>pool.
     if command = ''wallet-info'' then wallet_info_line C K directory backend
     else if command = ''getnewaddress'' then new_address_line C K positional backend
     else if command = ''generate'' then generate_line C K (se_mining_clock env) positional c backend pool
     else
       bindS (liftS (tip_height c)) (\<lambda>height.
       let spend_height = height + 1 in
       bindS (liftS (effective_utxos C pool (cn_utxos c) spend_height)) (\<lambda>utxos.
       if command = ''getbalance'' then balance_line C K spend_height utxos backend
       else if command = ''listunspent'' then list_unspent_line C K spend_height utxos backend
       else if command = ''sendtoaddress''
       then send_address_line C K spend_height (cn_utxos c) utxos pool backend positional
       else send_pubkey_line C K spend_height (cn_utxos c) utxos pool backend positional))))"

subsection \<open>Selecting the command\<close>

text \<open>Commands behind \<^verbatim>\<open>chain.initialize()\<close>; an unknown one has created or checked the chain before it is refused.\<close>

definition chain_line ::
  "crypto \<Rightarrow> kdf \<Rightarrow> shell_env \<Rightarrow> string \<Rightarrow> string \<Rightarrow> string list \<Rightarrow> (shell, nat) sx" where
  "chain_line C K env directory command positional =
     bindS (shell_disk (start_chain C directory)) (\<lambda>c.
     if command = ''serve'' then serve_command C env directory positional
     else if command = ''syncfrom'' then sync_from_command C env directory positional
     else if command = ''peer-info'' then peer_info_command directory
     else if command = ''ban-info'' then ban_info_command (se_clock env) directory
     else if command = ''clear-bans'' then clear_bans_command (se_clock env) directory
     else if command = ''branch-info'' then branch_info_command C directory
     else if command = ''storage-info'' then storage_info_command C directory c
     else if command = ''status'' then status_command C directory c
     else if command \<in> set SHELL_WALLET_COMMANDS then wallet_line C K env directory command positional c
     else if command = ''getrawmempool'' then raw_mempool_command C
     else if command = ''print-chain'' then print_chain_command C c
     else throwS (InvalidArgument (''Unknown command: '' @ command)))"

definition one_shot :: "crypto \<Rightarrow> kdf \<Rightarrow> shell_env \<Rightarrow> string \<Rightarrow> string list \<Rightarrow> (shell, nat) sx" where
  "one_shot C K env directory positional =
     (let command = hd positional in
      if command = ''verify-genesis'' then verify_genesis_command C
      else if command = ''estimatefee'' then estimate_fee_command positional
      else if command = ''decode-tx'' then decode_tx_command C positional
      else if command = ''init'' then init_command C directory
      else if command = ''wallet-create'' then wallet_create_command C K env directory positional
      else if command = ''wallet-import'' then wallet_import_command C K directory positional
      else if command = ''wallet-upgrade'' then wallet_upgrade_command C K env directory
      else if command = ''reindex'' then reindex_command C directory positional
      else if command = ''validateaddress'' then validate_address_line C positional
      else chain_line C K env directory command positional)"

definition error_text :: "exn \<Rightarrow> string" where
  "error_text e = ''error: '' @ exn_what e @ [newline]"

text \<open>The handler of \<^verbatim>\<open>main\<close> prints the error on \<^verbatim>\<open>std::cerr\<close>; the second part of the result is that stream.\<close>

definition run_one_shot :: "crypto \<Rightarrow> kdf \<Rightarrow> shell_env \<Rightarrow> string \<Rightarrow> string list \<Rightarrow> shell \<Rightarrow> nat \<times> string \<times> shell" where
  "run_one_shot C K env directory positional s =
     (case one_shot C K env directory positional s of
        (Inl e, t) \<Rightarrow> (1, error_text e, t)
      | (Inr status, t) \<Rightarrow> (status, [], t))"

subsection \<open>The program\<close>

text \<open>
  \<^verbatim>\<open>main\<close>, from its arguments to its exit status. As in \<open>run_one_shot\<close> the second part of the result is what went
  to \<^verbatim>\<open>std::cerr\<close>; \<open>elsewhere\<close> says that another process holds the lock of the directory. The status is \<open>None\<close> for a
  node that runs on for ever.
\<close>

definition daemon_main ::
  "crypto \<Rightarrow> kdf \<Rightarrow> app_env \<Rightarrow> shell_env \<Rightarrow> bool \<Rightarrow> string \<Rightarrow> string list \<Rightarrow> shell \<Rightarrow> nat option \<times> string \<times> shell" where
  "daemon_main C K app env elsewhere default_directory arguments s =
     (case plan_arguments default_directory arguments of
        Inl e \<Rightarrow> (Some 1, error_text e, s)
      | Inr Print_help \<Rightarrow> (Some 0, [], s \<lparr> sh_out := sh_out s @ daemon_help \<rparr>)
      | Inr (Launch warned node) \<Rightarrow>
          (let warning = (if warned then ''warning: run-node is deprecated; start binarycoind -testnet directly.'' @ [newline]
             else []) in
           case launch_node C app node ((fresh_app (sh_disk s) elsewhere None) \<lparr> pr_err := warning \<rparr>) of
             (r, t) \<Rightarrow>
               let s = s \<lparr> sh_disk := pr_disk t, sh_out := sh_out s @ pr_out t \<rparr> in
               (case r of
                  None \<Rightarrow> (None, pr_err t, s)
                | Some (Inl e) \<Rightarrow> (Some 1, pr_err t @ error_text e, s)
                | Some (Inr status) \<Rightarrow> (Some status, pr_err t, s)))
      | Inr (One_shot directory positional) \<Rightarrow>
          (case run_one_shot C K env directory positional s of (status, err, t) \<Rightarrow> (Some status, err, t)))"

end
