(* ===== verification/OneShotSafety.thy ===== *)
theory OneShotSafety
  imports DaemonMain CommandSafety
begin

section \<open>What a one-shot command can do to the chain\<close>

text \<open>
  The same argument as for the RPC commands, at the level of \<open>shell\<close>: inside \<open>chain_files\<close> every command that
  opens no chain keeps the property, inside \<open>loadable\<close> those that load it, and \<open>generate\<close> leads to the loadable
  chain or to a complete commit of a verified chain with more work. \<open>managed\<close> is the invariant of a wallet manager
  that ties its back end to the files, so that a command may use one wallet object several times.
\<close>

lemma shell_keeps [keep]: "preserves K m \<Longrightarrow> preserves (\<lambda>s. K (sh_disk s)) (shell_disk m)"
  by (rule preservesI) (auto simp: shell_disk_def dest: preservesD split: prod.splits)

lemma say_keeps [keep]:
  "preserves (\<lambda>s. K (sh_disk s)) (say message)" "preserves (\<lambda>s. K (sh_disk s)) (say_line message)"
  unfolding say_line_def say_def by (rule keep_modify, simp)+

lemma say_value_keeps [keep]: "preserves (\<lambda>s. K (sh_disk s)) (say_value label v rest)"
  unfolding say_value_def by (intro keep)

lemma say_fields_keeps [keep]: "preserves (\<lambda>s. K (sh_disk s)) (say_fields entries)"
  unfolding say_fields_def by (intro keep)

lemma print_loops [keep]:
  "preserves (\<lambda>s. K (sh_disk s)) (print_outputs index outputs)"
  "preserves (\<lambda>s. K (sh_disk s)) (print_chain_transactions C ts)"
  "preserves (\<lambda>s. K (sh_disk s)) (print_numbered label shown index rs)"
  "preserves (\<lambda>s. K (sh_disk s)) (print_branches C bs)"
  "preserves (\<lambda>s. K (sh_disk s)) (print_txids C ts)"
proof -
  show "preserves (\<lambda>s. K (sh_disk s)) (print_outputs index outputs)"
    by (induction index outputs rule: print_outputs.induct) (auto intro!: keep simp: Let_def)
  show "preserves (\<lambda>s. K (sh_disk s)) (print_chain_transactions C ts)" by (induction ts) (auto intro!: keep)
  show "preserves (\<lambda>s. K (sh_disk s)) (print_numbered label shown index rs)"
    by (induction label shown index rs rule: print_numbered.induct) (auto intro!: keep)
  show "preserves (\<lambda>s. K (sh_disk s)) (print_branches C bs)" by (induction bs) (auto intro!: keep)
  show "preserves (\<lambda>s. K (sh_disk s)) (print_txids C ts)" by (induction ts) (auto intro!: keep)
qed

lemma print_blocks_keeps [keep]: "preserves (\<lambda>s. K (sh_disk s)) (print_blocks C work bs)"
  by (induction C work bs rule: print_blocks.induct) (auto intro!: keep simp: Let_def)

context chain_files
begin

abbreviation KSH :: "shell \<Rightarrow> bool" where "KSH s \<equiv> K (sh_disk s)"

lemma keep_without_chain [keep]:
  "preserves KSH (verify_genesis_command C)" "preserves KSH (estimate_fee_command positional)"
  "preserves KSH (decode_tx_command C positional)" "preserves KSH (validate_address_line C positional)"
  unfolding verify_genesis_command_def estimate_fee_command_def decode_tx_command_def validate_address_line_def
    print_transaction_def Let_def by (intro keep)+

lemma keep_bans_clear [keep]: "preserves KT bans_clear"
  unfolding bans_clear_def bans_save_def by (intro keep beside_paths)

lemma keep_files_commands [keep]:
  "preserves KSH (peer_info_command directory)" "preserves KSH (ban_info_command clock directory)"
  "preserves KSH (clear_bans_command clock directory)" "preserves KSH (branch_info_command C directory)"
  "preserves KSH (raw_mempool_command C)" "preserves KSH (storage_info_command C directory c)"
  "preserves KSH (print_chain_command C c)"
  unfolding peer_info_command_def ban_info_command_def clear_bans_command_def branch_info_command_def
    raw_mempool_command_def storage_info_command_def print_chain_command_def by (intro keep)+

subsection \<open>Wallets\<close>

definition managed :: "manager \<Rightarrow> bool" where
  "managed s \<longleftrightarrow> K (fst s) \<and> pred_option (\<lambda>w. wl_disk w = fst s) (snd s)"

lemma managed_run:
  assumes "preserves managed m"
  shows "preserves K (on_manager m backend)"
proof (rule preservesI)
  fix d r t assume d: "K d" and run: "on_manager m backend d = (r, t)"
  let ?s = "(d, map_option (\<lambda>w. w \<lparr> wl_disk := d \<rparr>) backend)"
  obtain x s where x: "m ?s = (x, s)" by (rule prod.exhaust)
  have "managed ?s" using d by (cases backend) (simp_all add: managed_def)
  then have "managed s" using preservesD [OF assms _ x] by blast
  then show "K t" using run x by (auto simp: on_manager_def managed_def split: sum.splits prod.splits)
qed

lemma managed_backend [keep]: "preserves KW m \<Longrightarrow> preserves managed (on_backend m)"
  by (rule preservesI) (auto simp: on_backend_def managed_def dest: preservesD split: prod.splits option.splits)

lemma managed_select [keep]: "preserves managed (select_backend name)"
  unfolding select_backend_def by (intro keep keep_modify) (auto simp: managed_def new_wallet_def)

lemma keep_wallet_new [keep]:
  "preserves KW (create_wallet C Kf directory random)" "preserves KW (import_mnemonic C Kf directory phrase)"
  "preserves KW (upgrade_legacy C Kf random)"
  unfolding create_wallet_def import_mnemonic_def upgrade_legacy_def by (intro keep; simp)+

lemma managed_current [keep]: "preserves managed current_wallet"
  unfolding current_wallet_def by (intro keep)

lemma managed_commands [keep]:
  "preserves managed (manager_create C Kf directory random name)" "preserves managed (manager_import C Kf directory phrase name)"
  "preserves managed (manager_upgrade C Kf random)" "preserves managed (manager_load C Kf)"
  unfolding manager_create_def manager_import_def manager_upgrade_def manager_load_def by (intro keep)+

lemma keep_shell_manager [keep]: "preserves managed m \<Longrightarrow> preserves KSH (shell_manager m backend)"
  unfolding shell_manager_def by (intro keep managed_run)

lemma keep_shell_wallet [keep]: "preserves KW m \<Longrightarrow> preserves KSH (shell_wallet m backend)"
  unfolding shell_wallet_def by (intro keep)

lemma keep_print_unspent [keep]: "preserves KSH (print_unspent C Kf spend_height utxos backend shown)"
  by (induction utxos arbitrary: backend shown) (auto intro!: keep simp: print_coin_def Let_def)

lemma keep_read_phrase [keep]: "preserves KSH read_phrase"
  unfolding read_phrase_def by (intro keep keep_modify) simp

lemma keep_wallet_lines [keep]:
  "preserves KSH (wallet_info_line C Kf directory backend)" "preserves KSH (new_address_line C Kf positional backend)"
  "preserves KSH (balance_line C Kf spend_height utxos backend)"
  "preserves KSH (list_unspent_line C Kf spend_height utxos backend)"
  "preserves KSH (pay_line C Kf spend_height chain_utxos utxos pool backend positional destination to_address)"
  unfolding wallet_info_line_def new_address_line_def balance_line_def list_unspent_line_def pay_line_def
  by (intro keep)+

lemma keep_send_lines [keep]:
  "preserves KSH (send_address_line C Kf spend_height chain_utxos utxos pool backend positional)"
  "preserves KSH (send_pubkey_line C Kf spend_height chain_utxos utxos pool backend positional)"
  unfolding send_address_line_def send_pubkey_line_def by (intro keep)+

end

subsection \<open>Commands on the chain\<close>

lemma start_chain_keeps [keep]: "preserves (holds C bs u) (start_chain C directory)"
  unfolding preserves_def by (rule triple_conseq [OF open_chain_holds(2)]) auto

lemma serve_clients_holds: "holds C bs u d \<Longrightarrow> holds C bs u (serve_clients C N directory clients d)"
proof (induction clients arbitrary: d)
  case (Cons client clients)
  obtain r s where run: "handle_client C N (sc_clock client) (sc_nonce client) (sc_rounds client)
      \<lparr> lk_directory = directory, lk_disk = d, lk_socket = sc_socket client, sv_chain = new_chain directory d \<rparr> = (r, s)"
    by (rule prod.exhaust)
  have "holds C bs u (lk_disk s)" using preservesD [OF handle_client_holds _ run] Cons.prems by simp
  then show ?case using Cons.IH run by simp
qed simp

lemma chain_commands_keep [keep]:
  "preserves (\<lambda>s. holds C bs u (sh_disk s)) (init_command C directory)"
  "preserves (\<lambda>s. holds C bs u (sh_disk s)) (wallet_create_command C Kf env directory positional)"
  "preserves (\<lambda>s. holds C bs u (sh_disk s)) (wallet_import_command C Kf directory positional)"
  "preserves (\<lambda>s. holds C bs u (sh_disk s)) (wallet_upgrade_command C Kf env directory)"
  unfolding init_command_def wallet_create_command_def wallet_import_command_def wallet_upgrade_command_def
  by (intro keep)+

lemma serve_keeps [keep]: "preserves (\<lambda>s. holds C bs u (sh_disk s)) (serve_command C env directory positional)"
  unfolding serve_command_def Let_def by (intro keep keep_modify serve_clients_holds)

lemma verify_disk: "preserves (\<lambda>x. P (chain_disk x)) (chain_verify C)"
  unfolding chain_verify_def by (intro keep)

lemma status_keeps [keep]: "preserves (\<lambda>s. holds C bs u (sh_disk s)) (status_command C directory c)"
proof -
  have "preserves (holds C bs u) (on_chain (chain_verify C) c)"
    unfolding preserves_def
    by (rule on_chain_triple, rule triple_conseq [OF verify_disk [of "holds C bs u", unfolded preserves_def]]) auto
  then show ?thesis unfolding status_command_def
    by (intro keep)
qed

lemma wallet_line_keeps:
  assumes "command \<noteq> ''generate''"
  shows "preserves (\<lambda>s. holds C bs u (sh_disk s)) (wallet_line C Kf env directory command positional c)"
  unfolding wallet_line_def Let_def if_not_P [OF assms] by (intro keep)

lemma chain_line_keeps:
  assumes "command \<noteq> ''generate''" "command \<noteq> ''syncfrom''"
  shows "preserves (\<lambda>s. holds C bs u (sh_disk s)) (chain_line C Kf env directory command positional)"
  unfolding chain_line_def if_not_P [OF assms(2)] by (intro keep wallet_line_keeps [OF assms(1)])

subsection \<open>Mining\<close>

lemma shell_leads: "leads (\<lambda>d. d) C bs u m \<Longrightarrow> leads sh_disk C bs u (shell_disk m)"
  by (rule leads_def [THEN iffD2], rule tripleI)
     (auto simp: leads_def shell_disk_def split: prod.splits dest: tripleD)

lemma leads_mining:
  assumes "same_as bs u c" and "count \<noteq> 0"
  shows "leads (\<lambda>d. d) C bs u (on_chain (chain_generate C clock count script pool) c)"
proof (cases "verify_blocks C bs = Inr ()")
  case True
  have n: "unat count \<noteq> 0" using assms(2) by (simp add: unat_eq_0)
  show ?thesis
    by (rule leads_on_chain [OF assms(1)], rule triple_conseq [OF chain_generate_holds [OF n]])
       (auto intro: outcomeI(2) mined_switched [OF _ True n])
qed (auto simp: leads_def triple_def holds_def)

lemma leads_prod: "(\<And>x y. leads dk C bs u (f x y)) \<Longrightarrow> leads dk C bs u (case p of (x, y) \<Rightarrow> f x y)"
  by (cases p) simp

lemma generate_line_leads:
  assumes "same_as bs u c"
  shows "leads sh_disk C bs u (generate_line C Kf clock positional c backend pool)"
  unfolding generate_line_def
  apply (rule leads_if, rule leads_keep, intro keep)
  apply (rule leads_bind, intro keep, rule leads_if_cond)
  subgoal by (rule leads_keep, intro keep)
  apply (rule leads_bind, intro keep, rule leads_prod)
  apply (rule leads_then, rule shell_leads, rule leads_mining [OF assms], assumption)
  by (intro keep)

lemma shell_triple: "triple P m Q E \<Longrightarrow>
    triple (\<lambda>s. P (sh_disk s)) (shell_disk m) (\<lambda>x s. Q x (sh_disk s)) (\<lambda>s. E (sh_disk s))"
  by (rule tripleI) (auto simp: shell_disk_def split: prod.splits dest: tripleD)

lemma leads_start:
  assumes "\<And>c. same_as bs u c \<Longrightarrow> leads sh_disk C bs u (f c)"
  shows "leads sh_disk C bs u (bindS (shell_disk (start_chain C directory)) f)"
  unfolding leads_def
proof (rule triple_bind)
  show "triple (\<lambda>s. holds C bs u (sh_disk s)) (shell_disk (start_chain C directory))
      (\<lambda>c s. holds C bs u (sh_disk s) \<and> same_as bs u c) (\<lambda>s. chain_outcome C bs u (sh_disk s))"
    by (rule shell_triple, rule triple_conseq [OF open_chain_holds(2)]) (auto intro: outcomeI)
  show "triple (\<lambda>s. holds C bs u (sh_disk s) \<and> same_as bs u c) (f c) (\<lambda>_ s. chain_outcome C bs u (sh_disk s))
      (\<lambda>s. chain_outcome C bs u (sh_disk s))" for c
    by (rule triple_pure) (use assms in \<open>simp add: leads_def\<close>)
qed

lemma mining_line_leads: "leads sh_disk C bs u (chain_line C Kf env directory ''generate'' positional)"
proof -
  have "leads sh_disk C bs u (wallet_line C Kf env directory ''generate'' positional c)" if "same_as bs u c" for c
    unfolding wallet_line_def
    apply (rule leads_bind, intro keep, rule leads_prod)
    apply (rule leads_bind, intro keep)
    by (simp add: generate_line_leads [OF that])
  then show ?thesis
    unfolding chain_line_def by (intro leads_start) (simp add: SHELL_WALLET_COMMANDS_def)
qed

text \<open>\<open>reindex\<close> rebuilds the store from its block file and \<open>syncfrom\<close> follows a peer; they are left out here.\<close>

lemma one_shot_keeps:
  assumes "hd positional \<notin> {''generate'', ''syncfrom'', ''reindex''}"
  shows "preserves (\<lambda>s. holds C bs u (sh_disk s)) (one_shot C Kf env directory positional)"
proof -
  have n: "hd positional \<noteq> ''generate''" "hd positional \<noteq> ''syncfrom''" "hd positional \<noteq> ''reindex''" using assms by auto
  show ?thesis
    unfolding one_shot_def Let_def if_not_P [OF n(3)] by (intro keep chain_line_keeps [OF n(1,2)])
qed

lemma one_shot_leads:
  assumes "hd positional \<notin> {''syncfrom'', ''reindex''}"
  shows "leads sh_disk C bs u (one_shot C Kf env directory positional)"
proof (cases "hd positional = ''generate''")
  case True
  then show ?thesis using mining_line_leads by (simp add: one_shot_def)
next
  case False
  then show ?thesis using assms by (intro leads_keep one_shot_keeps) auto
qed

lemma one_shot_outcome:
  assumes "run_one_shot C Kf env directory positional s = (status, err, t)" and "holds C bs u (sh_disk s)"
    and "hd positional \<notin> {''syncfrom'', ''reindex''}"
  shows "chain_outcome C bs u (sh_disk t)" and "hd positional \<noteq> ''generate'' \<Longrightarrow> holds C bs u (sh_disk t)"
proof -
  obtain r where r: "one_shot C Kf env directory positional s = (r, t)"
    using assms(1) by (auto simp: run_one_shot_def split: prod.splits sum.splits)
  show "chain_outcome C bs u (sh_disk t)"
    using one_shot_leads [OF assms(3), of C bs u Kf env directory] assms(2) r unfolding leads_def
    by (cases r) (auto dest: tripleD)
  show "hd positional \<noteq> ''generate'' \<Longrightarrow> holds C bs u (sh_disk t)"
    using preservesD [OF one_shot_keeps assms(2) r] assms(3) by auto
qed

end
