(* ===== verification/Cli.thy ===== *)
theory Cli
  imports Options RpcLaws
begin

section \<open>The RPC client program (cli_main.cpp)\<close>

text \<open>
  \<open>cli_arguments\<close> is the loop over the arguments, \<open>parse_parameter\<close> turns the words of a command into JSON, and
  \<open>cli_loop\<close> is the call with its retries. An attempt sees the data directory, the socket \<^verbatim>\<open>connect_socket\<close> gives or
  its error, and whether the deadline has passed when it fails; the number of attempts in the list is when the program is
  stopped from outside. The loop also yields what each attempt sent.
\<close>

definition client_help :: string where
  "client_help = concat (map (\<lambda>line. line @ [newline]) [
    ''BinaryCoin Core RPC client version v0.1.3'',
    '''',
    ''Usage:'',
    ''  binarycoin-cli -testnet [options] <command> [params]'',
    '''',
    ''Options:'',
    ''  -testnet                 Use BinaryCoin testnet'',
    ''  -datadir=<dir>           Specify data directory'',
    ''  -rpcconnect=<ip>         RPC server host (default 127.0.0.1)'',
    ''  -rpcport=<port>          RPC server port (default 25001)'',
    ''  -rpcwait                 Wait for RPC server to start'',
    ''  -rpcwaittimeout=<sec>    Maximum wait time (default 60)'',
    ''  -help                    Show this help'',
    '''',
    ''Examples:'',
    ''  binarycoin-cli -testnet getblockchaininfo'',
    ''  binarycoin-cli -testnet getpeerinfo'',
    ''  binarycoin-cli -testnet getbalance'',
    ''  binarycoin-cli -testnet getnewaddress'',
    ''  binarycoin-cli -testnet stop''])"

text \<open>\<^verbatim>\<open>std::stoll(text, &used, 10)\<close> and \<^verbatim>\<open>std::stoi\<close>: a signed number within the bound, and the position behind it.\<close>

definition sto_signed :: "string \<Rightarrow> int \<Rightarrow> string \<Rightarrow> (int \<times> nat) res" where
  "sto_signed name bound s =
     (let r = dropWhile is_cspace s;
          negative = (r \<noteq> [] \<and> hd r = CHR ''-'');
          r = (if r \<noteq> [] \<and> (hd r = CHR ''-'' \<or> hd r = CHR ''+'') then tl r else r);
          ds = takeWhile is_digit r;
          v = (if negative then - int (dec_value ds) else int (dec_value ds))
      in if ds = [] then Inl (InvalidArgument name)
         else if v < - bound - 1 \<or> v > bound then Inl (OutOfRange name)
         else Inr (v, length s - length (dropWhile is_digit r)))"

definition stoll :: "string \<Rightarrow> (int \<times> nat) res" where
  "stoll s = sto_signed ''stoll'' (2 ^ 63 - 1) s"

definition parse_port :: "string \<Rightarrow> u16 res" where
  "parse_port value =
     bindE (stoul ''stoul'' value) (\<lambda>(parsed, used).
     if used \<noteq> length value \<or> parsed = 0 \<or> parsed > 65535 then Inl (InvalidArgument ''Invalid RPC port'')
     else Inr (word_of_nat parsed))"

definition parse_parameter :: "'d doubles \<Rightarrow> string \<Rightarrow> nat \<Rightarrow> string \<Rightarrow> 'd json res" where
  "parse_parameter D name index word =
     (let rest = (if name = ''logging'' \<and> word \<noteq> [] \<and> hd word = CHR ''['' then parse_json D word else Inr (JString word)) in
      if name \<in> set [''generate'', ''generatetoaddress'', ''getblockhash'', ''estimatesmartfee''] \<and> index = 0
      then bindE (stoll word) (\<lambda>(parsed, used).
        if used \<noteq> length word then Inl (InvalidArgument (''Expected integer parameter: '' @ word)) else Inr (JInt parsed))
      else if name = ''getblock'' \<and> index = 1
      then bindE (stoll word) (\<lambda>(parsed, used). if used = length word then Inr (JInt parsed) else rest)
      else rest)"

subsection \<open>Arguments\<close>

record cli_options =
  co_testnet :: bool
  co_rpcwait :: bool
  co_rpcwaittimeout :: int
  co_datadir :: string
  co_rpcconnect :: string
  co_rpcport :: u16
  co_positional :: "string list"

definition initial_cli :: "string \<Rightarrow> cli_options" where
  "initial_cli directory = \<lparr> co_testnet = False, co_rpcwait = False, co_rpcwaittimeout = 60, co_datadir = directory,
     co_rpcconnect = ''127.0.0.1'', co_rpcport = RESERVED_TESTNET_RPC_PORT, co_positional = [] \<rparr>"

definition wait_timeout :: "string \<Rightarrow> int res" where
  "wait_timeout value =
     bindE (sto_signed ''stoi'' (2 ^ 31 - 1) value) (\<lambda>(seconds, used).
     if seconds < 1 \<or> seconds > 3600 then Inl (InvalidArgument ''Invalid RPC wait timeout'') else Inr seconds)"

definition cli_option :: "string \<Rightarrow> cli_options \<Rightarrow> cli_options res" where
  "cli_option argument options =
     (if argument = ''-testnet'' \<or> argument = ''--testnet'' then Inr (options \<lparr> co_testnet := True \<rparr>)
      else if starts_with argument ''-datadir='' then Inr (options \<lparr> co_datadir := drop 9 argument \<rparr>)
      else if starts_with argument ''-rpcconnect='' then Inr (options \<lparr> co_rpcconnect := drop 12 argument \<rparr>)
      else if starts_with argument ''-rpcport='' then
        bindE (parse_port (drop 9 argument)) (\<lambda>port. Inr (options \<lparr> co_rpcport := port \<rparr>))
      else if argument = ''-rpcwait'' then Inr (options \<lparr> co_rpcwait := True \<rparr>)
      else if starts_with argument ''-rpcwaittimeout='' then
        bindE (wait_timeout (drop 16 argument)) (\<lambda>seconds. Inr (options \<lparr> co_rpcwaittimeout := seconds \<rparr>))
      else if argument \<noteq> [] \<and> hd argument = CHR ''-'' then Inl (InvalidArgument (''Unknown option: '' @ argument))
      else Inr (options \<lparr> co_positional := co_positional options @ [argument] \<rparr>))"

text \<open>\<open>None\<close> is the help. A last \<^verbatim>\<open>--datadir\<close> without a value is an unknown option.\<close>

fun cli_arguments :: "string list \<Rightarrow> cli_options \<Rightarrow> cli_options option res" where
  "cli_arguments [] options = Inr (Some options)"
| "cli_arguments (argument # rest) options =
     (if argument = ''-help'' \<or> argument = ''--help'' \<or> argument = ''-h'' then Inr None
      else if argument = ''--datadir'' \<and> rest \<noteq> []
      then cli_arguments (tl rest) (options \<lparr> co_datadir := hd rest \<rparr>)
      else bindE (cli_option argument options) (cli_arguments rest))"

fun parameters_from :: "'d doubles \<Rightarrow> string \<Rightarrow> nat \<Rightarrow> string list \<Rightarrow> 'd json list res" where
  "parameters_from D name index [] = Inr []"
| "parameters_from D name index (word # words) =
     bindE (parse_parameter D name index word) (\<lambda>p.
     bindE (parameters_from D name (Suc index) words) (\<lambda>ps. Inr (p # ps)))"

datatype 'd cli_action = Cli_help nat | Cli_call cli_options string "'d json list"

definition cli_plan :: "'d doubles \<Rightarrow> string \<Rightarrow> string list \<Rightarrow> 'd cli_action res" where
  "cli_plan D directory arguments =
     bindE (cli_arguments arguments (initial_cli directory)) (\<lambda>parsed.
     case parsed of
       None \<Rightarrow> Inr (Cli_help 0)
     | Some options \<Rightarrow>
         if \<not> co_testnet options then Inl (InvalidArgument ''This build is BinaryCoin Testnet Alpha. Pass -testnet.'')
         else case co_positional options of
           [] \<Rightarrow> Inr (Cli_help 1)
         | name # words \<Rightarrow> bindE (parameters_from D name 0 words) (\<lambda>params. Inr (Cli_call options name params)))"

subsection \<open>Calls and retries\<close>

record attempt =
  at_disk :: disk
  at_socket :: "socket res"
  at_late :: bool

definition attempt_call :: "'d doubles \<Rightarrow> string \<Rightarrow> string \<Rightarrow> string \<Rightarrow> 'd json list \<Rightarrow> attempt \<Rightarrow> 'd json res \<times> bytes" where
  "attempt_call D directory host name params a =
     (case fst (read_rpc_cookie directory (at_disk a)) of
        Inl e \<Rightarrow> (Inl e, [])
      | Inr cookie \<Rightarrow>
          (case at_socket a of
             Inl e \<Rightarrow> (Inl e, [])
           | Inr socket \<Rightarrow> (case rpc_call D host cookie name params socket of (r, t) \<Rightarrow> (r, so_sent t))))"

definition is_rpc_error :: "exn \<Rightarrow> bool" where
  "is_rpc_error e = (case e of RpcError code message \<Rightarrow> True | _ \<Rightarrow> False)"

fun cli_loop :: "'d doubles \<Rightarrow> string \<Rightarrow> string \<Rightarrow> bool \<Rightarrow> string \<Rightarrow> 'd json list \<Rightarrow> attempt list \<Rightarrow> 'd json res option \<times> bytes list" where
  "cli_loop D directory host rpcwait name params [] = (None, [])"
| "cli_loop D directory host rpcwait name params (a # attempts) =
     (case attempt_call D directory host name params a of
        (Inr v, sent) \<Rightarrow> (Some (Inr v), [sent])
      | (Inl e, sent) \<Rightarrow>
          if is_rpc_error e \<or> \<not> rpcwait \<or> at_late a then (Some (Inl e), [sent])
          else (case cli_loop D directory host rpcwait name params attempts of (r, others) \<Rightarrow> (r, sent # others)))"

text \<open>The exit status with the texts for \<^verbatim>\<open>std::cout\<close> and \<^verbatim>\<open>std::cerr\<close>.\<close>

definition cli_report :: "'d doubles \<Rightarrow> 'd json res \<Rightarrow> nat \<times> string \<times> string" where
  "cli_report D r =
     (case r of
        Inr (JString s) \<Rightarrow> (0, s @ [newline], [])
      | Inr v \<Rightarrow> (0, dump D True 0 v @ [newline], [])
      | Inl (RpcError code message) \<Rightarrow>
          (1, [], ''error code: '' @ show_int (sint code) @ [newline] @ ''error message:'' @ [newline] @ message @ [newline])
      | Inl e \<Rightarrow> (1, [], ''error: '' @ exn_what e @ [newline]))"

definition cli_main :: "'d doubles \<Rightarrow> string \<Rightarrow> string list \<Rightarrow> attempt list \<Rightarrow> (nat \<times> string \<times> string) option" where
  "cli_main D directory arguments attempts =
     (case cli_plan D directory arguments of
        Inl e \<Rightarrow> Some (cli_report D (Inl e))
      | Inr (Cli_help status) \<Rightarrow> Some (status, client_help, [])
      | Inr (Cli_call options name params) \<Rightarrow>
          map_option (cli_report D) (fst (cli_loop D (co_datadir options) (co_rpcconnect options) (co_rpcwait options) name params attempts)))"

subsection \<open>A lost answer is asked for again\<close>

lemma unanswered:
  assumes "sends c" and "so_recv c = []"
  shows "\<exists>t. rpc_call D host cookie name params c = (Inl (RuntimeError ''RPC connection closed before HTTP headers''), t) \<and>
    so_sent t = so_sent c @ string_bytes (http_request host cookie (call_body D name params))"
proof -
  obtain t where "rpc_send (http_request host cookie (call_body D name params)) c = (Inr (), t)"
    "so_sent t = so_sent c @ string_bytes (http_request host cookie (call_body D name params))" "so_recv t = so_recv c"
    using rpc_send_flows [OF assms(1)] by blast
  then show ?thesis using assms(2) by (simp add: rpc_call_def receive_http_def on_results_def bindS_def)
qed

text \<open>Two attempts at the same call: the server ran the handler for the first, but its answer was lost.\<close>

lemma answer_final: "answer r = Inl e \<Longrightarrow> is_rpc_error e"
  by (auto simp: answer_def is_rpc_error_def split: sum.splits exn.splits)

lemma repeated_call:
  assumes "delivers (cl_socket s1) (http_request host cookie (call_body D name params))" "sends (cl_socket s1)"
    and "delivers (cl_socket s2) (http_request host cookie (call_body D name params))" "sends (cl_socket s2)"
    and "tight host" "cookie \<noteq> []" "list_all (json_wf (double_literal D)) params"
    and "length (http_request host cookie (call_body D name params)) \<le> MAX_RPC_REQUEST"
    and "handler \<lparr> rq_method = name, rq_params = map (received D) params, rq_id = call_id \<rparr> (cl_node s1) = (r1, n1)"
    and "handler \<lparr> rq_method = name, rq_params = map (received D) params, rq_id = call_id \<rparr> (cl_node s2) = (r2, n2)"
    and "sendable D r2" "length (reply D r2) \<le> MAX_RPC_REQUEST"
    and "fst (read_rpc_cookie directory (at_disk a1)) = Inr cookie" "at_socket a1 = Inr c1" "sends c1" "so_recv c1 = []" "\<not> at_late a1"
    and "fst (read_rpc_cookie directory (at_disk a2)) = Inr cookie" "at_socket a2 = Inr c2" "sends c2" "delivers c2 (reply D r2)"
  shows "\<exists>t1 t2. rpc_handle_client D cookie handler s1 = (Inr (), t1) \<and> cl_node t1 = n1 \<and>
    rpc_handle_client D cookie handler s2 = (Inr (), t2) \<and> cl_node t2 = n2 \<and>
    cli_loop D directory host True name params [a1, a2] = (Some (map_sum id (received D) (answer r2)),
      [so_sent c1 @ string_bytes (http_request host cookie (call_body D name params)),
       so_sent c2 @ string_bytes (http_request host cookie (call_body D name params))])"
proof -
  obtain t1 where t1: "rpc_handle_client D cookie handler s1 = (Inr (), t1)" "cl_node t1 = n1"
    using handle_call [where handler = handler and r = r1 and n = n1, OF assms(1,2,5-9)] by blast
  obtain t2 t where t2: "rpc_handle_client D cookie handler s2 = (Inr (), t2)" "cl_node t2 = n2"
    "rpc_call D host cookie name params c2 = (map_sum id (received D) (answer r2), t)"
    "so_sent t = so_sent c2 @ string_bytes (http_request host cookie (call_body D name params))"
    using call_roundtrip [where handler = handler and r = r2 and n = n2, OF assms(3-8,10-12,21,20)] by blast
  obtain u where u: "rpc_call D host cookie name params c1 = (Inl (RuntimeError ''RPC connection closed before HTTP headers''), u)"
    "so_sent u = so_sent c1 @ string_bytes (http_request host cookie (call_body D name params))"
    using unanswered [OF assms(15,16)] by blast
  have "cli_loop D directory host True name params [a2] =
      (Some (map_sum id (received D) (answer r2)), [so_sent c2 @ string_bytes (http_request host cookie (call_body D name params))])"
    using assms(18,19) t2(3,4) answer_final [of r2] by (cases "answer r2") (auto simp: attempt_call_def)
  then have "cli_loop D directory host True name params [a1, a2] = (Some (map_sum id (received D) (answer r2)),
      [so_sent c1 @ string_bytes (http_request host cookie (call_body D name params)),
       so_sent c2 @ string_bytes (http_request host cookie (call_body D name params))])"
    using assms(13,14,17) u by (subst cli_loop.simps(2)) (simp add: attempt_call_def is_rpc_error_def del: cli_loop.simps)
  then show ?thesis using t1 t2(1,2) by blast
qed

end
