(* ===== verification/InstanceApp.thy ===== *)
theory InstanceApp
  imports CommandResults RpcLaws InstanceNet InstanceWallet DaemonLaws Slots OneShotSafety Cli
begin

section \<open>Concrete calls\<close>

text \<open>
  The parameters of the RPC development exist: \<open>toy_doubles\<close> keeps a double as its text, \<open>toy_handler\<close> counts its
  calls and fails, and the connections deliver one message in one part.
\<close>

definition toy_doubles :: "string doubles" where
  "toy_doubles = \<lparr> d_stod = (\<lambda>t. Inr (t, length t)), d_finite = (\<lambda>_. True), d_show = id, d_of_int = show_int, d_to_int = (\<lambda>_. 0) \<rparr>"

definition toy_handler :: "(string, nat) rpc_handler" where
  "toy_handler request n = (Inl (RuntimeError ''no coin''), n + 1)"

definition carrying :: "string \<Rightarrow> socket" where
  "carrying message = \<lparr> so_recv = [Moved (string_bytes message)], so_send = [], so_sent = [] \<rparr>"

definition toy_call :: string where
  "toy_call = http_request ''h'' ''k'' (call_body toy_doubles ''stop'' [])"

definition toy_outcome :: "string json res" where
  "toy_outcome = Inl (RuntimeError ''no coin'')"

definition toy_client :: "(string, nat) client" where
  "toy_client = \<lparr> cl_socket = carrying toy_call, cl_node = 0, cl_id = JNull \<rparr>"

lemma length_show_nat_le: "length (show_nat n) \<le> Suc n"
proof (induction n rule: show_nat.induct)
  case (1 n)
  then show ?case by (subst show_nat.simps) auto
qed

lemma carrying_delivers: "m \<noteq> [] \<Longrightarrow> delivers (carrying m) m"
  by (simp add: carrying_def delivers_def nonempty_parts_def string_bytes_def)

lemma carrying_sends: "sends (carrying m)"
  by (simp add: carrying_def sends_def)

lemma toy_tight: "tight ''h''"
  by (simp add: tight_def is_trailing_def is_blank_def)

lemmas toy_text_simps = call_body_def call_object reply_object error_object toy_doubles_def quoted_def json_escape_def
  escape_char_def line_break_def CRLF_def call_id_def

lemma toy_call_fits: "toy_call \<noteq> []" "length toy_call \<le> MAX_RPC_REQUEST"
  by (simp_all add: toy_call_def http_request_def toy_text_simps base64_encode_def string_bytes_def MAX_RPC_REQUEST_def
      order.trans [OF length_show_nat_le])

lemma toy_answer: "answer toy_outcome = Inl (RpcError (- 32603) ''no coin'')"
  by (simp add: toy_outcome_def answer_def)

lemma length_response: "length (http_response status reason body) \<le> 200 + status + length reason + 2 * length body"
  using length_show_nat_le [of status] length_show_nat_le [of "length body"] by (simp add: http_response_def CRLF_def)

lemma length_error_body:
  "length (dump toy_doubles False 0 (json_object [(''result'', JNull), (''error'', rpc_error_object (- 32603) ''no coin''), (''id'', call_id)])) \<le> 33000"
  using length_show_nat_le [of 32603] by (simp add: toy_text_simps show_int_def)

lemma toy_reply_fits: "reply toy_doubles toy_outcome \<noteq> []" "length (reply toy_doubles toy_outcome) \<le> MAX_RPC_REQUEST"
proof -
  let ?body = "dump toy_doubles False 0 (json_object [(''result'', JNull), (''error'', rpc_error_object (- 32603) ''no coin''), (''id'', call_id)])"
  have r: "reply toy_doubles toy_outcome = http_response 500 ''Internal Server Error'' ?body"
    by (simp add: reply_def toy_answer error_reply_def)
  show "length (reply toy_doubles toy_outcome) \<le> MAX_RPC_REQUEST"
    unfolding r using length_response [of 500 "''Internal Server Error''" ?body] length_error_body by (simp add: MAX_RPC_REQUEST_def)
  show "reply toy_doubles toy_outcome \<noteq> []" unfolding r by (simp add: http_response_def)
qed

lemma toy_handled: "toy_handler \<lparr> rq_method = ''stop'', rq_params = map (received toy_doubles) [], rq_id = call_id \<rparr> (cl_node toy_client) = (toy_outcome, 1)"
  by (simp add: toy_handler_def toy_client_def toy_outcome_def)

lemma toy_client_delivers: "delivers (cl_socket toy_client) (http_request ''h'' ''k'' (call_body toy_doubles ''stop'' []))"
  "sends (cl_socket toy_client)"
  using carrying_delivers [OF toy_call_fits(1)] by (simp_all add: toy_client_def toy_call_def carrying_sends)

lemma toy_served: "\<exists>s'. rpc_handle_client toy_doubles ''k'' toy_handler toy_client = (Inr (), s') \<and> cl_node s' = 1"
  using handle_call [where handler = toy_handler and r = toy_outcome, OF toy_client_delivers toy_tight _ _ toy_call_fits(2) [unfolded toy_call_def] toy_handled]
  by auto

section \<open>A concrete node behind the RPC server\<close>

text \<open>\<open>toy_node\<close> holds the genesis chain on a disk that does not fail.\<close>

definition toy_arith :: "string arith" where
  "toy_arith = \<lparr> ar_divide = (\<lambda>a b. a), ar_fixed = (\<lambda>n x. x), ar_literal = id \<rparr>"

definition toy_command_env :: command_env where
  "toy_command_env = \<lparr> ce_uptime = 0, ce_clock = (\<lambda>_. 0) \<rparr>"

definition toy_node :: rpc_node where
  "toy_node = \<lparr> rn_directory = ''data'', rn_disk = (st_disk toy_store) \<lparr> dk_io := [] \<rparr>, rn_stop = False, rn_categories = {},
     rn_p2p_bind = ''0.0.0.0'', rn_p2p_port = 26001, rn_active_peers = 0, rn_active_inbound = 0, rn_peers = [] \<rparr>"

lemma toy_node_holds: "holds toy [toy_genesis] [] (rn_disk toy_node)"
  by (rule held.K_untouched [OF toy_holds]) (simp add: toy_node_def)

lemma toy_node_calm: "dk_io (rn_disk toy_node) = []"
  by (simp add: toy_node_def)

section \<open>Concrete runs of the programs\<close>

text \<open>An inbound session past its handshake, on an empty directory and the policy of \<open>InstanceNet\<close>.\<close>

lemma toy_policy_ok: "policy_ok (nc_policy toy_config) = Inr ()"
  by (simp add: policy_ok_def toy_config_def toy_policy_def)

definition empty_disk :: disk where
  "empty_disk = \<lparr> dk_files = [], dk_io = [] \<rparr>"

lemma no_peers: "peers_load \<lparr> ts_items = [], ts_disk = empty_disk \<rparr> = (Inr (), \<lparr> ts_items = [], ts_disk = empty_disk \<rparr>)"
  by (simp add: peers_load_def load_text_def set_items_def bindS_def modifyS_def getS_def returnS_def empty_disk_def)

lemma toy_selected: "initial_outbound_peers toy_config empty_disk = (Inr [], empty_disk)"
  by (simp add: initial_outbound_peers_def open_text_def on_text_def no_peers bindS_def returnS_def select_outbound_def)

definition toy_slots :: slots where
  "toy_slots = no_sessions \<lparr> sl_sessions := [Slot Inbound toy_endpoint (Registered 9)], sl_active_inbound := 1,
     sl_active_peers := 1, sl_nonces := {9}, sl_accepted := 1 \<rparr>"

lemma toy_slots_reach: "slots_reach toy_config [] toy_slots"
proof -
  let ?count = "count_inbound toy_endpoint no_sessions"
  let ?started = "start_inbound toy_endpoint ?count"
  let ?opened = "(session_begin ?started) \<lparr> sl_sessions := [] @ Slot Inbound toy_endpoint Opened # [] \<rparr>"
  have 1: "slots_reach toy_config [] ?count"
    by (rule slots_reach.step [OF slots_reach.start _ slots_step.accept_count]) (simp_all add: no_sessions_def)
  have 2: "slots_reach toy_config [] ?started"
    by (rule slots_reach.step [OF 1 _ slots_step.accept_start [where previous = 0]])
      (simp_all add: no_sessions_def count_inbound_def toy_config_def toy_policy_def)
  have 3: "slots_reach toy_config [] ?opened"
    by (rule slots_reach.step [OF 2 _ slots_step.begin_session])
      (simp_all add: no_sessions_def count_inbound_def start_inbound_def)
  have r: "register_nonce toy_config 9 ?opened = (Registered 9, ?opened \<lparr> sl_nonces := {9} \<rparr>)"
    by (simp add: register_nonce_def Let_def toy_config_def no_sessions_def count_inbound_def start_inbound_def session_begin_def)
  have "slots_step toy_config [] ?opened
      (?opened \<lparr> sl_nonces := {9}, sl_sessions := [] @ Slot Inbound toy_endpoint (Registered 9) # [] \<rparr>)"
    by (rule slots_step.handshake_done [OF _ r]) simp
  from slots_reach.step [OF 3 _ this] show ?thesis
    by (simp add: toy_slots_def no_sessions_def count_inbound_def start_inbound_def session_begin_def)
qed

subsection \<open>A one-shot command\<close>

definition toy_shell :: shell where
  "toy_shell = \<lparr> sh_disk = rn_disk toy_node, sh_input = [], sh_out = [] \<rparr>"

definition toy_shell_env :: shell_env where
  "toy_shell_env = \<lparr> se_clock = 0, se_mining_clock = (\<lambda>_. 0), se_entropy = None, se_nonce = 1, se_net = toy_inet,
     se_listening = Inr 26001, se_socket = carrying [], se_clients = [] \<rparr>"

lemma toy_shell_holds: "holds toy [toy_genesis] [] (sh_disk toy_shell)"
  by (simp add: toy_shell_def toy_node_holds)

subsection \<open>A client that waits\<close>

definition toy_cookie_disk :: disk where
  "toy_cookie_disk = \<lparr> dk_files = [(cookie_path, string_bytes (''k'' @ [newline]))], dk_io = [] \<rparr>"

lemma toy_cookie: "fst (read_rpc_cookie directory toy_cookie_disk) = Inr ''k''"
  by (simp add: read_rpc_cookie_def toy_cookie_disk_def sx_defs io_call_def getlines.simps cookie_path_def)

definition silent :: socket where
  "silent = \<lparr> so_recv = [], so_send = [], so_sent = [] \<rparr>"

lemma silent_sends: "sends silent" "so_recv silent = []"
  by (simp_all add: silent_def sends_def)

definition toy_attempts :: "attempt list" where
  "toy_attempts = [\<lparr> at_disk = toy_cookie_disk, at_socket = Inr silent, at_late = False \<rparr>,
     \<lparr> at_disk = toy_cookie_disk, at_socket = Inr (carrying (reply toy_doubles toy_outcome)), at_late = False \<rparr>]"

subsection \<open>A command line\<close>

lemma toy_plan: "plan_arguments ''data'' [''-testnet'', ''--max-inbound'', ''5''] =
    Inr (Launch False ((default_node_options ''data'') \<lparr> no_network_policy := default_policy \<lparr> np_max_inbound := 5 \<rparr> \<rparr>))"
  by (simp add: plan_arguments_def initial_options_def value_option_def one_option_def set_policy_def parse_u64_def stoul_def
      starts_with_def is_cspace_def is_digit_def Let_def default_node_options_def dec_value_def digit_value_def)

lemma toy_one_shot: "plan_arguments ''home'' [''-testnet'', ''generate'', ''1''] = Inr (One_shot ''home'' [''generate'', ''1''])"
  by (simp add: plan_arguments_def initial_options_def value_option_def one_option_def starts_with_def)

text \<open>A negative number is not refused: it wraps like \<^verbatim>\<open>std::stoull\<close>.\<close>

lemma toy_wrapped: "parse_port ''-18446744073709526615'' = Inr 25001"
  by (simp add: parse_port_def stoul_def Let_def is_cspace_def is_digit_def dec_value_def digit_value_def)

end
