(* ===== verification/Spec2Isabelle.thy ===== *)
theory Spec2Isabelle
  imports Reindex StorageTorn StorageLive BanStore AddressLaws InstanceApp
begin

text \<open>
  \<^bold>\<open>BinaryCoin Testnet Alpha: a verification development.\<close>

  The repository is a small proof-of-work currency in C++: a library (\<^verbatim>\<open>src/*.cpp\<close>), the node program
  \<^verbatim>\<open>binarycoind\<close> (\<^verbatim>\<open>main.cpp\<close>) and the RPC client
  \<^verbatim>\<open>binarycoin-cli\<close> (\<^verbatim>\<open>cli_main.cpp\<close>). One data directory holds a chain in an
  append-only block file with generations of index and coin files and a manifest that commits them, a mempool, a peer list, a
  ban list, side branches, a wallet, the RPC cookie, the log, the lock and the pid file. The threads of a node (accept,
  outbound, one per session, RPC) and the one-shot commands all work by loading these files, changing an object in memory and
  saving it; the chain object is the only one with transactions.

  \<^bold>\<open>How the code is modelled.\<close>
  \<^item> A function that cannot throw is a HOL function. One that can is of type \<open>'a res\<close> (\<open>Inl\<close>
    an \<open>exn\<close> with its class and text, \<open>Inr\<close> the value), sequenced by \<open>bindE\<close>. A member
    function is of type \<open>('s, 'a) sx\<close>, a state transformer whose exceptional exit keeps the state reached, so
    that a missing rollback shows; \<open>tryS\<close> is \<^verbatim>\<open>try\<close>/\<^verbatim>\<open>catch\<close>.
    \<open>triple P m Q E\<close> is partial correctness with both exits, \<open>preserves P m\<close> an invariant on every
    exit, \<open>returns\<close> total correctness.
  \<^item> Integers of fixed width are words where they wrap (\<open>u8\<close>, \<open>u16\<close>, \<open>u32\<close>,
    \<open>u64\<close>), and integers where the code keeps them in range, which a lemma shows;
    \<^verbatim>\<open>cpp_int\<close> is \<open>int\<close>. Records and enumerations are records and datatypes with the
    names of the source; \<^verbatim>\<open>std::map\<close> is its sorted list of entries (\<open>StdMap\<close>).
  \<^item> Files are the \<open>disk\<close> of \<open>Disk\<close>: contents by path, and a list \<open>dk_io\<close> of the
    outcomes of the coming system calls (success, failure, a short write). A theorem over all disks is a theorem over all
    failures at every call; an empty list is a disk that does not fail. A crash is a call whose failure is never reported.
  \<^item> A socket is the list of results of its coming calls (\<open>NetFrame\<close>), so messages arrive in parts of any
    size.
  \<^item> Clocks, random draws and the schedule of the threads are arguments.

  \<^bold>\<open>Theories and sources.\<close>
  \<^item> \<open>Prelude\<close>, \<open>Text\<close>, \<open>StdMap\<close>, \<open>Calm\<close>: shared vocabulary, number
    texts, ordered maps, total correctness.
  \<^item> \<open>Serialize\<close>, \<open>HashHex\<close>, \<open>Amount\<close>, \<open>Transaction\<close>,
    \<open>Merkle\<close>, \<open>Script\<close>, \<open>Pow\<close>, \<open>Block\<close>, \<open>BlockRecord\<close>,
    \<open>Utxo\<close>: the files of the same names, \<^verbatim>\<open>fees.cpp\<close> and
    \<^verbatim>\<open>wallet_amount.cpp\<close> in \<open>Amount\<close>, the record format of
    \<^verbatim>\<open>storage.cpp\<close> in \<open>BlockRecord\<close>.
  \<^item> \<open>Disk\<close>, \<open>StoreText\<close>, \<open>Storage\<close>: \<^verbatim>\<open>storage.cpp\<close> and
    \<^verbatim>\<open>replace_file_atomically\<close>. \<open>StorageScan\<close>, \<open>StorageSafety\<close>,
    \<open>StorageCommit\<close>, \<open>StorageTorn\<close> and \<open>StorageLive\<close> prove what a commit leaves on
    each exit, what a record torn in its first sixteen bytes does to later commits, and that a commit on a disk that does
    not fail returns.
  \<^item> \<open>Chain\<close>, \<open>ChainRules\<close>, \<open>ChainOps\<close>, \<open>ChainStore\<close>,
    \<open>Reindex\<close>: \<^verbatim>\<open>chain.cpp\<close>; the consensus rules, the operations and their invariant
    \<open>chain_valid\<close>, the chains the store can hold, and what a rebuild from the block file finds.
  \<^item> \<open>TextFile\<close> with \<open>Mempool\<close>, \<open>PeerStore\<close>, \<open>BanStore\<close>,
    \<open>BranchStore\<close>: the four line files; \<open>Bootstrap\<close>: \<^verbatim>\<open>bootstrap.cpp\<close>.
  \<^item> \<open>NetFrame\<close>, \<open>NetCodec\<close>, \<open>NetNode\<close>, \<open>NetSession\<close>,
    \<open>NetMessages\<close>, \<open>PeerSync\<close>, \<open>Slots\<close>: \<^verbatim>\<open>net.cpp\<close>. Frames and
    payloads, what a connection does to the files, the header download, the message handlers and the session loop, the
    blocking synchronisation, and the members the threads share. \<open>NetLaws\<close>, \<open>NetSync\<close>,
    \<open>NetKeep\<close> and \<open>NetSafety\<close> hold their laws.
  \<^item> \<open>Bech32\<close>, \<open>Words\<close>, \<open>Mnemonic\<close>, \<open>HdKey\<close>, \<open>Wallet\<close>
    with \<open>Bech32Laws\<close>, \<open>AddressLaws\<close>, \<open>MnemonicLaws\<close>, \<open>WalletLaws\<close>,
    \<open>PaymentLaws\<close>, \<open>WalletRun\<close>: addresses, recovery phrases, key derivation,
    \<^verbatim>\<open>hd_wallet_backend.cpp\<close> and \<^verbatim>\<open>wallet_manager.cpp\<close>.
  \<^item> \<open>Json\<close>, \<open>JsonLaws\<close>, \<open>JsonRound\<close>: \<^verbatim>\<open>json.cpp\<close>.
    \<open>Http\<close>, \<open>HttpLaws\<close>, \<open>HttpFlow\<close>, \<open>Rpc\<close>, \<open>RpcLaws\<close>:
    \<^verbatim>\<open>rpc.cpp\<close>. \<open>Commands\<close>, \<open>CommandSafety\<close>, \<open>CommandResults\<close>:
    \<^verbatim>\<open>rpc_commands.cpp\<close>.
  \<^item> \<open>Logger\<close>, \<open>Daemon\<close>, \<open>DaemonLaws\<close>: \<^verbatim>\<open>logger.cpp\<close> and
    \<^verbatim>\<open>node_app.cpp\<close>. \<open>Options\<close>, \<open>OneShot\<close>, \<open>DaemonMain\<close>,
    \<open>OneShotSafety\<close>: \<^verbatim>\<open>main.cpp\<close>. \<open>Cli\<close>:
    \<^verbatim>\<open>cli_main.cpp\<close>.
  \<^item> \<open>Instance\<close>, \<open>InstanceRun\<close>, \<open>InstanceNet\<close>, \<open>InstanceWallet\<close>,
    \<open>InstanceApp\<close>: concrete parameters and states in which the hypotheses of the theorems hold.

  \<^bold>\<open>Interfaces.\<close> \<open>wire_codec\<close> is what a binary format promises (what is written reads back
  wherever it stands, only encodings are read), \<open>line_format\<close> the same for a line of a text file,
  \<open>weighted_map\<close> what the coin set promises of its total, \<open>value_ledger\<close> how a loop of payments
  keeps a total, and \<open>chain_files\<close>, extended by \<open>loadable\<close>, what a property of the files must be so
  that everything that is not a commit of the chain keeps it. Each is interpreted on the formats, the coin set, the
  transactions and the properties \<open>holds\<close>, \<open>chain_outcome\<close> and \<open>mined\<close> of the
  development.

  \<^bold>\<open>What is shown.\<close> In the order of the sections below: the consensus rules conserve money, link the
  blocks, fix the target and refuse double spends; the operations of the chain keep it verified, roll back, and choose the
  longest chain; a commit leaves the old or the new chain loadable whatever fails, and returns when nothing does; a rebuild
  from the block file returns and loses no chain; no session, RPC command or one-shot command takes a loadable chain away;
  messages, addresses, JSON, wallet files and the texts of the stores read back; header synchronisation ends whatever the
  peer sends; payments of the wallet are accepted by the mempool; the wallet's fields stay consistent, also when a key
  cannot be derived; a command needs the cookie and reaches its handler once; the node process, when it ends, has reported
  its start and cleaned up; connection limits hold under every interleaving. Some theorems state a defect, with the
  definitions as the code has them: a record torn in its first sixteen bytes blocks all later commits of new blocks, a
  malformed frame escapes the misbehaviour score, a stored side block cannot be replaced, a wallet can write an index it does
  not read, a child key that cannot be derived hides every address, a second start removes the cookie of the running node, a
  waiting client repeats a command.

  \<^bold>\<open>Parameters.\<close> Code outside the repository is an argument: \<open>crypto\<close> (SHA-256 and the
  libsecp256k1 calls; \<open>crypto_ok\<close>: a digest has 32 bytes; \<open>signing_law\<close>: a signature verifies under
  its key), \<open>kdf\<close> (HMAC, PBKDF2, secret checks and tweaks, each of which may fail), \<open>doubles\<close> and
  \<open>arith\<close> (floating-point numbers and their texts; \<open>double_literal\<close>: a text reads back to its
  number), \<open>inet\<close> and the resolver (address texts and name lookup). \<open>command_env\<close>,
  \<open>app_env\<close>, \<open>shell_env\<close>, the environments of a session's turns and the attempts of the client hold
  clocks, draws, listening ports and connected sockets.

  \<^bold>\<open>Loops.\<close> The JSON parser runs on fuel of twice the input length and one, the walk back to genesis on
  the number of records and one, header rounds on the announced height and two. \<open>enough_fuel\<close> and
  \<open>header_rounds_enough\<close> show that more fuel changes nothing, and every step back to genesis adds a hash to the
  visited set, of which there are no more than records; \<open>walk_back_chain\<close> shows that the fuel reaches genesis.
  Rounds of a server, a session or a waiting client are as many as there are environments in the list, which stands for the
  moment the stop flag is set or the program is stopped. The node process may wait for ever, for its stop flag or for a
  thread it joins: then its result is \<open>None\<close>, with the state in which it waits (\<open>px\<close>). The mining
  loop is total, as nonce and time only grow.

  \<^bold>\<open>Not modelled.\<close> Creating, binding, connecting and configuring sockets, thread start and join, the
  mutexes (each block under a lock is one step) and \<^verbatim>\<open>select\<close> are system calls, as are file
  permissions, signals and \<^verbatim>\<open>umask\<close>. Of \<^verbatim>\<open>platform.cpp\<close> only the atomic
  replacement is modelled, on its POSIX branch; the Windows branches and the OpenSSL fallback of
  \<^verbatim>\<open>key.cpp\<close>, a test configuration, are not, nor is the fast-test value of
  \<^verbatim>\<open>TESTNET_BITS\<close>. Reads of files and deletions do not fail. Expiry times are unbounded integers
  where the code would overflow \<^verbatim>\<open>int64_t\<close>, and recursion in C++ has no stack limit. Log lines of the
  library are left out but for those of the node process; a failed log write never throws. What the threads of a running node
  do to the files while the process waits for the stop flag is a free function in \<open>Daemon\<close>; what each of them
  does is modelled by itself. The safety theorem of the one-shot commands leaves out \<^verbatim>\<open>syncfrom\<close> and
  \<^verbatim>\<open>reindex\<close>, which replace the chain by design.
\<close>

section \<open>The consensus rules\<close>

text \<open>
  C1. No inflation. The coins of a verified chain, as rebuilt independently, are worth exactly the subsidy
  schedule of its heights without the genesis reward, and never more than the money limit.
\<close>

theorem verified_chain_supply:
  assumes "verify_blocks C blocks = Inr ()" and "length blocks \<le> 2 ^ 64"
    and "build_utxo_set C blocks = Inr utxos"
  shows "utxo_total utxos + INITIAL_SUBSIDY = issued (unat TESTNET_HALVING_INTERVAL) (length blocks) \<and>
    utxo_total utxos \<le> MAX_MONEY - INITIAL_SUBSIDY"
  using verified_supply [OF assms] by blast

theorem verified_chain_supply_witness:
  "utxo_total [(OutPoint TESTNET_GENESIS_TXID 0, new_coin 1 True
     \<lparr> to_value = INITIAL_SUBSIDY, to_script_pubkey = toy_script \<rparr>)] + INITIAL_SUBSIDY
   = issued (unat TESTNET_HALVING_INTERVAL) (length [toy_genesis, toy_block])"
  using toy_verify_two toy_build_two by (intro conjunct1 [OF verified_chain_supply]) simp_all

text \<open>
  C2. A verified chain is a chain. Every block after genesis has the next height, names the hash of its
  predecessor, is later than it, and its own hash meets its target.
\<close>

theorem verified_chain_linked:
  assumes "verify_blocks C blocks = Inr ()" and "Suc k < length blocks"
  shows "sb_height (blocks ! Suc k) = word_of_nat (Suc k) \<and>
    hash_hex C (b_header (sb_block (blocks ! k))) = Inr (bh_previous_hash (b_header (sb_block (blocks ! Suc k)))) \<and>
    bh_time (b_header (sb_block (blocks ! k))) < bh_time (b_header (sb_block (blocks ! Suc k))) \<and>
    meets_target C (b_header (sb_block (blocks ! Suc k)))"
proof -
  obtain u where "verify_loop C 0 None blocks [] = Inr u"
    using assms(1) by (auto simp: verify_blocks_Inr)
  from verify_loop_nth [OF this assms(2)] show ?thesis by (simp add: height_ok_def sorted_keys_def)
qed

theorem verified_chain_linked_witness:
  "hash_hex toy (b_header (sb_block ([toy_genesis, toy_block] ! 0))) =
     Inr (bh_previous_hash (b_header (sb_block ([toy_genesis, toy_block] ! Suc 0))))"
  using toy_verify_two by (intro conjunct1 [OF conjunct2 [OF verified_chain_linked]]) simp_all

text \<open>
  C3. A successful spend. When a transaction applies, it is well formed and no coinbase, its inputs
  are pairwise different coins of the set that are mature and whose scripts its signatures satisfy,
  the new set is the old one without those coins and with its outputs under fresh identifiers
  (\<open>applies\<close>), and the value of the set falls by exactly the fee, which is not negative.
\<close>

theorem spend_conserves_value:
  assumes "apply_transaction C t h utxos = (Inr paid, utxos')" and "sorted_keys utxos"
  shows "applies C t h utxos paid utxos' \<and> sorted_keys utxos' \<and>
    utxo_total utxos' = utxo_total utxos - paid \<and> 0 \<le> paid \<and> paid \<le> MAX_MONEY"
  using apply_transaction_Inr [OF assms] applies_facts [OF apply_transaction_Inr [OF assms] assms(2)] by blast

theorem spend_conserves_value_witness:
  "utxo_total toy_spent = utxo_total toy_utxos - 1000"
  using spend_conserves_value [OF toy_apply toy_utxos_sorted] by blast

text \<open>
  C4. A failed spend. When a transaction does not apply the coins are untouched, except on the error
  of a clashing output identifier, which is reported after the inputs are already erased.
\<close>

theorem failed_spend_keeps_coins:
  assumes "apply_transaction C t h utxos = (Inl e, utxos')" and "crypto_ok C"
  shows "utxos' = utxos \<or> e = RuntimeError ''Duplicate transaction output identifier''"
  using apply_transaction_Inl [OF assms] .

theorem failed_spend_keeps_coins_witness:
  "snd (apply_transaction toy (toy_spend \<lparr> tx_inputs := [] \<rparr>) 1 toy_utxos) = toy_utxos"
proof -
  have "apply_transaction toy (toy_spend \<lparr> tx_inputs := [] \<rparr>) 1 toy_utxos =
      (Inl (RuntimeError ''Transaction has no inputs''), toy_utxos)"
    by (simp add: apply_transaction_def sx_defs validate_transaction_structure_def)
  from failed_spend_keeps_coins [OF this toy_ok] this show ?thesis by simp
qed

section \<open>The active chain\<close>

text \<open>
  C5. The chain object is always a verified chain with its own coins. Whatever is on disk, an
  \<open>initialize\<close> or \<open>load\<close> that returns leaves a verified block list and the coin set rebuilt from it;
  \<open>append_blocks\<close> and \<open>activate_if_more_work\<close> keep that also when they throw; \<open>generate\<close> keeps it when it
  returns.
\<close>

theorem chain_operations_valid:
  "triple (\<lambda>_. True) (chain_initialize C) (\<lambda>_. chain_valid C) (\<lambda>_. True) \<and>
   triple (\<lambda>_. True) (chain_load C) (\<lambda>_. chain_valid C) (\<lambda>_. True) \<and>
   triple (chain_valid C) (append_blocks C incoming) (\<lambda>_. chain_valid C) (chain_valid C) \<and>
   triple (chain_valid C) (activate_if_more_work C candidate) (\<lambda>_. chain_valid C) (chain_valid C) \<and>
   triple (chain_valid C) (chain_generate C clock count script pending) (\<lambda>_. chain_valid C) (\<lambda>_. True)"
  by (intro conjI chain_initialize_triple chain_load_triple append_blocks_triple activate_triple chain_generate_triple)

text \<open>
  C6. Switching chains. A returning \<open>activate_if_more_work\<close> has verified the candidate and switches exactly
  when the candidate has strictly more work; then the candidate is the chain, otherwise nothing
  changed. The reported fork is the longest common prefix of the two chains, and the reported numbers
  of disconnected and connected blocks are the rest of each.
\<close>

theorem reorganisation:
  assumes "activate_if_more_work C candidate s = (Inr r, t)"
  shows "verify_blocks C candidate = Inr () \<and> calculate_chainwork (cn_blocks s) = Inr (ca_old_chainwork r) \<and>
    calculate_chainwork candidate = Inr (ca_candidate_chainwork r) \<and>
    (ca_activated r \<longleftrightarrow> ca_old_chainwork r < ca_candidate_chainwork r) \<and>
    (if ca_activated r then cn_blocks t = candidate \<and> chain_valid C t else t = s) \<and>
    (\<exists>n > 0. fork_point C (cn_blocks s) candidate n \<and> ca_fork_height r = word_of_nat (n - 1) \<and>
       ca_disconnected_blocks r = length (cn_blocks s) - n \<and> ca_connected_blocks r = length candidate - n)"
  using activate_Inr [OF assms] by blast

theorem reorganisation_witness:
  "\<exists>r :: chain_activation. \<not> ca_activated r \<and> verify_blocks toy [toy_genesis] = Inr () \<and>
     calculate_chainwork [toy_genesis] = Inr (ca_candidate_chainwork r)"
proof -
  obtain r where "activate_if_more_work toy [toy_genesis] toy_chain = (Inr r, toy_chain)" "\<not> ca_activated r"
    using toy_activate by blast
  from reorganisation [OF this(1)] this(2) show ?thesis by (intro exI [of _ r] conjI) simp_all
qed

text \<open>
  C7. The longest chain wins. Verification accepts one target for every block, so each block counts the same work
  and a verified candidate replaces a verified chain exactly when it has more blocks; the difficulty is never retargeted.
\<close>

theorem longest_chain_wins:
  assumes "activate_if_more_work C candidate s = (Inr r, t)" and "verify_blocks C (cn_blocks s) = Inr ()"
  shows "(\<forall>b \<in> set candidate. bh_bits (b_header (sb_block b)) = TESTNET_BITS) \<and>
    ca_candidate_chainwork r = TESTNET_WORK * int (length candidate) \<and>
    (if length (cn_blocks s) < length candidate then cn_blocks t = candidate else t = s)"
proof -
  have v: "verify_blocks C candidate = Inr ()" "calculate_chainwork (cn_blocks s) = Inr (ca_old_chainwork r)"
    "calculate_chainwork candidate = Inr (ca_candidate_chainwork r)"
    "ca_activated r \<longleftrightarrow> ca_old_chainwork r < ca_candidate_chainwork r"
    "if ca_activated r then cn_blocks t = candidate \<and> chain_valid C t else t = s"
    using activate_Inr [OF assms(1)] by blast+
  then show ?thesis
    using verified_bits [OF v(1)] verified_work [OF v(1)] verified_work [OF assms(2)] by (auto simp: TESTNET_WORK_def)
qed

theorem longest_chain_wins_witness:
  "\<exists>r :: chain_activation. ca_candidate_chainwork r = TESTNET_WORK * int (length [toy_genesis])"
proof -
  obtain r where a: "activate_if_more_work toy [toy_genesis] toy_chain = (Inr r, toy_chain)" "\<not> ca_activated r"
    using toy_activate by blast
  have "verify_blocks toy (cn_blocks toy_chain) = Inr ()"
    by (simp add: toy_chain_def toy_verify_one)
  from longest_chain_wins [OF a(1) this] show ?thesis by blast
qed

text \<open>
  C8. Mining. A returning \<open>generate\<close> has appended exactly \<open>count\<close> blocks to the chain it was given; the first
  holds the pending transactions after its coinbase, the others nothing but a coinbase, and the whole
  verifies.
\<close>

theorem generate_extends:
  assumes "chain_generate C clock count script pending s = (Inr r, t)" and "chain_valid C s"
  shows "chain_valid C t \<and> (\<exists>new. cn_blocks t = cn_blocks s @ new \<and> length new = unat count \<and>
      map (\<lambda>b. tl (b_transactions (sb_block b))) new = map (\<lambda>i. if i = 0 then pending else []) [0..<unat count])"
  using chain_generate_Inr [OF assms] .

theorem generate_extends_witness:
  "\<exists>t. chain_generate toy (\<lambda>_. 0) 1 toy_script [] toy_chain = (Inr (), t) \<and> chain_valid toy t"
proof -
  obtain t where t: "chain_generate toy (\<lambda>_. 0) 1 toy_script [] toy_chain = (Inr (), t)"
    using toy_generate by blast
  from t generate_extends [OF t toy_chain_valid] show ?thesis by blast
qed

text \<open>
  C9. The two accounts agree. The supply a node reports from the subsidy schedule is the value of the
  coins it holds.
\<close>

theorem issued_supply_is_utxo_total:
  assumes "chain_valid C s" and "length (cn_blocks s) \<le> 2 ^ 64"
  shows "issued_supply s = Inr (utxo_total (cn_utxos s))"
  using issued_supply_valid [OF assms] .

theorem issued_supply_is_utxo_total_witness:
  "issued_supply toy_chain = Inr (utxo_total (cn_utxos toy_chain))"
  by (rule issued_supply_is_utxo_total [OF toy_chain_valid]) (simp add: toy_chain_def)

section \<open>The durable store\<close>

text \<open>
  C10. All or nothing. When a commit fails at any system call, with any partial write, the next start
  loads the chain of the old manifest or the chain being committed, and its coins. The new chain is loaded up to its header
  hashes, which name its blocks. The condition on heights is that no record left in the block file puts another height
  under a hash of the new chain, and that the file is under 2^64 bytes.
\<close>

theorem commit_crash_safety:
  assumes "disk_ok (st_disk s)" and "read_manifest (st_disk s) = Inr m" and "store_named m"
    and "load_manifest_generation C (st_disk s) m True = Inr old"
    and "store_commit C blocks utxos s = (Inl e, s')"
    and "storable blocks utxos" and "heights_agree C (st_disk s') blocks"
  shows "fst (store_load C (restarted s')) = Inr old \<or>
    (\<exists>loaded. fst (store_load C (restarted s')) = Inr (loaded, utxos) \<and> same_chain C blocks loaded)"
  by (rule commit_crash_safe [OF assms])

theorem commit_crash_safety_witness:
  "\<exists>bs. fst (store_load toy (restarted (restarted toy_store))) = Inr (bs, [])"
proof -
  obtain m bs' where m: "read_manifest (st_disk failing_store) = Inr m" "store_named m"
    "load_manifest_generation toy (st_disk failing_store) m True = Inr (bs', [])"
    using toy_manifest failing_store_files by metis
  from commit_crash_safety [OF failing_store_files(1) m failing_store_commit toy_storable toy_heights_restarted]
  show ?thesis by blast
qed

text \<open>
  C11. A commit succeeds. On a block file without a torn tail and when no system call fails, committing
  a non-empty chain of recordable blocks returns, appends exactly the records the file did not hold, and, when
  no other block sits under one of the chain's hashes at another height, the next start loads that
  chain and its coins.
\<close>

theorem commit_returns_and_loads:
  assumes "crypto_ok C" and "\<forall>b \<in> set blocks. recordable C b" and "storable blocks utxos"
    and "clean_store c (st_disk s)"
  shows "\<exists>s'. store_commit C blocks utxos s = (Inr (), s') \<and>
    clean_store (appended C c blocks) (st_disk s') \<and>
    (\<not> heights_agree C (st_disk s') blocks \<or>
     (\<exists>loaded. fst (store_load C (restarted s')) = Inr (loaded, utxos) \<and> same_chain C blocks loaded))"
proof -
  have ne: "blocks \<noteq> []" using assms(3) by (simp add: storable_def)
  have "clean_file c" and d: "disk_ok (st_disk s)" using assms(4) by (simp_all add: clean_store_def)
  then obtain s' where s': "store_commit C blocks utxos s = (Inr (), s')" "clean_store (appended C c blocks) (st_disk s')"
    using returnsD [OF store_commit_total [OF assms(1,2) ne], of c s utxos] assms(4) by auto
  with commit_then_load [OF d s'(1) assms(3)] show ?thesis by blast
qed

theorem commit_returns_and_loads_witness:
  "\<exists>loaded. fst (store_load toy (restarted toy_store)) = Inr (loaded, []) \<and> same_chain toy [toy_genesis] loaded"
proof -
  have "\<forall>b \<in> set [toy_genesis]. recordable toy b" by (simp add: toy_genesis_recordable)
  from commit_returns_and_loads [OF toy_ok this toy_storable empty_store_clean] toy_store_commit(1) toy_heights
  show ?thesis by auto
qed

text \<open>
  C12. Reindexing loses no chain. On a disk that does not fail \<^verbatim>\<open>reindex\<close> returns, even when the block file ends in a
  torn record. The chain it commits is verified, loads after a restart, and is at least as long as every verified chain
  whose blocks read back from the file under their hashes and heights.
\<close>

theorem reindex_recovers:
  assumes "crypto_ok C" and "verify_blocks C bs = Inr ()" and "records_agree C (st_disk (cn_store s)) bs"
    and "calm (st_disk (cn_store s))" and "disk_ok (st_disk (cn_store s))"
  shows "\<exists>t. chain_reindex C s = (Inr (), t) \<and> chain_valid C t \<and> length bs \<le> length (cn_blocks t) \<and>
    fst (store_load C (restarted (cn_store t))) = Inr (cn_blocks t, cn_utxos t)"
  using reindex_returns [OF assms] .

theorem reindex_recovers_witness:
  "\<exists>t. chain_reindex toy toy_chain = (Inr (), t) \<and> 1 \<le> length (cn_blocks t)"
proof -
  have "records_agree toy (st_disk (cn_store toy_chain)) [toy_genesis]"
    using records_fresh [OF toy_ok toy_genesis_recordable toy_store_commit(3)] by (simp add: toy_chain_def)
  moreover have "calm (st_disk (cn_store toy_chain))" "disk_ok (st_disk (cn_store toy_chain))"
    using toy_store_commit(2) by (simp_all add: toy_chain_def clean_store_def)
  ultimately show ?thesis using reindex_recovers [OF toy_ok toy_verify_one] by fastforce
qed

text \<open>
  C13. A record torn in its first sixteen bytes is never repaired. Suppose the complete records of the block file end
  at \<open>c\<close>, and what follows is either shorter than sixteen bytes (the magic, the version and the payload size of a record
  take sixteen), or differs from the magic and version of a record, or has a payload size of four gigabytes or more.
  Then every commit of a chain with a block the records in \<open>c\<close> do not hold throws, whatever fails on the way, and the file
  is again of this form, so that the node cannot store another block until the file is repaired by hand. A record torn
  behind its payload size is not covered: the scan stops there as well, but later appends can complete the frame.
\<close>

theorem torn_tail_wedges_commit:
  assumes "store_torn c (st_disk s)" and "b \<in> set blocks" and "not_stored C c b"
  shows "\<exists>e s'. store_commit C blocks utxos s = (Inl e, s') \<and> store_torn c (st_disk s')"
  by (rule torn_commit_fails [OF assms])

theorem torn_tail_wedges_commit_witness:
  "\<exists>e s'. store_commit toy [toy_genesis] [] (empty_store \<lparr> st_disk :=
      \<lparr> dk_files = [(blocks_path, frame_start @ [243, 0, 0, 0])], dk_io = [] \<rparr> \<rparr>) = (Inl e, s') \<and>
    store_torn [] (st_disk s')"
proof (rule torn_tail_wedges_commit)
  show "store_torn [] (st_disk (empty_store \<lparr> st_disk :=
      \<lparr> dk_files = [(blocks_path, frame_start @ [243, 0, 0, 0])], dk_io = [] \<rparr> \<rparr>))"
    by (simp add: store_torn_def disk_ok_def sorted_keys_def scan_end.simps torn_tail_def frame_start_length)
qed (simp_all add: not_stored_def scan_from.simps)

text \<open>
  How a torn tail arises. One partial write of one to fifteen bytes of a record followed by an error, such
  as a full disk, makes the append throw and leaves the file torn.
\<close>

theorem interrupted_append_tears_file:
  assumes "disk_ok d" and "scan_end (file_content d blocks_path) 0 = length (file_content d blocks_path)"
    and "make_record_bytes C b = Inr r" and "dk_io d = Short k # Failed e # os" and "0 < k" and "k < 16"
  shows "\<exists>d'. write_all blocks_path r d =
      (Inl (throw_system_error ''Unable to write durable chainstate file'' e), d') \<and>
    store_torn (file_content d blocks_path) d'"
  by (rule interrupted_append_tears [OF assms])

theorem interrupted_append_tears_file_witness:
  "\<exists>r d'. write_all blocks_path r \<lparr> dk_files = [], dk_io = [Short 11, Failed ''No space left on device''] \<rparr> =
      (Inl (throw_system_error ''Unable to write durable chainstate file'' ''No space left on device''), d') \<and>
    store_torn [] d'"
proof -
  let ?d = "\<lparr> dk_files = [], dk_io = [Short 11, Failed ''No space left on device''] \<rparr> :: disk"
  obtain r where r: "make_record_bytes toy toy_genesis = Inr r"
    using toy_genesis_recordable by (auto simp: recordable_def)
  have c: "file_content ?d blocks_path = []" by (simp add: file_content_def)
  have "\<exists>d'. write_all blocks_path r ?d =
      (Inl (throw_system_error ''Unable to write durable chainstate file'' ''No space left on device''), d') \<and>
    store_torn (file_content ?d blocks_path) d'"
    by (rule interrupted_append_tears_file [where k = 11 and os = "[]", OF _ _ r])
       (simp_all add: c disk_ok_def sorted_keys_def scan_end.simps)
  then show ?thesis unfolding c by blast
qed

section \<open>The node and its peers\<close>

text \<open>
  C14. No peer takes the node's chain away. Start a turn of a session on files that load to a verified
  chain. Whatever bytes the peer sends and whichever disk and socket calls fail, the files then either still
  load to that chain, or are a complete commit of a verified chain with strictly more work, which loads when the
  block file holds its records.
\<close>

theorem session_turn_keeps_chain:
  assumes "holds C bs u (lk_disk s)" and "session_round C N cfg endpoint env s = (r, t)"
  shows "holds C bs u (lk_disk t) \<or>
    (\<exists>bs' u' g. verify_blocks C bs' = Inr () \<and> build_utxo_set C bs' = Inr u' \<and> more_work bs bs' \<and>
      committed C g bs' u' (lk_disk t) \<and> (records_agree C (lk_disk t) bs' \<longrightarrow> holds C bs' u' (lk_disk t)))"
  using round_outcome [OF assms(2,1)] committed_holds
  unfolding chain_outcome_def switched_def by blast

theorem session_turn_keeps_chain_witness:
  "\<exists>t. session_round toy toy_inet toy_config toy_endpoint (toy_env (Inr True)) (toy_session []) = (Inr False, t) \<and>
     (holds toy [toy_genesis] [] (lk_disk t) \<or>
      (\<exists>bs' u' g. verify_blocks toy bs' = Inr () \<and> build_utxo_set toy bs' = Inr u' \<and> more_work [toy_genesis] bs' \<and>
        committed toy g bs' u' (lk_disk t) \<and> (records_agree toy (lk_disk t) bs' \<longrightarrow> holds toy bs' u' (lk_disk t))))"
proof -
  obtain t where t: "session_round toy toy_inet toy_config toy_endpoint (toy_env (Inr True)) (toy_session []) = (Inr False, t)"
    using toy_round_closed [of toy_inet] by (metis prod.collapse)
  have "holds toy [toy_genesis] [] (lk_disk (toy_session []))" by (simp add: toy_holds)
  from session_turn_keeps_chain [OF this t] t show ?thesis by blast
qed

text \<open>
  C15. A message arrives as it was sent. However the network cuts a frame into parts and whichever receive
  calls are interrupted, the receiver gets the message and leaves the bytes behind it; and that frame is
  the only byte string that decodes to the message.
\<close>

theorem frames_survive_fragmentation:
  assumes "encode_p2p_frame C (pm_command m) (pm_payload m) = Inr frame"
    and "flowing (so_recv s)" and "nonempty_parts (so_recv s)" and "arriving (so_recv s) = frame @ rest"
  shows "\<exists>t. receive_message C s = (Inr m, t) \<and> arriving (so_recv t) = rest \<and> so_sent t = so_sent s \<and>
    (decode_p2p_frame C bs = Inr m \<longleftrightarrow> bs = frame)"
  using receive_message_flows [OF assms(2,3,1,4)] assms(1) by (auto simp: decode_frame_Inr)

theorem frames_survive_fragmentation_witness:
  "\<exists>frame t. encode_p2p_frame toy ''ping'' [1, 2] = Inr frame \<and>
     receive_message toy \<lparr> so_recv = [CallInterrupted, Moved (take 5 frame), Moved (drop 5 frame)], so_send = [], so_sent = [] \<rparr> =
       (Inr \<lparr> pm_command = ''ping'', pm_payload = [1, 2] \<rparr>, t) \<and> arriving (so_recv t) = []"
proof -
  let ?m = "\<lparr> pm_command = ''ping'', pm_payload = [1, 2] \<rparr>"
  have ok: "command_ok ''ping''" by (simp add: command_ok_iff command_byte_def byte_of_char_def)
  obtain k where k: "payload_checksum toy [1, 2] = Inr k"
    by (simp add: payload_checksum_def sha256d_ok [OF toy_ok])
  then have e: "encode_p2p_frame toy (pm_command ?m) (pm_payload ?m) = Inr (frame_head ''ping'' 2 k @ [1, 2])"
    using ok by (simp add: encode_frame_Inr MAX_P2P_PAYLOAD_def numeral_2_eq_2)
  let ?f = "frame_head ''ping'' 2 k @ [1, 2]"
  have l: "length ?f = 26" using length_frame_head [OF ok payload_checksum_length [OF k]] by simp
  then have "?f \<noteq> []" "take 5 ?f \<noteq> []" "drop 5 ?f \<noteq> []" by (auto simp del: take_append drop_append)
  from frames_survive_fragmentation [OF e, of "\<lparr> so_recv = [CallInterrupted, Moved (take 5 ?f), Moved (drop 5 ?f)], so_send = [], so_sent = [] \<rparr>" "[]"]
    this(2,3) e
  show ?thesis
    by (auto simp: nonempty_parts_def simp del: take_append drop_append)
qed

text \<open>
  C16. Address gossip is well typed. A peer that reads what this node announces gets its first thousand
  records with numeric hosts and a port, each with its last-seen time clamped to 32 bits and without success
  history; and whatever a peer sends, what is read is at most a thousand acceptable records that claim no
  success, failure or manual status.
\<close>

theorem address_gossip:
  assumes "inet_ok N"
  shows "deserialize_addrv2 N (serialize_addrv2 N rs) =
      Inr (List.map_filter (announced N) (take MAX_ADDRV2_ITEMS (filter (\<lambda>r. numeric_host N (pe_host (pr_endpoint r))) rs))) \<and>
    (deserialize_addrv2 N payload = Inr got \<longrightarrow> length got \<le> MAX_ADDRV2_ITEMS \<and> list_all gossip_ok got)"
  using addrv2_roundtrip [OF assms] deserialize_addrv2_ok [OF assms] by blast

theorem address_gossip_witness:
  "deserialize_addrv2 toy_inet (serialize_addrv2 toy_inet []) = Inr []"
  using conjunct1 [OF address_gossip [OF toy_inet_ok], of "[]"] by (simp add: List.map_filter_def)

text \<open>
  Locators are short and complete. The locator of a verified chain of any length has at most 75 hashes,
  from the tip strictly back to genesis, so it always fits a request; and the answer to any locator is a
  contiguous run of at most 2000 headers behind the fork block, not empty when the fork block is not the tip.
\<close>

theorem block_locator_shape:
  assumes "verify_blocks C bs = Inr ()"
  shows "let idx = locator_indices (length bs - 1) 1 0 in
    make_block_locator C bs = Inr (map (\<lambda>i. hash_of C (bs ! i)) idx) \<and>
    hd idx = length bs - 1 \<and> last idx = 0 \<and> sorted_wrt (>) idx \<and> length idx \<le> 75 \<and>
    (\<exists>f n. headers_after_locator C bs g = Inr (map header_of (take n (drop (f + 1) bs))) \<and>
      n \<le> MAX_HEADERS_PER_RESPONSE \<and> locate_fork_index C bs (gh_locator g) = Inr f \<and> (f + 1 < length bs \<longrightarrow> n \<noteq> 0))"
proof -
  have h: "hashed C bs" and "bs \<noteq> []" and "length bs \<le> 2 ^ 64"
    using verified_hashed [OF assms] verified_length [OF assms] assms by (auto simp: verify_blocks_Inr)
  then show ?thesis using make_block_locator_hashed [OF h] headers_after_hashed [OF h, of g] by (simp add: Let_def)
qed

theorem block_locator_shape_witness:
  "make_block_locator toy [toy_genesis, toy_block] =
     Inr (map (\<lambda>i. hash_of toy ([toy_genesis, toy_block] ! i)) (locator_indices 1 1 0))"
  using block_locator_shape [OF toy_verify_two] by (simp add: Let_def)

text \<open>
  C17. The header download ends. With the announced height within the limit the loop needs no more rounds
  than that height and two, however the peer cuts its batches, so it does not run on an adversary's
  headers for ever; and what it returns is a linked chain of headers that ends at the announced tip and height.
\<close>

theorem header_sync_ends:
  assumes "unat (pv_best_height peer) \<le> 1000000"
  shows "header_rounds C N now rn peer (header_fuel peer + k) locator f [] =
      header_rounds C N now rn peer (header_fuel peer) locator f [] \<and>
    (header_rounds C N now rn peer (header_fuel peer) locator f [] s = (Inr (f', hs), t) \<longrightarrow>
      linked_headers C hs \<and> hs \<noteq> [] \<and> hash_hex C (hr_header (last hs)) = Inr (pv_tip_hash peer) \<and>
      hr_height (last hs) = pv_best_height peer)"
  using header_rounds_enough [OF assms] header_rounds_Inr [of C N now rn peer "header_fuel peer" locator f "[]" s f' hs t]
  by (auto simp: linked_headers_def)

theorem header_sync_ends_witness:
  "\<forall>k. header_rounds toy toy_inet 0 1 (\<lparr> pv_protocol_version = 5, pv_services = 1, pv_timestamp = 0, pv_best_height = 3,
      pv_genesis_hash = [], pv_tip_hash = [], pv_chainwork = [], pv_nonce = 1, pv_user_agent = [] \<rparr>) (5 + k) [] 0 [] =
    header_rounds toy toy_inet 0 1 (\<lparr> pv_protocol_version = 5, pv_services = 1, pv_timestamp = 0, pv_best_height = 3,
      pv_genesis_hash = [], pv_tip_hash = [], pv_chainwork = [], pv_nonce = 1, pv_user_agent = [] \<rparr>) 5 [] 0 []"
  using conjunct1 [OF header_sync_ends, of "\<lparr> pv_protocol_version = 5, pv_services = 1, pv_timestamp = 0, pv_best_height = 3,
      pv_genesis_hash = [], pv_tip_hash = [], pv_chainwork = [], pv_nonce = 1, pv_user_agent = [] \<rparr>"]
  by (simp add: header_fuel_def)

text \<open>
  C18. Side branches hold one body per hash, the first. Adding a block never replaces a stored body with the
  same header hash, so a peer that sends a wrong body first keeps the right one out; the hashes stay distinct,
  and the saved file loads back to the same blocks in order.
\<close>

theorem side_branches_keep_first_body:
  assumes "branches_ok C (ts_items s)" and "branch_put C b s = (Inr r, t)"
  shows "branches_ok C (ts_items t) \<and>
    (find_block C (ts_items s) h = Inr (Some x) \<longrightarrow> find_block C (ts_items t) h = Inr (Some x)) \<and>
    (branch_save t = (Inr (), t') \<longrightarrow> disk_ok (ts_disk t) \<longrightarrow> list_all stored_ok (ts_items t) \<longrightarrow>
      branch_load C (reopened t') = (Inr (), (reopened t') \<lparr> ts_items := ts_items t \<rparr>))"
  using branch_put_Inr [OF assms(2,1)] branches_reload [of t t' C] by (auto simp: list_all_iff)

theorem side_branches_keep_first_body_witness:
  "branches_ok toy (ts_items (snd (branch_put toy toy_genesis \<lparr> ts_items = [], ts_disk = st_disk toy_store \<rparr>)))"
proof (rule conjunct1 [OF side_branches_keep_first_body])
  show "branches_ok toy (ts_items \<lparr> ts_items = [], ts_disk = st_disk toy_store \<rparr>)" by (simp add: branches_ok_def)
  show "branch_put toy toy_genesis \<lparr> ts_items = [], ts_disk = st_disk toy_store \<rparr> =
      (Inr (), snd (branch_put toy toy_genesis \<lparr> ts_items = [], ts_disk = st_disk toy_store \<rparr>))"
    using toy_hash_genesis by (simp add: branch_put_def block_hash_def push_item_def sx_defs)
qed

text \<open>
  C19. An empty command field escapes the misbehaviour score. A header with the right message start and a
  command field of zeros makes the parser throw an invalid argument, which the catch of the turn, for runtime
  errors, does not take: the session ends by the exception, and the peer is not scored, counted or banned.
\<close>

theorem malformed_command_escapes:
  assumes "flowing (so_recv (lk_socket s))" and "nonempty_parts (so_recv (lk_socket s))"
    and "arriving (so_recv (lk_socket s)) = header @ rest" and "length header = 24"
    and "take 4 header = TESTNET_MESSAGE_START" and "take 12 (drop 4 header) = replicate 12 0"
    and "re_readable env = Inr True" and "\<not> over_threshold cfg s"
  shows "\<exists>t. session_round C N cfg endpoint env s = (Inl (InvalidArgument ''P2P command length is invalid''), t) \<and>
    lk_disk t = lk_disk s \<and> ss_score t = ss_score s \<and> ss_stats t = ss_stats s"
  using malformed_command [OF assms, of C N endpoint] by auto

theorem malformed_command_escapes_witness:
  "\<exists>t. session_round toy toy_inet toy_config toy_endpoint (toy_env (Inr True))
      (toy_session [Moved (TESTNET_MESSAGE_START @ replicate 20 0)]) =
    (Inl (InvalidArgument ''P2P command length is invalid''), t)"
proof -
  let ?s = "toy_session [Moved (TESTNET_MESSAGE_START @ replicate 20 0)]"
  have m: "length TESTNET_MESSAGE_START = 4" by (simp add: TESTNET_MESSAGE_START_def)
  have "\<exists>t. session_round toy toy_inet toy_config toy_endpoint (toy_env (Inr True)) ?s =
      (Inl (InvalidArgument ''P2P command length is invalid''), t) \<and> lk_disk t = lk_disk ?s \<and> ss_score t = ss_score ?s \<and>
      ss_stats t = ss_stats ?s"
    by (rule malformed_command_escapes [where header = "TESTNET_MESSAGE_START @ replicate 20 0" and rest = "[]"])
       (simp_all add: toy_session_def toy_env_def nonempty_parts_def m over_threshold_def
          toy_config_def toy_policy_def)
  then show ?thesis by blast
qed

section \<open>Text of the interfaces\<close>

text \<open>
  C20. JSON prints and parses back. A value whose integers fit 64 bits, whose objects are maps and whose doubles
  print as floating literals is what its text parses to, compact or indented from any depth. So no string,
  whatever bytes it holds, can break out of its quotes.
\<close>

theorem json_text_roundtrip:
  assumes "json_wf (prints_floating D) v"
  shows "parse_json D (dump D pretty indent v) = Inr v"
  by (rule parse_json_dump [OF assms])

theorem json_text_roundtrip_witness:
  "parse_json (\<lparr> d_stod = (\<lambda>t. Inr (t, length t)), d_finite = (\<lambda>_. True), d_show = id, d_of_int = show_int, d_to_int = (\<lambda>_. 0) \<rparr>)
     (dump (\<lparr> d_stod = (\<lambda>t. Inr (t, length t)), d_finite = (\<lambda>_. True), d_show = id, d_of_int = show_int, d_to_int = (\<lambda>_. 0) \<rparr>)
       True 0 (JObject [(''a'', JArray [JInt (- 5), JDouble ''1.5'', JString [CHR 0x22, CHR 0x01]]), (''b'', JNull)])) =
   Inr (JObject [(''a'', JArray [JInt (- 5), JDouble ''1.5'', JString [CHR 0x22, CHR 0x01]]), (''b'', JNull)])"
  by (rule json_text_roundtrip)
     (simp add: prints_floating_def scan_number_def int_part_def fraction_part_def exponent_part_def starts_digit_def
        skip_digits_def is_digit_def less_eq_char_def sorted_keys_def)

text \<open>
  The JSON parser ends and returns well formed values. Its mutual recursion needs no more steps than twice
  the input and one, whatever the input, so more fuel never changes the result; and what it accepts has
  integers in the range of 64 bits, sorted objects without duplicate keys, and only finite doubles.
\<close>

theorem json_parser_is_total:
  "(parse_json D s = Inr v \<longrightarrow> json_wf (d_finite D) v) \<and>
   parse_value D n (2 * length s + 1 + spare) s = parse_value D n (2 * length s + 1) s"
  using parse_json_wf [of D s v] enough_fuel [of s "2 * length s + 1" D n spare] by blast

theorem json_parser_is_total_witness:
  "json_wf (d_finite (\<lparr> d_stod = (\<lambda>t. Inr (t, length t)), d_finite = (\<lambda>_. True), d_show = id, d_of_int = show_int, d_to_int = (\<lambda>_. 0) \<rparr>))
     (JArray [JInt 7] :: string json)"
  by (rule conjunct1 [OF json_parser_is_total, rule_format, OF parse_json_dump [where v = "JArray [JInt 7]" and p = False and i = 0]])
     simp

text \<open>
  C21. An address names one key and notices a wrong character. A text decodes to a key exactly when it is, up to
  letter case and not mixed, the encoding of that valid key; every encoding decodes to its key; and changing
  one character of an address, anywhere in it, never gives another address.
\<close>

theorem address_has_one_text:
  "(decode_testnet_address C a = Inr k \<longleftrightarrow> encode_testnet_address C k = Inr (map to_lower a) \<and> \<not> mixed_case a) \<and>
   (encode_testnet_address C k = Inr a \<longrightarrow> decode_testnet_address C a = Inr k) \<and>
   (decode_testnet_address C a = Inr k \<longrightarrow> decode_testnet_address C (a[i := c]) = Inr k' \<longrightarrow> i < length a \<longrightarrow>
      to_lower c = to_lower (a ! i))"
  using decode_iff decode_encode one_error_detected by blast

theorem address_has_one_text_witness:
  "\<exists>a. encode_testnet_address toy (2 # replicate 32 7) = Inr a \<and> decode_testnet_address toy a = Inr (2 # replicate 32 7)"
proof -
  have "valid_compressed_public_key toy (2 # replicate 32 7)" by (simp add: valid_compressed_public_key_def toy_def)
  then obtain a where a: "encode_testnet_address toy (2 # replicate 32 7) = Inr a"
    using convert_pad [of 8 "2 # replicate 32 7" 5] by (auto simp: encode_Inr)
  with conjunct1 [OF conjunct2 [OF address_has_one_text]] show ?thesis by blast
qed

section \<open>The wallet\<close>

text \<open>
  C22. What the wallet pays with is accepted. A payment it returns applies to the coins it was chosen from, at the
  height it was made for: its inputs are different mature coins, each signed with its key. It pays the amount
  to the destination first, gives positive change at most once and to the wallet's own change key, and leaves
  a fee that covers its size at the rate asked for. Its identifier is assumed new, as a collision of digests
  would make it a duplicate.
\<close>

theorem payment_is_accepted:
  assumes "create_payment C K utxos h dest amount rate w = (Inr t, w')" and "signing_law C" and "rate < 2 ^ 63"
    and "sorted_keys utxos" and "map_of utxos (OutPoint (replicate 64 (CHR ''0'')) 0xffffffff) = None"
    and "txid C t = Inr s" and "\<And>i. map_of utxos (OutPoint s i) = None"
  shows "\<exists>paid size required utxos' destination_script change_script. apply_transaction C t h utxos = (Inr paid, utxos') \<and>
    virtual_size t = Inr size \<and> fee rate (of_nat size) = Inr required \<and> required \<le> paid \<and>
    make_p2pk_script C dest = Inr destination_script \<and>
    hd (tx_outputs t) = \<lparr> to_value = amount, to_script_pubkey = destination_script \<rparr> \<and>
    (\<exists>key. first_key C K 1 w = Inr key \<and> make_p2pk_script C (c_public_key C key) = Inr change_script) \<and>
    list_all (\<lambda>out. to_script_pubkey out = change_script \<and> 0 < to_value out) (tl (tx_outputs t)) \<and>
    length (tx_outputs t) \<le> 2"
  by (rule payment_applies [OF assms])

theorem payment_is_accepted_witness:
  "\<exists>paid utxos'. apply_transaction toy (toy_pay [2, 1, 1] [toy_out INITIAL_SUBSIDY]) 101 toy_utxos = (Inr paid, utxos')"
proof -
  obtain w where w: "create_payment toy toy_kdf toy_utxos 101 genesis_public_key INITIAL_SUBSIDY 0 toy_payer =
     (Inr (toy_pay [2, 1, 1] [toy_out INITIAL_SUBSIDY]), w)" using toy_create by blast
  show ?thesis
    using payment_is_accepted [OF w toy_signing _ toy_utxos_sorted _ toy_pay_txid]
    by (auto simp: toy_utxos_def toy_point_def TESTNET_GENESIS_HASH_def TESTNET_GENESIS_TXID_def)
qed

text \<open>
  C23. The wallet file. When a save returns, loading its file on a disk that does not fail gives the wallet back,
  entropy, master key, imported key and indices, whatever the loading object held before. The one exception is
  an index above one million: saving writes it and loading refuses it.
\<close>

theorem wallet_file_reloads:
  assumes "wallet_ok C K w" and "save_hd w = (Inr (), v)" and "disk_ok (wl_disk w)"
    and "wl_disk u = (wl_disk v) \<lparr> dk_io := [] \<rparr>"
  shows "unat (wl_next_receive w) \<le> 1000000 \<and> unat (wl_next_change w) \<le> 1000000 \<and>
      load_wallet C K u = (Inr (), reopened_wallet v) \<or>
    (1000000 < unat (wl_next_receive w) \<or> 1000000 < unat (wl_next_change w)) \<and>
      fst (load_wallet C K u) = Inl (RuntimeError ''Invalid wallet index'')"
  by (rule load_saved [OF assms])

theorem wallet_file_reloads_witness:
  "\<exists>v. save_hd (toy_wallet 5) = (Inr (), v) \<and> load_wallet toy toy_kdf (restarted_wallet v) = (Inr (), reopened_wallet v)"
proof -
  obtain v where v: "save_hd (toy_wallet 5) = (Inr (), v)" using toy_save by blast
  have "unat (wl_next_receive (toy_wallet 5)) \<le> 1000000" "unat (wl_next_change (toy_wallet 5)) \<le> 1000000"
    by (simp_all add: toy_wallet_def new_wallet_def)
  with v wallet_file_reloads [OF toy_wallet_ok(1) v toy_wallet_ok(2), of "restarted_wallet v"] show ?thesis
    by (auto simp: restarted_wallet_def)
qed

text \<open>
  C24. An address the wallet has handed out is its own. The wallet finds a key for the script of the address, with
  the public key the address encodes, directly after handing it out and again after a restart that loads the
  file it wrote; and the next address is a different index. A child key may fail to exist (BIP 32 leaves that open
  for any index). If one is missing among the indices up to the look-ahead, every look-up throws, for any script: the
  wallet then finds no key at all, but it never takes an address of its own for a foreign one. \<open>keys_ok\<close> says that a valid
  secret has a valid compressed public key.
\<close>

theorem handed_out_address_is_owned:
  assumes "keys_ok C K" and "wallet_ok C K w" and "disk_ok (wl_disk w)"
    and "unat (wl_next_receive w) < 2 ^ 32 - 21" and "get_new_address C K w = (Inr a, v)"
  shows "wl_next_receive v = wl_next_receive w + 1 \<and>
    (if derivable C K v then knows_address C K a v else \<forall>script. isl (fst (key_for_script C K script v))) \<and>
    (wl_disk u = (wl_disk v) \<lparr> dk_io := [] \<rparr> \<longrightarrow> load_wallet C K u = (Inr (), u') \<longrightarrow>
      (if derivable C K v then knows_address C K a u' else \<forall>script. isl (fst (key_for_script C K script u'))))"
  by (rule new_address_fate [OF assms])

theorem handed_out_address_is_owned_witness:
  "\<exists>a v u. get_new_address toy toy_kdf (toy_wallet 5) = (Inr a, v) \<and> load_wallet toy toy_kdf (restarted_wallet v) = (Inr (), u) \<and>
     knows_address toy toy_kdf a u"
proof -
  obtain a v u where n: "get_new_address toy toy_kdf (toy_wallet 5) = (Inr a, v)" and d: "derivable toy toy_kdf v"
    and u: "load_wallet toy toy_kdf (restarted_wallet v) = (Inr (), u)" using toy_restart by blast
  have "unat (wl_next_receive (toy_wallet 5)) < 2 ^ 32 - 21" by (simp add: toy_wallet_def)
  from handed_out_address_is_owned [OF toy_keys toy_wallet_ok this n, of "restarted_wallet v" u] n u d show ?thesis
    by (auto simp: restarted_wallet_def)
qed

text \<open>
  C25. Whatever the node does with its wallet, in any order, with failing disks and with key derivations that fail, the
  back end it ends with is consistent: a master key is there only together with the 32 bytes of entropy it is derived
  from, an imported key is valid, and a cache that counts as valid holds exactly the scripts and keys of the wallet up
  to the look-ahead. Where the derivation of the master key fails the back end keeps the entropy without a master key. The
  only condition on a call is that fresh entropy has 32 bytes.
\<close>

theorem wallet_states_are_consistent:
  assumes "manager_reach C K d s" and "disk_ok d" and "snd s = Some w"
  shows "wallet_ok C K w \<and> wl_disk w = fst s \<and> disk_ok (fst s) \<and> (wl_master w = None \<or> wl_entropy w \<noteq> None)"
  using manager_reach_inv [OF assms(1,2)] assms(3) by (auto simp: manager_inv_def wallet_inv_def)

theorem wallet_states_are_consistent_witness:
  "\<exists>s w. manager_reach toy toy_kdf \<lparr> dk_files = [], dk_io = [] \<rparr> s \<and> snd s = Some w \<and> wallet_ok toy toy_kdf w"
proof -
  obtain s w where s: "manager_reach toy toy_kdf \<lparr> dk_files = [], dk_io = [] \<rparr> s" "snd s = Some w" using toy_manager by blast
  have "disk_ok \<lparr> dk_files = [], dk_io = [] \<rparr>" by (simp add: disk_ok_def sorted_keys_def)
  from wallet_states_are_consistent [OF s(1) this s(2)] s show ?thesis by blast
qed

text \<open>
  The recovery phrase. The 24 words made from 32 bytes of entropy are read back as these bytes, and a text is
  accepted only if its words, in lower case and separated by single spaces, are the phrase of the entropy it
  gives: no other phrase opens the same wallet.
\<close>

theorem recovery_phrase_codec:
  "(crypto_ok C \<longrightarrow> length entropy = 32 \<longrightarrow>
      (\<exists>phrase. entropy_to_mnemonic C entropy = Inr phrase \<and> mnemonic_to_entropy C phrase = Inr entropy)) \<and>
   (mnemonic_to_entropy C typed = Inr found \<longrightarrow>
      length found = 32 \<and> entropy_to_mnemonic C found = Inr (join (CHR '' '') (mnemonic_words typed)))"
  using phrase_roundtrip phrase_unique by blast

theorem recovery_phrase_codec_witness:
  "\<exists>phrase. entropy_to_mnemonic toy (replicate 32 7) = Inr phrase \<and> mnemonic_to_entropy toy phrase = Inr (replicate 32 7)"
  using recovery_phrase_codec toy_ok by (metis length_replicate)

section \<open>The RPC interface\<close>

text \<open>
  C26. Only who holds the cookie reaches the commands. If serving a connection changed the node, the message was a
  POST whose authorization header is the base 64 text of exactly the server's cookie, and no other cookie has
  that text.
\<close>

theorem rpc_needs_cookie:
  assumes "rpc_handle_client D cookie handler s = (r, s')" and "cl_node s' \<noteq> cl_node s"
  shows "\<exists>http x. receive_http (cl_socket s) = (Inr http, x) \<and> starts_with (hm_start_line http) ''POST '' \<and>
    map_of (hm_headers http) ''authorization'' = Some (basic_auth cookie) \<and>
    (\<forall>other. basic_auth other = basic_auth cookie \<longrightarrow> other = cookie)"
  using client_node [OF assms] base64_inject by (auto simp: basic_auth_def)

theorem rpc_needs_cookie_witness:
  "\<exists>http x. receive_http (carrying toy_call) = (Inr http, x) \<and> starts_with (hm_start_line http) ''POST ''"
proof -
  obtain s' where "rpc_handle_client toy_doubles ''k'' toy_handler toy_client = (Inr (), s')" "cl_node s' = 1"
    using toy_served by blast
  from rpc_needs_cookie [OF this(1)] this(2) show ?thesis by (auto simp: toy_client_def)
qed

text \<open>
  C27. A call reaches the handler once and its answer comes back. When both directions deliver what was sent, in
  parts of any size, and the messages fit the reader's limit, the server runs the handler once, on the method and
  parameters of the call, and the caller gets the handler's result, or its error with the code. One thing changes on the way,
  in both directions: a double that prints without a point or exponent, such as 1 or 50, arrives as the integer of that
  value (\<open>received\<close>); every other value arrives as it was sent. Of the standard library it is asked that the doubles sent
  print as number literals that read back to them (\<open>double_literal\<close>), as those do that are zero or normal.
\<close>

theorem rpc_call_reaches_handler:
  assumes "delivers (cl_socket s) (http_request host cookie (call_body D name params))" and "sends (cl_socket s)"
    and "tight host" "cookie \<noteq> []" "list_all (json_wf (double_literal D)) params"
    and "length (http_request host cookie (call_body D name params)) \<le> MAX_RPC_REQUEST"
    and "handler \<lparr> rq_method = name, rq_params = map (received D) params, rq_id = call_id \<rparr> (cl_node s) = (r, n)"
    and "sendable D r" and "length (reply D r) \<le> MAX_RPC_REQUEST"
    and "delivers c (reply D r)" and "sends c"
  shows "\<exists>s' t. rpc_handle_client D cookie handler s = (Inr (), s') \<and> cl_node s' = n \<and>
    so_sent (cl_socket s') = so_sent (cl_socket s) @ string_bytes (reply D r) \<and>
    rpc_call D host cookie name params c = (map_sum id (received D) (answer r), t) \<and>
    so_sent t = so_sent c @ string_bytes (http_request host cookie (call_body D name params))"
  by (rule call_roundtrip [where handler = handler and r = r and n = n, OF assms])

theorem rpc_call_reaches_handler_witness:
  "\<exists>t. rpc_call toy_doubles ''h'' ''k'' ''stop'' [] (carrying (reply toy_doubles toy_outcome)) =
    (Inl (RpcError (- 32603) ''no coin''), t)"
proof -
  let ?c = "carrying (reply toy_doubles toy_outcome)"
  have "\<exists>s' t. rpc_handle_client toy_doubles ''k'' toy_handler toy_client = (Inr (), s') \<and> cl_node s' = 1 \<and>
    so_sent (cl_socket s') = so_sent (cl_socket toy_client) @ string_bytes (reply toy_doubles toy_outcome) \<and>
    rpc_call toy_doubles ''h'' ''k'' ''stop'' [] ?c = (map_sum id (received toy_doubles) (answer toy_outcome), t) \<and> so_sent t = so_sent ?c @ string_bytes toy_call"
    unfolding toy_call_def
    by (rule rpc_call_reaches_handler [where handler = toy_handler and r = toy_outcome and n = 1,
          OF toy_client_delivers toy_tight _ _ toy_call_fits(2) [unfolded toy_call_def] toy_handled _ toy_reply_fits(2)
            carrying_delivers [OF toy_reply_fits(1)] carrying_sends])
       (simp_all add: sendable_def toy_outcome_def)
  then show ?thesis unfolding toy_answer by auto
qed

text \<open>
  C28. No command takes the chain away. From files that load to a verified chain, every command with every
  parameters and whichever disk calls fail leaves files that load to it or are a complete commit of a verified chain
  with more work; and only the two mining commands can do the latter.
\<close>

theorem rpc_keeps_chain:
  "triple (\<lambda>s. holds C bs u (rn_disk s)) (command_handler C K D A env q)
     (\<lambda>_ s. chain_outcome C bs u (rn_disk s)) (\<lambda>s. chain_outcome C bs u (rn_disk s)) \<and>
   (rq_method q \<in> {''generate'', ''generatetoaddress''} \<or>
    triple (\<lambda>s. holds C bs u (rn_disk s)) (command_handler C K D A env q)
      (\<lambda>_ s. holds C bs u (rn_disk s)) (\<lambda>s. holds C bs u (rn_disk s)))"
  using command_outcome unfolding triple_def by (fastforce split: sum.splits)

text \<open>
  C29. A returned payment is in the mempool file. When \<open>sendtoaddress\<close> returns, its result is the identifier of a
  transaction whose first output pays the amount to the key of the address, the mempool file now loads to the pool it held
  before with this transaction at its end, which applies to the coins of the chain, and the chain is untouched; an error
  leaves the chain untouched.
\<close>

theorem rpc_payment_enters_mempool:
  "triple (\<lambda>s. s = s0 \<and> holds C bs u (rn_disk s)) (command_handler C K D A env (asks ''sendtoaddress'' params))
     (\<lambda>v s. \<exists>address destination amount script t i rest pool h. hd params = JString address \<and>
        decode_testnet_address C address = Inr destination \<and> make_p2pk_script C destination = Inr script \<and>
        bindE (amount_param D A (params ! 1)) parse_bin_amount = Inr amount \<and> 0 < amount \<and>
        tx_outputs t = \<lparr> to_value = amount, to_script_pubkey = script \<rparr> # rest \<and> txid C t = Inr i \<and> v = JString i \<and>
        pool_on (rn_disk s0) pool \<and> mempool_ok C u h (pool @ [t]) \<and> pool_on (rn_disk s) (map lower_txids (pool @ [t])) \<and> holds C bs u (rn_disk s))
     (\<lambda>s. holds C bs u (rn_disk s))"
  using send_result [where q = "asks ''sendtoaddress'' params"] command_outcome(2) [where q = "asks ''sendtoaddress'' params"]
  by (intro tripleI) (simp, fastforce)

text \<open>
  C30. A returned mining command has committed its blocks. The result lists the hashes of as many new blocks as
  asked for, between 1 and 100000; the old chain with these blocks is verified and completely committed to the files with
  its coins; after their coinbases the first of them holds exactly the transactions that the mempool file held before the command, in their
  order, and the others none; and the mempool file is now empty.
\<close>

theorem rpc_mining_commits:
  "triple (\<lambda>s. s = s0 \<and> holds C bs u (rn_disk s)) (command_handler C K D A env (asks ''generate'' params))
     (\<lambda>v s. \<exists>count pool new u' hashes. pool_on (rn_disk s0) pool \<and>
        integer_param D (params ! 0) ''Block count'' = Inr count \<and> 0 < count \<and> count \<le> 100000 \<and>
        mined C bs (nat count) pool (bs @ new) u' (rn_disk s) \<and> mapE (block_hash C) new = Inr hashes \<and>
        v = JArray (map JString hashes) \<and> pool_on (rn_disk s) [])
     (\<lambda>s. chain_outcome C bs u (rn_disk s))"
  using generate_result [where q = "asks ''generate'' params"] command_outcome(1) [where q = "asks ''generate'' params"]
  by (intro tripleI) (simp, blast)

text \<open>
  C31. The chain queries answer from the chain on disk. On files that load to a verified chain and do not fail, the
  count is the height of the tip, the best hash that of the last block, the hash of a height that of the block there, with an
  error for every other 64-bit number, and a hash finds its block with the confirmations up to the tip. The chain work reported
  with a block is that of the whole chain, whichever block is asked for. No query changes the node.
\<close>

theorem rpc_chain_queries:
  assumes "holds C bs u (rn_disk s)" and "dk_io (rn_disk s) = []" and "- (2 ^ 63) \<le> k" "k < 2 ^ 63"
    and "i < length bs" and "\<forall>j < i. hash_of C (bs ! j) \<noteq> hash_of C (bs ! i)"
  shows "command_handler C K D A env (asks ''getblockcount'' []) s = (Inr (JInt (int (length bs) - 1)), s) \<and>
    command_handler C K D A env (asks ''getbestblockhash'' []) s = (Inr (JString (hash_of C (last bs))), s) \<and>
    command_handler C K D A env (asks ''getblockhash'' [JInt k]) s =
      (if 0 \<le> k \<and> k < int (length bs) then Inr (JString (hash_of C (bs ! nat k)))
       else Inl (RpcError (- 8) ''Block height out of range''), s) \<and>
    command_handler C K D A env (asks ''getblock'' [JString (hash_of C (bs ! i))]) s =
      (map_sum handler_error id (bindE (bindE (calculate_chainwork bs) uint256_to_hex)
         (block_json C D (bs ! i) (of_nat (length bs - i)))), s)"
  using query_results [OF assms(1,2)] assms(3-6) by blast

theorem rpc_chain_queries_witness:
  "fst (command_handler toy toy_kdf toy_doubles toy_arith toy_command_env (asks ''getblockhash'' [JInt 0]) toy_node) =
     Inr (JString (hash_of toy toy_genesis))"
  using rpc_chain_queries 
    [where K = toy_kdf and D = toy_doubles and A = toy_arith and env = toy_command_env, OF toy_node_holds toy_node_calm, of 0 0] by simp

section \<open>The node process\<close>


text \<open>
  C33. Starting a second node on a directory takes the first one's RPC away. The refused process exits with status 1,
  but its handler removes the cookie file of the node that is running, so every later client call fails; and it says
  nothing, neither on the console nor in the log, because the logger is configured after the lock.
\<close>

theorem second_start_removes_cookie:
  "\<exists>t. run_node_child C env options (fresh_app d True pipe) = (Some (Inr 1), t) \<and>
    fst (read_rpc_cookie (no_data_directory options) (pr_disk t)) = Inl (cookie_missing (no_data_directory options)) \<and>
    pr_out t = [] \<and> pr_err t = [] \<and>
    map_of (dk_files (pr_disk t)) ''debug.log'' = map_of (dk_files d) ''debug.log''"
  using start_refused [of C env options d pipe] cookie_unreadable by (fastforce simp: lock_path_def cookie_path_def)

text \<open>
  C34. The connection limits hold under every interleaving of the accept, outbound and session threads. With a policy
  the constructor accepts, there are never more inbound sessions than configured, nor more outbound ones, and at most
  1088 in all. The counter of inbound connections is exactly the open inbound sessions and the connection the accept loop
  has counted and not yet started or refused; the counter of active peers is exactly the sessions that have begun. No two
  sessions past the handshake have the same nonce or the node's own, and the list of live peers names open sessions only.
\<close>

theorem connection_limits:
  assumes "policy_ok (nc_policy cfg) = Inr ()" and "initial_outbound_peers cfg d = (Inr selected, d')"
    and "slots_reach cfg selected s"
  shows "inbound_sessions s \<le> np_max_inbound (nc_policy cfg) \<and> length (outbound_owners s) \<le> np_max_outbound (nc_policy cfg) \<and>
    length (sl_sessions s) \<le> 1088 \<and>
    sl_active_inbound s = word_of_nat (inbound_sessions s + awaiting s) \<and> sl_active_peers s = word_of_nat (begun_sessions s) \<and>
    distinct (session_nonces s) \<and> nc_nonce cfg \<notin> set (session_nonces s) \<and>
    fst ` set (sl_live_peers s) \<subseteq> insert 0 (held_peer ` slot_stage ` set (sl_sessions s))"
  using limits_reached [OF assms] counters_reach [OF assms(3)] nonces_reach [OF assms(3)] peers_reach [OF assms(3)]
  by (simp add: counters_exact_def nonces_exact_def peers_held_def)

theorem connection_limits_witness:
  "inbound_sessions toy_slots \<le> 32 \<and> length (sl_sessions toy_slots) = 1"
  using connection_limits [OF toy_policy_ok toy_selected toy_slots_reach]
  by (simp add: toy_config_def toy_policy_def toy_slots_def no_sessions_def)

section \<open>The command line programs\<close>

text \<open>
  C35. No one-shot command takes the chain away. Whatever call fails, and whether the command succeeds, every command
  but the two that rebuild the chain from its block file or from a peer leaves a directory from which the same chain
  loads; mining may leave a complete commit of a verified chain with more work instead. The simple server is among them,
  with any sequence of clients.
\<close>

theorem one_shot_keeps_chain:
  assumes "plan_arguments home arguments = Inr (One_shot directory positional)"
    and "daemon_main C K app env elsewhere home arguments s = (status, err, t)" and "holds C bs u (sh_disk s)"
    and "hd positional \<notin> {''syncfrom'', ''reindex''}"
  shows "chain_outcome C bs u (sh_disk t) \<and>
    (if hd positional = ''generate'' then True else holds C bs u (sh_disk t))"
proof -
  obtain code where "run_one_shot C K env directory positional s = (code, err, t)"
    using assms(1,2) by (auto simp: daemon_main_def split: prod.splits)
  from one_shot_outcome [OF this assms(3,4)] show ?thesis by simp
qed

theorem one_shot_keeps_chain_witness:
  "\<exists>app. chain_outcome toy [toy_genesis] [] (sh_disk (snd (snd (daemon_main toy toy_kdf app toy_shell_env False ''home''
     [''-testnet'', ''generate'', ''1''] toy_shell))))"
proof -
  fix app
  obtain status err t where run: "daemon_main toy toy_kdf app toy_shell_env False ''home''
     [''-testnet'', ''generate'', ''1''] toy_shell = (status, err, t)"
    by (rule prod_cases3)
  have "hd [''generate'', ''1''] \<notin> {''syncfrom'', ''reindex''}" by simp
  from one_shot_keeps_chain [OF toy_one_shot run toy_shell_holds this] run
  have "chain_outcome toy [toy_genesis] [] (sh_disk (snd (snd (daemon_main toy toy_kdf app toy_shell_env False ''home''
     [''-testnet'', ''generate'', ''1''] toy_shell))))" by simp
  then show ?thesis by blast
qed

text \<open>
  C36. Whatever the command line, a node that is launched has a data directory and a non-zero RPC port, and a non-zero
  peer port unless the deprecated form was used; and its network policy is one the constructor accepts, but for a
  \<^verbatim>\<open>-maxconnections\<close> that leaves more than 1024 inbound connections.
\<close>

theorem command_line_limits:
  assumes "plan_arguments directory arguments = Inr (Launch warned node)"
  shows "no_rpc_port node \<noteq> 0 \<and> (warned \<or> no_p2p_port node \<noteq> 0) \<and> no_data_directory node \<noteq> [] \<and>
    np_max_outbound (no_network_policy node) \<le> 64 \<and> np_ban_seconds (no_network_policy node) \<le> 31536000 \<and>
    (policy_ok (no_network_policy node) = Inr () \<longleftrightarrow> np_max_inbound (no_network_policy node) \<le> 1024)"
proof -
  have "policy_range (no_network_policy node)" using planned_launch [OF assms] by blast
  then show ?thesis using planned_launch [OF assms] range_policy_ok by (auto simp: policy_range_def default_policy_def)
qed

theorem command_line_limits_witness:
  "no_rpc_port ((default_node_options ''data'') \<lparr> no_network_policy := default_policy \<lparr> np_max_inbound := 5 \<rparr> \<rparr>) \<noteq> 0"
  using command_line_limits [OF toy_plan] by blast

text \<open>
  C37. With \<^verbatim>\<open>-rpcwait\<close> the client may run a command twice. When the server has run the command but its answer is
  lost, the client takes that for a server that is not up yet and sends the same command again: the handler runs a second
  time, so a payment is made twice, and only the second answer is shown.
\<close>

theorem waiting_client_repeats_command:
  assumes "delivers (cl_socket s1) (http_request host cookie (call_body D name params))" "sends (cl_socket s1)"
    and "delivers (cl_socket s2) (http_request host cookie (call_body D name params))" "sends (cl_socket s2)"
    and "tight host" "cookie \<noteq> []" "list_all (json_wf (double_literal D)) params"
    and "length (http_request host cookie (call_body D name params)) \<le> MAX_RPC_REQUEST"
    and "handler \<lparr> rq_method = name, rq_params = map (received D) params, rq_id = call_id \<rparr> (cl_node s1) = (r1, n1)"
    and "handler \<lparr> rq_method = name, rq_params = map (received D) params, rq_id = call_id \<rparr> (cl_node s2) = (r2, n2)"
    and "sendable D r2" "length (reply D r2) \<le> MAX_RPC_REQUEST"
    and "fst (read_rpc_cookie directory (at_disk a1)) = Inr cookie" "at_socket a1 = Inr c1" "sends c1" "so_recv c1 = []" "\<not> at_late a1"
    and "fst (read_rpc_cookie directory (at_disk a2)) = Inr cookie" "at_socket a2 = Inr c2" "sends c2" "delivers c2 (reply D r2)"
  shows "\<exists>t1 t2. rpc_handle_client D cookie handler s1 = (Inr (), t1) \<and> cl_node t1 = n1 \<and>
    rpc_handle_client D cookie handler s2 = (Inr (), t2) \<and> cl_node t2 = n2 \<and>
    cli_loop D directory host True name params [a1, a2] = (Some (map_sum id (received D) (answer r2)),
      [so_sent c1 @ string_bytes (http_request host cookie (call_body D name params)),
       so_sent c2 @ string_bytes (http_request host cookie (call_body D name params))])"
  by (rule repeated_call [where handler = handler and ?n1.0 = n1, OF assms])

theorem waiting_client_repeats_command_witness:
  "\<exists>t2. rpc_handle_client toy_doubles ''k'' toy_handler (toy_client \<lparr> cl_node := 1 \<rparr>) = (Inr (), t2) \<and> cl_node t2 = 2 \<and>
    fst (cli_loop toy_doubles ''data'' ''h'' True ''stop'' [] toy_attempts) = Some (Inl (RpcError (- 32603) ''no coin''))"
proof -
  let ?s2 = "toy_client \<lparr> cl_node := 1 \<rparr>" and ?c2 = "carrying (reply toy_doubles toy_outcome)"
  let ?a = "\<lambda>socket. \<lparr> at_disk = toy_cookie_disk, at_socket = Inr socket, at_late = False \<rparr>"
  have s2: "cl_socket ?s2 = cl_socket toy_client" by simp
  have h2: "toy_handler \<lparr> rq_method = ''stop'', rq_params = map (received toy_doubles) [], rq_id = call_id \<rparr> (cl_node ?s2) = (toy_outcome, 2)"
    by (simp add: toy_handler_def toy_outcome_def)
  have "\<exists>t1 t2. rpc_handle_client toy_doubles ''k'' toy_handler toy_client = (Inr (), t1) \<and> cl_node t1 = 1 \<and>
    rpc_handle_client toy_doubles ''k'' toy_handler ?s2 = (Inr (), t2) \<and> cl_node t2 = 2 \<and>
    cli_loop toy_doubles ''data'' ''h'' True ''stop'' [] [?a silent, ?a ?c2] = (Some (map_sum id (received toy_doubles) (answer toy_outcome)),
      [so_sent silent @ string_bytes (http_request ''h'' ''k'' (call_body toy_doubles ''stop'' [])),
       so_sent ?c2 @ string_bytes (http_request ''h'' ''k'' (call_body toy_doubles ''stop'' []))])"
    by (rule waiting_client_repeats_command [where handler = toy_handler and ?n1.0 = 1, OF toy_client_delivers
          toy_client_delivers [folded s2] toy_tight _ _ toy_call_fits(2) [unfolded toy_call_def] toy_handled h2 _ toy_reply_fits(2)
          _ _ silent_sends _ _ _ carrying_sends carrying_delivers [OF toy_reply_fits(1)]])
      (simp_all add: toy_cookie sendable_def toy_outcome_def)
  then show ?thesis by (auto simp: toy_attempts_def toy_answer)
qed

section \<open>Wire formats\<close>

text \<open>
  C38. Transactions have one encoding. A byte string parses as a transaction exactly when it is what that
  transaction, whose input identifiers are then lower case hexadecimal, serialises to: parsing inverts
  serialising and accepts nothing else.
\<close>

theorem transaction_codec:
  "(deserialize_transaction bs = Inr t) \<longleftrightarrow> (canonical_txids t \<and> serialize_transaction t = Inr bs)"
  by (rule deserialize_transaction_eq)

text \<open>
  Headers and stored blocks likewise. What parses is exactly what serialises, for a stored block within
  the limits the reader enforces: 100000 transactions of at most 4000000 bytes.
\<close>

theorem header_and_block_codec:
  "((deserialize_header bs = Inr h) \<longleftrightarrow> (canonical_header h \<and> serialize_header h = Inr bs)) \<and>
   ((deserialize_stored_block bs = Inr b) \<longleftrightarrow> (stored_ok b \<and> serialize_stored_block b = Inr bs))"
  by (intro conjI deserialize_header_eq deserialize_stored_block_eq)

text \<open>
  CompactSize is canonical. At any position of any input the reader returns the value whose encoding
  stands there, and it consumes nothing but the encoding of the value it returns, so the longer forms are
  refused.
\<close>

theorem compact_size_codec:
  "reads read_compact_size (append_compact_size [] v) v \<and>
   consumes read_compact_size (\<lambda>w bs. bs = append_compact_size [] w)"
  by (intro conjI read_compact_size_enc read_compact_size_sound)

section \<open>Mining and work\<close>

text \<open>
  C39. A mined block is what verification asks for. Its coinbase pays the subsidy of its height and the fees,
  its header commits to its transactions, names the given predecessor and bits, and its hash meets the
  target.
\<close>

theorem mined_block_meets_rules:
  assumes "mine_testnet_block C now height prev ptime bits script txs fees = Inr b"
  shows "(\<exists>subsidy root. block_subsidy height TESTNET_HALVING_INTERVAL = Inr subsidy \<and> money_range (subsidy + fees) \<and>
      b_transactions b = coinbase_of height (subsidy + fees) script # txs \<and>
      merkle_root_hex C (b_transactions b) = Inr root \<and> bh_merkle_root (b_header b) = root) \<and>
    bh_previous_hash (b_header b) = prev \<and> bh_bits (b_header b) = bits \<and> meets_target C (b_header b)"
  using mine_testnet_block_Inr [OF assms] by blast

theorem mined_block_meets_rules_witness:
  "meets_target toy (b_header (sb_block toy_block))"
  using mined_block_meets_rules [OF toy_mine] by blast

text \<open>
  Mining ends, and gives up only when there is nothing to find. The search over times and nonces is
  total, and when it throws no later time or nonce of the header would have met the target.
\<close>

theorem mining_is_exhaustive:
  assumes "crypto_ok C" and "valid_header h" and "compact_to_target (bh_bits h) = Inr target"
    and "mine_loop C h = Inl e" and "bh_time h < t \<or> bh_time h = t \<and> bh_nonce h \<le> n"
  shows "e = RuntimeError ''Exhausted time and nonce space while mining'' \<and>
    \<not> meets_target C (h \<lparr> bh_time := t, bh_nonce := n \<rparr>)"
  using mine_loop_exhausted [OF assms(1-4)] assms(5) by blast

theorem mining_is_exhaustive_witness:
  "\<not> meets_target hard (last_header \<lparr> bh_time := 0xffffffff, bh_nonce := 0xffffffff \<rparr>)"
  by (intro conjunct2 [OF mining_is_exhaustive [OF hard_facts]]) (simp add: last_header_def)

text \<open>
  Work is the expected number of hashes. A target is a positive 256-bit number and the proof of a
  block is the least whole number not below the hash space divided by the hashes that meet the target;
  it fits 256 bits with room to spare.
\<close>

theorem block_proof_is_expected_work:
  assumes "compact_to_target bits = Inr t" and "block_proof bits = Inr p"
  shows "0 < t \<and> t \<le> 2 ^ 256 - 1 \<and> 1 \<le> p \<and> p \<le> 2 ^ 255 \<and>
    (p - 1) * (t + 1) < 2 ^ 256 \<and> 2 ^ 256 \<le> p * (t + 1)"
  using compact_to_target_range [OF assms(1)] block_proof_range [OF assms(2)] block_proof_tight [OF assms] by blast

theorem block_proof_is_expected_work_witness:
  "\<exists>p. block_proof 0x1f00ffff = Inr p \<and> 1 \<le> p"
proof -
  obtain p where "block_proof 0x1f00ffff = Inr p" using toy_block_proof by blast
  from this block_proof_is_expected_work [OF toy_target this] show ?thesis by blast
qed

text \<open>
  Comparing chain work as text is comparing it as numbers. The sync code orders the hexadecimal texts of
  two chains' work; their string order is the order of the numbers.
\<close>

theorem chainwork_text_order:
  assumes "uint256_to_hex a = Inr s" and "uint256_to_hex b = Inr t"
  shows "(s < t) \<longleftrightarrow> (a < b)"
  using uint256_hex_order [OF assms] .

theorem chainwork_text_order_witness:
  "\<exists>s t. uint256_to_hex 9 = Inr s \<and> uint256_to_hex 16 = Inr t \<and> s < t"
proof -
  have "\<exists>s t. uint256_to_hex 9 = Inr s \<and> uint256_to_hex 16 = Inr t"
    by (simp add: uint256_to_hex_def uint256_maximum_eq Let_def)
  then obtain s t where st: "uint256_to_hex 9 = Inr s" "uint256_to_hex 16 = Inr t" by blast
  from st chainwork_text_order [OF st] show ?thesis by auto
qed

section \<open>Merkle roots and signatures\<close>

text \<open>
  The root commits to the list. Two lists of equally many transactions with the same Merkle root have
  the same hashes in the same order, unless the digest collides on the messages the two trees hash.
\<close>

theorem merkle_root_binds_transactions:
  assumes "merkle_root_raw C txs = Inr r" and "merkle_root_raw C txs' = Inr r" and "length txs = length txs'"
    and "mapE (raw_hash C) txs = Inr hs" and "mapE (raw_hash C) txs' = Inr hs'"
    and "inj_on (c_sha256 C) (merkle_messages C (length hs) hs \<union> merkle_messages C (length hs) hs')"
  shows "hs = hs'"
  using merkle_root_binds [OF assms] .

theorem merkle_root_binds_transactions_witness:
  "\<exists>h. mapE (raw_hash counting) [coinbase_of 0 INITIAL_SUBSIDY toy_script] = Inr [h] \<and>
     merkle_root_raw counting [coinbase_of 0 INITIAL_SUBSIDY toy_script] = Inr h \<and> [h] = [h]"
proof -
  let ?t = "coinbase_of 0 INITIAL_SUBSIDY toy_script"
  obtain h where h: "mapE (raw_hash counting) [?t] = Inr [h]" "merkle_root_raw counting [?t] = Inr h" "length h = 32"
    using counting_root by blast
  have inj: "inj_on (c_sha256 counting) (merkle_messages counting (length [h]) [h] \<union> merkle_messages counting (length [h]) [h])"
    using counting_inj [OF h(3)] by simp
  show ?thesis using h merkle_root_binds_transactions [OF h(2) h(2) refl h(1) h(1) inj] by blast
qed

text \<open>
  Lists of different length are not bound. Repeating the last transaction of a list of odd length
  above one leaves the Merkle root unchanged, so a header does not fix the number of transactions.
\<close>

theorem merkle_root_repeats_last:
  assumes "odd (length txs)" and "length txs > 1"
  shows "merkle_root_raw C (txs @ [last txs]) = merkle_root_raw C txs"
  using merkle_root_repeat_last [OF assms] .

theorem merkle_root_repeats_last_witness:
  "merkle_root_raw toy ([toy_spend, toy_spend, toy_spend] @ [last [toy_spend, toy_spend, toy_spend]]) =
     merkle_root_raw toy [toy_spend, toy_spend, toy_spend]"
  by (rule merkle_root_repeats_last) simp_all

text \<open>
  What the wallet signs, the node accepts. If the library's signatures verify under the key they
  were made with, an input signed by \<open>sign_p2pk_input\<close> passes \<open>verify_p2pk_input\<close>.
\<close>

theorem signed_input_verifies:
  assumes "signing_law C" and "sign_p2pk_input C t i script secret = Inr u"
  shows "verify_p2pk_input C u i script = Inr True"
  using sign_verify [OF assms] .

theorem signed_input_verifies_witness:
  "\<exists>u. sign_p2pk_input toy toy_spend 0 toy_script [] = Inr u \<and> verify_p2pk_input toy u 0 toy_script = Inr True"
proof -
  have law: "signing_law toy" by (simp add: signing_law_def toy_def)
  obtain u where u: "sign_p2pk_input toy toy_spend 0 toy_script [] = Inr u" using toy_sign by blast
  from u signed_input_verifies [OF law u] show ?thesis by blast
qed

section \<open>Amounts\<close>

text \<open>
  The fee has no wrap-around. For every 64-bit size and every rate of the type the fee is the exact
  product rounded up to a whole unit, or an exception when that is no amount of money.
\<close>

theorem fee_is_exact:
  assumes "0 \<le> rate" and "rate < 2 ^ 63"
  shows "fee rate virtual_bytes =
    (let exact = (rate * int (unat virtual_bytes) + 999) div 1000 in
     if exact \<le> MAX_MONEY then Inr exact
     else if unat virtual_bytes > (2 ^ 64 - 1000) div nat rate
     then Inl (OverflowError ''Fee calculation overflow'')
     else Inl (OverflowError ''Calculated fee exceeds money range''))"
  using fee_exact [OF assms] .

theorem fee_is_exact_witness: "fee 1000 250 = Inr 250"
  by (subst fee_is_exact) (simp_all add: amount_consts)

text \<open>
  Amounts print and parse back. The text the wallet shows for an amount parses to that amount.
\<close>

theorem amount_text_roundtrip:
  assumes "money_range a"
  shows "bindE (format_bin_amount a) parse_bin_amount = Inr a"
  using parse_format_bin [OF assms] .

theorem amount_text_roundtrip_witness:
  "bindE (format_bin_amount 123456789) parse_bin_amount = Inr 123456789"
  by (rule amount_text_roundtrip) (simp add: money_range_def amount_consts)

text \<open>
  The schedule halves and stays below the cap. The subsidy of a height depends only on its era, halves
  rounding down from era to era, and is zero without overflow for every later 64-bit height; all subsidies ever
  issued together stay within the money limit.
\<close>

theorem subsidy_schedule:
  assumes "interval \<noteq> 0"
  shows "block_subsidy height interval = Inr (era_subsidy (unat height div unat interval)) \<and>
    issued (unat TESTNET_HALVING_INTERVAL) n \<le> MAX_MONEY"
  using block_subsidy_era [OF assms] issued_le_max_money by blast

theorem subsidy_schedule_witness:
  "block_subsidy 210000 210000 = Inr (era_subsidy 1)"
  using subsidy_schedule [of 210000 210000] by simp

section \<open>The files of the store\<close>

text \<open>
  The three text files read back. The block index, the coin snapshot and the manifest parse to exactly
  what they were written from.
\<close>

theorem chainstate_texts_roundtrip:
  assumes "index_ok entries" and "sorted_keys utxos" and "list_all utxo_entry_ok utxos" and "plain best"
    and "manifest_ok m"
  shows "parse_index_text (make_index_text entries) = Inr entries \<and>
    parse_utxo_text (make_utxo_text utxos height best) height best = Inr utxos \<and>
    parse_manifest_text (make_manifest_text m) = Inr m"
  using index_round_trip [OF assms(1)] utxo_round_trip [OF assms(2-4)] manifest_round_trip [OF assms(5)] by blast

theorem chainstate_texts_roundtrip_witness:
  "parse_index_text (make_index_text [\<lparr> ie_height = 0, ie_offset = 0, ie_payload_size = 9, ie_hash = ''ab'' \<rparr>]) =
     Inr [\<lparr> ie_height = 0, ie_offset = 0, ie_payload_size = 9, ie_hash = ''ab'' \<rparr>]"
proof (rule conjunct1 [OF chainstate_texts_roundtrip [where utxos = "[]" and best = "''ab''"]])
  show "manifest_ok \<lparr> mf_generation = 1, mf_height = 0, mf_bestblock = [], mf_index_file = [], mf_index_sha256 = [],
     mf_utxo_file = [], mf_utxo_sha256 = [], mf_block_file_size = 9 \<rparr>"
    by (simp add: manifest_ok_def)
qed (simp_all add: index_ok_def index_entry_ok_def plain_def MAX_BLOCK_RECORD_SIZE_def sorted_keys_def)

section \<open>The mempool\<close>

text \<open>
  C40. Admission. A transaction that \<open>add\<close> accepts is no coinbase and new to the pool, is appended at the end, and
  the longer pool applies in order to the coins of the chain.
\<close>

theorem mempool_accepts_only_spendable:
  assumes "mempool_add C t utxos h pool = (Inr r, pool')"
  shows "ts_items pool' = ts_items pool @ [t] \<and> mempool_ok C utxos h (ts_items pool') \<and>
    \<not> is_coinbase t \<and> (\<forall>x \<in> set (ts_items pool). txid C x \<noteq> txid C t)"
  using mempool_add_Inr [OF assms] by blast

theorem mempool_accepts_only_spendable_witness:
  "\<exists>pool. mempool_add toy toy_spend toy_utxos 101 empty_pool = (Inr (), pool) \<and> mempool_ok toy toy_utxos 101 (ts_items pool)"
proof -
  obtain pool where p: "mempool_add toy toy_spend toy_utxos 101 empty_pool = (Inr (), pool)"
    using toy_pool_add by blast
  from p mempool_accepts_only_spendable [OF p] show ?thesis by blast
qed

text \<open>
  Revalidation. After the chain changed, \<open>revalidate\<close> keeps a subsequence of the pool without the confirmed
  transactions; when no pending identifier is taken by a coin, what it keeps applies in order to the new
  coins.
\<close>

theorem mempool_revalidation:
  assumes "mempool_revalidate C utxos h confirmed pool = (Inr r, pool')"
    and "crypto_ok C" and "sorted_keys utxos" and "fresh_ids C utxos (ts_items pool)"
  shows "subseq (ts_items pool') (ts_items pool) \<and>
    (\<forall>t \<in> set (ts_items pool'). \<exists>i. txid C t = Inr i \<and> i \<notin> confirmed) \<and>
    mempool_ok C utxos h (ts_items pool')"
  using mempool_revalidate_Inr [OF assms(1)] assms(2-4) by blast

theorem mempool_revalidation_witness:
  "\<exists>pool. mempool_revalidate toy toy_utxos 101 {} (empty_pool \<lparr> ts_items := [toy_spend] \<rparr>) = (Inr (), pool) \<and>
     subseq (ts_items pool) [toy_spend]"
proof -
  obtain pool where p: "mempool_revalidate toy toy_utxos 101 {} (empty_pool \<lparr> ts_items := [toy_spend] \<rparr>) = (Inr (), pool)"
    using toy_revalidate by blast
  from p mempool_revalidation [OF p toy_ok toy_utxos_sorted toy_fresh] show ?thesis by auto
qed

text \<open>
  The fees of the pool. What \<open>total_fees\<close> reports is the value the coins lose when the pool is applied, and
  exactly what the miner's own pass over the pool collects.
\<close>

theorem mempool_fees_are_minable:
  assumes "total_fees C transactions utxos h = Inr fees" and "sorted_keys utxos"
  shows "\<exists>utxos'. effective_utxos C transactions utxos h = Inr utxos' \<and> utxo_total utxos' + fees = utxo_total utxos \<and>
    0 \<le> fees \<and> fees \<le> MAX_MONEY \<and>
    foldE (collect_fee C h ''Candidate block fee overflow'') transactions (0, utxos) = Inr (fees, utxos')"
  using total_fees_Inr [OF assms] .

theorem mempool_fees_are_minable_witness:
  "\<exists>utxos'. effective_utxos toy [toy_spend] toy_utxos 101 = Inr utxos' \<and> utxo_total utxos' + 1000 = utxo_total toy_utxos"
  using mempool_fees_are_minable [OF toy_total_fees toy_utxos_sorted] by blast

text \<open>
  The pool survives a restart. After a save that returned, a load in a fresh process gives the same
  transactions in the same order, with their input identifiers in lower case.
\<close>

theorem mempool_file_roundtrip:
  assumes "mempool_save pool = (Inr (), pool')" and "disk_ok (ts_disk pool)"
  shows "mempool_load (reopened pool') = (Inr (), (reopened pool') \<lparr> ts_items := map lower_txids (ts_items pool) \<rparr>)"
  using mempool_reload [OF assms] .

theorem mempool_file_roundtrip_witness:
  "\<exists>pool'. mempool_load (reopened pool') = (Inr (), (reopened pool') \<lparr> ts_items := map lower_txids [toy_spend] \<rparr>)"
proof -
  obtain pool' where p: "mempool_save (empty_pool \<lparr> ts_items := [toy_spend] \<rparr>) = (Inr (), pool')"
    using toy_pool_save by blast
  from mempool_file_roundtrip [OF p empty_pool_ok] show ?thesis by auto
qed

section \<open>Peers and bans\<close>

text \<open>
  Announcements form a join. Recording a peer keeps the endpoints valid and unique, and what is then known
  of any endpoint depends neither on the order in which announcements arrive nor on hearing one twice.
\<close>

theorem peer_gossip_merges:
  assumes "peers_ok records" and "peer_ok a" and "peer_ok b"
  shows "peers_ok (add_or_update a records) \<and>
    peer_at (add_or_update a (add_or_update b records)) e = peer_at (add_or_update b (add_or_update a records)) e \<and>
    peer_at (add_or_update a (add_or_update a records)) e = peer_at (add_or_update a records) e"
  using add_or_update_ok [OF assms(1,2)] add_or_update_commute [of a b records e] assms(2,3)
  by (simp add: peer_ok_def peer_at_add_or_update join_idem)

theorem peer_gossip_merges_witness:
  "peers_ok (add_or_update toy_peer [])"
proof -
  have "peers_ok []" "peer_ok toy_peer"
    by (simp_all add: peers_ok_def peer_ok_def peer_acceptable_def valid_host_def toy_peer_def int64_range_def
        carriage_return_def)
  from peer_gossip_merges [OF this this(2)] show ?thesis by blast
qed

text \<open>
  Choosing whom to call. The selection is as long as asked or as there are usable peers, names no
  endpoint twice, none with ten failures and none excluded, and prefers manual, then recently
  successful, then less failing, then recently seen peers: nothing left out ranks before anything chosen.
\<close>

theorem outbound_selection:
  assumes "distinct (map pr_endpoint records)"
  shows "length (select_outbound n excluded records) = min n (length (filter (usable_peer excluded) records)) \<and>
    distinct (select_outbound n excluded records) \<and>
    (\<exists>chosen. select_outbound n excluded records = map pr_endpoint chosen \<and> set chosen \<subseteq> set (filter (usable_peer excluded) records) \<and>
       sorted (map outbound_key chosen) \<and>
       (\<forall>r \<in> set records. usable_peer excluded r \<longrightarrow> r \<in> set chosen \<or> (\<forall>c \<in> set chosen. outbound_key c \<le> outbound_key r)))"
  using select_outbound_facts [OF assms] .

theorem outbound_selection_witness:
  "distinct (select_outbound 8 [] [toy_peer])"
proof -
  have "distinct (map pr_endpoint [toy_peer])" by simp
  from outbound_selection [OF this, of 8 "[]"] show ?thesis by blast
qed

text \<open>
  Bans. After a ban, whether or not its file could be written, exactly the hosts banned before and
  the named one, for the given time, count as banned: a second ban never shortens a first.
\<close>

theorem ban_takes_effect:
  assumes "ban clock host duration score reason bans = (r, bans')"
  shows "is_banned later h 0 (ts_items bans') \<longleftrightarrow> is_banned later h 0 (ts_items bans) \<or>
    (h = host \<and> valid_ban_host host \<and> 0 < duration \<and> clock + duration > later)"
  using ban_banned [OF assms, of later h 0] by simp

theorem ban_takes_effect_witness:
  "is_banned 50 ''10.0.0.9'' 0 (ts_items (snd (ban 10 ''10.0.0.9'' 60 100 ''spam''
     \<lparr> ts_items = [], ts_disk = \<lparr> dk_files = [], dk_io = [] \<rparr> \<rparr>)))"
proof -
  let ?s = "\<lparr> ts_items = [], ts_disk = \<lparr> dk_files = [], dk_io = [] \<rparr> \<rparr> :: ban_store"
  obtain r s' where b: "ban 10 ''10.0.0.9'' 60 100 ''spam'' ?s = (r, s')" by fastforce
  from ban_takes_effect [OF b, of 50 "''10.0.0.9''"] show ?thesis
    by (simp add: b valid_ban_host_def carriage_return_def)
qed

text \<open>
  The peer and ban files survive a restart. A saved peer list loads to itself, a saved ban list to
  the bans that have not expired.
\<close>

theorem peer_and_ban_files_roundtrip:
  assumes "peers_save peers = (Inr (), peers')" and "disk_ok (ts_disk peers)" and "peers_ok (ts_items peers)"
    and "bans_save bans = (Inr (), bans')" and "disk_ok (ts_disk bans)" and "list_all ban_ok (ts_items bans)"
  shows "peers_load (reopened peers') = (Inr (), (reopened peers') \<lparr> ts_items := ts_items peers \<rparr>) \<and>
    bans_load clock (reopened bans') = (Inr (), (reopened bans') \<lparr> ts_items := prune_expired clock 0 (ts_items bans) \<rparr>)"
  using peers_reload [OF assms(1-3)] bans_reload [OF assms(4-6)] by blast

theorem peer_and_ban_files_roundtrip_witness:
  "\<exists>peers'. peers_load (reopened peers') = (Inr (), (reopened peers') \<lparr> ts_items := [] \<rparr>)"
proof -
  let ?s = "\<lparr> ts_items = [], ts_disk = \<lparr> dk_files = [], dk_io = [] \<rparr> \<rparr>"
  obtain p where p: "peers_save ?s = (Inr (), p)" using empty_files_save(1) by blast
  obtain b where b: "bans_save ?s = (Inr (), b)" using empty_files_save(2) by blast
  have d: "disk_ok (ts_disk ?s)" by (simp add: disk_ok_def sorted_keys_def)
  have "peers_ok (ts_items ?s)" "list_all ban_ok (ts_items ?s)" by (simp_all add: peers_ok_def)
  from peer_and_ban_files_roundtrip [OF p d this(1) b d this(2)] show ?thesis by auto
qed

end
